(* ===== verification/Prelude.thy ===== *)
theory Prelude
  imports Main "HOL-Library.Monad_Syntax"
begin

text \<open>
  Shared vocabulary of the development.  A Python computation that may raise is a
  value of \<open>'e + 'a\<close>: \<open>Inl e\<close> for the exception, \<open>Inr x\<close> for a normal return.
  \<open>bindE\<close> sequences two such computations, \<open>foldE\<close> is a \<open>for\<close> loop whose body may
  raise, \<open>mapE\<close> a comprehension whose element expression may raise.  The lemma
  collection \<open>errs\<close> holds the inversion rules for normal returns that the
  component proofs unfold with.
\<close>

named_theorems errs \<open>inversion rules for computations that return normally\<close>
named_theorems py \<open>evaluation of the Python-level primitives\<close>

definition bindE :: "'e + 'a \<Rightarrow> ('a \<Rightarrow> 'e + 'b) \<Rightarrow> 'e + 'b" where
  "bindE m f = (case m of Inl e \<Rightarrow> Inl e | Inr x \<Rightarrow> f x)"

lemma bindE_simps [simp, py]:
  "bindE (Inl e) f = Inl e"
  "bindE (Inr x) f = f x"
  by (simp_all add: bindE_def)

lemma bindE_Inr [errs]: "bindE m f = Inr y \<longleftrightarrow> (\<exists>x. m = Inr x \<and> f x = Inr y)"
  by (cases m) auto

lemma bindE_Inl: "bindE m f = Inl e \<longleftrightarrow> m = Inl e \<or> (\<exists>x. m = Inr x \<and> f x = Inl e)"
  by (cases m) auto

lemma if_Inl_Inr [errs]:
  "(if c then Inl e else m) = Inr y \<longleftrightarrow> \<not> c \<and> m = Inr y"
  "(if c then m else Inl e) = Inr y \<longleftrightarrow> c \<and> m = Inr y"
  by simp_all

lemma bindE_assoc: "bindE (bindE m f) g = bindE m (\<lambda>x. bindE (f x) g)"
  by (cases m) auto

lemma bindE_cong [fundef_cong]:
  "m = m' \<Longrightarrow> (\<And>x. m' = Inr x \<Longrightarrow> f x = f' x) \<Longrightarrow> bindE m f = bindE m' f'"
  by (cases m') auto

primrec foldE :: "('s \<Rightarrow> 'x \<Rightarrow> 'e + 's) \<Rightarrow> 's \<Rightarrow> 'x list \<Rightarrow> 'e + 's" where
  "foldE f s [] = Inr s"
| "foldE f s (x # xs) = bindE (f s x) (\<lambda>s'. foldE f s' xs)"

primrec mapE :: "('x \<Rightarrow> 'e + 'y) \<Rightarrow> 'x list \<Rightarrow> 'e + 'y list" where
  "mapE f [] = Inr []"
| "mapE f (x # xs) = bindE (f x) (\<lambda>y. bindE (mapE f xs) (\<lambda>ys. Inr (y # ys)))"

text \<open>A loop invariant: what every body keeps, the whole loop keeps.\<close>

lemma foldE_invariant:
  assumes "\<And>s x s'. P s \<Longrightarrow> x \<in> set xs \<Longrightarrow> f s x = Inr s' \<Longrightarrow> P s'"
    and "P s" and "foldE f s xs = Inr s'"
  shows "P s'"
  using assms
proof (induction xs arbitrary: s)
  case Nil
  then show ?case by simp
next
  case (Cons x xs)
  from Cons.prems(3) obtain s1 where s1: "f s x = Inr s1" and rest: "foldE f s1 xs = Inr s'"
    by (auto simp: bindE_Inr)
  have "P s1" using Cons.prems(1) [OF Cons.prems(2) _ s1] by simp
  from Cons.IH [OF _ this rest] Cons.prems(1) show ?case by (meson list.set_intros(2))
qed

lemma foldE_append: "foldE f s (xs @ ys) = bindE (foldE f s xs) (\<lambda>s'. foldE f s' ys)"
  by (induction xs arbitrary: s) (auto simp: bindE_assoc)

text \<open>A loop of checks that stops at the first one that fails.\<close>

lemma checks_pass:
  "foldE (\<lambda>_ x. if bad x then Inl (e x) else Inr ()) () xs = Inr () \<longleftrightarrow> (\<forall>x\<in>set xs. \<not> bad x)"
  by (induction xs) (auto simp: bindE_Inr)

lemma checks_fail:
  "foldE (\<lambda>_ x. if bad x then Inl (e x) else Inr ()) () xs = Inl y \<Longrightarrow> \<exists>x\<in>set xs. bad x \<and> y = e x"
  by (induction xs) (auto simp: bindE_Inl split: if_splits)

text \<open>Two loops over the same list that stay related.\<close>

lemma foldE_simulation:
  assumes step: "\<And>s t x s' t'. R s t \<Longrightarrow> x \<in> set xs \<Longrightarrow> f s x = Inr s' \<Longrightarrow> g t x = Inr t' \<Longrightarrow> R s' t'"
    and "R s t" and "foldE f s xs = Inr s'" and "foldE g t xs = Inr t'"
  shows "R s' t'"
  using assms
proof (induction xs arbitrary: s t)
  case Nil
  then show ?case by simp
next
  case (Cons x xs)
  from Cons.prems(3,4) obtain s1 t1
    where "f s x = Inr s1" "foldE f s1 xs = Inr s'" "g t x = Inr t1" "foldE g t1 xs = Inr t'"
    by (auto simp: bindE_Inr)
  moreover have "R s1 t1" using Cons.prems(1) [OF Cons.prems(2), of x s1 t1] calculation by simp
  ultimately show ?case using Cons.IH [of s1 t1] Cons.prems(1) by (meson list.set_intros(2))
qed

lemma mapE_Inr [errs]: "mapE f xs = Inr ys \<longleftrightarrow> list_all2 (\<lambda>x y. f x = Inr y) xs ys"
proof (induction xs arbitrary: ys)
  case Nil
  then show ?case by auto
next
  case (Cons x xs)
  then show ?case by (cases ys) (auto simp: bindE_Inr)
qed

text \<open>
  Python's \<open>next((x for x in xs if p x), None)\<close> is \<open>List.find p xs\<close>; the facts below
  are what the stores need of it.
\<close>

lemma find_SomeD: "List.find p xs = Some x \<Longrightarrow> x \<in> set xs \<and> p x"
  by (induction xs) (auto split: if_splits)

lemma find_None_iff2: "List.find p xs = None \<longleftrightarrow> (\<forall>x\<in>set xs. \<not> p x)"
  by (induction xs) auto

lemma distinct_map_eq:
  "distinct (map f xs) \<Longrightarrow> x \<in> set xs \<Longrightarrow> y \<in> set xs \<Longrightarrow> f x = f y \<Longrightarrow> x = y"
  by (induction xs) (auto simp: image_iff)

lemma sum_list_fun_upd:
  fixes f :: "'a \<Rightarrow> int"
  assumes "distinct xs" and "x \<in> set xs"
  shows "(\<Sum>y\<leftarrow>xs. (f(x := v)) y) = (\<Sum>y\<leftarrow>xs. f y) - f x + v"
  using assms
proof (induction xs)
  case Nil
  then show ?case by simp
next
  case (Cons a xs)
  show ?case
  proof (cases "a = x")
    case True
    with Cons.prems have "(\<Sum>y\<leftarrow>xs. (f(x := v)) y) = (\<Sum>y\<leftarrow>xs. f y)"
      by (metis (no_types, lifting) distinct.simps(2) fun_upd_other map_eq_conv)
    with True show ?thesis by simp
  next
    case False
    with Cons show ?thesis by simp
  qed
qed

lemma sum_list_upd_if:
  fixes f :: "'a \<Rightarrow> int"
  assumes "distinct xs" and "x \<in> set xs"
  shows "(\<Sum>y\<leftarrow>xs. if y = x then v else f y) = (\<Sum>y\<leftarrow>xs. f y) - f x + v"
  using sum_list_fun_upd [OF assms, of f v] by (simp add: fun_upd_def)

section \<open>Interfaces shared by the stateful components\<close>

text \<open>
  A component whose every call, successful or not, leaves a new state.  The laws are what
  each component discharges for its own calls; the lemmas speak of any sequence of calls.
\<close>

locale call_system =
  fixes call :: "'c \<Rightarrow> 's \<Rightarrow> 's" and ok :: "'c \<Rightarrow> bool" and inv :: "'s \<Rightarrow> bool"
  assumes call_inv: "ok c \<Longrightarrow> inv s \<Longrightarrow> inv (call c s)"
begin

lemma calls_inv: "list_all ok cs \<Longrightarrow> inv s \<Longrightarrow> inv (fold call cs s)"
  by (induction cs arbitrary: s) (simp_all add: call_inv)

end

text \<open>A component whose state only ever grows in some order: usage, a latch, a history.\<close>

locale growing_system = call_system call ok inv
  for call :: "'c \<Rightarrow> 's \<Rightarrow> 's" and ok :: "'c \<Rightarrow> bool" and inv :: "'s \<Rightarrow> bool" +
  fixes grows :: "'s \<Rightarrow> 's \<Rightarrow> bool"
  assumes grows_refl: "grows s s"
    and grows_trans: "grows s t \<Longrightarrow> grows t u \<Longrightarrow> grows s u"
    and call_grows: "ok c \<Longrightarrow> inv s \<Longrightarrow> grows s (call c s)"
begin

lemma calls_grow: "list_all ok cs \<Longrightarrow> inv s \<Longrightarrow> grows s (fold call cs s)"
proof (induction cs arbitrary: s)
  case Nil
  then show ?case by (simp add: grows_refl)
next
  case (Cons c cs)
  then have "ok c" "list_all ok cs" by simp_all
  with Cons.IH [OF _ call_inv [OF _ Cons.prems(2)]] call_grows [OF _ Cons.prems(2)]
  show ?case by (auto intro: grows_trans)
qed

end

text \<open>A component whose calls either fail and change nothing or succeed.\<close>

locale checked_system =
  fixes step :: "'s \<Rightarrow> 'c \<Rightarrow> 'e + 's" and inv :: "'s \<Rightarrow> bool"
  assumes step_inv: "inv s \<Longrightarrow> step s c = Inr s' \<Longrightarrow> inv s'"
begin

lemma steps_inv: "inv s \<Longrightarrow> foldE step s cs = Inr s' \<Longrightarrow> inv s'"
  using foldE_invariant [where P = inv and f = step] step_inv by metis

end

end
