(* ===== verification/PyNum.thy ===== *)
theory PyNum
  imports Prelude "HOL-Library.Log_Nat"
begin

text \<open>
  The numbers of the Python standard library that the ledgers rely on.

  A finite \<open>float\<close> enters the code only through \<open>str(value)\<close>: \<open>Decimal(str(value))\<close>
  and \<open>Fraction(str(value))\<close> read the shortest decimal that prints the float.  A
  \<open>pyfloat\<close> is therefore that decimal, a rational; \<open>str\<close> is injective and monotone on
  finite floats, so comparisons of floats are comparisons of these rationals.

  \<open>Decimal\<close> arithmetic (\<open>*\<close>, \<open>/\<close>) runs in the default context: the exact result is
  rounded to 28 significant digits, ties to even.  \<open>dec_round\<close> is that rounding.
  Comparisons and \<open>Decimal(...)\<close> of a string are exact.  \<open>Fraction\<close> arithmetic is
  exact, so it is the arithmetic of \<open>rat\<close>.
\<close>

type_synonym pyfloat = rat

fun ndigits :: "nat \<Rightarrow> nat" where
  "ndigits n = (if n < 10 then (if n = 0 then 0 else 1) else Suc (ndigits (n div 10)))"

declare ndigits.simps [simp del]

definition dec_adjusted :: "rat \<Rightarrow> int" where
  \<comment> \<open>\<open>Decimal.adjusted()\<close>: the decimal exponent of the leading digit of a positive number\<close>
  "dec_adjusted x =
     (if 1 \<le> x then int (ndigits (nat \<lfloor>x\<rfloor>)) - 1
      else - int (ndigits (nat (\<lceil>1 / x\<rceil> - 1))))"

definition pow10 :: "int \<Rightarrow> rat" where
  "pow10 e = (if 0 \<le> e then 10 ^ nat e else 1 / 10 ^ nat (- e))"

definition round_half_even :: "rat \<Rightarrow> int" where
  "round_half_even y =
     (let f = \<lfloor>y\<rfloor>; d = y - of_int f in
      if d < 1 / 2 then f else if 1 / 2 < d then f + 1
      else if even f then f else f + 1)"

definition dec_prec :: int where "dec_prec = 28"

definition dec_round :: "rat \<Rightarrow> rat" where
  "dec_round x =
     (if x \<le> 0 then 0
      else (let e = dec_adjusted x - (dec_prec - 1)
            in of_int (round_half_even (x / pow10 e)) * pow10 e))"

definition dec_div :: "rat \<Rightarrow> rat \<Rightarrow> rat" where "dec_div x y = dec_round (x / y)"
definition dec_mul :: "rat \<Rightarrow> rat \<Rightarrow> rat" where "dec_mul x y = dec_round (x * y)"

definition is_integral :: "rat \<Rightarrow> bool" where
  \<comment> \<open>\<open>q == q.to_integral_value()\<close> for a \<open>Decimal\<close>, \<open>q.denominator == 1\<close> for a \<open>Fraction\<close>\<close>
  "is_integral q \<longleftrightarrow> of_int \<lfloor>q\<rfloor> = q"

section \<open>Rounding\<close>

lemma pow10_pos [simp]: "0 < pow10 e"
  by (simp add: pow10_def)

lemma pow10_neq_0 [simp]: "pow10 e \<noteq> 0"
  using pow10_pos [of e] by linarith

lemma is_integral_of_int [simp]: "is_integral (of_int n)"
  by (simp add: is_integral_def)

lemma is_integral_iff: "is_integral q \<longleftrightarrow> (\<exists>n. q = of_int n)"
  by (metis is_integral_def is_integral_of_int)

lemma round_half_even_of_int [simp]: "round_half_even (of_int n) = n"
  by (simp add: round_half_even_def)

lemma round_half_even_error: "\<bar>of_int (round_half_even y) - y\<bar> \<le> 1 / 2"
proof -
  have "of_int \<lfloor>y\<rfloor> \<le> y" "y < of_int \<lfloor>y\<rfloor> + 1" by linarith+
  then show ?thesis
    by (auto simp: round_half_even_def Let_def abs_if; use of_int_floor_le [of y] in linarith)
qed

lemma round_half_even_mono: "x \<le> y \<Longrightarrow> round_half_even x \<le> round_half_even y"
proof -
  assume "x \<le> y"
  then consider "\<lfloor>x\<rfloor> = \<lfloor>y\<rfloor>" | "\<lfloor>x\<rfloor> + 1 \<le> \<lfloor>y\<rfloor>" using floor_mono [of x y] by linarith
  then show ?thesis
  proof cases
    case 1
    with \<open>x \<le> y\<close> show ?thesis by (auto simp: round_half_even_def Let_def)
  next
    case 2
    have "round_half_even x \<le> \<lfloor>x\<rfloor> + 1" "\<lfloor>y\<rfloor> \<le> round_half_even y"
      by (auto simp: round_half_even_def Let_def)
    with 2 show ?thesis by linarith
  qed
qed

lemma ndigits_bounds: "0 < n \<Longrightarrow> 10 ^ (ndigits n - 1) \<le> n \<and> n < 10 ^ ndigits n \<and> 0 < ndigits n"
proof (induction n rule: ndigits.induct)
  case (1 n)
  show ?case
  proof (cases "n < 10")
    case True
    with "1.prems" show ?thesis by (simp add: ndigits.simps [of n])
  next
    case False
    then have "0 < n div 10" by simp
    with "1.IH" False have IH: "10 ^ (ndigits (n div 10) - 1) \<le> n div 10"
      "n div 10 < 10 ^ ndigits (n div 10)" "0 < ndigits (n div 10)" by auto
    obtain k where k: "ndigits (n div 10) = Suc k" using IH(3) by (cases "ndigits (n div 10)") auto
    have d: "ndigits n = Suc (Suc k)" using False k by (simp add: ndigits.simps [of n])
    from IH k have "10 ^ k \<le> n div 10" "n div 10 < 10 ^ Suc k" by simp_all
    then have "10 ^ k * 10 \<le> n" "n < 10 ^ Suc k * 10" by linarith+
    with d show ?thesis by simp
  qed
qed

lemma ndigits_le: "n < 10 ^ k \<Longrightarrow> ndigits n \<le> k"
proof (cases "n = 0")
  case True
  then show ?thesis by (simp add: ndigits.simps)
next
  case False
  assume "n < 10 ^ k"
  have "10 ^ (ndigits n - 1) \<le> n" using ndigits_bounds [of n] False by blast
  also note \<open>n < 10 ^ k\<close>
  finally have "10 ^ (ndigits n - 1) < (10::nat) ^ k" .
  then have "ndigits n - 1 < k" by (rule power_less_imp_less_exp [rotated]) simp
  then show ?thesis by simp
qed

text \<open>An integer of at most 28 digits is representable: rounding leaves it alone.\<close>

lemma dec_round_of_int: "0 \<le> n \<Longrightarrow> n < 10 ^ 28 \<Longrightarrow> dec_round (of_int n) = of_int n"
proof (cases "n = 0")
  case True
  then show ?thesis by (simp add: dec_round_def)
next
  case False
  assume n: "0 \<le> n" "n < 10 ^ 28"
  with False have "1 \<le> n" by simp
  then have n1: "(1::rat) \<le> of_int n" by simp
  have "nat n < 10 ^ 28" using n by (simp add: nat_less_iff)
  then have "ndigits (nat n) \<le> 28" by (rule ndigits_le)
  then have e: "dec_adjusted (of_int n) - (dec_prec - 1) \<le> 0"
    using n1 by (simp add: dec_adjusted_def dec_prec_def)
  define e where "e = dec_adjusted (of_int n :: rat) - (dec_prec - 1)"
  have e0: "e \<le> 0" using e e_def by simp
  have scaled: "(of_int n :: rat) / pow10 e = of_int (n * 10 ^ nat (- e))"
    using e0 by (cases "e = 0") (auto simp: pow10_def)
  have "(of_int (round_half_even (of_int n / pow10 e)) :: rat) * pow10 e = of_int n"
    unfolding scaled round_half_even_of_int
    by (metis scaled nonzero_divide_eq_eq pow10_neq_0)
  with \<open>1 \<le> n\<close> show ?thesis by (simp add: dec_round_def e_def)
qed

lemma pow10_powi: "pow10 e = 10 powi e"
  by (simp add: pow10_def power_int_def field_simps)

lemma pow10_add: "pow10 (a + b) = pow10 a * pow10 b"
  by (simp add: pow10_powi power_int_add)

lemma pow10_mono: "a \<le> b \<Longrightarrow> pow10 a \<le> pow10 b"
  by (simp add: pow10_powi power_int_increasing)

lemma dec_adjusted_le: "0 < x \<Longrightarrow> pow10 (dec_adjusted x) \<le> x"
proof (cases "1 \<le> x")
  case True
  then have f: "1 \<le> \<lfloor>x\<rfloor>" by simp
  define k where "k = ndigits (nat \<lfloor>x\<rfloor>)"
  from f ndigits_bounds [of "nat \<lfloor>x\<rfloor>"] have "10 ^ (k - 1) \<le> nat \<lfloor>x\<rfloor>" "0 < k"
    by (simp_all add: k_def)
  then have "int (10 ^ (k - 1)) \<le> int (nat \<lfloor>x\<rfloor>)" by (simp only: of_nat_le_iff)
  then have "(10::int) ^ (k - 1) \<le> \<lfloor>x\<rfloor>" using f by simp
  then have "(10::rat) ^ (k - 1) \<le> x" by (simp add: le_floor_iff)
  with True \<open>0 < k\<close> show ?thesis
    by (simp add: dec_adjusted_def k_def [symmetric] pow10_def nat_diff_distrib)
next
  case False
  assume "0 < x"
  define m where "m = \<lceil>1 / x\<rceil> - 1"
  from False \<open>0 < x\<close> have "1 < 1 / x" by (simp add: field_simps)
  then have "1 < \<lceil>1 / x\<rceil>" by (simp add: less_ceiling_iff)
  then have m: "0 < m" by (simp add: m_def)
  define k where "k = ndigits (nat m)"
  have "nat m < 10 ^ k" using ndigits_bounds [of "nat m"] m by (simp add: k_def)
  then have "m < 10 ^ k" using m by (simp add: nat_less_iff)
  then have "\<lceil>1 / x\<rceil> \<le> 10 ^ k" by (simp add: m_def)
  then have "1 / x \<le> 10 ^ k" by (simp add: ceiling_le_iff)
  then have "1 / 10 ^ k \<le> x" using \<open>0 < x\<close> by (simp add: field_simps)
  with False have "0 < k" by (cases k) auto
  with False \<open>1 / 10 ^ k \<le> x\<close> show ?thesis
    by (auto simp: dec_adjusted_def m_def [symmetric] k_def [symmetric] pow10_def)
qed

text \<open>The rounding error is at most half a unit of the 28th digit.\<close>

lemma dec_round_error: "0 < x \<Longrightarrow> \<bar>dec_round x - x\<bar> \<le> x / (2 * 10 ^ 27)"
proof -
  assume x: "0 < x"
  define e where "e = dec_adjusted x - 27"
  have p: "0 < pow10 e" by simp
  have "\<bar>of_int (round_half_even (x / pow10 e)) - x / pow10 e\<bar> \<le> 1 / 2"
    by (rule round_half_even_error)
  then have "\<bar>of_int (round_half_even (x / pow10 e)) - x / pow10 e\<bar> * pow10 e \<le> 1 / 2 * pow10 e"
    by (rule mult_right_mono) (rule less_imp_le [OF p])
  moreover have "\<bar>of_int (round_half_even (x / pow10 e)) - x / pow10 e\<bar> * pow10 e
      = \<bar>(of_int (round_half_even (x / pow10 e)) - x / pow10 e) * pow10 e\<bar>"
    using p by (simp only: abs_mult abs_of_pos)
  moreover have "(of_int (round_half_even (x / pow10 e)) - x / pow10 e) * pow10 e = dec_round x - x"
    using x p by (simp add: dec_round_def dec_prec_def e_def [symmetric] left_diff_distrib)
  ultimately have "\<bar>dec_round x - x\<bar> \<le> pow10 e / 2" by simp
  moreover have "pow10 e * 10 ^ 27 \<le> x"
  proof -
    have "pow10 e * pow10 27 = pow10 (dec_adjusted x)" by (simp add: e_def flip: pow10_add)
    with dec_adjusted_le [OF x] show ?thesis by (simp add: pow10_def)
  qed
  ultimately show ?thesis by (simp add: field_simps)
qed

lemma dec_round_pos_zero: "x \<le> 0 \<Longrightarrow> dec_round x = 0"
  by (simp add: dec_round_def)

end
