(* ===== verification/HandSchema.thy ===== *)
theory HandSchema
  imports PyNum
begin

text \<open>
  The parts of \<open>schemas.py\<close> that describe one hand: streets, player stacks, actions,
  the tournament context and \<open>CanonicalHand\<close>, with the field constraints and model
  validators that pydantic runs when such a value is built, as predicates.  Free-text
  fields that no modelled computation reads (\<open>known_ranges\<close>, \<open>opponent_observations\<close>,
  \<open>analysis_objective\<close>, tournament notes) are left out of the records.
\<close>

datatype street = Preflop | Flop | Turn | River | Showdown

record player_stack =
  ps_player_id :: string
  ps_position :: string
  ps_starting_stack :: pyfloat

datatype action_kind =
  Post_blind | Post_ante | Fold | Check | Call | Bet | Raise | All_in

record hand_action =
  ha_street :: street
  ha_actor :: string
  ha_action :: action_kind
  ha_amount :: pyfloat
  ha_to_amount :: "pyfloat option"
  ha_pot_before :: "pyfloat option"
  ha_pot_after :: "pyfloat option"

datatype bounty_type = NoBounty | FixedBounty | ProgressiveBounty | MysteryBounty

record tournament_context =
  tc_payouts :: "pyfloat list"
  tc_remaining_players :: "int option"
  tc_hero_stack :: "pyfloat option"
  tc_bounty_type :: bounty_type
  tc_hero_bounty :: "pyfloat option"

datatype game_type = NLHE | PLO | OTHER
datatype hand_format = Cash | Tournament

record canonical_hand =
  h_game_type :: game_type
  h_format :: hand_format
  h_table_size :: int
  h_small_blind :: pyfloat
  h_big_blind :: pyfloat
  h_ante :: pyfloat
  h_rake :: "pyfloat option"
  h_players :: "player_stack list"
  h_hero_player_id :: "string option"
  h_hero_cards :: "string list"
  h_board :: "string list"
  h_actions :: "hand_action list"
  h_tournament :: "tournament_context option"

definition opt_all :: "('a \<Rightarrow> bool) \<Rightarrow> 'a option \<Rightarrow> bool" where
  "opt_all P x = (case x of None \<Rightarrow> True | Some v \<Rightarrow> P v)"

lemma opt_all_simps [simp, py]: "opt_all P None" "opt_all P (Some v) = P v"
  by (simp_all add: opt_all_def)

definition player_stack_ok :: "player_stack \<Rightarrow> bool" where
  "player_stack_ok p \<longleftrightarrow>
     ps_player_id p \<noteq> [] \<and> ps_position p \<noteq> [] \<and> 0 \<le> ps_starting_stack p"

definition hand_action_ok :: "hand_action \<Rightarrow> bool" where
  "hand_action_ok a \<longleftrightarrow>
     ha_actor a \<noteq> [] \<and> 0 \<le> ha_amount a \<and> opt_all (\<lambda>v. 0 \<le> v) (ha_to_amount a) \<and>
     opt_all (\<lambda>v. 0 \<le> v) (ha_pot_before a) \<and> opt_all (\<lambda>v. 0 \<le> v) (ha_pot_after a)"

definition tournament_context_ok :: "tournament_context \<Rightarrow> bool" where
  "tournament_context_ok t \<longleftrightarrow>
     list_all (\<lambda>p. 0 \<le> p) (tc_payouts t) \<and> opt_all (\<lambda>n. 2 \<le> n) (tc_remaining_players t) \<and>
     opt_all (\<lambda>v. 0 \<le> v) (tc_hero_stack t) \<and> opt_all (\<lambda>v. 0 \<le> v) (tc_hero_bounty t) \<and>
     sorted (rev (tc_payouts t))"

definition validate_game_context :: "canonical_hand \<Rightarrow> bool" where
  "validate_game_context h \<longleftrightarrow>
     distinct (map ps_player_id (h_players h)) \<and>
     opt_all (\<lambda>p. p \<in> set (map ps_player_id (h_players h))) (h_hero_player_id h) \<and>
     \<not> (h_format h = Tournament \<and> h_tournament h = None) \<and>
     \<not> (h_game_type h = NLHE \<and> length (h_hero_cards h) \<notin> {0, 2})"

definition canonical_hand_ok :: "canonical_hand \<Rightarrow> bool" where
  "canonical_hand_ok h \<longleftrightarrow>
     2 \<le> h_table_size h \<and> h_table_size h \<le> 10 \<and> 0 < h_small_blind h \<and> 0 < h_big_blind h \<and>
     0 \<le> h_ante h \<and> opt_all (\<lambda>r. 0 \<le> r) (h_rake h) \<and>
     2 \<le> length (h_players h) \<and> list_all player_stack_ok (h_players h) \<and>
     length (h_hero_cards h) \<le> 4 \<and> length (h_board h) \<le> 5 \<and>
     list_all hand_action_ok (h_actions h) \<and> opt_all tournament_context_ok (h_tournament h) \<and>
     validate_game_context h"

end
