(* ===== verification/Cards.thy ===== *)
theory Cards
  imports Prelude "HOL-Library.Char_ord" "HOL-Library.List_Lexorder"
begin

text \<open>
  \<open>tools/cards.py\<close>: the card names and their normalisation.  A card is a two character
  string, rank then suit.  \<open>normalize_card\<close> strips, upper-cases the rank and lower-cases
  the suit; strings are 8-bit code points, where \<open>str.upper\<close> and \<open>str.lower\<close> of a
  character outside ASCII never give a rank or a suit, so only ASCII letters are
  mapped.
\<close>

datatype card_error = InvalidCard string | DuplicateCards

definition RANKS :: string where "RANKS = ''23456789TJQKA''"
definition SUITS :: string where "SUITS = ''cdhs''"
definition DECK :: "string list" where
  "DECK = concat (map (\<lambda>rank. map (\<lambda>suit. [rank, suit]) SUITS) RANKS)"

definition py_space :: "char \<Rightarrow> bool" where
  "py_space c \<longleftrightarrow> of_char c \<in> {9::nat, 10, 11, 12, 13, 28, 29, 30, 31, 32, 133, 160}"

definition py_strip :: "string \<Rightarrow> string" where
  "py_strip s = rev (dropWhile py_space (rev (dropWhile py_space s)))"

definition upper_char :: "char \<Rightarrow> char" where
  "upper_char c = (if CHR ''a'' \<le> c \<and> c \<le> CHR ''z'' then char_of (of_char c - 32 :: nat) else c)"

definition lower_char :: "char \<Rightarrow> char" where
  "lower_char c = (if CHR ''A'' \<le> c \<and> c \<le> CHR ''Z'' then char_of (of_char c + 32 :: nat) else c)"

definition normalize_card :: "string \<Rightarrow> card_error + string" where
  "normalize_card raw =
     (case py_strip raw of
        [a, b] \<Rightarrow>
          (let rank = upper_char a; suit = lower_char b in
           if rank \<notin> set RANKS \<or> suit \<notin> set SUITS then Inl (InvalidCard raw)
           else Inr [rank, suit])
      | _ \<Rightarrow> Inl (InvalidCard raw))"

definition normalize_cards :: "string list \<Rightarrow> bool \<Rightarrow> card_error + string list" where
  "normalize_cards cards unique =
     bindE (mapE normalize_card cards) (\<lambda>normalized.
       if unique \<and> length normalized \<noteq> card (set normalized) then Inl DuplicateCards
       else Inr normalized)"

lemma normalize_card_in_deck: "normalize_card c = Inr d \<Longrightarrow> d \<in> set DECK"
  by (auto simp: normalize_card_def Let_def DECK_def split: list.splits if_splits)

lemma normalize_each_in_deck: "mapE normalize_card cs = Inr ds \<Longrightarrow> set ds \<subseteq> set DECK"
  by (induction cs arbitrary: ds) (auto simp: bindE_Inr dest: normalize_card_in_deck)

lemma normalize_cards_distinct:
  "normalize_cards cs True = Inr ds \<Longrightarrow> distinct ds \<and> set ds \<subseteq> set DECK"
  by (auto simp: normalize_cards_def bindE_Inr split: if_splits
      intro: card_distinct dest: normalize_each_in_deck)

end
