(* ===== verification/PyRegex.thy ===== *)
theory PyRegex
  imports Prelude "HOL-Library.Char_ord"
begin

text \<open>
  The fragment of Python's \<open>re\<close> that the validators use: character classes,
  sequences, alternatives, bounded and unbounded repetition and the word boundary
  \<open>\b\<close>.  A position is the pair of the characters already read (reversed) and the
  rest.  \<open>ends r p\<close> lists the positions at which a match of \<open>r\<close> that starts at \<open>p\<close> can
  end, so \<open>fullmatch\<close> and \<open>search\<close> (which only ask whether a match exists) do not
  depend on greediness.  Strings are lists of 8-bit code points.
\<close>

datatype re =
    Cls "char list"
  | Seq re re
  | Alt re re
  | Rep nat "nat option" re
  | WordB

type_synonym pos = "string \<times> string"

primrec times_re :: "nat \<Rightarrow> ('p \<Rightarrow> 'p list) \<Rightarrow> 'p list \<Rightarrow> 'p list" where
  "times_re 0 f ps = ps"
| "times_re (Suc n) f ps = (if ps = [] then [] else times_re n f (concat (map f ps)))"

primrec upto_re :: "nat \<Rightarrow> ('p \<Rightarrow> 'p list) \<Rightarrow> 'p list \<Rightarrow> 'p list" where
  "upto_re 0 f ps = ps"
| "upto_re (Suc n) f ps = (if ps = [] then [] else ps @ upto_re n f (concat (map f ps)))"

definition chars :: "char \<Rightarrow> char \<Rightarrow> char list" where
  "chars a b = map char_of [of_char a ..< Suc (of_char b :: nat)]"

definition word_char :: "char \<Rightarrow> bool" where
  \<comment> \<open>\<open>\w\<close> on the 8-bit code points that are ASCII\<close>
  "word_char c \<longleftrightarrow>
     CHR ''0'' \<le> c \<and> c \<le> CHR ''9'' \<or> CHR ''A'' \<le> c \<and> c \<le> CHR ''Z'' \<or>
     CHR ''a'' \<le> c \<and> c \<le> CHR ''z'' \<or> c = CHR ''_''"

definition at_boundary :: "pos \<Rightarrow> bool" where
  "at_boundary p =
     ((case fst p of [] \<Rightarrow> False | c # _ \<Rightarrow> word_char c)
      \<noteq> (case snd p of [] \<Rightarrow> False | c # _ \<Rightarrow> word_char c))"

definition step_cls :: "char list \<Rightarrow> pos \<Rightarrow> pos list" where
  "step_cls cs p = (case snd p of [] \<Rightarrow> [] | c # s \<Rightarrow> if c \<in> set cs then [(c # fst p, s)] else [])"

primrec ends :: "re \<Rightarrow> pos \<Rightarrow> pos list" where
  "ends (Cls cs) p = step_cls cs p"
| "ends (Seq r1 r2) p = concat (map (ends r2) (ends r1 p))"
| "ends (Alt r1 r2) p = ends r1 p @ ends r2 p"
| "ends (Rep lo hi r) p =
     upto_re (case hi of Some h \<Rightarrow> h - lo | None \<Rightarrow> length (snd p)) (ends r)
       (times_re lo (ends r) [p])"
| "ends WordB p = (if at_boundary p then [p] else [])"

definition fullmatch :: "re \<Rightarrow> string \<Rightarrow> bool" where
  "fullmatch r s = list_ex (\<lambda>p. snd p = []) (ends r ([], s))"

primrec search_from :: "re \<Rightarrow> string \<Rightarrow> string \<Rightarrow> bool" where
  "search_from r pre [] = (ends r (pre, []) \<noteq> [])"
| "search_from r pre (c # s) = (ends r (pre, c # s) \<noteq> [] \<or> search_from r (c # pre) s)"

definition search :: "re \<Rightarrow> string \<Rightarrow> bool" where
  "search r s = search_from r [] s"

primrec lit :: "string \<Rightarrow> re" where
  "lit [] = Rep 0 (Some 0) WordB"
| "lit (c # s) = (if s = [] then Cls [c] else Seq (Cls [c]) (lit s))"

definition digit_chars :: "char list" where "digit_chars = ''0123456789''"
definition hex_chars :: "char list" where "hex_chars = ''0123456789abcdef''"
definition lower_chars :: "char list" where "lower_chars = ''abcdefghijklmnopqrstuvwxyz''"
definition upper_chars :: "char list" where "upper_chars = ''ABCDEFGHIJKLMNOPQRSTUVWXYZ''"

section \<open>Exact repetition of a class\<close>

lemma step_cls_simps:
  "step_cls cs (pre, []) = []"
  "step_cls cs (pre, c # s) = (if c \<in> set cs then [(c # pre, s)] else [])"
  by (simp_all add: step_cls_def)

lemma times_step_cls:
  "times_re n (step_cls cs) [(pre, s)] =
     (if n \<le> length s \<and> set (take n s) \<subseteq> set cs then [(rev (take n s) @ pre, drop n s)] else [])"
proof (induction n arbitrary: pre s)
  case 0
  then show ?case by simp
next
  case (Suc n)
  have nil: "times_re m f [] = []" for m and f :: "pos \<Rightarrow> pos list" by (cases m) auto
  show ?case
  proof (cases s)
    case Nil
    then show ?thesis by (simp add: step_cls_simps nil)
  next
    case (Cons c s')
    then show ?thesis by (simp add: step_cls_simps nil Suc.IH)
  qed
qed

text \<open>\<open>^[cs]{n}$\<close> accepts exactly the strings of \<open>n\<close> characters of the class.\<close>

lemma fullmatch_rep_cls:
  "fullmatch (Rep n (Some n) (Cls cs)) s \<longleftrightarrow> length s = n \<and> set s \<subseteq> set cs"
proof -
  have "ends (Cls cs) = step_cls cs" by (rule ext) simp
  then show ?thesis
    by (auto simp: fullmatch_def times_step_cls)
qed

end
