(* ===== verification/HandPotLedger.thy ===== *)
theory HandPotLedger
  imports HandSchema Cards PyRegex "HOL-Library.Multiset"
begin

text \<open>
  \<open>tools/hand_pot_ledger.py\<close>: the versioned hand and pot ledger.  The theory holds the
  contract models (\<open>LedgerActionV1\<close>, \<open>UncalledReturnV1\<close>, \<open>PotLayerV1\<close>,
  \<open>HandPotLedgerOutputV1\<close>) with their validators, the conversion of chip amounts to
  integer ledger units, the profile checks, and the class \<open>_LedgerBuilder\<close>: its state is
  the record \<open>ledger_state\<close>, each method a function on it.  A \<open>HandPotLedgerError\<close> is
  \<open>Inl (Ledger code)\<close>, a failing pydantic constraint \<open>Inl (Invalid model)\<close>.

  A Python dict built by \<open>dict.fromkeys(player_ids)\<close> keeps exactly those keys, and every
  access is guarded by the \<open>unknown-actor\<close> check; it is a total function here, and a sum
  over its values is a sum over \<open>le_player_ids\<close>.  A Python set of player ids is a set;
  where the code iterates over one (\<open>_close_street\<close>) the model takes the seating order,
  which can only change which of two error codes is reported.
\<close>

section \<open>Constants, errors and contract models\<close>

datatype ledger_error = Ledger string | Invalid string

type_synonym 'a ledger_result = "ledger_error + 'a"

definition MAX_LEDGER_UNITS :: int where "MAX_LEDGER_UNITS = 2 ^ 63 - 1"
definition MAX_ACTIONS :: nat where "MAX_ACTIONS = 512"

definition CHIP_UNIT_PATTERN :: re where
  "CHIP_UNIT_PATTERN =
     (let d = Cls digit_chars; d1 = Cls ''123456789''; int_part = Seq d1 (Rep 0 (Some 17) d) in
      Alt int_part
        (Seq (Alt (lit ''0'') int_part) (Seq (lit ''.'') (Seq (Rep 0 (Some 8) d) d1))))"

fun STREET_ORDER :: "street \<Rightarrow> int option" where
  "STREET_ORDER Preflop = Some 0"
| "STREET_ORDER Flop = Some 1"
| "STREET_ORDER Turn = Some 2"
| "STREET_ORDER River = Some 3"
| "STREET_ORDER Showdown = None"

definition CONTRIBUTION_ACTIONS :: "action_kind set" where
  "CONTRIBUTION_ACTIONS = {Post_blind, Post_ante, Call, Bet, Raise, All_in}"

definition ledger_unit_ok :: "int \<Rightarrow> bool" where
  "ledger_unit_ok n \<longleftrightarrow> 0 \<le> n \<and> n \<le> MAX_LEDGER_UNITS"

definition positive_ledger_unit_ok :: "int \<Rightarrow> bool" where
  "positive_ledger_unit_ok n \<longleftrightarrow> 0 < n \<and> n \<le> MAX_LEDGER_UNITS"

record hand_rule_profile =
  rp_schema_version :: string
  rp_profile_id :: string
  rp_profile_version :: string
  rp_supported_site :: string
  rp_chip_unit :: string

record ledger_action =
  la_action_index :: nat
  la_street :: street
  la_actor :: string
  la_action :: action_kind
  la_committed_units :: int
  la_street_contribution_units_after :: int
  la_total_contribution_units_after :: int
  la_remaining_stack_units_after :: int
  la_pot_units_after :: int
  la_current_bet_units_after :: int
  la_raise_rights_before :: bool
  la_full_raise :: bool
  la_minimum_full_raise_units_after :: int

definition ledger_action_ok :: "ledger_action \<Rightarrow> bool" where
  "ledger_action_ok a \<longleftrightarrow>
     la_action_index a \<le> MAX_ACTIONS - 1 \<and> la_street a \<noteq> Showdown \<and> la_actor a \<noteq> [] \<and>
     ledger_unit_ok (la_committed_units a) \<and>
     ledger_unit_ok (la_street_contribution_units_after a) \<and>
     ledger_unit_ok (la_total_contribution_units_after a) \<and>
     ledger_unit_ok (la_remaining_stack_units_after a) \<and>
     ledger_unit_ok (la_pot_units_after a) \<and>
     ledger_unit_ok (la_current_bet_units_after a) \<and>
     positive_ledger_unit_ok (la_minimum_full_raise_units_after a)"

record uncalled_return =
  ur_return_index :: nat \<comment> \<open>the number in \<open>return_id = "return-<n>"\<close>\<close>
  ur_street :: street
  ur_player_id :: string
  ur_amount_units :: int
  ur_source_action_indexes :: "nat list"

definition uncalled_return_ok :: "uncalled_return \<Rightarrow> bool" where
  "uncalled_return_ok r \<longleftrightarrow>
     ur_street r \<noteq> Showdown \<and> ur_player_id r \<noteq> [] \<and>
     positive_ledger_unit_ok (ur_amount_units r) \<and> ur_source_action_indexes r \<noteq> []"

datatype pot_kind = Main_pot | Side_pot

record pot_layer =
  pl_layer_index :: nat \<comment> \<open>also the number in \<open>pot_id = "pot-<n>"\<close>\<close>
  pl_kind :: pot_kind
  pl_lower_bound_units :: int
  pl_upper_bound_units :: int
  pl_amount_units :: int
  pl_contributors :: "string list"
  pl_eligible_players :: "string list"
  pl_evidence_action_indexes :: "nat list"

definition bounds_and_amount_are_consistent :: "pot_layer \<Rightarrow> bool" where
  "bounds_and_amount_are_consistent l \<longleftrightarrow>
     pl_lower_bound_units l < pl_upper_bound_units l \<and>
     pl_amount_units l =
       (pl_upper_bound_units l - pl_lower_bound_units l) * int (length (pl_contributors l)) \<and>
     set (pl_eligible_players l) \<subseteq> set (pl_contributors l)"

definition pot_layer_ok :: "pot_layer \<Rightarrow> bool" where
  "pot_layer_ok l \<longleftrightarrow>
     pl_layer_index l \<le> MAX_ACTIONS - 1 \<and> ledger_unit_ok (pl_lower_bound_units l) \<and>
     positive_ledger_unit_ok (pl_upper_bound_units l) \<and>
     positive_ledger_unit_ok (pl_amount_units l) \<and> pl_contributors l \<noteq> [] \<and>
     pl_eligible_players l \<noteq> [] \<and> pl_evidence_action_indexes l \<noteq> [] \<and>
     bounds_and_amount_are_consistent l"

record player_eligibility =
  pe_player_id :: string
  pe_eligible_for_contested_pots :: bool
  pe_folded_at_action_index :: "nat option"

definition player_eligibility_ok :: "player_eligibility \<Rightarrow> bool" where
  "player_eligibility_ok e \<longleftrightarrow>
     pe_player_id e \<noteq> [] \<and>
     (case pe_folded_at_action_index e of None \<Rightarrow> True | Some i \<Rightarrow> i \<le> MAX_ACTIONS - 1)"

record hand_pot_output =
  ho_chip_unit :: rat
  ho_ledger_actions :: "ledger_action list"
  ho_uncalled_returns :: "uncalled_return list"
  ho_pot_layers :: "pot_layer list"
  ho_player_eligibility :: "player_eligibility list"
  ho_gross_contributions_units :: "(string \<times> int) list"
  ho_net_contributions_units :: "(string \<times> int) list"
  ho_remaining_stacks_units :: "(string \<times> int) list"
  ho_gross_committed_units :: int
  ho_total_returned_units :: int
  ho_final_pot_units :: int
  ho_starting_chips_units :: int

definition accounting_identities_hold :: "hand_pot_output \<Rightarrow> bool" where
  "accounting_identities_hold r \<longleftrightarrow>
     sum_list (map snd (ho_gross_contributions_units r)) = ho_gross_committed_units r \<and>
     sum_list (map snd (ho_net_contributions_units r)) = ho_final_pot_units r \<and>
     sum_list (map ur_amount_units (ho_uncalled_returns r)) = ho_total_returned_units r \<and>
     ho_gross_committed_units r = ho_final_pot_units r + ho_total_returned_units r \<and>
     sum_list (map pl_amount_units (ho_pot_layers r)) = ho_final_pot_units r \<and>
     sum_list (map snd (ho_remaining_stacks_units r)) + ho_final_pot_units r
       = ho_starting_chips_units r"

definition hand_pot_output_ok :: "hand_pot_output \<Rightarrow> bool" where
  "hand_pot_output_ok r \<longleftrightarrow>
     ho_ledger_actions r \<noteq> [] \<and> length (ho_ledger_actions r) \<le> MAX_ACTIONS \<and>
     ho_pot_layers r \<noteq> [] \<and>
     2 \<le> length (ho_player_eligibility r) \<and> length (ho_player_eligibility r) \<le> 10 \<and>
     list_all player_eligibility_ok (ho_player_eligibility r) \<and>
     list_all (\<lambda>p. ledger_unit_ok (snd p)) (ho_gross_contributions_units r) \<and>
     list_all (\<lambda>p. ledger_unit_ok (snd p)) (ho_net_contributions_units r) \<and>
     list_all (\<lambda>p. ledger_unit_ok (snd p)) (ho_remaining_stacks_units r) \<and>
     ledger_unit_ok (ho_gross_committed_units r) \<and> ledger_unit_ok (ho_total_returned_units r) \<and>
     positive_ledger_unit_ok (ho_final_pot_units r) \<and>
     positive_ledger_unit_ok (ho_starting_chips_units r) \<and> accounting_identities_hold r"

section \<open>Conversions and profile checks\<close>

definition parse_nat :: "string \<Rightarrow> nat" where
  "parse_nat s = foldl (\<lambda>n c. 10 * n + (of_char c - 48)) 0 s"

definition parse_decimal :: "string \<Rightarrow> rat" where
  \<comment> \<open>\<open>Decimal(raw)\<close> and \<open>Fraction(raw)\<close> of digits with at most one point\<close>
  "parse_decimal s =
     (let i = takeWhile (\<lambda>c. c \<noteq> CHR ''.'') s; f = drop (length i + 1) s
      in of_nat (parse_nat (i @ f)) / 10 ^ length f)"

definition validate_chip_unit :: "string \<Rightarrow> rat ledger_result" where
  "validate_chip_unit raw =
     (if \<not> fullmatch CHIP_UNIT_PATTERN raw then Inl (Ledger ''chip-unit-grammar-unsupported'')
      else if \<not> 0 < parse_decimal raw then Inl (Ledger ''chip-unit-grammar-unsupported'')
      else Inr (parse_decimal raw))"

definition decimal_units :: "pyfloat \<Rightarrow> rat \<Rightarrow> int ledger_result" where
  "decimal_units v unit =
     (if \<not> 0 \<le> v then Inl (Ledger ''amount-not-finite'')
      else if \<not> v \<le> dec_mul unit (of_int MAX_LEDGER_UNITS)
      then Inl (Ledger ''ledger-unit-limit-exceeded'')
      else (let quotient = dec_div v unit in
            if \<not> is_integral quotient then Inl (Ledger ''amount-not-integral-in-chip-unit'')
            else Inr \<lfloor>quotient\<rfloor>))"

definition fraction_units :: "pyfloat \<Rightarrow> rat \<Rightarrow> int ledger_result" where
  "fraction_units v unit =
     (let quotient = v / unit in
      if \<not> is_integral quotient then Inl (Ledger ''oracle-non-integral-chip-unit'')
      else (let units = \<lfloor>quotient\<rfloor> in
            if \<not> (0 \<le> units \<and> units \<le> MAX_LEDGER_UNITS)
            then Inl (Ledger ''oracle-ledger-unit-limit-exceeded'')
            else Inr units))"

definition checked_add :: "int \<Rightarrow> int \<Rightarrow> int ledger_result" where
  "checked_add left right =
     (if \<not> (0 \<le> left \<and> 0 \<le> right \<and> left \<le> MAX_LEDGER_UNITS - right)
      then Inl (Ledger ''ledger-overflow'') else Inr (left + right))"

definition canonical_players :: "string list \<Rightarrow> string list" where
  "canonical_players values = sort values"

definition street_value :: "street \<Rightarrow> street ledger_result" where
  "street_value s = (if s = Showdown then Inl (Ledger ''showdown-actions-unsupported'') else Inr s)"

definition validate_profile :: "hand_rule_profile \<Rightarrow> rat ledger_result" where
  "validate_profile p =
     (if rp_schema_version p \<noteq> ''1.0.0'' then Inl (Ledger ''unknown-profile-schema-version'')
      else if rp_profile_id p \<noteq> ''generic_nlhe_cash_no_rake_v1''
      then Inl (Ledger ''unsupported-rule-profile'')
      else if rp_profile_version p \<noteq> ''1.0.0'' then Inl (Ledger ''unknown-rule-profile-version'')
      else if rp_supported_site p \<noteq> ''none'' then Inl (Ledger ''unsupported-site-profile'')
      else validate_chip_unit (rp_chip_unit p))"

definition validate_blind_actions ::
    "canonical_hand \<Rightarrow> rat \<Rightarrow> int \<Rightarrow> int \<Rightarrow> unit ledger_result" where
  "validate_blind_actions h unit small_blind big_blind =
     (let blind_actions = filter (\<lambda>a. ha_action a = Post_blind) (h_actions h) in
      if length blind_actions \<noteq> 2
      then Inl (Ledger ''unsupported-blind-or-straddle-structure'')
      else bindE (mapE (\<lambda>a. decimal_units (ha_amount a) unit) blind_actions) (\<lambda>amounts.
        if sort amounts \<noteq> [small_blind, big_blind]
        then Inl (Ledger ''unsupported-blind-or-straddle-structure'')
        else if \<not> (card (set (map ha_actor blind_actions)) = 2 \<and>
                  list_all (\<lambda>a. ha_street a = Preflop) blind_actions)
        then Inl (Ledger ''unsupported-blind-or-straddle-structure'')
        else Inr ()))"

definition validate_ante_actions ::
    "canonical_hand \<Rightarrow> rat \<Rightarrow> int \<Rightarrow> unit ledger_result" where
  "validate_ante_actions h unit ante =
     (let ante_actions = filter (\<lambda>a. ha_action a = Post_ante) (h_actions h);
          all_same = foldE (\<lambda>ok a.
             if \<not> ok then Inr False
             else if ha_street a \<noteq> Preflop then Inr False
             else bindE (decimal_units (ha_amount a) unit) (\<lambda>u. Inr (u = ante)))
             True ante_actions in
      if ante = 0
      then (if ante_actions \<noteq> [] then Inl (Ledger ''unexpected-ante-post'') else Inr ())
      else if \<not> (length ante_actions = length (h_players h) \<and>
                set (map ha_actor ante_actions) = set (map ps_player_id (h_players h)))
      then Inl (Ledger ''unsupported-ante-structure'')
      else bindE all_same (\<lambda>ok.
        if \<not> ok then Inl (Ledger ''unsupported-ante-structure'') else Inr ()))"

definition validate_profile_hand ::
    "canonical_hand \<Rightarrow> rat \<Rightarrow> (int \<times> int \<times> int) ledger_result" where
  "validate_profile_hand h unit =
     (if h_game_type h \<noteq> NLHE then Inl (Ledger ''unsupported-game-type'')
      else if \<not> (h_format h = Cash \<and> h_tournament h = None)
      then Inl (Ledger ''unsupported-non-cash-context'')
      else case h_rake h of
        None \<Rightarrow> Inl (Ledger ''explicit-zero-rake-required'')
      | Some rake \<Rightarrow> bindE (decimal_units rake unit) (\<lambda>rake_units.
          if rake_units \<noteq> 0 then Inl (Ledger ''unsupported-rake'')
          else if h_table_size h \<noteq> int (length (h_players h))
          then Inl (Ledger ''table-size-player-count-mismatch'')
          else if \<not> length (h_actions h) \<le> MAX_ACTIONS
          then Inl (Ledger ''action-count-limit-exceeded'')
          else if \<not> h_small_blind h < h_big_blind h then Inl (Ledger ''blind-structure-invalid'')
          else if length (h_board h) \<notin> {0, 3, 4, 5} then Inl (Ledger ''board-card-count-invalid'')
          else case normalize_cards (h_hero_cards h @ h_board h) True of
            Inl _ \<Rightarrow> Inl (Ledger ''card-set-invalid'')
          | Inr _ \<Rightarrow>
              bindE (decimal_units (h_small_blind h) unit) (\<lambda>small_blind.
              bindE (decimal_units (h_big_blind h) unit) (\<lambda>big_blind.
              bindE (decimal_units (h_ante h) unit) (\<lambda>ante.
                if \<not> (0 < small_blind \<and> small_blind < big_blind)
                then Inl (Ledger ''blind-structure-invalid'')
                else bindE (validate_blind_actions h unit small_blind big_blind) (\<lambda>_.
                  bindE (validate_ante_actions h unit ante) (\<lambda>_.
                    Inr (small_blind, big_blind, ante))))))))"

fun street_supported_by_board :: "street \<Rightarrow> nat \<Rightarrow> bool" where
  "street_supported_by_board Preflop n = True"
| "street_supported_by_board Flop n = (3 \<le> n)"
| "street_supported_by_board Turn n = (4 \<le> n)"
| "street_supported_by_board River n = (5 \<le> n)"
| "street_supported_by_board Showdown n = False"

section \<open>The builder\<close>

type_synonym interval = "nat \<times> int \<times> int"

record ledger_env =
  le_hand :: canonical_hand
  le_unit :: rat
  le_big_blind :: int
  le_player_ids :: "string list"
  le_starting :: "string \<Rightarrow> int"
  le_starting_total :: int

record ledger_state =
  remaining :: "string \<Rightarrow> int"
  gross :: "string \<Rightarrow> int"
  net :: "string \<Rightarrow> int"
  active :: "string set"
  all_in :: "string set"
  folded_at :: "string \<Rightarrow> nat option"
  current_street :: "street option"
  last_street_order :: int
  street_contribution :: "string \<Rightarrow> int"
  current_bet :: int
  minimum_full_raise :: int
  acted_level :: "string \<rightharpoonup> int"
  acted_this_street :: "string set"
  voluntary_action_seen :: bool
  action_intervals :: "string \<Rightarrow> interval list"
  street_intervals :: "string \<Rightarrow> interval list"
  ledger_actions :: "ledger_action list"
  returns :: "uncalled_return list"
  gross_total :: int
  net_total :: int
  returned_total :: int

definition init_ledger_state :: "string list \<Rightarrow> (string \<Rightarrow> int) \<Rightarrow> int \<Rightarrow> ledger_state" where
  "init_ledger_state ids starting big_blind =
     \<lparr>remaining = starting, gross = (\<lambda>_. 0), net = (\<lambda>_. 0), active = set ids, all_in = {},
      folded_at = (\<lambda>_. None), current_street = None, last_street_order = -1,
      street_contribution = (\<lambda>_. 0), current_bet = 0, minimum_full_raise = big_blind,
      acted_level = Map.empty, acted_this_street = {}, voluntary_action_seen = False,
      action_intervals = (\<lambda>_. []), street_intervals = (\<lambda>_. []), ledger_actions = [],
      returns = [], gross_total = 0, net_total = 0, returned_total = 0\<rparr>"

definition dict_of :: "string list \<Rightarrow> int list \<Rightarrow> string \<Rightarrow> int" where
  "dict_of ks vs = (\<lambda>k. case map_of (rev (zip ks vs)) k of None \<Rightarrow> 0 | Some v \<Rightarrow> v)"

definition init_ledger ::
    "canonical_hand \<Rightarrow> rat \<Rightarrow> int \<Rightarrow> (ledger_env \<times> ledger_state) ledger_result" where
  "init_ledger h unit big_blind =
     (let ids = map ps_player_id (h_players h) in
      bindE (mapE (\<lambda>p. decimal_units (ps_starting_stack p) unit) (h_players h)) (\<lambda>units.
      let starting = dict_of ids units in
      bindE (foldE (\<lambda>total p. checked_add total (starting p)) 0 ids) (\<lambda>total.
        if \<not> 0 < total then Inl (Ledger ''starting-chips-required'')
        else Inr (\<lparr>le_hand = h, le_unit = unit, le_big_blind = big_blind, le_player_ids = ids,
                   le_starting = starting, le_starting_total = total\<rparr>,
                  init_ledger_state ids starting big_blind))))"

definition max_default :: "int list \<Rightarrow> int" where
  \<comment> \<open>\<open>max(xs, default=0)\<close>\<close>
  "max_default xs = (case xs of [] \<Rightarrow> 0 | x # r \<Rightarrow> fold max r x)"

definition check_round_complete :: "ledger_env \<Rightarrow> ledger_state \<Rightarrow> unit ledger_result" where
  "check_round_complete env s =
     (if 1 < card (active s) then
        foldE (\<lambda>_ p.
          if p \<notin> acted_this_street s then Inl (Ledger ''incomplete-betting-round-missing-action'')
          else if street_contribution s p \<noteq> current_bet s
          then Inl (Ledger ''incomplete-betting-round-outstanding-call'')
          else Inr ()) () (filter (\<lambda>p. p \<in> active s - all_in s) (le_player_ids env))
      else Inr ())"

definition return_uncalled ::
    "ledger_env \<Rightarrow> street \<Rightarrow> int \<Rightarrow> string \<Rightarrow> ledger_state \<Rightarrow> ledger_state ledger_result" where
  "return_uncalled env st highest p s =
     (let second = max_default (map (street_contribution s)
                     (filter (\<lambda>other. other \<noteq> p) (le_player_ids env)));
          amount = highest - second in
      if 0 < amount then
        (if p \<notin> active s then Inl (Ledger ''ambiguous-uncalled-return'')
         else (let source_indexes = map fst (filter (\<lambda>(index, lo, hi).
                       lo < highest \<and> second < hi) (street_intervals s p)) in
           if source_indexes = [] then Inl (Ledger ''ambiguous-uncalled-return'')
           else
             bindE (checked_add (remaining s p) amount) (\<lambda>remaining_p.
             bindE (checked_add (returned_total s) amount) (\<lambda>returned.
             bindE (street_value st) (\<lambda>st'.
             let r = \<lparr>ur_return_index = length (returns s), ur_street = st', ur_player_id = p,
                      ur_amount_units = amount, ur_source_action_indexes = source_indexes\<rparr> in
             if \<not> uncalled_return_ok r then Inl (Invalid ''UncalledReturnV1'')
             else Inr (s\<lparr>
               street_contribution := (street_contribution s)(p := street_contribution s p - amount),
               net := (net s)(p := net s p - amount),
               net_total := net_total s - amount,
               remaining := (remaining s)(p := remaining_p),
               returned_total := returned,
               all_in := (if 0 < remaining_p then all_in s - {p} else all_in s),
               returns := returns s @ [r]\<rparr>))))))
      else Inr s)"

definition close_street :: "ledger_env \<Rightarrow> ledger_state \<Rightarrow> ledger_state ledger_result" where
  "close_street env s =
     (case current_street s of
        None \<Rightarrow> Inl (Ledger ''internal-street-state-invalid'')
      | Some st \<Rightarrow>
          bindE (check_round_complete env s) (\<lambda>_.
            let highest = max_default (map (street_contribution s) (le_player_ids env));
                highest_players = filter (\<lambda>p. street_contribution s p = highest \<and> 0 < highest)
                                    (le_player_ids env) in
            case highest_players of
              [p] \<Rightarrow> return_uncalled env st highest p s
            | _ \<Rightarrow> Inr s))"

definition start_street :: "ledger_env \<Rightarrow> street \<Rightarrow> ledger_state \<Rightarrow> ledger_state ledger_result" where
  "start_street env st s =
     (case STREET_ORDER st of
        None \<Rightarrow> Inl (Ledger ''showdown-actions-unsupported'')
      | Some order \<Rightarrow>
          if \<not> last_street_order s < order then Inl (Ledger ''street-order-invalid'')
          else if \<not> street_supported_by_board st (length (h_board (le_hand env)))
          then Inl (Ledger ''street-board-mismatch'')
          else bindE (if current_street s \<noteq> None
                      then bindE (close_street env s) (\<lambda>s1.
                             if \<not> 1 < card (active s1) then Inl (Ledger ''action-after-hand-ended'')
                             else Inr s1)
                      else Inr s) (\<lambda>s1.
            Inr (s1\<lparr>current_street := Some st, last_street_order := order,
                    street_contribution := (\<lambda>_. 0), current_bet := 0,
                    minimum_full_raise := le_big_blind env, acted_level := Map.empty,
                    acted_this_street := {}, street_intervals := (\<lambda>_. [])\<rparr>)))"

definition raise_rights :: "ledger_state \<Rightarrow> string \<Rightarrow> bool" where
  "raise_rights s actor =
     (case acted_level s actor of None \<Rightarrow> True
      | Some prior_level \<Rightarrow> minimum_full_raise s \<le> current_bet s - prior_level)"

definition commit_units ::
    "nat \<Rightarrow> string \<Rightarrow> int \<Rightarrow> bool \<Rightarrow> ledger_state \<Rightarrow> ledger_state ledger_result" where
  "commit_units index actor amount counts_for_bet s =
     (if \<not> amount \<le> remaining s actor then Inl (Ledger ''stack-underflow'')
      else
        bindE (checked_add (gross s actor) amount) (\<lambda>total_after.
        bindE (if counts_for_bet
               then bindE (checked_add (street_contribution s actor) amount) (\<lambda>street_after.
                 Inr (s\<lparr>street_contribution := (street_contribution s)(actor := street_after),
                        street_intervals := (if amount \<noteq> 0
                          then (street_intervals s)(actor := street_intervals s actor @
                                 [(index, street_contribution s actor, street_after)])
                          else street_intervals s)\<rparr>))
               else Inr s) (\<lambda>s1.
        bindE (checked_add (net s1 actor) amount) (\<lambda>net_after.
        bindE (checked_add (gross_total s1) amount) (\<lambda>gross_total_after.
        bindE (checked_add (net_total s1) amount) (\<lambda>net_total_after.
          Inr (s1\<lparr>gross := (gross s1)(actor := total_after),
                  net := (net s1)(actor := net_after),
                  remaining := (remaining s1)(actor := remaining s1 actor - amount),
                  gross_total := gross_total_after, net_total := net_total_after,
                  action_intervals := (if amount \<noteq> 0
                    then (action_intervals s1)(actor := action_intervals s1 actor @
                           [(index, gross s1 actor, total_after)])
                    else action_intervals s1),
                  all_in := (if remaining s1 actor - amount = 0
                    then insert actor (all_in s1) else all_in s1)\<rparr>)))))))"

definition validate_declared_pot ::
    "ledger_env \<Rightarrow> pyfloat option \<Rightarrow> int \<Rightarrow> string \<Rightarrow> unit ledger_result" where
  "validate_declared_pot env declared expected code =
     (case declared of None \<Rightarrow> Inr ()
      | Some d \<Rightarrow> bindE (decimal_units d (le_unit env)) (\<lambda>u.
          if u \<noteq> expected then Inl (Ledger code) else Inr ()))"

definition validate_to_amount ::
    "ledger_env \<Rightarrow> pyfloat option \<Rightarrow> int \<Rightarrow> bool \<Rightarrow> unit ledger_result" where
  "validate_to_amount env to_amount expected required =
     (if required \<and> to_amount = None then Inl (Ledger ''to-amount-required'')
      else case to_amount of None \<Rightarrow> Inr ()
      | Some d \<Rightarrow> bindE (decimal_units d (le_unit env)) (\<lambda>u.
          if u \<noteq> expected then Inl (Ledger ''to-amount-mismatch'') else Inr ()))"

definition append_action ::
    "nat \<Rightarrow> hand_action \<Rightarrow> int \<Rightarrow> bool \<Rightarrow> bool \<Rightarrow> ledger_state \<Rightarrow> ledger_state ledger_result" where
  "append_action index a amount raise_rights_before full_raise s =
     bindE (street_value (ha_street a)) (\<lambda>st.
       let la = \<lparr>la_action_index = index, la_street = st, la_actor = ha_actor a,
                 la_action = ha_action a, la_committed_units = amount,
                 la_street_contribution_units_after = street_contribution s (ha_actor a),
                 la_total_contribution_units_after = net s (ha_actor a),
                 la_remaining_stack_units_after = remaining s (ha_actor a),
                 la_pot_units_after = net_total s, la_current_bet_units_after = current_bet s,
                 la_raise_rights_before = raise_rights_before, la_full_raise = full_raise,
                 la_minimum_full_raise_units_after = minimum_full_raise s\<rparr> in
       if \<not> ledger_action_ok la then Inl (Invalid ''LedgerActionV1'')
       else Inr (s\<lparr>ledger_actions := ledger_actions s @ [la]\<rparr>))"

definition mark_acted :: "string \<Rightarrow> ledger_state \<Rightarrow> ledger_state" where
  "mark_acted actor s =
     s\<lparr>acted_this_street := insert actor (acted_this_street s),
       acted_level := (acted_level s)(actor \<mapsto> current_bet s)\<rparr>"

definition apply_forced ::
    "nat \<Rightarrow> hand_action \<Rightarrow> int \<Rightarrow> ledger_state \<Rightarrow> ledger_state ledger_result" where
  "apply_forced index a amount s =
     (if \<not> (current_street s = Some Preflop \<and> \<not> voluntary_action_seen s)
      then Inl (Ledger ''forced-post-order-invalid'')
      else if ha_to_amount a \<noteq> None then Inl (Ledger ''forced-post-to-amount-unsupported'')
      else if \<not> 0 < amount then Inl (Ledger ''forced-post-must-be-positive'')
      else if ha_action a = Post_ante then commit_units index (ha_actor a) amount False s
      else bindE (commit_units index (ha_actor a) amount True s) (\<lambda>s1.
             Inr (s1\<lparr>current_bet := max (current_bet s1) (street_contribution s1 (ha_actor a))\<rparr>)))"

definition apply_check_fold ::
    "nat \<Rightarrow> hand_action \<Rightarrow> int \<Rightarrow> int \<Rightarrow> ledger_state \<Rightarrow> ledger_state ledger_result" where
  "apply_check_fold index a amount outstanding s =
     (if ha_action a = Check then
        (if \<not> (amount = 0 \<and> ha_to_amount a = None) then Inl (Ledger ''check-shape-invalid'')
         else if outstanding \<noteq> 0 then Inl (Ledger ''check-facing-bet'')
         else Inr (mark_acted (ha_actor a) s))
      else
        (if \<not> (amount = 0 \<and> ha_to_amount a = None) then Inl (Ledger ''fold-shape-invalid'')
         else if \<not> 0 < outstanding then Inl (Ledger ''fold-without-outstanding-bet'')
         else Inr (mark_acted (ha_actor a)
                (s\<lparr>active := active s - {ha_actor a},
                   folded_at := (folded_at s)(ha_actor a := Some index)\<rparr>))))"

definition apply_call ::
    "ledger_env \<Rightarrow> nat \<Rightarrow> hand_action \<Rightarrow> int \<Rightarrow> int \<Rightarrow> ledger_state \<Rightarrow> ledger_state ledger_result" where
  "apply_call env index a amount outstanding s =
     (let required = min outstanding (remaining s (ha_actor a)) in
      if \<not> (0 < outstanding \<and> amount = required) then Inl (Ledger ''call-amount-invalid'')
      else
        bindE (validate_to_amount env (ha_to_amount a)
                 (street_contribution s (ha_actor a) + amount) False) (\<lambda>_.
        bindE (commit_units index (ha_actor a) amount True s) (\<lambda>s1.
          Inr (mark_acted (ha_actor a) s1))))"

definition apply_bet ::
    "ledger_env \<Rightarrow> nat \<Rightarrow> hand_action \<Rightarrow> int \<Rightarrow> ledger_state \<Rightarrow> ledger_state ledger_result" where
  "apply_bet env index a amount s =
     (let expected_to = street_contribution s (ha_actor a) + amount in
      if current_bet s \<noteq> 0 then Inl (Ledger ''bet-when-bet-open'')
      else if \<not> le_big_blind env \<le> amount then Inl (Ledger ''opening-bet-below-minimum'')
      else if \<not> amount < remaining s (ha_actor a) then Inl (Ledger ''bet-must-use-all-in-action'')
      else
        bindE (validate_to_amount env (ha_to_amount a) expected_to True) (\<lambda>_.
        bindE (commit_units index (ha_actor a) amount True s) (\<lambda>s1.
          Inr (mark_acted (ha_actor a)
            (s1\<lparr>current_bet := expected_to, minimum_full_raise := expected_to\<rparr>)))))"

definition apply_raise ::
    "ledger_env \<Rightarrow> nat \<Rightarrow> hand_action \<Rightarrow> int \<Rightarrow> bool \<Rightarrow> ledger_state \<Rightarrow> ledger_state ledger_result" where
  "apply_raise env index a amount raise_rights_before s =
     (let expected_to = street_contribution s (ha_actor a) + amount in
      if \<not> 0 < current_bet s then Inl (Ledger ''raise-without-open-bet'')
      else if \<not> raise_rights_before then Inl (Ledger ''betting-not-reopened'')
      else if \<not> amount < remaining s (ha_actor a) then Inl (Ledger ''raise-must-use-all-in-action'')
      else
        bindE (validate_to_amount env (ha_to_amount a) expected_to True) (\<lambda>_.
          let increment = expected_to - current_bet s in
          if \<not> minimum_full_raise s \<le> increment then Inl (Ledger ''raise-below-full-minimum'')
          else bindE (commit_units index (ha_actor a) amount True s) (\<lambda>s1.
            Inr (mark_acted (ha_actor a)
              (s1\<lparr>current_bet := expected_to, minimum_full_raise := increment\<rparr>)))))"

definition apply_all_in ::
    "ledger_env \<Rightarrow> nat \<Rightarrow> hand_action \<Rightarrow> int \<Rightarrow> bool \<Rightarrow> ledger_state
      \<Rightarrow> (ledger_state \<times> bool) ledger_result" where
  "apply_all_in env index a amount raise_rights_before s =
     (if \<not> (0 < amount \<and> amount = remaining s (ha_actor a))
      then Inl (Ledger ''all-in-amount-invalid'')
      else (let expected_to = street_contribution s (ha_actor a) + amount in
        bindE (validate_to_amount env (ha_to_amount a) expected_to False) (\<lambda>_.
        bindE (if current_bet s < expected_to then
                 (if \<not> raise_rights_before then Inl (Ledger ''betting-not-reopened'')
                  else (let increment = expected_to - current_bet s;
                            full_raise = minimum_full_raise s \<le> increment in
                    Inr (s\<lparr>current_bet := expected_to,
                           minimum_full_raise := (if full_raise then increment
                             else minimum_full_raise s)\<rparr>, full_raise)))
               else Inr (s, False)) (\<lambda>(s1, full_raise).
        bindE (commit_units index (ha_actor a) amount True s1) (\<lambda>s2.
          Inr (mark_acted (ha_actor a) s2, full_raise))))))"

definition apply_kind ::
    "ledger_env \<Rightarrow> nat \<Rightarrow> hand_action \<Rightarrow> int \<Rightarrow> int \<Rightarrow> bool \<Rightarrow> ledger_state
      \<Rightarrow> (ledger_state \<times> bool) ledger_result" where
  "apply_kind env index a amount outstanding raise_rights_before s =
     (if ha_action a \<in> {Post_blind, Post_ante}
      then bindE (apply_forced index a amount s) (\<lambda>s1. Inr (s1, False))
      else (let v = s\<lparr>voluntary_action_seen := True\<rparr> in
        case ha_action a of
          Call \<Rightarrow> bindE (apply_call env index a amount outstanding v) (\<lambda>s1. Inr (s1, False))
        | Bet \<Rightarrow> bindE (apply_bet env index a amount v) (\<lambda>s1. Inr (s1, True))
        | Raise \<Rightarrow> bindE (apply_raise env index a amount raise_rights_before v)
                     (\<lambda>s1. Inr (s1, True))
        | All_in \<Rightarrow> apply_all_in env index a amount raise_rights_before v
        | _ \<Rightarrow> bindE (apply_check_fold index a amount outstanding v) (\<lambda>s1. Inr (s1, False))))"

definition apply_on_street ::
    "ledger_env \<Rightarrow> nat \<Rightarrow> hand_action \<Rightarrow> ledger_state \<Rightarrow> ledger_state ledger_result" where
  "apply_on_street env index a s =
     (if ha_actor a \<notin> active s then Inl (Ledger ''folded-player-acts'')
      else if ha_actor a \<in> all_in s then Inl (Ledger ''all-in-player-acts'')
      else if voluntary_action_seen s \<and> \<not> 1 < card (active s)
      then Inl (Ledger ''action-after-hand-ended'')
      else
        bindE (decimal_units (ha_amount a) (le_unit env)) (\<lambda>amount.
        bindE (validate_declared_pot env (ha_pot_before a) (net_total s) ''pot-before-mismatch'')
          (\<lambda>_.
        let outstanding = current_bet s - street_contribution s (ha_actor a);
            raise_rights_before = raise_rights s (ha_actor a) in
        if \<not> 0 \<le> outstanding then Inl (Ledger ''negative-outstanding-bet'')
        else
          bindE (apply_kind env index a amount outstanding raise_rights_before s)
            (\<lambda>(s1, full_raise).
          bindE (validate_declared_pot env (ha_pot_after a) (net_total s1) ''pot-after-mismatch'')
            (\<lambda>_. append_action index a amount raise_rights_before full_raise s1)))))"

definition ledger_apply ::
    "ledger_env \<Rightarrow> ledger_state \<Rightarrow> nat \<times> hand_action \<Rightarrow> ledger_state ledger_result" where
  "ledger_apply env s ia =
     (case ia of (index, a) \<Rightarrow>
      if ha_actor a \<notin> set (le_player_ids env) then Inl (Ledger ''unknown-actor'')
      else
        bindE (if Some (ha_street a) \<noteq> current_street s then start_street env (ha_street a) s
               else Inr s) (apply_on_street env index a))"

section \<open>Closing the hand\<close>

definition layer_evidence ::
    "(string \<Rightarrow> interval list) \<Rightarrow> string list \<Rightarrow> int \<Rightarrow> int \<Rightarrow> nat list" where
  "layer_evidence intervals contributors lower upper =
     sort (remdups (concat (map (\<lambda>p. map fst (filter (\<lambda>(index, lo, hi).
        lo < upper \<and> lower < hi) (intervals p))) contributors)))"

fun build_layers ::
    "ledger_env \<Rightarrow> ledger_state \<Rightarrow> nat \<Rightarrow> int \<Rightarrow> int list \<Rightarrow> pot_layer list ledger_result" where
  "build_layers env s layer_index lower [] = Inr []"
| "build_layers env s layer_index lower (upper # levels) =
     (let contributors = canonical_players (filter (\<lambda>p. upper \<le> net s p) (le_player_ids env));
          eligible = canonical_players (filter (\<lambda>p. folded_at s p = None) contributors);
          amount = (upper - lower) * int (length contributors);
          evidence = layer_evidence (action_intervals s) contributors lower upper;
          layer = \<lparr>pl_layer_index = layer_index,
                   pl_kind = (if layer_index = 0 then Main_pot else Side_pot),
                   pl_lower_bound_units = lower, pl_upper_bound_units = upper,
                   pl_amount_units = amount, pl_contributors = contributors,
                   pl_eligible_players = eligible, pl_evidence_action_indexes = evidence\<rparr> in
      if eligible = [] then Inl (Ledger ''pot-layer-has-no-eligible-player'')
      else if \<not> (0 < amount \<and> amount \<le> MAX_LEDGER_UNITS)
      then Inl (Ledger ''pot-layer-limit-exceeded'')
      else if evidence = [] then Inl (Ledger ''pot-layer-evidence-missing'')
      else if \<not> pot_layer_ok layer then Inl (Invalid ''PotLayerV1'')
      else bindE (build_layers env s (Suc layer_index) upper levels) (\<lambda>layers.
             Inr (layer # layers)))"

definition positive_levels :: "string list \<Rightarrow> (string \<Rightarrow> int) \<Rightarrow> int list" where
  "positive_levels ids values = sort (remdups (filter (\<lambda>v. 0 < v) (map values ids)))"

definition sorted_items :: "string list \<Rightarrow> (string \<Rightarrow> int) \<Rightarrow> (string \<times> int) list" where
  "sorted_items ids values = map (\<lambda>p. (p, values p)) (canonical_players ids)"

definition ledger_output ::
    "ledger_env \<Rightarrow> ledger_state \<Rightarrow> pot_layer list \<Rightarrow> hand_pot_output" where
  "ledger_output env s layers =
     (let ids = le_player_ids env in
      \<lparr>ho_chip_unit = le_unit env, ho_ledger_actions = ledger_actions s,
       ho_uncalled_returns = returns s, ho_pot_layers = layers,
       ho_player_eligibility = map (\<lambda>p. \<lparr>pe_player_id = p,
          pe_eligible_for_contested_pots = (folded_at s p = None \<and> 0 < net s p),
          pe_folded_at_action_index = folded_at s p\<rparr>) (canonical_players ids),
       ho_gross_contributions_units = sorted_items ids (gross s),
       ho_net_contributions_units = sorted_items ids (net s),
       ho_remaining_stacks_units = sorted_items ids (remaining s),
       ho_gross_committed_units = gross_total s, ho_total_returned_units = returned_total s,
       ho_final_pot_units = net_total s, ho_starting_chips_units = le_starting_total env\<rparr>)"

definition ledger_finish :: "ledger_env \<Rightarrow> ledger_state \<Rightarrow> hand_pot_output ledger_result" where
  "ledger_finish env s0 =
     (if \<not> (current_street s0 \<noteq> None \<and> ledger_actions s0 \<noteq> [])
      then Inl (Ledger ''ledger-actions-required'')
      else
        bindE (close_street env s0) (\<lambda>s.
        if \<not> 0 < net_total s then Inl (Ledger ''positive-final-pot-required'')
        else if gross_total s \<noteq> net_total s + returned_total s
        then Inl (Ledger ''gross-net-return-conservation-failed'')
        else if (\<Sum>p\<leftarrow>le_player_ids env. remaining s p) + net_total s \<noteq> le_starting_total env
        then Inl (Ledger ''stack-pot-conservation-failed'')
        else
          bindE (build_layers env s 0 0 (positive_levels (le_player_ids env) (net s))) (\<lambda>layers.
          if \<not> hand_pot_output_ok (ledger_output env s layers)
          then Inl (Invalid ''HandPotLedgerOutputV1'')
          else Inr (ledger_output env s layers))))"

end
