(* ===== verification/HandPotOracle.thy ===== *)
theory HandPotOracle
  imports HandPotLedger
begin

text \<open>
  The second half of \<open>tools/hand_pot_ledger.py\<close>: \<open>_oracle_expected\<close>, the independent
  recomputation of the accounting from the raw actions in exact \<open>Fraction\<close> arithmetic,
  \<open>_verify_oracle\<close>, which compares it with the builder's output, and the tool entry
  point \<open>calculate_hand_pot_ledger\<close>.
\<close>

record oracle_state =
  o_gross :: "string \<Rightarrow> int"
  o_street :: "string \<Rightarrow> int"
  o_total_intervals :: "string \<Rightarrow> interval list"
  o_street_intervals :: "string \<Rightarrow> interval list"
  o_folded :: "string \<Rightarrow> nat option"
  o_current_street :: "street option"
  o_returns :: "(street \<times> string \<times> int \<times> nat list) list"

type_synonym oracle_layer = "int \<times> int \<times> int \<times> string list \<times> string list \<times> nat list"

record oracle_result =
  or_starting :: "string \<Rightarrow> int"
  or_gross :: "string \<Rightarrow> int"
  or_net :: "string \<Rightarrow> int"
  or_remaining :: "string \<Rightarrow> int"
  or_returns :: "(street \<times> string \<times> int \<times> nat list) list"
  or_layers :: "oracle_layer list"
  or_final_pot :: int
  or_gross_total :: int
  or_returned_total :: int

definition init_oracle :: oracle_state where
  "init_oracle =
     \<lparr>o_gross = (\<lambda>_. 0), o_street = (\<lambda>_. 0), o_total_intervals = (\<lambda>_. []),
      o_street_intervals = (\<lambda>_. []), o_folded = (\<lambda>_. None), o_current_street = None,
      o_returns = []\<rparr>"

definition oracle_close_street :: "string list \<Rightarrow> oracle_state \<Rightarrow> oracle_state ledger_result" where
  "oracle_close_street ids t =
     (case o_current_street t of
        None \<Rightarrow> Inr t
      | Some st \<Rightarrow>
          (let highest = max_default (map (o_street t) ids);
               leaders = filter (\<lambda>p. o_street t p = highest) ids in
           if highest \<le> 0 \<or> length leaders \<noteq> 1 then Inr t
           else (let p = hd leaders;
                     second = max_default (map (o_street t) (filter (\<lambda>other. other \<noteq> p) ids));
                     amount = highest - second in
             if amount \<le> 0 then Inr t
             else (let source = map fst (filter (\<lambda>(index, lo, hi).
                         lo < highest \<and> second < hi) (o_street_intervals t p)) in
               bindE (street_value st) (\<lambda>st'.
                 Inr (t\<lparr>o_returns := o_returns t @ [(st', p, amount, source)],
                        o_street := (o_street t)(p := o_street t p - amount)\<rparr>))))))"

definition oracle_contribute ::
    "nat \<Rightarrow> hand_action \<Rightarrow> int \<Rightarrow> oracle_state \<Rightarrow> oracle_state" where
  "oracle_contribute index a amount t =
     (let p = ha_actor a;
          t1 = t\<lparr>o_gross := (o_gross t)(p := o_gross t p + amount),
                 o_total_intervals := (if amount \<noteq> 0
                   then (o_total_intervals t)(p := o_total_intervals t p @
                          [(index, o_gross t p, o_gross t p + amount)])
                   else o_total_intervals t)\<rparr> in
      if ha_action a \<noteq> Post_ante then
        t1\<lparr>o_street := (o_street t1)(p := o_street t1 p + amount),
           o_street_intervals := (if amount \<noteq> 0
             then (o_street_intervals t1)(p := o_street_intervals t1 p @
                    [(index, o_street t1 p, o_street t1 p + amount)])
             else o_street_intervals t1)\<rparr>
      else t1)"

definition oracle_step ::
    "string list \<Rightarrow> rat \<Rightarrow> oracle_state \<Rightarrow> nat \<times> hand_action \<Rightarrow> oracle_state ledger_result" where
  "oracle_step ids unit t ia =
     (case ia of (index, a) \<Rightarrow>
      bindE (if Some (ha_street a) \<noteq> o_current_street t
             then bindE (oracle_close_street ids t) (\<lambda>t1.
               Inr (t1\<lparr>o_current_street := Some (ha_street a), o_street := (\<lambda>_. 0),
                       o_street_intervals := (\<lambda>_. [])\<rparr>))
             else Inr t) (\<lambda>t1.
      let t2 = (if ha_action a = Fold
                then t1\<lparr>o_folded := (o_folded t1)(ha_actor a := Some index)\<rparr> else t1) in
      if ha_action a \<notin> CONTRIBUTION_ACTIONS then Inr t2
      else bindE (fraction_units (ha_amount a) unit) (\<lambda>amount.
             Inr (oracle_contribute index a amount t2))))"

fun oracle_layers ::
    "string list \<Rightarrow> oracle_state \<Rightarrow> (string \<Rightarrow> int) \<Rightarrow> int \<Rightarrow> int list \<Rightarrow> oracle_layer list" where
  "oracle_layers ids t net_of lower [] = []"
| "oracle_layers ids t net_of lower (upper # levels) =
     (let contributors = canonical_players (filter (\<lambda>p. upper \<le> net_of p) ids);
          eligible = canonical_players (filter (\<lambda>p. o_folded t p = None) contributors);
          evidence = layer_evidence (o_total_intervals t) contributors lower upper in
      (lower, upper, (upper - lower) * int (length contributors), contributors, eligible, evidence)
        # oracle_layers ids t net_of upper levels)"

definition returned_by_player ::
    "(street \<times> string \<times> int \<times> nat list) list \<Rightarrow> string \<Rightarrow> int" where
  "returned_by_player rs p = (\<Sum>(st, q, amount, src)\<leftarrow>rs. if q = p then amount else 0)"

definition oracle_expected ::
    "canonical_hand \<Rightarrow> hand_rule_profile \<Rightarrow> oracle_result ledger_result" where
  "oracle_expected h profile =
     (let unit = parse_decimal (rp_chip_unit profile);
          ids = map ps_player_id (h_players h) in
      bindE (mapE (\<lambda>p. fraction_units (ps_starting_stack p) unit) (h_players h)) (\<lambda>units.
      bindE (foldE (oracle_step ids unit) init_oracle (enumerate 0 (h_actions h))) (\<lambda>t0.
      bindE (oracle_close_street ids t0) (\<lambda>t.
        let starting = dict_of ids units;
            net_of = (\<lambda>p. o_gross t p - returned_by_player (o_returns t) p);
            remaining_of = (\<lambda>p. starting p - o_gross t p + returned_by_player (o_returns t) p) in
        Inr \<lparr>or_starting = starting, or_gross = o_gross t, or_net = net_of,
             or_remaining = remaining_of, or_returns = o_returns t,
             or_layers = oracle_layers ids t net_of 0 (positive_levels ids net_of),
             or_final_pot = (\<Sum>p\<leftarrow>ids. net_of p), or_gross_total = (\<Sum>p\<leftarrow>ids. o_gross t p),
             or_returned_total = (\<Sum>(st, q, amount, src)\<leftarrow>o_returns t. amount)\<rparr>))))"

definition dict_eq :: "(string \<times> int) list \<Rightarrow> string list \<Rightarrow> (string \<Rightarrow> int) \<Rightarrow> bool" where
  \<comment> \<open>equality of a dict with the dict \<open>{p: values(p) for p in ids}\<close>, whatever the key order\<close>
  "dict_eq items ids values \<longleftrightarrow> set items = set (map (\<lambda>p. (p, values p)) ids)"

definition actual_return :: "uncalled_return \<Rightarrow> street \<times> string \<times> int \<times> nat list" where
  "actual_return r =
     (ur_street r, ur_player_id r, ur_amount_units r, ur_source_action_indexes r)"

definition actual_layer :: "pot_layer \<Rightarrow> oracle_layer" where
  "actual_layer l =
     (pl_lower_bound_units l, pl_upper_bound_units l, pl_amount_units l, pl_contributors l,
      pl_eligible_players l, pl_evidence_action_indexes l)"

definition verify_oracle ::
    "canonical_hand \<Rightarrow> hand_rule_profile \<Rightarrow> hand_pot_output \<Rightarrow> unit ledger_result" where
  "verify_oracle h profile r =
     (let ids = map ps_player_id (h_players h) in
      bindE (oracle_expected h profile) (\<lambda>e.
        if \<not> dict_eq (ho_gross_contributions_units r) ids (or_gross e)
        then Inl (Ledger ''oracle-gross-mismatch'')
        else if \<not> dict_eq (ho_net_contributions_units r) ids (or_net e)
        then Inl (Ledger ''oracle-net-mismatch'')
        else if \<not> dict_eq (ho_remaining_stacks_units r) ids (or_remaining e)
        then Inl (Ledger ''oracle-stack-mismatch'')
        else if ho_final_pot_units r \<noteq> or_final_pot e then Inl (Ledger ''oracle-pot-mismatch'')
        else if ho_gross_committed_units r \<noteq> or_gross_total e
        then Inl (Ledger ''oracle-gross-total-mismatch'')
        else if ho_total_returned_units r \<noteq> or_returned_total e
        then Inl (Ledger ''oracle-return-total-mismatch'')
        else if map actual_return (ho_uncalled_returns r) \<noteq> or_returns e
        then Inl (Ledger ''oracle-return-mismatch'')
        else if map actual_layer (ho_pot_layers r) \<noteq> or_layers e
        then Inl (Ledger ''oracle-layer-mismatch'')
        else if (\<Sum>p\<leftarrow>ids. or_starting e p) \<noteq> (\<Sum>p\<leftarrow>ids. or_remaining e p) + ho_final_pot_units r
        then Inl (Ledger ''oracle-conservation-failed'')
        else Inr ()))"

definition build_ledger ::
    "canonical_hand \<Rightarrow> hand_rule_profile \<Rightarrow> hand_pot_output ledger_result" where
  "build_ledger h profile =
     bindE (validate_profile profile) (\<lambda>unit.
     bindE (validate_profile_hand h unit) (\<lambda>(small_blind, big_blind, ante).
     bindE (init_ledger h unit big_blind) (\<lambda>(env, s0).
     bindE (foldE (ledger_apply env) s0 (enumerate 0 (h_actions h))) (\<lambda>s.
       ledger_finish env s))))"

definition calculate_hand_pot_ledger ::
    "canonical_hand \<Rightarrow> hand_rule_profile \<Rightarrow> hand_pot_output ledger_result" where
  "calculate_hand_pot_ledger h profile =
     (if \<not> canonical_hand_ok h then Inl (Invalid ''HandPotLedgerInputV1'')
      else bindE (build_ledger h profile) (\<lambda>r.
        bindE (verify_oracle h profile r) (\<lambda>_. Inr r)))"

end
