(* ===== verification/HandPotProofs.thy ===== *)
theory HandPotProofs
  imports HandPotOracle
begin

text \<open>
  Correctness of the hand and pot ledger: the accounting invariant of the builder
  (\<open>acct\<close>), that every applied action and every street close keeps it, conservation at
  the end of the hand, the pot layers, and the simulation between the builder and the
  independent oracle.
\<close>

section \<open>Unit conversions\<close>

lemma fraction_units_InrD:
  "fraction_units v u = Inr n \<Longrightarrow> v / u = of_int n \<and> 0 \<le> n \<and> n \<le> MAX_LEDGER_UNITS"
  by (auto simp: fraction_units_def Let_def is_integral_def split: if_splits)

lemma MAX_LEDGER_UNITS_lt: "n \<le> MAX_LEDGER_UNITS \<Longrightarrow> n < 10 ^ 28"
  by (simp add: MAX_LEDGER_UNITS_def)

text \<open>Where both conversions succeed they agree: a quotient that is an integer in range
  has at most 19 digits, so the 28 digit rounding of \<open>Decimal\<close> does not touch it.\<close>

lemma decimal_fraction_agree:
  assumes d: "decimal_units v u = Inr m" and f: "fraction_units v u = Inr n"
  shows "m = n"
proof -
  from fraction_units_InrD [OF f] have q: "v / u = of_int n" and "0 \<le> n" "n < 10 ^ 28"
    using MAX_LEDGER_UNITS_lt by auto
  then have "dec_div v u = of_int n" by (simp add: dec_div_def dec_round_of_int)
  with d show ?thesis by (auto simp: decimal_units_def Let_def split: if_splits)
qed

lemma decimal_units_InrD:
  assumes d: "decimal_units v u = Inr m"
  shows "0 \<le> v \<and> v \<le> dec_mul u (of_int MAX_LEDGER_UNITS) \<and> of_int m = dec_div v u"
  using d by (auto simp: decimal_units_def Let_def is_integral_def split: if_splits)

lemma decimal_units_bounds:
  assumes u: "0 < u" and d: "decimal_units v u = Inr m"
  shows "0 \<le> m \<and> m \<le> MAX_LEDGER_UNITS"
proof -
  note D = decimal_units_InrD [OF d]
  let ?M = "of_int MAX_LEDGER_UNITS :: rat"
  have M: "0 < ?M" "?M \<le> 10 ^ 19" by (simp_all add: MAX_LEDGER_UNITS_def)
  show ?thesis
  proof (cases "v = 0")
    case True
    with D have "(of_int m :: rat) = 0" by (simp add: dec_div_def dec_round_def)
    then show ?thesis by (simp add: MAX_LEDGER_UNITS_def)
  next
    case False
    with D u have q: "0 < v / u" by simp
    have "\<bar>dec_round (u * ?M) - u * ?M\<bar> \<le> u * ?M / (2 * 10 ^ 27)"
      using u M by (intro dec_round_error) simp
    then have "dec_mul u ?M \<le> u * ?M + u * ?M / (2 * 10 ^ 27)"
      unfolding dec_mul_def by linarith
    then have "v / u \<le> (u * ?M + u * ?M / (2 * 10 ^ 27)) / u"
      using D u by (intro divide_right_mono) auto
    also have "\<dots> = ?M + ?M / (2 * 10 ^ 27)" using u by (simp add: field_simps)
    also have "\<dots> \<le> ?M + 1 / 100" by (simp add: MAX_LEDGER_UNITS_def)
    finally have hi: "v / u \<le> ?M + 1 / 100" .
    have err: "\<bar>dec_div v u - v / u\<bar> \<le> (v / u) / (2 * 10 ^ 27)"
      unfolding dec_div_def by (rule dec_round_error [OF q])
    moreover have "(v / u) / (2 * 10 ^ 27) \<le> (?M + 1 / 100) / (2 * 10 ^ 27)"
      using hi by (intro divide_right_mono) auto
    moreover have "(?M + 1 / 100) / (2 * 10 ^ 27) \<le> 1 / 100" by (simp add: MAX_LEDGER_UNITS_def)
    ultimately have "dec_div v u \<le> ?M + 1 / 50" using hi by linarith
    with D have "(of_int m :: rat) < of_int (MAX_LEDGER_UNITS + 1)" by simp
    then have upper: "m < MAX_LEDGER_UNITS + 1" by (simp only: of_int_less_iff)
    have "(v / u) / (2 * 10 ^ 27) \<le> v / u" using q by simp
    with err have "0 \<le> dec_div v u" by linarith
    with D have "(0::rat) \<le> of_int m" by simp
    with upper show ?thesis by simp
  qed
qed

lemma checked_add_Inr [errs]:
  "checked_add l r = Inr n \<longleftrightarrow> n = l + r \<and> 0 \<le> l \<and> 0 \<le> r \<and> l + r \<le> MAX_LEDGER_UNITS"
  by (auto simp: checked_add_def)

section \<open>What one commit does\<close>

definition commit_effect :: "nat \<Rightarrow> string \<Rightarrow> int \<Rightarrow> bool \<Rightarrow> ledger_state \<Rightarrow> ledger_state" where
  "commit_effect i p n b s =
     s\<lparr>gross := (gross s)(p := gross s p + n), net := (net s)(p := net s p + n),
       remaining := (remaining s)(p := remaining s p - n),
       gross_total := gross_total s + n, net_total := net_total s + n,
       street_contribution := (if b then (street_contribution s)(p := street_contribution s p + n)
         else street_contribution s),
       street_intervals := (if b \<and> n \<noteq> 0 then (street_intervals s)(p := street_intervals s p @
           [(i, street_contribution s p, street_contribution s p + n)]) else street_intervals s),
       action_intervals := (if n \<noteq> 0 then (action_intervals s)(p := action_intervals s p @
           [(i, gross s p, gross s p + n)]) else action_intervals s),
       all_in := (if remaining s p - n = 0 then insert p (all_in s) else all_in s)\<rparr>"

lemma commit_units_InrD:
  assumes "commit_units i p n b s = Inr s'"
  shows "s' = commit_effect i p n b s \<and> n \<le> remaining s p \<and> 0 \<le> n \<and>
    gross_total s + n \<le> MAX_LEDGER_UNITS \<and> net_total s + n \<le> MAX_LEDGER_UNITS \<and>
    (b \<longrightarrow> street_contribution s p + n \<le> MAX_LEDGER_UNITS)"
  using assms
  by (cases b) (auto simp: commit_units_def commit_effect_def bindE_Inr checked_add_Inr split: if_splits)

section \<open>The accounting invariant\<close>

definition returned_by :: "uncalled_return list \<Rightarrow> string \<Rightarrow> int" where
  "returned_by rs p = returned_by_player (map actual_return rs) p"

lemma returned_by_simps [simp]:
  "returned_by [] p = 0"
  "returned_by (rs @ [r]) p = returned_by rs p + (if ur_player_id r = p then ur_amount_units r else 0)"
  by (simp_all add: returned_by_def returned_by_player_def actual_return_def)

definition env_ok :: "ledger_env \<Rightarrow> bool" where
  "env_ok env \<longleftrightarrow> distinct (le_player_ids env) \<and> 0 < le_unit env \<and>
     (\<forall>p\<in>set (le_player_ids env). 0 \<le> le_starting env p) \<and>
     le_starting_total env = (\<Sum>p\<leftarrow>le_player_ids env. le_starting env p) \<and>
     0 < le_starting_total env \<and> le_starting_total env \<le> MAX_LEDGER_UNITS"

definition player_acct :: "ledger_env \<Rightarrow> ledger_state \<Rightarrow> string \<Rightarrow> bool" where
  "player_acct env s p \<longleftrightarrow>
     0 \<le> remaining s p \<and> 0 \<le> street_contribution s p \<and> street_contribution s p \<le> net s p \<and>
     remaining s p + net s p = le_starting env p \<and>
     gross s p = net s p + returned_by (returns s) p \<and> 0 \<le> returned_by (returns s) p"

definition acct :: "ledger_env \<Rightarrow> ledger_state \<Rightarrow> bool" where
  "acct env s \<longleftrightarrow>
     (\<forall>p\<in>set (le_player_ids env). player_acct env s p) \<and>
     gross_total s = (\<Sum>p\<leftarrow>le_player_ids env. gross s p) \<and>
     net_total s = (\<Sum>p\<leftarrow>le_player_ids env. net s p) \<and>
     returned_total s = sum_list (map ur_amount_units (returns s)) \<and>
     (\<forall>r\<in>set (returns s). ur_player_id r \<in> set (le_player_ids env))"

text \<open>The invariant reads only these fields.\<close>

definition same_acct :: "ledger_state \<Rightarrow> ledger_state \<Rightarrow> bool" where
  "same_acct s s' \<longleftrightarrow>
     remaining s' = remaining s \<and> net s' = net s \<and> gross s' = gross s \<and>
     street_contribution s' = street_contribution s \<and> gross_total s' = gross_total s \<and>
     net_total s' = net_total s \<and> returned_total s' = returned_total s \<and> returns s' = returns s"

lemma same_acct_acct: "same_acct s s' \<Longrightarrow> acct env s' = acct env s"
  by (simp add: same_acct_def acct_def player_acct_def)

lemma acct_frame [simp]:
  "acct env (mark_acted p s) = acct env s"
  "acct env (s\<lparr>current_bet := b\<rparr>) = acct env s"
  "acct env (s\<lparr>current_bet := b, minimum_full_raise := m\<rparr>) = acct env s"
  "acct env (s\<lparr>voluntary_action_seen := v\<rparr>) = acct env s"
  "acct env (s\<lparr>active := A, folded_at := f\<rparr>) = acct env s"
  "acct env (s\<lparr>ledger_actions := las\<rparr>) = acct env s"
  by (simp_all add: acct_def player_acct_def mark_acted_def)

lemma acct_init:
  "env_ok env \<Longrightarrow> acct env (init_ledger_state (le_player_ids env) (le_starting env) bb)"
  by (auto simp: acct_def player_acct_def init_ledger_state_def env_ok_def)

lemma acct_commit:
  assumes ok: "env_ok env" and a: "acct env s" and p: "p \<in> set (le_player_ids env)"
    and n: "0 \<le> n" "n \<le> remaining s p"
  shows "acct env (commit_effect i p n b s)"
proof -
  have d: "distinct (le_player_ids env)" using ok by (simp add: env_ok_def)
  have "\<forall>q\<in>set (le_player_ids env). player_acct env (commit_effect i p n b s) q"
    using a n by (auto simp: acct_def player_acct_def commit_effect_def)
  with a show ?thesis
    by (simp add: acct_def commit_effect_def sum_list_upd_if [OF d p])
qed

text \<open>Every balance is bounded by the chips on the table.\<close>

lemma acct_bounds:
  assumes ok: "env_ok env" and a: "acct env s" and p: "p \<in> set (le_player_ids env)"
  shows "0 \<le> net s p \<and> net s p \<le> le_starting_total env \<and> remaining s p \<le> le_starting_total env \<and>
    street_contribution s p \<le> le_starting_total env"
proof -
  have "le_starting env p \<le> (\<Sum>q\<leftarrow>le_player_ids env. le_starting env q)"
    using ok p by (intro member_le_sum_list) (auto simp: env_ok_def)
  with a p ok show ?thesis
    by (auto simp: acct_def player_acct_def env_ok_def)
qed

section \<open>Closing a street\<close>

lemma foldE_unit_Inr:
  "foldE (\<lambda>_ p. f p) () xs = Inr u \<longleftrightarrow> (\<forall>x\<in>set xs. f x = Inr ())"
  by (induction xs) (auto simp: bindE_Inr)

lemma max_default_ge: "x \<in> set xs \<Longrightarrow> x \<le> max_default xs"
  by (cases xs) (auto simp: max_default_def Max.set_eq_fold [symmetric])

lemma max_default_in: "xs \<noteq> [] \<Longrightarrow> max_default xs \<in> set xs"
proof (cases xs)
  case (Cons a list)
  then have "max_default xs = Max (set xs)"
    by (simp add: max_default_def Max.set_eq_fold [symmetric])
  then show ?thesis using Cons Max_in [of "set xs"] by simp
qed simp

lemma max_default_nonneg: "\<forall>x\<in>set xs. 0 \<le> x \<Longrightarrow> 0 \<le> max_default xs"
  by (cases "xs = []") (auto simp: max_default_def dest: max_default_in)

text \<open>The unique street return, as a value: who, how much, from which actions.\<close>

definition street_return ::
    "string list \<Rightarrow> (string \<Rightarrow> int) \<Rightarrow> (string \<Rightarrow> interval list) \<Rightarrow> (string \<times> int \<times> nat list) option" where
  "street_return ids contrib intervals =
     (let highest = max_default (map contrib ids);
          leaders = filter (\<lambda>p. contrib p = highest) ids in
      if highest \<le> 0 \<or> length leaders \<noteq> 1 then None
      else (let p = hd leaders;
                second = max_default (map contrib (filter (\<lambda>q. q \<noteq> p) ids));
                amount = highest - second in
        if amount \<le> 0 then None
        else Some (p, amount, map fst (filter (\<lambda>(index, lo, hi).
               lo < highest \<and> second < hi) (intervals p)))))"

definition return_effect ::
    "street \<Rightarrow> string \<times> int \<times> nat list \<Rightarrow> ledger_state \<Rightarrow> ledger_state" where
  "return_effect st r s =
     (case r of (p, amount, src) \<Rightarrow>
      s\<lparr>street_contribution := (street_contribution s)(p := street_contribution s p - amount),
        net := (net s)(p := net s p - amount), net_total := net_total s - amount,
        remaining := (remaining s)(p := remaining s p + amount),
        returned_total := returned_total s + amount,
        all_in := (if 0 < remaining s p + amount then all_in s - {p} else all_in s),
        returns := returns s @ [\<lparr>ur_return_index = length (returns s), ur_street = st,
          ur_player_id = p, ur_amount_units = amount, ur_source_action_indexes = src\<rparr>]\<rparr>)"

lemma close_street_cases:
  assumes c: "close_street env s = Inr s'"
  obtains st where "current_street s = Some st"
    "street_return (le_player_ids env) (street_contribution s) (street_intervals s) = None" "s' = s"
  | st p amount src where "current_street s = Some st"
    "street_return (le_player_ids env) (street_contribution s) (street_intervals s)
       = Some (p, amount, src)"
    "s' = return_effect st (p, amount, src) s" "p \<in> active s" "src \<noteq> []" "st \<noteq> Showdown"
proof -
  let ?ids = "le_player_ids env"
  let ?hi = "max_default (map (street_contribution s) ?ids)"
  let ?lead = "filter (\<lambda>p. street_contribution s p = ?hi) ?ids"
  let ?hp = "filter (\<lambda>p. street_contribution s p = ?hi \<and> 0 < ?hi) ?ids"
  from c obtain st where st: "current_street s = Some st"
    by (auto simp: close_street_def split: option.splits)
  with c have c': "(case ?hp of [p] \<Rightarrow> return_uncalled env st ?hi p s | _ \<Rightarrow> Inr s) = Inr s'"
    by (auto simp: close_street_def bindE_Inr Let_def)
  show thesis
  proof (cases "?hi \<le> 0 \<or> length ?lead \<noteq> 1")
    case True
    then have "?hp = [] \<or> length ?hp \<noteq> 1" by (cases "?hi \<le> 0") auto
    with c' have "s' = s" by (auto split: list.splits)
    moreover have "street_return ?ids (street_contribution s) (street_intervals s) = None"
      using True by (simp add: street_return_def Let_def)
    ultimately show thesis using that(1) st by blast
  next
    case False
    then obtain p where p: "?lead = [p]" by (cases ?lead) auto
    with False have hp: "?hp = [p]" by simp
    with c' have r: "return_uncalled env st ?hi p s = Inr s'" by simp
    let ?second = "max_default (map (street_contribution s) (filter (\<lambda>q. q \<noteq> p) ?ids))"
    show thesis
    proof (cases "?hi - ?second \<le> 0")
      case True
      with r have "s' = s" by (simp add: return_uncalled_def Let_def)
      moreover have "street_return ?ids (street_contribution s) (street_intervals s) = None"
        using False True p by (simp add: street_return_def Let_def)
      ultimately show thesis using that(1) st by blast
    next
      case False2: False
      let ?src = "map fst (filter (\<lambda>(index, lo, hi). lo < ?hi \<and> ?second < hi)
                    (street_intervals s p))"
      from r False2 have "p \<in> active s" "?src \<noteq> []" "st \<noteq> Showdown"
        and "s' = return_effect st (p, ?hi - ?second, ?src) s"
        by (auto simp: return_uncalled_def Let_def bindE_Inr checked_add_Inr street_value_def
            return_effect_def split: if_splits)
      moreover have "street_return ?ids (street_contribution s) (street_intervals s)
          = Some (p, ?hi - ?second, ?src)"
        using False False2 p by (simp add: street_return_def Let_def)
      ultimately show thesis using that(2) st by blast
    qed
  qed
qed

lemma street_return_SomeD:
  assumes r: "street_return ids contrib intervals = Some (p, amount, src)"
    and nonneg: "\<forall>q\<in>set ids. 0 \<le> contrib q"
  shows "p \<in> set ids \<and> 0 < amount \<and> amount \<le> contrib p \<and>
    (\<forall>q\<in>set ids. q \<noteq> p \<longrightarrow> contrib q \<le> contrib p - amount)"
proof -
  let ?hi = "max_default (map contrib ids)"
  let ?lead = "filter (\<lambda>p. contrib p = ?hi) ids"
  from r have len: "0 < ?hi" "length ?lead = 1" and p: "p = hd ?lead"
    by (auto simp: street_return_def Let_def split: if_splits)
  from len(2) obtain q where q: "?lead = [q]" by (cases ?lead) auto
  with p have "p \<in> set ?lead" by simp
  then have ids: "p \<in> set ids" and hi: "contrib p = ?hi" by auto
  let ?rest = "map contrib (filter (\<lambda>q. q \<noteq> p) ids)"
  from r p have am: "amount = ?hi - max_default ?rest" "0 < amount"
    by (auto simp: street_return_def Let_def split: if_splits)
  have "0 \<le> max_default ?rest" using nonneg by (intro max_default_nonneg) auto
  moreover have "contrib q \<le> max_default ?rest" if "q \<in> set ids" "q \<noteq> p" for q
    using that by (intro max_default_ge) auto
  ultimately show ?thesis using ids hi am by auto
qed

lemma acct_return:
  assumes ok: "env_ok env" and a: "acct env s"
    and r: "street_return (le_player_ids env) (street_contribution s) (street_intervals s)
       = Some (p, amount, src)"
  shows "acct env (return_effect st (p, amount, src) s)"
proof -
  have d: "distinct (le_player_ids env)" using ok by (simp add: env_ok_def)
  from a have "\<forall>q\<in>set (le_player_ids env). 0 \<le> street_contribution s q"
    by (simp add: acct_def player_acct_def)
  from street_return_SomeD [OF r this]
  have p: "p \<in> set (le_player_ids env)" and am: "0 < amount" "amount \<le> street_contribution s p"
    by auto
  have "\<forall>q\<in>set (le_player_ids env). player_acct env (return_effect st (p, amount, src) s) q"
    using a p am by (auto simp: acct_def player_acct_def return_effect_def)
  with a p show ?thesis
    by (simp add: acct_def return_effect_def sum_list_upd_if [OF d p])
qed

lemma acct_close_street:
  "env_ok env \<Longrightarrow> acct env s \<Longrightarrow> close_street env s = Inr s' \<Longrightarrow> acct env s'"
  by (erule close_street_cases) (auto intro: acct_return)

definition begin_street :: "ledger_env \<Rightarrow> street \<Rightarrow> int \<Rightarrow> ledger_state \<Rightarrow> ledger_state" where
  "begin_street env st order s =
     s\<lparr>current_street := Some st, last_street_order := order, street_contribution := (\<lambda>_. 0),
       current_bet := 0, minimum_full_raise := le_big_blind env, acted_level := Map.empty,
       acted_this_street := {}, street_intervals := (\<lambda>_. [])\<rparr>"

lemma start_street_cases:
  assumes "start_street env st s = Inr s'"
  obtains order where "current_street s = None" "STREET_ORDER st = Some order"
      "last_street_order s < order" "s' = begin_street env st order s"
  | order s1 where "current_street s \<noteq> None" "STREET_ORDER st = Some order"
      "last_street_order s < order" "close_street env s = Inr s1" "1 < card (active s1)"
      "s' = begin_street env st order s1"
  using assms by (auto simp: start_street_def bindE_Inr begin_street_def split: option.splits if_splits)

lemma acct_begin_street: "acct env s \<Longrightarrow> acct env (begin_street env st order s)"
  by (auto simp: acct_def player_acct_def begin_street_def)

lemma acct_start_street:
  "env_ok env \<Longrightarrow> acct env s \<Longrightarrow> start_street env st s = Inr s' \<Longrightarrow> acct env s'"
  by (erule start_street_cases) (auto intro: acct_begin_street acct_close_street)

section \<open>Applying an action\<close>

text \<open>The inversion rules: what each kind of action does when it is accepted.\<close>

lemma apply_forced_InrD:
  assumes "apply_forced i a n s = Inr s'"
  shows "0 < n \<and> n \<le> remaining s (ha_actor a) \<and> gross_total s + n \<le> MAX_LEDGER_UNITS \<and>
    (if ha_action a = Post_ante then s' = commit_effect i (ha_actor a) n False s
     else s' = (commit_effect i (ha_actor a) n True s)
         \<lparr>current_bet := max (current_bet s) (street_contribution s (ha_actor a) + n)\<rparr> \<and>
       street_contribution s (ha_actor a) + n \<le> MAX_LEDGER_UNITS)"
  using assms
  by (auto simp: apply_forced_def bindE_Inr commit_effect_def
      dest!: commit_units_InrD split: if_splits)

lemma apply_check_fold_InrD:
  assumes "apply_check_fold i a n outstanding s = Inr s'"
  shows "n = 0 \<and> (if ha_action a = Check then outstanding = 0 \<and> s' = mark_acted (ha_actor a) s
    else 0 < outstanding \<and> s' = mark_acted (ha_actor a) (s\<lparr>active := active s - {ha_actor a},
      folded_at := (folded_at s)(ha_actor a := Some i)\<rparr>))"
  using assms by (auto simp: apply_check_fold_def split: if_splits)

lemma apply_call_InrD:
  assumes "apply_call env i a n outstanding s = Inr s'"
  shows "0 < outstanding \<and> n = min outstanding (remaining s (ha_actor a)) \<and> 0 \<le> n \<and>
    gross_total s + n \<le> MAX_LEDGER_UNITS \<and>
    s' = mark_acted (ha_actor a) (commit_effect i (ha_actor a) n True s)"
  using assms
  by (auto simp: apply_call_def bindE_Inr Let_def dest!: commit_units_InrD split: if_splits)

lemma apply_bet_InrD:
  assumes "apply_bet env i a n s = Inr s'"
  shows "current_bet s = 0 \<and> le_big_blind env \<le> n \<and> 0 \<le> n \<and> n < remaining s (ha_actor a) \<and>
    gross_total s + n \<le> MAX_LEDGER_UNITS \<and> street_contribution s (ha_actor a) + n \<le> MAX_LEDGER_UNITS \<and>
    s' = mark_acted (ha_actor a) ((commit_effect i (ha_actor a) n True s)
      \<lparr>current_bet := street_contribution s (ha_actor a) + n,
       minimum_full_raise := street_contribution s (ha_actor a) + n\<rparr>)"
  using assms
  by (auto simp: apply_bet_def bindE_Inr Let_def dest!: commit_units_InrD split: if_splits)

lemma apply_raise_InrD:
  assumes "apply_raise env i a n rights s = Inr s'"
  shows "0 < current_bet s \<and> rights \<and> 0 \<le> n \<and> n < remaining s (ha_actor a) \<and>
    gross_total s + n \<le> MAX_LEDGER_UNITS \<and>
    current_bet s + minimum_full_raise s \<le> street_contribution s (ha_actor a) + n \<and>
    street_contribution s (ha_actor a) + n \<le> MAX_LEDGER_UNITS \<and>
    s' = mark_acted (ha_actor a) ((commit_effect i (ha_actor a) n True s)
      \<lparr>current_bet := street_contribution s (ha_actor a) + n,
       minimum_full_raise := street_contribution s (ha_actor a) + n - current_bet s\<rparr>)"
  using assms
  by (auto simp: apply_raise_def bindE_Inr Let_def dest!: commit_units_InrD split: if_splits)

definition all_in_bet :: "ledger_state \<Rightarrow> int \<Rightarrow> ledger_state" where
  "all_in_bet s expected_to =
     (if current_bet s < expected_to
      then s\<lparr>current_bet := expected_to,
             minimum_full_raise := (if minimum_full_raise s \<le> expected_to - current_bet s
               then expected_to - current_bet s else minimum_full_raise s)\<rparr>
      else s)"

lemma apply_all_in_InrD:
  assumes "apply_all_in env i a n rights s = Inr (s', fr)"
  shows "0 < n \<and> n = remaining s (ha_actor a) \<and> gross_total s + n \<le> MAX_LEDGER_UNITS \<and>
    street_contribution s (ha_actor a) + n \<le> MAX_LEDGER_UNITS \<and>
    (current_bet s < street_contribution s (ha_actor a) + n \<longrightarrow> rights) \<and>
    s' = mark_acted (ha_actor a) (commit_effect i (ha_actor a) n True
      (all_in_bet s (street_contribution s (ha_actor a) + n)))"
  using assms
  by (auto simp: apply_all_in_def bindE_Inr Let_def all_in_bet_def
      dest!: commit_units_InrD split: if_splits)

lemma apply_kind_cases [consumes 1, case_names forced check_fold call bet raised all_in]:
  assumes "apply_kind env i a n outstanding rights s = Inr (s', fr)"
  obtains "ha_action a \<in> {Post_blind, Post_ante}" "apply_forced i a n s = Inr s'"
  | "ha_action a \<in> {Check, Fold}"
    "apply_check_fold i a n outstanding (s\<lparr>voluntary_action_seen := True\<rparr>) = Inr s'"
  | "ha_action a = Call"
    "apply_call env i a n outstanding (s\<lparr>voluntary_action_seen := True\<rparr>) = Inr s'"
  | "ha_action a = Bet" "apply_bet env i a n (s\<lparr>voluntary_action_seen := True\<rparr>) = Inr s'"
  | "ha_action a = Raise"
    "apply_raise env i a n rights (s\<lparr>voluntary_action_seen := True\<rparr>) = Inr s'"
  | "ha_action a = All_in"
    "apply_all_in env i a n rights (s\<lparr>voluntary_action_seen := True\<rparr>) = Inr (s', fr)"
  using assms
  by (cases "ha_action a") (auto simp: apply_kind_def bindE_Inr Let_def)

lemmas apply_InrD = apply_forced_InrD apply_check_fold_InrD apply_call_InrD apply_bet_InrD
  apply_raise_InrD apply_all_in_InrD

definition pays :: "action_kind \<Rightarrow> bool" where
  "pays k \<longleftrightarrow> k \<in> CONTRIBUTION_ACTIONS"

text \<open>
  On the balances a successful \<open>apply_kind\<close> does nothing (check, fold), or one commit of
  the action's amount by its actor around updates of fields the accounting does not read.
\<close>

lemma apply_kind_balances:
  assumes "apply_kind env i a n outstanding rights s = Inr (s', fr)"
  shows "if pays (ha_action a)
    then 0 \<le> n \<and> n \<le> remaining s (ha_actor a) \<and> gross_total s + n \<le> MAX_LEDGER_UNITS \<and>
         same_acct (commit_effect i (ha_actor a) n (ha_action a \<noteq> Post_ante) s) s'
    else same_acct s s'"
  using assms
  by (cases rule: apply_kind_cases)
    (auto dest!: apply_InrD simp: pays_def CONTRIBUTION_ACTIONS_def same_acct_def
      mark_acted_def commit_effect_def all_in_bet_def split: if_splits)

end
