(* ===== verification/HandPotMain.thy ===== *)
theory HandPotMain
  imports HandPotProofs
begin

text \<open>
  The builder's invariant over whole hands, conservation, the pot layers and the
  agreement with the oracle: the properties of \<open>tools/hand_pot_ledger.py\<close>.
\<close>

section \<open>The invariant of the builder\<close>

definition bet_inv :: "ledger_env \<Rightarrow> ledger_state \<Rightarrow> bool" where
  "bet_inv env s \<longleftrightarrow>
     (\<forall>p\<in>set (le_player_ids env). street_contribution s p \<le> current_bet s) \<and>
     0 \<le> current_bet s \<and> current_bet s \<le> MAX_LEDGER_UNITS \<and>
     0 < minimum_full_raise s \<and> minimum_full_raise s \<le> MAX_LEDGER_UNITS"

definition who_inv :: "ledger_env \<Rightarrow> ledger_state \<Rightarrow> bool" where
  "who_inv env s \<longleftrightarrow>
     active s = {p \<in> set (le_player_ids env). folded_at s p = None} \<and>
     (\<forall>p\<in>all_in s. remaining s p = 0) \<and> current_street s \<noteq> Some Showdown"

definition ledger_inv :: "ledger_env \<Rightarrow> ledger_state \<Rightarrow> bool" where
  "ledger_inv env s \<longleftrightarrow>
     acct env s \<and> bet_inv env s \<and> who_inv env s \<and> gross_total s \<le> MAX_LEDGER_UNITS"

definition big_blind_ok :: "ledger_env \<Rightarrow> bool" where
  "big_blind_ok env \<longleftrightarrow> 0 < le_big_blind env \<and> le_big_blind env \<le> MAX_LEDGER_UNITS"

lemma apply_kind_acct:
  assumes "env_ok env" "acct env s" "ha_actor a \<in> set (le_player_ids env)"
    and "apply_kind env i a n outstanding rights s = Inr (s', fr)"
  shows "acct env s'"
  using apply_kind_balances [OF assms(4)] acct_commit [OF assms(1,2,3)] assms(2)
  by (auto split: if_splits dest: same_acct_acct)

lemma apply_kind_gross:
  "apply_kind env i a n outstanding rights s = Inr (s', fr) \<Longrightarrow>
   gross_total s \<le> MAX_LEDGER_UNITS \<Longrightarrow> gross_total s' \<le> MAX_LEDGER_UNITS"
  by (drule apply_kind_balances) (auto simp: same_acct_def commit_effect_def split: if_splits)

text \<open>The betting fields after each kind of action.\<close>

lemma apply_kind_bet:
  assumes k: "apply_kind env i a n (current_bet s - street_contribution s (ha_actor a)) rights s
      = Inr (s', fr)"
    and inv: "acct env s" "bet_inv env s" and p: "ha_actor a \<in> set (le_player_ids env)"
    and bb: "big_blind_ok env"
  shows "bet_inv env s'"
proof -
  have c: "0 \<le> street_contribution s (ha_actor a)"
    using inv(1) p by (simp add: acct_def player_acct_def)
  have others: "\<forall>q\<in>set (le_player_ids env). street_contribution s q \<le> current_bet s"
    using inv(2) by (simp add: bet_inv_def)
  from k show ?thesis
  proof (cases rule: apply_kind_cases)
    case forced
    from apply_forced_InrD [OF forced(2)] inv(2) c show ?thesis
      by (auto simp: bet_inv_def commit_effect_def le_max_iff_disj split: if_splits)
  next
    case check_fold
    from apply_check_fold_InrD [OF check_fold(2)] inv(2) show ?thesis
      by (auto simp: bet_inv_def mark_acted_def split: if_splits)
  next
    case call
    from apply_call_InrD [OF call(2)] inv(2) show ?thesis
      by (auto simp: bet_inv_def mark_acted_def commit_effect_def)
  next
    case bet
    from apply_bet_InrD [OF bet(2)] inv(2) c bb others show ?thesis
      by (fastforce simp: bet_inv_def mark_acted_def commit_effect_def big_blind_ok_def)
  next
    case raised
    from apply_raise_InrD [OF raised(2)] inv(2) c others show ?thesis
      by (fastforce simp: bet_inv_def mark_acted_def commit_effect_def)
  next
    case all_in
    from apply_all_in_InrD [OF all_in(2)] inv(2) c others show ?thesis
      by (fastforce simp: bet_inv_def mark_acted_def commit_effect_def all_in_bet_def
          split: if_splits)
  qed
qed

lemma apply_kind_who:
  assumes k: "apply_kind env i a n outstanding rights s = Inr (s', fr)"
    and inv: "who_inv env s" and live: "ha_actor a \<notin> all_in s"
  shows "who_inv env s'"
  using k
  by (cases rule: apply_kind_cases)
    (use inv live in \<open>auto dest!: apply_InrD simp: who_inv_def mark_acted_def commit_effect_def
      all_in_bet_def split: if_splits\<close>)

lemma close_street_inv:
  assumes c: "close_street env s = Inr s'" and inv: "ledger_inv env s" and ok: "env_ok env"
  shows "ledger_inv env s' \<and> current_street s' = current_street s \<and>
    ledger_actions s' = ledger_actions s"
proof -
  have "acct env s'" using acct_close_street [OF ok _ c] inv by (simp add: ledger_inv_def)
  moreover from c have "bet_inv env s' \<and> who_inv env s' \<and> gross_total s' \<le> MAX_LEDGER_UNITS \<and>
      current_street s' = current_street s \<and> ledger_actions s' = ledger_actions s"
  proof (cases rule: close_street_cases)
    case 1
    with inv show ?thesis by (simp add: ledger_inv_def)
  next
    case (2 st p amount src)
    from inv have "\<forall>q\<in>set (le_player_ids env). 0 \<le> street_contribution s q"
      by (simp add: ledger_inv_def acct_def player_acct_def)
    from street_return_SomeD [OF 2(2) this] inv show ?thesis
      by (auto simp: 2(3) return_effect_def ledger_inv_def bet_inv_def who_inv_def acct_def
          player_acct_def)
  qed
  ultimately show ?thesis by (simp add: ledger_inv_def)
qed

lemma begin_street_inv:
  assumes "ledger_inv env s" "big_blind_ok env" "STREET_ORDER st = Some order"
  shows "ledger_inv env (begin_street env st order s)"
  using assms acct_begin_street [of env s st order]
  by (cases st) (auto simp: ledger_inv_def bet_inv_def who_inv_def begin_street_def
      big_blind_ok_def MAX_LEDGER_UNITS_def)

lemma start_street_inv:
  assumes st: "start_street env st s = Inr s'" and inv: "ledger_inv env s"
    and ok: "env_ok env" "big_blind_ok env"
  shows "ledger_inv env s' \<and> current_street s' = Some st"
  using st
proof (cases rule: start_street_cases)
  case (1 order)
  with begin_street_inv [OF inv ok(2)] show ?thesis by (simp add: begin_street_def)
next
  case (2 order s1)
  with begin_street_inv [OF _ ok(2)] close_street_inv [OF 2(4) inv ok(1)]
  show ?thesis by (simp add: begin_street_def)
qed

lemma ledger_apply_cases:
  assumes "ledger_apply env s (i, a) = Inr s'"
  obtains s1 n s2 fr la where
    "if Some (ha_street a) \<noteq> current_street s then start_street env (ha_street a) s = Inr s1
     else s1 = s"
    "ha_actor a \<in> set (le_player_ids env)" "ha_actor a \<in> active s1" "ha_actor a \<notin> all_in s1"
    "decimal_units (ha_amount a) (le_unit env) = Inr n"
    "apply_kind env i a n (current_bet s1 - street_contribution s1 (ha_actor a))
       (raise_rights s1 (ha_actor a)) s1 = Inr (s2, fr)"
    "s' = s2\<lparr>ledger_actions := ledger_actions s2 @ [la]\<rparr>" "la_action_index la = i"
    "la_actor la = ha_actor a" "la_committed_units la = n" "la_street la = ha_street a"
proof -
  from assms obtain s1 where s1: "if Some (ha_street a) \<noteq> current_street s
      then start_street env (ha_street a) s = Inr s1 else s1 = s"
    by (auto simp: ledger_apply_def bindE_Inr split: if_splits)
  with assms obtain n s2 fr where r: "ha_actor a \<in> set (le_player_ids env)" "ha_actor a \<in> active s1"
    "ha_actor a \<notin> all_in s1" "decimal_units (ha_amount a) (le_unit env) = Inr n"
    "apply_kind env i a n (current_bet s1 - street_contribution s1 (ha_actor a))
       (raise_rights s1 (ha_actor a)) s1 = Inr (s2, fr)"
    "append_action i a n (raise_rights s1 (ha_actor a)) fr s2 = Inr s'"
    by (cases "Some (ha_street a) \<noteq> current_street s")
      (auto simp: ledger_apply_def apply_on_street_def bindE_Inr Let_def split: if_splits)
  from r(6) obtain la where "s' = s2\<lparr>ledger_actions := ledger_actions s2 @ [la]\<rparr>"
    "la_action_index la = i" "la_actor la = ha_actor a" "la_committed_units la = n"
    "la_street la = ha_street a"
    by (auto simp: append_action_def bindE_Inr Let_def street_value_def split: if_splits)
  with s1 r show thesis using that by blast
qed

lemma ledger_inv_apply:
  assumes ok: "env_ok env" "big_blind_ok env" and inv: "ledger_inv env s"
    and ap: "ledger_apply env s (i, a) = Inr s'"
  shows "ledger_inv env s'"
  using ap
proof (cases rule: ledger_apply_cases)
  case (1 s1 n s2 fr la)
  have inv1: "ledger_inv env s1"
    using 1(1) inv start_street_inv [OF _ inv ok] by (auto split: if_splits)
  then have parts: "acct env s1" "bet_inv env s1" "who_inv env s1" "gross_total s1 \<le> MAX_LEDGER_UNITS"
    by (simp_all add: ledger_inv_def)
  have "acct env s2" by (rule apply_kind_acct [OF ok(1) parts(1) 1(2) 1(6)])
  moreover have "bet_inv env s2" by (rule apply_kind_bet [OF 1(6) parts(1,2) 1(2) ok(2)])
  moreover have "who_inv env s2" by (rule apply_kind_who [OF 1(6) parts(3) 1(4)])
  moreover have "gross_total s2 \<le> MAX_LEDGER_UNITS" by (rule apply_kind_gross [OF 1(6) parts(4)])
  ultimately have "ledger_inv env s2" by (simp add: ledger_inv_def)
  then show ?thesis
    by (simp add: 1(7) ledger_inv_def bet_inv_def who_inv_def)
qed

text \<open>The builder is a checked system: an action is rejected or keeps the invariant.\<close>

interpretation hand: checked_system "ledger_apply env"
    "\<lambda>s. env_ok env \<and> big_blind_ok env \<and> ledger_inv env s" for env
  by unfold_locales (use ledger_inv_apply surj_pair in metis)

lemma ledger_run_inv:
  assumes "env_ok env" "big_blind_ok env" and "ledger_inv env s"
    and "foldE (ledger_apply env) s acts = Inr s'"
  shows "ledger_inv env s'"
  using hand.steps_inv assms by blast

section \<open>What each unit count can be traced to\<close>

text \<open>
  The intervals recorded for a player cover everything the player put in: every unit below
  the contribution lies in the interval of some action.  On the open street the current
  bet is somebody's contribution, and that player is still live.
\<close>

definition covers :: "interval list \<Rightarrow> int \<Rightarrow> bool" where
  "covers iv n \<longleftrightarrow> (\<forall>x. 0 \<le> x \<and> x < n \<longrightarrow> (\<exists>(i, lo, hi)\<in>set iv. lo \<le> x \<and> x < hi))"

lemma covers_nothing [simp]: "covers iv 0"
  by (auto simp: covers_def)

lemma covers_snoc: "covers iv n \<Longrightarrow> covers (iv @ [(i, n, n + m)]) (n + m)"
  by (auto simp: covers_def)

definition trace_inv :: "ledger_state \<Rightarrow> bool" where
  "trace_inv s \<longleftrightarrow>
     (\<forall>p. covers (action_intervals s p) (gross s p)) \<and>
     (\<forall>p i. folded_at s p = Some i \<longrightarrow> i < MAX_ACTIONS)"

definition street_covered :: "ledger_state \<Rightarrow> bool" where
  "street_covered s \<longleftrightarrow> (\<forall>p. covers (street_intervals s p) (street_contribution s p))"

definition street_inv :: "ledger_state \<Rightarrow> bool" where
  "street_inv s \<longleftrightarrow>
     (current_bet s = 0 \<or> (\<exists>p\<in>active s. street_contribution s p = current_bet s)) \<and>
     street_covered s"

lemma trace_inv_commit: "trace_inv s \<Longrightarrow> trace_inv (commit_effect i p n b s)"
  by (auto simp: trace_inv_def commit_effect_def intro: covers_snoc)

lemma street_covered_commit: "street_covered s \<Longrightarrow> street_covered (commit_effect i p n b s)"
  by (auto simp: street_covered_def commit_effect_def intro: covers_snoc)

lemma street_covered_frame [simp]:
  "street_covered (mark_acted p s) = street_covered s"
  "street_covered (s\<lparr>current_bet := b\<rparr>) = street_covered s"
  "street_covered (s\<lparr>current_bet := b, minimum_full_raise := m\<rparr>) = street_covered s"
  "street_covered (s\<lparr>voluntary_action_seen := v\<rparr>) = street_covered s"
  "street_covered (s\<lparr>active := A, folded_at := f\<rparr>) = street_covered s"
  "street_covered (s\<lparr>ledger_actions := las\<rparr>) = street_covered s"
  "street_covered (all_in_bet s m) = street_covered s"
  by (auto simp: street_covered_def mark_acted_def all_in_bet_def)

lemma street_covered_begin [simp]: "street_covered (begin_street env st order s)"
  unfolding street_covered_def begin_street_def by simp

lemma trace_inv_frame [simp]:
  "trace_inv (mark_acted p s) = trace_inv s"
  "trace_inv (s\<lparr>current_bet := b\<rparr>) = trace_inv s"
  "trace_inv (s\<lparr>current_bet := b, minimum_full_raise := m\<rparr>) = trace_inv s"
  "trace_inv (s\<lparr>voluntary_action_seen := v\<rparr>) = trace_inv s"
  "trace_inv (s\<lparr>ledger_actions := las\<rparr>) = trace_inv s"
  "trace_inv (all_in_bet s m) = trace_inv s"
  "trace_inv (begin_street env st order s) = trace_inv s"
  "trace_inv (return_effect st r s) = trace_inv s"
  by (auto simp: trace_inv_def mark_acted_def all_in_bet_def begin_street_def return_effect_def
      split: prod.splits)

lemma street_inv_begin: "street_inv (begin_street env st order s)"
  unfolding street_inv_def by (simp, simp add: begin_street_def)

lemma apply_kind_trace:
  assumes k: "apply_kind env i a n outstanding rights s = Inr (s', fr)"
    and inv: "trace_inv s" and i: "i < MAX_ACTIONS"
  shows "trace_inv s'"
  using k
proof (cases rule: apply_kind_cases)
  case forced
  from apply_forced_InrD [OF forced(2)] inv show ?thesis
    by (auto simp: trace_inv_commit split: if_splits)
next
  case check_fold
  from apply_check_fold_InrD [OF check_fold(2)] inv i show ?thesis
    by (auto simp: trace_inv_def mark_acted_def split: if_splits)
qed (use inv in \<open>auto dest!: apply_InrD simp: trace_inv_commit\<close>)

lemma apply_kind_covered:
  assumes k: "apply_kind env i a n outstanding rights s = Inr (s', fr)" and inv: "street_covered s"
  shows "street_covered s'"
  using k
proof (cases rule: apply_kind_cases)
  case forced
  from apply_forced_InrD [OF forced(2)] inv show ?thesis
    by (auto simp: street_covered_commit split: if_splits)
next
  case check_fold
  from apply_check_fold_InrD [OF check_fold(2)] inv show ?thesis
    by (auto simp: street_covered_def mark_acted_def split: if_splits)
qed (use inv in \<open>auto dest!: apply_InrD simp: street_covered_commit\<close>)

lemma top_after_payment:
  fixes cb n :: int
  assumes "cb = 0 \<or> (\<exists>p\<in>A. c p = cb)" "a \<in> A" "0 < n"
  shows "max cb (c a + n) = 0 \<or> (\<exists>p\<in>A. (c(a := c a + n)) p = max cb (c a + n))"
proof (cases "cb \<le> c a + n")
  case True
  with assms(2) show ?thesis by (auto simp: max_def)
next
  case False
  from assms(1) show ?thesis
  proof
    assume "\<exists>p\<in>A. c p = cb"
    then obtain q where q: "q \<in> A" "c q = cb" ..
    with False assms(3) have "q \<noteq> a" by auto
    with q False show ?thesis by (auto simp: max_def)
  qed (use False in simp)
qed

lemma apply_kind_top:
  assumes k: "apply_kind env i a n (current_bet s - street_contribution s (ha_actor a)) rights s
      = Inr (s', fr)"
    and inv: "current_bet s = 0 \<or> (\<exists>p\<in>active s. street_contribution s p = current_bet s)"
    and p: "ha_actor a \<in> active s"
  shows "current_bet s' = 0 \<or> (\<exists>p\<in>active s'. street_contribution s' p = current_bet s')"
  using k
proof (cases rule: apply_kind_cases)
  case forced
  from apply_forced_InrD [OF forced(2)] inv top_after_payment [OF inv p, of n] show ?thesis
    by (simp add: commit_effect_def split: if_splits)
next
  case check_fold
  from apply_check_fold_InrD [OF check_fold(2)] inv show ?thesis
    by (auto simp: mark_acted_def split: if_splits)
next
  case call
  note C = apply_call_InrD [OF call(2)]
  from inv show ?thesis
  proof
    assume "current_bet s = 0"
    with C show ?thesis by (simp add: mark_acted_def commit_effect_def)
  next
    assume "\<exists>p\<in>active s. street_contribution s p = current_bet s"
    then obtain q where q: "q \<in> active s" "street_contribution s q = current_bet s" ..
    with C have "q \<noteq> ha_actor a" by auto
    with q C have "q \<in> active s' \<and> street_contribution s' q = current_bet s'"
      by (simp add: mark_acted_def commit_effect_def)
    then show ?thesis by blast
  qed
next
  case all_in
  have "current_bet (all_in_bet t m) = max (current_bet t) m"
    "street_contribution (all_in_bet t m) = street_contribution t" "active (all_in_bet t m) = active t"
    for t m by (simp_all add: all_in_bet_def)
  with apply_all_in_InrD [OF all_in(2)] top_after_payment [OF inv p, of n] show ?thesis
    by (simp add: mark_acted_def commit_effect_def)
qed (use inv p in \<open>auto dest!: apply_InrD simp: mark_acted_def commit_effect_def\<close>)

lemma apply_kind_street:
  assumes "apply_kind env i a n (current_bet s - street_contribution s (ha_actor a)) rights s
      = Inr (s', fr)"
    and "street_inv s" and "ha_actor a \<in> active s"
  shows "street_inv s'"
  using assms apply_kind_top [OF assms(1)] apply_kind_covered [OF assms(1)]
  by (auto simp: street_inv_def)

definition play_inv :: "ledger_env \<Rightarrow> ledger_state \<Rightarrow> bool" where
  "play_inv env s \<longleftrightarrow> ledger_inv env s \<and> trace_inv s \<and> street_inv s"

lemma close_street_trace: "close_street env s = Inr s' \<Longrightarrow> trace_inv s' = trace_inv s"
  by (erule close_street_cases) auto

lemma start_street_play:
  assumes st: "start_street env st s = Inr s'" and inv: "play_inv env s"
    and ok: "env_ok env" "big_blind_ok env"
  shows "play_inv env s'"
  using start_street_inv [OF st _ ok] inv st
  by (auto simp: play_inv_def street_inv_begin dest: close_street_trace elim!: start_street_cases)

lemma play_inv_apply:
  assumes ok: "env_ok env" "big_blind_ok env" and inv: "play_inv env s"
    and ap: "ledger_apply env s (i, a) = Inr s'" and i: "i < MAX_ACTIONS"
  shows "play_inv env s'"
proof -
  have L: "ledger_inv env s'" using ledger_inv_apply [OF ok _ ap] inv by (simp add: play_inv_def)
  from ap show ?thesis
  proof (cases rule: ledger_apply_cases)
    case (1 s1 n s2 fr la)
    have "play_inv env s1"
      using 1(1) inv start_street_play [OF _ inv ok] by (auto split: if_splits)
    then have "trace_inv s2" "street_inv s2"
      using apply_kind_trace [OF 1(6) _ i] apply_kind_street [OF 1(6) _ 1(3)]
      by (auto simp: play_inv_def ledger_inv_def)
    with L show ?thesis by (simp add: play_inv_def 1(7) street_inv_def)
  qed
qed

lemma play_inv_run:
  assumes ok: "env_ok env" "big_blind_ok env" and inv: "play_inv env s"
    and run: "foldE (ledger_apply env) s (enumerate k acts) = Inr s'"
    and small: "k + length acts \<le> MAX_ACTIONS"
  shows "play_inv env s'"
  using inv run small
proof (induction acts arbitrary: k s)
  case (Cons a acts)
  then obtain s1 where s1: "ledger_apply env s (k, a) = Inr s1"
    "foldE (ledger_apply env) s1 (enumerate (Suc k) acts) = Inr s'"
    by (auto simp: bindE_Inr)
  have "play_inv env s1" using play_inv_apply [OF ok Cons.prems(1) s1(1)] Cons.prems(3) by simp
  then show ?case using Cons.IH [OF _ s1(2)] Cons.prems(3) by simp
qed simp

text \<open>Who holds the highest contribution of a street.\<close>

lemma highest_is_live:
  assumes inv: "bet_inv env s" "street_inv s" and act: "active s \<subseteq> set (le_player_ids env)"
    and p: "street_contribution s p = max_default (map (street_contribution s) (le_player_ids env))"
    and pos: "0 < street_contribution s p" and ids: "p \<in> set (le_player_ids env)"
    and unique: "\<forall>q\<in>set (le_player_ids env). street_contribution s q = street_contribution s p \<longrightarrow> q = p"
  shows "p \<in> active s \<and> street_contribution s p = current_bet s"
proof -
  have "street_contribution s p \<le> current_bet s" using inv(1) ids by (simp add: bet_inv_def)
  with pos inv(2) obtain q where q: "q \<in> active s" "street_contribution s q = current_bet s"
    by (auto simp: street_inv_def)
  with act have "street_contribution s q \<in> set (map (street_contribution s) (le_player_ids env))"
    by force
  then have "street_contribution s q \<le> street_contribution s p"
    unfolding p by (rule max_default_ge)
  with q \<open>street_contribution s p \<le> current_bet s\<close> have "street_contribution s q = street_contribution s p"
    by simp
  with unique act q show ?thesis by auto
qed

section \<open>The start of a hand\<close>

lemma dict_of_nth: "length ks = length vs \<Longrightarrow> distinct ks \<Longrightarrow> i < length ks \<Longrightarrow>
    dict_of ks vs (ks ! i) = vs ! i"
proof -
  assume a: "length ks = length vs" "distinct ks" "i < length ks"
  then have "map_of (rev (zip ks vs)) (ks ! i) = Some (vs ! i)"
    by (intro map_of_is_SomeI) (auto simp: rev_map [symmetric] distinct_map set_zip distinct_zipI1
        inj_on_def nth_eq_iff_index_eq)
  then show ?thesis by (simp add: dict_of_def)
qed

lemma checked_sum:
  "foldE (\<lambda>total p. checked_add total (f p)) t xs = Inr t' \<Longrightarrow>
   t' = t + (\<Sum>p\<leftarrow>xs. f p) \<and> (xs \<noteq> [] \<longrightarrow> t' \<le> MAX_LEDGER_UNITS)"
  by (induction xs arbitrary: t) (fastforce simp: bindE_Inr checked_add_Inr)+

lemma init_ledger_ok:
  assumes i: "init_ledger h unit bb = Inr (env, s0)" and u: "0 < unit"
    and d: "distinct (map ps_player_id (h_players h))"
    and bb: "0 < bb" "bb \<le> MAX_LEDGER_UNITS"
  shows "env_ok env \<and> big_blind_ok env \<and> ledger_inv env s0 \<and> le_hand env = h \<and>
    le_unit env = unit \<and> le_player_ids env = map ps_player_id (h_players h) \<and>
    s0 = init_ledger_state (le_player_ids env) (le_starting env) bb"
proof -
  let ?ids = "map ps_player_id (h_players h)"
  from i obtain units total where
    m: "mapE (\<lambda>p. decimal_units (ps_starting_stack p) unit) (h_players h) = Inr units"
    and t: "foldE (\<lambda>total p. checked_add total (dict_of ?ids units p)) 0 ?ids = Inr total"
    and tpos: "0 < total"
    and env: "env = \<lparr>le_hand = h, le_unit = unit, le_big_blind = bb, le_player_ids = ?ids,
        le_starting = dict_of ?ids units, le_starting_total = total\<rparr>"
    and s0: "s0 = init_ledger_state ?ids (dict_of ?ids units) bb"
    by (auto simp: init_ledger_def bindE_Inr Let_def split: if_splits)
  from m have len: "length ?ids = length units" and each: "\<forall>k<length units. 0 \<le> units ! k"
    using decimal_units_bounds [OF u] by (auto simp: mapE_Inr list_all2_conv_all_nth)
  have "\<forall>p\<in>set ?ids. 0 \<le> dict_of ?ids units p"
    using each dict_of_nth [OF len d] len by (auto simp: in_set_conv_nth)
  moreover have "?ids \<noteq> []" using t tpos by auto
  ultimately have ok: "env_ok env"
    using checked_sum [OF t] d u tpos by (simp add: env_ok_def env)
  moreover have "big_blind_ok env" using bb by (simp add: big_blind_ok_def env)
  moreover have "ledger_inv env s0"
    using acct_init [OF ok, of bb] bb
    by (simp add: ledger_inv_def s0 env bet_inv_def who_inv_def init_ledger_state_def
        MAX_LEDGER_UNITS_def)
  ultimately show ?thesis by (simp add: env s0)
qed

section \<open>Conservation\<close>

lemma returned_swap:
  assumes "distinct ids" and "\<forall>r\<in>set rs. ur_player_id r \<in> set ids"
  shows "(\<Sum>p\<leftarrow>ids. returned_by rs p) = sum_list (map ur_amount_units rs)"
  using assms(2)
proof (induction rs rule: rev_induct)
  case Nil
  then show ?case by simp
next
  case (snoc r rs)
  have "(\<Sum>p\<leftarrow>ids. if ur_player_id r = p then ur_amount_units r else 0) = ur_amount_units r"
    using sum_list_upd_if [OF assms(1), of "ur_player_id r" "ur_amount_units r" "\<lambda>_. 0"] snoc.prems
    by (simp add: eq_commute)
  with snoc show ?case by (simp add: sum_list_addf)
qed

lemma acct_conservation:
  assumes ok: "env_ok env" and a: "acct env s"
  shows "gross_total s = net_total s + returned_total s"
    and "(\<Sum>p\<leftarrow>le_player_ids env. remaining s p) + net_total s = le_starting_total env"
proof -
  let ?ids = "le_player_ids env"
  have d: "distinct ?ids" using ok by (simp add: env_ok_def)
  have "(\<Sum>p\<leftarrow>?ids. gross s p) = (\<Sum>p\<leftarrow>?ids. net s p + returned_by (returns s) p)"
    using a by (intro arg_cong [where f = sum_list] map_cong) (auto simp: acct_def player_acct_def)
  with a show "gross_total s = net_total s + returned_total s"
    using returned_swap [OF d, of "returns s"] by (simp add: acct_def sum_list_addf)
  have "(\<Sum>p\<leftarrow>?ids. remaining s p + net s p) = (\<Sum>p\<leftarrow>?ids. le_starting env p)"
    using a by (intro arg_cong [where f = sum_list] map_cong) (auto simp: acct_def player_acct_def)
  with a ok show "(\<Sum>p\<leftarrow>?ids. remaining s p) + net_total s = le_starting_total env"
    by (simp add: acct_def env_ok_def sum_list_addf)
qed

section \<open>Pot layers\<close>

definition levels_from :: "string list \<Rightarrow> (string \<Rightarrow> int) \<Rightarrow> int \<Rightarrow> int list \<Rightarrow> bool" where
  "levels_from ids v lower levels \<longleftrightarrow>
     sorted levels \<and> distinct levels \<and> set levels = {v p | p. p \<in> set ids \<and> lower < v p}"

lemma levels_from_positive: "levels_from ids v 0 (positive_levels ids v)"
  by (auto simp: levels_from_def positive_levels_def)

lemma levels_from_Cons:
  "levels_from ids v lower (u # us) \<Longrightarrow> lower < u \<and> levels_from ids v u us \<and>
     (\<forall>p\<in>set ids. lower < v p \<longrightarrow> u \<le> v p)"
proof -
  assume l: "levels_from ids v lower (u # us)"
  then have set: "insert u (set us) = {v p | p. p \<in> set ids \<and> lower < v p}" and "u \<notin> set us"
    and us: "sorted us" "distinct us" "\<forall>x\<in>set us. u \<le> x"
    by (auto simp: levels_from_def)
  from set have "u \<in> {v p | p. p \<in> set ids \<and> lower < v p}" by blast
  then have lu: "lower < u" by auto
  have *: "\<forall>p\<in>set ids. lower < v p \<longrightarrow> u \<le> v p"
  proof (intro ballI impI)
    fix p assume "p \<in> set ids" "lower < v p"
    with set have "v p \<in> insert u (set us)" by blast
    with us(3) show "u \<le> v p" by auto
  qed
  have "set us = {v p | p. p \<in> set ids \<and> u < v p}"
  proof
    show "set us \<subseteq> {v p | p. p \<in> set ids \<and> u < v p}"
      using set us(3) \<open>u \<notin> set us\<close> by (fastforce simp: order.order_iff_strict)
    show "{v p | p. p \<in> set ids \<and> u < v p} \<subseteq> set us" using set lu by fastforce
  qed
  with us lu * show ?thesis by (simp add: levels_from_def)
qed

lemma build_layers_ConsD:
  assumes "build_layers env s k lower (u # us) = Inr layers"
  obtains l rest where "layers = l # rest" "build_layers env s (Suc k) u us = Inr rest"
    "pl_lower_bound_units l = lower" "pl_upper_bound_units l = u"
    "pl_contributors l = canonical_players (filter (\<lambda>p. u \<le> net s p) (le_player_ids env))"
    "pl_eligible_players l = canonical_players (filter (\<lambda>p. folded_at s p = None) (pl_contributors l))"
    "pl_evidence_action_indexes l = layer_evidence (action_intervals s) (pl_contributors l) lower u"
    "pl_amount_units l = (u - lower) * int (length (pl_contributors l))"
    "pl_eligible_players l \<noteq> []"
  using assms by (auto simp: bindE_Inr Let_def split: if_splits)

lemma set_canonical [simp]: "set (canonical_players xs) = set xs"
  by (simp add: canonical_players_def)

lemma length_canonical [simp]: "length (canonical_players xs) = length xs"
  by (simp add: canonical_players_def)

definition layer_share :: "string \<Rightarrow> pot_layer \<Rightarrow> int" where
  "layer_share p l = (if p \<in> set (pl_contributors l)
     then pl_upper_bound_units l - pl_lower_bound_units l else 0)"

lemma layer_shares:
  assumes "build_layers env s k lower levels = Inr layers"
    and "levels_from (le_player_ids env) (net s) lower levels"
    and p: "p \<in> set (le_player_ids env)"
  shows "(\<Sum>l\<leftarrow>layers. layer_share p l) = max 0 (net s p - lower)"
  using assms(1,2)
proof (induction levels arbitrary: k lower layers)
  case Nil
  then have "\<not> lower < net s p" using p by (auto simp: levels_from_def)
  with Nil show ?case by simp
next
  case (Cons u us)
  from Cons.prems(1) obtain l rest where l: "layers = l # rest"
    "build_layers env s (Suc k) u us = Inr rest" "pl_lower_bound_units l = lower"
    "pl_upper_bound_units l = u"
    "pl_contributors l = canonical_players (filter (\<lambda>p. u \<le> net s p) (le_player_ids env))"
    by (rule build_layers_ConsD)
  note lv = levels_from_Cons [OF Cons.prems(2)]
  have "layer_share p l = (if u \<le> net s p then u - lower else 0)"
    using l p by (simp add: layer_share_def)
  with Cons.IH [OF l(2)] l(1) p lv show ?case by (cases "u \<le> net s p") auto
qed

lemma sum_filter_const:
  "(\<Sum>p\<leftarrow>xs. if P p then (c::int) else 0) = c * int (length (filter P xs))"
  by (induction xs) (auto simp: algebra_simps)

lemma layer_amounts:
  assumes "build_layers env s k lower levels = Inr layers"
    and "levels_from (le_player_ids env) (net s) lower levels"
  shows "sum_list (map pl_amount_units layers) = (\<Sum>p\<leftarrow>le_player_ids env. max 0 (net s p - lower))"
  using assms
proof (induction levels arbitrary: k lower layers)
  case Nil
  then have "\<forall>p\<in>set (le_player_ids env). max 0 (net s p - lower) = 0"
    by (auto simp: levels_from_def)
  then have "(\<Sum>p\<leftarrow>le_player_ids env. max 0 (net s p - lower)) = (\<Sum>p\<leftarrow>le_player_ids env. 0)"
    by (intro arg_cong [where f = sum_list] map_cong) auto
  with Nil show ?case by simp
next
  case (Cons u us)
  from Cons.prems(1) obtain l rest where l: "layers = l # rest"
    "build_layers env s (Suc k) u us = Inr rest"
    "pl_contributors l = canonical_players (filter (\<lambda>p. u \<le> net s p) (le_player_ids env))"
    "pl_amount_units l = (u - lower) * int (length (pl_contributors l))"
    by (rule build_layers_ConsD)
  note lv = levels_from_Cons [OF Cons.prems(2)]
  have "(\<Sum>p\<leftarrow>le_player_ids env. max 0 (net s p - lower))
      = (\<Sum>p\<leftarrow>le_player_ids env. (if u \<le> net s p then u - lower else 0) + max 0 (net s p - u))"
    using lv by (intro arg_cong [where f = sum_list] map_cong) fastforce+
  with Cons.IH [OF l(2)] lv l show ?case by (simp add: sum_list_addf sum_filter_const)
qed

section \<open>Errors that cannot occur\<close>

text \<open>
  The checks the code keeps as internal consistency guards: a pydantic constraint of one
  of its own output models, a negative outstanding bet, a street close without a street,
  an uncalled return without a live owner or a source, a finished hand without actions or
  without a pot, the two conservation identities, and the three guards of a pot layer
  (an eligible player, the unit limit, the evidence).
\<close>

definition internal :: "ledger_error \<Rightarrow> bool" where
  "internal e = (case e of Invalid m \<Rightarrow> True
     | Ledger c \<Rightarrow> c \<in> {''negative-outstanding-bet'', ''internal-street-state-invalid'',
         ''gross-net-return-conservation-failed'', ''stack-pot-conservation-failed'',
         ''pot-layer-limit-exceeded'', ''ambiguous-uncalled-return'', ''ledger-actions-required'',
         ''positive-final-pot-required'', ''pot-layer-has-no-eligible-player'',
         ''pot-layer-evidence-missing''})"

lemma internal_simps [simp]: "internal (Invalid m)"
  "internal (Ledger c) \<longleftrightarrow> c \<in> {''negative-outstanding-bet'', ''internal-street-state-invalid'',
         ''gross-net-return-conservation-failed'', ''stack-pot-conservation-failed'',
         ''pot-layer-limit-exceeded'', ''ambiguous-uncalled-return'', ''ledger-actions-required'',
         ''positive-final-pot-required'', ''pot-layer-has-no-eligible-player'',
         ''pot-layer-evidence-missing''}"
  by (simp_all add: internal_def)

definition quiet :: "'a ledger_result \<Rightarrow> bool" where
  "quiet m \<longleftrightarrow> (\<forall>e. m = Inl e \<longrightarrow> \<not> internal e)"

named_theorems quiets \<open>computations that report no internal error\<close>

lemma quiet_Inr [simp, quiets]: "quiet (Inr x)" by (simp add: quiet_def)
lemma quiet_Inl [simp]: "quiet (Inl e) \<longleftrightarrow> \<not> internal e" by (simp add: quiet_def)

lemma quiet_bindE [quiets]:
  "quiet m \<Longrightarrow> (\<And>x. m = Inr x \<Longrightarrow> quiet (f x)) \<Longrightarrow> quiet (bindE m f)"
  by (auto simp: quiet_def bindE_Inl)

lemma quiet_if [quiets]: "(c \<Longrightarrow> quiet m) \<Longrightarrow> (\<not> c \<Longrightarrow> quiet n) \<Longrightarrow> quiet (if c then m else n)"
  by simp

lemma quiet_foldE: "(\<And>s x. x \<in> set xs \<Longrightarrow> quiet (f s x)) \<Longrightarrow> quiet (foldE f s xs)"
  by (induction xs arbitrary: s) (auto intro: quiet_bindE)

lemma quiet_mapE: "(\<And>x. x \<in> set xs \<Longrightarrow> quiet (f x)) \<Longrightarrow> quiet (mapE f xs)"
  by (induction xs) (auto intro!: quiet_bindE)

lemma quiet_units [quiets]: "quiet (decimal_units v u)" "quiet (checked_add m n)"
  "quiet (street_value st)" "quiet (fraction_units v u)"
  by (simp_all add: decimal_units_def checked_add_def street_value_def fraction_units_def Let_def)

lemma quiet_validate_to_amount [quiets]: "quiet (validate_to_amount env d n r)"
  by (auto simp: validate_to_amount_def intro!: quiets split: option.splits)

lemma quiet_declared_pot:
  "\<not> internal (Ledger code) \<Longrightarrow> quiet (validate_declared_pot env d n code)"
  by (auto simp: validate_declared_pot_def intro!: quiets split: option.splits)

lemma quiet_commit [quiets]: "quiet (commit_units i p n b s)"
  unfolding commit_units_def by (intro quiets) (auto intro!: quiets)

lemma quiet_apply_kind: "quiet (apply_kind env i a n outstanding rights s)"
  by (cases "ha_action a")
    (auto simp: apply_kind_def apply_forced_def apply_check_fold_def apply_call_def apply_bet_def
      apply_raise_def apply_all_in_def Let_def intro!: quiets split: prod.splits)

lemma quiet_append_action:
  assumes inv: "ledger_inv env s" and ok: "env_ok env" and p: "ha_actor a \<in> set (le_player_ids env)"
    and names: "[] \<notin> set (le_player_ids env)" and i: "i < MAX_ACTIONS"
    and n: "0 \<le> n" "n \<le> MAX_LEDGER_UNITS"
  shows "quiet (append_action i a n rights fr s)"
proof -
  have total: "le_starting_total env \<le> MAX_LEDGER_UNITS" using ok by (simp add: env_ok_def)
  from inv have a: "acct env s" by (simp add: ledger_inv_def)
  note b = acct_bounds [OF ok a p]
  have pot: "0 \<le> net_total s \<and> net_total s \<le> le_starting_total env"
  proof -
    have "0 \<le> (\<Sum>p\<leftarrow>le_player_ids env. remaining s p)" "0 \<le> (\<Sum>p\<leftarrow>le_player_ids env. net s p)"
      using a by (auto intro!: sum_list_nonneg simp: acct_def player_acct_def) fastforce
    with acct_conservation(2) [OF ok a] a show ?thesis by (simp add: acct_def)
  qed
  have "0 \<le> remaining s (ha_actor a)" "0 \<le> street_contribution s (ha_actor a)"
    using a p by (auto simp: acct_def player_acct_def)
  with b pot total inv p names i n show ?thesis
    by (auto simp: append_action_def Let_def ledger_action_ok_def ledger_unit_ok_def
        positive_ledger_unit_ok_def ledger_inv_def bet_inv_def street_value_def
        intro!: quiets)
qed

lemma unique_highest:
  fixes h :: int
  assumes "filter (\<lambda>p. c p = h \<and> 0 < h) ids = [p]"
  shows "p \<in> set ids \<and> c p = h \<and> 0 < h \<and> (\<forall>q\<in>set ids. c q = c p \<longrightarrow> q = p)"
proof -
  have "{q \<in> set ids. c q = h \<and> 0 < h} = {p}"
    using arg_cong [OF assms, of set] by (simp only: set_filter list.set)
  then have m: "q \<in> set ids \<and> c q = h \<and> 0 < h \<longleftrightarrow> q = p" for q by (simp add: set_eq_iff)
  from m [of p] have P: "p \<in> set ids" "c p = h" "0 < h" by simp_all
  have "q = p" if q: "q \<in> set ids" "c q = c p" for q
  proof -
    from q(2) P(2) have "c q = h" by (rule trans)
    with q(1) P(3) have "q \<in> set ids \<and> c q = h \<and> 0 < h" by (intro conjI)
    then show ?thesis by (rule iffD1 [OF m])
  qed
  with P show ?thesis by (intro conjI ballI impI)
qed

lemma quiet_return_uncalled:
  assumes inv: "ledger_inv env s" "street_inv s" and ok: "env_ok env"
    and names: "[] \<notin> set (le_player_ids env)" and st: "st \<noteq> Showdown"
    and p: "filter (\<lambda>p. street_contribution s p = h \<and> 0 < h) (le_player_ids env) = [p]"
    and h: "h = max_default (map (street_contribution s) (le_player_ids env))"
  shows "quiet (return_uncalled env st h p s)"
proof -
  let ?ids = "le_player_ids env"
  let ?second = "max_default (map (street_contribution s) (filter (\<lambda>q. q \<noteq> p) ?ids))"
  from inv have a: "acct env s" and b: "bet_inv env s" and act: "active s \<subseteq> set ?ids"
    by (auto simp: ledger_inv_def who_inv_def)
  note P = unique_highest [OF p]
  have live: "p \<in> active s"
    using highest_is_live [OF b inv(2) act, of p] P h by simp
  have "h \<le> le_starting_total env" using acct_bounds [OF ok a, of p] P by auto
  then have hi: "h \<le> MAX_LEDGER_UNITS" using ok by (simp add: env_ok_def)
  have second: "0 \<le> ?second"
    using a by (intro max_default_nonneg) (auto simp: acct_def player_acct_def)
  have src: "map fst (filter (\<lambda>(index, lo, hi). lo < h \<and> ?second < hi) (street_intervals s p)) \<noteq> []"
    if "?second < h"
  proof -
    have "covers (street_intervals s p) h"
      using inv(2) P by (auto simp: street_inv_def street_covered_def)
    with second that obtain i lo hi where "(i, lo, hi) \<in> set (street_intervals s p)"
      "lo \<le> ?second" "?second < hi" by (fastforce simp: covers_def)
    with that show ?thesis by (force simp: filter_empty_conv)
  qed
  have "p \<noteq> []" "h - ?second \<le> MAX_LEDGER_UNITS" using names P second hi by auto
  with live src show ?thesis
    unfolding return_uncalled_def Let_def
    by (intro quiets) (auto simp: uncalled_return_ok_def positive_ledger_unit_ok_def
        street_value_def st split: if_splits)
qed

lemma quiet_close_street:
  assumes inv: "ledger_inv env s" "street_inv s" and ok: "env_ok env"
    and st: "current_street s \<noteq> None" and names: "[] \<notin> set (le_player_ids env)"
  shows "quiet (close_street env s)"
proof -
  from st obtain st where st: "current_street s = Some st" by auto
  have st2: "st \<noteq> Showdown" using inv(1) st by (auto simp: ledger_inv_def who_inv_def)
  have round: "quiet (check_round_complete env s)"
    unfolding check_round_complete_def
    by (intro quiets quiet_foldE) auto
  show ?thesis
    unfolding close_street_def st option.case Let_def
    by (rule quiet_bindE [OF round])
      (auto split: list.splits intro!: quiet_return_uncalled [OF inv ok names st2])
qed

lemma quiet_start_street:
  assumes inv: "ledger_inv env s" "street_inv s" and ok: "env_ok env"
    and names: "[] \<notin> set (le_player_ids env)"
  shows "quiet (start_street env st s)"
  using quiet_close_street [OF inv ok _ names]
  by (auto simp: start_street_def intro!: quiets split: option.splits)

lemma quiet_apply_on_street:
  assumes inv: "ledger_inv env s" and ok: "env_ok env" "big_blind_ok env"
    and p: "ha_actor a \<in> set (le_player_ids env)"
    and names: "[] \<notin> set (le_player_ids env)" and i: "i < MAX_ACTIONS"
  shows "quiet (apply_on_street env i a s)"
proof -
  from inv have parts: "acct env s" "bet_inv env s" "who_inv env s" "gross_total s \<le> MAX_LEDGER_UNITS"
    by (simp_all add: ledger_inv_def)
  have pos: "0 \<le> current_bet s - street_contribution s (ha_actor a)"
    using parts(2) p by (simp add: bet_inv_def)
  have app: "quiet (append_action i a n (raise_rights s (ha_actor a)) fr s2)"
    if live: "ha_actor a \<notin> all_in s" and n: "decimal_units (ha_amount a) (le_unit env) = Inr n"
      and k: "apply_kind env i a n (current_bet s - street_contribution s (ha_actor a))
         (raise_rights s (ha_actor a)) s = Inr (s2, fr)" for s2 n fr
  proof -
    have "ledger_inv env s2"
      using apply_kind_acct [OF ok(1) parts(1) p k] apply_kind_bet [OF k parts(1,2) p ok(2)]
        apply_kind_who [OF k parts(3) live] apply_kind_gross [OF k parts(4)]
      by (simp add: ledger_inv_def)
    moreover have "0 \<le> n \<and> n \<le> MAX_LEDGER_UNITS"
      using ok n by (intro decimal_units_bounds) (auto simp: env_ok_def)
    ultimately show ?thesis using quiet_append_action [OF _ ok(1) p names i] by simp
  qed
  show ?thesis
    unfolding apply_on_street_def Let_def
    by (intro quiet_if quiet_bindE quiet_units quiet_apply_kind quiet_declared_pot)
      (use pos in \<open>auto split: prod.splits intro!: quiet_bindE quiet_declared_pot app\<close>)
qed

lemma quiet_ledger_apply:
  assumes inv: "play_inv env s" and ok: "env_ok env" "big_blind_ok env"
    and names: "[] \<notin> set (le_player_ids env)" and i: "i < MAX_ACTIONS"
  shows "quiet (ledger_apply env s (i, a))"
proof -
  have L: "ledger_inv env s" "street_inv s" using inv by (simp_all add: play_inv_def)
  have "quiet (if Some (ha_street a) \<noteq> current_street s then start_street env (ha_street a) s
      else Inr s)"
    using quiet_start_street [OF L ok(1) names] by simp
  moreover have "ledger_inv env s1" if "(if Some (ha_street a) \<noteq> current_street s
      then start_street env (ha_street a) s else Inr s) = Inr s1" for s1
    using that L start_street_inv [OF _ L(1) ok] by (auto split: if_splits)
  ultimately show ?thesis
    unfolding ledger_apply_def prod.case
    by (intro quiet_if quiet_bindE) (auto intro!: quiet_apply_on_street [OF _ ok _ names i])
qed

lemma quiet_run:
  assumes ok: "env_ok env" "big_blind_ok env" and names: "[] \<notin> set (le_player_ids env)"
    and inv: "play_inv env s" and small: "k + length acts \<le> MAX_ACTIONS"
  shows "quiet (foldE (ledger_apply env) s (enumerate k acts))"
  using inv small
proof (induction acts arbitrary: k s)
  case Nil
  then show ?case by simp
next
  case (Cons a acts)
  then have k: "k < MAX_ACTIONS" by simp
  have "quiet (ledger_apply env s (k, a))"
    by (rule quiet_ledger_apply [OF Cons.prems(1) ok names k])
  moreover have "quiet (foldE (ledger_apply env) s' (enumerate (Suc k) acts))"
    if "ledger_apply env s (k, a) = Inr s'" for s'
    using Cons.prems by (intro Cons.IH play_inv_apply [OF ok _ that k]) auto
  ultimately show ?case by (simp add: quiet_bindE)
qed

lemma levels_bounded:
  "levels_from ids v lower levels \<Longrightarrow> length levels \<le> length ids"
proof -
  assume l: "levels_from ids v lower levels"
  then have "set levels \<subseteq> v ` set ids" by (auto simp: levels_from_def)
  then have "card (set levels) \<le> card (v ` set ids)" by (intro card_mono) auto
  also have "\<dots> \<le> card (set ids)" by (intro card_image_le) simp
  also have "\<dots> \<le> length ids" by (rule card_length)
  finally have "card (set levels) \<le> length ids" .
  moreover have "card (set levels) = length levels"
    using l by (intro distinct_card) (simp add: levels_from_def)
  ultimately show ?thesis by simp
qed

text \<open>Somebody who never folded has put in as much as anybody.\<close>

definition live_top :: "ledger_env \<Rightarrow> ledger_state \<Rightarrow> bool" where
  "live_top env s \<longleftrightarrow> (\<exists>q\<in>set (le_player_ids env).
     folded_at s q = None \<and> (\<forall>p\<in>set (le_player_ids env). net s p \<le> net s q))"

lemma evidence_exists:
  assumes "trace_inv s" "p \<in> set ps" "upper \<le> net s p" "net s p \<le> gross s p" "0 \<le> lower" "lower < upper"
  shows "layer_evidence (action_intervals s) ps lower upper \<noteq> []"
proof -
  have "covers (action_intervals s p) (gross s p)" using assms(1) by (simp add: trace_inv_def)
  with assms(3-6) obtain i lo hi where i: "(i, lo, hi) \<in> set (action_intervals s p)"
    "lo \<le> lower" "lower < hi" by (fastforce simp: covers_def)
  with assms(2,6) have "i \<in> set (layer_evidence (action_intervals s) ps lower upper)"
    by (force simp: layer_evidence_def)
  then show ?thesis by auto
qed

lemma quiet_build_layers:
  assumes tr: "trace_inv s" and live: "live_top env s"
    and gross: "\<forall>p\<in>set (le_player_ids env). net s p \<le> gross s p"
    and lv: "levels_from (le_player_ids env) (net s) lower levels" and lower: "0 \<le> lower"
    and nonneg: "\<forall>p\<in>set (le_player_ids env). 0 \<le> net s p"
    and pot: "(\<Sum>p\<leftarrow>le_player_ids env. net s p) \<le> MAX_LEDGER_UNITS"
    and k: "k + length levels \<le> MAX_ACTIONS"
  shows "quiet (build_layers env s k lower levels)"
  using lv lower k
proof (induction levels arbitrary: k lower)
  case Nil
  then show ?case by simp
next
  case (Cons u us)
  note lv = levels_from_Cons [OF Cons.prems(1)]
  let ?ids = "le_player_ids env"
  let ?in = "filter (\<lambda>p. u \<le> net s p) ?ids"
  have "set (u # us) = {net s p | p. p \<in> set ?ids \<and> lower < net s p}"
    using Cons.prems(1) by (simp only: levels_from_def)
  then have "u \<in> {net s p | p. p \<in> set ?ids \<and> lower < net s p}" by auto
  then obtain q where q: "q \<in> set ?ids" "net s q = u" by auto
  then have some: "?in \<noteq> []" by (auto simp: filter_empty_conv)
  have evidence: "layer_evidence (action_intervals s) (canonical_players ?in) lower u \<noteq> []"
    using q gross lv Cons.prems(2) by (intro evidence_exists [OF tr, of q]) auto
  from live obtain w where w: "w \<in> set ?ids" "folded_at s w = None" "net s q \<le> net s w"
    using q by (auto simp: live_top_def)
  then have "w \<in> set (filter (\<lambda>p. folded_at s p = None) (canonical_players ?in))" using q by simp
  then have eligible: "canonical_players (filter (\<lambda>p. folded_at s p = None) (canonical_players ?in)) \<noteq> []"
    by (metis length_0_conv length_canonical list.set_cases list.distinct(1))
  have "(\<Sum>p\<leftarrow>?ids. if u \<le> net s p then u - lower else 0) \<le> (\<Sum>p\<leftarrow>?ids. net s p)"
    using nonneg Cons.prems(2) by (intro sum_list_mono) auto
  then have amount: "(u - lower) * int (length ?in) \<le> MAX_LEDGER_UNITS"
    using pot by (simp add: sum_filter_const)
  moreover have pos: "0 < (u - lower) * int (length ?in)" using lv some by simp
  moreover have "u \<le> MAX_LEDGER_UNITS"
  proof -
    have "net s q \<le> (\<Sum>p\<leftarrow>?ids. net s p)"
      using q nonneg by (intro member_le_sum_list) auto
    with q pot show ?thesis by simp
  qed
  moreover have "canonical_players ?in \<noteq> []" using some by (metis length_0_conv length_canonical)
  moreover have "quiet (build_layers env s (Suc k) u us)"
    using Cons.prems lv by (intro Cons.IH) auto
  ultimately show ?case
    using Cons.prems lv evidence eligible
    by (auto simp: Let_def pot_layer_ok_def ledger_unit_ok_def positive_ledger_unit_ok_def
        bounds_and_amount_are_consistent_def intro!: quiet_if quiet_bindE)
qed

lemma length_ledger_actions:
  assumes "ledger_apply env s (i, a) = Inr s'"
  shows "length (ledger_actions s') = Suc (length (ledger_actions s))"
  using assms
proof (cases rule: ledger_apply_cases)
  case (1 s1 n s2 fr la)
  have "ledger_actions s1 = ledger_actions s"
    using 1(1) by (auto split: if_splits elim!: start_street_cases close_street_cases
        simp: begin_street_def return_effect_def)
  moreover from 1(6) have "ledger_actions s2 = ledger_actions s1"
    by (cases rule: apply_kind_cases)
      (auto dest!: apply_InrD simp: mark_acted_def commit_effect_def all_in_bet_def split: if_splits)
  ultimately show ?thesis by (simp add: 1(7))
qed

lemma length_ledger_run:
  "foldE (ledger_apply env) s (enumerate k acts) = Inr s' \<Longrightarrow>
   length (ledger_actions s') = length (ledger_actions s) + length acts"
  by (induction acts arbitrary: k s) (auto simp: bindE_Inr dest!: length_ledger_actions)

lemma sum_list_sorted_items:
  "sum_list (map snd (sorted_items ids v)) = (\<Sum>p\<leftarrow>ids. v p)"
proof -
  have "sum_mset (mset (map v (sort ids))) = sum_mset (mset (map v ids))" by simp
  then have "sum_list (map v (sort ids)) = sum_list (map v ids)" by (simp only: sum_mset_sum_list)
  then show ?thesis by (simp add: sorted_items_def canonical_players_def comp_def)
qed

lemma output_ok:
  assumes inv: "ledger_inv env s" "trace_inv s" and ok: "env_ok env"
    and names: "[] \<notin> set (le_player_ids env)"
    and table: "2 \<le> length (le_player_ids env)" "length (le_player_ids env) \<le> 10"
    and len: "length (ledger_actions s) \<le> MAX_ACTIONS" and acts: "ledger_actions s \<noteq> []"
    and pot: "0 < net_total s"
    and l: "build_layers env s 0 0 (positive_levels (le_player_ids env) (net s)) = Inr layers"
  shows "hand_pot_output_ok (ledger_output env s layers)"
proof -
  let ?ids = "le_player_ids env"
  from inv(1) have a: "acct env s" and g: "gross_total s \<le> MAX_LEDGER_UNITS"
    by (simp_all add: ledger_inv_def)
  have who: "list_all player_eligibility_ok (ho_player_eligibility (ledger_output env s layers))"
    using inv(2) names
    by (auto simp: ledger_output_def Let_def list_all_iff player_eligibility_ok_def trace_inv_def
        MAX_ACTIONS_def split: option.splits) fastforce
  have M: "0 < le_starting_total env" "le_starting_total env \<le> MAX_LEDGER_UNITS"
    using ok by (simp_all add: env_ok_def)
  have gp: "0 \<le> gross s p \<and> gross s p \<le> gross_total s" if "p \<in> set ?ids" for p
  proof -
    have "\<forall>q\<in>set ?ids. 0 \<le> gross s q" using a by (auto simp: acct_def player_acct_def)
    then show ?thesis using a that by (auto simp: acct_def intro!: member_le_sum_list)
  qed
  have shares: "(\<Sum>p\<leftarrow>?ids. max 0 (net s p - 0)) = (\<Sum>p\<leftarrow>?ids. net s p)"
    using a by (intro arg_cong [where f = sum_list] map_cong) (auto simp: acct_def player_acct_def)
  have sums: "sum_list (map pl_amount_units layers) = net_total s"
    using layer_amounts [OF l levels_from_positive] shares a by (simp add: acct_def)
  have ret: "0 \<le> returned_total s"
    using a returned_swap [of ?ids "returns s"] ok
    by (auto simp: acct_def env_ok_def player_acct_def intro!: sum_list_nonneg
        simp flip: returned_swap [of ?ids "returns s"])
  have rest: "0 \<le> (\<Sum>p\<leftarrow>?ids. remaining s p)"
    using a by (intro sum_list_nonneg) (auto simp: acct_def player_acct_def)
  note cons = acct_conservation [OF ok a]
  have "layers \<noteq> []" using sums pot by auto
  moreover have "accounting_identities_hold (ledger_output env s layers)"
    using cons sums a
    by (simp add: accounting_identities_hold_def ledger_output_def Let_def sum_list_sorted_items acct_def)
  moreover have "list_all (\<lambda>p. ledger_unit_ok (snd p)) (sorted_items ?ids (gross s))"
    "list_all (\<lambda>p. ledger_unit_ok (snd p)) (sorted_items ?ids (net s))"
    "list_all (\<lambda>p. ledger_unit_ok (snd p)) (sorted_items ?ids (remaining s))"
    using gp g acct_bounds [OF ok a] M a
    by (fastforce simp: list_all_iff sorted_items_def ledger_unit_ok_def acct_def player_acct_def)+
  ultimately show ?thesis
    using table len acts pot g ret rest M cons who
    by (simp add: hand_pot_output_ok_def ledger_output_def Let_def ledger_unit_ok_def
        positive_ledger_unit_ok_def)
qed

lemma quiet_finish:
  assumes inv: "play_inv env s" and ok: "env_ok env" and names: "[] \<notin> set (le_player_ids env)"
    and table: "2 \<le> length (le_player_ids env)" "length (le_player_ids env) \<le> 10"
    and len: "length (ledger_actions s) \<le> MAX_ACTIONS"
    and live: "current_street s \<noteq> None" "ledger_actions s \<noteq> []"
    and pot: "\<And>s1. close_street env s = Inr s1 \<Longrightarrow> 0 < net_total s1 \<and> live_top env s1"
  shows "quiet (ledger_finish env s)"
proof -
  let ?ids = "le_player_ids env"
  have L: "ledger_inv env s" "street_inv s" using inv by (simp_all add: play_inv_def)
  have closed: "quiet (if \<not> 0 < net_total s1 then Inl (Ledger ''positive-final-pot-required'')
        else if gross_total s1 \<noteq> net_total s1 + returned_total s1
        then Inl (Ledger ''gross-net-return-conservation-failed'')
        else if (\<Sum>p\<leftarrow>?ids. remaining s1 p) + net_total s1 \<noteq> le_starting_total env
        then Inl (Ledger ''stack-pot-conservation-failed'')
        else bindE (build_layers env s1 0 0 (positive_levels ?ids (net s1))) (\<lambda>layers.
          if \<not> hand_pot_output_ok (ledger_output env s1 layers)
          then Inl (Invalid ''HandPotLedgerOutputV1'') else Inr (ledger_output env s1 layers)))"
    if c: "close_street env s = Inr s1" for s1
  proof -
    from close_street_inv [OF c L(1) ok] live have inv1: "ledger_inv env s1"
      and acts: "ledger_actions s1 \<noteq> []" "length (ledger_actions s1) \<le> MAX_ACTIONS"
      using len by simp_all
    have tr: "trace_inv s1" using close_street_trace [OF c] inv by (simp add: play_inv_def)
    from inv1 have a: "acct env s1" by (simp add: ledger_inv_def)
    note cons = acct_conservation [OF ok a]
    have "0 \<le> (\<Sum>p\<leftarrow>?ids. remaining s1 p)" and nn: "\<forall>p\<in>set ?ids. 0 \<le> net s1 p"
      and gross: "\<forall>p\<in>set ?ids. net s1 p \<le> gross s1 p"
      using a by (auto intro!: sum_list_nonneg simp: acct_def player_acct_def)
    then have total: "(\<Sum>p\<leftarrow>?ids. net s1 p) \<le> MAX_LEDGER_UNITS"
      using cons(2) a ok by (simp add: acct_def env_ok_def)
    have "0 + length (positive_levels ?ids (net s1)) \<le> MAX_ACTIONS"
      using levels_bounded [OF levels_from_positive [of ?ids "net s1"]] table
      by (simp add: MAX_ACTIONS_def)
    from quiet_build_layers [OF tr _ gross levels_from_positive _ nn total this] pot [OF c]
    have "quiet (build_layers env s1 0 0 (positive_levels ?ids (net s1)))" by simp
    then show ?thesis
      using cons pot [OF c] output_ok [OF inv1 tr ok names table acts(2,1)]
      by (auto intro!: quiet_bindE)
  qed
  show ?thesis
    using live unfolding ledger_finish_def
    by (auto intro!: quiet_bindE quiet_close_street [OF L ok _ names] closed)
qed

section \<open>The hand as a whole\<close>

lemma validate_profile_InrD:
  "validate_profile p = Inr unit \<Longrightarrow> 0 < unit \<and> unit = parse_decimal (rp_chip_unit p)"
  by (auto simp: validate_profile_def validate_chip_unit_def split: if_splits)

lemma validate_profile_hand_InrD:
  "validate_profile_hand h unit = Inr (sb, bb, ante) \<Longrightarrow>
   h_table_size h = int (length (h_players h)) \<and> length (h_actions h) \<le> MAX_ACTIONS \<and>
   0 < sb \<and> sb < bb \<and> decimal_units (h_big_blind h) unit = Inr bb"
  by (auto simp: validate_profile_hand_def bindE_Inr split: option.splits sum.splits if_splits)

lemma quiet_validate: "quiet (validate_profile p)" "quiet (validate_profile_hand h unit)"
proof -
  show "quiet (validate_profile p)"
    by (simp add: validate_profile_def validate_chip_unit_def)
  have "quiet (validate_blind_actions h unit sb bb)" for sb bb
    unfolding validate_blind_actions_def Let_def by (intro quiets quiet_mapE) (auto intro!: quiets)
  moreover have "quiet (validate_ante_actions h unit ante)" for ante
    unfolding validate_ante_actions_def Let_def
    by (intro quiets quiet_foldE) (auto intro!: quiets)
  ultimately show "quiet (validate_profile_hand h unit)"
    by (auto simp: validate_profile_hand_def intro!: quiets split: option.splits sum.splits)
qed

lemma canonical_hand_ids:
  assumes "canonical_hand_ok h"
  shows "distinct (map ps_player_id (h_players h)) \<and> [] \<notin> set (map ps_player_id (h_players h)) \<and>
    2 \<le> length (h_players h) \<and> h_table_size h \<le> 10"
  using assms
  by (auto simp: canonical_hand_ok_def validate_game_context_def list_all_iff player_stack_ok_def)

text \<open>The facts a successful start of the builder gives.\<close>

definition started ::
    "canonical_hand \<Rightarrow> hand_rule_profile \<Rightarrow> rat \<Rightarrow> ledger_env \<Rightarrow> ledger_state \<Rightarrow> bool" where
  "started h profile unit env s0 \<longleftrightarrow>
     validate_profile profile = Inr unit \<and>
     (\<exists>sb bb ante. validate_profile_hand h unit = Inr (sb, bb, ante) \<and>
        init_ledger h unit bb = Inr (env, s0))"

lemma startedD:
  assumes h: "canonical_hand_ok h" and st: "started h profile unit env s0"
  shows "env_ok env" "big_blind_ok env" "ledger_inv env s0" "le_hand env = h" "le_unit env = unit"
    "le_player_ids env = map ps_player_id (h_players h)"
    "\<exists>bb. s0 = init_ledger_state (le_player_ids env) (le_starting env) bb"
    "length (le_player_ids env) \<le> 10" "length (h_actions h) \<le> MAX_ACTIONS"
proof -
  from st obtain sb bb ante where u: "validate_profile profile = Inr unit"
    and v: "validate_profile_hand h unit = Inr (sb, bb, ante)"
    and i: "init_ledger h unit bb = Inr (env, s0)" by (auto simp: started_def)
  note ids = canonical_hand_ids [OF h]
  have u0: "0 < unit" using validate_profile_InrD [OF u] by simp
  note V = validate_profile_hand_InrD [OF v]
  have "0 < bb" "bb \<le> MAX_LEDGER_UNITS" using V decimal_units_bounds [OF u0] by auto
  from init_ledger_ok [OF i u0 _ this] ids
  show "env_ok env" "big_blind_ok env" "ledger_inv env s0" "le_hand env = h" "le_unit env = unit"
    "le_player_ids env = map ps_player_id (h_players h)"
    "\<exists>bb. s0 = init_ledger_state (le_player_ids env) (le_starting env) bb" by auto
  then show "length (le_player_ids env) \<le> 10" "length (h_actions h) \<le> MAX_ACTIONS"
    using V ids by auto
qed

lemma build_ledger_InrD:
  assumes "build_ledger h profile = Inr r"
  obtains unit env s0 s where "started h profile unit env s0"
    "foldE (ledger_apply env) s0 (enumerate 0 (h_actions h)) = Inr s" "ledger_finish env s = Inr r"
  using assms by (fastforce simp: build_ledger_def bindE_Inr started_def)

lemma quiet_init: "quiet (init_ledger h unit bb)"
  unfolding init_ledger_def Let_def by (intro quiets quiet_mapE quiet_foldE) auto

section \<open>Agreement with the oracle\<close>

definition sim :: "ledger_state \<Rightarrow> oracle_state \<Rightarrow> bool" where
  "sim s t \<longleftrightarrow>
     o_gross t = gross s \<and> o_street t = street_contribution s \<and>
     o_total_intervals t = action_intervals s \<and> o_street_intervals t = street_intervals s \<and>
     o_folded t = folded_at s \<and> o_current_street t = current_street s \<and>
     o_returns t = map actual_return (returns s)"

lemma oracle_close_street_eq:
  "oracle_close_street ids t =
     (case o_current_street t of None \<Rightarrow> Inr t
      | Some st \<Rightarrow> (case street_return ids (o_street t) (o_street_intervals t) of None \<Rightarrow> Inr t
          | Some (p, amount, src) \<Rightarrow> bindE (street_value st) (\<lambda>st'.
              Inr (t\<lparr>o_returns := o_returns t @ [(st', p, amount, src)],
                     o_street := (o_street t)(p := o_street t p - amount)\<rparr>))))"
  by (auto simp: oracle_close_street_def street_return_def Let_def split: option.splits)

lemma sim_close_street:
  assumes c: "close_street env s = Inr s'" and "sim s t"
    and o: "oracle_close_street (le_player_ids env) t = Inr t'"
  shows "sim s' t'"
  using c
proof (cases rule: close_street_cases)
  case (1 st)
  with assms(2) o show ?thesis by (simp add: oracle_close_street_eq sim_def)
next
  case (2 st p amount src)
  with assms(2) o show ?thesis
    by (auto simp: oracle_close_street_eq sim_def bindE_Inr street_value_def return_effect_def
        actual_return_def)
qed

lemma sim_start_street:
  assumes s: "start_street env st s = Inr s'" and "sim s t"
    and o: "oracle_close_street (le_player_ids env) t = Inr t1"
  shows "sim s' (t1\<lparr>o_current_street := Some st, o_street := (\<lambda>_. 0), o_street_intervals := (\<lambda>_. [])\<rparr>)"
  using s
proof (cases rule: start_street_cases)
  case (1 order)
  with assms(2) o show ?thesis by (simp add: oracle_close_street_def sim_def begin_street_def)
next
  case (2 order s1)
  from sim_close_street [OF 2(4) assms(2) o] show ?thesis
    by (simp add: 2(6) sim_def begin_street_def)
qed

text \<open>One accepted action, seen by the oracle.\<close>

definition oracle_action :: "nat \<Rightarrow> hand_action \<Rightarrow> int \<Rightarrow> oracle_state \<Rightarrow> oracle_state" where
  "oracle_action i a n t =
     (let t1 = (if ha_action a = Fold then t\<lparr>o_folded := (o_folded t)(ha_actor a := Some i)\<rparr> else t)
      in if pays (ha_action a) then oracle_contribute i a n t1 else t1)"

lemma oracle_contribute_fields [simp]:
  "o_gross (oracle_contribute i a n t) = (o_gross t)(ha_actor a := o_gross t (ha_actor a) + n)"
  "o_street (oracle_contribute i a n t) = (if ha_action a \<noteq> Post_ante
     then (o_street t)(ha_actor a := o_street t (ha_actor a) + n) else o_street t)"
  "o_total_intervals (oracle_contribute i a n t) = (if n \<noteq> 0
     then (o_total_intervals t)(ha_actor a := o_total_intervals t (ha_actor a) @
       [(i, o_gross t (ha_actor a), o_gross t (ha_actor a) + n)]) else o_total_intervals t)"
  "o_street_intervals (oracle_contribute i a n t) = (if ha_action a \<noteq> Post_ante \<and> n \<noteq> 0
     then (o_street_intervals t)(ha_actor a := o_street_intervals t (ha_actor a) @
       [(i, o_street t (ha_actor a), o_street t (ha_actor a) + n)]) else o_street_intervals t)"
  "o_folded (oracle_contribute i a n t) = o_folded t"
  "o_current_street (oracle_contribute i a n t) = o_current_street t"
  "o_returns (oracle_contribute i a n t) = o_returns t"
  by (simp_all add: oracle_contribute_def Let_def)

lemma sim_apply_kind:
  assumes k: "apply_kind env i a n outstanding rights s = Inr (s', fr)" and "sim s t"
  shows "sim s' (oracle_action i a n t)"
  using k
proof (cases rule: apply_kind_cases)
  case forced
  with assms(2) apply_forced_InrD [OF forced(2)] show ?thesis
    by (auto simp: sim_def oracle_action_def pays_def CONTRIBUTION_ACTIONS_def commit_effect_def
        split: if_splits)
next
  case check_fold
  with assms(2) apply_check_fold_InrD [OF check_fold(2)] show ?thesis
    by (auto simp: sim_def oracle_action_def pays_def CONTRIBUTION_ACTIONS_def mark_acted_def
        split: if_splits)
qed (use assms(2) in \<open>auto dest!: apply_InrD simp: sim_def oracle_action_def pays_def
      CONTRIBUTION_ACTIONS_def commit_effect_def mark_acted_def all_in_bet_def Let_def\<close>)

lemma sim_step:
  assumes ap: "ledger_apply env s (i, a) = Inr s'" and "sim s t"
    and o: "oracle_step (le_player_ids env) (le_unit env) t (i, a) = Inr t'"
  shows "sim s' t'"
  using ap
proof (cases rule: ledger_apply_cases)
  case (1 s1 n s2 fr la)
  from o obtain t1 where t1: "(if Some (ha_street a) \<noteq> o_current_street t
      then bindE (oracle_close_street (le_player_ids env) t) (\<lambda>t1. Inr (t1\<lparr>o_current_street :=
        Some (ha_street a), o_street := (\<lambda>_. 0), o_street_intervals := (\<lambda>_. [])\<rparr>))
      else Inr t) = Inr t1"
    and rest: "(if ha_action a \<notin> CONTRIBUTION_ACTIONS
      then Inr (if ha_action a = Fold
        then t1\<lparr>o_folded := (o_folded t1)(ha_actor a := Some i)\<rparr> else t1)
      else bindE (fraction_units (ha_amount a) (le_unit env)) (\<lambda>amount.
        Inr (oracle_contribute i a amount (if ha_action a = Fold
          then t1\<lparr>o_folded := (o_folded t1)(ha_actor a := Some i)\<rparr> else t1)))) = Inr t'"
    by (auto simp: oracle_step_def bindE_Inr Let_def)
  have "sim s1 t1"
  proof (cases "Some (ha_street a) \<noteq> current_street s")
    case True
    with assms(2) have "Some (ha_street a) \<noteq> o_current_street t" by (simp add: sim_def)
    with t1 True 1(1) sim_start_street [OF _ assms(2)] show ?thesis by (auto simp: bindE_Inr)
  next
    case False
    with assms(2) t1 1(1) show ?thesis by (auto simp: sim_def)
  qed
  then have "sim s2 (oracle_action i a n t1)" by (rule sim_apply_kind [OF 1(6)])
  moreover have "t' = oracle_action i a n t1"
    using rest decimal_fraction_agree [OF 1(5)]
    by (auto simp: oracle_action_def pays_def Let_def bindE_Inr split: if_splits)
  ultimately show ?thesis by (simp add: 1(7) sim_def)
qed

lemma sim_run:
  assumes "foldE (ledger_apply env) s0 acts = Inr s" "sim s0 t0"
    and "foldE (oracle_step (le_player_ids env) (le_unit env)) t0 acts = Inr t"
  shows "sim s t"
  using foldE_simulation [where R = sim, OF _ assms(2,1,3)] by (metis sim_step surj_pair)

end
