(* ===== verification/HandPotGuards.thy ===== *)
theory HandPotGuards
  imports HandPotMain
begin

text \<open>
  Why the last guards of \<open>tools/hand_pot_ledger.py\<close> never fire.  Before the first voluntary
  action only blinds and antes are posted, and afterwards every player who can still act
  has put in as much as anybody had at the start of the street.  So a player who never
  folded always holds the highest contribution (\<open>live_top\<close>), two players always have chips
  in the pot, and the builder's finished hand passes every one of its own checks.
\<close>

section \<open>Players who can act have matched everybody\<close>

definition base :: "ledger_state \<Rightarrow> string \<Rightarrow> int" where
  \<comment> \<open>what a player had in before the open street\<close>
  "base s p = net s p - street_contribution s p"

definition matched :: "ledger_env \<Rightarrow> int \<Rightarrow> ledger_state \<Rightarrow> bool" where
  "matched env m s \<longleftrightarrow>
     (\<forall>p\<in>set (le_player_ids env). base s p \<le> m \<and> (0 < street_contribution s p \<longrightarrow> base s p = m)) \<and>
     (\<forall>p\<in>active s - all_in s. base s p = m) \<and>
     (current_bet s = 0 \<longrightarrow> (\<exists>p\<in>active s. base s p = m))"

definition two_paid :: "ledger_env \<Rightarrow> ledger_state \<Rightarrow> bool" where
  "two_paid env s \<longleftrightarrow> (\<exists>p\<in>set (le_player_ids env). \<exists>q\<in>set (le_player_ids env).
     p \<noteq> q \<and> 0 < net s p \<and> 0 < net s q)"

definition level_at :: "ledger_env \<Rightarrow> int \<Rightarrow> ledger_state \<Rightarrow> bool" where
  \<comment> \<open>the level \<open>m\<close> all live players have reached once the street is closed\<close>
  "level_at env m s \<longleftrightarrow>
     (\<forall>p\<in>set (le_player_ids env). net s p \<le> m) \<and> (\<exists>p\<in>active s. net s p = m)"

lemma level_at_live_top: "level_at env m s \<Longrightarrow> who_inv env s \<Longrightarrow> live_top env s"
  by (auto simp: level_at_def live_top_def who_inv_def)

lemma matched_begin:
  "level_at env m s \<Longrightarrow> \<forall>p\<in>active s - all_in s. net s p = m \<Longrightarrow>
   matched env m (begin_street env st order s)"
  by (auto simp: matched_def level_at_def begin_street_def base_def)

lemma close_street_round:
  assumes "close_street env s = Inr s'" and "1 < card (active s)"
  shows "\<forall>p\<in>set (le_player_ids env) \<inter> (active s - all_in s). street_contribution s p = current_bet s"
  using assms
  by (auto simp: close_street_def check_round_complete_def bindE_Inr foldE_unit_Inr
      split: option.splits if_splits)

lemma top_holder:
  assumes m: "matched env m s" and inv: "ledger_inv env s" "street_inv s"
  shows "\<exists>q\<in>active s. net s q = m + current_bet s"
proof (cases "current_bet s = 0")
  case True
  with m obtain q where q: "q \<in> active s" "base s q = m" by (auto simp: matched_def)
  then have "q \<in> set (le_player_ids env)" using inv(1) by (auto simp: ledger_inv_def who_inv_def)
  then have "street_contribution s q = 0"
    using inv(1) True by (fastforce simp: ledger_inv_def bet_inv_def acct_def player_acct_def)
  with q True show ?thesis by (auto simp: base_def)
next
  case False
  with inv(2) obtain q where q: "q \<in> active s" "street_contribution s q = current_bet s"
    by (auto simp: street_inv_def)
  then have "q \<in> set (le_player_ids env)" using inv(1) by (auto simp: ledger_inv_def who_inv_def)
  moreover have "0 < current_bet s" using False inv(1) by (simp add: ledger_inv_def bet_inv_def)
  ultimately have "base s q = m" using m q by (simp add: matched_def)
  with q show ?thesis by (auto simp: base_def)
qed

lemma net_le_level:
  assumes "matched env m s" and "p \<in> set (le_player_ids env)"
  shows "net s p \<le> m + street_contribution s p"
  using assms by (auto simp: matched_def base_def)

lemma close_street_level:
  assumes c: "close_street env s = Inr s'" and inv: "play_inv env s" and m: "matched env m s"
  shows "\<exists>m'. level_at env m' s' \<and>
    (1 < card (active s) \<longrightarrow> (\<forall>p\<in>active s' - all_in s'. net s' p = m')) \<and>
    (two_paid env s \<longrightarrow> two_paid env s')"
proof -
  let ?ids = "le_player_ids env"
  from inv have L: "ledger_inv env s" "street_inv s" by (simp_all add: play_inv_def)
  then have sc: "\<forall>p\<in>set ?ids. 0 \<le> street_contribution s p \<and> street_contribution s p \<le> current_bet s"
    and act: "active s \<subseteq> set ?ids"
    and rem: "\<forall>p\<in>set ?ids. 0 \<le> remaining s p"
    by (auto simp: ledger_inv_def bet_inv_def acct_def player_acct_def who_inv_def)
  from c show ?thesis
  proof (cases rule: close_street_cases)
    case (1 st)
    have "\<forall>p\<in>set ?ids. net s p \<le> m + current_bet s"
      using net_le_level [OF m] sc by fastforce
    moreover have "net s p = m + current_bet s"
      if "1 < card (active s)" "p \<in> active s - all_in s" for p
    proof -
      have "base s p = m" using m that(2) by (simp add: matched_def)
      moreover have "street_contribution s p = current_bet s"
        using close_street_round [OF c that(1)] that(2) act by auto
      ultimately show ?thesis by (simp add: base_def)
    qed
    ultimately show ?thesis
      using top_holder [OF m L] 1(3) by (intro exI [of _ "m + current_bet s"]) (auto simp: level_at_def)
  next
    case (2 st p amount src)
    from street_return_SomeD [OF 2(2)] sc
    have p: "p \<in> set ?ids" "0 < amount" "amount \<le> street_contribution s p"
      and others: "\<forall>q\<in>set ?ids. q \<noteq> p \<longrightarrow> street_contribution s q \<le> street_contribution s p - amount"
      by auto
    let ?m = "m + street_contribution s p - amount"
    have base_p: "base s p = m" using m p by (simp add: matched_def)
    have nets: "net s' p = ?m" "\<forall>q. q \<noteq> p \<longrightarrow> net s' q = net s q"
      using base_p by (auto simp: 2(3) return_effect_def base_def)
    have low: "net s q \<le> ?m" if "q \<in> set ?ids" "q \<noteq> p" for q
      using net_le_level [OF m that(1)] others that by fastforce
    have level: "level_at env ?m s'"
      using nets low 2(4) by (auto simp: level_at_def 2(3) return_effect_def)
    have live: "net s' q = ?m" if two: "1 < card (active s)" and q: "q \<in> active s' - all_in s'" for q
    proof (cases "q = p")
      case False
      from q False have q': "q \<in> active s - all_in s"
        by (auto simp: 2(3) return_effect_def split: if_splits)
      with close_street_round [OF c two] act have "street_contribution s q = current_bet s" by auto
      moreover have "street_contribution s q < street_contribution s p"
        using others q' act p(2) False by fastforce
      ultimately show ?thesis using sc p(1) by fastforce
    qed (use nets in simp)
    have "two_paid env s'" if paid: "two_paid env s"
    proof -
      from paid obtain x y where xy: "x \<in> set ?ids" "y \<in> set ?ids" "x \<noteq> y" "0 < net s x" "0 < net s y"
        by (auto simp: two_paid_def)
      then have "0 < net s' x" "0 < net s' y"
        using nets low [of x] low [of y] by (cases "x = p"; cases "y = p"; force)+
      with xy show ?thesis by (auto simp: two_paid_def)
    qed
    with level live show ?thesis by blast
  qed
qed

section \<open>Voluntary actions\<close>

definition forced_post :: "hand_action \<Rightarrow> bool" where
  "forced_post a \<longleftrightarrow> ha_action a \<in> {Post_blind, Post_ante}"

lemma net_nonneg: "acct env s \<Longrightarrow> p \<in> set (le_player_ids env) \<Longrightarrow> 0 \<le> net s p"
  by (fastforce simp: acct_def player_acct_def)

lemma apply_kind_matched:
  assumes k: "apply_kind env i a n (current_bet s - street_contribution s (ha_actor a)) rights s
      = Inr (s', fr)"
    and m: "matched env m s" and inv: "ledger_inv env s" and vol: "\<not> forced_post a"
    and p: "ha_actor a \<in> active s" "ha_actor a \<notin> all_in s" "ha_actor a \<in> set (le_player_ids env)"
  shows "matched env m s' \<and> voluntary_action_seen s' \<and> (\<forall>q. net s q \<le> net s' q)"
proof -
  have b: "base s (ha_actor a) = m" using m p by (simp add: matched_def)
  have cb: "0 \<le> current_bet s" "0 \<le> street_contribution s (ha_actor a)"
    using inv p(3) by (auto simp: ledger_inv_def bet_inv_def acct_def player_acct_def)
  from k show ?thesis
  proof (cases rule: apply_kind_cases)
    case forced
    with vol show ?thesis by (simp add: forced_post_def)
  next
    case check_fold
    from apply_check_fold_InrD [OF check_fold(2)] m cb show ?thesis
      by (auto simp: matched_def base_def mark_acted_def split: if_splits)
  next
    case call
    note C = apply_call_InrD [OF call(2)]
    then have "0 < current_bet s" using cb by simp
    with C m b show ?thesis
      by (auto simp: matched_def base_def mark_acted_def commit_effect_def)
  next
    case bet
    from apply_bet_InrD [OF bet(2)] m b p(1) show ?thesis
      by (auto simp: matched_def base_def mark_acted_def commit_effect_def)
  next
    case raised
    from apply_raise_InrD [OF raised(2)] m b p(1) show ?thesis
      by (auto simp: matched_def base_def mark_acted_def commit_effect_def)
  next
    case all_in
    from apply_all_in_InrD [OF all_in(2)] m b p(1) show ?thesis
      by (auto simp: matched_def base_def mark_acted_def commit_effect_def all_in_bet_def)
  qed
qed

text \<open>The state of a hand after the forced posts.\<close>

definition betting :: "ledger_env \<Rightarrow> ledger_state \<Rightarrow> bool" where
  "betting env s \<longleftrightarrow> play_inv env s \<and> two_paid env s \<and> (\<exists>m. matched env m s)"

lemma start_street_seen:
  "start_street env st s = Inr s' \<Longrightarrow> voluntary_action_seen s' = voluntary_action_seen s"
  by (auto elim!: start_street_cases close_street_cases simp: begin_street_def return_effect_def)

lemma start_street_betting:
  assumes st: "start_street env st s = Inr s'" and b: "betting env s"
    and ok: "env_ok env" "big_blind_ok env" and started: "current_street s \<noteq> None"
  shows "betting env s'"
proof -
  from b obtain m where inv: "play_inv env s" and m: "matched env m s" and paid: "two_paid env s"
    by (auto simp: betting_def)
  from st started obtain order s1 where c: "close_street env s = Inr s1"
    and two: "1 < card (active s1)" and s': "s' = begin_street env st order s1"
    by (auto elim: start_street_cases)
  have "active s1 = active s" using c by (auto elim!: close_street_cases simp: return_effect_def)
  with two close_street_level [OF c inv m] paid obtain m' where
    "level_at env m' s1" "\<forall>p\<in>active s1 - all_in s1. net s1 p = m'" "two_paid env s1" by auto
  with matched_begin [of env m' s1 st order] have "matched env m' s'" "two_paid env s'"
    by (simp_all add: s' two_paid_def begin_street_def)
  with start_street_play [OF st inv ok] show ?thesis by (auto simp: betting_def)
qed

lemma betting_apply:
  assumes ok: "env_ok env" "big_blind_ok env" and b: "betting env s"
    and started: "current_street s \<noteq> None" and vol: "\<not> forced_post a"
    and ap: "ledger_apply env s (i, a) = Inr s'" and i: "i < MAX_ACTIONS"
  shows "betting env s'"
  using ap
proof (cases rule: ledger_apply_cases)
  case (1 s1 n s2 fr la)
  have b1: "betting env s1"
    using 1(1) b start_street_betting [OF _ b ok started] by (auto split: if_splits)
  then obtain m where m: "matched env m s1" and inv: "ledger_inv env s1" and paid: "two_paid env s1"
    by (auto simp: betting_def play_inv_def)
  from apply_kind_matched [OF 1(6) m inv vol 1(3,4,2)] have "matched env m s2"
    and grow: "\<forall>q. net s1 q \<le> net s2 q" by auto
  moreover from paid grow have "two_paid env s2" unfolding two_paid_def by (meson less_le_trans)
  moreover have "play_inv env s'"
    using play_inv_apply [OF ok _ ap i] b by (simp add: betting_def)
  ultimately show ?thesis
    by (auto simp: betting_def 1(7) matched_def base_def two_paid_def)
qed

lemma ledger_apply_street:
  "ledger_apply env s (i, a) = Inr s' \<Longrightarrow> current_street s' \<noteq> None"
proof (erule ledger_apply_cases)
  fix s1 n s2 fr la
  assume k: "apply_kind env i a n (current_bet s1 - street_contribution s1 (ha_actor a))
       (raise_rights s1 (ha_actor a)) s1 = Inr (s2, fr)"
    and s': "s' = s2\<lparr>ledger_actions := ledger_actions s2 @ [la]\<rparr>"
    and s1: "if Some (ha_street a) \<noteq> current_street s then start_street env (ha_street a) s = Inr s1
     else s1 = s"
  from s1 have "current_street s1 \<noteq> None"
    by (auto split: if_splits elim!: start_street_cases simp: begin_street_def) metis
  moreover from k have "current_street s2 = current_street s1"
    by (cases rule: apply_kind_cases)
      (auto dest!: apply_InrD simp: mark_acted_def commit_effect_def all_in_bet_def split: if_splits)
  ultimately show ?thesis by (simp add: s')
qed

lemma ledger_run_street:
  "foldE (ledger_apply env) s (enumerate k acts) = Inr s' \<Longrightarrow>
   acts \<noteq> [] \<or> current_street s \<noteq> None \<Longrightarrow> current_street s' \<noteq> None"
proof (induction acts arbitrary: k s)
  case (Cons a acts)
  then obtain s1 where s1: "ledger_apply env s (k, a) = Inr s1"
    "foldE (ledger_apply env) s1 (enumerate (Suc k) acts) = Inr s'"
    by (auto simp: bindE_Inr)
  with Cons.IH [OF s1(2)] ledger_apply_street [OF s1(1)] show ?case by simp
qed simp

lemma betting_run:
  assumes ok: "env_ok env" "big_blind_ok env" and b: "betting env s" "current_street s \<noteq> None"
    and vol: "\<forall>a\<in>set acts. \<not> forced_post a"
    and run: "foldE (ledger_apply env) s (enumerate k acts) = Inr s'"
    and small: "k + length acts \<le> MAX_ACTIONS"
  shows "betting env s'"
  using b vol run small
proof (induction acts arbitrary: k s)
  case (Cons a acts)
  then obtain s1 where s1: "ledger_apply env s (k, a) = Inr s1"
    "foldE (ledger_apply env) s1 (enumerate (Suc k) acts) = Inr s'"
    by (auto simp: bindE_Inr)
  have "betting env s1"
    using betting_apply [OF ok Cons.prems(1,2) _ s1(1)] Cons.prems(3,5) by simp
  then show ?case
    using Cons.IH [OF _ ledger_apply_street [OF s1(1)] _ s1(2)] Cons.prems(3,5) by simp
qed simp

text \<open>Once a player has acted voluntarily nothing can be posted any more.\<close>

lemma ledger_apply_seen:
  assumes ap: "ledger_apply env s (i, a) = Inr s'"
    and vol: "voluntary_action_seen s \<or> \<not> forced_post a"
  shows "voluntary_action_seen s' \<and> \<not> forced_post a"
  using ap
proof (cases rule: ledger_apply_cases)
  case (1 s1 n s2 fr la)
  have seen: "voluntary_action_seen s1 = voluntary_action_seen s"
    using 1(1) by (auto split: if_splits dest: start_street_seen)
  from 1(6) show ?thesis
  proof (cases rule: apply_kind_cases)
    case forced
    with vol seen show ?thesis by (auto simp: apply_forced_def forced_post_def split: if_splits)
  qed (auto dest!: apply_InrD simp: 1(7) forced_post_def mark_acted_def commit_effect_def
      all_in_bet_def split: if_splits)
qed

lemma no_late_posts:
  assumes "foldE (ledger_apply env) s (enumerate k acts) = Inr s'"
    and "voluntary_action_seen s \<or> (acts \<noteq> [] \<longrightarrow> \<not> forced_post (hd acts))"
  shows "\<forall>a\<in>set acts. \<not> forced_post a"
  using assms
proof (induction acts arbitrary: k s)
  case (Cons a acts)
  then obtain s1 where s1: "ledger_apply env s (k, a) = Inr s1"
    "foldE (ledger_apply env) s1 (enumerate (Suc k) acts) = Inr s'"
    by (auto simp: bindE_Inr)
  from ledger_apply_seen [OF s1(1)] Cons.prems(2)
  have "voluntary_action_seen s1 \<and> \<not> forced_post a" by auto
  with Cons.IH [OF s1(2)] show ?case by simp
qed simp

section \<open>The forced posts\<close>

definition antes_of :: "string \<Rightarrow> hand_action list \<Rightarrow> int" where
  "antes_of p acts = int (length (filter (\<lambda>a. ha_actor a = p \<and> ha_action a = Post_ante) acts))"

definition posting :: "ledger_env \<Rightarrow> int \<Rightarrow> hand_action list \<Rightarrow> ledger_state \<Rightarrow> bool" where
  "posting env ante acts s \<longleftrightarrow>
     active s = set (le_player_ids env) \<and> \<not> voluntary_action_seen s \<and>
     (current_street s = None \<and> (\<forall>p. street_contribution s p = 0) \<or> current_street s = Some Preflop) \<and>
     (\<forall>p. base s p = ante * antes_of p acts) \<and>
     (\<forall>a\<in>set acts. ha_actor a \<in> set (le_player_ids env) \<and> 0 < net s (ha_actor a))"

lemma posting_init: "posting env ante [] (init_ledger_state (le_player_ids env) starting bb)"
  by (simp add: posting_def init_ledger_state_def base_def antes_of_def)

lemma posting_apply:
  assumes ap: "ledger_apply env s (i, a) = Inr s'" and f: "forced_post a"
    and inv: "posting env ante acts s" "acct env s"
    and amount: "ha_action a = Post_ante \<longrightarrow> decimal_units (ha_amount a) (le_unit env) = Inr ante"
  shows "posting env ante (acts @ [a]) s'"
  using ap
proof (cases rule: ledger_apply_cases)
  case (1 s1 n s2 fr la)
  from 1(6) f have forced: "apply_forced i a n s1 = Inr s2"
    by (cases rule: apply_kind_cases) (auto simp: forced_post_def)
  then have pre: "current_street s1 = Some Preflop"
    by (auto simp: apply_forced_def split: if_splits)
  have p1: "posting env ante acts s1 \<and> net s1 = net s"
  proof (cases "Some (ha_street a) = current_street s")
    case True
    with 1(1) inv show ?thesis by simp
  next
    case False
    with 1(1) have st: "start_street env (ha_street a) s = Inr s1" by simp
    then have "current_street s1 = Some (ha_street a)"
      by (auto elim!: start_street_cases simp: begin_street_def)
    with pre False inv have none: "current_street s = None"
      by (auto simp: posting_def)
    with st obtain order where "s1 = begin_street env (ha_street a) order s"
      by (auto elim: start_street_cases)
    with inv none pre show ?thesis
      by (auto simp: posting_def begin_street_def base_def)
  qed
  note F = apply_forced_InrD [OF forced]
  have n: "ha_action a = Post_ante \<Longrightarrow> n = ante" using amount 1(5) by simp
  have nn: "0 \<le> net s1 (ha_actor a)" using p1 net_nonneg [OF inv(2) 1(2)] by simp
  show ?thesis
  proof (cases "ha_action a = Post_ante")
    case True
    with F p1 n nn pre 1(2) show ?thesis
      by (auto simp: 1(7) posting_def commit_effect_def base_def antes_of_def algebra_simps)
  next
    case False
    with F p1 nn pre 1(2) show ?thesis
      by (auto simp: 1(7) posting_def commit_effect_def base_def antes_of_def)
  qed
qed

lemma posting_run:
  assumes ok: "env_ok env" "big_blind_ok env" and inv: "ledger_inv env s" "posting env ante pre s"
    and f: "\<forall>a\<in>set acts. forced_post a"
    and amount: "\<forall>a\<in>set acts. ha_action a = Post_ante \<longrightarrow>
      decimal_units (ha_amount a) (le_unit env) = Inr ante"
    and run: "foldE (ledger_apply env) s (enumerate k acts) = Inr s'"
  shows "posting env ante (pre @ acts) s'"
  using inv f amount run
proof (induction acts arbitrary: k s pre)
  case (Cons a acts)
  then obtain s1 where s1: "ledger_apply env s (k, a) = Inr s1"
    "foldE (ledger_apply env) s1 (enumerate (Suc k) acts) = Inr s'"
    by (auto simp: bindE_Inr)
  have "posting env ante (pre @ [a]) s1"
    using posting_apply [OF s1(1) _ Cons.prems(2)] Cons.prems(1,3,4) by (simp add: ledger_inv_def)
  from Cons.IH [OF ledger_inv_apply [OF ok Cons.prems(1) s1(1)] this _ _ s1(2)] Cons.prems(3,4)
  show ?case by simp
qed simp

text \<open>What the validation of the profile says about the posts of a hand.\<close>

lemma ante_scan:
  "foldE (\<lambda>ok a. if \<not> ok then Inr False
      else if ha_street a \<noteq> Preflop then Inr False
      else bindE (decimal_units (ha_amount a) unit) (\<lambda>u. Inr (u = ante))) ok acts = Inr True \<Longrightarrow>
   ok \<and> (\<forall>a\<in>set acts. decimal_units (ha_amount a) unit = Inr ante)"
  by (induction acts arbitrary: ok) (auto simp: bindE_Inr split: if_splits)

lemma count_distinct: "distinct xs \<Longrightarrow> x \<in> set xs \<Longrightarrow> count_list xs x = 1"
  by (induction xs) (auto simp: count_list_0_iff)

lemma validate_ante_InrD:
  assumes v: "validate_ante_actions h unit ante = Inr ()"
    and d: "distinct (map ps_player_id (h_players h))"
  shows "\<exists>m. \<forall>p\<in>set (map ps_player_id (h_players h)). ante * antes_of p (h_actions h) = m"
    and "\<forall>a\<in>set (h_actions h). ha_action a = Post_ante \<longrightarrow>
      decimal_units (ha_amount a) unit = Inr ante"
proof -
  let ?ids = "map ps_player_id (h_players h)"
  let ?antes = "filter (\<lambda>a. ha_action a = Post_ante) (h_actions h)"
  have count: "antes_of p (h_actions h) = int (count_list (map ha_actor ?antes) p)" for p
    by (simp add: antes_of_def count_list_eq_length_filter filter_map comp_def conj_commute eq_commute)
  show "\<exists>m. \<forall>p\<in>set ?ids. ante * antes_of p (h_actions h) = m"
  proof (cases "ante = 0")
    case False
    with v have len: "length ?antes = length (h_players h)" and set: "set (map ha_actor ?antes) = set ?ids"
      by (auto simp: validate_ante_actions_def Let_def split: if_splits)
    have "distinct (map ha_actor ?antes)"
      using len arg_cong [OF set, of card] distinct_card [OF d] by (intro card_distinct) simp
    then have "count_list (map ha_actor ?antes) p = 1" if "p \<in> set ?ids" for p
      using that set by (simp only: count_distinct)
    then show ?thesis by (simp add: count)
  qed simp
  show "\<forall>a\<in>set (h_actions h). ha_action a = Post_ante \<longrightarrow> decimal_units (ha_amount a) unit = Inr ante"
  proof (cases "ante = 0")
    case True
    with v show ?thesis by (auto simp: validate_ante_actions_def filter_empty_conv split: if_splits)
  next
    case False
    with v have "foldE (\<lambda>ok a. if \<not> ok then Inr False
      else if ha_street a \<noteq> Preflop then Inr False
      else bindE (decimal_units (ha_amount a) unit) (\<lambda>u. Inr (u = ante))) True ?antes = Inr True"
      by (auto simp: validate_ante_actions_def Let_def bindE_Inr split: if_splits)
    from ante_scan [OF this] show ?thesis by auto
  qed
qed

lemma two_blinds:
  assumes "validate_blind_actions h unit sb bb = Inr ()"
  shows "\<exists>a\<in>set (h_actions h). \<exists>b\<in>set (h_actions h).
    ha_action a = Post_blind \<and> ha_action b = Post_blind \<and> ha_actor a \<noteq> ha_actor b"
proof -
  let ?blinds = "filter (\<lambda>a. ha_action a = Post_blind) (h_actions h)"
  from assms have "card (ha_actor ` set ?blinds) = 2"
    by (auto simp: validate_blind_actions_def Let_def bindE_Inr split: if_splits)
  then obtain x y where xy: "ha_actor ` set ?blinds = {x, y}" "x \<noteq> y"
    by (auto simp: card_2_iff)
  then have "x \<in> ha_actor ` set ?blinds" "y \<in> ha_actor ` set ?blinds" by simp_all
  then obtain a b where ab: "a \<in> set ?blinds" "x = ha_actor a" "b \<in> set ?blinds" "y = ha_actor b"
    by (elim imageE) blast
  show ?thesis
  proof (intro bexI conjI)
    show "ha_actor a \<noteq> ha_actor b" using ab xy(2) by simp
  qed (use ab in auto)
qed

section \<open>A finished hand has a pot that somebody can win\<close>

lemma two_paid_pot:
  assumes paid: "two_paid env s" and a: "acct env s"
  shows "0 < net_total s"
proof -
  from paid obtain p where p: "p \<in> set (le_player_ids env)" "0 < net s p" by (auto simp: two_paid_def)
  have "net s p \<le> (\<Sum>q\<leftarrow>le_player_ids env. net s q)"
    using net_nonneg [OF a] p(1) by (intro member_le_sum_list) auto
  with a p(2) show ?thesis by (simp add: acct_def)
qed

text \<open>The run of an accepted hand, split at the first voluntary action.\<close>

lemma run_betting:
  assumes ok: "env_ok env" "big_blind_ok env"
    and s0: "s0 = init_ledger_state (le_player_ids env) (le_starting env) bb" "play_inv env s0"
    and ids: "le_player_ids env = map ps_player_id (h_players h)" "le_player_ids env \<noteq> []"
    and blinds: "validate_blind_actions h (le_unit env) sb bb' = Inr ()"
    and antes: "validate_ante_actions h (le_unit env) ante = Inr ()"
    and small: "length (h_actions h) \<le> MAX_ACTIONS"
    and run: "foldE (ledger_apply env) s0 (enumerate 0 (h_actions h)) = Inr s"
  shows "betting env s"
proof -
  let ?ids = "le_player_ids env"
  let ?pre = "takeWhile forced_post (h_actions h)"
  let ?suf = "dropWhile forced_post (h_actions h)"
  have acts: "h_actions h = ?pre @ ?suf" by simp
  then have "enumerate 0 (h_actions h) = enumerate 0 ?pre @ enumerate (length ?pre) ?suf"
    by (metis add_0 enumerate_append_eq)
  with run obtain s1 where r1: "foldE (ledger_apply env) s0 (enumerate 0 ?pre) = Inr s1"
    and r2: "foldE (ledger_apply env) s1 (enumerate (length ?pre) ?suf) = Inr s"
    by (auto simp: foldE_append bindE_Inr)
  have vol: "\<forall>a\<in>set ?suf. \<not> forced_post a"
    using no_late_posts [OF r2] hd_dropWhile [of forced_post "h_actions h"] by blast
  then have posts: "filter P ?suf = []" if "\<And>a. P a \<Longrightarrow> forced_post a" for P
    using that by (auto simp: filter_empty_conv)
  note ante = validate_ante_InrD [OF antes]
  have d: "distinct ?ids" using ok by (simp add: env_ok_def)
  have "posting env ante ([] @ ?pre) s1"
  proof (rule posting_run [OF ok _ _ _ _ r1])
    show "ledger_inv env s0" using s0(2) by (simp add: play_inv_def)
    show "posting env ante [] s0" by (simp add: s0(1) posting_init)
    show "\<forall>a\<in>set ?pre. forced_post a" by (auto dest: set_takeWhileD)
    show "\<forall>a\<in>set ?pre. ha_action a = Post_ante \<longrightarrow>
      decimal_units (ha_amount a) (le_unit env) = Inr ante"
      using ante(2) d ids(1) by (auto dest: set_takeWhileD)
  qed
  then have post: "posting env ante ?pre s1" by simp
  have "antes_of p ?pre = antes_of p (h_actions h)" for p
  proof -
    have "filter (\<lambda>a. ha_actor a = p \<and> ha_action a = Post_ante) ?suf = []"
      by (rule posts) (simp add: forced_post_def)
    then have "antes_of p (?pre @ ?suf) = antes_of p ?pre"
      unfolding antes_of_def filter_append by simp
    then show ?thesis by (simp del: takeWhile_dropWhile_id add: acts [symmetric])
  qed
  with ante(1) d ids(1) post obtain m where m: "\<forall>p\<in>set ?ids. base s1 p = m"
    by (auto simp: posting_def)
  have act: "active s1 = set ?ids" using post by (simp add: posting_def)
  have "matched env m s1"
    using m ids(2) act by (auto simp: matched_def neq_Nil_conv)
  moreover from two_blinds [OF blinds] obtain a b where ab: "a \<in> set (h_actions h)"
    "b \<in> set (h_actions h)" "ha_action a = Post_blind" "ha_action b = Post_blind"
    "ha_actor a \<noteq> ha_actor b" by blast
  then have in_pre: "a \<in> set ?pre" "b \<in> set ?pre"
    using vol acts by (metis Un_iff forced_post_def insertI1 set_append)+
  with post have "ha_actor a \<in> set ?ids \<and> 0 < net s1 (ha_actor a)"
    "ha_actor b \<in> set ?ids \<and> 0 < net s1 (ha_actor b)" by (simp_all add: posting_def)
  with ab(5) have "two_paid env s1" unfolding two_paid_def by blast
  moreover have "play_inv env s1"
    using play_inv_run [OF ok s0(2) r1] small length_takeWhile_le [of forced_post "h_actions h"] by simp
  ultimately have b1: "betting env s1" by (auto simp: betting_def)
  have started: "current_street s1 \<noteq> None"
    using in_pre by (intro ledger_run_street [OF r1]) auto
  have len: "length ?pre + length ?suf = length (h_actions h)"
    by (metis acts length_append)
  show ?thesis using betting_run [OF ok b1 started vol r2] small len by simp
qed

lemma betting_finish:
  assumes b: "betting env s" and ok: "env_ok env" and c: "close_street env s = Inr s1"
  shows "0 < net_total s1 \<and> live_top env s1"
proof -
  from b obtain m where inv: "play_inv env s" and m: "matched env m s" and paid: "two_paid env s"
    by (auto simp: betting_def)
  from close_street_inv [OF c _ ok] inv have L: "acct env s1" "who_inv env s1"
    by (simp_all add: play_inv_def ledger_inv_def)
  from close_street_level [OF c inv m] paid obtain m' where "level_at env m' s1" "two_paid env s1"
    by blast
  with L level_at_live_top two_paid_pot show ?thesis by blast
qed

lemma validate_posts_InrD:
  "validate_profile_hand h unit = Inr (sb, bb, ante) \<Longrightarrow>
   validate_blind_actions h unit sb bb = Inr () \<and> validate_ante_actions h unit ante = Inr ()"
  by (auto simp: validate_profile_hand_def bindE_Inr split: option.splits sum.splits if_splits)

lemma started_play:
  assumes "canonical_hand_ok h" and "started h profile unit env s0"
  shows "play_inv env s0 \<and> ledger_actions s0 = []"
  using startedD(3,7) [OF assms]
  by (auto simp: play_inv_def trace_inv_def street_inv_def street_covered_def init_ledger_state_def)

lemma played_betting:
  assumes h: "canonical_hand_ok h" and st: "started h profile unit env s0"
    and run: "foldE (ledger_apply env) s0 (enumerate 0 (h_actions h)) = Inr s"
  shows "betting env s"
proof -
  note S = startedD [OF h st]
  from S(7) obtain bb where s0: "s0 = init_ledger_state (le_player_ids env) (le_starting env) bb" ..
  from st obtain sb bb' ante where v: "validate_profile_hand h unit = Inr (sb, bb', ante)"
    by (auto simp: started_def)
  have ids: "le_player_ids env \<noteq> []" using canonical_hand_ids [OF h] S(6) by auto
  show ?thesis
    using run_betting [OF S(1,2) s0 _ S(6) ids _ _ S(9) run, where sb = sb and bb' = bb' and ante = ante]
      started_play [OF h st] validate_posts_InrD [OF v] by (simp add: S(5))
qed

lemma quiet_played:
  assumes h: "canonical_hand_ok h" and st: "started h profile unit env s0"
  shows "quiet (bindE (foldE (ledger_apply env) s0 (enumerate 0 (h_actions h))) (ledger_finish env))"
proof -
  note ids = canonical_hand_ids [OF h]
  note S = startedD [OF h st] and P = started_play [OF h st]
  have names: "[] \<notin> set (le_player_ids env)" "2 \<le> length (le_player_ids env)"
    using ids S(6) by simp_all
  from st obtain sb bb ante where "validate_profile_hand h unit = Inr (sb, bb, ante)"
    by (auto simp: started_def)
  from two_blinds [OF conjunct1 [OF validate_posts_InrD [OF this]]] have some: "h_actions h \<noteq> []" by auto
  show ?thesis
  proof (rule quiet_bindE)
    show "quiet (foldE (ledger_apply env) s0 (enumerate 0 (h_actions h)))"
      using S(9) P by (intro quiet_run S(1,2) names) simp_all
  next
    fix s assume r: "foldE (ledger_apply env) s0 (enumerate 0 (h_actions h)) = Inr s"
    note b = played_betting [OF h st r]
    have "length (ledger_actions s) = length (h_actions h)"
      using length_ledger_run [OF r] P by simp
    moreover have "current_street s \<noteq> None" using ledger_run_street [OF r] some by simp
    ultimately show "quiet (ledger_finish env s)"
      using b some S(9)
      by (intro quiet_finish [OF _ S(1) names S(8)] betting_finish [OF b S(1)])
        (auto simp: betting_def)
  qed
qed

lemma quiet_build_ledger:
  assumes "canonical_hand_ok h"
  shows "quiet (build_ledger h profile)"
  unfolding build_ledger_def
  by (intro quiet_bindE quiet_validate)
    (auto intro!: quiet_bindE quiet_validate quiet_init quiet_played [OF assms]
      simp: started_def split: prod.splits)

section \<open>Every recorded interval is a recorded action\<close>

definition logged :: "ledger_action list \<Rightarrow> street option \<Rightarrow> string \<Rightarrow> nat \<Rightarrow> bool" where
  \<comment> \<open>the log has a paying action of the player with that index, on that street if one is given\<close>
  "logged las st p i \<longleftrightarrow> (\<exists>a\<in>set las. la_action_index a = i \<and> la_actor a = p \<and>
     0 < la_committed_units a \<and> (st = None \<or> st = Some (la_street a)))"

lemma logged_mono: "logged las st p i \<Longrightarrow> logged (las @ bs) st p i"
  by (auto simp: logged_def)

definition logged_inv :: "ledger_state \<Rightarrow> bool" where
  "logged_inv s \<longleftrightarrow>
     (\<forall>p. \<forall>x\<in>set (action_intervals s p). logged (ledger_actions s) None p (fst x)) \<and>
     (\<forall>p. \<forall>x\<in>set (street_intervals s p). logged (ledger_actions s) (current_street s) p (fst x)) \<and>
     (\<forall>r\<in>set (returns s). \<forall>i\<in>set (ur_source_action_indexes r).
        logged (ledger_actions s) (Some (ur_street r)) (ur_player_id r) i)"

lemma apply_kind_intervals:
  assumes "apply_kind env i a n outstanding rights s = Inr (s', fr)"
  shows "(\<forall>p. \<forall>x\<in>set (action_intervals s' p). x \<in> set (action_intervals s p) \<or>
      p = ha_actor a \<and> fst x = i \<and> 0 < n) \<and>
    (\<forall>p. \<forall>x\<in>set (street_intervals s' p). x \<in> set (street_intervals s p) \<or>
      p = ha_actor a \<and> fst x = i \<and> 0 < n) \<and>
    returns s' = returns s \<and> ledger_actions s' = ledger_actions s \<and>
    current_street s' = current_street s"
  using assms
  by (cases rule: apply_kind_cases)
    (auto dest!: apply_InrD simp: mark_acted_def commit_effect_def all_in_bet_def split: if_splits)

lemma street_return_source:
  "street_return ids contrib intervals = Some (p, amount, src) \<Longrightarrow>
   set src \<subseteq> fst ` set (intervals p)"
  by (auto simp: street_return_def Let_def split: if_splits)

lemma close_street_logged:
  assumes c: "close_street env s = Inr s'" and inv: "logged_inv s"
  shows "logged_inv s'"
  using c
proof (cases rule: close_street_cases)
  case (2 st p amount src)
  with inv street_return_source [OF 2(2)] show ?thesis
    by (fastforce simp: logged_inv_def return_effect_def)
qed (use inv in simp)

lemma begin_street_logged: "logged_inv s \<Longrightarrow> logged_inv (begin_street env st order s)"
  by (simp add: logged_inv_def begin_street_def)

lemma start_street_logged:
  "start_street env st s = Inr s' \<Longrightarrow> logged_inv s \<Longrightarrow> logged_inv s'"
  by (erule start_street_cases) (auto intro: begin_street_logged close_street_logged)

lemma ledger_apply_logged:
  assumes ap: "ledger_apply env s (i, a) = Inr s'" and inv: "logged_inv s"
  shows "logged_inv s'"
  using ap
proof (cases rule: ledger_apply_cases)
  case (1 s1 n s2 fr la)
  have inv1: "logged_inv s1"
    using 1(1) inv start_street_logged by (auto split: if_splits)
  have st: "current_street s1 = Some (ha_street a)"
    using 1(1) by (auto split: if_splits elim!: start_street_cases simp: begin_street_def)
  note K = apply_kind_intervals [OF 1(6)]
  have new: "logged (ledger_actions s1 @ [la]) None (ha_actor a) i"
    "logged (ledger_actions s1 @ [la]) (current_street s1) (ha_actor a) i" if "0 < n"
    using that 1(8-11) st by (auto simp: logged_def)
  from inv1 K new show ?thesis
    unfolding logged_inv_def 1(7) by (simp, metis logged_mono)
qed

lemma ledger_run_logged:
  "foldE (ledger_apply env) s acts = Inr s' \<Longrightarrow> logged_inv s \<Longrightarrow> logged_inv s'"
  using foldE_invariant [where P = logged_inv and f = "ledger_apply env"] ledger_apply_logged
  by (metis surj_pair)

lemma layer_evidence_logged:
  assumes "logged_inv s" and "i \<in> set (layer_evidence (action_intervals s) ps lower upper)"
  shows "\<exists>p\<in>set ps. logged (ledger_actions s) None p i"
  using assms by (fastforce simp: layer_evidence_def logged_inv_def)

lemma layer_evidence_complete:
  assumes "logged_inv s" "trace_inv s" "p \<in> set ps" "upper \<le> gross s p" "0 \<le> lower" "lower < upper"
  shows "\<exists>i\<in>set (layer_evidence (action_intervals s) ps lower upper). logged (ledger_actions s) None p i"
proof -
  have "covers (action_intervals s p) (gross s p)" using assms(2) by (simp add: trace_inv_def)
  with assms(4-6) obtain i lo hi where i: "(i, lo, hi) \<in> set (action_intervals s p)"
    "lo \<le> lower" "lower < hi" by (fastforce simp: covers_def)
  with assms(3,6) have "i \<in> set (layer_evidence (action_intervals s) ps lower upper)"
    by (force simp: layer_evidence_def)
  moreover have "logged (ledger_actions s) None p i"
    using assms(1) i(1) by (fastforce simp: logged_inv_def)
  ultimately show ?thesis by blast
qed

end
