(* ===== verification/HandPotSample.thy ===== *)
theory HandPotSample
  imports HandPotOracle
begin

text \<open>
  One concrete hand on which the witnesses of the ledger's properties run: three players
  with stacks 10, 20 and 30, chip unit \<open>0.5\<close>, blinds 1 and 2.  The short stack is all in
  before the flop, the two others are all in on the flop for 10 and 20, so the hand has a
  main pot of 60 units, a side pot of 40 and an uncalled return of 20.
\<close>

definition sample_action :: "street \<Rightarrow> string \<Rightarrow> action_kind \<Rightarrow> rat \<Rightarrow> rat option \<Rightarrow> hand_action" where
  "sample_action st p k n to = \<lparr>ha_street = st, ha_actor = p, ha_action = k, ha_amount = n,
     ha_to_amount = to, ha_pot_before = None, ha_pot_after = None\<rparr>"

definition sample_hand :: canonical_hand where
  "sample_hand = \<lparr>h_game_type = NLHE, h_format = Cash, h_table_size = 3, h_small_blind = 1,
     h_big_blind = 2, h_ante = 0, h_rake = Some 0,
     h_players = [\<lparr>ps_player_id = ''A'', ps_position = ''SB'', ps_starting_stack = 10\<rparr>,
       \<lparr>ps_player_id = ''B'', ps_position = ''BB'', ps_starting_stack = 20\<rparr>,
       \<lparr>ps_player_id = ''C'', ps_position = ''BTN'', ps_starting_stack = 30\<rparr>],
     h_hero_player_id = Some ''C'', h_hero_cards = [''As'', ''Kd''], h_board = [''2c'', ''7h'', ''Tc''],
     h_actions =
      [sample_action Preflop ''A'' Post_blind 1 None, sample_action Preflop ''B'' Post_blind 2 None,
       sample_action Preflop ''C'' Raise 6 (Some 6), sample_action Preflop ''A'' All_in 9 (Some 10),
       sample_action Preflop ''B'' Call 8 None, sample_action Preflop ''C'' Call 4 (Some 10),
       sample_action Flop ''B'' All_in 10 None, sample_action Flop ''C'' All_in 20 None],
     h_tournament = None\<rparr>"

definition sample_profile :: hand_rule_profile where
  "sample_profile = \<lparr>rp_schema_version = ''1.0.0'', rp_profile_id = ''generic_nlhe_cash_no_rake_v1'',
     rp_profile_version = ''1.0.0'', rp_supported_site = ''none'', rp_chip_unit = ''0.5''\<rparr>"

lemma sample_hand_ok: "canonical_hand_ok sample_hand"
  by (simp add: canonical_hand_ok_def sample_hand_def player_stack_ok_def hand_action_ok_def
      sample_action_def validate_game_context_def)

lemma sample_chip_unit: "validate_chip_unit ''0.5'' = Inr (1/2)"
proof -
  have "fullmatch CHIP_UNIT_PATTERN ''0.5''" by code_simp
  then show ?thesis by (simp add: validate_chip_unit_def parse_decimal_def parse_nat_def)
qed

lemma sample_ndigits: "ndigits 4611686018427387903 = 19" by (simp add: ndigits.simps)

lemma sample_floor: "\<lfloor>9223372036854775807 / 2 :: rat\<rfloor> = 4611686018427387903" by (simp add: floor_eq_iff)

lemma sample_limit: "dec_mul (1 / 2) (of_int MAX_LEDGER_UNITS) = 9223372036854775807 / 2"
proof -
  have a: "dec_adjusted (9223372036854775807 / 2) = 18"
    by (simp add: dec_adjusted_def sample_floor sample_ndigits)
  have "dec_round (9223372036854775807 / 2) = 9223372036854775807 / 2"
    using round_half_even_of_int [of "4611686018427387903500000000"] 
    by (simp add: dec_round_def a dec_prec_def pow10_def)
  then show ?thesis by (simp add: dec_mul_def MAX_LEDGER_UNITS_def)
qed

lemma sample_units: "0 \<le> n \<Longrightarrow> n \<le> 1000 \<Longrightarrow> decimal_units (of_int n) (1 / 2) = Inr (2 * n)"
proof -
  assume n: "0 \<le> n" "n \<le> 1000"
  have "dec_div (of_int n) (1 / 2) = of_int (2 * n)"
    using dec_round_of_int [of "2 * n"] n by (simp add: dec_div_def mult.commute)
  moreover have "(of_int n :: rat) \<le> 9223372036854775807 / 2" 
  proof -
    have "(of_int n :: rat) \<le> of_int 1000" using n by (simp only: of_int_le_iff)
    then show ?thesis by simp
  qed
  ultimately show ?thesis
    using n by (simp add: decimal_units_def sample_limit is_integral_def flip: of_int_mult)
qed

lemmas sample_units_num = sample_units [of "numeral n" for n, simplified]
  sample_units [of 0, simplified] sample_units [of 1, simplified]

lemma sample_profile_ok: "validate_profile sample_profile = Inr (1 / 2)"
  by (simp add: validate_profile_def sample_profile_def sample_chip_unit)

lemma sample_cards: "normalize_cards [''As'', ''Kd'', ''2c'', ''7h'', ''Tc''] True 
    = Inr [''As'', ''Kd'', ''2c'', ''7h'', ''Tc'']"
  by code_simp

lemma sample_profile_hand: "validate_profile_hand sample_hand (1 / 2) = Inr (2, 4, 0)"
  by (simp add: validate_profile_hand_def sample_hand_def sample_units_num sample_action_def MAX_ACTIONS_def sample_cards
    validate_blind_actions_def validate_ante_actions_def)

definition sample_env :: ledger_env where
  "sample_env = \<lparr>le_hand = sample_hand, le_unit = 1 / 2, le_big_blind = 4, le_player_ids = [''A'', ''B'', ''C''],
     le_starting = dict_of [''A'', ''B'', ''C''] [20, 40, 60], le_starting_total = 120\<rparr>"

lemma sample_init: "init_ledger sample_hand (1/2) 4 = Inr (sample_env, init_ledger_state
    [''A'', ''B'', ''C''] (dict_of [''A'', ''B'', ''C''] [20, 40, 60]) 4)"
  by (simp add: init_ledger_def sample_hand_def sample_env_def sample_units_num
      checked_add_def MAX_LEDGER_UNITS_def dict_of_def Let_def)

lemmas apply_eval = ledger_apply_def start_street_def apply_on_street_def validate_declared_pot_def
  apply_kind_def apply_forced_def apply_check_fold_def apply_call_def apply_bet_def apply_raise_def apply_all_in_def
  append_action_def commit_units_def checked_add_def MAX_LEDGER_UNITS_def street_value_def mark_acted_def
  ledger_action_ok_def ledger_unit_ok_def positive_ledger_unit_ok_def MAX_ACTIONS_def raise_rights_def
  validate_to_amount_def close_street_def check_round_complete_def max_default_def return_uncalled_def
  uncalled_return_ok_def

lemmas finish_eval = ledger_finish_def positive_levels_def canonical_players_def layer_evidence_def
  pot_layer_ok_def bounds_and_amount_are_consistent_def hand_pot_output_ok_def
  accounting_identities_hold_def ledger_output_def sorted_items_def player_eligibility_ok_def

definition sample_result :: "hand_pot_output \<Rightarrow> bool" where
  "sample_result r \<longleftrightarrow>
     map pl_amount_units (ho_pot_layers r) = [60, 40] \<and>
     map pl_eligible_players (ho_pot_layers r) = [[''A'', ''B'', ''C''], [''B'', ''C'']] \<and>
     map ur_amount_units (ho_uncalled_returns r) = [20] \<and> ho_chip_unit r = 1 / 2 \<and>
     ho_net_contributions_units r = [(''A'', 20), (''B'', 40), (''C'', 40)] \<and>
     ho_gross_contributions_units r = [(''A'', 20), (''B'', 40), (''C'', 60)] \<and>
     ho_remaining_stacks_units r = [(''A'', 0), (''B'', 0), (''C'', 20)]"

definition sample_start :: ledger_state where
  "sample_start = init_ledger_state [''A'', ''B'', ''C''] (dict_of [''A'', ''B'', ''C''] [20, 40, 60]) 4"

lemma sample_run:
  "\<exists>s. foldE (ledger_apply sample_env) sample_start (enumerate 0 (h_actions sample_hand)) = Inr s \<and>
     (\<exists>r. ledger_finish sample_env s = Inr r \<and> sample_result r)"
  by (simp add: sample_hand_def init_ledger_state_def sample_env_def sample_action_def
      sample_units_num dict_of_def Let_def apply_eval finish_eval sample_start_def sample_result_def)

lemma sample_started: "bindE (validate_profile sample_profile) (\<lambda>unit.
    bindE (validate_profile_hand sample_hand unit) (\<lambda>(sb, bb, ante). init_ledger sample_hand unit bb))
  = Inr (sample_env, sample_start)"
  by (simp add: sample_profile_ok sample_profile_hand sample_init sample_start_def)

lemma sample_build: "\<exists>r. build_ledger sample_hand sample_profile = Inr r \<and> sample_result r"
proof -
  have "build_ledger sample_hand sample_profile = bindE (foldE (ledger_apply sample_env) sample_start
      (enumerate 0 (h_actions sample_hand))) (ledger_finish sample_env)"
    by (simp add: build_ledger_def sample_profile_ok sample_profile_hand sample_init sample_start_def)
  with sample_run show ?thesis by auto
qed

end
