(* ===== verification/HandPotProps.thy ===== *)
theory HandPotProps
  imports HandPotGuards HandPotSample
begin

text \<open>
  What the hand and pot ledger guarantees: the facts about a finished hand, the proof that
  the independent oracle can never contradict the builder, and the properties of
  \<open>tools/hand_pot_ledger.py\<close> with their witnesses on a concrete hand.
\<close>

section \<open>A finished hand\<close>

lemma ledger_finish_InrD:
  assumes "ledger_finish env s = Inr r"
  obtains s1 layers where "close_street env s = Inr s1" "0 < net_total s1"
    "build_layers env s1 0 0 (positive_levels (le_player_ids env) (net s1)) = Inr layers"
    "r = ledger_output env s1 layers"
  using assms by (auto simp: ledger_finish_def bindE_Inr split: if_splits)

definition finished ::
    "canonical_hand \<Rightarrow> hand_rule_profile \<Rightarrow> ledger_env \<Rightarrow> ledger_state \<Rightarrow> pot_layer list \<Rightarrow> bool" where
  "finished h profile env s1 layers \<longleftrightarrow>
     (\<exists>unit s0 s. started h profile unit env s0 \<and>
        foldE (ledger_apply env) s0 (enumerate 0 (h_actions h)) = Inr s \<and>
        close_street env s = Inr s1) \<and> 0 < net_total s1 \<and>
     build_layers env s1 0 0 (positive_levels (le_player_ids env) (net s1)) = Inr layers"

lemma build_ledger_finished:
  assumes "build_ledger h profile = Inr r"
  obtains env s1 layers where "finished h profile env s1 layers" "r = ledger_output env s1 layers"
  using assms unfolding finished_def by (metis build_ledger_InrD ledger_finish_InrD)

lemma finishedD:
  assumes h: "canonical_hand_ok h" and f: "finished h profile env s1 layers"
  shows "env_ok env" "ledger_inv env s1" "le_player_ids env = map ps_player_id (h_players h)"
    "build_layers env s1 0 0 (positive_levels (le_player_ids env) (net s1)) = Inr layers"
    "0 < net_total s1"
proof -
  from f obtain unit s0 s where st: "started h profile unit env s0"
    and run: "foldE (ledger_apply env) s0 (enumerate 0 (h_actions h)) = Inr s"
    and c: "close_street env s = Inr s1" by (auto simp: finished_def)
  note S = startedD [OF h st]
  have "ledger_inv env s" by (rule ledger_run_inv [OF S(1,2,3) run])
  from close_street_inv [OF c this S(1)] S(1,6) f
  show "env_ok env" "ledger_inv env s1" "le_player_ids env = map ps_player_id (h_players h)"
    "build_layers env s1 0 0 (positive_levels (le_player_ids env) (net s1)) = Inr layers"
    "0 < net_total s1" by (simp_all add: finished_def)
qed

lemma sorted_items_iff: "(p, v) \<in> set (sorted_items ids f) \<longleftrightarrow> p \<in> set ids \<and> v = f p"
  by (auto simp: sorted_items_def)

section \<open>The oracle on the same hand\<close>

lemma sim_init: "sim (init_ledger_state ids starting bb) init_oracle"
  by (simp add: sim_def init_ledger_state_def init_oracle_def)

lemma oracle_layers_cong:
  "\<forall>p\<in>set ids. f p = g p \<Longrightarrow> oracle_layers ids t f lower levels = oracle_layers ids t g lower levels"
proof (induction levels arbitrary: lower)
  case (Cons u us)
  then have "filter (\<lambda>p. u \<le> f p) ids = filter (\<lambda>p. u \<le> g p) ids"
    by (intro filter_cong) auto
  with Cons show ?case by simp
qed simp

lemma positive_levels_cong:
  "\<forall>p\<in>set ids. f p = g p \<Longrightarrow> positive_levels ids f = positive_levels ids g"
  unfolding positive_levels_def by (metis (mono_tags, lifting) map_eq_conv)

lemma oracle_layers_eq:
  assumes "sim s t" "build_layers env s k lower levels = Inr layers"
  shows "map actual_layer layers = oracle_layers (le_player_ids env) t (net s) lower levels"
  using assms(2)
proof (induction levels arbitrary: k lower layers)
  case (Cons u us)
  from Cons.prems obtain l rest where l: "layers = l # rest"
    "build_layers env s (Suc k) u us = Inr rest"
    "pl_lower_bound_units l = lower" "pl_upper_bound_units l = u"
    "pl_contributors l = canonical_players (filter (\<lambda>p. u \<le> net s p) (le_player_ids env))"
    "pl_eligible_players l = canonical_players (filter (\<lambda>p. folded_at s p = None) (pl_contributors l))"
    "pl_evidence_action_indexes l = layer_evidence (action_intervals s) (pl_contributors l) lower u"
    "pl_amount_units l = (u - lower) * int (length (pl_contributors l))"
    by (rule build_layers_ConsD)
  with Cons.IH [OF l(2)] assms(1) show ?case by (simp add: actual_layer_def sim_def Let_def)
qed simp

lemma dict_eq_sorted:
  "\<forall>p\<in>set ids. f p = g p \<Longrightarrow> dict_eq (sorted_items ids f) ids g"
  by (auto simp: dict_eq_def sorted_items_def)

lemma mapE_agree:
  "mapE (\<lambda>p. decimal_units (f p) u) xs = Inr ms \<Longrightarrow>
   mapE (\<lambda>p. fraction_units (f p) u) xs = Inr ns \<Longrightarrow> ms = ns"
  by (induction xs arbitrary: ms ns) (auto simp: bindE_Inr dest: decimal_fraction_agree)

lemma oracle_expected_agrees:
  assumes h: "canonical_hand_ok h" and f: "finished h profile env s1 layers"
    and o: "oracle_expected h profile = Inr e"
  shows "\<forall>p\<in>set (le_player_ids env). or_gross e p = gross s1 p \<and> or_net e p = net s1 p \<and>
      or_remaining e p = remaining s1 p \<and> or_starting e p = le_starting env p"
    and "or_returns e = map actual_return (returns s1)"
    and "or_layers e = map actual_layer layers" and "or_final_pot e = net_total s1"
    and "or_gross_total e = gross_total s1" and "or_returned_total e = returned_total s1"
proof -
  let ?ids = "le_player_ids env"
  from f obtain unit s0 s where st: "started h profile unit env s0"
    and run: "foldE (ledger_apply env) s0 (enumerate 0 (h_actions h)) = Inr s"
    and c: "close_street env s = Inr s1" by (auto simp: finished_def)
  note S = startedD [OF h st]
  note F = finishedD [OF h f]
  have unit: "parse_decimal (rp_chip_unit profile) = unit"
    using st validate_profile_InrD by (auto simp: started_def)
  from o unit S(6) obtain units t0 t where
    u: "mapE (\<lambda>p. fraction_units (ps_starting_stack p) unit) (h_players h) = Inr units"
    and r0: "foldE (oracle_step ?ids unit) init_oracle (enumerate 0 (h_actions h)) = Inr t0"
    and c0: "oracle_close_street ?ids t0 = Inr t"
    and e: "e = \<lparr>or_starting = dict_of ?ids units, or_gross = o_gross t,
      or_net = (\<lambda>p. o_gross t p - returned_by_player (o_returns t) p),
      or_remaining = (\<lambda>p. dict_of ?ids units p - o_gross t p + returned_by_player (o_returns t) p),
      or_returns = o_returns t,
      or_layers = oracle_layers ?ids t (\<lambda>p. o_gross t p - returned_by_player (o_returns t) p) 0
        (positive_levels ?ids (\<lambda>p. o_gross t p - returned_by_player (o_returns t) p)),
      or_final_pot = (\<Sum>p\<leftarrow>?ids. o_gross t p - returned_by_player (o_returns t) p),
      or_gross_total = (\<Sum>p\<leftarrow>?ids. o_gross t p),
      or_returned_total = (\<Sum>(st, q, amount, src)\<leftarrow>o_returns t. amount)\<rparr>"
    by (auto simp: oracle_expected_def bindE_Inr Let_def)
  from st obtain bb dunits where
    "mapE (\<lambda>p. decimal_units (ps_starting_stack p) unit) (h_players h) = Inr dunits"
    "le_starting env = dict_of ?ids dunits" "le_unit env = unit"
    by (auto simp: started_def init_ledger_def bindE_Inr Let_def split: if_splits)
  with mapE_agree [OF _ u] have start: "dict_of ?ids units = le_starting env" and un: "le_unit env = unit"
    by auto
  have "sim s0 init_oracle" using S(7) sim_init by auto
  from sim_run [OF run this] r0 un have "sim s t0" by auto
  then have m: "sim s1 t" by (rule sim_close_street [OF c _ c0])
  have a: "acct env s1" using F(2) by (simp add: ledger_inv_def)
  have net: "\<forall>p\<in>set ?ids. o_gross t p - returned_by_player (o_returns t) p = net s1 p"
    using a m by (auto simp: acct_def player_acct_def sim_def returned_by_def)
  have rem: "\<forall>p\<in>set ?ids. dict_of ?ids units p - o_gross t p + returned_by_player (o_returns t) p
      = remaining s1 p"
    using a m start by (fastforce simp: acct_def player_acct_def sim_def returned_by_def)
  show "\<forall>p\<in>set ?ids. or_gross e p = gross s1 p \<and> or_net e p = net s1 p \<and>
      or_remaining e p = remaining s1 p \<and> or_starting e p = le_starting env p"
    using net rem start m by (auto simp: e sim_def)
  show "or_returns e = map actual_return (returns s1)" using m by (simp add: e sim_def)
  show "or_layers e = map actual_layer layers"
    using oracle_layers_eq [OF m F(4)] oracle_layers_cong [OF net] positive_levels_cong [OF net]
    by (simp add: e)
  have "(\<Sum>p\<leftarrow>?ids. o_gross t p - returned_by_player (o_returns t) p) = (\<Sum>p\<leftarrow>?ids. net s1 p)"
    using net by (intro arg_cong [where f = sum_list] map_cong) auto
  with a show "or_final_pot e = net_total s1" by (simp add: e acct_def)
  show "or_gross_total e = gross_total s1" using a m by (simp add: e acct_def sim_def)
  have "(\<lambda>x. case actual_return x of (st, q, amount, src) \<Rightarrow> amount) = ur_amount_units"
    by (simp add: fun_eq_iff actual_return_def)
  then show "or_returned_total e = returned_total s1"
    using a m by (simp add: e acct_def sim_def comp_def)
qed

text \<open>The oracle's own conversions are its only errors.\<close>

definition oracle_conversion_error :: "ledger_error \<Rightarrow> bool" where
  "oracle_conversion_error e \<longleftrightarrow>
     e = Ledger ''oracle-non-integral-chip-unit'' \<or> e = Ledger ''oracle-ledger-unit-limit-exceeded''"

lemma fraction_units_error: "fraction_units v u = Inl e \<Longrightarrow> oracle_conversion_error e"
  by (auto simp: fraction_units_def oracle_conversion_error_def Let_def split: if_splits)

lemma foldE_simulation_error:
  assumes step: "\<And>s t x s'. R s t \<Longrightarrow> f s x = Inr s' \<Longrightarrow> (\<exists>t'. g t x = Inr t' \<and> R s' t') \<or> (\<exists>e. g t x = Inl e \<and> E e)"
    and "R s t" and "foldE f s xs = Inr s'" and "foldE g t xs = Inl e"
  shows "E e"
  using assms(2-)
proof (induction xs arbitrary: s t)
  case (Cons x xs)
  then obtain s1 where "f s x = Inr s1" "foldE f s1 xs = Inr s'" by (auto simp: bindE_Inr)
  with step [OF Cons.prems(1) this(1)] Cons show ?case by (auto simp: bindE_Inl)
qed simp

lemma oracle_close_street_total:
  "o_current_street t \<noteq> Some Showdown \<Longrightarrow> \<exists>t'. oracle_close_street ids t = Inr t'"
  by (auto simp: oracle_close_street_eq street_value_def split: option.splits)

lemma oracle_step_outcome:
  assumes "sim s t" "ledger_inv env s" "env_ok env" "big_blind_ok env"
    and ap: "ledger_apply env s x = Inr s'"
  shows "(\<exists>t'. oracle_step (le_player_ids env) (le_unit env) t x = Inr t' \<and> sim s' t' \<and> ledger_inv env s')
    \<or> (\<exists>e. oracle_step (le_player_ids env) (le_unit env) t x = Inl e \<and> oracle_conversion_error e)"
proof -
  obtain i a where x: "x = (i, a)" by (cases x)
  have live: "o_current_street t \<noteq> Some Showdown"
    using assms(1,2) by (auto simp: sim_def ledger_inv_def who_inv_def)
  show ?thesis
  proof (cases "oracle_step (le_player_ids env) (le_unit env) t x")
    case (Inl e)
    from Inl oracle_close_street_total [OF live, of "le_player_ids env"] fraction_units_error
    have "oracle_conversion_error e"
      by (auto simp: oracle_step_def x bindE_Inl Let_def split: if_splits)
    with Inl show ?thesis by blast
  next
    case (Inr t')
    from sim_step [OF ap [unfolded x] assms(1) Inr [unfolded x]]
      ledger_inv_apply [OF assms(3,4,2) ap [unfolded x]] Inr
    show ?thesis by simp
  qed
qed

lemma oracle_expected_error:
  assumes h: "canonical_hand_ok h" and f: "finished h profile env s1 layers"
    and o: "oracle_expected h profile = Inl e"
  shows "oracle_conversion_error e"
proof -
  let ?ids = "le_player_ids env"
  from f obtain unit s0 s where st: "started h profile unit env s0"
    and run: "foldE (ledger_apply env) s0 (enumerate 0 (h_actions h)) = Inr s"
    and c: "close_street env s = Inr s1" by (auto simp: finished_def)
  note S = startedD [OF h st]
  have unit: "parse_decimal (rp_chip_unit profile) = le_unit env"
    using st validate_profile_InrD S(5) by (auto simp: started_def)
  have s0: "sim s0 init_oracle \<and> ledger_inv env s0" using S(3,7) sim_init by auto
  have step: "(\<exists>t'. oracle_step ?ids (le_unit env) t x = Inr t' \<and> sim s' t' \<and> ledger_inv env s') \<or>
      (\<exists>e. oracle_step ?ids (le_unit env) t x = Inl e \<and> oracle_conversion_error e)"
    if "sim s t \<and> ledger_inv env s" "ledger_apply env s x = Inr s'" for s t x s'
    using oracle_step_outcome [OF _ _ S(1,2) that(2)] that(1) by blast
  have run_error: "oracle_conversion_error e'"
    if "foldE (oracle_step ?ids (le_unit env)) init_oracle (enumerate 0 (h_actions h)) = Inl e'" for e'
    using foldE_simulation_error [where R = "\<lambda>s t. sim s t \<and> ledger_inv env s", OF step s0 run that] .
  have close_ok: "\<exists>t'. oracle_close_street ?ids t = Inr t'"
    if "foldE (oracle_step ?ids (le_unit env)) init_oracle (enumerate 0 (h_actions h)) = Inr t" for t
  proof -
    from sim_run [OF run _ that] s0 have "sim s t" by simp
    moreover have "ledger_inv env s" by (rule ledger_run_inv [OF S(1,2,3) run])
    ultimately show ?thesis
      by (intro oracle_close_street_total) (auto simp: sim_def ledger_inv_def who_inv_def)
  qed
  have map_error: "mapE (\<lambda>p. fraction_units (ps_starting_stack p) u) ps = Inl e' \<Longrightarrow>
      oracle_conversion_error e'" for u ps e'
    by (induction ps) (auto simp: bindE_Inl dest: fraction_units_error)
  from o show ?thesis
    unfolding oracle_expected_def Let_def unit S(6) [symmetric]
    using map_error run_error close_ok by (fastforce simp: bindE_Inl)
qed

section \<open>Layers as a partition of the contributions\<close>

fun layers_nested :: "int \<Rightarrow> pot_layer list \<Rightarrow> bool" where
  \<comment> \<open>consecutive bounds, shrinking contributor sets\<close>
  "layers_nested lower [] = True"
| "layers_nested lower (l # ls) \<longleftrightarrow>
     pl_lower_bound_units l = lower \<and> lower < pl_upper_bound_units l \<and>
     list_all (\<lambda>l'. set (pl_contributors l') \<subset> set (pl_contributors l)) ls \<and>
     layers_nested (pl_upper_bound_units l) ls"

lemma layer_contributors:
  assumes "build_layers env s k lower levels = Inr layers"
  shows "list_all2 (\<lambda>u l. pl_upper_bound_units l = u \<and>
     set (pl_contributors l) = {p \<in> set (le_player_ids env). u \<le> net s p} \<and>
     set (pl_eligible_players l) = {p \<in> set (pl_contributors l). folded_at s p = None} \<and>
     pl_eligible_players l \<noteq> []) levels layers"
  using assms
proof (induction levels arbitrary: k lower layers)
  case (Cons u us)
  from Cons.prems obtain l rest where l: "layers = l # rest"
    "build_layers env s (Suc k) u us = Inr rest" "pl_upper_bound_units l = u"
    "pl_contributors l = canonical_players (filter (\<lambda>p. u \<le> net s p) (le_player_ids env))"
    "pl_eligible_players l = canonical_players (filter (\<lambda>p. folded_at s p = None) (pl_contributors l))"
    "pl_eligible_players l \<noteq> []"
    by (rule build_layers_ConsD)
  with Cons.IH [OF l(2)] show ?case by auto
qed simp

lemma list_all2_rightD: "list_all2 P xs ys \<Longrightarrow> y \<in> set ys \<Longrightarrow> \<exists>x\<in>set xs. P x y"
  by (induction rule: list_all2_induct) auto

lemma build_layers_nested:
  assumes "build_layers env s k lower levels = Inr layers"
    and "levels_from (le_player_ids env) (net s) lower levels"
  shows "layers_nested lower layers"
  using assms
proof (induction levels arbitrary: k lower layers)
  case (Cons u us)
  from Cons.prems(1) obtain l rest where l: "layers = l # rest"
    "build_layers env s (Suc k) u us = Inr rest" "pl_lower_bound_units l = lower"
    "pl_upper_bound_units l = u"
    "pl_contributors l = canonical_players (filter (\<lambda>p. u \<le> net s p) (le_player_ids env))"
    by (rule build_layers_ConsD)
  note lv = levels_from_Cons [OF Cons.prems(2)]
  have "set (pl_contributors l') \<subset> set (pl_contributors l)" if l': "l' \<in> set rest" for l'
  proof -
    from list_all2_rightD [OF layer_contributors [OF l(2)] l'] obtain v where v: "v \<in> set us"
      "set (pl_contributors l') = {p \<in> set (le_player_ids env). v \<le> net s p}"
      by blast
    from Cons.prems(2) v(1) have "u < v" by (auto simp: levels_from_def order_less_le)
    moreover from Cons.prems(2) have "u \<in> {net s p | p. p \<in> set (le_player_ids env) \<and> lower < net s p}"
      by (auto simp: levels_from_def)
    ultimately show ?thesis using v(2) l(5) by force
  qed
  with Cons.IH [OF l(2)] l lv show ?case by (simp add: list_all_iff)
qed simp

section \<open>Evidence of a finished hand\<close>

lemma finished_evidence:
  assumes h: "canonical_hand_ok h" and f: "finished h profile env s1 layers"
  shows "logged_inv s1" "trace_inv s1" "live_top env s1"
    "\<forall>p\<in>set (le_player_ids env). net s1 p \<le> gross s1 p"
proof -
  from f obtain unit s0 s where st: "started h profile unit env s0"
    and run: "foldE (ledger_apply env) s0 (enumerate 0 (h_actions h)) = Inr s"
    and c: "close_street env s = Inr s1" by (auto simp: finished_def)
  note S = startedD [OF h st]
  have b: "betting env s" by (rule played_betting [OF h st run])
  then show "live_top env s1" using betting_finish [OF b S(1) c] by simp
  have "trace_inv s" using b by (simp add: betting_def play_inv_def)
  then show "trace_inv s1" by (simp add: close_street_trace [OF c])
  from S(7) have "logged_inv s0" by (auto simp: logged_inv_def init_ledger_state_def)
  with ledger_run_logged [OF run] close_street_logged [OF c] show "logged_inv s1" by blast
  show "\<forall>p\<in>set (le_player_ids env). net s1 p \<le> gross s1 p"
    using finishedD(2) [OF h f] by (auto simp: ledger_inv_def acct_def player_acct_def)
qed

lemma layer_level:
  assumes b: "build_layers env s k lower levels = Inr layers"
    and lv: "levels_from (le_player_ids env) (net s) lower levels" and l: "l \<in> set layers"
  shows "pl_upper_bound_units l \<in> net s ` set (le_player_ids env) \<and>
    lower \<le> pl_lower_bound_units l \<and> pl_lower_bound_units l < pl_upper_bound_units l \<and>
    pl_contributors l = canonical_players (filter (\<lambda>p. pl_upper_bound_units l \<le> net s p) (le_player_ids env)) \<and>
    pl_eligible_players l = canonical_players (filter (\<lambda>p. folded_at s p = None) (pl_contributors l)) \<and>
    pl_evidence_action_indexes l = layer_evidence (action_intervals s) (pl_contributors l)
      (pl_lower_bound_units l) (pl_upper_bound_units l)"
  using b lv l
proof (induction levels arbitrary: k lower layers)
  case (Cons u us)
  from Cons.prems(1) obtain l0 rest where l0: "layers = l0 # rest"
    "build_layers env s (Suc k) u us = Inr rest"
    "pl_lower_bound_units l0 = lower" "pl_upper_bound_units l0 = u"
    "pl_contributors l0 = canonical_players (filter (\<lambda>p. u \<le> net s p) (le_player_ids env))"
    "pl_eligible_players l0 = canonical_players (filter (\<lambda>p. folded_at s p = None) (pl_contributors l0))"
    "pl_evidence_action_indexes l0 = layer_evidence (action_intervals s) (pl_contributors l0) lower u"
    by (rule build_layers_ConsD)
  note lv = levels_from_Cons [OF Cons.prems(2)]
  from Cons.prems(2) have "u \<in> net s ` set (le_player_ids env)" by (auto simp: levels_from_def)
  with l0 lv Cons.IH [OF l0(2)] Cons.prems(3) show ?case by (cases "l = l0") fastforce+
qed simp

lemma layer_has_top:
  assumes "build_layers env s k lower levels = Inr layers"
    and "levels_from (le_player_ids env) (net s) lower levels" and "l \<in> set layers"
    and q: "q \<in> set (le_player_ids env)" "folded_at s q = None"
      "\<forall>p\<in>set (le_player_ids env). net s p \<le> net s q"
  shows "q \<in> set (pl_eligible_players l)"
  using layer_level [OF assms(1-3)] q by auto

lemma layer_evidence_justified:
  assumes "build_layers env s k 0 levels = Inr layers"
    and "levels_from (le_player_ids env) (net s) 0 levels" and "l \<in> set layers"
    and inv: "logged_inv s" "trace_inv s" and gross: "\<forall>p\<in>set (le_player_ids env). net s p \<le> gross s p"
  shows "(\<forall>i\<in>set (pl_evidence_action_indexes l). \<exists>p\<in>set (pl_contributors l).
         logged (ledger_actions s) None p i) \<and>
      (\<forall>p\<in>set (pl_contributors l). \<exists>i\<in>set (pl_evidence_action_indexes l).
         logged (ledger_actions s) None p i)"
proof -
  note L = layer_level [OF assms(1-3)]
  have "\<exists>i\<in>set (pl_evidence_action_indexes l). logged (ledger_actions s) None p i"
    if p: "p \<in> set (pl_contributors l)" for p
  proof -
    from p L have "p \<in> set (le_player_ids env)" "pl_upper_bound_units l \<le> net s p" by auto
    with gross have "pl_upper_bound_units l \<le> gross s p" by fastforce
    with L layer_evidence_complete [OF inv p, of "pl_upper_bound_units l" "pl_lower_bound_units l"]
    show ?thesis by simp
  qed
  with layer_evidence_logged [OF inv(1)] L show ?thesis by metis
qed

section \<open>Properties\<close>

text \<open>C1.  The independent oracle never contradicts the builder: whatever hand the builder
  accepts, \<open>_verify_oracle\<close> confirms its result, or stops in its own exact conversion of an
  amount; none of the nine mismatch errors can occur.\<close>

theorem oracle_confirms_builder:
  assumes h: "canonical_hand_ok h" and b: "build_ledger h profile = Inr r"
  shows "verify_oracle h profile r = Inr () \<or>
    (\<exists>e. verify_oracle h profile r = Inl e \<and> oracle_conversion_error e)"
proof -
  from b obtain env s1 layers where f: "finished h profile env s1 layers"
    and r: "r = ledger_output env s1 layers" by (rule build_ledger_finished)
  note F = finishedD [OF h f]
  show ?thesis
  proof (cases "oracle_expected h profile")
    case (Inl e)
    with oracle_expected_error [OF h f] show ?thesis by (simp add: verify_oracle_def)
  next
    case (Inr e)
    note agree = oracle_expected_agrees [OF h f Inr]
    let ?ids = "le_player_ids env"
    have "(\<Sum>p\<leftarrow>?ids. or_starting e p) = (\<Sum>p\<leftarrow>?ids. le_starting env p)"
      "(\<Sum>p\<leftarrow>?ids. or_remaining e p) = (\<Sum>p\<leftarrow>?ids. remaining s1 p)"
      using agree(1) by (auto intro!: arg_cong [where f = sum_list] map_cong)
    moreover have "(\<Sum>p\<leftarrow>?ids. le_starting env p) = (\<Sum>p\<leftarrow>?ids. remaining s1 p) + net_total s1"
      using acct_conservation(2) [OF F(1)] F(1,2) by (simp add: ledger_inv_def env_ok_def)
    ultimately have "verify_oracle h profile r = Inr ()"
      using agree F(3) dict_eq_sorted [of ?ids]
      by (simp add: verify_oracle_def Inr r ledger_output_def Let_def)
    then show ?thesis ..
  qed
qed

lemma oracle_confirms_builder_witness:
  "\<exists>r. build_ledger sample_hand sample_profile = Inr r \<and>
     (verify_oracle sample_hand sample_profile r = Inr () \<or>
      (\<exists>e. verify_oracle sample_hand sample_profile r = Inl e \<and> oracle_conversion_error e))"
proof -
  from sample_build obtain r where "build_ledger sample_hand sample_profile = Inr r" by blast
  with oracle_confirms_builder [OF sample_hand_ok this] show ?thesis by blast
qed

text \<open>C2.  No hand makes the builder fail with one of its own consistency guards.  Whatever
  canonical hand is given, \<open>build_ledger\<close> never stops with a pydantic error of an output model
  (action, return, pot layer, player eligibility, whole output) and never with one of the codes
  \<open>negative-outstanding-bet\<close>, \<open>internal-street-state-invalid\<close>, \<open>ambiguous-uncalled-return\<close>,
  \<open>ledger-actions-required\<close>, \<open>positive-final-pot-required\<close>, \<open>gross-net-return-conservation-failed\<close>,
  \<open>stack-pot-conservation-failed\<close>, \<open>pot-layer-has-no-eligible-player\<close>,
  \<open>pot-layer-limit-exceeded\<close> and \<open>pot-layer-evidence-missing\<close>.  The other codes, the overflow
  check of \<open>_checked_add\<close> among them, report the hand itself and are not covered.\<close>

theorem build_ledger_no_internal_error:
  assumes h: "canonical_hand_ok h" and e: "build_ledger h profile = Inl e"
  shows "\<not> internal e"
  using quiet_build_ledger [OF h, of profile] e by (simp add: quiet_def)

lemma build_ledger_no_internal_error_witness:
  "build_ledger (sample_hand\<lparr>h_actions := []\<rparr>) sample_profile
     = Inl (Ledger ''unsupported-blind-or-straddle-structure'') \<and>
   \<not> internal (Ledger ''unsupported-blind-or-straddle-structure'')"
proof -
  let ?h = "sample_hand\<lparr>h_actions := []\<rparr>"
  have ok: "canonical_hand_ok ?h"
    using sample_hand_ok by (simp add: canonical_hand_ok_def validate_game_context_def)
  have e: "build_ledger ?h sample_profile = Inl (Ledger ''unsupported-blind-or-straddle-structure'')"
    by (simp add: build_ledger_def sample_profile_ok validate_profile_hand_def sample_hand_def
        sample_units_num MAX_ACTIONS_def sample_cards validate_blind_actions_def)
  from build_ledger_no_internal_error [OF ok e] e show ?thesis by blast
qed

text \<open>C3.  Every player's chips are accounted for: what a player started with is what is left
  plus what stayed in the pot, what was put in is what stayed in plus what was returned, and
  the player's shares of the pot layers add up to exactly what stayed in.\<close>

theorem every_player_accounted:
  assumes h: "canonical_hand_ok h" and b: "build_ledger h profile = Inr r"
    and p: "pl \<in> set (h_players h)" "p = ps_player_id pl"
    and n: "(p, n) \<in> set (ho_net_contributions_units r)"
    and g: "(p, g) \<in> set (ho_gross_contributions_units r)"
    and m: "(p, m) \<in> set (ho_remaining_stacks_units r)"
  shows "decimal_units (ps_starting_stack pl) (ho_chip_unit r) = Inr (m + n) \<and>
    0 \<le> m \<and> 0 \<le> n \<and> g = n + returned_by (ho_uncalled_returns r) p \<and>
    (\<Sum>l\<leftarrow>ho_pot_layers r. layer_share p l) = n"
proof -
  from b obtain env s1 layers where f: "finished h profile env s1 layers"
    and r: "r = ledger_output env s1 layers" by (rule build_ledger_finished)
  note F = finishedD [OF h f]
  from n g m have v: "n = net s1 p" "g = gross s1 p" "m = remaining s1 p"
    by (auto simp: r ledger_output_def Let_def sorted_items_iff)
  have ids: "p \<in> set (le_player_ids env)" using p F(3) by auto
  have a: "player_acct env s1 p" using F(2) ids by (simp add: ledger_inv_def acct_def)
  then have nn: "0 \<le> net s1 p" by (simp add: player_acct_def)
  have "(\<Sum>l\<leftarrow>layers. layer_share p l) = net s1 p"
    using layer_shares [OF F(4) levels_from_positive ids] nn by simp
  moreover have "decimal_units (ps_starting_stack pl) (le_unit env) = Inr (le_starting env p)"
  proof -
    from f obtain unit bb units where
      mp: "mapE (\<lambda>p. decimal_units (ps_starting_stack p) unit) (h_players h) = Inr units"
      and e: "le_starting env = dict_of (le_player_ids env) units" "le_unit env = unit"
      by (auto simp: finished_def started_def init_ledger_def bindE_Inr Let_def split: if_splits)
    from p(1) obtain k where k: "k < length (h_players h)" "pl = h_players h ! k"
      by (auto simp: in_set_conv_nth)
    from mp have len: "length (h_players h) = length units"
      and each: "decimal_units (ps_starting_stack pl) unit = Inr (units ! k)"
      using k by (auto simp: mapE_Inr list_all2_conv_all_nth)
    have "le_starting env (le_player_ids env ! k) = units ! k"
      unfolding e(1) using F(1,3) len k(1) by (intro dict_of_nth) (auto simp: env_ok_def)
    with each e(2) k p(2) F(3) show ?thesis by simp
  qed
  ultimately show ?thesis using a v by (auto simp: r ledger_output_def Let_def player_acct_def)
qed

lemma every_player_accounted_witness:
  "\<exists>r. build_ledger sample_hand sample_profile = Inr r \<and>
     decimal_units 30 (ho_chip_unit r) = Inr (20 + 40) \<and>
     returned_by (ho_uncalled_returns r) ''C'' = 20 \<and>
     (\<Sum>l\<leftarrow>ho_pot_layers r. layer_share ''C'' l) = 40"
proof -
  from sample_build obtain r where r: "build_ledger sample_hand sample_profile = Inr r"
    "sample_result r" by blast
  let ?c = "\<lparr>ps_player_id = ''C'', ps_position = ''BTN'', ps_starting_stack = 30\<rparr>"
  have "?c \<in> set (h_players sample_hand)" by (simp add: sample_hand_def)
  from every_player_accounted [OF sample_hand_ok r(1) this refl, of 40 60 20] r
  show ?thesis by (auto simp: sample_result_def)
qed

text \<open>C4.  The builder's invariant holds after any prefix of any hand: per player and in total
  the balances agree with the starting stacks and the returns, no one has more in on the
  street than the current bet, the live players are exactly those who have not folded, the
  minimum raise stays positive, and every unit count stays within 63 bits.\<close>

theorem ledger_invariant_reachable:
  assumes "canonical_hand_ok h" and "started h profile unit env s0"
    and "foldE (ledger_apply env) s0 acts = Inr s"
  shows "ledger_inv env s"
  using ledger_run_inv startedD(1,2,3) [OF assms(1,2)] assms(3) by blast

lemma ledger_invariant_reachable_witness:
  "\<exists>s. foldE (ledger_apply sample_env) sample_start (enumerate 0 (h_actions sample_hand)) = Inr s \<and>
     ledger_inv sample_env s"
proof -
  have "started sample_hand sample_profile (1 / 2) sample_env sample_start"
    by (simp add: started_def sample_profile_ok sample_profile_hand sample_init sample_start_def)
  from ledger_invariant_reachable [OF sample_hand_ok this] sample_run show ?thesis by blast
qed

text \<open>C5.  The pot layers partition the pot by contribution level: they start at zero, each
  begins where the one below ends, the contributors strictly shrink from layer to layer, their
  amounts add up to the final pot, and the eligible players of a layer are exactly its
  contributors who never folded, at least one in every layer.\<close>

theorem pot_layers_partition:
  assumes h: "canonical_hand_ok h" and b: "build_ledger h profile = Inr r"
  shows "layers_nested 0 (ho_pot_layers r) \<and>
    sum_list (map pl_amount_units (ho_pot_layers r)) = ho_final_pot_units r \<and>
    list_all (\<lambda>l. pl_eligible_players l \<noteq> [] \<and>
      set (pl_eligible_players l) = {p \<in> set (pl_contributors l). \<exists>e\<in>set (ho_player_eligibility r).
        pe_player_id e = p \<and> pe_folded_at_action_index e = None}) (ho_pot_layers r)"
proof -
  from b obtain env s1 layers where f: "finished h profile env s1 layers"
    and r: "r = ledger_output env s1 layers" by (rule build_ledger_finished)
  note F = finishedD [OF h f]
  have a: "acct env s1" using F(2) by (simp add: ledger_inv_def)
  have "sum_list (map pl_amount_units layers) = (\<Sum>p\<leftarrow>le_player_ids env. max 0 (net s1 p))"
    using layer_amounts [OF F(4) levels_from_positive] by simp
  also have "\<dots> = (\<Sum>p\<leftarrow>le_player_ids env. net s1 p)"
    using a by (intro arg_cong [where f = sum_list] map_cong) (auto simp: acct_def player_acct_def)
  finally have sum: "sum_list (map pl_amount_units layers) = net_total s1"
    using a by (simp add: acct_def)
  have "list_all (\<lambda>l. pl_eligible_players l \<noteq> [] \<and> set (pl_contributors l) \<subseteq> set (le_player_ids env) \<and>
      set (pl_eligible_players l) = {p \<in> set (pl_contributors l). folded_at s1 p = None}) layers"
    using layer_contributors [OF F(4)] by (auto simp: list_all2_conv_all_nth list_all_length)
  moreover have "(\<exists>e\<in>set (ho_player_eligibility r). pe_player_id e = p \<and>
      pe_folded_at_action_index e = None) \<longleftrightarrow> p \<in> set (le_player_ids env) \<and> folded_at s1 p = None" for p
    by (auto simp: r ledger_output_def Let_def)
  ultimately show ?thesis
    using build_layers_nested [OF F(4) levels_from_positive] sum
    by (auto simp: r ledger_output_def Let_def list_all_iff)
qed

lemma pot_layers_partition_witness:
  "\<exists>r. build_ledger sample_hand sample_profile = Inr r \<and> layers_nested 0 (ho_pot_layers r) \<and>
     map pl_amount_units (ho_pot_layers r) = [60, 40] \<and> ho_final_pot_units r = 100"
proof -
  from sample_build obtain r where r: "build_ledger sample_hand sample_profile = Inr r"
    "sample_result r" by blast
  from pot_layers_partition [OF sample_hand_ok r(1)] r show ?thesis
    by (auto simp: sample_result_def)
qed

text \<open>C6.  A chip amount that converts to ledger units converts to a value between zero and
  \<open>2^63 - 1\<close>, and where the oracle's exact conversion also succeeds both give the same units,
  although the first rounds its quotient to 28 digits.\<close>

theorem units_conversion_sound:
  assumes "0 < u" and "decimal_units v u = Inr m"
  shows "0 \<le> m \<and> m \<le> MAX_LEDGER_UNITS \<and> (\<forall>n. fraction_units v u = Inr n \<longrightarrow> n = m)"
  using decimal_units_bounds [OF assms] decimal_fraction_agree [OF assms(2)] by auto

lemma units_conversion_sound_witness:
  "decimal_units 30 (1 / 2) = Inr 60 \<and> (60::int) \<le> MAX_LEDGER_UNITS"
  using units_conversion_sound [of "1 / 2" 30 60] by (simp add: sample_units_num)

text \<open>C15.  Every pot can be won and every unit is evidenced.  In a hand the builder accepts some
  player who never folded is eligible for every pot layer.  The evidence indexes of a layer are
  indexes of recorded actions that paid and were made by its contributors, every contributor is
  represented among them, and the source indexes of an uncalled return are recorded paying
  actions of that player on that street.\<close>

theorem pots_are_justified:
  assumes h: "canonical_hand_ok h" and b: "build_ledger h profile = Inr r"
  shows "(\<exists>e\<in>set (ho_player_eligibility r). pe_folded_at_action_index e = None \<and>
      (\<forall>l\<in>set (ho_pot_layers r). pe_player_id e \<in> set (pl_eligible_players l))) \<and>
    (\<forall>l\<in>set (ho_pot_layers r).
      (\<forall>i\<in>set (pl_evidence_action_indexes l). \<exists>p\<in>set (pl_contributors l).
         logged (ho_ledger_actions r) None p i) \<and>
      (\<forall>p\<in>set (pl_contributors l). \<exists>i\<in>set (pl_evidence_action_indexes l).
         logged (ho_ledger_actions r) None p i)) \<and>
    (\<forall>u\<in>set (ho_uncalled_returns r). \<forall>i\<in>set (ur_source_action_indexes u).
      logged (ho_ledger_actions r) (Some (ur_street u)) (ur_player_id u) i)"
proof -
  from b obtain env s1 layers where f: "finished h profile env s1 layers"
    and r: "r = ledger_output env s1 layers" by (rule build_ledger_finished)
  note F = finishedD [OF h f] and G = finished_evidence [OF h f]
  have fields: "ho_ledger_actions r = ledger_actions s1" "ho_uncalled_returns r = returns s1"
    "ho_pot_layers r = layers"
    and elig: "p \<in> set (le_player_ids env) \<Longrightarrow> \<lparr>pe_player_id = p, pe_eligible_for_contested_pots =
      (folded_at s1 p = None \<and> 0 < net s1 p), pe_folded_at_action_index = folded_at s1 p\<rparr>
      \<in> set (ho_player_eligibility r)" for p
    by (auto simp: r ledger_output_def Let_def)
  from G(3) obtain q where q: "q \<in> set (le_player_ids env)" "folded_at s1 q = None"
    "\<forall>p\<in>set (le_player_ids env). net s1 p \<le> net s1 q" by (auto simp: live_top_def)
  have "q \<in> set (pl_eligible_players l)" if "l \<in> set layers" for l
    using layer_has_top [OF F(4) levels_from_positive that q] .
  with elig [OF q(1)] q(2) have "\<exists>e\<in>set (ho_player_eligibility r).
      pe_folded_at_action_index e = None \<and> (\<forall>l\<in>set layers. pe_player_id e \<in> set (pl_eligible_players l))"
    by (metis player_eligibility.select_convs(1,3))
  moreover have "(\<forall>i\<in>set (pl_evidence_action_indexes l). \<exists>p\<in>set (pl_contributors l).
         logged (ledger_actions s1) None p i) \<and>
      (\<forall>p\<in>set (pl_contributors l). \<exists>i\<in>set (pl_evidence_action_indexes l).
         logged (ledger_actions s1) None p i)" if "l \<in> set layers" for l
    using layer_evidence_justified [OF F(4) levels_from_positive that G(1,2,4)] by simp
  ultimately show ?thesis using G(1) by (simp add: fields logged_inv_def)
qed

lemma pots_are_justified_witness:
  "\<exists>r. build_ledger sample_hand sample_profile = Inr r \<and>
     (\<exists>e\<in>set (ho_player_eligibility r). \<forall>l\<in>set (ho_pot_layers r).
       pe_player_id e \<in> set (pl_eligible_players l)) \<and> length (ho_pot_layers r) = 2"
proof -
  from sample_build obtain r where r: "build_ledger sample_hand sample_profile = Inr r"
    "sample_result r" by blast
  from r(2) have "length (map pl_amount_units (ho_pot_layers r)) = 2" by (simp add: sample_result_def)
  with pots_are_justified [OF sample_hand_ok r(1)] r(1) show ?thesis by auto
qed

end
