(* ===== verification/Sha256.thy ===== *)
theory Sha256
  imports Prelude "HOL-Library.Word" "HOL-Library.Char_ord"
begin

text \<open>
  \<open>hashlib.sha256(data).hexdigest()\<close> of FIPS 180-4, on a list of bytes: the padding, the
  message schedule, the compression function over \<open>32 word\<close>, and the lower-case
  hexadecimal digest.  The durable budget store compares and chains such digests; what its
  validators rely on is \<open>sha256_hex_format\<close>, that a digest is 64 lower-case hex characters.
\<close>

type_synonym byte = "8 word"
type_synonym sha_state = "32 word list"

text \<open>The first 32 bits of the fractional parts of the cube roots of the first 64 primes, and of
  the square roots of the first eight.\<close>

definition sha_constants :: "32 word list" where
  "sha_constants =
   [1116352408, 1899447441, 3049323471, 3921009573, 961987163, 1508970993,
    2453635748, 2870763221, 3624381080, 310598401, 607225278, 1426881987,
    1925078388, 2162078206, 2614888103, 3248222580, 3835390401, 4022224774,
    264347078, 604807628, 770255983, 1249150122, 1555081692, 1996064986,
    2554220882, 2821834349, 2952996808, 3210313671, 3336571891, 3584528711,
    113926993, 338241895, 666307205, 773529912, 1294757372, 1396182291,
    1695183700, 1986661051, 2177026350, 2456956037, 2730485921, 2820302411,
    3259730800, 3345764771, 3516065817, 3600352804, 4094571909, 275423344,
    430227734, 506948616, 659060556, 883997877, 958139571, 1322822218,
    1537002063, 1747873779, 1955562222, 2024104815, 2227730452, 2361852424,
    2428436474, 2756734187, 3204031479, 3329325298]"

definition sha_initial :: sha_state where
  "sha_initial =
   [1779033703, 3144134277, 1013904242, 2773480762, 1359893119, 2600822924,
    528734635, 1541459225]"

definition big_endian :: "nat \<Rightarrow> nat \<Rightarrow> byte list" where
  "big_endian k n = map (\<lambda>i. word_of_nat (n div 256 ^ i)) (rev [0..<k])"

definition sha_pad :: "byte list \<Rightarrow> byte list" where
  "sha_pad m = m @ [0x80] @ replicate ((119 - length m mod 64) mod 64) 0
     @ big_endian 8 (8 * length m)"

fun sha_words :: "byte list \<Rightarrow> 32 word list" where
  "sha_words (a # b # c # d # bs) =
     (word_of_int (uint a * 2 ^ 24 + uint b * 2 ^ 16 + uint c * 2 ^ 8 + uint d)) # sha_words bs"
| "sha_words _ = []"

definition small_sigma0 :: "32 word \<Rightarrow> 32 word" where
  "small_sigma0 x = xor (xor (word_rotr 7 x) (word_rotr 18 x)) (drop_bit 3 x)"

definition small_sigma1 :: "32 word \<Rightarrow> 32 word" where
  "small_sigma1 x = xor (xor (word_rotr 17 x) (word_rotr 19 x)) (drop_bit 10 x)"

definition big_sigma0 :: "32 word \<Rightarrow> 32 word" where
  "big_sigma0 x = xor (xor (word_rotr 2 x) (word_rotr 13 x)) (word_rotr 22 x)"

definition big_sigma1 :: "32 word \<Rightarrow> 32 word" where
  "big_sigma1 x = xor (xor (word_rotr 6 x) (word_rotr 11 x)) (word_rotr 25 x)"

text \<open>The schedule is kept in reverse: the newest word first.\<close>

primrec sha_extend :: "nat \<Rightarrow> 32 word list \<Rightarrow> 32 word list" where
  "sha_extend 0 ws = ws"
| "sha_extend (Suc n) ws =
     sha_extend n ((small_sigma1 (ws ! 1) + ws ! 6 + small_sigma0 (ws ! 14) + ws ! 15) # ws)"

definition sha_schedule :: "32 word list \<Rightarrow> 32 word list" where
  "sha_schedule block = rev (sha_extend 48 (rev block))"

fun sha_round :: "sha_state \<Rightarrow> 32 word \<times> 32 word \<Rightarrow> sha_state" where
  "sha_round [a, b, c, d, e, f, g, h] (k, w) =
     (let t1 = h + big_sigma1 e + xor (and e f) (and (not e) g) + k + w;
          t2 = big_sigma0 a + xor (xor (and a b) (and a c)) (and b c)
      in [t1 + t2, a, b, c, d + t1, e, f, g])"
| "sha_round s _ = s"

definition sha_compress :: "sha_state \<Rightarrow> 32 word list \<Rightarrow> sha_state" where
  "sha_compress s block =
     map2 (+) s (foldl sha_round s (zip sha_constants (sha_schedule block)))"

fun sha_blocks :: "nat \<Rightarrow> sha_state \<Rightarrow> 32 word list \<Rightarrow> sha_state" where
  "sha_blocks 0 s ws = s"
| "sha_blocks (Suc n) s ws = sha_blocks n (sha_compress s (take 16 ws)) (drop 16 ws)"

definition hex_digit :: "nat \<Rightarrow> char" where
  "hex_digit n = ''0123456789abcdef'' ! (n mod 16)"

definition hex_word :: "32 word \<Rightarrow> string" where
  "hex_word w = map (\<lambda>i. hex_digit (unat (drop_bit (4 * i) w))) (rev [0..<8])"

definition sha256_hex :: "byte list \<Rightarrow> string" where
  "sha256_hex m =
     (let ws = sha_words (sha_pad m)
      in concat (map hex_word (sha_blocks (length ws div 16) sha_initial ws)))"

section \<open>The format of a digest\<close>

lemma hex_digit_in: "hex_digit n \<in> set ''0123456789abcdef''"
proof -
  have "n mod 16 < length ''0123456789abcdef''" by simp
  then show ?thesis unfolding hex_digit_def by (rule nth_mem)
qed

lemma length_sha_round: "length (sha_round s kw) = length s"
  by (induction s kw rule: sha_round.induct) (simp_all add: Let_def)

lemma length_sha_rounds: "length (foldl sha_round s kws) = length s"
  by (induction kws arbitrary: s) (simp_all add: length_sha_round)

lemma length_sha_blocks: "length (sha_blocks n s ws) = length s"
  by (induction n arbitrary: s ws) (simp_all add: sha_compress_def length_sha_rounds)

lemma sha256_hex_format:
  "length (sha256_hex m) = 64" "set (sha256_hex m) \<subseteq> set ''0123456789abcdef''"
proof -
  have "length (sha_blocks n sha_initial ws) = 8" for n ws
    by (simp add: length_sha_blocks sha_initial_def)
  moreover have "length (concat (map hex_word ws)) = 8 * length ws" for ws
    by (induction ws) (simp_all add: hex_word_def)
  ultimately show "length (sha256_hex m) = 64" by (simp add: sha256_hex_def Let_def)
  show "set (sha256_hex m) \<subseteq> set ''0123456789abcdef''"
    using hex_digit_in by (auto simp: sha256_hex_def hex_word_def Let_def)
qed

end
