(* ===== verification/Json.thy ===== *)
theory Json
  imports PyNum Sha256 "HOL-Library.Multiset" "HOL-Library.List_Lexorder"
begin

text \<open>
  The canonical JSON text that every hash of the repository is taken over:
  \<open>json.dumps(value, ensure_ascii=False, sort_keys=True, separators=(",", ":"),
  allow_nan=False)\<close> followed by \<open>encode("utf-8")\<close>.  A value is what
  \<open>model_dump(mode="json")\<close> returns: \<open>JObj\<close> lists the fields of a model in the order the
  class declares them.  A float is the decimal that \<open>repr\<close> prints (theory \<open>PyNum\<close>).
\<close>

datatype json =
    JNull
  | JBool bool
  | JInt int
  | JFloat pyfloat
  | JStr string
  | JList "json list"
  | JObj "(string \<times> json) list"

section \<open>Numbers\<close>

definition digit_char :: "nat \<Rightarrow> char" where
  "digit_char n = ''0123456789'' ! (n mod 10)"

fun nat_str :: "nat \<Rightarrow> string" where
  "nat_str n = (if n < 10 then [digit_char n] else nat_str (n div 10) @ [digit_char (n mod 10)])"

declare nat_str.simps [simp del]

definition int_str :: "int \<Rightarrow> string" where
  "int_str i = (if i < 0 then ''-'' @ nat_str (nat (- i)) else nat_str (nat i))"

fun dec_places :: "nat \<Rightarrow> rat \<Rightarrow> nat" where
  \<comment> \<open>how many decimals a terminating decimal has, up to the bound\<close>
  "dec_places 0 v = 0"
| "dec_places (Suc fuel) v = (if is_integral v then 0 else Suc (dec_places fuel (10 * v)))"

definition zero_pad :: "nat \<Rightarrow> string \<Rightarrow> string" where
  "zero_pad n s = replicate (n - length s) (CHR ''0'') @ s"

definition strip_zeros :: "string \<Rightarrow> string" where
  "strip_zeros s = rev (dropWhile (\<lambda>c. c = CHR ''0'') (rev s))"

definition max_places :: nat where "max_places = 350"

definition float_repr :: "pyfloat \<Rightarrow> string" where
  \<comment> \<open>\<open>float.__repr__\<close> of a non-negative value: fixed notation for exponents -4 to 15\<close>
  "float_repr v =
     (if v = 0 then ''0.0''
      else (let e = dec_adjusted v; k = dec_places max_places v;
                ds = nat_str (nat \<lfloor>v * 10 ^ k\<rfloor>) in
        if -4 \<le> e \<and> e < 16 then
          (let s = zero_pad (Suc k) ds in
           take (length s - k) s @ ''.'' @ (if k = 0 then ''0'' else drop (length s - k) s))
        else
          (let m = strip_zeros ds in
           take 1 m @ (if length m = 1 then [] else ''.'' @ drop 1 m) @ ''e''
             @ (if e < 0 then ''-'' else ''+'') @ zero_pad 2 (nat_str (nat \<bar>e\<bar>)))))"

section \<open>Strings and structure\<close>

definition escape_char :: "char \<Rightarrow> string" where
  "escape_char c =
     (if c = CHR 0x22 then [CHR 0x5C, CHR 0x22]
      else if c = CHR 0x5C then [CHR 0x5C, CHR 0x5C]
      else if c = CHR 0x0A then [CHR 0x5C, CHR ''n'']
      else if c = CHR 0x0D then [CHR 0x5C, CHR ''r'']
      else if c = CHR 0x09 then [CHR 0x5C, CHR ''t'']
      else if c = CHR 0x0C then [CHR 0x5C, CHR ''f'']
      else if c = CHR 0x08 then [CHR 0x5C, CHR ''b'']
      else if (of_char c :: nat) < 32
      then [CHR 0x5C, CHR ''u'', CHR ''0'', CHR ''0'', hex_digit (of_char c div 16),
            hex_digit (of_char c)]
      else [c])"

definition json_string :: "string \<Rightarrow> string" where
  "json_string s = [CHR 0x22] @ concat (map escape_char s) @ [CHR 0x22]"

fun joined :: "string list \<Rightarrow> string" where
  "joined [] = []"
| "joined [s] = s"
| "joined (s # t # ss) = s @ '','' @ joined (t # ss)"

definition sorted_fields :: "(string \<times> 'a) list \<Rightarrow> (string \<times> 'a) list" where
  "sorted_fields fs = sort_key fst fs"

fun dumps :: "json \<Rightarrow> string" where
  "dumps JNull = ''null''"
| "dumps (JBool b) = (if b then ''true'' else ''false'')"
| "dumps (JInt i) = int_str i"
| "dumps (JFloat v) = float_repr v"
| "dumps (JStr s) = json_string s"
| "dumps (JList js) = ''['' @ joined (map dumps js) @ '']''"
| "dumps (JObj fs) = ''{'' @ joined (map (\<lambda>f. json_string (fst f) @ '':'' @ snd f)
     (sorted_fields (map (\<lambda>f. (fst f, dumps (snd f))) fs))) @ ''}''"

definition utf8 :: "string \<Rightarrow> byte list" where
  \<comment> \<open>\<open>encode("utf-8")\<close> for code points below 256\<close>
  "utf8 s = concat (map (\<lambda>c. let n = of_char c :: nat in
     if n < 128 then [word_of_nat n] else [word_of_nat (192 + n div 64), word_of_nat (128 + n mod 64)]) s)"

definition canonical_sha256 :: "json \<Rightarrow> string" where
  "canonical_sha256 j = sha256_hex (utf8 (dumps j))"

definition canonical_size :: "json \<Rightarrow> int" where
  "canonical_size j = int (length (utf8 (dumps j)))"

section \<open>Optional and nested values\<close>

definition jopt :: "('a \<Rightarrow> json) \<Rightarrow> 'a option \<Rightarrow> json" where
  "jopt f x = (case x of None \<Rightarrow> JNull | Some v \<Rightarrow> f v)"

section \<open>The text does not depend on the order of the fields\<close>

lemma sorted_fields_cong:
  assumes "mset fs = mset gs" and "distinct (map fst fs)"
  shows "sorted_fields fs = sorted_fields gs"
proof (rule map_sorted_distinct_set_unique)
  show "inj_on fst (set (sorted_fields fs) \<union> set (sorted_fields gs))"
    using assms mset_eq_setD [OF assms(1)] by (simp add: sorted_fields_def distinct_map)
  show "sorted (map fst (sorted_fields fs))" "sorted (map fst (sorted_fields gs))"
    by (simp_all add: sorted_fields_def)
  have m: "mset (map fst (sorted_fields fs)) = mset (map fst fs)"
    "mset (map fst (sorted_fields gs)) = mset (map fst fs)"
    unfolding sorted_fields_def mset_map mset_sort assms(1) by (rule refl)+
  from mset_eq_imp_distinct_iff [OF m(1)] assms(2) show "distinct (map fst (sorted_fields fs))" by blast
  from mset_eq_imp_distinct_iff [OF m(2)] assms(2) show "distinct (map fst (sorted_fields gs))" by blast
  show "set (sorted_fields fs) = set (sorted_fields gs)"
    unfolding sorted_fields_def set_sort by (rule mset_eq_setD [OF assms(1)])
qed

lemma dumps_field_order:
  assumes "mset fs = mset gs" and "distinct (map fst fs)"
  shows "dumps (JObj fs) = dumps (JObj gs)"
proof -
  let ?f = "\<lambda>f. (fst f, dumps (snd f))"
  have "mset (map ?f fs) = mset (map ?f gs)" unfolding mset_map assms(1) ..
  moreover have "distinct (map fst (map ?f fs))" using assms(2) by (simp add: comp_def)
  ultimately have "sorted_fields (map ?f fs) = sorted_fields (map ?f gs)"
    by (rule sorted_fields_cong)
  then show ?thesis by simp
qed

end
