(* ===== verification/BudgetContracts.thy ===== *)
theory BudgetContracts
  imports Json PyRegex
begin

text \<open>
  \<open>budgets/contracts.py\<close> and \<open>budgets/retry.py\<close>: the strict immutable values of the budget
  contract.  A model is a record, its pydantic constraints and validators the predicate
  \<open>..._ok\<close>, and \<open>json_of_...\<close> is \<open>model_dump(mode="json")\<close>.  The \<open>schema_version\<close> field
  of a model is a constant and appears only in its JSON; the display texts \<open>message\<close> and
  \<open>reason\<close>, which no computation reads, are left out.
\<close>

section \<open>Amounts of money and time\<close>

definition NANOSECONDS_PER_SECOND :: rat where "NANOSECONDS_PER_SECOND = 1000000000"
definition MICRO_USD_PER_USD :: rat where "MICRO_USD_PER_USD = 1000000"

definition decimal_usd_to_micro_usd :: "rat \<Rightarrow> string + int" where
  "decimal_usd_to_micro_usd value =
     (if value < 0 then Inl ''USD cost must be finite and non-negative''
      else (let micro_usd = dec_mul value MICRO_USD_PER_USD in
        if \<not> is_integral micro_usd
        then Inl ''USD cost must be exactly representable in integer micro-USD''
        else Inr \<lfloor>micro_usd\<rfloor>))"

section \<open>Enumerations and failures\<close>

datatype execution_class = Local_free | External | Unknown

fun execution_class_value :: "execution_class \<Rightarrow> string" where
  "execution_class_value Local_free = ''local_free''"
| "execution_class_value External = ''external''"
| "execution_class_value Unknown = ''unknown''"

datatype budget_failure_code =
  INVALID_POLICY | UNSUPPORTED_CONCURRENCY | UNSUPPORTED_LEGACY_FIELD | CLOCK_ROLLBACK |
  RUNTIME_EXCEEDED | EXTERNAL_EXECUTION_UNKNOWN | EXTERNAL_COST_UNKNOWN |
  EXTERNAL_COST_DISABLED | EXTERNAL_COST_EXCEEDED | PROVIDER_OUTPUT_EXCEEDED |
  TOOL_INPUT_EXCEEDED | TOOL_OUTPUT_EXCEEDED | ARTIFACT_EXCEEDED | RUN_EXCEEDED | USAGE_MALFORMED

record budget_failure =
  bf_code :: budget_failure_code
  bf_resource :: string
  bf_limit :: "int option"
  bf_observed :: "int option"

definition resource_chars :: "char list" where
  "resource_chars = lower_chars @ digit_chars @ ''_-''"

definition budget_failure_ok :: "budget_failure \<Rightarrow> bool" where
  "budget_failure_ok f \<longleftrightarrow>
     bf_resource f \<noteq> [] \<and> length (bf_resource f) \<le> 64 \<and>
     set (bf_resource f) \<subseteq> set resource_chars \<and>
     pred_option (\<lambda>n. 0 \<le> n) (bf_limit f) \<and> pred_option (\<lambda>n. 0 \<le> n) (bf_observed f)"

section \<open>The policy\<close>

record budget_policy =
  max_deliberation_rounds :: int
  max_tool_retries :: int
  max_concurrent_agents :: int
  max_runtime_seconds :: pyfloat
  max_external_cost_micro_usd :: int
  max_provider_output_bytes :: int
  max_tool_input_bytes :: int
  max_tool_output_bytes :: int
  max_artifact_bytes :: int
  max_run_bytes :: int

definition strict_finite_seconds :: "pyfloat \<Rightarrow> bool" where
  "strict_finite_seconds v \<longleftrightarrow> 0 < v \<and> is_integral (dec_mul v NANOSECONDS_PER_SECOND)"

definition budget_policy_ok :: "budget_policy \<Rightarrow> bool" where
  "budget_policy_ok p \<longleftrightarrow>
     0 \<le> max_deliberation_rounds p \<and> max_deliberation_rounds p \<le> 10 \<and>
     0 \<le> max_tool_retries p \<and> max_tool_retries p \<le> 10 \<and> max_concurrent_agents p = 1 \<and>
     strict_finite_seconds (max_runtime_seconds p) \<and> 0 \<le> max_external_cost_micro_usd p \<and>
     1024 \<le> max_provider_output_bytes p \<and> 1024 \<le> max_tool_input_bytes p \<and>
     1024 \<le> max_tool_output_bytes p \<and> 1024 \<le> max_artifact_bytes p \<and>
     10240 \<le> max_run_bytes p \<and> max_artifact_bytes p \<le> max_run_bytes p"

definition default_policy :: budget_policy where
  "default_policy =
     \<lparr>max_deliberation_rounds = 1, max_tool_retries = 0, max_concurrent_agents = 1,
      max_runtime_seconds = 300, max_external_cost_micro_usd = 0,
      max_provider_output_bytes = 1000000, max_tool_input_bytes = 1000000,
      max_tool_output_bytes = 1000000, max_artifact_bytes = 1000000, max_run_bytes = 10000000\<rparr>"

definition runtime_limit_ns :: "budget_policy \<Rightarrow> int" where
  "runtime_limit_ns p = \<lfloor>dec_mul (max_runtime_seconds p) NANOSECONDS_PER_SECOND\<rfloor>"

definition json_of_policy :: "budget_policy \<Rightarrow> json" where
  "json_of_policy p = JObj
     [(''schema_version'', JStr ''2.0.0''),
      (''max_deliberation_rounds'', JInt (max_deliberation_rounds p)),
      (''max_tool_retries'', JInt (max_tool_retries p)),
      (''max_concurrent_agents'', JInt (max_concurrent_agents p)),
      (''max_runtime_seconds'', JFloat (max_runtime_seconds p)),
      (''max_external_cost_micro_usd'', JInt (max_external_cost_micro_usd p)),
      (''max_provider_output_bytes'', JInt (max_provider_output_bytes p)),
      (''max_tool_input_bytes'', JInt (max_tool_input_bytes p)),
      (''max_tool_output_bytes'', JInt (max_tool_output_bytes p)),
      (''max_artifact_bytes'', JInt (max_artifact_bytes p)),
      (''max_run_bytes'', JInt (max_run_bytes p))]"

definition policy_canonical_sha256 :: "budget_policy \<Rightarrow> string" where
  "policy_canonical_sha256 p = canonical_sha256 (json_of_policy p)"

section \<open>Usage\<close>

record usage_delta =
  provider_attempts :: int
  tool_attempts :: int
  retry_attempts :: int
  active_runtime_ns :: int
  external_cost_micro_usd :: int
  provider_output_bytes :: int
  tool_input_bytes :: int
  tool_output_bytes :: int
  artifact_bytes :: int
  run_bytes :: int
  peak_concurrency :: int

definition usage_delta_ok :: "'a usage_delta_scheme \<Rightarrow> bool" where
  "usage_delta_ok u \<longleftrightarrow>
     0 \<le> provider_attempts u \<and> 0 \<le> tool_attempts u \<and> 0 \<le> retry_attempts u \<and>
     0 \<le> active_runtime_ns u \<and> 0 \<le> external_cost_micro_usd u \<and> 0 \<le> provider_output_bytes u \<and>
     0 \<le> tool_input_bytes u \<and> 0 \<le> tool_output_bytes u \<and> 0 \<le> artifact_bytes u \<and>
     0 \<le> run_bytes u \<and> 0 \<le> peak_concurrency u"

definition no_usage :: usage_delta where
  "no_usage = \<lparr>provider_attempts = 0, tool_attempts = 0, retry_attempts = 0, active_runtime_ns = 0,
     external_cost_micro_usd = 0, provider_output_bytes = 0, tool_input_bytes = 0,
     tool_output_bytes = 0, artifact_bytes = 0, run_bytes = 0, peak_concurrency = 0\<rparr>"

definition combine :: "'a usage_delta_scheme \<Rightarrow> usage_delta \<Rightarrow> usage_delta" where
  "combine u d =
     \<lparr>provider_attempts = provider_attempts u + provider_attempts d,
      tool_attempts = tool_attempts u + tool_attempts d,
      retry_attempts = retry_attempts u + retry_attempts d,
      active_runtime_ns = active_runtime_ns u + active_runtime_ns d,
      external_cost_micro_usd = external_cost_micro_usd u + external_cost_micro_usd d,
      provider_output_bytes = max (provider_output_bytes u) (provider_output_bytes d),
      tool_input_bytes = max (tool_input_bytes u) (tool_input_bytes d),
      tool_output_bytes = max (tool_output_bytes u) (tool_output_bytes d),
      artifact_bytes = max (artifact_bytes u) (artifact_bytes d),
      run_bytes = run_bytes u + run_bytes d,
      peak_concurrency = max (peak_concurrency u) (peak_concurrency d)\<rparr>"

record budget_snapshot = usage_delta +
  policy_sha256 :: string

definition snapshot_apply :: "budget_snapshot \<Rightarrow> usage_delta \<Rightarrow> budget_snapshot" where
  "snapshot_apply s d = usage_delta.extend (combine s d) \<lparr>policy_sha256 = policy_sha256 s\<rparr>"

lemma snapshot_apply_simps [simp]:
  "provider_attempts (snapshot_apply s d) = provider_attempts s + provider_attempts d"
  "tool_attempts (snapshot_apply s d) = tool_attempts s + tool_attempts d"
  "retry_attempts (snapshot_apply s d) = retry_attempts s + retry_attempts d"
  "active_runtime_ns (snapshot_apply s d) = active_runtime_ns s + active_runtime_ns d"
  "external_cost_micro_usd (snapshot_apply s d) = external_cost_micro_usd s + external_cost_micro_usd d"
  "provider_output_bytes (snapshot_apply s d) = max (provider_output_bytes s) (provider_output_bytes d)"
  "tool_input_bytes (snapshot_apply s d) = max (tool_input_bytes s) (tool_input_bytes d)"
  "tool_output_bytes (snapshot_apply s d) = max (tool_output_bytes s) (tool_output_bytes d)"
  "artifact_bytes (snapshot_apply s d) = max (artifact_bytes s) (artifact_bytes d)"
  "run_bytes (snapshot_apply s d) = run_bytes s + run_bytes d"
  "peak_concurrency (snapshot_apply s d) = max (peak_concurrency s) (peak_concurrency d)"
  "policy_sha256 (snapshot_apply s d) = policy_sha256 s"
  by (simp_all add: snapshot_apply_def combine_def usage_delta.defs)

lemma combine_assoc: "combine (combine u d) e = combine u (combine d e)"
  by (simp add: combine_def max.assoc)

lemma snapshot_apply_combine: "snapshot_apply (snapshot_apply s d) e = snapshot_apply s (combine d e)"
  by (simp add: snapshot_apply_def combine_def usage_delta.defs max.assoc)

section \<open>Retry classification\<close>

datatype failure_category =
  VALIDATION | UNSUPPORTED | UNAVAILABLE | BUDGET | DEADLINE | CANCEL | POLICY |
  PROVIDER_TRANSIENT | PROVIDER_PERMANENT | TOOL_TRANSIENT | TOOL_DETERMINISTIC |
  VERIFICATION | EXTERNAL_EFFECT_UNKNOWN | INTERNAL

fun failure_category_value :: "failure_category \<Rightarrow> string" where
  "failure_category_value VALIDATION = ''validation''"
| "failure_category_value UNSUPPORTED = ''unsupported''"
| "failure_category_value UNAVAILABLE = ''unavailable''"
| "failure_category_value BUDGET = ''budget''"
| "failure_category_value DEADLINE = ''deadline''"
| "failure_category_value CANCEL = ''cancel''"
| "failure_category_value POLICY = ''policy''"
| "failure_category_value PROVIDER_TRANSIENT = ''provider_transient''"
| "failure_category_value PROVIDER_PERMANENT = ''provider_permanent''"
| "failure_category_value TOOL_TRANSIENT = ''tool_transient''"
| "failure_category_value TOOL_DETERMINISTIC = ''tool_deterministic''"
| "failure_category_value VERIFICATION = ''verification''"
| "failure_category_value EXTERNAL_EFFECT_UNKNOWN = ''external_effect_unknown''"
| "failure_category_value INTERNAL = ''internal''"

datatype idempotency_status = NOT_APPLICABLE | IDEMPOTENT | RECONCILABLE | UNKNOWN_EFFECT
datatype retry_disposition = RETRYABLE_CANDIDATE | NON_RETRYABLE

record retry_classification =
  rc_category :: failure_category
  rc_idempotency :: idempotency_status
  rc_disposition :: retry_disposition
  rc_retryable :: bool
  rc_automatic_retry :: bool
  rc_max_retries :: int
  rc_max_attempt_candidates :: int

definition retry_classification_ok :: "retry_classification \<Rightarrow> bool" where
  "retry_classification_ok c \<longleftrightarrow>
     0 \<le> rc_max_retries c \<and> 1 \<le> rc_max_attempt_candidates c \<and>
     rc_max_attempt_candidates c = rc_max_retries c + 1 \<and>
     rc_retryable c = (rc_disposition c = RETRYABLE_CANDIDATE) \<and> \<not> rc_automatic_retry c"

definition classify_retry ::
    "failure_category \<Rightarrow> idempotency_status \<Rightarrow> int \<Rightarrow> string + retry_classification" where
  "classify_retry category idempotency max_retries =
     (if max_retries < 0 then Inl ''max_retries must be non-negative''
      else (let transient = category \<in> {PROVIDER_TRANSIENT, TOOL_TRANSIENT};
                idempotent = idempotency \<in> {NOT_APPLICABLE, IDEMPOTENT, RECONCILABLE};
                retryable = (transient \<and> idempotent);
                c = \<lparr>rc_category = category, rc_idempotency = idempotency,
                     rc_disposition = (if retryable then RETRYABLE_CANDIDATE else NON_RETRYABLE),
                     rc_retryable = retryable, rc_automatic_retry = False,
                     rc_max_retries = max_retries, rc_max_attempt_candidates = max_retries + 1\<rparr> in
        if \<not> retry_classification_ok c then Inl ''RetryClassification'' else Inr c))"

lemma classify_retry_total:
  "0 \<le> max_retries \<Longrightarrow> \<exists>c. classify_retry category idempotency max_retries = Inr c \<and>
     retry_classification_ok c \<and>
     (rc_retryable c \<longleftrightarrow> category \<in> {PROVIDER_TRANSIENT, TOOL_TRANSIENT} \<and> idempotency \<noteq> UNKNOWN_EFFECT)"
  by (cases idempotency) (auto simp: classify_retry_def retry_classification_ok_def Let_def)

end
