(* ===== verification/SerialLedger.thy ===== *)
theory SerialLedger
  imports BudgetContracts
begin

text \<open>
  \<open>budgets/ledger.py\<close>: the class \<open>SerialUsageLedger\<close>, in-memory accounting of one run.
  Its attributes are the record \<open>ledger\<close>.  A method takes the ledger, what its clock read
  returned, and its arguments, and returns the result or the raised \<open>BudgetFailure\<close> together
  with the ledger it leaves behind: a method that raises may already have moved the clock
  high-water mark, charged the elapsed time or set the failure latch.
\<close>

datatype clock_reading = Clock_ns int | Clock_raises | Clock_not_an_int

record ledger =
  l_policy :: budget_policy
  l_snapshot :: budget_snapshot
  l_active :: bool
  l_last_ns :: int
  l_clock_failure :: "budget_failure option"

type_synonym 'a ledger_outcome = "(budget_failure + 'a) \<times> ledger"

definition failure_of :: "budget_failure_code \<Rightarrow> string \<Rightarrow> int option \<Rightarrow> int option \<Rightarrow> budget_failure" where
  "failure_of code resource limit observed =
     \<lparr>bf_code = code, bf_resource = resource, bf_limit = limit, bf_observed = observed\<rparr>"

definition read_clock :: "clock_reading \<Rightarrow> budget_failure + int" where
  "read_clock c = (case c of
     Clock_ns n \<Rightarrow> if n < 0 then Inl (failure_of USAGE_MALFORMED ''clock'' None None) else Inr n
   | _ \<Rightarrow> Inl (failure_of USAGE_MALFORMED ''clock'' None None))"

definition snapshot_checks ::
    "budget_policy \<Rightarrow> budget_snapshot \<Rightarrow> (int \<times> int \<times> budget_failure_code \<times> string) list" where
  "snapshot_checks p s =
     [(active_runtime_ns s, runtime_limit_ns p, RUNTIME_EXCEEDED, ''active_runtime_ns''),
      (external_cost_micro_usd s, max_external_cost_micro_usd p, EXTERNAL_COST_EXCEEDED,
         ''external_cost_micro_usd''),
      (provider_output_bytes s, max_provider_output_bytes p, PROVIDER_OUTPUT_EXCEEDED,
         ''provider_output_bytes''),
      (tool_input_bytes s, max_tool_input_bytes p, TOOL_INPUT_EXCEEDED, ''tool_input_bytes''),
      (tool_output_bytes s, max_tool_output_bytes p, TOOL_OUTPUT_EXCEEDED, ''tool_output_bytes''),
      (artifact_bytes s, max_artifact_bytes p, ARTIFACT_EXCEEDED, ''artifact_bytes''),
      (run_bytes s, max_run_bytes p, RUN_EXCEEDED, ''run_bytes''),
      (peak_concurrency s, 1, UNSUPPORTED_CONCURRENCY, ''peak_concurrency'')]"

definition ledger_validate :: "budget_policy \<Rightarrow> budget_snapshot \<Rightarrow> budget_failure + unit" where
  "ledger_validate p s =
     foldE (\<lambda>_ (observed, limit, code, resource).
       if limit < observed then Inl (failure_of code resource (Some limit) (Some observed))
       else Inr ()) () (snapshot_checks p s)"

definition empty_snapshot :: "string \<Rightarrow> budget_snapshot" where
  "empty_snapshot hash = usage_delta.extend no_usage \<lparr>policy_sha256 = hash\<rparr>"

datatype ledger_init_error = Init_failure budget_failure | Policy_hash_mismatch | Policy_invalid

definition ledger_init ::
    "budget_policy \<Rightarrow> clock_reading \<Rightarrow> budget_snapshot option \<Rightarrow> bool \<Rightarrow> ledger_init_error + ledger" where
  "ledger_init p c initial is_active =
     (if \<not> budget_policy_ok p then Inl Policy_invalid
      else if (case initial of None \<Rightarrow> False | Some s \<Rightarrow> policy_sha256 s \<noteq> policy_canonical_sha256 p)
      then Inl Policy_hash_mismatch
      else (let s = (case initial of Some s \<Rightarrow> s | None \<Rightarrow> empty_snapshot (policy_canonical_sha256 p)) in
        case read_clock c of
          Inl f \<Rightarrow> Inl (Init_failure f)
        | Inr now \<Rightarrow> (case ledger_validate p s of
            Inl f \<Rightarrow> Inl (Init_failure f)
          | Inr _ \<Rightarrow> Inr \<lparr>l_policy = p, l_snapshot = s, l_active = is_active, l_last_ns = now,
                           l_clock_failure = None\<rparr>)))"

definition settle_observation :: "int \<Rightarrow> usage_delta option \<Rightarrow> ledger \<Rightarrow> unit ledger_outcome" where
  "settle_observation now effect_delta l =
     (case l_clock_failure l of
        Some f \<Rightarrow> (Inl f, l)
      | None \<Rightarrow>
          if now < l_last_ns l then
            (let f = failure_of CLOCK_ROLLBACK ''active_runtime_ns'' None (Some (l_last_ns l - now))
             in (Inl f, l\<lparr>l_clock_failure := Some f\<rparr>))
          else
            (let elapsed = (if l_active l then now - l_last_ns l else 0);
                 c1 = (if elapsed \<noteq> 0
                       then snapshot_apply (l_snapshot l) (no_usage\<lparr>active_runtime_ns := elapsed\<rparr>)
                       else l_snapshot l);
                 candidate = (case effect_delta of None \<Rightarrow> c1 | Some d \<Rightarrow> snapshot_apply c1 d);
                 l1 = l\<lparr>l_last_ns := now, l_snapshot := candidate\<rparr> in
             case ledger_validate (l_policy l) candidate of
               Inl f \<Rightarrow> (Inl f, l1\<lparr>l_clock_failure := Some f\<rparr>)
             | Inr _ \<Rightarrow> (Inr (), l1)))"

definition observe_runtime :: "clock_reading \<Rightarrow> ledger \<Rightarrow> unit ledger_outcome" where
  "observe_runtime c l =
     (case l_clock_failure l of
        Some f \<Rightarrow> (Inl f, l)
      | None \<Rightarrow> (case read_clock c of
          Inl f \<Rightarrow> (Inl f, l\<lparr>l_clock_failure := Some f\<rparr>)
        | Inr now \<Rightarrow> settle_observation now None l))"

definition ledger_snapshot :: "clock_reading \<Rightarrow> ledger \<Rightarrow> budget_snapshot ledger_outcome" where
  "ledger_snapshot c l =
     (case observe_runtime c l of (Inl f, l1) \<Rightarrow> (Inl f, l1) | (Inr _, l1) \<Rightarrow> (Inr (l_snapshot l1), l1))"

definition settled_snapshot :: "ledger \<Rightarrow> budget_snapshot" where
  "settled_snapshot l = l_snapshot l"

definition observation_failed :: "ledger \<Rightarrow> bool" where
  "observation_failed l \<longleftrightarrow> l_clock_failure l \<noteq> None"

definition runtime_window :: "clock_reading \<Rightarrow> ledger \<Rightarrow> (budget_snapshot \<times> int \<times> int) ledger_outcome" where
  "runtime_window c l =
     (case observe_runtime c l of (Inl f, l1) \<Rightarrow> (Inl f, l1)
      | (Inr _, l1) \<Rightarrow>
          (let remaining_ns = runtime_limit_ns (l_policy l1) - active_runtime_ns (l_snapshot l1)
           in (Inr (l_snapshot l1, l_last_ns l1, l_last_ns l1 + remaining_ns), l1)))"

definition preflight :: "clock_reading \<Rightarrow> usage_delta \<Rightarrow> ledger \<Rightarrow> budget_snapshot ledger_outcome" where
  "preflight c d l =
     (case observe_runtime c l of (Inl f, l1) \<Rightarrow> (Inl f, l1)
      | (Inr _, l1) \<Rightarrow>
          (let candidate = snapshot_apply (l_snapshot l1) d in
           case ledger_validate (l_policy l1) candidate of
             Inl f \<Rightarrow> (Inl f, l1) | Inr _ \<Rightarrow> (Inr candidate, l1)))"

definition ledger_charge :: "clock_reading \<Rightarrow> usage_delta \<Rightarrow> ledger \<Rightarrow> budget_snapshot ledger_outcome" where
  "ledger_charge c d l =
     (case observe_runtime c l of (Inl f, l1) \<Rightarrow> (Inl f, l1)
      | (Inr _, l1) \<Rightarrow>
          (let candidate = snapshot_apply (l_snapshot l1) d in
           case ledger_validate (l_policy l1) candidate of
             Inl f \<Rightarrow> (Inl f, l1)
           | Inr _ \<Rightarrow> (Inr candidate, l1\<lparr>l_snapshot := candidate\<rparr>)))"

definition apply_at :: "usage_delta \<Rightarrow> clock_reading \<Rightarrow> ledger \<Rightarrow> budget_snapshot ledger_outcome" where
  "apply_at d observed_at l =
     (let f = failure_of USAGE_MALFORMED ''clock'' None None in
      case observed_at of
        Clock_ns n \<Rightarrow>
          if n < 0 then (Inl f, l\<lparr>l_clock_failure := Some f\<rparr>)
          else (case settle_observation n (Some d) l of
                  (Inl f, l1) \<Rightarrow> (Inl f, l1) | (Inr _, l1) \<Rightarrow> (Inr (l_snapshot l1), l1))
      | _ \<Rightarrow> (Inl f, l\<lparr>l_clock_failure := Some f\<rparr>))"

definition observe_storage :: "int \<Rightarrow> int \<Rightarrow> ledger \<Rightarrow> budget_snapshot ledger_outcome" where
  "observe_storage artifact run l =
     (if artifact < 0 \<or> run < 0 then (Inl (failure_of USAGE_MALFORMED ''storage_bytes'' None None), l)
      else (let candidate = (l_snapshot l)\<lparr>artifact_bytes := max (artifact_bytes (l_snapshot l)) artifact,
                              run_bytes := run\<rparr> in
        case ledger_validate (l_policy l) candidate of
          Inl f \<Rightarrow> (Inl f, l) | Inr _ \<Rightarrow> (Inr candidate, l\<lparr>l_snapshot := candidate\<rparr>)))"

definition pause :: "clock_reading \<Rightarrow> ledger \<Rightarrow> budget_snapshot ledger_outcome" where
  "pause c l =
     (case observe_runtime c l of (Inl f, l1) \<Rightarrow> (Inl f, l1)
      | (Inr _, l1) \<Rightarrow> (Inr (l_snapshot l1), l1\<lparr>l_active := False\<rparr>))"

definition ledger_resume :: "clock_reading \<Rightarrow> ledger \<Rightarrow> unit ledger_outcome" where
  "ledger_resume c l =
     (case read_clock c of
        Inl f \<Rightarrow> (Inl f, l)
      | Inr now \<Rightarrow>
          if now < l_last_ns l
          then (Inl (failure_of CLOCK_ROLLBACK ''active_runtime_ns'' None (Some (l_last_ns l - now))), l)
          else (Inr (), l\<lparr>l_last_ns := now, l_active := True\<rparr>))"

definition begin_provider_attempt ::
    "clock_reading \<Rightarrow> execution_class \<Rightarrow> int option \<Rightarrow> ledger \<Rightarrow> budget_snapshot ledger_outcome" where
  "begin_provider_attempt c cls estimate l =
     (let charge = (\<lambda>cost. ledger_charge c (no_usage\<lparr>provider_attempts := 1,
                       external_cost_micro_usd := cost, peak_concurrency := 1\<rparr>) l);
          cap = max_external_cost_micro_usd (l_policy l) in
      case cls of
        Unknown \<Rightarrow> (Inl (failure_of EXTERNAL_EXECUTION_UNKNOWN ''provider_execution_class'' None None), l)
      | Local_free \<Rightarrow> charge 0
      | External \<Rightarrow>
          if cap = 0
          then (Inl (failure_of EXTERNAL_COST_DISABLED ''external_cost_micro_usd'' (Some 0) None), l)
          else (case estimate of
            None \<Rightarrow> (Inl (failure_of EXTERNAL_COST_UNKNOWN ''external_cost_micro_usd'' (Some cap) None), l)
          | Some e \<Rightarrow>
              if e < 0 then (Inl (failure_of USAGE_MALFORMED ''external_cost_micro_usd'' None None), l)
              else charge e))"

end
