(* ===== verification/SerialLedgerProofs.thy ===== *)
theory SerialLedgerProofs
  imports SerialLedger
begin

text \<open>
  The serial ledger over any sequence of calls: usage stays within the policy until a
  failure is latched, a latched failure is permanent, usage never decreases, the clock
  high-water mark never moves back, and active runtime is exactly the clock time that
  passed while the ledger was active.
\<close>

section \<open>Calls\<close>

datatype ledger_call =
    Snapshot_call clock_reading
  | Window_call clock_reading
  | Preflight_call clock_reading usage_delta
  | Charge_call clock_reading usage_delta
  | Charge_at_call usage_delta clock_reading
  | Storage_call int int
  | Pause_call clock_reading
  | Resume_call clock_reading
  | Attempt_call clock_reading execution_class "int option"

definition outcome_failure :: "'a ledger_outcome \<Rightarrow> budget_failure option" where
  "outcome_failure r = (case fst r of Inl f \<Rightarrow> Some f | Inr _ \<Rightarrow> None)"

fun exec_call :: "ledger_call \<Rightarrow> ledger \<Rightarrow> budget_failure option \<times> ledger" where
  "exec_call (Snapshot_call c) l = (outcome_failure (ledger_snapshot c l), snd (ledger_snapshot c l))"
| "exec_call (Window_call c) l = (outcome_failure (runtime_window c l), snd (runtime_window c l))"
| "exec_call (Preflight_call c d) l = (outcome_failure (preflight c d l), snd (preflight c d l))"
| "exec_call (Charge_call c d) l = (outcome_failure (ledger_charge c d l), snd (ledger_charge c d l))"
| "exec_call (Charge_at_call d c) l = (outcome_failure (apply_at d c l), snd (apply_at d c l))"
| "exec_call (Storage_call a r) l = (outcome_failure (observe_storage a r l), snd (observe_storage a r l))"
| "exec_call (Pause_call c) l = (outcome_failure (pause c l), snd (pause c l))"
| "exec_call (Resume_call c) l = (outcome_failure (ledger_resume c l), snd (ledger_resume c l))"
| "exec_call (Attempt_call c e n) l =
     (outcome_failure (begin_provider_attempt c e n l), snd (begin_provider_attempt c e n l))"

fun call_delta :: "ledger_call \<Rightarrow> usage_delta option" where
  "call_delta (Preflight_call c d) = Some d"
| "call_delta (Charge_call c d) = Some d"
| "call_delta (Charge_at_call d c) = Some d"
| "call_delta _ = None"

definition call_ok :: "ledger_call \<Rightarrow> bool" where
  \<comment> \<open>the argument is a \<open>UsageDelta\<close>, whose fields pydantic has checked\<close>
  "call_ok c \<longleftrightarrow> pred_option usage_delta_ok (call_delta c)"

section \<open>The limits\<close>

definition within_limits :: "budget_policy \<Rightarrow> budget_snapshot \<Rightarrow> bool" where
  "within_limits p s \<longleftrightarrow>
     active_runtime_ns s \<le> runtime_limit_ns p \<and>
     external_cost_micro_usd s \<le> max_external_cost_micro_usd p \<and>
     provider_output_bytes s \<le> max_provider_output_bytes p \<and>
     tool_input_bytes s \<le> max_tool_input_bytes p \<and>
     tool_output_bytes s \<le> max_tool_output_bytes p \<and>
     artifact_bytes s \<le> max_artifact_bytes p \<and> run_bytes s \<le> max_run_bytes p \<and>
     peak_concurrency s \<le> 1"

lemma ledger_validate_iff: "ledger_validate p s = Inr u \<longleftrightarrow> within_limits p s"
  by (auto simp: ledger_validate_def snapshot_checks_def within_limits_def bindE_Inr)

text \<open>The order in which usage grows: every cumulative counter and every maximum but the
  absolute storage observation \<open>run_bytes\<close>.\<close>

definition usage_le :: "budget_snapshot \<Rightarrow> budget_snapshot \<Rightarrow> bool" where
  "usage_le s t \<longleftrightarrow>
     provider_attempts s \<le> provider_attempts t \<and> tool_attempts s \<le> tool_attempts t \<and>
     retry_attempts s \<le> retry_attempts t \<and> active_runtime_ns s \<le> active_runtime_ns t \<and>
     external_cost_micro_usd s \<le> external_cost_micro_usd t \<and>
     provider_output_bytes s \<le> provider_output_bytes t \<and>
     tool_input_bytes s \<le> tool_input_bytes t \<and> tool_output_bytes s \<le> tool_output_bytes t \<and>
     artifact_bytes s \<le> artifact_bytes t \<and> peak_concurrency s \<le> peak_concurrency t \<and>
     policy_sha256 t = policy_sha256 s"

lemma usage_le_refl: "usage_le s s" by (simp add: usage_le_def)
lemma usage_le_trans: "usage_le s t \<Longrightarrow> usage_le t u \<Longrightarrow> usage_le s u" by (auto simp: usage_le_def)

lemma usage_le_apply: "usage_delta_ok d \<Longrightarrow> usage_le s (snapshot_apply s d)"
  by (simp add: usage_le_def usage_delta_ok_def)

definition ledger_grows :: "ledger \<Rightarrow> ledger \<Rightarrow> bool" where
  "ledger_grows l m \<longleftrightarrow>
     l_policy m = l_policy l \<and> l_last_ns l \<le> l_last_ns m \<and> usage_le (l_snapshot l) (l_snapshot m) \<and>
     (\<forall>f. l_clock_failure l = Some f \<longrightarrow> l_clock_failure m \<noteq> None)"

definition ledger_ok :: "ledger \<Rightarrow> bool" where
  "ledger_ok l \<longleftrightarrow> (l_clock_failure l = None \<longrightarrow> within_limits (l_policy l) (l_snapshot l)) \<and>
     usage_delta_ok (l_snapshot l)"

section \<open>One observation\<close>

lemma no_usage_ok [simp]: "usage_delta_ok no_usage" by (simp add: usage_delta_ok_def no_usage_def)

lemma runtime_delta_ok: "0 \<le> n \<Longrightarrow> usage_delta_ok (no_usage\<lparr>active_runtime_ns := n\<rparr>)"
  by (simp add: usage_delta_ok_def no_usage_def)

lemma snapshot_apply_ok: "usage_delta_ok s \<Longrightarrow> usage_delta_ok d \<Longrightarrow> usage_delta_ok (snapshot_apply s d)"
  by (simp add: usage_delta_ok_def le_max_iff_disj)

definition elapsed_ns :: "ledger \<Rightarrow> int \<Rightarrow> int" where
  "elapsed_ns l now = (if l_active l then now - l_last_ns l else 0)"

definition charged :: "ledger \<Rightarrow> int \<Rightarrow> usage_delta option \<Rightarrow> budget_snapshot" where
  "charged l now d =
     (let c1 = (if elapsed_ns l now \<noteq> 0
                then snapshot_apply (l_snapshot l) (no_usage\<lparr>active_runtime_ns := elapsed_ns l now\<rparr>)
                else l_snapshot l)
      in case d of None \<Rightarrow> c1 | Some d \<Rightarrow> snapshot_apply c1 d)"

lemma settle_observation_eq:
  "settle_observation now d l =
     (case l_clock_failure l of Some f \<Rightarrow> (Inl f, l)
      | None \<Rightarrow> if now < l_last_ns l
          then (let f = failure_of CLOCK_ROLLBACK ''active_runtime_ns'' None (Some (l_last_ns l - now))
                in (Inl f, l\<lparr>l_clock_failure := Some f\<rparr>))
          else (case ledger_validate (l_policy l) (charged l now d) of
             Inl f \<Rightarrow> (Inl f, l\<lparr>l_last_ns := now, l_snapshot := charged l now d, l_clock_failure := Some f\<rparr>)
           | Inr _ \<Rightarrow> (Inr (), l\<lparr>l_last_ns := now, l_snapshot := charged l now d\<rparr>)))"
  unfolding settle_observation_def charged_def elapsed_ns_def Let_def by (simp only:)

lemma charged_le: "l_last_ns l \<le> now \<Longrightarrow> pred_option usage_delta_ok d \<Longrightarrow>
    usage_le (l_snapshot l) (charged l now d)"
  by (auto simp: charged_def elapsed_ns_def Let_def runtime_delta_ok usage_le_refl
      intro!: usage_le_apply usage_le_trans [OF usage_le_apply usage_le_apply] split: option.split)

lemma charged_ok: "l_last_ns l \<le> now \<Longrightarrow> pred_option usage_delta_ok d \<Longrightarrow>
    usage_delta_ok (l_snapshot l) \<Longrightarrow> usage_delta_ok (charged l now d)"
  by (auto simp: charged_def elapsed_ns_def Let_def runtime_delta_ok
      intro!: snapshot_apply_ok split: option.split)

text \<open>What an observation, successful or not, leaves behind.\<close>

lemma settle_observation_effect:
  assumes "settle_observation now d l = (r, m)" and "ledger_ok l" and "pred_option usage_delta_ok d"
  shows "ledger_ok m \<and> ledger_grows l m \<and> l_active m = l_active l \<and>
    (case r of Inl f \<Rightarrow> l_clock_failure m = Some f | Inr _ \<Rightarrow> l_clock_failure m = None) \<and>
    (l_clock_failure l \<noteq> None \<longrightarrow> m = l)"
  using assms charged_le [of l now d] charged_ok [of l now d]
  by (auto simp: settle_observation_eq Let_def ledger_ok_def ledger_grows_def usage_le_refl
      ledger_validate_iff split: option.splits if_splits sum.splits)

lemma observe_runtime_effect:
  assumes "observe_runtime c l = (r, m)" and "ledger_ok l"
  shows "ledger_ok m \<and> ledger_grows l m \<and> l_active m = l_active l \<and>
    (case r of Inl f \<Rightarrow> l_clock_failure m = Some f | Inr _ \<Rightarrow> l_clock_failure m = None) \<and>
    (l_clock_failure l \<noteq> None \<longrightarrow> m = l)"
  using assms settle_observation_effect [of _ None l r m]
  by (auto simp: observe_runtime_def ledger_ok_def ledger_grows_def usage_le_refl
      split: option.splits sum.splits)

lemma ledger_charge_effect:
  assumes o: "ledger_charge c d l = (r, m)" and l: "ledger_ok l" and d: "usage_delta_ok d"
  shows "ledger_ok m \<and> ledger_grows l m \<and> l_active m = l_active l \<and>
    (\<forall>s. r = Inr s \<longrightarrow> l_clock_failure m = None \<and> l_snapshot m = s) \<and>
    (l_clock_failure l \<noteq> None \<longrightarrow> m = l \<and> r = Inl (the (l_clock_failure l)))"
proof -
  obtain q m1 where o1: "observe_runtime c l = (q, m1)" by (cases "observe_runtime c l")
  note E = observe_runtime_effect [OF o1 l]
  show ?thesis
  proof (cases q)
    case (Inl f)
    with o o1 E show ?thesis by (auto simp: ledger_charge_def)
  next
    case (Inr u)
    with E have live: "l_clock_failure l = None" "l_clock_failure m1 = None" by (auto simp: ledger_grows_def)
    with o o1 Inr E d show ?thesis
      using usage_le_trans [OF _ usage_le_apply [OF d]]
      by (auto simp: ledger_charge_def Let_def ledger_ok_def ledger_grows_def ledger_validate_iff
          snapshot_apply_ok split: sum.splits)
  qed
qed

section \<open>Every call\<close>

text \<open>What any call, successful or not, leaves behind.\<close>

definition call_effect :: "ledger \<Rightarrow> ledger \<Rightarrow> bool" where
  "call_effect l m \<longleftrightarrow> ledger_ok m \<and> ledger_grows l m"

lemma call_effect_refl: "ledger_ok l \<Longrightarrow> call_effect l l"
  by (simp add: call_effect_def ledger_grows_def usage_le_refl)

lemma observing_effect:
  assumes "observe_runtime c l = (q, m1)" and "ledger_ok l"
  shows "call_effect l m1"
  using observe_runtime_effect [OF assms] by (simp add: call_effect_def)

lemma charging_effect:
  "ledger_charge c d l = (r, m) \<Longrightarrow> ledger_ok l \<Longrightarrow> usage_delta_ok d \<Longrightarrow> call_effect l m"
  by (drule (2) ledger_charge_effect) (simp add: call_effect_def)

lemma attempt_delta_ok:
  assumes "0 \<le> k"
  shows "usage_delta_ok (no_usage\<lparr>provider_attempts := 1, external_cost_micro_usd := k,
    peak_concurrency := 1\<rparr>)"
  unfolding usage_delta_ok_def no_usage_def using assms by simp

lemma attempt_effect:
  assumes "ledger_ok l"
  shows "call_effect l (snd (begin_provider_attempt c e n l))"
proof -
  have charge: "call_effect l (snd (ledger_charge c (no_usage\<lparr>provider_attempts := 1,
      external_cost_micro_usd := k, peak_concurrency := 1\<rparr>) l))" if "0 \<le> k" for k
    using charging_effect [OF surjective_pairing assms attempt_delta_ok [OF that]] .
  show ?thesis
    using charge [of 0] charge [of "the n"] call_effect_refl [OF assms]
    by (cases e; cases n) (auto simp: begin_provider_attempt_def Let_def)
qed

lemma exec_call_effect:
  assumes c: "call_ok c" and l: "ledger_ok l"
  shows "call_effect l (snd (exec_call c l))"
proof (cases c)
  case (Snapshot_call k)
  with l observing_effect show ?thesis
    by (auto simp: ledger_snapshot_def split: prod.splits sum.splits)
next
  case (Window_call k)
  with l observing_effect show ?thesis
    by (auto simp: runtime_window_def Let_def split: prod.splits sum.splits)
next
  case (Preflight_call k d)
  with l observing_effect show ?thesis
    by (auto simp: preflight_def Let_def split: prod.splits sum.splits)
next
  case (Charge_call k d)
  with l c charging_effect show ?thesis
    by (cases "ledger_charge k d l") (auto simp: call_ok_def)
next
  case (Charge_at_call d k)
  have "call_effect l m" if "settle_observation n (Some d) l = (q, m)" for n q m
    using settle_observation_effect [OF that l] c Charge_at_call by (simp add: call_effect_def call_ok_def)
  moreover have "call_effect l (l\<lparr>l_clock_failure := Some f\<rparr>)" for f
    using l by (auto simp: call_effect_def ledger_ok_def ledger_grows_def usage_le_refl)
  ultimately show ?thesis
    using Charge_at_call
    by (auto simp: apply_at_def Let_def split: clock_reading.splits prod.splits sum.splits)
next
  case (Storage_call a r)
  with l call_effect_refl [OF l] show ?thesis
    by (auto simp: observe_storage_def Let_def ledger_validate_iff call_effect_def ledger_ok_def
        ledger_grows_def usage_le_def usage_delta_ok_def split: sum.splits)
next
  case (Pause_call k)
  with l observing_effect show ?thesis
    by (fastforce simp: pause_def call_effect_def ledger_ok_def ledger_grows_def
        split: prod.splits sum.splits)
next
  case (Resume_call k)
  with l call_effect_refl [OF l] show ?thesis
    by (auto simp: ledger_resume_def call_effect_def ledger_ok_def ledger_grows_def usage_le_refl
        split: sum.splits)
next
  case (Attempt_call k e n)
  with attempt_effect [OF l] show ?thesis by simp
qed

definition run_call :: "ledger_call \<Rightarrow> ledger \<Rightarrow> ledger" where
  "run_call c l = snd (exec_call c l)"

lemma ledger_grows_trans: "ledger_grows l m \<Longrightarrow> ledger_grows m n \<Longrightarrow> ledger_grows l n"
  unfolding ledger_grows_def by (metis order_trans usage_le_trans not_None_eq)

interpretation serial: growing_system run_call call_ok ledger_ok ledger_grows
  by unfold_locales
    (auto simp: run_call_def usage_le_refl ledger_grows_def [of s s for s]
      intro: ledger_grows_trans dest: exec_call_effect [unfolded call_effect_def])

section \<open>Properties\<close>

lemma ledger_init_ok:
  assumes "ledger_init p c initial a = Inr l" and "pred_option usage_delta_ok initial"
  shows "ledger_ok l \<and> l_policy l = p \<and> l_clock_failure l = None \<and> l_active l = a"
  using assms
  by (auto simp: ledger_init_def Let_def ledger_ok_def ledger_validate_iff empty_snapshot_def
      usage_delta_ok_def no_usage_def usage_delta.defs split: option.splits sum.splits if_splits)

lemma latched_observe: "l_clock_failure l = Some f \<Longrightarrow> observe_runtime c l = (Inl f, l)"
  by (simp add: observe_runtime_def)

text \<open>
  The calls that consult the latch before anything else.  An attempt does so once its
  execution class and cost estimate are admissible under the policy; \<open>apply_at\<close> does so when
  the observation it is given is a clock value.
\<close>

fun observing :: "budget_policy \<Rightarrow> ledger_call \<Rightarrow> bool" where
  "observing p (Storage_call a r) = False"
| "observing p (Resume_call c) = False"
| "observing p (Charge_at_call d c) = (\<exists>n. c = Clock_ns n \<and> 0 \<le> n)"
| "observing p (Attempt_call c Local_free n) = True"
| "observing p (Attempt_call c Unknown n) = False"
| "observing p (Attempt_call c External n) =
     (max_external_cost_micro_usd p \<noteq> 0 \<and> (\<exists>e. n = Some e \<and> 0 \<le> e))"
| "observing p _ = True"

fun overwrites_latch :: "ledger_call \<Rightarrow> bool" where
  \<comment> \<open>\<open>apply_at\<close> latches a malformed observation over whatever is latched\<close>
  "overwrites_latch (Charge_at_call d c) = (\<nexists>n. c = Clock_ns n \<and> 0 \<le> n)"
| "overwrites_latch _ = False"

lemma latched_settle: "l_clock_failure l = Some f \<Longrightarrow> settle_observation n d l = (Inl f, l)"
  by (simp add: settle_observation_def)

lemma latched_charge: "l_clock_failure l = Some f \<Longrightarrow> ledger_charge c d l = (Inl f, l)"
  by (simp add: ledger_charge_def latched_observe)

lemma latched_attempt:
  "l_clock_failure l = Some f \<Longrightarrow> observing (l_policy l) (Attempt_call c e n) \<Longrightarrow>
   begin_provider_attempt c e n l = (Inl f, l)"
  by (cases e) (auto simp: begin_provider_attempt_def Let_def latched_charge)

lemma latched_observing:
  assumes f: "l_clock_failure l = Some f" and c: "observing (l_policy l) c"
  shows "exec_call c l = (Some f, l)"
proof (cases c)
  case (Attempt_call k e n)
  with latched_attempt [OF f] c show ?thesis by (simp add: outcome_failure_def)
next
  case (Charge_at_call d k)
  with c latched_settle [OF f] show ?thesis by (auto simp: outcome_failure_def apply_at_def)
qed (use c latched_observe [OF f] latched_charge [OF f] in \<open>simp_all add: outcome_failure_def
  ledger_snapshot_def runtime_window_def preflight_def pause_def\<close>)

lemma latch_stays:
  assumes f: "l_clock_failure l = Some f" and c: "\<not> overwrites_latch c"
  shows "l_clock_failure (run_call c l) = Some f"
proof (cases "observing (l_policy l) c")
  case True
  with latched_observing [OF f] f show ?thesis by (simp add: run_call_def)
next
  case False
  show ?thesis
  proof (cases c)
    case (Attempt_call k e n)
    with False f latched_charge [OF f] show ?thesis
      by (cases e; cases n) (auto simp: run_call_def begin_provider_attempt_def Let_def)
  next
    case (Storage_call a r)
    with f show ?thesis by (auto simp: run_call_def observe_storage_def Let_def split: sum.splits)
  next
    case (Resume_call k)
    with f show ?thesis by (auto simp: run_call_def ledger_resume_def split: sum.splits)
  qed (use False c in auto)
qed

lemma latch_stays_run:
  "l_clock_failure l = Some f \<Longrightarrow> list_all (\<lambda>c. \<not> overwrites_latch c) cs \<Longrightarrow>
   l_clock_failure (fold run_call cs l) = Some f"
  by (induction cs arbitrary: l) (auto simp: latch_stays)

text \<open>
  The runtime a call brings along in its own delta: \<open>apply\<close> settles it when it succeeds,
  \<open>apply_at\<close> as soon as its observation is a clock value that is not behind the mark.
\<close>

fun own_runtime :: "ledger_call \<Rightarrow> ledger \<Rightarrow> int" where
  "own_runtime (Charge_call c d) l =
     (if outcome_failure (ledger_charge c d l) = None then active_runtime_ns d else 0)"
| "own_runtime (Charge_at_call d c) l =
     (if l_clock_failure l = None \<and> (\<exists>n. c = Clock_ns n \<and> 0 \<le> n \<and> l_last_ns l \<le> n)
      then active_runtime_ns d else 0)"
| "own_runtime _ l = 0"

definition runtime_moved :: "ledger \<Rightarrow> ledger \<Rightarrow> bool" where
  "runtime_moved l m \<longleftrightarrow> active_runtime_ns (l_snapshot m) - active_runtime_ns (l_snapshot l)
     = (if l_active l then l_last_ns m - l_last_ns l else 0)"

lemma settle_runtime:
  "settle_observation now None l = (r, m) \<Longrightarrow> runtime_moved l m"
  by (auto simp: settle_observation_eq runtime_moved_def charged_def elapsed_ns_def Let_def
      split: option.splits if_splits sum.splits)

lemma settle_at_runtime:
  assumes "settle_observation now (Some d) l = (r, m)"
  shows "active_runtime_ns (l_snapshot m) - active_runtime_ns (l_snapshot l) =
    (if l_active l then l_last_ns m - l_last_ns l else 0) +
    (if l_clock_failure l = None \<and> l_last_ns l \<le> now then active_runtime_ns d else 0)"
  using assms
  by (auto simp: settle_observation_eq charged_def elapsed_ns_def Let_def
      split: option.splits if_splits sum.splits)

lemma runtime_moved_refl: "runtime_moved l l"
  by (simp add: runtime_moved_def)

lemma latch_runtime: "runtime_moved l (l\<lparr>l_clock_failure := f\<rparr>)"
  by (simp add: runtime_moved_def)

lemma observe_runtime_moved: "observe_runtime c l = (r, m) \<Longrightarrow> runtime_moved l m"
  by (auto simp: observe_runtime_def latch_runtime runtime_moved_refl
      dest: settle_runtime split: option.splits sum.splits)

lemma charge_runtime:
  assumes "ledger_charge c d l = (r, m)"
  shows "active_runtime_ns (l_snapshot m) - active_runtime_ns (l_snapshot l) =
    (if l_active l then l_last_ns m - l_last_ns l else 0) +
    (case r of Inl f \<Rightarrow> 0 | Inr s \<Rightarrow> active_runtime_ns d)"
proof -
  obtain q m1 where o: "observe_runtime c l = (q, m1)" by (cases "observe_runtime c l")
  from observe_runtime_moved [OF o] assms o show ?thesis
    by (auto simp: ledger_charge_def Let_def runtime_moved_def split: sum.splits)
qed

lemma attempt_runtime:
  "runtime_moved l (snd (begin_provider_attempt c e n l))"
proof -
  have z: "active_runtime_ns (no_usage\<lparr>provider_attempts := 1, external_cost_micro_usd := v,
      peak_concurrency := 1\<rparr>) = 0" for v by (simp add: no_usage_def)
  have charge: "runtime_moved l (snd (ledger_charge c (no_usage\<lparr>provider_attempts := 1,
      external_cost_micro_usd := v, peak_concurrency := 1\<rparr>) l))" for v
    using charge_runtime [OF surjective_pairing, of c "no_usage\<lparr>provider_attempts := 1,
      external_cost_micro_usd := v, peak_concurrency := 1\<rparr>" l] z [of v]
    by (simp add: runtime_moved_def split: sum.splits)
  show ?thesis
    using charge [of 0] charge [of "the n"] runtime_moved_refl
    by (cases e; cases n) (auto simp: begin_provider_attempt_def Let_def)
qed

text \<open>C7.  Whatever calls a run makes on its ledger, and whichever of them fail, its settled
  usage respects every cap of the policy as long as no failure has been latched.\<close>

theorem ledger_stays_within_policy:
  assumes "ledger_init p c initial a = Inr l" and "pred_option usage_delta_ok initial"
    and "list_all call_ok cs"
  shows "l_policy (fold run_call cs l) = p \<and>
    (l_clock_failure (fold run_call cs l) = None \<longrightarrow> within_limits p (l_snapshot (fold run_call cs l)))"
proof -
  note init = ledger_init_ok [OF assms(1,2)]
  then have "ledger_ok l" by simp
  from serial.calls_inv [OF assms(3) this] serial.calls_grow [OF assms(3) this] init
  show ?thesis by (simp add: ledger_ok_def ledger_grows_def)
qed

text \<open>C8.  A latched failure is final.  Whatever calls follow the moment a failure was latched,
  some failure stays latched, usage (all but the absolute storage figure \<open>run_bytes\<close>) and the
  clock high-water mark only grow, and every observing call (\<open>snapshot\<close>, \<open>runtime_window\<close>,
  \<open>preflight\<close>, \<open>apply\<close>, \<open>pause\<close>, \<open>apply_at\<close> with a well-formed observation, and an attempt that
  passes its own cost checks) fails with the latched failure and changes nothing.  It stays the
  same failure as long as no \<open>apply_at\<close> with a malformed observation overwrites it;
  \<open>resume\<close> and \<open>observe_storage\<close> do not look at the latch and do not clear it.\<close>

theorem latched_failure_is_final:
  assumes "ledger_init p c initial a = Inr l" and "pred_option usage_delta_ok initial"
    and "list_all call_ok cs" and "list_all call_ok ds"
    and "l_clock_failure (fold run_call cs l) = Some f"
  shows "\<exists>g. l_clock_failure (fold run_call (cs @ ds) l) = Some g \<and>
    (list_all (\<lambda>d. \<not> overwrites_latch d) ds \<longrightarrow> g = f) \<and>
    usage_le (l_snapshot (fold run_call cs l)) (l_snapshot (fold run_call (cs @ ds) l)) \<and>
    l_last_ns (fold run_call cs l) \<le> l_last_ns (fold run_call (cs @ ds) l) \<and>
    (\<forall>k. observing p k \<longrightarrow>
      exec_call k (fold run_call (cs @ ds) l) = (Some g, fold run_call (cs @ ds) l))"
proof -
  let ?m = "fold run_call cs l" and ?n = "fold run_call (cs @ ds) l"
  note init = ledger_init_ok [OF assms(1,2)]
  have m: "ledger_ok ?m" "ledger_grows l ?m"
    using serial.calls_inv [OF assms(3)] serial.calls_grow [OF assms(3)] init by simp_all
  from serial.calls_grow [OF assms(4) m(1)] have grow: "ledger_grows ?m ?n" by simp
  with assms(5) obtain g where g: "l_clock_failure ?n = Some g" by (auto simp: ledger_grows_def)
  have "l_policy ?n = p" using grow m(2) init by (simp add: ledger_grows_def)
  with latched_observing [OF g] have obs: "\<forall>k. observing p k \<longrightarrow> exec_call k ?n = (Some g, ?n)" by simp
  have "list_all (\<lambda>d. \<not> overwrites_latch d) ds \<longrightarrow> g = f"
    using latch_stays_run [OF assms(5)] g by auto
  with g grow obs show ?thesis by (simp add: ledger_grows_def)
qed

text \<open>C9.  Active runtime is clock time.  Every call, failing or not, adds to the settled active
  runtime exactly the distance it moved the clock high-water mark if the ledger was active, and
  nothing if it was paused, plus the active runtime the caller put into the delta of an \<open>apply\<close>
  or \<open>apply_at\<close> that was settled.  The exception is \<open>resume\<close>, which moves the mark and charges
  nothing.\<close>

theorem runtime_is_active_clock_time:
  "active_runtime_ns (l_snapshot (run_call c l)) - active_runtime_ns (l_snapshot l) =
    (if l_active l \<and> (\<nexists>k. c = Resume_call k) then l_last_ns (run_call c l) - l_last_ns l else 0) +
    own_runtime c l"
proof (cases c)
  case (Resume_call k)
  then show ?thesis by (auto simp: run_call_def ledger_resume_def split: sum.splits)
next
  case (Storage_call x r)
  then show ?thesis by (auto simp: run_call_def observe_storage_def Let_def split: sum.splits)
next
  case (Charge_call k d)
  with charge_runtime [of k d l] show ?thesis
    by (cases "ledger_charge k d l") (auto simp: run_call_def outcome_failure_def split: sum.splits)
next
  case (Attempt_call k e n)
  with attempt_runtime [of l k e n] show ?thesis by (simp add: run_call_def runtime_moved_def)
next
  case (Charge_at_call d k)
  with settle_at_runtime [of _ d l] show ?thesis
    by (fastforce simp: run_call_def apply_at_def Let_def
        split: clock_reading.splits prod.splits sum.splits)
next
  case (Snapshot_call k)
  with observe_runtime_moved [of k l] show ?thesis
    by (auto simp: run_call_def ledger_snapshot_def runtime_moved_def split: prod.splits sum.splits)
next
  case (Window_call k)
  with observe_runtime_moved [of k l] show ?thesis
    by (auto simp: run_call_def runtime_window_def runtime_moved_def Let_def split: prod.splits sum.splits)
next
  case (Preflight_call k d)
  with observe_runtime_moved [of k l] show ?thesis
    by (auto simp: run_call_def preflight_def runtime_moved_def Let_def split: prod.splits sum.splits)
next
  case (Pause_call k)
  with observe_runtime_moved [of k l] show ?thesis
    by (auto simp: run_call_def pause_def runtime_moved_def split: prod.splits sum.splits)
qed

section \<open>Witnesses\<close>

definition sample_delta :: usage_delta where
  "sample_delta = no_usage\<lparr>provider_attempts := 1, provider_output_bytes := 2048\<rparr>"

definition sample_ledger :: ledger where
  "sample_ledger = \<lparr>l_policy = default_policy,
     l_snapshot = empty_snapshot (policy_canonical_sha256 default_policy),
     l_active = True, l_last_ns = 5, l_clock_failure = None\<rparr>"

lemma ndigits_300: "dec_mul 300 NANOSECONDS_PER_SECOND = 300000000000"
  using dec_round_of_int [of 300000000000] by (simp add: dec_mul_def NANOSECONDS_PER_SECOND_def)

lemma default_policy_ok: "budget_policy_ok default_policy"
  using is_integral_of_int [of 300000000000]
  by (simp add: budget_policy_ok_def default_policy_def strict_finite_seconds_def ndigits_300)

lemma default_runtime_limit: "runtime_limit_ns default_policy = 300000000000"
  by (simp add: runtime_limit_ns_def default_policy_def ndigits_300)

lemma sample_ledger_init: "ledger_init default_policy (Clock_ns 5) None True = Inr sample_ledger"
proof -
  have "within_limits default_policy (empty_snapshot h)" for h
    by (simp add: within_limits_def default_runtime_limit empty_snapshot_def usage_delta.defs
        no_usage_def) (simp add: default_policy_def)
  then have "ledger_validate default_policy (empty_snapshot h) = Inr ()" for h
    using ledger_validate_iff by blast
  then show ?thesis
    by (simp add: ledger_init_def default_policy_ok read_clock_def Let_def sample_ledger_def)
qed

lemma sample_calls_ok: "list_all call_ok [Charge_call (Clock_ns 1005) sample_delta, Snapshot_call (Clock_ns 1000)]"
  by (simp add: call_ok_def sample_delta_def usage_delta_ok_def no_usage_def)

lemma ledger_stays_within_policy_witness:
  "l_policy (fold run_call [Charge_call (Clock_ns 1005) sample_delta, Snapshot_call (Clock_ns 1000)]
     sample_ledger) = default_policy"
  using ledger_stays_within_policy [OF sample_ledger_init _ sample_calls_ok] by simp

lemma sample_rollback:
  "l_clock_failure (fold run_call [Snapshot_call (Clock_ns 3)] sample_ledger)
     = Some (failure_of CLOCK_ROLLBACK ''active_runtime_ns'' None (Some 2))"
  by (simp add: run_call_def ledger_snapshot_def observe_runtime_def read_clock_def
      settle_observation_def sample_ledger_def Let_def)

lemma latched_failure_is_final_witness:
  "exec_call (Pause_call (Clock_ns 11))
      (fold run_call ([Snapshot_call (Clock_ns 3)] @ [Resume_call (Clock_ns 9)]) sample_ledger)
    = (Some (failure_of CLOCK_ROLLBACK ''active_runtime_ns'' None (Some 2)),
       fold run_call ([Snapshot_call (Clock_ns 3)] @ [Resume_call (Clock_ns 9)]) sample_ledger)"
  using latched_failure_is_final [OF sample_ledger_init _ _ _ sample_rollback,
      of "[Resume_call (Clock_ns 9)]"]
  by (auto simp: call_ok_def simp del: exec_call.simps)

end
