(* ===== verification/Workflow.thy ===== *)
theory Workflow
  imports SerialLedgerProofs
begin

text \<open>
  \<open>state_machine.py\<close> with the part of \<open>config.py\<close> it uses: the legacy \<open>BudgetConfig\<close>, its
  migration to \<open>BudgetPolicyV2\<close>, and the class \<open>WorkflowStateMachine\<close>.  The machine's
  attributes are the record \<open>machine\<close>; its lock serialises the methods, so a method is one
  atomic function.  Counters of a dict default to zero, as \<open>dict.get(name, 0)\<close> reads them.
  \<open>from_snapshot\<close>, which parses floats back from a JSON document, is not modelled.
\<close>

section \<open>Legacy configuration\<close>

record budget_config =
  bc_max_deliberation_rounds :: int
  bc_max_tool_retries :: int
  bc_max_concurrent_agents :: int
  bc_max_agent_depth :: int
  bc_max_runtime_seconds :: pyfloat
  bc_max_external_cost_usd :: pyfloat
  bc_max_output_bytes :: int
  bc_max_run_bytes :: int

definition budget_config_ok :: "budget_config \<Rightarrow> bool" where
  "budget_config_ok c \<longleftrightarrow>
     0 \<le> bc_max_deliberation_rounds c \<and> bc_max_deliberation_rounds c \<le> 10 \<and>
     0 \<le> bc_max_tool_retries c \<and> bc_max_tool_retries c \<le> 10 \<and>
     1 \<le> bc_max_concurrent_agents c \<and> bc_max_concurrent_agents c \<le> 32 \<and>
     0 \<le> bc_max_agent_depth c \<and> bc_max_agent_depth c \<le> 4 \<and> 0 < bc_max_runtime_seconds c \<and>
     0 \<le> bc_max_external_cost_usd c \<and> 1024 \<le> bc_max_output_bytes c \<and>
     10240 \<le> bc_max_run_bytes c"

definition json_of_config :: "budget_config \<Rightarrow> json" where
  "json_of_config c = JObj
     [(''max_deliberation_rounds'', JInt (bc_max_deliberation_rounds c)),
      (''max_tool_retries'', JInt (bc_max_tool_retries c)),
      (''max_concurrent_agents'', JInt (bc_max_concurrent_agents c)),
      (''max_agent_depth'', JInt (bc_max_agent_depth c)),
      (''max_runtime_seconds'', JFloat (bc_max_runtime_seconds c)),
      (''max_external_cost_usd'', JFloat (bc_max_external_cost_usd c)),
      (''max_output_bytes'', JInt (bc_max_output_bytes c)),
      (''max_run_bytes'', JInt (bc_max_run_bytes c))]"

datatype config_error = Config_limit budget_failure | Config_value string | Config_invalid string

record migration_result =
  mr_source_config_sha256 :: string
  mr_policy :: budget_policy
  mr_ignored_legacy_fields :: "string list"

definition migrate_budget_config :: "budget_config \<Rightarrow> config_error + migration_result" where
  "migrate_budget_config c =
     (if \<not> budget_config_ok c then Inl (Config_invalid ''BudgetConfig'')
      else if bc_max_agent_depth c \<noteq> 1
      then Inl (Config_limit (failure_of UNSUPPORTED_LEGACY_FIELD ''max_agent_depth'' (Some 1)
                  (Some (bc_max_agent_depth c))))
      else if bc_max_concurrent_agents c \<notin> {1, 5}
      then Inl (Config_limit (failure_of UNSUPPORTED_CONCURRENCY ''max_concurrent_agents'' (Some 1)
                  (Some (bc_max_concurrent_agents c))))
      else (case decimal_usd_to_micro_usd (bc_max_external_cost_usd c) of
        Inl m \<Rightarrow> Inl (Config_value m)
      | Inr cost \<Rightarrow>
          (let policy = \<lparr>max_deliberation_rounds = 1, max_tool_retries = 0, max_concurrent_agents = 1,
                         max_runtime_seconds = bc_max_runtime_seconds c,
                         max_external_cost_micro_usd = cost,
                         max_provider_output_bytes = bc_max_output_bytes c,
                         max_tool_input_bytes = bc_max_output_bytes c,
                         max_tool_output_bytes = bc_max_output_bytes c,
                         max_artifact_bytes = bc_max_output_bytes c,
                         max_run_bytes = bc_max_run_bytes c\<rparr> in
           if \<not> budget_policy_ok policy then Inl (Config_invalid ''BudgetPolicyV2'')
           else Inr \<lparr>mr_source_config_sha256 = canonical_sha256 (json_of_config c),
                     mr_policy = policy,
                     mr_ignored_legacy_fields = [''max_agent_depth'', ''max_concurrent_agents'',
                       ''max_deliberation_rounds'', ''max_tool_retries'']\<rparr>)))"

section \<open>States and transitions\<close>

datatype run_state =
  INTAKE | NORMALIZE | DATA_VALIDATION | TASK_ROUTING | INDEPENDENT_ANALYSIS |
  TOOL_AND_RESEARCH | CRITIQUE | ADJUDICATION | HUMAN_REVIEW_REQUIRED | FINAL_SYNTHESIS |
  COMPLETED | FAILED_WITH_LIMITATIONS

definition TERMINAL_STATES :: "run_state set" where
  "TERMINAL_STATES = {COMPLETED, FAILED_WITH_LIMITATIONS}"

fun ALLOWED_TRANSITIONS :: "run_state \<Rightarrow> run_state set" where
  "ALLOWED_TRANSITIONS INTAKE = {NORMALIZE, FAILED_WITH_LIMITATIONS}"
| "ALLOWED_TRANSITIONS NORMALIZE = {DATA_VALIDATION, FAILED_WITH_LIMITATIONS}"
| "ALLOWED_TRANSITIONS DATA_VALIDATION =
     {TASK_ROUTING, HUMAN_REVIEW_REQUIRED, FAILED_WITH_LIMITATIONS}"
| "ALLOWED_TRANSITIONS TASK_ROUTING =
     {INDEPENDENT_ANALYSIS, TOOL_AND_RESEARCH, FAILED_WITH_LIMITATIONS}"
| "ALLOWED_TRANSITIONS INDEPENDENT_ANALYSIS =
     {TOOL_AND_RESEARCH, CRITIQUE, FAILED_WITH_LIMITATIONS}"
| "ALLOWED_TRANSITIONS TOOL_AND_RESEARCH =
     {CRITIQUE, HUMAN_REVIEW_REQUIRED, FAILED_WITH_LIMITATIONS}"
| "ALLOWED_TRANSITIONS CRITIQUE = {TOOL_AND_RESEARCH, ADJUDICATION, FAILED_WITH_LIMITATIONS}"
| "ALLOWED_TRANSITIONS ADJUDICATION =
     {HUMAN_REVIEW_REQUIRED, FINAL_SYNTHESIS, FAILED_WITH_LIMITATIONS}"
| "ALLOWED_TRANSITIONS HUMAN_REVIEW_REQUIRED =
     {TOOL_AND_RESEARCH, FINAL_SYNTHESIS, FAILED_WITH_LIMITATIONS}"
| "ALLOWED_TRANSITIONS FINAL_SYNTHESIS = {COMPLETED, FAILED_WITH_LIMITATIONS}"
| "ALLOWED_TRANSITIONS COMPLETED = {}"
| "ALLOWED_TRANSITIONS FAILED_WITH_LIMITATIONS = {}"

record state_event =
  ev_source :: run_state
  ev_target :: run_state
  ev_reason :: string

record machine =
  m_policy :: budget_policy
  m_state :: run_state
  m_events :: "state_event list"
  m_deliberation_rounds :: int
  m_tool_retries :: "string \<Rightarrow> int"
  m_tool_retry_limit :: int
  m_ledger :: ledger
  m_last_budget_failure :: "budget_failure option"

datatype budgets = Legacy budget_config | Policy_v2 budget_policy

datatype machine_error = Ledger_init_error ledger_init_error | Config_error config_error

definition machine_start :: "budget_policy \<Rightarrow> int \<Rightarrow> clock_reading \<Rightarrow> machine_error + machine" where
  "machine_start policy retry_limit c =
     (case ledger_init policy c None True of
        Inl e \<Rightarrow> Inl (Ledger_init_error e)
      | Inr l \<Rightarrow> Inr \<lparr>m_policy = policy, m_state = INTAKE, m_events = [],
                      m_deliberation_rounds = 0, m_tool_retries = (\<lambda>_. 0),
                      m_tool_retry_limit = retry_limit, m_ledger = l,
                      m_last_budget_failure = None\<rparr>)"

definition machine_init :: "budgets \<Rightarrow> clock_reading \<Rightarrow> machine_error + machine" where
  "machine_init budgets c =
     (case budgets of
        Policy_v2 policy \<Rightarrow> machine_start policy (max_tool_retries policy) c
      | Legacy config \<Rightarrow> (case migrate_budget_config config of
            Inl e \<Rightarrow> Inl (Config_error e)
          | Inr r \<Rightarrow> machine_start (mr_policy r) (bc_max_tool_retries config) c))"

datatype workflow_error = Illegal_transition run_state run_state | Completed_without_synthesis

definition transition :: "run_state \<Rightarrow> string \<Rightarrow> machine \<Rightarrow> workflow_error + machine" where
  "transition target reason m =
     (if target \<notin> ALLOWED_TRANSITIONS (m_state m) then Inl (Illegal_transition (m_state m) target)
      else Inr (m\<lparr>m_events := m_events m @
                   [\<lparr>ev_source = m_state m, ev_target = target, ev_reason = reason\<rparr>],
                 m_state := target\<rparr>))"

fun failure_code_value :: "budget_failure_code \<Rightarrow> string" where
  "failure_code_value INVALID_POLICY = ''invalid_budget_policy''"
| "failure_code_value UNSUPPORTED_CONCURRENCY = ''unsupported_concurrency''"
| "failure_code_value UNSUPPORTED_LEGACY_FIELD = ''unsupported_legacy_field''"
| "failure_code_value CLOCK_ROLLBACK = ''clock_rollback''"
| "failure_code_value RUNTIME_EXCEEDED = ''runtime_exceeded''"
| "failure_code_value EXTERNAL_EXECUTION_UNKNOWN = ''external_execution_unknown''"
| "failure_code_value EXTERNAL_COST_UNKNOWN = ''external_cost_unknown''"
| "failure_code_value EXTERNAL_COST_DISABLED = ''external_cost_disabled''"
| "failure_code_value EXTERNAL_COST_EXCEEDED = ''external_cost_exceeded''"
| "failure_code_value PROVIDER_OUTPUT_EXCEEDED = ''provider_output_exceeded''"
| "failure_code_value TOOL_INPUT_EXCEEDED = ''tool_input_exceeded''"
| "failure_code_value TOOL_OUTPUT_EXCEEDED = ''tool_output_exceeded''"
| "failure_code_value ARTIFACT_EXCEEDED = ''artifact_exceeded''"
| "failure_code_value RUN_EXCEEDED = ''run_exceeded''"
| "failure_code_value USAGE_MALFORMED = ''usage_malformed''"

definition project_budget_failure :: "budget_failure \<Rightarrow> machine \<Rightarrow> (workflow_error + unit) \<times> machine" where
  "project_budget_failure f m =
     (let reason = ''strict budget observation failed: '' @ failure_code_value (bf_code f);
          m1 = m\<lparr>m_last_budget_failure := Some f\<rparr>;
          failed = (\<lambda>src. \<lparr>ev_source = src, ev_target = FAILED_WITH_LIMITATIONS, ev_reason = reason\<rparr>) in
      if m_state m = COMPLETED then
        (if m_events m = [] \<or> ev_target (last (m_events m)) \<noteq> COMPLETED \<or>
            ev_source (last (m_events m)) \<noteq> FINAL_SYNTHESIS
         then (Inl Completed_without_synthesis, m1)
         else (Inr (), m1\<lparr>m_events := butlast (m_events m) @ [failed FINAL_SYNTHESIS],
                         m_state := FAILED_WITH_LIMITATIONS\<rparr>))
      else if m_state m \<noteq> FAILED_WITH_LIMITATIONS then
        (Inr (), m1\<lparr>m_events := m_events m @ [failed (m_state m)],
                   m_state := FAILED_WITH_LIMITATIONS\<rparr>)
      else (Inr (), m1))"

definition enforce_runtime :: "clock_reading \<Rightarrow> machine \<Rightarrow> (workflow_error + bool) \<times> machine" where
  "enforce_runtime c m =
     (case ledger_snapshot c (m_ledger m) of
        (Inr _, l) \<Rightarrow> (Inr True, m\<lparr>m_ledger := l, m_last_budget_failure := None\<rparr>)
      | (Inl f, l) \<Rightarrow> (case project_budget_failure f (m\<lparr>m_ledger := l\<rparr>) of
            (Inl e, m1) \<Rightarrow> (Inl e, m1) | (Inr _, m1) \<Rightarrow> (Inr False, m1)))"

definition terminal :: "machine \<Rightarrow> bool" where
  "terminal m \<longleftrightarrow> m_state m \<in> TERMINAL_STATES"

definition start_deliberation_round :: "machine \<Rightarrow> bool \<times> machine" where
  "start_deliberation_round m =
     (if max_deliberation_rounds (m_policy m) \<le> m_deliberation_rounds m then (False, m)
      else (True, m\<lparr>m_deliberation_rounds := m_deliberation_rounds m + 1\<rparr>))"

definition allow_tool_retry :: "string \<Rightarrow> machine \<Rightarrow> bool \<times> machine" where
  "allow_tool_retry tool m =
     (let retries = m_tool_retries m tool in
      if m_tool_retry_limit m \<le> retries then (False, m)
      else (True, m\<lparr>m_tool_retries := (m_tool_retries m)(tool := retries + 1)\<rparr>))"

definition apply_usage :: "clock_reading \<Rightarrow> usage_delta \<Rightarrow> machine \<Rightarrow> (budget_failure + budget_snapshot) \<times> machine" where
  "apply_usage c d m = (case ledger_charge c d (m_ledger m) of (r, l) \<Rightarrow> (r, m\<lparr>m_ledger := l\<rparr>))"

definition apply_usage_at :: "usage_delta \<Rightarrow> clock_reading \<Rightarrow> machine \<Rightarrow> (budget_failure + budget_snapshot) \<times> machine" where
  "apply_usage_at d c m = (case apply_at d c (m_ledger m) of (r, l) \<Rightarrow> (r, m\<lparr>m_ledger := l\<rparr>))"

definition usage_snapshot :: "clock_reading \<Rightarrow> machine \<Rightarrow> (budget_failure + budget_snapshot) \<times> machine" where
  "usage_snapshot c m = (case ledger_snapshot c (m_ledger m) of (r, l) \<Rightarrow> (r, m\<lparr>m_ledger := l\<rparr>))"

definition machine_runtime_window ::
    "clock_reading \<Rightarrow> machine \<Rightarrow> (budget_failure + budget_snapshot \<times> int \<times> int) \<times> machine" where
  "machine_runtime_window c m =
     (case runtime_window c (m_ledger m) of (r, l) \<Rightarrow> (r, m\<lparr>m_ledger := l\<rparr>))"

definition checked_runtime_window ::
    "clock_reading \<Rightarrow> machine \<Rightarrow> (workflow_error + (budget_snapshot \<times> int \<times> int) option) \<times> machine" where
  "checked_runtime_window c m =
     (case runtime_window c (m_ledger m) of
        (Inl f, l) \<Rightarrow> (case project_budget_failure f (m\<lparr>m_ledger := l\<rparr>) of
            (Inl e, m1) \<Rightarrow> (Inl e, m1) | (Inr _, m1) \<Rightarrow> (Inr None, m1))
      | (Inr w, l) \<Rightarrow> (Inr (Some w), m\<lparr>m_ledger := l, m_last_budget_failure := None\<rparr>))"

definition pause_active_runtime :: "clock_reading \<Rightarrow> machine \<Rightarrow> (budget_failure + budget_snapshot) \<times> machine" where
  "pause_active_runtime c m = (case pause c (m_ledger m) of (r, l) \<Rightarrow> (r, m\<lparr>m_ledger := l\<rparr>))"

section \<open>Any call on a machine\<close>

datatype machine_call =
    Transition_call run_state string
  | Enforce_call clock_reading
  | Round_call
  | Retry_call string
  | Usage_call clock_reading usage_delta
  | Usage_at_call usage_delta clock_reading
  | Usage_snapshot_call clock_reading
  | Runtime_window_call clock_reading
  | Checked_window_call clock_reading
  | Pause_runtime_call clock_reading

fun machine_step :: "machine_call \<Rightarrow> machine \<Rightarrow> machine" where
  "machine_step (Transition_call t r) m = (case transition t r m of Inl e \<Rightarrow> m | Inr m' \<Rightarrow> m')"
| "machine_step (Enforce_call c) m = snd (enforce_runtime c m)"
| "machine_step Round_call m = snd (start_deliberation_round m)"
| "machine_step (Retry_call t) m = snd (allow_tool_retry t m)"
| "machine_step (Usage_call c d) m = snd (apply_usage c d m)"
| "machine_step (Usage_at_call d c) m = snd (apply_usage_at d c m)"
| "machine_step (Usage_snapshot_call c) m = snd (usage_snapshot c m)"
| "machine_step (Runtime_window_call c) m = snd (machine_runtime_window c m)"
| "machine_step (Checked_window_call c) m = snd (checked_runtime_window c m)"
| "machine_step (Pause_runtime_call c) m = snd (pause_active_runtime c m)"

end
