(* ===== verification/WorkflowProofs.thy ===== *)
theory WorkflowProofs
  imports Workflow
begin

text \<open>
  The workflow machine over any sequence of calls: its event log is a path of allowed
  transitions, the terminal states are final, its counters respect their caps, and a run
  that completed has been validated and adjudicated or reviewed.  The allowed transitions
  are also given as an inductive step relation, for reachability.
\<close>

section \<open>The transition graph\<close>

inductive workflow_step :: "run_state \<Rightarrow> run_state \<Rightarrow> bool" where
  allowed: "t \<in> ALLOWED_TRANSITIONS s \<Longrightarrow> workflow_step s t"

inductive_simps workflow_step_iff: "workflow_step s t"
inductive_cases workflow_stepE: "workflow_step s t"

code_pred workflow_step .

lemma synthesis_reachable:
  "workflow_step FINAL_SYNTHESIS COMPLETED" "workflow_step ADJUDICATION FINAL_SYNTHESIS"
  "workflow_step CRITIQUE ADJUDICATION" "workflow_step TOOL_AND_RESEARCH CRITIQUE"
  "workflow_step INDEPENDENT_ANALYSIS CRITIQUE" "workflow_step TASK_ROUTING TOOL_AND_RESEARCH"
  "workflow_step DATA_VALIDATION TASK_ROUTING" "workflow_step NORMALIZE DATA_VALIDATION"
  "workflow_step INTAKE NORMALIZE" "workflow_step HUMAN_REVIEW_REQUIRED FINAL_SYNTHESIS"
  by (simp_all add: workflow_step_iff)

section \<open>The event log\<close>

fun event_path :: "run_state \<Rightarrow> state_event list \<Rightarrow> run_state \<Rightarrow> bool" where
  "event_path s [] t = (s = t)"
| "event_path s (e # es) t \<longleftrightarrow>
     ev_source e = s \<and> workflow_step s (ev_target e) \<and> event_path (ev_target e) es t"

lemma event_path_append:
  "event_path s (es @ fs) t \<longleftrightarrow> (\<exists>u. event_path s es u \<and> event_path u fs t)"
  by (induction es arbitrary: s) auto

lemma event_path_snoc:
  "event_path s (es @ [e]) t \<longleftrightarrow>
     event_path s es (ev_source e) \<and> workflow_step (ev_source e) t \<and> ev_target e = t"
  by (auto simp: event_path_append)

lemma event_path_into:
  assumes "event_path s es t" and "s \<noteq> t" and "\<And>u. workflow_step u t \<Longrightarrow> u \<in> U"
  shows "es \<noteq> [] \<and> ev_target (last es) = t \<and> ev_source (last es) \<in> U"
  using assms by (cases es rule: rev_cases) (auto simp: event_path_snoc)

text \<open>A set of states that can only be left through a gate must have used the gate.\<close>

lemma event_path_gate:
  assumes "event_path s es t" and "s \<in> A" and "t \<notin> A"
    and gate: "\<And>u v. u \<in> A \<Longrightarrow> workflow_step u v \<Longrightarrow> v \<in> A \<or> v \<in> G"
  shows "\<exists>e\<in>set es. ev_target e \<in> G"
  using assms(1-3)
proof (induction es arbitrary: s)
  case Nil
  then show ?case by auto
next
  case (Cons e es)
  then have "workflow_step s (ev_target e)" "event_path (ev_target e) es t" by simp_all
  with gate [OF Cons.prems(2)] Cons.IH Cons.prems(3) show ?case by auto
qed

section \<open>The invariant\<close>

definition machine_ok :: "machine \<Rightarrow> bool" where
  "machine_ok m \<longleftrightarrow>
     event_path INTAKE (m_events m) (m_state m) \<and> ledger_ok (m_ledger m) \<and>
     0 \<le> m_deliberation_rounds m \<and>
     m_deliberation_rounds m \<le> max_deliberation_rounds (m_policy m) \<and>
     (\<forall>t. 0 \<le> m_tool_retries m t \<and> m_tool_retries m t \<le> m_tool_retry_limit m)"

definition machine_call_ok :: "machine_call \<Rightarrow> bool" where
  "machine_call_ok c = (case c of Usage_call k d \<Rightarrow> usage_delta_ok d
     | Usage_at_call d k \<Rightarrow> usage_delta_ok d | _ \<Rightarrow> True)"

definition machine_grows :: "machine \<Rightarrow> machine \<Rightarrow> bool" where
  "machine_grows m n \<longleftrightarrow>
     (m_state m = FAILED_WITH_LIMITATIONS \<longrightarrow> m_state n = m_state m \<and> m_events n = m_events m) \<and>
     (m_state m = COMPLETED \<longrightarrow> m_state n \<in> TERMINAL_STATES \<and>
        (m_state n = COMPLETED \<longrightarrow> m_events n = m_events m)) \<and>
     m_deliberation_rounds m \<le> m_deliberation_rounds n \<and>
     (\<forall>t. m_tool_retries m t \<le> m_tool_retries n t) \<and>
     m_policy n = m_policy m \<and> m_tool_retry_limit n = m_tool_retry_limit m \<and>
     ledger_grows (m_ledger m) (m_ledger n)"

lemma ledger_grows_refl: "ledger_grows l l" by (simp add: ledger_grows_def usage_le_refl)

lemma machine_grows_refl: "machine_grows m m"
  by (simp add: machine_grows_def ledger_grows_refl TERMINAL_STATES_def)

lemma machine_grows_trans:
  assumes "machine_grows m n" and "machine_grows n k"
  shows "machine_grows m k"
proof -
  have "\<forall>t. m_tool_retries m t \<le> m_tool_retries k t"
    using assms unfolding machine_grows_def by (meson order_trans)
  with assms ledger_grows_trans [of "m_ledger m" "m_ledger n" "m_ledger k"] show ?thesis
    by (auto simp: machine_grows_def TERMINAL_STATES_def)
qed

definition machine_effect :: "machine \<Rightarrow> machine \<Rightarrow> bool" where
  "machine_effect m n \<longleftrightarrow> machine_ok n \<and> machine_grows m n"

lemma machine_effect_refl: "machine_ok m \<Longrightarrow> machine_effect m m"
  by (simp add: machine_effect_def machine_grows_refl)

text \<open>A call on the ledger alone.\<close>

lemma ledger_only:
  assumes "machine_ok m" and "call_effect (m_ledger m) l"
  shows "machine_effect m (m\<lparr>m_ledger := l\<rparr>)"
    and "machine_effect m (m\<lparr>m_ledger := l, m_last_budget_failure := f\<rparr>)"
  using assms
  by (auto simp: machine_effect_def machine_ok_def machine_grows_def call_effect_def TERMINAL_STATES_def)

lemma completed_has_synthesis:
  assumes "machine_ok m" and "m_state m = COMPLETED"
  shows "m_events m \<noteq> [] \<and> ev_target (last (m_events m)) = COMPLETED \<and>
    ev_source (last (m_events m)) = FINAL_SYNTHESIS"
proof -
  have gate: "u \<in> {FINAL_SYNTHESIS}" if "workflow_step u COMPLETED" for u
    using that by (cases u rule: run_state.exhaust) (auto simp: workflow_step_iff)
  from assms event_path_into [of INTAKE "m_events m" COMPLETED, OF _ _ gate]
  show ?thesis by (simp add: machine_ok_def)
qed

lemma fail_allowed: "s \<notin> TERMINAL_STATES \<Longrightarrow> workflow_step s FAILED_WITH_LIMITATIONS"
  by (cases s) (auto simp: workflow_step_iff TERMINAL_STATES_def)

lemma project_effect:
  assumes ok: "machine_ok m" and p: "project_budget_failure f m = (r, n)"
  shows "r = Inr () \<and> machine_effect m n \<and> m_state n = FAILED_WITH_LIMITATIONS \<and>
    m_last_budget_failure n = Some f"
proof (cases "m_state m = COMPLETED")
  case True
  note last = completed_has_synthesis [OF ok True]
  then obtain es e where es: "m_events m = es @ [e]" by (cases "m_events m" rule: rev_cases) auto
  with ok last True have "event_path INTAKE es FINAL_SYNTHESIS"
    by (simp add: machine_ok_def event_path_snoc)
  with ok p last True es show ?thesis
    by (auto simp: project_budget_failure_def Let_def machine_effect_def machine_ok_def
        machine_grows_def event_path_snoc workflow_step_iff ledger_grows_refl TERMINAL_STATES_def)
next
  case False
  show ?thesis
  proof (cases "m_state m = FAILED_WITH_LIMITATIONS")
    case True
    with False ok p show ?thesis
      by (auto simp: project_budget_failure_def Let_def machine_effect_def machine_ok_def
          machine_grows_def ledger_grows_refl)
  next
    case live: False
    with False have "workflow_step (m_state m) FAILED_WITH_LIMITATIONS"
      by (intro fail_allowed) (simp add: TERMINAL_STATES_def)
    with live False ok p show ?thesis
      by (auto simp: project_budget_failure_def Let_def machine_effect_def machine_ok_def
          machine_grows_def event_path_snoc ledger_grows_refl)
  qed
qed

lemma projected_effect:
  assumes ok: "machine_ok m" and l: "call_effect (m_ledger m) l"
  shows "machine_effect m (snd (project_budget_failure f (m\<lparr>m_ledger := l\<rparr>)))"
    and "fst (project_budget_failure f (m\<lparr>m_ledger := l\<rparr>)) = Inr ()"
proof -
  note E = ledger_only(1) [OF ok l]
  obtain r n where p: "project_budget_failure f (m\<lparr>m_ledger := l\<rparr>) = (r, n)"
    by (cases "project_budget_failure f (m\<lparr>m_ledger := l\<rparr>)")
  from project_effect [OF _ p] E machine_grows_trans
  show "machine_effect m (snd (project_budget_failure f (m\<lparr>m_ledger := l\<rparr>)))"
    "fst (project_budget_failure f (m\<lparr>m_ledger := l\<rparr>)) = Inr ()"
    by (auto simp: machine_effect_def p)
qed

lemma transition_effect:
  "machine_ok m \<Longrightarrow> transition t r m = Inr n \<Longrightarrow> machine_effect m n"
  by (cases "m_state m")
    (auto simp: transition_def machine_effect_def machine_ok_def machine_grows_def event_path_snoc
      workflow_step_iff ledger_grows_refl split: if_splits)

lemma counter_effect:
  assumes "machine_ok m"
  shows "machine_effect m (snd (start_deliberation_round m))"
    and "machine_effect m (snd (allow_tool_retry t m))"
  using assms
  by (auto simp: start_deliberation_round_def allow_tool_retry_def Let_def machine_effect_def
      machine_ok_def machine_grows_def ledger_grows_refl TERMINAL_STATES_def)

lemma observing_call_effect:
  assumes "ledger_ok l"
  shows "call_effect l (snd (ledger_snapshot c l))" "call_effect l (snd (runtime_window c l))"
    "call_effect l (snd (pause c l))"
    "usage_delta_ok d \<Longrightarrow> call_effect l (snd (ledger_charge c d l))"
    "usage_delta_ok d \<Longrightarrow> call_effect l (snd (apply_at d c l))"
  using exec_call_effect [OF _ assms, of "Snapshot_call c"] exec_call_effect [OF _ assms, of "Window_call c"]
    exec_call_effect [OF _ assms, of "Pause_call c"] exec_call_effect [OF _ assms, of "Charge_call c d"]
    exec_call_effect [OF _ assms, of "Charge_at_call d c"]
  by (simp_all add: call_ok_def)

lemma machine_step_effect:
  assumes c: "machine_call_ok c" and ok: "machine_ok m"
  shows "machine_effect m (machine_step c m)"
proof -
  have l: "ledger_ok (m_ledger m)" using ok by (simp add: machine_ok_def)
  note eff = observing_call_effect [OF l]
  show ?thesis
  proof (cases c)
    case (Transition_call t r)
    with ok transition_effect machine_effect_refl show ?thesis by (auto split: sum.splits)
  next
    case (Enforce_call k)
    from projected_effect(1) [OF ok eff(1) [of k]] ledger_only(2) [OF ok eff(1) [of k]] show ?thesis
      by (cases "ledger_snapshot k (m_ledger m)")
        (auto simp: Enforce_call enforce_runtime_def split: sum.splits prod.splits, (metis snd_conv)+)
  next
    case (Checked_window_call k)
    from projected_effect(1) [OF ok eff(2) [of k]] ledger_only(2) [OF ok eff(2) [of k]] show ?thesis
      by (cases "runtime_window k (m_ledger m)")
        (auto simp: Checked_window_call checked_runtime_window_def split: sum.splits prod.splits,
          (metis snd_conv)+)
  next
    case Round_call
    with counter_effect(1) [OF ok] show ?thesis by simp
  next
    case (Retry_call t)
    with counter_effect(2) [OF ok] show ?thesis by simp
  next
    case (Usage_call k d)
    with c eff(4) [of d k] ledger_only(1) [OF ok] show ?thesis
      by (auto simp: apply_usage_def machine_call_ok_def split: prod.splits)
  next
    case (Usage_at_call d k)
    with c eff(5) [of d k] ledger_only(1) [OF ok] show ?thesis
      by (auto simp: apply_usage_at_def machine_call_ok_def split: prod.splits)
  next
    case (Usage_snapshot_call k)
    with eff(1) [of k] ledger_only(1) [OF ok] show ?thesis
      by (auto simp: usage_snapshot_def split: prod.splits)
  next
    case (Runtime_window_call k)
    with eff(2) [of k] ledger_only(1) [OF ok] show ?thesis
      by (auto simp: machine_runtime_window_def split: prod.splits)
  next
    case (Pause_runtime_call k)
    with eff(3) [of k] ledger_only(1) [OF ok] show ?thesis
      by (auto simp: pause_active_runtime_def split: prod.splits)
  qed
qed

interpretation workflow: growing_system machine_step machine_call_ok machine_ok machine_grows
  by unfold_locales
    (use machine_step_effect machine_grows_refl machine_grows_trans in \<open>auto simp: machine_effect_def\<close>)

lemma machine_start_ok:
  assumes "machine_start p n c = Inr m" and "0 \<le> n"
  shows "machine_ok m \<and> m_state m = INTAKE \<and> m_events m = [] \<and> m_tool_retry_limit m = n \<and> m_policy m = p"
proof -
  from assms(1) have l: "ledger_init p c None True = Inr (m_ledger m)"
    and m: "m_state m = INTAKE" "m_events m = []" "m_deliberation_rounds m = 0" "m_policy m = p"
      "m_tool_retries m = (\<lambda>_. 0)" "m_tool_retry_limit m = n"
    by (auto simp: machine_start_def split: sum.splits)
  have "budget_policy_ok p" using l by (auto simp: ledger_init_def split: if_splits)
  with ledger_init_ok [OF l] m assms(2) show ?thesis
    by (simp add: machine_ok_def budget_policy_ok_def)
qed

lemma machine_init_ok:
  assumes "machine_init b c = Inr m"
  shows "machine_ok m \<and> m_state m = INTAKE \<and> m_events m = []"
proof (cases b)
  case (Legacy k)
  with assms obtain r where "migrate_budget_config k = Inr r"
    "machine_start (mr_policy r) (bc_max_tool_retries k) c = Inr m"
    by (auto simp: machine_init_def split: sum.splits)
  moreover from this(1) have "0 \<le> bc_max_tool_retries k"
    by (auto simp: migrate_budget_config_def budget_config_ok_def split: if_splits)
  ultimately show ?thesis using machine_start_ok by blast
next
  case (Policy_v2 p)
  with assms have s: "machine_start p (max_tool_retries p) c = Inr m" by (simp add: machine_init_def)
  then have "budget_policy_ok p"
    by (auto simp: machine_start_def ledger_init_def split: sum.splits if_splits)
  with machine_start_ok [OF s] show ?thesis by (simp add: budget_policy_ok_def)
qed

section \<open>After completion\<close>

fun reported_failure :: "machine_call \<Rightarrow> machine \<Rightarrow> budget_failure option" where
  \<comment> \<open>the budget failure the ledger reports to a call that projects it\<close>
  "reported_failure (Enforce_call k) m = outcome_failure (ledger_snapshot k (m_ledger m))"
| "reported_failure (Checked_window_call k) m = outcome_failure (runtime_window k (m_ledger m))"
| "reported_failure _ m = None"

definition still_completed :: "machine \<Rightarrow> machine \<Rightarrow> bool" where
  "still_completed m n \<longleftrightarrow> m_state n = COMPLETED \<and> m_events n = m_events m"

definition failed_after_completion :: "budget_failure \<Rightarrow> machine \<Rightarrow> machine \<Rightarrow> bool" where
  "failed_after_completion f m n \<longleftrightarrow>
     m_state n = FAILED_WITH_LIMITATIONS \<and>
     m_events n = butlast (m_events m) @
       [\<lparr>ev_source = FINAL_SYNTHESIS, ev_target = FAILED_WITH_LIMITATIONS,
         ev_reason = ''strict budget observation failed: '' @ failure_code_value (bf_code f)\<rparr>]"

lemma project_completed:
  assumes "machine_ok m" and "m_state m = COMPLETED"
  shows "failed_after_completion f m (snd (project_budget_failure f (m\<lparr>m_ledger := l\<rparr>)))"
  using completed_has_synthesis [OF assms] assms(2)
  by (simp add: project_budget_failure_def Let_def failed_after_completion_def)

lemma completed_step:
  assumes ok: "machine_ok m" and c: "m_state m = COMPLETED"
  shows "if reported_failure k m = None then still_completed m (machine_step k m)
    else failed_after_completion (the (reported_failure k m)) m (machine_step k m)"
proof (cases k)
  case (Enforce_call x)
  from project_completed [OF ok c] show ?thesis
    by (cases "ledger_snapshot x (m_ledger m)")
      (auto simp: Enforce_call outcome_failure_def enforce_runtime_def still_completed_def c
        split: sum.splits prod.splits, (metis snd_conv)+)
next
  case (Checked_window_call x)
  from project_completed [OF ok c] show ?thesis
    by (cases "runtime_window x (m_ledger m)")
      (auto simp: Checked_window_call outcome_failure_def checked_runtime_window_def
        still_completed_def c split: sum.splits prod.splits, (metis snd_conv)+)
qed (auto simp: c still_completed_def transition_def start_deliberation_round_def
  allow_tool_retry_def Let_def apply_usage_def apply_usage_at_def usage_snapshot_def
  machine_runtime_window_def pause_active_runtime_def split: prod.splits)

lemma completed_run:
  assumes ok: "machine_ok m" and c: "m_state m = COMPLETED" and ds: "list_all machine_call_ok ds"
  shows "still_completed m (fold machine_step ds m) \<or>
    (\<exists>ds1 k ds2 f. ds = ds1 @ k # ds2 \<and> still_completed m (fold machine_step ds1 m) \<and>
      reported_failure k (fold machine_step ds1 m) = Some f \<and>
      failed_after_completion f m (fold machine_step ds m))"
  using ds
proof (induction ds rule: rev_induct)
  case Nil
  show ?case by (simp add: still_completed_def c)
next
  case (snoc k ds)
  let ?n = "fold machine_step ds m"
  have n: "machine_ok ?n" using workflow.calls_inv [of ds m] ok snoc.prems by simp
  have IH: "still_completed m ?n \<or> (\<exists>ds1 k ds2 f. ds = ds1 @ k # ds2 \<and>
      still_completed m (fold machine_step ds1 m) \<and>
      reported_failure k (fold machine_step ds1 m) = Some f \<and> failed_after_completion f m ?n)"
    using snoc by simp
  then show ?case
  proof (elim disjE exE conjE)
    assume s: "still_completed m ?n"
    with completed_step [OF n, of k] have "if reported_failure k ?n = None
      then still_completed m (machine_step k ?n)
      else failed_after_completion (the (reported_failure k ?n)) m (machine_step k ?n)"
      by (auto simp: still_completed_def failed_after_completion_def split: if_splits)
    with s show ?thesis
      by (cases "reported_failure k ?n") auto
  next
    fix ds1 k' ds2 f
    assume "ds = ds1 @ k' # ds2" "still_completed m (fold machine_step ds1 m)"
      "reported_failure k' (fold machine_step ds1 m) = Some f" "failed_after_completion f m ?n"
    moreover from this(4) have "failed_after_completion f m (machine_step k ?n)"
      using workflow.calls_grow [of "[k]" ?n] n snoc.prems
      by (simp add: failed_after_completion_def machine_grows_def)
    ultimately have "ds @ [k] = ds1 @ k' # (ds2 @ [k]) \<and> still_completed m (fold machine_step ds1 m) \<and>
      reported_failure k' (fold machine_step ds1 m) = Some f \<and>
      failed_after_completion f m (fold machine_step (ds @ [k]) m)" by simp
    then show ?thesis by blast
  qed
qed

section \<open>The caps of a configuration\<close>

fun resolved_policy :: "budgets \<Rightarrow> config_error + budget_policy" where
  "resolved_policy (Policy_v2 p) = Inr p"
| "resolved_policy (Legacy k) =
     (case migrate_budget_config k of Inl e \<Rightarrow> Inl e | Inr r \<Rightarrow> Inr (mr_policy r))"

fun retry_cap :: "budgets \<Rightarrow> int" where
  "retry_cap (Policy_v2 p) = max_tool_retries p"
| "retry_cap (Legacy k) = bc_max_tool_retries k"

lemma machine_start_caps:
  "machine_start p n c = Inr m \<Longrightarrow>
   m_policy m = p \<and> m_tool_retry_limit m = n \<and> l_policy (m_ledger m) = p"
  by (auto simp: machine_start_def ledger_init_def Let_def split: sum.splits if_splits)

lemma machine_init_caps:
  "machine_init b c = Inr m \<Longrightarrow> resolved_policy b = Inr (m_policy m) \<and>
   m_tool_retry_limit m = retry_cap b \<and> l_policy (m_ledger m) = m_policy m"
  by (cases b) (auto simp: machine_init_def dest!: machine_start_caps split: sum.splits)

section \<open>Properties\<close>

text \<open>C10.  Whatever calls are made and whichever fail, the event log of a machine is a path of
  allowed transitions from \<open>INTAKE\<close> to its current state, and the guard that a completed run
  without its final synthesis would trip can never fire.\<close>

theorem event_log_is_a_path:
  assumes "machine_init b c = Inr m" and "list_all machine_call_ok cs"
  shows "event_path INTAKE (m_events (fold machine_step cs m)) (m_state (fold machine_step cs m)) \<and>
    fst (project_budget_failure f (fold machine_step cs m)) = Inr ()"
proof -
  have ok: "machine_ok (fold machine_step cs m)"
    using workflow.calls_inv [OF assms(2)] machine_init_ok [OF assms(1)] by simp
  obtain r n where "project_budget_failure f (fold machine_step cs m) = (r, n)"
    by (cases "project_budget_failure f (fold machine_step cs m)")
  with project_effect [OF ok this] ok show ?thesis by (simp add: machine_ok_def)
qed

text \<open>C11.  A run that reached \<open>COMPLETED\<close> has been through data validation and final
  synthesis, and through adjudication or human review before that.\<close>

theorem completed_run_was_reviewed:
  assumes "machine_init b c = Inr m" and "list_all machine_call_ok cs"
    and "m_state (fold machine_step cs m) = COMPLETED"
  shows "(\<exists>e\<in>set (m_events (fold machine_step cs m)). ev_target e = DATA_VALIDATION) \<and>
    (\<exists>e\<in>set (m_events (fold machine_step cs m)). ev_target e \<in> {ADJUDICATION, HUMAN_REVIEW_REQUIRED}) \<and>
    ev_source (last (m_events (fold machine_step cs m))) = FINAL_SYNTHESIS"
proof -
  let ?n = "fold machine_step cs m"
  have ok: "machine_ok ?n"
    using workflow.calls_inv [OF assms(2)] machine_init_ok [OF assms(1)] by simp
  then have path: "event_path INTAKE (m_events ?n) COMPLETED"
    using assms(3) by (simp add: machine_ok_def)
  have "\<exists>e\<in>set (m_events ?n). ev_target e \<in> {DATA_VALIDATION}"
    by (rule event_path_gate [OF path, where A = "{INTAKE, NORMALIZE, FAILED_WITH_LIMITATIONS}"])
      (auto simp: workflow_step_iff)
  moreover have "\<exists>e\<in>set (m_events ?n). ev_target e \<in> {ADJUDICATION, HUMAN_REVIEW_REQUIRED}"
    by (rule event_path_gate [OF path, where A = "{INTAKE, NORMALIZE, DATA_VALIDATION, TASK_ROUTING,
          INDEPENDENT_ANALYSIS, TOOL_AND_RESEARCH, CRITIQUE, FAILED_WITH_LIMITATIONS}"])
      (auto simp: workflow_step_iff)
  ultimately show ?thesis using completed_has_synthesis [OF ok assms(3)] by simp
qed

text \<open>C12.  Terminal states are final.  From a terminal state every requested transition is
  refused.  Once a run has failed, no call changes its state or its event log.  Once it has
  completed, its state and log stay as they are until a call that observes the ledger
  (\<open>enforce_runtime\<close> or \<open>checked_runtime_window\<close>) is told of a budget failure; that one failure
  replaces the last event by the failed projection of it, and the run is failed from then on.
  (The counters, the ledger and the last reported failure may still move.)\<close>

theorem terminal_states_are_final:
  assumes "machine_init b c = Inr m" and "list_all machine_call_ok cs" and "list_all machine_call_ok ds"
  shows "(terminal (fold machine_step cs m) \<longrightarrow> transition t r (fold machine_step cs m)
      = Inl (Illegal_transition (m_state (fold machine_step cs m)) t)) \<and>
    (m_state (fold machine_step cs m) = FAILED_WITH_LIMITATIONS \<longrightarrow>
      m_state (fold machine_step (cs @ ds) m) = FAILED_WITH_LIMITATIONS \<and>
      m_events (fold machine_step (cs @ ds) m) = m_events (fold machine_step cs m)) \<and>
    (m_state (fold machine_step cs m) = COMPLETED \<longrightarrow>
      still_completed (fold machine_step cs m) (fold machine_step (cs @ ds) m) \<or>
      (\<exists>ds1 k ds2 f. ds = ds1 @ k # ds2 \<and>
        still_completed (fold machine_step cs m) (fold machine_step (cs @ ds1) m) \<and>
        reported_failure k (fold machine_step (cs @ ds1) m) = Some f \<and>
        failed_after_completion f (fold machine_step cs m) (fold machine_step (cs @ ds) m)))"
proof -
  let ?n = "fold machine_step cs m"
  have ok: "machine_ok ?n"
    using workflow.calls_inv [OF assms(2)] machine_init_ok [OF assms(1)] by simp
  have "transition t r ?n = Inl (Illegal_transition (m_state ?n) t)" if "terminal ?n"
    using that by (auto simp: transition_def terminal_def TERMINAL_STATES_def)
  moreover have "m_state (fold machine_step ds ?n) = FAILED_WITH_LIMITATIONS \<and>
      m_events (fold machine_step ds ?n) = m_events ?n" if "m_state ?n = FAILED_WITH_LIMITATIONS"
    using workflow.calls_grow [OF assms(3) ok] that by (simp add: machine_grows_def)
  ultimately show ?thesis using completed_run [OF ok _ assms(3)] by simp
qed

text \<open>C13.  However the machine was configured, its deliberation rounds stay within the policy it
  resolved, and the retries of every tool within the cap of its configuration: the policy's own
  for a \<open>BudgetPolicyV2\<close>, the legacy cap for a \<open>BudgetConfig\<close> (whose migrated policy allows
  none).  The usage it has settled respects every cap of the resolved policy as long as its
  ledger has not latched a failure.\<close>

theorem machine_counters_bounded:
  assumes "machine_init b c = Inr m" and "list_all machine_call_ok cs"
  shows "\<exists>p. resolved_policy b = Inr p \<and>
    m_deliberation_rounds (fold machine_step cs m) \<le> max_deliberation_rounds p \<and>
    m_tool_retries (fold machine_step cs m) t \<le> retry_cap b \<and>
    (l_clock_failure (m_ledger (fold machine_step cs m)) = None \<longrightarrow>
      within_limits p (l_snapshot (m_ledger (fold machine_step cs m))))"
proof -
  note init = machine_init_ok [OF assms(1)]
  have ok: "machine_ok m" using init by simp
  from machine_init_caps [OF assms(1)] workflow.calls_inv [OF assms(2) ok]
    workflow.calls_grow [OF assms(2) ok]
  show ?thesis by (auto simp: machine_ok_def machine_grows_def ledger_ok_def ledger_grows_def)
qed

text \<open>C14.  The graph never traps a run: from every state that is not terminal both
  \<open>COMPLETED\<close> and \<open>FAILED_WITH_LIMITATIONS\<close> can be reached, and from a terminal state there
  is no transition at all.\<close>

theorem workflow_can_finish:
  shows "if s \<in> TERMINAL_STATES then (\<forall>t. \<not> workflow_step s t)
    else workflow_step\<^sup>*\<^sup>* s COMPLETED \<and> workflow_step s FAILED_WITH_LIMITATIONS"
proof -
  have a: "workflow_step\<^sup>*\<^sup>* FINAL_SYNTHESIS COMPLETED"
    by (rule r_into_rtranclp) (rule synthesis_reachable)
  have b: "workflow_step\<^sup>*\<^sup>* ADJUDICATION COMPLETED"
    by (rule converse_rtranclp_into_rtranclp [OF synthesis_reachable(2) a])
  have c: "workflow_step\<^sup>*\<^sup>* CRITIQUE COMPLETED"
    by (rule converse_rtranclp_into_rtranclp [OF synthesis_reachable(3) b])
  have d: "workflow_step\<^sup>*\<^sup>* TOOL_AND_RESEARCH COMPLETED"
    by (rule converse_rtranclp_into_rtranclp [OF synthesis_reachable(4) c])
  have e: "workflow_step\<^sup>*\<^sup>* INDEPENDENT_ANALYSIS COMPLETED"
    by (rule converse_rtranclp_into_rtranclp [OF synthesis_reachable(5) c])
  have f: "workflow_step\<^sup>*\<^sup>* TASK_ROUTING COMPLETED"
    by (rule converse_rtranclp_into_rtranclp [OF synthesis_reachable(6) d])
  have g: "workflow_step\<^sup>*\<^sup>* DATA_VALIDATION COMPLETED"
    by (rule converse_rtranclp_into_rtranclp [OF synthesis_reachable(7) f])
  have h: "workflow_step\<^sup>*\<^sup>* NORMALIZE COMPLETED"
    by (rule converse_rtranclp_into_rtranclp [OF synthesis_reachable(8) g])
  have i: "workflow_step\<^sup>*\<^sup>* INTAKE COMPLETED"
    by (rule converse_rtranclp_into_rtranclp [OF synthesis_reachable(9) h])
  have j: "workflow_step\<^sup>*\<^sup>* HUMAN_REVIEW_REQUIRED COMPLETED"
    by (rule converse_rtranclp_into_rtranclp [OF synthesis_reachable(10) a])
  from a b c d e f g h i j fail_allowed [of s] show ?thesis
    by (cases s) (simp_all add: TERMINAL_STATES_def workflow_step_iff)
qed

section \<open>Witnesses\<close>

definition sample_machine :: machine where
  "sample_machine = \<lparr>m_policy = default_policy, m_state = INTAKE, m_events = [],
     m_deliberation_rounds = 0, m_tool_retries = (\<lambda>_. 0), m_tool_retry_limit = 0,
     m_ledger = sample_ledger, m_last_budget_failure = None\<rparr>"

lemma sample_machine_init: "machine_init (Policy_v2 default_policy) (Clock_ns 5) = Inr sample_machine"
  by (simp add: machine_init_def machine_start_def sample_ledger_init sample_machine_def)
    (simp add: default_policy_def)

definition sample_run_calls :: "machine_call list" where
  "sample_run_calls = map (\<lambda>t. Transition_call t ''step'')
     [NORMALIZE, DATA_VALIDATION, TASK_ROUTING, TOOL_AND_RESEARCH, CRITIQUE, ADJUDICATION,
      FINAL_SYNTHESIS, COMPLETED]"

lemma sample_run_calls_ok: "list_all machine_call_ok sample_run_calls"
  by (simp add: sample_run_calls_def machine_call_ok_def)

lemma sample_run_completed: "m_state (fold machine_step sample_run_calls sample_machine) = COMPLETED"
  by (simp add: sample_run_calls_def transition_def sample_machine_def)

lemma event_log_is_a_path_witness:
  "event_path INTAKE (m_events (fold machine_step sample_run_calls sample_machine)) COMPLETED"
  using event_log_is_a_path [OF sample_machine_init sample_run_calls_ok] sample_run_completed by simp

lemma completed_run_was_reviewed_witness:
  "\<exists>e\<in>set (m_events (fold machine_step sample_run_calls sample_machine)). ev_target e = DATA_VALIDATION"
  using completed_run_was_reviewed [OF sample_machine_init sample_run_calls_ok sample_run_completed] by blast

lemma terminal_states_are_final_witness:
  "\<exists>ds1 k ds2 f. [Round_call, Enforce_call (Clock_ns 3)] = ds1 @ k # ds2 \<and>
    failed_after_completion f (fold machine_step sample_run_calls sample_machine)
      (fold machine_step (sample_run_calls @ [Round_call, Enforce_call (Clock_ns 3)]) sample_machine)"
proof -
  have d: "list_all machine_call_ok [Round_call, Enforce_call (Clock_ns 3)]"
    by (simp add: machine_call_ok_def)
  have "m_state (fold machine_step (sample_run_calls @ [Round_call, Enforce_call (Clock_ns 3)])
      sample_machine) = FAILED_WITH_LIMITATIONS"
    by (simp add: sample_run_calls_def transition_def sample_machine_def start_deliberation_round_def
        enforce_runtime_def ledger_snapshot_def observe_runtime_def read_clock_def
        settle_observation_def sample_ledger_def project_budget_failure_def Let_def)
  then have "\<not> still_completed (fold machine_step sample_run_calls sample_machine)
      (fold machine_step (sample_run_calls @ [Round_call, Enforce_call (Clock_ns 3)]) sample_machine)"
    by (simp add: still_completed_def del: fold_append)
  with conjunct2 [OF conjunct2 [OF terminal_states_are_final
      [OF sample_machine_init sample_run_calls_ok d]]] sample_run_completed
  show ?thesis by blast
qed

lemma machine_counters_bounded_witness:
  "m_deliberation_rounds (fold machine_step [Round_call, Round_call] sample_machine) \<le> 1"
  using machine_counters_bounded [OF sample_machine_init, of "[Round_call, Round_call]"]
  by (simp add: machine_call_ok_def default_policy_def)

end
