(* ===== verification/DurableModels.thy ===== *)
theory DurableModels
  imports BudgetContracts
begin

text \<open>
  \<open>budgets/durable_models.py\<close>: the strict durable budget contracts.  One record per model
  class; \<open>..._ok\<close> is what pydantic checks when the model is built or revalidated (field
  constraints, field validators and model validators together), \<open>json_of_...\<close> its
  \<open>model_dump(mode="json")\<close>.  Nested models are always revalidated
  (\<open>revalidate_instances="always"\<close>), so \<open>..._ok\<close> of a model includes its parts.
\<close>

section \<open>Identifiers and hashes\<close>

definition alnum_chars :: "char list" where
  "alnum_chars = upper_chars @ lower_chars @ digit_chars"

definition SHA256_PATTERN :: re where
  "SHA256_PATTERN = Rep 64 (Some 64) (Cls hex_chars)"

definition PORTABLE_ID_PATTERN :: re where
  "PORTABLE_ID_PATTERN = Seq (Cls alnum_chars) (Rep 0 (Some 127) (Cls (alnum_chars @ ''._:-'')))"

definition ROLE_PATTERN :: re where
  "ROLE_PATTERN = Seq (Cls lower_chars) (Rep 0 (Some 63) (Cls (lower_chars @ digit_chars @ ''_-'')))"

definition space_chars :: "char list" where
  "space_chars = '' '' @ [CHR 0x09, CHR 0x0A, CHR 0x0B, CHR 0x0C, CHR 0x0D, CHR 0x1C, CHR 0x1D,
     CHR 0x1E, CHR 0x1F, CHR 0x85, CHR 0xA0]"

definition both_cases :: "char \<Rightarrow> char list" where
  "both_cases c = (if c \<in> set lower_chars then [c, char_of ((of_char c :: nat) - 32)] else [c])"

primrec lit_nocase :: "string \<Rightarrow> re" where
  "lit_nocase [] = Rep 0 (Some 0) WordB"
| "lit_nocase (c # s) = (if s = [] then Cls (both_cases c) else Seq (Cls (both_cases c)) (lit_nocase s))"

fun alts :: "re list \<Rightarrow> re" where
  "alts [] = Cls []"
| "alts [r] = r"
| "alts (r # s # rs) = Alt r (alts (s # rs))"

fun seqs :: "re list \<Rightarrow> re" where
  "seqs [] = Rep 0 (Some 0) WordB"
| "seqs [r] = r"
| "seqs (r # s # rs) = Seq r (seqs (s # rs))"

definition SECRET_SHAPE_PATTERN :: re where
  "SECRET_SHAPE_PATTERN = alts
     [seqs [WordB, lit_nocase ''sk-'', Rep 8 None (Cls (alnum_chars @ ''_-'')), WordB],
      seqs [WordB, lit_nocase ''gh'', Cls ''pousrPOUSR'', lit ''_'', Rep 20 None (Cls alnum_chars), WordB],
      seqs [WordB, lit_nocase ''bearer'', Rep 1 None (Cls space_chars),
            Rep 8 None (Cls (alnum_chars @ ''._~+/=-'')), WordB],
      seqs [alts [seqs [lit_nocase ''api'', Rep 0 (Some 1) (Cls ''_-''), lit_nocase ''key''],
                  lit_nocase ''password'', lit_nocase ''passwd'', lit_nocase ''secret'', lit_nocase ''token''],
            Rep 0 None (Cls space_chars), Cls '':='']]"

definition is_sha256 :: "string \<Rightarrow> bool" where "is_sha256 s = fullmatch SHA256_PATTERN s"

definition valid_identifier :: "string \<Rightarrow> bool" where
  "valid_identifier s \<longleftrightarrow> fullmatch PORTABLE_ID_PATTERN s \<and> \<not> search SECRET_SHAPE_PATTERN s"

definition valid_role :: "string \<Rightarrow> bool" where "valid_role s = fullmatch ROLE_PATTERN s"

definition opt_sha256 :: "string option \<Rightarrow> bool" where "opt_sha256 x = pred_option is_sha256 x"
definition opt_identifier :: "string option \<Rightarrow> bool" where "opt_identifier x = pred_option valid_identifier x"

lemma opt_simps [simp]:
  "opt_sha256 None" "opt_sha256 (Some s) = is_sha256 s"
  "opt_identifier None" "opt_identifier (Some s) = valid_identifier s"
  by (simp_all add: opt_sha256_def opt_identifier_def)

lemma is_sha256_digest [simp]: "is_sha256 (canonical_sha256 j)"
  using sha256_hex_format [of "utf8 (dumps j)"]
  by (simp add: is_sha256_def SHA256_PATTERN_def fullmatch_rep_cls canonical_sha256_def hex_chars_def)

definition jstr :: "string option \<Rightarrow> json" where "jstr = jopt JStr"
definition jint :: "int option \<Rightarrow> json" where "jint = jopt JInt"

section \<open>Enumerations\<close>

datatype owner_kind = ORCHESTRATOR | AGENT | TOOL | PROVIDER | INTERNAL_OWNER

fun owner_kind_value :: "owner_kind \<Rightarrow> string" where
  "owner_kind_value ORCHESTRATOR = ''orchestrator''"
| "owner_kind_value AGENT = ''agent''"
| "owner_kind_value TOOL = ''tool''"
| "owner_kind_value PROVIDER = ''provider''"
| "owner_kind_value INTERNAL_OWNER = ''internal''"

datatype permit_status = P_RESERVED | P_STARTED

fun permit_status_value :: "permit_status \<Rightarrow> string" where
  "permit_status_value P_RESERVED = ''reserved''"
| "permit_status_value P_STARTED = ''started''"

datatype attempt_status =
  A_RESERVED | A_STARTED | A_SUCCEEDED | A_FAILED | A_CANCELLED | A_EFFECT_UNKNOWN

fun attempt_status_value :: "attempt_status \<Rightarrow> string" where
  "attempt_status_value A_RESERVED = ''reserved''"
| "attempt_status_value A_STARTED = ''started''"
| "attempt_status_value A_SUCCEEDED = ''succeeded''"
| "attempt_status_value A_FAILED = ''failed''"
| "attempt_status_value A_CANCELLED = ''cancelled''"
| "attempt_status_value A_EFFECT_UNKNOWN = ''effect_unknown''"

datatype settlement_status =
  S_SUCCEEDED | S_FAILED | S_CANCELLED | S_RELEASED_NO_EFFECT | S_EFFECT_UNKNOWN | S_OVERRUN

fun settlement_status_value :: "settlement_status \<Rightarrow> string" where
  "settlement_status_value S_SUCCEEDED = ''succeeded''"
| "settlement_status_value S_FAILED = ''failed''"
| "settlement_status_value S_CANCELLED = ''cancelled''"
| "settlement_status_value S_RELEASED_NO_EFFECT = ''released_no_effect''"
| "settlement_status_value S_EFFECT_UNKNOWN = ''effect_unknown''"
| "settlement_status_value S_OVERRUN = ''settlement_overrun''"

datatype cancellation_state =
  C_NOT_REQUESTED | C_REQUESTED | C_ACKNOWLEDGED | C_CANCELLED | C_UNCONFIRMED | C_EFFECT_UNKNOWN

fun cancellation_state_value :: "cancellation_state \<Rightarrow> string" where
  "cancellation_state_value C_NOT_REQUESTED = ''not_requested''"
| "cancellation_state_value C_REQUESTED = ''requested''"
| "cancellation_state_value C_ACKNOWLEDGED = ''acknowledged''"
| "cancellation_state_value C_CANCELLED = ''cancelled''"
| "cancellation_state_value C_UNCONFIRMED = ''unconfirmed''"
| "cancellation_state_value C_EFFECT_UNKNOWN = ''effect_unknown''"

datatype operation_kind =
  K_INITIALIZE | K_RESERVE | K_START | K_SETTLE | K_RELEASE_NO_EFFECT | K_REQUEST_CANCEL |
  K_ACKNOWLEDGE_CANCEL | K_RECONCILE | K_TIGHTEN_POLICY

fun operation_kind_value :: "operation_kind \<Rightarrow> string" where
  "operation_kind_value K_INITIALIZE = ''initialize''"
| "operation_kind_value K_RESERVE = ''reserve''"
| "operation_kind_value K_START = ''start''"
| "operation_kind_value K_SETTLE = ''settle''"
| "operation_kind_value K_RELEASE_NO_EFFECT = ''release_no_effect''"
| "operation_kind_value K_REQUEST_CANCEL = ''request_cancel''"
| "operation_kind_value K_ACKNOWLEDGE_CANCEL = ''acknowledge_cancel''"
| "operation_kind_value K_RECONCILE = ''reconcile''"
| "operation_kind_value K_TIGHTEN_POLICY = ''tighten_policy''"

datatype operation_outcome = O_APPLIED | O_EXACT_REPLAY | O_REFUSED | O_RECONCILIATION_REQUIRED

fun operation_outcome_value :: "operation_outcome \<Rightarrow> string" where
  "operation_outcome_value O_APPLIED = ''applied''"
| "operation_outcome_value O_EXACT_REPLAY = ''exact_replay''"
| "operation_outcome_value O_REFUSED = ''refused''"
| "operation_outcome_value O_RECONCILIATION_REQUIRED = ''reconciliation_required''"

datatype mutation_status = M_APPLIED | M_EXACT_REPLAY

datatype durable_code =
  D_INVALID_INPUT | D_POLICY_MISMATCH | D_ACTIVATION_MISMATCH | D_BUDGET_EXCEEDED |
  D_DEADLINE_EXCEEDED | D_CLOCK_ROLLBACK | D_CONCURRENCY_EXCEEDED | D_IDEMPOTENCY_CONFLICT |
  D_CAS_CONFLICT | D_RUN_LOCKED | D_DURABILITY_UNCERTAIN | D_EFFECT_UNKNOWN |
  D_RECONCILIATION_REQUIRED | D_SETTLEMENT_OVERRUN | D_CANCEL_UNCONFIRMED |
  D_ISOLATION_REQUIRED | D_RETRY_FORBIDDEN | D_FAILURE_LATCHED

fun durable_code_value :: "durable_code \<Rightarrow> string" where
  "durable_code_value D_INVALID_INPUT = ''invalid_input''"
| "durable_code_value D_POLICY_MISMATCH = ''policy_mismatch''"
| "durable_code_value D_ACTIVATION_MISMATCH = ''activation_mismatch''"
| "durable_code_value D_BUDGET_EXCEEDED = ''budget_exceeded''"
| "durable_code_value D_DEADLINE_EXCEEDED = ''deadline_exceeded''"
| "durable_code_value D_CLOCK_ROLLBACK = ''clock_rollback''"
| "durable_code_value D_CONCURRENCY_EXCEEDED = ''concurrency_exceeded''"
| "durable_code_value D_IDEMPOTENCY_CONFLICT = ''idempotency_conflict''"
| "durable_code_value D_CAS_CONFLICT = ''cas_conflict''"
| "durable_code_value D_RUN_LOCKED = ''run_locked''"
| "durable_code_value D_DURABILITY_UNCERTAIN = ''durability_uncertain''"
| "durable_code_value D_EFFECT_UNKNOWN = ''effect_unknown''"
| "durable_code_value D_RECONCILIATION_REQUIRED = ''reconciliation_required''"
| "durable_code_value D_SETTLEMENT_OVERRUN = ''settlement_overrun''"
| "durable_code_value D_CANCEL_UNCONFIRMED = ''cancel_unconfirmed''"
| "durable_code_value D_ISOLATION_REQUIRED = ''isolation_required''"
| "durable_code_value D_RETRY_FORBIDDEN = ''retry_forbidden''"
| "durable_code_value D_FAILURE_LATCHED = ''failure_latched''"

section \<open>Policies\<close>

record execution_activation =
  ea_max_concurrent_agents :: int
  ea_max_automatic_retries :: int

definition execution_activation_ok :: "execution_activation \<Rightarrow> bool" where
  "execution_activation_ok a \<longleftrightarrow>
     1 \<le> ea_max_concurrent_agents a \<and> ea_max_concurrent_agents a \<le> 32 \<and>
     0 \<le> ea_max_automatic_retries a \<and> ea_max_automatic_retries a \<le> 10"

record durable_policy =
  dp_base_policy :: budget_policy
  dp_activation :: execution_activation

definition durable_policy_ok :: "durable_policy \<Rightarrow> bool" where
  "durable_policy_ok p \<longleftrightarrow>
     budget_policy_ok (dp_base_policy p) \<and> execution_activation_ok (dp_activation p) \<and>
     ea_max_automatic_retries (dp_activation p) \<le> max_tool_retries (dp_base_policy p)"

definition json_of_activation :: "execution_activation \<Rightarrow> json" where
  "json_of_activation a = JObj
     [(''schema_version'', JStr ''1.0.0''),
      (''max_concurrent_agents'', JInt (ea_max_concurrent_agents a)),
      (''max_automatic_retries'', JInt (ea_max_automatic_retries a))]"

definition json_of_durable_policy :: "durable_policy \<Rightarrow> json" where
  "json_of_durable_policy p = JObj
     [(''schema_version'', JStr ''1.0.0''),
      (''base_policy'', json_of_policy (dp_base_policy p)),
      (''activation'', json_of_activation (dp_activation p))]"

definition dp_policy_sha256 :: "durable_policy \<Rightarrow> string" where
  "dp_policy_sha256 p = canonical_sha256 (json_of_policy (dp_base_policy p))"

definition dp_activation_sha256 :: "durable_policy \<Rightarrow> string" where
  "dp_activation_sha256 p = canonical_sha256 (json_of_activation (dp_activation p))"

definition dp_canonical_sha256 :: "durable_policy \<Rightarrow> string" where
  "dp_canonical_sha256 p = canonical_sha256 (json_of_durable_policy p)"

section \<open>Resource amounts\<close>

datatype resource =
  Active_runtime_ns | Provider_attempts | Tool_attempts | Retry_attempts |
  External_cost_micro_usd | Provider_output_bytes | Tool_input_bytes | Tool_output_bytes |
  Artifact_bytes | Run_bytes | Concurrency_slots

definition RESOURCE_ORDER :: "resource list" where
  "RESOURCE_ORDER =
     [Active_runtime_ns, Provider_attempts, Tool_attempts, Retry_attempts,
      External_cost_micro_usd, Provider_output_bytes, Tool_input_bytes, Tool_output_bytes,
      Artifact_bytes, Run_bytes, Concurrency_slots]"

fun resource_name :: "resource \<Rightarrow> string" where
  "resource_name Active_runtime_ns = ''active_runtime_ns''"
| "resource_name Provider_attempts = ''provider_attempts''"
| "resource_name Tool_attempts = ''tool_attempts''"
| "resource_name Retry_attempts = ''retry_attempts''"
| "resource_name External_cost_micro_usd = ''external_cost_micro_usd''"
| "resource_name Provider_output_bytes = ''provider_output_bytes''"
| "resource_name Tool_input_bytes = ''tool_input_bytes''"
| "resource_name Tool_output_bytes = ''tool_output_bytes''"
| "resource_name Artifact_bytes = ''artifact_bytes''"
| "resource_name Run_bytes = ''run_bytes''"
| "resource_name Concurrency_slots = ''concurrency_slots''"

record resource_amounts =
  ra_active_runtime_ns :: int
  ra_provider_attempts :: int
  ra_tool_attempts :: int
  ra_retry_attempts :: int
  ra_external_cost_micro_usd :: int
  ra_provider_output_bytes :: int
  ra_tool_input_bytes :: int
  ra_tool_output_bytes :: int
  ra_artifact_bytes :: int
  ra_run_bytes :: int
  ra_concurrency_slots :: int

text \<open>\<open>getattr(amounts, name)\<close> and \<open>model_validate({name: value})\<close>.\<close>

fun amount :: "'a resource_amounts_scheme \<Rightarrow> resource \<Rightarrow> int" where
  "amount a Active_runtime_ns = ra_active_runtime_ns a"
| "amount a Provider_attempts = ra_provider_attempts a"
| "amount a Tool_attempts = ra_tool_attempts a"
| "amount a Retry_attempts = ra_retry_attempts a"
| "amount a External_cost_micro_usd = ra_external_cost_micro_usd a"
| "amount a Provider_output_bytes = ra_provider_output_bytes a"
| "amount a Tool_input_bytes = ra_tool_input_bytes a"
| "amount a Tool_output_bytes = ra_tool_output_bytes a"
| "amount a Artifact_bytes = ra_artifact_bytes a"
| "amount a Run_bytes = ra_run_bytes a"
| "amount a Concurrency_slots = ra_concurrency_slots a"

definition amounts_of :: "(resource \<Rightarrow> int) \<Rightarrow> resource_amounts" where
  "amounts_of f =
     \<lparr>ra_active_runtime_ns = f Active_runtime_ns, ra_provider_attempts = f Provider_attempts,
      ra_tool_attempts = f Tool_attempts, ra_retry_attempts = f Retry_attempts,
      ra_external_cost_micro_usd = f External_cost_micro_usd,
      ra_provider_output_bytes = f Provider_output_bytes, ra_tool_input_bytes = f Tool_input_bytes,
      ra_tool_output_bytes = f Tool_output_bytes, ra_artifact_bytes = f Artifact_bytes,
      ra_run_bytes = f Run_bytes, ra_concurrency_slots = f Concurrency_slots\<rparr>"

lemma amount_of [simp]: "amount (amounts_of f) r = f r"
  by (cases r) (simp_all add: amounts_of_def)

lemma set_RESOURCE_ORDER [simp]: "set RESOURCE_ORDER = UNIV"
proof -
  have "r \<in> set RESOURCE_ORDER" for r by (cases r) (simp_all add: RESOURCE_ORDER_def)
  then show ?thesis by blast
qed

definition resource_amounts_ok :: "'a resource_amounts_scheme \<Rightarrow> bool" where
  "resource_amounts_ok a \<longleftrightarrow> list_all (\<lambda>r. 0 \<le> amount a r) RESOURCE_ORDER"

lemma resource_amounts_ok_iff: "resource_amounts_ok a \<longleftrightarrow> (\<forall>r. 0 \<le> amount a r)"
  by (simp add: resource_amounts_ok_def list_all_iff)

definition no_amounts :: resource_amounts where "no_amounts = amounts_of (\<lambda>_. 0)"

definition add_cumulative :: "resource_amounts \<Rightarrow> resource_amounts \<Rightarrow> resource_amounts" where
  "add_cumulative a b = amounts_of (\<lambda>r. amount a r + amount b r)"

definition amount_fields :: "'a resource_amounts_scheme \<Rightarrow> (string \<times> json) list" where
  "amount_fields a = map (\<lambda>r. (resource_name r, JInt (amount a r))) RESOURCE_ORDER"

definition json_of_amounts :: "'a resource_amounts_scheme \<Rightarrow> json" where
  "json_of_amounts a = JObj ((''schema_version'', JStr ''1.0.0'') # amount_fields a)"

definition CUMULATIVE :: "resource set" where
  "CUMULATIVE = {Active_runtime_ns, Provider_attempts, Tool_attempts, Retry_attempts,
     External_cost_micro_usd, Run_bytes}"

record durable_usage = resource_amounts +
  du_peak_concurrency :: int

definition durable_usage_ok :: "durable_usage \<Rightarrow> bool" where
  "durable_usage_ok u \<longleftrightarrow>
     resource_amounts_ok u \<and> 0 \<le> du_peak_concurrency u \<and> du_peak_concurrency u \<le> 32"

definition usage_of :: "(resource \<Rightarrow> int) \<Rightarrow> int \<Rightarrow> durable_usage" where
  "usage_of f peak = resource_amounts.extend (amounts_of f) \<lparr>du_peak_concurrency = peak\<rparr>"

lemma usage_of_simps [simp]:
  "amount (usage_of f peak) r = f r" "du_peak_concurrency (usage_of f peak) = peak"
  by (cases r) (simp_all add: usage_of_def amounts_of_def resource_amounts.defs)

definition apply_actual_values :: "durable_usage \<Rightarrow> 'a resource_amounts_scheme \<Rightarrow> durable_usage" where
  "apply_actual_values u a =
     usage_of (\<lambda>r. if r = Concurrency_slots then 0
                  else if r \<in> CUMULATIVE then amount u r + amount a r
                  else max (amount u r) (amount a r))
       (max (du_peak_concurrency u) (amount a Concurrency_slots))"

definition json_of_usage :: "durable_usage \<Rightarrow> json" where
  "json_of_usage u = JObj ((''schema_version'', JStr ''1.0.0'') # amount_fields u
     @ [(''peak_concurrency'', JInt (du_peak_concurrency u))])"

section \<open>Lineage, reservations, permits\<close>

record lineage =
  li_owner_kind :: owner_kind
  li_owner_id :: string
  li_role :: string
  li_phase_id :: string
  li_assignment_id :: "string option"
  li_root_attempt_id :: string
  li_parent_attempt_id :: "string option"
  li_attempt_id :: string
  li_root_context_id :: string
  li_parent_context_id :: "string option"
  li_context_id :: string
  li_context_source_sha256 :: string
  li_context_policy_sha256 :: string
  li_context_integrity_sha256 :: string
  li_execution_ordinal :: int
  li_idempotency_key :: string
  li_idempotency_request_sha256 :: string

definition root_and_parent_lineage_ok :: "lineage \<Rightarrow> bool" where
  "root_and_parent_lineage_ok l \<longleftrightarrow>
     (li_parent_attempt_id l = None) = (li_parent_context_id l = None) \<and>
     (case li_parent_attempt_id l of
        None \<Rightarrow> li_attempt_id l = li_root_attempt_id l \<and> li_context_id l = li_root_context_id l
      | Some parent \<Rightarrow> li_attempt_id l \<notin> {li_root_attempt_id l, parent} \<and>
          li_context_id l \<noteq> li_root_context_id l \<and> Some (li_context_id l) \<noteq> li_parent_context_id l)"

definition lineage_ok :: "lineage \<Rightarrow> bool" where
  "lineage_ok l \<longleftrightarrow>
     list_all valid_identifier [li_owner_id l, li_phase_id l, li_root_attempt_id l, li_attempt_id l,
       li_root_context_id l, li_context_id l, li_idempotency_key l] \<and>
     list_all opt_identifier [li_assignment_id l, li_parent_attempt_id l, li_parent_context_id l] \<and>
     valid_role (li_role l) \<and>
     list_all is_sha256 [li_context_source_sha256 l, li_context_policy_sha256 l,
       li_context_integrity_sha256 l, li_idempotency_request_sha256 l] \<and>
     0 \<le> li_execution_ordinal l \<and> root_and_parent_lineage_ok l"

definition json_of_lineage :: "lineage \<Rightarrow> json" where
  "json_of_lineage l = JObj
     [(''schema_version'', JStr ''1.0.0''),
      (''owner_kind'', JStr (owner_kind_value (li_owner_kind l))),
      (''owner_id'', JStr (li_owner_id l)), (''role'', JStr (li_role l)),
      (''phase_id'', JStr (li_phase_id l)), (''assignment_id'', jstr (li_assignment_id l)),
      (''root_attempt_id'', JStr (li_root_attempt_id l)),
      (''parent_attempt_id'', jstr (li_parent_attempt_id l)),
      (''attempt_id'', JStr (li_attempt_id l)), (''root_context_id'', JStr (li_root_context_id l)),
      (''parent_context_id'', jstr (li_parent_context_id l)),
      (''context_id'', JStr (li_context_id l)),
      (''context_source_sha256'', JStr (li_context_source_sha256 l)),
      (''context_policy_sha256'', JStr (li_context_policy_sha256 l)),
      (''context_integrity_sha256'', JStr (li_context_integrity_sha256 l)),
      (''execution_ordinal'', JInt (li_execution_ordinal l)),
      (''idempotency_key'', JStr (li_idempotency_key l)),
      (''idempotency_request_sha256'', JStr (li_idempotency_request_sha256 l))]"

text \<open>The fields a retry must share with its parent.\<close>

definition same_stable_fields :: "lineage \<Rightarrow> lineage \<Rightarrow> bool" where
  "same_stable_fields l p \<longleftrightarrow>
     li_owner_kind l = li_owner_kind p \<and> li_owner_id l = li_owner_id p \<and> li_role l = li_role p \<and>
     li_phase_id l = li_phase_id p \<and> li_assignment_id l = li_assignment_id p \<and>
     li_root_attempt_id l = li_root_attempt_id p \<and> li_root_context_id l = li_root_context_id p \<and>
     li_context_source_sha256 l = li_context_source_sha256 p \<and>
     li_execution_ordinal l = li_execution_ordinal p"

record reservation =
  rv_reservation_id :: string
  rv_requested :: resource_amounts
  rv_execution_class :: execution_class
  rv_external_cost_estimate_authenticated :: bool
  rv_request_sha256 :: string

definition reserve_exactly_one_slot :: "reservation \<Rightarrow> bool" where
  "reserve_exactly_one_slot r \<longleftrightarrow>
     ra_concurrency_slots (rv_requested r) = 1 \<and> rv_execution_class r \<noteq> Unknown \<and>
     \<not> (rv_execution_class r = Local_free \<and>
        (ra_external_cost_micro_usd (rv_requested r) \<noteq> 0 \<or> rv_external_cost_estimate_authenticated r)) \<and>
     \<not> (rv_execution_class r = External \<and>
        (ra_external_cost_micro_usd (rv_requested r) \<le> 0 \<or> \<not> rv_external_cost_estimate_authenticated r))"

definition reservation_ok :: "reservation \<Rightarrow> bool" where
  "reservation_ok r \<longleftrightarrow>
     valid_identifier (rv_reservation_id r) \<and> resource_amounts_ok (rv_requested r) \<and>
     is_sha256 (rv_request_sha256 r) \<and> reserve_exactly_one_slot r"

definition json_of_reservation :: "reservation \<Rightarrow> json" where
  "json_of_reservation r = JObj
     [(''schema_version'', JStr ''1.0.0''), (''reservation_id'', JStr (rv_reservation_id r)),
      (''requested'', json_of_amounts (rv_requested r)),
      (''execution_class'', JStr (execution_class_value (rv_execution_class r))),
      (''external_cost_estimate_authenticated'', JBool (rv_external_cost_estimate_authenticated r)),
      (''request_sha256'', JStr (rv_request_sha256 r))]"

record permit =
  pm_permit_id :: string
  pm_reservation :: reservation
  pm_lineage :: lineage
  pm_status :: permit_status
  pm_reserved_active_runtime_ns :: int
  pm_started_active_runtime_ns :: "int option"

definition permit_ok :: "permit \<Rightarrow> bool" where
  "permit_ok p \<longleftrightarrow>
     valid_identifier (pm_permit_id p) \<and> reservation_ok (pm_reservation p) \<and>
     lineage_ok (pm_lineage p) \<and> 0 \<le> pm_reserved_active_runtime_ns p \<and>
     pred_option (\<lambda>n. 0 \<le> n) (pm_started_active_runtime_ns p) \<and>
     (pm_status p = P_STARTED) = (pm_started_active_runtime_ns p \<noteq> None) \<and>
     pred_option (\<lambda>n. pm_reserved_active_runtime_ns p \<le> n) (pm_started_active_runtime_ns p)"

definition json_of_permit :: "permit \<Rightarrow> json" where
  "json_of_permit p = JObj
     [(''schema_version'', JStr ''1.0.0''), (''permit_id'', JStr (pm_permit_id p)),
      (''reservation'', json_of_reservation (pm_reservation p)),
      (''lineage'', json_of_lineage (pm_lineage p)),
      (''status'', JStr (permit_status_value (pm_status p))),
      (''reserved_active_runtime_ns'', JInt (pm_reserved_active_runtime_ns p)),
      (''started_active_runtime_ns'', jint (pm_started_active_runtime_ns p))]"

record attempt =
  at_permit_id :: string
  at_lineage :: lineage
  at_status :: attempt_status
  at_failure_category :: "failure_category option"
  at_effect_evidence_sha256 :: "string option"

definition attempt_ok :: "attempt \<Rightarrow> bool" where
  "attempt_ok a \<longleftrightarrow>
     valid_identifier (at_permit_id a) \<and> lineage_ok (at_lineage a) \<and>
     opt_sha256 (at_effect_evidence_sha256 a)"

definition json_of_attempt :: "attempt \<Rightarrow> json" where
  "json_of_attempt a = JObj
     [(''schema_version'', JStr ''1.0.0''), (''permit_id'', JStr (at_permit_id a)),
      (''lineage'', json_of_lineage (at_lineage a)),
      (''status'', JStr (attempt_status_value (at_status a))),
      (''failure_category'', jopt (\<lambda>c. JStr (failure_category_value c)) (at_failure_category a)),
      (''effect_evidence_sha256'', jstr (at_effect_evidence_sha256 a))]"

section \<open>Settlements, cancellations, operations, failures, events\<close>

record tool_evidence =
  te_tool_request_bytes_sha256 :: string
  te_tool_result_bytes_sha256 :: string
  te_contract_version :: string
  te_reproduction_metadata_sha256 :: string
  te_execution_ordinal :: int

definition tool_evidence_ok :: "tool_evidence \<Rightarrow> bool" where
  "tool_evidence_ok t \<longleftrightarrow>
     list_all is_sha256 [te_tool_request_bytes_sha256 t, te_tool_result_bytes_sha256 t,
       te_reproduction_metadata_sha256 t] \<and>
     1 \<le> length (te_contract_version t) \<and> length (te_contract_version t) \<le> 64 \<and>
     0 \<le> te_execution_ordinal t"

definition json_of_tool_evidence :: "tool_evidence \<Rightarrow> json" where
  "json_of_tool_evidence t = JObj
     [(''schema_version'', JStr ''1.0.0''),
      (''tool_request_bytes_sha256'', JStr (te_tool_request_bytes_sha256 t)),
      (''tool_result_bytes_sha256'', JStr (te_tool_result_bytes_sha256 t)),
      (''contract_version'', JStr (te_contract_version t)),
      (''reproduction_metadata_sha256'', JStr (te_reproduction_metadata_sha256 t)),
      (''execution_ordinal'', JInt (te_execution_ordinal t))]"

record settlement =
  st_settlement_id :: string
  st_permit_id :: string
  st_operation_id :: string
  st_operation_request_sha256 :: string
  st_reserved :: resource_amounts
  st_actual :: resource_amounts
  st_released :: resource_amounts
  st_status :: settlement_status
  st_result_sha256 :: "string option"
  st_effect_evidence_sha256 :: "string option"
  st_cancellation_evidence_sha256 :: "string option"
  st_deterministic_tool_evidence :: "tool_evidence option"
  st_settled_active_runtime_ns :: int

definition release_is_exact :: "settlement \<Rightarrow> bool" where
  "release_is_exact s \<longleftrightarrow>
     list_all (\<lambda>r. if amount (st_actual s) r \<le> amount (st_reserved s) r
        then amount (st_released s) r = amount (st_reserved s) r - amount (st_actual s) r
        else amount (st_released s) r = 0) RESOURCE_ORDER \<and>
     list_ex (\<lambda>r. amount (st_reserved s) r < amount (st_actual s) r) RESOURCE_ORDER
       = (st_status s = S_OVERRUN) \<and>
     \<not> (st_status s = S_RELEASED_NO_EFFECT \<and>
        list_ex (\<lambda>r. amount (st_actual s) r \<noteq> 0) RESOURCE_ORDER)"

definition settlement_ok :: "settlement \<Rightarrow> bool" where
  "settlement_ok s \<longleftrightarrow>
     valid_identifier (st_settlement_id s) \<and> valid_identifier (st_permit_id s) \<and>
     valid_identifier (st_operation_id s) \<and> is_sha256 (st_operation_request_sha256 s) \<and>
     resource_amounts_ok (st_reserved s) \<and> resource_amounts_ok (st_actual s) \<and>
     resource_amounts_ok (st_released s) \<and> opt_sha256 (st_result_sha256 s) \<and>
     opt_sha256 (st_effect_evidence_sha256 s) \<and> opt_sha256 (st_cancellation_evidence_sha256 s) \<and>
     pred_option tool_evidence_ok (st_deterministic_tool_evidence s) \<and>
     0 \<le> st_settled_active_runtime_ns s \<and> release_is_exact s"

definition json_of_settlement :: "settlement \<Rightarrow> json" where
  "json_of_settlement s = JObj
     [(''schema_version'', JStr ''1.0.0''), (''settlement_id'', JStr (st_settlement_id s)),
      (''permit_id'', JStr (st_permit_id s)), (''operation_id'', JStr (st_operation_id s)),
      (''operation_request_sha256'', JStr (st_operation_request_sha256 s)),
      (''reserved'', json_of_amounts (st_reserved s)), (''actual'', json_of_amounts (st_actual s)),
      (''released'', json_of_amounts (st_released s)),
      (''status'', JStr (settlement_status_value (st_status s))),
      (''result_sha256'', jstr (st_result_sha256 s)),
      (''effect_evidence_sha256'', jstr (st_effect_evidence_sha256 s)),
      (''cancellation_evidence_sha256'', jstr (st_cancellation_evidence_sha256 s)),
      (''deterministic_tool_evidence'', jopt json_of_tool_evidence (st_deterministic_tool_evidence s)),
      (''settled_active_runtime_ns'', JInt (st_settled_active_runtime_ns s))]"

record cancellation =
  ca_permit_id :: string
  ca_state :: cancellation_state
  ca_requested_operation_id :: "string option"
  ca_evidence_sha256 :: "string option"
  ca_worker_live :: bool
  ca_observed_active_runtime_ns :: int

definition cancellation_evidence_is_conservative :: "cancellation \<Rightarrow> bool" where
  "cancellation_evidence_is_conservative c \<longleftrightarrow>
     (if ca_state c = C_NOT_REQUESTED
      then ca_requested_operation_id c = None \<and> ca_evidence_sha256 c = None
      else ca_requested_operation_id c \<noteq> None) \<and>
     \<not> (ca_state c = C_CANCELLED \<and> (ca_worker_live c \<or> ca_evidence_sha256 c = None)) \<and>
     \<not> (ca_worker_live c \<and> ca_state c \<notin> {C_REQUESTED, C_UNCONFIRMED, C_EFFECT_UNKNOWN})"

definition cancellation_ok :: "cancellation \<Rightarrow> bool" where
  "cancellation_ok c \<longleftrightarrow>
     valid_identifier (ca_permit_id c) \<and> opt_identifier (ca_requested_operation_id c) \<and>
     opt_sha256 (ca_evidence_sha256 c) \<and> 0 \<le> ca_observed_active_runtime_ns c \<and>
     cancellation_evidence_is_conservative c"

definition json_of_cancellation :: "cancellation \<Rightarrow> json" where
  "json_of_cancellation c = JObj
     [(''schema_version'', JStr ''1.0.0''), (''permit_id'', JStr (ca_permit_id c)),
      (''state'', JStr (cancellation_state_value (ca_state c))),
      (''requested_operation_id'', jstr (ca_requested_operation_id c)),
      (''evidence_sha256'', jstr (ca_evidence_sha256 c)), (''worker_live'', JBool (ca_worker_live c)),
      (''observed_active_runtime_ns'', JInt (ca_observed_active_runtime_ns c))]"

record idempotency =
  id_operation_id :: string
  id_kind :: operation_kind
  id_request_sha256 :: string
  id_outcome :: operation_outcome
  id_result_sha256 :: string
  id_subject_id :: "string option"

definition idempotency_ok :: "idempotency \<Rightarrow> bool" where
  "idempotency_ok r \<longleftrightarrow>
     valid_identifier (id_operation_id r) \<and> is_sha256 (id_request_sha256 r) \<and>
     is_sha256 (id_result_sha256 r) \<and> opt_identifier (id_subject_id r)"

definition json_of_idempotency :: "idempotency \<Rightarrow> json" where
  "json_of_idempotency r = JObj
     [(''schema_version'', JStr ''1.0.0''), (''operation_id'', JStr (id_operation_id r)),
      (''kind'', JStr (operation_kind_value (id_kind r))),
      (''request_sha256'', JStr (id_request_sha256 r)),
      (''outcome'', JStr (operation_outcome_value (id_outcome r))),
      (''result_sha256'', JStr (id_result_sha256 r)), (''subject_id'', jstr (id_subject_id r))]"

record durable_failure =
  df_code :: durable_code
  df_operation_id :: "string option"
  df_resource :: "resource option"
  df_limit :: "int option"
  df_observed :: "int option"
  df_reconciliation_required :: bool
  df_effect_unknown :: bool
  df_evidence_sha256 :: "string option"

definition durable_failure_ok :: "durable_failure \<Rightarrow> bool" where
  "durable_failure_ok f \<longleftrightarrow>
     opt_identifier (df_operation_id f) \<and> pred_option (\<lambda>n. 0 \<le> n) (df_limit f) \<and>
     pred_option (\<lambda>n. 0 \<le> n) (df_observed f) \<and> opt_sha256 (df_evidence_sha256 f) \<and>
     \<not> (df_code f = D_EFFECT_UNKNOWN \<and> \<not> df_effect_unknown f) \<and>
     \<not> (df_effect_unknown f \<and> \<not> df_reconciliation_required f)"

definition json_of_durable_failure :: "durable_failure \<Rightarrow> json" where
  "json_of_durable_failure f = JObj
     [(''schema_version'', JStr ''1.0.0''), (''code'', JStr (durable_code_value (df_code f))),
      (''operation_id'', jstr (df_operation_id f)),
      (''resource'', jopt (\<lambda>r. JStr (resource_name r)) (df_resource f)),
      (''limit'', jint (df_limit f)), (''observed'', jint (df_observed f)),
      (''reconciliation_required'', JBool (df_reconciliation_required f)),
      (''effect_unknown'', JBool (df_effect_unknown f)),
      (''evidence_sha256'', jstr (df_evidence_sha256 f))]"

record event =
  ev_ordinal :: int
  ev_kind :: operation_kind
  ev_operation_id :: string
  ev_subject_id :: "string option"
  ev_event_sha256 :: string

definition event_ok :: "event \<Rightarrow> bool" where
  "event_ok e \<longleftrightarrow>
     0 \<le> ev_ordinal e \<and> valid_identifier (ev_operation_id e) \<and> opt_identifier (ev_subject_id e) \<and>
     is_sha256 (ev_event_sha256 e)"

definition json_of_event :: "event \<Rightarrow> json" where
  "json_of_event e = JObj
     [(''schema_version'', JStr ''1.0.0''), (''ordinal'', JInt (ev_ordinal e)),
      (''kind'', JStr (operation_kind_value (ev_kind e))),
      (''operation_id'', JStr (ev_operation_id e)), (''subject_id'', jstr (ev_subject_id e)),
      (''event_sha256'', JStr (ev_event_sha256 e))]"

definition event_payload :: "int \<Rightarrow> operation_kind \<Rightarrow> string \<Rightarrow> string option \<Rightarrow> string \<Rightarrow> json" where
  "event_payload ordinal kind operation_id subject_id result_sha256 = JObj
     [(''ordinal'', JInt ordinal), (''kind'', JStr (operation_kind_value kind)),
      (''operation_id'', JStr operation_id), (''subject_id'', jstr subject_id),
      (''result_sha256'', JStr result_sha256)]"

section \<open>The durable state\<close>

record durable_state =
  ds_run_id :: string
  ds_generation :: int
  ds_previous_state_sha256 :: "string option"
  ds_policy :: durable_policy
  ds_policy_sha256 :: string
  ds_activation_sha256 :: string
  ds_usage :: durable_usage
  ds_active_permits :: "permit list"
  ds_settlements :: "settlement list"
  ds_attempts :: "attempt list"
  ds_cancellations :: "cancellation list"
  ds_operations :: "idempotency list"
  ds_events :: "event list"
  ds_failure_latch :: "durable_failure option"
  ds_active_runtime_remaining_ns :: int

definition json_of_state :: "durable_state \<Rightarrow> json" where
  "json_of_state s = JObj
     [(''schema_version'', JStr ''1.0.0''),
      (''artifact_schema'', JStr ''poker-durable-budget-state-artifact-v1''),
      (''canonicalization'', JStr ''poker-durable-budget-json-v1''),
      (''hash_algorithm'', JStr ''sha256''), (''producer_id'', JStr ''p2-011b-durable-budget''),
      (''producer_version'', JStr ''0.1.0''), (''run_id'', JStr (ds_run_id s)),
      (''generation'', JInt (ds_generation s)),
      (''previous_state_sha256'', jstr (ds_previous_state_sha256 s)),
      (''policy'', json_of_durable_policy (ds_policy s)),
      (''policy_sha256'', JStr (ds_policy_sha256 s)),
      (''activation_sha256'', JStr (ds_activation_sha256 s)), (''usage'', json_of_usage (ds_usage s)),
      (''active_permits'', JList (map json_of_permit (ds_active_permits s))),
      (''settlements'', JList (map json_of_settlement (ds_settlements s))),
      (''attempts'', JList (map json_of_attempt (ds_attempts s))),
      (''cancellations'', JList (map json_of_cancellation (ds_cancellations s))),
      (''operations'', JList (map json_of_idempotency (ds_operations s))),
      (''events'', JList (map json_of_event (ds_events s))),
      (''failure_latch'', jopt json_of_durable_failure (ds_failure_latch s)),
      (''active_runtime_remaining_ns'', JInt (ds_active_runtime_remaining_ns s))]"

definition ds_canonical_sha256 :: "durable_state \<Rightarrow> string" where
  "ds_canonical_sha256 s = canonical_sha256 (json_of_state s)"

text \<open>\<open>validate_snapshot\<close>, in the order of its checks.\<close>

definition state_hashes_ok :: "durable_state \<Rightarrow> bool" where
  "state_hashes_ok s \<longleftrightarrow>
     (ds_generation s = 1) = (ds_previous_state_sha256 s = None) \<and>
     ds_policy_sha256 s = dp_policy_sha256 (ds_policy s) \<and>
     ds_activation_sha256 s = dp_activation_sha256 (ds_policy s) \<and>
     ds_active_runtime_remaining_ns s =
       max 0 (runtime_limit_ns (dp_base_policy (ds_policy s)) - ra_active_runtime_ns (ds_usage s))"

definition permit_ids :: "durable_state \<Rightarrow> string list" where
  "permit_ids s = map pm_permit_id (ds_active_permits s)"

definition settled_permits :: "durable_state \<Rightarrow> string list" where
  "settled_permits s = map st_permit_id (ds_settlements s)"

definition identities_distinct :: "durable_state \<Rightarrow> bool" where
  "identities_distinct s \<longleftrightarrow>
     distinct (permit_ids s) \<and> distinct (map st_settlement_id (ds_settlements s)) \<and>
     distinct (settled_permits s) \<and> distinct (map at_permit_id (ds_attempts s)) \<and>
     distinct (map (\<lambda>a. li_attempt_id (at_lineage a)) (ds_attempts s)) \<and>
     distinct (map (\<lambda>a. li_context_id (at_lineage a)) (ds_attempts s)) \<and>
     distinct (map id_operation_id (ds_operations s)) \<and>
     distinct (map ca_permit_id (ds_cancellations s))"

definition attempts_by_id :: "lineage list \<Rightarrow> string \<rightharpoonup> lineage" where
  "attempts_by_id ls = map_of (rev (map (\<lambda>l. (li_attempt_id l, l)) ls))"

definition set_default :: "('k \<rightharpoonup> 'v) \<Rightarrow> 'k \<Rightarrow> 'v \<Rightarrow> 'v \<times> ('k \<rightharpoonup> 'v)" where
  \<comment> \<open>\<open>dict.setdefault(k, v)\<close>: the value now stored, and the dict\<close>
  "set_default m k v = (case m k of Some w \<Rightarrow> (w, m) | None \<Rightarrow> (v, m(k \<mapsto> v)))"

definition retry_parent_ok :: "(string \<rightharpoonup> lineage) \<Rightarrow> lineage \<Rightarrow> bool" where
  "retry_parent_ok by_id l =
     (case li_parent_attempt_id l of
        None \<Rightarrow> True
      | Some parent_id \<Rightarrow> (case by_id parent_id of
          None \<Rightarrow> False
        | Some parent \<Rightarrow> Some (li_context_id parent) = li_parent_context_id l \<and>
            same_stable_fields l parent))"

fun lineage_scan ::
    "(string \<rightharpoonup> lineage) \<Rightarrow> (string \<rightharpoonup> int) \<Rightarrow> (int \<rightharpoonup> string) \<Rightarrow> lineage list \<Rightarrow> bool" where
  "lineage_scan by_id root_ordinals ordinal_roots [] = True"
| "lineage_scan by_id root_ordinals ordinal_roots (l # ls) =
     (let (prior_ordinal, root_ordinals') =
            set_default root_ordinals (li_root_attempt_id l) (li_execution_ordinal l);
          (prior_root, ordinal_roots') =
            set_default ordinal_roots (li_execution_ordinal l) (li_root_attempt_id l) in
      prior_ordinal = li_execution_ordinal l \<and> prior_root = li_root_attempt_id l \<and>
      retry_parent_ok by_id l \<and> lineage_scan by_id root_ordinals' ordinal_roots' ls)"

definition lineages :: "durable_state \<Rightarrow> lineage list" where
  "lineages s = map at_lineage (ds_attempts s)"

definition lineage_table_ok :: "durable_state \<Rightarrow> bool" where
  "lineage_table_ok s \<longleftrightarrow>
     lineage_scan (attempts_by_id (lineages s)) Map.empty Map.empty (lineages s)"

definition permits_partitioned :: "durable_state \<Rightarrow> bool" where
  "permits_partitioned s \<longleftrightarrow>
     set (permit_ids s) \<inter> set (settled_permits s) = {} \<and>
     set (map at_permit_id (ds_attempts s)) = set (permit_ids s) \<union> set (settled_permits s)"

definition attempt_of :: "durable_state \<Rightarrow> string \<Rightarrow> attempt option" where
  "attempt_of s p = map_of (rev (map (\<lambda>a. (at_permit_id a, a)) (ds_attempts s))) p"

definition cancellation_of :: "durable_state \<Rightarrow> string \<Rightarrow> cancellation option" where
  "cancellation_of s p = map_of (rev (map (\<lambda>c. (ca_permit_id c, c)) (ds_cancellations s))) p"

definition expected_status :: "cancellation option \<Rightarrow> permit_status \<Rightarrow> attempt_status" where
  "expected_status c st =
     (if (case c of None \<Rightarrow> False | Some c' \<Rightarrow> ca_state c' \<in> {C_UNCONFIRMED, C_EFFECT_UNKNOWN})
      then A_EFFECT_UNKNOWN else if st = P_RESERVED then A_RESERVED else A_STARTED)"

fun settlement_attempt_status :: "settlement_status \<Rightarrow> attempt_status" where
  "settlement_attempt_status S_SUCCEEDED = A_SUCCEEDED"
| "settlement_attempt_status S_FAILED = A_FAILED"
| "settlement_attempt_status S_CANCELLED = A_CANCELLED"
| "settlement_attempt_status S_RELEASED_NO_EFFECT = A_CANCELLED"
| "settlement_attempt_status S_EFFECT_UNKNOWN = A_EFFECT_UNKNOWN"
| "settlement_attempt_status S_OVERRUN = A_FAILED"

definition attempt_statuses_ok :: "durable_state \<Rightarrow> bool" where
  "attempt_statuses_ok s \<longleftrightarrow>
     list_all (\<lambda>p. map_option at_status (attempt_of s (pm_permit_id p))
        = Some (expected_status (cancellation_of s (pm_permit_id p)) (pm_status p)))
       (ds_active_permits s) \<and>
     list_all (\<lambda>t. map_option at_status (attempt_of s (st_permit_id t))
        = Some (settlement_attempt_status (st_status t))) (ds_settlements s) \<and>
     set (map ca_permit_id (ds_cancellations s)) \<subseteq> set (permit_ids s) \<union> set (settled_permits s)"

definition event_matches :: "idempotency \<Rightarrow> event \<Rightarrow> bool" where
  "event_matches r e \<longleftrightarrow>
     id_outcome r = O_APPLIED \<and> ev_kind e = id_kind r \<and> ev_operation_id e = id_operation_id r \<and>
     ev_subject_id e = id_subject_id r \<and>
     ev_event_sha256 e = canonical_sha256 (event_payload (ev_ordinal e) (ev_kind e)
       (ev_operation_id e) (ev_subject_id e) (id_result_sha256 r))"

definition operation_log_ok :: "durable_state \<Rightarrow> bool" where
  "operation_log_ok s \<longleftrightarrow>
     map ev_ordinal (ds_events s) = map int [0..<length (ds_events s)] \<and>
     int (length (ds_operations s)) = ds_generation s \<and> int (length (ds_events s)) = ds_generation s \<and>
     (case ds_operations s of [] \<Rightarrow> False
      | r # rs \<Rightarrow> id_kind r = K_INITIALIZE \<and> list_all (\<lambda>r. id_kind r \<noteq> K_INITIALIZE) rs) \<and>
     list_all2 event_matches (ds_operations s) (ds_events s)"

definition concurrency_ok :: "durable_state \<Rightarrow> bool" where
  "concurrency_ok s \<longleftrightarrow>
     (\<Sum>p\<leftarrow>ds_active_permits s. ra_concurrency_slots (rv_requested (pm_reservation p)))
       \<le> ea_max_concurrent_agents (dp_activation (ds_policy s)) \<and>
     du_peak_concurrency (ds_usage s) \<le> ea_max_concurrent_agents (dp_activation (ds_policy s))"

definition validate_snapshot :: "durable_state \<Rightarrow> bool" where
  "validate_snapshot s \<longleftrightarrow>
     state_hashes_ok s \<and> identities_distinct s \<and> lineage_table_ok s \<and> permits_partitioned s \<and>
     attempt_statuses_ok s \<and> operation_log_ok s \<and> concurrency_ok s"

definition durable_state_ok :: "durable_state \<Rightarrow> bool" where
  "durable_state_ok s \<longleftrightarrow>
     valid_identifier (ds_run_id s) \<and> 1 \<le> ds_generation s \<and> opt_sha256 (ds_previous_state_sha256 s) \<and>
     durable_policy_ok (ds_policy s) \<and> is_sha256 (ds_policy_sha256 s) \<and>
     is_sha256 (ds_activation_sha256 s) \<and> durable_usage_ok (ds_usage s) \<and>
     list_all permit_ok (ds_active_permits s) \<and> list_all settlement_ok (ds_settlements s) \<and>
     list_all attempt_ok (ds_attempts s) \<and> list_all cancellation_ok (ds_cancellations s) \<and>
     list_all idempotency_ok (ds_operations s) \<and> list_all event_ok (ds_events s) \<and>
     pred_option durable_failure_ok (ds_failure_latch s) \<and> 0 \<le> ds_active_runtime_remaining_ns s \<and>
     validate_snapshot s"

datatype storage_outcome = Published | Current_committed | Historical_committed

record mutation_result =
  mu_status :: mutation_status
  mu_operation_id :: string
  mu_operation_request_sha256 :: string
  mu_subject_id :: "string option"
  mu_storage_outcome :: storage_outcome
  mu_state :: durable_state

definition mutation_result_ok :: "mutation_result \<Rightarrow> bool" where
  "mutation_result_ok m \<longleftrightarrow>
     valid_identifier (mu_operation_id m) \<and> is_sha256 (mu_operation_request_sha256 m) \<and>
     opt_identifier (mu_subject_id m) \<and> durable_state_ok (mu_state m)"

end
