(* ===== verification/DurableStore.thy ===== *)
theory DurableStore
  imports DurableModels SerialLedger
begin

text \<open>
  \<open>budgets/durable_store.py\<close>: the class \<open>DurableBudgetStore\<close>.  Its own attributes (the clock
  bookkeeping) are the record \<open>budget_store\<close>; the \<open>RunRevisionStore\<close> it publishes through is a
  parameter: a record of the four operations the code calls, over an abstract state.  The
  artifact bytes a revision holds are represented by the durable state they encode.  A
  method is a function from the store to a result or an error and the store it leaves; a
  \<open>DurableBudgetError\<close> is \<open>Budget_error\<close>, a pydantic \<open>ValidationError\<close> is \<open>Validation_failed\<close>.
\<close>

section \<open>Errors\<close>

datatype durable_error = Budget_error durable_failure | Validation_failed string

type_synonym 'a durable_result = "durable_error + 'a"

text \<open>Building a model: the value, or a \<open>ValidationError\<close>.\<close>

definition build :: "('a \<Rightarrow> bool) \<Rightarrow> string \<Rightarrow> 'a \<Rightarrow> 'a durable_result" where
  "build ok name x = (if ok x then Inr x else Inl (Validation_failed name))"

lemma build_Inr [simp]: "build ok name x = Inr y \<longleftrightarrow> ok x \<and> y = x"
  by (auto simp: build_def)

definition failure_error :: "durable_failure \<Rightarrow> durable_error" where
  "failure_error f = (if durable_failure_ok f then Budget_error f
     else Validation_failed ''DurableBudgetFailureV1'')"

definition plain_failure :: "durable_code \<Rightarrow> string \<Rightarrow> durable_failure" where
  "plain_failure code operation_id =
     \<lparr>df_code = code, df_operation_id = Some operation_id, df_resource = None, df_limit = None,
      df_observed = None, df_reconciliation_required = False, df_effect_unknown = False,
      df_evidence_sha256 = None\<rparr>"

definition fail :: "durable_code \<Rightarrow> string \<Rightarrow> durable_error" where
  "fail code operation_id = failure_error (plain_failure code operation_id)"

definition fail_reconcile :: "durable_code \<Rightarrow> bool \<Rightarrow> string \<Rightarrow> durable_error" where
  "fail_reconcile code effect_unknown operation_id = failure_error
     ((plain_failure code operation_id)\<lparr>df_reconciliation_required := True,
        df_effect_unknown := effect_unknown\<rparr>)"

definition fail_resource :: "durable_code \<Rightarrow> string \<Rightarrow> resource \<Rightarrow> int option \<Rightarrow> int option \<Rightarrow> durable_error" where
  "fail_resource code operation_id r limit observed = failure_error
     ((plain_failure code operation_id)\<lparr>df_resource := Some r, df_limit := limit,
        df_observed := observed\<rparr>)"

section \<open>Requests and policies\<close>

definition reservation_request_sha256 ::
    "string \<Rightarrow> resource_amounts \<Rightarrow> execution_class \<Rightarrow> bool \<Rightarrow> string" where
  "reservation_request_sha256 reservation_id requested cls authenticated = canonical_sha256 (JObj
     [(''reservation_id'', JStr reservation_id), (''requested'', json_of_amounts requested),
      (''execution_class'', JStr (execution_class_value cls)),
      (''external_cost_estimate_authenticated'', JBool authenticated)])"

definition build_resource_reservation ::
    "string \<Rightarrow> resource_amounts \<Rightarrow> execution_class \<Rightarrow> bool \<Rightarrow> reservation durable_result" where
  "build_resource_reservation reservation_id requested cls authenticated =
     build reservation_ok ''ResourceReservationV1''
       \<lparr>rv_reservation_id = reservation_id, rv_requested = requested, rv_execution_class = cls,
        rv_external_cost_estimate_authenticated = authenticated,
        rv_request_sha256 = reservation_request_sha256 reservation_id requested cls authenticated\<rparr>"

definition is_policy_tightening :: "durable_policy \<Rightarrow> durable_policy \<Rightarrow> bool" where
  "is_policy_tightening old new =
     (let o_b = dp_base_policy old; n_b = dp_base_policy new in
      max_deliberation_rounds n_b \<le> max_deliberation_rounds o_b \<and>
      max_tool_retries n_b \<le> max_tool_retries o_b \<and>
      max_runtime_seconds n_b \<le> max_runtime_seconds o_b \<and>
      max_external_cost_micro_usd n_b \<le> max_external_cost_micro_usd o_b \<and>
      max_provider_output_bytes n_b \<le> max_provider_output_bytes o_b \<and>
      max_tool_input_bytes n_b \<le> max_tool_input_bytes o_b \<and>
      max_tool_output_bytes n_b \<le> max_tool_output_bytes o_b \<and>
      max_artifact_bytes n_b \<le> max_artifact_bytes o_b \<and>
      max_run_bytes n_b \<le> max_run_bytes o_b \<and>
      ea_max_concurrent_agents (dp_activation new) \<le> ea_max_concurrent_agents (dp_activation old) \<and>
      ea_max_automatic_retries (dp_activation new) \<le> ea_max_automatic_retries (dp_activation old))"

section \<open>The successor check\<close>

definition permit_of :: "durable_state \<Rightarrow> string \<Rightarrow> permit option" where
  "permit_of s p = map_of (rev (map (\<lambda>x. (pm_permit_id x, x)) (ds_active_permits s))) p"

definition cancelled_permits :: "durable_state \<Rightarrow> string list" where
  "cancelled_permits s = map ca_permit_id (ds_cancellations s)"

definition log_appended :: "durable_state \<Rightarrow> durable_state \<Rightarrow> bool" where
  "log_appended old new \<longleftrightarrow>
     ds_run_id new = ds_run_id old \<and> ds_generation new = ds_generation old + 1 \<and>
     ds_previous_state_sha256 new = Some (ds_canonical_sha256 old) \<and>
     length (ds_operations new) = length (ds_operations old) + 1 \<and>
     length (ds_events new) = length (ds_events old) + 1 \<and>
     take (length (ds_operations old)) (ds_operations new) = ds_operations old \<and>
     take (length (ds_events old)) (ds_events new) = ds_events old \<and>
     id_kind (last (ds_operations new)) \<noteq> K_INITIALIZE \<and>
     ev_operation_id (last (ds_events new)) = id_operation_id (last (ds_operations new))"

definition settles :: "operation_kind \<Rightarrow> bool" where
  "settles kind \<longleftrightarrow> kind \<in> {K_SETTLE, K_RELEASE_NO_EFFECT}"

definition settlements_appended :: "durable_state \<Rightarrow> durable_state \<Rightarrow> idempotency \<Rightarrow> bool" where
  "settlements_appended old new r \<longleftrightarrow>
     take (length (ds_settlements old)) (ds_settlements new) = ds_settlements old \<and>
     (if settles (id_kind r)
      then length (ds_settlements new) = length (ds_settlements old) + 1 \<and>
        st_operation_id (last (ds_settlements new)) = id_operation_id r \<and>
        Some (st_settlement_id (last (ds_settlements new))) = id_subject_id r
      else length (ds_settlements new) = length (ds_settlements old))"

definition latch_and_policy_kept :: "durable_state \<Rightarrow> durable_state \<Rightarrow> operation_kind \<Rightarrow> bool" where
  "latch_and_policy_kept old new kind \<longleftrightarrow>
     \<not> (ds_failure_latch old \<noteq> None \<and> ds_failure_latch new \<noteq> ds_failure_latch old) \<and>
     \<not> (ds_failure_latch old = None \<and> ds_failure_latch new \<noteq> None \<and>
        kind \<notin> {K_SETTLE, K_ACKNOWLEDGE_CANCEL}) \<and>
     \<not> (ds_policy new \<noteq> ds_policy old \<and> \<not> is_policy_tightening (ds_policy old) (ds_policy new)) \<and>
     (ds_policy new \<noteq> ds_policy old) = (kind = K_TIGHTEN_POLICY)"

definition permits_changed_as :: "durable_state \<Rightarrow> durable_state \<Rightarrow> idempotency \<Rightarrow> bool" where
  "permits_changed_as old new r =
     (let old_ids = set (permit_ids old); new_ids = set (permit_ids new) in
      if id_kind r = K_RESERVE then
        Some ` (new_ids - old_ids) = {id_subject_id r} \<and> old_ids - new_ids = {} \<and>
        (\<forall>p\<in>old_ids. permit_of new p = permit_of old p)
      else if id_kind r = K_START then
        new_ids = old_ids \<and>
        Some ` {p \<in> old_ids. permit_of new p \<noteq> permit_of old p} = {id_subject_id r}
      else if settles (id_kind r) then
        old_ids - new_ids = {st_permit_id (last (ds_settlements new))} \<and> new_ids - old_ids = {} \<and>
        (\<forall>p\<in>new_ids. permit_of new p = permit_of old p)
      else ds_active_permits new = ds_active_permits old)"

definition changed_attempts :: "durable_state \<Rightarrow> durable_state \<Rightarrow> string set" where
  "changed_attempts old new =
     (\<lambda>(b, a). at_permit_id b) ` {(b, a) \<in> set (zip (ds_attempts old) (ds_attempts new)). b \<noteq> a}"

definition attempts_changed_as :: "durable_state \<Rightarrow> durable_state \<Rightarrow> idempotency \<Rightarrow> bool" where
  "attempts_changed_as old new r =
     (if id_kind r = K_RESERVE then
        length (ds_attempts new) = length (ds_attempts old) + 1 \<and>
        take (length (ds_attempts old)) (ds_attempts new) = ds_attempts old \<and>
        Some (at_permit_id (last (ds_attempts new))) = id_subject_id r
      else
        length (ds_attempts new) = length (ds_attempts old) \<and>
        list_all2 (\<lambda>b a. at_permit_id b = at_permit_id a \<and> at_lineage b = at_lineage a)
          (ds_attempts old) (ds_attempts new) \<and>
        (id_kind r \<in> {K_START, K_SETTLE, K_RELEASE_NO_EFFECT, K_ACKNOWLEDGE_CANCEL} \<or>
           ds_attempts new = ds_attempts old) \<and>
        (let expected = (if settles (id_kind r) then Some (st_permit_id (last (ds_settlements new)))
                         else id_subject_id r) in
         (id_kind r \<in> {K_START, K_SETTLE, K_RELEASE_NO_EFFECT} \<longrightarrow>
            Some ` changed_attempts old new = {expected}) \<and>
         (id_kind r = K_ACKNOWLEDGE_CANCEL \<longrightarrow>
            Some ` changed_attempts old new \<in> {{}, {expected}})))"

definition cancellations_changed_as :: "durable_state \<Rightarrow> durable_state \<Rightarrow> idempotency \<Rightarrow> bool" where
  "cancellations_changed_as old new r =
     (let old_ids = set (cancelled_permits old); new_ids = set (cancelled_permits new) in
      if id_kind r = K_REQUEST_CANCEL then Some ` (new_ids - old_ids) = {id_subject_id r}
      else if id_kind r = K_ACKNOWLEDGE_CANCEL then
        new_ids = old_ids \<and>
        Some ` {p \<in> old_ids. cancellation_of new p \<noteq> cancellation_of old p} = {id_subject_id r}
      else ds_cancellations new = ds_cancellations old)"

definition usage_changed_as :: "durable_state \<Rightarrow> durable_state \<Rightarrow> operation_kind \<Rightarrow> bool" where
  "usage_changed_as old new kind \<longleftrightarrow>
     list_all (\<lambda>r.
       (let previous = amount (ds_usage old) r; current = amount (ds_usage new) r in
        (r \<in> CUMULATIVE \<longrightarrow> previous \<le> current) \<and>
        (r \<notin> CUMULATIVE \<and> r \<noteq> Concurrency_slots \<longrightarrow> previous \<le> current) \<and>
        (r \<noteq> Active_runtime_ns \<and> kind \<noteq> K_SETTLE \<longrightarrow> current = previous))) RESOURCE_ORDER"

definition validate_state_successor :: "durable_state \<Rightarrow> durable_state \<Rightarrow> bool" where
  "validate_state_successor old new =
     (log_appended old new \<and>
      (let r = last (ds_operations new) in
       settlements_appended old new r \<and> latch_and_policy_kept old new (id_kind r) \<and>
       permits_changed_as old new r \<and> attempts_changed_as old new r \<and>
       cancellations_changed_as old new r \<and> usage_changed_as old new (id_kind r)))"

section \<open>The store\<close>

text \<open>The codes \<open>_map_storage_error\<close> tells apart; every other code is \<open>ST_OTHER\<close>.\<close>

datatype storage_code =
  ST_RUN_LOCKED | ST_RUN_CONFLICT | ST_IDEMPOTENCY_CONFLICT | ST_EFFECT_UNKNOWN |
  ST_DURABILITY_UNCONFIRMED | ST_OTHER

record publish_request =
  rq_run_id :: string
  rq_transaction_id :: string
  rq_proposed_revision :: int
  rq_expected_revision :: "int option"
  rq_artifact :: durable_state

record 'r revision_api =
  api_run_exists :: "'r \<Rightarrow> string \<Rightarrow> bool"
  api_history :: "'r \<Rightarrow> string \<Rightarrow> storage_code + (int \<times> durable_state) list" \<comment> \<open>newest first\<close>
  api_current_revision :: "'r \<Rightarrow> string \<Rightarrow> storage_code + int"
  api_publish :: "'r \<Rightarrow> publish_request \<Rightarrow> (storage_code + storage_outcome) \<times> 'r"

record 'r budget_store =
  bs_last_monotonic_ns :: "string \<rightharpoonup> int"
  bs_pending_monotonic_ns :: "string \<rightharpoonup> int"
  bs_clock_reconciliation_required :: "string set"
  bs_revisions :: 'r

type_synonym ('r, 'a) durable = "'r budget_store \<Rightarrow> 'a durable_result \<times> 'r budget_store"

definition retD :: "'a \<Rightarrow> ('r, 'a) durable" where "retD x b = (Inr x, b)"
definition raiseD :: "durable_error \<Rightarrow> ('r, 'a) durable" where "raiseD e b = (Inl e, b)"
definition liftD :: "'a durable_result \<Rightarrow> ('r, 'a) durable" where "liftD m b = (m, b)"

definition bindD :: "('r, 'a) durable \<Rightarrow> ('a \<Rightarrow> ('r, 'b) durable) \<Rightarrow> ('r, 'b) durable" where
  "bindD m f b = (case m b of (Inl e, b1) \<Rightarrow> (Inl e, b1) | (Inr x, b1) \<Rightarrow> f x b1)"

definition transaction_id :: "string \<Rightarrow> string" where
  "transaction_id operation_id = ''txn-'' @ take 32 (sha256_hex
     (utf8 (''poker-durable-budget-operation-v1'' @ [CHR 0x00] @ operation_id)))"

definition observe_monotonic :: "clock_reading \<Rightarrow> string \<Rightarrow> string \<Rightarrow> ('r, int \<times> int) durable" where
  "observe_monotonic c run_id operation_id b =
     (case c of
        Clock_ns value \<Rightarrow>
          if value < 0 then (Inl (fail D_INVALID_INPUT operation_id), b)
          else
            (let previous = bs_last_monotonic_ns b run_id;
                 pending = bs_pending_monotonic_ns b run_id;
                 rollback_reference = (case (previous, pending) of
                     (None, None) \<Rightarrow> None | (Some p, None) \<Rightarrow> Some p | (None, Some q) \<Rightarrow> Some q
                   | (Some p, Some q) \<Rightarrow> Some (max p q)) in
             if (case rollback_reference of None \<Rightarrow> False | Some x \<Rightarrow> value < x)
             then (Inl (fail_resource D_CLOCK_ROLLBACK operation_id Active_runtime_ns None
                     (Some (the rollback_reference - value))), b)
             else (Inr (value, (case previous of None \<Rightarrow> 0 | Some p \<Rightarrow> value - p)),
                   b\<lparr>bs_pending_monotonic_ns := (bs_pending_monotonic_ns b)(run_id \<mapsto> value)\<rparr>))
      | _ \<Rightarrow> (Inl (fail D_INVALID_INPUT operation_id), b))"

definition rebase_monotonic_clock :: "string option \<Rightarrow> ('r, unit) durable" where
  "rebase_monotonic_clock run_id b =
     (case run_id of
        None \<Rightarrow> (Inr (), b\<lparr>bs_last_monotonic_ns := Map.empty, bs_pending_monotonic_ns := Map.empty,
                         bs_clock_reconciliation_required := {}\<rparr>)
      | Some r \<Rightarrow> (Inr (), b\<lparr>bs_last_monotonic_ns := (bs_last_monotonic_ns b)(r := None),
                         bs_pending_monotonic_ns := (bs_pending_monotonic_ns b)(r := None),
                         bs_clock_reconciliation_required := bs_clock_reconciliation_required b - {r}\<rparr>))"

definition commit_monotonic_observation :: "string \<Rightarrow> int \<Rightarrow> ('r, unit) durable" where
  "commit_monotonic_observation run_id value b =
     (Inr (), b\<lparr>bs_last_monotonic_ns := (bs_last_monotonic_ns b)(run_id \<mapsto> value),
               bs_pending_monotonic_ns := (bs_pending_monotonic_ns b)(run_id := None),
               bs_clock_reconciliation_required := bs_clock_reconciliation_required b - {run_id}\<rparr>)"

definition apply_actual :: "durable_usage \<Rightarrow> 'a resource_amounts_scheme \<Rightarrow> durable_usage durable_result" where
  "apply_actual u a = build durable_usage_ok ''DurableUsageV1'' (apply_actual_values u a)"

definition charge_active_runtime ::
    "durable_state \<Rightarrow> int \<Rightarrow> string \<Rightarrow> bool \<Rightarrow> (durable_usage \<times> int) durable_result" where
  "charge_active_runtime s elapsed_ns operation_id allow_overrun =
     (let limit = runtime_limit_ns (dp_base_policy (ds_policy s)) in
      bindE (build resource_amounts_ok ''ResourceAmountsV1'' (no_amounts\<lparr>ra_active_runtime_ns := elapsed_ns\<rparr>))
        (\<lambda>elapsed. bindE (apply_actual (ds_usage s) elapsed) (\<lambda>usage.
          if limit < ra_active_runtime_ns usage \<and> \<not> allow_overrun
          then Inl (fail_resource D_DEADLINE_EXCEEDED operation_id Active_runtime_ns (Some limit)
                 (Some (ra_active_runtime_ns usage)))
          else Inr (usage, max 0 (limit - ra_active_runtime_ns usage)))))"

definition map_storage_error :: "storage_code \<Rightarrow> string \<Rightarrow> string \<Rightarrow> ('r, 'a) durable" where
  "map_storage_error code operation_id run_id b =
     (case code of
        ST_RUN_LOCKED \<Rightarrow> (Inl (fail D_RUN_LOCKED operation_id), b)
      | ST_RUN_CONFLICT \<Rightarrow> (Inl (fail D_CAS_CONFLICT operation_id), b)
      | ST_IDEMPOTENCY_CONFLICT \<Rightarrow> (Inl (fail D_IDEMPOTENCY_CONFLICT operation_id), b)
      | ST_OTHER \<Rightarrow> (Inl (fail_reconcile D_RECONCILIATION_REQUIRED False operation_id), b)
      | _ \<Rightarrow> (Inl (fail_reconcile D_DURABILITY_UNCERTAIN True operation_id),
             b\<lparr>bs_clock_reconciliation_required := insert run_id (bs_clock_reconciliation_required b)\<rparr>))"

fun adjacent_ok :: "('a \<Rightarrow> 'a \<Rightarrow> bool) \<Rightarrow> 'a list \<Rightarrow> bool" where
  \<comment> \<open>\<open>for newer, older in pairwise(states)\<close>\<close>
  "adjacent_ok ok (newer # older # rest) \<longleftrightarrow> ok older newer \<and> adjacent_ok ok (older # rest)"
| "adjacent_ok ok _ = True"

definition history_ok :: "string \<Rightarrow> (int \<times> durable_state) list \<Rightarrow> bool" where
  "history_ok run_id entries \<longleftrightarrow>
     list_all (\<lambda>e. durable_state_ok (snd e)) entries \<and>
     map (\<lambda>e. ds_generation (snd e)) entries = map fst entries \<and>
     list_all (\<lambda>e. ds_run_id (snd e) = run_id) entries \<and>
     adjacent_ok validate_state_successor (map snd entries)"

definition load_history :: "'r revision_api \<Rightarrow> string \<Rightarrow> ('r, durable_state list) durable" where
  "load_history api run_id b =
     (case api_history api (bs_revisions b) run_id of
        Inl code \<Rightarrow> map_storage_error code ''read-state'' run_id b
      | Inr entries \<Rightarrow>
          if \<not> history_ok run_id entries
          then (Inl (fail_reconcile D_RECONCILIATION_REQUIRED False ''read-state''), b)
          else (Inr (map snd entries), b))"

definition load :: "'r revision_api \<Rightarrow> string \<Rightarrow> ('r, durable_state) durable" where
  "load api run_id = bindD (load_history api run_id) (\<lambda>states. retD (hd states))"

definition resume :: "'r revision_api \<Rightarrow> clock_reading \<Rightarrow> string \<Rightarrow> ('r, durable_state) durable" where
  "resume api c run_id =
     bindD (rebase_monotonic_clock (Some run_id)) (\<lambda>_.
     bindD (load api run_id) (\<lambda>state.
       case List.find (\<lambda>p. pm_status p = P_STARTED) (ds_active_permits state) of
         Some started \<Rightarrow>
           raiseD (fail_reconcile D_EFFECT_UNKNOWN True (li_idempotency_key (pm_lineage started)))
       | None \<Rightarrow>
           bindD (observe_monotonic c run_id ''resume'') (\<lambda>(value, elapsed).
           bindD (commit_monotonic_observation run_id value) (\<lambda>_. retD state))))"

definition find_operation :: "durable_state \<Rightarrow> string \<Rightarrow> idempotency option" where
  "find_operation s operation_id = List.find (\<lambda>r. id_operation_id r = operation_id) (ds_operations s)"

definition existing_operation ::
    "durable_state \<Rightarrow> string \<Rightarrow> operation_kind \<Rightarrow> string \<Rightarrow> ('r, mutation_result option) durable" where
  "existing_operation s operation_id kind request_sha256 b =
     (case find_operation s operation_id of
        None \<Rightarrow> (Inr None, b)
      | Some r \<Rightarrow>
          if id_kind r \<noteq> kind \<or> id_request_sha256 r \<noteq> request_sha256
          then (Inl (fail D_IDEMPOTENCY_CONFLICT operation_id), b)
          else (case build mutation_result_ok ''DurableMutationResultV1''
              \<lparr>mu_status = M_EXACT_REPLAY, mu_operation_id = operation_id,
               mu_operation_request_sha256 = request_sha256, mu_subject_id = id_subject_id r,
               mu_storage_outcome = Current_committed, mu_state = s\<rparr> of
            Inl e \<Rightarrow> (Inl e, b)
          | Inr replay \<Rightarrow>
              (Inr (Some replay),
               (case bs_pending_monotonic_ns b (ds_run_id s) of
                  Some pending \<Rightarrow>
                    (if bs_last_monotonic_ns b (ds_run_id s) = None \<or>
                        ds_run_id s \<in> bs_clock_reconciliation_required b
                     then snd (commit_monotonic_observation (ds_run_id s) pending b) else b)
                | None \<Rightarrow> b))))"

text \<open>The fields an operation updates are passed as a function on the state.\<close>

definition append_operation ::
    "durable_state \<Rightarrow> string \<Rightarrow> operation_kind \<Rightarrow> string \<Rightarrow> string option \<Rightarrow> json
      \<Rightarrow> (durable_state \<Rightarrow> durable_state) \<Rightarrow> durable_state durable_result" where
  "append_operation s operation_id kind request_sha256 subject_id result_payload updates =
     (let result_sha256 = canonical_sha256 result_payload; ordinal = int (length (ds_events s)) in
      bindE (build idempotency_ok ''IdempotencyRecordV1''
        \<lparr>id_operation_id = operation_id, id_kind = kind, id_request_sha256 = request_sha256,
         id_outcome = O_APPLIED, id_result_sha256 = result_sha256, id_subject_id = subject_id\<rparr>)
        (\<lambda>operation.
      bindE (build event_ok ''DurableEventV1''
        \<lparr>ev_ordinal = ordinal, ev_kind = kind, ev_operation_id = operation_id,
         ev_subject_id = subject_id, ev_event_sha256 = canonical_sha256
           (event_payload ordinal kind operation_id subject_id result_sha256)\<rparr>)
        (\<lambda>ev.
      build durable_state_ok ''DurableBudgetStateV1''
        ((updates s)\<lparr>ds_generation := ds_generation s + 1,
           ds_previous_state_sha256 := Some (ds_canonical_sha256 s),
           ds_operations := ds_operations s @ [operation], ds_events := ds_events s @ [ev]\<rparr>))))"

definition operation_kind_in :: "durable_state \<Rightarrow> string \<Rightarrow> operation_kind" where
  "operation_kind_in s operation_id = (case find_operation s operation_id of
     Some r \<Rightarrow> id_kind r | None \<Rightarrow> K_RECONCILE)"

definition publish ::
    "'r revision_api \<Rightarrow> durable_state option \<Rightarrow> durable_state \<Rightarrow> string \<Rightarrow> string \<Rightarrow> string option
      \<Rightarrow> int \<Rightarrow> ('r, mutation_result) durable" where
  "publish api previous successor operation_id request_sha256 subject_id observation =
     (let run_id = ds_run_id successor;
          kind = operation_kind_in successor operation_id;
          replay_of = (bindD (load api run_id) (\<lambda>current.
            existing_operation current operation_id kind request_sha256));
          send = (\<lambda>expected b.
            (case api_publish api (bs_revisions b)
                \<lparr>rq_run_id = run_id, rq_transaction_id = transaction_id operation_id,
                 rq_proposed_revision = ds_generation successor, rq_expected_revision = expected,
                 rq_artifact = successor\<rparr> of
               (Inl code, r1) \<Rightarrow> map_storage_error code operation_id run_id (b\<lparr>bs_revisions := r1\<rparr>)
             | (Inr Published, r1) \<Rightarrow>
                 bindD (liftD (build mutation_result_ok ''DurableMutationResultV1''
                   \<lparr>mu_status = M_APPLIED, mu_operation_id = operation_id,
                    mu_operation_request_sha256 = request_sha256, mu_subject_id = subject_id,
                    mu_storage_outcome = Published, mu_state = successor\<rparr>)) (\<lambda>result.
                 bindD (commit_monotonic_observation run_id observation) (\<lambda>_. retD result))
                   (b\<lparr>bs_revisions := r1\<rparr>)
             | (Inr outcome, r1) \<Rightarrow>
                 bindD replay_of (\<lambda>replay. case replay of
                     None \<Rightarrow> raiseD (fail_reconcile D_RECONCILIATION_REQUIRED False operation_id)
                   | Some result \<Rightarrow>
                       bindD (commit_monotonic_observation run_id observation) (\<lambda>_.
                         retD (result\<lparr>mu_storage_outcome := outcome\<rparr>)))
                   (b\<lparr>bs_revisions := r1\<rparr>))) in
      case previous of
        None \<Rightarrow> send None
      | Some prev \<Rightarrow> (\<lambda>b. case api_current_revision api (bs_revisions b) run_id of
            Inl code \<Rightarrow> map_storage_error code operation_id run_id b
          | Inr current \<Rightarrow>
              if current \<noteq> ds_generation prev then
                bindD replay_of (\<lambda>replay. case replay of
                    None \<Rightarrow> raiseD (fail D_CAS_CONFLICT operation_id)
                  | Some result \<Rightarrow>
                      bindD (commit_monotonic_observation run_id observation) (\<lambda>_. retD result)) b
              else send (Some current) b))"

end
