(* ===== verification/DurableOps.thy ===== *)
theory DurableOps
  imports DurableStore
begin

text \<open>
  The operations of \<open>DurableBudgetStore\<close>: \<open>create\<close>, \<open>reserve\<close>, \<open>start\<close>, \<open>settle\<close>,
  \<open>release_no_effect\<close>, \<open>request_cancellation\<close>, \<open>record_cancellation\<close> and
  \<open>tighten_policy\<close>.  Each is split where the code stops reading and starts computing: the
  \<open>..._successor\<close> function is everything between the replay check and \<open>_publish\<close> (guards in
  the code's order, then the new state), and \<open>mutate\<close> is the frame all of them share:
  observe the clock, load the verified history, answer a replay, compute, publish.
\<close>

section \<open>The shared frame\<close>

definition mutate ::
    "'r revision_api \<Rightarrow> clock_reading \<Rightarrow> string \<Rightarrow> string \<Rightarrow> operation_kind \<Rightarrow> string \<Rightarrow> string option
      \<Rightarrow> (durable_state \<Rightarrow> int \<Rightarrow> durable_state durable_result) \<Rightarrow> ('r, mutation_result) durable" where
  "mutate api c run_id operation_id kind request_sha256 subject_id successor_of =
     bindD (observe_monotonic c run_id operation_id) (\<lambda>(observed, elapsed).
     bindD (load api run_id) (\<lambda>state.
     bindD (existing_operation state operation_id kind request_sha256) (\<lambda>replay.
       case replay of
         Some result \<Rightarrow> retD result
       | None \<Rightarrow>
           bindD (liftD (successor_of state elapsed)) (\<lambda>successor.
             publish api (Some state) successor operation_id request_sha256 subject_id observed))))"

section \<open>Create\<close>

definition create_request :: "string \<Rightarrow> durable_policy \<Rightarrow> string" where
  "create_request run_id policy = canonical_sha256 (JObj
     [(''kind'', JStr (operation_kind_value K_INITIALIZE)), (''run_id'', JStr run_id),
      (''policy'', json_of_durable_policy policy)])"

definition initial_state :: "string \<Rightarrow> durable_policy \<Rightarrow> string \<Rightarrow> durable_state durable_result" where
  "initial_state run_id policy operation_id =
     (let result_sha256 = canonical_sha256 (JObj [(''run_id'', JStr run_id),
            (''policy_sha256'', JStr (dp_policy_sha256 policy))]) in
      bindE (build idempotency_ok ''IdempotencyRecordV1''
        \<lparr>id_operation_id = operation_id, id_kind = K_INITIALIZE,
         id_request_sha256 = create_request run_id policy, id_outcome = O_APPLIED,
         id_result_sha256 = result_sha256, id_subject_id = Some run_id\<rparr>) (\<lambda>operation.
      bindE (build event_ok ''DurableEventV1''
        \<lparr>ev_ordinal = 0, ev_kind = K_INITIALIZE, ev_operation_id = operation_id,
         ev_subject_id = Some run_id, ev_event_sha256 = canonical_sha256
           (event_payload 0 K_INITIALIZE operation_id (Some run_id) result_sha256)\<rparr>) (\<lambda>ev.
      build durable_state_ok ''DurableBudgetStateV1''
        \<lparr>ds_run_id = run_id, ds_generation = 1, ds_previous_state_sha256 = None, ds_policy = policy,
         ds_policy_sha256 = dp_policy_sha256 policy,
         ds_activation_sha256 = dp_activation_sha256 policy, ds_usage = usage_of (\<lambda>_. 0) 0,
         ds_active_permits = [], ds_settlements = [], ds_attempts = [], ds_cancellations = [],
         ds_operations = [operation], ds_events = [ev], ds_failure_latch = None,
         ds_active_runtime_remaining_ns = runtime_limit_ns (dp_base_policy policy)\<rparr>)))"

definition create ::
    "'r revision_api \<Rightarrow> clock_reading \<Rightarrow> string \<Rightarrow> durable_policy \<Rightarrow> string \<Rightarrow> ('r, mutation_result) durable" where
  "create api c run_id policy operation_id =
     bindD (observe_monotonic c run_id operation_id) (\<lambda>(observed, elapsed). \<lambda>b.
       if api_run_exists api (bs_revisions b) run_id then
         bindD (load api run_id) (\<lambda>current.
         bindD (existing_operation current operation_id K_INITIALIZE (create_request run_id policy))
           (\<lambda>replay. case replay of
              Some result \<Rightarrow> retD result
            | None \<Rightarrow> raiseD (fail D_IDEMPOTENCY_CONFLICT operation_id))) b
       else
         bindD (liftD (initial_state run_id policy operation_id)) (\<lambda>state.
           publish api None state operation_id (create_request run_id policy) (Some run_id) observed) b)"

section \<open>Reserve\<close>

fun resource_limits :: "budget_policy \<Rightarrow> resource \<Rightarrow> int" where
  "resource_limits p Active_runtime_ns = runtime_limit_ns p"
| "resource_limits p Provider_attempts = max_deliberation_rounds p"
| "resource_limits p Tool_attempts = max_deliberation_rounds p + max_tool_retries p"
| "resource_limits p Retry_attempts = max_tool_retries p"
| "resource_limits p External_cost_micro_usd = max_external_cost_micro_usd p"
| "resource_limits p Provider_output_bytes = max_provider_output_bytes p"
| "resource_limits p Tool_input_bytes = max_tool_input_bytes p"
| "resource_limits p Tool_output_bytes = max_tool_output_bytes p"
| "resource_limits p Artifact_bytes = max_artifact_bytes p"
| "resource_limits p Run_bytes = max_run_bytes p"
| "resource_limits p Concurrency_slots = 1"

definition reserved_total :: "permit list \<Rightarrow> resource \<Rightarrow> int" where
  "reserved_total permits r = (\<Sum>p\<leftarrow>permits. amount (rv_requested (pm_reservation p)) r)"

definition reservation_demand :: "durable_state \<Rightarrow> reservation \<Rightarrow> resource \<Rightarrow> int" where
  "reservation_demand s rv r =
     (let requested = amount (rv_requested rv) r in
      if r = Concurrency_slots then int (length (ds_active_permits s)) + requested
      else if r \<in> CUMULATIVE
      then amount (ds_usage s) r + reserved_total (ds_active_permits s) r + requested
      else requested)"

definition reservation_limit :: "durable_state \<Rightarrow> resource \<Rightarrow> int" where
  "reservation_limit s r =
     (if r = Concurrency_slots then ea_max_concurrent_agents (dp_activation (ds_policy s))
      else resource_limits (dp_base_policy (ds_policy s)) r)"

definition admit_reservation :: "durable_state \<Rightarrow> reservation \<Rightarrow> string \<Rightarrow> unit durable_result" where
  "admit_reservation s rv operation_id =
     (if ds_failure_latch s \<noteq> None then Inl (fail D_FAILURE_LATCHED operation_id)
      else if ds_active_runtime_remaining_ns s = 0
      then Inl (fail_resource D_DEADLINE_EXCEEDED operation_id Active_runtime_ns None None)
      else if rv_request_sha256 rv \<noteq> reservation_request_sha256 (rv_reservation_id rv)
           (rv_requested rv) (rv_execution_class rv) (rv_external_cost_estimate_authenticated rv)
      then Inl (fail D_INVALID_INPUT operation_id)
      else foldE (\<lambda>_ r.
        if reservation_limit s r < reservation_demand s rv r
        then Inl (fail_resource (if r = Concurrency_slots then D_CONCURRENCY_EXCEEDED else D_BUDGET_EXCEEDED)
               operation_id r (Some (reservation_limit s r)) (Some (reservation_demand s rv r)))
        else Inr ()) () RESOURCE_ORDER)"

definition admit_lineage :: "durable_state \<Rightarrow> lineage \<Rightarrow> string \<Rightarrow> unit durable_result" where
  "admit_lineage s l operation_id =
     (let prior = lineages s;
          same_root = filter (\<lambda>i. li_root_attempt_id i = li_root_attempt_id l) prior in
      if list_ex (\<lambda>i. li_attempt_id i = li_attempt_id l \<or> li_context_id i = li_context_id l \<or>
           li_idempotency_key i = li_idempotency_key l) prior
      then Inl (fail D_IDEMPOTENCY_CONFLICT operation_id)
      else if same_root = [] then
        (if li_parent_attempt_id l \<noteq> None \<or>
            list_ex (\<lambda>i. li_execution_ordinal i = li_execution_ordinal l) prior
         then Inl (fail D_INVALID_INPUT operation_id) else Inr ())
      else if li_parent_attempt_id l = None then Inl (fail D_IDEMPOTENCY_CONFLICT operation_id)
      else (case List.find (\<lambda>i. Some (li_attempt_id i) = li_parent_attempt_id l \<and>
                  Some (li_context_id i) = li_parent_context_id l) same_root of
          None \<Rightarrow> Inl (fail D_INVALID_INPUT operation_id)
        | Some parent \<Rightarrow>
            if \<not> same_stable_fields l parent then Inl (fail D_INVALID_INPUT operation_id) else Inr ()))"

definition reserve_request ::
    "string \<Rightarrow> reservation \<Rightarrow> lineage \<Rightarrow> string option \<Rightarrow> string option \<Rightarrow> string" where
  "reserve_request permit_id rv l expected_policy expected_activation = canonical_sha256 (JObj
     ([(''kind'', JStr (operation_kind_value K_RESERVE)), (''permit_id'', JStr permit_id),
       (''reservation'', json_of_reservation rv), (''lineage'', json_of_lineage l)]
      @ (if expected_policy \<noteq> None \<or> expected_activation \<noteq> None
         then [(''expected_budget_binding'', JObj [(''policy_sha256'', jstr expected_policy),
                 (''activation_sha256'', jstr expected_activation)])]
         else [])))"

definition reserve_successor ::
    "string \<Rightarrow> string \<Rightarrow> reservation \<Rightarrow> lineage \<Rightarrow> string option \<Rightarrow> string option
      \<Rightarrow> durable_state \<Rightarrow> int \<Rightarrow> durable_state durable_result" where
  "reserve_successor operation_id permit_id rv l expected_policy expected_activation s elapsed =
     (if (expected_policy \<noteq> None \<and> Some (ds_policy_sha256 s) \<noteq> expected_policy) \<or>
         (expected_activation \<noteq> None \<and> Some (ds_activation_sha256 s) \<noteq> expected_activation)
      then Inl (fail D_INVALID_INPUT operation_id)
      else
        bindE (charge_active_runtime s elapsed operation_id False) (\<lambda>(usage, remaining).
        bindE (build durable_state_ok ''DurableBudgetStateV1''
          (s\<lparr>ds_usage := usage, ds_active_runtime_remaining_ns := remaining\<rparr>)) (\<lambda>charged_state.
        bindE (admit_reservation charged_state rv operation_id) (\<lambda>_.
        bindE (admit_lineage s l operation_id) (\<lambda>_.
          if permit_id \<in> set (permit_ids s) \<union> set (settled_permits s)
          then Inl (fail D_IDEMPOTENCY_CONFLICT operation_id)
          else
            bindE (build permit_ok ''DurablePermitV1''
              \<lparr>pm_permit_id = permit_id, pm_reservation = rv, pm_lineage = l, pm_status = P_RESERVED,
               pm_reserved_active_runtime_ns = ra_active_runtime_ns usage,
               pm_started_active_runtime_ns = None\<rparr>) (\<lambda>p.
            bindE (build attempt_ok ''AttemptRecordV1''
              \<lparr>at_permit_id = permit_id, at_lineage = l, at_status = A_RESERVED,
               at_failure_category = None, at_effect_evidence_sha256 = None\<rparr>) (\<lambda>a.
            append_operation s operation_id K_RESERVE
              (reserve_request permit_id rv l expected_policy expected_activation) (Some permit_id)
              (json_of_permit p) (\<lambda>s. s\<lparr>ds_active_permits := ds_active_permits s @ [p],
                ds_attempts := ds_attempts s @ [a], ds_usage := usage,
                ds_active_runtime_remaining_ns := remaining\<rparr>))))))))"

definition reserve ::
    "'r revision_api \<Rightarrow> clock_reading \<Rightarrow> string \<Rightarrow> string \<Rightarrow> string \<Rightarrow> reservation \<Rightarrow> lineage
      \<Rightarrow> string option \<Rightarrow> string option \<Rightarrow> ('r, mutation_result) durable" where
  "reserve api c run_id operation_id permit_id rv l expected_policy expected_activation =
     mutate api c run_id operation_id K_RESERVE
       (reserve_request permit_id rv l expected_policy expected_activation) (Some permit_id)
       (reserve_successor operation_id permit_id rv l expected_policy expected_activation)"

section \<open>Start\<close>

definition find_permit :: "durable_state \<Rightarrow> string \<Rightarrow> permit option" where
  "find_permit s permit_id = List.find (\<lambda>p. pm_permit_id p = permit_id) (ds_active_permits s)"

definition find_cancellation :: "durable_state \<Rightarrow> string \<Rightarrow> cancellation option" where
  "find_cancellation s permit_id = List.find (\<lambda>c. ca_permit_id c = permit_id) (ds_cancellations s)"

definition update_attempt ::
    "(attempt \<Rightarrow> attempt) \<Rightarrow> string \<Rightarrow> attempt list \<Rightarrow> attempt list durable_result" where
  "update_attempt f permit_id as =
     mapE (\<lambda>a. if at_permit_id a = permit_id then build attempt_ok ''AttemptRecordV1'' (f a) else Inr a) as"

definition start_request :: "string \<Rightarrow> string" where
  "start_request permit_id = canonical_sha256 (JObj
     [(''kind'', JStr (operation_kind_value K_START)), (''permit_id'', JStr permit_id)])"

definition start_successor :: "string \<Rightarrow> string \<Rightarrow> durable_state \<Rightarrow> int \<Rightarrow> durable_state durable_result" where
  "start_successor operation_id permit_id s elapsed =
     bindE (charge_active_runtime s elapsed operation_id False) (\<lambda>(usage, remaining).
       case find_permit s permit_id of
         None \<Rightarrow> Inl (fail D_INVALID_INPUT operation_id)
       | Some p \<Rightarrow>
           if pm_status p \<noteq> P_RESERVED then Inl (fail D_INVALID_INPUT operation_id)
           else if (case find_cancellation s permit_id of None \<Rightarrow> False
                    | Some c \<Rightarrow> ca_state c \<noteq> C_NOT_REQUESTED)
           then Inl (fail D_CANCEL_UNCONFIRMED operation_id)
           else
             bindE (build permit_ok ''DurablePermitV1'' (p\<lparr>pm_status := P_STARTED,
               pm_started_active_runtime_ns := Some (ra_active_runtime_ns usage)\<rparr>)) (\<lambda>started.
             bindE (update_attempt (\<lambda>a. a\<lparr>at_status := A_STARTED\<rparr>) permit_id (ds_attempts s)) (\<lambda>attempts.
             append_operation s operation_id K_START (start_request permit_id) (Some permit_id)
               (json_of_permit started) (\<lambda>s. s\<lparr>ds_active_permits :=
                   map (\<lambda>q. if pm_permit_id q = permit_id then started else q) (ds_active_permits s),
                 ds_attempts := attempts, ds_usage := usage,
                 ds_active_runtime_remaining_ns := remaining\<rparr>))))"

definition start ::
    "'r revision_api \<Rightarrow> clock_reading \<Rightarrow> string \<Rightarrow> string \<Rightarrow> string \<Rightarrow> ('r, mutation_result) durable" where
  "start api c run_id operation_id permit_id =
     mutate api c run_id operation_id K_START (start_request permit_id) (Some permit_id)
       (start_successor operation_id permit_id)"

section \<open>Settle and release\<close>

definition released_amounts :: "resource_amounts \<Rightarrow> resource_amounts \<Rightarrow> resource_amounts \<times> bool" where
  "released_amounts reserved actual =
     (amounts_of (\<lambda>r. if amount reserved r < amount actual r then 0 else amount reserved r - amount actual r),
      list_ex (\<lambda>r. amount reserved r < amount actual r) RESOURCE_ORDER)"

record settle_args =
  sa_settlement_id :: string
  sa_permit_id :: string
  sa_actual :: resource_amounts
  sa_status :: settlement_status
  sa_result_sha256 :: "string option"
  sa_effect_evidence_sha256 :: "string option"
  sa_cancellation_evidence_sha256 :: "string option"
  sa_failure_category :: "failure_category option"
  sa_tool_evidence :: "tool_evidence option"
  sa_external_cost_actual_authenticated :: bool
  sa_observed_peak_concurrency :: "int option"

definition settle_request :: "settle_args \<Rightarrow> string" where
  "settle_request x = canonical_sha256 (JObj
     [(''kind'', JStr (operation_kind_value K_SETTLE)),
      (''settlement_id'', JStr (sa_settlement_id x)), (''permit_id'', JStr (sa_permit_id x)),
      (''actual'', json_of_amounts (sa_actual x)),
      (''status'', JStr (settlement_status_value (sa_status x))),
      (''result_sha256'', jstr (sa_result_sha256 x)),
      (''effect_evidence_sha256'', jstr (sa_effect_evidence_sha256 x)),
      (''cancellation_evidence_sha256'', jstr (sa_cancellation_evidence_sha256 x)),
      (''failure_category'', jopt (\<lambda>c. JStr (failure_category_value c)) (sa_failure_category x)),
      (''deterministic_tool_evidence'', jopt json_of_tool_evidence (sa_tool_evidence x)),
      (''external_cost_actual_authenticated'', JBool (sa_external_cost_actual_authenticated x)),
      (''observed_peak_concurrency'', jint (sa_observed_peak_concurrency x))])"

definition settle_cancellation_guard ::
    "cancellation option \<Rightarrow> settle_args \<Rightarrow> string \<Rightarrow> unit durable_result" where
  "settle_cancellation_guard cancellation x operation_id =
     (case cancellation of
        None \<Rightarrow> Inr ()
      | Some c \<Rightarrow>
          if ca_worker_live c \<or> ca_state c \<in> {C_REQUESTED, C_UNCONFIRMED}
          then Inl (fail D_CANCEL_UNCONFIRMED operation_id)
          else if ca_state c \<in> {C_ACKNOWLEDGED, C_CANCELLED} \<and>
            (sa_status x \<noteq> S_CANCELLED \<or> sa_cancellation_evidence_sha256 x = None \<or>
             sa_cancellation_evidence_sha256 x \<noteq> ca_evidence_sha256 c)
          then Inl (fail D_INVALID_INPUT operation_id)
          else if ca_state c = C_EFFECT_UNKNOWN \<and> sa_status x \<noteq> S_EFFECT_UNKNOWN
          then Inl (fail D_CANCEL_UNCONFIRMED operation_id)
          else Inr ())"

definition settle_guards :: "durable_state \<Rightarrow> settle_args \<Rightarrow> string \<Rightarrow> permit durable_result" where
  "settle_guards s x operation_id =
     (case find_permit s (sa_permit_id x) of
        None \<Rightarrow> Inl (fail D_INVALID_INPUT operation_id)
      | Some p \<Rightarrow>
          if pm_status p \<noteq> P_STARTED then Inl (fail D_INVALID_INPUT operation_id)
          else if sa_status x = S_RELEASED_NO_EFFECT then Inl (fail D_INVALID_INPUT operation_id)
          else if rv_execution_class (pm_reservation p) = External \<and>
            \<not> sa_external_cost_actual_authenticated x
          then Inl (fail D_INVALID_INPUT operation_id)
          else if rv_execution_class (pm_reservation p) = Local_free \<and>
            (ra_external_cost_micro_usd (sa_actual x) \<noteq> 0 \<or> sa_external_cost_actual_authenticated x)
          then Inl (fail D_INVALID_INPUT operation_id)
          else if sa_status x = S_SUCCEEDED \<and>
            (sa_result_sha256 x = None \<or> sa_effect_evidence_sha256 x = None)
          then Inl (fail D_INVALID_INPUT operation_id)
          else
            bindE (settle_cancellation_guard (find_cancellation s (sa_permit_id x)) x operation_id) (\<lambda>_.
            if (case sa_tool_evidence x of None \<Rightarrow> False | Some t \<Rightarrow>
                 te_execution_ordinal t \<noteq> li_execution_ordinal (pm_lineage p) \<or>
                 te_tool_request_bytes_sha256 t \<noteq> li_idempotency_request_sha256 (pm_lineage p) \<or>
                 Some (te_tool_result_bytes_sha256 t) \<noteq> sa_result_sha256 x)
            then Inl (fail D_INVALID_INPUT operation_id)
            else if (case sa_observed_peak_concurrency x of None \<Rightarrow> False | Some n \<Rightarrow>
                 n < 1 \<or> ea_max_concurrent_agents (dp_activation (ds_policy s)) < n)
            then Inl (fail D_INVALID_INPUT operation_id)
            else Inr p))"

definition settle_latch ::
    "durable_failure option \<Rightarrow> settlement_status \<Rightarrow> resource_amounts \<Rightarrow> resource_amounts \<Rightarrow> settle_args
      \<Rightarrow> string \<Rightarrow> durable_failure option durable_result" where
  "settle_latch latch status reserved actual x operation_id =
     (if status = S_OVERRUN \<and> latch = None then
        (case List.find (\<lambda>r. amount reserved r < amount actual r) RESOURCE_ORDER of
           None \<Rightarrow> Inl (Validation_failed ''StopIteration'')
         | Some exceeded \<Rightarrow>
             bindE (build durable_failure_ok ''DurableBudgetFailureV1''
               ((plain_failure D_SETTLEMENT_OVERRUN operation_id)\<lparr>df_resource := Some exceeded,
                  df_limit := Some (amount reserved exceeded),
                  df_observed := Some (amount actual exceeded), df_reconciliation_required := True,
                  df_evidence_sha256 := sa_effect_evidence_sha256 x\<rparr>)) (\<lambda>f. Inr (Some f)))
      else if status = S_EFFECT_UNKNOWN \<and> latch = None then
        bindE (build durable_failure_ok ''DurableBudgetFailureV1''
          ((plain_failure D_EFFECT_UNKNOWN operation_id)\<lparr>df_reconciliation_required := True,
             df_effect_unknown := True, df_evidence_sha256 := sa_effect_evidence_sha256 x\<rparr>))
          (\<lambda>f. Inr (Some f))
      else Inr latch)"

definition close_permit ::
    "settlement \<Rightarrow> attempt list \<Rightarrow> durable_usage \<Rightarrow> int \<Rightarrow> durable_failure option \<Rightarrow> durable_state \<Rightarrow> durable_state" where
  "close_permit t attempts usage remaining latch s =
     s\<lparr>ds_active_permits := filter (\<lambda>q. pm_permit_id q \<noteq> st_permit_id t) (ds_active_permits s),
       ds_settlements := ds_settlements s @ [t], ds_attempts := attempts, ds_usage := usage,
       ds_active_runtime_remaining_ns := remaining, ds_failure_latch := latch\<rparr>"

definition settle_successor :: "string \<Rightarrow> settle_args \<Rightarrow> durable_state \<Rightarrow> int \<Rightarrow> durable_state durable_result" where
  "settle_successor operation_id x s elapsed =
     bindE (settle_guards s x operation_id) (\<lambda>p.
     bindE (charge_active_runtime s elapsed operation_id True) (\<lambda>(charged_usage, remaining).
     bindE (build resource_amounts_ok ''ResourceAmountsV1'' ((sa_actual x)\<lparr>ra_active_runtime_ns :=
       ra_active_runtime_ns charged_usage - pm_reserved_active_runtime_ns p\<rparr>)) (\<lambda>settled_actual.
     let reserved = rv_requested (pm_reservation p);
         (released, overrun) = released_amounts reserved settled_actual;
         effective_status = (if overrun then S_OVERRUN else sa_status x) in
     bindE (build settlement_ok ''DurableSettlementV1''
       \<lparr>st_settlement_id = sa_settlement_id x, st_permit_id = sa_permit_id x,
        st_operation_id = operation_id, st_operation_request_sha256 = settle_request x,
        st_reserved = reserved, st_actual = settled_actual, st_released = released,
        st_status = effective_status, st_result_sha256 = sa_result_sha256 x,
        st_effect_evidence_sha256 = sa_effect_evidence_sha256 x,
        st_cancellation_evidence_sha256 = sa_cancellation_evidence_sha256 x,
        st_deterministic_tool_evidence = sa_tool_evidence x,
        st_settled_active_runtime_ns = ra_active_runtime_ns charged_usage\<rparr>) (\<lambda>t.
     bindE (apply_actual charged_usage (settled_actual\<lparr>ra_active_runtime_ns := 0\<rparr>)) (\<lambda>usage0.
     bindE (case sa_observed_peak_concurrency x of None \<Rightarrow> Inr usage0
            | Some n \<Rightarrow> build durable_usage_ok ''DurableUsageV1''
                (usage0\<lparr>du_peak_concurrency := max (du_peak_concurrency usage0) n\<rparr>)) (\<lambda>usage.
     bindE (settle_latch (ds_failure_latch s) effective_status reserved settled_actual x operation_id) (\<lambda>latch.
     bindE (update_attempt (\<lambda>a. a\<lparr>at_status := settlement_attempt_status effective_status,
         at_failure_category := sa_failure_category x,
         at_effect_evidence_sha256 := sa_effect_evidence_sha256 x\<rparr>) (sa_permit_id x) (ds_attempts s))
       (\<lambda>attempts.
     append_operation s operation_id K_SETTLE (settle_request x) (Some (sa_settlement_id x))
       (json_of_settlement t) (close_permit t attempts usage remaining latch)))))))))"

definition settle ::
    "'r revision_api \<Rightarrow> clock_reading \<Rightarrow> string \<Rightarrow> string \<Rightarrow> settle_args \<Rightarrow> ('r, mutation_result) durable" where
  "settle api c run_id operation_id x =
     mutate api c run_id operation_id K_SETTLE (settle_request x) (Some (sa_settlement_id x))
       (settle_successor operation_id x)"

definition release_request :: "string \<Rightarrow> string \<Rightarrow> string \<Rightarrow> string" where
  "release_request settlement_id permit_id evidence_sha256 = canonical_sha256 (JObj
     [(''kind'', JStr (operation_kind_value K_RELEASE_NO_EFFECT)),
      (''settlement_id'', JStr settlement_id), (''permit_id'', JStr permit_id),
      (''evidence_sha256'', JStr evidence_sha256)])"

definition release_successor ::
    "string \<Rightarrow> string \<Rightarrow> string \<Rightarrow> string \<Rightarrow> durable_state \<Rightarrow> int \<Rightarrow> durable_state durable_result" where
  "release_successor operation_id settlement_id permit_id evidence_sha256 s elapsed =
     bindE (charge_active_runtime s elapsed operation_id True) (\<lambda>(usage, remaining).
       case find_permit s permit_id of
         None \<Rightarrow> Inl (fail D_INVALID_INPUT operation_id)
       | Some p \<Rightarrow>
           if pm_status p \<noteq> P_RESERVED then Inl (fail D_INVALID_INPUT operation_id)
           else
             bindE (build settlement_ok ''DurableSettlementV1''
               \<lparr>st_settlement_id = settlement_id, st_permit_id = permit_id,
                st_operation_id = operation_id,
                st_operation_request_sha256 = release_request settlement_id permit_id evidence_sha256,
                st_reserved = rv_requested (pm_reservation p), st_actual = no_amounts,
                st_released = rv_requested (pm_reservation p), st_status = S_RELEASED_NO_EFFECT,
                st_result_sha256 = None, st_effect_evidence_sha256 = Some evidence_sha256,
                st_cancellation_evidence_sha256 = None, st_deterministic_tool_evidence = None,
                st_settled_active_runtime_ns = ra_active_runtime_ns usage\<rparr>) (\<lambda>t.
             bindE (update_attempt (\<lambda>a. a\<lparr>at_status := A_CANCELLED,
                 at_effect_evidence_sha256 := Some evidence_sha256\<rparr>) permit_id (ds_attempts s)) (\<lambda>attempts.
             append_operation s operation_id K_RELEASE_NO_EFFECT
               (release_request settlement_id permit_id evidence_sha256) (Some settlement_id)
               (json_of_settlement t) (close_permit t attempts usage remaining (ds_failure_latch s)))))"

definition release_no_effect ::
    "'r revision_api \<Rightarrow> clock_reading \<Rightarrow> string \<Rightarrow> string \<Rightarrow> string \<Rightarrow> string \<Rightarrow> string
      \<Rightarrow> ('r, mutation_result) durable" where
  "release_no_effect api c run_id operation_id settlement_id permit_id evidence_sha256 =
     mutate api c run_id operation_id K_RELEASE_NO_EFFECT
       (release_request settlement_id permit_id evidence_sha256) (Some settlement_id)
       (release_successor operation_id settlement_id permit_id evidence_sha256)"

section \<open>Cancellation\<close>

definition replace_cancellation :: "cancellation \<Rightarrow> cancellation list \<Rightarrow> cancellation list" where
  "replace_cancellation c cs = filter (\<lambda>i. ca_permit_id i \<noteq> ca_permit_id c) cs @ [c]"

definition request_cancel_request :: "string \<Rightarrow> string" where
  "request_cancel_request permit_id = canonical_sha256 (JObj
     [(''kind'', JStr (operation_kind_value K_REQUEST_CANCEL)), (''permit_id'', JStr permit_id)])"

definition request_cancel_successor ::
    "string \<Rightarrow> string \<Rightarrow> durable_state \<Rightarrow> int \<Rightarrow> durable_state durable_result" where
  "request_cancel_successor operation_id permit_id s elapsed =
     bindE (charge_active_runtime s elapsed operation_id True) (\<lambda>(usage, remaining).
       if permit_id \<notin> set (permit_ids s) then Inl (fail D_INVALID_INPUT operation_id)
       else if (case find_cancellation s permit_id of None \<Rightarrow> False
                | Some c \<Rightarrow> ca_state c \<noteq> C_NOT_REQUESTED)
       then Inl (fail D_IDEMPOTENCY_CONFLICT operation_id)
       else
         bindE (build cancellation_ok ''DurableCancellationV1''
           \<lparr>ca_permit_id = permit_id, ca_state = C_REQUESTED,
            ca_requested_operation_id = Some operation_id, ca_evidence_sha256 = None,
            ca_worker_live = True, ca_observed_active_runtime_ns = ra_active_runtime_ns usage\<rparr>) (\<lambda>c.
         append_operation s operation_id K_REQUEST_CANCEL (request_cancel_request permit_id)
           (Some permit_id) (json_of_cancellation c)
           (\<lambda>s. s\<lparr>ds_cancellations := replace_cancellation c (ds_cancellations s),
                  ds_usage := usage, ds_active_runtime_remaining_ns := remaining\<rparr>)))"

definition request_cancellation ::
    "'r revision_api \<Rightarrow> clock_reading \<Rightarrow> string \<Rightarrow> string \<Rightarrow> string \<Rightarrow> ('r, mutation_result) durable" where
  "request_cancellation api c run_id operation_id permit_id =
     mutate api c run_id operation_id K_REQUEST_CANCEL (request_cancel_request permit_id)
       (Some permit_id) (request_cancel_successor operation_id permit_id)"

definition record_cancel_request :: "string \<Rightarrow> cancellation_state \<Rightarrow> string option \<Rightarrow> bool \<Rightarrow> string" where
  "record_cancel_request permit_id state_value evidence worker_live = canonical_sha256 (JObj
     [(''kind'', JStr (operation_kind_value K_ACKNOWLEDGE_CANCEL)), (''permit_id'', JStr permit_id),
      (''state'', JStr (cancellation_state_value state_value)), (''evidence_sha256'', jstr evidence),
      (''worker_live'', JBool worker_live)])"

definition cancellation_transition_allowed ::
    "cancellation \<Rightarrow> cancellation_state \<Rightarrow> string option \<Rightarrow> bool \<Rightarrow> bool" where
  "cancellation_transition_allowed previous state_value evidence worker_live \<longleftrightarrow>
     (ca_state previous = C_REQUESTED \<and>
        state_value \<in> {C_ACKNOWLEDGED, C_UNCONFIRMED, C_EFFECT_UNKNOWN}) \<or>
     (ca_state previous = C_ACKNOWLEDGED \<and> state_value = C_CANCELLED) \<or>
     (ca_state previous = C_UNCONFIRMED \<and> state_value = C_EFFECT_UNKNOWN \<and> \<not> worker_live) \<or>
     (ca_state previous = C_EFFECT_UNKNOWN \<and> ca_worker_live previous \<and>
        state_value = C_EFFECT_UNKNOWN \<and> \<not> worker_live \<and> evidence = ca_evidence_sha256 previous)"

definition record_latch ::
    "durable_failure option \<Rightarrow> cancellation_state \<Rightarrow> string option \<Rightarrow> string
      \<Rightarrow> durable_failure option durable_result" where
  "record_latch latch state_value evidence operation_id =
     (if latch = None then
        bindE (build durable_failure_ok ''DurableBudgetFailureV1''
          ((plain_failure (if state_value = C_UNCONFIRMED then D_CANCEL_UNCONFIRMED else D_EFFECT_UNKNOWN)
              operation_id)\<lparr>df_reconciliation_required := True, df_effect_unknown := True,
              df_evidence_sha256 := evidence\<rparr>)) (\<lambda>f. Inr (Some f))
      else Inr latch)"

definition record_effects ::
    "durable_state \<Rightarrow> string \<Rightarrow> cancellation_state \<Rightarrow> string option \<Rightarrow> string
      \<Rightarrow> (durable_failure option \<times> attempt list) durable_result" where
  "record_effects s permit_id state_value evidence operation_id =
     (if state_value \<in> {C_UNCONFIRMED, C_EFFECT_UNKNOWN} then
        bindE (record_latch (ds_failure_latch s) state_value evidence operation_id) (\<lambda>latch.
        bindE (update_attempt (\<lambda>a. a\<lparr>at_status := A_EFFECT_UNKNOWN,
            at_effect_evidence_sha256 := evidence\<rparr>) permit_id (ds_attempts s)) (\<lambda>attempts.
          Inr (latch, attempts)))
      else Inr (ds_failure_latch s, ds_attempts s))"

definition record_cancel_successor ::
    "string \<Rightarrow> string \<Rightarrow> cancellation_state \<Rightarrow> string option \<Rightarrow> bool \<Rightarrow> durable_state \<Rightarrow> int
      \<Rightarrow> durable_state durable_result" where
  "record_cancel_successor operation_id permit_id state_value evidence worker_live s elapsed =
     bindE (charge_active_runtime s elapsed operation_id True) (\<lambda>(usage, remaining).
       case find_cancellation s permit_id of
         None \<Rightarrow> Inl (fail D_INVALID_INPUT operation_id)
       | Some previous \<Rightarrow>
           if \<not> cancellation_transition_allowed previous state_value evidence worker_live
           then Inl (fail D_INVALID_INPUT operation_id)
           else if state_value \<in> {C_ACKNOWLEDGED, C_CANCELLED} \<and> evidence = None
           then Inl (fail D_INVALID_INPUT operation_id)
           else
             bindE (build cancellation_ok ''DurableCancellationV1''
               \<lparr>ca_permit_id = permit_id, ca_state = state_value,
                ca_requested_operation_id = ca_requested_operation_id previous,
                ca_evidence_sha256 = evidence, ca_worker_live = worker_live,
                ca_observed_active_runtime_ns = ra_active_runtime_ns usage\<rparr>) (\<lambda>c.
             bindE (record_effects s permit_id state_value evidence operation_id) (\<lambda>(latch, attempts).
             append_operation s operation_id K_ACKNOWLEDGE_CANCEL
               (record_cancel_request permit_id state_value evidence worker_live) (Some permit_id)
               (json_of_cancellation c)
               (\<lambda>s. s\<lparr>ds_cancellations := replace_cancellation c (ds_cancellations s),
                      ds_failure_latch := latch, ds_attempts := attempts, ds_usage := usage,
                      ds_active_runtime_remaining_ns := remaining\<rparr>))))"

definition record_cancellation ::
    "'r revision_api \<Rightarrow> clock_reading \<Rightarrow> string \<Rightarrow> string \<Rightarrow> string \<Rightarrow> cancellation_state \<Rightarrow> string option
      \<Rightarrow> bool \<Rightarrow> ('r, mutation_result) durable" where
  "record_cancellation api c run_id operation_id permit_id state_value evidence worker_live =
     mutate api c run_id operation_id K_ACKNOWLEDGE_CANCEL
       (record_cancel_request permit_id state_value evidence worker_live) (Some permit_id)
       (record_cancel_successor operation_id permit_id state_value evidence worker_live)"

section \<open>Policy tightening\<close>

definition tighten_request :: "durable_policy \<Rightarrow> string \<Rightarrow> string" where
  "tighten_request new_policy reason_sha256 = canonical_sha256 (JObj
     [(''kind'', JStr (operation_kind_value K_TIGHTEN_POLICY)),
      (''new_policy'', json_of_durable_policy new_policy), (''reason_sha256'', JStr reason_sha256)])"

definition tighten_demand :: "durable_usage \<Rightarrow> permit list \<Rightarrow> resource \<Rightarrow> int" where
  "tighten_demand usage permits r =
     (if r = Concurrency_slots then int (length permits)
      else if r \<in> CUMULATIVE then amount usage r + reserved_total permits r
      else fold max (map (\<lambda>p. amount (rv_requested (pm_reservation p)) r) permits) (amount usage r))"

definition tighten_limit :: "durable_policy \<Rightarrow> resource \<Rightarrow> int" where
  "tighten_limit p r = (if r = Concurrency_slots then ea_max_concurrent_agents (dp_activation p)
     else resource_limits (dp_base_policy p) r)"

definition tighten_successor ::
    "string \<Rightarrow> durable_policy \<Rightarrow> string \<Rightarrow> durable_state \<Rightarrow> int \<Rightarrow> durable_state durable_result" where
  "tighten_successor operation_id new_policy reason_sha256 s elapsed =
     bindE (charge_active_runtime s elapsed operation_id False) (\<lambda>(usage, old_remaining).
       if ds_failure_latch s \<noteq> None \<or> new_policy = ds_policy s \<or>
          \<not> is_policy_tightening (ds_policy s) new_policy
       then Inl (fail D_POLICY_MISMATCH operation_id)
       else
         bindE (foldE (\<lambda>_ r.
           if tighten_limit new_policy r < tighten_demand usage (ds_active_permits s) r
           then Inl (fail_resource D_POLICY_MISMATCH operation_id r (Some (tighten_limit new_policy r))
                  (Some (tighten_demand usage (ds_active_permits s) r)))
           else Inr ()) () RESOURCE_ORDER) (\<lambda>_.
         append_operation s operation_id K_TIGHTEN_POLICY (tighten_request new_policy reason_sha256)
           (Some (ds_run_id s))
           (JObj [(''old_policy_sha256'', JStr (dp_canonical_sha256 (ds_policy s))),
                  (''new_policy_sha256'', JStr (dp_canonical_sha256 new_policy)),
                  (''reason_sha256'', JStr reason_sha256)])
           (\<lambda>s. s\<lparr>ds_policy := new_policy, ds_policy_sha256 := dp_policy_sha256 new_policy,
                  ds_activation_sha256 := dp_activation_sha256 new_policy, ds_usage := usage,
                  ds_active_runtime_remaining_ns := max 0
                    (runtime_limit_ns (dp_base_policy new_policy) - ra_active_runtime_ns usage)\<rparr>)))"

definition tighten_policy ::
    "'r revision_api \<Rightarrow> clock_reading \<Rightarrow> string \<Rightarrow> string \<Rightarrow> durable_policy \<Rightarrow> string
      \<Rightarrow> ('r, mutation_result) durable" where
  "tighten_policy api c run_id operation_id new_policy reason_sha256 =
     bindD (observe_monotonic c run_id operation_id) (\<lambda>(observed, elapsed).
     bindD (load api run_id) (\<lambda>state.
       if \<not> is_sha256 reason_sha256 then raiseD (fail D_INVALID_INPUT operation_id)
       else
         bindD (existing_operation state operation_id K_TIGHTEN_POLICY
             (tighten_request new_policy reason_sha256)) (\<lambda>replay.
           case replay of
             Some result \<Rightarrow> retD result
           | None \<Rightarrow>
               bindD (liftD (tighten_successor operation_id new_policy reason_sha256 state elapsed))
                 (\<lambda>successor. publish api (Some state) successor operation_id
                   (tighten_request new_policy reason_sha256) (Some run_id) observed))))"

end
