(* ===== verification/DurableProofs.thy ===== *)
theory DurableProofs
  imports DurableOps
begin

text \<open>
  What one operation of the durable budget store does to a state.  \<open>append_operationD\<close> inverts the
  shared end of all operations, \<open>chargeD\<close> the charging of runtime, and \<open>changed_as\<close> gathers the
  checks of \<open>_validate_state_successor\<close> that look beyond the log.
\<close>

section \<open>Tables keyed by an identifier\<close>

lemma map_of_key_Some:
  assumes "distinct (map k xs)"
  shows "map_of (rev (map (\<lambda>x. (k x, x)) xs)) p = Some x \<longleftrightarrow> x \<in> set xs \<and> k x = p"
proof -
  have "distinct (map fst (rev (map (\<lambda>x. (k x, x)) xs)))"
    using assms by (simp add: rev_map [symmetric] comp_def)
  then show ?thesis by (subst map_of_eq_Some_iff) auto
qed

lemma map_of_key_None: "map_of (rev (map (\<lambda>x. (k x, x)) xs)) p = None \<longleftrightarrow> p \<notin> k ` set xs"
  by (auto simp: map_of_eq_None_iff image_iff)

lemma map_of_key_find:
  assumes "distinct (map k xs)"
  shows "map_of (rev (map (\<lambda>x. (k x, x)) xs)) p = List.find (\<lambda>x. k x = p) xs"
proof (cases "List.find (\<lambda>x. k x = p) xs")
  case None
  then have "p \<notin> k ` set xs" by (auto simp: find_None_iff2)
  then have "map_of (rev (map (\<lambda>x. (k x, x)) xs)) p = None" by (simp only: map_of_key_None not_False_eq_True)
  with None show ?thesis by (simp only:)
next
  case (Some x)
  then have "x \<in> set xs \<and> k x = p" by (rule find_SomeD)
  then have "map_of (rev (map (\<lambda>x. (k x, x)) xs)) p = Some x" by (simp only: map_of_key_Some [OF assms] simp_thms)
  with Some show ?thesis by (simp only:)
qed

lemma set_mapE_eq:
  "list_all2 (\<lambda>x y. f x = Inr y) xs ys \<Longrightarrow> length ys = length xs"
  by (simp add: list_all2_lengthD)

section \<open>Charging and appending\<close>

lemma chargeD:
  assumes "charge_active_runtime s elapsed op allow = Inr (usage, remaining)"
  shows "0 \<le> elapsed" and "durable_usage_ok usage"
    and "usage = apply_actual_values (ds_usage s) (no_amounts\<lparr>ra_active_runtime_ns := elapsed\<rparr>)"
    and "remaining = max 0 (runtime_limit_ns (dp_base_policy (ds_policy s)) - ra_active_runtime_ns usage)"
    and "allow \<or> ra_active_runtime_ns usage \<le> runtime_limit_ns (dp_base_policy (ds_policy s))"
proof -
  from assms have e: "resource_amounts_ok (no_amounts\<lparr>ra_active_runtime_ns := elapsed\<rparr>)"
    by (auto simp: charge_active_runtime_def Let_def errs)
  then have "0 \<le> amount (no_amounts\<lparr>ra_active_runtime_ns := elapsed\<rparr>) Active_runtime_ns"
    by (simp only: resource_amounts_ok_iff)
  then show "0 \<le> elapsed" by simp
  from assms show "durable_usage_ok usage"
    and "usage = apply_actual_values (ds_usage s) (no_amounts\<lparr>ra_active_runtime_ns := elapsed\<rparr>)"
    and "remaining = max 0 (runtime_limit_ns (dp_base_policy (ds_policy s)) - ra_active_runtime_ns usage)"
    and "allow \<or> ra_active_runtime_ns usage \<le> runtime_limit_ns (dp_base_policy (ds_policy s))"
    by (auto simp: charge_active_runtime_def apply_actual_def Let_def errs split: if_splits)
qed

lemma amount_elapsed:
  "amount (no_amounts\<lparr>ra_active_runtime_ns := n\<rparr>) r = (if r = Active_runtime_ns then n else 0)"
  by (cases r) (simp_all add: no_amounts_def amounts_of_def)

lemma amount_charged:
  assumes "durable_usage_ok u"
  shows "amount (apply_actual_values u (no_amounts\<lparr>ra_active_runtime_ns := n\<rparr>)) r =
    (if r = Active_runtime_ns then amount u r + n else if r = Concurrency_slots then 0 else amount u r)"
    and "du_peak_concurrency (apply_actual_values u (no_amounts\<lparr>ra_active_runtime_ns := n\<rparr>))
      = du_peak_concurrency u"
proof -
  have nn: "0 \<le> amount u r" for r
    using assms by (simp add: durable_usage_ok_def resource_amounts_ok_iff)
  show "amount (apply_actual_values u (no_amounts\<lparr>ra_active_runtime_ns := n\<rparr>)) r =
    (if r = Active_runtime_ns then amount u r + n else if r = Concurrency_slots then 0 else amount u r)"
    using nn [of r] unfolding apply_actual_values_def usage_of_simps amount_elapsed by (auto simp: CUMULATIVE_def)
  have "amount (no_amounts\<lparr>ra_active_runtime_ns := n\<rparr>) Concurrency_slots = 0"
    by (simp only: amount_elapsed resource.distinct if_False)
  then show "du_peak_concurrency (apply_actual_values u (no_amounts\<lparr>ra_active_runtime_ns := n\<rparr>))
      = du_peak_concurrency u"
    using assms unfolding apply_actual_values_def usage_of_simps by (simp only: durable_usage_ok_def max_def) auto
qed

definition appended ::
    "durable_state \<Rightarrow> durable_state \<Rightarrow> idempotency \<Rightarrow> event \<Rightarrow> durable_state" where
  "appended s t r e = t\<lparr>ds_generation := ds_generation s + 1,
     ds_previous_state_sha256 := Some (ds_canonical_sha256 s),
     ds_operations := ds_operations s @ [r], ds_events := ds_events s @ [e]\<rparr>"

lemma appended_simps [simp]:
  "ds_run_id (appended s t r e) = ds_run_id t"
  "ds_generation (appended s t r e) = ds_generation s + 1"
  "ds_previous_state_sha256 (appended s t r e) = Some (ds_canonical_sha256 s)"
  "ds_policy (appended s t r e) = ds_policy t"
  "ds_policy_sha256 (appended s t r e) = ds_policy_sha256 t"
  "ds_activation_sha256 (appended s t r e) = ds_activation_sha256 t"
  "ds_usage (appended s t r e) = ds_usage t"
  "ds_active_permits (appended s t r e) = ds_active_permits t"
  "ds_settlements (appended s t r e) = ds_settlements t"
  "ds_attempts (appended s t r e) = ds_attempts t"
  "ds_cancellations (appended s t r e) = ds_cancellations t"
  "ds_operations (appended s t r e) = ds_operations s @ [r]"
  "ds_events (appended s t r e) = ds_events s @ [e]"
  "ds_failure_latch (appended s t r e) = ds_failure_latch t"
  "ds_active_runtime_remaining_ns (appended s t r e) = ds_active_runtime_remaining_ns t"
  by (simp_all add: appended_def)

lemma append_operationD:
  assumes "append_operation s op kind req subj payload f = Inr s'"
  shows "\<exists>r e. s' = appended s (f s) r e \<and> durable_state_ok s' \<and> id_operation_id r = op \<and>
    id_kind r = kind \<and> id_request_sha256 r = req \<and> id_subject_id r = subj \<and> ev_operation_id e = op"
proof -
  let ?r = "\<lparr>id_operation_id = op, id_kind = kind, id_request_sha256 = req, id_outcome = O_APPLIED,
    id_result_sha256 = canonical_sha256 payload, id_subject_id = subj\<rparr>"
  let ?e = "\<lparr>ev_ordinal = int (length (ds_events s)), ev_kind = kind, ev_operation_id = op,
    ev_subject_id = subj, ev_event_sha256 = canonical_sha256 (event_payload (int (length (ds_events s)))
      kind op subj (canonical_sha256 payload))\<rparr>"
  have "s' = appended s (f s) ?r ?e \<and> durable_state_ok s'"
    using assms unfolding append_operation_def appended_def Let_def bindE_Inr build_Inr by blast
  then show ?thesis by (intro exI [of _ ?r] exI [of _ ?e]) clarsimp
qed


section \<open>The checks that look beyond the log\<close>

definition changed_as :: "durable_state \<Rightarrow> durable_state \<Rightarrow> idempotency \<Rightarrow> bool" where
  "changed_as old new r \<longleftrightarrow>
     settlements_appended old new r \<and> latch_and_policy_kept old new (id_kind r) \<and>
     permits_changed_as old new r \<and> attempts_changed_as old new r \<and>
     cancellations_changed_as old new r \<and> usage_changed_as old new (id_kind r)"

lemma changed_as_appended [simp]: "changed_as s (appended s t r e) q = changed_as s t q"
  by (simp add: changed_as_def settlements_appended_def latch_and_policy_kept_def permits_changed_as_def
      attempts_changed_as_def cancellations_changed_as_def usage_changed_as_def permit_ids_def
      permit_of_def changed_attempts_def cancelled_permits_def cancellation_of_def)

lemma validate_appended:
  assumes "ds_run_id t = ds_run_id s" and "id_kind r \<noteq> K_INITIALIZE" and "ev_operation_id e = id_operation_id r"
  shows "validate_state_successor s (appended s t r e) \<longleftrightarrow> changed_as s t r"
  using changed_as_appended [of s t r e r] assms
  unfolding validate_state_successor_def changed_as_def log_appended_def Let_def by simp

text \<open>The part of the successor check that says a state only moved forward.\<close>

definition forward_step :: "durable_state \<Rightarrow> durable_state \<Rightarrow> bool" where
  "forward_step old new \<longleftrightarrow>
     log_appended old new \<and> settlements_appended old new (last (ds_operations new)) \<and>
     latch_and_policy_kept old new (id_kind (last (ds_operations new)))"

lemma validate_forward: "validate_state_successor s s' \<Longrightarrow> forward_step s s'"
  by (simp add: validate_state_successor_def forward_step_def Let_def)

lemma forward_appended:
  assumes "ds_run_id t = ds_run_id s" and "id_kind r \<noteq> K_INITIALIZE" and "ev_operation_id e = id_operation_id r"
    and "settlements_appended s t r" and "latch_and_policy_kept s t (id_kind r)"
  shows "forward_step s (appended s t r e)"
proof -
  have "settlements_appended s (appended s t r e) r" using assms(4) by (simp add: settlements_appended_def)
  moreover have "latch_and_policy_kept s (appended s t r e) (id_kind r)"
    using assms(5) unfolding latch_and_policy_kept_def appended_simps .
  ultimately show ?thesis using assms(1-3) by (simp add: forward_step_def log_appended_def)
qed

lemma append_operation_valid:
  assumes a: "append_operation s op kind req subj payload f = Inr s'"
    and k: "kind \<noteq> K_INITIALIZE" and run: "ds_run_id (f s) = ds_run_id s"
    and c: "\<And>r. id_kind r = kind \<Longrightarrow> id_subject_id r = subj \<Longrightarrow> id_operation_id r = op \<Longrightarrow> changed_as s (f s) r"
  shows "durable_state_ok s'" and "validate_state_successor s s'"
proof -
  from append_operationD [OF a] obtain r e where r: "s' = appended s (f s) r e" "durable_state_ok s'"
      "id_operation_id r = op" "id_kind r = kind" "id_subject_id r = subj" "ev_operation_id e = op"
    by blast
  show "durable_state_ok s'" by (fact r)
  have "changed_as s (f s) r" using c r by blast
  then show "validate_state_successor s s'"
    using validate_appended [OF run, of r e] k r by simp
qed

lemma usage_changed_charge:
  assumes "durable_usage_ok (ds_usage s)" and "ra_concurrency_slots (ds_usage s) = 0" and "0 \<le> elapsed"
    and "ds_usage t = apply_actual_values (ds_usage s) (no_amounts\<lparr>ra_active_runtime_ns := elapsed\<rparr>)"
  shows "usage_changed_as s t kind"
proof -
  have "amount (ds_usage s) Concurrency_slots = 0" using assms(2) by simp
  then show ?thesis
    using assms(3) unfolding usage_changed_as_def assms(4) amount_charged(1) [OF assms(1)] Let_def list_all_iff
    by auto
qed

text \<open>What the checks need of a state beyond \<open>validate_snapshot\<close>; every operation keeps it.\<close>

definition open_attempts_clean :: "durable_state \<Rightarrow> bool" where
  "open_attempts_clean s \<longleftrightarrow>
     (\<forall>a\<in>set (ds_attempts s). at_permit_id a \<in> set (permit_ids s) \<longrightarrow> at_failure_category a = None)"

definition budget_inv :: "durable_state \<Rightarrow> bool" where
  "budget_inv s \<longleftrightarrow> durable_state_ok s \<and> ra_concurrency_slots (ds_usage s) = 0 \<and>
     (\<forall>c\<in>set (ds_cancellations s). ca_state c \<noteq> C_NOT_REQUESTED) \<and> open_attempts_clean s"

lemma budget_invD:
  assumes "budget_inv s"
  shows "durable_usage_ok (ds_usage s)" and "ra_concurrency_slots (ds_usage s) = 0"
    and "distinct (map pm_permit_id (ds_active_permits s))"
    and "distinct (map at_permit_id (ds_attempts s))"
    and "distinct (map ca_permit_id (ds_cancellations s))"
    and "distinct (map st_permit_id (ds_settlements s))"
    and "set (permit_ids s) \<inter> set (settled_permits s) = {}"
    and "set (map at_permit_id (ds_attempts s)) = set (permit_ids s) \<union> set (settled_permits s)"
    and "\<And>c. c \<in> set (ds_cancellations s) \<Longrightarrow> ca_state c \<noteq> C_NOT_REQUESTED"
    and "open_attempts_clean s"
  using assms by (auto simp: budget_inv_def durable_state_ok_def validate_snapshot_def identities_distinct_def
      permit_ids_def settled_permits_def permits_partitioned_def)

lemma permit_of_eq:
  "budget_inv s \<Longrightarrow> permit_of s p = Some x \<longleftrightarrow> x \<in> set (ds_active_permits s) \<and> pm_permit_id x = p"
  unfolding permit_of_def by (rule map_of_key_Some) (rule budget_invD)

lemma cancellation_of_find: "budget_inv s \<Longrightarrow> cancellation_of s p = find_cancellation s p"
  unfolding cancellation_of_def find_cancellation_def by (rule map_of_key_find) (rule budget_invD)

lemma attempt_of_eq:
  "budget_inv s \<Longrightarrow> attempt_of s p = Some a \<longleftrightarrow> a \<in> set (ds_attempts s) \<and> at_permit_id a = p"
  unfolding attempt_of_def by (rule map_of_key_Some) (rule budget_invD)

lemma open_attempt:
  assumes inv: "budget_inv s" and p: "p \<in> set (ds_active_permits s)"
  shows "\<exists>a\<in>set (ds_attempts s). at_permit_id a = pm_permit_id p \<and> at_failure_category a = None \<and>
    at_status a = expected_status (find_cancellation s (pm_permit_id p)) (pm_status p)"
proof -
  have "map_option at_status (attempt_of s (pm_permit_id p)) =
      Some (expected_status (cancellation_of s (pm_permit_id p)) (pm_status p))"
    using inv p by (auto simp: budget_inv_def durable_state_ok_def validate_snapshot_def
        attempt_statuses_ok_def list_all_iff)
  then obtain a where a: "attempt_of s (pm_permit_id p) = Some a"
      "at_status a = expected_status (find_cancellation s (pm_permit_id p)) (pm_status p)"
    by (auto simp: cancellation_of_find [OF inv])
  then have "a \<in> set (ds_attempts s)" "at_permit_id a = pm_permit_id p"
    by (simp_all add: attempt_of_eq [OF inv])
  with a(2) p budget_invD(10) [OF inv] show ?thesis
    by (auto simp: open_attempts_clean_def permit_ids_def)
qed

end
