(* ===== verification/DurableSteps.thy ===== *)
theory DurableSteps
  imports DurableProofs
begin

text \<open>
  Every operation of the durable budget store keeps \<open>budget_inv\<close> and produces a state the
  successor check accepts: one lemma per operation.
\<close>

section \<open>Attempts\<close>

lemma update_attemptD:
  assumes "update_attempt f p as = Inr bs"
  shows "bs = map (\<lambda>a. if at_permit_id a = p then f a else a) as"
proof -
  have "list_all2 (\<lambda>a b. b = (if at_permit_id a = p then f a else a)) as bs"
    using assms unfolding update_attempt_def mapE_Inr
    by (rule list_all2_mono) (auto split: if_splits)
  then show ?thesis by (induction as bs rule: list_all2_induct) simp_all
qed

lemma changed_attempts_map:
  assumes "ds_attempts t = map (\<lambda>a. if at_permit_id a = p then f a else a) (ds_attempts s)"
  shows "changed_attempts s t = {q. q = p \<and> (\<exists>a\<in>set (ds_attempts s). at_permit_id a = p \<and> f a \<noteq> a)}"
proof -
  have "zip (ds_attempts s) (ds_attempts t) =
      map (\<lambda>a. (a, if at_permit_id a = p then f a else a)) (ds_attempts s)"
    unfolding assms by (simp add: zip_map2 zip_same_conv_map)
  then show ?thesis unfolding changed_attempts_def by (auto simp: image_iff split: if_splits)
qed

lemma attempts_changed_update:
  assumes t: "ds_attempts t = map (\<lambda>a. if at_permit_id a = p then f a else a) (ds_attempts s)"
    and f: "\<And>a. at_permit_id (f a) = at_permit_id a" "\<And>a. at_lineage (f a) = at_lineage a"
    and k: "id_kind r \<in> {K_START, K_SETTLE, K_RELEASE_NO_EFFECT, K_ACKNOWLEDGE_CANCEL}"
    and e: "(if settles (id_kind r) then Some (st_permit_id (last (ds_settlements t))) else id_subject_id r) = Some p"
  shows "attempts_changed_as s t r \<longleftrightarrow> id_kind r = K_ACKNOWLEDGE_CANCEL \<or>
    (\<exists>a\<in>set (ds_attempts s). at_permit_id a = p \<and> f a \<noteq> a)"
proof -
  have ids: "list_all2 (\<lambda>b a. at_permit_id b = at_permit_id a \<and> at_lineage b = at_lineage a)
      (ds_attempts s) (ds_attempts t)"
    unfolding t list_all2_conv_all_nth using f by simp
  define touched where "touched \<longleftrightarrow> (\<exists>a\<in>set (ds_attempts s). at_permit_id a = p \<and> f a \<noteq> a)"
  have c: "Some ` changed_attempts s t = (if touched then {Some p} else {})"
    unfolding changed_attempts_map [OF t] touched_def by auto
  have l: "length (ds_attempts t) = length (ds_attempts s)" unfolding t by simp
  have r: "id_kind r \<noteq> K_RESERVE" using k by auto
  show ?thesis
    using k e r l ids c unfolding attempts_changed_as_def touched_def [symmetric] Let_def
    by (elim insertE emptyE; simp add: settles_def)
qed

lemma attempts_kept:
  assumes "ds_attempts t = ds_attempts s" and "id_kind r \<in> {K_REQUEST_CANCEL, K_ACKNOWLEDGE_CANCEL, K_TIGHTEN_POLICY}"
  shows "attempts_changed_as s t r"
proof -
  have "changed_attempts s t = {}"
    unfolding changed_attempts_def assms(1) by (auto simp: set_zip)
  then show ?thesis using assms unfolding attempts_changed_as_def settles_def by (auto simp: list_all2_refl)
qed

lemma kept_simps:
  assumes "ds_settlements t = ds_settlements s" and "\<not> settles (id_kind r)"
  shows "settlements_appended s t r"
  using assms by (simp add: settlements_appended_def)

lemma latch_kept:
  assumes "ds_failure_latch t = ds_failure_latch s" and "ds_policy t = ds_policy s" and "k \<noteq> K_TIGHTEN_POLICY"
  shows "latch_and_policy_kept s t k"
  using assms by (cases "ds_failure_latch s") (simp_all add: latch_and_policy_kept_def)

section \<open>Permits\<close>

lemma option_eqI: "(\<And>z. a = Some z \<longleftrightarrow> b = Some z) \<Longrightarrow> a = b"
  by (cases a; cases b) auto

lemma map_of_key_update:
  assumes d: "distinct (map k xs)" and y: "k y = p" and x: "x \<in> set xs" "k x = p"
  shows "map_of (rev (map (\<lambda>x. (k x, x)) (map (\<lambda>x. if k x = p then y else x) xs)))
    = (map_of (rev (map (\<lambda>x. (k x, x)) xs)))(p \<mapsto> y)"
proof (intro ext option_eqI)
  let ?ys = "map (\<lambda>x. if k x = p then y else x) xs"
  have "map k ?ys = map k xs" using y by simp
  then have d': "distinct (map k ?ys)" using d by (simp only:)
  fix q z
  have "z \<in> set ?ys \<and> k z = q \<longleftrightarrow> (if q = p then z = y else z \<in> set xs \<and> k z = q)"
    using x y by auto
  then show "map_of (rev (map (\<lambda>x. (k x, x)) ?ys)) q = Some z \<longleftrightarrow>
      ((map_of (rev (map (\<lambda>x. (k x, x)) xs)))(p \<mapsto> y)) q = Some z"
    unfolding map_of_key_Some [OF d'] fun_upd_apply by (auto simp: map_of_key_Some [OF d] split: if_splits)
qed

lemma find_permitD:
  assumes "find_permit s p = Some q"
  shows "q \<in> set (ds_active_permits s)" and "pm_permit_id q = p"
  using find_SomeD assms unfolding find_permit_def by fast+

lemma permit_replaced:
  assumes inv: "budget_inv s" and q: "find_permit s p = Some q" and r: "pm_permit_id r = p" "r \<noteq> q"
    and t: "ds_active_permits t = map (\<lambda>x. if pm_permit_id x = p then r else x) (ds_active_permits s)"
  shows "set (permit_ids t) = set (permit_ids s)"
    and "{x \<in> set (permit_ids s). permit_of t x \<noteq> permit_of s x} = {p}"
proof -
  note Q = find_permitD [OF q]
  have "permit_ids t = permit_ids s" unfolding permit_ids_def t using r(1) by simp
  then show "set (permit_ids t) = set (permit_ids s)" by simp
  have "permit_of t = (permit_of s)(p \<mapsto> r)"
    unfolding permit_of_def t by (rule ext) (simp only: map_of_key_update [OF budget_invD(3) [OF inv] r(1) Q])
  moreover have "permit_of s p = Some q" using Q by (simp add: permit_of_eq [OF inv])
  moreover have "p \<in> set (permit_ids s)" using Q by (auto simp: permit_ids_def)
  ultimately show "{x \<in> set (permit_ids s). permit_of t x \<noteq> permit_of s x} = {p}"
    using r(2) by auto
qed

section \<open>The common end of every operation\<close>

lemma open_attempts_update:
  assumes "open_attempts_clean s" and "set (permit_ids t) \<subseteq> set (permit_ids s)"
    and "ds_attempts t = map (\<lambda>a. if at_permit_id a = p then f a else a) (ds_attempts s)"
    and "\<And>a. at_permit_id (f a) = at_permit_id a"
    and "p \<in> set (permit_ids t) \<Longrightarrow> \<forall>a. at_failure_category (f a) = at_failure_category a"
  shows "open_attempts_clean t"
  using assms unfolding open_attempts_clean_def by auto

lemma step_budget_inv:
  assumes a: "append_operation s op kind req subj payload f = Inr s'"
    and slots: "ra_concurrency_slots (ds_usage (f s)) = 0"
    and canc: "\<forall>c\<in>set (ds_cancellations (f s)). ca_state c \<noteq> C_NOT_REQUESTED"
    and clean: "open_attempts_clean (f s)"
  shows "budget_inv s'"
proof -
  from append_operationD [OF a] obtain r e where s': "s' = appended s (f s) r e" "durable_state_ok s'"
    by blast
  have "open_attempts_clean s'"
    using clean unfolding s'(1) by (simp add: open_attempts_clean_def permit_ids_def)
  moreover have "ra_concurrency_slots (ds_usage s') = 0"
    "\<forall>c\<in>set (ds_cancellations s'). ca_state c \<noteq> C_NOT_REQUESTED"
    using slots canc unfolding s'(1) by simp_all
  ultimately show ?thesis using s'(2) unfolding budget_inv_def by blast
qed

lemma step_valid:
  assumes a: "append_operation s op kind req subj payload f = Inr s'"
    and k: "kind \<noteq> K_INITIALIZE" and run: "ds_run_id (f s) = ds_run_id s"
    and slots: "ra_concurrency_slots (ds_usage (f s)) = 0"
    and canc: "\<forall>c\<in>set (ds_cancellations (f s)). ca_state c \<noteq> C_NOT_REQUESTED"
    and clean: "open_attempts_clean (f s)"
    and c: "\<And>r. id_kind r = kind \<Longrightarrow> id_subject_id r = subj \<Longrightarrow> id_operation_id r = op \<Longrightarrow> changed_as s (f s) r"
  shows "budget_inv s' \<and> validate_state_successor s s'"
  using step_budget_inv [OF a slots canc clean] append_operation_valid(2) [OF a k run c] by blast

lemma charged_slots:
  assumes "budget_inv s"
  shows "ra_concurrency_slots (apply_actual_values (ds_usage s) (no_amounts\<lparr>ra_active_runtime_ns := n\<rparr>)) = 0"
proof -
  have "amount (apply_actual_values (ds_usage s) (no_amounts\<lparr>ra_active_runtime_ns := n\<rparr>)) Concurrency_slots = 0"
    unfolding amount_charged(1) [OF budget_invD(1) [OF assms]] by simp
  then show ?thesis by simp
qed

lemma charged_usage_changed:
  assumes inv: "budget_inv s" and c: "charge_active_runtime s elapsed op allow = Inr (usage, remaining)"
    and "ds_usage t = usage"
  shows "usage_changed_as s t kind"
  using usage_changed_charge [OF budget_invD(1,2) [OF inv]] chargeD(1,3) [OF c] assms(3) by simp

section \<open>Inversion of the operations\<close>

lemma startE:
  assumes "start_successor op p s elapsed = Inr s'"
  obtains usage remaining q started attempts where
    "charge_active_runtime s elapsed op False = Inr (usage, remaining)"
    "find_permit s p = Some q" "pm_status q = P_RESERVED"
    "find_cancellation s p = None \<or> (\<exists>x. find_cancellation s p = Some x \<and> ca_state x = C_NOT_REQUESTED)"
    "started = q\<lparr>pm_status := P_STARTED, pm_started_active_runtime_ns := Some (ra_active_runtime_ns usage)\<rparr>"
    "update_attempt (\<lambda>a. a\<lparr>at_status := A_STARTED\<rparr>) p (ds_attempts s) = Inr attempts"
    "append_operation s op K_START (start_request p) (Some p) (json_of_permit started)
      (\<lambda>s. s\<lparr>ds_active_permits := map (\<lambda>q. if pm_permit_id q = p then started else q) (ds_active_permits s),
         ds_attempts := attempts, ds_usage := usage, ds_active_runtime_remaining_ns := remaining\<rparr>) = Inr s'"
  using assms unfolding start_successor_def bindE_Inr by (auto simp: errs split: option.splits if_splits)

lemma reserveE:
  assumes "reserve_successor op p rv l ep ea s elapsed = Inr s'"
  obtains usage remaining q a where
    "charge_active_runtime s elapsed op False = Inr (usage, remaining)"
    "admit_reservation (s\<lparr>ds_usage := usage, ds_active_runtime_remaining_ns := remaining\<rparr>) rv op = Inr ()"
    "admit_lineage s l op = Inr ()" "p \<notin> set (permit_ids s) \<union> set (settled_permits s)"
    "q = \<lparr>pm_permit_id = p, pm_reservation = rv, pm_lineage = l, pm_status = P_RESERVED,
       pm_reserved_active_runtime_ns = ra_active_runtime_ns usage, pm_started_active_runtime_ns = None\<rparr>"
    "a = \<lparr>at_permit_id = p, at_lineage = l, at_status = A_RESERVED, at_failure_category = None,
       at_effect_evidence_sha256 = None\<rparr>"
    "append_operation s op K_RESERVE (reserve_request p rv l ep ea) (Some p) (json_of_permit q)
      (\<lambda>s. s\<lparr>ds_active_permits := ds_active_permits s @ [q], ds_attempts := ds_attempts s @ [a],
         ds_usage := usage, ds_active_runtime_remaining_ns := remaining\<rparr>) = Inr s'"
  using assms unfolding reserve_successor_def bindE_Inr by (auto simp: errs split: if_splits)

lemma request_cancelE:
  assumes "request_cancel_successor op p s elapsed = Inr s'"
  obtains usage remaining c where
    "charge_active_runtime s elapsed op True = Inr (usage, remaining)" "p \<in> set (permit_ids s)"
    "find_cancellation s p = None \<or> (\<exists>x. find_cancellation s p = Some x \<and> ca_state x = C_NOT_REQUESTED)"
    "c = \<lparr>ca_permit_id = p, ca_state = C_REQUESTED, ca_requested_operation_id = Some op,
      ca_evidence_sha256 = None, ca_worker_live = True, ca_observed_active_runtime_ns = ra_active_runtime_ns usage\<rparr>"
    "append_operation s op K_REQUEST_CANCEL (request_cancel_request p) (Some p) (json_of_cancellation c)
      (\<lambda>s. s\<lparr>ds_cancellations := replace_cancellation c (ds_cancellations s), ds_usage := usage,
         ds_active_runtime_remaining_ns := remaining\<rparr>) = Inr s'"
  using assms unfolding request_cancel_successor_def bindE_Inr
  by (auto simp: errs split: option.splits if_splits)

definition recorded :: "cancellation_state \<Rightarrow> string option \<Rightarrow> attempt \<Rightarrow> attempt" where
  "recorded v ev a = (if v \<in> {C_UNCONFIRMED, C_EFFECT_UNKNOWN}
     then a\<lparr>at_status := A_EFFECT_UNKNOWN, at_effect_evidence_sha256 := ev\<rparr> else a)"

lemma record_effectsD:
  assumes "record_effects s p v ev op = Inr (latch, attempts)"
  shows "attempts = map (\<lambda>a. if at_permit_id a = p then recorded v ev a else a) (ds_attempts s)"
    and "if v \<in> {C_UNCONFIRMED, C_EFFECT_UNKNOWN} then record_latch (ds_failure_latch s) v ev op = Inr latch
      else latch = ds_failure_latch s"
  using assms by (auto simp: record_effects_def errs recorded_def map_idI dest!: update_attemptD split: if_splits)

lemma record_cancelE:
  assumes "record_cancel_successor op p v ev live s elapsed = Inr s'"
  obtains usage remaining b c latch where
    "charge_active_runtime s elapsed op True = Inr (usage, remaining)"
    "find_cancellation s p = Some b" "cancellation_transition_allowed b v ev live"
    "v \<in> {C_ACKNOWLEDGED, C_CANCELLED} \<Longrightarrow> ev \<noteq> None"
    "c = \<lparr>ca_permit_id = p, ca_state = v, ca_requested_operation_id = ca_requested_operation_id b,
      ca_evidence_sha256 = ev, ca_worker_live = live, ca_observed_active_runtime_ns = ra_active_runtime_ns usage\<rparr>"
    "if v \<in> {C_UNCONFIRMED, C_EFFECT_UNKNOWN} then record_latch (ds_failure_latch s) v ev op = Inr latch
      else latch = ds_failure_latch s"
    "append_operation s op K_ACKNOWLEDGE_CANCEL (record_cancel_request p v ev live) (Some p)
      (json_of_cancellation c) (\<lambda>t. t\<lparr>ds_cancellations := replace_cancellation c (ds_cancellations t),
         ds_failure_latch := latch,
         ds_attempts := map (\<lambda>a. if at_permit_id a = p then recorded v ev a else a) (ds_attempts s),
         ds_usage := usage, ds_active_runtime_remaining_ns := remaining\<rparr>) = Inr s'"
proof -
  from assms obtain usage remaining b latch attempts where
    X: "charge_active_runtime s elapsed op True = Inr (usage, remaining)"
    "find_cancellation s p = Some b" "cancellation_transition_allowed b v ev live"
    "v \<in> {C_ACKNOWLEDGED, C_CANCELLED} \<longrightarrow> ev \<noteq> None"
    and e: "record_effects s p v ev op = Inr (latch, attempts)"
    and a: "append_operation s op K_ACKNOWLEDGE_CANCEL (record_cancel_request p v ev live) (Some p)
      (json_of_cancellation \<lparr>ca_permit_id = p, ca_state = v,
        ca_requested_operation_id = ca_requested_operation_id b, ca_evidence_sha256 = ev,
        ca_worker_live = live, ca_observed_active_runtime_ns = ra_active_runtime_ns usage\<rparr>)
      (\<lambda>t. t\<lparr>ds_cancellations := replace_cancellation \<lparr>ca_permit_id = p, ca_state = v,
        ca_requested_operation_id = ca_requested_operation_id b, ca_evidence_sha256 = ev,
        ca_worker_live = live, ca_observed_active_runtime_ns = ra_active_runtime_ns usage\<rparr> (ds_cancellations t),
         ds_failure_latch := latch, ds_attempts := attempts, ds_usage := usage,
         ds_active_runtime_remaining_ns := remaining\<rparr>) = Inr s'"
    unfolding record_cancel_successor_def bindE_Inr
    by (auto simp: errs split: option.splits if_splits)
  show thesis
    by (rule that [OF X(1-3) _ refl record_effectsD(2) [OF e]])
      (use X(4) a record_effectsD(1) [OF e] in simp_all)
qed

lemma releaseE:
  assumes "release_successor op sid p ev s elapsed = Inr s'"
  obtains usage remaining q t where
    "charge_active_runtime s elapsed op True = Inr (usage, remaining)"
    "find_permit s p = Some q" "pm_status q = P_RESERVED"
    "t = \<lparr>st_settlement_id = sid, st_permit_id = p, st_operation_id = op,
       st_operation_request_sha256 = release_request sid p ev,
       st_reserved = rv_requested (pm_reservation q), st_actual = no_amounts,
       st_released = rv_requested (pm_reservation q), st_status = S_RELEASED_NO_EFFECT,
       st_result_sha256 = None, st_effect_evidence_sha256 = Some ev,
       st_cancellation_evidence_sha256 = None, st_deterministic_tool_evidence = None,
       st_settled_active_runtime_ns = ra_active_runtime_ns usage\<rparr>"
    "append_operation s op K_RELEASE_NO_EFFECT (release_request sid p ev) (Some sid) (json_of_settlement t)
      (close_permit t (map (\<lambda>a. if at_permit_id a = p then a\<lparr>at_status := A_CANCELLED,
         at_effect_evidence_sha256 := Some ev\<rparr> else a) (ds_attempts s)) usage remaining (ds_failure_latch s)) = Inr s'"
  using assms unfolding release_successor_def bindE_Inr
  by (auto simp: errs dest!: update_attemptD split: option.splits if_splits)

lemma settle_guardsD:
  assumes "settle_guards s x op = Inr q"
  shows "find_permit s (sa_permit_id x) = Some q" and "pm_status q = P_STARTED"
    and "sa_status x \<noteq> S_RELEASED_NO_EFFECT"
    and "\<And>c. find_cancellation s (sa_permit_id x) = Some c \<Longrightarrow> \<not> ca_worker_live c \<and>
      ca_state c \<notin> {C_REQUESTED, C_UNCONFIRMED} \<and>
      (ca_state c = C_EFFECT_UNKNOWN \<longrightarrow> sa_status x = S_EFFECT_UNKNOWN) \<and>
      (ca_state c \<in> {C_ACKNOWLEDGED, C_CANCELLED} \<longrightarrow> sa_status x = S_CANCELLED)"
  using assms
  by (auto simp: settle_guards_def settle_cancellation_guard_def errs split: option.splits if_splits)

definition settled_actual :: "settle_args \<Rightarrow> permit \<Rightarrow> durable_usage \<Rightarrow> resource_amounts" where
  "settled_actual x q charged = (sa_actual x)\<lparr>ra_active_runtime_ns :=
     ra_active_runtime_ns charged - pm_reserved_active_runtime_ns q\<rparr>"

definition overran :: "resource_amounts \<Rightarrow> resource_amounts \<Rightarrow> bool" where
  "overran reserved actual \<longleftrightarrow> (\<exists>r. amount reserved r < amount actual r)"

lemma released_overrun: "snd (released_amounts reserved actual) = overran reserved actual"
  by (simp add: released_amounts_def overran_def list_ex_iff)

definition settled_attempt :: "settle_args \<Rightarrow> settlement_status \<Rightarrow> attempt \<Rightarrow> attempt" where
  "settled_attempt x eff a = a\<lparr>at_status := settlement_attempt_status eff,
     at_failure_category := sa_failure_category x, at_effect_evidence_sha256 := sa_effect_evidence_sha256 x\<rparr>"

lemma settled_attempt_eta:
  "(\<lambda>a. a\<lparr>at_status := settlement_attempt_status eff, at_failure_category := sa_failure_category x,
     at_effect_evidence_sha256 := sa_effect_evidence_sha256 x\<rparr>) = settled_attempt x eff"
  by (simp add: fun_eq_iff settled_attempt_def)

lemma settleE:
  assumes "settle_successor op x s elapsed = Inr s'"
  obtains q charged remaining t eff usage latch where
    "settle_guards s x op = Inr q" "charge_active_runtime s elapsed op True = Inr (charged, remaining)"
    "resource_amounts_ok (settled_actual x q charged)"
    "eff = (if overran (rv_requested (pm_reservation q)) (settled_actual x q charged) then S_OVERRUN else sa_status x)"
    "t = \<lparr>st_settlement_id = sa_settlement_id x, st_permit_id = sa_permit_id x, st_operation_id = op,
        st_operation_request_sha256 = settle_request x, st_reserved = rv_requested (pm_reservation q),
        st_actual = settled_actual x q charged,
        st_released = fst (released_amounts (rv_requested (pm_reservation q)) (settled_actual x q charged)),
        st_status = eff, st_result_sha256 = sa_result_sha256 x,
        st_effect_evidence_sha256 = sa_effect_evidence_sha256 x,
        st_cancellation_evidence_sha256 = sa_cancellation_evidence_sha256 x,
        st_deterministic_tool_evidence = sa_tool_evidence x,
        st_settled_active_runtime_ns = ra_active_runtime_ns charged\<rparr>"
    "\<And>r. amount usage r = amount (apply_actual_values charged
        ((settled_actual x q charged)\<lparr>ra_active_runtime_ns := 0\<rparr>)) r"
    "settle_latch (ds_failure_latch s) eff (rv_requested (pm_reservation q)) (settled_actual x q charged) x op = Inr latch"
    "append_operation s op K_SETTLE (settle_request x) (Some (sa_settlement_id x)) (json_of_settlement t)
      (close_permit t (map (\<lambda>a. if at_permit_id a = sa_permit_id x then settled_attempt x eff a else a)
         (ds_attempts s)) usage remaining latch) = Inr s'"
proof -
  have peak: "amount (u\<lparr>du_peak_concurrency := n\<rparr>) r = amount u r" for u :: durable_usage and n r
    by (cases r) simp_all
  from assms obtain q charged remaining where
    X: "settle_guards s x op = Inr q" "charge_active_runtime s elapsed op True = Inr (charged, remaining)"
    "resource_amounts_ok (settled_actual x q charged)"
    and rest: "(let reserved = rv_requested (pm_reservation q);
         (released, overrun) = released_amounts reserved (settled_actual x q charged);
         effective_status = (if overrun then S_OVERRUN else sa_status x) in
     bindE (build settlement_ok ''DurableSettlementV1''
       \<lparr>st_settlement_id = sa_settlement_id x, st_permit_id = sa_permit_id x,
        st_operation_id = op, st_operation_request_sha256 = settle_request x,
        st_reserved = reserved, st_actual = settled_actual x q charged, st_released = released,
        st_status = effective_status, st_result_sha256 = sa_result_sha256 x,
        st_effect_evidence_sha256 = sa_effect_evidence_sha256 x,
        st_cancellation_evidence_sha256 = sa_cancellation_evidence_sha256 x,
        st_deterministic_tool_evidence = sa_tool_evidence x,
        st_settled_active_runtime_ns = ra_active_runtime_ns charged\<rparr>) (\<lambda>t.
     bindE (apply_actual charged ((settled_actual x q charged)\<lparr>ra_active_runtime_ns := 0\<rparr>)) (\<lambda>usage0.
     bindE (case sa_observed_peak_concurrency x of None \<Rightarrow> Inr usage0
            | Some n \<Rightarrow> build durable_usage_ok ''DurableUsageV1''
                (usage0\<lparr>du_peak_concurrency := max (du_peak_concurrency usage0) n\<rparr>)) (\<lambda>usage.
     bindE (settle_latch (ds_failure_latch s) effective_status reserved (settled_actual x q charged) x op) (\<lambda>latch.
     bindE (update_attempt (settled_attempt x effective_status) (sa_permit_id x) (ds_attempts s))
       (\<lambda>attempts.
     append_operation s op K_SETTLE (settle_request x) (Some (sa_settlement_id x))
       (json_of_settlement t) (close_permit t attempts usage remaining latch))))))) = Inr s'"
    unfolding settle_successor_def bindE_Inr [where m = "settle_guards s x op"]
      bindE_Inr [where m = "charge_active_runtime s elapsed op True"] split_paired_Ex prod.case
      bindE_Inr [where m = "build resource_amounts_ok n y" for n y] build_Inr
      settled_actual_def [symmetric] settled_attempt_eta by blast
  define reserved where "reserved = rv_requested (pm_reservation q)"
  define eff where "eff = (if overran reserved (settled_actual x q charged) then S_OVERRUN else sa_status x)"
  define t where "t = \<lparr>st_settlement_id = sa_settlement_id x, st_permit_id = sa_permit_id x,
        st_operation_id = op, st_operation_request_sha256 = settle_request x,
        st_reserved = reserved, st_actual = settled_actual x q charged,
        st_released = fst (released_amounts reserved (settled_actual x q charged)),
        st_status = eff, st_result_sha256 = sa_result_sha256 x,
        st_effect_evidence_sha256 = sa_effect_evidence_sha256 x,
        st_cancellation_evidence_sha256 = sa_cancellation_evidence_sha256 x,
        st_deterministic_tool_evidence = sa_tool_evidence x,
        st_settled_active_runtime_ns = ra_active_runtime_ns charged\<rparr>"
  from rest obtain usage0 usage latch attempts where
    Y: "apply_actual charged ((settled_actual x q charged)\<lparr>ra_active_runtime_ns := 0\<rparr>) = Inr usage0"
    "(case sa_observed_peak_concurrency x of None \<Rightarrow> Inr usage0
            | Some n \<Rightarrow> build durable_usage_ok ''DurableUsageV1''
                (usage0\<lparr>du_peak_concurrency := max (du_peak_concurrency usage0) n\<rparr>)) = Inr usage"
    "settle_latch (ds_failure_latch s) eff reserved (settled_actual x q charged) x op = Inr latch"
    "update_attempt (settled_attempt x eff) (sa_permit_id x) (ds_attempts s) = Inr attempts"
    "append_operation s op K_SETTLE (settle_request x) (Some (sa_settlement_id x))
       (json_of_settlement t) (close_permit t attempts usage remaining latch) = Inr s'"
    unfolding Let_def reserved_def [symmetric]
    by (simp only: split_beta released_overrun t_def [symmetric] eff_def [symmetric] bindE_Inr build_Inr) blast
  have "amount usage r = amount usage0 r" for r
    using Y(2) peak by (auto split: option.splits)
  then have u: "amount usage r = amount (apply_actual_values charged
      ((settled_actual x q charged)\<lparr>ra_active_runtime_ns := 0\<rparr>)) r" for r
    using Y(1) by (simp add: apply_actual_def)
  have a: "append_operation s op K_SETTLE (settle_request x) (Some (sa_settlement_id x)) (json_of_settlement t)
      (close_permit t (map (\<lambda>a. if at_permit_id a = sa_permit_id x then settled_attempt x eff a else a)
         (ds_attempts s)) usage remaining latch) = Inr s'"
    using Y(5) unfolding update_attemptD [OF Y(4)] .
  show thesis
    by (rule that [OF X eff_def [unfolded reserved_def] t_def [unfolded reserved_def] u
        Y(3) [unfolded reserved_def] a])
qed

lemma tightenE:
  assumes "tighten_successor op new reason s elapsed = Inr s'"
  obtains usage remaining where
    "charge_active_runtime s elapsed op False = Inr (usage, remaining)"
    "ds_failure_latch s = None" "new \<noteq> ds_policy s" "is_policy_tightening (ds_policy s) new"
    "\<And>r. tighten_demand usage (ds_active_permits s) r \<le> tighten_limit new r"
    "append_operation s op K_TIGHTEN_POLICY (tighten_request new reason) (Some (ds_run_id s))
       (JObj [(''old_policy_sha256'', JStr (dp_canonical_sha256 (ds_policy s))),
                  (''new_policy_sha256'', JStr (dp_canonical_sha256 new)),
                  (''reason_sha256'', JStr reason)])
       (\<lambda>s. s\<lparr>ds_policy := new, ds_policy_sha256 := dp_policy_sha256 new,
                  ds_activation_sha256 := dp_activation_sha256 new, ds_usage := usage,
                  ds_active_runtime_remaining_ns := max 0
                    (runtime_limit_ns (dp_base_policy new) - ra_active_runtime_ns usage)\<rparr>) = Inr s'"
  using assms unfolding tighten_successor_def bindE_Inr
  by (auto simp: errs checks_pass not_less split: if_splits intro: that)

section \<open>Start\<close>

lemma start_valid:
  assumes inv: "budget_inv s" and st: "start_successor op p s elapsed = Inr s'"
  shows "budget_inv s' \<and> validate_state_successor s s'"
  using st
proof (cases rule: startE)
  case (1 usage remaining q started attempts)
  let ?t = "s\<lparr>ds_active_permits := map (\<lambda>q. if pm_permit_id q = p then started else q) (ds_active_permits s),
         ds_attempts := attempts, ds_usage := usage, ds_active_runtime_remaining_ns := remaining\<rparr>"
  note A = update_attemptD [OF 1(6)] and Q = find_permitD [OF 1(2)]
  have "pm_status started \<noteq> pm_status q" using 1(3) by (simp add: 1(5))
  then have "started \<noteq> q" by metis
  then have new: "pm_permit_id started = p" "started \<noteq> q" using Q by (simp_all add: 1(5))
  note P = permit_replaced [OF inv 1(2) new, of ?t, simplified]
  have ids: "set (permit_ids ?t) = set (permit_ids s)" using P(1) by simp
  from open_attempt [OF inv Q(1)] 1(3,4) Q(2) obtain b where
    b: "b \<in> set (ds_attempts s)" "at_permit_id b = p" "at_status b = A_RESERVED"
    by (auto simp: expected_status_def)
  then have "at_status (b\<lparr>at_status := A_STARTED\<rparr>) \<noteq> at_status b" by simp
  then have touched: "\<exists>b\<in>set (ds_attempts s). at_permit_id b = p \<and> b\<lparr>at_status := A_STARTED\<rparr> \<noteq> b"
    using b(1,2) by metis
  show ?thesis
  proof (rule step_valid [OF 1(7)])
    fix r :: idempotency assume r: "id_kind r = K_START" "id_subject_id r = Some p"
    have "attempts_changed_as s ?t r"
      by (subst attempts_changed_update [where p = p and f = "\<lambda>a. a\<lparr>at_status := A_STARTED\<rparr>"])
        (use A r touched in \<open>auto simp: settles_def\<close>)
    moreover have "permits_changed_as s ?t r"
      using P r by (auto simp: permits_changed_as_def Let_def)
    ultimately show "changed_as s ?t r"
      using r charged_usage_changed [OF inv 1(1), of ?t] unfolding changed_as_def
      by (simp add: kept_simps latch_kept settles_def cancellations_changed_as_def)
  next
    show "open_attempts_clean ?t"
      by (rule open_attempts_update [OF budget_invD(10) [OF inv], where p = p and f = "\<lambda>a. a\<lparr>at_status := A_STARTED\<rparr>"])
        (use A ids in auto)
  qed (use charged_slots [OF inv] chargeD(3) [OF 1(1)] budget_invD(9) [OF inv] in auto)
qed

section \<open>Reserve\<close>

lemma permits_added:
  assumes t: "ds_active_permits t = ds_active_permits s @ [q]" and "pm_permit_id q = p" "p \<notin> set (permit_ids s)"
    and "id_kind r = K_RESERVE" "id_subject_id r = Some p"
  shows "permits_changed_as s t r"
proof -
  have ids: "set (permit_ids t) = insert p (set (permit_ids s))"
    using assms(1,2) by (simp add: permit_ids_def)
  have "permit_of t x = permit_of s x" if "x \<noteq> p" for x
    using that assms(1,2) by (simp add: permit_of_def)
  moreover have "insert p (set (permit_ids s)) - set (permit_ids s) = {p}" using assms(3) by auto
  ultimately show ?thesis
    using assms(3,4,5) unfolding permits_changed_as_def ids Let_def by auto
qed

lemma reserve_valid:
  assumes inv: "budget_inv s" and st: "reserve_successor op p rv l ep ea s elapsed = Inr s'"
  shows "budget_inv s' \<and> validate_state_successor s s'"
  using st
proof (cases rule: reserveE)
  case (1 usage remaining q a)
  let ?t = "s\<lparr>ds_active_permits := ds_active_permits s @ [q], ds_attempts := ds_attempts s @ [a],
         ds_usage := usage, ds_active_runtime_remaining_ns := remaining\<rparr>"
  have qa: "pm_permit_id q = p" "at_permit_id a = p" "at_failure_category a = None" by (simp_all add: 1)
  show ?thesis
  proof (rule step_valid [OF 1(7)])
    fix r :: idempotency assume r: "id_kind r = K_RESERVE" "id_subject_id r = Some p"
    have "permits_changed_as s ?t r" by (rule permits_added [where q = q and p = p]) (use qa 1(4) r in auto)
    moreover have "attempts_changed_as s ?t r"
      using r qa unfolding attempts_changed_as_def by simp
    ultimately show "changed_as s ?t r"
      using r charged_usage_changed [OF inv 1(1), of ?t] unfolding changed_as_def
      by (simp add: kept_simps latch_kept settles_def cancellations_changed_as_def)
  next
    have "\<forall>b\<in>set (ds_attempts s). at_permit_id b \<noteq> p" using 1(4) budget_invD(8) [OF inv] by force
    then show "open_attempts_clean ?t"
      using budget_invD(10) [OF inv] qa by (auto simp: open_attempts_clean_def permit_ids_def)
  qed (use charged_slots [OF inv] chargeD(3) [OF 1(1)] budget_invD(9) [OF inv] in auto)
qed

section \<open>Cancellation\<close>

lemma ids_replaced:
  "set (map ca_permit_id (replace_cancellation c cs)) = insert (ca_permit_id c) (set (map ca_permit_id cs))"
  by (auto simp: replace_cancellation_def)

lemma cancellation_replaced:
  assumes inv: "budget_inv s" and t: "ds_cancellations t = replace_cancellation c (ds_cancellations s)"
  shows "cancellation_of t q = (if q = ca_permit_id c then Some c else cancellation_of s q)"
proof (rule option_eqI)
  fix z
  have d: "distinct (map ca_permit_id (replace_cancellation c (ds_cancellations s)))"
    using budget_invD(5) [OF inv] by (auto simp: replace_cancellation_def distinct_map inj_on_def)
  show "cancellation_of t q = Some z \<longleftrightarrow>
      (if q = ca_permit_id c then Some c else cancellation_of s q) = Some z"
    unfolding cancellation_of_def t map_of_key_Some [OF d]
    by (auto simp: replace_cancellation_def map_of_key_Some [OF budget_invD(5) [OF inv]])
qed

lemma find_cancellationD:
  assumes "find_cancellation s p = Some c"
  shows "c \<in> set (ds_cancellations s)" and "ca_permit_id c = p"
  using find_SomeD assms unfolding find_cancellation_def by fast+

lemma request_cancel_valid:
  assumes inv: "budget_inv s" and st: "request_cancel_successor op p s elapsed = Inr s'"
  shows "budget_inv s' \<and> validate_state_successor s s'"
  using st
proof (cases rule: request_cancelE)
  case (1 usage remaining c)
  let ?t = "s\<lparr>ds_cancellations := replace_cancellation c (ds_cancellations s), ds_usage := usage,
         ds_active_runtime_remaining_ns := remaining\<rparr>"
  have c: "ca_permit_id c = p" "ca_state c = C_REQUESTED" by (simp_all add: 1)
  have "find_cancellation s p = None"
    using 1(3) find_cancellationD(1) budget_invD(9) [OF inv] by blast
  then have new: "p \<notin> set (cancelled_permits s)"
    by (auto simp: find_cancellation_def find_None_iff2 cancelled_permits_def)
  have ids: "set (cancelled_permits ?t) = insert p (set (cancelled_permits s))"
    using ids_replaced [of c] c by (simp add: cancelled_permits_def)
  show ?thesis
  proof (rule step_valid [OF 1(5)])
    fix r :: idempotency assume r: "id_kind r = K_REQUEST_CANCEL" "id_subject_id r = Some p"
    have "insert p (set (cancelled_permits s)) - set (cancelled_permits s) = {p}" using new by auto
    then have "cancellations_changed_as s ?t r"
      using r unfolding cancellations_changed_as_def ids Let_def by simp
    moreover have "permits_changed_as s ?t r" using r by (simp add: permits_changed_as_def settles_def)
    ultimately show "changed_as s ?t r"
      using r charged_usage_changed [OF inv 1(1), of ?t] unfolding changed_as_def
      by (simp add: kept_simps latch_kept settles_def attempts_kept)
  next
    show "open_attempts_clean ?t"
      using budget_invD(10) [OF inv] by (simp add: open_attempts_clean_def permit_ids_def)
    show "\<forall>c\<in>set (ds_cancellations ?t). ca_state c \<noteq> C_NOT_REQUESTED"
      using budget_invD(9) [OF inv] c(2) by (auto simp: replace_cancellation_def)
  qed (use charged_slots [OF inv] chargeD(3) [OF 1(1)] in auto)
qed

lemma record_latchD:
  "record_latch latch v ev op = Inr latch' \<Longrightarrow> latch \<noteq> None \<Longrightarrow> latch' = latch"
  by (auto simp: record_latch_def)

lemma transition_changes:
  assumes "cancellation_transition_allowed b v ev live"
  shows "ca_state b \<noteq> v \<or> ca_worker_live b \<noteq> live" and "v \<noteq> C_NOT_REQUESTED"
  using assms by (auto simp: cancellation_transition_allowed_def)

lemma record_cancel_valid:
  assumes inv: "budget_inv s" and st: "record_cancel_successor op p v ev live s elapsed = Inr s'"
  shows "budget_inv s' \<and> validate_state_successor s s'"
  using st
proof (cases rule: record_cancelE)
  case (1 usage remaining b c latch)
  let ?t = "s\<lparr>ds_cancellations := replace_cancellation c (ds_cancellations s), ds_failure_latch := latch,
         ds_attempts := map (\<lambda>a. if at_permit_id a = p then recorded v ev a else a) (ds_attempts s),
         ds_usage := usage, ds_active_runtime_remaining_ns := remaining\<rparr>"
  have c: "ca_permit_id c = p" "ca_state c = v" "ca_worker_live c = live" by (simp_all add: 1)
  note B = find_cancellationD [OF 1(2)]
  have "c \<noteq> b" using transition_changes(1) [OF 1(3)] c by auto
  moreover have "cancellation_of s p = Some b" using 1(2) by (simp add: cancellation_of_find [OF inv])
  moreover have "cancellation_of ?t q = (if q = p then Some c else cancellation_of s q)" for q
    using cancellation_replaced [OF inv, of ?t c] c(1) by simp
  moreover have p: "p \<in> set (cancelled_permits s)" using B by (auto simp: cancelled_permits_def)
  ultimately have changed: "{q \<in> set (cancelled_permits s). cancellation_of ?t q \<noteq> cancellation_of s q} = {p}"
    by auto
  have ids: "set (cancelled_permits ?t) = set (cancelled_permits s)"
    using ids_replaced [of c "ds_cancellations s"] c(1) p by (auto simp: cancelled_permits_def)
  show ?thesis
  proof (rule step_valid [OF 1(7)])
    fix r :: idempotency assume r: "id_kind r = K_ACKNOWLEDGE_CANCEL" "id_subject_id r = Some p"
    have "attempts_changed_as s ?t r"
      by (subst attempts_changed_update [where p = p and f = "recorded v ev"])
        (use r in \<open>auto simp: settles_def recorded_def\<close>)
    moreover have "cancellations_changed_as s ?t r"
      using r changed unfolding cancellations_changed_as_def ids Let_def by simp
    moreover have "latch_and_policy_kept s ?t K_ACKNOWLEDGE_CANCEL"
      using 1(6) by (auto simp: latch_and_policy_kept_def dest!: record_latchD split: if_splits)
    moreover have "permits_changed_as s ?t r" using r by (simp add: permits_changed_as_def settles_def)
    ultimately show "changed_as s ?t r"
      using r charged_usage_changed [OF inv 1(1), of ?t] unfolding changed_as_def
      by (simp add: kept_simps settles_def)
  next
    show "open_attempts_clean ?t"
      by (rule open_attempts_update [OF budget_invD(10) [OF inv], where p = p and f = "recorded v ev"])
        (auto simp: recorded_def permit_ids_def)
    show "\<forall>c\<in>set (ds_cancellations ?t). ca_state c \<noteq> C_NOT_REQUESTED"
      using budget_invD(9) [OF inv] c(2) transition_changes(2) [OF 1(3)] by (auto simp: replace_cancellation_def)
  qed (use charged_slots [OF inv] chargeD(3) [OF 1(1)] in auto)
qed

section \<open>Closing a permit\<close>

lemma close_permit_simps [simp]:
  "ds_active_permits (close_permit t as u n l s) = filter (\<lambda>q. pm_permit_id q \<noteq> st_permit_id t) (ds_active_permits s)"
  "ds_settlements (close_permit t as u n l s) = ds_settlements s @ [t]"
  "ds_attempts (close_permit t as u n l s) = as" "ds_usage (close_permit t as u n l s) = u"
  "ds_failure_latch (close_permit t as u n l s) = l" "ds_policy (close_permit t as u n l s) = ds_policy s"
  "ds_cancellations (close_permit t as u n l s) = ds_cancellations s"
  "ds_run_id (close_permit t as u n l s) = ds_run_id s"
  by (simp_all add: close_permit_def)

lemma permits_closed:
  assumes inv: "budget_inv s" and q: "find_permit s p = Some q" and t: "st_permit_id t = p"
    and k: "settles (id_kind r)"
  shows "permits_changed_as s (close_permit t as u n l s) r"
    and "set (permit_ids (close_permit t as u n l s)) = set (permit_ids s) - {p}"
proof -
  let ?t = "close_permit t as u n l s"
  show ids: "set (permit_ids ?t) = set (permit_ids s) - {p}" using t by (auto simp: permit_ids_def)
  have p: "p \<in> set (permit_ids s)" using find_permitD [OF q] by (auto simp: permit_ids_def)
  have d: "distinct (map pm_permit_id (ds_active_permits ?t))"
    using budget_invD(3) [OF inv] by (simp add: distinct_map_filter)
  have "permit_of ?t x = permit_of s x" if "x \<noteq> p" for x
    by (rule option_eqI)
      (use that t d in \<open>auto simp: permit_of_def map_of_key_Some map_of_key_Some [OF budget_invD(3) [OF inv]]\<close>)
  moreover have "id_kind r \<noteq> K_RESERVE" "id_kind r \<noteq> K_START" using k by (auto simp: settles_def)
  ultimately show "permits_changed_as s ?t r"
    using k p t unfolding permits_changed_as_def ids Let_def by auto
qed

lemma close_clean:
  assumes "budget_inv s" and "find_permit s p = Some q" and "st_permit_id t = p"
    and "\<And>a. at_permit_id (f a) = at_permit_id a"
  shows "open_attempts_clean (close_permit t (map (\<lambda>a. if at_permit_id a = p then f a else a) (ds_attempts s)) u n l s)"
proof -
  let ?t = "close_permit t (map (\<lambda>a. if at_permit_id a = p then f a else a) (ds_attempts s)) u n l s"
  have ids: "set (permit_ids ?t) = set (permit_ids s) - {p}" using assms(3) by (auto simp: permit_ids_def)
  show ?thesis
    by (rule open_attempts_update [OF budget_invD(10) [OF assms(1)], where p = p and f = f])
      (use assms(4) ids in auto)
qed

lemma release_valid:
  assumes inv: "budget_inv s" and st: "release_successor op sid p ev s elapsed = Inr s'"
  shows "budget_inv s' \<and> validate_state_successor s s'"
  using st
proof (cases rule: releaseE)
  case (1 usage remaining q t)
  let ?f = "\<lambda>a. a\<lparr>at_status := A_CANCELLED, at_effect_evidence_sha256 := Some ev\<rparr>"
  let ?t = "close_permit t (map (\<lambda>a. if at_permit_id a = p then ?f a else a) (ds_attempts s)) usage remaining (ds_failure_latch s) s"
  have t: "st_permit_id t = p" "st_settlement_id t = sid" "st_operation_id t = op" by (simp_all add: 1)
  note Q = find_permitD [OF 1(2)]
  from open_attempt [OF inv Q(1)] 1(3) Q(2) obtain b where
    b: "b \<in> set (ds_attempts s)" "at_permit_id b = p" "at_status b \<noteq> A_CANCELLED"
    by (auto simp: expected_status_def split: if_splits)
  then have "at_status (?f b) \<noteq> at_status b" by simp
  then have touched: "\<exists>b\<in>set (ds_attempts s). at_permit_id b = p \<and> ?f b \<noteq> b"
    using b(1,2) by metis
  show ?thesis
  proof (rule step_valid [OF 1(5)])
    fix r :: idempotency
    assume r: "id_kind r = K_RELEASE_NO_EFFECT" "id_subject_id r = Some sid" "id_operation_id r = op"
    have "attempts_changed_as s ?t r"
      by (subst attempts_changed_update [where p = p and f = ?f])
        (use r touched t in \<open>auto simp: settles_def\<close>)
    moreover have "permits_changed_as s ?t r"
      by (rule permits_closed(1) [OF inv 1(2) t(1)]) (use r in \<open>simp add: settles_def\<close>)
    moreover have "settlements_appended s ?t r"
      using r t by (simp add: settlements_appended_def settles_def)
    ultimately show "changed_as s ?t r"
      using r charged_usage_changed [OF inv 1(1), of ?t] unfolding changed_as_def
      by (simp add: latch_kept settles_def cancellations_changed_as_def)
  next
    show "open_attempts_clean ?t" by (rule close_clean [OF inv 1(2) t(1)]) simp
  qed (use charged_slots [OF inv] chargeD(3) [OF 1(1)] budget_invD(9) [OF inv] in auto)
qed

section \<open>Policy tightening\<close>

lemma tighten_valid:
  assumes inv: "budget_inv s" and st: "tighten_successor op new reason s elapsed = Inr s'"
  shows "budget_inv s' \<and> validate_state_successor s s'"
  using st
proof (cases rule: tightenE)
  case (1 usage remaining)
  let ?t = "s\<lparr>ds_policy := new, ds_policy_sha256 := dp_policy_sha256 new,
                  ds_activation_sha256 := dp_activation_sha256 new, ds_usage := usage,
                  ds_active_runtime_remaining_ns := max 0
                    (runtime_limit_ns (dp_base_policy new) - ra_active_runtime_ns usage)\<rparr>"
  show ?thesis
  proof (rule step_valid [OF 1(6)])
    fix r :: idempotency assume r: "id_kind r = K_TIGHTEN_POLICY"
    have "latch_and_policy_kept s ?t K_TIGHTEN_POLICY" using 1 by (simp add: latch_and_policy_kept_def)
    then show "changed_as s ?t r"
      using r charged_usage_changed [OF inv 1(1), of ?t] unfolding changed_as_def
      by (simp add: kept_simps settles_def attempts_kept permits_changed_as_def cancellations_changed_as_def)
  next
    show "open_attempts_clean ?t"
      using budget_invD(10) [OF inv] by (simp add: open_attempts_clean_def permit_ids_def)
  qed (use charged_slots [OF inv] chargeD(3) [OF 1(1)] budget_invD(9) [OF inv] in auto)
qed

section \<open>Settle\<close>

lemma settle_latchD:
  "settle_latch latch st reserved act x op = Inr latch' \<Longrightarrow> latch \<noteq> None \<Longrightarrow> latch' = latch"
  by (auto simp: settle_latch_def)

lemma amount_no_runtime:
  "amount (a\<lparr>ra_active_runtime_ns := 0\<rparr>) r = (if r = Active_runtime_ns then 0 else amount a r)"
  for a :: resource_amounts
  by (cases r) simp_all

lemma amount_settled:
  fixes act :: resource_amounts
  assumes "durable_usage_ok (ds_usage s)" and "charge_active_runtime s elapsed op allow = Inr (charged, remaining)"
    and "\<And>r. amount usage r = amount (apply_actual_values charged (act\<lparr>ra_active_runtime_ns := 0\<rparr>)) r"
  shows "amount usage r = (if r = Concurrency_slots then 0
     else if r = Active_runtime_ns then amount (ds_usage s) r + elapsed
     else if r \<in> CUMULATIVE then amount (ds_usage s) r + amount act r
     else max (amount (ds_usage s) r) (amount act r))"
  unfolding assms(3) apply_actual_values_def usage_of_simps amount_no_runtime
  unfolding chargeD(3) [OF assms(2)] amount_charged(1) [OF assms(1)]
  by (auto simp: CUMULATIVE_def)

lemma settle_step:
  assumes inv: "budget_inv s" and st: "settle_successor op x s elapsed = Inr s'"
  obtains eff where "budget_inv s'" "eff \<in> {S_OVERRUN, sa_status x}"
    "validate_state_successor s s' \<longleftrightarrow>
      (\<exists>a\<in>set (ds_attempts s). at_permit_id a = sa_permit_id x \<and> settled_attempt x eff a \<noteq> a)"
    "st_status (last (ds_settlements s')) = eff" "forward_step s s'"
  using st
proof (cases rule: settleE)
  case (1 q charged remaining t eff usage latch)
  let ?f = "settled_attempt x eff" and ?p = "sa_permit_id x"
  let ?t = "close_permit t (map (\<lambda>a. if at_permit_id a = ?p then ?f a else a) (ds_attempts s)) usage remaining latch s"
  have t: "st_permit_id t = ?p" "st_settlement_id t = sa_settlement_id x" "st_operation_id t = op"
    by (simp_all add: 1)
  note q = settle_guardsD(1) [OF 1(1)]
  note amt = amount_settled [OF budget_invD(1) [OF inv] 1(2) 1(6)]
  have "amount usage Concurrency_slots = 0" unfolding amt by simp
  then have slots: "ra_concurrency_slots usage = 0" by simp
  have "0 \<le> amount (settled_actual x q charged) r" for r
    using 1(3) by (simp add: resource_amounts_ok_iff)
  then have usage: "usage_changed_as s ?t K_SETTLE"
    using chargeD(1) [OF 1(2)] unfolding usage_changed_as_def Let_def close_permit_simps amt list_all_iff
    by (auto simp: CUMULATIVE_def simp del: amount.simps)
  have inv': "budget_inv s'"
  proof (rule step_budget_inv [OF 1(8)])
    show "open_attempts_clean ?t" by (rule close_clean [OF inv q t(1)]) (simp add: settled_attempt_def)
  qed (use slots budget_invD(9) [OF inv] in simp_all)
  from append_operationD [OF 1(8)] obtain r e where s': "s' = appended s ?t r e"
    and r: "id_operation_id r = op" "id_kind r = K_SETTLE" "id_subject_id r = Some (sa_settlement_id x)"
      "ev_operation_id e = op"
    by blast
  have "permits_changed_as s ?t r"
    by (rule permits_closed(1) [OF inv q t(1)]) (use r in \<open>simp add: settles_def\<close>)
  moreover have "settlements_appended s ?t r"
    using r t by (simp add: settlements_appended_def settles_def)
  moreover have "latch_and_policy_kept s ?t K_SETTLE"
    by (cases "ds_failure_latch s") (use settle_latchD [OF 1(7)] in \<open>auto simp: latch_and_policy_kept_def\<close>)
  moreover have "cancellations_changed_as s ?t r" using r by (simp add: cancellations_changed_as_def)
  moreover from calculation(2,3) have forward: "forward_step s s'"
    unfolding s' using r by (intro forward_appended) simp_all
  ultimately have "changed_as s ?t r \<longleftrightarrow> attempts_changed_as s ?t r"
    using usage r unfolding changed_as_def by simp
  moreover have "validate_state_successor s s' \<longleftrightarrow> changed_as s ?t r"
    unfolding s' by (rule validate_appended) (use r in simp_all)
  moreover have "attempts_changed_as s ?t r \<longleftrightarrow>
      (\<exists>a\<in>set (ds_attempts s). at_permit_id a = ?p \<and> ?f a \<noteq> a)"
    by (subst attempts_changed_update [where p = ?p and f = ?f])
      (use r t in \<open>auto simp: settles_def settled_attempt_def\<close>)
  moreover have "eff \<in> {S_OVERRUN, sa_status x}" using 1(4) by simp
  moreover have "st_status (last (ds_settlements s')) = eff" unfolding s' by (simp add: 1(5))
  ultimately show thesis using that inv' forward by blast
qed

lemma settle_valid:
  assumes inv: "budget_inv s" and st: "settle_successor op x s elapsed = Inr s'"
    and ok: "sa_status x = S_EFFECT_UNKNOWN \<Longrightarrow> sa_failure_category x \<noteq> None"
  shows "budget_inv s' \<and> validate_state_successor s s'"
proof -
  obtain q where g: "settle_guards s x op = Inr q" using st by (auto elim: settleE)
  note G = settle_guardsD [OF g] and Q = find_permitD [OF settle_guardsD(1) [OF g]]
  obtain eff where S: "budget_inv s'" "eff \<in> {S_OVERRUN, sa_status x}"
    "validate_state_successor s s' \<longleftrightarrow>
      (\<exists>a\<in>set (ds_attempts s). at_permit_id a = sa_permit_id x \<and> settled_attempt x eff a \<noteq> a)"
    "st_status (last (ds_settlements s')) = eff" "forward_step s s'"
    by (rule settle_step [OF inv st])
  from open_attempt [OF inv Q(1)] obtain b where
    b: "b \<in> set (ds_attempts s)" "at_permit_id b = sa_permit_id x" "at_failure_category b = None"
      "at_status b = expected_status (find_cancellation s (sa_permit_id x)) P_STARTED"
    using Q(2) G(2) by auto
  have "at_status (settled_attempt x eff b) \<noteq> at_status b \<or>
      at_failure_category (settled_attempt x eff b) \<noteq> at_failure_category b"
    using b(3,4) G(3,4) S(2) ok
    by (cases eff) (auto simp: settled_attempt_def expected_status_def split: option.splits if_splits)
  then have "settled_attempt x eff b \<noteq> b" by metis
  then show ?thesis using S b by blast
qed

end
