(* ===== verification/DurableRuns.thy ===== *)
theory DurableRuns
  imports DurableSteps
begin

text \<open>
  Runs of the durable budget store: the operations as one step function, the locale of what
  every operation guarantees, its interpretations, and the histories a run leaves.
\<close>

section \<open>One operation\<close>

datatype budget_op =
    Reserve_op string string reservation lineage "string option" "string option"
  | Start_op string string
  | Settle_op string settle_args
  | Release_op string string string string
  | Request_cancel_op string string
  | Record_cancel_op string string cancellation_state "string option" bool
  | Tighten_op string durable_policy string

fun op_successor :: "budget_op \<Rightarrow> durable_state \<Rightarrow> int \<Rightarrow> durable_state durable_result" where
  "op_successor (Reserve_op op p rv l ep ea) = reserve_successor op p rv l ep ea"
| "op_successor (Start_op op p) = start_successor op p"
| "op_successor (Settle_op op x) = settle_successor op x"
| "op_successor (Release_op op sid p ev) = release_successor op sid p ev"
| "op_successor (Request_cancel_op op p) = request_cancel_successor op p"
| "op_successor (Record_cancel_op op p v ev live) = record_cancel_successor op p v ev live"
| "op_successor (Tighten_op op new reason) = tighten_successor op new reason"

text \<open>
  The calls whose successor is always accepted back: a settlement that reports an unknown effect
  must say which failure category it is.  Without one the successor check can refuse the state
  that was just published; see \<open>unknown_settlement_blocks_run\<close>.
\<close>

fun reloadable :: "budget_op \<Rightarrow> bool" where
  "reloadable (Settle_op op x) \<longleftrightarrow> (sa_status x = S_EFFECT_UNKNOWN \<longrightarrow> sa_failure_category x \<noteq> None)"
| "reloadable _ = True"

section \<open>The contract of the operations\<close>

text \<open>A run keeps the states it went through, newest first, as the revision store does.\<close>

definition run_step ::
    "('c \<Rightarrow> durable_state \<Rightarrow> int \<Rightarrow> durable_state durable_result) \<Rightarrow> durable_state list \<Rightarrow> 'c \<times> int
      \<Rightarrow> durable_state list durable_result" where
  "run_step successor_of hist ce =
     bindE (successor_of (fst ce) (hd hist) (snd ce)) (\<lambda>s. Inr (s # hist))"

definition revisions :: "durable_state list \<Rightarrow> (int \<times> durable_state) list" where
  "revisions hist = map (\<lambda>s. (ds_generation s, s)) hist"

locale durable_operations =
  fixes successor_of :: "'c \<Rightarrow> durable_state \<Rightarrow> int \<Rightarrow> durable_state durable_result"
    and ok :: "'c \<Rightarrow> bool"
  assumes keeps: "ok c \<Longrightarrow> budget_inv s \<Longrightarrow> successor_of c s elapsed = Inr s' \<Longrightarrow> budget_inv s'"
    and accepted: "ok c \<Longrightarrow> budget_inv s \<Longrightarrow> successor_of c s elapsed = Inr s' \<Longrightarrow> validate_state_successor s s'"
begin

lemma run_invariant:
  assumes cs: "list_all (\<lambda>ce. ok (fst ce)) cs" and run: "foldE (run_step successor_of) hist cs = Inr hist'"
    and s: "P hist" and step: "\<And>c e hist s'. ok c \<Longrightarrow> P hist \<Longrightarrow> successor_of c (hd hist) e = Inr s' \<Longrightarrow> P (s' # hist)"
  shows "P hist'"
  using cs run s
proof (induction cs arbitrary: hist)
  case (Cons ce cs)
  then obtain h where h: "run_step successor_of hist ce = Inr h" "foldE (run_step successor_of) h cs = Inr hist'"
    by (auto simp: errs)
  then have "P h" using step [of "fst ce" hist "snd ce"] Cons.prems by (auto simp: run_step_def errs)
  then show ?case using Cons.IH [OF _ h(2)] Cons.prems(1) by simp
qed simp

lemma run_history:
  assumes cs: "list_all (\<lambda>ce. ok (fst ce)) cs" and run: "foldE (run_step successor_of) [s0] cs = Inr hist"
    and s0: "budget_inv s0" "ds_run_id s0 = run_id"
  shows "hist \<noteq> [] \<and> list_all budget_inv hist \<and> list_all (\<lambda>s. ds_run_id s = run_id) hist \<and>
    adjacent_ok validate_state_successor hist"
proof (rule run_invariant [OF cs run])
  fix c e hist s'
  assume c: "ok c" and P: "hist \<noteq> [] \<and> list_all budget_inv hist \<and> list_all (\<lambda>s. ds_run_id s = run_id) hist \<and>
    adjacent_ok validate_state_successor hist" and st: "successor_of c (hd hist) e = Inr s'"
  obtain s rest where h: "hist = s # rest" using P by (cases hist) auto
  with P have s: "budget_inv s" "ds_run_id s = run_id" by simp_all
  have s': "budget_inv s'" "validate_state_successor s s'"
    using keeps [OF c s(1)] accepted [OF c s(1)] st h by auto
  then have "log_appended s s'" by (simp only: validate_state_successor_def)
  then have "ds_run_id s' = run_id" using s(2) by (simp add: log_appended_def)
  then show "s' # hist \<noteq> [] \<and> list_all budget_inv (s' # hist) \<and> list_all (\<lambda>s. ds_run_id s = run_id) (s' # hist) \<and>
      adjacent_ok validate_state_successor (s' # hist)"
    using P s' by (simp add: h)
qed (use s0 in simp)

lemma run_reloads:
  assumes "list_all (\<lambda>ce. ok (fst ce)) cs" and "foldE (run_step successor_of) [s0] cs = Inr hist"
    and "budget_inv s0" and "ds_run_id s0 = run_id"
  shows "history_ok run_id (revisions hist)"
  using run_history [OF assms] by (auto simp: history_ok_def revisions_def budget_inv_def list_all_iff comp_def)

end

lemma op_successor_valid:
  assumes "reloadable c" and "budget_inv s" and "op_successor c s elapsed = Inr s'"
  shows "budget_inv s' \<and> validate_state_successor s s'"
proof (cases c)
  case (Reserve_op op p rv l ep ea)
  with assms show ?thesis by (simp only: op_successor.simps reserve_valid)
next
  case (Start_op op p)
  with assms show ?thesis by (simp only: op_successor.simps start_valid)
next
  case (Settle_op op x)
  then show ?thesis using assms by (intro settle_valid) auto
next
  case (Release_op op sid p ev)
  with assms show ?thesis by (simp only: op_successor.simps release_valid)
next
  case (Request_cancel_op op p)
  with assms show ?thesis by (simp only: op_successor.simps request_cancel_valid)
next
  case (Record_cancel_op op p v ev live)
  with assms show ?thesis by (simp only: op_successor.simps record_cancel_valid)
next
  case (Tighten_op op new reason)
  with assms show ?thesis by (simp only: op_successor.simps tighten_valid)
qed

interpretation budget: durable_operations op_successor reloadable
  by unfold_locales (use op_successor_valid in blast)+

text \<open>Every accepted operation, reloadable or not, moves the state forward.\<close>

lemma op_forward:
  assumes "budget_inv s" and "op_successor c s elapsed = Inr s'"
  shows "budget_inv s' \<and> forward_step s s'"
proof (cases "reloadable c")
  case True
  then show ?thesis using op_successor_valid assms validate_forward by blast
next
  case False
  then obtain op x where "c = Settle_op op x" by (cases c) auto
  with assms(2) have "settle_successor op x s elapsed = Inr s'" by simp
  then show ?thesis by (rule settle_step [OF assms(1)]) blast
qed

lemma op_budget_inv: "budget_inv s \<Longrightarrow> op_successor c s elapsed = Inr s' \<Longrightarrow> budget_inv s'"
  using op_forward by blast

section \<open>What the chain of states guarantees\<close>

text \<open>Facts of any chain of forward steps, whichever operations made it.\<close>

lemma successor_log:
  assumes "forward_step s s'"
  shows "ds_run_id s' = ds_run_id s" and "ds_generation s' = ds_generation s + 1"
    and "\<exists>r. ds_operations s' = ds_operations s @ [r]" and "\<exists>ts. ds_settlements s' = ds_settlements s @ ts"
proof -
  have v: "log_appended s s'" "settlements_appended s s' (last (ds_operations s'))"
    using assms by (simp_all add: forward_step_def)
  then show "ds_run_id s' = ds_run_id s" "ds_generation s' = ds_generation s + 1"
    by (simp_all add: log_appended_def)
  have l: "length (ds_operations s') = length (ds_operations s) + 1"
    "take (length (ds_operations s)) (ds_operations s') = ds_operations s"
    using v(1) by (simp_all add: log_appended_def)
  then have "ds_operations s' = ds_operations s @ drop (length (ds_operations s)) (ds_operations s')"
    by (metis append_take_drop_id)
  moreover have "length (drop (length (ds_operations s)) (ds_operations s')) = Suc 0" using l by simp
  ultimately show "\<exists>r. ds_operations s' = ds_operations s @ [r]" by (metis length_Suc_conv length_0_conv)
  have "take (length (ds_settlements s)) (ds_settlements s') = ds_settlements s"
    using v(2) by (simp add: settlements_appended_def)
  then show "\<exists>ts. ds_settlements s' = ds_settlements s @ ts" by (metis append_take_drop_id)
qed

lemma successor_latch: "forward_step s s' \<Longrightarrow> ds_failure_latch s = Some f \<Longrightarrow> ds_failure_latch s' = Some f"
  by (auto simp: forward_step_def latch_and_policy_kept_def)

lemma tightening_trans:
  "is_policy_tightening a b \<Longrightarrow> is_policy_tightening b c \<Longrightarrow> is_policy_tightening a c"
  by (auto simp: is_policy_tightening_def Let_def)

lemma tightening_refl: "is_policy_tightening a a"
  by (simp add: is_policy_tightening_def Let_def)

lemma successor_policy:
  "forward_step s s' \<Longrightarrow> is_policy_tightening (ds_policy s) (ds_policy s')"
  using tightening_refl [of "ds_policy s"]
  by (auto simp: forward_step_def latch_and_policy_kept_def)

text \<open>The relation between an older and a newer state of one run.\<close>

definition state_grows :: "durable_state \<Rightarrow> durable_state \<Rightarrow> bool" where
  "state_grows s t \<longleftrightarrow>
     ds_run_id t = ds_run_id s \<and> ds_generation s \<le> ds_generation t \<and>
     (\<exists>rs. ds_operations t = ds_operations s @ rs) \<and> (\<exists>ts. ds_settlements t = ds_settlements s @ ts) \<and>
     (ds_failure_latch s = None \<or> ds_failure_latch t = ds_failure_latch s) \<and>
     is_policy_tightening (ds_policy s) (ds_policy t)"

lemma state_grows_refl: "state_grows s s"
  by (simp add: state_grows_def tightening_refl)

lemma state_grows_trans: "state_grows s t \<Longrightarrow> state_grows t u \<Longrightarrow> state_grows s u"
  unfolding state_grows_def using tightening_trans by (auto; metis append.assoc)

lemma successor_grows: "forward_step s s' \<Longrightarrow> state_grows s s'"
  using successor_log [of s s'] successor_latch [of s s'] successor_policy [of s s']
  by (cases "ds_failure_latch s") (auto simp: state_grows_def)

text \<open>An operation on the newest state, ignored when it is refused: the durable states grow.\<close>

definition apply_op :: "budget_op \<times> int \<Rightarrow> durable_state \<Rightarrow> durable_state" where
  "apply_op ce s = (case op_successor (fst ce) s (snd ce) of Inl e \<Rightarrow> s | Inr s' \<Rightarrow> s')"

interpretation durable: growing_system apply_op "\<lambda>_. True" budget_inv state_grows
proof
  fix ce :: "budget_op \<times> int" and s assume s: "budget_inv s"
  show "budget_inv (apply_op ce s)"
    using op_budget_inv [OF s] s by (auto simp: apply_op_def split: sum.splits)
  show "state_grows s (apply_op ce s)"
    using op_forward [OF s] state_grows_refl successor_grows by (auto simp: apply_op_def split: sum.splits)
qed (use state_grows_refl state_grows_trans in blast)+

end
