(* ===== verification/DurableProgress.thy ===== *)
theory DurableProgress
  imports DurableRuns
begin

text \<open>
  When an operation succeeds.  \<open>body_ok\<close> is the part of \<open>validate_snapshot\<close> that the operation
  log does not touch; if the updated fields satisfy it, \<open>append_operation\<close> returns a state and
  not a \<open>ValidationError\<close>.
\<close>

section \<open>A valid state stays valid\<close>

lemma statuses_iff:
  assumes "distinct (map at_permit_id (ds_attempts t))"
  shows "attempt_statuses_ok t \<longleftrightarrow>
    (\<forall>p\<in>set (ds_active_permits t). \<exists>a\<in>set (ds_attempts t). at_permit_id a = pm_permit_id p \<and>
       at_status a = expected_status (cancellation_of t (pm_permit_id p)) (pm_status p)) \<and>
    (\<forall>x\<in>set (ds_settlements t). \<exists>a\<in>set (ds_attempts t). at_permit_id a = st_permit_id x \<and>
       at_status a = settlement_attempt_status (st_status x)) \<and>
    set (map ca_permit_id (ds_cancellations t)) \<subseteq> set (permit_ids t) \<union> set (settled_permits t)"
proof -
  have "map_option at_status (attempt_of t p) = Some st \<longleftrightarrow>
      (\<exists>a\<in>set (ds_attempts t). at_permit_id a = p \<and> at_status a = st)" for p st
    by (auto simp: attempt_of_def map_of_key_Some [OF assms])
  then show ?thesis by (simp add: attempt_statuses_ok_def list_all_iff)
qed

definition log_entry :: "durable_state \<Rightarrow> string \<Rightarrow> operation_kind \<Rightarrow> string \<Rightarrow> string option \<Rightarrow> json \<Rightarrow> idempotency \<times> event" where
  "log_entry s op kind req subj payload =
     (\<lparr>id_operation_id = op, id_kind = kind, id_request_sha256 = req, id_outcome = O_APPLIED,
       id_result_sha256 = canonical_sha256 payload, id_subject_id = subj\<rparr>,
      \<lparr>ev_ordinal = int (length (ds_events s)), ev_kind = kind, ev_operation_id = op, ev_subject_id = subj,
       ev_event_sha256 = canonical_sha256 (event_payload (int (length (ds_events s))) kind op subj
         (canonical_sha256 payload))\<rparr>)"

text \<open>The part of \<open>validate_snapshot\<close> and of the field constraints that the log does not touch.\<close>

definition body_ok :: "durable_state \<Rightarrow> bool" where
  "body_ok t \<longleftrightarrow>
     durable_policy_ok (ds_policy t) \<and> ds_policy_sha256 t = dp_policy_sha256 (ds_policy t) \<and>
     ds_activation_sha256 t = dp_activation_sha256 (ds_policy t) \<and> durable_usage_ok (ds_usage t) \<and>
     ds_active_runtime_remaining_ns t =
       max 0 (runtime_limit_ns (dp_base_policy (ds_policy t)) - ra_active_runtime_ns (ds_usage t)) \<and>
     list_all permit_ok (ds_active_permits t) \<and> list_all settlement_ok (ds_settlements t) \<and>
     list_all attempt_ok (ds_attempts t) \<and> list_all cancellation_ok (ds_cancellations t) \<and>
     pred_option durable_failure_ok (ds_failure_latch t) \<and>
     distinct (permit_ids t) \<and> distinct (map st_settlement_id (ds_settlements t)) \<and>
     distinct (settled_permits t) \<and> distinct (map at_permit_id (ds_attempts t)) \<and>
     distinct (map (\<lambda>a. li_attempt_id (at_lineage a)) (ds_attempts t)) \<and>
     distinct (map (\<lambda>a. li_context_id (at_lineage a)) (ds_attempts t)) \<and>
     distinct (map ca_permit_id (ds_cancellations t)) \<and>
     lineage_table_ok t \<and> permits_partitioned t \<and> attempt_statuses_ok t \<and> concurrency_ok t"

lemma body_okI: "durable_state_ok s \<Longrightarrow> body_ok s"
  by (simp add: body_ok_def durable_state_ok_def validate_snapshot_def state_hashes_ok_def identities_distinct_def)

lemma body_ok_appended [simp]: "body_ok (appended s t r e) = body_ok t"
  by (simp add: body_ok_def permit_ids_def settled_permits_def lineage_table_ok_def lineages_def
      permits_partitioned_def attempt_statuses_ok_def attempt_of_def cancellation_of_def concurrency_ok_def)

definition log_ok :: "durable_state \<Rightarrow> bool" where
  "log_ok s \<longleftrightarrow> valid_identifier (ds_run_id s) \<and> 1 \<le> ds_generation s \<and> opt_sha256 (ds_previous_state_sha256 s) \<and>
     (ds_generation s = 1) = (ds_previous_state_sha256 s = None) \<and>
     list_all idempotency_ok (ds_operations s) \<and> list_all event_ok (ds_events s) \<and>
     distinct (map id_operation_id (ds_operations s)) \<and> operation_log_ok s"

lemma dp_hashes [simp]: "is_sha256 (dp_policy_sha256 p)" "is_sha256 (dp_activation_sha256 p)"
  "is_sha256 (ds_canonical_sha256 s)"
  by (simp_all add: dp_policy_sha256_def dp_activation_sha256_def ds_canonical_sha256_def)

lemma durable_state_ok_split: "durable_state_ok s \<longleftrightarrow> body_ok s \<and> log_ok s"
  by (auto simp: body_ok_def log_ok_def durable_state_ok_def validate_snapshot_def state_hashes_ok_def
      identities_distinct_def)

lemma log_ok_appended:
  assumes s: "log_ok s" and run: "ds_run_id t = ds_run_id s" and k: "kind \<noteq> K_INITIALIZE"
    and op: "valid_identifier op" "op \<notin> set (map id_operation_id (ds_operations s))"
    and req: "is_sha256 req" and subj: "opt_identifier subj"
    and re: "log_entry s op kind req subj payload = (r, e)"
  shows "log_ok (appended s t r e)"
proof -
  have r: "id_operation_id r = op" "id_kind r = kind" "idempotency_ok r" "event_ok e" "event_matches r e"
    "ev_ordinal e = int (length (ds_events s))"
    using re op req subj by (auto simp: log_entry_def idempotency_ok_def event_ok_def event_matches_def)
  have "operation_log_ok (appended s t r e)"
    using s r k by (auto simp: log_ok_def operation_log_ok_def list_all2_appendI split: list.splits)
  then show ?thesis using s r op run by (auto simp: log_ok_def)
qed

definition logged ::
    "durable_state \<Rightarrow> durable_state \<Rightarrow> string \<Rightarrow> operation_kind \<Rightarrow> string \<Rightarrow> string option \<Rightarrow> json \<Rightarrow> durable_state" where
  "logged s t op kind req subj payload =
     appended s t (fst (log_entry s op kind req subj payload)) (snd (log_entry s op kind req subj payload))"

lemma append_operation_logged:
  assumes s: "durable_state_ok s" and k: "kind \<noteq> K_INITIALIZE"
    and op: "valid_identifier op" "op \<notin> set (map id_operation_id (ds_operations s))"
    and req: "is_sha256 req" and subj: "opt_identifier subj"
    and f: "ds_run_id (f s) = ds_run_id s" "body_ok (f s)"
  shows "append_operation s op kind req subj payload f = Inr (logged s (f s) op kind req subj payload)"
    and "durable_state_ok (logged s (f s) op kind req subj payload)"
proof -
  obtain r e where re: "log_entry s op kind req subj payload = (r, e)" by fastforce
  have "log_ok s" using s by (simp add: durable_state_ok_split)
  from log_ok_appended [OF this f(1) k op req subj re] f(2)
  have ok: "durable_state_ok (appended s (f s) r e)" by (simp add: durable_state_ok_split)
  then show "durable_state_ok (logged s (f s) op kind req subj payload)" by (simp add: logged_def re)
  have "idempotency_ok r" "event_ok e"
    using re op req subj by (auto simp: log_entry_def idempotency_ok_def event_ok_def)
  then show "append_operation s op kind req subj payload f = Inr (logged s (f s) op kind req subj payload)"
    using re ok unfolding append_operation_def appended_def log_entry_def Let_def logged_def
    by (auto simp: build_def)
qed

lemma append_operation_eq:
  assumes "durable_state_ok s" and "kind \<noteq> K_INITIALIZE"
    and "valid_identifier op" "op \<notin> set (map id_operation_id (ds_operations s))"
    and "is_sha256 req" and "opt_identifier subj"
    and "ds_run_id (f s) = ds_run_id s" "body_ok (f s)"
  shows "\<exists>s'. append_operation s op kind req subj payload f = Inr s'"
  using append_operation_logged(1) [where f = f, OF assms(1-6)] assms(7,8) by blast

section \<open>The lineage table\<close>

text \<open>What the scan with two dictionaries decides, said without them.\<close>

definition ordinals_agree :: "lineage list \<Rightarrow> bool" where
  "ordinals_agree ls \<longleftrightarrow> (\<forall>l\<in>set ls. \<forall>m\<in>set ls.
     li_root_attempt_id l = li_root_attempt_id m \<longleftrightarrow> li_execution_ordinal l = li_execution_ordinal m)"

lemma lineage_scan_Cons:
  "lineage_scan by_id m1 m2 (l # ls) \<longleftrightarrow>
     m1 (li_root_attempt_id l) \<in> {None, Some (li_execution_ordinal l)} \<and>
     m2 (li_execution_ordinal l) \<in> {None, Some (li_root_attempt_id l)} \<and> retry_parent_ok by_id l \<and>
     lineage_scan by_id (m1(li_root_attempt_id l \<mapsto> li_execution_ordinal l))
       (m2(li_execution_ordinal l \<mapsto> li_root_attempt_id l)) ls"
  by (cases "m1 (li_root_attempt_id l)"; cases "m2 (li_execution_ordinal l)")
    (auto simp: set_default_def map_upd_triv)

lemma upd_step:
  assumes "m1 a \<in> {None, Some b}" and "m2 b \<in> {None, Some a}"
  shows "(m1(a \<mapsto> b)) c \<in> {None, Some d} \<and> (m2(b \<mapsto> a)) d \<in> {None, Some c} \<longleftrightarrow>
    (m1 c \<in> {None, Some d} \<and> m2 d \<in> {None, Some c}) \<and> (c = a \<longleftrightarrow> d = b)"
  using assms by (cases "c = a"; cases "d = b") auto

lemma scan_conjuncts:
  "P l \<and> Q l \<and> R l \<and> (\<forall>m\<in>S. R m \<and> (P m \<and> Q m) \<and> E m) \<and> G \<longleftrightarrow>
    (\<forall>m\<in>insert l S. R m \<and> P m \<and> Q m) \<and> (\<forall>m\<in>S. E m) \<and> G"
  by blast

lemma ball_symmetric:
  assumes "\<And>x. E x x" and "\<And>x y. E x y \<Longrightarrow> E y x"
  shows "(\<forall>x\<in>insert l S. \<forall>y\<in>insert l S. E x y) \<longleftrightarrow> (\<forall>m\<in>S. E m l) \<and> (\<forall>x\<in>S. \<forall>y\<in>S. E x y)"
  using assms by blast

lemma lineage_scan_iff:
  "lineage_scan by_id m1 m2 ls \<longleftrightarrow>
     (\<forall>l\<in>set ls. retry_parent_ok by_id l \<and> m1 (li_root_attempt_id l) \<in> {None, Some (li_execution_ordinal l)} \<and>
        m2 (li_execution_ordinal l) \<in> {None, Some (li_root_attempt_id l)}) \<and> ordinals_agree ls"
proof (induction ls arbitrary: m1 m2)
  case (Cons l ls)
  let ?f = li_root_attempt_id and ?g = li_execution_ordinal
  let ?ok = "\<lambda>m. m1 (?f m) \<in> {None, Some (?g m)} \<and> m2 (?g m) \<in> {None, Some (?f m)}"
  have step: "(m1(?f l \<mapsto> ?g l)) (?f m) \<in> {None, Some (?g m)} \<and> (m2(?g l \<mapsto> ?f l)) (?g m) \<in> {None, Some (?f m)}
      \<longleftrightarrow> ?ok m \<and> (?f m = ?f l \<longleftrightarrow> ?g m = ?g l)" if "?ok l" for m
    by (rule upd_step) (use that in blast)+
  have agree: "ordinals_agree (l # ls) \<longleftrightarrow> (\<forall>m\<in>set ls. ?f m = ?f l \<longleftrightarrow> ?g m = ?g l) \<and> ordinals_agree ls"
    unfolding ordinals_agree_def list.set by (rule ball_symmetric) metis+
  show ?case
  proof (cases "?ok l")
    case True
    then show ?thesis
      unfolding lineage_scan_Cons Cons.IH agree step [OF True] list.set(2)
      by (intro scan_conjuncts [where P = "\<lambda>m. m1 (?f m) \<in> {None, Some (?g m)}"
          and Q = "\<lambda>m. m2 (?g m) \<in> {None, Some (?f m)}"])
  next
    case False
    then have "\<not> (m1 (?f l) \<in> {None, Some (?g l)} \<and> m2 (?g l) \<in> {None, Some (?f l)} \<and> X)" for X
      by (rule contrapos_nn) (elim conjE, intro conjI)
    moreover have "\<not> (\<forall>m\<in>set (l # ls). retry_parent_ok by_id m \<and> ?ok m)" using False by (simp only: list.set) blast
    ultimately show ?thesis unfolding lineage_scan_Cons by (simp only: simp_thms)
  qed
qed (simp add: ordinals_agree_def)

lemma lineage_table_iff:
  "lineage_table_ok s \<longleftrightarrow>
     (\<forall>l\<in>set (lineages s). retry_parent_ok (attempts_by_id (lineages s)) l) \<and> ordinals_agree (lineages s)"
  by (simp add: lineage_table_ok_def lineage_scan_iff)

lemma retry_parent_iff:
  assumes "distinct (map li_attempt_id ls)"
  shows "retry_parent_ok (attempts_by_id ls) l \<longleftrightarrow>
    (case li_parent_attempt_id l of None \<Rightarrow> True
     | Some p \<Rightarrow> (\<exists>m\<in>set ls. li_attempt_id m = p \<and> Some (li_context_id m) = li_parent_context_id l \<and>
         same_stable_fields l m))"
proof (cases "li_parent_attempt_id l")
  case (Some p)
  have "retry_parent_ok (attempts_by_id ls) l \<longleftrightarrow> (\<exists>m. attempts_by_id ls p = Some m \<and>
      Some (li_context_id m) = li_parent_context_id l \<and> same_stable_fields l m)"
    using Some by (simp add: retry_parent_ok_def split: option.split)
  then show ?thesis using Some by (auto simp: attempts_by_id_def map_of_key_Some [OF assms])
qed (simp add: retry_parent_ok_def)

lemma admit_lineageD:
  assumes "admit_lineage s l op = Inr ()"
  shows "\<forall>m\<in>set (lineages s). li_attempt_id m \<noteq> li_attempt_id l \<and> li_context_id m \<noteq> li_context_id l"
    and "(li_parent_attempt_id l = None \<and> (\<forall>m\<in>set (lineages s). li_root_attempt_id m \<noteq> li_root_attempt_id l \<and>
        li_execution_ordinal m \<noteq> li_execution_ordinal l)) \<or>
      (\<exists>m\<in>set (lineages s). Some (li_attempt_id m) = li_parent_attempt_id l \<and>
        Some (li_context_id m) = li_parent_context_id l \<and> same_stable_fields l m)"
  using assms
  by (auto simp: admit_lineage_def Let_def list_ex_iff filter_empty_conv dest!: find_SomeD split: if_splits option.splits)

lemma lineage_admitted:
  assumes s: "lineage_table_ok s" "distinct (map li_attempt_id (lineages s))"
    and adm: "admit_lineage s l op = Inr ()" and t: "lineages t = lineages s @ [l]"
  shows "lineage_table_ok t"
proof -
  note A = admit_lineageD [OF adm]
  have d: "distinct (map li_attempt_id (lineages t))" using s(2) A(1) by (auto simp: t)
  have "retry_parent_ok (attempts_by_id (lineages t)) m" if "m \<in> set (lineages t)" for m
    unfolding retry_parent_iff [OF d]
    using that s(1) A(2) unfolding lineage_table_iff retry_parent_iff [OF s(2)] t
    by (auto split: option.splits)
  moreover have "ordinals_agree (lineages t)"
  proof -
    have old: "ordinals_agree (lineages s)" using s(1) by (simp add: lineage_table_iff)
    have "li_root_attempt_id x = li_root_attempt_id l \<longleftrightarrow> li_execution_ordinal x = li_execution_ordinal l"
      if "x \<in> set (lineages s)" for x
      using A(2) old that unfolding ordinals_agree_def same_stable_fields_def by metis
    then have "\<forall>x\<in>set (lineages s). (li_root_attempt_id x = li_root_attempt_id l \<longleftrightarrow>
          li_execution_ordinal x = li_execution_ordinal l) \<and>
        (li_root_attempt_id l = li_root_attempt_id x \<longleftrightarrow> li_execution_ordinal l = li_execution_ordinal x)"
      by metis
    then show ?thesis using old unfolding t ordinals_agree_def by simp
  qed
  ultimately show ?thesis by (simp add: lineage_table_iff)
qed

section \<open>Reservations\<close>

lemma slots_are_permits:
  assumes "list_all permit_ok ps"
  shows "(\<Sum>p\<leftarrow>ps. ra_concurrency_slots (rv_requested (pm_reservation p))) = int (length ps)"
  using assms by (induction ps) (auto simp: permit_ok_def reservation_ok_def reserve_exactly_one_slot_def)

lemma body_okD:
  assumes "body_ok s"
  shows "list_all permit_ok (ds_active_permits s)" and "durable_policy_ok (ds_policy s)"
    and "distinct (permit_ids s)" and "distinct (map at_permit_id (ds_attempts s))"
    and "distinct (map li_attempt_id (lineages s))" and "lineage_table_ok s" and "permits_partitioned s"
    and "attempt_statuses_ok s" and "concurrency_ok s"
  using assms by (simp_all add: body_ok_def lineages_def comp_def)

text \<open>The body after \<open>reserve\<close>: a new permit and its attempt, and the charged usage.\<close>

definition reserved_state :: "durable_state \<Rightarrow> permit \<Rightarrow> attempt \<Rightarrow> durable_usage \<Rightarrow> int \<Rightarrow> durable_state" where
  "reserved_state s q a usage remaining = s\<lparr>ds_active_permits := ds_active_permits s @ [q],
     ds_attempts := ds_attempts s @ [a], ds_usage := usage, ds_active_runtime_remaining_ns := remaining\<rparr>"

lemma reserved_state_simps [simp]:
  "ds_active_permits (reserved_state s q a u n) = ds_active_permits s @ [q]"
  "ds_attempts (reserved_state s q a u n) = ds_attempts s @ [a]"
  "ds_usage (reserved_state s q a u n) = u" "ds_active_runtime_remaining_ns (reserved_state s q a u n) = n"
  "ds_policy (reserved_state s q a u n) = ds_policy s" "ds_run_id (reserved_state s q a u n) = ds_run_id s"
  "ds_settlements (reserved_state s q a u n) = ds_settlements s"
  "ds_cancellations (reserved_state s q a u n) = ds_cancellations s"
  "ds_policy_sha256 (reserved_state s q a u n) = ds_policy_sha256 s"
  "ds_activation_sha256 (reserved_state s q a u n) = ds_activation_sha256 s"
  "ds_failure_latch (reserved_state s q a u n) = ds_failure_latch s"
  by (simp_all add: reserved_state_def)

lemma reserved_statuses:
  assumes s: "body_ok s" and q: "pm_permit_id q = p" "pm_status q = P_RESERVED"
    and a: "at_permit_id a = p" "at_status a = A_RESERVED" and new: "p \<notin> set (permit_ids s) \<union> set (settled_permits s)"
  shows "attempt_statuses_ok (reserved_state s q a u n)"
proof -
  let ?t = "reserved_state s q a u n"
  have part: "set (map at_permit_id (ds_attempts s)) = set (permit_ids s) \<union> set (settled_permits s)"
    using body_okD(7) [OF s] by (simp add: permits_partitioned_def)
  then have d: "distinct (map at_permit_id (ds_attempts ?t))" using body_okD(4) [OF s] a(1) new by auto
  note old = body_okD(8) [OF s, unfolded statuses_iff [OF body_okD(4) [OF s]]]
  have c: "cancellation_of ?t x = cancellation_of s x" for x by (simp add: cancellation_of_def)
  have "cancellation_of s p = None"
    using old new unfolding cancellation_of_def map_of_key_None by auto
  then have "at_status a = expected_status (cancellation_of ?t p) (pm_status q)"
    using q a by (simp add: c expected_status_def)
  then show ?thesis
    using old q(1) a(1) unfolding statuses_iff [OF d] c
    by (auto simp: permit_ids_def settled_permits_def)
qed

lemma reserved_body:
  assumes s: "body_ok s" and u: "durable_usage_ok usage" "du_peak_concurrency usage = du_peak_concurrency (ds_usage s)"
      "remaining = max 0 (runtime_limit_ns (dp_base_policy (ds_policy s)) - ra_active_runtime_ns usage)"
    and q: "permit_ok q" "pm_permit_id q = p" "pm_status q = P_RESERVED"
    and a: "attempt_ok a" "at_permit_id a = p" "at_lineage a = l" "at_status a = A_RESERVED"
    and new: "p \<notin> set (permit_ids s) \<union> set (settled_permits s)" and adm: "admit_lineage s l op = Inr ()"
    and room: "int (length (ds_active_permits s)) + 1 \<le> ea_max_concurrent_agents (dp_activation (ds_policy s))"
  shows "body_ok (reserved_state s q a usage remaining)"
proof -
  let ?t = "reserved_state s q a usage remaining"
  have ls: "lineages ?t = lineages s @ [l]" using a(3) by (simp add: lineages_def)
  have part: "permits_partitioned ?t"
    using body_okD(7) [OF s] q(2) a(2) new by (auto simp: permits_partitioned_def permit_ids_def settled_permits_def)
  have conc: "concurrency_ok ?t"
    using slots_are_permits [of "ds_active_permits ?t"] body_okD(1,9) [OF s] q(1) room u(2)
    by (simp add: concurrency_ok_def)
  have fresh: "p \<notin> set (map at_permit_id (ds_attempts s))"
    using body_okD(7) [OF s] new unfolding permits_partitioned_def by (simp only:) simp
  have lin: "lineage_table_ok ?t" by (rule lineage_admitted [OF body_okD(6,5) [OF s] adm ls])
  have ids: "li_attempt_id l \<notin> set (map (\<lambda>a. li_attempt_id (at_lineage a)) (ds_attempts s))"
    "li_context_id l \<notin> set (map (\<lambda>a. li_context_id (at_lineage a)) (ds_attempts s))"
    using admit_lineageD(1) [OF adm] by (auto simp: lineages_def)
  show ?thesis
    using s u q(1,2) a(1,2,3) new part conc lin ids fresh reserved_statuses [OF s q(2,3) a(2,4) new, of usage remaining]
    unfolding body_ok_def by (auto simp: permit_ids_def settled_permits_def)
qed

end
