(* ===== verification/DurableAdmission.thy ===== *)
theory DurableAdmission
  imports DurableProgress
begin

text \<open>
  When \<open>reserve\<close> succeeds, and what it raises when it does not: the guards of the code reduced
  to one condition on the state before the call.
\<close>

section \<open>Typed failures\<close>

definition typed_error :: "string \<Rightarrow> durable_code set \<Rightarrow> durable_error \<Rightarrow> bool" where
  "typed_error op codes e \<longleftrightarrow>
     (\<exists>f. e = Budget_error f \<and> durable_failure_ok f \<and> df_operation_id f = Some op \<and> df_code f \<in> codes)"

lemma typed_fail [simp]:
  "valid_identifier op \<Longrightarrow> code \<noteq> D_EFFECT_UNKNOWN \<Longrightarrow> typed_error op codes (fail code op) \<longleftrightarrow> code \<in> codes"
  by (auto simp: typed_error_def fail_def failure_error_def plain_failure_def durable_failure_ok_def)

lemma typed_fail_resource [simp]:
  "valid_identifier op \<Longrightarrow> code \<noteq> D_EFFECT_UNKNOWN \<Longrightarrow> pred_option (\<lambda>n. 0 \<le> n) limit \<Longrightarrow>
    pred_option (\<lambda>n. 0 \<le> n) observed \<Longrightarrow>
    typed_error op codes (fail_resource code op r limit observed) \<longleftrightarrow> code \<in> codes"
  by (auto simp: typed_error_def fail_resource_def failure_error_def plain_failure_def durable_failure_ok_def)

section \<open>Charging the runtime\<close>

lemma charged_usage_ok:
  assumes "durable_usage_ok u" and "0 \<le> elapsed"
  shows "durable_usage_ok (apply_actual_values u (no_amounts\<lparr>ra_active_runtime_ns := elapsed\<rparr>))"
  using assms unfolding durable_usage_ok_def resource_amounts_ok_iff amount_charged(1) [OF assms(1)]
    amount_charged(2) [OF assms(1)] by (auto simp del: amount.simps)

lemma runtime_charged:
  "durable_usage_ok u \<Longrightarrow> ra_active_runtime_ns (apply_actual_values u (no_amounts\<lparr>ra_active_runtime_ns := n\<rparr>))
    = ra_active_runtime_ns u + n"
  using amount_charged(1) [of u n Active_runtime_ns] by simp

lemma charge_eq:
  assumes u: "durable_usage_ok (ds_usage s)" and e: "0 \<le> elapsed"
  defines "usage \<equiv> apply_actual_values (ds_usage s) (no_amounts\<lparr>ra_active_runtime_ns := elapsed\<rparr>)"
    and "limit \<equiv> runtime_limit_ns (dp_base_policy (ds_policy s))"
  shows "charge_active_runtime s elapsed op allow =
    (if limit < ra_active_runtime_ns (ds_usage s) + elapsed \<and> \<not> allow
     then Inl (fail_resource D_DEADLINE_EXCEEDED op Active_runtime_ns (Some limit)
        (Some (ra_active_runtime_ns (ds_usage s) + elapsed)))
     else Inr (usage, max 0 (limit - (ra_active_runtime_ns (ds_usage s) + elapsed))))"
proof -
  have "resource_amounts_ok (no_amounts\<lparr>ra_active_runtime_ns := elapsed\<rparr>)"
    using e by (simp only: resource_amounts_ok_iff amount_elapsed) simp
  then show ?thesis
    using charged_usage_ok [OF u e] runtime_charged [OF u]
    by (simp add: charge_active_runtime_def apply_actual_def build_def Let_def usage_def limit_def)
qed

lemma runtime_limit_nonneg: "durable_policy_ok p \<Longrightarrow> 0 \<le> runtime_limit_ns (dp_base_policy p)"
proof -
  assume "durable_policy_ok p"
  then have "0 \<le> max_runtime_seconds (dp_base_policy p)"
    by (simp add: durable_policy_ok_def budget_policy_ok_def strict_finite_seconds_def)
  moreover have "0 \<le> dec_round x" for x
  proof (cases "x \<le> 0")
    case False
    let ?p = "pow10 (dec_adjusted x - (dec_prec - 1))"
    have p: "0 < ?p" by (rule pow10_pos)
    have "0 \<le> x / ?p" by (rule divide_nonneg_pos) (use False p in simp_all)
    then have "0 \<le> round_half_even (x / ?p)" using round_half_even_mono [of 0 "x / ?p"] round_half_even_of_int [of 0] by simp
    then have "0 \<le> of_int (round_half_even (x / ?p)) * ?p"
      by (intro mult_nonneg_nonneg) (use p [THEN less_imp_le] in simp_all)
    then show ?thesis using False by (simp add: dec_round_def Let_def)
  qed (simp add: dec_round_def)
  ultimately show ?thesis by (simp add: runtime_limit_ns_def dec_mul_def)
qed

section \<open>The lineage rule\<close>

definition lineage_admissible :: "durable_state \<Rightarrow> lineage \<Rightarrow> bool" where
  "lineage_admissible s l \<longleftrightarrow>
     (\<forall>m\<in>set (lineages s). li_attempt_id m \<noteq> li_attempt_id l \<and> li_context_id m \<noteq> li_context_id l \<and>
        li_idempotency_key m \<noteq> li_idempotency_key l) \<and>
     (case li_parent_attempt_id l of
        None \<Rightarrow> \<forall>m\<in>set (lineages s). li_root_attempt_id m \<noteq> li_root_attempt_id l \<and>
          li_execution_ordinal m \<noteq> li_execution_ordinal l
      | Some parent \<Rightarrow> \<exists>m\<in>set (lineages s). li_attempt_id m = parent \<and>
          Some (li_context_id m) = li_parent_context_id l \<and> same_stable_fields l m)"

lemma find_unique:
  assumes "x \<in> set xs" and "P x" and "\<And>y. y \<in> set xs \<Longrightarrow> P y \<Longrightarrow> y = x"
  shows "List.find P xs = Some x"
proof (cases "List.find P xs")
  case None
  then show ?thesis using assms(1,2) by (simp add: find_None_iff2)
next
  case (Some y)
  then have "y = x" using assms(3) find_SomeD [OF Some] by blast
  with Some show ?thesis by (simp only:)
qed

lemma admit_lineage_iff:
  assumes d: "distinct (map li_attempt_id (lineages s))"
  shows "admit_lineage s l op = Inr () \<longleftrightarrow> lineage_admissible s l"
proof
  assume adm: "admit_lineage s l op = Inr ()"
  then have "\<forall>m\<in>set (lineages s). li_idempotency_key m \<noteq> li_idempotency_key l"
    by (auto simp: admit_lineage_def Let_def list_ex_iff split: if_splits)
  then show "lineage_admissible s l"
    using admit_lineageD [OF adm] by (cases "li_parent_attempt_id l") (auto simp: lineage_admissible_def)
next
  assume a: "lineage_admissible s l"
  show "admit_lineage s l op = Inr ()"
  proof (cases "li_parent_attempt_id l")
    case None
    then show ?thesis using a
      by (auto simp: lineage_admissible_def admit_lineage_def Let_def list_ex_iff filter_empty_conv)
  next
    case (Some parent)
    then obtain m where m: "m \<in> set (lineages s)" "li_attempt_id m = parent"
        "Some (li_context_id m) = li_parent_context_id l" "same_stable_fields l m"
      using a by (auto simp: lineage_admissible_def)
    let ?root = "filter (\<lambda>i. li_root_attempt_id i = li_root_attempt_id l) (lineages s)"
    have mr: "m \<in> set ?root" using m by (simp add: same_stable_fields_def)
    have "List.find (\<lambda>i. Some (li_attempt_id i) = li_parent_attempt_id l \<and>
        Some (li_context_id i) = li_parent_context_id l) ?root = Some m"
      by (rule find_unique [OF mr]) (use m Some distinct_map_eq [OF d] in auto)
    moreover have "?root \<noteq> []" using length_pos_if_in_set [OF mr] by (metis length_greater_0_conv)
    ultimately show ?thesis using a m(4) Some
      by (simp add: lineage_admissible_def admit_lineage_def Let_def list_ex_iff)
  qed
qed

lemma admit_lineage_typed:
  "admit_lineage s l op = Inl e \<Longrightarrow> valid_identifier op \<Longrightarrow> typed_error op {D_INVALID_INPUT, D_IDEMPOTENCY_CONFLICT} e"
  by (auto simp: admit_lineage_def Let_def split: if_splits option.splits)

section \<open>Admission of a reservation\<close>

text \<open>The demand the code computes after it has charged the elapsed time.\<close>

definition demand_after :: "durable_state \<Rightarrow> reservation \<Rightarrow> int \<Rightarrow> resource \<Rightarrow> int" where
  "demand_after s rv elapsed r = reservation_demand s rv r + (if r = Active_runtime_ns then elapsed else 0)"

definition reservation_admissible :: "durable_state \<Rightarrow> reservation \<Rightarrow> int \<Rightarrow> bool" where
  "reservation_admissible s rv elapsed \<longleftrightarrow>
     ds_failure_latch s = None \<and>
     ra_active_runtime_ns (ds_usage s) + elapsed < runtime_limit_ns (dp_base_policy (ds_policy s)) \<and>
     rv_request_sha256 rv = reservation_request_sha256 (rv_reservation_id rv) (rv_requested rv)
       (rv_execution_class rv) (rv_external_cost_estimate_authenticated rv) \<and>
     (\<forall>r. demand_after s rv elapsed r \<le> reservation_limit s r)"

text \<open>The state \<open>_admit_reservation\<close> is given: the usage charged, nothing else changed.\<close>

definition charged_state :: "durable_state \<Rightarrow> int \<Rightarrow> durable_state" where
  "charged_state s elapsed = s\<lparr>
     ds_usage := apply_actual_values (ds_usage s) (no_amounts\<lparr>ra_active_runtime_ns := elapsed\<rparr>),
     ds_active_runtime_remaining_ns := max 0 (runtime_limit_ns (dp_base_policy (ds_policy s)) -
       (ra_active_runtime_ns (ds_usage s) + elapsed))\<rparr>"

lemma charged_demand:
  assumes "durable_usage_ok (ds_usage s)"
  shows "reservation_demand (charged_state s elapsed) rv r = demand_after s rv elapsed r"
  using amount_charged(1) [OF assms, of elapsed r]
  by (auto simp: reservation_demand_def demand_after_def charged_state_def Let_def CUMULATIVE_def)

lemma charged_limit [simp]: "reservation_limit (charged_state s elapsed) r = reservation_limit s r"
  by (simp add: reservation_limit_def charged_state_def)

lemma charged_state_ok:
  assumes s: "durable_state_ok s" and e: "0 \<le> elapsed"
  shows "durable_state_ok (charged_state s elapsed)"
proof -
  have u: "durable_usage_ok (ds_usage s)" using s by (simp add: durable_state_ok_def)
  show ?thesis using s charged_usage_ok [OF u e] runtime_charged [OF u] amount_charged(2) [OF u]
    by (simp add: durable_state_ok_split body_ok_def log_ok_def charged_state_def permit_ids_def settled_permits_def
        lineage_table_ok_def lineages_def permits_partitioned_def attempt_statuses_ok_def attempt_of_def
        cancellation_of_def concurrency_ok_def operation_log_ok_def)
qed

lemma admit_reservation_iff:
  assumes u: "durable_usage_ok (ds_usage s)"
  shows "admit_reservation (charged_state s elapsed) rv op = Inr () \<longleftrightarrow> reservation_admissible s rv elapsed"
proof -
  have l: "ds_failure_latch (charged_state s elapsed) = ds_failure_latch s"
    "ds_active_runtime_remaining_ns (charged_state s elapsed) = 0 \<longleftrightarrow>
      \<not> ra_active_runtime_ns (ds_usage s) + elapsed < runtime_limit_ns (dp_base_policy (ds_policy s))"
    by (auto simp: charged_state_def)
  show ?thesis
    unfolding admit_reservation_def l charged_demand [OF u] charged_limit reservation_admissible_def
    by (auto simp: errs checks_pass not_less)
qed

lemma reserved_nonneg:
  assumes "list_all permit_ok ps" shows "0 \<le> reserved_total ps r"
proof -
  have "\<forall>p\<in>set ps. 0 \<le> amount (rv_requested (pm_reservation p)) r"
    using assms by (simp add: list_all_iff permit_ok_def reservation_ok_def resource_amounts_ok_iff)
  then show ?thesis unfolding reserved_total_def by (intro sum_list_nonneg) auto
qed

lemma limit_nonneg: "durable_policy_ok (ds_policy s) \<Longrightarrow> 0 \<le> reservation_limit s r"
  using runtime_limit_nonneg [of "ds_policy s"]
  by (cases r) (auto simp: reservation_limit_def durable_policy_ok_def budget_policy_ok_def
      execution_activation_ok_def)

lemma admit_reservation_typed:
  assumes s: "durable_state_ok s" and e: "admit_reservation s rv op = Inl e" and op: "valid_identifier op"
  shows "typed_error op {D_FAILURE_LATCHED, D_DEADLINE_EXCEEDED, D_INVALID_INPUT, D_BUDGET_EXCEEDED, D_CONCURRENCY_EXCEEDED} e"
proof -
  have p: "durable_policy_ok (ds_policy s)" using s by (simp add: durable_state_ok_def)
  have "typed_error op {D_BUDGET_EXCEEDED, D_CONCURRENCY_EXCEEDED}
      (fail_resource (if r = Concurrency_slots then D_CONCURRENCY_EXCEEDED else D_BUDGET_EXCEEDED)
         op r (Some (reservation_limit s r)) (Some (reservation_demand s rv r)))"
    if "reservation_limit s r < reservation_demand s rv r" for r
    using limit_nonneg [OF p, of r] that op by auto
  then have r: "typed_error op {D_BUDGET_EXCEEDED, D_CONCURRENCY_EXCEEDED} e"
    if "foldE (\<lambda>_ r. if reservation_limit s r < reservation_demand s rv r
        then Inl (fail_resource (if r = Concurrency_slots then D_CONCURRENCY_EXCEEDED else D_BUDGET_EXCEEDED)
               op r (Some (reservation_limit s r)) (Some (reservation_demand s rv r)))
        else Inr ()) () RESOURCE_ORDER = Inl e"
    using checks_fail [OF that] by auto
  have w: "typed_error op A x \<Longrightarrow> A \<subseteq> B \<Longrightarrow> typed_error op B x" for A B x
    by (auto simp: typed_error_def)
  show ?thesis
    using e op unfolding admit_reservation_def by (auto split: if_splits intro: w [OF r])
qed

section \<open>Reserve\<close>

definition binding_matches :: "durable_state \<Rightarrow> string option \<Rightarrow> string option \<Rightarrow> bool" where
  "binding_matches s expected_policy expected_activation \<longleftrightarrow>
     expected_policy \<in> {None, Some (ds_policy_sha256 s)} \<and>
     expected_activation \<in> {None, Some (ds_activation_sha256 s)}"

text \<open>What pydantic has checked of the arguments before \<open>reserve\<close> runs.\<close>

definition reserve_args_ok :: "string \<Rightarrow> string \<Rightarrow> reservation \<Rightarrow> lineage \<Rightarrow> bool" where
  "reserve_args_ok op p rv l \<longleftrightarrow> valid_identifier op \<and> valid_identifier p \<and> reservation_ok rv \<and> lineage_ok l"

definition reserve_admissible ::
    "durable_state \<Rightarrow> string \<Rightarrow> reservation \<Rightarrow> lineage \<Rightarrow> string option \<Rightarrow> string option \<Rightarrow> int \<Rightarrow> bool" where
  "reserve_admissible s p rv l ep ea elapsed \<longleftrightarrow>
     binding_matches s ep ea \<and> reservation_admissible s rv elapsed \<and> lineage_admissible s l \<and>
     p \<notin> set (permit_ids s) \<union> set (settled_permits s)"

lemma reserve_append:
  assumes inv: "budget_inv s" and args: "reserve_args_ok op p rv l" and e: "0 \<le> elapsed"
    and fresh: "find_operation s op = None" and adm: "reserve_admissible s p rv l ep ea elapsed"
    and u: "usage = apply_actual_values (ds_usage s) (no_amounts\<lparr>ra_active_runtime_ns := elapsed\<rparr>)"
      "remaining = max 0 (runtime_limit_ns (dp_base_policy (ds_policy s)) - ra_active_runtime_ns usage)"
    and q: "q = \<lparr>pm_permit_id = p, pm_reservation = rv, pm_lineage = l, pm_status = P_RESERVED,
        pm_reserved_active_runtime_ns = ra_active_runtime_ns usage, pm_started_active_runtime_ns = None\<rparr>"
    and a: "a = \<lparr>at_permit_id = p, at_lineage = l, at_status = A_RESERVED, at_failure_category = None,
        at_effect_evidence_sha256 = None\<rparr>"
  shows "permit_ok q" and "attempt_ok a"
    and "\<exists>s'. append_operation s op K_RESERVE (reserve_request p rv l ep ea) (Some p) (json_of_permit q)
      (\<lambda>s. s\<lparr>ds_active_permits := ds_active_permits s @ [q], ds_attempts := ds_attempts s @ [a], ds_usage := usage,
             ds_active_runtime_remaining_ns := remaining\<rparr>) = Inr s'"
proof -
  have ok: "durable_state_ok s" and body: "body_ok s" using inv by (auto simp: budget_inv_def body_okI)
  note U = budget_invD(1) [OF inv]
  have d: "distinct (map li_attempt_id (lineages s))" by (rule body_okD [OF body])
  have "0 \<le> ra_active_runtime_ns usage"
    using charged_usage_ok [OF U e] resource_amounts_ok_iff [of usage] unfolding durable_usage_ok_def u(1)
    by (metis amount.simps(1))
  then show qa: "permit_ok q" "attempt_ok a"
    using args by (simp_all add: q a permit_ok_def attempt_ok_def reserve_args_ok_def)
  have "demand_after s rv elapsed Concurrency_slots \<le> reservation_limit s Concurrency_slots"
    using adm by (simp add: reserve_admissible_def reservation_admissible_def)
  moreover have "ra_concurrency_slots (rv_requested rv) = 1"
    using args by (simp add: reserve_args_ok_def reservation_ok_def reserve_exactly_one_slot_def)
  ultimately have room: "int (length (ds_active_permits s)) + 1 \<le> ea_max_concurrent_agents (dp_activation (ds_policy s))"
    by (simp add: demand_after_def reservation_demand_def reservation_limit_def)
  have "body_ok (reserved_state s q a usage remaining)"
    by (rule reserved_body [OF body, where p = p and l = l and op = op])
      (use charged_usage_ok [OF U e] amount_charged(2) [OF U] adm qa room admit_lineage_iff [OF d] in
        \<open>simp_all add: u reserve_admissible_def\<close>, simp_all add: q a)
  then show "\<exists>s'. append_operation s op K_RESERVE (reserve_request p rv l ep ea) (Some p) (json_of_permit q)
      (\<lambda>s. s\<lparr>ds_active_permits := ds_active_permits s @ [q], ds_attempts := ds_attempts s @ [a], ds_usage := usage,
             ds_active_runtime_remaining_ns := remaining\<rparr>) = Inr s'"
    by (intro append_operation_eq [OF ok])
      (use args fresh in \<open>auto simp: reserve_args_ok_def find_operation_def find_None_iff2 reserve_request_def
        reserved_state_def\<close>)
qed

lemma reserve_early:
  assumes "\<not> binding_matches s ep ea"
  shows "reserve_successor op p rv l ep ea s elapsed = Inl (fail D_INVALID_INPUT op)"
  using assms by (auto simp: reserve_successor_def binding_matches_def)

lemma charged_fold:
  "s\<lparr>ds_usage := ds_usage (charged_state s n),
     ds_active_runtime_remaining_ns := ds_active_runtime_remaining_ns (charged_state s n)\<rparr> = charged_state s n"
  by (simp add: charged_state_def)

text \<open>Past the binding and the deadline: the two admissions, the permit name, the new state.\<close>

lemma reserve_after_charge:
  fixes p :: string and rv :: reservation and l :: lineage
  assumes inv: "budget_inv s" and e: "0 \<le> elapsed" and b: "binding_matches s ep ea"
    and t: "ra_active_runtime_ns (ds_usage s) + elapsed \<le> runtime_limit_ns (dp_base_policy (ds_policy s))"
  defines "c \<equiv> charged_state s elapsed"
  defines "q \<equiv> \<lparr>pm_permit_id = p, pm_reservation = rv, pm_lineage = l, pm_status = P_RESERVED,
        pm_reserved_active_runtime_ns = ra_active_runtime_ns (ds_usage c), pm_started_active_runtime_ns = None\<rparr>"
    and "a \<equiv> \<lparr>at_permit_id = p, at_lineage = l, at_status = A_RESERVED, at_failure_category = None,
        at_effect_evidence_sha256 = None\<rparr>"
  shows "reserve_successor op p rv l ep ea s elapsed =
    bindE (admit_reservation c rv op) (\<lambda>_. bindE (admit_lineage s l op) (\<lambda>_.
      if p \<in> set (permit_ids s) \<union> set (settled_permits s) then Inl (fail D_IDEMPOTENCY_CONFLICT op)
      else bindE (build permit_ok ''DurablePermitV1'' q) (\<lambda>q. bindE (build attempt_ok ''AttemptRecordV1'' a) (\<lambda>a.
        append_operation s op K_RESERVE (reserve_request p rv l ep ea) (Some p) (json_of_permit q)
          (\<lambda>s. s\<lparr>ds_active_permits := ds_active_permits s @ [q], ds_attempts := ds_attempts s @ [a],
             ds_usage := ds_usage c, ds_active_runtime_remaining_ns := ds_active_runtime_remaining_ns c\<rparr>)))))"
proof -
  note U = budget_invD(1) [OF inv]
  have "charge_active_runtime s elapsed op False = Inr (ds_usage c, ds_active_runtime_remaining_ns c)"
    using charge_eq [OF U e, of op False] t by (simp add: c_def charged_state_def)
  moreover have "durable_state_ok c" using inv charged_state_ok [OF _ e] by (simp add: c_def budget_inv_def)
  moreover have "s\<lparr>ds_usage := ds_usage c, ds_active_runtime_remaining_ns := ds_active_runtime_remaining_ns c\<rparr> = c"
    by (simp add: c_def charged_fold)
  moreover have "\<not> ((ep \<noteq> None \<and> Some (ds_policy_sha256 s) \<noteq> ep) \<or> (ea \<noteq> None \<and> Some (ds_activation_sha256 s) \<noteq> ea))"
    using b by (auto simp: binding_matches_def)
  ultimately show ?thesis
    by (simp only: reserve_successor_def if_False bindE_simps prod.case build_def [of durable_state_ok] if_True
        q_def a_def)
qed

text \<open>Between the replay check and \<open>_publish\<close>, \<open>reserve\<close> computes one of three things.\<close>

lemma reserve_cases:
  assumes inv: "budget_inv s" and args: "reserve_args_ok op p rv l" and e: "0 \<le> elapsed"
    and fresh: "find_operation s op = None"
  shows "if reserve_admissible s p rv l ep ea elapsed
    then \<exists>s'. reserve_successor op p rv l ep ea s elapsed = Inr s'
    else \<exists>err. reserve_successor op p rv l ep ea s elapsed = Inl err \<and>
      typed_error op {D_INVALID_INPUT, D_DEADLINE_EXCEEDED, D_FAILURE_LATCHED, D_BUDGET_EXCEEDED,
        D_CONCURRENCY_EXCEEDED, D_IDEMPOTENCY_CONFLICT} err"
proof -
  let ?codes = "{D_INVALID_INPUT, D_DEADLINE_EXCEEDED, D_FAILURE_LATCHED, D_BUDGET_EXCEEDED,
    D_CONCURRENCY_EXCEEDED, D_IDEMPOTENCY_CONFLICT}"
  let ?u = "apply_actual_values (ds_usage s) (no_amounts\<lparr>ra_active_runtime_ns := elapsed\<rparr>)"
  let ?limit = "runtime_limit_ns (dp_base_policy (ds_policy s))" and ?used = "ra_active_runtime_ns (ds_usage s)"
  have op: "valid_identifier op" using args by (simp add: reserve_args_ok_def)
  have ok: "durable_state_ok s" using inv by (simp add: budget_inv_def)
  note U = budget_invD(1) [OF inv]
  have d: "distinct (map li_attempt_id (lineages s))" by (rule body_okD(5) [OF body_okI [OF ok]])
  have used: "0 \<le> ?used" using U by (simp add: durable_usage_ok_def resource_amounts_ok_iff) (metis amount.simps(1))
  have lim: "0 \<le> ?limit" using ok runtime_limit_nonneg by (simp add: durable_state_ok_def)
  have wide: "typed_error op A x \<Longrightarrow> A \<subseteq> ?codes \<Longrightarrow> typed_error op ?codes x" for A x
    by (auto simp: typed_error_def)
  let ?adm = "admit_reservation (charged_state s elapsed) rv op"
  have rv: "?adm = Inr () \<longleftrightarrow> reservation_admissible s rv elapsed" by (rule admit_reservation_iff [OF U])
  have li: "admit_lineage s l op = Inr () \<longleftrightarrow> lineage_admissible s l" by (rule admit_lineage_iff [OF d])
  consider (binding) "\<not> binding_matches s ep ea" | (late) "binding_matches s ep ea" "?limit < ?used + elapsed"
    | (charged) "binding_matches s ep ea" "?used + elapsed \<le> ?limit" by linarith
  then show ?thesis
  proof cases
    case binding
    then show ?thesis using reserve_early [OF binding] op by (simp add: reserve_admissible_def)
  next
    case late
    then have "charge_active_runtime s elapsed op False =
        Inl (fail_resource D_DEADLINE_EXCEEDED op Active_runtime_ns (Some ?limit) (Some (?used + elapsed)))"
      using charge_eq [OF U e, of op False] by simp
    then have "reserve_successor op p rv l ep ea s elapsed =
        Inl (fail_resource D_DEADLINE_EXCEEDED op Active_runtime_ns (Some ?limit) (Some (?used + elapsed)))"
      using late(1) by (auto simp: reserve_successor_def binding_matches_def)
    then show ?thesis using late op lim used e
      by (simp add: reserve_admissible_def reservation_admissible_def)
  next
    case charged
    note eq = reserve_after_charge [OF inv e charged, of op p rv l]
    show ?thesis
    proof (cases "?adm = Inr () \<and> admit_lineage s l op = Inr () \<and> p \<notin> set (permit_ids s) \<union> set (settled_permits s)")
      case True
      then have adm: "reserve_admissible s p rv l ep ea elapsed" using charged rv li by (simp add: reserve_admissible_def)
      note R = reserve_append [OF inv args e fresh adm _ _ refl refl]
      have u: "ds_usage (charged_state s elapsed) = apply_actual_values (ds_usage s) (no_amounts\<lparr>ra_active_runtime_ns := elapsed\<rparr>)"
        "ds_active_runtime_remaining_ns (charged_state s elapsed) = max 0 (?limit - ra_active_runtime_ns (ds_usage (charged_state s elapsed)))"
        using runtime_charged [OF U] by (simp_all add: charged_state_def)
      show ?thesis using adm R [OF u] True unfolding eq by (simp add: build_def)
    next
      case False
      have no: "\<not> reserve_admissible s p rv l ep ea elapsed" using False rv li by (auto simp: reserve_admissible_def)
      obtain err where err: "reserve_successor op p rv l ep ea s elapsed = Inl err" "typed_error op ?codes err"
      proof (cases ?adm)
        case (Inl x)
        have "durable_state_ok (charged_state s elapsed)" by (rule charged_state_ok [OF ok e])
        from wide [OF admit_reservation_typed [OF this Inl op]] Inl show ?thesis by (intro that) (simp_all add: eq)
      next
        case (Inr y)
        show ?thesis
        proof (cases "admit_lineage s l op")
          case (Inl x)
          from wide [OF admit_lineage_typed [OF Inl op]] Inl Inr show ?thesis by (intro that) (simp_all add: eq)
        next
          case (Inr z)
          with False \<open>?adm = Inr y\<close>
          have "reserve_successor op p rv l ep ea s elapsed = Inl (fail D_IDEMPOTENCY_CONFLICT op)" by (simp add: eq)
          moreover have "typed_error op ?codes (fail D_IDEMPOTENCY_CONFLICT op)" using op by simp
          ultimately show ?thesis by (rule that)
        qed
      qed
      then show ?thesis using no by simp
    qed
  qed
qed

end
