(* ===== verification/DurableAccounts.thy ===== *)
theory DurableAccounts
  imports DurableAdmission
begin

text \<open>
  The durable budget store as an accounting machine.  \<open>account_step\<close> forgets names, hashes,
  lineage and the log and keeps what the books need: a reservation is opened, a permit is
  closed with its actual usage, or only runtime is charged.  Every operation is one of these
  steps (\<open>op_account\<close>), and the invariants of the books are proved on the steps.
\<close>

section \<open>The three steps\<close>

definition charges :: "durable_state \<Rightarrow> int \<Rightarrow> (resource \<Rightarrow> int) \<Rightarrow> durable_state \<Rightarrow> bool" where
  "charges s elapsed act s' \<longleftrightarrow>
     (\<forall>r. amount (ds_usage s') r =
        (if r = Concurrency_slots then 0
         else if r = Active_runtime_ns then amount (ds_usage s) r + elapsed
         else if r \<in> CUMULATIVE then amount (ds_usage s) r + act r
         else max (amount (ds_usage s) r) (act r)))"

definition commitments_fit :: "durable_state \<Rightarrow> bool" where
  "commitments_fit s \<longleftrightarrow>
     (\<forall>r. r \<noteq> Active_runtime_ns \<longrightarrow>
        tighten_demand (ds_usage s) (ds_active_permits s) r \<le> tighten_limit (ds_policy s) r)"

inductive account_step :: "durable_state \<Rightarrow> int \<Rightarrow> durable_state \<Rightarrow> bool" where
  Opened: "account_step s elapsed s'"
    if "ds_active_permits s' = ds_active_permits s @ [q]" "ds_settlements s' = ds_settlements s"
      "charges s elapsed (\<lambda>_. 0) s'" "ds_policy s' = ds_policy s" "ds_failure_latch s' = None"
      "\<And>r. r \<noteq> Active_runtime_ns \<Longrightarrow> reservation_demand s (pm_reservation q) r \<le> reservation_limit s r"
      "permit_ok q" "ds_failure_latch s = None"
| Closed: "account_step s elapsed s'"
    if "find_permit s (st_permit_id t) = Some q" "st_reserved t = rv_requested (pm_reservation q)"
      "ds_active_permits s' = filter (\<lambda>p. pm_permit_id p \<noteq> st_permit_id t) (ds_active_permits s)"
      "ds_settlements s' = ds_settlements s @ [t]" "charges s elapsed (amount (st_actual t)) s'"
      "ds_policy s' = ds_policy s"
      "ds_failure_latch s' = None \<Longrightarrow> ds_failure_latch s = None \<and> \<not> overran (st_reserved t) (st_actual t)"
| Kept: "account_step s elapsed s'"
    if "map pm_reservation (ds_active_permits s') = map pm_reservation (ds_active_permits s)"
      "ds_settlements s' = ds_settlements s" "charges s elapsed (\<lambda>_. 0) s'"
      "ds_policy s' = ds_policy s \<or> commitments_fit s'"
      "ds_failure_latch s' = None \<Longrightarrow> ds_failure_latch s = None"

section \<open>Every operation is an account step\<close>

lemma usage_max_0: "budget_inv s \<Longrightarrow> max (amount (ds_usage s) r) 0 = amount (ds_usage s) r"
  using budget_invD(1) [of s] by (simp add: durable_usage_ok_def resource_amounts_ok_iff max_absorb1 del: amount.simps)

lemma charge_charges:
  assumes inv: "budget_inv s" and c: "charge_active_runtime s elapsed op allow = Inr (usage, remaining)"
    and u: "ds_usage s' = usage"
  shows "charges s elapsed (\<lambda>_. 0) s'"
proof -
  show ?thesis
    unfolding charges_def u chargeD(3) [OF c] amount_charged(1) [OF budget_invD(1) [OF inv]]
    using usage_max_0 [OF inv] by (simp del: amount.simps)
qed

lemma start_account:
  assumes "budget_inv s" and st: "start_successor op p s elapsed = Inr s'"
  shows "account_step s elapsed s'"
  using st
proof (cases rule: startE)
  case (1 usage remaining q started attempts)
  from append_operationD [OF 1(7)] obtain r e where s': "s' = appended s (s\<lparr>ds_active_permits :=
      map (\<lambda>q. if pm_permit_id q = p then started else q) (ds_active_permits s), ds_attempts := attempts,
      ds_usage := usage, ds_active_runtime_remaining_ns := remaining\<rparr>) r e" by blast
  have "pm_reservation x = pm_reservation started" if "x \<in> set (ds_active_permits s)" "pm_permit_id x = p" for x
    using distinct_map_eq [OF budget_invD(3) [OF assms(1)] that(1)] find_permitD [OF 1(2)] that 1(5) by simp
  then have "map pm_reservation (ds_active_permits s') = map pm_reservation (ds_active_permits s)"
    by (simp add: s')
  then show ?thesis by (rule Kept) (use charge_charges [OF assms(1) 1(1)] in \<open>auto simp: s'\<close>)
qed

lemma reserve_account:
  assumes inv: "budget_inv s" and st: "reserve_successor op p rv l ep ea s elapsed = Inr s'"
  shows "account_step s elapsed s'"
  using st
proof (cases rule: reserveE)
  case (1 usage remaining q a)
  from append_operationD [OF 1(7)] obtain r e where s': "s' = appended s (s\<lparr>ds_active_permits :=
      ds_active_permits s @ [q], ds_attempts := ds_attempts s @ [a], ds_usage := usage,
      ds_active_runtime_remaining_ns := remaining\<rparr>) r e" "durable_state_ok s'" by blast
  have "s\<lparr>ds_usage := usage, ds_active_runtime_remaining_ns := remaining\<rparr> = charged_state s elapsed"
    using chargeD(3,4) [OF 1(1)] runtime_charged [OF budget_invD(1) [OF inv]] by (simp add: charged_state_def)
  with 1(2) have adm: "reservation_admissible s rv elapsed"
    using admit_reservation_iff [OF budget_invD(1) [OF inv]] by simp
  then have latch: "ds_failure_latch s = None" by (simp add: reservation_admissible_def)
  have "reservation_demand s (pm_reservation q) r \<le> reservation_limit s r" if "r \<noteq> Active_runtime_ns" for r
    using adm that by (auto simp: reservation_admissible_def demand_after_def 1(5) split: if_splits)
  moreover have "permit_ok q" using s' by (simp add: durable_state_ok_def)
  moreover have "charges s elapsed (\<lambda>_. 0) s'" by (rule charge_charges [OF inv 1(1)]) (simp add: s'(1))
  moreover have "ds_active_permits s' = ds_active_permits s @ [q]" by (simp add: s'(1))
  ultimately show ?thesis using latch by (intro Opened [where q = q]) (simp_all add: s'(1))
qed

lemma request_cancel_account:
  assumes "budget_inv s" and st: "request_cancel_successor op p s elapsed = Inr s'"
  shows "account_step s elapsed s'"
  using st
proof (cases rule: request_cancelE)
  case (1 usage remaining c)
  from append_operationD [OF 1(5)] show ?thesis
    by (intro Kept) (use charge_charges [OF assms(1) 1(1)] in auto)
qed

lemma record_cancel_account:
  assumes inv: "budget_inv s" and st: "record_cancel_successor op p v ev live s elapsed = Inr s'"
  shows "account_step s elapsed s'"
  using st
proof (cases rule: record_cancelE)
  case (1 usage remaining b c latch)
  have "forward_step s s'" using record_cancel_valid [OF assms] validate_forward by simp
  then have "ds_failure_latch s' = None \<Longrightarrow> ds_failure_latch s = None"
    using successor_latch by (cases "ds_failure_latch s") auto
  then show ?thesis using append_operationD [OF 1(7)]
    by (intro Kept) (use charge_charges [OF inv 1(1)] in auto)
qed

lemma tighten_account:
  assumes inv: "budget_inv s" and st: "tighten_successor op new reason s elapsed = Inr s'"
  shows "account_step s elapsed s'"
  using st
proof (cases rule: tightenE)
  case (1 usage remaining)
  from append_operationD [OF 1(6)] show ?thesis
    by (intro Kept) (use charge_charges [OF inv 1(1)] 1(5) in \<open>auto simp: commitments_fit_def\<close>)
qed

lemma release_account:
  assumes inv: "budget_inv s" and st: "release_successor op sid p ev s elapsed = Inr s'"
  shows "account_step s elapsed s'"
  using st
proof (cases rule: releaseE)
  case (1 usage remaining q t)
  let ?t = "close_permit t (map (\<lambda>a. if at_permit_id a = p then a\<lparr>at_status := A_CANCELLED,
    at_effect_evidence_sha256 := Some ev\<rparr> else a) (ds_attempts s)) usage remaining (ds_failure_latch s) s"
  from append_operationD [OF 1(5)] obtain r e where s': "s' = appended s ?t r e" "durable_state_ok s'" by blast
  have nn: "0 \<le> amount (rv_requested (pm_reservation q)) r" for r
    using inv find_permitD(1) [OF 1(2)]
    by (auto simp: budget_inv_def durable_state_ok_def list_all_iff permit_ok_def reservation_ok_def resource_amounts_ok_iff)
  have z: "amount (st_actual t) = (\<lambda>_. 0)" by (simp add: 1(4) no_amounts_def fun_eq_iff del: amount.simps)
  then have "\<not> overran (st_reserved t) (st_actual t)"
    using nn by (simp add: overran_def 1(4) not_less del: amount.simps)
  then show ?thesis
    by (intro Closed [where t = t and q = q])
      (use 1(2) charge_charges [OF inv 1(1)] z in \<open>simp_all add: s'(1) 1(4) del: amount.simps\<close>)
qed

lemma settle_account:
  assumes inv: "budget_inv s" and st: "settle_successor op x s elapsed = Inr s'"
  shows "account_step s elapsed s'"
  using st
proof (cases rule: settleE)
  case (1 q charged remaining t eff usage latch)
  let ?t = "close_permit t (map (\<lambda>a. if at_permit_id a = sa_permit_id x then settled_attempt x eff a else a)
         (ds_attempts s)) usage remaining latch s"
  from append_operationD [OF 1(8)] obtain r e where s': "s' = appended s ?t r e" by blast
  have "charges s elapsed (amount (st_actual t)) s'"
    unfolding charges_def using amount_settled [OF budget_invD(1) [OF inv] 1(2) 1(6)]
    by (simp add: s' 1(5) del: amount.simps)
  moreover have "ds_failure_latch s = None \<and> \<not> overran (st_reserved t) (st_actual t)" if "latch = None"
    using 1(7) that unfolding settle_latch_def 1(4)
    by (auto simp: errs 1(5) split: if_splits option.splits)
  ultimately show ?thesis
    by (intro Closed [where t = t and q = q])
      (use settle_guardsD(1) [OF 1(1)] in \<open>simp_all add: s' 1(5) del: amount.simps\<close>)
qed

lemma op_account:
  "budget_inv s \<Longrightarrow> op_successor c s elapsed = Inr s' \<Longrightarrow> account_step s elapsed s'"
  by (cases c) (auto intro: start_account reserve_account request_cancel_account record_cancel_account
      tighten_account release_account settle_account)

section \<open>The books\<close>

text \<open>Usage is what the settlements say it is.\<close>

definition books_balance :: "durable_state \<Rightarrow> bool" where
  "books_balance s \<longleftrightarrow>
     (\<forall>r. r \<noteq> Active_runtime_ns \<and> r \<noteq> Concurrency_slots \<longrightarrow>
        amount (ds_usage s) r =
          (if r \<in> CUMULATIVE then \<Sum>t\<leftarrow>ds_settlements s. amount (st_actual t) r
           else fold max (map (\<lambda>t. amount (st_actual t) r) (ds_settlements s)) 0))"

lemma fold_max_le: "fold max xs (a :: int) \<le> L \<longleftrightarrow> a \<le> L \<and> (\<forall>x\<in>set xs. x \<le> L)"
  by (induction xs arbitrary: a) auto

lemma fold_max_ge: "(a :: int) \<le> fold max xs a"
  using fold_max_le [of xs a "fold max xs a"] by simp

lemma books_step:
  assumes st: "account_step s elapsed s'" and inv: "budget_inv s" and b: "books_balance s"
  shows "books_balance s'"
  unfolding books_balance_def
proof (intro allI impI)
  fix r assume r: "r \<noteq> Active_runtime_ns \<and> r \<noteq> Concurrency_slots"
  let ?book = "\<lambda>ts. if r \<in> CUMULATIVE then \<Sum>t\<leftarrow>ts. amount (st_actual t) r
    else fold max (map (\<lambda>t. amount (st_actual t) r) ts) 0"
  have old: "amount (ds_usage s) r = ?book (ds_settlements s)" using b r unfolding books_balance_def by blast
  from st show "amount (ds_usage s') r = ?book (ds_settlements s')"
  proof cases
    case (Opened q)
    have "amount (ds_usage s') r = amount (ds_usage s) r"
      using Opened(3) r usage_max_0 [OF inv, of r] by (simp add: charges_def del: amount.simps)
    then show ?thesis using old by (simp only: Opened(2))
  next
    case (Closed t q)
    have "amount (ds_usage s') r = (if r \<in> CUMULATIVE then amount (ds_usage s) r + amount (st_actual t) r
        else max (amount (ds_usage s) r) (amount (st_actual t) r))"
      using Closed(5) r by (simp add: charges_def del: amount.simps)
    then show ?thesis using old by (simp add: Closed(4) max.commute del: amount.simps split: if_splits)
  next
    case Kept
    have "amount (ds_usage s') r = amount (ds_usage s) r"
      using Kept(3) r usage_max_0 [OF inv, of r] by (simp add: charges_def del: amount.simps)
    then show ?thesis using old by (simp only: Kept(2))
  qed
qed

section \<open>Commitments stay within the policy\<close>

definition fits_at :: "durable_policy \<Rightarrow> durable_usage \<Rightarrow> permit list \<Rightarrow> resource \<Rightarrow> bool" where
  "fits_at p u ps r \<longleftrightarrow>
     (if r = Concurrency_slots then int (length ps) \<le> tighten_limit p r
      else if r \<in> CUMULATIVE then amount u r + reserved_total ps r \<le> tighten_limit p r
      else amount u r \<le> tighten_limit p r \<and>
        (\<forall>q\<in>set ps. amount (rv_requested (pm_reservation q)) r \<le> tighten_limit p r))"

lemma demand_fits: "tighten_demand u ps r \<le> tighten_limit p r \<longleftrightarrow> fits_at p u ps r"
  by (simp add: tighten_demand_def fits_at_def fold_max_le del: amount.simps)

lemma requests_same:
  assumes "map pm_reservation ps = map pm_reservation qs"
  shows "fits_at p u ps r = fits_at p u qs r"
proof -
  have "reserved_total xs r = (\<Sum>v\<leftarrow>map pm_reservation xs. amount (rv_requested v) r)" for xs
    by (simp add: reserved_total_def comp_def)
  moreover have "pm_reservation ` set ps = pm_reservation ` set qs" using assms by (metis list.set_map)
  then have "(\<forall>v\<in>pm_reservation ` set ps. amount (rv_requested v) r \<le> L) \<longleftrightarrow>
      (\<forall>v\<in>pm_reservation ` set qs. amount (rv_requested v) r \<le> L)" for L by (simp only:)
  then have "(\<forall>q\<in>set ps. amount (rv_requested (pm_reservation q)) r \<le> L) \<longleftrightarrow>
      (\<forall>q\<in>set qs. amount (rv_requested (pm_reservation q)) r \<le> L)" for L by (simp only: ball_simps)
  moreover have "length ps = length qs" using assms by (rule map_eq_imp_length_eq)
  ultimately show ?thesis unfolding fits_at_def by (simp only: assms)
qed

lemma commitments_fitI:
  "(\<And>r. r \<noteq> Active_runtime_ns \<Longrightarrow> fits_at (ds_policy s) (ds_usage s) (ds_active_permits s) r) \<Longrightarrow> commitments_fit s"
  by (simp add: commitments_fit_def demand_fits)

lemma commitments_fitD:
  "commitments_fit s \<Longrightarrow> r \<noteq> Active_runtime_ns \<Longrightarrow> fits_at (ds_policy s) (ds_usage s) (ds_active_permits s) r"
  by (simp add: commitments_fit_def demand_fits)

lemma tighten_limit_eq: "tighten_limit (ds_policy s) r = reservation_limit s r"
  by (simp add: tighten_limit_def reservation_limit_def)

lemma reserved_filter:
  assumes "distinct (map pm_permit_id ps)" and "q \<in> set ps" "pm_permit_id q = p"
  shows "reserved_total (filter (\<lambda>x. pm_permit_id x \<noteq> p) ps) r =
    reserved_total ps r - amount (rv_requested (pm_reservation q)) r"
  using assms
proof (induction ps)
  case (Cons x ps)
  show ?case
  proof (cases "pm_permit_id x = p")
    case True
    then have "q = x" using Cons.prems by (auto simp: image_iff)
    moreover have "\<forall>y\<in>set ps. pm_permit_id y \<noteq> p"
      using True Cons.prems(1) by (metis distinct.simps(2) imageI list.set_map list.simps(9))
    then have "filter (\<lambda>x. pm_permit_id x \<noteq> p) ps = ps" by (intro filter_True) blast
    ultimately show ?thesis using True by (simp add: reserved_total_def)
  next
    case False
    then have "q \<in> set ps" using Cons.prems by auto
    then show ?thesis using False Cons by (simp add: reserved_total_def)
  qed
qed simp

lemma commitments_step:
  assumes "account_step s elapsed s'" and inv: "budget_inv s"
    and fits: "ds_failure_latch s = None \<Longrightarrow> commitments_fit s" and latch: "ds_failure_latch s' = None"
  shows "commitments_fit s'"
  using assms(1)
proof cases
  case (Opened q)
  have f: "commitments_fit s" using fits Opened by simp
  have slots: "amount (rv_requested (pm_reservation q)) Concurrency_slots = 1"
    using Opened(7) by (simp add: permit_ok_def reservation_ok_def reserve_exactly_one_slot_def)
  show ?thesis
  proof (rule commitments_fitI)
    fix r assume r: "r \<noteq> Active_runtime_ns"
    note a = commitments_fitD [OF f r] and d = Opened(6) [OF r] and l = tighten_limit_eq [of s r]
      and u = Opened(3) [unfolded charges_def, rule_format, of r]
    have "amount (ds_usage s') r = amount (ds_usage s) r" if "r \<noteq> Concurrency_slots"
      using u r that usage_max_0 [OF inv, of r] by (simp del: amount.simps)
    then show "fits_at (ds_policy s') (ds_usage s') (ds_active_permits s') r"
      using a d slots unfolding fits_at_def Opened(1,4) l reservation_demand_def Let_def
      by (auto simp: reserved_total_def simp del: amount.simps split: if_splits)
  qed
next
  case (Closed t q)
  have f: "commitments_fit s" and no: "\<not> overran (st_reserved t) (st_actual t)" using fits Closed(7) latch by auto
  note Q = find_permitD [OF Closed(1)]
  show ?thesis
  proof (rule commitments_fitI)
    fix r assume r: "r \<noteq> Active_runtime_ns"
    note a = commitments_fitD [OF f r] and u = Closed(5) [unfolded charges_def, rule_format, of r]
    have le: "amount (st_actual t) r \<le> amount (rv_requested (pm_reservation q)) r"
      using no by (auto simp: overran_def Closed(2) not_less)
    have len: "length (ds_active_permits s') \<le> length (ds_active_permits s)" by (simp add: Closed(3))
    note res = reserved_filter [OF budget_invD(3) [OF inv] Q, of r, folded Closed(3)]
    have sub: "set (ds_active_permits s') \<subseteq> set (ds_active_permits s)" by (auto simp: Closed(3))
    have q: "amount (rv_requested (pm_reservation q)) r \<le> tighten_limit (ds_policy s) r"
      if "r \<noteq> Concurrency_slots" "r \<notin> CUMULATIVE"
      using a Q(1) that by (simp add: fits_at_def del: amount.simps)
    show "fits_at (ds_policy s') (ds_usage s') (ds_active_permits s') r"
    proof (cases "r = Concurrency_slots \<or> r \<in> CUMULATIVE")
      case True
      then show ?thesis using a u le len res r unfolding fits_at_def Closed(6)
        by (simp del: amount.simps split: if_splits)
    next
      case False
      then have "amount (ds_usage s') r = max (amount (ds_usage s) r) (amount (st_actual t) r)"
        using u r by (simp del: amount.simps)
      then show ?thesis using False a q le sub unfolding fits_at_def Closed(6)
        by (auto simp del: amount.simps)
    qed
  qed
next
  case Kept
  show ?thesis
  proof (cases "ds_policy s' = ds_policy s")
    case False
    then show ?thesis using Kept(4) by simp
  next
    case True
    have f: "commitments_fit s" using fits Kept(5) latch by simp
    show ?thesis
    proof (rule commitments_fitI)
      fix r assume r: "r \<noteq> Active_runtime_ns"
      note a = commitments_fitD [OF f r] and u = Kept(3) [unfolded charges_def, rule_format, of r]
      have "amount (ds_usage s') r = amount (ds_usage s) r" if "r \<noteq> Concurrency_slots"
        using u r that usage_max_0 [OF inv, of r] by (simp del: amount.simps)
      then show "fits_at (ds_policy s') (ds_usage s') (ds_active_permits s') r"
        using a unfolding requests_same [OF Kept(1)] True by (simp add: fits_at_def del: amount.simps split: if_splits)
    qed
  qed
qed

section \<open>Runs\<close>

definition initial_body :: "string \<Rightarrow> durable_policy \<Rightarrow> idempotency \<Rightarrow> event \<Rightarrow> durable_state" where
  "initial_body run policy r e = \<lparr>ds_run_id = run, ds_generation = 1, ds_previous_state_sha256 = None, ds_policy = policy,
         ds_policy_sha256 = dp_policy_sha256 policy,
         ds_activation_sha256 = dp_activation_sha256 policy, ds_usage = usage_of (\<lambda>_. 0) 0,
         ds_active_permits = [], ds_settlements = [], ds_attempts = [], ds_cancellations = [],
         ds_operations = [r], ds_events = [e], ds_failure_latch = None,
         ds_active_runtime_remaining_ns = runtime_limit_ns (dp_base_policy policy)\<rparr>"

lemma initial_state_succeeds:
  assumes "valid_identifier run" and "valid_identifier op" and p: "durable_policy_ok policy"
  shows "\<exists>r e. initial_state run policy op = Inr (initial_body run policy r e) \<and> id_operation_id r = op"
proof -
  have u: "durable_usage_ok (usage_of (\<lambda>_. 0) 0)"
    by (simp add: durable_usage_ok_def resource_amounts_ok_iff del: amount.simps)
  have "amount (usage_of (\<lambda>_. 0) 0) Active_runtime_ns = 0" by (simp del: amount.simps)
  then have z: "ra_active_runtime_ns (usage_of (\<lambda>_. 0) 0) = 0" by simp
  have "1 \<le> ea_max_concurrent_agents (dp_activation policy)"
    using p by (simp add: durable_policy_ok_def execution_activation_ok_def)
  then show ?thesis
    using assms u z runtime_limit_nonneg [OF p]
    by (simp add: initial_state_def Let_def build_def idempotency_ok_def event_ok_def create_request_def
        durable_state_ok_split body_ok_def log_ok_def permit_ids_def settled_permits_def lineage_table_ok_def
        lineages_def permits_partitioned_def attempt_statuses_ok_def operation_log_ok_def event_matches_def
        concurrency_ok_def initial_body_def)
qed

lemma initial_stateE:
  assumes "initial_state run policy op = Inr s0"
  obtains r e where "s0 = initial_body run policy r e"
    "durable_state_ok s0"
proof -
  from assms have "\<exists>r e. s0 = initial_body run policy r e \<and> durable_state_ok (initial_body run policy r e)"
    unfolding initial_state_def Let_def bindE_Inr build_Inr initial_body_def by blast
  then show thesis using that by blast
qed

lemma initial_state_inv:
  assumes "initial_state run policy op = Inr s0"
  shows "budget_inv s0" and "ds_run_id s0 = run" and "ds_policy s0 = policy" and "ds_failure_latch s0 = None"
    and "books_balance s0" and "commitments_fit s0" and "\<And>r. amount (ds_usage s0) r = 0"
proof -
  obtain r e where s0: "s0 = initial_body run policy r e"
    and ok: "durable_state_ok s0"
    by (rule initial_stateE [OF assms])
  note s0 = s0 [unfolded initial_body_def]
  show z: "amount (ds_usage s0) r = 0" for r unfolding s0 by (simp del: amount.simps)
  have "ra_concurrency_slots (ds_usage s0) = 0" using z [of Concurrency_slots] by simp
  then show "budget_inv s0" using ok by (simp add: budget_inv_def s0 open_attempts_clean_def)
  show "ds_run_id s0 = run" "ds_policy s0 = policy" "ds_failure_latch s0 = None" by (simp_all add: s0)
  show "books_balance s0" unfolding books_balance_def z by (simp add: s0)
  show "commitments_fit s0"
  proof (rule commitments_fitI)
    fix r
    have "0 \<le> tighten_limit (ds_policy s0) r" for r
      using ok limit_nonneg [of s0 r] by (simp add: tighten_limit_eq durable_state_ok_def)
    moreover have "ds_active_permits s0 = []" by (simp add: s0)
    ultimately show "fits_at (ds_policy s0) (ds_usage s0) (ds_active_permits s0) r"
      unfolding fits_at_def z by (simp add: reserved_total_def split: if_splits)
  qed
qed

definition account_inv :: "durable_state \<Rightarrow> bool" where
  "account_inv s \<longleftrightarrow> budget_inv s \<and> books_balance s \<and> (ds_failure_latch s = None \<longrightarrow> commitments_fit s)"

lemma op_account_inv:
  assumes inv: "account_inv s" and st: "op_successor c s elapsed = Inr s'"
  shows "account_inv s'"
proof -
  have b: "budget_inv s" using inv by (simp add: account_inv_def)
  note a = op_account [OF b st]
  show ?thesis
    using op_budget_inv [OF b st] books_step [OF a b] commitments_step [OF a b] inv
    unfolding account_inv_def by blast
qed

interpretation books: call_system apply_op "\<lambda>_. True" account_inv
  by unfold_locales (auto simp: apply_op_def op_account_inv split: sum.split)

interpretation book_runs: checked_system "\<lambda>s ce. op_successor (fst ce) s (snd ce)" account_inv
  by unfold_locales (rule op_account_inv)

lemma account_runtime:
  assumes "account_step s elapsed s'"
  shows "amount (ds_usage s') Active_runtime_ns = amount (ds_usage s) Active_runtime_ns + elapsed"
  using assms by cases (simp_all add: charges_def del: amount.simps)

lemma runtime_total:
  assumes "foldE (\<lambda>s ce. op_successor (fst ce) s (snd ce)) s0 cs = Inr s" and "account_inv s0"
  shows "amount (ds_usage s) Active_runtime_ns = amount (ds_usage s0) Active_runtime_ns + (\<Sum>ce\<leftarrow>cs. snd ce)"
  using assms
proof (induction cs arbitrary: s0)
  case (Cons ce cs)
  then obtain s1 where s1: "op_successor (fst ce) s0 (snd ce) = Inr s1"
      "foldE (\<lambda>s ce. op_successor (fst ce) s (snd ce)) s1 cs = Inr s" by (auto simp: errs)
  have "account_step s0 (snd ce) s1" using op_account [OF _ s1(1)] Cons.prems(2) by (simp add: account_inv_def)
  then show ?case
    using Cons.IH [OF s1(2) op_account_inv [OF Cons.prems(2) s1(1)]] account_runtime by simp
qed simp

end
