(* ===== verification/Identifiers.thy ===== *)
theory Identifiers
  imports DurableModels
begin

text \<open>
  Facts about the identifier patterns of \<open>budgets/durable_models.py\<close>: every non-empty
  alphanumeric string of at most 128 characters is a portable identifier, because each shape
  the secret filter rejects contains a separator.
\<close>

text \<open>A pattern that must read a character of \<open>C\<close> matches nothing in a string without one.\<close>

primrec must_read :: "char list \<Rightarrow> re \<Rightarrow> bool" where
  "must_read C (Cls cs) = (set cs \<subseteq> set C)"
| "must_read C (Seq r1 r2) = (must_read C r1 \<or> must_read C r2)"
| "must_read C (Alt r1 r2) = (must_read C r1 \<and> must_read C r2)"
| "must_read C (Rep lo hi r) = (0 < lo \<and> must_read C r)"
| "must_read C WordB = False"

lemma re_loops_invariant:
  assumes step: "\<And>p q. P p \<Longrightarrow> q \<in> set (f p) \<Longrightarrow> P q" and "\<forall>p\<in>set ps. P p"
  shows "\<forall>q\<in>set (times_re n f ps). P q" and "\<forall>q\<in>set (upto_re n f ps). P q"
proof -
  have all: "\<forall>q\<in>set (concat (map f ps)). P q" if "\<forall>p\<in>set ps. P p" for ps
    using that step by fastforce
  show "\<forall>q\<in>set (times_re n f ps). P q"
    using assms(2)
  proof (induction n arbitrary: ps)
    case (Suc n)
    show ?case using Suc.IH [OF all [OF Suc.prems]] by simp
  qed simp
  show "\<forall>q\<in>set (upto_re n f ps). P q"
    using assms(2)
  proof (induction n arbitrary: ps)
    case (Suc n)
    show ?case using Suc.IH [OF all [OF Suc.prems]] Suc.prems by auto
  qed simp
qed

lemma ends_shrink: "q \<in> set (ends r p) \<Longrightarrow> set (snd q) \<subseteq> set (snd p)"
proof (induction r arbitrary: p q)
  case (Cls cs)
  then show ?case by (cases "snd p") (auto simp: step_cls_def split: if_splits)
next
  case (Seq r1 r2)
  then obtain m where "m \<in> set (ends r1 p)" "q \<in> set (ends r2 m)" by auto
  with Seq.IH show ?case by blast
next
  case (Rep lo hi r)
  let ?P = "\<lambda>m. set (snd m) \<subseteq> set (snd p)"
  have step: "?P m \<Longrightarrow> q \<in> set (ends r m) \<Longrightarrow> ?P q" for m q using Rep.IH by blast
  have "\<forall>q\<in>set [p]. ?P q" by simp
  then have "\<forall>q\<in>set (times_re lo (ends r) [p]). ?P q" by (intro re_loops_invariant(1) [where P = ?P, OF step])
  then have "\<forall>q\<in>set (upto_re n (ends r) (times_re lo (ends r) [p])). ?P q" for n
    by (intro re_loops_invariant(2) [where P = ?P, OF step])
  from this [THEN bspec] Rep.prems show ?case unfolding ends.simps by blast
next
  case (Alt r1 r2)
  then consider "q \<in> set (ends r1 p)" | "q \<in> set (ends r2 p)" by auto
  then show ?case using Alt.IH by cases blast+
qed (simp split: if_splits)

lemma times_re_Nil [simp]: "times_re n f [] = []" "upto_re n f [] = []"
  by (cases n; simp)+

lemma must_read_ends: "must_read C r \<Longrightarrow> set (snd p) \<inter> set C = {} \<Longrightarrow> ends r p = []"
proof (induction r arbitrary: p)
  case (Cls cs)
  then show ?case by (cases "snd p") (auto simp: step_cls_def)
next
  case (Seq r1 r2)
  show ?case
  proof (cases "must_read C r1")
    case True
    then show ?thesis using Seq by simp
  next
    case False
    then have "must_read C r2" using Seq.prems(1) by simp
    moreover have "set (snd q) \<inter> set C = {}" if "q \<in> set (ends r1 p)" for q
      using ends_shrink [OF that] Seq.prems(2) by blast
    ultimately show ?thesis using Seq.IH(2) by simp
  qed
next
  case (Rep lo hi r)
  obtain n where "lo = Suc n" using Rep.prems(1) by (cases lo) auto
  moreover have "ends r p = []" using Rep by simp
  ultimately show ?case by simp
qed auto

lemma search_from_must_read:
  assumes "must_read C r" and "set s \<inter> set C = {}"
  shows "\<not> search_from r pre s"
  using assms must_read_ends [OF assms(1)] by (induction s arbitrary: pre) auto

lemma upto_step_cls:
  assumes "length s \<le> n" and "set s \<subseteq> set cs"
  shows "(rev s @ pre, []) \<in> set (upto_re n (step_cls cs) [(pre, s)])"
  using assms
proof (induction n arbitrary: pre s)
  case (Suc n)
  then show ?case
  proof (cases s)
    case (Cons c t)
    with Suc.IH [of t "c # pre"] Suc.prems show ?thesis by (simp add: step_cls_simps)
  qed simp
qed simp

lemma fullmatch_head_tail:
  assumes "c \<in> set as" and "length s \<le> n" and "set s \<subseteq> set bs"
  shows "fullmatch (Seq (Cls as) (Rep 0 (Some n) (Cls bs))) (c # s)"
proof -
  have "ends (Cls bs) = step_cls bs" by (rule ext) simp
  then show ?thesis
    using upto_step_cls [OF assms(2,3), of "[c]"] assms(1)
    by (simp add: fullmatch_def step_cls_simps list_ex_iff) (metis snd_conv)
qed

lemma separator_needed: "must_read (''-_ :='' @ space_chars) SECRET_SHAPE_PATTERN"
  by code_simp

lemma plain_identifier:
  assumes "s \<noteq> []" and "length s \<le> 128" and "set s \<subseteq> set alnum_chars"
  shows "valid_identifier s"
proof -
  have "set alnum_chars \<inter> set (''-_ :='' @ space_chars) = {}" by code_simp
  then have "\<not> search SECRET_SHAPE_PATTERN s"
    unfolding search_def using search_from_must_read [OF separator_needed] assms(3) by blast
  moreover obtain c t where "s = c # t" using assms(1) by (cases s) auto
  ultimately show ?thesis
    using assms fullmatch_head_tail [of c alnum_chars t 127 "alnum_chars @ ''._:-''"]
    by (auto simp: valid_identifier_def PORTABLE_ID_PATTERN_def)
qed

end
