(* ===== verification/DurableSample.thy ===== *)
theory DurableSample
  imports DurableAccounts SerialLedgerProofs Identifiers
begin

text \<open>
  A small run of the durable budget store for the witnesses.  The states are computed by
  rewriting; digests stay symbolic, since only their format and equality matter.
\<close>

lemma sample_ids:
  "list_all valid_identifier [''run'', ''o1'', ''o2'', ''o3'', ''o4'', ''o5'', ''o6'', ''o7'', ''p1'', ''s1'', ''own'',
     ''ph'', ''a1'', ''c1'', ''k1'', ''rv'']" "valid_role ''analyst''"
proof -
  have "list_all (\<lambda>s. s \<noteq> [] \<and> length s \<le> 128 \<and> list_all (\<lambda>c. c \<in> set alnum_chars) s)
    [''run'', ''o1'', ''o2'', ''o3'', ''o4'', ''o5'', ''o6'', ''o7'', ''p1'', ''s1'', ''own'',
     ''ph'', ''a1'', ''c1'', ''k1'', ''rv'']" by code_simp
  then show "list_all valid_identifier [''run'', ''o1'', ''o2'', ''o3'', ''o4'', ''o5'', ''o6'', ''o7'', ''p1'', ''s1'', ''own'',
     ''ph'', ''a1'', ''c1'', ''k1'', ''rv'']"
    by (rule list.pred_mono_strong) (auto simp: list_all_iff intro!: plain_identifier)
  show "valid_role ''analyst''"
    unfolding valid_role_def ROLE_PATTERN_def by (rule fullmatch_head_tail) code_simp+
qed

definition digest :: string where "digest = canonical_sha256 (JStr ''digest'')"

definition sample_policy :: durable_policy where
  "sample_policy = \<lparr>dp_base_policy = default_policy,
     dp_activation = \<lparr>ea_max_concurrent_agents = 2, ea_max_automatic_retries = 0\<rparr>\<rparr>"

definition sample_lineage :: lineage where
  "sample_lineage = \<lparr>li_owner_kind = AGENT, li_owner_id = ''own'', li_role = ''analyst'',
     li_phase_id = ''ph'', li_assignment_id = None, li_root_attempt_id = ''a1'',
     li_parent_attempt_id = None, li_attempt_id = ''a1'', li_root_context_id = ''c1'',
     li_parent_context_id = None, li_context_id = ''c1'', li_context_source_sha256 = digest,
     li_context_policy_sha256 = digest, li_context_integrity_sha256 = digest,
     li_execution_ordinal = 0, li_idempotency_key = ''k1'', li_idempotency_request_sha256 = digest\<rparr>"

definition sample_request :: resource_amounts where
  "sample_request = amounts_of ((\<lambda>_. 0)(Active_runtime_ns := 1000, Provider_attempts := 1,
     Provider_output_bytes := 4096, Concurrency_slots := 1))"

definition sample_reservation :: reservation where
  "sample_reservation = \<lparr>rv_reservation_id = ''rv'', rv_requested = sample_request,
     rv_execution_class = Local_free, rv_external_cost_estimate_authenticated = False,
     rv_request_sha256 = reservation_request_sha256 ''rv'' sample_request Local_free False\<rparr>"

lemma sample_policy_ok: "durable_policy_ok sample_policy"
  using default_policy_ok by (simp add: durable_policy_ok_def sample_policy_def execution_activation_ok_def
      budget_policy_ok_def)

lemma sample_lineage_ok: "lineage_ok sample_lineage"
  using sample_ids by (simp add: lineage_ok_def sample_lineage_def digest_def root_and_parent_lineage_ok_def)

lemma sample_request_ok: "resource_amounts_ok sample_request"
  by (simp add: resource_amounts_ok_iff sample_request_def del: amount.simps)

lemma sample_reservation_ok: "reservation_ok sample_reservation"
  using sample_ids sample_request_ok
  by (simp add: reservation_ok_def sample_reservation_def reserve_exactly_one_slot_def reservation_request_sha256_def)
    (simp add: sample_request_def amounts_of_def)

text \<open>The run: create, reserve, start, request a cancellation, record that its effect is unknown.\<close>

definition sample_q :: "int \<Rightarrow> permit" where
  "sample_q n = \<lparr>pm_permit_id = ''p1'', pm_reservation = sample_reservation, pm_lineage = sample_lineage,
     pm_status = P_RESERVED, pm_reserved_active_runtime_ns = n, pm_started_active_runtime_ns = None\<rparr>"

lemma sample_q_simps [simp]:
  "pm_permit_id (sample_q n) = ''p1''" "pm_status (sample_q n) = P_RESERVED"
  "pm_reservation (sample_q n) = sample_reservation" "pm_lineage (sample_q n) = sample_lineage"
  by (simp_all add: sample_q_def)

definition sample_a :: attempt where
  "sample_a = \<lparr>at_permit_id = ''p1'', at_lineage = sample_lineage, at_status = A_RESERVED,
     at_failure_category = None, at_effect_evidence_sha256 = None\<rparr>"

definition sample_0 :: durable_state where
  "sample_0 = projr (initial_state ''run'' sample_policy ''o1'')"

lemma sample_0:
  "initial_state ''run'' sample_policy ''o1'' = Inr sample_0" "budget_inv sample_0"
  "map id_operation_id (ds_operations sample_0) = [''o1'']" "ds_policy sample_0 = sample_policy"
  "ds_active_permits sample_0 = []" "ds_attempts sample_0 = []" "ds_settlements sample_0 = []"
  "ds_cancellations sample_0 = []" "ds_failure_latch sample_0 = None" "ds_run_id sample_0 = ''run''"
  "ds_generation sample_0 = 1"
proof -
  obtain r e where "initial_state ''run'' sample_policy ''o1'' = Inr (initial_body ''run'' sample_policy r e)"
      "id_operation_id r = ''o1''"
    using initial_state_succeeds [of "''run''" "''o1''" sample_policy] sample_ids sample_policy_ok by auto
  then have eq: "initial_state ''run'' sample_policy ''o1'' = Inr sample_0"
    "sample_0 = initial_body ''run'' sample_policy r e" and r: "id_operation_id r = ''o1''"
    by (simp_all add: sample_0_def)
  show "initial_state ''run'' sample_policy ''o1'' = Inr sample_0" by (fact eq)
  then show "budget_inv sample_0" by (rule initial_state_inv)
  show "map id_operation_id (ds_operations sample_0) = [''o1'']" "ds_policy sample_0 = sample_policy"
    "ds_active_permits sample_0 = []" "ds_attempts sample_0 = []" "ds_settlements sample_0 = []"
    "ds_cancellations sample_0 = []" "ds_failure_latch sample_0 = None" "ds_run_id sample_0 = ''run''"
    "ds_generation sample_0 = 1"
    using r unfolding eq(2) by (simp_all add: initial_body_def)
qed

definition sample_reserve :: budget_op where
  "sample_reserve = Reserve_op ''o2'' ''p1'' sample_reservation sample_lineage None None"

lemma sample_runtime: "runtime_limit_ns (dp_base_policy sample_policy) = 300000000000"
  by (simp add: sample_policy_def default_runtime_limit)

lemma sample_admissible: "reserve_admissible sample_0 ''p1'' sample_reservation sample_lineage None None 10"
proof -
  have z: "amount (ds_usage sample_0) r = 0" for r by (rule initial_state_inv(7) [OF sample_0(1)])
  then have z0: "ra_active_runtime_ns (ds_usage sample_0) = 0" by (metis amount.simps(1))
  have "demand_after sample_0 sample_reservation 10 r \<le> reservation_limit sample_0 r" for r
    unfolding demand_after_def reservation_demand_def z reservation_limit_def sample_0
    by (cases r) (simp_all add: reserved_total_def sample_reservation_def sample_request_def CUMULATIVE_def
        sample_policy_def default_policy_def default_runtime_limit [unfolded default_policy_def] del: amount.simps)
  then show ?thesis
    unfolding reserve_admissible_def reservation_admissible_def
    by (simp add: sample_0 z0 sample_runtime binding_matches_def lineage_admissible_def lineages_def permit_ids_def
        settled_permits_def sample_lineage_def) (simp add: sample_reservation_def)
qed

definition sample_1 :: durable_state where "sample_1 = projr (op_successor sample_reserve sample_0 10)"

lemma sample_reserve_args: "reserve_args_ok ''o2'' ''p1'' sample_reservation sample_lineage"
  using sample_ids by (simp add: reserve_args_ok_def sample_reservation_ok sample_lineage_ok)

lemma fresh_iff: "find_operation s op = None \<longleftrightarrow> op \<notin> set (map id_operation_id (ds_operations s))"
  by (auto simp: find_operation_def find_None_iff2)

lemma sample_1:
  "op_successor sample_reserve sample_0 10 = Inr sample_1"
  "ds_active_permits sample_1 = [sample_q 10]" "ds_attempts sample_1 = [sample_a]"
  "ds_settlements sample_1 = []" "ds_cancellations sample_1 = []" "ds_failure_latch sample_1 = None"
  "ds_policy sample_1 = sample_policy" "map id_operation_id (ds_operations sample_1) = [''o1'', ''o2'']"
  "amount (ds_usage sample_1) Active_runtime_ns = 10"
proof -
  have "find_operation sample_0 ''o2'' = None" unfolding fresh_iff sample_0 by simp
  from reserve_cases [OF sample_0(2) sample_reserve_args _ this, of 10 None None] sample_admissible
  obtain s where s: "reserve_successor ''o2'' ''p1'' sample_reservation sample_lineage None None sample_0 10 = Inr s"
    by auto
  then have eq: "s = sample_1" by (simp add: sample_1_def sample_reserve_def)
  show "op_successor sample_reserve sample_0 10 = Inr sample_1" using s eq by (simp add: sample_reserve_def)
  from s have "ds_active_permits sample_1 = [sample_q 10] \<and> ds_attempts sample_1 = [sample_a] \<and>
      ds_settlements sample_1 = [] \<and> ds_cancellations sample_1 = [] \<and> ds_failure_latch sample_1 = None \<and>
      ds_policy sample_1 = sample_policy \<and> map id_operation_id (ds_operations sample_1) = [''o1'', ''o2''] \<and>
      amount (ds_usage sample_1) Active_runtime_ns = 10"
    unfolding eq
  proof (cases rule: reserveE)
    case (1 usage remaining q a)
    have "amount (ds_usage sample_0) Active_runtime_ns = 0" by (rule initial_state_inv(7) [OF sample_0(1)])
    then have u: "amount usage Active_runtime_ns = 10"
      unfolding chargeD(3) [OF 1(1)] amount_charged(1) [OF budget_invD(1) [OF sample_0(2)]] by simp
    from append_operationD [OF 1(7)] obtain r e where s1: "sample_1 = appended sample_0 (sample_0\<lparr>ds_active_permits :=
      ds_active_permits sample_0 @ [q], ds_attempts := ds_attempts sample_0 @ [a], ds_usage := usage,
      ds_active_runtime_remaining_ns := remaining\<rparr>) r e" "id_operation_id r = ''o2''" by blast
    show ?thesis
      unfolding s1 using u s1(2) by (simp add: sample_0 sample_q_def sample_a_def 1(5,6))
  qed
  then show "ds_active_permits sample_1 = [sample_q 10]" "ds_attempts sample_1 = [sample_a]"
    "ds_settlements sample_1 = []" "ds_cancellations sample_1 = []" "ds_failure_latch sample_1 = None"
    "ds_policy sample_1 = sample_policy" "map id_operation_id (ds_operations sample_1) = [''o1'', ''o2'']"
    "amount (ds_usage sample_1) Active_runtime_ns = 10"
    by simp_all
qed

text \<open>States of the run that has one permit and one attempt.\<close>

definition one_permit :: "durable_state \<Rightarrow> permit \<Rightarrow> attempt \<Rightarrow> cancellation list \<Rightarrow> durable_failure option \<Rightarrow> int \<Rightarrow> durable_state" where
  "one_permit s q a cs latch n = s\<lparr>ds_active_permits := [q], ds_attempts := [a], ds_cancellations := cs,
     ds_failure_latch := latch, ds_usage := ds_usage (charged_state s n),
     ds_active_runtime_remaining_ns := ds_active_runtime_remaining_ns (charged_state s n)\<rparr>"

lemma one_permit_simps [simp]:
  "ds_run_id (one_permit s q a cs latch n) = ds_run_id s" "ds_active_permits (one_permit s q a cs latch n) = [q]"
  "ds_attempts (one_permit s q a cs latch n) = [a]" "ds_cancellations (one_permit s q a cs latch n) = cs"
  "ds_failure_latch (one_permit s q a cs latch n) = latch" "ds_policy (one_permit s q a cs latch n) = ds_policy s"
  "ds_settlements (one_permit s q a cs latch n) = ds_settlements s"
  "ds_usage (one_permit s q a cs latch n) = ds_usage (charged_state s n)"
  by (simp_all add: one_permit_def)

lemma one_permit_body:
  assumes inv: "budget_inv s" and s: "ds_policy s = sample_policy" "ds_settlements s = []" and n: "0 \<le> n"
    and q: "permit_ok q" "pm_permit_id q = ''p1''" and a: "attempt_ok a" "at_permit_id a = ''p1''" "at_lineage a = sample_lineage"
    and cs: "cs = [] \<or> (\<exists>c. cs = [c] \<and> cancellation_ok c \<and> ca_permit_id c = ''p1'')"
    and st: "at_status a = expected_status (case cs of [] \<Rightarrow> None | c # _ \<Rightarrow> Some c) (pm_status q)"
    and latch: "pred_option durable_failure_ok latch"
  shows "body_ok (one_permit s q a cs latch n)"
proof -
  have ok: "body_ok s" using inv by (simp add: budget_inv_def body_okI)
  note U = budget_invD(1) [OF inv]
  have peak: "du_peak_concurrency (ds_usage s) \<le> 2"
    using body_okD(9) [OF ok] by (simp add: concurrency_ok_def s sample_policy_def)
  have slot: "ra_concurrency_slots (rv_requested (pm_reservation q)) = 1"
    using q(1) by (simp add: permit_ok_def reservation_ok_def reserve_exactly_one_slot_def)
  have lin: "li_parent_attempt_id sample_lineage = None" by (simp add: sample_lineage_def)
  show ?thesis
    using ok charged_usage_ok [OF U n] runtime_charged [OF U] amount_charged(2) [OF U] q a cs st latch peak slot lin s
    by (elim disjE exE conjE)
      (simp_all add: body_ok_def one_permit_def charged_state_def permit_ids_def settled_permits_def lineage_table_ok_def
        lineages_def permits_partitioned_def attempt_statuses_ok_def attempt_of_def cancellation_of_def concurrency_ok_def
        sample_policy_def retry_parent_ok_def set_default_def)
qed

lemma sample_charge:
  assumes "budget_inv s" and "ds_policy s = sample_policy" and "amount (ds_usage s) Active_runtime_ns = k"
    and "0 \<le> n" and "k + n \<le> 300000000000"
  shows "charge_active_runtime s n op allow =
    Inr (ds_usage (charged_state s n), ds_active_runtime_remaining_ns (charged_state s n))"
  using assms charge_eq [OF budget_invD(1) [OF assms(1)] assms(4), of op allow] by (simp add: charged_state_def sample_runtime)

lemma append_at:
  assumes "f s = t" and "durable_state_ok s" and "kind \<noteq> K_INITIALIZE" and "valid_identifier op"
    and "op \<notin> set (map id_operation_id (ds_operations s))" and "is_sha256 req" and "opt_identifier subj"
    and "ds_run_id t = ds_run_id s" and "body_ok t"
  shows "append_operation s op kind req subj payload f = Inr (logged s t op kind req subj payload)"
  using append_operation_logged(1) [OF assms(2-7), of f payload] assms(1,8,9) by simp

definition sample_q2 :: permit where
  "sample_q2 = (sample_q 10)\<lparr>pm_status := P_STARTED, pm_started_active_runtime_ns := Some 20\<rparr>"

definition sample_2 :: durable_state where
  "sample_2 = projr (op_successor (Start_op ''o3'' ''p1'') sample_1 10)"

lemma sample_q_ok: "permit_ok (sample_q 10)" "permit_ok sample_q2" "attempt_ok sample_a"
  "attempt_ok (sample_a\<lparr>at_status := st, at_effect_evidence_sha256 := Some digest\<rparr>)" "attempt_ok (sample_a\<lparr>at_status := st\<rparr>)"
  using sample_ids sample_reservation_ok sample_lineage_ok
  by (simp_all add: permit_ok_def sample_q_def sample_q2_def attempt_ok_def sample_a_def digest_def)

lemma sample_inv_1: "budget_inv sample_1"
  by (rule op_budget_inv [OF sample_0(2) sample_1(1)])

lemma sample_2:
  "op_successor (Start_op ''o3'' ''p1'') sample_1 10 = Inr sample_2"
  "ds_active_permits sample_2 = [sample_q2] \<and> ds_attempts sample_2 = [sample_a\<lparr>at_status := A_STARTED\<rparr>] \<and>
    ds_settlements sample_2 = [] \<and> ds_cancellations sample_2 = [] \<and> ds_failure_latch sample_2 = None \<and>
    ds_policy sample_2 = sample_policy \<and> map id_operation_id (ds_operations sample_2) = [''o1'', ''o2'', ''o3''] \<and>
    amount (ds_usage sample_2) Active_runtime_ns = 20"
proof -
  let ?t = "one_permit sample_1 sample_q2 (sample_a\<lparr>at_status := A_STARTED\<rparr>) [] None 10"
  have c: "charge_active_runtime sample_1 10 ''o3'' False = Inr (ds_usage (charged_state sample_1 10),
      ds_active_runtime_remaining_ns (charged_state sample_1 10))"
    by (rule sample_charge [OF sample_inv_1 sample_1(7,9)]) simp_all
  have u: "amount (ds_usage (charged_state sample_1 10)) Active_runtime_ns = 20"
    using sample_1(9) amount_charged(1) [OF budget_invD(1) [OF sample_inv_1]]
    by (simp add: charged_state_def del: amount.simps)
  have f: "find_permit sample_1 ''p1'' = Some (sample_q 10)" "find_cancellation sample_1 ''p1'' = None"
    by (simp_all add: find_permit_def find_cancellation_def sample_1 sample_q_def)
  have b: "body_ok ?t"
    by (rule one_permit_body [OF sample_inv_1 sample_1(7,4)])
      (simp_all add: sample_q_ok expected_status_def, simp_all add: sample_q2_def sample_q_def sample_a_def)
  have ok: "durable_state_ok sample_1" using sample_inv_1 by (simp add: budget_inv_def)
  have t: "sample_1\<lparr>ds_active_permits := map (\<lambda>q. if pm_permit_id q = ''p1'' then sample_q2 else q) (ds_active_permits sample_1),
      ds_attempts := [sample_a\<lparr>at_status := A_STARTED\<rparr>], ds_usage := ds_usage (charged_state sample_1 10),
      ds_active_runtime_remaining_ns := ds_active_runtime_remaining_ns (charged_state sample_1 10)\<rparr> = ?t"
    by (rule durable_state.equality) (simp_all add: one_permit_def sample_1 sample_q_def)
  have up: "update_attempt (\<lambda>a. a\<lparr>at_status := A_STARTED\<rparr>) ''p1'' (ds_attempts sample_1) = Inr [sample_a\<lparr>at_status := A_STARTED\<rparr>]"
    using sample_q_ok(5) [of A_STARTED] by (simp add: update_attempt_def sample_1 build_def) (simp add: sample_a_def)
  have q: "(sample_q 10)\<lparr>pm_status := P_STARTED, pm_started_active_runtime_ns := Some (ra_active_runtime_ns
      (ds_usage (charged_state sample_1 10)))\<rparr> = sample_q2"
    using u by (simp add: sample_q2_def)
  have s: "op_successor (Start_op ''o3'' ''p1'') sample_1 10 =
      Inr (logged sample_1 ?t ''o3'' K_START (start_request ''p1'') (Some ''p1'') (json_of_permit sample_q2))"
    by (simp add: start_successor_def c f q up build_def sample_q_ok)
      (rule append_at, rule t, rule ok, use b sample_ids in \<open>simp_all add: sample_1 start_request_def\<close>)
  have eq: "sample_2 = logged sample_1 ?t ''o3'' K_START (start_request ''p1'') (Some ''p1'') (json_of_permit sample_q2)"
    by (simp only: s sample_2_def sum.sel)
  show "op_successor (Start_op ''o3'' ''p1'') sample_1 10 = Inr sample_2" by (simp only: s eq)
  show "ds_active_permits sample_2 = [sample_q2] \<and> ds_attempts sample_2 = [sample_a\<lparr>at_status := A_STARTED\<rparr>] \<and>
    ds_settlements sample_2 = [] \<and> ds_cancellations sample_2 = [] \<and> ds_failure_latch sample_2 = None \<and>
    ds_policy sample_2 = sample_policy \<and> map id_operation_id (ds_operations sample_2) = [''o1'', ''o2'', ''o3''] \<and>
    amount (ds_usage sample_2) Active_runtime_ns = 20"
    unfolding eq using u by (simp add: logged_def log_entry_def sample_1)
qed

lemma sample_charged:
  assumes "budget_inv s" and "amount (ds_usage s) Active_runtime_ns = k"
  shows "amount (ds_usage (charged_state s n)) Active_runtime_ns = k + n"
  using assms(2) amount_charged(1) [OF budget_invD(1) [OF assms(1)]]
  by (simp add: charged_state_def del: amount.simps)

lemma sample_inv_2: "budget_inv sample_2"
  by (rule op_budget_inv [OF sample_inv_1 sample_2(1)])

definition sample_c3 :: cancellation where
  "sample_c3 = \<lparr>ca_permit_id = ''p1'', ca_state = C_REQUESTED, ca_requested_operation_id = Some ''o4'',
     ca_evidence_sha256 = None, ca_worker_live = True, ca_observed_active_runtime_ns = 30\<rparr>"

definition sample_3 :: durable_state where
  "sample_3 = projr (op_successor (Request_cancel_op ''o4'' ''p1'') sample_2 10)"

lemma sample_3:
  "op_successor (Request_cancel_op ''o4'' ''p1'') sample_2 10 = Inr sample_3"
  "ds_active_permits sample_3 = [sample_q2] \<and> ds_attempts sample_3 = [sample_a\<lparr>at_status := A_STARTED\<rparr>] \<and>
    ds_settlements sample_3 = [] \<and> ds_cancellations sample_3 = [sample_c3] \<and> ds_failure_latch sample_3 = None \<and>
    ds_policy sample_3 = sample_policy \<and> map id_operation_id (ds_operations sample_3) = [''o1'', ''o2'', ''o3'', ''o4''] \<and>
    amount (ds_usage sample_3) Active_runtime_ns = 30"
proof -
  note s2 = sample_2(2) [THEN conjunct1] sample_2(2) [THEN conjunct2]
  let ?t = "one_permit sample_2 sample_q2 (sample_a\<lparr>at_status := A_STARTED\<rparr>) [sample_c3] None 10"
  have c: "charge_active_runtime sample_2 10 ''o4'' True = Inr (ds_usage (charged_state sample_2 10),
      ds_active_runtime_remaining_ns (charged_state sample_2 10))"
    by (rule sample_charge [OF sample_inv_2, where k = 20]) (use s2 in simp, use s2 in simp, simp_all)
  have u: "amount (ds_usage (charged_state sample_2 10)) Active_runtime_ns = 30"
    using sample_charged [OF sample_inv_2, of 20 10] s2 by simp
  have f: "''p1'' \<in> set (permit_ids sample_2)" "find_cancellation sample_2 ''p1'' = None"
    by (simp_all add: permit_ids_def find_cancellation_def s2 sample_q2_def)
  have cc: "cancellation_ok sample_c3"
    using sample_ids by (simp add: sample_c3_def cancellation_ok_def cancellation_evidence_is_conservative_def)
  have b: "body_ok ?t"
    by (rule one_permit_body [OF sample_inv_2])
      (use s2 cc in \<open>simp_all add: sample_q_ok expected_status_def\<close>, simp_all add: sample_q2_def sample_a_def sample_c3_def)
  have ok: "durable_state_ok sample_2" using sample_inv_2 by (simp add: budget_inv_def)
  have c3: "\<lparr>ca_permit_id = ''p1'', ca_state = C_REQUESTED, ca_requested_operation_id = Some ''o4'',
     ca_evidence_sha256 = None, ca_worker_live = True,
     ca_observed_active_runtime_ns = ra_active_runtime_ns (ds_usage (charged_state sample_2 10))\<rparr> = sample_c3"
    using u by (simp add: sample_c3_def)
  have t: "sample_2\<lparr>ds_cancellations := replace_cancellation sample_c3 (ds_cancellations sample_2),
      ds_usage := ds_usage (charged_state sample_2 10),
      ds_active_runtime_remaining_ns := ds_active_runtime_remaining_ns (charged_state sample_2 10)\<rparr> = ?t"
    by (rule durable_state.equality) (simp_all add: one_permit_def s2 replace_cancellation_def)
  have s: "op_successor (Request_cancel_op ''o4'' ''p1'') sample_2 10 =
      Inr (logged sample_2 ?t ''o4'' K_REQUEST_CANCEL (request_cancel_request ''p1'') (Some ''p1'') (json_of_cancellation sample_c3))"
    by (simp add: request_cancel_successor_def c f c3 build_def cc)
      (rule append_at, rule t, rule ok, use b sample_ids in \<open>simp_all add: s2 request_cancel_request_def\<close>)
  have eq: "sample_3 = logged sample_2 ?t ''o4'' K_REQUEST_CANCEL (request_cancel_request ''p1'') (Some ''p1'') (json_of_cancellation sample_c3)"
    by (simp only: s sample_3_def sum.sel)
  show "op_successor (Request_cancel_op ''o4'' ''p1'') sample_2 10 = Inr sample_3" by (simp only: s eq)
  show "ds_active_permits sample_3 = [sample_q2] \<and> ds_attempts sample_3 = [sample_a\<lparr>at_status := A_STARTED\<rparr>] \<and>
    ds_settlements sample_3 = [] \<and> ds_cancellations sample_3 = [sample_c3] \<and> ds_failure_latch sample_3 = None \<and>
    ds_policy sample_3 = sample_policy \<and> map id_operation_id (ds_operations sample_3) = [''o1'', ''o2'', ''o3'', ''o4''] \<and>
    amount (ds_usage sample_3) Active_runtime_ns = 30"
    unfolding eq using u by (simp add: logged_def log_entry_def s2)
qed

lemma sample_inv_3: "budget_inv sample_3"
  by (rule op_budget_inv [OF sample_inv_2 sample_3(1)])

definition sample_c4 :: cancellation where
  "sample_c4 = \<lparr>ca_permit_id = ''p1'', ca_state = C_EFFECT_UNKNOWN, ca_requested_operation_id = Some ''o4'',
     ca_evidence_sha256 = Some digest, ca_worker_live = False, ca_observed_active_runtime_ns = 40\<rparr>"

definition sample_a4 :: attempt where
  "sample_a4 = sample_a\<lparr>at_status := A_EFFECT_UNKNOWN, at_effect_evidence_sha256 := Some digest\<rparr>"

definition sample_latch :: durable_failure where
  "sample_latch = (plain_failure D_EFFECT_UNKNOWN ''o5'')\<lparr>df_reconciliation_required := True,
     df_effect_unknown := True, df_evidence_sha256 := Some digest\<rparr>"

definition sample_record :: budget_op where
  "sample_record = Record_cancel_op ''o5'' ''p1'' C_EFFECT_UNKNOWN (Some digest) False"

definition sample_4 :: durable_state where
  "sample_4 = projr (op_successor sample_record sample_3 10)"

lemma sample_4:
  "op_successor sample_record sample_3 10 = Inr sample_4"
  "ds_active_permits sample_4 = [sample_q2] \<and> ds_attempts sample_4 = [sample_a4] \<and>
    ds_settlements sample_4 = [] \<and> ds_cancellations sample_4 = [sample_c4] \<and> ds_failure_latch sample_4 = Some sample_latch \<and>
    ds_policy sample_4 = sample_policy \<and> map id_operation_id (ds_operations sample_4) = [''o1'', ''o2'', ''o3'', ''o4'', ''o5''] \<and>
    amount (ds_usage sample_4) Active_runtime_ns = 40"
proof -
  note s3 = sample_3(2) [THEN conjunct1] sample_3(2) [THEN conjunct2]
  let ?t = "one_permit sample_3 sample_q2 sample_a4 [sample_c4] (Some sample_latch) 10"
  have c: "charge_active_runtime sample_3 10 ''o5'' True = Inr (ds_usage (charged_state sample_3 10),
      ds_active_runtime_remaining_ns (charged_state sample_3 10))"
    by (rule sample_charge [OF sample_inv_3, where k = 30]) (use s3 in simp, use s3 in simp, simp_all)
  have u: "amount (ds_usage (charged_state sample_3 10)) Active_runtime_ns = 40"
    using sample_charged [OF sample_inv_3, of 30 10] s3 by simp
  have f: "find_cancellation sample_3 ''p1'' = Some sample_c3"
    by (simp add: find_cancellation_def s3) (simp add: sample_c3_def)
  have g: "cancellation_transition_allowed sample_c3 C_EFFECT_UNKNOWN (Some digest) False"
    by (simp add: cancellation_transition_allowed_def sample_c3_def)
  have cc: "cancellation_ok sample_c4"
    using sample_ids by (simp add: sample_c4_def cancellation_ok_def cancellation_evidence_is_conservative_def digest_def)
  have lo: "durable_failure_ok sample_latch"
    using sample_ids by (simp add: sample_latch_def plain_failure_def durable_failure_ok_def digest_def)
  have b: "body_ok ?t"
    by (rule one_permit_body [OF sample_inv_3])
      (use s3 cc lo sample_q_ok(4) [of A_EFFECT_UNKNOWN] in \<open>simp_all add: sample_q_ok expected_status_def sample_a4_def\<close>,
       simp_all add: sample_q2_def sample_a_def sample_c4_def)
  have ok: "durable_state_ok sample_3" using sample_inv_3 by (simp add: budget_inv_def)
  have c4: "\<lparr>ca_permit_id = ''p1'', ca_state = C_EFFECT_UNKNOWN, ca_requested_operation_id = ca_requested_operation_id sample_c3,
     ca_evidence_sha256 = Some digest, ca_worker_live = False,
     ca_observed_active_runtime_ns = ra_active_runtime_ns (ds_usage (charged_state sample_3 10))\<rparr> = sample_c4"
    using u by (simp add: sample_c3_def sample_c4_def)
  have e: "record_effects sample_3 ''p1'' C_EFFECT_UNKNOWN (Some digest) ''o5'' = Inr (Some sample_latch, [sample_a4])"
    using lo sample_q_ok(4) [of A_EFFECT_UNKNOWN]
    by (simp add: record_effects_def record_latch_def s3 build_def update_attempt_def sample_latch_def [symmetric]
        sample_a4_def) (simp add: sample_a_def)
  have t: "sample_3\<lparr>ds_cancellations := replace_cancellation sample_c4 (ds_cancellations sample_3),
      ds_failure_latch := Some sample_latch, ds_attempts := [sample_a4],
      ds_usage := ds_usage (charged_state sample_3 10),
      ds_active_runtime_remaining_ns := ds_active_runtime_remaining_ns (charged_state sample_3 10)\<rparr> = ?t"
    by (rule durable_state.equality) (simp_all add: one_permit_def s3 replace_cancellation_def, simp add: sample_c3_def sample_c4_def)
  let ?req = "record_cancel_request ''p1'' C_EFFECT_UNKNOWN (Some digest) False"
  have s: "op_successor sample_record sample_3 10 =
      Inr (logged sample_3 ?t ''o5'' K_ACKNOWLEDGE_CANCEL ?req (Some ''p1'') (json_of_cancellation sample_c4))"
    by (simp add: sample_record_def record_cancel_successor_def c f g e c4 build_def cc)
      (rule append_at, rule t, rule ok, use b sample_ids in \<open>simp_all add: s3 record_cancel_request_def\<close>)
  have eq: "sample_4 = logged sample_3 ?t ''o5'' K_ACKNOWLEDGE_CANCEL ?req (Some ''p1'') (json_of_cancellation sample_c4)"
    by (simp only: s sample_4_def sum.sel)
  show "op_successor sample_record sample_3 10 = Inr sample_4" by (simp only: s eq)
  show "ds_active_permits sample_4 = [sample_q2] \<and> ds_attempts sample_4 = [sample_a4] \<and>
    ds_settlements sample_4 = [] \<and> ds_cancellations sample_4 = [sample_c4] \<and> ds_failure_latch sample_4 = Some sample_latch \<and>
    ds_policy sample_4 = sample_policy \<and> map id_operation_id (ds_operations sample_4) = [''o1'', ''o2'', ''o3'', ''o4'', ''o5''] \<and>
    amount (ds_usage sample_4) Active_runtime_ns = 40"
    unfolding eq using u by (simp add: logged_def log_entry_def s3)
qed

lemma sample_inv_4: "budget_inv sample_4"
  by (rule op_budget_inv [OF sample_inv_3 sample_4(1)])

section \<open>Settling the permit\<close>

definition sample_actual :: resource_amounts where
  "sample_actual = amounts_of ((\<lambda>_. 0)(Provider_attempts := 1, Provider_output_bytes := 2048, Concurrency_slots := 1))"

definition sample_settle :: "settlement_status \<Rightarrow> settle_args" where
  "sample_settle st = \<lparr>sa_settlement_id = ''s1'', sa_permit_id = ''p1'', sa_actual = sample_actual, sa_status = st,
     sa_result_sha256 = Some digest, sa_effect_evidence_sha256 = Some digest,
     sa_cancellation_evidence_sha256 = None, sa_failure_category = None, sa_tool_evidence = None,
     sa_external_cost_actual_authenticated = False, sa_observed_peak_concurrency = None\<rparr>"

lemma sample_settle_simps [simp]:
  "sa_settlement_id (sample_settle st) = ''s1''" "sa_permit_id (sample_settle st) = ''p1''"
  "sa_actual (sample_settle st) = sample_actual" "sa_status (sample_settle st) = st"
  "sa_result_sha256 (sample_settle st) = Some digest" "sa_effect_evidence_sha256 (sample_settle st) = Some digest"
  "sa_cancellation_evidence_sha256 (sample_settle st) = None" "sa_failure_category (sample_settle st) = None"
  "sa_tool_evidence (sample_settle st) = None" "sa_external_cost_actual_authenticated (sample_settle st) = False"
  "sa_observed_peak_concurrency (sample_settle st) = None"
  by (simp_all add: sample_settle_def)

lemma sample_settled:
  assumes inv: "budget_inv s" and s: "ds_active_permits s = [sample_q2]" "ds_attempts s = [a]" "ds_settlements s = []"
      "ds_policy s = sample_policy" "amount (ds_usage s) Active_runtime_ns = k" and k: "20 \<le> k" "k \<le> 100"
    and cs: "set (map ca_permit_id (ds_cancellations s)) \<subseteq> {''p1''}"
    and a: "attempt_ok a" "at_permit_id a = ''p1''" "at_lineage a = sample_lineage"
    and op: "valid_identifier op" "op \<notin> set (map id_operation_id (ds_operations s))"
    and g: "settle_guards s (sample_settle st) op = Inr sample_q2" and st: "st \<notin> {S_OVERRUN, S_RELEASED_NO_EFFECT}"
    and latch: "settle_latch (ds_failure_latch s) st sample_request (sample_actual\<lparr>ra_active_runtime_ns := k\<rparr>)
        (sample_settle st) op = Inr latch" "pred_option durable_failure_ok latch"
  shows "\<exists>s' t. op_successor (Settle_op op (sample_settle st)) s 10 = Inr s' \<and> ds_settlements s' = [t] \<and>
    st_status t = st \<and> st_actual t = sample_actual\<lparr>ra_active_runtime_ns := k\<rparr> \<and> ds_failure_latch s' = latch \<and>
    ds_active_permits s' = []"
proof -
  let ?x = "sample_settle st" and ?u = "ds_usage (charged_state s 10)" and ?n = "ds_active_runtime_remaining_ns (charged_state s 10)"
  let ?act = "sample_actual\<lparr>ra_active_runtime_ns := k\<rparr>"
  have amt: "amount ?act r = (if r = Active_runtime_ns then k else amount sample_actual r)" for r
    by (cases r) simp_all
  have c: "charge_active_runtime s 10 op True = Inr (?u, ?n)"
    by (rule sample_charge [OF inv s(4,5)]) (use k in simp_all)
  have uk: "ra_active_runtime_ns ?u = k + 10" using sample_charged [OF inv s(5), of 10] by simp
  have q: "rv_requested (pm_reservation sample_q2) = sample_request"
    by (simp add: sample_q2_def) (simp add: sample_reservation_def)
  have sa: "settled_actual ?x sample_q2 ?u = ?act"
    using uk by (simp add: settled_actual_def) (simp add: sample_q2_def sample_q_def)
  have actual: "amount sample_actual r = (if r \<in> {Provider_attempts, Concurrency_slots} then 1
      else if r = Provider_output_bytes then 2048 else 0)" for r
    by (simp add: sample_actual_def del: amount.simps)
  have aok: "resource_amounts_ok ?act" using k by (simp add: resource_amounts_ok_iff amt actual del: amount.simps)
  have le: "amount ?act r \<le> amount sample_request r" for r
    using k by (simp add: amt actual sample_request_def del: amount.simps)
  then have no: "\<not> overran sample_request ?act" by (simp add: overran_def not_less)
  define t where "t = \<lparr>st_settlement_id = ''s1'', st_permit_id = ''p1'', st_operation_id = op,
        st_operation_request_sha256 = settle_request ?x, st_reserved = sample_request, st_actual = ?act,
        st_released = fst (released_amounts sample_request ?act), st_status = st, st_result_sha256 = Some digest,
        st_effect_evidence_sha256 = Some digest, st_cancellation_evidence_sha256 = None,
        st_deterministic_tool_evidence = None, st_settled_active_runtime_ns = k + 10\<rparr>"
  have rel: "amount (fst (released_amounts sample_request ?act)) r = amount sample_request r - amount ?act r" for r
    using le [of r] by (simp add: released_amounts_def not_less del: amount.simps)
  then have "resource_amounts_ok (fst (released_amounts sample_request ?act))"
    using le by (simp add: resource_amounts_ok_iff del: amount.simps)
  moreover have "release_is_exact t"
    using le st no unfolding release_is_exact_def
    by (simp add: t_def rel list_all_iff list_ex_iff overran_def del: amount.simps)
  ultimately have tok: "settlement_ok t"
    using aok op(1) k sample_ids sample_request_ok
    by (simp add: settlement_ok_def t_def settle_request_def digest_def)
  have U: "durable_usage_ok ?u" using charged_usage_ok [OF budget_invD(1) [OF inv]] by (simp add: charged_state_def)
  have body: "body_ok s" using inv by (simp add: budget_inv_def body_okI)
  have peak: "du_peak_concurrency ?u \<le> 2"
    using body_okD(9) [OF body] amount_charged(2) [OF budget_invD(1) [OF inv]]
    by (simp add: concurrency_ok_def s sample_policy_def charged_state_def)
  define usage where "usage = apply_actual_values ?u (sample_actual\<lparr>ra_active_runtime_ns := 0\<rparr>)"
  have uu: "amount usage Active_runtime_ns = k + 10"
    unfolding usage_def apply_actual_values_def usage_of_simps amount_no_runtime using uk by (simp add: CUMULATIVE_def)
  have pk: "du_peak_concurrency usage = max (du_peak_concurrency ?u) 1"
    unfolding usage_def apply_actual_values_def usage_of_simps amount_no_runtime actual by simp
  have "0 \<le> amount ?u r" for r using U by (simp add: durable_usage_ok_def resource_amounts_ok_iff)
  then have "0 \<le> amount usage r" for r
    unfolding usage_def apply_actual_values_def usage_of_simps amount_no_runtime actual
    by (simp add: CUMULATIVE_def le_max_iff_disj del: amount.simps)
  then have usage: "durable_usage_ok usage"
    using peak U by (simp add: durable_usage_ok_def resource_amounts_ok_iff pk del: amount.simps)
  let ?a = "settled_attempt ?x st a"
  have a': "attempt_ok ?a" "at_permit_id ?a = ''p1''" "at_lineage ?a = sample_lineage"
      "at_status ?a = settlement_attempt_status st"
    using a by (simp_all add: settled_attempt_def attempt_ok_def digest_def)
  then have up: "update_attempt (settled_attempt ?x st) ''p1'' (ds_attempts s) = Inr [?a]"
    using a(2) by (simp add: update_attempt_def s build_def)
  then have up': "update_attempt (\<lambda>a. a\<lparr>at_status := settlement_attempt_status st, at_failure_category := None,
      at_effect_evidence_sha256 := Some digest\<rparr>) ''p1'' (ds_attempts s) = Inr [?a]"
    using settled_attempt_eta [where x = ?x and eff = st] by simp
  have r10: "pm_reserved_active_runtime_ns sample_q2 = 10" by (simp add: sample_q2_def sample_q_def)
  let ?t = "close_permit t [?a] usage ?n latch s"
  have lin: "li_parent_attempt_id sample_lineage = None" by (simp add: sample_lineage_def)
  have tp: "st_permit_id t = ''p1''" "st_settlement_id t = ''s1''" "st_status t = st" by (simp_all add: t_def)
  have none: "ds_active_permits ?t = []" using s(1) tp by (simp add: sample_q2_def)
  have b: "body_ok ?t"
    using body a' tok usage latch(2) lin peak pk uu s none tp cs
    by (simp add: body_ok_def permit_ids_def settled_permits_def lineage_table_ok_def lineages_def permits_partitioned_def
        attempt_statuses_ok_def attempt_of_def concurrency_ok_def retry_parent_ok_def set_default_def)
      (simp add: close_permit_def charged_state_def uu sample_policy_def)
  have ok: "durable_state_ok s" using inv by (simp add: budget_inv_def)
  have "append_operation s op K_SETTLE (settle_request ?x) (Some ''s1'') (json_of_settlement t)
      (close_permit t [?a] usage ?n latch) = Inr (logged s ?t op K_SETTLE (settle_request ?x) (Some ''s1'') (json_of_settlement t))"
    by (rule append_at [OF _ ok]) (use op b sample_ids in \<open>simp_all add: settle_request_def\<close>)
  then have "op_successor (Settle_op op ?x) s 10 =
      Inr (logged s ?t op K_SETTLE (settle_request ?x) (Some ''s1'') (json_of_settlement t))"
    using aok tok usage latch(1) up' uk
    by (simp add: settle_successor_def g c Let_def split_beta released_overrun q no build_def apply_actual_def
        r10 t_def [symmetric] usage_def [symmetric])
  moreover have "ds_settlements ?t = [t]" using s by simp
  ultimately show ?thesis using none tp by (auto simp: logged_def t_def)
qed

text \<open>The permit settled after a successful attempt, and after its effect became unknown.\<close>

lemma sample_settle_ok:
  "\<exists>s' t. op_successor (Settle_op ''o4'' (sample_settle S_SUCCEEDED)) sample_2 10 = Inr s' \<and> ds_settlements s' = [t] \<and>
    st_status t = S_SUCCEEDED \<and> st_actual t = sample_actual\<lparr>ra_active_runtime_ns := 20\<rparr> \<and> ds_failure_latch s' = None \<and>
    ds_active_permits s' = []"
proof -
  note s2 = sample_2(2) [THEN conjunct1] sample_2(2) [THEN conjunct2]
  have "settle_guards sample_2 (sample_settle S_SUCCEEDED) ''o4'' = Inr sample_q2"
    by (simp add: settle_guards_def settle_cancellation_guard_def find_permit_def find_cancellation_def s2)
      (simp add: sample_q2_def, simp add: sample_reservation_def sample_actual_def amounts_of_def)
  then show ?thesis
    using s2 sample_ids sample_q_ok(5) [of A_STARTED]
    by (intro sample_settled [OF sample_inv_2, where a = "sample_a\<lparr>at_status := A_STARTED\<rparr>"])
      (simp_all add: settle_latch_def, simp_all add: sample_a_def)
qed

lemma sample_settle_unknown:
  "\<exists>s' t. op_successor (Settle_op ''o6'' (sample_settle S_EFFECT_UNKNOWN)) sample_4 10 = Inr s' \<and> ds_settlements s' = [t] \<and>
    st_status t = S_EFFECT_UNKNOWN \<and> st_actual t = sample_actual\<lparr>ra_active_runtime_ns := 40\<rparr> \<and>
    ds_failure_latch s' = Some sample_latch \<and> ds_active_permits s' = []"
proof -
  note s4 = sample_4(2) [THEN conjunct1] sample_4(2) [THEN conjunct2]
  have "settle_guards sample_4 (sample_settle S_EFFECT_UNKNOWN) ''o6'' = Inr sample_q2"
    by (simp add: settle_guards_def settle_cancellation_guard_def find_permit_def find_cancellation_def s4)
      (simp add: sample_q2_def sample_c4_def, simp add: sample_reservation_def sample_actual_def amounts_of_def)
  moreover have "durable_failure_ok sample_latch"
    using sample_inv_4 s4 by (simp add: budget_inv_def durable_state_ok_def)
  ultimately show ?thesis
    using s4 sample_ids sample_q_ok(4) [of A_EFFECT_UNKNOWN]
    by (intro sample_settled [OF sample_inv_4, where a = sample_a4])
      (simp_all add: settle_latch_def sample_a4_def, simp_all add: sample_a_def sample_c4_def)
qed

end
