(* ===== verification/DurableProps.thy ===== *)
theory DurableProps
  imports DurableSample
begin

text \<open>
  The properties of the durable budget store as a whole: what holds of every run, whichever
  operations it consists of and whichever of them are refused.
\<close>

section \<open>Runs can be reloaded\<close>

text \<open>C16.  Whatever sequence of operations a run accepts, the history it leaves passes every check
  \<open>load\<close> makes: each state is valid, generations and run id agree, and each state is an allowed
  successor of the one before.  The one exception is excluded by \<open>reloadable\<close>: a settlement that
  reports an unknown effect without a failure category.\<close>

theorem run_always_reloads:
  assumes "initial_state run_id policy operation_id = Inr s0"
    and "list_all (\<lambda>ce. reloadable (fst ce)) cs"
    and "foldE (run_step op_successor) [s0] cs = Inr hist"
  shows "history_ok run_id (revisions hist)"
  using budget.run_reloads [OF assms(2,3)] initial_state_inv(1,2) [OF assms(1)] by simp

definition sample_calls :: "(budget_op \<times> int) list" where
  "sample_calls = [(sample_reserve, 10), (Start_op ''o3'' ''p1'', 10), (Request_cancel_op ''o4'' ''p1'', 10),
     (sample_record, 10)]"

lemma sample_history: "foldE (run_step op_successor) [sample_0] sample_calls =
    Inr [sample_4, sample_3, sample_2, sample_1, sample_0]"
  using sample_1(1) sample_2(1) sample_3(1) sample_4(1)
  by (simp add: sample_calls_def run_step_def del: op_successor.simps)

lemma sample_reloadable: "list_all (\<lambda>ce. reloadable (fst ce)) sample_calls"
  by (simp add: sample_calls_def sample_reserve_def sample_record_def)

lemma run_always_reloads_witness:
  "history_ok ''run'' (revisions [sample_4, sample_3, sample_2, sample_1, sample_0])"
  by (rule run_always_reloads [OF sample_0(1) sample_reloadable sample_history])

text \<open>C17.  The exception of the previous property is real.  When the effect of an attempt is already
  recorded as unknown, settling it as \<open>effect_unknown\<close> with the same evidence and no failure
  category is accepted and changes nothing in the attempt record; the successor check demands
  such a change, so no history that ends in the new state is ever accepted by \<open>load\<close> again.\<close>

theorem unknown_settlement_blocks_run:
  assumes inv: "budget_inv s" and st: "op_successor (Settle_op operation_id x) s elapsed = Inr s'"
    and x: "sa_status x = S_EFFECT_UNKNOWN" "sa_failure_category x = None"
    and a: "a \<in> set (ds_attempts s)" "at_permit_id a = sa_permit_id x" "at_status a = A_EFFECT_UNKNOWN"
      "at_effect_evidence_sha256 a = sa_effect_evidence_sha256 x" "at_failure_category a = None"
    and eff: "st_status (last (ds_settlements s')) = S_EFFECT_UNKNOWN"
  shows "\<not> history_ok run_id ((n, s') # (m, s) # older)"
proof -
  have settle: "settle_successor operation_id x s elapsed = Inr s'" using st by simp
  obtain e where "budget_inv s'" "e \<in> {S_OVERRUN, sa_status x}" "validate_state_successor s s' \<longleftrightarrow>
      (\<exists>b\<in>set (ds_attempts s). at_permit_id b = sa_permit_id x \<and> settled_attempt x e b \<noteq> b)"
    "st_status (last (ds_settlements s')) = e" "forward_step s s'"
    by (rule settle_step [OF inv settle])
  moreover have "settled_attempt x S_EFFECT_UNKNOWN a = a"
    using x a by (cases a) (simp add: settled_attempt_def)
  moreover have "b = a" if "b \<in> set (ds_attempts s)" "at_permit_id b = sa_permit_id x" for b
    using distinct_map_eq [OF budget_invD(4) [OF inv] that(1) a(1)] that(2) a(2) by simp
  ultimately have "\<not> validate_state_successor s s'" using eff by auto
  then show ?thesis by (simp add: history_ok_def)
qed

lemma unknown_settlement_blocks_run_witness:
  "\<exists>s'. foldE (run_step op_successor) [sample_0] (sample_calls @ [(Settle_op ''o6'' (sample_settle S_EFFECT_UNKNOWN), 10)])
      = Inr [s', sample_4, sample_3, sample_2, sample_1, sample_0] \<and>
    \<not> history_ok ''run'' (revisions [s', sample_4, sample_3, sample_2, sample_1, sample_0])"
proof -
  note s4 = sample_4(2) [THEN conjunct1] sample_4(2) [THEN conjunct2]
  obtain s' t where s': "op_successor (Settle_op ''o6'' (sample_settle S_EFFECT_UNKNOWN)) sample_4 10 = Inr s'"
      "ds_settlements s' = [t]" "st_status t = S_EFFECT_UNKNOWN"
    using sample_settle_unknown by blast
  have "\<not> history_ok ''run'' ((ds_generation s', s') # (ds_generation sample_4, sample_4) #
      revisions [sample_3, sample_2, sample_1, sample_0])"
    by (rule unknown_settlement_blocks_run [OF sample_inv_4 s'(1), where a = sample_a4])
      (simp_all add: s' s4, simp_all add: sample_a4_def sample_a_def)
  then have "\<not> history_ok ''run'' (revisions [s', sample_4, sample_3, sample_2, sample_1, sample_0])"
    by (simp add: revisions_def)
  moreover have "foldE (run_step op_successor) [sample_0] (sample_calls @ [(Settle_op ''o6'' (sample_settle S_EFFECT_UNKNOWN), 10)])
      = Inr [s', sample_4, sample_3, sample_2, sample_1, sample_0]"
    using s'(1) by (simp add: foldE_append sample_history run_step_def del: op_successor.simps)
  ultimately show ?thesis by blast
qed

section \<open>Money, bytes and attempts\<close>

text \<open>C18.  No run ever commits more than its policy allows: as long as no failure is latched, for
  every resource that is summed, usage plus everything reserved by open permits is within the
  limit; for every resource that is a maximum, usage and each open request are; and the open
  permits are at most \<open>max_concurrent_agents\<close>.  (Active runtime is charged as it passes, so an
  operation that only closes or cancels may exceed it.)\<close>

theorem budget_never_overspent:
  assumes "initial_state run_id policy operation_id = Inr s0" and s: "s = fold apply_op cs s0"
    and latch: "ds_failure_latch s = None"
  shows "\<forall>r. r \<noteq> Active_runtime_ns \<longrightarrow>
    (if r = Concurrency_slots then int (length (ds_active_permits s)) \<le> reservation_limit s r
     else if r \<in> CUMULATIVE then
       amount (ds_usage s) r + reserved_total (ds_active_permits s) r \<le> reservation_limit s r
     else amount (ds_usage s) r \<le> reservation_limit s r \<and>
       (\<forall>q\<in>set (ds_active_permits s). amount (rv_requested (pm_reservation q)) r \<le> reservation_limit s r))"
proof -
  have "account_inv s0" using initial_state_inv [OF assms(1)] by (simp add: account_inv_def)
  then have "account_inv s" unfolding s by (intro books.calls_inv) (simp_all add: list_all_iff)
  then have "commitments_fit s" using latch by (simp add: account_inv_def)
  then show ?thesis using commitments_fitD [of s, unfolded fits_at_def tighten_limit_eq] by blast
qed

lemma sample_fold: "fold apply_op (take 2 sample_calls) sample_0 = sample_2"
  using sample_1(1) sample_2(1) by (simp add: sample_calls_def apply_op_def del: op_successor.simps)

lemma budget_never_overspent_witness:
  "amount (ds_usage sample_2) Provider_attempts + reserved_total (ds_active_permits sample_2) Provider_attempts
     \<le> reservation_limit sample_2 Provider_attempts \<and> reserved_total (ds_active_permits sample_2) Provider_attempts = 1"
proof -
  note s2 = sample_2(2) [THEN conjunct1] sample_2(2) [THEN conjunct2]
  have "reserved_total (ds_active_permits sample_2) Provider_attempts = 1"
    by (simp add: reserved_total_def s2) (simp add: sample_q2_def, simp add: sample_reservation_def sample_request_def amounts_of_def)
  moreover have "ds_failure_latch sample_2 = None" using s2 by simp
  ultimately show ?thesis
    using budget_never_overspent [OF sample_0(1) sample_fold [symmetric], THEN spec, of Provider_attempts]
    by (simp add: CUMULATIVE_def)
qed

text \<open>C19.  The books balance: whichever operations a run accepts, the recorded usage of every
  resource is exactly the sum (or, for the per-call resources, the largest) of what its settlements
  report as actually used, and the active runtime is exactly the sum of the elapsed times of the
  accepted calls.\<close>

theorem books_always_balance:
  assumes "initial_state run_id policy operation_id = Inr s0"
    and run: "foldE (\<lambda>s ce. op_successor (fst ce) s (snd ce)) s0 cs = Inr s"
  shows "(\<forall>r. r \<noteq> Active_runtime_ns \<and> r \<noteq> Concurrency_slots \<longrightarrow>
      amount (ds_usage s) r =
        (if r \<in> CUMULATIVE then \<Sum>t\<leftarrow>ds_settlements s. amount (st_actual t) r
         else fold max (map (\<lambda>t. amount (st_actual t) r) (ds_settlements s)) 0)) \<and>
    amount (ds_usage s) Active_runtime_ns = (\<Sum>ce\<leftarrow>cs. snd ce)"
proof -
  have inv: "account_inv s0" using initial_state_inv [OF assms(1)] by (simp add: account_inv_def)
  have "books_balance s" using book_runs.steps_inv [OF inv run] by (simp add: account_inv_def)
  moreover have "amount (ds_usage s) Active_runtime_ns = amount (ds_usage s0) Active_runtime_ns + (\<Sum>ce\<leftarrow>cs. snd ce)"
    using run inv by (rule runtime_total)
  ultimately show ?thesis
    using initial_state_inv(7) [OF assms(1), of Active_runtime_ns] by (simp add: books_balance_def del: amount.simps)
qed

lemma books_always_balance_witness:
  "\<exists>s t. foldE (\<lambda>s ce. op_successor (fst ce) s (snd ce)) sample_0 [(sample_reserve, 10), (Start_op ''o3'' ''p1'', 10),
      (Settle_op ''o4'' (sample_settle S_SUCCEEDED), 10)] = Inr s \<and> ds_settlements s = [t] \<and>
    amount (ds_usage s) Provider_attempts = 1 \<and> amount (ds_usage s) Active_runtime_ns = 30"
proof -
  obtain s t where s: "op_successor (Settle_op ''o4'' (sample_settle S_SUCCEEDED)) sample_2 10 = Inr s"
      "ds_settlements s = [t]" "st_actual t = sample_actual\<lparr>ra_active_runtime_ns := 20\<rparr>"
    using sample_settle_ok by blast
  then have run: "foldE (\<lambda>s ce. op_successor (fst ce) s (snd ce)) sample_0 [(sample_reserve, 10),
      (Start_op ''o3'' ''p1'', 10), (Settle_op ''o4'' (sample_settle S_SUCCEEDED), 10)] = Inr s"
    using sample_1(1) sample_2(1) by (simp del: op_successor.simps)
  have "amount (st_actual t) Provider_attempts = 1" by (simp add: s sample_actual_def amounts_of_def)
  then show ?thesis
    using run s(2) books_always_balance [OF sample_0(1) run]
    by (intro exI [of _ s] exI [of _ t]) (auto simp: CUMULATIVE_def simp del: amount.simps)
qed

section \<open>Reservations\<close>

text \<open>C20.  What \<open>reserve\<close> decides, given the following: a state that satisfies the invariant of
  runs, valid identifiers for operation and permit, a reservation and a lineage that pass their
  model validators (\<open>reserve_args_ok\<close>; a malformed permit id does escape as a \<open>ValidationError\<close>),
  an operation id not used before (a used one is replayed before this point), and a clock
  that did not go back.  It then succeeds exactly when the expected hashes match, no failure is
  latched, runtime is left after the elapsed time is charged, the request hash binds the request,
  every demand fits its limit, the lineage follows the retry rules and the permit name is new.
  In every other case it raises one of six typed budget errors that name the operation, and no
  \<open>ValidationError\<close>.\<close>

theorem reserve_decides:
  assumes "budget_inv s" and "reserve_args_ok operation_id p rv l" and "0 \<le> elapsed"
    and "find_operation s operation_id = None"
  shows "if binding_matches s ep ea \<and> ds_failure_latch s = None \<and>
      ra_active_runtime_ns (ds_usage s) + elapsed < runtime_limit_ns (dp_base_policy (ds_policy s)) \<and>
      rv_request_sha256 rv = reservation_request_sha256 (rv_reservation_id rv) (rv_requested rv)
        (rv_execution_class rv) (rv_external_cost_estimate_authenticated rv) \<and>
      (\<forall>r. demand_after s rv elapsed r \<le> reservation_limit s r) \<and>
      lineage_admissible s l \<and> p \<notin> set (permit_ids s) \<union> set (settled_permits s)
    then \<exists>s'. reserve_successor operation_id p rv l ep ea s elapsed = Inr s'
    else \<exists>err. reserve_successor operation_id p rv l ep ea s elapsed = Inl err \<and>
      typed_error operation_id {D_INVALID_INPUT, D_DEADLINE_EXCEEDED, D_FAILURE_LATCHED, D_BUDGET_EXCEEDED,
        D_CONCURRENCY_EXCEEDED, D_IDEMPOTENCY_CONFLICT} err"
  using reserve_cases [OF assms, of ep ea]
  unfolding reserve_admissible_def reservation_admissible_def by (simp only: conj_assoc)

lemma sample_fresh_2: "find_operation sample_1 ''o3'' = None"
  unfolding fresh_iff sample_1 by simp

lemma reserve_decides_witness:
  "\<exists>err. reserve_successor ''o3'' ''p1'' sample_reservation sample_lineage None None sample_1 10 = Inl err \<and>
    typed_error ''o3'' {D_INVALID_INPUT, D_DEADLINE_EXCEEDED, D_FAILURE_LATCHED, D_BUDGET_EXCEEDED,
        D_CONCURRENCY_EXCEEDED, D_IDEMPOTENCY_CONFLICT} err"
proof -
  have args: "reserve_args_ok ''o3'' ''p1'' sample_reservation sample_lineage"
    using sample_ids by (simp add: reserve_args_ok_def sample_reservation_ok sample_lineage_ok)
  have "''p1'' \<in> set (permit_ids sample_1)" by (simp add: permit_ids_def sample_1)
  then show ?thesis
    using reserve_decides [OF sample_inv_1 args _ sample_fresh_2, of 10 None None] by auto
qed

text \<open>C21.  The two dictionaries \<open>validate_snapshot\<close> fills while it scans the attempts decide
  exactly this: every retry names a recorded attempt as its parent, in the context it claims and
  with the same stable fields, and root attempts and execution ordinals correspond one to one.\<close>

theorem lineage_scan_decides:
  assumes "distinct (map li_attempt_id (lineages s))"
  shows "lineage_table_ok s \<longleftrightarrow>
    (\<forall>l\<in>set (lineages s). \<forall>parent. li_parent_attempt_id l = Some parent \<longrightarrow>
       (\<exists>m\<in>set (lineages s). li_attempt_id m = parent \<and> Some (li_context_id m) = li_parent_context_id l \<and>
          same_stable_fields l m)) \<and>
    (\<forall>l\<in>set (lineages s). \<forall>m\<in>set (lineages s).
       li_root_attempt_id l = li_root_attempt_id m \<longleftrightarrow> li_execution_ordinal l = li_execution_ordinal m)"
  unfolding lineage_table_iff retry_parent_iff [OF assms] ordinals_agree_def
  by (simp split: option.split)

lemma lineage_scan_decides_witness:
  "lineage_table_ok sample_1 \<and> lineages sample_1 = [sample_lineage]"
proof -
  have "lineages sample_1 = [sample_lineage]" by (simp add: lineages_def sample_1 sample_a_def)
  then show ?thesis using lineage_scan_decides [of sample_1] by (simp add: sample_lineage_def)
qed

section \<open>What never changes back\<close>

text \<open>C22.  A run only moves forward: from the state \<open>create\<close> makes, whatever operations are tried
  and whichever of them are refused, between any two points the operation log and the settlements
  have only been appended to, a latched failure is still the same, the policy has only been
  tightened, the run id is kept and the generation has not gone down.\<close>

theorem durable_state_only_grows:
  assumes "initial_state run_id policy operation_id = Inr s0"
  shows "state_grows (fold apply_op before s0) (fold apply_op (before @ after) s0)"
proof -
  have "budget_inv (fold apply_op before s0)"
    using durable.calls_inv [of before s0] initial_state_inv(1) [OF assms] by (simp add: list_all_iff)
  then show ?thesis using durable.calls_grow [of after] by (simp add: list_all_iff)
qed

lemma sample_fold_all: "fold apply_op sample_calls sample_0 = sample_4"
  using sample_1(1) sample_2(1) sample_3(1) sample_4(1) by (simp add: sample_calls_def apply_op_def del: op_successor.simps)

lemma durable_state_only_grows_witness:
  "state_grows sample_2 sample_4 \<and> ds_failure_latch sample_4 \<noteq> ds_failure_latch sample_2"
proof -
  have "state_grows (fold apply_op (take 2 sample_calls) sample_0)
      (fold apply_op (take 2 sample_calls @ drop 2 sample_calls) sample_0)"
    by (rule durable_state_only_grows [OF sample_0(1)])
  then show ?thesis using sample_2(2) sample_4(2) by (simp only: append_take_drop_id sample_fold sample_fold_all) simp
qed

end
