(* ===== verification/JsonParse.thy ===== *)
theory JsonParse
  imports Json
begin

text \<open>
  Reading canonical JSON back (\<open>storage/revision_canonical.py\<close>, \<open>parse_canonical_json\<close>):
  UTF-8 decoding, the scanner of \<open>json.loads\<close> and the check that the text is the
  canonical one of the value it denotes.  Characters are the code points below 256 and a number
  with a fraction or an exponent is rejected: a storage control record holds neither, so
  both are errors of its schema anyway.  The scanner takes fuel, and \<open>loads\<close> gives it one unit
  per character and one more; \<open>parse_dumps\<close> shows this is enough for every canonical text.
\<close>

section \<open>UTF-8\<close>

fun utf8_decode :: "byte list \<Rightarrow> string option" where
  "utf8_decode [] = Some []"
| "utf8_decode (b # bs) =
     (if unat b < 128 then map_option ((#) (char_of (unat b))) (utf8_decode bs)
      else (case bs of
        c # cs \<Rightarrow>
          if unat b \<in> {194, 195} \<and> 128 \<le> unat c \<and> unat c < 192
          then map_option ((#) (char_of ((unat b - 192) * 64 + (unat c - 128)))) (utf8_decode cs)
          else None
      | [] \<Rightarrow> None))"

lemma utf8_Cons: "utf8 (c # s) = utf8 [c] @ utf8 s"
  by (simp add: utf8_def)

lemma utf8_decode_char: "utf8_decode (utf8 [c] @ bs) = map_option ((#) c) (utf8_decode bs)"
proof -
  define n where "n = (of_char c :: nat)"
  have c: "c = char_of n" by (simp add: n_def)
  have n: "n < 256" unfolding n_def by simp
  show ?thesis
  proof (cases "n < 128")
    case True
    then show ?thesis by (simp add: utf8_def n_def [symmetric] unat_of_nat c)
  next
    case False
    have b: "unat (word_of_nat (192 + n div 64) :: byte) = 192 + n div 64"
      using n by (simp only: unat_of_nat) simp
    have d: "unat (word_of_nat (128 + n mod 64) :: byte) = 128 + n mod 64"
      using n by (simp only: unat_of_nat) simp
    have hi: "n div 64 \<in> {2, 3}" using n False by auto
    have whole: "n div 64 * 64 + n mod 64 = n" by simp
    from False hi n show ?thesis
      by (auto simp: utf8_def n_def [symmetric] b d c Let_def simp del: of_nat_add of_nat_mult)
  qed
qed

lemma utf8_decode_utf8 [simp]: "utf8_decode (utf8 s) = Some s"
proof (induction s)
  case Nil
  then show ?case by (simp add: utf8_def)
next
  case (Cons c s)
  then show ?case by (subst utf8_Cons) (simp only: utf8_decode_char Cons.IH option.map)
qed

lemma utf8_inject [simp]: "utf8 s = utf8 t \<longleftrightarrow> s = t"
  using utf8_decode_utf8 [of s] utf8_decode_utf8 [of t] by (metis option.inject)

section \<open>Tokens\<close>

definition json_space :: "char \<Rightarrow> bool" where
  "json_space c \<longleftrightarrow> c \<in> {CHR '' '', CHR 0x09, CHR 0x0A, CHR 0x0D}"

definition skip_space :: "string \<Rightarrow> string" where "skip_space = dropWhile json_space"

definition hex_value :: "char \<Rightarrow> nat option" where
  "hex_value c =
     (let n = of_char c :: nat in
      if 48 \<le> n \<and> n < 58 then Some (n - 48)
      else if 97 \<le> n \<and> n < 103 then Some (n - 87)
      else if 65 \<le> n \<and> n < 71 then Some (n - 55) else None)"

definition unescape :: "char \<Rightarrow> char option" where
  "unescape c =
     (if c \<in> {CHR 0x22, CHR 0x5C, CHR ''/''} then Some c
      else if c = CHR ''n'' then Some (CHR 0x0A)
      else if c = CHR ''r'' then Some (CHR 0x0D)
      else if c = CHR ''t'' then Some (CHR 0x09)
      else if c = CHR ''f'' then Some (CHR 0x0C)
      else if c = CHR ''b'' then Some (CHR 0x08) else None)"

fun scan_string :: "string \<Rightarrow> (string \<times> string) option" where
  \<comment> \<open>after the opening quote; a control character is an error\<close>
  "scan_string [] = None"
| "scan_string (c # s) =
     (if c = CHR 0x22 then Some ([], s)
      else if c = CHR 0x5C then
        (case s of
          CHR ''u'' # a # b # d # e # t \<Rightarrow>
            (case (hex_value a, hex_value b, hex_value d, hex_value e) of
              (Some 0, Some 0, Some h, Some l) \<Rightarrow>
                map_option (\<lambda>(x, r). (char_of (16 * h + l) # x, r)) (scan_string t)
            | _ \<Rightarrow> None)
        | x # t \<Rightarrow> (case unescape x of None \<Rightarrow> None
            | Some y \<Rightarrow> map_option (\<lambda>(x, r). (y # x, r)) (scan_string t))
        | [] \<Rightarrow> None)
      else if (of_char c :: nat) < 32 then None
      else map_option (\<lambda>(x, r). (c # x, r)) (scan_string s))"

definition is_digit :: "char \<Rightarrow> bool" where
  "is_digit c \<longleftrightarrow> 48 \<le> (of_char c :: nat) \<and> (of_char c :: nat) < 58"

definition digits_value :: "string \<Rightarrow> nat" where
  "digits_value s = foldl (\<lambda>n c. 10 * n + (of_char c - 48)) 0 s"

definition number_end :: "string \<Rightarrow> bool" where
  \<comment> \<open>what follows is neither a fraction nor an exponent\<close>
  "number_end s = (case s of [] \<Rightarrow> True | c # _ \<Rightarrow> c \<notin> set ''.eE'')"

definition scan_natural :: "string \<Rightarrow> (nat \<times> string) option" where
  "scan_natural s =
     (case takeWhile is_digit s of
        [] \<Rightarrow> None
      | d # ds \<Rightarrow>
          (let r = (if d = CHR ''0'' then drop 1 s else dropWhile is_digit s) in
           if number_end r then Some (if d = CHR ''0'' then 0 else digits_value (d # ds), r) else None))"

definition scan_number :: "string \<Rightarrow> (json \<times> string) option" where
  "scan_number s =
     (if take 1 s = ''-'' then map_option (\<lambda>(n, r). (JInt (- int n), r)) (scan_natural (drop 1 s))
      else map_option (\<lambda>(n, r). (JInt (int n), r)) (scan_natural s))"

definition starts_with :: "string \<Rightarrow> string \<Rightarrow> bool" where
  "starts_with p s = (take (length p) s = p)"

section \<open>Values\<close>

fun parse_value :: "nat \<Rightarrow> string \<Rightarrow> (json \<times> string) option"
and parse_elements :: "nat \<Rightarrow> string \<Rightarrow> (json list \<times> string) option"
and parse_members :: "nat \<Rightarrow> string \<Rightarrow> ((string \<times> json) list \<times> string) option" where
  "parse_value 0 s = None"
| "parse_value (Suc n) s =
     (case s of [] \<Rightarrow> None
      | c # t \<Rightarrow>
        if c = CHR 0x22 then map_option (\<lambda>(x, r). (JStr x, r)) (scan_string t)
        else if c = CHR ''{'' then
          (if take 1 (skip_space t) = ''}'' then Some (JObj [], drop 1 (skip_space t))
           else Option.bind (parse_members n (skip_space t)) (\<lambda>(fs, r).
             if distinct (map fst fs) then Some (JObj fs, r) else None))
        else if c = CHR ''['' then
          (if take 1 (skip_space t) = '']'' then Some (JList [], drop 1 (skip_space t))
           else map_option (\<lambda>(vs, r). (JList vs, r)) (parse_elements n (skip_space t)))
        else if starts_with ''null'' s then Some (JNull, drop 4 s)
        else if starts_with ''true'' s then Some (JBool True, drop 4 s)
        else if starts_with ''false'' s then Some (JBool False, drop 5 s)
        else scan_number s)"
| "parse_elements 0 s = None"
| "parse_elements (Suc n) s =
     Option.bind (parse_value n s) (\<lambda>(v, r).
       case skip_space r of [] \<Rightarrow> None
       | c # t \<Rightarrow>
         if c = CHR '']'' then Some ([v], t)
         else if c = CHR '','' then map_option (\<lambda>(vs, r). (v # vs, r)) (parse_elements n (skip_space t))
         else None)"
| "parse_members 0 s = None"
| "parse_members (Suc n) s =
     (if take 1 s \<noteq> [CHR 0x22] then None
      else Option.bind (scan_string (drop 1 s)) (\<lambda>(k, r).
        if take 1 (skip_space r) \<noteq> '':'' then None
        else Option.bind (parse_value n (skip_space (drop 1 (skip_space r)))) (\<lambda>(v, r).
          case skip_space r of [] \<Rightarrow> None
          | c # t \<Rightarrow>
            if c = CHR ''}'' then Some ([(k, v)], t)
            else if c = CHR '','' then
              map_option (\<lambda>(fs, r). ((k, v) # fs, r)) (parse_members n (skip_space t))
            else None)))"

definition loads :: "string \<Rightarrow> json option" where
  "loads s = Option.bind (parse_value (Suc (length s)) (skip_space s)) (\<lambda>(v, r).
     if skip_space r = [] then Some v else None)"

definition canonical_json_bytes :: "json \<Rightarrow> byte list" where
  "canonical_json_bytes j = utf8 (dumps j)"

definition parse_canonical_json :: "byte list \<Rightarrow> json option" where
  "parse_canonical_json data =
     (if take 3 data = [0xEF, 0xBB, 0xBF] then None
      else if data \<noteq> [] \<and> last data \<in> {0x0A, 0x0D} then None
      else Option.bind (utf8_decode data) (\<lambda>text. Option.bind (loads text) (\<lambda>value.
        if canonical_json_bytes value = data then Some value else None)))"

section \<open>Reading back what was written\<close>

fun storable :: "json \<Rightarrow> bool" where
  "storable (JFloat v) = False"
| "storable (JList js) = list_all storable js"
| "storable (JObj fs) = (distinct (map fst fs) \<and> list_all (\<lambda>f. storable (snd f)) fs)"
| "storable _ = True"

fun jsorted :: "json \<Rightarrow> json" where
  "jsorted (JList js) = JList (map jsorted js)"
| "jsorted (JObj fs) = JObj (sorted_fields (map (\<lambda>f. (fst f, jsorted (snd f))) fs))"
| "jsorted j = j"

lemma sorted_fields_map:
  assumes "\<And>f. fst (g f) = fst f"
  shows "sorted_fields (map g fs) = map g (sorted_fields fs)"
proof -
  have "insort_key fst (g f) (map g gs) = map g (insort_key fst f gs)" for f gs
    by (induction gs) (simp_all add: assms)
  then show ?thesis by (induction fs) (simp_all add: sorted_fields_def)
qed

lemma sorted_fields_idem [simp]: "sorted_fields (sorted_fields fs) = sorted_fields fs"
  by (simp add: sorted_fields_def sort_key_id_if_sorted)

lemma dumps_jsorted [simp]: "dumps (jsorted j) = dumps j"
proof (induction j)
  case (JList js)
  then have eq: "map dumps (map jsorted js) = map dumps js" by simp
  show ?case by (simp only: jsorted.simps dumps.simps eq)
next
  case (JObj fs)
  have "map (\<lambda>f. (fst f, dumps (snd f))) (map (\<lambda>f. (fst f, jsorted (snd f))) fs)
      = map (\<lambda>f. (fst f, dumps (snd f))) fs"
    using JObj by (auto simp: snds.simps)
  then have "sorted_fields (map (\<lambda>f. (fst f, dumps (snd f))) (sorted_fields (map (\<lambda>f. (fst f, jsorted (snd f))) fs)))
      = sorted_fields (map (\<lambda>f. (fst f, dumps (snd f))) fs)"
    by (simp only: sorted_fields_map [of "\<lambda>f. (fst f, dumps (snd f))", OF fst_conv] sorted_fields_idem)
      (simp only: sorted_fields_map [of "\<lambda>f. (fst f, dumps (snd f))", OF fst_conv, symmetric])
  then show ?case by (simp only: jsorted.simps dumps.simps)
qed simp_all

lemma hex_value_digit: "hex_value (hex_digit n) = Some (n mod 16)"
proof -
  have "list_all (\<lambda>m. hex_value (''0123456789abcdef'' ! m) = Some m) [0..<16]" by code_simp
  moreover have "n mod 16 \<in> set [0..<16]" by simp
  ultimately show ?thesis unfolding list_all_iff hex_digit_def by blast
qed

text \<open>Strings.\<close>

lemma scan_escaped_char:
  "scan_string (escape_char c @ s) = map_option (\<lambda>(x, r). (c # x, r)) (scan_string s)"
proof -
  consider (quote) "c = CHR 0x22" | (slash) "c = CHR 0x5C" | (named) "c \<in> set [CHR 0x0A, CHR 0x0D, CHR 0x09, CHR 0x0C, CHR 0x08]"
    | (control) "c \<notin> set [CHR 0x0A, CHR 0x0D, CHR 0x09, CHR 0x0C, CHR 0x08]" "(of_char c :: nat) < 32"
    | (plain) "c \<noteq> CHR 0x22" "c \<noteq> CHR 0x5C" "\<not> (of_char c :: nat) < 32"
    by blast
  then show ?thesis
  proof cases
    case control
    let ?n = "of_char c :: nat"
    have q: "c \<noteq> CHR 0x22" "c \<noteq> CHR 0x5C"
    proof -
      have "\<not> (of_char (CHR 0x22) :: nat) < 32" "\<not> (of_char (CHR 0x5C) :: nat) < 32" by code_simp+
      then show "c \<noteq> CHR 0x22" "c \<noteq> CHR 0x5C" using control(2) by metis+
    qed
    have "?n div 16 mod 16 = ?n div 16"
      by (rule mod_less) (use control(2) in linarith)
    then have "16 * (?n div 16 mod 16) + ?n mod 16 = ?n" by simp
    then have c: "char_of (16 * (?n div 16 mod 16) + ?n mod 16) = c" by (simp only: char_of_char)
    have zero: "hex_value (CHR ''0'') = Some 0" by code_simp
    show ?thesis using control q c by (simp add: escape_char_def hex_value_digit zero)
  qed (auto simp: escape_char_def unescape_def)
qed

lemma scan_json_string [simp]: "scan_string (concat (map escape_char s) @ CHR 0x22 # r) = Some (s, r)"
  by (induction s) (simp_all add: scan_escaped_char)

text \<open>Numbers.\<close>

definition value_end :: "string \<Rightarrow> bool" where
  "value_end r = (case r of [] \<Rightarrow> True | c # _ \<Rightarrow> c \<notin> set ''.eE'' \<and> \<not> is_digit c)"

lemma digit_char: "is_digit (digit_char n)" "of_char (digit_char n) - (48::nat) = n mod 10"
  "digit_char n = CHR ''0'' \<longleftrightarrow> n mod 10 = 0"
proof -
  define P where "P = (\<lambda>d (m::nat). is_digit d \<and> of_char d - (48::nat) = m \<and> (d = CHR ''0'' \<longleftrightarrow> m = 0))"
  have "list_all (\<lambda>m. P (''0123456789'' ! m) m) [0..<10]" unfolding P_def by code_simp
  moreover have "n mod 10 \<in> set [0..<10]" by simp
  ultimately have "P (digit_char n) (n mod 10)" unfolding list_all_iff digit_char_def by blast
  then show "is_digit (digit_char n)" "of_char (digit_char n) - (48::nat) = n mod 10"
    "digit_char n = CHR ''0'' \<longleftrightarrow> n mod 10 = 0"
    unfolding P_def by (rule conjunct1, rule conjunct1 [OF conjunct2], rule conjunct2 [OF conjunct2])
qed

lemma nat_str_digits: "list_all is_digit (nat_str n)"
proof (induction n rule: nat_str.induct)
  case (1 n)
  then show ?case by (subst nat_str.simps) (simp add: digit_char(1))
qed

lemma nat_str_value: "digits_value (nat_str n) = n"
proof (induction n rule: nat_str.induct)
  case (1 n)
  then show ?case by (subst nat_str.simps) (simp add: digits_value_def digit_char(2))
qed

lemma nat_str_cases:
  obtains "n = 0" "nat_str n = ''0''" | d ds where "nat_str n = d # ds" "d \<noteq> CHR ''0''"
proof -
  have "n = 0 \<and> nat_str n = ''0'' \<or> (\<exists>d ds. nat_str n = d # ds \<and> d \<noteq> CHR ''0'')"
  proof (induction n rule: nat_str.induct)
    case (1 n)
    show ?case
    proof (cases "n < 10")
      case True
      then show ?thesis
        using digit_char(3) [of n] by (subst (1 2) nat_str.simps) (auto simp: digit_char_def)
    next
      case False
      with 1 obtain d ds where "nat_str (n div 10) = d # ds" "d \<noteq> CHR ''0''" by auto
      with False show ?thesis by (subst (1 2) nat_str.simps) simp
    qed
  qed
  then show thesis using that by blast
qed

lemma scan_nat_str:
  assumes "value_end r"
  shows "scan_natural (nat_str n @ r) = Some (n, r)"
proof -
  have r: "takeWhile is_digit r = []" "dropWhile is_digit r = r" "number_end r"
    using assms by (cases r; simp add: value_end_def number_end_def)+
  have t: "takeWhile is_digit (nat_str n @ r) = nat_str n" "dropWhile is_digit (nat_str n @ r) = r"
    using nat_str_digits [of n] r(1,2)
    by (simp_all add: takeWhile_append2 dropWhile_append2 list_all_iff)
  show ?thesis
  proof (cases n rule: nat_str_cases)
    case 1
    then show ?thesis using t r(3) by (simp add: scan_natural_def)
  next
    case (2 d ds)
    then show ?thesis using t r(3) nat_str_value [of n] by (simp add: scan_natural_def)
  qed
qed

lemma scan_int_str: "value_end r \<Longrightarrow> scan_number (int_str i @ r) = Some (JInt i, r)"
proof (cases "i < 0")
  case False
  moreover assume "value_end r"
  moreover have "take 1 (nat_str (nat i) @ r) \<noteq> ''-''"
  proof -
    obtain d ds where d: "nat_str (nat i) = d # ds" by (cases "nat i" rule: nat_str_cases) auto
    moreover have "is_digit d" using nat_str_digits [of "nat i"] d by simp
    then have "d \<noteq> CHR ''-''" by (auto simp: is_digit_def)
    ultimately show ?thesis by simp
  qed
  ultimately show ?thesis using scan_nat_str [of r "nat i"] by (simp add: int_str_def scan_number_def)
qed (simp add: int_str_def scan_number_def scan_nat_str)

text \<open>How a value begins.\<close>

definition value_start :: "char \<Rightarrow> bool" where
  "value_start c \<longleftrightarrow> c \<in> set ''{[ntf-'' \<or> c = CHR 0x22 \<or> is_digit c"

lemma value_start_space: "value_start c \<Longrightarrow> \<not> json_space c \<and> c \<noteq> CHR '']'' \<and> c \<noteq> CHR ''}''"
  by (auto simp: value_start_def json_space_def is_digit_def)

lemma int_str_start: "\<exists>c t. int_str i = c # t \<and> (c = CHR ''-'' \<or> is_digit c)"
proof -
  have "\<exists>c t. nat_str n = c # t \<and> is_digit c" for n
    using nat_str_digits [of n] by (cases n rule: nat_str_cases) auto
  then show ?thesis by (cases "i < 0") (simp_all add: int_str_def, meson)
qed

lemma dumps_start:
  assumes "storable j"
  shows "\<exists>c t. dumps j = c # t \<and> value_start c"
proof (cases j)
  case (JInt i)
  then show ?thesis using int_str_start [of i] by (auto simp: value_start_def)
qed (use assms in \<open>auto simp: json_string_def value_start_def\<close>)

lemma skip_space_dumps [simp]: "storable j \<Longrightarrow> skip_space (dumps j @ r) = dumps j @ r"
  using dumps_start [of j] value_start_space by (auto simp: skip_space_def)

text \<open>Separators and closing brackets end a value.\<close>

lemma value_end_simps [simp]:
  "value_end []" "value_end (CHR '','' # r)" "value_end (CHR '']'' # r)" "value_end (CHR ''}'' # r)"
  by (simp_all add: value_end_def is_digit_def)

lemma skip_space_token [simp]:
  "skip_space (CHR '','' # r) = CHR '','' # r" "skip_space (CHR '']'' # r) = CHR '']'' # r"
  "skip_space (CHR ''}'' # r) = CHR ''}'' # r" "skip_space (CHR '':'' # r) = CHR '':'' # r"
  "skip_space (CHR 0x22 # r) = CHR 0x22 # r" "skip_space [] = []"
  by (simp_all add: skip_space_def json_space_def)

definition reads_back :: "json \<Rightarrow> bool" where
  "reads_back j \<longleftrightarrow> (\<forall>n r. length (dumps j) \<le> n \<longrightarrow> value_end r \<longrightarrow>
     parse_value n (dumps j @ r) = Some (jsorted j, r))"

lemma parse_elements_joined:
  assumes "\<forall>j\<in>set js. reads_back j \<and> storable j" and "js \<noteq> []"
    and "length (joined (map dumps js)) < n"
  shows "parse_elements n (joined (map dumps js) @ CHR '']'' # r) = Some (map jsorted js, r)"
  using assms
proof (induction js arbitrary: n)
  case Nil
  then show ?case by simp
next
  case (Cons j js)
  then obtain m where n: "n = Suc m" by (cases n) auto
  have j: "reads_back j" "storable j" using Cons.prems(1) by auto
  show ?case
  proof (cases js)
    case Nil
    with j Cons.prems(3) n show ?thesis by (auto simp: reads_back_def)
  next
    case (Cons k ks)
    have len: "length (dumps j) \<le> m" "length (joined (map dumps js)) < m"
      using Cons.prems(3) n Cons dumps_start [OF j(2)] by auto
    have "skip_space (joined (map dumps js) @ CHR '']'' # r) = joined (map dumps js) @ CHR '']'' # r"
      using Cons Cons.prems(1) by (cases ks) auto
    moreover have "parse_elements m (joined (map dumps js) @ CHR '']'' # r) = Some (map jsorted js, r)"
      using Cons.IH [of m] Cons.prems(1) Cons len by auto
    moreover have "parse_value m (dumps j @ CHR '','' # joined (map dumps js) @ CHR '']'' # r)
        = Some (jsorted j, CHR '','' # joined (map dumps js) @ CHR '']'' # r)"
      using j(1) len(1) by (simp add: reads_back_def)
    ultimately show ?thesis using Cons n by simp
  qed
qed

definition member_text :: "string \<times> json \<Rightarrow> string" where
  "member_text f = json_string (fst f) @ '':'' @ dumps (snd f)"

lemma parse_members_joined:
  assumes "\<forall>f\<in>set fs. reads_back (snd f) \<and> storable (snd f)" and "fs \<noteq> []"
    and "length (joined (map member_text fs)) < n"
  shows "parse_members n (joined (map member_text fs) @ CHR ''}'' # r)
    = Some (map (\<lambda>f. (fst f, jsorted (snd f))) fs, r)"
  using assms
proof (induction fs arbitrary: n)
  case Nil
  then show ?case by simp
next
  case (Cons f fs)
  then obtain m where n: "n = Suc m" by (cases n) auto
  have f: "reads_back (snd f)" "storable (snd f)" using Cons.prems(1) by auto
  have member: "length (dumps (snd f)) < length (member_text f)" by (simp add: member_text_def)
  show ?case
  proof (cases fs)
    case Nil
    with f Cons.prems(3) n show ?thesis
      by (auto simp: reads_back_def member_text_def json_string_def)
  next
    case (Cons g gs)
    have len: "length (dumps (snd f)) \<le> m" "length (joined (map member_text fs)) < m"
      using Cons.prems(3) n Cons member by auto
    have "skip_space (joined (map member_text fs) @ CHR ''}'' # r) = joined (map member_text fs) @ CHR ''}'' # r"
      using Cons by (cases gs) (auto simp: member_text_def json_string_def)
    moreover have "parse_members m (joined (map member_text fs) @ CHR ''}'' # r)
        = Some (map (\<lambda>f. (fst f, jsorted (snd f))) fs, r)"
      using Cons.IH [of m] Cons.prems(1) Cons len by auto
    moreover have "parse_value m (dumps (snd f) @ CHR '','' # joined (map member_text fs) @ CHR ''}'' # r)
        = Some (jsorted (snd f), CHR '','' # joined (map member_text fs) @ CHR ''}'' # r)"
      using f(1) len(1) by (simp add: reads_back_def)
    ultimately show ?thesis
      using Cons n f(2) by (simp add: member_text_def [of f] json_string_def [of "fst f"])
  qed
qed

lemma set_sorted_fields [simp]: "set (sorted_fields fs) = set fs"
  by (simp add: sorted_fields_def)

lemma distinct_sorted_fields: "distinct (map fst (sorted_fields fs)) = distinct (map fst fs)"
proof -
  have "mset (map fst (sorted_fields fs)) = mset (map fst fs)" by (simp add: sorted_fields_def)
  then show ?thesis by (rule mset_eq_imp_distinct_iff)
qed

lemma dumps_object: "dumps (JObj fs) = ''{'' @ joined (map member_text (sorted_fields fs)) @ ''}''"
proof -
  have "sorted_fields (map (\<lambda>f. (fst f, dumps (snd f))) fs)
      = map (\<lambda>f. (fst f, dumps (snd f))) (sorted_fields fs)"
    by (rule sorted_fields_map) simp
  moreover have "map (\<lambda>f. json_string (fst f) @ '':'' @ snd f) (map (\<lambda>f. (fst f, dumps (snd f))) fs)
      = map member_text fs" for fs by (simp add: member_text_def)
  ultimately show ?thesis by (simp only: dumps.simps)
qed

lemma joined_start: "joined (t # ts) = t @ (if ts = [] then [] else '','' @ joined ts)"
  by (cases ts) simp_all

lemma parse_value_list:
  assumes "\<forall>j\<in>set js. reads_back j \<and> storable j"
  shows "reads_back (JList js)"
  unfolding reads_back_def
proof (intro allI impI)
  fix n r
  assume len: "length (dumps (JList js)) \<le> n" and r: "value_end r"
  then obtain m where n: "n = Suc m" by (cases n) auto
  show "parse_value n (dumps (JList js) @ r) = Some (jsorted (JList js), r)"
  proof (cases js)
    case Nil
    then show ?thesis by (simp add: n)
  next
    case (Cons j ks)
    obtain c t where c: "dumps j = c # t" "value_start c"
      using dumps_start [of j] assms Cons by auto
    have "joined (map dumps js) @ CHR '']'' # r = c # (t @ (if ks = [] then [] else '','' @ joined (map dumps ks)) @ CHR '']'' # r)"
      using Cons c by (simp add: joined_start)
    then have start: "skip_space (joined (map dumps js) @ CHR '']'' # r) = joined (map dumps js) @ CHR '']'' # r"
      "take 1 (joined (map dumps js) @ CHR '']'' # r) \<noteq> '']''"
      using value_start_space [OF c(2)] by (simp_all add: skip_space_def)
    have "parse_elements m (joined (map dumps js) @ CHR '']'' # r) = Some (map jsorted js, r)"
      using assms Cons len n by (intro parse_elements_joined) auto
    then show ?thesis using start by (simp add: n)
  qed
qed

lemma parse_value_object:
  assumes "\<forall>f\<in>set fs. reads_back (snd f) \<and> storable (snd f)" and "distinct (map fst fs)"
  shows "reads_back (JObj fs)"
  unfolding reads_back_def
proof (intro allI impI)
  fix n r
  assume len: "length (dumps (JObj fs)) \<le> n" and r: "value_end r"
  then obtain m where n: "n = Suc m" by (cases n) auto
  let ?gs = "sorted_fields fs"
  have sorted: "jsorted (JObj fs) = JObj (map (\<lambda>f. (fst f, jsorted (snd f))) ?gs)"
    using sorted_fields_map [of "\<lambda>f. (fst f, jsorted (snd f))" fs] by simp
  show "parse_value n (dumps (JObj fs) @ r) = Some (jsorted (JObj fs), r)"
  proof (cases ?gs)
    case Nil
    then show ?thesis by (simp add: n sorted dumps_object del: dumps.simps jsorted.simps)
  next
    case (Cons f hs)
    obtain t where eq: "joined (map member_text ?gs) @ CHR ''}'' # r = CHR 0x22 # t"
      using Cons by (simp add: joined_start member_text_def json_string_def)
    have start: "skip_space (joined (map member_text ?gs) @ CHR ''}'' # r) = joined (map member_text ?gs) @ CHR ''}'' # r"
      "take 1 (joined (map member_text ?gs) @ CHR ''}'' # r) \<noteq> ''}''"
      unfolding eq by (rule skip_space_token(5), simp)
    have "parse_members m (joined (map member_text ?gs) @ CHR ''}'' # r)
        = Some (map (\<lambda>f. (fst f, jsorted (snd f))) ?gs, r)"
    proof (rule parse_members_joined)
      show "\<forall>f\<in>set ?gs. reads_back (snd f) \<and> storable (snd f)"
        unfolding set_sorted_fields by (rule assms(1))
      show "?gs \<noteq> []" using Cons by simp
      show "length (joined (map member_text ?gs)) < m"
        using len n by (simp add: dumps_object del: dumps.simps)
    qed
    moreover have "distinct (map fst ?gs)" using assms(2) by (simp add: distinct_sorted_fields)
    ultimately show ?thesis
      unfolding sorted using start by (simp add: n dumps_object comp_def del: dumps.simps)
  qed
qed

theorem parse_dumps: "storable j \<Longrightarrow> reads_back j"
proof (induction j)
  case (JList js)
  then show ?case by (intro parse_value_list) (auto simp: list_all_iff)
next
  case (JObj fs)
  then show ?case by (intro parse_value_object) (auto simp: list_all_iff snds.simps)
next
  case (JInt i)
  show ?case
    unfolding reads_back_def
  proof (intro allI impI)
    fix n r
    assume len: "length (dumps (JInt i)) \<le> n" and r: "value_end r"
    obtain c t where c: "int_str i = c # t" "c = CHR ''-'' \<or> is_digit c" using int_str_start by blast
    then obtain m where n: "n = Suc m" using len by (cases n) auto
    have "c \<notin> set ''{[ntf''" "c \<noteq> CHR 0x22" using c(2) by (auto simp: is_digit_def)
    then show "parse_value n (dumps (JInt i) @ r) = Some (jsorted (JInt i), r)"
      using scan_int_str [OF r, of i] c(1) by (simp add: n starts_with_def)
  qed
next
  case (JStr s)
  show ?case
    unfolding reads_back_def
  proof (intro allI impI)
    fix n r
    assume "length (dumps (JStr s)) \<le> n"
    then obtain m where n: "n = Suc m" by (cases n) (auto simp: json_string_def)
    show "parse_value n (dumps (JStr s) @ r) = Some (jsorted (JStr s), r)"
      by (simp add: n json_string_def)
  qed
next
  case JNull
  show ?case unfolding reads_back_def
    by (intro allI impI, case_tac n) (simp_all add: starts_with_def)
next
  case (JBool b)
  show ?case unfolding reads_back_def
    by (cases b; intro allI impI; case_tac n) (simp_all add: starts_with_def)
qed simp

text \<open>How a value ends, so that the byte checks of the parser pass.\<close>

lemma utf8_append: "utf8 (s @ t) = utf8 s @ utf8 t"
  by (simp add: utf8_def)

lemma last_utf8: "(of_char c :: nat) < 128 \<Longrightarrow> last (utf8 (s @ [c])) = of_nat (of_char c)"
  by (simp add: utf8_append) (simp add: utf8_def)

lemma dumps_last:
  assumes "storable j"
  shows "\<exists>s c. dumps j = s @ [c] \<and> (of_char c :: nat) < 128 \<and> 32 \<le> (of_char c :: nat)"
proof (cases j)
  case (JInt i)
  have "\<exists>s c. nat_str n = s @ [c] \<and> is_digit c" for n
    using nat_str_digits [of n] by (cases "nat_str n" rule: rev_cases; cases n rule: nat_str_cases) auto
  then obtain s c where c: "nat_str (nat \<bar>i\<bar>) = s @ [c]" "is_digit c" by blast
  then have "dumps j = (if i < 0 then ''-'' @ s else s) @ [c]"
    by (cases "i < 0") (simp_all add: JInt int_str_def)
  moreover have "(of_char c :: nat) < 128 \<and> 32 \<le> (of_char c :: nat)" using c(2) by (simp add: is_digit_def)
  ultimately show ?thesis by blast
next
  case (JStr s)
  have "dumps j = (CHR 0x22 # concat (map escape_char s)) @ [CHR 0x22]" by (simp add: JStr json_string_def)
  moreover have "(of_char (CHR 0x22) :: nat) < 128 \<and> 32 \<le> (of_char (CHR 0x22) :: nat)" by simp
  ultimately show ?thesis by blast
next
  case (JList js)
  have "dumps j = (CHR ''['' # joined (map dumps js)) @ [CHR '']'']" by (simp add: JList)
  moreover have "(of_char (CHR '']'') :: nat) < 128 \<and> 32 \<le> (of_char (CHR '']'') :: nat)" by simp
  ultimately show ?thesis by blast
next
  case (JObj fs)
  have "dumps j = (CHR ''{'' # joined (map member_text (sorted_fields fs))) @ [CHR ''}'']"
    unfolding JObj dumps_object by simp
  moreover have "(of_char (CHR ''}'') :: nat) < 128 \<and> 32 \<le> (of_char (CHR ''}'') :: nat)" by simp
  ultimately show ?thesis by blast
next
  case (JBool b)
  have "dumps j = butlast (dumps j) @ [CHR ''e'']" by (simp add: JBool)
  moreover have "(of_char (CHR ''e'') :: nat) < 128 \<and> 32 \<le> (of_char (CHR ''e'') :: nat)" by simp
  ultimately show ?thesis by blast
next
  case JNull
  have "dumps j = ''nul'' @ [CHR ''l'']" by (simp add: JNull)
  moreover have "(of_char (CHR ''l'') :: nat) < 128 \<and> 32 \<le> (of_char (CHR ''l'') :: nat)" by simp
  ultimately show ?thesis by blast
qed (use assms in simp)

lemma last_byte: "storable j \<Longrightarrow> last (canonical_json_bytes j) \<notin> {0x0A, 0x0D}"
proof -
  assume "storable j"
  then obtain s c where c: "dumps j = s @ [c]" "(of_char c :: nat) < 128" "32 \<le> (of_char c :: nat)"
    using dumps_last by blast
  then have "last (canonical_json_bytes j) = of_nat (of_char c)"
    unfolding canonical_json_bytes_def by (simp only: last_utf8)
  then have "unat (last (canonical_json_bytes j)) = of_char c" using c(2) by (simp add: unat_of_nat)
  then have "32 \<le> unat (last (canonical_json_bytes j))" using c(3) by simp
  then show ?thesis by auto
qed

lemma first_byte: "storable j \<Longrightarrow> take 3 (canonical_json_bytes j) \<noteq> [0xEF, 0xBB, 0xBF]"
proof -
  assume "storable j"
  then obtain c t where c: "dumps j = c # t" "value_start c" using dumps_start by blast
  from c(2) have small: "(of_char c :: nat) < 128" by (auto simp: value_start_def is_digit_def)
  then have "canonical_json_bytes j = of_nat (of_char c) # utf8 t"
    by (simp add: canonical_json_bytes_def c(1) utf8_def)
  moreover have "(of_nat (of_char c) :: byte) \<noteq> 0xEF"
  proof
    assume "(of_nat (of_char c) :: byte) = 0xEF"
    then have "unat (of_nat (of_char c) :: byte) = unat (0xEF :: byte)" by simp
    with small show False by (simp add: unat_of_nat)
  qed
  ultimately show ?thesis by simp
qed

lemma loads_dumps: "storable j \<Longrightarrow> loads (dumps j) = Some (jsorted j)"
proof -
  assume j: "storable j"
  have "parse_value (Suc (length (dumps j))) (dumps j @ []) = Some (jsorted j, [])"
    by (rule parse_dumps [OF j, unfolded reads_back_def, rule_format]) simp_all
  moreover have "skip_space (dumps j) = dumps j" using skip_space_dumps [OF j, of "[]"] by simp
  ultimately show ?thesis by (simp add: loads_def del: parse_value.simps)
qed

lemma parse_canonical_json_bytes:
  assumes "storable j"
  shows "parse_canonical_json (canonical_json_bytes j) = Some (jsorted j)"
proof -
  have "utf8_decode (canonical_json_bytes j) = Some (dumps j)" by (simp add: canonical_json_bytes_def)
  moreover have "canonical_json_bytes (jsorted j) = canonical_json_bytes j" by (simp add: canonical_json_bytes_def)
  ultimately show ?thesis
    using first_byte [OF assms] last_byte [OF assms] loads_dumps [OF assms]
    unfolding parse_canonical_json_def by (simp only: if_False bind_simps simp_thms) simp
qed

lemma parse_canonical_json_sound:
  "parse_canonical_json data = Some j \<Longrightarrow> canonical_json_bytes j = data"
  by (auto simp: parse_canonical_json_def bind_eq_Some_conv split: if_splits)

end
