(* ===== verification/RevisionModels.thy ===== *)
theory RevisionModels
  imports JsonParse DurableModels
begin

text \<open>
  \<open>storage/revision_models.py\<close>: the contracts of the revision store.  One record per model
  class; \<open>..._ok\<close> is what pydantic checks, \<open>json_of_...\<close> its dump and \<open>..._of_json\<close> the fields read
  back.  A datetime is its storage text.  The evidence and the provenance bindings of a
  payload are JSON objects: the store copies, hashes and compares them and reads only their
  keys.  A canonical file is read by \<open>parse_canonical_model\<close>, which like the code parses,
  validates and compares the re-encoded bytes.
\<close>

section \<open>Identifiers\<close>

definition STORAGE_PORTABLE_ID :: re where
  "STORAGE_PORTABLE_ID = Seq (Cls alnum_chars) (Rep 0 (Some 127) (Cls (alnum_chars @ ''._-'')))"

definition STORAGE_VERSION :: re where
  "STORAGE_VERSION = Seq (Cls alnum_chars) (Rep 0 (Some 63) (Cls (alnum_chars @ ''._+-'')))"

definition ARTIFACT_SCHEMA_VERSION :: re where
  "ARTIFACT_SCHEMA_VERSION = Seq (Cls alnum_chars) (Rep 0 (Some 95) (Cls (alnum_chars @ ''._+-'')))"

definition SOURCE_ID_PATTERN :: re where
  "SOURCE_ID_PATTERN = Seq (Cls alnum_chars) (Rep 0 (Some 191) (Cls (alnum_chars @ ''._-'')))"

definition is_transaction_id :: "string \<Rightarrow> bool" where
  "is_transaction_id s \<longleftrightarrow> take 4 s = ''txn-'' \<and> fullmatch (Rep 32 (Some 32) (Cls hex_chars)) (drop 4 s)"

definition is_owner_token :: "string \<Rightarrow> bool" where
  "is_owner_token s \<longleftrightarrow> take 6 s = ''owner-'' \<and> fullmatch (Rep 32 (Some 32) (Cls hex_chars)) (drop 6 s)"

definition SECRET_METADATA_PATTERN :: re where
  "SECRET_METADATA_PATTERN =
     (let word_upper = alnum_chars; token = alnum_chars @ ''_-'' in alts
     [seqs [WordB, lit_nocase ''sk-'', Rep 8 None (Cls token), WordB],
      seqs [WordB, lit_nocase ''gh'', Cls ''pousrPOUSR'', lit ''_'', Rep 20 None (Cls alnum_chars), WordB],
      seqs [WordB, lit_nocase ''github'', lit ''_'', lit_nocase ''pat'', lit ''_'',
            Rep 20 None (Cls (alnum_chars @ ''_'')), WordB],
      seqs [WordB, alts [lit_nocase ''akia'', lit_nocase ''asia''],
            Rep 16 (Some 16) (Cls word_upper), WordB],
      seqs [WordB, lit_nocase ''aiza'', Rep 20 None (Cls token), WordB],
      seqs [WordB, lit_nocase ''eyj'', Rep 5 None (Cls token), lit ''.'', Rep 5 None (Cls token), lit ''.'',
            Rep 5 None (Cls token), WordB],
      seqs [WordB, lit_nocase ''xox'', Cls ''baprsBAPRS'', lit ''-'',
            Rep 10 None (Cls (alnum_chars @ ''-'')), WordB],
      seqs [WordB, lit_nocase ''npm'', lit ''_'', Rep 20 None (Cls alnum_chars), WordB],
      seqs [WordB, alts [lit_nocase ''rk'', lit_nocase ''sk''], lit ''_'',
            alts [lit_nocase ''live'', lit_nocase ''test''], lit ''_'', Rep 10 None (Cls alnum_chars), WordB],
      seqs [WordB, lit_nocase ''bearer'', Rep 1 None (Cls space_chars),
            Rep 8 None (Cls (alnum_chars @ ''._~+/=-'')), WordB],
      seqs [alts [seqs [lit_nocase ''api'', Rep 0 (Some 1) (Cls ''_-''), lit_nocase ''key''],
                  lit_nocase ''password'', lit_nocase ''passwd'', lit_nocase ''secret'', lit_nocase ''token''],
            Rep 0 None (Cls space_chars), Cls '':='']])"

definition control_string_ok :: "string \<Rightarrow> bool" where
  \<comment> \<open>\<open>validate_control_string\<close>; every string of 8-bit code points is NFC\<close>
  "control_string_ok s \<longleftrightarrow>
     list_all (\<lambda>c. let n = of_char c :: nat in 32 \<le> n \<and> \<not> (127 \<le> n \<and> n < 160)) s \<and>
     \<not> search SECRET_METADATA_PATTERN s"

definition storage_id :: "string \<Rightarrow> bool" where
  "storage_id s \<longleftrightarrow> fullmatch STORAGE_PORTABLE_ID s \<and> control_string_ok s"

definition storage_version :: "string \<Rightarrow> bool" where
  "storage_version s \<longleftrightarrow> fullmatch STORAGE_VERSION s \<and> control_string_ok s"

definition source_id :: "string \<Rightarrow> bool" where
  "source_id s \<longleftrightarrow> fullmatch SOURCE_ID_PATTERN s \<and> control_string_ok s"

definition UTC_TEXT :: re where
  "UTC_TEXT = (let d = Cls digit_chars; dd = Seq d d in
     seqs [dd, dd, lit ''-'', dd, lit ''-'', dd, lit ''T'', dd, lit '':'', dd, lit '':'', dd, lit ''.'', dd, dd, dd, lit ''Z''])"

definition days_in_month :: "nat \<Rightarrow> nat \<Rightarrow> nat" where
  "days_in_month y m =
     (if m = 2 then (if y mod 4 = 0 \<and> (y mod 100 \<noteq> 0 \<or> y mod 400 = 0) then 29 else 28)
      else if m \<in> {4, 6, 9, 11} then 30 else 31)"

definition utc_text :: "string \<Rightarrow> bool" where
  \<comment> \<open>what \<open>format_storage_utc\<close> writes of a datetime\<close>
  "utc_text s \<longleftrightarrow> fullmatch UTC_TEXT s \<and>
     (let num = (\<lambda>i n. digits_value (take n (drop i s))); y = num 0 4; m = num 5 2 in
      1 \<le> y \<and> 1 \<le> m \<and> m \<le> 12 \<and> 1 \<le> num 8 2 \<and> num 8 2 \<le> days_in_month y m \<and>
      num 11 2 < 24 \<and> num 14 2 < 60 \<and> num 17 2 < 60)"

section \<open>Reading the fields of a JSON object\<close>

definition field :: "string \<Rightarrow> json \<Rightarrow> json" where
  "field k j = (case j of JObj fs \<Rightarrow> (case map_of fs k of None \<Rightarrow> JNull | Some v \<Rightarrow> v) | _ \<Rightarrow> JNull)"

definition str_of :: "json \<Rightarrow> string" where "str_of j = (case j of JStr s \<Rightarrow> s | _ \<Rightarrow> '''')"
definition int_of :: "json \<Rightarrow> int" where "int_of j = (case j of JInt i \<Rightarrow> i | _ \<Rightarrow> 0)"
definition bool_of :: "json \<Rightarrow> bool" where "bool_of j = (case j of JBool b \<Rightarrow> b | _ \<Rightarrow> False)"
definition list_of :: "json \<Rightarrow> json list" where "list_of j = (case j of JList js \<Rightarrow> js | _ \<Rightarrow> [])"

definition opt_of :: "(json \<Rightarrow> 'a) \<Rightarrow> json \<Rightarrow> 'a option" where
  "opt_of f j = (case j of JNull \<Rightarrow> None | _ \<Rightarrow> Some (f j))"

definition parse_canonical_model ::
    "(json \<Rightarrow> 'a) \<Rightarrow> ('a \<Rightarrow> json) \<Rightarrow> ('a \<Rightarrow> bool) \<Rightarrow> byte list \<Rightarrow> 'a option" where
  \<comment> \<open>a field of the wrong type is read as a default, which the comparison of the bytes rejects\<close>
  "parse_canonical_model read enc ok data = Option.bind (parse_canonical_json data) (\<lambda>j.
     let value = read j in
     if ok value \<and> canonical_json_bytes (enc value) = data then Some value else None)"

definition has_fields :: "(string \<times> (json \<Rightarrow> bool)) list \<Rightarrow> json \<Rightarrow> bool" where
  "has_fields checks j \<longleftrightarrow> (case j of
     JObj fs \<Rightarrow> distinct (map fst fs) \<and> set (map fst fs) = set (map fst checks) \<and>
       list_all (\<lambda>c. snd c (field (fst c) j)) checks
   | _ \<Rightarrow> False)"

definition is_string :: "(string \<Rightarrow> bool) \<Rightarrow> json \<Rightarrow> bool" where
  "is_string p j \<longleftrightarrow> (case j of JStr s \<Rightarrow> p s | _ \<Rightarrow> False)"

definition is_text :: "string \<Rightarrow> json \<Rightarrow> bool" where "is_text t = is_string (\<lambda>s. s = t)"
definition is_one_of :: "string list \<Rightarrow> json \<Rightarrow> bool" where "is_one_of ts = is_string (\<lambda>s. s \<in> set ts)"
definition is_int :: "(int \<Rightarrow> bool) \<Rightarrow> json \<Rightarrow> bool" where
  "is_int p j \<longleftrightarrow> (case j of JInt i \<Rightarrow> p i | _ \<Rightarrow> False)"
definition is_bool :: "json \<Rightarrow> bool" where "is_bool j \<longleftrightarrow> (case j of JBool b \<Rightarrow> True | _ \<Rightarrow> False)"
definition or_null :: "(json \<Rightarrow> bool) \<Rightarrow> json \<Rightarrow> bool" where "or_null p j \<longleftrightarrow> j = JNull \<or> p j"
definition is_list :: "(json list \<Rightarrow> bool) \<Rightarrow> json \<Rightarrow> bool" where
  "is_list p j \<longleftrightarrow> (case j of JList js \<Rightarrow> p js | _ \<Rightarrow> False)"

section \<open>Classification evidence and provenance bindings\<close>

definition CLASSIFICATIONS :: "string list" where
  "CLASSIFICATIONS = [''public'', ''internal'', ''sensitive'', ''restricted'']"

definition CLASSIFICATION_SOURCES :: "string list" where
  "CLASSIFICATION_SOURCES =
     [''default_internal'', ''explicit_trusted'', ''source_inheritance'', ''credential_detection'']"

definition APPROVED_POLICY_ID :: string where "APPROVED_POLICY_ID = ''p2-027a-local-data-policy-v1''"
definition APPROVED_POLICY_SHA256 :: string where
  "APPROVED_POLICY_SHA256 = ''508fe62ce72ae54b59a8d71e200309a2046bf807dcf249f0aebf787c910cab60''"

definition evidence_ok :: "json \<Rightarrow> bool" where
  \<comment> \<open>\<open>ClassificationEvidence\<close>: the source classifications are unique and in rank order\<close>
  "evidence_ok = has_fields
     [(''source_classifications'', is_list (\<lambda>js. list_all (is_one_of CLASSIFICATIONS) js \<and>
         filter (\<lambda>c. c \<in> set (map str_of js)) CLASSIFICATIONS = map str_of js)),
      (''explicit_classification'', or_null (is_one_of CLASSIFICATIONS)),
      (''explicit_source_trusted'', is_bool), (''restricted_secret_check_completed'', is_bool),
      (''contains_restricted_secret'', is_bool)]"

definition path_parts :: "string \<Rightarrow> string list" where
  \<comment> \<open>\<open>value.split("/")\<close>\<close>
  "path_parts s = foldr (\<lambda>c parts. if c = CHR ''/'' then [] # parts
     else (case parts of [] \<Rightarrow> [[c]] | q # qs \<Rightarrow> (c # q) # qs)) s [[]]"

definition relative_path_ok :: "string \<Rightarrow> bool" where
  \<comment> \<open>\<open>safe_relative_path\<close>: having no empty part excludes a leading slash and \<open>://\<close>\<close>
  "relative_path_ok s \<longleftrightarrow> 1 \<le> length s \<and> length s \<le> 256 \<and> control_string_ok s \<and>
     CHR 0x5C \<notin> set s \<and> CHR '':'' \<notin> set s \<and>
     list_all (\<lambda>part. part \<noteq> [] \<and> part \<noteq> ''.'' \<and> part \<noteq> ''..'') (path_parts s)"

definition artifact_intent_ok :: "json \<Rightarrow> bool" where
  "artifact_intent_ok = has_fields
     [(''kind'', is_one_of [''agent_execution_records'', ''security_events'', ''state'', ''approvals'',
         ''disputes'', ''final_report_json'', ''final_report_markdown'']),
      (''relative_path'', is_string relative_path_ok),
      (''media_type'', is_one_of [''application/json'', ''text/markdown'']),
      (''content_sha256'', or_null (is_string is_sha256))]"

definition binding_kind :: "json \<Rightarrow> string" where "binding_kind b = str_of (field ''kind'' b)"

definition source_binding_matches :: "json \<Rightarrow> bool" where
  "source_binding_matches b \<longleftrightarrow>
     (let kind = str_of (field ''source_kind'' b) in
      str_of (field ''trust_kind'' b) = (if kind = ''user_input'' then ''trusted_user_input''
        else if kind = ''payload_artifact'' then ''verified_payload'' else ''declared_external_evidence'') \<and>
      (if kind = ''payload_artifact'' then field ''source_logical_name'' b \<noteq> JNull \<and>
         field ''source_schema_version'' b \<noteq> JNull \<and> field ''consumer_record_id'' b = JNull
       else field ''source_logical_name'' b = JNull \<and> field ''source_schema_version'' b = JNull))"

definition binding_fields :: "string \<Rightarrow> (string \<times> (json \<Rightarrow> bool)) list" where
  "binding_fields kind =
     (let sid = is_string storage_id; sha = is_string is_sha256; ver = is_string storage_version;
          utc = is_string utc_text; name = is_string (\<lambda>s. 1 \<le> length s \<and> length s \<le> 256) in
      (''kind'', is_text kind) #
      (if kind = ''approval_decision'' then
         [(''approval_id'', sid), (''decision'', is_one_of [''approved'', ''rejected'']), (''decided_at'', utc),
          (''decision_reason_sha256'', sha), (''external_source_id'', is_string source_id)]
       else if kind = ''context'' then
         [(''context_sha256'', sha), (''context_id'', sid), (''attempt_id'', sid),
          (''parent_context_id'', or_null sid), (''schema_version'', ver),
          (''classification'', is_one_of CLASSIFICATIONS), (''payload_sha256'', sha), (''source_sha256'', sha),
          (''policy_sha256'', sha), (''envelope_sha256'', sha), (''expires_at'', utc),
          (''producer_runtime'', sid), (''consumer_runtime'', sid)]
       else if kind = ''phase'' then
         [(''run_id'', sid), (''phase_id'', sid), (''phase_schema_version'', ver), (''attempt_id'', sid),
          (''context_ids'', is_list (\<lambda>js. list_all sid js \<and> distinct (map str_of js))),
          (''input_hash'', sha), (''policy_snapshot_hash'', sha), (''output_hash'', or_null sha),
          (''artifact_intents'', is_list (list_all artifact_intent_ok))]
       else if kind = ''budget_policy'' then
         [(''policy_schema_version'', is_text ''2.0.0''), (''policy_sha256'', sha)]
       else if kind = ''tool'' then
         [(''run_id'', sid), (''phase_attempt_id'', sid), (''ordinal'', is_int (\<lambda>i. 0 \<le> i)),
          (''request_id'', sid), (''request_tool_name'', sid), (''requested_by'', sid),
          (''requires_approval'', is_bool), (''requested_contract_version'', or_null ver),
          (''tool_request_sha256'', sha), (''request_input_artifact_sha256'', sha), (''result_id'', sid),
          (''result_tool_name'', sid), (''result_artifact_sha256'', sha), (''request_input_sha256'', sha),
          (''validated_result_input_sha256'', sha), (''materialized_result_input_sha256'', sha),
          (''supported_contract_version'', ver), (''result_contract_version'', ver)]
       else if kind = ''local_data'' then
         [(''policy_id'', is_text APPROVED_POLICY_ID), (''policy_version'', is_text ''1.0.0''),
          (''policy_sha256'', is_text APPROVED_POLICY_SHA256), (''logical_name'', name),
          (''classification'', is_one_of CLASSIFICATIONS),
          (''classification_source'', is_one_of CLASSIFICATION_SOURCES),
          (''classification_evidence'', evidence_ok), (''classification_evidence_sha256'', sha)]
       else if kind = ''source'' then
         [(''source_id'', is_string source_id),
          (''source_kind'', is_one_of [''user_input'', ''payload_artifact'', ''external_evidence'']),
          (''trust_kind'', is_one_of [''trusted_user_input'', ''verified_payload'', ''declared_external_evidence'']),
          (''source_logical_name'', or_null (is_string (\<lambda>s. length s \<le> 256))),
          (''source_schema_version'', or_null ver), (''consumer_record_id'', or_null sid),
          (''source_sha256'', sha)]
       else
         [(''report_id'', sid), (''report_schema_version'', ver), (''report_json_sha256'', sha),
          (''rendered_markdown_sha256'', sha), (''upstream_source_sha256'', sha)]))"

definition BINDING_KINDS :: "string list" where
  "BINDING_KINDS = [''approval_decision'', ''context'', ''phase'', ''budget_policy'', ''tool'', ''local_data'',
     ''source'', ''report'']"

definition binding_ok :: "json \<Rightarrow> bool" where
  \<comment> \<open>the objects are kept with their keys in canonical order\<close>
  "binding_ok b \<longleftrightarrow> storable b \<and> jsorted b = b \<and> binding_kind b \<in> set BINDING_KINDS \<and>
     has_fields (binding_fields (binding_kind b)) b \<and>
     (binding_kind b = ''source'' \<longrightarrow> source_binding_matches b)"

section \<open>Payload inventory\<close>

definition MEDIA_TYPES :: "string list" where
  "MEDIA_TYPES = [''application/json'', ''application/x-ndjson'', ''text/markdown'', ''text/plain'']"

definition SERIALIZATIONS :: "string list" where
  "SERIALIZATIONS = [''poker-run-storage-json-v1'', ''poker-run-storage-jsonl-v1'',
     ''poker-run-storage-utf8-text-v1'', ''opaque-bytes-v1'']"

record inventory_entry =
  ie_logical_name :: string
  ie_revision_relative_path :: string
  ie_media_type :: string
  ie_artifact_schema_version :: string
  ie_serialization :: string
  ie_size_bytes :: int
  ie_sha256 :: string
  ie_required :: bool
  ie_classification :: string
  ie_classification_source :: string
  ie_classification_evidence :: json
  ie_classification_evidence_sha256 :: string
  ie_source_sha256 :: string
  ie_provenance_bindings :: "json list"

definition inventory_entry_ok :: "inventory_entry \<Rightarrow> bool" where
  "inventory_entry_ok e \<longleftrightarrow>
     1 \<le> length (ie_logical_name e) \<and> length (ie_logical_name e) \<le> 256 \<and>
     1 \<le> length (ie_revision_relative_path e) \<and> length (ie_revision_relative_path e) \<le> 264 \<and>
     ie_media_type e \<in> set MEDIA_TYPES \<and>
     fullmatch ARTIFACT_SCHEMA_VERSION (ie_artifact_schema_version e) \<and>
     ie_serialization e \<in> set SERIALIZATIONS \<and> 0 \<le> ie_size_bytes e \<and> is_sha256 (ie_sha256 e) \<and>
     ie_classification e \<in> set CLASSIFICATIONS \<and>
     ie_classification_source e \<in> set CLASSIFICATION_SOURCES \<and>
     storable (ie_classification_evidence e) \<and> jsorted (ie_classification_evidence e) = ie_classification_evidence e \<and>
     evidence_ok (ie_classification_evidence e) \<and>
     is_sha256 (ie_classification_evidence_sha256 e) \<and> is_sha256 (ie_source_sha256 e) \<and>
     list_all binding_ok (ie_provenance_bindings e)"

definition json_of_inventory :: "inventory_entry \<Rightarrow> json" where
  "json_of_inventory e = JObj
     [(''logical_name'', JStr (ie_logical_name e)),
      (''revision_relative_path'', JStr (ie_revision_relative_path e)),
      (''media_type'', JStr (ie_media_type e)),
      (''artifact_schema_version'', JStr (ie_artifact_schema_version e)),
      (''serialization'', JStr (ie_serialization e)), (''size_bytes'', JInt (ie_size_bytes e)),
      (''sha256'', JStr (ie_sha256 e)), (''required'', JBool (ie_required e)),
      (''classification'', JStr (ie_classification e)),
      (''classification_source'', JStr (ie_classification_source e)),
      (''classification_evidence'', ie_classification_evidence e),
      (''classification_evidence_sha256'', JStr (ie_classification_evidence_sha256 e)),
      (''source_sha256'', JStr (ie_source_sha256 e)),
      (''provenance_bindings'', JList (ie_provenance_bindings e))]"

definition inventory_of_json :: "json \<Rightarrow> inventory_entry" where
  "inventory_of_json j =
     \<lparr>ie_logical_name = str_of (field ''logical_name'' j),
      ie_revision_relative_path = str_of (field ''revision_relative_path'' j),
      ie_media_type = str_of (field ''media_type'' j),
      ie_artifact_schema_version = str_of (field ''artifact_schema_version'' j),
      ie_serialization = str_of (field ''serialization'' j), ie_size_bytes = int_of (field ''size_bytes'' j),
      ie_sha256 = str_of (field ''sha256'' j), ie_required = bool_of (field ''required'' j),
      ie_classification = str_of (field ''classification'' j),
      ie_classification_source = str_of (field ''classification_source'' j),
      ie_classification_evidence = field ''classification_evidence'' j,
      ie_classification_evidence_sha256 = str_of (field ''classification_evidence_sha256'' j),
      ie_source_sha256 = str_of (field ''source_sha256'' j),
      ie_provenance_bindings = list_of (field ''provenance_bindings'' j)\<rparr>"

record provenance_head =
  ph_kind :: string
  ph_binding_count :: int
  ph_bindings_sha256 :: string

definition provenance_head_ok :: "provenance_head \<Rightarrow> bool" where
  "provenance_head_ok h \<longleftrightarrow> ph_kind h \<in> set BINDING_KINDS \<and> 0 < ph_binding_count h \<and>
     is_sha256 (ph_bindings_sha256 h)"

definition json_of_head :: "provenance_head \<Rightarrow> json" where
  "json_of_head h = JObj [(''kind'', JStr (ph_kind h)), (''binding_count'', JInt (ph_binding_count h)),
     (''bindings_sha256'', JStr (ph_bindings_sha256 h))]"

definition head_of_json :: "json \<Rightarrow> provenance_head" where
  "head_of_json j = \<lparr>ph_kind = str_of (field ''kind'' j), ph_binding_count = int_of (field ''binding_count'' j),
     ph_bindings_sha256 = str_of (field ''bindings_sha256'' j)\<rparr>"

section \<open>Requests and control records\<close>

record artifact =
  ar_logical_name :: string
  ar_media_type :: string
  ar_artifact_schema_version :: string
  ar_serialization :: string
  ar_exact_bytes :: "byte list"
  ar_required :: bool
  ar_classification :: string
  ar_classification_source :: string
  ar_classification_evidence :: json
  ar_policy_sha256 :: string
  ar_origin_kind :: string
  ar_provenance_bindings :: "json list"

definition ORIGIN_KINDS :: "string list" where
  "ORIGIN_KINDS = [''case_input'', ''range_equity_binding'', ''confirmed_review_source'',
     ''confirmed_review_candidate'', ''confirmed_review_confirmation'', ''confirmed_review_provenance'',
     ''bounded_nl_source'', ''bounded_nl_candidate'', ''bounded_nl_confirmation'',
     ''bounded_nl_provenance'', ''normalization_output'', ''assumption_ledger'', ''evidence_ledger'',
     ''approval_ledger'', ''assignment_ledger'', ''agent_execution_ledger'',
     ''security_event_ledger'', ''dispute_ledger'', ''agent_report'', ''tool_input'', ''tool_result'',
     ''final_report_json'', ''final_report_markdown'', ''budget_state'', ''isolated_job_state'',
     ''isolated_job_stdout'', ''isolated_job_stderr'']"

definition artifact_ok :: "artifact \<Rightarrow> bool" where
  "artifact_ok a \<longleftrightarrow>
     1 \<le> length (ar_logical_name a) \<and> length (ar_logical_name a) \<le> 256 \<and>
     ar_media_type a \<in> set MEDIA_TYPES \<and>
     fullmatch ARTIFACT_SCHEMA_VERSION (ar_artifact_schema_version a) \<and>
     ar_serialization a \<in> set SERIALIZATIONS \<and> ar_classification a \<in> set CLASSIFICATIONS \<and>
     ar_classification_source a \<in> set CLASSIFICATION_SOURCES \<and>
     evidence_ok (ar_classification_evidence a) \<and> ar_policy_sha256 a = APPROVED_POLICY_SHA256 \<and>
     ar_origin_kind a \<in> set ORIGIN_KINDS \<and> list_all binding_ok (ar_provenance_bindings a)"

record publish_revision =
  pr_run_id :: string
  pr_transaction_id :: string
  pr_proposed_revision :: int
  pr_expected_revision :: "int option"
  pr_expected_manifest_sha256 :: "string option"
  pr_expected_pointer_sha256 :: "string option"
  pr_created_at :: string
  pr_producer_id :: string
  pr_producer_version :: string
  pr_artifacts :: "artifact list"

definition revision_expectations_ok :: "int \<Rightarrow> int option \<Rightarrow> string option \<Rightarrow> string option \<Rightarrow> bool" where
  "revision_expectations_ok proposed expected manifest pointer =
     (case expected of
        None \<Rightarrow> proposed = 1 \<and> manifest = None \<and> pointer = None
      | Some r \<Rightarrow> proposed = r + 1 \<and> manifest \<noteq> None \<and> pointer \<noteq> None)"

definition expected_fields_ok :: "int \<Rightarrow> int option \<Rightarrow> string option \<Rightarrow> string option \<Rightarrow> bool" where
  \<comment> \<open>the constraints the request and the transaction share\<close>
  "expected_fields_ok proposed expected manifest pointer \<longleftrightarrow>
     1 \<le> proposed \<and> pred_option (\<lambda>r. 1 \<le> r) expected \<and> opt_sha256 manifest \<and> opt_sha256 pointer \<and>
     revision_expectations_ok proposed expected manifest pointer"

definition publish_revision_ok :: "publish_revision \<Rightarrow> bool" where
  "publish_revision_ok q \<longleftrightarrow>
     storage_id (pr_run_id q) \<and> is_transaction_id (pr_transaction_id q) \<and>
     expected_fields_ok (pr_proposed_revision q) (pr_expected_revision q)
       (pr_expected_manifest_sha256 q) (pr_expected_pointer_sha256 q) \<and>
     utc_text (pr_created_at q) \<and> storage_id (pr_producer_id q) \<and>
     storage_version (pr_producer_version q) \<and> list_all artifact_ok (pr_artifacts q)"

definition storage_constants :: "(string \<times> json) list" where
  "storage_constants =
     [(''schema_version'', JStr ''1.0.0''), (''storage_protocol'', JStr ''poker-run-revision-v1''),
      (''canonicalization'', JStr ''poker-run-storage-json-v1''), (''hash_algorithm'', JStr ''sha256'')]"

record transaction =
  tx_run_id :: string
  tx_transaction_id :: string
  tx_proposed_revision :: int
  tx_expected_revision :: "int option"
  tx_expected_manifest_sha256 :: "string option"
  tx_expected_pointer_sha256 :: "string option"
  tx_created_at :: string
  tx_producer_id :: string
  tx_producer_version :: string
  tx_artifact_plan :: "inventory_entry list"
  tx_provenance_heads :: "provenance_head list"
  tx_transaction_sha256 :: string

definition transaction_ok :: "transaction \<Rightarrow> bool" where
  "transaction_ok t \<longleftrightarrow>
     storage_id (tx_run_id t) \<and> is_transaction_id (tx_transaction_id t) \<and>
     expected_fields_ok (tx_proposed_revision t) (tx_expected_revision t)
       (tx_expected_manifest_sha256 t) (tx_expected_pointer_sha256 t) \<and>
     utc_text (tx_created_at t) \<and> storage_id (tx_producer_id t) \<and> storage_version (tx_producer_version t) \<and>
     list_all inventory_entry_ok (tx_artifact_plan t) \<and> list_all provenance_head_ok (tx_provenance_heads t) \<and>
     is_sha256 (tx_transaction_sha256 t)"

definition transaction_base :: "transaction \<Rightarrow> (string \<times> json) list" where
  "transaction_base t = storage_constants @
     [(''run_id'', JStr (tx_run_id t)), (''transaction_id'', JStr (tx_transaction_id t)),
      (''proposed_revision'', JInt (tx_proposed_revision t)),
      (''expected_revision'', jint (tx_expected_revision t)),
      (''expected_manifest_sha256'', jstr (tx_expected_manifest_sha256 t)),
      (''expected_pointer_sha256'', jstr (tx_expected_pointer_sha256 t)),
      (''created_at'', JStr (tx_created_at t)), (''producer_id'', JStr (tx_producer_id t)),
      (''producer_version'', JStr (tx_producer_version t)),
      (''artifact_plan'', JList (map json_of_inventory (tx_artifact_plan t))),
      (''provenance_heads'', JList (map json_of_head (tx_provenance_heads t)))]"

definition json_of_transaction :: "transaction \<Rightarrow> json" where
  "json_of_transaction t = JObj (transaction_base t @ [(''transaction_sha256'', JStr (tx_transaction_sha256 t))])"

definition transaction_of_json :: "json \<Rightarrow> transaction" where
  "transaction_of_json j =
     \<lparr>tx_run_id = str_of (field ''run_id'' j), tx_transaction_id = str_of (field ''transaction_id'' j),
      tx_proposed_revision = int_of (field ''proposed_revision'' j),
      tx_expected_revision = opt_of int_of (field ''expected_revision'' j),
      tx_expected_manifest_sha256 = opt_of str_of (field ''expected_manifest_sha256'' j),
      tx_expected_pointer_sha256 = opt_of str_of (field ''expected_pointer_sha256'' j),
      tx_created_at = str_of (field ''created_at'' j), tx_producer_id = str_of (field ''producer_id'' j),
      tx_producer_version = str_of (field ''producer_version'' j),
      tx_artifact_plan = map inventory_of_json (list_of (field ''artifact_plan'' j)),
      tx_provenance_heads = map head_of_json (list_of (field ''provenance_heads'' j)),
      tx_transaction_sha256 = str_of (field ''transaction_sha256'' j)\<rparr>"

record manifest =
  mf_run_id :: string
  mf_revision :: int
  mf_transaction_id :: string
  mf_transaction_sha256 :: string
  mf_previous_revision :: "int option"
  mf_previous_manifest_sha256 :: "string option"
  mf_expected_pointer_sha256 :: "string option"
  mf_created_at :: string
  mf_producer_id :: string
  mf_producer_version :: string
  mf_inventory_sha256 :: string
  mf_provenance_heads :: "provenance_head list"
  mf_artifacts :: "inventory_entry list"

definition manifest_ok :: "manifest \<Rightarrow> bool" where
  "manifest_ok m \<longleftrightarrow>
     storage_id (mf_run_id m) \<and> 1 \<le> mf_revision m \<and> is_transaction_id (mf_transaction_id m) \<and>
     is_sha256 (mf_transaction_sha256 m) \<and> pred_option (\<lambda>r. 1 \<le> r) (mf_previous_revision m) \<and>
     opt_sha256 (mf_previous_manifest_sha256 m) \<and> opt_sha256 (mf_expected_pointer_sha256 m) \<and>
     utc_text (mf_created_at m) \<and> storage_id (mf_producer_id m) \<and> storage_version (mf_producer_version m) \<and>
     is_sha256 (mf_inventory_sha256 m) \<and> list_all provenance_head_ok (mf_provenance_heads m) \<and>
     list_all inventory_entry_ok (mf_artifacts m) \<and>
     (if mf_revision m = 1 then mf_previous_revision m = None \<and> mf_previous_manifest_sha256 m = None
      else mf_previous_revision m = Some (mf_revision m - 1) \<and> mf_previous_manifest_sha256 m \<noteq> None)"

definition json_of_manifest :: "manifest \<Rightarrow> json" where
  "json_of_manifest m = JObj (storage_constants @
     [(''publication_kind'', JStr ''structural_nonterminal''), (''run_id'', JStr (mf_run_id m)),
      (''revision'', JInt (mf_revision m)), (''transaction_id'', JStr (mf_transaction_id m)),
      (''transaction_sha256'', JStr (mf_transaction_sha256 m)),
      (''previous_revision'', jint (mf_previous_revision m)),
      (''previous_manifest_sha256'', jstr (mf_previous_manifest_sha256 m)),
      (''expected_pointer_sha256'', jstr (mf_expected_pointer_sha256 m)),
      (''created_at'', JStr (mf_created_at m)), (''producer_id'', JStr (mf_producer_id m)),
      (''producer_version'', JStr (mf_producer_version m)),
      (''inventory_sha256'', JStr (mf_inventory_sha256 m)),
      (''provenance_heads'', JList (map json_of_head (mf_provenance_heads m))),
      (''artifacts'', JList (map json_of_inventory (mf_artifacts m)))])"

definition manifest_of_json :: "json \<Rightarrow> manifest" where
  "manifest_of_json j =
     \<lparr>mf_run_id = str_of (field ''run_id'' j), mf_revision = int_of (field ''revision'' j),
      mf_transaction_id = str_of (field ''transaction_id'' j),
      mf_transaction_sha256 = str_of (field ''transaction_sha256'' j),
      mf_previous_revision = opt_of int_of (field ''previous_revision'' j),
      mf_previous_manifest_sha256 = opt_of str_of (field ''previous_manifest_sha256'' j),
      mf_expected_pointer_sha256 = opt_of str_of (field ''expected_pointer_sha256'' j),
      mf_created_at = str_of (field ''created_at'' j), mf_producer_id = str_of (field ''producer_id'' j),
      mf_producer_version = str_of (field ''producer_version'' j),
      mf_inventory_sha256 = str_of (field ''inventory_sha256'' j),
      mf_provenance_heads = map head_of_json (list_of (field ''provenance_heads'' j)),
      mf_artifacts = map inventory_of_json (list_of (field ''artifacts'' j))\<rparr>"

record pointer =
  po_run_id :: string
  po_revision :: int
  po_transaction_id :: string
  po_revision_relative_path :: string
  po_transaction_sha256 :: string
  po_manifest_sha256 :: string
  po_inventory_sha256 :: string
  po_published_at :: string

definition revision_name :: "int \<Rightarrow> string \<Rightarrow> string" where
  "revision_name revision txn = ''r'' @ int_str revision @ ''-'' @ txn"

definition pointer_ok :: "pointer \<Rightarrow> bool" where
  "pointer_ok p \<longleftrightarrow>
     storage_id (po_run_id p) \<and> 1 \<le> po_revision p \<and> is_transaction_id (po_transaction_id p) \<and>
     1 \<le> length (po_revision_relative_path p) \<and> length (po_revision_relative_path p) \<le> 192 \<and>
     is_sha256 (po_transaction_sha256 p) \<and> is_sha256 (po_manifest_sha256 p) \<and>
     is_sha256 (po_inventory_sha256 p) \<and> utc_text (po_published_at p) \<and>
     po_revision_relative_path p = ''revisions/'' @ revision_name (po_revision p) (po_transaction_id p)"

definition json_of_pointer :: "pointer \<Rightarrow> json" where
  "json_of_pointer p = JObj (storage_constants @
     [(''publication_kind'', JStr ''structural_nonterminal''), (''run_id'', JStr (po_run_id p)),
      (''revision'', JInt (po_revision p)), (''transaction_id'', JStr (po_transaction_id p)),
      (''revision_relative_path'', JStr (po_revision_relative_path p)),
      (''transaction_sha256'', JStr (po_transaction_sha256 p)),
      (''manifest_sha256'', JStr (po_manifest_sha256 p)),
      (''inventory_sha256'', JStr (po_inventory_sha256 p)), (''published_at'', JStr (po_published_at p))])"

definition pointer_of_json :: "json \<Rightarrow> pointer" where
  "pointer_of_json j =
     \<lparr>po_run_id = str_of (field ''run_id'' j), po_revision = int_of (field ''revision'' j),
      po_transaction_id = str_of (field ''transaction_id'' j),
      po_revision_relative_path = str_of (field ''revision_relative_path'' j),
      po_transaction_sha256 = str_of (field ''transaction_sha256'' j),
      po_manifest_sha256 = str_of (field ''manifest_sha256'' j),
      po_inventory_sha256 = str_of (field ''inventory_sha256'' j),
      po_published_at = str_of (field ''published_at'' j)\<rparr>"

section \<open>Outcomes and failures\<close>

datatype file_sync = FS_not_attempted | FS_confirmed | FS_failed
datatype dir_sync = DS_not_attempted | DS_confirmed | DS_unavailable | DS_failed
datatype pointer_replace = PR_not_attempted | PR_attempted_unconfirmed | PR_confirmed
datatype reconciliation = RC_confirmed | RC_required

record durability =
  du_file_sync :: file_sync
  du_directory_sync :: dir_sync
  du_pointer_replace :: pointer_replace
  du_reconciliation :: reconciliation

datatype filesystem_effect =
  FE_none | FE_control_only | FE_staging_orphan | FE_unreferenced_revision |
  FE_current_replace_attempted | FE_current_advanced

datatype domain_effect =
  DE_not_started | DE_current_unchanged | DE_current_may_have_advanced | DE_current_advanced

datatype previous_effect = PE_not_applicable | PE_unchanged | PE_unconfirmed

datatype outcome_kind = Published | Current_committed | Historical_committed | Reconciliation_required

record publish_outcome =
  oc_kind :: outcome_kind
  oc_transaction_id :: string
  oc_transaction_sha256 :: string
  oc_revision :: int
  oc_observed_current_revision :: "int option"
  oc_manifest_sha256 :: "string option"
  oc_pointer_sha256 :: "string option"
  oc_filesystem_effect :: filesystem_effect
  oc_domain_effect :: domain_effect
  oc_previous_revision_effect :: previous_effect
  oc_durability_evidence :: durability

definition closed_outcome :: "publish_outcome \<Rightarrow> bool" where
  \<comment> \<open>\<open>closed_outcome_matrix\<close>\<close>
  "closed_outcome c \<longleftrightarrow>
     (let previous = (if oc_revision c = 1 then PE_not_applicable else PE_unchanged);
          d = oc_durability_evidence c;
          untouched = oc_manifest_sha256 c \<noteq> None \<and> oc_pointer_sha256 c \<noteq> None \<and>
            oc_filesystem_effect c = FE_none \<and> oc_domain_effect c = DE_current_unchanged \<and>
            oc_previous_revision_effect c = previous \<and> du_file_sync d = FS_not_attempted \<and>
            du_directory_sync d = DS_not_attempted \<and> du_pointer_replace d = PR_not_attempted \<and>
            du_reconciliation d = RC_confirmed in
      case oc_kind c of
        Published \<Rightarrow>
          oc_observed_current_revision c = Some (oc_revision c) \<and> oc_manifest_sha256 c \<noteq> None \<and>
          oc_pointer_sha256 c \<noteq> None \<and> oc_filesystem_effect c = FE_current_advanced \<and>
          oc_domain_effect c = DE_current_advanced \<and> oc_previous_revision_effect c = previous \<and>
          du_file_sync d = FS_confirmed \<and> du_directory_sync d \<in> {DS_confirmed, DS_unavailable} \<and>
          du_pointer_replace d = PR_confirmed \<and> du_reconciliation d = RC_confirmed
      | Current_committed \<Rightarrow> oc_observed_current_revision c = Some (oc_revision c) \<and> untouched
      | Historical_committed \<Rightarrow>
          (case oc_observed_current_revision c of None \<Rightarrow> False | Some r \<Rightarrow> oc_revision c < r) \<and> untouched
      | Reconciliation_required \<Rightarrow>
          du_reconciliation d = RC_required \<and>
          oc_filesystem_effect c \<in> {FE_staging_orphan, FE_unreferenced_revision,
            FE_current_replace_attempted, FE_current_advanced} \<and>
          oc_domain_effect c \<in> {DE_current_unchanged, DE_current_may_have_advanced, DE_current_advanced} \<and>
          (1 < oc_revision c \<longrightarrow> oc_previous_revision_effect c \<in> {PE_unchanged, PE_unconfirmed}) \<and>
          (oc_revision c = 1 \<longrightarrow> oc_previous_revision_effect c = PE_not_applicable))"

definition publish_outcome_ok :: "publish_outcome \<Rightarrow> bool" where
  "publish_outcome_ok c \<longleftrightarrow>
     is_transaction_id (oc_transaction_id c) \<and> is_sha256 (oc_transaction_sha256 c) \<and> 1 \<le> oc_revision c \<and>
     pred_option (\<lambda>r. 1 \<le> r) (oc_observed_current_revision c) \<and> opt_sha256 (oc_manifest_sha256 c) \<and>
     opt_sha256 (oc_pointer_sha256 c) \<and> closed_outcome c"

datatype run_code =
  R_INVALID_STORAGE_INPUT | R_UNSUPPORTED_STORAGE_VERSION | R_LEGACY_RUN_UNVERIFIED |
  R_RUN_NAMESPACE_CONFLICT | R_ROOT_INITIALIZATION_INCOMPLETE | R_PATH_CONFINEMENT_FAILED |
  R_LINK_OR_REPARSE_DETECTED | R_CROSS_RUN_MISMATCH | R_HASH_ALGORITHM_MISMATCH |
  R_ARTIFACT_BUDGET_EXCEEDED | R_RUN_BUDGET_EXCEEDED | R_RUN_LOCKED | R_LOCK_UNAVAILABLE |
  R_RUN_CONFLICT | R_RECOVERY_CLAIM_CONFLICT | R_RECOVERY_CLAIM_INCOMPLETE | R_IDEMPOTENCY_CONFLICT |
  R_PERSISTENCE_FORBIDDEN | R_ENCRYPTION_REQUIRED | R_TRANSACTION_WRITE_FAILED |
  R_TRANSACTION_VERIFICATION_FAILED | R_TRANSACTION_PUBLISH_FAILED | R_DURABILITY_UNCONFIRMED |
  R_EFFECT_UNKNOWN | R_RUN_INCOMPLETE | R_RUN_CORRUPT | R_ARTIFACT_MISSING | R_ARTIFACT_HASH_MISMATCH |
  R_ARTIFACT_SCHEMA_ERROR | R_INTERNAL_INVARIANT_ERROR

datatype stage =
  St_preflight | St_lock_bootstrap | St_initial_read | St_locked_admission | St_lock_metadata |
  St_namespace_bootstrap | St_staging | St_transaction | St_payload | St_manifest | St_revision_publish |
  St_pointer | St_final_cas | St_current_replace | St_reconciliation | St_directory_sync |
  St_lock_release | St_orphan_inspect | St_recovery_claim

record run_failure =
  rf_code :: run_code
  rf_stage :: stage
  rf_reconciliation_required :: bool
  rf_filesystem_effect :: filesystem_effect
  rf_domain_effect :: domain_effect
  rf_previous_revision_effect :: previous_effect
  rf_run_id_sha256 :: string
  rf_transaction_id :: "string option"
  rf_expected_revision :: "int option"
  rf_observed_revision :: "int option"
  rf_durability_evidence :: "durability option"

definition rf_retryable :: "run_failure \<Rightarrow> bool" where
  "rf_retryable f = (rf_code f = R_RUN_LOCKED)"

text \<open>
  The exceptions of the store's methods.  \<open>_ArtifactBoundaryError\<close> is a subclass of
  \<open>CanonicalStorageError\<close> and \<open>FileNotFoundError\<close> one of \<open>OSError\<close>; \<open>Killed\<close> is not an exception but
  the end of the process, which no handler sees.
\<close>

datatype boundary = Write_boundary | Durability_boundary | Verification_boundary

datatype storage_exn =
  Canonical_error string
| Os_error string
| File_missing
| Validation_error
| Value_error
| Storage_boundary boundary
| Publish_boundary bool
| Artifact_boundary run_code
| Lock_busy bool
| Lock_unavailable "boundary option" bool
| Lock_release
| Run_error run_failure
| Killed

definition is_canonical_error :: "storage_exn \<Rightarrow> bool" where
  "is_canonical_error e = (case e of Canonical_error _ \<Rightarrow> True | Artifact_boundary _ \<Rightarrow> True | _ \<Rightarrow> False)"

definition is_os_error :: "storage_exn \<Rightarrow> bool" where
  "is_os_error e = (case e of Os_error _ \<Rightarrow> True | File_missing \<Rightarrow> True | _ \<Rightarrow> False)"

section \<open>Reading back a control record\<close>

lemma map_of_sorted_fields:
  assumes "distinct (map fst fs)"
  shows "map_of (sorted_fields fs) = map_of fs"
proof (rule map_of_eqI)
  show "set (map fst (sorted_fields fs)) = set (map fst fs)" by simp
  have "map_of (sorted_fields fs) k = Some v \<longleftrightarrow> map_of fs k = Some v" for k v
    using assms distinct_sorted_fields [of fs] by (simp add: map_of_eq_Some_iff)
  then show "\<forall>k\<in>set (map fst (sorted_fields fs)). map_of (sorted_fields fs) k = map_of fs k"
    by (metis option.exhaust)
qed

lemma map_of_map_snd: "map_of (map (\<lambda>f. (fst f, g (snd f))) fs) k = map_option g (map_of fs k)"
  by (induction fs) auto

lemma field_jsorted:
  assumes "distinct (map fst fs)"
  shows "field k (jsorted (JObj fs)) = jsorted (field k (JObj fs))"
proof -
  have "distinct (map fst (map (\<lambda>f. (fst f, jsorted (snd f))) fs))" using assms by (simp add: comp_def)
  then have "map_of (sorted_fields (map (\<lambda>f. (fst f, jsorted (snd f))) fs)) k = map_option jsorted (map_of fs k)"
    by (simp add: map_of_sorted_fields map_of_map_snd)
  then show ?thesis by (simp add: field_def split: option.split)
qed

lemma of_jsorted [simp]:
  "str_of (jsorted j) = str_of j" "int_of (jsorted j) = int_of j" "bool_of (jsorted j) = bool_of j"
  "list_of (jsorted j) = map jsorted (list_of j)"
  by (cases j; simp add: str_of_def int_of_def bool_of_def list_of_def)+

lemma opt_of_jsorted [simp]: "opt_of f (jsorted j) = opt_of (\<lambda>x. f (jsorted x)) j"
  by (cases j) (simp_all add: opt_of_def)

lemma of_constructors [simp]:
  "str_of (JStr s) = s" "int_of (JInt i) = i" "bool_of (JBool b) = b" "list_of (JList js) = js"
  "opt_of f JNull = None" "opt_of f (JStr s) = Some (f (JStr s))" "opt_of f (JInt i) = Some (f (JInt i))"
  by (simp_all add: str_of_def int_of_def bool_of_def list_of_def opt_of_def)

lemma opt_of_written [simp]: "opt_of str_of (jstr x) = x" "opt_of int_of (jint i) = i"
  by (cases x; simp add: jstr_def jopt_def) (cases i; simp add: jint_def jopt_def)

lemma storable_optional [simp]: "storable (jstr x)" "storable (jint i)"
  by (cases x; simp add: jstr_def jopt_def) (cases i; simp add: jint_def jopt_def)

lemma parse_written:
  assumes "ok v" and "storable (enc v)" and "read (jsorted (enc v)) = v"
  shows "parse_canonical_model read enc ok (canonical_json_bytes (enc v)) = Some v"
  using assms by (simp add: parse_canonical_model_def parse_canonical_json_bytes)

lemma parse_sound:
  "parse_canonical_model read enc ok data = Some v \<Longrightarrow> ok v \<and> canonical_json_bytes (enc v) = data"
  by (auto simp: parse_canonical_model_def bind_eq_Some_conv Let_def split: if_splits)

definition read_pointer :: "byte list \<Rightarrow> pointer option" where
  "read_pointer = parse_canonical_model pointer_of_json json_of_pointer pointer_ok"

definition read_manifest :: "byte list \<Rightarrow> manifest option" where
  "read_manifest = parse_canonical_model manifest_of_json json_of_manifest manifest_ok"

definition read_transaction :: "byte list \<Rightarrow> transaction option" where
  "read_transaction = parse_canonical_model transaction_of_json json_of_transaction transaction_ok"

lemma read_pointer_written:
  assumes "pointer_ok p"
  shows "read_pointer (canonical_json_bytes (json_of_pointer p)) = Some p"
  unfolding read_pointer_def
proof (rule parse_written)
  show "pointer_ok p" by (rule assms)
  show "storable (json_of_pointer p)" by (simp add: json_of_pointer_def storage_constants_def)
  have fld: "field k (jsorted (json_of_pointer p)) = jsorted (field k (json_of_pointer p))" for k
    unfolding json_of_pointer_def by (rule field_jsorted) (simp add: storage_constants_def)
  show "pointer_of_json (jsorted (json_of_pointer p)) = p"
    unfolding pointer_of_json_def fld by (simp add: json_of_pointer_def field_def storage_constants_def)
qed

lemma inventory_written:
  assumes "inventory_entry_ok e"
  shows "inventory_of_json (jsorted (json_of_inventory e)) = e" and "storable (json_of_inventory e)"
proof -
  have b: "map jsorted (ie_provenance_bindings e) = ie_provenance_bindings e"
    "list_all storable (ie_provenance_bindings e)"
    using assms by (auto simp: inventory_entry_ok_def binding_ok_def list_all_iff intro!: map_idI)
  have ev: "jsorted (ie_classification_evidence e) = ie_classification_evidence e"
    "storable (ie_classification_evidence e)"
    using assms by (simp_all add: inventory_entry_ok_def)
  have fld: "field k (jsorted (json_of_inventory e)) = jsorted (field k (json_of_inventory e))" for k
    unfolding json_of_inventory_def by (rule field_jsorted) (simp)
  show "inventory_of_json (jsorted (json_of_inventory e)) = e"
    unfolding inventory_of_json_def fld by (simp add: json_of_inventory_def field_def b(1) ev(1))
  show "storable (json_of_inventory e)"
    using b(2) ev(2) by (simp add: json_of_inventory_def)
qed

lemma head_written:
  "head_of_json (jsorted (json_of_head h)) = h" "storable (json_of_head h)"
proof -
  have fld: "field k (jsorted (json_of_head h)) = jsorted (field k (json_of_head h))" for k
    unfolding json_of_head_def by (rule field_jsorted) (simp)
  show "head_of_json (jsorted (json_of_head h)) = h"
    unfolding head_of_json_def fld by (simp add: json_of_head_def field_def)
  show "storable (json_of_head h)" by (simp add: json_of_head_def)
qed

lemma inventories_written:
  assumes "list_all inventory_entry_ok es"
  shows "map (\<lambda>e. inventory_of_json (jsorted (json_of_inventory e))) es = es"
    and "list_all (\<lambda>e. storable (json_of_inventory e)) es"
  using assms by (auto simp: list_all_iff inventory_written intro!: map_idI)

lemma read_manifest_written:
  assumes "manifest_ok m"
  shows "read_manifest (canonical_json_bytes (json_of_manifest m)) = Some m"
  unfolding read_manifest_def
proof (rule parse_written)
  have inv: "list_all inventory_entry_ok (mf_artifacts m)" using assms by (simp add: manifest_ok_def)
  show "manifest_ok m" by (rule assms)
  show "storable (json_of_manifest m)"
    using inventories_written(2) [OF inv]
    by (simp add: json_of_manifest_def storage_constants_def head_written(2) list_all_iff)
  have fld: "field k (jsorted (json_of_manifest m)) = jsorted (field k (json_of_manifest m))" for k
    unfolding json_of_manifest_def by (rule field_jsorted) (simp add: storage_constants_def)
  show "manifest_of_json (jsorted (json_of_manifest m)) = m"
    unfolding manifest_of_json_def fld by (simp add: json_of_manifest_def field_def storage_constants_def comp_def head_written(1) inventories_written(1) [OF inv])
qed

lemma read_transaction_written:
  assumes "transaction_ok t"
  shows "read_transaction (canonical_json_bytes (json_of_transaction t)) = Some t"
  unfolding read_transaction_def
proof (rule parse_written)
  have inv: "list_all inventory_entry_ok (tx_artifact_plan t)" using assms by (simp add: transaction_ok_def)
  show "transaction_ok t" by (rule assms)
  show "storable (json_of_transaction t)"
    using inventories_written(2) [OF inv]
    by (simp add: json_of_transaction_def transaction_base_def storage_constants_def head_written(2) list_all_iff)
  have fld: "field k (jsorted (json_of_transaction t)) = jsorted (field k (json_of_transaction t))" for k
    unfolding json_of_transaction_def transaction_base_def by (rule field_jsorted) (simp add: storage_constants_def)
  show "transaction_of_json (jsorted (json_of_transaction t)) = t"
    unfolding transaction_of_json_def fld by (simp add: json_of_transaction_def transaction_base_def field_def storage_constants_def comp_def head_written(1) inventories_written(1) [OF inv])
qed

end
