(* ===== verification/RevisionCanonical.thy ===== *)
theory RevisionCanonical
  imports RevisionModels "HOL-Library.Product_Lexorder" "HOL-Library.AList"
begin

text \<open>
  \<open>storage/revision_canonical.py\<close>: portable names, the table of admitted artifacts, the order of
  payloads, provenance bindings and their heads, the domain-separated digests and the admission of
  a request (\<open>build_inventory\<close>).  Three checks that look inside a payload are a parameter
  (\<open>admission\<close>): the replay of the classification (\<open>classify_artifact\<close>), the schema of the
  payload (\<open>_validated_payload\<close>) and the correlation of payloads with each other (the
  isolated-job clause of \<open>build_inventory\<close> and \<open>_validate_source_graph\<close>).
\<close>

section \<open>Digests\<close>

definition sha256_bytes :: "byte list \<Rightarrow> string" where "sha256_bytes data = sha256_hex data"

definition domain_sha256 :: "string \<Rightarrow> byte list \<Rightarrow> string" where
  "domain_sha256 domain data = sha256_bytes (utf8 domain @ [0] @ data)"

definition canonical_domain_sha256 :: "string \<Rightarrow> json \<Rightarrow> string" where
  "canonical_domain_sha256 domain value = domain_sha256 domain (canonical_json_bytes value)"

lemma is_sha256_bytes [simp]: "is_sha256 (sha256_bytes data)" "is_sha256 (domain_sha256 d data)"
  "is_sha256 (canonical_domain_sha256 d j)"
  using sha256_hex_format
  by (simp_all add: is_sha256_def SHA256_PATTERN_def fullmatch_rep_cls sha256_bytes_def domain_sha256_def
      canonical_domain_sha256_def hex_chars_def)

definition classification_evidence_sha256 :: "json \<Rightarrow> string" where
  "classification_evidence_sha256 e = canonical_domain_sha256 ''poker-run-classification-evidence-v1'' e"

definition binding_sha256 :: "json \<Rightarrow> string" where
  "binding_sha256 b = canonical_domain_sha256 ''poker-run-provenance-binding-v1'' b"

definition inventory_sha256 :: "inventory_entry list \<Rightarrow> string" where
  "inventory_sha256 es =
     canonical_domain_sha256 ''poker-run-storage-inventory-v1'' (JList (map json_of_inventory es))"

definition transaction_sha256 :: "transaction \<Rightarrow> string" where
  \<comment> \<open>of the model without its own digest\<close>
  "transaction_sha256 t = canonical_domain_sha256 ''poker-run-storage-transaction-v1'' (JObj (transaction_base t))"

section \<open>Names\<close>

definition upper :: "string \<Rightarrow> string" where
  "upper s = map (\<lambda>c. if c \<in> set lower_chars then char_of ((of_char c :: nat) - 32) else c) s"

definition ascii_casefold :: "string \<Rightarrow> string" where
  "ascii_casefold s = map (\<lambda>c. if c \<in> set upper_chars then char_of ((of_char c :: nat) + 32) else c) s"

definition WINDOWS_RESERVED :: "string list" where
  "WINDOWS_RESERVED = [''CON'', ''PRN'', ''AUX'', ''NUL''] @
     concat (map (\<lambda>d. [''COM'' @ [d], ''LPT'' @ [d]]) ''123456789'')"

definition device_alias :: "string \<Rightarrow> bool" where
  "device_alias s \<longleftrightarrow> upper (takeWhile (\<lambda>c. c \<noteq> CHR ''.'') s) \<in> set WINDOWS_RESERVED"

definition ends_badly :: "string \<Rightarrow> bool" where
  "ends_badly s \<longleftrightarrow> s \<noteq> [] \<and> last s \<in> {CHR ''.'', CHR '' ''}"

definition validate_run_id :: "string \<Rightarrow> storage_exn + string" where
  "validate_run_id run_id =
     (if \<not> fullmatch STORAGE_PORTABLE_ID run_id then Inl (Canonical_error ''invalid portable run ID'')
      else if \<not> control_string_ok run_id then Inl (Canonical_error ''run ID contains unsafe control metadata'')
      else if ends_badly run_id then Inl (Canonical_error ''run ID cannot end in dot or space'')
      else if device_alias run_id then Inl (Canonical_error ''run ID uses a reserved device alias'')
      else Inr run_id)"

definition run_id_sha256 :: "string \<Rightarrow> storage_exn + string" where
  "run_id_sha256 run_id = bindE (validate_run_id run_id) (\<lambda>r. Inr (sha256_bytes (utf8 r)))"

definition run_lock_key_sha256 :: "string \<Rightarrow> storage_exn + string" where
  "run_lock_key_sha256 run_id = bindE (validate_run_id run_id)
     (\<lambda>r. Inr (domain_sha256 ''poker-run-lock-key-v1'' (utf8 (ascii_casefold r))))"

definition validate_segment :: "string \<Rightarrow> storage_exn + unit" where
  "validate_segment seg =
     (if seg \<in> {'''', ''.'', ''..''} \<or> ends_badly seg then Inl (Canonical_error ''unsafe portable path segment'')
      else if CHR '':'' \<in> set seg \<or> CHR 0x5C \<in> set seg
      then Inl (Canonical_error ''portable path cannot contain colon or backslash'')
      else if device_alias seg then Inl (Canonical_error ''portable path uses a reserved device alias'')
      else Inr ())"

fun contains :: "string \<Rightarrow> string \<Rightarrow> bool" where
  "contains p [] = (p = [])"
| "contains p (c # s) = (starts_with p (c # s) \<or> contains p s)"

definition validate_logical_name :: "string \<Rightarrow> storage_exn + string" where
  "validate_logical_name name =
     (if name = [] \<or> hd name \<in> {CHR ''/'', CHR 0x5C} \<or> contains ''://'' name
      then Inl (Canonical_error ''logical name is not a relative POSIX path'')
      else if \<not> control_string_ok name
      then Inl (Canonical_error ''logical name contains unsafe control metadata'')
      else bindE (foldE (\<lambda>_ seg. validate_segment seg) () (path_parts name)) (\<lambda>_. Inr name))"

section \<open>The table of admitted artifacts\<close>

type_synonym table_entry = "string \<times> string \<times> string \<times> string"

definition json_artifact :: "string \<Rightarrow> string \<Rightarrow> string \<Rightarrow> string \<times> table_entry" where
  "json_artifact name schema origin =
     (name, ''application/json'', ''poker-run-storage-json-v1'', schema, origin)"

definition text_artifact :: "string \<Rightarrow> string \<Rightarrow> string \<Rightarrow> string \<times> table_entry" where
  "text_artifact name schema origin =
     (name, ''text/plain'', ''poker-run-storage-utf8-text-v1'', schema, origin)"

definition FIXED_ARTIFACT_TABLE :: "(string \<times> table_entry) list" where
  "FIXED_ARTIFACT_TABLE =
   [text_artifact ''bounded_river_call_ev_source.txt'' ''poker-bounded-river-call-ev-source-artifact-v1''
      ''bounded_river_call_ev_source'',
    json_artifact ''bounded_river_call_ev_range.json'' ''poker-bounded-river-call-ev-range-artifact-v1''
      ''bounded_river_call_ev_range'',
    json_artifact ''bounded_river_call_ev_candidate.json''
      ''poker-bounded-river-call-ev-candidate-artifact-v1'' ''bounded_river_call_ev_candidate'',
    json_artifact ''bounded_river_call_ev_confirmation.json''
      ''poker-bounded-river-call-ev-confirmation-artifact-v1'' ''bounded_river_call_ev_confirmation'',
    json_artifact ''bounded_river_call_ev_budget_failure.json''
      ''poker-bounded-river-call-ev-budget-failure-evidence-artifact-v1''
      ''bounded_river_call_ev_budget_failure_evidence'',
    text_artifact ''confirmed_review_source.txt'' ''poker-confirmed-review-source-artifact-v1''
      ''confirmed_review_source'',
    json_artifact ''confirmed_review_candidate.json'' ''poker-confirmed-review-candidate-artifact-v1''
      ''confirmed_review_candidate'',
    json_artifact ''confirmed_review_confirmation.json'' ''poker-confirmed-review-confirmation-artifact-v1''
      ''confirmed_review_confirmation'',
    text_artifact ''bounded_nl_source.txt'' ''poker-bounded-nl-source-artifact-v1'' ''bounded_nl_source'',
    json_artifact ''bounded_nl_candidate.json'' ''poker-bounded-nl-candidate-artifact-v1'' ''bounded_nl_candidate'',
    json_artifact ''bounded_nl_confirmation.json'' ''poker-bounded-nl-confirmation-artifact-v1''
      ''bounded_nl_confirmation'',
    json_artifact ''input.json'' ''poker-case-input-artifact-v1'' ''case_input'',
    json_artifact ''range_equity_binding.json'' ''poker-versioned-range-river-equity-binding-artifact-v1''
      ''range_equity_binding'',
    json_artifact ''bounded_river_call_ev_binding.json'' ''poker-bounded-river-call-ev-binding-artifact-v1''
      ''bounded_river_call_ev_binding'',
    json_artifact ''normalization.json'' ''poker-normalization-result-artifact-v1'' ''normalization_record'',
    json_artifact ''normalized_case.json'' ''poker-normalized-case-artifact-v1'' ''normalization_output'',
    json_artifact ''assumptions.json'' ''poker-assumption-list-artifact-v1'' ''assumption_ledger'',
    (''evidence.jsonl'', ''application/x-ndjson'', ''poker-run-storage-jsonl-v1'',
      ''poker-evidence-record-jsonl-artifact-v1'', ''evidence_ledger''),
    json_artifact ''approvals.json'' ''poker-approval-request-list-artifact-v1'' ''approval_ledger'',
    json_artifact ''assignments.json'' ''poker-agent-assignment-list-artifact-v1'' ''assignment_ledger'',
    json_artifact ''agent_execution_records.json'' ''poker-agent-execution-record-list-artifact-v1''
      ''agent_execution_ledger'',
    json_artifact ''security_events.json'' ''poker-security-event-list-artifact-v1'' ''security_event_ledger'',
    json_artifact ''disputes.json'' ''poker-dispute-list-artifact-v1'' ''dispute_ledger'',
    json_artifact ''final_report.json'' ''poker-final-report-artifact-v1'' ''final_report_json'',
    (''final_report.md'', ''text/markdown'', ''poker-run-storage-utf8-text-v1'',
      ''poker-final-report-markdown-artifact-v1'', ''final_report_markdown''),
    json_artifact ''confirmed_review_provenance.json'' ''poker-confirmed-review-provenance-artifact-v1''
      ''confirmed_review_provenance'',
    json_artifact ''bounded_nl_provenance.json'' ''poker-bounded-nl-provenance-artifact-v1'' ''bounded_nl_provenance'',
    json_artifact ''bounded_river_call_ev_result.json'' ''poker-bounded-river-call-ev-result-artifact-v1''
      ''bounded_river_call_ev_result'',
    json_artifact ''bounded_river_call_ev_provenance.json''
      ''poker-bounded-river-call-ev-provenance-artifact-v1'' ''bounded_river_call_ev_provenance'',
    json_artifact ''budget_state.json'' ''poker-durable-budget-state-artifact-v1'' ''budget_state'',
    json_artifact ''isolated_job_state.json'' ''poker-isolated-job-state-artifact-v1'' ''isolated_job_state'',
    text_artifact ''stdout.txt'' ''poker-isolated-job-stdout-artifact-v1'' ''isolated_job_stdout'',
    text_artifact ''stderr.txt'' ''poker-isolated-job-stderr-artifact-v1'' ''isolated_job_stderr'']"

definition affixed :: "string \<Rightarrow> string \<Rightarrow> string \<Rightarrow> string option" where
  \<comment> \<open>the identifier group of the variable names: what is between a prefix and a suffix\<close>
  "affixed pre suf s =
     (let middle = drop (length pre) (take (length s - length suf) s) in
      if s = pre @ middle @ suf \<and> fullmatch STORAGE_PORTABLE_ID middle then Some middle else None)"

definition variable_entry :: "string option \<Rightarrow> string \<Rightarrow> string \<Rightarrow> string \<Rightarrow> storage_exn + table_entry" where
  "variable_entry version ident schema origin = bindE (validate_run_id ident) (\<lambda>_.
     if version \<notin> {None, Some schema}
     then Inl (Canonical_error ''logical artifact schema version mismatch'')
     else Inr (''application/json'', ''poker-run-storage-json-v1'', schema, origin))"

definition fixed_entry :: "string \<Rightarrow> string option \<Rightarrow> table_entry \<Rightarrow> storage_exn + table_entry" where
  "fixed_entry name version e =
     (if name = ''final_report.json'' then
        (let v = (case version of None \<Rightarrow> ''poker-final-report-artifact-v1'' | Some v \<Rightarrow> v) in
         if v = ''poker-final-report-artifact-v1'' then Inr e
         else if v = ''poker-final-report-artifact-v2''
         then Inr (fst e, fst (snd e), ''poker-final-report-artifact-v2'', snd (snd (snd e)))
         else Inl (Canonical_error ''unknown final-report artifact schema version''))
      else if version \<notin> {None, Some (fst (snd (snd e)))}
      then Inl (Canonical_error ''logical artifact schema version mismatch'')
      else Inr e)"

definition artifact_table_entry :: "string \<Rightarrow> string option \<Rightarrow> storage_exn + table_entry" where
  "artifact_table_entry name version = bindE (validate_logical_name name) (\<lambda>_.
     case map_of FIXED_ARTIFACT_TABLE name of
       Some e \<Rightarrow> fixed_entry name version e
     | None \<Rightarrow>
         (case affixed ''agent_reports/'' ''.json'' name of
            Some i \<Rightarrow> variable_entry version i ''poker-agent-report-artifact-v1'' ''agent_report''
          | None \<Rightarrow>
         (case affixed ''tool_results/'' ''.input.json'' name of
            Some i \<Rightarrow> variable_entry version i ''poker-tool-input-artifact-v1'' ''tool_input''
          | None \<Rightarrow>
         (case affixed ''tool_results/'' ''.json'' name of
            Some i \<Rightarrow> variable_entry version i ''poker-tool-result-artifact-v1'' ''tool_result''
          | None \<Rightarrow> Inl (Canonical_error ''logical artifact is not admitted by P2-012A'')))))"

definition PAYLOAD_ORDER_PREFIX :: "string list" where
  "PAYLOAD_ORDER_PREFIX =
     [''bounded_river_call_ev_source.txt'', ''bounded_river_call_ev_range.json'',
      ''bounded_river_call_ev_candidate.json'', ''bounded_river_call_ev_confirmation.json'',
      ''confirmed_review_source.txt'', ''confirmed_review_candidate.json'', ''confirmed_review_confirmation.json'',
      ''bounded_nl_source.txt'', ''bounded_nl_candidate.json'', ''bounded_nl_confirmation.json'', ''input.json'',
      ''normalization.json'', ''normalized_case.json'', ''range_equity_binding.json'',
      ''bounded_river_call_ev_binding.json'', ''assumptions.json'', ''evidence.jsonl'', ''approvals.json'',
      ''assignments.json'', ''agent_execution_records.json'', ''security_events.json'']"

definition PAYLOAD_ORDER_SUFFIX :: "string list" where
  \<comment> \<open>the names whose keys follow the variable ones, from \<open>base + 3\<close>\<close>
  "PAYLOAD_ORDER_SUFFIX =
     [''bounded_river_call_ev_result.json'', ''bounded_river_call_ev_budget_failure.json'', ''disputes.json'',
      ''final_report.json'', ''final_report.md'', ''confirmed_review_provenance.json'',
      ''bounded_nl_provenance.json'', ''bounded_river_call_ev_provenance.json'', ''budget_state.json'',
      ''isolated_job_state.json'', ''stdout.txt'', ''stderr.txt'']"

primrec index_of :: "string \<Rightarrow> string list \<Rightarrow> nat" where
  "index_of x [] = 0"
| "index_of x (y # ys) = (if x = y then 0 else Suc (index_of x ys))"

definition ends_with :: "string \<Rightarrow> string \<Rightarrow> bool" where
  "ends_with suf s \<longleftrightarrow> length suf \<le> length s \<and> drop (length s - length suf) s = suf"

definition payload_order_key :: "string \<Rightarrow> storage_exn + (nat \<times> string)" where
  "payload_order_key name =
     (let base = length PAYLOAD_ORDER_PREFIX in
      if name \<in> set PAYLOAD_ORDER_PREFIX then Inr (index_of name PAYLOAD_ORDER_PREFIX, [])
      else if ends_with ''.input.json'' name \<and> starts_with ''tool_results/'' name then Inr (base, name)
      else if starts_with ''tool_results/'' name then Inr (base + 1, name)
      else if starts_with ''agent_reports/'' name then Inr (base + 2, name)
      else if name \<in> set PAYLOAD_ORDER_SUFFIX then Inr (base + 3 + index_of name PAYLOAD_ORDER_SUFFIX, [])
      else Inl (Canonical_error ''logical artifact has no approved dependency order''))"

section \<open>Provenance bindings\<close>

type_synonym key_part = "int \<times> string" \<comment> \<open>an integer, or a string beside 0\<close>

definition str_key :: "json \<Rightarrow> string \<Rightarrow> key_part" where "str_key b k = (0, str_of (field k b))"

definition binding_primary_key :: "json \<Rightarrow> key_part list" where
  "binding_primary_key b =
     (let kind = binding_kind b in (0, kind) #
      (if kind = ''approval_decision'' then [str_key b ''approval_id'']
       else if kind = ''context'' then [str_key b ''context_id'', str_key b ''attempt_id'']
       else if kind = ''phase'' then [str_key b ''run_id'', str_key b ''phase_id'', str_key b ''attempt_id'']
       else if kind = ''budget_policy'' then [str_key b ''policy_sha256'']
       else if kind = ''tool'' then [str_key b ''run_id'', str_key b ''phase_attempt_id'',
         (int_of (field ''ordinal'' b), []), str_key b ''result_id'']
       else if kind = ''local_data'' then [str_key b ''policy_id'', str_key b ''logical_name'']
       else if kind = ''source'' then [str_key b ''source_id'']
       else [str_key b ''report_id'']))"

definition sort_bindings :: "json list \<Rightarrow> json list" where
  "sort_bindings bs = sort_key (\<lambda>b. (binding_primary_key b, dumps b)) bs"

definition same_identity :: "(key_part list \<times> string) list \<Rightarrow> json \<Rightarrow> bool" where
  \<comment> \<open>\<open>seen_primary.setdefault(primary, canonical) == canonical\<close>\<close>
  "same_identity seen b \<longleftrightarrow> pred_option (\<lambda>text. text = dumps b) (map_of seen (binding_primary_key b))"

definition note_identity :: "(key_part list \<times> string) list \<Rightarrow> json \<Rightarrow> (key_part list \<times> string) list" where
  "note_identity seen b =
     (case map_of seen (binding_primary_key b) of None \<Rightarrow> (binding_primary_key b, dumps b) # seen | _ \<Rightarrow> seen)"

definition canonicalize_bindings :: "json list \<Rightarrow> storage_exn + json list" where
  "canonicalize_bindings bs =
     (let decorated = sort_bindings bs in
      bindE (foldE (\<lambda>(digests, seen) b.
          if binding_sha256 b \<in> set digests then Inl (Canonical_error ''duplicate provenance binding'')
          else if \<not> same_identity seen b
          then Inl (Canonical_error ''conflicting provenance primary identity'')
          else Inr (binding_sha256 b # digests, note_identity seen b)) ([], []) decorated)
        (\<lambda>_. Inr decorated))"

type_synonym kind_table = "(string \<times> (string \<times> json) list) list"

definition add_binding :: "kind_table \<Rightarrow> json \<Rightarrow> kind_table" where
  \<comment> \<open>\<open>per_kind.setdefault(binding.kind, {})[digest] = binding\<close>\<close>
  "add_binding t b = AList.update (binding_kind b)
     (AList.update (binding_sha256 b) b (case map_of t (binding_kind b) of None \<Rightarrow> [] | Some d \<Rightarrow> d)) t"

definition head_of_kind :: "string \<Rightarrow> json list \<Rightarrow> storage_exn + provenance_head" where
  "head_of_kind kind bs = bindE (canonicalize_bindings bs) (\<lambda>ordered.
     let digests = map binding_sha256 ordered in
     Inr \<lparr>ph_kind = kind, ph_binding_count = int (length digests),
          ph_bindings_sha256 = domain_sha256 ''poker-run-provenance-head-v1''
            (utf8 kind @ [0] @ canonical_json_bytes (JList (map JStr digests)))\<rparr>)"

definition provenance_heads :: "inventory_entry list \<Rightarrow> storage_exn + provenance_head list" where
  "provenance_heads es =
     bindE (foldE (\<lambda>(table, seen) b.
         if \<not> same_identity seen b
         then Inl (Canonical_error ''conflicting cross-artifact provenance identity'')
         else Inr (add_binding table b, note_identity seen b))
       ([], []) (concat (map ie_provenance_bindings es)))
     (\<lambda>(table, seen). mapE (\<lambda>kind. head_of_kind kind
         (case map_of table kind of None \<Rightarrow> [] | Some d \<Rightarrow> map snd d)) (sort (map fst table)))"

definition source_sort_key :: "json \<Rightarrow> key_part \<times> string \<times> key_part" where
  "source_sort_key b =
     (let opt = (\<lambda>k. if field k b = JNull then (0, []) else (1, str_of (field k b))) in
      (opt ''source_logical_name'', str_of (field ''source_id'' b), opt ''consumer_record_id''))"

definition upstream_source_sha256 :: "json list \<Rightarrow> string" where
  "upstream_source_sha256 bs = canonical_domain_sha256 ''poker-run-upstream-bindings-v1''
     (JList (sort_key source_sort_key (filter (\<lambda>b. binding_kind b = ''source'') bs)))"

section \<open>Admission\<close>

record admission =
  ad_classification_replays :: "artifact \<Rightarrow> bool option" \<comment> \<open>\<open>None\<close> when \<open>classify_artifact\<close> raises\<close>
  ad_payload :: "artifact \<Rightarrow> string \<Rightarrow> string option" \<comment> \<open>the message of the \<open>CanonicalStorageError\<close> raised\<close>
  ad_graph :: "publish_revision \<Rightarrow> inventory_entry list \<Rightarrow> string option"

definition refusal :: "string option \<Rightarrow> storage_exn + unit" where
  "refusal r = (case r of None \<Rightarrow> Inr () | Some msg \<Rightarrow> Inl (Canonical_error msg))"

definition classify_and_verify :: "admission \<Rightarrow> artifact \<Rightarrow> storage_exn + unit" where
  "classify_and_verify ad a =
     (let e = ar_classification_evidence a in
      if ar_policy_sha256 a \<noteq> APPROVED_POLICY_SHA256
      then Inl (Canonical_error ''local-data policy digest mismatch'')
      else if ad_classification_replays ad a = None
      then Inl (Canonical_error ''artifact classification replay failed'')
      else if ad_classification_replays ad a = Some False
      then Inl (Canonical_error ''artifact classification does not replay exactly'')
      else if ar_classification a \<notin> {''public'', ''internal''}
      then Inl (Canonical_error ''artifact classification cannot be persisted'')
      else if ar_classification_source a \<notin> {''explicit_trusted'', ''source_inheritance''} \<and>
        \<not> (ar_logical_name a = ''budget_state.json'' \<and> ar_classification_source a = ''default_internal'')
      then Inl (Canonical_error ''artifact requires trusted explicit or inherited classification'')
      else if \<not> bool_of (field ''restricted_secret_check_completed'' e) \<or>
        bool_of (field ''contains_restricted_secret'' e)
      then Inl (Canonical_error ''artifact requires a completed clean restricted-secret check'')
      else Inr ())"

definition local_bindings :: "json list \<Rightarrow> json list" where
  "local_bindings bs = filter (\<lambda>b. binding_kind b = ''local_data'') bs"

definition local_data_binding :: "artifact \<Rightarrow> storage_exn + json" where
  "local_data_binding a =
     (case local_bindings (ar_provenance_bindings a) of
        [b] \<Rightarrow>
          if field ''policy_id'' b \<noteq> JStr APPROVED_POLICY_ID \<or>
             field ''policy_version'' b \<noteq> JStr ''1.0.0'' \<or>
             field ''policy_sha256'' b \<noteq> JStr (ar_policy_sha256 a) \<or>
             field ''logical_name'' b \<noteq> JStr (ar_logical_name a) \<or>
             field ''classification'' b \<noteq> JStr (ar_classification a) \<or>
             field ''classification_source'' b \<noteq> JStr (ar_classification_source a) \<or>
             field ''classification_evidence'' b \<noteq> ar_classification_evidence a \<or>
             field ''classification_evidence_sha256'' b
               \<noteq> JStr (classification_evidence_sha256 (ar_classification_evidence a))
          then Inl (Canonical_error ''local-data binding does not match its artifact'')
          else Inr b
      | _ \<Rightarrow> Inl (Canonical_error ''artifact requires exactly one local-data binding''))"

definition validate_artifact :: "admission \<Rightarrow> artifact \<Rightarrow> string \<Rightarrow> int \<Rightarrow> storage_exn + unit" where
  "validate_artifact ad a run_id limit =
     bindE (validate_logical_name (ar_logical_name a)) (\<lambda>_.
     bindE (artifact_table_entry (ar_logical_name a) (Some (ar_artifact_schema_version a))) (\<lambda>expected.
       if (ar_media_type a, ar_serialization a, ar_artifact_schema_version a, ar_origin_kind a) \<noteq> expected
       then Inl (Canonical_error ''logical media/schema/origin admission mismatch'')
       else if ar_serialization a = ''opaque-bytes-v1''
       then Inl (Canonical_error ''opaque payloads are not admitted in P2-012A'')
       else if limit < int (length (ar_exact_bytes a))
       then Inl (Canonical_error ''artifact exceeds the exact byte limit'')
       else bindE (classify_and_verify ad a) (\<lambda>_. bindE (local_data_binding a) (\<lambda>_.
         bindE (canonicalize_bindings (ar_provenance_bindings a)) (\<lambda>_. refusal (ad_payload ad a run_id))))))"

definition inventory_of_artifact :: "artifact \<Rightarrow> storage_exn + inventory_entry" where
  "inventory_of_artifact a = bindE (canonicalize_bindings (ar_provenance_bindings a)) (\<lambda>bs.
     let e = \<lparr>ie_logical_name = ar_logical_name a,
       ie_revision_relative_path = ''payload/'' @ ar_logical_name a,
       ie_media_type = ar_media_type a, ie_artifact_schema_version = ar_artifact_schema_version a,
       ie_serialization = ar_serialization a, ie_size_bytes = int (length (ar_exact_bytes a)),
       ie_sha256 = sha256_bytes (ar_exact_bytes a), ie_required = ar_required a,
       ie_classification = ar_classification a, ie_classification_source = ar_classification_source a,
       ie_classification_evidence = ar_classification_evidence a,
       ie_classification_evidence_sha256 = classification_evidence_sha256 (ar_classification_evidence a),
       ie_source_sha256 = upstream_source_sha256 (ar_provenance_bindings a),
       ie_provenance_bindings = bs\<rparr> in
     if inventory_entry_ok e then Inr e else Inl Validation_error)"

definition exclusive_artifacts :: "publish_revision \<Rightarrow> storage_exn + unit" where
  \<comment> \<open>budget state and isolated-job state have their own producer and their own revisions\<close>
  "exclusive_artifacts q =
     (let names = map ar_logical_name (pr_artifacts q);
          isolated = [''isolated_job_state.json'', ''stdout.txt'', ''stderr.txt''];
          isolated_producer = pr_producer_id q = ''p2-028a-isolated-job-control'' in
      if ''budget_state.json'' \<in> set names \<and> (length names \<noteq> 1 \<or>
           pr_producer_id q \<noteq> ''p2-011b-durable-budget'' \<or> pr_producer_version q \<noteq> ''0.1.0'')
      then Inl (Canonical_error ''durable budget state requires its dedicated producer and exclusive revision'')
      else if isolated_producer \<and> (\<not> set isolated \<subseteq> set names \<or> length names \<noteq> 3 \<or>
             pr_producer_version q \<noteq> ''1.0.0'') \<or>
           set isolated \<inter> set names \<noteq> {} \<and> \<not> isolated_producer
      then Inl (Canonical_error
             ''isolated-job state requires its dedicated producer and complete artifact set'')
      else Inr ())"

definition admit_artifact ::
    "admission \<Rightarrow> publish_revision \<Rightarrow> int \<Rightarrow> inventory_entry list \<Rightarrow> artifact \<Rightarrow> storage_exn + inventory_entry list" where
  \<comment> \<open>the body of the loop; the names seen are those of the entries so far\<close>
  "admit_artifact ad q limit es a =
     (if ar_logical_name a \<in> set (map ie_logical_name es)
      then Inl (Canonical_error ''duplicate logical artifact'')
      else if ascii_casefold (ar_logical_name a) \<in> set (map (\<lambda>e. ascii_casefold (ie_logical_name e)) es)
      then Inl (Canonical_error ''ASCII-case artifact path alias'')
      else bindE (validate_artifact ad a (pr_run_id q) limit) (\<lambda>_.
        bindE (inventory_of_artifact a) (\<lambda>e. Inr (es @ [e]))))"

definition build_inventory ::
    "admission \<Rightarrow> publish_revision \<Rightarrow> int \<Rightarrow> storage_exn + (inventory_entry list \<times> provenance_head list)" where
  "build_inventory ad q limit =
     bindE (validate_run_id (pr_run_id q)) (\<lambda>_.
     if pr_artifacts q = [] then Inl (Canonical_error ''revision requires at least one artifact'')
     else bindE (exclusive_artifacts q) (\<lambda>_.
     bindE (mapE (\<lambda>a. payload_order_key (ar_logical_name a)) (pr_artifacts q)) (\<lambda>_.
     let artifacts = sort_key (\<lambda>a. projr (payload_order_key (ar_logical_name a))) (pr_artifacts q) in
     bindE (foldE (admit_artifact ad q limit) [] artifacts) (\<lambda>es.
     bindE (refusal (ad_graph ad q es)) (\<lambda>_.
     bindE (provenance_heads es) (\<lambda>heads. Inr (es, heads)))))))"

end
