(* ===== verification/RevisionFiles.thy ===== *)
theory RevisionFiles
  imports RevisionCanonical
begin

text \<open>
  The files of one run of a revision root and the operating system under them.  A record holds the
  run's namespace (\<open>current.json\<close>, the pointer temporaries, \<open>transactions\<close>, \<open>revisions\<close>, how many
  of the six control directories exist) and its lock files.  Every call of the operating
  system takes one decision from a list: it succeeds, it raises (having had none, part or
  all of its effect), or the process dies there.  An empty list means that nothing fails any more,
  so every list of decisions is one behaviour of the world, and the reads of a file system
  that another process has damaged are among them.
\<close>

section \<open>Files\<close>

record rev_dir =
  rd_transaction :: "byte list option"
  rd_manifest :: "byte list option"
  rd_payload :: "(string \<times> byte list) list option" \<comment> \<open>files by their path below \<open>payload\<close>\<close>
  rd_payload_dirs :: "string list"

record run_files =
  fs_current :: "byte list option"
  fs_pointer_temps :: "(string \<times> byte list) list"
  fs_staging :: "(string \<times> rev_dir) list"
  fs_revisions :: "((int \<times> string) \<times> rev_dir) list"
  fs_bootstrapped :: nat
  fs_metadata :: "byte list option"
  fs_metadata_temps :: "(string \<times> byte list) list"
  fs_authority :: "byte list option"
  fs_runs :: "string list"
  fs_legacy_runs :: "string list"

definition empty_dir :: rev_dir where
  "empty_dir = \<lparr>rd_transaction = None, rd_manifest = None, rd_payload = None, rd_payload_dirs = []\<rparr>"

definition fresh_run :: run_files where
  \<comment> \<open>an initialized root before the run is first published\<close>
  "fresh_run = \<lparr>fs_current = None, fs_pointer_temps = [], fs_staging = [], fs_revisions = [],
     fs_bootstrapped = 0, fs_metadata = None, fs_metadata_temps = [], fs_authority = None,
     fs_runs = [], fs_legacy_runs = []\<rparr>"

definition opt_size :: "byte list option \<Rightarrow> int" where
  "opt_size x = (case x of None \<Rightarrow> 0 | Some d \<Rightarrow> int (length d))"

definition total_size :: "('a \<times> byte list) list \<Rightarrow> int" where
  "total_size fs = sum_list (map (\<lambda>f. int (length (snd f))) fs)"

definition dir_size :: "rev_dir \<Rightarrow> int" where
  "dir_size d = opt_size (rd_transaction d) + opt_size (rd_manifest d)
     + (case rd_payload d of None \<Rightarrow> 0 | Some fs \<Rightarrow> total_size fs)"

definition run_physical_bytes :: "run_files \<Rightarrow> int" where
  "run_physical_bytes fs =
     opt_size (fs_current fs) + total_size (fs_pointer_temps fs)
     + sum_list (map (\<lambda>d. dir_size (snd d)) (fs_staging fs))
     + sum_list (map (\<lambda>d. dir_size (snd d)) (fs_revisions fs))
     + opt_size (fs_metadata fs) + total_size (fs_metadata_temps fs) + opt_size (fs_authority fs)"

section \<open>The operating system\<close>

datatype os_fault =
  Os string | Missing | Refused string | Bad_payload run_code | Busy \<comment> \<open>a locked file\<close>

definition exn_of :: "os_fault \<Rightarrow> storage_exn" where
  "exn_of f = (case f of
     Os msg \<Rightarrow> Os_error msg | Missing \<Rightarrow> File_missing | Refused msg \<Rightarrow> Canonical_error msg
   | Bad_payload code \<Rightarrow> Artifact_boundary code | Busy \<Rightarrow> Os_error ''resource temporarily unavailable'')"

datatype decision =
  Done
| Fails nat os_fault \<comment> \<open>raises; 0 is before any effect\<close>
| Dies nat \<comment> \<open>the process ends\<close>

record world =
  w_files :: run_files
  w_decisions :: "decision list"

type_synonym 'a io = "world \<Rightarrow> (storage_exn + 'a) \<times> world"

definition retIO :: "'a \<Rightarrow> 'a io" where "retIO x w = (Inr x, w)"
definition raiseIO :: "storage_exn \<Rightarrow> 'a io" where "raiseIO e w = (Inl e, w)"
definition liftIO :: "storage_exn + 'a \<Rightarrow> 'a io" where "liftIO m w = (m, w)"

definition bindIO :: "'a io \<Rightarrow> ('a \<Rightarrow> 'b io) \<Rightarrow> 'b io" where
  "bindIO m f w = (case m w of (Inl e, w1) \<Rightarrow> (Inl e, w1) | (Inr x, w1) \<Rightarrow> f x w1)"

definition thenIO :: "'a io \<Rightarrow> 'b io \<Rightarrow> 'b io" where "thenIO m n = bindIO m (\<lambda>_. n)"

definition exceptIO :: "'a io \<Rightarrow> (storage_exn \<Rightarrow> 'a io) \<Rightarrow> 'a io" where
  \<comment> \<open>\<open>try: m except Exception as exc: h(exc)\<close>; the end of the process is not caught\<close>
  "exceptIO m h w = (case m w of
     (Inl Killed, w1) \<Rightarrow> (Inl Killed, w1) | (Inl e, w1) \<Rightarrow> h e w1 | (Inr x, w1) \<Rightarrow> (Inr x, w1))"

primrec stepsIO :: "unit io list \<Rightarrow> unit io" where
  "stepsIO [] = retIO ()"
| "stepsIO (m # ms) = thenIO m (stepsIO ms)"

primrec eachIO :: "('a \<Rightarrow> unit io) \<Rightarrow> 'a list \<Rightarrow> unit io" where
  "eachIO f [] = retIO ()"
| "eachIO f (x # xs) = thenIO (f x) (eachIO f xs)"

definition filesIO :: "run_files io" where "filesIO w = (Inr (w_files w), w)"

definition next_decision :: "world \<Rightarrow> decision \<times> world" where
  "next_decision w = (case w_decisions w of [] \<Rightarrow> (Done, w) | d # ds \<Rightarrow> (d, w\<lparr>w_decisions := ds\<rparr>))"

definition atomic :: "(run_files \<Rightarrow> run_files) \<Rightarrow> unit io" where
  \<comment> \<open>a call whose effect happens entirely or not at all: \<open>mkdir\<close>, \<open>rename\<close>, \<open>os.replace\<close>, creating a file\<close>
  "atomic f w = (case next_decision w of
     (Done, w1) \<Rightarrow> (Inr (), w1\<lparr>w_files := f (w_files w1)\<rparr>)
   | (Fails k e, w1) \<Rightarrow> (Inl (exn_of e), if k = 0 then w1 else w1\<lparr>w_files := f (w_files w1)\<rparr>)
   | (Dies k, w1) \<Rightarrow> (Inl Killed, if k = 0 then w1 else w1\<lparr>w_files := f (w_files w1)\<rparr>))"

definition partial_write :: "(byte list \<Rightarrow> run_files \<Rightarrow> run_files) \<Rightarrow> byte list \<Rightarrow> unit io" where
  \<comment> \<open>a write that fails leaves a prefix of the data\<close>
  "partial_write put data w = (case next_decision w of
     (Done, w1) \<Rightarrow> (Inr (), w1\<lparr>w_files := put data (w_files w1)\<rparr>)
   | (Fails k e, w1) \<Rightarrow> (Inl (exn_of e), w1\<lparr>w_files := put (take k data) (w_files w1)\<rparr>)
   | (Dies k, w1) \<Rightarrow> (Inl Killed, w1\<lparr>w_files := put (take k data) (w_files w1)\<rparr>))"

definition observe :: "(run_files \<Rightarrow> storage_exn + 'a) \<Rightarrow> 'a io" where
  \<comment> \<open>reading: the value of the files, or the exception of a call that fails on the way\<close>
  "observe f w = (case next_decision w of
     (Done, w1) \<Rightarrow> (f (w_files w1), w1)
   | (Fails _ e, w1) \<Rightarrow> (Inl (exn_of e), w1)
   | (Dies _, w1) \<Rightarrow> (Inl Killed, w1))"

definition os_call :: "unit io" where "os_call = observe (\<lambda>_. Inr ())"

definition at_boundary_of :: "boundary \<Rightarrow> 'a io \<Rightarrow> 'a io" where
  "at_boundary_of b m = exceptIO m (\<lambda>_. raiseIO (Storage_boundary b))"

section \<open>The verified primitives of the store\<close>

definition directory_sync :: "bool \<Rightarrow> dir_sync io" where
  \<comment> \<open>\<open>_directory_sync\<close>; on Windows a directory cannot be synchronised\<close>
  "directory_sync windows = thenIO os_call (
     if windows then retIO DS_unavailable
     else thenIO (stepsIO
         [at_boundary_of Write_boundary os_call, \<comment> \<open>open\<close>
          at_boundary_of Durability_boundary os_call, \<comment> \<open>fsync\<close>
          at_boundary_of Write_boundary os_call, \<comment> \<open>close\<close>
          at_boundary_of Verification_boundary os_call]) (retIO DS_confirmed))"

definition sync_dir :: "bool \<Rightarrow> unit io" where
  "sync_dir windows = bindIO (directory_sync windows) (\<lambda>_. retIO ())"

definition create_with :: "(run_files \<Rightarrow> bool) \<Rightarrow> (run_files \<Rightarrow> run_files) \<Rightarrow> unit io" where
  \<comment> \<open>\<open>mkdir\<close> and \<open>open("xb")\<close> refuse a name that exists\<close>
  "create_with present create = bindIO filesIO (\<lambda>fs.
     if present fs then raiseIO (Os_error ''file exists'') else atomic create)"

definition write_exclusive_verified ::
    "int \<Rightarrow> (run_files \<Rightarrow> byte list option) \<Rightarrow> (byte list \<Rightarrow> run_files \<Rightarrow> run_files) \<Rightarrow> byte list \<Rightarrow> unit io" where
  "write_exclusive_verified limit get put data =
     (if limit < int (length data)
      then raiseIO (Canonical_error ''control artifact exceeds exact byte limit'')
      else stepsIO
        [os_call,
         at_boundary_of Write_boundary (create_with (\<lambda>fs. get fs \<noteq> None) (put [])),
         at_boundary_of Write_boundary (partial_write put data),
         at_boundary_of Durability_boundary os_call,
         at_boundary_of Write_boundary os_call,
         at_boundary_of Verification_boundary (observe (\<lambda>fs.
           if get fs = Some data then Inr ()
           else Inl (Canonical_error ''written bytes did not reread exactly'')))])"

definition mkdir_verified :: "bool \<Rightarrow> (run_files \<Rightarrow> bool) \<Rightarrow> (run_files \<Rightarrow> run_files) \<Rightarrow> unit io" where
  "mkdir_verified windows present create = stepsIO
     [at_boundary_of Write_boundary (create_with present create),
      at_boundary_of Verification_boundary os_call, sync_dir windows]"

end
