(* ===== verification/RevisionChain.thy ===== *)
theory RevisionChain
  imports RevisionFiles
begin

text \<open>
  The readers of \<open>RunRevisionStore\<close> (\<open>storage/revision_store.py\<close>): preparing a request
  (\<open>_preflight\<close>), verifying one immutable revision directory, and following the chain of
  manifests from \<open>current.json\<close> down to revision 1 (\<open>_read_chain\<close>).  Without faults they are functions
  of the files.  The loop of \<open>_read_chain\<close> terminates because each verified manifest names
  the revision just below the one it was reached as.
\<close>

section \<open>The store's configuration\<close>

record store_config =
  sc_max_artifact_bytes :: int
  sc_max_run_bytes :: int
  sc_producer_id :: string
  sc_producer_version :: string
  sc_admission :: admission
  sc_windows :: bool
  sc_path_error :: "publish_revision \<Rightarrow> string option" \<comment> \<open>the path limits of the platform\<close>
  sc_marker_sha256 :: string
  sc_authority_identity_sha256 :: string
  sc_process_id :: int

section \<open>Failures\<close>

definition run_failure_error :: "string \<Rightarrow> run_failure \<Rightarrow> storage_exn" where
  \<comment> \<open>\<open>_run_failure\<close>: it hashes the run id, and hashing validates it\<close>
  "run_failure_error run_id f = (case run_id_sha256 run_id of
     Inl e \<Rightarrow> e | Inr h \<Rightarrow> Run_error (f\<lparr>rf_run_id_sha256 := h\<rparr>))"

definition plain_run_failure :: "run_code \<Rightarrow> stage \<Rightarrow> run_failure" where
  "plain_run_failure code st =
     \<lparr>rf_code = code, rf_stage = st, rf_reconciliation_required = False, rf_filesystem_effect = FE_none,
      rf_domain_effect = DE_current_unchanged, rf_previous_revision_effect = PE_not_applicable,
      rf_run_id_sha256 = [], rf_transaction_id = None, rf_expected_revision = None,
      rf_observed_revision = None, rf_durability_evidence = None\<rparr>"

definition previous_kept :: "publish_revision \<Rightarrow> previous_effect" where
  "previous_kept q = (if pr_proposed_revision q = 1 then PE_not_applicable else PE_unchanged)"

definition publish_failure :: "publish_revision \<Rightarrow> run_code \<Rightarrow> stage \<Rightarrow> run_failure" where
  "publish_failure q code st = (plain_run_failure code st)
     \<lparr>rf_transaction_id := Some (pr_transaction_id q), rf_expected_revision := pr_expected_revision q,
      rf_previous_revision_effect := previous_kept q\<rparr>"

section \<open>Preparing a request\<close>

record prepared_revision =
  pp_request :: publish_revision
  pp_inventories :: "inventory_entry list"
  pp_transaction :: transaction
  pp_transaction_bytes :: "byte list"
  pp_manifest :: manifest
  pp_manifest_bytes :: "byte list"
  pp_manifest_sha256 :: string
  pp_pointer :: pointer
  pp_pointer_bytes :: "byte list"
  pp_pointer_sha256 :: string

definition unsigned_transaction ::
    "publish_revision \<Rightarrow> inventory_entry list \<Rightarrow> provenance_head list \<Rightarrow> transaction" where
  "unsigned_transaction q es heads =
     \<lparr>tx_run_id = pr_run_id q, tx_transaction_id = pr_transaction_id q,
      tx_proposed_revision = pr_proposed_revision q, tx_expected_revision = pr_expected_revision q,
      tx_expected_manifest_sha256 = pr_expected_manifest_sha256 q,
      tx_expected_pointer_sha256 = pr_expected_pointer_sha256 q, tx_created_at = pr_created_at q,
      tx_producer_id = pr_producer_id q, tx_producer_version = pr_producer_version q,
      tx_artifact_plan = es, tx_provenance_heads = heads, tx_transaction_sha256 = []\<rparr>"

definition transaction_of :: "publish_revision \<Rightarrow> inventory_entry list \<Rightarrow> provenance_head list \<Rightarrow> transaction" where
  "transaction_of q es heads = (let t = unsigned_transaction q es heads in
     t\<lparr>tx_transaction_sha256 := transaction_sha256 t\<rparr>)"

definition manifest_of :: "publish_revision \<Rightarrow> transaction \<Rightarrow> manifest" where
  "manifest_of q t =
     \<lparr>mf_run_id = pr_run_id q, mf_revision = pr_proposed_revision q,
      mf_transaction_id = pr_transaction_id q, mf_transaction_sha256 = tx_transaction_sha256 t,
      mf_previous_revision = pr_expected_revision q,
      mf_previous_manifest_sha256 = pr_expected_manifest_sha256 q,
      mf_expected_pointer_sha256 = pr_expected_pointer_sha256 q, mf_created_at = pr_created_at q,
      mf_producer_id = pr_producer_id q, mf_producer_version = pr_producer_version q,
      mf_inventory_sha256 = inventory_sha256 (tx_artifact_plan t),
      mf_provenance_heads = tx_provenance_heads t, mf_artifacts = tx_artifact_plan t\<rparr>"

definition pointer_of :: "publish_revision \<Rightarrow> manifest \<Rightarrow> string \<Rightarrow> pointer" where
  "pointer_of q m digest =
     \<lparr>po_run_id = pr_run_id q, po_revision = pr_proposed_revision q,
      po_transaction_id = pr_transaction_id q,
      po_revision_relative_path = ''revisions/'' @ revision_name (pr_proposed_revision q) (pr_transaction_id q),
      po_transaction_sha256 = mf_transaction_sha256 m, po_manifest_sha256 = digest,
      po_inventory_sha256 = mf_inventory_sha256 m, po_published_at = pr_created_at q\<rparr>"

definition model :: "('a \<Rightarrow> bool) \<Rightarrow> 'a \<Rightarrow> storage_exn + 'a" where
  "model ok x = (if ok x then Inr x else Inl Validation_error)"

definition prepare :: "store_config \<Rightarrow> publish_revision \<Rightarrow> storage_exn + prepared_revision" where
  \<comment> \<open>the body of \<open>_preflight\<close>\<close>
  "prepare cfg q =
     bindE (validate_run_id (pr_run_id q)) (\<lambda>_.
     if pr_producer_id q \<noteq> sc_producer_id cfg \<or> pr_producer_version q \<noteq> sc_producer_version cfg
     then Inl (Canonical_error ''request producer does not match configured store producer'')
     else case sc_path_error cfg q of Some msg \<Rightarrow> Inl (Canonical_error msg) | None \<Rightarrow>
     bindE (build_inventory (sc_admission cfg) q (sc_max_artifact_bytes cfg)) (\<lambda>(es, heads).
     bindE (model transaction_ok (transaction_of q es heads)) (\<lambda>t.
     bindE (model manifest_ok (manifest_of q t)) (\<lambda>m.
     let m_bytes = canonical_json_bytes (json_of_manifest m); m_sha = sha256_bytes m_bytes in
     bindE (model pointer_ok (pointer_of q m m_sha)) (\<lambda>p.
     let t_bytes = canonical_json_bytes (json_of_transaction t);
         p_bytes = canonical_json_bytes (json_of_pointer p) in
     if list_ex (\<lambda>d. sc_max_artifact_bytes cfg < int (length d)) [t_bytes, m_bytes, p_bytes]
     then Inl (Canonical_error ''control artifact exceeds exact byte limit'')
     else Inr \<lparr>pp_request = q, pp_inventories = es, pp_transaction = t, pp_transaction_bytes = t_bytes,
       pp_manifest = m, pp_manifest_bytes = m_bytes, pp_manifest_sha256 = m_sha, pp_pointer = p,
       pp_pointer_bytes = p_bytes, pp_pointer_sha256 = sha256_bytes p_bytes\<rparr>)))))"

definition exn_message :: "storage_exn \<Rightarrow> string" where
  "exn_message e = (case e of Canonical_error m \<Rightarrow> m | Os_error m \<Rightarrow> m | _ \<Rightarrow> [])"

definition preflight_code :: "string \<Rightarrow> run_code" where
  "preflight_code m =
     (if contains ''path exceeds'' m \<or> contains ''segment exceeds'' m then R_PATH_CONFINEMENT_FAILED
      else if contains ''exceeds'' m then R_ARTIFACT_BUDGET_EXCEEDED
      else if contains ''classification cannot be persisted'' m then R_ENCRYPTION_REQUIRED
      else if contains ''classification'' m \<or> contains ''policy'' m then R_PERSISTENCE_FORBIDDEN
      else if contains ''schema'' m \<or> contains ''canonical'' m then R_ARTIFACT_SCHEMA_ERROR
      else R_INVALID_STORAGE_INPUT)"

definition publish_preflight :: "store_config \<Rightarrow> publish_revision \<Rightarrow> storage_exn + prepared_revision" where
  "publish_preflight cfg q = (case prepare cfg q of
     Inr p \<Rightarrow> Inr p
   | Inl e \<Rightarrow>
       if is_canonical_error e \<or> e = Validation_error
       then Inl (run_failure_error (pr_run_id q)
         (publish_failure q (preflight_code (exn_message e)) St_preflight))
       else Inl e)"

section \<open>One immutable revision\<close>

definition control_bytes :: "int \<Rightarrow> (byte list \<Rightarrow> 'a option) \<Rightarrow> byte list option \<Rightarrow> storage_exn + ('a \<times> byte list \<times> string)" where
  \<comment> \<open>\<open>_read_control\<close>: a missing file fails the link check, which raises \<open>CanonicalStorageError\<close>\<close>
  "control_bytes limit read file = (case file of
     None \<Rightarrow> Inl (Canonical_error ''authority is linked, reparsed, hardlinked, or nonregular'')
   | Some data \<Rightarrow>
       if limit < int (length data)
       then Inl (Canonical_error ''control artifact exceeds exact byte limit'')
       else (case read data of
         None \<Rightarrow> Inl (Canonical_error ''canonical JSON violates its strict schema'')
       | Some v \<Rightarrow> Inr (v, data, sha256_bytes data)))"

definition verify_inventory_entry ::
    "store_config \<Rightarrow> string \<Rightarrow> rev_dir \<Rightarrow> inventory_entry \<Rightarrow> storage_exn + artifact" where
  "verify_inventory_entry cfg run_id d e =
     bindE (artifact_table_entry (ie_logical_name e)
       (if ie_logical_name e = ''final_report.json'' then Some (ie_artifact_schema_version e) else None))
     (\<lambda>expected.
     if ie_revision_relative_path e \<noteq> ''payload/'' @ ie_logical_name e
     then Inl (Canonical_error ''stored payload path is not canonical'')
     else if (ie_media_type e, ie_serialization e, ie_artifact_schema_version e, snd (snd (snd expected))) \<noteq> expected
     then Inl (Canonical_error ''stored artifact admission table mismatch'')
     else case Option.bind (rd_payload d) (\<lambda>fs. map_of fs (ie_logical_name e)) of
       None \<Rightarrow> Inl (Artifact_boundary R_ARTIFACT_MISSING)
     | Some data \<Rightarrow>
         if int (length data) \<noteq> ie_size_bytes e \<or> sha256_bytes data \<noteq> ie_sha256 e
         then Inl (Artifact_boundary R_ARTIFACT_HASH_MISMATCH)
         else (case local_bindings (ie_provenance_bindings e) of
           [local] \<Rightarrow>
             (let a = \<lparr>ar_logical_name = ie_logical_name e, ar_media_type = ie_media_type e,
                ar_artifact_schema_version = ie_artifact_schema_version e,
                ar_serialization = ie_serialization e, ar_exact_bytes = data, ar_required = ie_required e,
                ar_classification = ie_classification e,
                ar_classification_source = ie_classification_source e,
                ar_classification_evidence = ie_classification_evidence e,
                ar_policy_sha256 = str_of (field ''policy_sha256'' local),
                ar_origin_kind = snd (snd (snd expected)),
                ar_provenance_bindings = ie_provenance_bindings e\<rparr> in
              case validate_artifact (sc_admission cfg) a run_id (sc_max_artifact_bytes cfg) of
                Inl _ \<Rightarrow> Inl (Artifact_boundary R_ARTIFACT_SCHEMA_ERROR)
              | Inr _ \<Rightarrow> Inr a)
         | _ \<Rightarrow> Inl (Canonical_error ''stored payload lacks local-data provenance'')))"

datatype dir_name = Staging_name string | Revision_name int string

definition transaction_identity :: "dir_name \<Rightarrow> string \<Rightarrow> transaction \<Rightarrow> bool" where
  "transaction_identity name run_id t \<longleftrightarrow>
     transaction_sha256 t = tx_transaction_sha256 t \<and> tx_run_id t = run_id \<and>
     (case name of
        Staging_name txn \<Rightarrow> tx_transaction_id t = txn
      | Revision_name n txn \<Rightarrow> tx_transaction_id t = txn \<and> tx_proposed_revision t = n)"

definition manifest_matches :: "store_config \<Rightarrow> string \<Rightarrow> transaction \<Rightarrow> manifest \<Rightarrow> bool" where
  "manifest_matches cfg run_id t m \<longleftrightarrow>
     mf_run_id m = run_id \<and> mf_revision m = tx_proposed_revision t \<and>
     mf_transaction_id m = tx_transaction_id t \<and> mf_transaction_sha256 m = tx_transaction_sha256 t \<and>
     mf_previous_revision m = tx_expected_revision t \<and>
     mf_previous_manifest_sha256 m = tx_expected_manifest_sha256 t \<and>
     mf_expected_pointer_sha256 m = tx_expected_pointer_sha256 t \<and> mf_created_at m = tx_created_at t \<and>
     mf_producer_id m = tx_producer_id t \<and> mf_producer_version m = tx_producer_version t \<and>
     mf_producer_id m = sc_producer_id cfg \<and> mf_producer_version m = sc_producer_version cfg \<and>
     mf_artifacts m = tx_artifact_plan t \<and> mf_provenance_heads m = tx_provenance_heads t"

definition parent_dirs :: "string \<Rightarrow> string list" where
  \<comment> \<open>the directories above a relative path\<close>
  "parent_dirs s = map (\<lambda>i. take i s) (filter (\<lambda>i. s ! i = CHR ''/'') [0..<length s])"

definition payload_names_match :: "rev_dir \<Rightarrow> manifest \<Rightarrow> bool" where
  "payload_names_match d m \<longleftrightarrow>
     (case rd_payload d of None \<Rightarrow> False | Some files \<Rightarrow>
        (let expected = map (drop 8 \<circ> ie_revision_relative_path) (mf_artifacts m) in
         set (map fst files) = set expected \<and>
         set (rd_payload_dirs d) = set (concat (map parent_dirs expected))))"

definition replay_request :: "transaction \<Rightarrow> artifact list \<Rightarrow> publish_revision" where
  "replay_request t as =
     \<lparr>pr_run_id = tx_run_id t, pr_transaction_id = tx_transaction_id t,
      pr_proposed_revision = tx_proposed_revision t, pr_expected_revision = tx_expected_revision t,
      pr_expected_manifest_sha256 = tx_expected_manifest_sha256 t,
      pr_expected_pointer_sha256 = tx_expected_pointer_sha256 t, pr_created_at = tx_created_at t,
      pr_producer_id = tx_producer_id t, pr_producer_version = tx_producer_version t, pr_artifacts = as\<rparr>"

definition pointer_matches :: "pointer \<Rightarrow> manifest \<Rightarrow> string \<Rightarrow> bool" where
  "pointer_matches p m m_sha \<longleftrightarrow>
     po_revision p = mf_revision m \<and> po_transaction_id p = mf_transaction_id m \<and>
     po_transaction_sha256 p = mf_transaction_sha256 m \<and> po_manifest_sha256 p = m_sha \<and>
     po_inventory_sha256 p = mf_inventory_sha256 m \<and> po_published_at p = mf_created_at m"

record reachable_revision =
  re_revision :: int
  re_transaction_id :: string
  re_revision_relative_path :: string
  re_transaction_sha256 :: string
  re_manifest_sha256 :: string

type_synonym chain_entry = "reachable_revision \<times> manifest \<times> string \<times> transaction"

definition reachable_of :: "manifest \<Rightarrow> string \<Rightarrow> reachable_revision" where
  "reachable_of m m_sha =
     \<lparr>re_revision = mf_revision m, re_transaction_id = mf_transaction_id m,
      re_revision_relative_path = ''revisions/'' @ revision_name (mf_revision m) (mf_transaction_id m),
      re_transaction_sha256 = mf_transaction_sha256 m, re_manifest_sha256 = m_sha\<rparr>"

definition require :: "bool \<Rightarrow> string \<Rightarrow> storage_exn + unit" where
  "require ok msg = (if ok then Inr () else Inl (Canonical_error msg))"

definition verify_revision_directory ::
    "store_config \<Rightarrow> string \<Rightarrow> dir_name \<Rightarrow> rev_dir \<Rightarrow> pointer option \<Rightarrow> storage_exn + chain_entry" where
  "verify_revision_directory cfg run_id name d expected_pointer =
     (let limit = sc_max_artifact_bytes cfg in
     bindE (control_bytes limit read_transaction (rd_transaction d)) (\<lambda>(t, t_bytes, t_file_sha).
     bindE (require (transaction_identity name run_id t) ''immutable transaction identity mismatch'') (\<lambda>_.
     bindE (control_bytes limit read_manifest (rd_manifest d)) (\<lambda>(m, m_bytes, m_sha).
     bindE (require (manifest_matches cfg run_id t m) ''immutable manifest/transaction mismatch'') (\<lambda>_.
     bindE (require (inventory_sha256 (mf_artifacts m) = mf_inventory_sha256 m)
       ''immutable manifest inventory digest mismatch'') (\<lambda>_.
     bindE (provenance_heads (mf_artifacts m)) (\<lambda>heads.
     bindE (require (heads = mf_provenance_heads m) ''immutable manifest provenance heads mismatch'') (\<lambda>_.
     bindE (if list_all (\<lambda>e. starts_with ''payload/'' (ie_revision_relative_path e)) (mf_artifacts m)
       then Inr () else Inl Value_error) (\<lambda>_.
     bindE (require (payload_names_match d m) ''payload namespace does not match exact inventory paths'') (\<lambda>_.
     bindE (mapE (verify_inventory_entry cfg run_id d) (mf_artifacts m)) (\<lambda>as.
     bindE (build_inventory (sc_admission cfg) (replay_request t as) limit) (\<lambda>(es, replayed_heads).
     bindE (require (es = mf_artifacts m \<and> replayed_heads = mf_provenance_heads m)
       ''stored inventory provenance replay mismatch'') (\<lambda>_.
     bindE (require (sha256_bytes t_bytes \<noteq> m_sha) ''control hashes unexpectedly alias'') (\<lambda>_.
     bindE (require (case expected_pointer of None \<Rightarrow> True | Some p \<Rightarrow> pointer_matches p m m_sha)
       ''current pointer does not match its revision'') (\<lambda>_.
     Inr (reachable_of m m_sha, m, m_sha, t))))))))))))))))"

section \<open>The chain from the current pointer to revision 1\<close>

type_synonym revisions = "((int \<times> string) \<times> rev_dir) list"

definition lineage_candidates :: "store_config \<Rightarrow> string \<Rightarrow> revisions \<Rightarrow> int \<Rightarrow> string \<Rightarrow> revisions" where
  "lineage_candidates cfg run_id revs r sha = filter (\<lambda>((n, txn), d). n = r \<and>
     (case control_bytes (sc_max_artifact_bytes cfg) read_manifest (rd_manifest d) of
        Inl _ \<Rightarrow> False
      | Inr (m, _, m_sha) \<Rightarrow> m_sha = sha \<and> mf_run_id m = run_id \<and> mf_revision m = r)) revs"

definition select_revision ::
    "store_config \<Rightarrow> string \<Rightarrow> revisions \<Rightarrow> pointer \<Rightarrow> int \<Rightarrow> string \<Rightarrow> storage_exn + ((int \<times> string) \<times> rev_dir)" where
  "select_revision cfg run_id revs p r sha =
     (if r = po_revision p then
        (case map_of revs (r, po_transaction_id p) of
           None \<Rightarrow> Inl (Canonical_error ''directory identity is linked, reparsed, or invalid'')
         | Some d \<Rightarrow> Inr ((r, po_transaction_id p), d))
      else (case lineage_candidates cfg run_id revs r sha of
         [c] \<Rightarrow> Inr c
       | _ \<Rightarrow> Inl (Canonical_error ''lineage previous revision is ambiguous or missing'')))"

definition verify_selected ::
    "store_config \<Rightarrow> string \<Rightarrow> pointer \<Rightarrow> (int \<times> string) \<times> rev_dir \<Rightarrow> storage_exn + chain_entry" where
  "verify_selected cfg run_id p c = (case c of ((n, txn), d) \<Rightarrow>
     verify_revision_directory cfg run_id (Revision_name n txn) d (if n = po_revision p then Some p else None))"

lemma select_revision_name:
  "select_revision cfg run_id revs p r sha = Inr ((n, txn), d) \<Longrightarrow> n = r \<and> ((n, txn), d) \<in> set revs"
proof -
  assume sel: "select_revision cfg run_id revs p r sha = Inr ((n, txn), d)"
  show ?thesis
  proof (cases "r = po_revision p")
    case True
    then show ?thesis using sel
      by (auto simp: select_revision_def dest: map_of_SomeD split: option.splits)
  next
    case False
    then have "lineage_candidates cfg run_id revs r sha = [((n, txn), d)]"
      using sel by (simp add: select_revision_def split: list.splits)
    then have "((n, txn), d) \<in> set (lineage_candidates cfg run_id revs r sha)" by simp
    then show ?thesis by (auto simp: lineage_candidates_def)
  qed
qed

lemma control_bytes_Inr:
  "control_bytes limit read file = Inr (v, data, sha) \<longleftrightarrow>
     file = Some data \<and> int (length data) \<le> limit \<and> read data = Some v \<and> sha = sha256_bytes data"
  by (auto simp: control_bytes_def split: option.splits)

lemma require_Inr [simp]: "require ok msg = Inr u \<longleftrightarrow> ok"
  by (simp add: require_def)

text \<open>What a verified directory is known to hold.\<close>

lemma verify_revisionE:
  assumes "verify_revision_directory cfg run_id name d p = Inr (re, m, m_sha, t)"
  obtains t_bytes m_bytes heads as where
    "rd_transaction d = Some t_bytes" "read_transaction t_bytes = Some t" "transaction_identity name run_id t"
    "rd_manifest d = Some m_bytes" "read_manifest m_bytes = Some m" "m_sha = sha256_bytes m_bytes"
    "int (length m_bytes) \<le> sc_max_artifact_bytes cfg"
    "manifest_matches cfg run_id t m" "re = reachable_of m m_sha"
    "\<And>q. p = Some q \<Longrightarrow> pointer_matches q m m_sha"
  using assms
  by (auto simp: verify_revision_directory_def bindE_Inr control_bytes_Inr Let_def split: prod.splits
      option.splits if_splits)

lemma verified_manifest_ok: "read_manifest data = Some m \<Longrightarrow> manifest_ok m"
  unfolding read_manifest_def by (drule parse_sound) simp

lemma verified_revision:
  assumes "verify_revision_directory cfg run_id (Revision_name n txn) d p = Inr (re, m, m_sha, t)"
  shows "mf_revision m = n \<and> mf_transaction_id m = txn \<and> manifest_ok m"
  using assms
  by (elim verify_revisionE) (auto simp: transaction_identity_def manifest_matches_def verified_manifest_ok)

function (sequential) read_lineage ::
    "store_config \<Rightarrow> string \<Rightarrow> revisions \<Rightarrow> pointer \<Rightarrow> int \<Rightarrow> string \<Rightarrow> (int \<times> string) set
     \<Rightarrow> storage_exn + chain_entry list" where
  "read_lineage cfg run_id revs p r sha seen =
     bindE (select_revision cfg run_id revs p r sha) (\<lambda>c.
     bindE (verify_selected cfg run_id p c) (\<lambda>entry. case entry of (re, m, m_sha, t) \<Rightarrow>
       if (re_revision re, re_transaction_id re) \<in> seen \<or> m_sha \<noteq> sha
       then Inl (Canonical_error ''lineage cycle or manifest hash mismatch'')
       else if mf_revision m = 1 then Inr [entry]
       else (case (mf_previous_revision m, mf_previous_manifest_sha256 m) of
         (Some previous, Some previous_sha) \<Rightarrow>
           if previous \<noteq> mf_revision m - 1 then Inl (Canonical_error ''lineage decrement mismatch'')
           else bindE (read_lineage cfg run_id revs p previous previous_sha
               (insert (re_revision re, re_transaction_id re) seen)) (\<lambda>rest. Inr (entry # rest))
       | _ \<Rightarrow> Inl (Canonical_error ''lineage decrement mismatch''))))"
  by pat_completeness auto
termination
proof (relation "measure (\<lambda>(cfg, run_id, revs, p, r, sha, seen). nat r)", goal_cases)
  case 1
  show ?case by simp
next
  case (2 cfg run_id revs p r sha seen c entry re rest m rest2 m_sha t pair previous previous_sha)
  obtain n txn d where c: "c = ((n, txn), d)" by (metis prod.exhaust)
  have "n = r" using select_revision_name [of cfg run_id revs p r sha n txn d] 2 c by simp
  moreover have "mf_revision m = n \<and> manifest_ok m"
    using verified_revision [of cfg run_id n txn d _ re m m_sha t] 2 c by (simp add: verify_selected_def)
  ultimately have "mf_revision m = r" "1 \<le> r" by (simp_all add: manifest_ok_def)
  with 2 show ?case by simp
qed

declare read_lineage.simps [simp del]

record verified_chain =
  vc_pointer :: pointer
  vc_pointer_sha256 :: string
  vc_entries :: "chain_entry list"

definition staging_ok :: "rev_dir \<Rightarrow> storage_exn + unit" where
  "staging_ok d =
     bindE (require (set (rd_payload_dirs d) \<subseteq> {''agent_reports'', ''tool_results''})
       ''staging payload has an unknown directory'') (\<lambda>_.
     foldE (\<lambda>_ f. bindE (artifact_table_entry (fst f) None) (\<lambda>_. Inr ())) ()
       (case rd_payload d of None \<Rightarrow> [] | Some fs \<Rightarrow> fs))"

definition validate_existing_namespace :: "store_config \<Rightarrow> string \<Rightarrow> bool \<Rightarrow> run_files \<Rightarrow> storage_exn + unit" where
  \<comment> \<open>the record holds no unknown names, so the checks of names have nothing to find\<close>
  "validate_existing_namespace cfg run_id verify_immutable fs =
     bindE (require (opt_size (fs_metadata fs) \<le> sc_max_artifact_bytes cfg \<and>
         list_all (\<lambda>t. int (length (snd t)) \<le> sc_max_artifact_bytes cfg) (fs_metadata_temps fs))
       ''metadata exceeds exact byte limit'') (\<lambda>_.
     bindE (foldE (\<lambda>_ s. staging_ok (snd s)) () (fs_staging fs)) (\<lambda>_.
     if verify_immutable then
       foldE (\<lambda>_ r. case r of ((n, txn), d) \<Rightarrow>
         bindE (verify_revision_directory cfg run_id (Revision_name n txn) d None) (\<lambda>_. Inr ())) ()
         (fs_revisions fs)
     else Inr ()))"

definition chain_of_files :: "store_config \<Rightarrow> string \<Rightarrow> bool \<Rightarrow> run_files \<Rightarrow> storage_exn + verified_chain" where
  \<comment> \<open>\<open>_read_chain\<close> after \<open>_ownership\<close>\<close>
  "chain_of_files cfg run_id verify_unreachable fs =
     bindE (validate_existing_namespace cfg run_id verify_unreachable fs) (\<lambda>_.
     bindE (control_bytes (sc_max_artifact_bytes cfg) read_pointer (fs_current fs)) (\<lambda>(p, p_bytes, p_sha).
     bindE (require (po_run_id p = run_id) ''current pointer cross-run mismatch'') (\<lambda>_.
     bindE (read_lineage cfg run_id (fs_revisions fs) p (po_revision p) (po_manifest_sha256 p) {})
       (\<lambda>entries. Inr \<lparr>vc_pointer = p, vc_pointer_sha256 = p_sha, vc_entries = entries\<rparr>))))"

section \<open>The readers\<close>

definition ownership :: "string \<Rightarrow> unit io" where
  \<comment> \<open>\<open>_ownership\<close>: the root is intact unless a call fails or finds it changed\<close>
  "ownership run_id = exceptIO os_call (\<lambda>e. raiseIO (run_failure_error run_id
     (plain_run_failure R_ROOT_INITIALIZATION_INCOMPLETE St_preflight)))"

definition read_chain :: "store_config \<Rightarrow> string \<Rightarrow> bool \<Rightarrow> verified_chain io" where
  "read_chain cfg run_id verify_unreachable =
     bindIO (liftIO (validate_run_id run_id)) (\<lambda>_. thenIO (ownership run_id)
       (observe (chain_of_files cfg run_id verify_unreachable)))"

definition existing_chain_or_none :: "store_config \<Rightarrow> string \<Rightarrow> bool \<Rightarrow> verified_chain option io" where
  "existing_chain_or_none cfg run_id verify_unreachable =
     bindIO filesIO (\<lambda>fs. if fs_current fs = None then retIO None
       else bindIO (read_chain cfg run_id verify_unreachable) (\<lambda>c. retIO (Some c)))"

record verified_revision =
  vr_run_id :: string
  vr_current_revision :: int
  vr_current_pointer_sha256 :: string
  vr_manifest_sha256 :: string
  vr_inventory_sha256 :: string
  vr_reachable_history :: "reachable_revision list"

definition read_failure :: "string \<Rightarrow> storage_exn \<Rightarrow> storage_exn" where
  \<comment> \<open>the handlers of \<open>read_current\<close> and \<open>_read_structural_artifact_history\<close>\<close>
  "read_failure run_id e =
     (if e = File_missing
      then run_failure_error run_id (plain_run_failure R_RUN_INCOMPLETE St_initial_read)
      else if is_canonical_error e \<or> is_os_error e \<or> e = Validation_error
      then run_failure_error run_id ((plain_run_failure R_RUN_CORRUPT St_initial_read)
             \<lparr>rf_reconciliation_required := True\<rparr>)
      else e)"

definition retried :: "string list \<Rightarrow> 'a io \<Rightarrow> 'a io" where
  \<comment> \<open>\<open>for attempt in range(3)\<close>: a reader starts again when another process replaced \<open>current.json\<close> meanwhile\<close>
  "retried msgs m = (let attempt = (\<lambda>otherwise. exceptIO m
       (\<lambda>e. if e \<in> Canonical_error ` set msgs then otherwise else raiseIO e)) in attempt (attempt m))"

definition verified_of_chain :: "string \<Rightarrow> verified_chain \<Rightarrow> verified_revision" where
  "verified_of_chain run_id c = (case hd (vc_entries c) of (re, m, m_sha, t) \<Rightarrow>
     \<lparr>vr_run_id = run_id, vr_current_revision = po_revision (vc_pointer c),
      vr_current_pointer_sha256 = vc_pointer_sha256 c, vr_manifest_sha256 = m_sha,
      vr_inventory_sha256 = mf_inventory_sha256 m, vr_reachable_history = map fst (vc_entries c)\<rparr>)"

definition read_current :: "store_config \<Rightarrow> string \<Rightarrow> verified_revision io" where
  "read_current cfg run_id = exceptIO
     (bindIO (retried [''current changed during structural read''] (read_chain cfg run_id True))
       (\<lambda>c. retIO (verified_of_chain run_id c)))
     (\<lambda>e. raiseIO (read_failure run_id e))"

record artifact_revision =
  av_revision :: int
  av_transaction_id :: string
  av_manifest_sha256 :: string
  av_artifact_schema_version :: string
  av_sha256 :: string
  av_exact_bytes :: "byte list"

definition artifact_of_entry ::
    "store_config \<Rightarrow> string \<Rightarrow> string \<Rightarrow> string option \<Rightarrow> revisions \<Rightarrow> chain_entry \<Rightarrow> storage_exn + artifact_revision" where
  "artifact_of_entry cfg run_id name version revs entry = (case entry of (re, m, m_sha, t) \<Rightarrow>
     (case filter (\<lambda>e. ie_logical_name e = name) (mf_artifacts m) of
        [e] \<Rightarrow>
          if version \<notin> {None, Some (ie_artifact_schema_version e)}
          then Inl (Canonical_error ''structural artifact schema version mismatch'')
          else (case map_of revs (re_revision re, re_transaction_id re) of
             None \<Rightarrow> Inl (Artifact_boundary R_ARTIFACT_MISSING)
           | Some d \<Rightarrow> bindE (verify_inventory_entry cfg run_id d e) (\<lambda>a.
               Inr \<lparr>av_revision = re_revision re, av_transaction_id = re_transaction_id re,
                 av_manifest_sha256 = m_sha, av_artifact_schema_version = ie_artifact_schema_version e,
                 av_sha256 = ie_sha256 e, av_exact_bytes = ar_exact_bytes a\<rparr>))
      | _ \<Rightarrow> Inl (Canonical_error ''structural artifact is missing or duplicated'')))"

definition structural_history_ok :: "int \<Rightarrow> artifact_revision list \<Rightarrow> bool" where
  \<comment> \<open>\<open>current_to_genesis_is_exact\<close>\<close>
  "structural_history_ok current revs \<longleftrightarrow>
     revs \<noteq> [] \<and> map av_revision revs = map int (rev [1..<Suc (nat current)])"

definition read_artifact_history ::
    "store_config \<Rightarrow> string \<Rightarrow> string \<Rightarrow> string option \<Rightarrow> (int \<times> artifact_revision list) io" where
  \<comment> \<open>\<open>_read_structural_artifact_history\<close>\<close>
  "read_artifact_history cfg run_id name version = exceptIO
     (retried [''current changed during structural read'', ''current changed during structural artifact read'']
       (bindIO (read_chain cfg run_id True) (\<lambda>c.
        observe (\<lambda>fs. bindE (mapE (artifact_of_entry cfg run_id name version (fs_revisions fs)) (vc_entries c))
          (\<lambda>revs. if structural_history_ok (po_revision (vc_pointer c)) revs
             then Inr (po_revision (vc_pointer c), revs) else Inl Validation_error)))))
     (\<lambda>e. raiseIO (read_failure run_id e))"

end
