(* ===== verification/RevisionLock.thy ===== *)
theory RevisionLock
  imports RevisionChain
begin

text \<open>
  The lock of a run (\<open>storage/revision_lock.py\<close>), as \<open>publish\<close> takes it: the registry of the
  process, the lock file of one zero byte, created or repaired when it is missing or empty, and the lock of
  the kernel on it.  The exception of an unavailable lock says whether the lock file was changed.
\<close>

definition lock_contention :: "storage_exn \<Rightarrow> bool" where
  \<comment> \<open>\<open>_is_lock_contention\<close>: the error numbers of a file that is locked\<close>
  "lock_contention e \<longleftrightarrow> e = exn_of Busy"

definition unavailable :: "bool \<Rightarrow> boundary option \<Rightarrow> 'a io \<Rightarrow> 'a io" where
  "unavailable changed b m = exceptIO m (\<lambda>_. raiseIO (Lock_unavailable b changed))"

definition lock_or_busy :: "bool \<Rightarrow> boundary option \<Rightarrow> 'a io \<Rightarrow> 'a io" where
  "lock_or_busy changed b m = exceptIO m (\<lambda>e. raiseIO
     (if lock_contention e then Lock_busy changed else Lock_unavailable b changed))"

definition put_authority :: "byte list \<Rightarrow> run_files \<Rightarrow> run_files" where
  "put_authority data fs = fs\<lparr>fs_authority := Some data\<rparr>"

definition authority_content :: "run_files \<Rightarrow> byte list" where
  \<comment> \<open>\<open>stream.read(2)\<close>\<close>
  "authority_content fs = (case fs_authority fs of None \<Rightarrow> [] | Some data \<Rightarrow> take 2 data)"

definition write_authority :: "bool \<Rightarrow> unit io" where
  \<comment> \<open>\<open>AUTHORITY_BYTE\<close>, flushed and synchronised\<close>
  "write_authority changed = thenIO (unavailable changed (Some Write_boundary) (partial_write put_authority [0]))
     (unavailable changed (Some Durability_boundary) os_call)"

definition create_authority :: "bool io" where
  "create_authority = bindIO filesIO (\<lambda>fs.
     if fs_authority fs = None
     then thenIO (unavailable False (Some Write_boundary) (atomic (put_authority [])))
         (thenIO (write_authority True) (retIO True))
     else thenIO (unavailable False (Some Write_boundary) os_call) (retIO False))"

definition repair_authority :: "bool \<Rightarrow> bool io" where
  \<comment> \<open>an empty lock file gets its byte\<close>
  "repair_authority changed = thenIO (lock_or_busy changed (Some Verification_boundary) os_call)
     (bindIO filesIO (\<lambda>fs.
       if authority_content fs = [] then thenIO (write_authority changed) (retIO True) else retIO changed))"

definition confirm_authority :: "bool \<Rightarrow> bool io" where
  "confirm_authority changed = bindIO filesIO (\<lambda>fs.
     if authority_content fs \<noteq> [0] then raiseIO (Lock_unavailable None changed)
     else thenIO (lock_or_busy changed (Some Verification_boundary) os_call) (retIO changed))"

definition open_authority :: "bool io" where
  \<comment> \<open>\<open>_open_authority\<close> with \<open>bootstrap\<close>: whether the lock file was created or repaired\<close>
  "open_authority = bindIO create_authority (\<lambda>changed. bindIO (repair_authority changed) confirm_authority)"

definition acquire_authority :: "bool io" where
  \<comment> \<open>the registry, the lock file, the kernel's lock, and the identity of the file\<close>
  "acquire_authority =
     thenIO (exceptIO os_call (\<lambda>_. raiseIO (Lock_busy False)))
    (bindIO open_authority (\<lambda>changed.
     thenIO (lock_or_busy changed None os_call)
    (thenIO (unavailable changed None os_call) (retIO changed))))"

definition lease_release :: "unit io" where
  "lease_release = exceptIO os_call (\<lambda>_. raiseIO Lock_release)"

end
