(* ===== verification/RevisionStore.thy ===== *)
theory RevisionStore
  imports RevisionLock
begin

text \<open>
  \<open>RunRevisionStore.publish\<close> (\<open>storage/revision_store.py\<close>): admission under the run's lock, replay of a
  committed or orphaned transaction, the compare-and-swap check, lock metadata, the control
  directories, the staged revision, its rename, the pointer temporary, the second
  compare-and-swap check, the replacement of \<open>current.json\<close> and its reconciliation.  Each
  \<open>except\<close> clause of the code is a handler around the calls it covers; the flags the clauses
  read (\<open>staging_created\<close>, \<open>rename_invoked\<close>, \<open>replace_invoked\<close>, ...) are the arguments of the
  handlers.  The \<open>fault_injector\<close> of the tests is absent: the decisions of theory
  \<open>RevisionFiles\<close> make every call it surrounds fail.
\<close>

section \<open>Durability evidence\<close>

definition idle_durability :: durability where
  "idle_durability = \<lparr>du_file_sync = FS_not_attempted, du_directory_sync = DS_not_attempted,
     du_pointer_replace = PR_not_attempted, du_reconciliation = RC_confirmed\<rparr>"

definition published_durability :: "dir_sync \<Rightarrow> durability" where
  "published_durability s = \<lparr>du_file_sync = FS_confirmed, du_directory_sync = s,
     du_pointer_replace = PR_confirmed, du_reconciliation = RC_confirmed\<rparr>"

definition reconciliation_durability :: "file_sync \<Rightarrow> pointer_replace \<Rightarrow> durability" where
  "reconciliation_durability f r = \<lparr>du_file_sync = f, du_directory_sync = DS_not_attempted,
     du_pointer_replace = r, du_reconciliation = RC_required\<rparr>"

section \<open>The lock\<close>

definition changed_effect :: "bool \<Rightarrow> filesystem_effect" where
  "changed_effect changed = (if changed then FE_control_only else FE_none)"

definition authority :: "string \<Rightarrow> bool io" where
  "authority run_id = exceptIO acquire_authority (\<lambda>e. raiseIO (case e of
       Lock_busy changed \<Rightarrow> run_failure_error run_id ((plain_run_failure R_RUN_LOCKED St_lock_bootstrap)
         \<lparr>rf_filesystem_effect := changed_effect changed\<rparr>)
     | Lock_unavailable b changed \<Rightarrow> run_failure_error run_id ((plain_run_failure
           (case b of None \<Rightarrow> R_LOCK_UNAVAILABLE | Some Write_boundary \<Rightarrow> R_TRANSACTION_WRITE_FAILED
            | Some Durability_boundary \<Rightarrow> R_DURABILITY_UNCONFIRMED
            | Some Verification_boundary \<Rightarrow> R_TRANSACTION_VERIFICATION_FAILED) St_lock_bootstrap)
         \<lparr>rf_filesystem_effect := changed_effect changed, rf_reconciliation_required := changed\<rparr>)
     | e \<Rightarrow> e))"

section \<open>Admission\<close>

definition scan_case_aliases :: "string \<Rightarrow> run_files \<Rightarrow> storage_exn + unit" where
  "scan_case_aliases run_id fs =
     (let alias = ascii_casefold run_id;
          refuse = (\<lambda>code. Inl (run_failure_error run_id (plain_run_failure code St_locked_admission)));
          scan = (\<lambda>legacy names. foldE (\<lambda>_ (i, name).
             if 10000 < i then refuse R_ARTIFACT_BUDGET_EXCEEDED
             else if ascii_casefold name \<noteq> alias then Inr ()
             else if legacy then refuse R_LEGACY_RUN_UNVERIFIED
             else if name \<noteq> run_id then refuse R_RUN_NAMESPACE_CONFLICT else Inr ()) ()
             (zip [1..<Suc (length names)] names)) in
      bindE (scan False (fs_runs fs)) (\<lambda>_. scan True (fs_legacy_runs fs)))"

definition namespace_code :: "storage_exn \<Rightarrow> run_code" where
  "namespace_code e = (let m = exn_message e in
     if contains ''linked'' m \<or> contains ''reparse'' m \<or> contains ''hardlink'' m
     then R_LINK_OR_REPARSE_DETECTED else R_RUN_NAMESPACE_CONFLICT)"

definition except_storage :: "'a io \<Rightarrow> (storage_exn \<Rightarrow> storage_exn) \<Rightarrow> 'a io" where
  \<comment> \<open>\<open>except (CanonicalStorageError, OSError, ValidationError) as exc: raise ... from exc\<close>\<close>
  "except_storage m f = exceptIO m (\<lambda>e. raiseIO
     (if is_canonical_error e \<or> is_os_error e \<or> e = Validation_error then f e else e))"

definition observed_revision :: "verified_chain option \<Rightarrow> int option" where
  "observed_revision chain = map_option (\<lambda>c. po_revision (vc_pointer c)) chain"

definition reachable_names :: "verified_chain option \<Rightarrow> (int \<times> string) list" where
  "reachable_names chain = (case chain of None \<Rightarrow> []
     | Some c \<Rightarrow> map (\<lambda>e. (re_revision (fst e), re_transaction_id (fst e))) (vc_entries c))"

definition admission_effect :: "publish_revision \<Rightarrow> verified_chain option \<Rightarrow> bool \<Rightarrow> run_files \<Rightarrow> filesystem_effect" where
  "admission_effect q chain changed fs =
     (if pr_transaction_id q \<in> set (map fst (fs_staging fs)) then FE_staging_orphan
      else if list_ex (\<lambda>r. snd (fst r) = pr_transaction_id q \<and> fst r \<notin> set (reachable_names chain))
        (fs_revisions fs) then FE_unreferenced_revision
      else changed_effect changed)"

definition idempotency_outcome ::
    "prepared_revision \<Rightarrow> verified_chain option \<Rightarrow> storage_exn + publish_outcome option" where
  "idempotency_outcome pp chain = (case chain of None \<Rightarrow> Inr None | Some c \<Rightarrow>
     (let q = pp_request pp in
      case List.find (\<lambda>(i, re, m, m_sha, t). tx_transaction_id t = pr_transaction_id q)
             (zip [0..<length (vc_entries c)] (vc_entries c)) of
        None \<Rightarrow> Inr None
      | Some (i, re, m, m_sha, t) \<Rightarrow>
          if tx_transaction_sha256 t \<noteq> tx_transaction_sha256 (pp_transaction pp)
          then Inl (run_failure_error (pr_run_id q) ((publish_failure q R_IDEMPOTENCY_CONFLICT St_initial_read)
                 \<lparr>rf_observed_revision := Some (po_revision (vc_pointer c))\<rparr>))
          else bindE (run_id_sha256 (pr_run_id q)) (\<lambda>_. bindE (model publish_outcome_ok
            \<lparr>oc_kind = (if i = 0 then Current_committed else Historical_committed),
             oc_transaction_id = pr_transaction_id q, oc_transaction_sha256 = tx_transaction_sha256 t,
             oc_revision = re_revision re, oc_observed_current_revision = Some (po_revision (vc_pointer c)),
             oc_manifest_sha256 = Some (re_manifest_sha256 re),
             oc_pointer_sha256 = Some (vc_pointer_sha256 c), oc_filesystem_effect = FE_none,
             oc_domain_effect = DE_current_unchanged,
             oc_previous_revision_effect = (if re_revision re = 1 then PE_not_applicable else PE_unchanged),
             oc_durability_evidence = idle_durability\<rparr>) (\<lambda>out. Inr (Some out)))))"

definition cas_matches :: "publish_revision \<Rightarrow> verified_chain option \<Rightarrow> bool" where
  "cas_matches q chain = (case chain of
     None \<Rightarrow> pr_expected_revision q = None \<and> pr_expected_manifest_sha256 q = None \<and>
       pr_expected_pointer_sha256 q = None \<and> pr_proposed_revision q = 1
   | Some c \<Rightarrow> pr_expected_revision q = Some (po_revision (vc_pointer c)) \<and>
       pr_expected_manifest_sha256 q = Some (fst (snd (snd (hd (vc_entries c))))) \<and>
       pr_expected_pointer_sha256 q = Some (vc_pointer_sha256 c) \<and>
       pr_proposed_revision q = po_revision (vc_pointer c) + 1)"

definition orphan_candidates :: "string \<Rightarrow> run_files \<Rightarrow> (filesystem_effect \<times> rev_dir) list" where
  "orphan_candidates txn fs =
     map (\<lambda>d. (FE_staging_orphan, snd d)) (filter (\<lambda>d. fst d = txn) (fs_staging fs)) @
     map (\<lambda>d. (FE_unreferenced_revision, snd d)) (filter (\<lambda>d. snd (fst d) = txn) (fs_revisions fs))"

definition replay_orphan_effect ::
    "store_config \<Rightarrow> prepared_revision \<Rightarrow> run_files \<Rightarrow> storage_exn + filesystem_effect option" where
  \<comment> \<open>the loop over the candidates returns from its first round\<close>
  "replay_orphan_effect cfg pp fs =
     (let q = pp_request pp in
      case orphan_candidates (pr_transaction_id q) fs of
        [] \<Rightarrow> Inr None
      | (effect, d) # _ \<Rightarrow>
          (case control_bytes (sc_max_artifact_bytes cfg) read_transaction (rd_transaction d) of
             Inl _ \<Rightarrow> Inr (Some effect)
           | Inr (t, _, _) \<Rightarrow>
               if transaction_sha256 t \<noteq> tx_transaction_sha256 t \<or> tx_run_id t \<noteq> pr_run_id q \<or>
                  tx_transaction_id t \<noteq> pr_transaction_id q then Inr (Some effect)
               else if tx_transaction_sha256 t \<noteq> tx_transaction_sha256 (pp_transaction pp)
               then Inl (run_failure_error (pr_run_id q) ((publish_failure q R_IDEMPOTENCY_CONFLICT St_initial_read)
                      \<lparr>rf_filesystem_effect := effect, rf_reconciliation_required := True\<rparr>))
               else Inr (Some effect)))"

definition orphan_outcome ::
    "prepared_revision \<Rightarrow> verified_chain option \<Rightarrow> filesystem_effect \<Rightarrow> storage_exn + publish_outcome" where
  "orphan_outcome pp chain effect = (let q = pp_request pp in
     bindE (run_id_sha256 (pr_run_id q)) (\<lambda>_. model publish_outcome_ok
       \<lparr>oc_kind = Reconciliation_required, oc_transaction_id = pr_transaction_id q,
        oc_transaction_sha256 = tx_transaction_sha256 (pp_transaction pp),
        oc_revision = pr_proposed_revision q, oc_observed_current_revision = observed_revision chain,
        oc_manifest_sha256 = None, oc_pointer_sha256 = map_option vc_pointer_sha256 chain,
        oc_filesystem_effect = effect, oc_domain_effect = DE_current_unchanged,
        oc_previous_revision_effect = previous_kept q,
        oc_durability_evidence = reconciliation_durability FS_confirmed PR_not_attempted\<rparr>))"

section \<open>Lock metadata and the control directories\<close>

definition json_of_metadata :: "store_config \<Rightarrow> publish_revision \<Rightarrow> string \<Rightarrow> string \<Rightarrow> string \<Rightarrow> json" where
  "json_of_metadata cfg q run_hash owner_token acquired_at = JObj
     [(''schema_version'', JStr ''1.0.0''), (''storage_protocol'', JStr ''poker-run-revision-v1''),
      (''run_id_sha256'', JStr run_hash), (''ownership_marker_sha256'', JStr (sc_marker_sha256 cfg)),
      (''authority_identity_sha256'', JStr (sc_authority_identity_sha256 cfg)),
      (''owner_token'', JStr owner_token), (''process_id'', JInt (sc_process_id cfg)),
      (''adapter'', JStr (if sc_windows cfg then ''windows_msvcrt'' else ''posix_fcntl'')),
      (''transaction_id'', JStr (pr_transaction_id q)), (''expected_revision'', jint (pr_expected_revision q)),
      (''acquired_at'', JStr acquired_at)]"

definition metadata_value :: "store_config \<Rightarrow> publish_revision \<Rightarrow> string \<Rightarrow> string \<Rightarrow> storage_exn + byte list" where
  "metadata_value cfg q owner_token acquired_at = bindE (run_id_sha256 (pr_run_id q)) (\<lambda>h.
     if is_sha256 (sc_marker_sha256 cfg) \<and> is_sha256 (sc_authority_identity_sha256 cfg) \<and>
        is_owner_token owner_token \<and> 0 < sc_process_id cfg \<and> utc_text acquired_at
     then Inr (canonical_json_bytes (json_of_metadata cfg q h owner_token acquired_at))
     else Inl Validation_error)"

definition put_metadata_temp :: "string \<Rightarrow> byte list \<Rightarrow> run_files \<Rightarrow> run_files" where
  "put_metadata_temp owner data fs = fs\<lparr>fs_metadata_temps := AList.update owner data (fs_metadata_temps fs)\<rparr>"

definition replace_metadata :: "string \<Rightarrow> run_files \<Rightarrow> run_files" where
  "replace_metadata owner fs = (case map_of (fs_metadata_temps fs) owner of
     None \<Rightarrow> fs
   | Some d \<Rightarrow> fs\<lparr>fs_metadata := Some d, fs_metadata_temps := AList.delete owner (fs_metadata_temps fs)\<rparr>)"

definition write_metadata :: "store_config \<Rightarrow> string \<Rightarrow> byte list \<Rightarrow> unit io" where
  \<comment> \<open>\<open>_metadata\<close>: once \<open>os.replace\<close> is invoked its effect is unknown when it raises\<close>
  "write_metadata cfg owner data = stepsIO
     [write_exclusive_verified (sc_max_artifact_bytes cfg) (\<lambda>fs. map_of (fs_metadata_temps fs) owner)
        (put_metadata_temp owner) data,
      exceptIO (atomic (replace_metadata owner)) (\<lambda>_. raiseIO (Publish_boundary True)),
      at_boundary_of Verification_boundary (observe (\<lambda>fs.
        if fs_metadata fs = Some data then Inr ()
        else Inl (Canonical_error ''metadata replace verification failed'')))]"

definition boundary_code :: "boundary \<Rightarrow> run_code" where
  "boundary_code b = (case b of Write_boundary \<Rightarrow> R_TRANSACTION_WRITE_FAILED
     | Durability_boundary \<Rightarrow> R_DURABILITY_UNCONFIRMED
     | Verification_boundary \<Rightarrow> R_TRANSACTION_VERIFICATION_FAILED)"

definition boundary_failure :: "publish_revision \<Rightarrow> boundary \<Rightarrow> stage \<Rightarrow> filesystem_effect \<Rightarrow> bool \<Rightarrow> run_failure" where
  "boundary_failure q b st effect reconcile = (publish_failure q (boundary_code b) st)
     \<lparr>rf_filesystem_effect := effect, rf_reconciliation_required := reconcile,
      rf_durability_evidence := (if b = Durability_boundary
        then Some (reconciliation_durability FS_failed PR_not_attempted) else None)\<rparr>"

definition metadata_failure :: "publish_revision \<Rightarrow> storage_exn \<Rightarrow> run_failure" where
  "metadata_failure q e = (case e of
     Storage_boundary b \<Rightarrow> boundary_failure q b St_lock_metadata FE_control_only False
   | Publish_boundary invoked \<Rightarrow> (publish_failure q
         (if invoked then R_EFFECT_UNKNOWN else R_TRANSACTION_PUBLISH_FAILED) St_lock_metadata)
       \<lparr>rf_filesystem_effect := FE_control_only, rf_reconciliation_required := invoked\<rparr>
   | _ \<Rightarrow> (publish_failure q R_TRANSACTION_PUBLISH_FAILED St_lock_metadata)
       \<lparr>rf_filesystem_effect := FE_control_only, rf_reconciliation_required := True\<rparr>)"

definition refuse :: "publish_revision \<Rightarrow> run_failure \<Rightarrow> 'a io" where
  "refuse q f = raiseIO (run_failure_error (pr_run_id q) f)"

definition except_as :: "publish_revision \<Rightarrow> (storage_exn \<Rightarrow> run_failure) \<Rightarrow> 'a io \<Rightarrow> 'a io" where
  \<comment> \<open>\<open>except RunStorageError: raise\<close>, then \<open>except Exception as exc\<close>\<close>
  "except_as q f m = exceptIO m (\<lambda>e. case e of Run_error r \<Rightarrow> raiseIO (Run_error r) | _ \<Rightarrow> refuse q (f e))"

definition bootstrap_step :: "store_config \<Rightarrow> string \<Rightarrow> nat \<Rightarrow> unit io" where
  "bootstrap_step cfg run_id i = bindIO filesIO (\<lambda>fs.
     if i < fs_bootstrapped fs then os_call
     else stepsIO
       [at_boundary_of Write_boundary (atomic (\<lambda>fs. fs\<lparr>fs_bootstrapped := Suc i,
          fs_runs := (if i = 0 then run_id # fs_runs fs else fs_runs fs)\<rparr>)),
        at_boundary_of Verification_boundary os_call, sync_dir (sc_windows cfg)])"

definition bootstrap_namespace :: "store_config \<Rightarrow> string \<Rightarrow> unit io" where
  \<comment> \<open>the six control directories, in order, the run's own first; those that exist are verified\<close>
  "bootstrap_namespace cfg run_id = eachIO (bootstrap_step cfg run_id) [0..<6]"

definition bootstrap_failure :: "publish_revision \<Rightarrow> storage_exn \<Rightarrow> run_failure" where
  "bootstrap_failure q e = (case e of
     Storage_boundary b \<Rightarrow> boundary_failure q b St_namespace_bootstrap FE_control_only (b = Verification_boundary)
   | _ \<Rightarrow> (publish_failure q R_TRANSACTION_WRITE_FAILED St_namespace_bootstrap)
       \<lparr>rf_filesystem_effect := FE_control_only, rf_reconciliation_required := True\<rparr>)"

section \<open>The staged revision\<close>

definition map_staging :: "string \<Rightarrow> (rev_dir \<Rightarrow> rev_dir) \<Rightarrow> run_files \<Rightarrow> run_files" where
  "map_staging txn f fs = fs\<lparr>fs_staging := map (\<lambda>s. if fst s = txn then (fst s, f (snd s)) else s) (fs_staging fs)\<rparr>"

definition staged :: "string \<Rightarrow> run_files \<Rightarrow> rev_dir" where
  "staged txn fs = (case map_of (fs_staging fs) txn of None \<Rightarrow> empty_dir | Some d \<Rightarrow> d)"

definition payload_file :: "string \<Rightarrow> rev_dir \<Rightarrow> byte list option" where
  "payload_file name d = Option.bind (rd_payload d) (\<lambda>fs. map_of fs name)"

definition put_payload :: "string \<Rightarrow> byte list \<Rightarrow> rev_dir \<Rightarrow> rev_dir" where
  "put_payload name data d = d\<lparr>rd_payload :=
     Some (AList.update name data (case rd_payload d of None \<Rightarrow> [] | Some fs \<Rightarrow> fs))\<rparr>"

definition revision_exists :: "publish_revision \<Rightarrow> run_files \<Rightarrow> bool" where
  "revision_exists q fs \<longleftrightarrow> (pr_proposed_revision q, pr_transaction_id q) \<in> set (map fst (fs_revisions fs))"

definition rename_staging :: "publish_revision \<Rightarrow> run_files \<Rightarrow> run_files" where
  \<comment> \<open>a rename onto a directory that is not empty fails\<close>
  "rename_staging q fs = (let txn = pr_transaction_id q in case map_of (fs_staging fs) txn of
     None \<Rightarrow> fs
   | Some d \<Rightarrow> if revision_exists q fs then fs else
       fs\<lparr>fs_staging := filter (\<lambda>s. fst s \<noteq> txn) (fs_staging fs),
          fs_revisions := fs_revisions fs @ [((pr_proposed_revision q, txn), d)]\<rparr>)"

record staging_flags =
  sf_stage :: stage
  sf_created :: bool
  sf_rename_invoked :: bool
  sf_published :: bool

definition staging_failure :: "publish_revision \<Rightarrow> staging_flags \<Rightarrow> bool \<Rightarrow> storage_exn \<Rightarrow> run_failure" where
  "staging_failure q s dir_exists e =
     (let orphan = (if sf_published s then FE_unreferenced_revision else FE_staging_orphan);
          (code, effect, reconcile) =
            (case e of
               Artifact_boundary code \<Rightarrow> (code, orphan, True)
             | Storage_boundary Durability_boundary \<Rightarrow> (R_DURABILITY_UNCONFIRMED, orphan, True)
             | _ \<Rightarrow>
                 if \<not> sf_created s then (R_TRANSACTION_WRITE_FAILED, FE_control_only, False)
                 else if sf_stage s \<noteq> St_revision_publish then
                   (if e = Storage_boundary Verification_boundary then R_TRANSACTION_VERIFICATION_FAILED
                    else R_TRANSACTION_WRITE_FAILED, FE_staging_orphan, True)
                 else if sf_published s then
                   (R_TRANSACTION_VERIFICATION_FAILED, FE_unreferenced_revision, True)
                 else if sf_rename_invoked s then
                   (R_EFFECT_UNKNOWN, if dir_exists then FE_unreferenced_revision else FE_staging_orphan, True)
                 else (R_TRANSACTION_PUBLISH_FAILED, FE_staging_orphan, True))
      in (publish_failure q code (case e of Artifact_boundary _ \<Rightarrow> St_payload | _ \<Rightarrow> sf_stage s))
         \<lparr>rf_filesystem_effect := effect, rf_reconciliation_required := reconcile,
          rf_durability_evidence := (if e = Storage_boundary Durability_boundary
            then Some (reconciliation_durability FS_failed PR_not_attempted) else None)\<rparr>)"

definition at_stage :: "publish_revision \<Rightarrow> staging_flags \<Rightarrow> unit io \<Rightarrow> unit io" where
  "at_stage q s m = exceptIO m (\<lambda>e. bindIO filesIO (\<lambda>fs. refuse q (staging_failure q s (revision_exists q fs) e)))"

definition before_rename :: "stage \<Rightarrow> staging_flags" where
  "before_rename st = \<lparr>sf_stage = st, sf_created = True, sf_rename_invoked = False, sf_published = False\<rparr>"

definition write_staged ::
    "store_config \<Rightarrow> string \<Rightarrow> (rev_dir \<Rightarrow> byte list option) \<Rightarrow> (byte list \<Rightarrow> rev_dir \<Rightarrow> rev_dir) \<Rightarrow> byte list \<Rightarrow> unit io" where
  "write_staged cfg txn get put data = write_exclusive_verified (sc_max_artifact_bytes cfg)
     (\<lambda>fs. get (staged txn fs)) (\<lambda>d. map_staging txn (put d)) data"

definition staged_parent :: "store_config \<Rightarrow> string \<Rightarrow> string \<Rightarrow> unit io" where
  \<comment> \<open>the directory a payload file goes into\<close>
  "staged_parent cfg txn name = eachIO (\<lambda>dir. bindIO filesIO (\<lambda>fs.
     if dir \<in> set (rd_payload_dirs (staged txn fs)) then os_call
     else mkdir_verified (sc_windows cfg) (\<lambda>_. False)
       (map_staging txn (\<lambda>d. d\<lparr>rd_payload_dirs := rd_payload_dirs d @ [dir]\<rparr>)))) (parent_dirs name)"

definition stage_payload :: "store_config \<Rightarrow> publish_revision \<Rightarrow> inventory_entry \<Rightarrow> unit io" where
  "stage_payload cfg q e =
     (let txn = pr_transaction_id q; name = ie_logical_name e in
      case List.find (\<lambda>a. ar_logical_name a = name) (pr_artifacts q) of
        None \<Rightarrow> raiseIO Value_error
      | Some a \<Rightarrow> stepsIO
          [staged_parent cfg txn name, sync_dir (sc_windows cfg),
           write_staged cfg txn (payload_file name) (put_payload name) (ar_exact_bytes a)])"

definition verify_dir :: "store_config \<Rightarrow> string \<Rightarrow> dir_name \<Rightarrow> (run_files \<Rightarrow> rev_dir) \<Rightarrow> string io" where
  "verify_dir cfg run_id name get = observe (\<lambda>fs.
     bindE (verify_revision_directory cfg run_id name (get fs) None) (\<lambda>(re, m, m_sha, t). Inr m_sha))"

definition published_dir :: "publish_revision \<Rightarrow> run_files \<Rightarrow> rev_dir" where
  "published_dir q fs = (case map_of (fs_revisions fs) (pr_proposed_revision q, pr_transaction_id q) of
     None \<Rightarrow> empty_dir | Some d \<Rightarrow> d)"

definition stage_revision :: "store_config \<Rightarrow> prepared_revision \<Rightarrow> unit io" where
  "stage_revision cfg pp =
     (let q = pp_request pp; txn = pr_transaction_id q; windows = sc_windows cfg;
          publishing = before_rename St_revision_publish in stepsIO
     [at_stage q (before_rename St_staging\<lparr>sf_created := False\<rparr>)
        (create_with (\<lambda>fs. txn \<in> set (map fst (fs_staging fs)))
           (\<lambda>fs. fs\<lparr>fs_staging := fs_staging fs @ [(txn, empty_dir)]\<rparr>)),
      at_stage q (before_rename St_staging) (stepsIO
        [sync_dir windows,
         mkdir_verified windows (\<lambda>fs. rd_payload (staged txn fs) \<noteq> None)
           (map_staging txn (\<lambda>d. d\<lparr>rd_payload := Some []\<rparr>)),
         sync_dir windows]),
      at_stage q (before_rename St_transaction)
        (write_staged cfg txn rd_transaction (\<lambda>b d. d\<lparr>rd_transaction := Some b\<rparr>) (pp_transaction_bytes pp)),
      at_stage q (before_rename St_payload) (eachIO (stage_payload cfg q) (pp_inventories pp)),
      at_stage q (before_rename St_manifest) (stepsIO
        [write_staged cfg txn rd_manifest (\<lambda>b d. d\<lparr>rd_manifest := Some b\<rparr>) (pp_manifest_bytes pp),
         bindIO (verify_dir cfg (pr_run_id q) (Staging_name txn) (staged txn)) (\<lambda>_. retIO ()),
         bindIO filesIO (\<lambda>fs. eachIO (\<lambda>_. sync_dir windows) ('''' # rd_payload_dirs (staged txn fs))),
         sync_dir windows]),
      at_stage q (publishing\<lparr>sf_rename_invoked := True\<rparr>)
        (create_with (revision_exists q) (rename_staging q)),
      at_stage q (publishing\<lparr>sf_rename_invoked := True, sf_published := True\<rparr>) (stepsIO
        [sync_dir windows, sync_dir windows,
         bindIO (verify_dir cfg (pr_run_id q) (Revision_name (pr_proposed_revision q) txn) (published_dir q))
           (\<lambda>m_sha. if m_sha \<noteq> pp_manifest_sha256 pp
              then raiseIO (Canonical_error ''published revision manifest hash mismatch'') else retIO ())])])"

section \<open>The pointer\<close>

definition put_pointer_temp :: "string \<Rightarrow> byte list \<Rightarrow> run_files \<Rightarrow> run_files" where
  "put_pointer_temp txn data fs = fs\<lparr>fs_pointer_temps := AList.update txn data (fs_pointer_temps fs)\<rparr>"

definition replace_current :: "string \<Rightarrow> run_files \<Rightarrow> run_files" where
  "replace_current txn fs = (case map_of (fs_pointer_temps fs) txn of
     None \<Rightarrow> fs
   | Some d \<Rightarrow> fs\<lparr>fs_current := Some d, fs_pointer_temps := AList.delete txn (fs_pointer_temps fs)\<rparr>)"

definition pointer_failure :: "publish_revision \<Rightarrow> storage_exn \<Rightarrow> storage_exn" where
  \<comment> \<open>only \<open>_StorageBoundaryError\<close> is caught around the pointer temporary\<close>
  "pointer_failure q e = (case e of
     Storage_boundary b \<Rightarrow> run_failure_error (pr_run_id q)
       (boundary_failure q b St_pointer FE_unreferenced_revision True)
   | _ \<Rightarrow> e)"

definition write_pointer :: "store_config \<Rightarrow> prepared_revision \<Rightarrow> unit io" where
  "write_pointer cfg pp = (let q = pp_request pp; txn = pr_transaction_id q in
     exceptIO (write_exclusive_verified (sc_max_artifact_bytes cfg)
         (\<lambda>fs. map_of (fs_pointer_temps fs) txn) (put_pointer_temp txn) (pp_pointer_bytes pp))
       (\<lambda>e. raiseIO (pointer_failure q e)))"

definition unreferenced_failure :: "publish_revision \<Rightarrow> run_code \<Rightarrow> stage \<Rightarrow> run_failure" where
  "unreferenced_failure q code st = (publish_failure q code st)
     \<lparr>rf_filesystem_effect := FE_unreferenced_revision, rf_reconciliation_required := True\<rparr>"

definition previous_unconfirmed :: "publish_revision \<Rightarrow> previous_effect" where
  "previous_unconfirmed q = (if pr_proposed_revision q = 1 then PE_not_applicable else PE_unconfirmed)"

definition not_replaced_failure :: "publish_revision \<Rightarrow> bool \<Rightarrow> run_failure" where
  "not_replaced_failure q final_cas_verified =
     (if final_cas_verified then unreferenced_failure q R_TRANSACTION_PUBLISH_FAILED St_current_replace
      else unreferenced_failure q R_TRANSACTION_VERIFICATION_FAILED St_final_cas)
     \<lparr>rf_durability_evidence := Some (reconciliation_durability FS_confirmed PR_not_attempted)\<rparr>"

definition replace_failure :: "publish_revision \<Rightarrow> stage \<Rightarrow> run_failure" where
  "replace_failure q st = (publish_failure q R_EFFECT_UNKNOWN st)
     \<lparr>rf_filesystem_effect := FE_current_replace_attempted, rf_domain_effect := DE_current_may_have_advanced,
      rf_previous_revision_effect := previous_unconfirmed q, rf_reconciliation_required := True,
      rf_durability_evidence := Some (reconciliation_durability FS_confirmed PR_attempted_unconfirmed)\<rparr>"

definition reconciliation_failure :: "publish_revision \<Rightarrow> run_failure" where
  "reconciliation_failure q = (publish_failure q R_RUN_CORRUPT St_reconciliation)
     \<lparr>rf_observed_revision := Some (pr_proposed_revision q), rf_filesystem_effect := FE_current_advanced,
      rf_domain_effect := DE_current_advanced, rf_previous_revision_effect := previous_unconfirmed q,
      rf_reconciliation_required := True,
      rf_durability_evidence := Some (reconciliation_durability FS_confirmed PR_confirmed)\<rparr>"

definition final_cas :: "store_config \<Rightarrow> publish_revision \<Rightarrow> unit io" where
  "final_cas cfg q = except_as q (\<lambda>_. not_replaced_failure q False)
     (bindIO (existing_chain_or_none cfg (pr_run_id q) True) (\<lambda>chain.
      if cas_matches q chain then retIO ()
      else refuse q ((unreferenced_failure q R_RUN_CONFLICT St_final_cas)
             \<lparr>rf_observed_revision := observed_revision chain\<rparr>)))"

definition confirm_pointer :: "store_config \<Rightarrow> prepared_revision \<Rightarrow> unit io" where
  "confirm_pointer cfg pp = observe (\<lambda>fs.
     bindE (control_bytes (sc_max_artifact_bytes cfg) read_pointer (fs_current fs)) (\<lambda>(p, data, sha).
     require (p = pp_pointer pp \<and> data = pp_pointer_bytes pp \<and> sha = pp_pointer_sha256 pp)
       ''reconciliation current pointer mismatch''))"

definition confirm_lineage :: "store_config \<Rightarrow> prepared_revision \<Rightarrow> unit io" where
  "confirm_lineage cfg pp = bindIO (read_chain cfg (pr_run_id (pp_request pp)) True) (\<lambda>c.
     liftIO (require (vc_pointer c = pp_pointer pp \<and>
         fst (snd (snd (hd (vc_entries c)))) = pp_manifest_sha256 pp) ''current reconciliation mismatch''))"

definition replace_and_confirm :: "store_config \<Rightarrow> prepared_revision \<Rightarrow> unit io" where
  "replace_and_confirm cfg pp = (let q = pp_request pp in stepsIO
     [final_cas cfg q,
      except_as q (\<lambda>_. not_replaced_failure q True) (ownership (pr_run_id q)),
      except_as q (\<lambda>_. replace_failure q St_current_replace) (atomic (replace_current (pr_transaction_id q))),
      except_as q (\<lambda>_. replace_failure q St_reconciliation) (confirm_pointer cfg pp),
      except_as q (\<lambda>_. reconciliation_failure q) (confirm_lineage cfg pp)])"

definition sync_failure :: "publish_revision \<Rightarrow> run_failure" where
  "sync_failure q = (publish_failure q R_DURABILITY_UNCONFIRMED St_directory_sync)
     \<lparr>rf_observed_revision := Some (pr_proposed_revision q), rf_filesystem_effect := FE_current_advanced,
      rf_domain_effect := DE_current_advanced, rf_reconciliation_required := True,
      rf_durability_evidence := Some \<lparr>du_file_sync = FS_confirmed, du_directory_sync = DS_failed,
        du_pointer_replace = PR_confirmed, du_reconciliation = RC_required\<rparr>\<rparr>"

definition published_outcome :: "prepared_revision \<Rightarrow> dir_sync \<Rightarrow> storage_exn + publish_outcome" where
  "published_outcome pp s = (let q = pp_request pp in
     bindE (run_id_sha256 (pr_run_id q)) (\<lambda>_. model publish_outcome_ok
       \<lparr>oc_kind = Published, oc_transaction_id = pr_transaction_id q,
        oc_transaction_sha256 = tx_transaction_sha256 (pp_transaction pp),
        oc_revision = pr_proposed_revision q, oc_observed_current_revision = Some (pr_proposed_revision q),
        oc_manifest_sha256 = Some (pp_manifest_sha256 pp), oc_pointer_sha256 = Some (pp_pointer_sha256 pp),
        oc_filesystem_effect = FE_current_advanced, oc_domain_effect = DE_current_advanced,
        oc_previous_revision_effect = previous_kept q, oc_durability_evidence = published_durability s\<rparr>))"

section \<open>publish\<close>

definition check_admission ::
    "store_config \<Rightarrow> publish_revision \<Rightarrow> bool \<Rightarrow> (run_files \<times> verified_chain option) io" where
  \<comment> \<open>the files under the lock, and the chain read from them\<close>
  "check_admission cfg q changed =
     thenIO (observe (scan_case_aliases (pr_run_id q)))
    (thenIO (except_storage (observe (validate_existing_namespace cfg (pr_run_id q) True))
        (\<lambda>e. run_failure_error (pr_run_id q) ((publish_failure q (namespace_code e) St_locked_admission)
           \<lparr>rf_filesystem_effect := changed_effect changed\<rparr>)))
    (bindIO (except_storage (existing_chain_or_none cfg (pr_run_id q) True)
        (\<lambda>e. run_failure_error (pr_run_id q) ((plain_run_failure R_RUN_CORRUPT St_initial_read)
           \<lparr>rf_transaction_id := Some (pr_transaction_id q), rf_expected_revision := pr_expected_revision q,
            rf_reconciliation_required := True\<rparr>)))
    (\<lambda>chain. bindIO filesIO (\<lambda>fs. retIO (fs, chain)))))"

definition admission_failure ::
    "publish_revision \<Rightarrow> run_code \<Rightarrow> verified_chain option \<Rightarrow> filesystem_effect \<Rightarrow> run_failure" where
  "admission_failure q code chain effect = (publish_failure q code St_locked_admission)
     \<lparr>rf_observed_revision := observed_revision chain, rf_filesystem_effect := effect,
      rf_reconciliation_required := (effect \<in> {FE_staging_orphan, FE_unreferenced_revision})\<rparr>"

definition count_bytes :: "publish_revision \<Rightarrow> verified_chain option \<Rightarrow> filesystem_effect \<Rightarrow> int io" where
  "count_bytes q chain effect = exceptIO (observe (\<lambda>fs. Inr (run_physical_bytes fs))) (\<lambda>e. raiseIO
     (if is_canonical_error e \<or> is_os_error e
      then run_failure_error (pr_run_id q) (admission_failure q (namespace_code e) chain effect) else e))"

definition publish_new ::
    "store_config \<Rightarrow> prepared_revision \<Rightarrow> verified_chain option \<Rightarrow> bool \<Rightarrow> int \<Rightarrow> string \<Rightarrow> string \<Rightarrow> publish_outcome io" where
  \<comment> \<open>from the compare-and-swap check to the outcome\<close>
  "publish_new cfg pp chain changed current_bytes owner_token acquired_at =
     (let q = pp_request pp;
          conflict = (\<lambda>code st. refuse q ((publish_failure q code st)
            \<lparr>rf_observed_revision := observed_revision chain, rf_filesystem_effect := changed_effect changed\<rparr>)) in
      if \<not> cas_matches q chain then conflict R_RUN_CONFLICT St_initial_read
      else bindIO (liftIO (metadata_value cfg q owner_token acquired_at)) (\<lambda>metadata.
      if sc_max_artifact_bytes cfg < int (length metadata)
      then conflict R_ARTIFACT_BUDGET_EXCEEDED St_locked_admission
      else bindIO filesIO (\<lambda>fs.
      let revision_bytes = int (length (pp_transaction_bytes pp)) + int (length (pp_manifest_bytes pp))
            + sum_list (map ie_size_bytes (pp_inventories pp));
          after_metadata = current_bytes - opt_size (fs_metadata fs) + int (length metadata);
          peak = max (current_bytes + int (length metadata))
            (max (after_metadata + revision_bytes)
                 (after_metadata + revision_bytes + int (length (pp_pointer_bytes pp)))) in
      if sc_max_run_bytes cfg < peak then conflict R_RUN_BUDGET_EXCEEDED St_locked_admission
      else thenIO (except_as q (metadata_failure q) (write_metadata cfg owner_token metadata))
          (thenIO (exceptIO (bootstrap_namespace cfg (pr_run_id q)) (\<lambda>e. refuse q (bootstrap_failure q e)))
          (thenIO (stage_revision cfg pp)
          (thenIO (write_pointer cfg pp)
          (thenIO (replace_and_confirm cfg pp)
          (bindIO (exceptIO (directory_sync (sc_windows cfg)) (\<lambda>_. refuse q (sync_failure q)))
            (\<lambda>s. liftIO (published_outcome pp s))))))))))"

definition publish_locked ::
    "store_config \<Rightarrow> prepared_revision \<Rightarrow> bool \<Rightarrow> string \<Rightarrow> string \<Rightarrow> publish_outcome io" where
  "publish_locked cfg pp changed owner_token acquired_at =
     (let q = pp_request pp in
      bindIO (check_admission cfg q changed) (\<lambda>(fs, chain).
      let effect = admission_effect q chain changed fs in
      bindIO (count_bytes q chain effect) (\<lambda>current_bytes.
      if sc_max_run_bytes cfg < current_bytes
      then refuse q (admission_failure q R_RUN_BUDGET_EXCEEDED chain effect)
      else bindIO (liftIO (idempotency_outcome pp chain)) (\<lambda>idempotent.
      case idempotent of Some outcome \<Rightarrow> retIO outcome
      | None \<Rightarrow> bindIO (observe (replay_orphan_effect cfg pp)) (\<lambda>orphan.
      case orphan of Some orphan_effect \<Rightarrow> liftIO (orphan_outcome pp chain orphan_effect)
      | None \<Rightarrow> publish_new cfg pp chain changed current_bytes owner_token acquired_at)))))"

definition release_failure :: "publish_revision \<Rightarrow> bool \<Rightarrow> storage_exn + publish_outcome \<Rightarrow> run_failure" where
  \<comment> \<open>the lock could not be released: the effects are those of the result it replaces\<close>
  "release_failure q changed result = (publish_failure q R_EFFECT_UNKNOWN St_lock_release)
     \<lparr>rf_reconciliation_required := True,
      rf_filesystem_effect := (case result of Inr c \<Rightarrow> oc_filesystem_effect c
        | Inl (Run_error f) \<Rightarrow> rf_filesystem_effect f | Inl _ \<Rightarrow> changed_effect changed),
      rf_domain_effect := (case result of Inr c \<Rightarrow> oc_domain_effect c
        | Inl (Run_error f) \<Rightarrow> rf_domain_effect f | Inl _ \<Rightarrow> DE_current_unchanged),
      rf_observed_revision := (case result of Inr c \<Rightarrow> oc_observed_current_revision c
        | Inl (Run_error f) \<Rightarrow> rf_observed_revision f | Inl _ \<Rightarrow> None),
      rf_previous_revision_effect := (case result of Inr c \<Rightarrow> oc_previous_revision_effect c
        | Inl (Run_error f) \<Rightarrow> rf_previous_revision_effect f | Inl _ \<Rightarrow> previous_unconfirmed q),
      rf_durability_evidence := Some (case result of Inr c \<Rightarrow> oc_durability_evidence c
        | Inl (Run_error f) \<Rightarrow> (case rf_durability_evidence f of Some d \<Rightarrow> d
            | None \<Rightarrow> reconciliation_durability FS_confirmed PR_not_attempted)
        | Inl _ \<Rightarrow> reconciliation_durability FS_confirmed PR_not_attempted)\<rparr>"

definition release_after :: "publish_revision \<Rightarrow> bool \<Rightarrow> publish_outcome io \<Rightarrow> publish_outcome io" where
  \<comment> \<open>the \<open>finally\<close> clause\<close>
  "release_after q changed m w = (case m w of
     (Inl Killed, w1) \<Rightarrow> (Inl Killed, w1)
   | (result, w1) \<Rightarrow> (case lease_release w1 of
       (Inr _, w2) \<Rightarrow> (result, w2)
     | (Inl Killed, w2) \<Rightarrow> (Inl Killed, w2)
     | (Inl _, w2) \<Rightarrow> refuse q (release_failure q changed result) w2))"

definition publish_run :: "store_config \<Rightarrow> publish_revision \<Rightarrow> string \<Rightarrow> string \<Rightarrow> publish_outcome io" where
  \<comment> \<open>\<open>publish\<close>; the owner token and the time are what \<open>id_factory\<close> and \<open>clock\<close> return\<close>
  "publish_run cfg q owner_token acquired_at =
     bindIO (liftIO (publish_preflight cfg q)) (\<lambda>pp.
     thenIO (ownership (pr_run_id q))
    (if \<not> is_owner_token owner_token
     then refuse q ((plain_run_failure R_INTERNAL_INVARIANT_ERROR St_preflight)
       \<lparr>rf_transaction_id := Some (pr_transaction_id q)\<rparr>)
     else thenIO os_call
       (bindIO (authority (pr_run_id q)) (\<lambda>changed.
          release_after q changed (publish_locked cfg pp changed owner_token acquired_at)))))"

end
