(* ===== verification/RevisionRules.thy ===== *)
theory RevisionRules
  imports RevisionStore
begin

text \<open>
  Rules for reasoning about the store's calls whatever fails.  \<open>holds P m Q E\<close>: started in files
  that satisfy \<open>P\<close>, with any list of decisions, \<open>m\<close> returns \<open>x\<close> in files that satisfy \<open>Q x\<close>,
  or ends with \<open>e\<close> in files that satisfy \<open>E e\<close>, the end of the process included.  \<open>stable P m\<close> is
  the special case of a call after which \<open>P\<close> still holds, whichever way it ends.
\<close>

definition holds ::
    "(run_files \<Rightarrow> bool) \<Rightarrow> 'a io \<Rightarrow> ('a \<Rightarrow> run_files \<Rightarrow> bool) \<Rightarrow> (storage_exn \<Rightarrow> run_files \<Rightarrow> bool) \<Rightarrow> bool" where
  "holds P m Q E \<longleftrightarrow> (\<forall>w. P (w_files w) \<longrightarrow> (case m w of
     (Inr x, w1) \<Rightarrow> Q x (w_files w1) | (Inl e, w1) \<Rightarrow> E e (w_files w1)))"

definition stable :: "(run_files \<Rightarrow> bool) \<Rightarrow> 'a io \<Rightarrow> bool" where
  "stable P m \<longleftrightarrow> holds P m (\<lambda>_. P) (\<lambda>_. P)"

named_theorems io \<open>rules for the calls of the store\<close>

lemma holdsI:
  "(\<And>w. P (w_files w) \<Longrightarrow> (case m w of (Inr x, w1) \<Rightarrow> Q x (w_files w1) | (Inl e, w1) \<Rightarrow> E e (w_files w1)))
   \<Longrightarrow> holds P m Q E"
  by (simp add: holds_def)

lemma holds_Inr: "holds P m Q E \<Longrightarrow> P (w_files w) \<Longrightarrow> m w = (Inr x, w1) \<Longrightarrow> Q x (w_files w1)"
  by (auto simp: holds_def dest!: spec [of _ w])

lemma holds_Inl: "holds P m Q E \<Longrightarrow> P (w_files w) \<Longrightarrow> m w = (Inl e, w1) \<Longrightarrow> E e (w_files w1)"
  by (auto simp: holds_def dest!: spec [of _ w])

lemma holds_conseq:
  assumes "holds P m Q E" and "\<And>s. P' s \<Longrightarrow> P s" and "\<And>x s. Q x s \<Longrightarrow> Q' x s" and "\<And>e s. E e s \<Longrightarrow> E' e s"
  shows "holds P' m Q' E'"
  unfolding holds_def
proof (intro allI impI)
  fix w :: world
  assume "P' (w_files w)"
  then have P: "P (w_files w)" by (rule assms(2))
  show "case m w of (Inr x, w1) \<Rightarrow> Q' x (w_files w1) | (Inl e, w1) \<Rightarrow> E' e (w_files w1)"
  proof (cases "m w")
    case (Pair r w1)
    show ?thesis
    proof (cases r)
      case (Inl e)
      then show ?thesis using assms(4) [OF holds_Inl [OF assms(1) P, of e w1]] Pair by simp
    next
      case (Inr x)
      then show ?thesis using assms(3) [OF holds_Inr [OF assms(1) P, of x w1]] Pair by simp
    qed
  qed
qed

lemma holds_pre: "(\<And>s. P s \<Longrightarrow> P' s) \<Longrightarrow> holds P' m Q E \<Longrightarrow> holds P m Q E"
  by (rule holds_conseq [of P' m Q E P Q E])

lemma holds_false: "holds (\<lambda>_. False) m Q E"
  by (simp add: holds_def)

lemma holds_assume: "(C \<Longrightarrow> holds P m Q E) \<Longrightarrow> holds (\<lambda>s. C \<and> P s) m Q E"
  by (auto simp: holds_def)

lemma holds_disj: "holds P m Q E \<Longrightarrow> holds P' m Q E \<Longrightarrow> holds (\<lambda>s. P s \<or> P' s) m Q E"
  by (auto simp: holds_def)

lemma holds_ret: "holds (Q x) (retIO x) Q E"
  by (simp add: holds_def retIO_def)

lemma holds_raise: "holds (E e) (raiseIO e) Q E"
  by (simp add: holds_def raiseIO_def)

lemma holds_lift: "holds (\<lambda>s. case m of Inl e \<Rightarrow> E e s | Inr x \<Rightarrow> Q x s) (liftIO m) Q E"
  by (auto simp: holds_def liftIO_def split: sum.splits)

lemma holds_files: "holds (\<lambda>s. Q s s) filesIO Q E"
  by (simp add: holds_def filesIO_def)

lemma holds_bind:
  assumes "holds P m R E" and "\<And>x. holds (R x) (f x) Q E"
  shows "holds P (bindIO m f) Q E"
  unfolding holds_def
proof (intro allI impI)
  fix w :: world
  assume P: "P (w_files w)"
  show "case bindIO m f w of (Inr x, w1) \<Rightarrow> Q x (w_files w1) | (Inl e, w1) \<Rightarrow> E e (w_files w1)"
  proof (cases "m w")
    case (Pair r w1)
    then show ?thesis
      using P holds_Inr [OF assms(1) P, of _ w1] holds_Inl [OF assms(1) P, of _ w1] assms(2)
      by (cases r) (auto simp: bindIO_def holds_def)
  qed
qed

lemma holds_then: "holds P m (\<lambda>_. R) E \<Longrightarrow> holds R n Q E \<Longrightarrow> holds P (thenIO m n) Q E"
  unfolding thenIO_def by (rule holds_bind)

lemma holds_except:
  assumes "holds P m Q R" and "\<And>e. e \<noteq> Killed \<Longrightarrow> holds (R e) (h e) Q E" and "\<And>s. R Killed s \<Longrightarrow> E Killed s"
  shows "holds P (exceptIO m h) Q E"
  unfolding holds_def
proof (intro allI impI)
  fix w :: world
  assume P: "P (w_files w)"
  show "case exceptIO m h w of (Inr x, w1) \<Rightarrow> Q x (w_files w1) | (Inl e, w1) \<Rightarrow> E e (w_files w1)"
  proof (cases "m w")
    case (Pair r w1)
    show ?thesis
    proof (cases r)
      case (Inl e)
      then have R: "R e (w_files w1)" using holds_Inl [OF assms(1) P] Pair by blast
      show ?thesis
      proof (cases "e = Killed")
        case True
        then show ?thesis using R Pair Inl assms(3) by (simp add: exceptIO_def)
      next
        case False
        then have "exceptIO m h w = h e w1" using Pair Inl by (cases e) (simp_all add: exceptIO_def)
        then show ?thesis
          using holds_Inr [OF assms(2) [OF False] R] holds_Inl [OF assms(2) [OF False] R]
          by (cases "h e w1"; cases "fst (h e w1)") simp_all
      qed
    next
      case (Inr x)
      then show ?thesis using holds_Inr [OF assms(1) P] Pair by (simp add: exceptIO_def)
    qed
  qed
qed

lemma next_decision_files [simp]: "next_decision w = (d, w1) \<Longrightarrow> w_files w1 = w_files w"
  by (auto simp: next_decision_def split: list.splits)

lemma holds_atomic:
  assumes "\<And>s. P s \<Longrightarrow> Q () (f s)" and "\<And>e s. P s \<Longrightarrow> E e s" and "\<And>e s. P s \<Longrightarrow> E e (f s)"
  shows "holds P (atomic f) Q E"
  using assms by (auto simp: holds_def atomic_def split: prod.splits decision.splits)

lemma holds_write:
  assumes "\<And>s. P s \<Longrightarrow> Q () (put data s)" and "\<And>e s k. P s \<Longrightarrow> E e (put (take k data) s)"
  shows "holds P (partial_write put data) Q E"
  using assms by (auto simp: holds_def partial_write_def split: prod.splits decision.splits)

lemma holds_observe:
  assumes "\<And>s x. P s \<Longrightarrow> f s = Inr x \<Longrightarrow> Q x s" and "\<And>e s. P s \<Longrightarrow> E e s"
  shows "holds P (observe f) Q E"
  unfolding holds_def
proof (intro allI impI)
  fix w :: world
  assume P: "P (w_files w)"
  obtain d w1 where d: "next_decision w = (d, w1)" by (cases "next_decision w")
  then have "w_files w1 = w_files w" by simp
  with d P assms show "case observe f w of (Inr x, w1) \<Rightarrow> Q x (w_files w1) | (Inl e, w1) \<Rightarrow> E e (w_files w1)"
    by (cases d; cases "f (w_files w)") (simp_all add: observe_def)
qed

section \<open>Stable calls\<close>

lemma stableI: "holds P m (\<lambda>_. P) (\<lambda>_. P) \<Longrightarrow> stable P m" by (simp add: stable_def)
lemma stableD: "stable P m \<Longrightarrow> holds P m (\<lambda>_. P) (\<lambda>_. P)" by (simp add: stable_def)

lemma stable_basic [io, simp]: "stable P (retIO x)" "stable P (raiseIO e)" "stable P (liftIO r)" "stable P filesIO"
  unfolding stable_def
  by (rule holds_ret [where Q = "\<lambda>_. P"], rule holds_raise [where E = "\<lambda>_. P"],
      rule holds_pre [OF _ holds_lift], simp split: sum.split, rule holds_files [where Q = "\<lambda>_. P"])

lemma stable_observe [io, simp]: "stable P (observe f)" "stable P os_call"
  unfolding stable_def os_call_def by (rule holds_observe; simp)+

lemma stable_bind [io]: "stable P m \<Longrightarrow> (\<And>x. stable P (f x)) \<Longrightarrow> stable P (bindIO m f)"
  unfolding stable_def by (rule holds_bind)

lemma stable_then [io]: "stable P m \<Longrightarrow> stable P n \<Longrightarrow> stable P (thenIO m n)"
  unfolding stable_def by (rule holds_then)

lemma stable_except [io]: "stable P m \<Longrightarrow> (\<And>e. stable P (h e)) \<Longrightarrow> stable P (exceptIO m h)"
  unfolding stable_def by (rule holds_except [where R = "\<lambda>_. P"]) simp_all

lemma stable_steps [io]: "list_all (stable P) ms \<Longrightarrow> stable P (stepsIO ms)"
  by (induction ms) (simp_all add: stable_then)

lemma stable_each [io]: "(\<And>x. x \<in> set xs \<Longrightarrow> stable P (f x)) \<Longrightarrow> stable P (eachIO f xs)"
  by (induction xs) (simp_all add: stable_then)

lemma stable_atomic [io]: "(\<And>s. P s \<Longrightarrow> P (f s)) \<Longrightarrow> stable P (atomic f)"
  unfolding stable_def by (rule holds_atomic) auto

lemma stable_write [io]: "(\<And>s k. P s \<Longrightarrow> P (put (take k data) s)) \<Longrightarrow> stable P (partial_write put data)"
proof -
  assume put: "\<And>s k. P s \<Longrightarrow> P (put (take k data) s)"
  have "P s \<Longrightarrow> P (put data s)" for s using put [of s "length data"] by simp
  with put show ?thesis unfolding stable_def by (intro holds_write) auto
qed

lemma stable_boundary [io]: "stable P m \<Longrightarrow> stable P (at_boundary_of b m)"
  unfolding at_boundary_of_def by (rule stable_except) simp_all

lemma stable_create [io]: "(\<And>s. P s \<Longrightarrow> P (f s)) \<Longrightarrow> stable P (create_with present f)"
  unfolding create_with_def by (intro stable_bind) (auto intro: stable_atomic)

lemma stable_sync [io, simp]: "stable P (directory_sync windows)" "stable P (sync_dir windows)"
  unfolding directory_sync_def sync_dir_def by (auto intro!: io)

lemma stable_write_exclusive [io]:
  assumes "\<And>s k. P s \<Longrightarrow> int (length data) \<le> limit \<Longrightarrow> P (put (take k data) s)"
  shows "stable P (write_exclusive_verified limit get put data)"
proof (cases "limit < int (length data)")
  case True
  then show ?thesis by (simp add: write_exclusive_verified_def)
next
  case False
  then have put: "P (put (take k data) s)" if "P s" for s k using assms that by simp
  from put [of _ 0] have "P (put [] s)" if "P s" for s using that by simp
  with put False show ?thesis
    unfolding write_exclusive_verified_def if_not_P [OF False]
    by (intro stable_steps) (simp add: stable_boundary stable_create stable_write)
qed

lemma stable_mkdir [io]: "(\<And>s. P s \<Longrightarrow> P (f s)) \<Longrightarrow> stable P (mkdir_verified windows present f)"
  unfolding mkdir_verified_def by (auto intro!: io)

end
