(* ===== verification/RevisionLineage.thy ===== *)
theory RevisionLineage
  imports RevisionRules
begin

text \<open>
  The chain read from a run's files.  The predicate \<open>namespace_ok\<close> is what \<open>_validate_existing_namespace\<close>
  accepts; under it the chain is a function of \<open>current.json\<close> and the revision directories
  (\<open>chain_core\<close>).  The lemmas show that a further directory with a higher revision leaves the
  chain as it is, that replacing the pointer by one to such a directory puts exactly one
  entry in front of it, and that the revisions of a chain count down to 1.
\<close>

section \<open>What the namespace check accepts\<close>

lemma foldE_all: "foldE (\<lambda>_ x. g x) () xs = Inr () \<longleftrightarrow> (\<forall>x\<in>set xs. g x = Inr ())"
  by (induction xs) (auto simp: bindE_Inr)

definition metadata_small :: "store_config \<Rightarrow> run_files \<Rightarrow> bool" where
  "metadata_small cfg fs \<longleftrightarrow> opt_size (fs_metadata fs) \<le> sc_max_artifact_bytes cfg \<and>
     list_all (\<lambda>t. int (length (snd t)) \<le> sc_max_artifact_bytes cfg) (fs_metadata_temps fs)"

definition revision_verified :: "store_config \<Rightarrow> string \<Rightarrow> (int \<times> string) \<times> rev_dir \<Rightarrow> bool" where
  "revision_verified cfg run_id r \<longleftrightarrow> (case r of ((n, txn), d) \<Rightarrow>
     \<exists>e. verify_revision_directory cfg run_id (Revision_name n txn) d None = Inr e)"

definition namespace_ok :: "store_config \<Rightarrow> string \<Rightarrow> run_files \<Rightarrow> bool" where
  "namespace_ok cfg run_id fs \<longleftrightarrow> metadata_small cfg fs \<and> (\<forall>s\<in>set (fs_staging fs). staging_ok (snd s) = Inr ()) \<and>
     (\<forall>r\<in>set (fs_revisions fs). revision_verified cfg run_id r)"

lemma validate_namespace_iff:
  "validate_existing_namespace cfg run_id True fs = Inr () \<longleftrightarrow> namespace_ok cfg run_id fs"
proof -
  have each: "(case r of ((n, txn), d) \<Rightarrow> bindE (verify_revision_directory cfg run_id (Revision_name n txn) d None)
      (\<lambda>_. Inr ())) = (Inr () :: storage_exn + unit) \<longleftrightarrow> revision_verified cfg run_id r" for r
    by (auto simp: revision_verified_def bindE_Inr split: prod.split)
  show ?thesis
    unfolding validate_existing_namespace_def namespace_ok_def
    by (simp add: bindE_Inr foldE_all each metadata_small_def)
qed

definition chain_core :: "store_config \<Rightarrow> string \<Rightarrow> byte list option \<Rightarrow> revisions \<Rightarrow> storage_exn + verified_chain" where
  "chain_core cfg run_id current revs =
     bindE (control_bytes (sc_max_artifact_bytes cfg) read_pointer current) (\<lambda>(p, p_bytes, p_sha).
     bindE (require (po_run_id p = run_id) ''current pointer cross-run mismatch'') (\<lambda>_.
     bindE (read_lineage cfg run_id revs p (po_revision p) (po_manifest_sha256 p) {})
       (\<lambda>entries. Inr \<lparr>vc_pointer = p, vc_pointer_sha256 = p_sha, vc_entries = entries\<rparr>)))"

lemma chain_of_files_core:
  "namespace_ok cfg run_id fs \<Longrightarrow>
   chain_of_files cfg run_id True fs = chain_core cfg run_id (fs_current fs) (fs_revisions fs)"
  by (simp add: chain_of_files_def chain_core_def validate_namespace_iff [symmetric])

lemma chain_of_files_Inr:
  "chain_of_files cfg run_id True fs = Inr c \<longleftrightarrow>
   namespace_ok cfg run_id fs \<and> chain_core cfg run_id (fs_current fs) (fs_revisions fs) = Inr c"
  by (auto simp: chain_of_files_def chain_core_def validate_namespace_iff [symmetric] bindE_Inr)

section \<open>One step of the lineage\<close>

lemma lineage_step:
  "read_lineage cfg run_id revs p r sha seen = Inr es \<longleftrightarrow>
   (\<exists>c re m t. select_revision cfg run_id revs p r sha = Inr c \<and>
      verify_selected cfg run_id p c = Inr (re, m, sha, t) \<and>
      (re_revision re, re_transaction_id re) \<notin> seen \<and>
      (if mf_revision m = 1 then es = [(re, m, sha, t)]
       else \<exists>previous_sha rest. mf_previous_revision m = Some (mf_revision m - 1) \<and>
         mf_previous_manifest_sha256 m = Some previous_sha \<and>
         read_lineage cfg run_id revs p (mf_revision m - 1) previous_sha
           (insert (re_revision re, re_transaction_id re) seen) = Inr rest \<and>
         es = (re, m, sha, t) # rest))"
  (is "?l = ?r")
proof
  assume ?l
  then obtain c entry where sel: "select_revision cfg run_id revs p r sha = Inr c"
    and ver: "verify_selected cfg run_id p c = Inr entry"
    and rest: "(case entry of (re, m, m_sha, t) \<Rightarrow>
       if (re_revision re, re_transaction_id re) \<in> seen \<or> m_sha \<noteq> sha
       then Inl (Canonical_error ''lineage cycle or manifest hash mismatch'')
       else if mf_revision m = 1 then Inr [entry]
       else (case (mf_previous_revision m, mf_previous_manifest_sha256 m) of
         (Some previous, Some previous_sha) \<Rightarrow>
           if previous \<noteq> mf_revision m - 1 then Inl (Canonical_error ''lineage decrement mismatch'')
           else bindE (read_lineage cfg run_id revs p previous previous_sha
               (insert (re_revision re, re_transaction_id re) seen)) (\<lambda>rest. Inr (entry # rest))
       | _ \<Rightarrow> Inl (Canonical_error ''lineage decrement mismatch''))) = Inr es"
    by (subst (asm) read_lineage.simps) (auto simp: bindE_Inr)
  obtain re m m_sha t where entry: "entry = (re, m, m_sha, t)" by (metis prod.exhaust)
  show ?r
    using rest ver sel
    by (auto simp: entry bindE_Inr split: if_splits option.splits)
next
  assume ?r
  then obtain c re m t where "select_revision cfg run_id revs p r sha = Inr c"
      "verify_selected cfg run_id p c = Inr (re, m, sha, t)"
      "(re_revision re, re_transaction_id re) \<notin> seen"
      "if mf_revision m = 1 then es = [(re, m, sha, t)]
       else \<exists>previous_sha rest. mf_previous_revision m = Some (mf_revision m - 1) \<and>
         mf_previous_manifest_sha256 m = Some previous_sha \<and>
         read_lineage cfg run_id revs p (mf_revision m - 1) previous_sha
           (insert (re_revision re, re_transaction_id re) seen) = Inr rest \<and>
         es = (re, m, sha, t) # rest"
    by blast
  then show ?l
    by (subst read_lineage.simps) (auto simp: bindE_Inr split: if_splits)
qed

lemma selected_revision:
  assumes "select_revision cfg run_id revs p r sha = Inr c" and "verify_selected cfg run_id p c = Inr (re, m, m_sha, t)"
  shows "mf_revision m = r" and "re_revision re = r" and "1 \<le> r" and "re = reachable_of m m_sha"
    and "fst c = (r, mf_transaction_id m)"
proof -
  obtain n txn d where c: "c = ((n, txn), d)" by (metis prod.exhaust)
  then have n: "n = r" using assms(1) by (simp add: select_revision_name)
  have v: "verify_revision_directory cfg run_id (Revision_name r txn) d (if r = po_revision p then Some p else None)
      = Inr (re, m, m_sha, t)"
    using assms(2) by (simp add: verify_selected_def c n)
  from verified_revision [OF v] show "mf_revision m = r" "1 \<le> r" by (simp_all add: manifest_ok_def)
  from v show re: "re = reachable_of m m_sha" by (rule verify_revisionE)
  then show "re_revision re = r" using \<open>mf_revision m = r\<close> by (simp add: reachable_of_def)
  show "fst c = (r, mf_transaction_id m)" using verified_revision [OF v] by (simp add: c n)
qed

lemma lineage_induct [consumes 1, case_names last more]:
  assumes lineage: "read_lineage cfg run_id revs p r sha seen = Inr es"
    and last: "\<And>r sha seen c re m t. select_revision cfg run_id revs p r sha = Inr c \<Longrightarrow>
      verify_selected cfg run_id p c = Inr (re, m, sha, t) \<Longrightarrow> (re_revision re, re_transaction_id re) \<notin> seen \<Longrightarrow>
      mf_revision m = 1 \<Longrightarrow> P r sha seen [(re, m, sha, t)]"
    and more: "\<And>r sha seen c re m t previous_sha rest. select_revision cfg run_id revs p r sha = Inr c \<Longrightarrow>
      verify_selected cfg run_id p c = Inr (re, m, sha, t) \<Longrightarrow> (re_revision re, re_transaction_id re) \<notin> seen \<Longrightarrow>
      mf_revision m \<noteq> 1 \<Longrightarrow> mf_previous_revision m = Some (mf_revision m - 1) \<Longrightarrow>
      mf_previous_manifest_sha256 m = Some previous_sha \<Longrightarrow>
      read_lineage cfg run_id revs p (mf_revision m - 1) previous_sha
        (insert (re_revision re, re_transaction_id re) seen) = Inr rest \<Longrightarrow>
      P (mf_revision m - 1) previous_sha (insert (re_revision re, re_transaction_id re) seen) rest \<Longrightarrow>
      P r sha seen ((re, m, sha, t) # rest)"
  shows "P r sha seen es"
  using lineage last more
proof (induction cfg run_id revs p r sha seen arbitrary: es rule: read_lineage.induct)
  case (1 cfg run_id revs p r sha seen)
  from "1.prems"(1) obtain c re m t where
    sel: "select_revision cfg run_id revs p r sha = Inr c" and
    ver: "verify_selected cfg run_id p c = Inr (re, m, sha, t)" and
    fresh: "(re_revision re, re_transaction_id re) \<notin> seen" and
    rest: "if mf_revision m = 1 then es = [(re, m, sha, t)]
       else \<exists>previous_sha rest. mf_previous_revision m = Some (mf_revision m - 1) \<and>
         mf_previous_manifest_sha256 m = Some previous_sha \<and>
         read_lineage cfg run_id revs p (mf_revision m - 1) previous_sha
           (insert (re_revision re, re_transaction_id re) seen) = Inr rest \<and>
         es = (re, m, sha, t) # rest"
    by (auto simp: lineage_step)
  show ?case
  proof (cases "mf_revision m = 1")
    case True
    then show ?thesis using rest "1.prems"(2) [OF sel ver fresh] by simp
  next
    case False
    with rest obtain previous_sha rest' where
      prev: "mf_previous_revision m = Some (mf_revision m - 1)" "mf_previous_manifest_sha256 m = Some previous_sha" and
      lin: "read_lineage cfg run_id revs p (mf_revision m - 1) previous_sha
           (insert (re_revision re, re_transaction_id re) seen) = Inr rest'" and
      es: "es = (re, m, sha, t) # rest'"
      by auto
    have guard: "\<not> ((re_revision re, re_transaction_id re) \<in> seen \<or> sha \<noteq> sha)" using fresh by simp
    have "P (mf_revision m - 1) previous_sha (insert (re_revision re, re_transaction_id re) seen) rest'"
      by (rule "1.IH" [OF sel ver refl refl refl guard False])
        (use prev lin "1.prems"(2,3) in \<open>simp_all\<close>)
    then show ?thesis using "1.prems"(3) [OF sel ver fresh False prev lin] es by simp
  qed
qed

lemma guard_Inr: "(if b then Inr () else Inl x) = Inr u \<longleftrightarrow> b" by simp

lemma verify_without_pointer:
  "verify_revision_directory cfg run_id name d (Some p) = Inr e \<Longrightarrow> verify_revision_directory cfg run_id name d None = Inr e"
  by (cases e) (auto simp: verify_revision_directory_def bindE_Inr Let_def guard_Inr split: prod.splits)

lemma map_of_append_fresh: "k \<notin> fst ` set xs \<Longrightarrow> map_of (xs @ [(k, v)]) k = Some v"
  by (induction xs) auto

lemma verify_with_pointer:
  "verify_revision_directory cfg run_id name d None = Inr (re, m, m_sha, t) \<Longrightarrow> pointer_matches p m m_sha \<Longrightarrow>
   verify_revision_directory cfg run_id name d (Some p) = Inr (re, m, m_sha, t)"
  by (auto simp: verify_revision_directory_def bindE_Inr Let_def guard_Inr split: prod.splits)

lemma verify_renamed:
  "verify_revision_directory cfg run_id (Staging_name txn) d None = Inr (re, m, m_sha, t) \<Longrightarrow> tx_proposed_revision t = n \<Longrightarrow>
   verify_revision_directory cfg run_id (Revision_name n txn) d None = Inr (re, m, m_sha, t)"
  by (auto simp: verify_revision_directory_def bindE_Inr Let_def guard_Inr transaction_identity_def split: prod.splits)

section \<open>A new directory above the chain\<close>

lemma candidates_append:
  "r < fst (fst new) \<Longrightarrow> lineage_candidates cfg run_id (revs @ [new]) r sha = lineage_candidates cfg run_id revs r sha"
  by (auto simp: lineage_candidates_def split: prod.split)

lemma lineage_below:
  assumes "read_lineage cfg run_id revs p r sha seen = Inr es" and "r < po_revision p" and "r < po_revision q"
    and "r < fst (fst new)" and "\<forall>x\<in>seen'. r < fst x"
  shows "read_lineage cfg run_id (revs @ [new]) q r sha seen' = Inr es"
  using assms
proof (induction arbitrary: seen' rule: lineage_induct)
  case (last r sha seen c re m t)
  note name = selected_revision [OF last(1,2)]
  have "select_revision cfg run_id (revs @ [new]) q r sha = Inr c"
    using last by (simp add: select_revision_def candidates_append)
  moreover have "verify_selected cfg run_id q c = Inr (re, m, sha, t)"
    using last name(5) by (cases c) (auto simp: verify_selected_def split: prod.splits)
  ultimately show ?case using last name by (subst lineage_step) auto
next
  case (more r sha seen c re m t previous_sha rest)
  note name = selected_revision [OF more(1,2)]
  have "select_revision cfg run_id (revs @ [new]) q r sha = Inr c"
    using more by (simp add: select_revision_def candidates_append)
  moreover have "verify_selected cfg run_id q c = Inr (re, m, sha, t)"
    using more name(5) by (cases c) (auto simp: verify_selected_def split: prod.splits)
  moreover have "read_lineage cfg run_id (revs @ [new]) q (mf_revision m - 1) previous_sha
      (insert (re_revision re, re_transaction_id re) seen') = Inr rest"
    by (rule more(8)) (use more name in auto)
  ultimately show ?case using more name by (subst lineage_step) auto
qed

lemma lineage_beside:
  assumes "read_lineage cfg run_id revs p r sha seen = Inr es" and "r \<le> po_revision p" and "po_revision p < fst (fst new)"
  shows "read_lineage cfg run_id (revs @ [new]) p r sha seen = Inr es"
  using assms
proof (induction rule: lineage_induct)
  case (last r sha seen c re m t)
  have "select_revision cfg run_id (revs @ [new]) p r sha = Inr c"
    using last by (auto simp: select_revision_def candidates_append split: option.splits if_splits)
  then show ?case using last by (subst lineage_step) auto
next
  case (more r sha seen c re m t previous_sha rest)
  note name = selected_revision [OF more(1,2)]
  have "select_revision cfg run_id (revs @ [new]) p r sha = Inr c"
    using more by (auto simp: select_revision_def candidates_append split: option.splits if_splits)
  moreover have "read_lineage cfg run_id (revs @ [new]) p (mf_revision m - 1) previous_sha
      (insert (re_revision re, re_transaction_id re) seen) = Inr rest"
    by (rule more(8)) (use more name in auto)
  ultimately show ?case using more by (subst lineage_step) auto
qed

lemma chain_core_append:
  assumes "chain_core cfg run_id current revs = Inr c" and "po_revision (vc_pointer c) < fst (fst new)"
  shows "chain_core cfg run_id current (revs @ [new]) = Inr c"
  using assms by (auto simp: chain_core_def bindE_Inr lineage_beside split: prod.splits)

section \<open>The entries of a chain\<close>

definition entry_revision :: "chain_entry \<Rightarrow> int" where "entry_revision e = re_revision (fst e)"

definition countdown :: "int \<Rightarrow> int list" where "countdown r = map int (rev [1..<Suc (nat r)])"

lemma countdown_1 [simp]: "countdown 1 = [1]" by (simp add: countdown_def)

lemma countdown_step:
  assumes "1 < r"
  shows "countdown r = r # countdown (r - 1)"
proof -
  have "nat r = Suc (nat (r - 1))" using assms by simp
  then have "[1..<Suc (nat r)] = [1..<Suc (nat (r - 1))] @ [nat r]" by (simp add: upt_Suc_append)
  then show ?thesis using assms by (simp add: countdown_def del: upt_Suc)
qed

lemma length_countdown [simp]: "length (countdown r) = nat r" by (simp add: countdown_def)

lemma lineage_counts:
  "read_lineage cfg run_id revs p r sha seen = Inr es \<Longrightarrow>
   1 \<le> r \<and> map entry_revision es = countdown r"
proof (induction rule: lineage_induct)
  case (last r sha seen c re m t)
  then show ?case using selected_revision [OF last(1,2)] by (simp add: entry_revision_def)
next
  case (more r sha seen c re m t previous_sha rest)
  note name = selected_revision [OF more(1,2)]
  then have r: "1 < r" using more(4) by simp
  show ?case using more(8) name r by (simp add: entry_revision_def countdown_step)
qed

lemma chain_counts:
  assumes "chain_core cfg run_id current revs = Inr c"
  shows "1 \<le> po_revision (vc_pointer c)"
    and "map entry_revision (vc_entries c) = countdown (po_revision (vc_pointer c))"
  using assms by (auto simp: chain_core_def bindE_Inr dest!: lineage_counts split: prod.splits)

lemma chain_length: "chain_core cfg run_id current revs = Inr c \<Longrightarrow> int (length (vc_entries c)) = po_revision (vc_pointer c)"
proof -
  assume c: "chain_core cfg run_id current revs = Inr c"
  from chain_counts(2) [OF c] have "length (vc_entries c) = nat (po_revision (vc_pointer c))"
    by (metis length_map length_countdown)
  with chain_counts(1) [OF c] show ?thesis by simp
qed

lemma chain_not_empty: "chain_core cfg run_id current revs = Inr c \<Longrightarrow> vc_entries c \<noteq> []"
  using chain_length [of cfg run_id current revs c] chain_counts(1) [of cfg run_id current revs c] by auto

section \<open>Advancing the pointer\<close>

definition manifest_bytes_of :: "revisions \<Rightarrow> byte list set" where
  "manifest_bytes_of revs = {data. \<exists>r\<in>set revs. rd_manifest (snd r) = Some data}"

definition unambiguous :: "revisions \<Rightarrow> bool" where
  \<comment> \<open>no two manifests of the run collide under SHA-256\<close>
  "unambiguous revs \<longleftrightarrow> inj_on sha256_bytes (manifest_bytes_of revs)"

lemma candidate_of_selected:
  assumes sel: "select_revision cfg run_id revs p r sha = Inr c" and ver: "verify_selected cfg run_id p c = Inr (re, m, sha, t)"
  shows "c \<in> set (lineage_candidates cfg run_id revs r sha)"
proof -
  obtain n txn d where c: "c = ((n, txn), d)" by (metis prod.exhaust)
  then have n: "n = r" "c \<in> set revs" using sel select_revision_name by blast+
  have v: "verify_revision_directory cfg run_id (Revision_name n txn) d (if n = po_revision p then Some p else None)
      = Inr (re, m, sha, t)"
    using ver by (simp add: verify_selected_def c)
  from v verified_revision [OF v] show ?thesis
    by (elim verify_revisionE)
      (use n c in \<open>auto simp: lineage_candidates_def control_bytes_def manifest_matches_def transaction_identity_def\<close>)
qed

lemma only_element: "(\<And>x. x \<in> set xs \<Longrightarrow> x = c) \<Longrightarrow> c \<in> set xs \<Longrightarrow> distinct xs \<Longrightarrow> xs = [c]"
proof (cases xs)
  case (Cons y ys)
  assume same: "\<And>x. x \<in> set xs \<Longrightarrow> x = c" and "distinct xs"
  have "y = c" using same [of y] Cons by simp
  moreover have "ys = []"
    using same [of "hd ys"] Cons \<open>distinct xs\<close> \<open>y = c\<close> by (cases ys) auto
  ultimately show ?thesis using Cons by simp
qed simp

lemma candidate_unique:
  assumes all: "\<forall>r\<in>set revs. revision_verified cfg run_id r" and dist: "distinct (map fst revs)"
    and unamb: "unambiguous revs" and c: "c \<in> set (lineage_candidates cfg run_id revs r sha)"
  shows "lineage_candidates cfg run_id revs r sha = [c]"
proof -
  have same: "x = c" if x: "x \<in> set (lineage_candidates cfg run_id revs r sha)" for x
  proof -
    have "fst (fst x) = r" "fst (fst c) = r" using x c by (auto simp: lineage_candidates_def)
    then obtain txn d txn' d' where xc: "x = ((r, txn), d)" "c = ((r, txn'), d')" by (metis prod.exhaust_sel)
    obtain m data m' data' where
      m: "rd_manifest d = Some data" "read_manifest data = Some m" "sha256_bytes data = sha" and
      m': "rd_manifest d' = Some data'" "read_manifest data' = Some m'" "sha256_bytes data' = sha"
      using x c
      by (auto simp: lineage_candidates_def xc control_bytes_def split: option.splits if_splits)
    have mem: "x \<in> set revs" "c \<in> set revs" using x c by (auto simp: lineage_candidates_def)
    have "data \<in> manifest_bytes_of revs" "data' \<in> manifest_bytes_of revs"
      using mem m(1) m'(1) xc by (force simp: manifest_bytes_of_def)+
    then have "data = data'" using unamb m(3) m'(3) by (auto simp: unambiguous_def dest: inj_onD)
    with m m' have mm: "m = m'" by simp
    from bspec [OF all mem(1)] bspec [OF all mem(2)] obtain e e' where
      e: "verify_revision_directory cfg run_id (Revision_name r txn) d None = Inr e" and
      e': "verify_revision_directory cfg run_id (Revision_name r txn') d' None = Inr e'"
      unfolding revision_verified_def xc by auto
    obtain re n s t re' n' s' t' where ee: "e = (re, n, s, t)" "e' = (re', n', s', t')" by (metis prod.exhaust)
    have "mf_transaction_id n = txn" "mf_transaction_id n' = txn'"
      using verified_revision [OF e [unfolded ee]] verified_revision [OF e' [unfolded ee]] by simp_all
    moreover have "n = m" using e m by (auto simp: ee elim!: verify_revisionE)
    moreover have "n' = m'" using e' m' by (auto simp: ee elim!: verify_revisionE)
    ultimately have "txn = txn'" using mm by simp
    with mem dist xc show ?thesis by (metis fst_conv distinct_map inj_onD)
  qed
  have "distinct (lineage_candidates cfg run_id revs r sha)"
    using dist by (simp add: lineage_candidates_def distinct_map)
  then show ?thesis by (intro only_element) (erule same, rule c, assumption)
qed

text \<open>The lineage of the old pointer, found again below a new one.\<close>

lemma lineage_under_new:
  assumes lineage: "read_lineage cfg run_id revs p (po_revision p) sha {} = Inr es"
    and new: "po_revision p < fst (fst new)" "po_revision p < po_revision q"
    and all: "\<forall>r\<in>set revs. revision_verified cfg run_id r" and dist: "distinct (map fst revs)"
    and unamb: "unambiguous revs" and seen: "\<forall>x\<in>seen. po_revision p < fst x"
  shows "read_lineage cfg run_id (revs @ [new]) q (po_revision p) sha seen = Inr es"
proof -
  from lineage obtain c re m t where
    sel: "select_revision cfg run_id revs p (po_revision p) sha = Inr c" and
    ver: "verify_selected cfg run_id p c = Inr (re, m, sha, t)" and
    rest: "if mf_revision m = 1 then es = [(re, m, sha, t)]
       else \<exists>previous_sha rest. mf_previous_revision m = Some (mf_revision m - 1) \<and>
         mf_previous_manifest_sha256 m = Some previous_sha \<and>
         read_lineage cfg run_id revs p (mf_revision m - 1) previous_sha
           {(re_revision re, re_transaction_id re)} = Inr rest \<and>
         es = (re, m, sha, t) # rest"
    by (auto simp: lineage_step)
  note name = selected_revision [OF sel ver]
  obtain d where c: "c = ((po_revision p, mf_transaction_id m), d)" using name(5) by (metis prod.exhaust_sel)
  have "lineage_candidates cfg run_id revs (po_revision p) sha = [c]"
    by (rule candidate_unique [OF all dist unamb candidate_of_selected [OF sel ver]])
  then have sel': "select_revision cfg run_id (revs @ [new]) q (po_revision p) sha = Inr c"
    using new by (simp add: select_revision_def candidates_append)
  have ver': "verify_selected cfg run_id q c = Inr (re, m, sha, t)"
    using ver new by (simp add: c verify_selected_def verify_without_pointer)
  have fresh: "(re_revision re, re_transaction_id re) \<notin> seen" using seen name(2) by auto
  have below: "read_lineage cfg run_id (revs @ [new]) q (mf_revision m - 1) previous_sha
      (insert (re_revision re, re_transaction_id re) seen) = Inr rest'"
    if "read_lineage cfg run_id revs p (mf_revision m - 1) previous_sha
      {(re_revision re, re_transaction_id re)} = Inr rest'" for previous_sha rest'
    by (rule lineage_below [OF that]) (use name new seen in auto)
  show ?thesis
    using rest sel' ver' fresh below by (subst lineage_step) (auto split: if_splits)
qed

lemma lineage_head_sha: "read_lineage cfg run_id revs p r sha seen = Inr es \<Longrightarrow> fst (snd (snd (hd es))) = sha"
  by (auto simp: lineage_step split: if_splits)

lemma lineage_advance:
  assumes lineage: "read_lineage cfg run_id revs p (po_revision p) (po_manifest_sha256 p) {} = Inr es"
    and step: "po_revision q = po_revision p + 1" and here: "1 \<le> po_revision p"
    and all: "\<forall>r\<in>set revs. revision_verified cfg run_id r" and dist: "distinct (map fst revs)"
    and unamb: "unambiguous revs" and fresh: "(po_revision q, po_transaction_id q) \<notin> fst ` set revs"
    and ver: "verify_revision_directory cfg run_id (Revision_name (po_revision q) (po_transaction_id q)) d (Some q)
      = Inr (re, m, po_manifest_sha256 q, t)"
    and prev: "mf_previous_manifest_sha256 m = Some (fst (snd (snd (hd es))))"
  shows "read_lineage cfg run_id (revs @ [((po_revision q, po_transaction_id q), d)]) q (po_revision q)
      (po_manifest_sha256 q) {} = Inr ((re, m, po_manifest_sha256 q, t) # es)"
proof -
  let ?revs = "revs @ [((po_revision q, po_transaction_id q), d)]"
  have head: "fst (snd (snd (hd es))) = po_manifest_sha256 p" by (rule lineage_head_sha [OF lineage])
  have m: "mf_revision m = po_revision q" "manifest_ok m" using verified_revision [OF ver] by simp_all
  then have previous: "mf_previous_revision m = Some (mf_revision m - 1)" "mf_revision m \<noteq> 1"
    using step here by (auto simp: manifest_ok_def)
  have re: "re = reachable_of m (po_manifest_sha256 q)" using ver by (rule verify_revisionE)
  have sel: "select_revision cfg run_id ?revs q (po_revision q) (po_manifest_sha256 q)
      = Inr ((po_revision q, po_transaction_id q), d)"
    using fresh by (simp add: select_revision_def map_of_append_fresh del: map_of_append)
  have vs: "verify_selected cfg run_id q ((po_revision q, po_transaction_id q), d) = Inr (re, m, po_manifest_sha256 q, t)"
    using ver by (simp add: verify_selected_def)
  have old: "read_lineage cfg run_id ?revs q (po_revision p) (po_manifest_sha256 p)
      {(re_revision re, re_transaction_id re)} = Inr es"
    by (rule lineage_under_new [OF lineage _ _ all dist unamb])
      (use step m re in \<open>auto simp: reachable_of_def\<close>)
  show ?thesis
    using sel vs old previous prev head m step by (subst lineage_step) auto
qed

lemma lineage_first:
  assumes ver: "verify_revision_directory cfg run_id (Revision_name (po_revision q) (po_transaction_id q)) d (Some q)
      = Inr (re, m, po_manifest_sha256 q, t)"
    and first: "po_revision q = 1" and fresh: "(po_revision q, po_transaction_id q) \<notin> fst ` set revs"
  shows "read_lineage cfg run_id (revs @ [((po_revision q, po_transaction_id q), d)]) q (po_revision q)
      (po_manifest_sha256 q) {} = Inr [(re, m, po_manifest_sha256 q, t)]"
proof -
  have "select_revision cfg run_id (revs @ [((po_revision q, po_transaction_id q), d)]) q (po_revision q)
      (po_manifest_sha256 q) = Inr ((po_revision q, po_transaction_id q), d)"
    using fresh by (simp add: select_revision_def map_of_append_fresh del: map_of_append)
  moreover have "verify_selected cfg run_id q ((po_revision q, po_transaction_id q), d)
      = Inr (re, m, po_manifest_sha256 q, t)"
    using ver by (simp add: verify_selected_def)
  ultimately show ?thesis using verified_revision [OF ver] first by (subst lineage_step) auto
qed

end
