(* ===== verification/RevisionHistory.thy ===== *)
theory RevisionHistory
  imports RevisionLineage
begin

text \<open>
  What the store promises, stated on its files.  The abstraction of a run is its history, the
  entries of the chain from \<open>current.json\<close> (newest first); \<open>store_ok\<close> is the invariant under
  which it is defined, and \<open>undisturbed\<close> fixes the two things the history depends on.  A prepared
  revision is either the new head of the history or not in it.
\<close>

section \<open>The invariant and the history\<close>

definition history :: "store_config \<Rightarrow> string \<Rightarrow> run_files \<Rightarrow> chain_entry list" where
  "history cfg run_id fs = (if fs_current fs = None then []
     else case chain_of_files cfg run_id True fs of Inl _ \<Rightarrow> [] | Inr c \<Rightarrow> vc_entries c)"

definition store_ok :: "store_config \<Rightarrow> string \<Rightarrow> run_files \<Rightarrow> bool" where
  "store_ok cfg run_id fs \<longleftrightarrow> namespace_ok cfg run_id fs \<and> distinct (map fst (fs_revisions fs)) \<and>
     (fs_current fs = None \<or> (\<exists>c. chain_core cfg run_id (fs_current fs) (fs_revisions fs) = Inr c))"

definition undisturbed :: "store_config \<Rightarrow> byte list option \<Rightarrow> revisions \<Rightarrow> run_files \<Rightarrow> bool" where
  "undisturbed cfg current revs fs \<longleftrightarrow> fs_current fs = current \<and> fs_revisions fs = revs \<and> metadata_small cfg fs \<and>
     (\<forall>s\<in>set (fs_staging fs). staging_ok (snd s) = Inr ())"

definition new_revision :: "prepared_revision \<Rightarrow> rev_dir \<Rightarrow> (int \<times> string) \<times> rev_dir" where
  "new_revision pp d = ((pr_proposed_revision (pp_request pp), pr_transaction_id (pp_request pp)), d)"

definition new_entry :: "prepared_revision \<Rightarrow> chain_entry" where
  "new_entry pp = (reachable_of (pp_manifest pp) (pp_manifest_sha256 pp), pp_manifest pp, pp_manifest_sha256 pp,
     pp_transaction pp)"

definition new_verified :: "store_config \<Rightarrow> prepared_revision \<Rightarrow> rev_dir \<Rightarrow> bool" where
  "new_verified cfg pp d \<longleftrightarrow> verify_revision_directory cfg (pr_run_id (pp_request pp))
     (Revision_name (pr_proposed_revision (pp_request pp)) (pr_transaction_id (pp_request pp))) d None
     = Inr (new_entry pp)"

definition unreferenced :: "store_config \<Rightarrow> prepared_revision \<Rightarrow> byte list option \<Rightarrow> revisions \<Rightarrow> run_files \<Rightarrow> bool" where
  \<comment> \<open>the revision is there and \<open>current.json\<close> is still the old one\<close>
  "unreferenced cfg pp current revs fs \<longleftrightarrow>
     (\<exists>d. new_verified cfg pp d \<and> undisturbed cfg current (revs @ [new_revision pp d]) fs)"

definition advanced :: "store_config \<Rightarrow> prepared_revision \<Rightarrow> revisions \<Rightarrow> run_files \<Rightarrow> bool" where
  "advanced cfg pp revs fs \<longleftrightarrow>
     (\<exists>d. new_verified cfg pp d \<and> undisturbed cfg (Some (pp_pointer_bytes pp)) (revs @ [new_revision pp d]) fs)"

definition not_advanced :: "store_config \<Rightarrow> prepared_revision \<Rightarrow> byte list option \<Rightarrow> revisions \<Rightarrow> run_files \<Rightarrow> bool" where
  "not_advanced cfg pp current revs fs \<longleftrightarrow> undisturbed cfg current revs fs \<or> unreferenced cfg pp current revs fs"

lemma quiet_namespace:
  "undisturbed cfg current revs fs \<Longrightarrow> namespace_ok cfg run_id fs \<longleftrightarrow> (\<forall>r\<in>set revs. revision_verified cfg run_id r)"
  by (auto simp: undisturbed_def namespace_ok_def)

lemma store_quiet: "store_ok cfg run_id fs \<Longrightarrow> undisturbed cfg (fs_current fs) (fs_revisions fs) fs"
  by (simp add: store_ok_def undisturbed_def namespace_ok_def)

lemma history_chain:
  "namespace_ok cfg run_id fs \<Longrightarrow> chain_core cfg run_id (fs_current fs) (fs_revisions fs) = Inr c \<Longrightarrow>
   history cfg run_id fs = vc_entries c"
  by (auto simp: history_def chain_of_files_core chain_core_def control_bytes_def)

lemma history_none: "fs_current fs = None \<Longrightarrow> history cfg run_id fs = []"
  by (simp add: history_def)

lemma history_quiet:
  assumes "store_ok cfg run_id fs" and "undisturbed cfg (fs_current fs) (fs_revisions fs) fs1"
  shows "store_ok cfg run_id fs1" and "history cfg run_id fs1 = history cfg run_id fs"
proof -
  have n: "namespace_ok cfg run_id fs1" "namespace_ok cfg run_id fs"
    using assms quiet_namespace [OF assms(2), of run_id] by (simp_all add: store_ok_def namespace_ok_def)
  show "store_ok cfg run_id fs1" using assms n by (simp add: store_ok_def undisturbed_def)
  show "history cfg run_id fs1 = history cfg run_id fs"
    using assms(2) by (simp add: history_def chain_of_files_core n undisturbed_def)
qed

section \<open>The prepared control records read back\<close>

definition prepared_ok :: "prepared_revision \<Rightarrow> bool" where
  "prepared_ok pp \<longleftrightarrow> transaction_ok (pp_transaction pp) \<and> manifest_ok (pp_manifest pp) \<and> pointer_ok (pp_pointer pp) \<and>
     pp_transaction_bytes pp = canonical_json_bytes (json_of_transaction (pp_transaction pp)) \<and>
     pp_manifest_bytes pp = canonical_json_bytes (json_of_manifest (pp_manifest pp)) \<and>
     pp_manifest_sha256 pp = sha256_bytes (pp_manifest_bytes pp) \<and>
     pp_pointer_bytes pp = canonical_json_bytes (json_of_pointer (pp_pointer pp)) \<and>
     pp_pointer_sha256 pp = sha256_bytes (pp_pointer_bytes pp) \<and>
     pp_transaction pp = transaction_of (pp_request pp) (tx_artifact_plan (pp_transaction pp)) (tx_provenance_heads (pp_transaction pp)) \<and>
     pp_manifest pp = manifest_of (pp_request pp) (pp_transaction pp) \<and>
     pp_pointer pp = pointer_of (pp_request pp) (pp_manifest pp) (pp_manifest_sha256 pp)"

lemma preflight_prepare: "publish_preflight cfg q = Inr pp \<Longrightarrow> prepare cfg q = Inr pp"
  by (auto simp: publish_preflight_def split: sum.splits if_splits)

lemma model_Inr [simp]: "model ok x = Inr y \<longleftrightarrow> ok x \<and> y = x"
  by (auto simp: model_def)

lemma prepareE:
  assumes "prepare cfg q = Inr pp"
  obtains heads where "pp_request pp = q" "validate_run_id (pr_run_id q) = Inr (pr_run_id q)" "prepared_ok pp"
    "build_inventory (sc_admission cfg) q (sc_max_artifact_bytes cfg) = Inr (pp_inventories pp, heads)"
    "int (length (pp_pointer_bytes pp)) \<le> sc_max_artifact_bytes cfg"
    "int (length (pp_transaction_bytes pp)) \<le> sc_max_artifact_bytes cfg"
    "int (length (pp_manifest_bytes pp)) \<le> sc_max_artifact_bytes cfg"
    "pp_transaction pp = transaction_of q (pp_inventories pp) heads"
    "pr_producer_id q = sc_producer_id cfg" "pr_producer_version q = sc_producer_version cfg"
proof -
  have run: "validate_run_id r = Inr x \<Longrightarrow> validate_run_id r = Inr r" for r x
    by (auto simp: validate_run_id_def split: if_splits)
  have keep: "tx_artifact_plan (transaction_of q es heads) = es" "tx_provenance_heads (transaction_of q es heads) = heads"
    for es heads by (simp_all add: transaction_of_def unsigned_transaction_def Let_def)
  show thesis
    using assms
    by (auto simp: prepare_def bindE_Inr Let_def prepared_ok_def keep not_less
        split: if_splits option.splits prod.splits dest: run intro!: that)
qed

lemma prepared_okD:
  assumes "prepared_ok pp"
  shows "transaction_ok (pp_transaction pp)" "manifest_ok (pp_manifest pp)" "pointer_ok (pp_pointer pp)"
    "pp_transaction_bytes pp = canonical_json_bytes (json_of_transaction (pp_transaction pp))"
    "pp_manifest_bytes pp = canonical_json_bytes (json_of_manifest (pp_manifest pp))"
    "pp_pointer_bytes pp = canonical_json_bytes (json_of_pointer (pp_pointer pp))"
    "pp_manifest_sha256 pp = sha256_bytes (pp_manifest_bytes pp)"
    "pp_pointer_sha256 pp = sha256_bytes (pp_pointer_bytes pp)"
  using assms unfolding prepared_ok_def by blast+

lemma read_prepared:
  assumes "prepared_ok pp"
  shows "read_transaction (pp_transaction_bytes pp) = Some (pp_transaction pp)"
    and "read_manifest (pp_manifest_bytes pp) = Some (pp_manifest pp)"
    and "read_pointer (pp_pointer_bytes pp) = Some (pp_pointer pp)"
proof -
  note ok = prepared_okD [OF assms]
  show "read_transaction (pp_transaction_bytes pp) = Some (pp_transaction pp)"
    unfolding ok(4) by (rule read_transaction_written [OF ok(1)])
  show "read_manifest (pp_manifest_bytes pp) = Some (pp_manifest pp)"
    unfolding ok(5) by (rule read_manifest_written [OF ok(2)])
  show "read_pointer (pp_pointer_bytes pp) = Some (pp_pointer pp)"
    unfolding ok(6) by (rule read_pointer_written [OF ok(3)])
qed

lemma read_prepared_pointer:
  assumes "prepared_ok pp" and "int (length (pp_pointer_bytes pp)) \<le> limit"
  shows "control_bytes limit read_pointer (Some (pp_pointer_bytes pp)) = Inr (pp_pointer pp, pp_pointer_bytes pp, pp_pointer_sha256 pp)"
  unfolding control_bytes_Inr using assms(2) read_prepared(3) [OF assms(1)] prepared_okD(8) [OF assms(1)] by simp

lemma prepared_fields:
  assumes "prepared_ok pp"
  shows "po_revision (pp_pointer pp) = pr_proposed_revision (pp_request pp)"
    and "po_transaction_id (pp_pointer pp) = pr_transaction_id (pp_request pp)"
    and "po_manifest_sha256 (pp_pointer pp) = pp_manifest_sha256 pp"
    and "po_run_id (pp_pointer pp) = pr_run_id (pp_request pp)"
    and "pointer_matches (pp_pointer pp) (pp_manifest pp) (pp_manifest_sha256 pp)"
    and "mf_previous_manifest_sha256 (pp_manifest pp) = pr_expected_manifest_sha256 (pp_request pp)"
    and "tx_proposed_revision (pp_transaction pp) = pr_proposed_revision (pp_request pp)"
proof -
  have eqs: "pp_pointer pp = pointer_of (pp_request pp) (pp_manifest pp) (pp_manifest_sha256 pp)"
    "pp_manifest pp = manifest_of (pp_request pp) (pp_transaction pp)"
    "pp_transaction pp = transaction_of (pp_request pp) (tx_artifact_plan (pp_transaction pp)) (tx_provenance_heads (pp_transaction pp))"
    using assms by (simp_all add: prepared_ok_def)
  have m: "mf_revision (pp_manifest pp) = pr_proposed_revision (pp_request pp)"
    "mf_transaction_id (pp_manifest pp) = pr_transaction_id (pp_request pp)"
    "mf_created_at (pp_manifest pp) = pr_created_at (pp_request pp)"
    by (subst eqs(2), simp add: manifest_of_def)+
  show "po_revision (pp_pointer pp) = pr_proposed_revision (pp_request pp)"
    "po_transaction_id (pp_pointer pp) = pr_transaction_id (pp_request pp)"
    "po_manifest_sha256 (pp_pointer pp) = pp_manifest_sha256 pp"
    "po_run_id (pp_pointer pp) = pr_run_id (pp_request pp)"
    by (subst eqs(1), simp add: pointer_of_def)+
  show "pointer_matches (pp_pointer pp) (pp_manifest pp) (pp_manifest_sha256 pp)"
    by (subst eqs(1)) (simp add: pointer_matches_def pointer_of_def m)
  show "mf_previous_manifest_sha256 (pp_manifest pp) = pr_expected_manifest_sha256 (pp_request pp)"
    by (subst eqs(2)) (simp add: manifest_of_def)
  show "tx_proposed_revision (pp_transaction pp) = pr_proposed_revision (pp_request pp)"
    by (subst eqs(3)) (simp add: transaction_of_def unsigned_transaction_def Let_def)
qed

section \<open>The two histories a publication can leave\<close>

lemma new_verified_pointer:
  assumes ok: "prepared_ok pp" and new: "new_verified cfg pp d"
  shows "verify_revision_directory cfg (pr_run_id (pp_request pp))
     (Revision_name (po_revision (pp_pointer pp)) (po_transaction_id (pp_pointer pp))) d (Some (pp_pointer pp))
     = Inr (reachable_of (pp_manifest pp) (pp_manifest_sha256 pp), pp_manifest pp,
            po_manifest_sha256 (pp_pointer pp), pp_transaction pp)"
  using new [unfolded new_verified_def new_entry_def] prepared_fields [OF ok]
  by (simp add: verify_with_pointer)

lemma new_revision_verified: "new_verified cfg pp d \<Longrightarrow> revision_verified cfg (pr_run_id (pp_request pp)) (new_revision pp d)"
  by (auto simp: new_verified_def revision_verified_def new_revision_def new_entry_def)

definition current_chain :: "store_config \<Rightarrow> string \<Rightarrow> byte list option \<Rightarrow> revisions \<Rightarrow> verified_chain option" where
  "current_chain cfg run_id current revs = (if current = None then None
     else case chain_core cfg run_id current revs of Inl _ \<Rightarrow> None | Inr c \<Rightarrow> Some c)"

definition eligible :: "store_config \<Rightarrow> prepared_revision \<Rightarrow> byte list option \<Rightarrow> revisions \<Rightarrow> bool" where
  \<comment> \<open>the request expects the store as it is, and its transaction is not there yet\<close>
  "eligible cfg pp current revs \<longleftrightarrow>
     cas_matches (pp_request pp) (current_chain cfg (pr_run_id (pp_request pp)) current revs) \<and>
     pr_transaction_id (pp_request pp) \<notin> (snd \<circ> fst) ` set revs"

lemma eligible_fresh: "eligible cfg pp current revs \<Longrightarrow> fst (new_revision pp d) \<notin> fst ` set revs"
  by (force simp: eligible_def new_revision_def)

lemma history_unreferenced:
  assumes ok: "store_ok cfg run_id fs" and run: "run_id = pr_run_id (pp_request pp)"
    and cas: "eligible cfg pp (fs_current fs) (fs_revisions fs)"
    and new: "new_verified cfg pp d" and fs1: "undisturbed cfg (fs_current fs) (fs_revisions fs @ [new_revision pp d]) fs1"
  shows "store_ok cfg run_id fs1" and "history cfg run_id fs1 = history cfg run_id fs"
    and "current_chain cfg run_id (fs_current fs1) (fs_revisions fs1) = current_chain cfg run_id (fs_current fs) (fs_revisions fs)"
proof -
  have fresh: "fst (new_revision pp d) \<notin> fst ` set (fs_revisions fs)" by (rule eligible_fresh [OF cas])
  have all: "\<forall>r\<in>set (fs_revisions fs). revision_verified cfg run_id r"
    using ok by (simp add: store_ok_def namespace_ok_def)
  have n: "namespace_ok cfg run_id fs1" "namespace_ok cfg run_id fs"
    using fs1 all new_revision_verified [OF new] ok quiet_namespace [OF fs1, of run_id]
    by (simp_all add: run store_ok_def)
  have d: "distinct (map fst (fs_revisions fs1))"
    using fs1 ok fresh by (auto simp: undisturbed_def store_ok_def)
  have "store_ok cfg run_id fs1 \<and> history cfg run_id fs1 = history cfg run_id fs \<and>
    current_chain cfg run_id (fs_current fs1) (fs_revisions fs1) = current_chain cfg run_id (fs_current fs) (fs_revisions fs)"
  proof (cases "fs_current fs = None")
    case True
    then show ?thesis using fs1 n d by (simp add: store_ok_def undisturbed_def history_none current_chain_def)
  next
    case False
    then obtain c where c: "chain_core cfg run_id (fs_current fs) (fs_revisions fs) = Inr c"
      using ok by (auto simp: store_ok_def)
    then have "pr_proposed_revision (pp_request pp) = po_revision (vc_pointer c) + 1"
      using cas False by (simp add: eligible_def current_chain_def cas_matches_def run)
    then have c1: "chain_core cfg run_id (fs_current fs1) (fs_revisions fs1) = Inr c"
      using fs1 chain_core_append [OF c, of "new_revision pp d"] by (simp add: undisturbed_def new_revision_def)
    then show ?thesis
      using n d c False fs1 history_chain [OF n(1) c1] history_chain [OF n(2) c]
      by (simp add: store_ok_def current_chain_def undisturbed_def)
  qed
  then show "store_ok cfg run_id fs1" "history cfg run_id fs1 = history cfg run_id fs"
    "current_chain cfg run_id (fs_current fs1) (fs_revisions fs1) = current_chain cfg run_id (fs_current fs) (fs_revisions fs)"
    by simp_all
qed

lemma history_advanced:
  assumes ok: "store_ok cfg run_id fs" and run: "run_id = pr_run_id (pp_request pp)" and pp: "prepared_ok pp"
    and size: "int (length (pp_pointer_bytes pp)) \<le> sc_max_artifact_bytes cfg"
    and cas: "eligible cfg pp (fs_current fs) (fs_revisions fs)"
    and unamb: "unambiguous (fs_revisions fs)" and new: "new_verified cfg pp d"
    and fs1: "undisturbed cfg (Some (pp_pointer_bytes pp)) (fs_revisions fs @ [new_revision pp d]) fs1"
  shows "store_ok cfg run_id fs1" and "history cfg run_id fs1 = new_entry pp # history cfg run_id fs"
    and "chain_of_files cfg run_id True fs1 = Inr
      \<lparr>vc_pointer = pp_pointer pp, vc_pointer_sha256 = pp_pointer_sha256 pp, vc_entries = new_entry pp # history cfg run_id fs\<rparr>"
proof -
  let ?q = "pp_pointer pp" and ?revs = "fs_revisions fs @ [new_revision pp d]"
  have fresh: "fst (new_revision pp d) \<notin> fst ` set (fs_revisions fs)" by (rule eligible_fresh [OF cas])
  have all: "\<forall>r\<in>set (fs_revisions fs). revision_verified cfg run_id r"
    and dist: "distinct (map fst (fs_revisions fs))"
    using ok by (simp_all add: store_ok_def namespace_ok_def)
  have n: "namespace_ok cfg run_id fs1" "namespace_ok cfg run_id fs"
    using fs1 all new_revision_verified [OF new] ok quiet_namespace [OF fs1, of run_id]
    by (simp_all add: run store_ok_def)
  have d: "distinct (map fst (fs_revisions fs1))"
    using fs1 ok fresh by (auto simp: undisturbed_def store_ok_def)
  note fields = prepared_fields [OF pp]
  have name: "new_revision pp d = ((po_revision ?q, po_transaction_id ?q), d)" by (simp add: new_revision_def fields)
  have ver: "verify_revision_directory cfg run_id (Revision_name (po_revision ?q) (po_transaction_id ?q)) d (Some ?q)
      = Inr (reachable_of (pp_manifest pp) (pp_manifest_sha256 pp), pp_manifest pp, po_manifest_sha256 ?q, pp_transaction pp)"
    using new_verified_pointer [OF pp new] by (simp add: run)
  have fresh': "(po_revision ?q, po_transaction_id ?q) \<notin> fst ` set (fs_revisions fs)"
    using fresh by (simp add: name)
  have lineage: "read_lineage cfg run_id ?revs ?q (po_revision ?q) (po_manifest_sha256 ?q) {}
      = Inr (new_entry pp # history cfg run_id fs)"
  proof (cases "fs_current fs = None")
    case True
    then have "po_revision ?q = 1" using cas by (simp add: eligible_def current_chain_def cas_matches_def fields)
    from lineage_first [OF ver this fresh'] True show ?thesis
      by (simp add: name new_entry_def fields history_none)
  next
    case False
    then obtain c where c: "chain_core cfg run_id (fs_current fs) (fs_revisions fs) = Inr c"
      using ok by (auto simp: store_ok_def)
    then have c': "pr_proposed_revision (pp_request pp) = po_revision (vc_pointer c) + 1"
      "pr_expected_manifest_sha256 (pp_request pp) = Some (fst (snd (snd (hd (vc_entries c)))))"
      using cas False by (simp_all add: eligible_def current_chain_def cas_matches_def run)
    have "read_lineage cfg run_id (fs_revisions fs) (vc_pointer c) (po_revision (vc_pointer c))
        (po_manifest_sha256 (vc_pointer c)) {} = Inr (vc_entries c)"
      using c by (auto simp: chain_core_def bindE_Inr)
    from lineage_advance [OF this _ chain_counts(1) [OF c] all dist unamb fresh' ver]
    have "read_lineage cfg run_id ?revs ?q (po_revision ?q) (po_manifest_sha256 ?q) {}
      = Inr ((reachable_of (pp_manifest pp) (pp_manifest_sha256 pp), pp_manifest pp, po_manifest_sha256 ?q, pp_transaction pp) # vc_entries c)"
      using c' fields by (simp add: name)
    then show ?thesis using history_chain [OF n(2) c] by (simp add: new_entry_def fields)
  qed
  have c1: "chain_core cfg run_id (fs_current fs1) (fs_revisions fs1) = Inr
      \<lparr>vc_pointer = ?q, vc_pointer_sha256 = pp_pointer_sha256 pp, vc_entries = new_entry pp # history cfg run_id fs\<rparr>"
    using fs1 lineage read_prepared_pointer [OF pp size] fields
    by (simp add: undisturbed_def chain_core_def bindE_Inr run)
  show "store_ok cfg run_id fs1" using n d c1 by (simp add: store_ok_def)
  show "history cfg run_id fs1 = new_entry pp # history cfg run_id fs"
    using history_chain [OF n(1) c1] by simp
  show "chain_of_files cfg run_id True fs1 = Inr
      \<lparr>vc_pointer = ?q, vc_pointer_sha256 = pp_pointer_sha256 pp, vc_entries = new_entry pp # history cfg run_id fs\<rparr>"
    using n(1) c1 by (simp add: chain_of_files_core)
qed

end
