(* ===== verification/RevisionErrors.thy ===== *)
theory RevisionErrors
  imports RevisionHistory
begin

text \<open>
  Which exceptions can leave which call.  The checks of files and requests raise plain exceptions
  of the store (\<open>CanonicalStorageError\<close>, \<open>ValidationError\<close>, \<open>ValueError\<close>), never a typed failure; the
  calls of the operating system never raise a typed failure either; so every
  \<open>RunStorageError\<close> comes from a handler of the store.  \<open>throws K m\<close> says that whatever \<open>m\<close> raises
  satisfies \<open>K\<close>.
\<close>

section \<open>The checks\<close>

definition plain_error :: "storage_exn \<Rightarrow> bool" where
  "plain_error e \<longleftrightarrow> (case e of Run_error _ \<Rightarrow> False | _ \<Rightarrow> True)"

definition plainE :: "storage_exn + 'a \<Rightarrow> bool" where
  "plainE m \<longleftrightarrow> (\<forall>e. m = Inl e \<longrightarrow> plain_error e)"

named_theorems plain \<open>checks that raise no typed failure\<close>

lemma plain_error_simps [simp]:
  "plain_error (Canonical_error s)" "plain_error (Os_error s)" "plain_error File_missing" "plain_error Validation_error"
  "plain_error Value_error" "plain_error (Storage_boundary b)" "plain_error (Publish_boundary i)"
  "plain_error (Artifact_boundary c)" "plain_error Killed" "\<not> plain_error (Run_error f)"
  "plain_error (Lock_busy ch)" "plain_error (Lock_unavailable bo ch)" "plain_error Lock_release"
  by (simp_all add: plain_error_def)

lemma plainE_simps [simp]: "plainE (Inr x)" "plainE (Inl e) \<longleftrightarrow> plain_error e"
  by (simp_all add: plainE_def)

lemma plainE_bind [plain]: "plainE m \<Longrightarrow> (\<And>x. plainE (f x)) \<Longrightarrow> plainE (bindE m f)"
  by (cases m) (simp_all add: plainE_def bindE_def)

lemma plainE_fold [plain]: "(\<And>s x. plainE (f s x)) \<Longrightarrow> plainE (foldE f s xs)"
  by (induction xs arbitrary: s) (simp_all add: plainE_bind)

lemma plainE_map [plain]: "(\<And>x. plainE (f x)) \<Longrightarrow> plainE (mapE f xs)"
  by (induction xs) (simp_all add: plainE_bind)

lemma plainE_if [plain]: "(b \<Longrightarrow> plainE m) \<Longrightarrow> (\<not> b \<Longrightarrow> plainE n) \<Longrightarrow> plainE (if b then m else n)"
  by simp

lemma plainE_let [plain]: "(\<And>x. plainE (f x)) \<Longrightarrow> plainE (let x = v in f x)"
  by simp

lemma plain_basic [plain, simp]:
  "plainE (require b msg)" "plainE (refusal r)" "plainE (model ok x)" "plainE (control_bytes limit read file)"
  by (auto simp: plainE_def require_def refusal_def model_def control_bytes_def split: if_splits option.splits)

lemma plain_names [plain, simp]:
  "plainE (validate_run_id r)" "plainE (validate_segment s)" "plainE (run_id_sha256 r)"
  by (auto simp: plainE_def validate_run_id_def validate_segment_def run_id_sha256_def bindE_def
      split: if_splits sum.splits)

lemma plain_table [plain, simp]: "plainE (validate_logical_name n)" "plainE (artifact_table_entry n v)"
proof -
  show l: "plainE (validate_logical_name n)"
    unfolding validate_logical_name_def by (intro plain) simp_all
  have v: "plainE (variable_entry v i s o')" for v i s o'
    unfolding variable_entry_def by (intro plain) simp_all
  have f: "plainE (fixed_entry n v e)" for n v e
    by (simp add: fixed_entry_def Let_def)
  show "plainE (artifact_table_entry n v)"
    unfolding artifact_table_entry_def by (rule plainE_bind [OF l]) (simp add: v f split: option.split)
qed

lemma plain_bindings [plain, simp]: "plainE (canonicalize_bindings bs)" "plainE (provenance_heads es)"
proof -
  show c: "plainE (canonicalize_bindings bs)" for bs
    unfolding canonicalize_bindings_def Let_def by (intro plain) (simp_all split: prod.split)
  have h: "plainE (head_of_kind k bs)" for k bs
    unfolding head_of_kind_def by (intro plain c) simp
  show "plainE (provenance_heads es)"
    unfolding provenance_heads_def by (intro plain) (auto split: prod.split intro!: plain h)
qed

lemma plain_artifact [plain, simp]: "plainE (validate_artifact ad a r limit)" "plainE (build_inventory ad q limit)"
proof -
  have c: "plainE (classify_and_verify ad a)" for a by (simp add: classify_and_verify_def Let_def)
  have l: "plainE (local_data_binding a)" for a by (simp add: local_data_binding_def split: list.split)
  show v: "plainE (validate_artifact ad a r limit)" for a r
    unfolding validate_artifact_def by (intro plain c l) simp_all
  have i: "plainE (inventory_of_artifact a)" for a
    unfolding inventory_of_artifact_def by (intro plain) simp_all
  have x: "plainE (exclusive_artifacts q)" for q by (simp add: exclusive_artifacts_def Let_def)
  have a: "plainE (admit_artifact ad q limit es a)" for es a
    unfolding admit_artifact_def by (intro plain v i) simp_all
  have o': "plainE (payload_order_key n)" for n by (simp add: payload_order_key_def Let_def)
  show "plainE (build_inventory ad q limit)"
    unfolding build_inventory_def by (intro plain x o' a) (auto split: prod.split intro!: plain)
qed

lemma plain_verify [plain, simp]: "plainE (verify_inventory_entry cfg r d e)" "plainE (verify_revision_directory cfg r n d p)"
proof -
  show v: "plainE (verify_inventory_entry cfg r d e)" for e
    unfolding verify_inventory_entry_def
    by (intro plain) (simp_all add: Let_def split: option.split list.split sum.split)
  show "plainE (verify_revision_directory cfg r n d p)"
    unfolding verify_revision_directory_def Let_def
    by (intro plain) (auto split: prod.split intro!: plain v)
qed

lemma plain_prepare [plain, simp]: "plainE (prepare cfg q)"
  unfolding prepare_def by (intro plain) (auto simp: Let_def split: option.split prod.split intro!: plain)

lemma plain_staging [plain, simp]: "plainE (staging_ok d)" "plainE (validate_existing_namespace cfg r v fs)"
proof -
  show s: "plainE (staging_ok d)" for d unfolding staging_ok_def by (intro plain) simp_all
  show "plainE (validate_existing_namespace cfg r v fs)"
    unfolding validate_existing_namespace_def by (intro plain s) (auto split: prod.split intro!: plain)
qed

lemma plain_lineage [plain, simp]: "plainE (read_lineage cfg run_id revs p r sha seen)"
proof (induction cfg run_id revs p r sha seen rule: read_lineage.induct)
  case (1 cfg run_id revs p r sha seen)
  have sel: "plainE (select_revision cfg run_id revs p r sha)"
    by (simp add: select_revision_def split: option.split list.split)
  have ver: "plainE (verify_selected cfg run_id p c)" for c
    by (simp add: verify_selected_def split: prod.split)
  show ?case
    unfolding read_lineage.simps [of cfg run_id revs p r sha seen]
    using sel ver 1
    by (cases "select_revision cfg run_id revs p r sha")
      (auto simp: bindE_def plainE_def split: sum.splits prod.splits option.splits)
qed

lemma plain_chain [plain, simp]: "plainE (chain_of_files cfg r v fs)"
  unfolding chain_of_files_def by (intro plain) (auto split: prod.split intro!: plain)

section \<open>The calls\<close>

definition throws :: "(storage_exn \<Rightarrow> bool) \<Rightarrow> 'a io \<Rightarrow> bool" where
  "throws K m \<longleftrightarrow> (\<forall>w e w1. m w = (Inl e, w1) \<longrightarrow> K e)"

definition unchanged_error :: "storage_exn \<Rightarrow> bool" where
  \<comment> \<open>an exception that does not say that the current revision has advanced\<close>
  "unchanged_error e \<longleftrightarrow> (\<forall>f. e = Run_error f \<longrightarrow> rf_domain_effect f = DE_current_unchanged)"

lemma unchanged_plain [simp]: "plain_error e \<Longrightarrow> unchanged_error e"
  by (auto simp: unchanged_error_def)

lemma unchanged_failure: "rf_domain_effect f = DE_current_unchanged \<Longrightarrow> unchanged_error (run_failure_error r f)"
proof -
  assume f: "rf_domain_effect f = DE_current_unchanged"
  show ?thesis
  proof (cases "run_id_sha256 r")
    case (Inl e)
    then have "plain_error e" using plain_names(3) [of r] by (simp add: plainE_def)
    then show ?thesis using Inl by (simp add: run_failure_error_def)
  qed (simp add: run_failure_error_def unchanged_error_def f)
qed

named_theorems throws \<open>calls whose exceptions leave the current revision alone\<close>

lemma throwsD: "throws K m \<Longrightarrow> m w = (Inl e, w1) \<Longrightarrow> K e" by (auto simp: throws_def)

lemma holds_throws: "holds P m Q E \<Longrightarrow> throws K m \<Longrightarrow> holds P m Q (\<lambda>e s. E e s \<and> K e)"
  by (fastforce simp: holds_def throws_def split: sum.splits prod.splits)

lemma exn_plain [simp]: "plain_error (exn_of f)" by (cases f) (simp_all add: exn_of_def)

lemma throws_basic [throws, simp]:
  "throws K (retIO x)" "throws K filesIO" "throws K (raiseIO e) \<longleftrightarrow> K e"
  by (simp_all add: throws_def retIO_def filesIO_def raiseIO_def)

lemma throws_lift: "(\<And>e. m = Inl e \<Longrightarrow> K e) \<Longrightarrow> throws K (liftIO m)"
  by (simp add: throws_def liftIO_def)

lemma throws_bind [throws]: "throws K m \<Longrightarrow> (\<And>x. throws K (f x)) \<Longrightarrow> throws K (bindIO m f)"
  by (fastforce simp: throws_def bindIO_def split: prod.splits sum.splits)

lemma throws_then [throws]: "throws K m \<Longrightarrow> throws K n \<Longrightarrow> throws K (thenIO m n)"
  unfolding thenIO_def by (rule throws_bind)

lemma throws_except [throws]:
  assumes "throws K m" and "\<And>e. K e \<Longrightarrow> throws K (h e)"
  shows "throws K (exceptIO m h)"
  unfolding throws_def
proof (intro allI impI)
  fix w :: world and e w1
  assume run: "exceptIO m h w = (Inl e, w1)"
  obtain r w2 where m: "m w = (r, w2)" by (cases "m w")
  show "K e"
  proof (cases r)
    case (Inl e2)
    then have K: "K e2" using assms(1) m by (auto simp: throws_def)
    show ?thesis
    proof (cases "e2 = Killed")
      case True
      then show ?thesis using run m Inl K by (simp add: exceptIO_def)
    next
      case False
      then have "h e2 w2 = (Inl e, w1)" using run m Inl by (cases e2) (simp_all add: exceptIO_def)
      then show ?thesis using throwsD [OF assms(2) [OF K]] by blast
    qed
  next
    case (Inr x)
    then show ?thesis using run m by (simp add: exceptIO_def)
  qed
qed

lemma throws_steps [throws]: "list_all (throws K) ms \<Longrightarrow> throws K (stepsIO ms)"
  by (induction ms) (simp_all add: throws_then)

lemma throws_each [throws]: "(\<And>x. throws K (f x)) \<Longrightarrow> throws K (eachIO f xs)"
  by (induction xs) (simp_all add: throws_then)

lemma throws_os [throws, simp]:
  "throws unchanged_error (atomic f)" "throws unchanged_error (partial_write put data)"
  by (auto simp: throws_def atomic_def partial_write_def split: prod.splits decision.splits)

lemma throws_observe: "(\<And>s e. f s = Inl e \<Longrightarrow> unchanged_error e) \<Longrightarrow> throws unchanged_error (observe f)"
  by (fastforce simp: throws_def observe_def split: prod.splits decision.splits)

lemma throws_check [throws]: "(\<And>s. plainE (f s)) \<Longrightarrow> throws unchanged_error (observe f)"
  by (rule throws_observe) (auto simp: plainE_def)

lemma throws_os_call [throws, simp]: "throws unchanged_error os_call"
  unfolding os_call_def by (rule throws_check) simp

lemma throws_boundary [throws]: "throws unchanged_error m \<Longrightarrow> throws unchanged_error (at_boundary_of b m)"
  unfolding at_boundary_of_def by (rule throws_except) simp_all

lemma throws_create [throws]: "throws unchanged_error (create_with present f)"
  unfolding create_with_def by (intro throws) simp

lemma throws_sync [throws, simp]: "throws unchanged_error (directory_sync b)" "throws unchanged_error (sync_dir b)"
  unfolding directory_sync_def sync_dir_def by (auto intro!: throws)

lemma throws_write_exclusive [throws]: "throws unchanged_error (write_exclusive_verified limit get put data)"
  unfolding write_exclusive_verified_def by (auto intro!: throws split: if_splits)

lemma throws_mkdir [throws]: "throws unchanged_error (mkdir_verified b present f)"
  unfolding mkdir_verified_def by (auto intro!: throws)

lemma throws_refuse [throws]: "rf_domain_effect f = DE_current_unchanged \<Longrightarrow> throws unchanged_error (refuse q f)"
  unfolding refuse_def by (simp add: unchanged_failure)

lemma throws_except_as [throws]:
  assumes "throws unchanged_error m" and "\<And>e. rf_domain_effect (f e) = DE_current_unchanged"
  shows "throws unchanged_error (except_as q f m)"
  unfolding except_as_def
  by (rule throws_except [OF assms(1)]) (auto split: storage_exn.split intro!: throws_refuse assms(2))

lemma throws_except_storage [throws]:
  assumes "throws unchanged_error m" and "\<And>e. unchanged_error (f e)"
  shows "throws unchanged_error (except_storage m f)"
  unfolding except_storage_def by (rule throws_except [OF assms(1)]) (simp add: assms(2))

lemma domain_unchanged [simp]:
  "rf_domain_effect (plain_run_failure c s) = DE_current_unchanged"
  "rf_domain_effect (publish_failure q c s) = DE_current_unchanged"
  "rf_domain_effect (boundary_failure q b s eff r) = DE_current_unchanged"
  "rf_domain_effect (metadata_failure q e) = DE_current_unchanged"
  "rf_domain_effect (bootstrap_failure q e) = DE_current_unchanged"
  "rf_domain_effect (staging_failure q fl ex e) = DE_current_unchanged"
  "rf_domain_effect (unreferenced_failure q c s) = DE_current_unchanged"
  "rf_domain_effect (not_replaced_failure q v) = DE_current_unchanged"
  "rf_domain_effect (admission_failure q c ch eff) = DE_current_unchanged"
proof -
  show [simp]: "rf_domain_effect (plain_run_failure c s) = DE_current_unchanged" for c s by (simp add: plain_run_failure_def)
  show [simp]: "rf_domain_effect (publish_failure q c s) = DE_current_unchanged" for c s by (simp add: publish_failure_def)
  show [simp]: "rf_domain_effect (boundary_failure q b s eff r) = DE_current_unchanged" for b s eff r
    by (simp add: boundary_failure_def)
  show "rf_domain_effect (metadata_failure q e) = DE_current_unchanged"
    "rf_domain_effect (bootstrap_failure q e) = DE_current_unchanged"
    by (simp_all add: metadata_failure_def bootstrap_failure_def split: storage_exn.split)
  show "rf_domain_effect (staging_failure q fl ex e) = DE_current_unchanged"
    by (simp add: staging_failure_def Let_def split: prod.split)
  show [simp]: "rf_domain_effect (unreferenced_failure q c s) = DE_current_unchanged" for c s
    by (simp add: unreferenced_failure_def)
  show "rf_domain_effect (not_replaced_failure q v) = DE_current_unchanged"
    "rf_domain_effect (admission_failure q c ch eff) = DE_current_unchanged"
    by (simp_all add: not_replaced_failure_def admission_failure_def)
qed

lemma throws_readers [throws, simp]:
  "throws unchanged_error (ownership r)" "throws unchanged_error (read_chain cfg r v)"
  "throws unchanged_error (existing_chain_or_none cfg r v)" "throws unchanged_error (lease_release)"
proof -
  show o': "throws unchanged_error (ownership r)" for r
    unfolding ownership_def by (intro throws) (simp add: unchanged_failure)
  show c: "throws unchanged_error (read_chain cfg r v)" for r
    unfolding read_chain_def by (intro throws o' throws_lift plain) (auto dest: plain_names(1) [unfolded plainE_def, rule_format])
  show "throws unchanged_error (existing_chain_or_none cfg r v)"
    unfolding existing_chain_or_none_def by (intro throws) (simp add: c throws_bind)
  show "throws unchanged_error lease_release"
    unfolding lease_release_def by (intro throws) simp
qed

end
