(* ===== verification/RevisionSafety.thy ===== *)
theory RevisionSafety
  imports RevisionErrors
begin

text \<open>
  The publication, call by call: what each part leaves of \<open>current.json\<close> and the revision
  directories when it returns, raises or is cut short.  Up to the replacement of \<open>current.json\<close>
  the store is \<open>not_advanced\<close>; from there on it is \<open>advanced\<close>.
\<close>

section \<open>Exceptions before the replacement\<close>

lemma throws_metadata [throws]: "throws unchanged_error (write_metadata cfg owner data)"
  unfolding write_metadata_def by (auto intro!: throws)

lemma throws_bootstrap [throws]: "throws unchanged_error (bootstrap_namespace cfg r)"
  unfolding bootstrap_namespace_def bootstrap_step_def by (auto intro!: throws)

lemma throws_at_stage [throws]: "throws unchanged_error m \<Longrightarrow> throws unchanged_error (at_stage q s m)"
  unfolding at_stage_def by (intro throws) simp_all

lemma throws_stage [throws]: "throws unchanged_error (stage_revision cfg pp)"
proof -
  have v: "throws unchanged_error (verify_dir cfg r n g)" for r n g
    unfolding verify_dir_def by (intro throws plain) (auto split: prod.split)
  have p: "throws unchanged_error (stage_payload cfg q e)" for q e
    unfolding stage_payload_def Let_def staged_parent_def write_staged_def
    by (auto intro!: throws split: option.split)
  show ?thesis
    unfolding stage_revision_def Let_def write_staged_def
    by (intro throws; simp; intro conjI throws v p) (simp_all add: throws_then v p)
qed

lemma throws_pointer [throws]: "throws unchanged_error (write_pointer cfg pp)"
  unfolding write_pointer_def Let_def
  by (intro throws) (auto simp: pointer_failure_def unchanged_failure split: storage_exn.split)

lemma throws_final_cas [throws]: "throws unchanged_error (final_cas cfg q)"
  unfolding final_cas_def by (intro throws) (auto intro!: throws_refuse)

section \<open>Calls that only read\<close>

lemma stable_readers [io, simp]:
  "stable P (ownership r)" "stable P (read_chain cfg r v)" "stable P (existing_chain_or_none cfg r v)"
  "stable P (refuse q f)" "stable P lease_release"
proof -
  show o': "stable P (ownership r)" for r unfolding ownership_def by (auto intro!: io)
  show c: "stable P (read_chain cfg r v)" for r unfolding read_chain_def by (intro io o')
  show "stable P (existing_chain_or_none cfg r v)"
    unfolding existing_chain_or_none_def by (intro io) (auto intro!: io c)
  show "stable P (refuse q f)" by (simp add: refuse_def)
  show "stable P lease_release" unfolding lease_release_def by (auto intro!: io)
qed

lemma stable_except_as [io]: "stable P m \<Longrightarrow> stable P (except_as q f m)"
  unfolding except_as_def by (rule stable_except) (auto split: storage_exn.split)

lemma stable_except_storage [io]: "stable P m \<Longrightarrow> stable P (except_storage m f)"
  unfolding except_storage_def by (rule stable_except) auto

lemma stable_at_stage [io]: "stable P m \<Longrightarrow> stable P (at_stage q s m)"
  unfolding at_stage_def by (intro io) (auto intro!: io)

lemma stable_verify_dir [io, simp]: "stable P (verify_dir cfg r n g)"
  by (simp add: verify_dir_def)

lemma stable_final_cas [io, simp]: "stable P (final_cas cfg q)"
  unfolding final_cas_def by (intro io) (auto intro!: io)

lemma stable_admission [io, simp]: "stable P (check_admission cfg q changed)" "stable P (count_bytes q chain effect)"
  unfolding check_admission_def count_bytes_def by (auto intro!: io)

section \<open>Calls that leave the revisions alone\<close>

lemma update_small:
  "list_all P (map snd xs) \<Longrightarrow> P v \<Longrightarrow> list_all P (map snd (AList.update k v xs))"
  by (induction xs) auto

lemma delete_small: "list_all P (map snd xs) \<Longrightarrow> list_all P (map snd (AList.delete k xs))"
  by (induction xs) (auto simp: AList.delete_eq)

lemma metadata_small_iff:
  "metadata_small cfg fs \<longleftrightarrow> opt_size (fs_metadata fs) \<le> sc_max_artifact_bytes cfg \<and>
     list_all (\<lambda>d. int (length d) \<le> sc_max_artifact_bytes cfg) (map snd (fs_metadata_temps fs))"
  by (simp add: metadata_small_def list_all_iff)

lemma quiet_metadata_temp:
  assumes "undisturbed cfg current revs fs" and "int (length data) \<le> sc_max_artifact_bytes cfg"
  shows "undisturbed cfg current revs (put_metadata_temp owner (take k data) fs)"
proof -
  have "int (length (take k data)) \<le> sc_max_artifact_bytes cfg" using assms(2) by simp
  with assms(1) show ?thesis
    by (simp add: undisturbed_def put_metadata_temp_def metadata_small_iff update_small)
qed

lemma map_of_list_all: "map_of xs k = Some d \<Longrightarrow> list_all P (map snd xs) \<Longrightarrow> P d"
  by (induction xs) (auto split: if_splits)

lemma quiet_replace_metadata: "undisturbed cfg current revs fs \<Longrightarrow> undisturbed cfg current revs (replace_metadata owner fs)"
  by (auto simp: undisturbed_def replace_metadata_def metadata_small_iff delete_small opt_size_def split: option.split
      dest: map_of_list_all [where P = "\<lambda>d. int (length d) \<le> sc_max_artifact_bytes cfg"])

lemma stable_metadata [io]: "stable (undisturbed cfg current revs) (write_metadata cfg owner data)"
  unfolding write_metadata_def
  by (intro io; simp; intro conjI io) (simp_all add: quiet_metadata_temp quiet_replace_metadata)

lemma quiet_bootstrap:
  "undisturbed cfg current revs fs \<Longrightarrow> undisturbed cfg current revs (fs\<lparr>fs_bootstrapped := n, fs_runs := rs\<rparr>)"
  by (simp add: undisturbed_def metadata_small_def)

lemma stable_bootstrap [io]: "stable (undisturbed cfg current revs) (bootstrap_namespace cfg r)"
  unfolding bootstrap_namespace_def bootstrap_step_def
  by (intro io) (auto simp: quiet_bootstrap intro!: io)

lemma undisturbed_authority: "undisturbed cfg current revs fs \<Longrightarrow> undisturbed cfg current revs (put_authority data fs)"
  by (simp add: put_authority_def undisturbed_def metadata_small_def)

lemma stable_lock_calls [io]:
  "stable P m \<Longrightarrow> stable P (unavailable changed b m)" "stable P m \<Longrightarrow> stable P (lock_or_busy changed b m)"
  unfolding unavailable_def lock_or_busy_def by (auto intro!: io)

lemma stable_acquire [io]: "stable (undisturbed cfg current revs) acquire_authority"
proof -
  have w: "stable (undisturbed cfg current revs) (write_authority changed)" for changed
    unfolding write_authority_def by (intro io) (simp_all add: undisturbed_authority)
  have "stable (undisturbed cfg current revs) create_authority"
    unfolding create_authority_def by (intro io) (auto simp: undisturbed_authority intro!: io w)
  moreover have "stable (undisturbed cfg current revs) (repair_authority changed)" for changed
    unfolding repair_authority_def by (intro io) (auto intro!: io w)
  moreover have "stable (undisturbed cfg current revs) (confirm_authority changed)" for changed
    unfolding confirm_authority_def by (intro io) (auto intro!: io)
  ultimately show ?thesis
    unfolding acquire_authority_def open_authority_def by (intro io) (auto intro!: io)
qed

lemma throws_acquire: "throws unchanged_error acquire_authority"
proof -
  have u: "throws unchanged_error m \<Longrightarrow> throws unchanged_error (unavailable changed b m)"
    "throws unchanged_error m \<Longrightarrow> throws unchanged_error (lock_or_busy changed b m)" for m :: "'a io" and changed b
    unfolding unavailable_def lock_or_busy_def by (auto intro!: throws_except)
  have w: "throws unchanged_error (write_authority changed)" for changed
    unfolding write_authority_def by (intro throws u)
  have "throws unchanged_error create_authority" "throws unchanged_error (repair_authority changed)"
    "throws unchanged_error (confirm_authority changed)" for changed
    unfolding create_authority_def repair_authority_def confirm_authority_def by (auto intro!: throws u w)
  then show ?thesis unfolding acquire_authority_def open_authority_def by (intro throws u throws_except) simp_all
qed

lemma stable_authority [io]: "stable (undisturbed cfg current revs) (authority r)"
  unfolding authority_def by (intro io)

section \<open>Admitted names\<close>

lemma parent_dirs_flat: "CHR ''/'' \<notin> set s \<Longrightarrow> parent_dirs s = []"
  by (auto simp: parent_dirs_def filter_empty_conv in_set_conv_nth)

lemma parent_dirs_one:
  assumes "CHR ''/'' \<notin> set a" and "CHR ''/'' \<notin> set b"
  shows "parent_dirs (a @ CHR ''/'' # b) = [a]"
proof -
  let ?s = "a @ CHR ''/'' # b"
  have at: "(?s ! i = CHR ''/'') = (i = length a)" if "i < length ?s" for i
  proof (cases "i < length a")
    case True
    then show ?thesis using assms(1) by (auto simp: nth_append in_set_conv_nth)
  next
    case False
    then show ?thesis
      using assms(2) that by (cases "i - length a") (auto simp: nth_append in_set_conv_nth)
  qed
  have "filter (\<lambda>i. ?s ! i = CHR ''/'') [0..<length ?s] = filter (\<lambda>i. i = length a) [0..<length ?s]"
    by (rule filter_cong [OF refl], rule at) (simp del: upt_Suc)
  also have "\<dots> = [length a]"
    by (intro only_element) (auto simp del: upt_Suc)
  finally show ?thesis by (simp add: parent_dirs_def)
qed

lemma fixed_names_flat: "map_of FIXED_ARTIFACT_TABLE n = Some e \<Longrightarrow> CHR ''/'' \<notin> set n"
proof -
  have "list_all (\<lambda>e. CHR ''/'' \<notin> set (fst e)) FIXED_ARTIFACT_TABLE" by code_simp
  moreover assume "map_of FIXED_ARTIFACT_TABLE n = Some e"
  ultimately show ?thesis by (auto simp: list_all_iff dest!: map_of_SomeD)
qed

lemma upto_step_cls_only:
  "(q, []) \<in> set (upto_re n (step_cls cs) [(pre, s)]) \<Longrightarrow> set s \<subseteq> set cs"
proof (induction n arbitrary: pre s)
  case (Suc n)
  show ?case
  proof (cases s)
    case (Cons c t)
    have nil: "upto_re m f [] = []" for m and f :: "pos \<Rightarrow> pos list" by (cases m) auto
    from Suc.prems Cons have "c \<in> set cs" "(q, []) \<in> set (upto_re n (step_cls cs) [(c # pre, t)])"
      by (auto simp: step_cls_simps nil split: if_splits)
    then show ?thesis using Suc.IH [of "c # pre" t] Cons by simp
  qed simp
qed simp

lemma portable_chars:
  assumes "fullmatch (Seq (Cls as) (Rep 0 (Some n) (Cls bs))) s"
  shows "set s \<subseteq> set as \<union> set bs"
proof -
  have e: "ends (Cls bs) = step_cls bs" "ends (Cls as) = step_cls as" by (auto intro!: ext)
  obtain c t where s: "s = c # t" "c \<in> set as"
    using assms by (cases s) (auto simp: fullmatch_def step_cls_simps e split: if_splits)
  then obtain q where "(q, []) \<in> set (upto_re n (step_cls bs) [([c], t)])"
    using assms by (auto simp: fullmatch_def list_ex_iff step_cls_simps e)
  from upto_step_cls_only [OF this] s show ?thesis by auto
qed

lemma portable_flat: "fullmatch STORAGE_PORTABLE_ID s \<Longrightarrow> CHR ''/'' \<notin> set s"
proof -
  have "CHR ''/'' \<notin> set alnum_chars \<union> set (alnum_chars @ ''._-'')" by code_simp
  moreover assume "fullmatch STORAGE_PORTABLE_ID s"
  ultimately show ?thesis unfolding STORAGE_PORTABLE_ID_def using portable_chars by blast
qed

lemma affixed_parts: "affixed pre suf s = Some i \<Longrightarrow> s = pre @ i @ suf \<and> CHR ''/'' \<notin> set i"
  by (auto simp: affixed_def Let_def portable_flat split: if_splits)

lemma parent_dirs_admitted:
  assumes "artifact_table_entry n v = Inr e"
  shows "set (parent_dirs n) \<subseteq> {''agent_reports'', ''tool_results''}"
proof -
  have dirs: "CHR ''/'' \<notin> set ''agent_reports''" "CHR ''/'' \<notin> set ''tool_results''" by simp_all
  have one: "n = (d @ [CHR ''/'']) @ i @ suf \<Longrightarrow> CHR ''/'' \<notin> set d \<Longrightarrow> CHR ''/'' \<notin> set i \<Longrightarrow> CHR ''/'' \<notin> set suf \<Longrightarrow>
      parent_dirs n = [d]" for d i suf
    using parent_dirs_one [of d "i @ suf"] by simp
  show ?thesis
  proof (cases "map_of FIXED_ARTIFACT_TABLE n")
    case (Some x)
    then show ?thesis by (simp add: parent_dirs_flat fixed_names_flat)
  next
    case None
    then consider i where "affixed ''agent_reports/'' ''.json'' n = Some i"
      | i where "affixed ''tool_results/'' ''.input.json'' n = Some i"
      | i where "affixed ''tool_results/'' ''.json'' n = Some i"
      using assms
      by (cases "affixed ''agent_reports/'' ''.json'' n"; cases "affixed ''tool_results/'' ''.input.json'' n";
          cases "affixed ''tool_results/'' ''.json'' n") (auto simp: artifact_table_entry_def bindE_Inr)
    then show ?thesis
    proof cases
      case 1
      from affixed_parts [OF this] one [of "''agent_reports''" i "''.json''"] show ?thesis by simp
    next
      case 2
      from affixed_parts [OF this] one [of "''tool_results''" i "''.input.json''"] show ?thesis by simp
    next
      case 3
      from affixed_parts [OF this] one [of "''tool_results''" i "''.json''"] show ?thesis by simp
    qed
  qed
qed

lemma entry_any_version:
  "fixed_entry n (Some v) x = Inr e \<Longrightarrow> \<exists>e'. fixed_entry n None x = Inr e'"
  "variable_entry (Some v) i sc og = Inr e \<Longrightarrow> \<exists>e'. variable_entry None i sc og = Inr e'"
  by (auto simp: fixed_entry_def variable_entry_def bindE_Inr Let_def simp del: split_paired_Ex split: if_splits)

lemma table_any_version:
  assumes "artifact_table_entry n (Some v) = Inr e"
  shows "\<exists>e'. artifact_table_entry n None = Inr e'"
  using assms
  by (cases "map_of FIXED_ARTIFACT_TABLE n"; cases "affixed ''agent_reports/'' ''.json'' n";
      cases "affixed ''tool_results/'' ''.input.json'' n"; cases "affixed ''tool_results/'' ''.json'' n")
    (auto simp: artifact_table_entry_def bindE_Inr dest: entry_any_version)

definition admitted_name :: "string \<Rightarrow> bool" where
  "admitted_name n \<longleftrightarrow> (\<exists>x. artifact_table_entry n None = Inr x)"

definition admitted_names :: "inventory_entry list \<Rightarrow> bool" where
  "admitted_names es \<longleftrightarrow> (\<forall>e\<in>set es. admitted_name (ie_logical_name e))"

lemma inventory_admitted:
  assumes "build_inventory ad q limit = Inr (es, heads)"
  shows "admitted_names es"
proof -
  obtain as where fold: "foldE (admit_artifact ad q limit) [] as = Inr es"
    using assms by (auto simp: build_inventory_def bindE_Inr Let_def split: if_splits)
  show ?thesis
  proof (rule foldE_invariant [where P = admitted_names, OF _ _ fold])
    fix s a s'
    assume s: "admitted_names s" and "admit_artifact ad q limit s a = Inr s'"
    then obtain e v where s': "s' = s @ [e]" and "inventory_of_artifact a = Inr e"
      and table: "artifact_table_entry (ar_logical_name a) (Some (ar_artifact_schema_version a)) = Inr v"
      by (auto simp: admit_artifact_def validate_artifact_def bindE_Inr split: if_splits)
    then have "ie_logical_name e = ar_logical_name a"
      by (auto simp: inventory_of_artifact_def bindE_Inr Let_def split: if_splits)
    with table_any_version [OF table] s s' show "admitted_names s'" by (auto simp: admitted_names_def admitted_name_def)
  qed (simp add: admitted_names_def)
qed

end
