(* ===== verification/RevisionStaging.thy ===== *)
theory RevisionStaging
  imports RevisionSafety
begin

text \<open>
  Staging a revision: its directory is created, filled, verified and renamed.  Whatever happens
  the published revisions stay as they are or gain exactly the prepared revision, verified.
\<close>

section \<open>The staged directory\<close>

lemma staging_ok_iff:
  "staging_ok d = Inr () \<longleftrightarrow> set (rd_payload_dirs d) \<subseteq> {''agent_reports'', ''tool_results''} \<and>
     (\<forall>f\<in>set (case rd_payload d of None \<Rightarrow> [] | Some fs \<Rightarrow> fs). admitted_name (fst f))"
  by (simp add: staging_ok_def bindE_Inr foldE_all admitted_name_def)

lemma in_update: "f \<in> set (AList.update k v xs) \<Longrightarrow> fst f = k \<or> f \<in> set xs"
  by (induction xs) (auto split: if_splits)

lemma map_of_staging: "map_of (map (\<lambda>s. if fst s = txn then (fst s, f (snd s)) else s) xs) txn = map_option f (map_of xs txn)"
  by (induction xs) auto

lemma quiet_map_staging:
  assumes "undisturbed cfg current revs fs" and "\<And>d. staging_ok d = Inr () \<Longrightarrow> staging_ok (f d) = Inr ()"
  shows "undisturbed cfg current revs (map_staging txn f fs)"
  using assms by (auto simp: undisturbed_def map_staging_def metadata_small_def)

text \<open>What a part of the staging may do to the directory: keep it admissible and keep \<open>P\<close> of it.\<close>

definition staging_inv :: "store_config \<Rightarrow> byte list option \<Rightarrow> revisions \<Rightarrow> string \<Rightarrow> (rev_dir \<Rightarrow> bool) \<Rightarrow> run_files \<Rightarrow> bool" where
  "staging_inv cfg current revs txn P fs \<longleftrightarrow> undisturbed cfg current revs fs \<and> P (staged txn fs)"

definition keeps_staging :: "(rev_dir \<Rightarrow> bool) \<Rightarrow> (rev_dir \<Rightarrow> rev_dir) \<Rightarrow> bool" where
  "keeps_staging P f \<longleftrightarrow> (\<forall>d. staging_ok d = Inr () \<longrightarrow> staging_ok (f d) = Inr ()) \<and> (\<forall>d. P d \<longrightarrow> P (f d))"

lemma staging_inv_map:
  "staging_inv cfg current revs txn P fs \<Longrightarrow> keeps_staging P f \<Longrightarrow> staging_inv cfg current revs txn P (map_staging txn f fs)"
proof -
  assume inv: "staging_inv cfg current revs txn P fs" and keeps: "keeps_staging P f"
  have "undisturbed cfg current revs (map_staging txn f fs)"
    by (rule quiet_map_staging) (use inv keeps in \<open>auto simp: staging_inv_def keeps_staging_def\<close>)
  moreover have "P (staged txn (map_staging txn f fs))"
    using inv keeps
    by (cases "map_of (fs_staging fs) txn")
      (auto simp: staging_inv_def keeps_staging_def staged_def map_staging_def map_of_staging)
  ultimately show ?thesis by (simp add: staging_inv_def)
qed

lemma holds_steps_last:
  assumes "list_all (stable P) ms" and "holds P m (\<lambda>_. R) (\<lambda>_. P)"
  shows "holds P (stepsIO (ms @ [m])) (\<lambda>_. R) (\<lambda>_. P)"
  using assms(1)
proof (induction ms)
  case Nil
  show ?case using holds_then [OF assms(2) holds_ret [where Q = "\<lambda>_. R"]] by simp
next
  case (Cons n ms)
  then show ?case by (auto intro: holds_then [OF stableD])
qed

lemma holds_write_exclusive:
  assumes "\<And>s k. P s \<Longrightarrow> P (put (take k data) s)"
  shows "holds P (write_exclusive_verified limit get put data) (\<lambda>_ s. P s \<and> get s = Some data) (\<lambda>_. P)"
proof (cases "limit < int (length data)")
  case True
  then show ?thesis
    by (simp add: write_exclusive_verified_def holds_def raiseIO_def)
next
  case False
  have empty: "P s \<Longrightarrow> P (put [] s)" for s using assms [of s 0] by simp
  have "holds P (at_boundary_of Verification_boundary (observe (\<lambda>fs.
           if get fs = Some data then Inr ()
           else Inl (Canonical_error ''written bytes did not reread exactly''))))
     (\<lambda>_ s. P s \<and> get s = Some data) (\<lambda>_. P)"
    unfolding at_boundary_of_def
    by (rule holds_except [where R = "\<lambda>_. P"], rule holds_observe)
      (auto split: if_splits intro: holds_raise [where E = "\<lambda>_. P"])
  then show ?thesis
    unfolding write_exclusive_verified_def if_not_P [OF False]
    by (elim holds_steps_last [where ms = "[_, _, _, _, _]", simplified append.simps, rotated])
      (auto intro!: io assms empty)
qed

section \<open>What each part of the staging keeps\<close>

lemma keeps_payload:
  assumes "admitted_name name" and "\<And>d. P d \<Longrightarrow> P (put_payload name data d)"
  shows "keeps_staging P (put_payload name data)"
  unfolding keeps_staging_def
proof (intro conjI allI impI)
  fix d
  assume "staging_ok d = Inr ()"
  then show "staging_ok (put_payload name data d) = Inr ()"
    using assms(1)
    by (cases "rd_payload d") (auto simp: staging_ok_iff put_payload_def dest: in_update)
qed (rule assms(2))

lemma keeps_dir:
  assumes "admitted_name name" and "dir \<in> set (parent_dirs name)"
    and "\<And>d ds. P d \<Longrightarrow> P (d\<lparr>rd_payload_dirs := ds\<rparr>)"
  shows "keeps_staging P (\<lambda>d. d\<lparr>rd_payload_dirs := rd_payload_dirs d @ [dir]\<rparr>)"
  using parent_dirs_admitted assms by (fastforce simp: keeps_staging_def staging_ok_iff admitted_name_def)

lemma keeps_control:
  "(\<And>d. P d \<Longrightarrow> P (d\<lparr>rd_payload := Some []\<rparr>)) \<Longrightarrow> keeps_staging P (\<lambda>d. d\<lparr>rd_payload := Some []\<rparr>)"
  "(\<And>d. P d \<Longrightarrow> P (d\<lparr>rd_transaction := Some b\<rparr>)) \<Longrightarrow> keeps_staging P (\<lambda>d. d\<lparr>rd_transaction := Some b\<rparr>)"
  "(\<And>d. P d \<Longrightarrow> P (d\<lparr>rd_manifest := Some b\<rparr>)) \<Longrightarrow> keeps_staging P (\<lambda>d. d\<lparr>rd_manifest := Some b\<rparr>)"
  by (simp_all add: keeps_staging_def staging_ok_iff)

lemma holds_write_staged:
  assumes "\<And>k. keeps_staging P (put (take k data))"
  shows "holds (staging_inv cfg current revs txn P) (write_staged cfg txn get put data)
    (\<lambda>_. staging_inv cfg current revs txn (\<lambda>d. P d \<and> get d = Some data)) (\<lambda>_. staging_inv cfg current revs txn P)"
  unfolding write_staged_def
  by (rule holds_conseq [OF holds_write_exclusive [where P = "staging_inv cfg current revs txn P"]])
    (erule staging_inv_map [OF _ assms], auto simp: staging_inv_def)

lemma stable_write_staged [io]:
  "(\<And>k. keeps_staging P (put (take k data))) \<Longrightarrow>
   stable (staging_inv cfg current revs txn P) (write_staged cfg txn get put data)"
  unfolding write_staged_def by (rule stable_write_exclusive) (rule staging_inv_map)

lemma stable_staged_parent [io]:
  assumes "admitted_name name" and "\<And>d ds. P d \<Longrightarrow> P (d\<lparr>rd_payload_dirs := ds\<rparr>)"
  shows "stable (staging_inv cfg current revs txn P) (staged_parent cfg txn name)"
  unfolding staged_parent_def
  by (intro io) (auto intro!: io staging_inv_map keeps_dir [OF assms(1)] assms(2))

lemma stable_stage_payload [io]:
  assumes "admitted_name (ie_logical_name e)"
    and "\<And>d ds. P d \<Longrightarrow> P (d\<lparr>rd_payload_dirs := ds\<rparr>)" and "\<And>d fs. P d \<Longrightarrow> P (d\<lparr>rd_payload := fs\<rparr>)"
  shows "stable (staging_inv cfg current revs (pr_transaction_id q) P) (stage_payload cfg q e)"
proof -
  have "keeps_staging P (put_payload (ie_logical_name e) data)" for data
    by (rule keeps_payload [OF assms(1)]) (simp add: put_payload_def assms(3))
  then show ?thesis
    unfolding stage_payload_def Let_def
    using assms(1,2) by (auto intro!: io stable_staged_parent split: option.split)
qed

section \<open>The staged revision is the prepared one\<close>

lemma holds_at_stage: "holds P m Q (\<lambda>_. R) \<Longrightarrow> holds P (at_stage q s m) Q (\<lambda>_. R)"
  unfolding at_stage_def
proof (rule holds_except [where R = "\<lambda>_. R"])
  fix e
  have "holds R (refuse q f) Q (\<lambda>_. R)" for f
    unfolding refuse_def by (rule holds_raise [where E = "\<lambda>_. R"])
  then show "holds R (bindIO filesIO (\<lambda>fs. refuse q (staging_failure q s (revision_exists q fs) e))) Q (\<lambda>_. R)"
    by (intro holds_bind [OF stableD [of R filesIO]]) simp_all
qed simp_all

lemma holds_create:
  assumes "\<And>s. P s \<Longrightarrow> \<not> present s \<Longrightarrow> Q () (f s)" and "\<And>e s. P s \<Longrightarrow> E e s"
    and "\<And>e s. P s \<Longrightarrow> \<not> present s \<Longrightarrow> E e (f s)"
  shows "holds P (create_with present f) Q E"
  unfolding create_with_def
proof (rule holds_bind [where R = "\<lambda>x s. P s \<and> x = s"])
  show "holds P filesIO (\<lambda>x s. P s \<and> x = s) E" by (rule holds_pre [OF _ holds_files]) simp
next
  fix x
  show "holds (\<lambda>s. P s \<and> x = s) (if present x then raiseIO (Os_error ''file exists'') else atomic f) Q E"
  proof (cases "present x")
    case True
    then show ?thesis using assms(2) by (auto simp: holds_def raiseIO_def)
  next
    case False
    then have "holds (\<lambda>s. P s \<and> x = s) (atomic f) Q E" using assms by (intro holds_atomic) auto
    with False show ?thesis by simp
  qed
qed

lemma holds_verify_dir:
  "holds P (verify_dir cfg r n g) (\<lambda>_ s. P s \<and> (\<exists>e. verify_revision_directory cfg r n (g s) None = Inr e)) (\<lambda>_. P)"
  unfolding verify_dir_def by (rule holds_observe) (auto simp: bindE_Inr)

definition staged_control :: "prepared_revision \<Rightarrow> rev_dir \<Rightarrow> bool" where
  "staged_control pp d \<longleftrightarrow> rd_transaction d = Some (pp_transaction_bytes pp) \<and> rd_manifest d = Some (pp_manifest_bytes pp)"

definition staged_verified :: "store_config \<Rightarrow> prepared_revision \<Rightarrow> rev_dir \<Rightarrow> bool" where
  "staged_verified cfg pp d \<longleftrightarrow> staged_control pp d \<and>
     (\<exists>e. verify_revision_directory cfg (pr_run_id (pp_request pp)) (Staging_name (pr_transaction_id (pp_request pp))) d None = Inr e)"

lemma staged_new_verified:
  assumes ok: "prepared_ok pp" and staged: "staged_verified cfg pp d"
  shows "new_verified cfg pp d"
proof -
  obtain re m sha t where v: "verify_revision_directory cfg (pr_run_id (pp_request pp))
      (Staging_name (pr_transaction_id (pp_request pp))) d None = Inr (re, m, sha, t)"
    using staged unfolding staged_verified_def by (metis prod.exhaust)
  have "t = pp_transaction pp \<and> m = pp_manifest pp \<and> sha = pp_manifest_sha256 pp \<and> re = reachable_of m sha"
    using v staged read_prepared [OF ok] prepared_okD(7) [OF ok]
    by (elim verify_revisionE) (simp add: staged_verified_def staged_control_def)
  then show ?thesis
    using verify_renamed [OF v] prepared_fields(7) [OF ok] by (simp add: new_verified_def new_entry_def)
qed

lemma rename_new:
  assumes ok: "prepared_ok pp" and q: "q = pp_request pp" and none: "\<not> revision_exists q fs"
    and inv: "staging_inv cfg current revs (pr_transaction_id q) (staged_verified cfg pp) fs"
  shows "unreferenced cfg pp current revs (rename_staging q fs)"
proof -
  obtain d where d: "map_of (fs_staging fs) (pr_transaction_id q) = Some d"
    using inv
    by (cases "map_of (fs_staging fs) (pr_transaction_id q)")
      (simp_all add: staging_inv_def staged_verified_def staged_control_def staged_def empty_dir_def)
  with inv have "staged_verified cfg pp d" by (simp add: staging_inv_def staged_def)
  then have "new_verified cfg pp d" by (rule staged_new_verified [OF ok])
  moreover have "undisturbed cfg current (revs @ [new_revision pp d]) (rename_staging q fs)"
    using inv none d by (auto simp: staging_inv_def undisturbed_def rename_staging_def new_revision_def q metadata_small_def Let_def)
  ultimately show ?thesis by (auto simp: unreferenced_def)
qed

section \<open>stage_revision\<close>

definition has_transaction :: "prepared_revision \<Rightarrow> rev_dir \<Rightarrow> bool" where
  "has_transaction pp d \<longleftrightarrow> rd_transaction d = Some (pp_transaction_bytes pp)"

lemma holds_steps_cons: "holds P m (\<lambda>_. R) E \<Longrightarrow> holds R (stepsIO ms) Q E \<Longrightarrow> holds P (stepsIO (m # ms)) Q E"
  by (simp add: holds_then)

lemma holds_weaken: "holds P m Q (\<lambda>_. R) \<Longrightarrow> (\<And>s. R s \<Longrightarrow> N s) \<Longrightarrow> holds P m Q (\<lambda>_. N)"
  by (rule holds_conseq [of P m Q "\<lambda>_. R" P Q]) auto

lemma stage_revision_holds:
  assumes ok: "prepared_ok pp" and names: "admitted_names (pp_inventories pp)"
  shows "holds (undisturbed cfg current revs) (stage_revision cfg pp)
    (\<lambda>_. unreferenced cfg pp current revs) (\<lambda>_. not_advanced cfg pp current revs)"
proof -
  let ?q = "pp_request pp" and ?N = "\<lambda>_. not_advanced cfg pp current revs"
  let ?txn = "pr_transaction_id ?q"
  let ?T = "\<lambda>P. staging_inv cfg current revs ?txn P"
  have undisturbed: "?T P s \<Longrightarrow> not_advanced cfg pp current revs s" for P s by (simp add: staging_inv_def not_advanced_def)
  have weak: "holds P' m Q (\<lambda>_. ?T P) \<Longrightarrow> holds P' (at_stage q s m) Q ?N" for P' P q s and m :: "unit io" and Q
    by (rule holds_at_stage, erule holds_weaken, erule undisturbed)
  have create: "holds (undisturbed cfg current revs) (at_stage ?q st (create_with (\<lambda>fs. ?txn \<in> set (map fst (fs_staging fs)))
           (\<lambda>fs. fs\<lparr>fs_staging := fs_staging fs @ [(?txn, empty_dir)]\<rparr>))) (\<lambda>_. ?T (\<lambda>_. True)) ?N" for st
    by (rule holds_weaken [where R = "?T (\<lambda>_. True)", OF _ undisturbed], rule holds_at_stage, rule holds_create)
      (auto simp: staging_inv_def undisturbed_def metadata_small_def staging_ok_iff empty_dir_def)
  have start: "stable (?T (\<lambda>_. True)) (stepsIO
        [sync_dir windows,
         mkdir_verified windows (\<lambda>fs. rd_payload (staged ?txn fs) \<noteq> None)
           (map_staging ?txn (\<lambda>d. d\<lparr>rd_payload := Some []\<rparr>)),
         sync_dir windows])" for windows
    by (auto intro!: io staging_inv_map keeps_control)
  have tx: "holds (?T (\<lambda>_. True)) (write_staged cfg ?txn rd_transaction (\<lambda>b d. d\<lparr>rd_transaction := Some b\<rparr>) (pp_transaction_bytes pp))
      (\<lambda>_. ?T (has_transaction pp)) (\<lambda>_. ?T (\<lambda>_. True))"
    by (rule holds_conseq [OF holds_write_staged [where P = "\<lambda>_. True"]])
      (auto simp: has_transaction_def staging_inv_def intro: keeps_control)
  have payload: "stable (?T (has_transaction pp)) (eachIO (stage_payload cfg ?q) (pp_inventories pp))"
    by (intro io) (use names in \<open>auto simp: has_transaction_def admitted_names_def\<close>)
  have mf: "holds (?T (has_transaction pp)) (write_staged cfg ?txn rd_manifest (\<lambda>b d. d\<lparr>rd_manifest := Some b\<rparr>) (pp_manifest_bytes pp))
      (\<lambda>_. ?T (staged_control pp)) (\<lambda>_. ?T (has_transaction pp))"
    by (rule holds_conseq [OF holds_write_staged [where P = "has_transaction pp"]])
      (auto simp: has_transaction_def staged_control_def staging_inv_def intro: keeps_control)
  have manifest: "holds (?T (has_transaction pp)) (stepsIO
        [write_staged cfg ?txn rd_manifest (\<lambda>b d. d\<lparr>rd_manifest := Some b\<rparr>) (pp_manifest_bytes pp),
         bindIO (verify_dir cfg (pr_run_id ?q) (Staging_name ?txn) (staged ?txn)) (\<lambda>_. retIO ()),
         bindIO filesIO (\<lambda>fs. eachIO (\<lambda>_. sync_dir windows) ('''' # rd_payload_dirs (staged ?txn fs))),
         sync_dir windows]) (\<lambda>_. ?T (staged_verified cfg pp)) ?N" for windows
  proof (rule holds_steps_cons)
    show "holds (?T (has_transaction pp)) (write_staged cfg ?txn rd_manifest (\<lambda>b d. d\<lparr>rd_manifest := Some b\<rparr>) (pp_manifest_bytes pp))
        (\<lambda>_. ?T (staged_control pp)) ?N"
      by (rule holds_weaken [OF mf undisturbed])
    have ver: "holds (?T (staged_control pp)) (bindIO (verify_dir cfg (pr_run_id ?q) (Staging_name ?txn) (staged ?txn)) (\<lambda>_. retIO ()))
        (\<lambda>_. ?T (staged_verified cfg pp)) (\<lambda>_. ?T (staged_control pp))"
      by (rule holds_bind, rule holds_verify_dir)
        (auto simp: staging_inv_def staged_verified_def holds_def retIO_def)
    have sync: "stable (?T (staged_verified cfg pp)) (stepsIO
        [bindIO filesIO (\<lambda>fs. eachIO (\<lambda>_. sync_dir windows) ('''' # rd_payload_dirs (staged ?txn fs))), sync_dir windows])"
      by (auto intro!: io)
    show "holds (?T (staged_control pp)) (stepsIO
        [bindIO (verify_dir cfg (pr_run_id ?q) (Staging_name ?txn) (staged ?txn)) (\<lambda>_. retIO ()),
         bindIO filesIO (\<lambda>fs. eachIO (\<lambda>_. sync_dir windows) ('''' # rd_payload_dirs (staged ?txn fs))), sync_dir windows])
        (\<lambda>_. ?T (staged_verified cfg pp)) ?N"
      by (rule holds_steps_cons [OF holds_weaken [OF ver undisturbed] holds_weaken [OF stableD [OF sync] undisturbed]])
  qed
  have rename: "holds (?T (staged_verified cfg pp)) (create_with (revision_exists ?q) (rename_staging ?q))
      (\<lambda>_. unreferenced cfg pp current revs) ?N"
    by (rule holds_create) (auto simp: not_advanced_def staging_inv_def intro: rename_new [OF ok refl, unfolded staging_inv_def])
  have finish: "stable (unreferenced cfg pp current revs) (stepsIO
        [sync_dir windows, sync_dir windows,
         bindIO (verify_dir cfg (pr_run_id ?q) (Revision_name (pr_proposed_revision ?q) ?txn) (published_dir ?q))
           (\<lambda>m_sha. if m_sha \<noteq> pp_manifest_sha256 pp
              then raiseIO (Canonical_error ''published revision manifest hash mismatch'') else retIO ())])" for windows
    by (auto intro!: io)
  have after: "unreferenced cfg pp current revs s \<Longrightarrow> not_advanced cfg pp current revs s" for s by (simp add: not_advanced_def)
  show ?thesis
    unfolding stage_revision_def Let_def
    by (rule holds_steps_cons [OF create], rule holds_steps_cons [OF weak [OF stableD [OF start]]],
        rule holds_steps_cons [OF weak [OF tx]], rule holds_steps_cons [OF weak [OF stableD [OF payload]]],
        rule holds_steps_cons [OF holds_at_stage [OF manifest]], rule holds_steps_cons [OF holds_at_stage [OF rename]],
        rule holds_steps_cons [OF holds_at_stage [OF holds_weaken [OF stableD [OF finish] after]]])
      (simp_all add: holds_def retIO_def)
qed

end
