(* ===== verification/RevisionPublish.thy ===== *)
theory RevisionPublish
  imports RevisionStaging
begin

text \<open>
  The rest of the publication: the pointer temporary, the replacement of \<open>current.json\<close>, the
  reconciliation, and the whole call under the lock.  \<open>result_ok\<close> relates what \<open>publish\<close> reports to
  what it left.
\<close>

section \<open>The replacement\<close>

lemma quiet_pointer_temps: "undisturbed cfg current revs (fs\<lparr>fs_pointer_temps := ts\<rparr>) = undisturbed cfg current revs fs"
  by (simp add: undisturbed_def metadata_small_def)

lemma map_of_alist_update: "map_of (AList.update k v xs) k = Some v"
  by (simp add: update_conv')

lemma write_pointer_holds:
  "holds (unreferenced cfg pp current revs) (write_pointer cfg pp)
     (\<lambda>_ s. unreferenced cfg pp current revs s \<and>
        map_of (fs_pointer_temps s) (pr_transaction_id (pp_request pp)) = Some (pp_pointer_bytes pp))
     (\<lambda>_. unreferenced cfg pp current revs)"
proof -
  let ?U = "unreferenced cfg pp current revs"
  have "holds ?U (write_exclusive_verified (sc_max_artifact_bytes cfg)
         (\<lambda>fs. map_of (fs_pointer_temps fs) txn) (put_pointer_temp txn) data)
     (\<lambda>_ s. ?U s \<and> map_of (fs_pointer_temps s) txn = Some data) (\<lambda>_. ?U)" for txn data
    by (rule holds_write_exclusive) (simp add: unreferenced_def put_pointer_temp_def quiet_pointer_temps)
  then show ?thesis
    unfolding write_pointer_def Let_def
    by (rule holds_except) (simp_all add: holds_raise [where E = "\<lambda>_. ?U"])
qed

lemma replace_advances:
  assumes "unreferenced cfg pp current revs s" and "map_of (fs_pointer_temps s) txn = Some (pp_pointer_bytes pp)"
  shows "advanced cfg pp revs (replace_current txn s)"
  using assms by (auto simp: unreferenced_def advanced_def replace_current_def undisturbed_def metadata_small_def)

text \<open>What a report of the publication says of the files it leaves.\<close>

definition error_ok :: "store_config \<Rightarrow> prepared_revision \<Rightarrow> byte list option \<Rightarrow> revisions \<Rightarrow> storage_exn \<Rightarrow> run_files \<Rightarrow> bool" where
  \<comment> \<open>a failure of \<open>_ownership\<close> is reported as of the preflight stage, whenever it happens\<close>
  "error_ok cfg pp current revs e s \<longleftrightarrow>
     (not_advanced cfg pp current revs s \<or> advanced cfg pp revs s) \<and>
     (\<forall>f. e = Run_error f \<longrightarrow>
        (rf_domain_effect f = DE_current_advanced \<longrightarrow> advanced cfg pp revs s) \<and>
        (rf_domain_effect f = DE_current_unchanged \<and> rf_stage f \<notin> {St_preflight, St_lock_release} \<longrightarrow>
           not_advanced cfg pp current revs s))"

lemma error_before: "not_advanced cfg pp current revs s \<Longrightarrow> unchanged_error e \<Longrightarrow> error_ok cfg pp current revs e s"
  by (auto simp: error_ok_def unchanged_error_def)

lemma error_after:
  "advanced cfg pp revs s \<Longrightarrow> (\<forall>f. e = Run_error f \<longrightarrow> rf_domain_effect f = DE_current_unchanged \<longrightarrow> rf_stage f = St_preflight) \<Longrightarrow>
   error_ok cfg pp current revs e s"
  by (auto simp: error_ok_def)

lemma holds_before:
  assumes "holds P m Q (\<lambda>_. not_advanced cfg pp current revs)" and "throws unchanged_error m"
  shows "holds P m Q (error_ok cfg pp current revs)"
  by (rule holds_conseq [OF holds_throws [OF assms]]) (auto intro: error_before)

definition late_error :: "storage_exn \<Rightarrow> bool" where
  "late_error e \<longleftrightarrow> (\<forall>f. e = Run_error f \<longrightarrow> rf_domain_effect f = DE_current_unchanged \<longrightarrow> rf_stage f = St_preflight)"

lemma late_failure: "rf_domain_effect f \<noteq> DE_current_unchanged \<Longrightarrow> late_error (run_failure_error r f)"
proof -
  assume f: "rf_domain_effect f \<noteq> DE_current_unchanged"
  show ?thesis
  proof (cases "run_id_sha256 r")
    case (Inl e)
    then have "plain_error e" using plain_names(3) [of r] by (simp add: plainE_def)
    then show ?thesis using Inl by (auto simp: run_failure_error_def late_error_def)
  qed (simp add: run_failure_error_def late_error_def f)
qed

lemma stage_of_failure: "run_failure_error r f = Run_error g \<Longrightarrow> rf_stage g = rf_stage f"
  using plain_names(3) [of r]
  by (auto simp: run_failure_error_def plainE_def split: sum.splits)

lemma holds_late:
  assumes "stable (advanced cfg pp revs) m" and "throws late_error m"
  shows "holds (advanced cfg pp revs) m (\<lambda>_. advanced cfg pp revs) (error_ok cfg pp current revs)"
  by (rule holds_conseq [OF holds_throws [OF stableD [OF assms(1)] assms(2)]])
    (auto intro!: error_after simp: late_error_def)

lemma late_plain [simp]: "plain_error e \<Longrightarrow> late_error e" by (auto simp: late_error_def)

lemma throws_late_check: "(\<And>s. plainE (f s)) \<Longrightarrow> throws late_error (observe f)"
  by (fastforce simp: throws_def observe_def plainE_def split: prod.splits decision.splits)

lemma throws_late_boundary: "throws late_error m \<Longrightarrow> throws late_error (at_boundary_of b m)"
  unfolding at_boundary_of_def by (rule throws_except) simp_all

lemma throws_late_basic [simp]:
  "throws late_error os_call" "throws late_error (directory_sync w)" "throws late_error (confirm_pointer cfg pp)"
proof -
  show o': "throws late_error os_call" unfolding os_call_def by (rule throws_late_check) simp
  then show "throws late_error (directory_sync w)"
    unfolding directory_sync_def by (auto intro!: throws throws_late_boundary)
  show "throws late_error (confirm_pointer cfg pp)"
    unfolding confirm_pointer_def by (intro throws_late_check plain) (auto split: prod.split intro!: plain)
qed

lemma throws_late_chain [simp]: "throws late_error (confirm_lineage cfg pp)"
proof -
  have ow: "throws late_error (ownership r)" for r
    unfolding ownership_def
    by (rule throws_except, simp, simp add: late_error_def)
      (auto dest: stage_of_failure simp: plain_run_failure_def)
  have rc: "throws late_error (read_chain cfg r v)" for r v
    unfolding read_chain_def
    by (intro throws ow throws_lift throws_late_check plain)
      (auto dest: plain_names(1) [unfolded plainE_def, rule_format])
  show ?thesis
    unfolding confirm_lineage_def
    by (intro throws rc throws_lift) (auto simp: require_def split: if_splits)
qed

lemma stable_confirm [io, simp]: "stable P (confirm_pointer cfg pp)" "stable P (confirm_lineage cfg pp)"
  unfolding confirm_pointer_def confirm_lineage_def by (auto intro!: io)

lemma throws_late_except_as:
  "throws late_error m \<Longrightarrow> (\<And>e. rf_domain_effect (f e) \<noteq> DE_current_unchanged) \<Longrightarrow> throws late_error (except_as q f m)"
  unfolding except_as_def
  by (rule throws_except) (auto simp: refuse_def late_failure split: storage_exn.split)

lemma late_domains [simp]:
  "rf_domain_effect (replace_failure q st) = DE_current_may_have_advanced"
  "rf_domain_effect (reconciliation_failure q) = DE_current_advanced"
  "rf_domain_effect (sync_failure q) = DE_current_advanced"
  by (simp_all add: replace_failure_def reconciliation_failure_def sync_failure_def)

lemma replace_and_confirm_holds:
  "holds (\<lambda>s. unreferenced cfg pp current revs s \<and>
        map_of (fs_pointer_temps s) (pr_transaction_id (pp_request pp)) = Some (pp_pointer_bytes pp))
     (replace_and_confirm cfg pp) (\<lambda>_. advanced cfg pp revs) (error_ok cfg pp current revs)"
proof -
  let ?q = "pp_request pp" and ?E = "error_ok cfg pp current revs" and ?A = "advanced cfg pp revs"
  let ?P = "\<lambda>s. unreferenced cfg pp current revs s \<and>
        map_of (fs_pointer_temps s) (pr_transaction_id ?q) = Some (pp_pointer_bytes pp)"
  have before: "stable ?P m \<Longrightarrow> throws unchanged_error m \<Longrightarrow> holds ?P m (\<lambda>_. ?P) ?E" for m :: "unit io"
    by (rule holds_before [OF holds_weaken [OF stableD]]) (auto simp: not_advanced_def)
  have replace: "holds ?P (except_as ?q (\<lambda>_. replace_failure ?q St_current_replace)
      (atomic (replace_current (pr_transaction_id ?q)))) (\<lambda>_. ?A) ?E"
    unfolding except_as_def
  proof (rule holds_except [where R = "\<lambda>e s. plain_error e \<and> (not_advanced cfg pp current revs s \<or> ?A s)"])
    have "holds ?P (atomic (replace_current (pr_transaction_id ?q))) (\<lambda>_. ?A) (\<lambda>_ s. not_advanced cfg pp current revs s \<or> ?A s)"
      by (rule holds_atomic) (auto simp: not_advanced_def intro: replace_advances)
    moreover have "throws plain_error (atomic f)" for f
      by (auto simp: throws_def atomic_def split: prod.splits decision.splits)
    ultimately show "holds ?P (atomic (replace_current (pr_transaction_id ?q))) (\<lambda>_. ?A)
        (\<lambda>e s. plain_error e \<and> (not_advanced cfg pp current revs s \<or> ?A s))"
      using holds_throws by (fastforce intro: holds_conseq [of ?P _ "\<lambda>_. ?A" _ ?P])
    show "holds (\<lambda>s. plain_error e \<and> (not_advanced cfg pp current revs s \<or> ?A s))
        (case e of Run_error r \<Rightarrow> raiseIO (Run_error r) | _ \<Rightarrow> refuse ?q (replace_failure ?q St_current_replace)) (\<lambda>_ :: unit. ?A) ?E"
      for e
    proof (rule holds_assume)
      assume "plain_error e"
      then have "(case e of Run_error r \<Rightarrow> raiseIO (Run_error r) | _ \<Rightarrow> refuse ?q (replace_failure ?q St_current_replace))
          = (refuse ?q (replace_failure ?q St_current_replace) :: unit io)" by (cases e) simp_all
      moreover have "not_advanced cfg pp current revs s \<or> ?A s \<Longrightarrow>
          ?E (run_failure_error (pr_run_id ?q) (replace_failure ?q St_current_replace)) s" for s
        using plain_names(3) [of "pr_run_id ?q"]
        by (auto simp: error_ok_def run_failure_error_def plainE_def split: sum.splits)
      then have "holds (\<lambda>s. not_advanced cfg pp current revs s \<or> ?A s)
          (refuse ?q (replace_failure ?q St_current_replace) :: unit io) (\<lambda>_. ?A) ?E"
        unfolding refuse_def by (rule holds_pre [OF _ holds_raise [where E = ?E]])
      ultimately show "holds (\<lambda>s. not_advanced cfg pp current revs s \<or> ?A s)
        (case e of Run_error r \<Rightarrow> raiseIO (Run_error r) | _ \<Rightarrow> refuse ?q (replace_failure ?q St_current_replace)) (\<lambda>_ :: unit. ?A) ?E"
        by (simp only:)
    qed
  qed (simp add: error_ok_def)
  have late: "stable ?A m \<Longrightarrow> throws late_error m \<Longrightarrow> holds ?A m (\<lambda>_. ?A) ?E" for m :: "unit io"
    by (rule holds_late)
  show ?thesis
    unfolding replace_and_confirm_def Let_def
    by (rule holds_steps_cons [OF before], simp, rule throws_final_cas,
        rule holds_steps_cons [OF before], rule stable_except_as, simp, rule throws_except_as, simp, simp,
        rule holds_steps_cons [OF replace],
        rule holds_steps_cons [OF late], rule stable_except_as, simp, rule throws_late_except_as, simp, simp,
        rule holds_steps_cons [OF late], rule stable_except_as, simp, rule throws_late_except_as, simp, simp)
      (simp add: holds_def retIO_def)
qed

section \<open>publish\<close>

definition outcome_ok :: "store_config \<Rightarrow> prepared_revision \<Rightarrow> byte list option \<Rightarrow> revisions \<Rightarrow> publish_outcome \<Rightarrow> run_files \<Rightarrow> bool" where
  "outcome_ok cfg pp current revs x s \<longleftrightarrow> publish_outcome_ok x \<and>
     (if oc_kind x = Published then oc_domain_effect x = DE_current_advanced \<and> advanced cfg pp revs s
      else oc_domain_effect x = DE_current_unchanged \<and> not_advanced cfg pp current revs s)"

lemma holds_if: "(b \<Longrightarrow> holds P m Q E) \<Longrightarrow> (\<not> b \<Longrightarrow> holds P n Q E) \<Longrightarrow> holds P (if b then m else n) Q E"
  by simp

lemma quiet_not_advanced: "undisturbed cfg current revs s \<Longrightarrow> not_advanced cfg pp current revs s"
  by (simp add: not_advanced_def)

lemma holds_quiet:
  "stable (undisturbed cfg current revs) m \<Longrightarrow> throws unchanged_error m \<Longrightarrow>
   holds (undisturbed cfg current revs) m (\<lambda>_. undisturbed cfg current revs) (error_ok cfg pp current revs)"
  by (rule holds_before [OF holds_weaken [OF stableD]]) (simp_all add: quiet_not_advanced)

lemma holds_refuse_quiet:
  "rf_domain_effect f = DE_current_unchanged \<Longrightarrow>
   holds (undisturbed cfg current revs) (refuse q f) Q (error_ok cfg pp current revs)"
  unfolding refuse_def
  by (rule holds_pre [OF _ holds_raise [where E = "error_ok cfg pp current revs"]])
    (simp add: error_before quiet_not_advanced unchanged_failure)

lemma holds_lift_late:
  assumes "plainE m" and "\<And>x s. m = Inr x \<Longrightarrow> advanced cfg pp revs s \<Longrightarrow> Q x s"
  shows "holds (advanced cfg pp revs) (liftIO m) Q (error_ok cfg pp current revs)"
proof (rule holds_pre [OF _ holds_lift])
  fix s
  assume "advanced cfg pp revs s"
  then show "case m of Inl e \<Rightarrow> error_ok cfg pp current revs e s | Inr x \<Rightarrow> Q x s"
    using assms by (cases m) (auto simp: plainE_def error_ok_def)
qed

lemma plain_metadata [plain, simp]: "plainE (metadata_value cfg q ow time)"
  unfolding metadata_value_def by (intro plain) simp_all

lemma plain_published [plain, simp]: "plainE (published_outcome pp s)"
  unfolding published_outcome_def Let_def by (intro plain)

lemma throws_plain_lift [throws]: "plainE m \<Longrightarrow> throws unchanged_error (liftIO m)"
  by (rule throws_lift) (auto simp: plainE_def)

lemma publish_new_holds:
  assumes ok: "prepared_ok pp" and names: "admitted_names (pp_inventories pp)"
  shows "holds (undisturbed cfg current revs) (publish_new cfg pp chain changed bytes owner time)
    (outcome_ok cfg pp current revs) (error_ok cfg pp current revs)"
proof -
  let ?q = "pp_request pp" and ?E = "error_ok cfg pp current revs"
  have stage: "holds (undisturbed cfg current revs) (stage_revision cfg pp) (\<lambda>_. unreferenced cfg pp current revs) ?E"
    by (rule holds_before [OF stage_revision_holds [OF ok names] throws_stage])
  have pointer: "holds (unreferenced cfg pp current revs) (write_pointer cfg pp)
     (\<lambda>_ s. unreferenced cfg pp current revs s \<and>
        map_of (fs_pointer_temps s) (pr_transaction_id ?q) = Some (pp_pointer_bytes pp)) ?E"
    by (rule holds_before [OF holds_weaken [OF write_pointer_holds] throws_pointer]) (simp add: not_advanced_def)
  have meta: "holds (undisturbed cfg current revs) (except_as ?q (metadata_failure ?q) (write_metadata cfg owner data))
      (\<lambda>_. undisturbed cfg current revs) ?E" for data
    by (intro holds_quiet io throws) simp
  have boot: "holds (undisturbed cfg current revs) (exceptIO (bootstrap_namespace cfg (pr_run_id ?q)) (\<lambda>e. refuse ?q (bootstrap_failure ?q e)))
      (\<lambda>_. undisturbed cfg current revs) ?E"
    by (intro holds_quiet io throws) simp_all
  have sync: "holds (advanced cfg pp revs) (exceptIO (directory_sync w) (\<lambda>_. refuse ?q (sync_failure ?q)))
      (\<lambda>_. advanced cfg pp revs) ?E" for w
    by (intro holds_late io throws_except) (simp_all add: refuse_def late_failure)
  have out: "holds (advanced cfg pp revs) (liftIO (published_outcome pp s)) (outcome_ok cfg pp current revs) ?E" for s
    by (rule holds_lift_late, rule plain_published) (auto simp: published_outcome_def bindE_Inr Let_def outcome_ok_def)
  have metadata: "holds (undisturbed cfg current revs) (liftIO (metadata_value cfg ?q owner time)) (\<lambda>_. undisturbed cfg current revs) ?E"
    by (intro holds_quiet throws) simp_all
  have files: "holds (undisturbed cfg current revs) filesIO (\<lambda>_. undisturbed cfg current revs) ?E"
    by (intro holds_quiet) simp_all
  show ?thesis
    unfolding publish_new_def Let_def
    by (intro holds_if holds_bind [OF metadata] holds_bind [OF files] holds_then [OF meta] holds_then [OF boot]
        holds_then [OF stage] holds_then [OF pointer] holds_then [OF replace_and_confirm_holds] holds_bind [OF sync] out
        holds_refuse_quiet) simp_all
qed

section \<open>Under the lock\<close>

definition report :: "store_config \<Rightarrow> prepared_revision \<Rightarrow> byte list option \<Rightarrow> revisions \<Rightarrow> publish_outcome \<Rightarrow> run_files \<Rightarrow> bool" where
  "report cfg pp current revs x s \<longleftrightarrow> outcome_ok cfg pp current revs x s \<and> (eligible cfg pp current revs \<or> undisturbed cfg current revs s)"

definition refusal_report :: "store_config \<Rightarrow> prepared_revision \<Rightarrow> byte list option \<Rightarrow> revisions \<Rightarrow> storage_exn \<Rightarrow> run_files \<Rightarrow> bool" where
  "refusal_report cfg pp current revs e s \<longleftrightarrow> error_ok cfg pp current revs e s \<and> (eligible cfg pp current revs \<or> undisturbed cfg current revs s)"

lemma holds_still:
  assumes "holds (undisturbed cfg current revs) m Q (\<lambda>_. undisturbed cfg current revs)" and "throws unchanged_error m"
  shows "holds (undisturbed cfg current revs) m Q (refusal_report cfg pp current revs)"
  by (rule holds_conseq [OF holds_throws [OF assms]]) (auto simp: refusal_report_def error_before quiet_not_advanced)

lemma holds_current_chain:
  "holds (undisturbed cfg current revs) (existing_chain_or_none cfg r v)
     (\<lambda>chain s. undisturbed cfg current revs s \<and> (v \<longrightarrow> chain = current_chain cfg r current revs)) (\<lambda>_. undisturbed cfg current revs)"
proof -
  let ?P = "undisturbed cfg current revs"
  have chain: "holds ?P (read_chain cfg r v)
      (\<lambda>c s. ?P s \<and> (v \<longrightarrow> chain_core cfg r current revs = Inr c)) (\<lambda>_. ?P)"
    unfolding read_chain_def
  proof (rule holds_bind [OF stableD], simp, rule holds_then [OF stableD], simp, rule holds_observe)
    fix s c
    assume "?P s" and "chain_of_files cfg r v s = Inr c"
    then show "?P s \<and> (v \<longrightarrow> chain_core cfg r current revs = Inr c)"
      by (cases v) (auto simp: chain_of_files_Inr undisturbed_def)
  qed
  show ?thesis
    unfolding existing_chain_or_none_def
  proof (rule holds_bind [where R = "\<lambda>fs s. ?P s \<and> fs_current fs = current"])
    show "holds ?P filesIO (\<lambda>fs s. ?P s \<and> fs_current fs = current) (\<lambda>_. ?P)"
      by (rule holds_pre [OF _ holds_files]) (simp add: undisturbed_def)
  next
    fix fs
    show "holds (\<lambda>s. ?P s \<and> fs_current fs = current)
        (if fs_current fs = None then retIO None else bindIO (read_chain cfg r v) (\<lambda>c. retIO (Some c)))
        (\<lambda>chain s. ?P s \<and> (v \<longrightarrow> chain = current_chain cfg r current revs)) (\<lambda>_. ?P)"
    proof (cases "fs_current fs = None")
      case True
      then show ?thesis by (auto simp: holds_def retIO_def current_chain_def)
    next
      case False
      have "holds (\<lambda>s. ?P s \<and> (v \<longrightarrow> chain_core cfg r current revs = Inr c)) (retIO (Some c))
          (\<lambda>chain s. ?P s \<and> (v \<longrightarrow> chain = current_chain cfg r current revs)) (\<lambda>_. ?P)" if "current \<noteq> None" for c
        using that by (auto simp: holds_def retIO_def current_chain_def)
      then have "current \<noteq> None \<Longrightarrow> holds ?P (bindIO (read_chain cfg r v) (\<lambda>c. retIO (Some c)))
          (\<lambda>chain s. ?P s \<and> (v \<longrightarrow> chain = current_chain cfg r current revs)) (\<lambda>_. ?P)"
        by (intro holds_bind [OF chain])
      with False show ?thesis by (auto simp: holds_def)
    qed
  qed
qed

lemma throws_admission [throws]: "throws unchanged_error (check_admission cfg q changed)"
proof -
  have scan: "scan_case_aliases r fs = Inl e \<Longrightarrow> unchanged_error e" for r fs e
  proof -
    have loop: "foldE (\<lambda>_ (i, name). g i name) () xs = Inl e \<Longrightarrow> \<exists>i n. g i n = Inl e" for g and xs :: "(nat \<times> string) list"
      by (induction xs) (auto simp: bindE_Inl)
    show "scan_case_aliases r fs = Inl e \<Longrightarrow> unchanged_error e"
      unfolding scan_case_aliases_def Let_def
      by (auto simp: bindE_Inl unchanged_failure split: if_splits dest!: loop)
  qed
  have ns: "throws unchanged_error (observe (validate_existing_namespace cfg (pr_run_id q) True))"
    by (rule throws_check) simp
  show ?thesis
    unfolding check_admission_def
    by (intro throws throws_observe ns) (auto simp: unchanged_failure intro: scan)
qed

lemma throws_count [throws]: "throws unchanged_error (count_bytes q chain effect)"
proof -
  have "throws unchanged_error (observe (\<lambda>fs. Inr (run_physical_bytes fs)))" by (rule throws_check) simp
  then show ?thesis
    unfolding count_bytes_def by (intro throws) (auto simp: unchanged_failure)
qed

lemma check_admission_holds:
  "holds (undisturbed cfg current revs) (check_admission cfg q changed)
     (\<lambda>(fs, chain) s. undisturbed cfg current revs s \<and> chain = current_chain cfg (pr_run_id q) current revs)
     (\<lambda>_. undisturbed cfg current revs)"
proof -
  let ?P = "undisturbed cfg current revs"
  have chain: "holds ?P (except_storage (existing_chain_or_none cfg (pr_run_id q) True) f)
      (\<lambda>chain s. ?P s \<and> chain = current_chain cfg (pr_run_id q) current revs) (\<lambda>_. ?P)" for f
    unfolding except_storage_def
    by (rule holds_except [OF holds_conseq [OF holds_current_chain]]) (auto simp: holds_def raiseIO_def)
  have last: "holds (\<lambda>s. ?P s \<and> chain = current_chain cfg (pr_run_id q) current revs)
      (bindIO filesIO (\<lambda>fs. retIO (fs, chain)))
      (\<lambda>(fs, chain) s. ?P s \<and> chain = current_chain cfg (pr_run_id q) current revs) (\<lambda>_. ?P)" for chain
    by (simp add: holds_def bindIO_def filesIO_def retIO_def)
  show ?thesis
    unfolding check_admission_def
    by (rule holds_then [OF stableD], simp, rule holds_then [OF stableD], rule stable_except_storage, simp,
        rule holds_bind [OF chain], rule last)
qed

lemma idempotency_unchanged: "idempotency_outcome pp chain = Inl e \<Longrightarrow> unchanged_error e"
proof -
  have "plainE (bindE (run_id_sha256 r) (\<lambda>_. bindE (model publish_outcome_ok c) (\<lambda>out. Inr (Some out))))" for r c
    by (intro plain) simp
  then show "idempotency_outcome pp chain = Inl e \<Longrightarrow> unchanged_error e"
    by (auto simp: idempotency_outcome_def Let_def unchanged_failure plainE_def
        split: option.splits prod.splits if_splits)
qed

lemma idempotency_kind:
  assumes "idempotency_outcome pp chain = Inr (Some x)" and "undisturbed cfg current revs s"
  shows "report cfg pp current revs x s"
  using assms quiet_not_advanced [OF assms(2), of pp]
  by (auto simp: idempotency_outcome_def Let_def report_def outcome_ok_def bindE_Inr
      split: option.splits prod.splits if_splits)

lemma orphan_unchanged: "replay_orphan_effect cfg pp s = Inl e \<Longrightarrow> unchanged_error e"
  by (auto simp: replay_orphan_effect_def Let_def unchanged_failure
      split: list.splits prod.splits sum.splits if_splits)

lemma orphan_none:
  assumes "replay_orphan_effect cfg pp s = Inr None" and "undisturbed cfg current revs s"
  shows "pr_transaction_id (pp_request pp) \<notin> (snd \<circ> fst) ` set revs"
proof -
  have "orphan_candidates (pr_transaction_id (pp_request pp)) s = []"
    using assms(1)
    by (auto simp: replay_orphan_effect_def Let_def split: list.splits prod.splits sum.splits if_splits)
  then show ?thesis using assms(2) by (auto simp: orphan_candidates_def undisturbed_def filter_empty_conv)
qed

lemma plain_orphan [plain, simp]: "plainE (orphan_outcome pp chain effect)"
  unfolding orphan_outcome_def Let_def by (intro plain)

lemma orphan_kind:
  assumes "orphan_outcome pp chain effect = Inr x" and "undisturbed cfg current revs s"
  shows "report cfg pp current revs x s"
  using assms quiet_not_advanced [OF assms(2), of pp]
  by (auto simp: orphan_outcome_def Let_def report_def outcome_ok_def bindE_Inr)

lemma publish_new_conflict:
  assumes "\<not> cas_matches (pp_request pp) chain"
  shows "holds (undisturbed cfg current revs) (publish_new cfg pp chain changed bytes owner time)
    (report cfg pp current revs) (refusal_report cfg pp current revs)"
proof -
  have "holds (undisturbed cfg current revs) (refuse q f) (report cfg pp current revs) (refusal_report cfg pp current revs)"
    if "rf_domain_effect f = DE_current_unchanged" for q f
    unfolding refuse_def
    by (rule holds_pre [OF _ holds_raise [where E = "refusal_report cfg pp current revs"]])
      (simp add: refusal_report_def error_before quiet_not_advanced unchanged_failure that)
  then show ?thesis using assms by (simp add: publish_new_def Let_def)
qed

lemma publish_locked_holds:
  assumes ok: "prepared_ok pp" and names: "admitted_names (pp_inventories pp)"
  shows "holds (undisturbed cfg current revs) (publish_locked cfg pp changed owner time)
    (report cfg pp current revs) (refusal_report cfg pp current revs)"
proof -
  let ?q = "pp_request pp" and ?P = "undisturbed cfg current revs" and ?Q = "report cfg pp current revs"
  let ?E = "refusal_report cfg pp current revs" and ?chain = "current_chain cfg (pr_run_id (pp_request pp)) current revs"
  have admission: "holds ?P (check_admission cfg ?q changed) (\<lambda>(fs, chain) s. ?P s \<and> chain = ?chain) ?E"
    by (rule holds_still [OF check_admission_holds throws_admission])
  have still: "stable ?P m \<Longrightarrow> throws unchanged_error m \<Longrightarrow> holds ?P m (\<lambda>_. ?P) ?E" for m :: "'x io"
    by (rule holds_still [OF stableD])
  have counted: "holds ?P (count_bytes ?q c eff) (\<lambda>_. ?P) ?E" for c eff
    by (intro holds_still [OF stableD] throws) simp
  have refused: "holds ?P (refuse ?q f) Q ?E" if "rf_domain_effect f = DE_current_unchanged" for f and Q :: "publish_outcome \<Rightarrow> run_files \<Rightarrow> bool"
    unfolding refuse_def
    by (rule holds_pre [OF _ holds_raise [where E = ?E]])
      (simp add: refusal_report_def error_before quiet_not_advanced unchanged_failure that)
  have idem: "holds ?P (liftIO (idempotency_outcome pp c))
      (\<lambda>x s. ?P s \<and> (case x of None \<Rightarrow> True | Some out \<Rightarrow> ?Q out s)) ?E" for c
    by (rule holds_still)
      (auto intro!: holds_pre [OF _ holds_lift] throws_lift idempotency_unchanged
        simp: idempotency_kind split: sum.split option.split)
  have orphan: "holds ?P (observe (replay_orphan_effect cfg pp))
      (\<lambda>x s. ?P s \<and> (x = None \<longrightarrow> pr_transaction_id ?q \<notin> (snd \<circ> fst) ` set revs)) ?E"
  proof (rule holds_still)
    show "holds ?P (observe (replay_orphan_effect cfg pp))
      (\<lambda>x s. ?P s \<and> (x = None \<longrightarrow> pr_transaction_id ?q \<notin> (snd \<circ> fst) ` set revs)) (\<lambda>_. ?P)"
      by (rule holds_observe) (use orphan_none in blast)+
    show "throws unchanged_error (observe (replay_orphan_effect cfg pp))"
      by (rule throws_observe) (rule orphan_unchanged)
  qed
  have orphaned: "holds ?P (liftIO (orphan_outcome pp c eff)) ?Q ?E" for c eff
    by (rule holds_still) (auto intro!: holds_pre [OF _ holds_lift] throws simp: orphan_kind split: sum.split)
  have new: "holds (\<lambda>s. ?P s \<and> pr_transaction_id ?q \<notin> (snd \<circ> fst) ` set revs)
      (publish_new cfg pp ?chain changed bytes owner time) ?Q ?E" for bytes
  proof (cases "eligible cfg pp current revs")
    case True
    show ?thesis
      by (rule holds_conseq [OF publish_new_holds [OF ok names]]) (auto simp: report_def refusal_report_def True)
  next
    case False
    show ?thesis
    proof (cases "cas_matches ?q ?chain")
      case True
      with False show ?thesis by (auto simp: eligible_def holds_def)
    next
      case conflict: False
      show ?thesis by (rule holds_pre [OF _ publish_new_conflict [OF conflict]]) simp
    qed
  qed
  have rest: "holds (\<lambda>s. ?P s \<and> chain = ?chain)
      (bindIO (count_bytes ?q chain eff) (\<lambda>current_bytes.
      if sc_max_run_bytes cfg < current_bytes
      then refuse ?q (admission_failure ?q R_RUN_BUDGET_EXCEEDED chain eff)
      else bindIO (liftIO (idempotency_outcome pp chain)) (\<lambda>idempotent.
      case idempotent of Some outcome \<Rightarrow> retIO outcome
      | None \<Rightarrow> bindIO (observe (replay_orphan_effect cfg pp)) (\<lambda>orphan.
      case orphan of Some orphan_effect \<Rightarrow> liftIO (orphan_outcome pp chain orphan_effect)
      | None \<Rightarrow> publish_new cfg pp chain changed current_bytes owner time)))) ?Q ?E" for chain eff
  proof (cases "chain = ?chain")
    case True
    have after: "holds (\<lambda>s. ?P s \<and> (x = None \<longrightarrow> pr_transaction_id ?q \<notin> (snd \<circ> fst) ` set revs))
        (case x of Some orphan_effect \<Rightarrow> liftIO (orphan_outcome pp chain orphan_effect)
         | None \<Rightarrow> publish_new cfg pp chain changed bytes owner time) ?Q ?E" for x bytes
      using new orphaned True by (cases x) simp_all
    have "holds ?P (bindIO (observe (replay_orphan_effect cfg pp)) (\<lambda>orphan.
      case orphan of Some orphan_effect \<Rightarrow> liftIO (orphan_outcome pp chain orphan_effect)
      | None \<Rightarrow> publish_new cfg pp chain changed bytes owner time)) ?Q ?E" for bytes
      by (rule holds_bind [OF orphan after])
    then have found: "holds (\<lambda>s. ?P s \<and> (case x of None \<Rightarrow> True | Some out \<Rightarrow> ?Q out s))
        (case x of Some outcome \<Rightarrow> retIO outcome
      | None \<Rightarrow> bindIO (observe (replay_orphan_effect cfg pp)) (\<lambda>orphan.
      case orphan of Some orphan_effect \<Rightarrow> liftIO (orphan_outcome pp chain orphan_effect)
      | None \<Rightarrow> publish_new cfg pp chain changed bytes owner time)) ?Q ?E" for x bytes
      by (cases x) (simp_all add: holds_def retIO_def)
    show ?thesis
      by (rule holds_pre [where P' = ?P], simp, rule holds_bind [OF counted], rule holds_if, rule refused, simp,
          rule holds_bind [OF idem found])
  qed (simp add: holds_def)
  show ?thesis
    unfolding publish_locked_def Let_def
    by (rule holds_bind [OF admission]) (simp add: rest split: prod.split)
qed

section \<open>The whole call\<close>

lemma release_after_holds:
  assumes m: "holds P m Q E" and Q: "\<And>x s. Q x s \<Longrightarrow> E (run_failure_error (pr_run_id q) (release_failure q changed (Inr x))) s"
    and E: "\<And>e s. E e s \<Longrightarrow> E (run_failure_error (pr_run_id q) (release_failure q changed (Inl e))) s"
    and K: "\<And>x s. Q x s \<Longrightarrow> E Killed s" "\<And>e s. E e s \<Longrightarrow> E Killed s"
  shows "holds P (release_after q changed m) Q E"
  unfolding holds_def
proof (intro allI impI)
  fix w :: world
  assume P: "P (w_files w)"
  obtain r w1 where w1: "m w = (r, w1)" by (cases "m w")
  obtain l w2 where w2: "lease_release w1 = (l, w2)" by (cases "lease_release w1")
  have same: "w_files w2 = w_files w1"
    using stable_readers(5) [of "\<lambda>s. s = w_files w1"] w2
    unfolding stable_def by (cases l) (auto dest: holds_Inr holds_Inl)
  show "case release_after q changed m w of (Inr x, w1) \<Rightarrow> Q x (w_files w1) | (Inl e, w1) \<Rightarrow> E e (w_files w1)"
  proof (cases r)
    case (Inl e)
    then have "E e (w_files w1)" using holds_Inl [OF m P] w1 by blast
    then show ?thesis
      using w1 w2 same Inl E [of e "w_files w1"] K(2) [of e "w_files w1"]
      by (cases e; cases l) (auto simp: release_after_def refuse_def raiseIO_def split: storage_exn.split)
  next
    case (Inr x)
    then have "Q x (w_files w1)" using holds_Inr [OF m P] w1 by blast
    then show ?thesis
      using w1 w2 same Inr Q [of x "w_files w1"] K(1) [of x "w_files w1"]
      by (cases l) (auto simp: release_after_def refuse_def raiseIO_def split: storage_exn.split)
  qed
qed

lemma release_fields [simp]:
  "rf_stage (release_failure q changed r) = St_lock_release"
  "rf_domain_effect (release_failure q changed (Inr c)) = oc_domain_effect c"
  "rf_domain_effect (release_failure q changed (Inl e)) = (case e of Run_error f \<Rightarrow> rf_domain_effect f | _ \<Rightarrow> DE_current_unchanged)"
  by (simp_all add: release_failure_def publish_failure_def plain_run_failure_def)

lemma failure_run_error:
  "run_failure_error r f = Run_error g \<Longrightarrow> rf_domain_effect g = rf_domain_effect f \<and> rf_stage g = rf_stage f"
  using plain_names(3) [of r] by (auto simp: run_failure_error_def plainE_def split: sum.splits)

lemma error_release:
  assumes "not_advanced cfg pp current revs s \<or> advanced cfg pp revs s" and "rf_stage f = St_lock_release"
    and "rf_domain_effect f = DE_current_advanced \<Longrightarrow> advanced cfg pp revs s"
  shows "error_ok cfg pp current revs (run_failure_error r f) s"
  using assms by (auto simp: error_ok_def dest: failure_run_error)

lemma publish_run_holds:
  assumes pre: "publish_preflight cfg q = Inr pp"
  shows "holds (undisturbed cfg current revs) (publish_run cfg q owner time)
    (report cfg pp current revs) (refusal_report cfg pp current revs)"
proof -
  from prepareE [OF preflight_prepare [OF pre]] obtain heads where q: "pp_request pp = q"
    and ok: "prepared_ok pp"
    and inv: "build_inventory (sc_admission cfg) q (sc_max_artifact_bytes cfg) = Inr (pp_inventories pp, heads)"
    by metis
  have names: "admitted_names (pp_inventories pp)" by (rule inventory_admitted [OF inv])
  let ?P = "undisturbed cfg current revs" and ?Q = "report cfg pp current revs" and ?E = "refusal_report cfg pp current revs"
  have locked: "holds ?P (release_after q changed (publish_locked cfg pp changed owner time)) ?Q ?E" for changed
  proof (rule release_after_holds [OF publish_locked_holds [OF ok names]])
    fix x s
    assume "?Q x s"
    then have "?E (run_failure_error (pr_run_id q) (release_failure q changed (Inr x))) s \<and> ?E Killed s"
      by (auto simp: report_def refusal_report_def outcome_ok_def error_ok_def split: if_splits intro: error_release
          dest: failure_run_error)
    then show "?E (run_failure_error (pr_run_id q) (release_failure q changed (Inr x))) s" "?E Killed s" by simp_all
  next
    fix e s
    assume "?E e s"
    then have "?E (run_failure_error (pr_run_id q) (release_failure q changed (Inl e))) s \<and> ?E Killed s"
      by (auto simp: refusal_report_def error_ok_def split: storage_exn.splits dest!: failure_run_error)
    then show "?E (run_failure_error (pr_run_id q) (release_failure q changed (Inl e))) s" "?E Killed s" by simp_all
  qed
  have still: "stable ?P m \<Longrightarrow> throws unchanged_error m \<Longrightarrow> holds ?P m (\<lambda>_. ?P) ?E" for m :: "unit io"
    by (rule holds_still [OF stableD])
  have auth: "holds ?P (authority (pr_run_id q)) (\<lambda>_. ?P) ?E"
  proof (rule holds_still [OF stableD [OF stable_authority]])
    show "throws unchanged_error (authority (pr_run_id q))"
      unfolding authority_def
      by (rule throws_except [OF throws_acquire])
        (auto simp: unchanged_failure split: storage_exn.split option.split boundary.split)
  qed
  have bad: "holds ?P (refuse q f) ?Q ?E" if "rf_domain_effect f = DE_current_unchanged" for f
    unfolding refuse_def
    by (rule holds_pre [OF _ holds_raise [where E = ?E]])
      (simp add: refusal_report_def error_before quiet_not_advanced unchanged_failure that)
  have start: "holds ?P (thenIO (ownership (pr_run_id q))
    (if \<not> is_owner_token owner
     then refuse q ((plain_run_failure R_INTERNAL_INVARIANT_ERROR St_preflight)
       \<lparr>rf_transaction_id := Some (pr_transaction_id q)\<rparr>)
     else thenIO os_call
       (bindIO (authority (pr_run_id q)) (\<lambda>changed.
          release_after q changed (publish_locked cfg pp changed owner time))))) ?Q ?E"
    by (rule holds_then [OF still], simp, simp, rule holds_if, rule bad, simp,
        rule holds_then [OF still], simp, simp, rule holds_bind [OF auth locked])
  then show ?thesis
    unfolding publish_run_def pre by (simp add: holds_def bindIO_def liftIO_def)
qed

lemma publish_run_refused: "publish_preflight cfg q = Inl e \<Longrightarrow> publish_run cfg q owner time w = (Inl e, w)"
  by (simp add: publish_run_def bindIO_def liftIO_def)

end
