(* ===== verification/RevisionLog.thy ===== *)
theory RevisionLog
  imports RevisionPublish
begin

text \<open>
  The contract of the store.  Abstractly a run is a log of chain entries, newest first, and a
  publication either leaves it alone or puts one entry in front of it whose revision is the
  next number and whose expectations are the head it replaces (\<open>log_step\<close>).  The lemmas
  connect the reports of \<open>publish\<close> with the step that happened.
\<close>

definition entry_manifest :: "chain_entry \<Rightarrow> manifest" where "entry_manifest e = fst (snd e)"
definition entry_sha256 :: "chain_entry \<Rightarrow> string" where "entry_sha256 e = fst (snd (snd e))"

definition head_sha256 :: "chain_entry list \<Rightarrow> string option" where
  "head_sha256 h = (case h of [] \<Rightarrow> None | e # _ \<Rightarrow> Some (entry_sha256 e))"

definition log_append :: "publish_revision \<Rightarrow> chain_entry \<Rightarrow> chain_entry list \<Rightarrow> bool" where
  "log_append q e h \<longleftrightarrow>
     entry_revision e = int (length h) + 1 \<and> pr_proposed_revision q = int (length h) + 1 \<and>
     re_transaction_id (fst e) = pr_transaction_id q \<and> pr_expected_manifest_sha256 q = head_sha256 h \<and>
     mf_previous_manifest_sha256 (entry_manifest e) = head_sha256 h \<and> mf_created_at (entry_manifest e) = pr_created_at q"

definition log_step :: "publish_revision \<Rightarrow> chain_entry list \<Rightarrow> chain_entry list \<Rightarrow> bool" where
  "log_step q h h' \<longleftrightarrow> h' = h \<or> (\<exists>e. h' = e # h \<and> log_append q e h)"

section \<open>What a publication did\<close>

lemma eligible_append:
  assumes ok: "store_ok cfg run_id fs" and run: "run_id = pr_run_id (pp_request pp)" and pp: "prepared_ok pp"
    and el: "eligible cfg pp (fs_current fs) (fs_revisions fs)"
  shows "log_append (pp_request pp) (new_entry pp) (history cfg run_id fs)"
proof -
  let ?q = "pp_request pp"
  have m: "pp_manifest pp = manifest_of ?q (pp_transaction pp)" using pp by (simp add: prepared_ok_def)
  have head: "pr_proposed_revision ?q = int (length (history cfg run_id fs)) + 1 \<and>
      pr_expected_manifest_sha256 ?q = head_sha256 (history cfg run_id fs)"
  proof (cases "fs_current fs = None")
    case True
    then show ?thesis
      using el by (simp add: eligible_def current_chain_def cas_matches_def history_none head_sha256_def)
  next
    case False
    then obtain c where c: "chain_core cfg run_id (fs_current fs) (fs_revisions fs) = Inr c"
      using ok by (auto simp: store_ok_def)
    have "history cfg run_id fs = vc_entries c"
      by (rule history_chain [OF _ c]) (use ok in \<open>simp add: store_ok_def\<close>)
    moreover have "vc_entries c = hd (vc_entries c) # tl (vc_entries c)" using chain_not_empty [OF c] by simp
    ultimately show ?thesis
      using el False c chain_length [OF c]
      by (cases "vc_entries c") (simp_all add: eligible_def current_chain_def cas_matches_def run head_sha256_def entry_sha256_def)
  qed
  moreover have "mf_previous_manifest_sha256 (manifest_of ?q t) = pr_expected_manifest_sha256 ?q"
    "mf_created_at (manifest_of ?q t) = pr_created_at ?q" "mf_revision (manifest_of ?q t) = pr_proposed_revision ?q"
    "mf_transaction_id (manifest_of ?q t) = pr_transaction_id ?q" for t
    by (simp_all add: manifest_of_def)
  ultimately show ?thesis
    by (simp add: log_append_def new_entry_def entry_revision_def entry_manifest_def reachable_of_def m)
qed

definition published_effect :: "store_config \<Rightarrow> prepared_revision \<Rightarrow> run_files \<Rightarrow> run_files \<Rightarrow> bool" where
  "published_effect cfg pp fs fs1 \<longleftrightarrow> (let run_id = pr_run_id (pp_request pp) in
     log_append (pp_request pp) (new_entry pp) (history cfg run_id fs) \<and>
     history cfg run_id fs1 = new_entry pp # history cfg run_id fs)"

definition ready :: "store_config \<Rightarrow> prepared_revision \<Rightarrow> run_files \<Rightarrow> bool" where
  "ready cfg pp fs \<longleftrightarrow> store_ok cfg (pr_run_id (pp_request pp)) fs \<and> prepared_ok pp \<and>
     int (length (pp_pointer_bytes pp)) \<le> sc_max_artifact_bytes cfg \<and> unambiguous (fs_revisions fs)"

definition traced :: "store_config \<Rightarrow> prepared_revision \<Rightarrow> run_files \<Rightarrow> run_files \<Rightarrow> bool" where
  "traced cfg pp fs fs1 \<longleftrightarrow>
     eligible cfg pp (fs_current fs) (fs_revisions fs) \<or> undisturbed cfg (fs_current fs) (fs_revisions fs) fs1"

lemma not_advanced_history:
  assumes ready: "ready cfg pp fs" and traced: "traced cfg pp fs fs1"
    and na: "not_advanced cfg pp (fs_current fs) (fs_revisions fs) fs1"
  shows "store_ok cfg (pr_run_id (pp_request pp)) fs1 \<and>
    history cfg (pr_run_id (pp_request pp)) fs1 = history cfg (pr_run_id (pp_request pp)) fs"
proof -
  have store: "store_ok cfg (pr_run_id (pp_request pp)) fs" using ready by (simp add: ready_def)
  show ?thesis
  proof (cases "undisturbed cfg (fs_current fs) (fs_revisions fs) fs1")
    case True
    then show ?thesis using history_quiet [OF store] by blast
  next
    case False
    then obtain d where d: "eligible cfg pp (fs_current fs) (fs_revisions fs)" "new_verified cfg pp d"
      "undisturbed cfg (fs_current fs) (fs_revisions fs @ [new_revision pp d]) fs1"
      using traced na by (auto simp: traced_def not_advanced_def unreferenced_def)
    show ?thesis using history_unreferenced [OF store refl d] by simp
  qed
qed

lemma advanced_history:
  assumes ready: "ready cfg pp fs" and traced: "traced cfg pp fs fs1" and adv: "advanced cfg pp (fs_revisions fs) fs1"
  shows "store_ok cfg (pr_run_id (pp_request pp)) fs1 \<and> published_effect cfg pp fs fs1"
proof -
  from adv obtain d where d: "new_verified cfg pp d"
    "undisturbed cfg (Some (pp_pointer_bytes pp)) (fs_revisions fs @ [new_revision pp d]) fs1"
    by (auto simp: advanced_def)
  then have "\<not> undisturbed cfg (fs_current fs) (fs_revisions fs) fs1" by (auto simp: undisturbed_def)
  with traced have el: "eligible cfg pp (fs_current fs) (fs_revisions fs)" by (simp add: traced_def)
  have r: "store_ok cfg (pr_run_id (pp_request pp)) fs" "prepared_ok pp" "unambiguous (fs_revisions fs)"
    "int (length (pp_pointer_bytes pp)) \<le> sc_max_artifact_bytes cfg"
    using ready by (simp_all add: ready_def)
  show ?thesis
    using history_advanced [OF r(1) refl r(2) r(4) el r(3) d] eligible_append [OF r(1) refl r(2) el]
    by (simp add: published_effect_def Let_def)
qed

lemma report_history:
  assumes "ready cfg pp fs" and "report cfg pp (fs_current fs) (fs_revisions fs) x fs1"
  shows "store_ok cfg (pr_run_id (pp_request pp)) fs1" and "publish_outcome_ok x"
    and "oc_kind x = Published \<Longrightarrow> published_effect cfg pp fs fs1"
    and "oc_kind x \<noteq> Published \<Longrightarrow>
      history cfg (pr_run_id (pp_request pp)) fs1 = history cfg (pr_run_id (pp_request pp)) fs"
  using assms(2) not_advanced_history [OF assms(1), of fs1] advanced_history [OF assms(1), of fs1]
  by (auto simp: report_def outcome_ok_def traced_def split: if_splits)

lemma refusal_history:
  assumes "ready cfg pp fs" and "refusal_report cfg pp (fs_current fs) (fs_revisions fs) e fs1"
  shows "store_ok cfg (pr_run_id (pp_request pp)) fs1"
    and "published_effect cfg pp fs fs1 \<or>
      history cfg (pr_run_id (pp_request pp)) fs1 = history cfg (pr_run_id (pp_request pp)) fs"
    and "e = Run_error f \<Longrightarrow> rf_domain_effect f = DE_current_advanced \<Longrightarrow> published_effect cfg pp fs fs1"
    and "e = Run_error f \<Longrightarrow> rf_domain_effect f = DE_current_unchanged \<Longrightarrow> rf_stage f \<notin> {St_preflight, St_lock_release} \<Longrightarrow>
      history cfg (pr_run_id (pp_request pp)) fs1 = history cfg (pr_run_id (pp_request pp)) fs"
  using assms(2) not_advanced_history [OF assms(1), of fs1] advanced_history [OF assms(1), of fs1]
  by (auto simp: refusal_report_def error_ok_def traced_def)

section \<open>One publication\<close>

lemma preflight_ready:
  assumes pre: "publish_preflight cfg q = Inr pp" and "store_ok cfg (pr_run_id q) fs" and "unambiguous (fs_revisions fs)"
  shows "ready cfg pp fs" and "pp_request pp = q"
proof -
  from prepareE [OF preflight_prepare [OF pre]] show q: "pp_request pp = q" by metis
  from prepareE [OF preflight_prepare [OF pre]] have "prepared_ok pp \<and> int (length (pp_pointer_bytes pp)) \<le> sc_max_artifact_bytes cfg"
    by metis
  then show "ready cfg pp fs" using assms(2,3) q by (simp add: ready_def)
qed

lemma publish_run_reports:
  assumes pre: "publish_preflight cfg q = Inr pp" and ok: "store_ok cfg (pr_run_id q) (w_files w)"
    and run: "publish_run cfg q owner time w = (r, w1)"
  shows "case r of Inl e \<Rightarrow> refusal_report cfg pp (fs_current (w_files w)) (fs_revisions (w_files w)) e (w_files w1)
    | Inr x \<Rightarrow> report cfg pp (fs_current (w_files w)) (fs_revisions (w_files w)) x (w_files w1)"
  using publish_run_holds [OF pre, of "fs_current (w_files w)" "fs_revisions (w_files w)" owner time]
    store_quiet [OF ok] run
  by (auto simp: holds_def split: sum.splits dest!: spec [of _ w])

lemma log_step_same: "h' = h \<Longrightarrow> log_step q h h'" by (simp add: log_step_def)

lemma effect_step: "published_effect cfg pp fs fs1 \<Longrightarrow> pp_request pp = q \<Longrightarrow>
    log_step q (history cfg (pr_run_id q) fs) (history cfg (pr_run_id q) fs1)"
  unfolding published_effect_def log_step_def Let_def by blast

lemma publish_run_step:
  assumes ok: "store_ok cfg (pr_run_id q) (w_files w)" and free: "unambiguous (fs_revisions (w_files w))"
    and run: "publish_run cfg q owner time w = (r, w1)"
  shows "store_ok cfg (pr_run_id q) (w_files w1) \<and>
    log_step q (history cfg (pr_run_id q) (w_files w)) (history cfg (pr_run_id q) (w_files w1))"
proof (cases "publish_preflight cfg q")
  case (Inl e)
  then show ?thesis using run ok by (simp add: publish_run_refused log_step_def)
next
  case (Inr pp)
  note ready = preflight_ready [OF Inr ok free]
  show ?thesis
  proof (cases r)
    case (Inl e)
    then have "refusal_report cfg pp (fs_current (w_files w)) (fs_revisions (w_files w)) e (w_files w1)"
      using publish_run_reports [OF Inr ok run] by simp
    from refusal_history(1,2) [OF ready(1) this] show ?thesis
      using ready(2) by (auto intro: effect_step log_step_same)
  next
    case out: (Inr x)
    then have "report cfg pp (fs_current (w_files w)) (fs_revisions (w_files w)) x (w_files w1)"
      using publish_run_reports [OF Inr ok run] by simp
    from report_history [OF ready(1) this] show ?thesis
      using ready(2) by (cases "oc_kind x = Published") (auto intro: effect_step log_step_same)
  qed
qed

section \<open>Sequences of publications\<close>

text \<open>
  The states a run's files can go through: any requests of the run, any decisions of the
  operating system and any ends of the process, as long as no two of the manifests written collide.
\<close>

inductive publishes :: "store_config \<Rightarrow> string \<Rightarrow> run_files \<Rightarrow> run_files \<Rightarrow> bool" for cfg run_id where
  "pr_run_id q = run_id \<Longrightarrow> publish_run cfg q owner time \<lparr>w_files = fs, w_decisions = ds\<rparr> = (r, w1) \<Longrightarrow>
   unambiguous (fs_revisions fs) \<Longrightarrow> publishes cfg run_id fs (w_files w1)"

inductive_cases publishesE: "publishes cfg run_id fs fs1"

text \<open>A log that steps of the store only ever extend.\<close>

locale append_log =
  fixes valid :: "'s \<Rightarrow> bool" and log :: "'s \<Rightarrow> 'e list" and step :: "'s \<Rightarrow> 's \<Rightarrow> bool" and number :: "'e \<Rightarrow> int"
  assumes keeps: "step s t \<Longrightarrow> valid s \<Longrightarrow> valid t"
    and appends: "step s t \<Longrightarrow> valid s \<Longrightarrow> log t = log s \<or> (\<exists>e. log t = e # log s \<and> number e = int (length (log s)) + 1)"
begin

lemma keeps_all: "step\<^sup>*\<^sup>* s t \<Longrightarrow> valid s \<Longrightarrow> valid t"
  by (induction rule: rtranclp_induct) (auto intro: keeps)

lemma only_grows: "step\<^sup>*\<^sup>* s t \<Longrightarrow> valid s \<Longrightarrow> \<exists>new. log t = new @ log s"
proof (induction rule: rtranclp_induct)
  case (step t u)
  then have "valid t" using keeps_all by blast
  with step show ?case using appends [of t u] by (metis append_Cons)
qed simp

lemma numbered:
  assumes "step\<^sup>*\<^sup>* s t" and "valid s" and "map number (log s) = countdown (int (length (log s)))"
  shows "map number (log t) = countdown (int (length (log t)))"
  using assms
proof (induction rule: rtranclp_induct)
  case (step t u)
  then have "valid t" using keeps_all by blast
  from appends [OF step(2) this] show ?case
  proof
    assume "log u = log t"
    then show ?thesis using step by simp
  next
    assume "\<exists>e. log u = e # log t \<and> number e = int (length (log t)) + 1"
    then obtain e where "log u = e # log t" "number e = int (length (log t)) + 1" by blast
    then show ?thesis using step countdown_step [of "int (length (log t)) + 1"]
      by (cases "log t") (simp_all add: countdown_def)
  qed
qed

end

lemma publishes_step:
  assumes "publishes cfg run_id fs fs1" and "store_ok cfg run_id fs"
  shows "store_ok cfg run_id fs1 \<and> (history cfg run_id fs1 = history cfg run_id fs \<or>
    (\<exists>e. history cfg run_id fs1 = e # history cfg run_id fs \<and> entry_revision e = int (length (history cfg run_id fs)) + 1))"
  using assms(1)
proof (rule publishesE)
  fix q owner time ds r w1
  assume run: "fs1 = w_files w1" "pr_run_id q = run_id"
    "publish_run cfg q owner time \<lparr>w_files = fs, w_decisions = ds\<rparr> = (r, w1)" "unambiguous (fs_revisions fs)"
  with publish_run_step [of cfg q "\<lparr>w_files = fs, w_decisions = ds\<rparr>" owner time r w1] assms(2) show ?thesis
    unfolding log_step_def log_append_def by auto
qed

interpretation run: append_log "store_ok cfg run_id" "history cfg run_id" "publishes cfg run_id" entry_revision
  for cfg run_id
  by unfold_locales (blast dest: publishes_step)+

end
