(* ===== verification/RevisionReplay.thy ===== *)
theory RevisionReplay
  imports RevisionLog
begin

text \<open>
  Writing and verifying are inverse: the directory a canonical request is staged as passes
  \<open>_verify_revision_directory\<close>, which rebuilds the request from the stored bytes and admits it again.
  A request is canonical when its artifacts are in payload order and their bindings in
  binding order, the order in which both are stored.
\<close>

definition order_key :: "artifact \<Rightarrow> nat \<times> string" where
  "order_key a = projr (payload_order_key (ar_logical_name a))"

definition canonical_request :: "publish_revision \<Rightarrow> bool" where
  "canonical_request q \<longleftrightarrow> sorted (map order_key (pr_artifacts q)) \<and>
     list_all (\<lambda>a. sort_bindings (ar_provenance_bindings a) = ar_provenance_bindings a) (pr_artifacts q)"

definition stored_exactly :: "prepared_revision \<Rightarrow> rev_dir \<Rightarrow> bool" where
  "stored_exactly pp d \<longleftrightarrow> staged_control pp d \<and>
     (\<exists>files. rd_payload d = Some files \<and>
        set (map fst files) = set (map ar_logical_name (pr_artifacts (pp_request pp))) \<and>
        (\<forall>a\<in>set (pr_artifacts (pp_request pp)). map_of files (ar_logical_name a) = Some (ar_exact_bytes a))) \<and>
     set (rd_payload_dirs d) = set (concat (map (parent_dirs \<circ> ar_logical_name) (pr_artifacts (pp_request pp))))"

section \<open>The inventory of a canonical request\<close>

definition admitted :: "admission \<Rightarrow> string \<Rightarrow> int \<Rightarrow> artifact \<Rightarrow> inventory_entry \<Rightarrow> bool" where
  "admitted ad run_id limit a e \<longleftrightarrow> validate_artifact ad a run_id limit = Inr () \<and> inventory_of_artifact a = Inr e"

lemma unit_Inr: "(\<exists>u. m = Inr (u :: unit) \<and> P) \<longleftrightarrow> m = Inr () \<and> P" by auto

lemma admit_all:
  "foldE (admit_artifact ad q limit) es as = Inr es' \<Longrightarrow>
   \<exists>new. es' = es @ new \<and> list_all2 (admitted ad (pr_run_id q) limit) as new"
proof (induction as arbitrary: es)
  case (Cons a as)
  then obtain es1 where one: "admit_artifact ad q limit es a = Inr es1"
    and rest: "foldE (admit_artifact ad q limit) es1 as = Inr es'" by (auto simp: bindE_Inr)
  from one obtain e where e: "es1 = es @ [e]" "admitted ad (pr_run_id q) limit a e"
    by (auto simp: admit_artifact_def bindE_Inr admitted_def split: if_splits)
  from Cons.IH [OF rest] e show ?case by auto
qed simp

lemma build_inventory_canonical:
  assumes "build_inventory ad q limit = Inr (es, heads)" and "sorted (map order_key (pr_artifacts q))"
  shows "list_all2 (admitted ad (pr_run_id q) limit) (pr_artifacts q) es" and "provenance_heads es = Inr heads"
proof -
  have "sort_key (\<lambda>a. projr (payload_order_key (ar_logical_name a))) (pr_artifacts q) = pr_artifacts q"
    using assms(2) by (intro sort_key_id_if_sorted) (simp add: order_key_def [abs_def])
  then have fold: "foldE (admit_artifact ad q limit) [] (pr_artifacts q) = Inr es" "provenance_heads es = Inr heads"
    using assms(1) by (auto simp: build_inventory_def bindE_Inr Let_def split: if_splits)
  from admit_all [OF fold(1)] show "list_all2 (admitted ad (pr_run_id q) limit) (pr_artifacts q) es" by simp
  show "provenance_heads es = Inr heads" by (rule fold(2))
qed

lemma canonicalize_id: "canonicalize_bindings bs = Inr bs' \<Longrightarrow> bs' = sort_bindings bs"
  by (auto simp: canonicalize_bindings_def bindE_Inr Let_def)

lemma inventory_fields:
  assumes "inventory_of_artifact a = Inr e"
  shows "ie_logical_name e = ar_logical_name a" "ie_revision_relative_path e = ''payload/'' @ ar_logical_name a"
    "ie_media_type e = ar_media_type a" "ie_artifact_schema_version e = ar_artifact_schema_version a"
    "ie_serialization e = ar_serialization a" "ie_size_bytes e = int (length (ar_exact_bytes a))"
    "ie_sha256 e = sha256_bytes (ar_exact_bytes a)" "ie_required e = ar_required a"
    "ie_classification e = ar_classification a" "ie_classification_source e = ar_classification_source a"
    "ie_classification_evidence e = ar_classification_evidence a"
    "ie_provenance_bindings e = sort_bindings (ar_provenance_bindings a)"
  using assms by (auto simp: inventory_of_artifact_def bindE_Inr Let_def split: if_splits dest: canonicalize_id)

lemma entry_without_version:
  "fixed_entry n (Some v) x = Inr e \<Longrightarrow> n \<noteq> ''final_report.json'' \<Longrightarrow> fixed_entry n None x = Inr e"
  "variable_entry (Some v) i sc og = Inr e \<Longrightarrow> variable_entry None i sc og = Inr e"
  by (auto simp: fixed_entry_def variable_entry_def bindE_Inr Let_def split: if_splits)

lemma table_without_version:
  assumes "artifact_table_entry n (Some v) = Inr e" and "n \<noteq> ''final_report.json''"
  shows "artifact_table_entry n None = Inr e"
  using assms
  by (cases "map_of FIXED_ARTIFACT_TABLE n"; cases "affixed ''agent_reports/'' ''.json'' n";
      cases "affixed ''tool_results/'' ''.input.json'' n"; cases "affixed ''tool_results/'' ''.json'' n")
    (auto simp: artifact_table_entry_def bindE_Inr dest: entry_without_version)

lemma verify_admitted:
  assumes adm: "admitted (sc_admission cfg) run_id (sc_max_artifact_bytes cfg) a e"
    and sorted: "sort_bindings (ar_provenance_bindings a) = ar_provenance_bindings a"
    and stored: "rd_payload d = Some files" "map_of files (ar_logical_name a) = Some (ar_exact_bytes a)"
  shows "verify_inventory_entry cfg run_id d e = Inr a"
proof -
  have v: "validate_artifact (sc_admission cfg) a run_id (sc_max_artifact_bytes cfg) = Inr ()"
    and i: "inventory_of_artifact a = Inr e" using adm by (simp_all add: admitted_def)
  note f = inventory_fields [OF i]
  from v have table: "artifact_table_entry (ar_logical_name a) (Some (ar_artifact_schema_version a))
      = Inr (ar_media_type a, ar_serialization a, ar_artifact_schema_version a, ar_origin_kind a)"
    by (auto simp: validate_artifact_def bindE_Inr split: if_splits)
  then have table': "artifact_table_entry (ie_logical_name e)
       (if ie_logical_name e = ''final_report.json'' then Some (ie_artifact_schema_version e) else None)
      = Inr (ar_media_type a, ar_serialization a, ar_artifact_schema_version a, ar_origin_kind a)"
    by (auto simp: f table_without_version)
  from v obtain b where b: "local_data_binding a = Inr b"
    by (auto simp: validate_artifact_def bindE_Inr split: if_splits)
  then have lb: "local_bindings (ar_provenance_bindings a) = [b]" "field ''policy_sha256'' b = JStr (ar_policy_sha256 a)"
    by (auto simp: local_data_binding_def split: list.splits if_splits)
  have whole: "\<lparr>ar_logical_name = ar_logical_name a, ar_media_type = ar_media_type a,
      ar_artifact_schema_version = ar_artifact_schema_version a, ar_serialization = ar_serialization a,
      ar_exact_bytes = ar_exact_bytes a, ar_required = ar_required a, ar_classification = ar_classification a,
      ar_classification_source = ar_classification_source a,
      ar_classification_evidence = ar_classification_evidence a, ar_policy_sha256 = ar_policy_sha256 a,
      ar_origin_kind = ar_origin_kind a, ar_provenance_bindings = ar_provenance_bindings a\<rparr> = a" by simp
  show ?thesis
    unfolding verify_inventory_entry_def table'
    by (simp add: f stored lb sorted Let_def whole v del: artifact.surjective)
qed

section \<open>The staged directory of a canonical request\<close>

lemma transaction_of_fields:
  "tx_artifact_plan (transaction_of q es heads) = es" "tx_provenance_heads (transaction_of q es heads) = heads"
  "tx_run_id (transaction_of q es heads) = pr_run_id q" "tx_transaction_id (transaction_of q es heads) = pr_transaction_id q"
  "tx_proposed_revision (transaction_of q es heads) = pr_proposed_revision q"
  "tx_expected_revision (transaction_of q es heads) = pr_expected_revision q"
  "tx_expected_manifest_sha256 (transaction_of q es heads) = pr_expected_manifest_sha256 q"
  "tx_expected_pointer_sha256 (transaction_of q es heads) = pr_expected_pointer_sha256 q"
  "tx_created_at (transaction_of q es heads) = pr_created_at q" "tx_producer_id (transaction_of q es heads) = pr_producer_id q"
  "tx_producer_version (transaction_of q es heads) = pr_producer_version q"
  "tx_transaction_sha256 (transaction_of q es heads) = transaction_sha256 (transaction_of q es heads)"
  by (simp_all add: transaction_of_def unsigned_transaction_def transaction_sha256_def transaction_base_def Let_def)

lemma replay_same:
  "pr_artifacts q = as \<Longrightarrow> replay_request (transaction_of q es heads) as = q"
  by (simp add: replay_request_def transaction_of_fields)

lemma entry_paths:
  assumes "list_all2 (admitted ad run_id limit) as es"
  shows "map ie_logical_name es = map ar_logical_name as"
    and "map ie_revision_relative_path es = map (\<lambda>a. ''payload/'' @ ar_logical_name a) as"
  using assms by (induction rule: list_all2_induct) (auto simp: admitted_def inventory_fields)

lemma payload_names_stored:
  assumes adm: "list_all2 (admitted ad run_id limit) (pr_artifacts (pp_request pp)) (mf_artifacts m)"
    and stored: "stored_exactly pp d"
  shows "payload_names_match d m"
proof -
  have "map (drop 8 \<circ> ie_revision_relative_path) (mf_artifacts m) = map (drop 8) (map ie_revision_relative_path (mf_artifacts m))"
    by simp
  also have "\<dots> = map ar_logical_name (pr_artifacts (pp_request pp))"
    unfolding entry_paths(2) [OF adm] by simp
  finally show ?thesis
    using stored by (auto simp: payload_names_match_def stored_exactly_def Let_def)
qed

lemma payload_prefix:
  "list_all2 (admitted ad run_id limit) as es \<Longrightarrow> list_all (\<lambda>e. starts_with ''payload/'' (ie_revision_relative_path e)) es"
  by (induction rule: list_all2_induct) (auto simp: admitted_def inventory_fields starts_with_def)

lemma verify_all:
  assumes "list_all2 (admitted (sc_admission cfg) run_id (sc_max_artifact_bytes cfg)) as es"
    and "list_all (\<lambda>a. sort_bindings (ar_provenance_bindings a) = ar_provenance_bindings a) as"
    and "rd_payload d = Some files" and "\<forall>a\<in>set as. map_of files (ar_logical_name a) = Some (ar_exact_bytes a)"
  shows "mapE (verify_inventory_entry cfg run_id d) es = Inr as"
  using assms by (induction rule: list_all2_induct) (auto simp: verify_admitted)

lemma verify_prepared:
  assumes pre: "prepare cfg q = Inr pp" and canonical: "canonical_request q" and stored: "stored_exactly pp d"
    and distinct_hashes: "sha256_bytes (pp_transaction_bytes pp) \<noteq> pp_manifest_sha256 pp"
    and name: "name = Staging_name (pr_transaction_id q) \<or> name = Revision_name (pr_proposed_revision q) (pr_transaction_id q)"
  shows "verify_revision_directory cfg (pr_run_id q) name d None = Inr (new_entry pp)"
proof -
  obtain heads where q: "pp_request pp = q" and ok: "prepared_ok pp"
    and inv: "build_inventory (sc_admission cfg) q (sc_max_artifact_bytes cfg) = Inr (pp_inventories pp, heads)"
    and size: "int (length (pp_transaction_bytes pp)) \<le> sc_max_artifact_bytes cfg"
      "int (length (pp_manifest_bytes pp)) \<le> sc_max_artifact_bytes cfg"
    and t: "pp_transaction pp = transaction_of q (pp_inventories pp) heads"
    and producer: "pr_producer_id q = sc_producer_id cfg" "pr_producer_version q = sc_producer_version cfg"
    by (rule prepareE [OF pre]) blast
  have m: "pp_manifest pp = manifest_of q (transaction_of q (pp_inventories pp) heads)"
    using ok q t by (simp add: prepared_ok_def)
  note adm = build_inventory_canonical [OF inv canonical [unfolded canonical_request_def, THEN conjunct1]]
  obtain files where files: "rd_payload d = Some files"
    "\<forall>a\<in>set (pr_artifacts q). map_of files (ar_logical_name a) = Some (ar_exact_bytes a)"
    using stored q by (auto simp: stored_exactly_def)
  have control: "control_bytes (sc_max_artifact_bytes cfg) read_transaction (rd_transaction d)
      = Inr (pp_transaction pp, pp_transaction_bytes pp, sha256_bytes (pp_transaction_bytes pp))"
    "control_bytes (sc_max_artifact_bytes cfg) read_manifest (rd_manifest d)
      = Inr (pp_manifest pp, pp_manifest_bytes pp, pp_manifest_sha256 pp)"
    using stored size read_prepared [OF ok] prepared_okD(7) [OF ok]
    by (simp_all add: control_bytes_Inr stored_exactly_def staged_control_def)
  have mf: "mf_artifacts (pp_manifest pp) = pp_inventories pp" "mf_provenance_heads (pp_manifest pp) = heads"
    "mf_inventory_sha256 (pp_manifest pp) = inventory_sha256 (pp_inventories pp)"
    by (simp_all add: m manifest_of_def transaction_of_fields)
  have identity: "transaction_identity name (pr_run_id q) (pp_transaction pp)"
    using name by (auto simp: transaction_identity_def t transaction_of_fields)
  have match: "manifest_matches cfg (pr_run_id q) (pp_transaction pp) (pp_manifest pp)"
    by (simp add: manifest_matches_def m t manifest_of_def transaction_of_fields producer)
  have names: "payload_names_match d (pp_manifest pp)"
    by (rule payload_names_stored [OF _ stored]) (use adm(1) in \<open>simp add: q mf\<close>)
  have entries: "mapE (verify_inventory_entry cfg (pr_run_id q) d) (pp_inventories pp) = Inr (pr_artifacts q)"
    by (rule verify_all [OF adm(1) _ files]) (use canonical in \<open>simp add: canonical_request_def\<close>)
  have replay: "build_inventory (sc_admission cfg) (replay_request (pp_transaction pp) (pr_artifacts q)) (sc_max_artifact_bytes cfg)
      = Inr (pp_inventories pp, heads)"
    by (simp add: t replay_same inv)
  show ?thesis
    unfolding verify_revision_directory_def Let_def control
    using identity match names entries replay adm(2) payload_prefix [OF adm(1)] distinct_hashes
    by (simp add: mf require_def new_entry_def)
qed

end
