(* ===== verification/RevisionLive.thy ===== *)
theory RevisionLive
  imports RevisionReplay
begin

text \<open>
  Publication when no call of the operating system fails.  \<open>succeeds fs m x fs'\<close>: started in the
  files \<open>fs\<close> with nothing left to fail, \<open>m\<close> returns \<open>x\<close> and leaves \<open>fs'\<close>.  A canonical request that
  matches the head of the run, whose transaction is fresh and which fits the budgets is published,
  whatever other attempts have left behind.
\<close>

definition healthy :: "run_files \<Rightarrow> world" where "healthy fs = \<lparr>w_files = fs, w_decisions = []\<rparr>"

definition ends_in :: "bool \<Rightarrow> run_files \<Rightarrow> 'a io \<Rightarrow> storage_exn + 'a \<Rightarrow> run_files \<Rightarrow> bool" where
  \<comment> \<open>a run in which nothing fails, or one that takes some decisions and leaves those after them alone\<close>
  "ends_in scripted fs m r fs' \<longleftrightarrow>
     (if scripted then \<exists>ds. \<forall>later. m \<lparr>w_files = fs, w_decisions = ds @ later\<rparr> = (r, \<lparr>w_files = fs', w_decisions = later\<rparr>)
      else m (healthy fs) = (r, healthy fs'))"

definition succeeds :: "run_files \<Rightarrow> 'a io \<Rightarrow> 'a \<Rightarrow> run_files \<Rightarrow> bool" where
  "succeeds fs m x fs' \<longleftrightarrow> (\<forall>scripted. ends_in scripted fs m (Inr x) fs')"

named_theorems live \<open>calls that succeed when nothing fails\<close>

lemma healthy_simps [simp]: "w_files (healthy fs) = fs" "next_decision (healthy fs) = (Done, healthy fs)"
  "(healthy fs)\<lparr>w_files := fs'\<rparr> = healthy fs'"
  by (simp_all add: healthy_def next_decision_def)

lemma succeedsD: "succeeds fs m x fs' \<Longrightarrow> m (healthy fs) = (Inr x, healthy fs')"
  using ends_in_def [of False fs m "Inr x" fs'] by (simp add: succeeds_def)

lemma succeedsI:
  assumes "m (healthy fs) = (Inr x, healthy fs')"
    and "\<And>later. m \<lparr>w_files = fs, w_decisions = replicate n Done @ later\<rparr> = (Inr x, \<lparr>w_files = fs', w_decisions = later\<rparr>)"
  shows "succeeds fs m x fs'"
  using assms by (auto simp: succeeds_def ends_in_def intro: exI [of _ "replicate n Done"])

lemma ends_bind:
  assumes "succeeds fs m x fs1" and "ends_in b fs1 (f x) r fs2"
  shows "ends_in b fs (bindIO m f) r fs2"
proof (cases b)
  case True
  then obtain ds1 ds2 where "\<And>later. m \<lparr>w_files = fs, w_decisions = ds1 @ later\<rparr> = (Inr x, \<lparr>w_files = fs1, w_decisions = later\<rparr>)"
    "\<And>later. f x \<lparr>w_files = fs1, w_decisions = ds2 @ later\<rparr> = (r, \<lparr>w_files = fs2, w_decisions = later\<rparr>)"
    using assms by (auto simp: succeeds_def ends_in_def split: if_splits)
  then have "\<forall>later. bindIO m f \<lparr>w_files = fs, w_decisions = (ds1 @ ds2) @ later\<rparr> = (r, \<lparr>w_files = fs2, w_decisions = later\<rparr>)"
    by (simp add: bindIO_def)
  then show ?thesis unfolding ends_in_def using True by metis
next
  case False
  then show ?thesis using assms by (auto simp: succeeds_def ends_in_def bindIO_def split: if_splits)
qed

lemma ends_then: "succeeds fs m x fs1 \<Longrightarrow> ends_in b fs1 n r fs2 \<Longrightarrow> ends_in b fs (thenIO m n) r fs2"
  unfolding thenIO_def by (rule ends_bind)

lemma ends_as:
  assumes "ends_in b fs m r fs'" and "\<And>w w1. m w = (r, w1) \<Longrightarrow> n w = (r', w1)"
  shows "ends_in b fs n r' fs'"
  using assms(1) unfolding ends_in_def by (cases b) (auto dest: assms(2) intro: exI)

lemma ends_except: "ends_in b fs m (Inr x) fs' \<Longrightarrow> ends_in b fs (exceptIO m h) (Inr x) fs'"
  by (erule ends_as) (simp add: exceptIO_def)

lemma ends_stop: "ends_in b fs m (Inl e) fs' \<Longrightarrow> ends_in b fs (bindIO m f) (Inl e) fs'"
  by (erule ends_as) (simp add: bindIO_def)

lemma live_ret [live]: "succeeds fs (retIO x) x fs" by (rule succeedsI [of _ _ _ _ 0]) (simp_all add: retIO_def)
lemma live_lift: "m = Inr x \<Longrightarrow> succeeds fs (liftIO m) x fs" by (rule succeedsI [of _ _ _ _ 0]) (simp_all add: liftIO_def)
lemma live_files [live]: "succeeds fs filesIO fs fs" by (rule succeedsI [of _ _ _ _ 0]) (simp_all add: filesIO_def)
lemma live_bind: "succeeds fs m x fs1 \<Longrightarrow> succeeds fs1 (f x) y fs2 \<Longrightarrow> succeeds fs (bindIO m f) y fs2"
  unfolding succeeds_def [of fs _ y] succeeds_def [of fs1 _ y] by (blast intro: ends_bind)
lemma live_then: "succeeds fs m x fs1 \<Longrightarrow> succeeds fs1 n y fs2 \<Longrightarrow> succeeds fs (thenIO m n) y fs2"
  unfolding thenIO_def by (rule live_bind)
lemma live_except: "succeeds fs m x fs' \<Longrightarrow> succeeds fs (exceptIO m h) x fs'"
  by (simp add: succeeds_def ends_except)
lemma live_atomic [live]: "succeeds fs (atomic f) () (f fs)"
  by (rule succeedsI [of _ _ _ _ 1]) (simp_all add: atomic_def next_decision_def healthy_def)
lemma live_write [live]: "succeeds fs (partial_write put data) () (put data fs)"
  by (rule succeedsI [of _ _ _ _ 1]) (simp_all add: partial_write_def next_decision_def healthy_def)
lemma live_observe: "f fs = Inr x \<Longrightarrow> succeeds fs (observe f) x fs"
  by (rule succeedsI [of _ _ _ _ 1]) (simp_all add: observe_def next_decision_def healthy_def)
lemma live_os [live]: "succeeds fs os_call () fs" unfolding os_call_def by (rule live_observe) simp
lemma live_boundary: "succeeds fs m x fs' \<Longrightarrow> succeeds fs (at_boundary_of b m) x fs'"
  unfolding at_boundary_of_def by (rule live_except)
lemma live_except_as: "succeeds fs m x fs' \<Longrightarrow> succeeds fs (except_as q f m) x fs'"
  unfolding except_as_def by (rule live_except)
lemma live_except_storage: "succeeds fs m x fs' \<Longrightarrow> succeeds fs (except_storage m f) x fs'"
  unfolding except_storage_def by (rule live_except)
lemma live_at_stage: "succeeds fs m x fs' \<Longrightarrow> succeeds fs (at_stage q s m) x fs'"
  unfolding at_stage_def by (rule live_except)
lemma live_nil [live]: "succeeds fs (stepsIO []) () fs" by (simp add: live_ret)
lemma live_cons: "succeeds fs m () fs1 \<Longrightarrow> succeeds fs1 (stepsIO ms) () fs2 \<Longrightarrow> succeeds fs (stepsIO (m # ms)) () fs2"
  by (simp add: live_then)
lemma live_each_still: "(\<And>x. x \<in> set xs \<Longrightarrow> succeeds fs (f x) () fs) \<Longrightarrow> succeeds fs (eachIO f xs) () fs"
proof (induction xs)
  case (Cons x xs)
  then have "succeeds fs (f x) () fs" "succeeds fs (eachIO f xs) () fs" by auto
  then show ?case by (auto intro: live_then)
qed (simp add: live_ret)

lemma live_sync: "succeeds fs (directory_sync w) (if w then DS_unavailable else DS_confirmed) fs"
  unfolding directory_sync_def
  by (rule live_then [OF live_os]) (auto intro!: live_ret live_then live_cons live_boundary live_os live_nil simp del: stepsIO.simps)

lemma live_sync_dir [live]: "succeeds fs (sync_dir w) () fs"
  unfolding sync_dir_def by (rule live_bind [OF live_sync live_ret])

lemma live_create: "\<not> present fs \<Longrightarrow> succeeds fs (create_with present f) () (f fs)"
  unfolding create_with_def by (rule live_bind [OF live_files]) (simp add: live_atomic)

lemma live_write_exclusive:
  assumes "int (length data) \<le> limit" and "get fs = None" and "get (put data (put [] fs)) = Some data"
  shows "succeeds fs (write_exclusive_verified limit get put data) () (put data (put [] fs))"
proof -
  have create: "succeeds fs (create_with (\<lambda>fs. get fs \<noteq> None) (put [])) () (put [] fs)"
    by (rule live_create) (simp add: assms(2))
  have reread: "succeeds (put data (put [] fs)) (observe (\<lambda>fs. if get fs = Some data then Inr ()
           else Inl (Canonical_error ''written bytes did not reread exactly''))) () (put data (put [] fs))"
    by (rule live_observe) (simp add: assms(3))
  show ?thesis
    unfolding write_exclusive_verified_def if_not_P [OF assms(1) [unfolded not_less [symmetric]]]
    by (rule live_cons live_boundary live_os create live_write reread live_nil)+
qed

lemma live_mkdir: "\<not> present fs \<Longrightarrow> succeeds fs (mkdir_verified w present f) () (f fs)"
  unfolding mkdir_verified_def
  by (rule live_cons live_boundary live_os live_sync_dir live_nil | rule live_create, assumption)+

lemma live_ownership [live]: "succeeds fs (ownership r) () fs"
  unfolding ownership_def by (rule live_except [OF live_os])

section \<open>Staging\<close>

definition with_staging :: "string \<Rightarrow> rev_dir \<Rightarrow> run_files \<Rightarrow> run_files" where
  "with_staging txn d fs = fs\<lparr>fs_staging := fs_staging fs @ [(txn, d)]\<rparr>"

lemma with_staging_simps:
  assumes "txn \<notin> fst ` set (fs_staging fs)"
  shows "map_staging txn f (with_staging txn d fs) = with_staging txn (f d) fs"
    and "staged txn (with_staging txn d fs) = d"
proof -
  have same: "map (\<lambda>s. if fst s = txn then (fst s, f (snd s)) else s) (fs_staging fs) = fs_staging fs"
    using assms by (intro map_idI) auto
  then show "map_staging txn f (with_staging txn d fs) = with_staging txn (f d) fs"
    by (simp add: map_staging_def with_staging_def)
  show "staged txn (with_staging txn d fs) = d"
    using assms by (simp add: staged_def with_staging_def map_of_append_fresh del: map_of_append)
qed

lemma live_write_staged:
  assumes "txn \<notin> fst ` set (fs_staging fs)" and "int (length data) \<le> sc_max_artifact_bytes cfg" and "get d = None"
    and "get (put data (put [] d)) = Some data"
  shows "succeeds (with_staging txn d fs) (write_staged cfg txn get put data) () (with_staging txn (put data (put [] d)) fs)"
  using live_write_exclusive [of data "sc_max_artifact_bytes cfg" "\<lambda>fs. get (staged txn fs)" "with_staging txn d fs"
      "\<lambda>d. map_staging txn (put d)"] assms
  by (simp add: write_staged_def with_staging_simps)

lemma live_staged_parent:
  assumes fresh: "txn \<notin> fst ` set (fs_staging fs)"
  shows "\<exists>dirs. set dirs = set (rd_payload_dirs d) \<union> set (parent_dirs name) \<and>
    succeeds (with_staging txn d fs) (staged_parent cfg txn name) () (with_staging txn (d\<lparr>rd_payload_dirs := dirs\<rparr>) fs)"
proof -
  have "\<exists>dirs. set dirs = set (rd_payload_dirs d) \<union> set ps \<and>
    succeeds (with_staging txn d fs) (eachIO (\<lambda>dir. bindIO filesIO (\<lambda>fs.
     if dir \<in> set (rd_payload_dirs (staged txn fs)) then os_call
     else mkdir_verified (sc_windows cfg) (\<lambda>_. False)
       (map_staging txn (\<lambda>d. d\<lparr>rd_payload_dirs := rd_payload_dirs d @ [dir]\<rparr>)))) ps) ()
      (with_staging txn (d\<lparr>rd_payload_dirs := dirs\<rparr>) fs)" for ps
  proof (induction ps arbitrary: d)
    case Nil
    show ?case by (rule exI [of _ "rd_payload_dirs d"]) (simp add: live_ret)
  next
    case (Cons p ps)
    define d1 where "d1 = (if p \<in> set (rd_payload_dirs d) then d else d\<lparr>rd_payload_dirs := rd_payload_dirs d @ [p]\<rparr>)"
    from Cons.IH [of d1] obtain dirs where dirs: "set dirs = set (rd_payload_dirs d1) \<union> set ps"
      "succeeds (with_staging txn d1 fs) (eachIO (\<lambda>dir. bindIO filesIO (\<lambda>fs.
     if dir \<in> set (rd_payload_dirs (staged txn fs)) then os_call
     else mkdir_verified (sc_windows cfg) (\<lambda>_. False)
       (map_staging txn (\<lambda>d. d\<lparr>rd_payload_dirs := rd_payload_dirs d @ [dir]\<rparr>)))) ps) ()
      (with_staging txn (d1\<lparr>rd_payload_dirs := dirs\<rparr>) fs)" by blast
    have step: "succeeds (with_staging txn d fs) (bindIO filesIO (\<lambda>fs.
     if p \<in> set (rd_payload_dirs (staged txn fs)) then os_call
     else mkdir_verified (sc_windows cfg) (\<lambda>_. False)
       (map_staging txn (\<lambda>d. d\<lparr>rd_payload_dirs := rd_payload_dirs d @ [p]\<rparr>)))) () (with_staging txn d1 fs)"
      using live_mkdir [of "\<lambda>_. False" "with_staging txn d fs" "sc_windows cfg"
          "map_staging txn (\<lambda>d. d\<lparr>rd_payload_dirs := rd_payload_dirs d @ [p]\<rparr>)"]
      by (intro live_bind [OF live_files]) (simp add: with_staging_simps [OF fresh] d1_def live_os)
    show ?case
      by (rule exI [of _ dirs]) (use dirs live_then [OF step dirs(2)] in \<open>auto simp: d1_def split: if_splits\<close>)
  qed
  then show ?thesis unfolding staged_parent_def .
qed

definition payload_files :: "artifact list \<Rightarrow> (string \<times> byte list) list" where
  "payload_files as = map (\<lambda>a. (ar_logical_name a, ar_exact_bytes a)) as"

definition staged_payload :: "prepared_revision \<Rightarrow> artifact list \<Rightarrow> rev_dir \<Rightarrow> bool" where
  "staged_payload pp as d \<longleftrightarrow> rd_transaction d = Some (pp_transaction_bytes pp) \<and> rd_manifest d = None \<and>
     rd_payload d = Some (payload_files as) \<and>
     set (rd_payload_dirs d) = set (concat (map (parent_dirs \<circ> ar_logical_name) as))"

lemma update_fresh: "k \<notin> fst ` set xs \<Longrightarrow> AList.update k v xs = xs @ [(k, v)]"
  by (induction xs) auto

lemma update_twice: "AList.update k v (AList.update k u xs) = AList.update k v xs"
  by (induction xs) auto

lemma put_payload_twice: "put_payload n v (put_payload n u d) = put_payload n v d"
  by (cases "rd_payload d") (simp_all add: put_payload_def update_twice)

lemma live_stage_payload:
  assumes fresh: "txn \<notin> fst ` set (fs_staging fs)" and txn: "txn = pr_transaction_id q"
    and state: "staged_payload pp as d" and new: "ar_logical_name a \<notin> ar_logical_name ` set as"
    and found: "List.find (\<lambda>b. ar_logical_name b = ie_logical_name e) (pr_artifacts q) = Some a"
    and name: "ie_logical_name e = ar_logical_name a"
    and size: "int (length (ar_exact_bytes a)) \<le> sc_max_artifact_bytes cfg"
  shows "\<exists>d'. staged_payload pp (as @ [a]) d' \<and>
    succeeds (with_staging txn d fs) (stage_payload cfg q e) () (with_staging txn d' fs)"
proof -
  let ?n = "ar_logical_name a"
  obtain dirs where dirs: "set dirs = set (rd_payload_dirs d) \<union> set (parent_dirs ?n)"
    and parent: "succeeds (with_staging txn d fs) (staged_parent cfg txn ?n) () (with_staging txn (d\<lparr>rd_payload_dirs := dirs\<rparr>) fs)"
    using live_staged_parent [OF fresh] by blast
  define d1 where "d1 = d\<lparr>rd_payload_dirs := dirs\<rparr>"
  define d2 where "d2 = put_payload ?n (ar_exact_bytes a) d1"
  have names: "?n \<notin> fst ` set (payload_files as)" using new by (auto simp: payload_files_def)
  have p1: "rd_payload d1 = Some (payload_files as)" using state by (simp add: d1_def staged_payload_def)
  then have p2: "rd_payload d2 = Some (payload_files (as @ [a]))"
    using names by (simp add: d2_def put_payload_def update_fresh payload_files_def)
  have wr: "succeeds (with_staging txn d1 fs) (write_staged cfg txn (payload_file ?n) (put_payload ?n) (ar_exact_bytes a)) ()
      (with_staging txn d2 fs)"
    using live_write_staged [OF fresh size, of "payload_file ?n" d1 "put_payload ?n"] names p1
    by (simp add: put_payload_twice d2_def [symmetric])
      (simp add: payload_file_def p2 d2_def put_payload_def map_of_eq_None_iff map_of_alist_update)
  have "staged_payload pp (as @ [a]) d2"
    using state dirs p2 by (auto simp: staged_payload_def d2_def d1_def put_payload_def)
  moreover have "succeeds (with_staging txn d fs) (stage_payload cfg q e) () (with_staging txn d2 fs)"
    unfolding stage_payload_def Let_def name found [unfolded name] option.case txn [symmetric]
    by (rule live_cons [OF parent] live_cons [OF live_sync_dir] live_cons [OF wr [unfolded d1_def]] live_nil)+
  ultimately show ?thesis by blast
qed

lemma find_distinct:
  "distinct (map f as) \<Longrightarrow> a \<in> set as \<Longrightarrow> List.find (\<lambda>b. f b = f a) as = Some a"
  by (induction as) (auto simp: image_iff)

lemma live_stage_payloads:
  assumes fresh: "txn \<notin> fst ` set (fs_staging fs)" and txn: "txn = pr_transaction_id q"
    and adm: "list_all2 (admitted ad run_id (sc_max_artifact_bytes cfg)) as es"
    and dist: "distinct (map ar_logical_name (pr_artifacts q))" and all: "pr_artifacts q = before @ as"
    and state: "staged_payload pp before d"
  shows "\<exists>d'. staged_payload pp (before @ as) d' \<and>
    succeeds (with_staging txn d fs) (eachIO (stage_payload cfg q) es) () (with_staging txn d' fs)"
  using adm all state
proof (induction as es arbitrary: before d rule: list_all2_induct)
  case Nil
  then show ?case by (auto intro: live_ret)
next
  case (Cons a as e es)
  have i: "ie_logical_name e = ar_logical_name a" and v: "validate_artifact ad a run_id (sc_max_artifact_bytes cfg) = Inr ()"
    using Cons(1) by (auto simp: admitted_def inventory_fields)
  from v have size: "int (length (ar_exact_bytes a)) \<le> sc_max_artifact_bytes cfg"
    by (auto simp: validate_artifact_def bindE_Inr split: if_splits)
  have found: "List.find (\<lambda>b. ar_logical_name b = ie_logical_name e) (pr_artifacts q) = Some a"
    unfolding i by (rule find_distinct [OF dist]) (simp add: Cons(4))
  have new: "ar_logical_name a \<notin> ar_logical_name ` set before" using dist by (auto simp: Cons(4))
  obtain d1 where d1: "staged_payload pp (before @ [a]) d1"
    "succeeds (with_staging txn d fs) (stage_payload cfg q e) () (with_staging txn d1 fs)"
    using live_stage_payload [OF fresh txn Cons(5) new found i size] by blast
  obtain d2 where d2: "staged_payload pp ((before @ [a]) @ as) d2"
    "succeeds (with_staging txn d1 fs) (eachIO (stage_payload cfg q) es) () (with_staging txn d2 fs)"
    using Cons.IH [of "before @ [a]" d1] Cons(4) d1(1) by auto
  show ?case
    by (rule exI [of _ d2]) (use d2(1) live_then [OF d1(2) d2(2)] in simp)
qed

lemma admit_distinct:
  "foldE (admit_artifact ad q limit) es as = Inr es' \<Longrightarrow> distinct (map ie_logical_name es) \<Longrightarrow>
   distinct (map ie_logical_name es')"
proof (induction as arbitrary: es)
  case (Cons a as)
  then obtain es1 where one: "admit_artifact ad q limit es a = Inr es1"
    and rest: "foldE (admit_artifact ad q limit) es1 as = Inr es'" by (auto simp: bindE_Inr)
  from one obtain e where "es1 = es @ [e]" "ie_logical_name e = ar_logical_name a"
    "ar_logical_name a \<notin> set (map ie_logical_name es)"
    by (auto simp: admit_artifact_def bindE_Inr inventory_fields split: if_splits)
  then have "distinct (map ie_logical_name es1)" using Cons.prems(2) by auto
  then show ?case by (rule Cons.IH [OF rest])
qed simp

lemma build_inventory_distinct:
  assumes "build_inventory ad q limit = Inr (es, heads)" and "sorted (map order_key (pr_artifacts q))"
  shows "distinct (map ar_logical_name (pr_artifacts q))"
proof -
  from assms(1) obtain as where "foldE (admit_artifact ad q limit) [] as = Inr es"
    by (auto simp: build_inventory_def bindE_Inr Let_def split: if_splits)
  then have "distinct (map ie_logical_name es)" by (rule admit_distinct) simp
  then show ?thesis by (simp add: entry_paths(1) [OF build_inventory_canonical(1) [OF assms], symmetric])
qed

lemma map_of_distinct_files:
  "distinct (map ar_logical_name as) \<Longrightarrow> a \<in> set as \<Longrightarrow>
   map_of (map (\<lambda>a. (ar_logical_name a, ar_exact_bytes a)) as) (ar_logical_name a) = Some (ar_exact_bytes a)"
  by (simp add: map_of_eq_Some_iff comp_def)

section \<open>stage_revision\<close>

definition published_files :: "prepared_revision \<Rightarrow> rev_dir \<Rightarrow> run_files \<Rightarrow> run_files" where
  "published_files pp d fs = fs\<lparr>fs_revisions := fs_revisions fs @ [new_revision pp d]\<rparr>"

lemma rename_with_staging:
  assumes "txn \<notin> fst ` set (fs_staging fs)" and "txn = pr_transaction_id (pp_request pp)"
    and "\<not> revision_exists (pp_request pp) fs"
  shows "rename_staging (pp_request pp) (with_staging txn d fs) = published_files pp d fs"
proof -
  have "map_of (fs_staging fs @ [(txn, d)]) txn = Some d"
    using assms(1) by (simp add: map_of_append_fresh del: map_of_append)
  moreover have "filter (\<lambda>s. fst s \<noteq> txn) (fs_staging fs) = fs_staging fs"
    using assms(1) by (auto simp: filter_id_conv)
  ultimately show ?thesis
    using assms(2,3)
    by (simp add: rename_staging_def with_staging_def Let_def revision_exists_def published_files_def new_revision_def
        del: map_of_append)
qed

lemma live_stage_revision:
  assumes pre: "prepare cfg q = Inr pp" and canonical: "canonical_request q"
    and hashes: "sha256_bytes (pp_transaction_bytes pp) \<noteq> pp_manifest_sha256 pp"
    and txn: "txn = pr_transaction_id q" and fresh: "txn \<notin> fst ` set (fs_staging fs)"
    and none: "\<not> revision_exists q fs"
  shows "\<exists>d. new_verified cfg pp d \<and> succeeds fs (stage_revision cfg pp) () (published_files pp d fs)"
proof -
  obtain heads where q: "pp_request pp = q" and ok: "prepared_ok pp"
    and inv: "build_inventory (sc_admission cfg) q (sc_max_artifact_bytes cfg) = Inr (pp_inventories pp, heads)"
    and size: "int (length (pp_transaction_bytes pp)) \<le> sc_max_artifact_bytes cfg"
      "int (length (pp_manifest_bytes pp)) \<le> sc_max_artifact_bytes cfg"
    by (rule prepareE [OF pre]) blast
  have order: "sorted (map order_key (pr_artifacts q))" using canonical by (simp add: canonical_request_def)
  note adm = build_inventory_canonical(1) [OF inv order] and dist = build_inventory_distinct [OF inv order]
  define d0 where "d0 = empty_dir\<lparr>rd_payload := Some [], rd_transaction := Some (pp_transaction_bytes pp)\<rparr>"
  have d0: "staged_payload pp [] d0" by (simp add: staged_payload_def d0_def payload_files_def empty_dir_def)
  obtain d1 where d1: "staged_payload pp (pr_artifacts q) d1"
    and payload: "succeeds (with_staging txn d0 fs) (eachIO (stage_payload cfg q) (pp_inventories pp)) () (with_staging txn d1 fs)"
    using live_stage_payloads [OF fresh txn adm dist _ d0] by auto
  define d where "d = d1\<lparr>rd_manifest := Some (pp_manifest_bytes pp)\<rparr>"
  have stored: "stored_exactly pp d"
    using d1 map_of_distinct_files [OF dist]
    by (auto simp: stored_exactly_def staged_control_def staged_payload_def d_def q payload_files_def image_image)
  have verified: "verify_revision_directory cfg (pr_run_id q) name d None = Inr (new_entry pp)"
    if "name = Staging_name txn \<or> name = Revision_name (pr_proposed_revision q) txn" for name
    by (rule verify_prepared [OF pre canonical stored hashes]) (use that txn in simp)
  have new: "new_verified cfg pp d" using verified by (simp add: new_verified_def q txn)
  let ?w = "sc_windows cfg"
  have create: "succeeds fs (create_with (\<lambda>fs. txn \<in> set (map fst (fs_staging fs)))
           (\<lambda>fs. fs\<lparr>fs_staging := fs_staging fs @ [(txn, empty_dir)]\<rparr>)) () (with_staging txn empty_dir fs)"
    unfolding with_staging_def by (rule live_create) (use fresh in simp)
  have payload_dir: "succeeds (with_staging txn empty_dir fs) (mkdir_verified ?w (\<lambda>fs. rd_payload (staged txn fs) \<noteq> None)
           (map_staging txn (\<lambda>d. d\<lparr>rd_payload := Some []\<rparr>))) () (with_staging txn (empty_dir\<lparr>rd_payload := Some []\<rparr>) fs)"
    using live_mkdir [of "\<lambda>fs. rd_payload (staged txn fs) \<noteq> None" "with_staging txn empty_dir fs" ?w
        "map_staging txn (\<lambda>d. d\<lparr>rd_payload := Some []\<rparr>)"]
    by (simp add: with_staging_simps [OF fresh] empty_dir_def)
  have tx: "succeeds (with_staging txn (empty_dir\<lparr>rd_payload := Some []\<rparr>) fs)
      (write_staged cfg txn rd_transaction (\<lambda>b d. d\<lparr>rd_transaction := Some b\<rparr>) (pp_transaction_bytes pp)) () (with_staging txn d0 fs)"
    using live_write_staged [OF fresh size(1), of rd_transaction "empty_dir\<lparr>rd_payload := Some []\<rparr>"
        "\<lambda>b d. d\<lparr>rd_transaction := Some b\<rparr>"]
    by (simp add: d0_def empty_dir_def)
  have mf: "succeeds (with_staging txn d1 fs)
      (write_staged cfg txn rd_manifest (\<lambda>b d. d\<lparr>rd_manifest := Some b\<rparr>) (pp_manifest_bytes pp)) () (with_staging txn d fs)"
    using live_write_staged [OF fresh size(2), of rd_manifest d1 "\<lambda>b d. d\<lparr>rd_manifest := Some b\<rparr>"] d1
    by (simp add: d_def staged_payload_def)
  have check: "succeeds (with_staging txn d fs) (bindIO (verify_dir cfg (pr_run_id q) (Staging_name txn) (staged txn)) (\<lambda>_. retIO ())) ()
      (with_staging txn d fs)"
    unfolding verify_dir_def
    by (rule live_bind [OF live_observe live_ret]) (simp add: with_staging_simps [OF fresh] verified new_entry_def)
  have syncs: "succeeds g (bindIO filesIO (\<lambda>fs. eachIO (\<lambda>_. sync_dir ?w) (xs fs))) () g" for g xs
    by (rule live_bind [OF live_files live_each_still]) (rule live_sync_dir)
  have none': "\<not> revision_exists q (with_staging txn d fs)" using none by (simp add: revision_exists_def with_staging_def)
  have rename: "succeeds (with_staging txn d fs) (create_with (revision_exists q) (rename_staging q)) () (published_files pp d fs)"
    using live_create [of "revision_exists q" "with_staging txn d fs" "rename_staging q", OF none']
      rename_with_staging [OF fresh, of pp d] none by (simp add: q txn)
  have there: "published_dir q (published_files pp d fs) = d"
    using none
    by (simp add: published_dir_def published_files_def new_revision_def q revision_exists_def map_of_append_fresh del: map_of_append)
  have seen: "succeeds (published_files pp d fs) (observe (\<lambda>fs.
     bindE (verify_revision_directory cfg (pr_run_id q) (Revision_name (pr_proposed_revision q) txn) (published_dir q fs) None)
       (\<lambda>(re, m, m_sha, t). Inr m_sha))) (pp_manifest_sha256 pp) (published_files pp d fs)"
    by (rule live_observe) (simp add: there verified new_entry_def)
  have recheck: "succeeds (published_files pp d fs)
      (bindIO (verify_dir cfg (pr_run_id q) (Revision_name (pr_proposed_revision q) txn) (published_dir q))
           (\<lambda>m_sha. if m_sha \<noteq> pp_manifest_sha256 pp
              then raiseIO (Canonical_error ''published revision manifest hash mismatch'') else retIO ())) () (published_files pp d fs)"
    unfolding verify_dir_def by (rule live_bind [OF seen]) (simp add: live_ret)
  have "succeeds fs (stage_revision cfg pp) () (published_files pp d fs)"
    unfolding stage_revision_def Let_def q txn [symmetric]
    by (rule live_cons live_at_stage create payload_dir tx payload mf check syncs rename recheck live_sync_dir live_nil)+
  with new show ?thesis by blast
qed

section \<open>The pointer\<close>

lemma live_read_chain:
  assumes "validate_run_id r = Inr r" and "chain_of_files cfg r True fs = Inr c"
  shows "succeeds fs (read_chain cfg r True) c fs"
  unfolding read_chain_def
  by (rule live_bind [OF live_lift [OF assms(1)]], rule live_then [OF live_ownership live_observe]) (rule assms(2))

lemma live_current_chain:
  assumes "validate_run_id r = Inr r" and ok: "store_ok cfg r fs"
  shows "succeeds fs (existing_chain_or_none cfg r True) (current_chain cfg r (fs_current fs) (fs_revisions fs)) fs"
proof (cases "fs_current fs = None")
  case True
  then show ?thesis
    unfolding existing_chain_or_none_def
    by (intro live_bind [OF live_files]) (simp add: current_chain_def live_ret)
next
  case False
  then obtain c where c: "chain_core cfg r (fs_current fs) (fs_revisions fs) = Inr c" using ok by (auto simp: store_ok_def)
  then have "chain_of_files cfg r True fs = Inr c" using ok by (simp add: chain_of_files_core store_ok_def)
  have "succeeds fs (bindIO (read_chain cfg r True) (\<lambda>c. retIO (Some c))) (Some c) fs"
    by (rule live_bind [OF live_read_chain [OF assms(1)] live_ret]) fact
  with False c show ?thesis
    unfolding existing_chain_or_none_def
    by (intro live_bind [OF live_files]) (auto simp: current_chain_def)
qed

text \<open>The last thing \<open>replace_and_confirm\<close> does is to read the lineage again; before it, the pointer is replaced.\<close>

lemma pointer_replaced:
  assumes pre: "prepare cfg q = Inr pp" and ok: "store_ok cfg (pr_run_id q) fs" and free: "unambiguous (fs_revisions fs)"
    and el: "eligible cfg pp (fs_current fs) (fs_revisions fs)" and new: "new_verified cfg pp d"
    and temp: "pr_transaction_id q \<notin> fst ` set (fs_pointer_temps fs)"
  shows "\<exists>fs'. undisturbed cfg (Some (pp_pointer_bytes pp)) (fs_revisions fs @ [new_revision pp d]) fs' \<and>
    succeeds fs' (confirm_lineage cfg pp) () fs' \<and>
    (\<forall>b r fs1. ends_in b fs' (except_as q (\<lambda>_. reconciliation_failure q) (confirm_lineage cfg pp)) r fs1 \<longrightarrow>
       ends_in b (published_files pp d fs) (thenIO (write_pointer cfg pp) (replace_and_confirm cfg pp)) r fs1)"
proof -
  obtain heads where q: "pp_request pp = q" and okp: "prepared_ok pp" and run: "validate_run_id (pr_run_id q) = Inr (pr_run_id q)"
    and size: "int (length (pp_pointer_bytes pp)) \<le> sc_max_artifact_bytes cfg"
    by (rule prepareE [OF pre]) blast
  let ?txn = "pr_transaction_id q" and ?pb = "pp_pointer_bytes pp"
  let ?revs = "fs_revisions fs @ [new_revision pp d]"
  define fs1 where "fs1 = published_files pp d fs"
  define fs2 where "fs2 = put_pointer_temp ?txn ?pb fs1"
  define fs3 where "fs3 = replace_current ?txn fs2"
  have quiet1: "undisturbed cfg (fs_current fs) ?revs fs2"
    using store_quiet [OF ok] by (simp add: fs2_def fs1_def put_pointer_temp_def published_files_def undisturbed_def metadata_small_def)
  have temps: "map_of (fs_pointer_temps fs2) ?txn = Some ?pb"
    by (simp add: fs2_def put_pointer_temp_def map_of_alist_update)
  have quiet3: "undisturbed cfg (Some ?pb) ?revs fs3"
    using quiet1 temps by (auto simp: fs3_def replace_current_def undisturbed_def metadata_small_def)
  have r: "pr_run_id (pp_request pp) = pr_run_id q" by (simp add: q)
  note before = history_unreferenced [OF ok r [symmetric] el new quiet1]
  note after = history_advanced [OF ok r [symmetric] okp size el free new quiet3]
  have twice: "put_pointer_temp ?txn ?pb (put_pointer_temp ?txn [] fs1) = fs2"
    by (simp add: fs2_def put_pointer_temp_def update_twice)
  have "succeeds fs1 (write_exclusive_verified (sc_max_artifact_bytes cfg)
         (\<lambda>fs. map_of (fs_pointer_temps fs) ?txn) (put_pointer_temp ?txn) ?pb) ()
      (put_pointer_temp ?txn ?pb (put_pointer_temp ?txn [] fs1))"
    by (rule live_write_exclusive [OF size])
      (use temp temps twice in \<open>auto simp: fs1_def published_files_def map_of_eq_None_iff\<close>)
  then have wr: "succeeds fs1 (write_pointer cfg pp) () fs2"
    unfolding write_pointer_def Let_def q twice by (rule live_except)
  have cas: "succeeds fs2 (final_cas cfg q) () fs2"
    unfolding final_cas_def
    by (rule live_except_as, rule live_bind [OF live_current_chain [OF run before(1)]])
      (use el in \<open>simp add: before(3) eligible_def q live_ret\<close>)
  have conf: "succeeds fs3 (confirm_pointer cfg pp) () fs3"
    unfolding confirm_pointer_def
    by (rule live_observe) (use quiet3 in \<open>simp add: undisturbed_def read_prepared_pointer [OF okp size] require_def\<close>)
  have lin: "succeeds fs3 (confirm_lineage cfg pp) () fs3"
    unfolding confirm_lineage_def q
    by (rule live_bind [OF live_read_chain [OF run after(3)] live_lift]) (simp add: require_def new_entry_def)
  have ret: "thenIO m (retIO ()) = m" for m :: "unit io"
    by (rule ext) (simp add: thenIO_def bindIO_def retIO_def split: prod.split sum.split)
  have "ends_in b fs2 (replace_and_confirm cfg pp) r fs'"
    if "ends_in b fs3 (except_as q (\<lambda>_. reconciliation_failure q) (confirm_lineage cfg pp)) r fs'" for b r fs'
    unfolding replace_and_confirm_def Let_def q stepsIO.simps ret
    by (rule ends_then [OF cas], rule ends_then [OF live_except_as [OF live_ownership]],
        rule ends_then [OF live_except_as [OF live_atomic]], fold fs3_def, rule ends_then [OF live_except_as [OF conf]], rule that)
  then have "\<forall>b r fs'. ends_in b fs3 (except_as q (\<lambda>_. reconciliation_failure q) (confirm_lineage cfg pp)) r fs' \<longrightarrow>
       ends_in b fs1 (thenIO (write_pointer cfg pp) (replace_and_confirm cfg pp)) r fs'"
    by (intro allI impI ends_then [OF wr])
  with quiet3 lin show ?thesis unfolding fs1_def by blast
qed

lemma live_pointer:
  assumes "prepare cfg q = Inr pp" and "store_ok cfg (pr_run_id q) fs" and "unambiguous (fs_revisions fs)"
    and "eligible cfg pp (fs_current fs) (fs_revisions fs)" and "new_verified cfg pp d"
    and "pr_transaction_id q \<notin> fst ` set (fs_pointer_temps fs)"
  shows "\<exists>fs'. undisturbed cfg (Some (pp_pointer_bytes pp)) (fs_revisions fs @ [new_revision pp d]) fs' \<and>
    succeeds (published_files pp d fs) (thenIO (write_pointer cfg pp) (replace_and_confirm cfg pp)) () fs'"
proof -
  obtain fs' where fs': "undisturbed cfg (Some (pp_pointer_bytes pp)) (fs_revisions fs @ [new_revision pp d]) fs'"
    "succeeds fs' (confirm_lineage cfg pp) () fs'"
    "\<forall>b r fs1. ends_in b fs' (except_as q (\<lambda>_. reconciliation_failure q) (confirm_lineage cfg pp)) r fs1 \<longrightarrow>
       ends_in b (published_files pp d fs) (thenIO (write_pointer cfg pp) (replace_and_confirm cfg pp)) r fs1"
    using pointer_replaced [OF assms] by blast
  have "succeeds fs' (except_as q (\<lambda>_. reconciliation_failure q) (confirm_lineage cfg pp)) () fs'"
    by (rule live_except_as [OF fs'(2)])
  then show ?thesis using fs'(1,3) unfolding succeeds_def by blast
qed

end
