(* ===== verification/RevisionAvail.thy ===== *)
theory RevisionAvail
  imports RevisionLive
begin

text \<open>
  The whole publication when nothing fails: admission, metadata, bootstrap, staging, pointer,
  outcome, release of the lock.
\<close>

section \<open>Admission\<close>

lemma lineage_transactions:
  "read_lineage cfg run_id revs p r sha seen = Inr es \<Longrightarrow>
   \<forall>e\<in>set es. tx_transaction_id (snd (snd (snd e))) \<in> (snd \<circ> fst) ` set revs"
proof (induction rule: lineage_induct)
  case (last r sha seen c re m t)
  have "tx_transaction_id t = snd (fst c) \<and> c \<in> set revs"
    using last(2) select_revision_name [of cfg run_id revs p r sha "fst (fst c)" "snd (fst c)" "snd c"] last(1)
    by (cases c) (auto simp: verify_selected_def transaction_identity_def elim!: verify_revisionE split: prod.splits)
  then show ?case by (auto simp: image_iff intro!: bexI [of _ c])
next
  case (more r sha seen c re m t previous_sha rest)
  have "tx_transaction_id t = snd (fst c) \<and> c \<in> set revs"
    using more(2) select_revision_name [of cfg run_id revs p r sha "fst (fst c)" "snd (fst c)" "snd c"] more(1)
    by (cases c) (auto simp: verify_selected_def transaction_identity_def elim!: verify_revisionE split: prod.splits)
  then show ?case using more(8) by (auto simp: image_iff intro!: bexI [of _ c])
qed

lemma chain_lineage:
  "chain_core cfg r current revs = Inr c \<Longrightarrow>
   read_lineage cfg r revs (vc_pointer c) (po_revision (vc_pointer c)) (po_manifest_sha256 (vc_pointer c)) {} = Inr (vc_entries c)"
  by (auto simp: chain_core_def bindE_Inr)

lemma no_replay:
  assumes ok: "store_ok cfg r fs" and fresh: "pr_transaction_id (pp_request pp) \<notin> (snd \<circ> fst) ` set (fs_revisions fs)"
  shows "idempotency_outcome pp (current_chain cfg r (fs_current fs) (fs_revisions fs)) = Inr None"
proof (cases "fs_current fs = None")
  case True
  then show ?thesis by (simp add: current_chain_def idempotency_outcome_def)
next
  case False
  then obtain c where c: "chain_core cfg r (fs_current fs) (fs_revisions fs) = Inr c" using ok by (auto simp: store_ok_def)
  have all: "\<forall>e\<in>set (vc_entries c). tx_transaction_id (snd (snd (snd e))) \<in> (snd \<circ> fst) ` set (fs_revisions fs)"
    by (rule lineage_transactions [OF chain_lineage [OF c]])
  have "\<not> (case x of (i, re, m, m_sha, t) \<Rightarrow> tx_transaction_id t = pr_transaction_id (pp_request pp))"
    if x: "x \<in> set (zip [0..<length (vc_entries c)] (vc_entries c))" for x
  proof -
    obtain i re m m_sha t where e: "x = (i, re, m, m_sha, t)" by (metis prod.exhaust)
    then have "(re, m, m_sha, t) \<in> set (vc_entries c)" using x set_zip_rightD by metis
    from bspec [OF all this] have "tx_transaction_id t \<in> (snd \<circ> fst) ` set (fs_revisions fs)" by simp
    with fresh have "tx_transaction_id t \<noteq> pr_transaction_id (pp_request pp)" by metis
    then show ?thesis by (simp add: e)
  qed
  then have "List.find (\<lambda>(i, re, m, m_sha, t). tx_transaction_id t = pr_transaction_id (pp_request pp))
             (zip [0..<length (vc_entries c)] (vc_entries c)) = None"
    unfolding find_None_iff by blast
  with False c show ?thesis by (simp add: current_chain_def idempotency_outcome_def)
qed

lemma no_orphan:
  assumes "pr_transaction_id (pp_request pp) \<notin> fst ` set (fs_staging fs)"
    and "pr_transaction_id (pp_request pp) \<notin> (snd \<circ> fst) ` set (fs_revisions fs)"
  shows "replay_orphan_effect cfg pp fs = Inr None"
proof -
  have "orphan_candidates (pr_transaction_id (pp_request pp)) fs = []"
    using assms by (auto simp: orphan_candidates_def filter_empty_conv image_iff)
  then show ?thesis by (simp add: replay_orphan_effect_def)
qed

lemma live_admission:
  assumes run: "validate_run_id (pr_run_id q) = Inr (pr_run_id q)" and ok: "store_ok cfg (pr_run_id q) fs"
    and names: "scan_case_aliases (pr_run_id q) fs = Inr ()"
  shows "succeeds fs (check_admission cfg q changed) (fs, current_chain cfg (pr_run_id q) (fs_current fs) (fs_revisions fs)) fs"
proof -
  have ns: "validate_existing_namespace cfg (pr_run_id q) True fs = Inr ()"
    using ok by (simp add: validate_namespace_iff store_ok_def)
  have scan: "succeeds fs (observe (scan_case_aliases (pr_run_id q))) () fs" by (rule live_observe) (rule names)
  have valid: "succeeds fs (observe (validate_existing_namespace cfg (pr_run_id q) True)) () fs" by (rule live_observe) (rule ns)
  show ?thesis
    unfolding check_admission_def
    by (rule live_then [OF scan], rule live_then [OF live_except_storage [OF valid]],
        rule live_bind [OF live_except_storage [OF live_current_chain [OF run ok]]], rule live_bind [OF live_files live_ret])
qed

section \<open>Metadata and the control directories\<close>

definition same_run :: "run_files \<Rightarrow> run_files \<Rightarrow> bool" where
  \<comment> \<open>the parts of the run that its revisions depend on\<close>
  "same_run fs fs' \<longleftrightarrow> fs_current fs' = fs_current fs \<and> fs_revisions fs' = fs_revisions fs \<and> fs_staging fs' = fs_staging fs \<and>
     fs_pointer_temps fs' = fs_pointer_temps fs"

lemma live_metadata:
  assumes size: "int (length data) \<le> sc_max_artifact_bytes cfg" and fresh: "owner \<notin> fst ` set (fs_metadata_temps fs)"
  shows "\<exists>fs'. same_run fs fs' \<and> succeeds fs (write_metadata cfg owner data) () fs'"
proof -
  define fs1 where "fs1 = put_metadata_temp owner data (put_metadata_temp owner [] fs)"
  have temp: "map_of (fs_metadata_temps fs1) owner = Some data"
    by (simp add: fs1_def put_metadata_temp_def map_of_alist_update)
  have "succeeds fs (write_exclusive_verified (sc_max_artifact_bytes cfg) (\<lambda>fs. map_of (fs_metadata_temps fs) owner)
      (put_metadata_temp owner) data) () fs1"
    unfolding fs1_def
    by (rule live_write_exclusive [OF size])
      (use fresh in \<open>auto simp: map_of_eq_None_iff put_metadata_temp_def map_of_alist_update\<close>)
  moreover have "succeeds fs1 (exceptIO (atomic (replace_metadata owner)) (\<lambda>_. raiseIO (Publish_boundary True))) ()
      (replace_metadata owner fs1)"
    by (rule live_except [OF live_atomic])
  moreover have "succeeds (replace_metadata owner fs1) (at_boundary_of Verification_boundary (observe (\<lambda>fs.
        if fs_metadata fs = Some data then Inr () else Inl (Canonical_error ''metadata replace verification failed'')))) ()
      (replace_metadata owner fs1)"
    by (rule live_boundary, rule live_observe) (simp add: replace_metadata_def temp)
  ultimately have "succeeds fs (write_metadata cfg owner data) () (replace_metadata owner fs1)"
    unfolding write_metadata_def by (rule live_cons [OF _ live_cons [OF _ live_cons [OF _ live_nil]]])
  moreover have "same_run fs (replace_metadata owner fs1)"
    using temp by (simp add: same_run_def replace_metadata_def) (simp add: fs1_def put_metadata_temp_def)
  ultimately show ?thesis by blast
qed

lemma live_bootstrap_step: "\<exists>fs'. same_run fs fs' \<and> succeeds fs (bootstrap_step cfg r i) () fs'"
proof (cases "i < fs_bootstrapped fs")
  case True
  then have "succeeds fs (bootstrap_step cfg r i) () fs"
    unfolding bootstrap_step_def by (intro live_bind [OF live_files]) (simp add: live_os)
  then show ?thesis by (auto simp: same_run_def)
next
  case False
  let ?f = "\<lambda>fs. fs\<lparr>fs_bootstrapped := Suc i, fs_runs := (if i = 0 then r # fs_runs fs else fs_runs fs)\<rparr>"
  have "succeeds fs (bootstrap_step cfg r i) () (?f fs)"
    unfolding bootstrap_step_def
    by (rule live_bind [OF live_files], unfold if_not_P [OF False])
      (rule live_cons live_boundary live_atomic live_os live_sync_dir live_nil)+
  then show ?thesis by (rule exI [of _ "?f fs", OF conjI, rotated]) (simp add: same_run_def)
qed

lemma live_bootstrap: "\<exists>fs'. same_run fs fs' \<and> succeeds fs (bootstrap_namespace cfg r) () fs'"
proof -
  have "\<exists>fs'. same_run fs fs' \<and> succeeds fs (eachIO (bootstrap_step cfg r) is) () fs'" for "is"
  proof (induction "is" arbitrary: fs)
    case Nil
    show ?case by (auto simp: same_run_def intro: live_ret)
  next
    case (Cons i "is")
    obtain fs1 where one: "same_run fs fs1" "succeeds fs (bootstrap_step cfg r i) () fs1"
      using live_bootstrap_step by blast
    obtain fs2 where "same_run fs1 fs2" "succeeds fs1 (eachIO (bootstrap_step cfg r) is) () fs2"
      using Cons.IH by blast
    with one show ?case by (auto simp: same_run_def intro: live_then)
  qed
  then show ?thesis unfolding bootstrap_namespace_def .
qed

section \<open>The publication\<close>

definition control_new :: "run_files \<Rightarrow> bool" where
  \<comment> \<open>the lock file is created or repaired\<close>
  "control_new fs \<longleftrightarrow> fs_authority fs = None \<or> fs_authority fs = Some []"

definition lock_file_ok :: "run_files \<Rightarrow> bool" where
  "lock_file_ok fs \<longleftrightarrow> control_new fs \<or> fs_authority fs = Some [0]"

definition room :: "store_config \<Rightarrow> prepared_revision \<Rightarrow> byte list \<Rightarrow> run_files \<Rightarrow> bool" where
  \<comment> \<open>what the publication adds to the run, the lock file's byte included, fits the budget\<close>
  "room cfg pp metadata fs \<longleftrightarrow>
     run_physical_bytes fs + 1 + int (length metadata) + int (length (pp_transaction_bytes pp))
       + int (length (pp_manifest_bytes pp)) + sum_list (map ie_size_bytes (pp_inventories pp))
       + int (length (pp_pointer_bytes pp)) \<le> sc_max_run_bytes cfg"

definition publishable :: "store_config \<Rightarrow> publish_revision \<Rightarrow> prepared_revision \<Rightarrow> string \<Rightarrow> string \<Rightarrow> run_files \<Rightarrow> bool" where
  "publishable cfg q pp owner time fs \<longleftrightarrow>
     publish_preflight cfg q = Inr pp \<and> canonical_request q \<and> store_ok cfg (pr_run_id q) fs \<and>
     unambiguous (fs_revisions fs) \<and> eligible cfg pp (fs_current fs) (fs_revisions fs) \<and>
     pr_transaction_id q \<notin> fst ` set (fs_staging fs) \<and> pr_transaction_id q \<notin> fst ` set (fs_pointer_temps fs) \<and>
     owner \<notin> fst ` set (fs_metadata_temps fs) \<and> is_owner_token owner \<and>
     lock_file_ok fs \<and> scan_case_aliases (pr_run_id q) fs = Inr () \<and>
     (\<exists>metadata. metadata_value cfg q owner time = Inr metadata \<and>
        int (length metadata) \<le> sc_max_artifact_bytes cfg \<and> room cfg pp metadata fs)"

lemma published_outcome_built:
  assumes ok: "prepared_ok pp" and run: "validate_run_id (pr_run_id (pp_request pp)) = Inr (pr_run_id (pp_request pp))"
    and sync: "s = DS_confirmed \<or> s = DS_unavailable"
  shows "\<exists>x. published_outcome pp s = Inr x \<and> oc_kind x = Published"
proof -
  obtain heads es where t: "pp_transaction pp = transaction_of (pp_request pp) es heads"
    using ok by (auto simp: prepared_ok_def)
  have tx: "is_transaction_id (pr_transaction_id (pp_request pp))" "is_sha256 (tx_transaction_sha256 (pp_transaction pp))"
    "1 \<le> pr_proposed_revision (pp_request pp)"
    using prepared_okD(1) [OF ok] by (simp_all add: transaction_ok_def t transaction_of_fields expected_fields_ok_def)
  have sha: "is_sha256 (pp_manifest_sha256 pp)" "is_sha256 (pp_pointer_sha256 pp)"
    by (simp_all add: prepared_okD(7,8) [OF ok])
  show ?thesis
    using tx sha sync
    by (auto simp: published_outcome_def run_id_sha256_def run model_def publish_outcome_ok_def closed_outcome_def Let_def
        opt_sha256_def published_durability_def previous_kept_def)
qed

lemma thenIO_assoc: "thenIO m (thenIO n k) = thenIO (thenIO m n) k"
  by (rule ext) (simp add: thenIO_def bindIO_def split: prod.split sum.split)

definition finish :: "store_config \<Rightarrow> prepared_revision \<Rightarrow> publish_outcome io" where
  \<comment> \<open>what \<open>publish\<close> does once the revision is in its place\<close>
  "finish cfg pp = (let q = pp_request pp in
     thenIO (write_pointer cfg pp)
    (thenIO (replace_and_confirm cfg pp)
    (bindIO (exceptIO (directory_sync (sc_windows cfg)) (\<lambda>_. refuse q (sync_failure q)))
       (\<lambda>s. liftIO (published_outcome pp s)))))"

definition in_place :: "store_config \<Rightarrow> publish_revision \<Rightarrow> prepared_revision \<Rightarrow> rev_dir \<Rightarrow> run_files \<Rightarrow> bool" where
  \<comment> \<open>the files as they are once the revision is in its place, which is the end of \<open>fs_revisions\<close>\<close>
  "in_place cfg q pp d fs \<longleftrightarrow> prepare cfg q = Inr pp \<and> store_ok cfg (pr_run_id q) fs \<and> unambiguous (fs_revisions fs) \<and>
     eligible cfg pp (fs_current fs) (fs_revisions fs) \<and> new_verified cfg pp d \<and>
     pr_transaction_id q \<notin> fst ` set (fs_pointer_temps fs)"

lemma publish_new_reaches:
  assumes pre: "prepare cfg q = Inr pp" and canonical: "canonical_request q"
    and hashes: "sha256_bytes (pp_transaction_bytes pp) \<noteq> pp_manifest_sha256 pp"
    and ok: "store_ok cfg (pr_run_id q) fs" and free: "unambiguous (fs_revisions fs)"
    and el: "eligible cfg pp (fs_current fs) (fs_revisions fs)"
    and fresh: "pr_transaction_id q \<notin> fst ` set (fs_staging fs)" "pr_transaction_id q \<notin> fst ` set (fs_pointer_temps fs)"
      "owner \<notin> fst ` set (fs_metadata_temps fs)"
    and metadata: "metadata_value cfg q owner time = Inr metadata" "int (length metadata) \<le> sc_max_artifact_bytes cfg"
    and fits: "bytes + int (length metadata) + int (length (pp_transaction_bytes pp))
       + int (length (pp_manifest_bytes pp)) + sum_list (map ie_size_bytes (pp_inventories pp))
       + int (length (pp_pointer_bytes pp)) \<le> sc_max_run_bytes cfg"
  shows "\<exists>fs2 d. in_place cfg q pp d fs2 \<and> same_run fs fs2 \<and>
    (\<forall>b r fs'. ends_in b (published_files pp d fs2) (finish cfg pp) r fs' \<longrightarrow> ends_in b fs
      (publish_new cfg pp (current_chain cfg (pr_run_id q) (fs_current fs) (fs_revisions fs)) changed bytes owner time) r fs')"
proof -
  obtain heads where q: "pp_request pp = q" and okp: "prepared_ok pp" and run: "validate_run_id (pr_run_id q) = Inr (pr_run_id q)"
    and inv: "build_inventory (sc_admission cfg) q (sc_max_artifact_bytes cfg) = Inr (pp_inventories pp, heads)"
    by (rule prepareE [OF pre]) blast
  have adm: "list_all2 (admitted (sc_admission cfg) (pr_run_id q) (sc_max_artifact_bytes cfg)) (pr_artifacts q) (pp_inventories pp)"
    by (rule build_inventory_canonical(1) [OF inv]) (use canonical in \<open>simp add: canonical_request_def\<close>)
  have sizes: "0 \<le> sum_list (map ie_size_bytes es)" if "list_all2 (admitted ad r l) as es" for ad r l as es
    using that by (induction rule: list_all2_induct) (auto simp: admitted_def inventory_fields)
  have cas: "cas_matches q (current_chain cfg (pr_run_id q) (fs_current fs) (fs_revisions fs))"
    using el by (simp add: eligible_def q)
  obtain fs1 where fs1: "same_run fs fs1" "succeeds fs (write_metadata cfg owner metadata) () fs1"
    using live_metadata [OF metadata(2) fresh(3)] by blast
  obtain fs2 where fs2: "same_run fs1 fs2" "succeeds fs1 (bootstrap_namespace cfg (pr_run_id q)) () fs2"
    using live_bootstrap by blast
  have q1: "undisturbed cfg (fs_current fs) (fs_revisions fs) fs1"
    using holds_Inr [OF stableD [OF stable_metadata] _ succeedsD [OF fs1(2)]] store_quiet [OF ok] by simp
  have "undisturbed cfg (fs_current fs) (fs_revisions fs) fs2"
    using holds_Inr [OF stableD [OF stable_bootstrap] _ succeedsD [OF fs2(2)]] q1 by simp
  note ok2 = history_quiet(1) [OF ok this]
  have same: "same_run fs fs2" using fs1(1) fs2(1) by (simp add: same_run_def)
  have el2: "eligible cfg pp (fs_current fs2) (fs_revisions fs2)" and free2: "unambiguous (fs_revisions fs2)"
    using el free same by (simp_all add: same_run_def)
  have none: "\<not> revision_exists q fs2"
    using el2 by (force simp: eligible_def revision_exists_def q)
  obtain d where d: "new_verified cfg pp d" "succeeds fs2 (stage_revision cfg pp) () (published_files pp d fs2)"
    using live_stage_revision [OF pre canonical hashes refl _ none] fresh(1) same by (auto simp: same_run_def)
  have place: "in_place cfg q pp d fs2"
    using pre ok2 free2 el2 d(1) fresh(2) same by (auto simp: in_place_def same_run_def)
  have old: "0 \<le> opt_size (fs_metadata fs)" by (simp add: opt_size_def split: option.split)
  have peak: "\<not> sc_max_run_bytes cfg < max (bytes + int (length metadata))
            (max (bytes - opt_size (fs_metadata fs) + int (length metadata) + (int (length (pp_transaction_bytes pp))
               + int (length (pp_manifest_bytes pp)) + sum_list (map ie_size_bytes (pp_inventories pp))))
              (bytes - opt_size (fs_metadata fs) + int (length metadata) + (int (length (pp_transaction_bytes pp))
               + int (length (pp_manifest_bytes pp)) + sum_list (map ie_size_bytes (pp_inventories pp)))
               + int (length (pp_pointer_bytes pp))))"
    using fits old sizes [OF adm] by linarith
  have matching: "\<not> \<not> cas_matches q (current_chain cfg (pr_run_id q) (fs_current fs) (fs_revisions fs))" using cas by simp
  have small: "\<not> sc_max_artifact_bytes cfg < int (length metadata)" using metadata(2) by simp
  have "ends_in b fs (publish_new cfg pp (current_chain cfg (pr_run_id q) (fs_current fs) (fs_revisions fs)) changed bytes owner time) r fs'"
    if tail: "ends_in b (published_files pp d fs2) (finish cfg pp) r fs'" for b r fs'
    unfolding publish_new_def Let_def q if_not_P [OF matching]
    by (rule ends_bind [OF live_lift [OF metadata(1)]], unfold if_not_P [OF small],
        rule ends_bind [OF live_files], unfold if_not_P [OF peak],
        rule ends_then [OF live_except_as [OF fs1(2)]], rule ends_then [OF live_except [OF fs2(2)]], rule ends_then [OF d(2)],
        rule tail [unfolded finish_def Let_def q])
  with place same show ?thesis by blast
qed

lemma live_lock_calls: "succeeds fs m x fs' \<Longrightarrow> succeeds fs (unavailable changed b m) x fs'"
  "succeeds fs m x fs' \<Longrightarrow> succeeds fs (lock_or_busy changed b m) x fs'"
  unfolding unavailable_def lock_or_busy_def by (rule live_except, assumption)+

lemma live_acquire:
  assumes "lock_file_ok fs"
  shows "succeeds fs acquire_authority (control_new fs) (if control_new fs then put_authority [0] fs else fs)"
proof -
  have wr: "succeeds fs0 (write_authority changed) () (put_authority [0] fs0)" for fs0 changed
    unfolding write_authority_def by (rule live_then [OF live_lock_calls(1) [OF live_write] live_lock_calls(1) [OF live_os]])
  have put: "put_authority [0] (put_authority [] fs) = put_authority [0] fs" by (simp add: put_authority_def)
  define fs1 where "fs1 = (if fs_authority fs = None then put_authority [0] fs else fs)"
  define fs2 where "fs2 = (if control_new fs then put_authority [0] fs else fs)"
  have "succeeds fs (thenIO (unavailable False (Some Write_boundary) (atomic (put_authority [])))
      (thenIO (write_authority True) (retIO True))) True (put_authority [0] fs)"
    using live_then [OF wr live_ret, of "put_authority [] fs" True True]
    by (intro live_then [OF live_lock_calls(1) [OF live_atomic]]) (simp add: put)
  moreover have "succeeds fs (thenIO (unavailable False (Some Write_boundary) os_call) (retIO False)) False fs"
    by (rule live_then [OF live_lock_calls(1) [OF live_os] live_ret])
  ultimately have create: "succeeds fs create_authority (fs_authority fs = None) fs1"
    unfolding create_authority_def fs1_def by (intro live_bind [OF live_files]) auto
  have empty: "authority_content fs1 = [] \<longleftrightarrow> fs_authority fs = Some []"
    by (simp add: fs1_def authority_content_def put_authority_def split: option.split)
  have body: "succeeds fs1 (if authority_content fs1 = [] then thenIO (write_authority c) (retIO True) else retIO c) (control_new fs) fs2"
    if c: "c = (fs_authority fs = None)" for c
  proof (cases "authority_content fs1 = []")
    case True
    then have "fs1 = fs" "control_new fs" using empty by (auto simp: fs1_def control_new_def)
    then show ?thesis using True live_then [OF wr live_ret, of fs c True] by (simp add: fs2_def)
  next
    case False
    then have "control_new fs = c" "fs2 = fs1" using empty c by (auto simp: fs1_def fs2_def control_new_def)
    then show ?thesis using False by (simp add: live_ret)
  qed
  have repair: "succeeds fs1 (repair_authority (fs_authority fs = None)) (control_new fs) fs2"
    unfolding repair_authority_def
    by (rule live_then [OF live_lock_calls(2) [OF live_os]], rule live_bind [OF live_files], rule body [OF refl])
  have "authority_content fs2 = [0]"
    using assms by (auto simp: fs2_def authority_content_def put_authority_def lock_file_ok_def control_new_def)
  then have confirm: "succeeds fs2 (confirm_authority (control_new fs)) (control_new fs) fs2"
    unfolding confirm_authority_def
    by (intro live_bind [OF live_files]) (simp add: live_then [OF live_lock_calls(2) [OF live_os] live_ret])
  have "succeeds fs acquire_authority (control_new fs) fs2"
    unfolding acquire_authority_def open_authority_def
    by (rule live_then [OF live_except [OF live_os]], rule live_bind, rule live_bind [OF create],
        rule live_bind [OF repair], rule confirm, rule live_then [OF live_lock_calls(2) [OF live_os]],
        rule live_then [OF live_lock_calls(1) [OF live_os] live_ret])
  then show ?thesis by (simp add: fs2_def)
qed

lemma ends_release:
  assumes "ends_in b fs m r fs'" and "r \<noteq> Inl Killed"
  shows "ends_in b fs (release_after q changed m) r fs'"
proof (cases b)
  case True
  then obtain ds where "\<And>later. m \<lparr>w_files = fs, w_decisions = ds @ later\<rparr> = (r, \<lparr>w_files = fs', w_decisions = later\<rparr>)"
    using assms(1) by (auto simp: ends_in_def)
  then have "release_after q changed m \<lparr>w_files = fs, w_decisions = (ds @ [Done]) @ later\<rparr> =
    (r, \<lparr>w_files = fs', w_decisions = later\<rparr>)" for later
    using assms(2) by (simp add: release_after_def lease_release_def exceptIO_def os_call_def observe_def next_decision_def
        split: sum.split storage_exn.split)
  then have "\<forall>later. release_after q changed m \<lparr>w_files = fs, w_decisions = (ds @ [Done]) @ later\<rparr> =
    (r, \<lparr>w_files = fs', w_decisions = later\<rparr>)" by blast
  then show ?thesis unfolding ends_in_def using True by metis
next
  case False
  have "os_call (healthy fs') = (Inr (), healthy fs')" by (rule succeedsD [OF live_os])
  then show ?thesis
    using False assms by (simp add: ends_in_def release_after_def lease_release_def exceptIO_def split: sum.split storage_exn.split)
qed

lemma locked_files:
  assumes ok: "store_ok cfg r fs" and fs1: "fs1 = (if control_new fs then put_authority [0] fs else fs)"
  shows "same_run fs fs1" "store_ok cfg r fs1" "fs_metadata_temps fs1 = fs_metadata_temps fs"
    "scan_case_aliases r fs1 = scan_case_aliases r fs" "run_physical_bytes fs1 \<le> run_physical_bytes fs + 1"
proof -
  show same: "same_run fs fs1" by (simp add: same_run_def fs1 put_authority_def)
  show "store_ok cfg r fs1" using ok by (simp add: fs1 put_authority_def store_ok_def namespace_ok_def metadata_small_def)
  show "fs_metadata_temps fs1 = fs_metadata_temps fs" "scan_case_aliases r fs1 = scan_case_aliases r fs"
    by (simp_all add: fs1 put_authority_def scan_case_aliases_def)
  show "run_physical_bytes fs1 \<le> run_physical_bytes fs + 1"
    by (simp add: fs1 put_authority_def run_physical_bytes_def opt_size_def control_new_def split: option.split)
qed

lemma publish_reaches:
  assumes "publishable cfg q pp owner time fs"
    and hashes: "sha256_bytes (pp_transaction_bytes pp) \<noteq> pp_manifest_sha256 pp"
  shows "\<exists>fs2 d. in_place cfg q pp d fs2 \<and> same_run fs fs2 \<and>
    (\<forall>b r fs'. ends_in b (published_files pp d fs2) (finish cfg pp) r fs' \<longrightarrow> r \<noteq> Inl Killed \<longrightarrow>
       ends_in b fs (publish_run cfg q owner time) r fs')"
proof -
  obtain metadata where pre: "publish_preflight cfg q = Inr pp" and canonical: "canonical_request q"
    and ok: "store_ok cfg (pr_run_id q) fs"
    and free: "unambiguous (fs_revisions fs)" and el: "eligible cfg pp (fs_current fs) (fs_revisions fs)"
    and fresh: "pr_transaction_id q \<notin> fst ` set (fs_staging fs)" "pr_transaction_id q \<notin> fst ` set (fs_pointer_temps fs)"
      "owner \<notin> fst ` set (fs_metadata_temps fs)"
    and token: "is_owner_token owner" and lock: "lock_file_ok fs" and names: "scan_case_aliases (pr_run_id q) fs = Inr ()"
    and metadata: "metadata_value cfg q owner time = Inr metadata" "int (length metadata) \<le> sc_max_artifact_bytes cfg"
    and room: "room cfg pp metadata fs"
    using assms(1) by (auto simp: publishable_def)
  from prepareE [OF preflight_prepare [OF pre]] obtain heads where q: "pp_request pp = q" and okp: "prepared_ok pp"
    and run: "validate_run_id (pr_run_id q) = Inr (pr_run_id q)"
    and inv: "build_inventory (sc_admission cfg) q (sc_max_artifact_bytes cfg) = Inr (pp_inventories pp, heads)" by metis
  define fs1 where fs1: "fs1 = (if control_new fs then put_authority [0] fs else fs)"
  note lf = locked_files [OF ok fs1]
  let ?chain = "current_chain cfg (pr_run_id q) (fs_current fs1) (fs_revisions fs1)"
  have adm: "list_all2 (admitted (sc_admission cfg) (pr_run_id q) (sc_max_artifact_bytes cfg)) (pr_artifacts q) (pp_inventories pp)"
    by (rule build_inventory_canonical(1) [OF inv]) (use canonical in \<open>simp add: canonical_request_def\<close>)
  have size: "0 \<le> sum_list (map ie_size_bytes es)" if "list_all2 (admitted ad r l) as es" for ad r l as es
    using that by (induction rule: list_all2_induct) (auto simp: admitted_def inventory_fields)
  have fits: "run_physical_bytes fs1 + int (length metadata) + int (length (pp_transaction_bytes pp))
       + int (length (pp_manifest_bytes pp)) + sum_list (map ie_size_bytes (pp_inventories pp))
       + int (length (pp_pointer_bytes pp)) \<le> sc_max_run_bytes cfg"
    using room lf(5) by (simp add: room_def)
  have small: "\<not> sc_max_run_bytes cfg < run_physical_bytes fs1" using fits size [OF adm] by linarith
  have fresh_rev: "pr_transaction_id (pp_request pp) \<notin> (snd \<circ> fst) ` set (fs_revisions fs1)"
    using el lf(1) unfolding eligible_def same_run_def by metis
  have fresh_staging: "pr_transaction_id (pp_request pp) \<notin> fst ` set (fs_staging fs1)"
    using fresh(1) lf(1) by (simp add: q same_run_def)
  define changed where "changed = control_new fs"
  have here: "unambiguous (fs_revisions fs1)" "eligible cfg pp (fs_current fs1) (fs_revisions fs1)"
    "pr_transaction_id q \<notin> fst ` set (fs_staging fs1)" "pr_transaction_id q \<notin> fst ` set (fs_pointer_temps fs1)"
    "owner \<notin> fst ` set (fs_metadata_temps fs1)"
    using free el fresh lf(1,3) unfolding same_run_def by metis+
  obtain fs2 d where place: "in_place cfg q pp d fs2" "same_run fs1 fs2"
    and new: "\<forall>b r fs'. ends_in b (published_files pp d fs2) (finish cfg pp) r fs' \<longrightarrow>
      ends_in b fs1 (publish_new cfg pp ?chain changed (run_physical_bytes fs1) owner time) r fs'"
    using publish_new_reaches [OF preflight_prepare [OF pre] canonical hashes lf(2) here metadata fits] by blast
  have count: "succeeds fs1 (count_bytes q c eff) (run_physical_bytes fs1) fs1" for c eff
    unfolding count_bytes_def by (rule live_except, rule live_observe) simp
  have idem: "succeeds fs1 (liftIO (idempotency_outcome pp ?chain)) None fs1"
    by (rule live_lift [OF no_replay [OF lf(2) fresh_rev]])
  have orphan: "succeeds fs1 (observe (replay_orphan_effect cfg pp)) None fs1"
    by (rule live_observe) (rule no_orphan [OF fresh_staging fresh_rev])
  have adm1: "succeeds fs1 (check_admission cfg q changed) (fs1, ?chain) fs1"
    by (rule live_admission [OF run lf(2)]) (use names lf(4) in simp)
  have auth: "succeeds fs (authority (pr_run_id q)) changed fs1"
    unfolding authority_def fs1 changed_def by (rule live_except [OF live_acquire [OF lock]])
  have token': "\<not> \<not> is_owner_token owner" using token by simp
  have "ends_in b fs (publish_run cfg q owner time) r fs'"
    if tail: "ends_in b (published_files pp d fs2) (finish cfg pp) r fs'" "r \<noteq> Inl Killed" for b r fs'
  proof -
    have "ends_in b fs1 (publish_new cfg pp ?chain changed (run_physical_bytes fs1) owner time) r fs'" using new tail by blast
    then have "ends_in b fs1 (publish_locked cfg pp changed owner time) r fs'"
      unfolding publish_locked_def Let_def q
      by (intro ends_bind [OF adm1], unfold prod.case, intro ends_bind [OF count], unfold if_not_P [OF small],
          intro ends_bind [OF idem], unfold option.case, intro ends_bind [OF orphan], unfold option.case)
    then have locked: "ends_in b fs1 (release_after q changed (publish_locked cfg pp changed owner time)) r fs'"
      by (rule ends_release [OF _ tail(2)])
    show ?thesis
      unfolding publish_run_def
      by (rule ends_bind [OF live_lift [OF pre]], rule ends_then [OF live_ownership], unfold if_not_P [OF token'],
          rule ends_then [OF live_os], rule ends_bind [OF auth], rule locked)
  qed
  moreover have "same_run fs fs2" using lf(1) place(2) by (simp add: same_run_def)
  ultimately show ?thesis using place(1) by blast
qed

section \<open>The end of a publication\<close>

lemma finish_succeeds:
  assumes place: "in_place cfg q pp d fs"
  shows "\<exists>x fs'. oc_kind x = Published \<and> succeeds (published_files pp d fs) (finish cfg pp) x fs'"
proof -
  have a: "prepare cfg q = Inr pp" "store_ok cfg (pr_run_id q) fs" "unambiguous (fs_revisions fs)"
    "eligible cfg pp (fs_current fs) (fs_revisions fs)" "new_verified cfg pp d" "pr_transaction_id q \<notin> fst ` set (fs_pointer_temps fs)"
    using place by (simp_all add: in_place_def)
  from prepareE [OF a(1)] have q: "pp_request pp = q" and okp: "prepared_ok pp"
    and run: "validate_run_id (pr_run_id q) = Inr (pr_run_id q)" by metis+
  obtain fs3 where fs3: "succeeds (published_files pp d fs) (thenIO (write_pointer cfg pp) (replace_and_confirm cfg pp)) () fs3"
    using live_pointer [OF a] by blast
  define s where "s = (if sc_windows cfg then DS_unavailable else DS_confirmed)"
  have "s = DS_confirmed \<or> s = DS_unavailable" by (simp add: s_def)
  from published_outcome_built [OF okp _ this] obtain x where x: "published_outcome pp s = Inr x" "oc_kind x = Published"
    using run by (auto simp: q)
  have sync: "succeeds fs3 (exceptIO (directory_sync (sc_windows cfg)) (\<lambda>_. refuse q (sync_failure q))) s fs3"
    unfolding s_def by (rule live_except [OF live_sync])
  have "succeeds (published_files pp d fs) (finish cfg pp) x fs3"
    unfolding finish_def Let_def q thenIO_assoc
    by (rule live_then [OF fs3], rule live_bind [OF sync], rule live_lift [OF x(1)])
  with x(2) show ?thesis by blast
qed

lemma publish_succeeds:
  assumes "publishable cfg q pp owner time fs" and "sha256_bytes (pp_transaction_bytes pp) \<noteq> pp_manifest_sha256 pp"
  shows "\<exists>x fs'. oc_kind x = Published \<and> succeeds fs (publish_run cfg q owner time) x fs'"
proof -
  obtain fs2 d where place: "in_place cfg q pp d fs2"
    and run: "\<forall>b r fs'. ends_in b (published_files pp d fs2) (finish cfg pp) r fs' \<longrightarrow> r \<noteq> Inl Killed \<longrightarrow>
       ends_in b fs (publish_run cfg q owner time) r fs'"
    using publish_reaches [OF assms] by blast
  from finish_succeeds [OF place] run show ?thesis unfolding succeeds_def by blast
qed

section \<open>A root check that fails after the pointer was replaced\<close>

lemma ends_except_as: "ends_in b fs m (Inl (Run_error f)) fs' \<Longrightarrow> ends_in b fs (except_as q h m) (Inl (Run_error f)) fs'"
  by (erule ends_as) (simp add: except_as_def exceptIO_def raiseIO_def)

definition root_check_error :: "string \<Rightarrow> storage_exn" where
  "root_check_error h =
     Run_error ((plain_run_failure R_ROOT_INITIALIZATION_INCOMPLETE St_preflight)\<lparr>rf_run_id_sha256 := h\<rparr>)"

lemma root_check_fails:
  assumes "validate_run_id r = Inr r"
  shows "\<exists>h. ends_in True fs (read_chain cfg r v)
    (Inl (root_check_error h)) fs"
proof -
  obtain h where h: "run_id_sha256 r = Inr h" using assms by (auto simp: run_id_sha256_def)
  have "ownership r \<lparr>w_files = fs, w_decisions = [Fails 0 (Os [])] @ later\<rparr> =
      (Inl (root_check_error h), \<lparr>w_files = fs, w_decisions = later\<rparr>)" for later
    using h by (simp add: ownership_def exceptIO_def os_call_def observe_def next_decision_def exn_of_def raiseIO_def run_failure_error_def root_check_error_def)
  then have "\<forall>later. ownership r \<lparr>w_files = fs, w_decisions = [Fails 0 (Os [])] @ later\<rparr> =
      (Inl (root_check_error h), \<lparr>w_files = fs, w_decisions = later\<rparr>)" by blast
  then have "ends_in True fs (ownership r) (Inl (root_check_error h)) fs" unfolding ends_in_def by metis
  then have "ends_in True fs (thenIO (ownership r) k) (Inl (root_check_error h)) fs" for k :: "'b io"
    unfolding thenIO_def by (rule ends_stop)
  then show ?thesis
    unfolding read_chain_def by (intro exI [of _ h], rule ends_bind [OF live_lift [OF assms]])
qed

lemma misreported_publication:
  assumes "publishable cfg q pp owner time fs" and "sha256_bytes (pp_transaction_bytes pp) \<noteq> pp_manifest_sha256 pp"
  shows "\<exists>h fs' d. undisturbed cfg (Some (pp_pointer_bytes pp)) (fs_revisions fs @ [new_revision pp d]) fs' \<and> new_verified cfg pp d \<and>
    ends_in True fs (publish_run cfg q owner time)
      (Inl (root_check_error h)) fs'"
proof -
  obtain fs2 d where place: "in_place cfg q pp d fs2" "same_run fs fs2"
    and run: "\<forall>b r fs'. ends_in b (published_files pp d fs2) (finish cfg pp) r fs' \<longrightarrow> r \<noteq> Inl Killed \<longrightarrow>
       ends_in b fs (publish_run cfg q owner time) r fs'"
    using publish_reaches [OF assms] by blast
  have a: "prepare cfg q = Inr pp" "store_ok cfg (pr_run_id q) fs2" "unambiguous (fs_revisions fs2)"
    "eligible cfg pp (fs_current fs2) (fs_revisions fs2)" "new_verified cfg pp d" "pr_transaction_id q \<notin> fst ` set (fs_pointer_temps fs2)"
    using place by (simp_all add: in_place_def)
  from prepareE [OF a(1)] have q: "pp_request pp = q" and id: "validate_run_id (pr_run_id q) = Inr (pr_run_id q)" by metis+
  obtain fs3 where fs3: "undisturbed cfg (Some (pp_pointer_bytes pp)) (fs_revisions fs2 @ [new_revision pp d]) fs3"
    and tail: "\<forall>b r fs1. ends_in b fs3 (except_as q (\<lambda>_. reconciliation_failure q) (confirm_lineage cfg pp)) r fs1 \<longrightarrow>
       ends_in b (published_files pp d fs2) (thenIO (write_pointer cfg pp) (replace_and_confirm cfg pp)) r fs1"
    using pointer_replaced [OF a] by blast
  obtain h where h: "ends_in True fs3 (read_chain cfg (pr_run_id q) True)
    (Inl (root_check_error h)) fs3"
    using root_check_fails [OF id] by blast
  let ?e = "root_check_error h"
  have "ends_in True fs3 (except_as q (\<lambda>_. reconciliation_failure q) (confirm_lineage cfg pp)) (Inl ?e) fs3"
    unfolding confirm_lineage_def q root_check_error_def
    by (rule ends_except_as, rule ends_stop, rule h [unfolded root_check_error_def])
  with tail have "ends_in True (published_files pp d fs2) (thenIO (write_pointer cfg pp) (replace_and_confirm cfg pp)) (Inl ?e) fs3"
    by blast
  then have "ends_in True (published_files pp d fs2) (finish cfg pp) (Inl ?e) fs3"
    unfolding finish_def Let_def q thenIO_assoc thenIO_def [of "thenIO m n" for m n] by (rule ends_stop)
  moreover have "fs_revisions fs2 = fs_revisions fs" using place(2) by (simp add: same_run_def)
  ultimately have "undisturbed cfg (Some (pp_pointer_bytes pp)) (fs_revisions fs @ [new_revision pp d]) fs3"
    "ends_in True fs (publish_run cfg q owner time) (Inl ?e) fs3"
    using run fs3 by (simp_all add: root_check_error_def)
  then show ?thesis using a(5) by blast
qed

end
