(* ===== verification/RevisionSample.thy ===== *)
theory RevisionSample
  imports RevisionAvail Identifiers
begin

text \<open>
  A concrete request and store configuration at which the theorems of the revision store are
  applied: one approvals ledger, published as revision 1 of a fresh run.
\<close>

section \<open>Control strings\<close>

definition secret_chars :: "char list" where "secret_chars = ''-_:=iIyY'' @ space_chars"

lemma secret_needs: "must_read secret_chars SECRET_METADATA_PATTERN"
  by code_simp

lemma plain_control:
  assumes "set s \<inter> set secret_chars = {}" and "list_all (\<lambda>c. let n = of_char c :: nat in 32 \<le> n \<and> \<not> (127 \<le> n \<and> n < 160)) s"
  shows "control_string_ok s"
  using search_from_must_read [OF secret_needs assms(1)] assms(2) by (simp add: control_string_ok_def search_def)

section \<open>The sample\<close>

definition sample_evidence :: json where
  "sample_evidence = JObj [(''contains_restricted_secret'', JBool False), (''explicit_classification'', JStr ''internal''),
     (''explicit_source_trusted'', JBool True), (''restricted_secret_check_completed'', JBool True),
     (''source_classifications'', JList [])]"

definition local_binding :: "string \<Rightarrow> json" where
  "local_binding evidence_sha = JObj [(''classification'', JStr ''internal''), (''classification_evidence'', sample_evidence),
     (''classification_evidence_sha256'', JStr evidence_sha), (''classification_source'', JStr ''explicit_trusted''),
     (''kind'', JStr ''local_data''), (''logical_name'', JStr ''approvals.json''), (''policy_id'', JStr APPROVED_POLICY_ID),
     (''policy_sha256'', JStr APPROVED_POLICY_SHA256), (''policy_version'', JStr ''1.0.0'')]"

definition sample_binding :: json where
  "sample_binding = local_binding (classification_evidence_sha256 sample_evidence)"

definition sample_artifact :: artifact where
  "sample_artifact = \<lparr>ar_logical_name = ''approvals.json'', ar_media_type = ''application/json'',
     ar_artifact_schema_version = ''poker-approval-request-list-artifact-v1'',
     ar_serialization = ''poker-run-storage-json-v1'', ar_exact_bytes = [91, 93], ar_required = True,
     ar_classification = ''internal'', ar_classification_source = ''explicit_trusted'',
     ar_classification_evidence = sample_evidence, ar_policy_sha256 = APPROVED_POLICY_SHA256,
     ar_origin_kind = ''approval_ledger'', ar_provenance_bindings = [sample_binding]\<rparr>"

definition sample_txn :: string where "sample_txn = ''txn-00000000000000000000000000000000''"
definition sample_owner :: string where "sample_owner = ''owner-00000000000000000000000000000000''"
definition sample_time :: string where "sample_time = ''2026-01-01T00:00:00.000000Z''"

definition rev_request :: publish_revision where
  "rev_request = \<lparr>pr_run_id = ''run1'', pr_transaction_id = sample_txn, pr_proposed_revision = 1,
     pr_expected_revision = None, pr_expected_manifest_sha256 = None, pr_expected_pointer_sha256 = None,
     pr_created_at = sample_time, pr_producer_id = ''store1'', pr_producer_version = ''1'',
     pr_artifacts = [sample_artifact]\<rparr>"

definition sample_admission :: admission where
  "sample_admission = \<lparr>ad_classification_replays = (\<lambda>_. Some True), ad_payload = (\<lambda>_ _. None), ad_graph = (\<lambda>_ _. None)\<rparr>"

section \<open>Its admission\<close>

lemma sample_names:
  "control_string_ok ''approvals.json''" "control_string_ok ''run1''" "control_string_ok ''store1''" "control_string_ok ''1''"
  by (rule plain_control; simp add: secret_chars_def space_chars_def)+

lemma sample_run_id: "validate_run_id ''run1'' = Inr ''run1''"
proof -
  have "fullmatch STORAGE_PORTABLE_ID ''run1''" "\<not> ends_badly ''run1''" "\<not> device_alias ''run1''" by code_simp+
  then show ?thesis by (simp add: validate_run_id_def sample_names)
qed

lemma rev_request_ids: "storage_id ''run1''" "storage_id ''store1''" "storage_version ''1''"
  "is_transaction_id sample_txn" "is_owner_token sample_owner" "utc_text sample_time"
proof -
  have "fullmatch STORAGE_PORTABLE_ID ''run1''" "fullmatch STORAGE_PORTABLE_ID ''store1''" "fullmatch STORAGE_VERSION ''1''"
    by code_simp+
  then show "storage_id ''run1''" "storage_id ''store1''" "storage_version ''1''"
    by (simp_all add: storage_id_def storage_version_def sample_names)
  show "is_transaction_id sample_txn" "is_owner_token sample_owner"
    by code_simp+
  show "utc_text sample_time" by code_simp
qed

lemma sample_table:
  "artifact_table_entry ''approvals.json'' (Some ''poker-approval-request-list-artifact-v1'') =
     Inr (''application/json'', ''poker-run-storage-json-v1'', ''poker-approval-request-list-artifact-v1'', ''approval_ledger'')"
proof -
  have "path_parts ''approvals.json'' = [''approvals.json'']" "validate_segment ''approvals.json'' = Inr ()"
    "\<not> contains ''://'' ''approvals.json''" by code_simp+
  then have "validate_logical_name ''approvals.json'' = Inr ''approvals.json''"
    by (simp add: validate_logical_name_def sample_names)
  moreover have "map_of FIXED_ARTIFACT_TABLE ''approvals.json'' =
    Some (''application/json'', ''poker-run-storage-json-v1'', ''poker-approval-request-list-artifact-v1'', ''approval_ledger'')"
    by code_simp
  ultimately show ?thesis by (simp add: artifact_table_entry_def fixed_entry_def)
qed

lemma sample_field:
  "field ''policy_id'' (local_binding h) = JStr APPROVED_POLICY_ID" "field ''policy_version'' (local_binding h) = JStr ''1.0.0''"
  "field ''policy_sha256'' (local_binding h) = JStr APPROVED_POLICY_SHA256"
  "field ''logical_name'' (local_binding h) = JStr ''approvals.json''" "field ''kind'' (local_binding h) = JStr ''local_data''"
  "field ''classification'' (local_binding h) = JStr ''internal''"
  "field ''classification_source'' (local_binding h) = JStr ''explicit_trusted''"
  "field ''classification_evidence'' (local_binding h) = sample_evidence"
  "field ''classification_evidence_sha256'' (local_binding h) = JStr h"
  by (simp_all add: field_def local_binding_def)

lemma sample_kind [simp]: "binding_kind sample_binding = ''local_data''"
  by (simp add: binding_kind_def sample_binding_def sample_field)

lemma sample_canonical: "canonicalize_bindings [sample_binding] = Inr [sample_binding]"
  by (simp add: canonicalize_bindings_def sort_bindings_def Let_def same_identity_def)

lemma sample_validates: "2 \<le> limit \<Longrightarrow> validate_artifact sample_admission sample_artifact r limit = Inr ()"
proof -
  assume l: "2 \<le> limit"
  have name: "validate_logical_name ''approvals.json'' = Inr ''approvals.json''"
    using sample_table by (auto simp: artifact_table_entry_def bindE_Inr validate_logical_name_def split: if_splits)
  have cl: "classify_and_verify sample_admission sample_artifact = Inr ()"
    by (simp add: classify_and_verify_def sample_artifact_def sample_admission_def sample_evidence_def field_def bool_of_def)
  have lb: "local_data_binding sample_artifact = Inr sample_binding"
    by (simp add: local_data_binding_def sample_artifact_def local_bindings_def)
      (simp add: sample_binding_def sample_field)
  show ?thesis
    using l cl lb sample_table name sample_canonical
    by (simp add: validate_artifact_def sample_artifact_def refusal_def sample_admission_def)
qed

definition sample_entry :: inventory_entry where
  "sample_entry = \<lparr>ie_logical_name = ''approvals.json'', ie_revision_relative_path = ''payload/approvals.json'',
     ie_media_type = ''application/json'', ie_artifact_schema_version = ''poker-approval-request-list-artifact-v1'',
     ie_serialization = ''poker-run-storage-json-v1'', ie_size_bytes = 2, ie_sha256 = sha256_bytes [91, 93],
     ie_required = True, ie_classification = ''internal'', ie_classification_source = ''explicit_trusted'',
     ie_classification_evidence = sample_evidence,
     ie_classification_evidence_sha256 = classification_evidence_sha256 sample_evidence,
     ie_source_sha256 = upstream_source_sha256 [sample_binding], ie_provenance_bindings = [sample_binding]\<rparr>"

lemma sample_evidence_ok: "evidence_ok sample_evidence" "storable sample_evidence" "jsorted sample_evidence = sample_evidence"
  by code_simp+

lemma sample_binding_ok: "binding_ok sample_binding"
proof -
  have sorted: "jsorted (local_binding h) = local_binding h" for h
    using sample_evidence_ok(3) by (simp add: local_binding_def sorted_fields_def)
  have st: "storable (local_binding h)" for h
    using sample_evidence_ok(2) by (simp add: local_binding_def)
  have "has_fields (binding_fields ''local_data'') (local_binding h)" if "is_sha256 h" for h
    using that sample_evidence_ok(1)
    by (simp add: has_fields_def binding_fields_def)
      (simp add: field_def local_binding_def is_string_def is_text_def is_one_of_def CLASSIFICATIONS_def CLASSIFICATION_SOURCES_def insert_commute)
  then show ?thesis
    using sorted st
    by (simp add: binding_ok_def) (simp add: sample_binding_def classification_evidence_sha256_def BINDING_KINDS_def)
qed

lemma sample_entry_of: "inventory_of_artifact sample_artifact = Inr sample_entry"
proof -
  have "inventory_entry_ok sample_entry"
  proof -
    have "fullmatch ARTIFACT_SCHEMA_VERSION ''poker-approval-request-list-artifact-v1''" by code_simp
    then show ?thesis
      using sample_evidence_ok sample_binding_ok
      by (simp add: inventory_entry_ok_def sample_entry_def MEDIA_TYPES_def SERIALIZATIONS_def CLASSIFICATIONS_def
          CLASSIFICATION_SOURCES_def classification_evidence_sha256_def upstream_source_sha256_def)
  qed
  moreover have "canonicalize_bindings (ar_provenance_bindings sample_artifact) = Inr [sample_binding]"
    by (simp add: sample_artifact_def sample_canonical)
  ultimately show ?thesis
    by (simp add: inventory_of_artifact_def Let_def) (simp add: sample_artifact_def sample_entry_def)
qed

definition sample_head :: provenance_head where
  "sample_head = projr (head_of_kind ''local_data'' [sample_binding])"

lemma sample_head_of: "head_of_kind ''local_data'' [sample_binding] = Inr sample_head" "provenance_head_ok sample_head"
proof -
  show head: "head_of_kind ''local_data'' [sample_binding] = Inr sample_head"
    by (simp add: sample_head_def head_of_kind_def sample_canonical)
  show "provenance_head_ok sample_head"
    by (simp add: sample_head_def head_of_kind_def sample_canonical provenance_head_ok_def BINDING_KINDS_def)
qed

lemma sample_heads: "provenance_heads [sample_entry] = Inr [sample_head]"
  by (simp add: provenance_heads_def same_identity_def note_identity_def add_binding_def)
    (simp add: sample_entry_def same_identity_def note_identity_def add_binding_def sample_head_of(1))

lemma sample_inventory:
  assumes "2 \<le> limit"
  shows "build_inventory sample_admission rev_request limit = Inr ([sample_entry], [sample_head])"
proof -
  have order: "payload_order_key ''approvals.json'' = Inr (17, [])" by code_simp
  have arts: "pr_artifacts rev_request = [sample_artifact]" "pr_run_id rev_request = ''run1''"
    "ar_logical_name sample_artifact = ''approvals.json''" "pr_producer_id rev_request = ''store1''"
    by (simp_all add: rev_request_def sample_artifact_def)
  have excl: "exclusive_artifacts rev_request = Inr ()"
    by (simp add: exclusive_artifacts_def arts Let_def)
  have adm: "foldE (admit_artifact sample_admission rev_request limit) [] [sample_artifact] = Inr [sample_entry]"
    by (simp add: admit_artifact_def sample_validates [OF assms] sample_entry_of)
  have graph: "refusal (ad_graph sample_admission rev_request [sample_entry]) = Inr ()"
    by (simp add: refusal_def sample_admission_def)
  show ?thesis
    using adm graph
    by (simp add: build_inventory_def arts sample_run_id excl order sample_heads Let_def)
qed

section \<open>Its control records\<close>

definition sample_transaction :: transaction where
  "sample_transaction = transaction_of rev_request [sample_entry] [sample_head]"

definition sample_manifest :: manifest where "sample_manifest = manifest_of rev_request sample_transaction"

definition sample_manifest_sha256 :: string where
  "sample_manifest_sha256 = sha256_bytes (canonical_json_bytes (json_of_manifest sample_manifest))"

definition sample_pointer :: pointer where
  "sample_pointer = pointer_of rev_request sample_manifest sample_manifest_sha256"

definition sample_prepared :: prepared_revision where
  "sample_prepared = (let m_bytes = canonical_json_bytes (json_of_manifest sample_manifest);
       p_bytes = canonical_json_bytes (json_of_pointer sample_pointer) in
     \<lparr>pp_request = rev_request, pp_inventories = [sample_entry], pp_transaction = sample_transaction,
      pp_transaction_bytes = canonical_json_bytes (json_of_transaction sample_transaction), pp_manifest = sample_manifest,
      pp_manifest_bytes = m_bytes, pp_manifest_sha256 = sample_manifest_sha256, pp_pointer = sample_pointer,
      pp_pointer_bytes = p_bytes, pp_pointer_sha256 = sha256_bytes p_bytes\<rparr>)"

definition sample_base :: store_config where
  "sample_base = \<lparr>sc_max_artifact_bytes = 0, sc_max_run_bytes = 0, sc_producer_id = ''store1'',
     sc_producer_version = ''1'', sc_admission = sample_admission, sc_windows = False, sc_path_error = (\<lambda>_. None),
     sc_marker_sha256 = sha256_bytes [], sc_authority_identity_sha256 = sha256_bytes [], sc_process_id = 1\<rparr>"

definition sample_metadata :: "byte list" where
  "sample_metadata = canonical_json_bytes (json_of_metadata sample_base rev_request (sha256_bytes (utf8 ''run1''))
     sample_owner sample_time)"

definition sample_limit :: int where
  \<comment> \<open>large enough for every file of the sample\<close>
  "sample_limit = 3 + int (length (pp_transaction_bytes sample_prepared)) + int (length (pp_manifest_bytes sample_prepared))
     + int (length (pp_pointer_bytes sample_prepared)) + int (length sample_metadata)"

definition rev_config :: store_config where
  "rev_config = sample_base\<lparr>sc_max_artifact_bytes := sample_limit, sc_max_run_bytes := sample_limit\<rparr>"

lemma sample_transaction_ok: "transaction_ok sample_transaction"
proof -
  have e: "inventory_entry_ok sample_entry"
    using sample_entry_of by (auto simp: inventory_of_artifact_def bindE_Inr Let_def split: if_splits)
  show ?thesis
    using rev_request_ids e sample_head_of(2)
    by (simp add: transaction_ok_def sample_transaction_def transaction_of_fields transaction_sha256_def)
      (simp add: rev_request_def expected_fields_ok_def revision_expectations_ok_def opt_sha256_def)
qed

lemma sample_manifest_ok: "manifest_ok sample_manifest"
proof -
  have "tx_artifact_plan sample_transaction = [sample_entry]" "tx_provenance_heads sample_transaction = [sample_head]"
    by (simp_all add: sample_transaction_def transaction_of_fields)
  then show ?thesis
    using sample_transaction_ok rev_request_ids
    by (simp add: manifest_ok_def sample_manifest_def manifest_of_def transaction_ok_def opt_sha256_def inventory_sha256_def)
      (simp add: rev_request_def)
qed

lemma sample_pointer_ok: "pointer_ok sample_pointer"
proof -
  have m: "is_sha256 (mf_transaction_sha256 sample_manifest)" "is_sha256 (mf_inventory_sha256 sample_manifest)"
    using sample_manifest_ok by (simp_all add: manifest_ok_def)
  have n: "length (''revisions/'' @ revision_name 1 sample_txn) = 49" by code_simp
  show ?thesis
    using rev_request_ids m n
    by (simp add: pointer_ok_def sample_pointer_def pointer_of_def sample_manifest_sha256_def)
      (simp add: rev_request_def revision_name_def)
qed

lemma sample_prepare: "prepare rev_config rev_request = Inr sample_prepared"
proof -
  let ?L = "sample_limit"
  have lim: "2 \<le> ?L" by (simp add: sample_limit_def)
  have cfg: "sc_max_artifact_bytes rev_config = ?L" "sc_producer_id rev_config = ''store1''"
    "sc_producer_version rev_config = ''1''" "sc_admission rev_config = sample_admission"
    "sc_path_error rev_config = (\<lambda>_. None)"
    by (simp_all add: rev_config_def sample_base_def)
  have q: "pr_run_id rev_request = ''run1''" "pr_producer_id rev_request = ''store1''" "pr_producer_version rev_request = ''1''"
    by (simp_all add: rev_request_def)
  have pp: "pp_transaction_bytes sample_prepared = canonical_json_bytes (json_of_transaction sample_transaction)"
    "pp_manifest_bytes sample_prepared = canonical_json_bytes (json_of_manifest sample_manifest)"
    "pp_pointer_bytes sample_prepared = canonical_json_bytes (json_of_pointer sample_pointer)"
    by (simp_all add: sample_prepared_def Let_def)
  have small: "\<not> ?L < int (length (canonical_json_bytes (json_of_transaction sample_transaction)))"
    "\<not> ?L < int (length (canonical_json_bytes (json_of_manifest sample_manifest)))"
    "\<not> ?L < int (length (canonical_json_bytes (json_of_pointer sample_pointer)))"
    by (simp_all add: sample_limit_def pp)
  show ?thesis
    unfolding prepare_def q cfg sample_run_id sample_inventory [OF lim]
    using sample_transaction_ok sample_manifest_ok sample_pointer_ok small
    by (simp add: sample_transaction_def [symmetric] sample_manifest_def [symmetric] sample_manifest_sha256_def [symmetric]
        sample_pointer_def [symmetric] model_def Let_def sample_prepared_def)
qed

lemma sample_preflight: "publish_preflight rev_config rev_request = Inr sample_prepared"
  by (simp add: publish_preflight_def sample_prepare)

lemma sample_store: "store_ok cfg r fresh_run" "unambiguous (fs_revisions fresh_run)" if "0 \<le> sc_max_artifact_bytes cfg" for cfg r
  using that by (simp_all add: store_ok_def namespace_ok_def metadata_small_def fresh_run_def opt_size_def unambiguous_def manifest_bytes_of_def)

lemma sample_publishable: "publishable rev_config rev_request sample_prepared sample_owner sample_time fresh_run"
proof -
  have q: "pr_run_id rev_request = ''run1''" "pr_artifacts rev_request = [sample_artifact]"
    "pr_expected_revision rev_request = None" "pr_expected_manifest_sha256 rev_request = None"
    "pr_expected_pointer_sha256 rev_request = None" "pr_proposed_revision rev_request = 1"
    by (simp_all add: rev_request_def)
  have pq: "pp_request sample_prepared = rev_request" "pp_inventories sample_prepared = [sample_entry]"
    by (simp_all add: sample_prepared_def Let_def)
  have canonical: "canonical_request rev_request"
    by (simp add: canonical_request_def q sample_artifact_def sort_bindings_def)
  have lim: "0 \<le> sample_limit" by (simp add: sample_limit_def)
  have cfg: "sc_max_artifact_bytes rev_config = sample_limit" "sc_max_run_bytes rev_config = sample_limit"
    by (simp_all add: rev_config_def)
  have el: "eligible rev_config sample_prepared (fs_current fresh_run) (fs_revisions fresh_run)"
    by (simp add: eligible_def current_chain_def cas_matches_def fresh_run_def pq q)
  have md: "metadata_value rev_config rev_request sample_owner sample_time = Inr sample_metadata"
    using rev_request_ids
    by (simp add: metadata_value_def run_id_sha256_def q sample_run_id)
      (simp add: rev_config_def sample_base_def sample_metadata_def json_of_metadata_def)
  have small: "int (length sample_metadata) \<le> sample_limit" by (simp add: sample_limit_def)
  have "room rev_config sample_prepared sample_metadata fresh_run"
    by (simp add: room_def cfg pq)
      (simp add: sample_limit_def sample_entry_def run_physical_bytes_def fresh_run_def opt_size_def total_size_def)
  moreover have "scan_case_aliases ''run1'' fresh_run = Inr ()"
    by (simp add: scan_case_aliases_def fresh_run_def)
  ultimately show ?thesis
    using sample_preflight canonical sample_store [of rev_config] lim cfg el rev_request_ids md small
    by (simp add: publishable_def q) (simp add: fresh_run_def lock_file_ok_def control_new_def)
qed

end
