(* ===== verification/RevisionReaders.thy ===== *)
theory RevisionReaders
  imports RevisionAvail
begin

text \<open>
  The readers of a run.  Neither of them changes a file, whatever fails; what \<open>read_current\<close>
  returns is the log of the run, and \<open>read_artifact_history\<close> returns one artifact per
  revision, current to first, each with the bytes that its manifest commits to.
\<close>

section \<open>Reading changes nothing\<close>

lemma stable_files: "stable (\<lambda>fs. fs = fs0) m \<Longrightarrow> w_files w = fs0 \<Longrightarrow> w_files (snd (m w)) = fs0"
  unfolding stable_def holds_def by (cases "m w") (auto dest!: spec [of _ w] split: sum.splits)

lemma stable_retried [io]: "stable P m \<Longrightarrow> stable P (retried msgs m)"
  unfolding retried_def Let_def by (rule stable_except, assumption, auto intro!: stable_except)

lemma stable_read_current [io]: "stable P (read_current cfg r)" "stable P (read_artifact_history cfg r name v)"
  unfolding read_current_def read_artifact_history_def by (intro io | simp)+

section \<open>Calls that returned\<close>

lemma bindIO_Inr: "bindIO m f w = (Inr y, w2) \<longleftrightarrow> (\<exists>x w1. m w = (Inr x, w1) \<and> f x w1 = (Inr y, w2))"
  by (cases "m w", cases "fst (m w)") (auto simp: bindIO_def)

lemma except_raise_Inr: "exceptIO m (\<lambda>e. raiseIO (h e)) w = (Inr y, w1) \<longleftrightarrow> m w = (Inr y, w1)"
proof (cases "m w")
  case (Pair x w2)
  show ?thesis
  proof (cases x)
    case (Inl e)
    then show ?thesis using Pair by (cases e) (simp_all add: exceptIO_def raiseIO_def)
  qed (simp add: exceptIO_def Pair)
qed

lemma observe_Inr:
  assumes "observe f w = (Inr y, w1)"
  shows "f (w_files w) = Inr y \<and> w_files w1 = w_files w"
proof -
  obtain d w2 where d: "next_decision w = (d, w2)" "w_files w2 = w_files w"
    by (cases "w_decisions w") (simp_all add: next_decision_def)
  then show ?thesis using assms by (cases d) (simp_all add: observe_def)
qed

lemma except_retry:
  assumes "exceptIO m (\<lambda>e. if P e then n else raiseIO e) w = (Inr y, w1)" and "\<And>fs. stable (\<lambda>f. f = fs) m"
  shows "m w = (Inr y, w1) \<or> (\<exists>w0. w_files w0 = w_files w \<and> n w0 = (Inr y, w1))"
proof -
  have same: "w_files (snd (m w)) = w_files w" by (rule stable_files [OF assms(2) refl])
  obtain r w2 where m: "m w = (r, w2)" by (cases "m w")
  show ?thesis
  proof (cases r)
    case (Inl e)
    have e: "e \<noteq> Killed" using assms(1) m Inl by (auto simp: exceptIO_def)
    show ?thesis
    proof (cases "P e")
      case True
      then have "n w2 = (Inr y, w1)" using assms(1) m Inl e by (cases e) (simp_all add: exceptIO_def)
      then show ?thesis using same m by auto
    next
      case False
      then show ?thesis using assms(1) m Inl e by (cases e) (simp_all add: exceptIO_def raiseIO_def)
    qed
  next
    case (Inr x)
    then show ?thesis using assms(1) m by (simp add: exceptIO_def)
  qed
qed

lemma retried_Inr:
  assumes "retried msgs m w = (Inr y, w1)" and "\<And>fs. stable (\<lambda>f. f = fs) m"
  shows "\<exists>w0. w_files w0 = w_files w \<and> m w0 = (Inr y, w1)"
proof -
  let ?again = "exceptIO m (\<lambda>e. if e \<in> Canonical_error ` set msgs then m else raiseIO e)"
  have "m w = (Inr y, w1) \<or> (\<exists>w0. w_files w0 = w_files w \<and> ?again w0 = (Inr y, w1))"
    by (rule except_retry [OF _ assms(2)]) (use assms(1) in \<open>simp add: retried_def Let_def\<close>)
  then show ?thesis
  proof (elim disjE exE conjE)
    fix w0
    assume "w_files w0 = w_files w" and again: "?again w0 = (Inr y, w1)"
    then show ?thesis using except_retry [OF again assms(2)] by auto
  qed auto
qed

lemma live_retried: "succeeds fs m x fs' \<Longrightarrow> succeeds fs (retried msgs m) x fs'"
  unfolding retried_def Let_def by (rule live_except)

section \<open>The chain that is read\<close>

lemma read_chain_Inr:
  assumes "read_chain cfg r True w = (Inr c, w1)"
  shows "chain_of_files cfg r True (w_files w) = Inr c" and "w_files w1 = w_files w" and "history cfg r (w_files w) = vc_entries c"
    and "chain_core cfg r (fs_current (w_files w)) (fs_revisions (w_files w)) = Inr c"
proof -
  have same: "w_files (snd (ownership r w)) = w_files w" by (rule stable_files [OF stable_readers(1)]) simp
  then show c: "chain_of_files cfg r True (w_files w) = Inr c"
    using assms unfolding read_chain_def thenIO_def bindIO_Inr liftIO_def by (auto dest: observe_Inr)
  show "w_files w1 = w_files w" using stable_files [OF stable_readers(2) refl, of cfg r True w] assms by simp
  show core: "chain_core cfg r (fs_current (w_files w)) (fs_revisions (w_files w)) = Inr c"
    using c by (simp add: chain_of_files_Inr)
  have "fs_current (w_files w) \<noteq> None" using core by (auto simp: chain_core_def bindE_Inr control_bytes_Inr)
  then show "history cfg r (w_files w) = vc_entries c" using c unfolding history_def by auto
qed

lemma read_current_Inr:
  assumes "read_current cfg r w = (Inr v, w1)"
  obtains c where "chain_core cfg r (fs_current (w_files w)) (fs_revisions (w_files w)) = Inr c"
    "history cfg r (w_files w) = vc_entries c" "v = verified_of_chain r c"
proof -
  obtain c w2 where c: "retried [''current changed during structural read''] (read_chain cfg r True) w = (Inr c, w2)"
    "v = verified_of_chain r c"
    using assms unfolding read_current_def except_raise_Inr bindIO_Inr retIO_def by auto
  obtain w0 where w0: "w_files w0 = w_files w" "read_chain cfg r True w0 = (Inr c, w2)"
    using retried_Inr [OF c(1) stable_readers(2)] by blast
  show thesis by (rule that [OF read_chain_Inr(4,3) [OF w0(2), unfolded w0(1)] c(2)])
qed

lemma read_current_live:
  assumes ok: "store_ok cfg r fs" and run: "validate_run_id r = Inr r" and "fs_current fs \<noteq> None"
  shows "\<exists>c. chain_core cfg r (fs_current fs) (fs_revisions fs) = Inr c \<and> history cfg r fs = vc_entries c \<and>
    succeeds fs (read_current cfg r) (verified_of_chain r c) fs"
proof -
  obtain c where c: "chain_core cfg r (fs_current fs) (fs_revisions fs) = Inr c"
    using assms by (auto simp: store_ok_def)
  have ns: "namespace_ok cfg r fs" using ok by (simp add: store_ok_def)
  have chain: "succeeds fs (read_chain cfg r True) c fs"
    by (rule live_read_chain [OF run]) (use c ns in \<open>simp add: chain_of_files_core\<close>)
  have "succeeds fs (read_current cfg r) (verified_of_chain r c) fs"
    unfolding read_current_def by (rule live_except, rule live_bind [OF live_retried [OF chain]], rule live_ret)
  then show ?thesis using c history_chain [OF ns c] by blast
qed

lemma history_numbered:
  "map entry_revision (history cfg run_id fs) = countdown (int (length (history cfg run_id fs)))"
proof (cases "fs_current fs = None \<or> (\<exists>e. chain_of_files cfg run_id True fs = Inl e)")
  case True
  then have "history cfg run_id fs = []" by (auto simp: history_def)
  then show ?thesis by (simp add: countdown_def)
next
  case False
  then obtain c where c: "chain_of_files cfg run_id True fs = Inr c" by (meson sum.exhaust)
  then have core: "chain_core cfg run_id (fs_current fs) (fs_revisions fs) = Inr c" by (simp add: chain_of_files_Inr)
  have "history cfg run_id fs = vc_entries c" using False c unfolding history_def by auto
  then show ?thesis using chain_counts(2) [OF core] chain_length [OF core] by simp
qed

section \<open>The artifacts of a chain\<close>

definition entry_stored :: "store_config \<Rightarrow> string \<Rightarrow> revisions \<Rightarrow> chain_entry \<Rightarrow> bool" where
  \<comment> \<open>the revision directory that an entry was read from\<close>
  "entry_stored cfg r revs e \<longleftrightarrow> (case e of (re, m, m_sha, t) \<Rightarrow>
     \<exists>d p. ((re_revision re, re_transaction_id re), d) \<in> set revs \<and>
       verify_revision_directory cfg r (Revision_name (re_revision re) (re_transaction_id re)) d p = Inr (re, m, m_sha, t))"

lemma selected_stored:
  assumes "select_revision cfg r revs p n sha = Inr c" and "verify_selected cfg r p c = Inr (re, m, m_sha, t)"
  shows "entry_stored cfg r revs (re, m, m_sha, t)"
proof -
  obtain n' txn d where c: "c = ((n', txn), d)" by (metis prod.exhaust)
  have "((n', txn), d) \<in> set revs" using select_revision_name assms(1) c by blast
  moreover have "re = reachable_of m m_sha" "(n', txn) = (mf_revision m, mf_transaction_id m)"
    using selected_revision [OF assms] c by simp_all
  ultimately show ?thesis
    using assms(2) by (auto simp: entry_stored_def c verify_selected_def reachable_of_def)
qed

lemma lineage_stored: "read_lineage cfg r revs p n sha seen = Inr es \<Longrightarrow> \<forall>e\<in>set es. entry_stored cfg r revs e"
  by (induction rule: lineage_induct) (auto intro: selected_stored)

lemma chain_stored: "chain_core cfg r current revs = Inr c \<Longrightarrow> \<forall>e\<in>set (vc_entries c). entry_stored cfg r revs e"
  using chain_lineage lineage_stored by blast

lemma countdown_not_empty: "1 \<le> n \<Longrightarrow> countdown n \<noteq> []"
proof
  assume "1 \<le> n" "countdown n = []"
  then have "length (countdown n) = 0" by simp
  then show False using \<open>1 \<le> n\<close> by (simp only: length_countdown)
qed

lemma mapE_all2: "mapE f xs = Inr ys \<longleftrightarrow> list_all2 (\<lambda>x y. f x = Inr y) xs ys"
  by (induction xs arbitrary: ys) (auto simp: bindE_Inr list_all2_Cons1)

lemma stored_inventory:
  assumes "verify_revision_directory cfg r name d p = Inr (re, m, m_sha, t)" and "e \<in> set (mf_artifacts m)"
  shows "\<exists>a. verify_inventory_entry cfg r d e = Inr a"
proof -
  obtain as where "mapE (verify_inventory_entry cfg r d) (mf_artifacts m) = Inr as"
    using assms(1) by (auto simp: verify_revision_directory_def bindE_Inr Let_def split: prod.splits)
  then show ?thesis using assms(2) by (auto simp: mapE_all2 list_all2_conv_all_nth in_set_conv_nth)
qed

lemma inventory_bytes:
  assumes "verify_inventory_entry cfg r d e = Inr a"
  shows "sha256_bytes (ar_exact_bytes a) = ie_sha256 e"
proof (cases "Option.bind (rd_payload d) (\<lambda>fs. map_of fs (ie_logical_name e))")
  case None
  then show ?thesis
    using assms unfolding verify_inventory_entry_def by (simp add: bindE_Inr split: if_split_asm)
next
  case (Some data)
  then have "sha256_bytes data = ie_sha256 e \<and> ar_exact_bytes a = data"
    using assms unfolding verify_inventory_entry_def bindE_Inr Let_def
    by (clarsimp split: if_split_asm list.split_asm sum.split_asm)
  then show ?thesis by simp
qed

lemma only_filtered:
  assumes "filter P xs = [i]"
  shows "i \<in> set xs \<and> P i"
proof -
  have "i \<in> set (filter P xs)" by (simp add: assms)
  then show ?thesis unfolding set_filter by simp
qed

definition names_once :: "string \<Rightarrow> chain_entry \<Rightarrow> bool" where
  "names_once name e \<longleftrightarrow> length (filter (\<lambda>i. ie_logical_name i = name) (mf_artifacts (entry_manifest e))) = 1"

definition artifact_of :: "string \<Rightarrow> chain_entry \<Rightarrow> artifact_revision \<Rightarrow> bool" where
  \<comment> \<open>the artifact of that name that the manifest of the entry commits to\<close>
  "artifact_of name e a \<longleftrightarrow> av_revision a = entry_revision e \<and> av_transaction_id a = re_transaction_id (fst e) \<and>
     av_manifest_sha256 a = entry_sha256 e \<and>
     (\<exists>i\<in>set (mf_artifacts (entry_manifest e)). ie_logical_name i = name \<and> av_sha256 a = ie_sha256 i \<and>
        sha256_bytes (av_exact_bytes a) = ie_sha256 i)"

lemma artifact_of_entry_Inr:
  assumes "artifact_of_entry cfg r name v revs e = Inr a"
  shows "artifact_of name e a"
proof -
  obtain re m m_sha t where e: "e = (re, m, m_sha, t)" by (metis prod.exhaust)
  obtain i where i: "filter (\<lambda>i. ie_logical_name i = name) (mf_artifacts m) = [i]"
    using assms by (auto simp: artifact_of_entry_def e split: list.splits)
  then have "i \<in> set (mf_artifacts m)" "ie_logical_name i = name" using only_filtered [OF i] by simp_all
  with assms i show ?thesis
    by (auto simp: artifact_of_entry_def e artifact_of_def entry_revision_def entry_manifest_def entry_sha256_def
        bindE_Inr dest!: inventory_bytes split: option.splits if_splits)
qed

lemma artifact_of_entry_live:
  assumes "entry_stored cfg r revs e" and dist: "distinct (map fst revs)" and "names_once name e"
  shows "\<exists>a. artifact_of_entry cfg r name None revs e = Inr a"
proof -
  obtain re m m_sha t where e: "e = (re, m, m_sha, t)" by (metis prod.exhaust)
  obtain d p where d: "((re_revision re, re_transaction_id re), d) \<in> set revs"
    "verify_revision_directory cfg r (Revision_name (re_revision re) (re_transaction_id re)) d p = Inr (re, m, m_sha, t)"
    using assms(1) by (auto simp: entry_stored_def e)
  obtain i where i: "filter (\<lambda>i. ie_logical_name i = name) (mf_artifacts m) = [i]"
    using assms(3) by (auto simp: names_once_def e entry_manifest_def length_Suc_conv)
  then have "i \<in> set (mf_artifacts m)" using only_filtered [OF i] by simp
  from stored_inventory [OF d(2) this] obtain a where "verify_inventory_entry cfg r d i = Inr a" by blast
  moreover have "map_of revs (re_revision re, re_transaction_id re) = Some d"
    by (rule map_of_is_SomeI [OF dist d(1)])
  ultimately show ?thesis using i by (simp add: artifact_of_entry_def e)
qed

lemma artifacts_counted:
  assumes "list_all2 (artifact_of name) es revs"
  shows "map av_revision revs = map entry_revision es"
  using assms by (induction rule: list_all2_induct) (auto simp: artifact_of_def)

lemma read_history_Inr:
  assumes "read_artifact_history cfg r name v w = (Inr (n, revs), w1)"
  shows "n = int (length (history cfg r (w_files w))) \<and> list_all2 (artifact_of name) (history cfg r (w_files w)) revs"
proof -
  obtain w0 c w2 where c: "w_files w0 = w_files w" "read_chain cfg r True w0 = (Inr c, w2)"
    "mapE (artifact_of_entry cfg r name v (fs_revisions (w_files w2))) (vc_entries c) = Inr revs" "n = po_revision (vc_pointer c)"
    using assms unfolding read_artifact_history_def except_raise_Inr
    by (auto dest!: retried_Inr observe_Inr simp: bindIO_Inr bindE_Inr split: if_splits intro!: io)
  have "list_all2 (artifact_of name) (vc_entries c) revs"
    using c(3) by (auto simp: mapE_all2 intro: list_all2_mono artifact_of_entry_Inr)
  then show ?thesis
    using read_chain_Inr(3) [OF c(2)] chain_length [OF read_chain_Inr(4) [OF c(2)]] c(1,4) by simp
qed

lemma read_history_live:
  assumes ok: "store_ok cfg r fs" and run: "validate_run_id r = Inr r" and cur: "fs_current fs \<noteq> None"
    and names: "\<forall>e\<in>set (history cfg r fs). names_once name e"
  shows "\<exists>n revs. succeeds fs (read_artifact_history cfg r name None) (n, revs) fs"
proof -
  obtain c where c: "chain_core cfg r (fs_current fs) (fs_revisions fs) = Inr c" using ok cur by (auto simp: store_ok_def)
  have ns: "namespace_ok cfg r fs" and dist: "distinct (map fst (fs_revisions fs))" using ok by (simp_all add: store_ok_def)
  have chain: "succeeds fs (read_chain cfg r True) c fs"
    by (rule live_read_chain [OF run]) (use c ns in \<open>simp add: chain_of_files_core\<close>)
  let ?f = "artifact_of_entry cfg r name None (fs_revisions fs)"
  have "\<exists>revs. mapE ?f es = Inr revs" if "set es \<subseteq> set (vc_entries c)" for es
    using that
  proof (induction es)
    case (Cons e es)
    then have "entry_stored cfg r (fs_revisions fs) e" "names_once name e"
      using chain_stored [OF c] names history_chain [OF ns c] by auto
    from artifact_of_entry_live [OF this(1) dist this(2)] Cons show ?case by (auto simp: bindE_Inr)
  qed simp
  then obtain revs where revs: "mapE ?f (vc_entries c) = Inr revs" by blast
  then have "list_all2 (artifact_of name) (vc_entries c) revs"
    by (auto simp: mapE_all2 intro: list_all2_mono artifact_of_entry_Inr)
  then have "map av_revision revs = countdown (po_revision (vc_pointer c))"
    using artifacts_counted chain_counts(2) [OF c] by metis
  then have "structural_history_ok (po_revision (vc_pointer c)) revs"
    using countdown_not_empty [OF chain_counts(1) [OF c]]
    unfolding structural_history_ok_def countdown_def [symmetric] by (metis list.map_disc_iff)
  then have "succeeds fs (read_artifact_history cfg r name None) (po_revision (vc_pointer c), revs) fs"
    unfolding read_artifact_history_def
    by (intro live_except live_retried live_bind [OF chain] live_observe) (simp add: revs)
  then show ?thesis by blast
qed

end
