(* ===== verification/RevisionProps.thy ===== *)
theory RevisionProps
  imports RevisionSample RevisionReaders
begin

text \<open>
  The properties of the revision store.  A run is the log of the chain entries that its
  \<open>current.json\<close> reaches (\<open>history\<close>); every property speaks about arbitrary decisions of the
  operating system: calls that fail before, within or after their effect, and the end of the process.
\<close>

section \<open>One publication\<close>

text \<open>C23.  Refinement.  Whatever the operating system does during \<open>publish\<close>, and whether
  it returns, raises or the process dies, the files stay readable as a store and the log of the run
  either stays as it is or gets the one new entry in front, whose number is the next one and whose expectations
  are the head it replaces: no publication is half visible and none skips or repeats a revision.\<close>

theorem publication_is_atomic:
  assumes "store_ok cfg (pr_run_id q) (w_files w)" and "unambiguous (fs_revisions (w_files w))"
    and "publish_run cfg q owner time w = (r, w1)"
  shows "store_ok cfg (pr_run_id q) (w_files w1) \<and>
    log_step q (history cfg (pr_run_id q) (w_files w)) (history cfg (pr_run_id q) (w_files w1))"
  using publish_run_step [OF assms(1,2,3)] .

lemma sample_limits: "0 \<le> sc_max_artifact_bytes rev_config" "pr_run_id rev_request = ''run1''"
  by (simp_all add: rev_config_def sample_limit_def rev_request_def)

lemma publication_is_atomic_witness:
  "\<forall>ds. log_step rev_request []
    (history rev_config ''run1'' (w_files (snd (publish_run rev_config rev_request sample_owner sample_time
      \<lparr>w_files = fresh_run, w_decisions = ds\<rparr>))))"
proof
  fix ds
  let ?w = "\<lparr>w_files = fresh_run, w_decisions = ds\<rparr>"
  have "history rev_config ''run1'' fresh_run = []" by (simp add: history_none fresh_run_def)
  then show "log_step rev_request []
    (history rev_config ''run1'' (w_files (snd (publish_run rev_config rev_request sample_owner sample_time ?w))))"
    using publication_is_atomic [of rev_config rev_request ?w sample_owner sample_time] sample_limits
      sample_store [OF sample_limits(1)]
    by (cases "publish_run rev_config rev_request sample_owner sample_time ?w") auto
qed

text \<open>C24.  When \<open>publish\<close> returns, its outcome satisfies the validators of \<open>PublishOutcome\<close>, and
  it tells the truth: the kind is \<open>published\<close> exactly if this call put the new entry in front of
  the log; for every other kind (\<open>already_published\<close>, \<open>reconciliation_required\<close>) the log is
  the one before the call.\<close>

theorem outcome_is_true:
  assumes "publish_preflight cfg q = Inr pp" and "store_ok cfg (pr_run_id q) (w_files w)"
    and "unambiguous (fs_revisions (w_files w))" and "publish_run cfg q owner time w = (Inr x, w1)"
  shows "publish_outcome_ok x \<and> history cfg (pr_run_id q) (w_files w1) =
    (if oc_kind x = Published then new_entry pp # history cfg (pr_run_id q) (w_files w)
     else history cfg (pr_run_id q) (w_files w))"
proof -
  note ready = preflight_ready [OF assms(1-3)]
  have "report cfg pp (fs_current (w_files w)) (fs_revisions (w_files w)) x (w_files w1)"
    using publish_run_reports [OF assms(1,2,4)] by simp
  from report_history [OF ready(1) this] show ?thesis using ready(2) by (auto simp: published_effect_def Let_def)
qed

lemma sample_published:
  assumes "sha256_bytes (pp_transaction_bytes sample_prepared) \<noteq> pp_manifest_sha256 sample_prepared"
  obtains x fs' where "publish_run rev_config rev_request sample_owner sample_time (healthy fresh_run) = (Inr x, healthy fs')"
    "oc_kind x = Published" "store_ok rev_config ''run1'' fs'" "history rev_config ''run1'' fs' = [new_entry sample_prepared]"
    "fs_current fs' \<noteq> None"
proof -
  obtain x fs' where x: "oc_kind x = Published"
    "publish_run rev_config rev_request sample_owner sample_time (healthy fresh_run) = (Inr x, healthy fs')"
    using publish_succeeds [OF sample_publishable assms] by (auto dest: succeedsD)
  note ready = preflight_ready [OF sample_preflight, unfolded sample_limits(2), OF sample_store [OF sample_limits(1)]]
  have "report rev_config sample_prepared (fs_current fresh_run) (fs_revisions fresh_run) x fs'"
    using publish_run_reports [OF sample_preflight, of "healthy fresh_run"] x(2) sample_store [OF sample_limits(1)] by fastforce
  from report_history(1,3) [OF ready(1) this] x(1) have "store_ok rev_config ''run1'' fs'"
      "published_effect rev_config sample_prepared fresh_run fs'"
    by (simp_all add: ready(2) sample_limits)
  moreover from this(2) have h: "history rev_config ''run1'' fs' = [new_entry sample_prepared]"
    by (simp add: published_effect_def ready(2) sample_limits history_none) (simp add: history_none fresh_run_def)
  moreover have "fs_current fs' \<noteq> None" using h history_none [of fs' rev_config "''run1''"] by auto
  ultimately show thesis using that x by blast
qed

lemma outcome_is_true_witness:
  "sha256_bytes (pp_transaction_bytes sample_prepared) = pp_manifest_sha256 sample_prepared \<or>
   (\<exists>x w1. publish_run rev_config rev_request sample_owner sample_time (healthy fresh_run) = (Inr x, w1) \<and>
      publish_outcome_ok x \<and> history rev_config ''run1'' (w_files w1) = [new_entry sample_prepared])"
proof (cases "sha256_bytes (pp_transaction_bytes sample_prepared) = pp_manifest_sha256 sample_prepared")
  case False
  then obtain x fs' where x:
    "publish_run rev_config rev_request sample_owner sample_time (healthy fresh_run) = (Inr x, healthy fs')" "oc_kind x = Published"
    by (rule sample_published)
  have "history rev_config ''run1'' fresh_run = []" by (simp add: history_none fresh_run_def)
  moreover have "publish_outcome_ok x \<and> history rev_config (pr_run_id rev_request) (w_files (healthy fs')) =
    (if oc_kind x = Published then new_entry sample_prepared # history rev_config (pr_run_id rev_request) (w_files (healthy fresh_run))
     else history rev_config (pr_run_id rev_request) (w_files (healthy fresh_run)))"
    by (rule outcome_is_true [OF sample_preflight _ _ x(1)]) (simp_all add: sample_store [OF sample_limits(1)])
  ultimately show ?thesis using x by (simp add: sample_limits)
qed simp

text \<open>C25.  The effects that an error reports are the ones that happened, with the two stages
  excepted that a reader cannot rely on (\<open>preflight\<close>, see the property on the root check
  below, and \<open>lock_release\<close>): an error that says \<open>current_advanced\<close> has put the new entry in front of the log,
  and one that says \<open>current_unchanged\<close> has left the log alone.\<close>

theorem reported_effect_is_true:
  assumes "publish_preflight cfg q = Inr pp" and "store_ok cfg (pr_run_id q) (w_files w)"
    and "unambiguous (fs_revisions (w_files w))" and "publish_run cfg q owner time w = (Inl (Run_error f), w1)"
    and "rf_stage f \<notin> {St_preflight, St_lock_release}"
  shows "(rf_domain_effect f = DE_current_advanced \<longrightarrow>
      history cfg (pr_run_id q) (w_files w1) = new_entry pp # history cfg (pr_run_id q) (w_files w)) \<and>
    (rf_domain_effect f = DE_current_unchanged \<longrightarrow>
      history cfg (pr_run_id q) (w_files w1) = history cfg (pr_run_id q) (w_files w))"
proof -
  note ready = preflight_ready [OF assms(1-3)]
  have "refusal_report cfg pp (fs_current (w_files w)) (fs_revisions (w_files w)) (Run_error f) (w_files w1)"
    using publish_run_reports [OF assms(1,2,4)] by simp
  from refusal_history(3,4) [OF ready(1) this refl] show ?thesis
    using ready(2) assms(5) by (cases "rf_domain_effect f") (auto simp: published_effect_def Let_def)
qed

lemma reported_effect_is_true_witness:
  "history rev_config ''run1'' (w_files (snd (publish_run rev_config rev_request sample_owner sample_time
     \<lparr>w_files = fresh_run, w_decisions = [Done, Done, Done, Fails 1 (Os [])]\<rparr>))) = []"
proof -
  let ?w = "\<lparr>w_files = fresh_run, w_decisions = [Done, Done, Done, Fails 1 (Os [])]\<rparr>"
  let ?f = "(plain_run_failure R_TRANSACTION_WRITE_FAILED St_lock_bootstrap)\<lparr>rf_filesystem_effect := FE_none,
    rf_reconciliation_required := False, rf_run_id_sha256 := sha256_bytes (utf8 ''run1'')\<rparr>"
  have "run_id_sha256 ''run1'' = Inr (sha256_bytes (utf8 ''run1''))" by (simp add: run_id_sha256_def sample_run_id)
  then have run: "publish_run rev_config rev_request sample_owner sample_time ?w =
      (Inl (Run_error ?f), \<lparr>w_files = fresh_run\<lparr>fs_authority := Some []\<rparr>, w_decisions = []\<rparr>)"
    using sample_preflight rev_request_ids
    by (simp add: publish_run_def bindIO_def thenIO_def liftIO_def ownership_def exceptIO_def os_call_def observe_def
        next_decision_def authority_def acquire_authority_def open_authority_def create_authority_def unavailable_def
        atomic_def filesIO_def put_authority_def fresh_run_def raiseIO_def exn_of_def
        run_failure_error_def sample_limits changed_effect_def)
  show ?thesis
    using reported_effect_is_true [OF sample_preflight _ _ run] sample_store [OF sample_limits(1)] run
    by (simp add: sample_limits plain_run_failure_def history_none) (simp add: history_none fresh_run_def)
qed

section \<open>Many publications\<close>

text \<open>C26.  No sequence of publications of a run, with whatever failures and process deaths on the way, loses,
  reorders or changes an entry: the log only grows at its head, the files stay readable, and the
  entries stay numbered from the current revision down to 1.\<close>

theorem log_only_grows:
  assumes "(publishes cfg run_id)\<^sup>*\<^sup>* fs fs1" and "store_ok cfg run_id fs"
  shows "store_ok cfg run_id fs1 \<and> (\<exists>new. history cfg run_id fs1 = new @ history cfg run_id fs) \<and>
    map entry_revision (history cfg run_id fs1) = countdown (int (length (history cfg run_id fs1)))"
  using run.keeps_all [OF assms] run.only_grows [OF assms] history_numbered by blast

lemma log_only_grows_witness:
  "\<exists>new. history rev_config ''run1'' (w_files (snd (publish_run rev_config rev_request sample_owner sample_time
     \<lparr>w_files = fresh_run, w_decisions = [Done, Done, Done, Done, Dies 0]\<rparr>))) = new @ history rev_config ''run1'' fresh_run"
proof -
  let ?w = "\<lparr>w_files = fresh_run, w_decisions = [Done, Done, Done, Done, Dies 0]\<rparr>"
  obtain r w1 where run: "publish_run rev_config rev_request sample_owner sample_time ?w = (r, w1)" by fastforce
  have "publishes rev_config ''run1'' fresh_run (w_files w1)"
    by (rule publishes.intros [OF sample_limits(2) run]) (rule sample_store [OF sample_limits(1)])
  then show ?thesis
    using log_only_grows [OF r_into_rtranclp sample_store(1) [OF sample_limits(1)]] run by simp
qed

section \<open>Reading\<close>

text \<open>C27.  \<open>read_current\<close> writes nothing, and when it returns, whatever failed before, it has the
  whole log of the run: the revisions from the current one down to 1 without a gap, headed by the manifest that
  the result names.\<close>

theorem read_current_returns_log:
  assumes "read_current cfg run_id w = (Inr v, w1)"
  shows "w_files w1 = w_files w \<and> vr_reachable_history v = map fst (history cfg run_id (w_files w)) \<and>
    map re_revision (vr_reachable_history v) = countdown (vr_current_revision v) \<and>
    vr_current_revision v = int (length (history cfg run_id (w_files w))) \<and>
    head_sha256 (history cfg run_id (w_files w)) = Some (vr_manifest_sha256 v)"
proof -
  obtain c where c: "chain_core cfg run_id (fs_current (w_files w)) (fs_revisions (w_files w)) = Inr c"
    "history cfg run_id (w_files w) = vc_entries c" "v = verified_of_chain run_id c"
    by (rule read_current_Inr [OF assms])
  have "w_files w1 = w_files w" using stable_files [OF stable_read_current(1) refl, of cfg run_id w] assms by simp
  moreover obtain re m sha t rest where "vc_entries c = (re, m, sha, t) # rest"
    using chain_not_empty [OF c(1)] by (metis list.exhaust prod.exhaust)
  moreover have "entry_revision = re_revision \<circ> fst" by (rule ext) (simp add: entry_revision_def)
  ultimately show ?thesis
    using c chain_counts(2) [OF c(1)] chain_length [OF c(1)]
    by (simp add: verified_of_chain_def head_sha256_def entry_sha256_def) (simp add: entry_revision_def)
qed

lemma read_current_returns_log_witness:
  "sha256_bytes (pp_transaction_bytes sample_prepared) = pp_manifest_sha256 sample_prepared \<or>
   (\<exists>fs v. read_current rev_config ''run1'' (healthy fs) = (Inr v, healthy fs) \<and> vr_current_revision v = 1 \<and>
      vr_manifest_sha256 v = sample_manifest_sha256)"
proof (cases "sha256_bytes (pp_transaction_bytes sample_prepared) = pp_manifest_sha256 sample_prepared")
  case False
  then obtain fs where fs: "store_ok rev_config ''run1'' fs" "history rev_config ''run1'' fs = [new_entry sample_prepared]"
    "fs_current fs \<noteq> None"
    by (rule sample_published)
  obtain c where "read_current rev_config ''run1'' (healthy fs) = (Inr (verified_of_chain ''run1'' c), healthy fs)"
    using read_current_live [OF fs(1) sample_run_id fs(3)] by (auto dest: succeedsD)
  moreover from read_current_returns_log [OF this] fs(2)
  have "vr_current_revision (verified_of_chain ''run1'' c) = 1"
    "vr_manifest_sha256 (verified_of_chain ''run1'' c) = pp_manifest_sha256 sample_prepared"
    by (simp_all add: head_sha256_def entry_sha256_def new_entry_def)
  moreover have "pp_manifest_sha256 sample_prepared = sample_manifest_sha256" by (simp add: sample_prepared_def Let_def)
  ultimately show ?thesis by metis
qed simp

text \<open>C28.  \<open>_read_structural_artifact_history\<close> writes nothing, and what it returns is one
  artifact per revision of the log, in its order, each with bytes whose SHA-256 is the one the revision's
  manifest commits to for that logical name.\<close>

theorem artifact_history_is_exact:
  assumes "read_artifact_history cfg run_id name version w = (Inr (n, revs), w1)"
  shows "w_files w1 = w_files w \<and> n = int (length (history cfg run_id (w_files w))) \<and>
    map av_revision revs = countdown n \<and> list_all2 (artifact_of name) (history cfg run_id (w_files w)) revs"
proof -
  have "w_files w1 = w_files w" using stable_files [OF stable_read_current(2) refl, of cfg run_id name version w] assms by simp
  then show ?thesis using read_history_Inr [OF assms] artifacts_counted history_numbered by metis
qed

lemma artifact_history_is_exact_witness:
  "sha256_bytes (pp_transaction_bytes sample_prepared) = pp_manifest_sha256 sample_prepared \<or>
   (\<exists>fs a. read_artifact_history rev_config ''run1'' ''approvals.json'' None (healthy fs) = (Inr (1, [a]), healthy fs) \<and>
      av_sha256 a = sha256_bytes [91, 93])"
proof (cases "sha256_bytes (pp_transaction_bytes sample_prepared) = pp_manifest_sha256 sample_prepared")
  case False
  then obtain fs where fs: "store_ok rev_config ''run1'' fs" "history rev_config ''run1'' fs = [new_entry sample_prepared]"
    "fs_current fs \<noteq> None"
    by (rule sample_published)
  have arts: "mf_artifacts (entry_manifest (new_entry sample_prepared)) = [sample_entry]"
    by (simp add: new_entry_def entry_manifest_def sample_prepared_def Let_def sample_manifest_def manifest_of_def
        sample_transaction_def transaction_of_fields)
  have name: "ie_logical_name sample_entry = ''approvals.json''" "ie_sha256 sample_entry = sha256_bytes [91, 93]"
    by (simp_all add: sample_entry_def)
  obtain n revs where read: "read_artifact_history rev_config ''run1'' ''approvals.json'' None (healthy fs) = (Inr (n, revs), healthy fs)"
    using read_history_live [OF fs(1) sample_run_id fs(3), of "''approvals.json''"] fs(2)
    by (auto simp: names_once_def arts name dest: succeedsD)
  from artifact_history_is_exact [OF read] fs(2) obtain a where "n = 1" "revs = [a]"
      "artifact_of ''approvals.json'' (new_entry sample_prepared) a"
    by (auto simp: list_all2_Cons1)
  with read name show ?thesis by (auto simp: artifact_of_def arts)
qed simp

text \<open>Reading a run that was never published, with nothing else wrong, does not say
  \<open>RUN_INCOMPLETE\<close> but \<open>RUN_CORRUPT\<close> with a demand to reconcile: the handler for a missing
  \<open>current.json\<close> is never reached, because the link check before it reports the missing file as a
  canonical-storage error.\<close>

theorem unpublished_run_reads_corrupt:
  assumes "store_ok cfg run_id fs" and "validate_run_id run_id = Inr run_id" and "fs_current fs = None"
  shows "\<exists>f. read_current cfg run_id (healthy fs) = (Inl (Run_error f), healthy fs) \<and>
    rf_code f = R_RUN_CORRUPT \<and> rf_reconciliation_required f"
proof -
  have ns: "namespace_ok cfg run_id fs" using assms(1) by (simp add: store_ok_def)
  have chain: "chain_of_files cfg run_id True fs = Inl (Canonical_error ''authority is linked, reparsed, hardlinked, or nonregular'')"
    by (simp add: chain_of_files_core [OF ns] chain_core_def control_bytes_def assms(3))
  have "ends_in False fs (read_chain cfg run_id True)
      (Inl (Canonical_error ''authority is linked, reparsed, hardlinked, or nonregular'')) fs"
    unfolding read_chain_def
    by (rule ends_bind [OF live_lift [OF assms(2)]], rule ends_then [OF live_ownership])
      (simp add: ends_in_def observe_def chain)
  then have read: "read_chain cfg run_id True (healthy fs) =
      (Inl (Canonical_error ''authority is linked, reparsed, hardlinked, or nonregular''), healthy fs)"
    by (simp add: ends_in_def)
  obtain h where "run_id_sha256 run_id = Inr h" using assms(2) by (auto simp: run_id_sha256_def)
  then show ?thesis
    by (simp add: read_current_def retried_def Let_def exceptIO_def bindIO_def read raiseIO_def read_failure_def run_failure_error_def
        is_canonical_error_def plain_run_failure_def)
qed

lemma unpublished_run_reads_corrupt_witness:
  "\<exists>f. read_current rev_config ''run1'' (healthy fresh_run) = (Inl (Run_error f), healthy fresh_run) \<and>
    rf_code f = R_RUN_CORRUPT \<and> rf_reconciliation_required f"
  by (rule unpublished_run_reads_corrupt [OF sample_store(1) [OF sample_limits(1)] sample_run_id]) (simp add: fresh_run_def)

section \<open>What is written can be read\<close>

lemma read_control_sound:
  "read_pointer data = Some p \<Longrightarrow> pointer_ok p \<and> canonical_json_bytes (json_of_pointer p) = data"
  "read_manifest data = Some m \<Longrightarrow> manifest_ok m \<and> canonical_json_bytes (json_of_manifest m) = data"
  "read_transaction data = Some t \<Longrightarrow> transaction_ok t \<and> canonical_json_bytes (json_of_transaction t) = data"
  unfolding read_pointer_def read_manifest_def read_transaction_def by (rule parse_sound, assumption)+

text \<open>C30.  The strict reader of control files accepts exactly the canonical bytes of the valid
  records, and gives each record back: for the pointer, the manifest and the transaction, reading is the inverse of
  writing on valid records and refuses every other file, whether its JSON is malformed, not canonical,
  or names a field twice.\<close>

theorem control_files_roundtrip:
  "(read_pointer data = Some p \<longleftrightarrow> pointer_ok p \<and> data = canonical_json_bytes (json_of_pointer p)) \<and>
   (read_manifest data = Some m \<longleftrightarrow> manifest_ok m \<and> data = canonical_json_bytes (json_of_manifest m)) \<and>
   (read_transaction data = Some t \<longleftrightarrow> transaction_ok t \<and> data = canonical_json_bytes (json_of_transaction t))"
  by (auto simp: read_pointer_written read_manifest_written read_transaction_written dest: read_control_sound)

text \<open>C31.  Replay.  A directory that holds exactly the files a request was prepared to write, the
  request's artifacts being in canonical order, passes the verification that replays the whole
  preparation from the stored bytes, and gives back the entry that the publication announces.  (Unless
  the transaction and the manifest have the same SHA-256, which the verification refuses.)\<close>

theorem stored_request_verifies:
  assumes "prepare cfg q = Inr pp" and "canonical_request q" and "stored_exactly pp d"
    and "name = Staging_name (pr_transaction_id q) \<or> name = Revision_name (pr_proposed_revision q) (pr_transaction_id q)"
  shows "sha256_bytes (pp_transaction_bytes pp) = pp_manifest_sha256 pp \<or>
    verify_revision_directory cfg (pr_run_id q) name d None = Inr (new_entry pp)"
  using verify_prepared [OF assms(1-3) _ assms(4)] by blast

definition sample_dir :: rev_dir where
  "sample_dir = \<lparr>rd_transaction = Some (pp_transaction_bytes sample_prepared), rd_manifest = Some (pp_manifest_bytes sample_prepared),
     rd_payload = Some [(''approvals.json'', [91, 93])], rd_payload_dirs = []\<rparr>"

lemma stored_request_verifies_witness:
  "sha256_bytes (pp_transaction_bytes sample_prepared) = pp_manifest_sha256 sample_prepared \<or>
    verify_revision_directory rev_config (pr_run_id rev_request) (Revision_name 1 sample_txn) sample_dir None
      = Inr (new_entry sample_prepared)"
proof (rule stored_request_verifies [OF sample_prepare])
  show "canonical_request rev_request" using sample_publishable by (simp add: publishable_def)
  show "stored_exactly sample_prepared sample_dir"
    by (simp add: stored_exactly_def staged_control_def sample_dir_def sample_prepared_def Let_def rev_request_def
        sample_artifact_def parent_dirs_flat)
  show "Revision_name 1 sample_txn = Staging_name (pr_transaction_id rev_request) \<or>
    Revision_name 1 sample_txn = Revision_name (pr_proposed_revision rev_request) (pr_transaction_id rev_request)"
    by (simp add: rev_request_def)
qed

section \<open>Publications succeed\<close>

text \<open>C32.  When nothing fails, a canonical request that matches the head of the run, with a fresh
  transaction and room for its bytes, is published whatever earlier attempts left behind, and
  \<open>read_current\<close> then sees it.  (Unless the two control files have the same SHA-256.)\<close>

theorem publication_succeeds:
  assumes "publishable cfg q pp owner time fs"
  shows "sha256_bytes (pp_transaction_bytes pp) = pp_manifest_sha256 pp \<or>
    (\<exists>x v fs'. publish_run cfg q owner time (healthy fs) = (Inr x, healthy fs') \<and> oc_kind x = Published \<and>
       history cfg (pr_run_id q) fs' = new_entry pp # history cfg (pr_run_id q) fs \<and>
       read_current cfg (pr_run_id q) (healthy fs') = (Inr v, healthy fs') \<and>
       vr_current_revision v = pr_proposed_revision q \<and> vr_manifest_sha256 v = pp_manifest_sha256 pp)"
proof (cases "sha256_bytes (pp_transaction_bytes pp) = pp_manifest_sha256 pp")
  case False
  then obtain x fs' where x: "oc_kind x = Published" "publish_run cfg q owner time (healthy fs) = (Inr x, healthy fs')"
    using publish_succeeds [OF assms] by (auto dest: succeedsD)
  have pre: "publish_preflight cfg q = Inr pp" and ok: "store_ok cfg (pr_run_id q) fs" and free: "unambiguous (fs_revisions fs)"
    using assms by (auto simp: publishable_def)
  note ready = preflight_ready [OF pre ok free]
  have run: "validate_run_id (pr_run_id q) = Inr (pr_run_id q)" using prepareE [OF preflight_prepare [OF pre]] by metis
  have "report cfg pp (fs_current fs) (fs_revisions fs) x fs'"
    using publish_run_reports [OF pre _ x(2)] ok by simp
  from report_history(1,3) [OF ready(1) this] x(1) have ok': "store_ok cfg (pr_run_id q) fs'" and eff: "published_effect cfg pp fs fs'"
    by (simp_all add: ready(2))
  from eff have h: "history cfg (pr_run_id q) fs' = new_entry pp # history cfg (pr_run_id q) fs"
    and n: "pr_proposed_revision q = int (length (history cfg (pr_run_id q) fs)) + 1"
    by (simp_all add: published_effect_def Let_def ready(2) log_append_def)
  have "fs_current fs' \<noteq> None" using h history_none [of fs' cfg "pr_run_id q"] by auto
  from read_current_live [OF ok' run this] obtain c where c: "chain_core cfg (pr_run_id q) (fs_current fs') (fs_revisions fs') = Inr c"
    "history cfg (pr_run_id q) fs' = vc_entries c"
    "read_current cfg (pr_run_id q) (healthy fs') = (Inr (verified_of_chain (pr_run_id q) c), healthy fs')"
    by (auto dest: succeedsD)
  have "vr_current_revision (verified_of_chain (pr_run_id q) c) = pr_proposed_revision q"
    "vr_manifest_sha256 (verified_of_chain (pr_run_id q) c) = pp_manifest_sha256 pp"
    using h n c(2) chain_length [OF c(1)] by (simp_all add: verified_of_chain_def new_entry_def)
  then show ?thesis using x h c(3) by blast
qed simp

lemma publication_succeeds_witness:
  "sha256_bytes (pp_transaction_bytes sample_prepared) = pp_manifest_sha256 sample_prepared \<or>
    (\<exists>x v fs'. publish_run rev_config rev_request sample_owner sample_time (healthy fresh_run) = (Inr x, healthy fs') \<and>
       oc_kind x = Published \<and>
       history rev_config (pr_run_id rev_request) fs' = new_entry sample_prepared # history rev_config (pr_run_id rev_request) fresh_run \<and>
       read_current rev_config (pr_run_id rev_request) (healthy fs') = (Inr v, healthy fs') \<and>
       vr_current_revision v = pr_proposed_revision rev_request \<and> vr_manifest_sha256 v = pp_manifest_sha256 sample_prepared)"
  by (rule publication_succeeds [OF sample_publishable])

section \<open>A publication that is reported as not started\<close>

text \<open>C33.  The exception made for the stage \<open>preflight\<close> is real.  The check of the root that runs
  again while the new lineage is confirmed is reported with the stage, the code and the effects of the
  check at the start of the call: the current revision has advanced, and the error says that
  it is unchanged, that no file was touched and that nothing is to be reconciled.\<close>

theorem root_check_hides_publication:
  assumes "publishable cfg q pp owner time fs"
  shows "sha256_bytes (pp_transaction_bytes pp) = pp_manifest_sha256 pp \<or>
    (\<exists>ds f w1. publish_run cfg q owner time \<lparr>w_files = fs, w_decisions = ds\<rparr> = (Inl (Run_error f), w1) \<and>
       rf_code f = R_ROOT_INITIALIZATION_INCOMPLETE \<and> rf_stage f = St_preflight \<and>
       rf_domain_effect f = DE_current_unchanged \<and> rf_filesystem_effect f = FE_none \<and> \<not> rf_reconciliation_required f \<and>
       history cfg (pr_run_id q) (w_files w1) = new_entry pp # history cfg (pr_run_id q) fs)"
proof (cases "sha256_bytes (pp_transaction_bytes pp) = pp_manifest_sha256 pp")
  case False
  from misreported_publication [OF assms this] obtain h fs' d where d: "new_verified cfg pp d"
    "undisturbed cfg (Some (pp_pointer_bytes pp)) (fs_revisions fs @ [new_revision pp d]) fs'"
    and ends: "ends_in True fs (publish_run cfg q owner time) (Inl (root_check_error h)) fs'" by blast
  from ends obtain ds where run: "publish_run cfg q owner time \<lparr>w_files = fs, w_decisions = ds @ []\<rparr> =
      (Inl (root_check_error h), \<lparr>w_files = fs', w_decisions = []\<rparr>)"
    unfolding ends_in_def by auto
  have pre: "publish_preflight cfg q = Inr pp" and ok: "store_ok cfg (pr_run_id q) fs" and free: "unambiguous (fs_revisions fs)"
    and el: "eligible cfg pp (fs_current fs) (fs_revisions fs)"
    using assms by (auto simp: publishable_def)
  note ready = preflight_ready [OF pre ok free]
  have "advanced cfg pp (fs_revisions fs) fs'" using d by (auto simp: advanced_def)
  from advanced_history [OF ready(1) _ this] el
  have "history cfg (pr_run_id q) fs' = new_entry pp # history cfg (pr_run_id q) fs"
    by (simp add: traced_def published_effect_def Let_def ready(2))
  then have "publish_run cfg q owner time \<lparr>w_files = fs, w_decisions = ds\<rparr> =
        (Inl (Run_error ((plain_run_failure R_ROOT_INITIALIZATION_INCOMPLETE St_preflight)\<lparr>rf_run_id_sha256 := h\<rparr>)),
         \<lparr>w_files = fs', w_decisions = []\<rparr>) \<and>
      history cfg (pr_run_id q) fs' = new_entry pp # history cfg (pr_run_id q) fs"
    using run by (simp add: root_check_error_def)
  then show ?thesis by (intro disjI2 exI) (rule conjI, erule conjunct1, simp add: plain_run_failure_def)
qed simp

lemma root_check_hides_publication_witness:
  "sha256_bytes (pp_transaction_bytes sample_prepared) = pp_manifest_sha256 sample_prepared \<or>
    (\<exists>ds f w1. publish_run rev_config rev_request sample_owner sample_time \<lparr>w_files = fresh_run, w_decisions = ds\<rparr> =
         (Inl (Run_error f), w1) \<and>
       rf_code f = R_ROOT_INITIALIZATION_INCOMPLETE \<and> rf_stage f = St_preflight \<and>
       rf_domain_effect f = DE_current_unchanged \<and> rf_filesystem_effect f = FE_none \<and> \<not> rf_reconciliation_required f \<and>
       history rev_config (pr_run_id rev_request) (w_files w1) =
         new_entry sample_prepared # history rev_config (pr_run_id rev_request) fresh_run)"
  by (rule root_check_hides_publication [OF sample_publishable])

end
