(* ===== verification/RangeModels.thy ===== *)
theory RangeModels
  imports JsonParse DurableModels HandSchema Cards "HOL-Library.Product_Lexorder"
begin

text \<open>
  \<open>range_models.py\<close>: the strict models of a versioned range.  One record per model class;
  \<open>..._ok\<close> is what pydantic checks when the model is built or revalidated.  A \<open>Literal\<close>
  field with one value keeps its field, and the predicate pins it.  \<open>ranged_hand\<close> is
  \<open>CanonicalHand\<close> with the field \<open>known_ranges\<close>, which only the range grammar reads.
\<close>

section \<open>Constants and patterns\<close>

definition RANGE_SCHEMA_VERSION :: string where "RANGE_SCHEMA_VERSION = ''1.0.0''"
definition RANGE_RESULT_VERSION :: string where "RANGE_RESULT_VERSION = ''1.0.0''"
definition RANGE_GRAMMAR_ID :: string where "RANGE_GRAMMAR_ID = ''poker-deliberation.nlhe-range''"
definition RANGE_GRAMMAR_VERSION :: string where "RANGE_GRAMMAR_VERSION = ''1.0.0''"
definition RANGE_HASH_ALGORITHM :: string where "RANGE_HASH_ALGORITHM = ''sha256''"

definition MAX_RANGE_NOTATION_BYTES :: nat where "MAX_RANGE_NOTATION_BYTES = 16384"
definition MAX_RANGE_TOKENS :: nat where "MAX_RANGE_TOKENS = 1326"
definition MAX_EXPANDED_COMBOS :: nat where "MAX_EXPANDED_COMBOS = 1326"
definition MAX_RANGE_DIAGNOSTICS :: nat where "MAX_RANGE_DIAGNOSTICS = 64"
definition MAX_RANGE_ACTION_PREFIX :: int where "MAX_RANGE_ACTION_PREFIX = 512"
definition WEIGHT_SCALE :: int where "WEIGHT_SCALE = 1000000"

definition RANGE_ID_PATTERN :: re where
  "RANGE_ID_PATTERN = Seq (Cls alnum_chars) (Rep 0 (Some 127) (Cls (alnum_chars @ ''._-'')))"

definition POSITION_PATTERN :: re where
  "POSITION_PATTERN = Seq (Cls alnum_chars) (Rep 0 (Some 31) (Cls (alnum_chars @ ''_+-'')))"

definition range_portable_id :: "string \<Rightarrow> bool" where
  "range_portable_id s = fullmatch RANGE_ID_PATTERN s"

definition canonical_card :: "string \<Rightarrow> bool" where
  \<comment> \<open>\<open>_CARD_PATTERN\<close>\<close>
  "canonical_card s \<longleftrightarrow> (case s of [r, x] \<Rightarrow> r \<in> set RANKS \<and> x \<in> set SUITS | _ \<Rightarrow> False)"

section \<open>Diagnostics\<close>

datatype range_code =
    RNG_UNSUPPORTED_VERSION | RNG_LIMIT | RNG_NON_ASCII | RNG_SYNTAX | RNG_CARD
  | RNG_CLASS_ORDER | RNG_WEIGHT_LEXEME | RNG_WEIGHT_RANGE | RNG_OVERLAP | RNG_BLOCKER
  | RNG_EMPTY | RNG_PROVENANCE | RNG_LICENSE | RNG_TARGET | RNG_GAME_CONDITION
  | RNG_DIAGNOSTIC_LIMIT

datatype range_field =
    Envelope_field | Notation_field | Weight_field | Card_field | Blockers_field
  | Provenance_field | License_field | Target_player_field | Game_conditions_field

record range_diagnostic =
  rd_code :: range_code
  rd_field :: range_field
  rd_token_index :: "int option"

definition range_diagnostic_ok :: "range_diagnostic \<Rightarrow> bool" where
  "range_diagnostic_ok d \<longleftrightarrow>
     pred_option (\<lambda>i. 0 \<le> i \<and> i < int MAX_RANGE_TOKENS) (rd_token_index d)"

section \<open>Provenance and game conditions\<close>

datatype source_kind = User_supplied | Repository_fixture
datatype license_classification = User_supplied_private_analysis | Repository_owned_mit
datatype usage_classification = Local_analysis_only | Redistribution_allowed
datatype content_status = User_claim | Assumption

record range_source =
  rs_source_id :: string
  rs_source_kind :: source_kind
  rs_license_classification :: license_classification
  rs_usage_classification :: usage_classification
  rs_content_status :: content_status
  rs_content_sha256 :: string

fun source_rights :: "source_kind \<Rightarrow> license_classification \<times> usage_classification" where
  "source_rights User_supplied = (User_supplied_private_analysis, Local_analysis_only)"
| "source_rights Repository_fixture = (Repository_owned_mit, Redistribution_allowed)"

definition range_source_ok :: "range_source \<Rightarrow> bool" where
  "range_source_ok s \<longleftrightarrow>
     range_portable_id (rs_source_id s) \<and> is_sha256 (rs_content_sha256 s) \<and>
     (rs_license_classification s, rs_usage_classification s) = source_rights (rs_source_kind s)"

record range_conditions =
  rc_game_type :: game_type
  rc_format :: hand_format
  rc_table_size :: int
  rc_target_position :: string
  rc_street :: street
  rc_starting_stack_min_bb_milli :: int
  rc_starting_stack_max_bb_milli :: int
  rc_as_of_action_index :: int
  rc_action_prefix_sha256 :: string

definition range_conditions_ok :: "range_conditions \<Rightarrow> bool" where
  "range_conditions_ok c \<longleftrightarrow>
     rc_game_type c = NLHE \<and> 2 \<le> rc_table_size c \<and> rc_table_size c \<le> 10 \<and>
     fullmatch POSITION_PATTERN (rc_target_position c) \<and> rc_street c \<noteq> Showdown \<and>
     0 \<le> rc_starting_stack_min_bb_milli c \<and> rc_starting_stack_min_bb_milli c \<le> 10000000 \<and>
     0 \<le> rc_starting_stack_max_bb_milli c \<and> rc_starting_stack_max_bb_milli c \<le> 10000000 \<and>
     0 \<le> rc_as_of_action_index c \<and> rc_as_of_action_index c \<le> MAX_RANGE_ACTION_PREFIX \<and>
     is_sha256 (rc_action_prefix_sha256 c) \<and>
     rc_starting_stack_min_bb_milli c \<le> rc_starting_stack_max_bb_milli c"

record range_definition =
  rg_schema_version :: string
  rg_grammar_id :: string
  rg_grammar_version :: string
  rg_range_id :: string
  rg_target_player_id :: string
  rg_notation :: string
  rg_source :: range_source
  rg_game_conditions :: range_conditions

definition range_definition_ok :: "range_definition \<Rightarrow> bool" where
  "range_definition_ok d \<longleftrightarrow>
     range_portable_id (rg_range_id d) \<and> range_portable_id (rg_target_player_id d) \<and>
     rg_notation d \<noteq> [] \<and> range_source_ok (rg_source d) \<and>
     range_conditions_ok (rg_game_conditions d) \<and>
     rg_schema_version d = RANGE_SCHEMA_VERSION \<and> rg_grammar_id d = RANGE_GRAMMAR_ID \<and>
     rg_grammar_version d = RANGE_GRAMMAR_VERSION"

section \<open>Canonical combos\<close>

type_synonym combo = "string \<times> string"

definition position_in :: "char \<Rightarrow> string \<Rightarrow> int" where
  \<comment> \<open>\<open>str.index\<close> of a character that occurs\<close>
  "position_in c s = int (length (takeWhile (\<lambda>x. x \<noteq> c) s))"

definition card_key :: "string \<Rightarrow> int \<times> int" where
  "card_key c = (- position_in (c ! 0) RANKS, position_in (c ! 1) SUITS)"

record weighted_combo =
  wc_cards :: combo
  wc_weight_millionths :: int
  wc_canonical_token :: string

definition pad6 :: "int \<Rightarrow> string" where
  \<comment> \<open>\<open>f"{w:06d}"\<close> of a natural number\<close>
  "pad6 w = zero_pad 6 (nat_str (nat w))"

definition weighted_combo_ok :: "weighted_combo \<Rightarrow> bool" where
  "weighted_combo_ok c \<longleftrightarrow>
     (let (a, b) = wc_cards c; w = wc_weight_millionths c;
          suffix = (if w = WEIGHT_SCALE then [] else strip_zeros (''@0.'' @ pad6 w)) in
      1 \<le> w \<and> w \<le> WEIGHT_SCALE \<and>
      4 \<le> length (wc_canonical_token c) \<and> length (wc_canonical_token c) \<le> 20 \<and>
      a \<noteq> b \<and> canonical_card a \<and> canonical_card b \<and>
      sort_key card_key [a, b] = [a, b] \<and> wc_canonical_token c = a @ b @ suffix)"

section \<open>The validation result\<close>

datatype range_status = Range_success | Range_failed

record range_result =
  rr_schema_version :: string
  rr_result_version :: string
  rr_grammar_id :: string
  rr_grammar_version :: string
  rr_hash_algorithm :: string
  rr_status :: range_status
  rr_range_id :: string
  rr_target_player_id :: string
  rr_source :: range_source
  rr_game_conditions :: range_conditions
  rr_source_notation_sha256 :: string
  rr_condition_binding_sha256 :: "string option"
  rr_blockers :: "string list"
  rr_diagnostics :: "range_diagnostic list"
  rr_canonical_notation :: "string option"
  rr_canonical_combo_sha256 :: "string option"
  rr_combos :: "weighted_combo list"
  rr_combo_count :: int
  rr_total_weight_millionths :: int

definition json_of_combo :: "weighted_combo \<Rightarrow> json" where
  "json_of_combo c =
     JObj [(''cards'', JList [JStr (fst (wc_cards c)), JStr (snd (wc_cards c))]),
           (''weight_millionths'', JInt (wc_weight_millionths c))]"

definition combos_sha256 :: "weighted_combo list \<Rightarrow> string" where
  "combos_sha256 cs = canonical_sha256 (JList (map json_of_combo cs))"

definition closed_result_shape :: "range_result \<Rightarrow> bool" where
  "closed_result_shape r \<longleftrightarrow>
     rr_schema_version r = RANGE_SCHEMA_VERSION \<and> rr_result_version r = RANGE_RESULT_VERSION \<and>
     rr_grammar_id r = RANGE_GRAMMAR_ID \<and> rr_grammar_version r = RANGE_GRAMMAR_VERSION \<and>
     (if rr_status r = Range_success
      then rr_diagnostics r = [] \<and> rr_condition_binding_sha256 r \<noteq> None \<and>
        rr_combos r \<noteq> [] \<and> rr_combo_count r = int (length (rr_combos r)) \<and>
        rr_total_weight_millionths r = (\<Sum>c\<leftarrow>rr_combos r. wc_weight_millionths c) \<and>
        rr_canonical_notation r = Some (joined (map wc_canonical_token (rr_combos r))) \<and>
        rr_canonical_combo_sha256 r = Some (combos_sha256 (rr_combos r))
      else rr_diagnostics r \<noteq> [] \<and> rr_condition_binding_sha256 r = None \<and>
        rr_canonical_notation r = None \<and> rr_canonical_combo_sha256 r = None \<and>
        rr_combos r = [] \<and> rr_combo_count r = 0 \<and> rr_total_weight_millionths r = 0)"

definition range_result_ok :: "range_result \<Rightarrow> bool" where
  "range_result_ok r \<longleftrightarrow>
     rr_hash_algorithm r = RANGE_HASH_ALGORITHM \<and>
     range_portable_id (rr_range_id r) \<and> range_portable_id (rr_target_player_id r) \<and>
     range_source_ok (rr_source r) \<and> range_conditions_ok (rr_game_conditions r) \<and>
     is_sha256 (rr_source_notation_sha256 r) \<and> opt_sha256 (rr_condition_binding_sha256 r) \<and>
     length (rr_blockers r) \<le> 52 \<and> distinct (rr_blockers r) \<and>
     list_all canonical_card (rr_blockers r) \<and>
     length (rr_diagnostics r) \<le> MAX_RANGE_DIAGNOSTICS \<and>
     list_all range_diagnostic_ok (rr_diagnostics r) \<and>
     opt_sha256 (rr_canonical_combo_sha256 r) \<and>
     length (rr_combos r) \<le> MAX_EXPANDED_COMBOS \<and> list_all weighted_combo_ok (rr_combos r) \<and>
     0 \<le> rr_combo_count r \<and> rr_combo_count r \<le> int MAX_EXPANDED_COMBOS \<and>
     0 \<le> rr_total_weight_millionths r \<and>
     rr_total_weight_millionths r \<le> int MAX_EXPANDED_COMBOS * WEIGHT_SCALE \<and>
     closed_result_shape r"

section \<open>JSON forms\<close>

fun street_text :: "street \<Rightarrow> string" where
  "street_text Preflop = ''preflop''" | "street_text Flop = ''flop''"
| "street_text Turn = ''turn''" | "street_text River = ''river''"
| "street_text Showdown = ''showdown''"

fun game_type_text :: "game_type \<Rightarrow> string" where
  "game_type_text NLHE = ''NLHE''" | "game_type_text PLO = ''PLO''"
| "game_type_text OTHER = ''OTHER''"

fun format_text :: "hand_format \<Rightarrow> string" where
  "format_text Cash = ''cash''" | "format_text Tournament = ''tournament''"

fun action_text :: "action_kind \<Rightarrow> string" where
  "action_text Post_blind = ''post_blind''" | "action_text Post_ante = ''post_ante''"
| "action_text Fold = ''fold''" | "action_text Check = ''check''" | "action_text Call = ''call''"
| "action_text Bet = ''bet''" | "action_text Raise = ''raise''" | "action_text All_in = ''all_in''"

definition json_of_action :: "hand_action \<Rightarrow> json" where
  "json_of_action a = JObj
     [(''street'', JStr (street_text (ha_street a))), (''actor'', JStr (ha_actor a)),
      (''action'', JStr (action_text (ha_action a))), (''amount'', JFloat (ha_amount a)),
      (''to_amount'', jopt JFloat (ha_to_amount a)), (''pot_before'', jopt JFloat (ha_pot_before a)),
      (''pot_after'', jopt JFloat (ha_pot_after a))]"

definition json_of_conditions :: "range_conditions \<Rightarrow> json" where
  "json_of_conditions c = JObj
     [(''game_type'', JStr (game_type_text (rc_game_type c))),
      (''format'', JStr (format_text (rc_format c))), (''table_size'', JInt (rc_table_size c)),
      (''target_position'', JStr (rc_target_position c)),
      (''street'', JStr (street_text (rc_street c))),
      (''starting_stack_min_bb_milli'', JInt (rc_starting_stack_min_bb_milli c)),
      (''starting_stack_max_bb_milli'', JInt (rc_starting_stack_max_bb_milli c)),
      (''as_of_action_index'', JInt (rc_as_of_action_index c)),
      (''action_prefix_sha256'', JStr (rc_action_prefix_sha256 c))]"

section \<open>The hand a range belongs to\<close>

datatype known_range = Legacy_range json | Versioned_range range_definition

record ranged_hand = canonical_hand +
  h_known_ranges :: "known_range list"

fun known_range_ok :: "known_range \<Rightarrow> bool" where
  "known_range_ok (Legacy_range j) = True"
| "known_range_ok (Versioned_range d) = range_definition_ok d"

definition ranged_hand_ok :: "ranged_hand \<Rightarrow> bool" where
  "ranged_hand_ok h \<longleftrightarrow>
     canonical_hand_ok (canonical_hand.truncate h) \<and> list_all known_range_ok (h_known_ranges h)"

end
