(* ===== verification/RangeGrammar.thy ===== *)
theory RangeGrammar
  imports RangeModels
begin

text \<open>
  \<open>range_grammar.py\<close>: the weights, the tokens and their expansion, the binding of a range to
  its hand, and \<open>validate_versioned_range\<close>.  Every model the code builds is checked when it
  is built; a rejected one is the exception \<open>range_crash\<close>, which no handler catches.
\<close>

datatype range_crash = Rejected_diagnostic | Rejected_combo | Rejected_result

datatype range_exn = Range_value_error range_code | Range_arithmetic_error range_code

section \<open>Strings\<close>

fun split_char :: "char \<Rightarrow> string \<Rightarrow> string list" where
  \<comment> \<open>\<open>str.split\<close> at one character\<close>
  "split_char x [] = [[]]"
| "split_char x (c # s) =
     (if c = x then [] # split_char x s
      else (case split_char x s of [] \<Rightarrow> [[c]] | t # ts \<Rightarrow> (c # t) # ts))"

definition strip_set :: "char list \<Rightarrow> string \<Rightarrow> string" where
  "strip_set cs s = rev (dropWhile (\<lambda>c. c \<in> set cs) (rev (dropWhile (\<lambda>c. c \<in> set cs) s)))"

definition partition_at :: "char \<Rightarrow> string \<Rightarrow> string \<times> string option" where
  \<comment> \<open>\<open>str.partition\<close>: no separator is \<open>None\<close>\<close>
  "partition_at x s =
     (case dropWhile (\<lambda>c. c \<noteq> x) s of
        [] \<Rightarrow> (s, None)
      | _ # rest \<Rightarrow> (takeWhile (\<lambda>c. c \<noteq> x) s, Some rest))"

definition printable_ascii :: "string \<Rightarrow> bool" where
  \<comment> \<open>\<open>_ASCII\<close>\<close>
  "printable_ascii s \<longleftrightarrow> list_all (\<lambda>c. 32 \<le> (of_char c :: nat) \<and> (of_char c :: nat) \<le> 126) s"

section \<open>Weights\<close>

definition weight_lexeme :: "string \<Rightarrow> bool" where
  \<comment> \<open>\<open>_WEIGHT\<close>\<close>
  "weight_lexeme s = fullmatch
     (Alt (Seq (Cls ''0'') (Rep 0 (Some 1) (Seq (Cls ''.'') (Rep 1 (Some 6) (Cls digit_chars)))))
          (Seq (Cls ''1'') (Rep 0 (Some 1) (Seq (Cls ''.'') (Rep 1 (Some 6) (Cls ''0''))))) ) s"

definition decimal_of_text :: "string \<Rightarrow> rat" where
  \<comment> \<open>\<open>Decimal(text)\<close> of digits with at most one point\<close>
  "decimal_of_text s =
     (let (whole, fraction) = partition_at (CHR ''.'') s; ds = (case fraction of None \<Rightarrow> [] | Some f \<Rightarrow> f) in
      of_nat (digits_value whole) + of_nat (digits_value ds) / 10 ^ length ds)"

definition weight_millionths :: "string option \<Rightarrow> range_exn + int" where
  "weight_millionths text =
     (case text of
        None \<Rightarrow> Inr WEIGHT_SCALE
      | Some s \<Rightarrow>
          if \<not> weight_lexeme s then Inl (Range_value_error RNG_WEIGHT_LEXEME)
          else (let value = \<lfloor>dec_mul (decimal_of_text s) (of_int WEIGHT_SCALE)\<rfloor> in
            if \<not> (0 < value \<and> value \<le> WEIGHT_SCALE)
            then Inl (Range_arithmetic_error RNG_WEIGHT_RANGE) else Inr value))"

definition weight_text :: "int \<Rightarrow> string" where
  "weight_text w = (if w = WEIGHT_SCALE then [] else ''@0.'' @ strip_zeros (pad6 w))"

section \<open>Combos and tokens\<close>

definition canonical_combo :: "string \<Rightarrow> string \<Rightarrow> range_exn + combo" where
  "canonical_combo first second =
     (if first = second then Inl (Range_value_error RNG_CARD)
      else (let ordered = sort_key card_key [first, second] in Inr (ordered ! 0, ordered ! 1)))"

definition combo_sort_key :: "combo \<Rightarrow> (int \<times> int) \<times> (int \<times> int)" where
  "combo_sort_key c = (card_key (fst c), card_key (snd c))"

definition explicit_combo :: "string \<Rightarrow> combo option" where
  \<comment> \<open>the groups of \<open>_EXPLICIT_COMBO\<close>\<close>
  "explicit_combo s =
     (case s of
        [r1, s1, r2, s2] \<Rightarrow>
          if r1 \<in> set RANKS \<and> s1 \<in> set SUITS \<and> r2 \<in> set RANKS \<and> s2 \<in> set SUITS
          then Some ([r1, s1], [r2, s2]) else None
      | _ \<Rightarrow> None)"

definition hand_class :: "string \<Rightarrow> (char \<times> char \<times> char option) option" where
  \<comment> \<open>the groups of \<open>_HAND_CLASS\<close>\<close>
  "hand_class s =
     (case s of
        [r1, r2] \<Rightarrow> if r1 \<in> set RANKS \<and> r2 \<in> set RANKS then Some (r1, r2, None) else None
      | [r1, r2, x] \<Rightarrow>
          if r1 \<in> set RANKS \<and> r2 \<in> set RANKS \<and> x \<in> set ''so'' then Some (r1, r2, Some x) else None
      | _ \<Rightarrow> None)"

fun pairs_of :: "'a list \<Rightarrow> ('a \<times> 'a) list" where
  \<comment> \<open>\<open>combinations(xs, 2)\<close>\<close>
  "pairs_of [] = []"
| "pairs_of (x # xs) = map (Pair x) xs @ pairs_of xs"

definition class_cards :: "char \<Rightarrow> char \<Rightarrow> char option \<Rightarrow> (string \<times> string) list" where
  \<comment> \<open>the three comprehensions: the cards each calls \<open>_canonical_combo\<close> with\<close>
  "class_cards first_rank second_rank suffix =
     (if first_rank = second_rank
      then map (\<lambda>(s1, s2). ([first_rank, s1], [first_rank, s2])) (pairs_of SUITS)
      else if suffix = Some (CHR ''s'')
      then map (\<lambda>suit. ([first_rank, suit], [second_rank, suit])) SUITS
      else concat (map (\<lambda>s1. concat (map (\<lambda>s2.
             if s1 \<noteq> s2 then [([first_rank, s1], [second_rank, s2])] else []) SUITS)) SUITS))"

definition expanded_token :: "string \<Rightarrow> range_exn + (combo list \<times> int)" where
  "expanded_token token =
     (if 1 < count_list token (CHR ''@'') then Inl (Range_value_error RNG_SYNTAX)
      else (let (notation, raw_weight) = partition_at (CHR ''@'') token in
        bindE (weight_millionths raw_weight) (\<lambda>weight.
        case explicit_combo notation of
          Some (a, b) \<Rightarrow> bindE (canonical_combo a b) (\<lambda>c. Inr ([c], weight))
        | None \<Rightarrow>
            (case hand_class notation of
               None \<Rightarrow> Inl (Range_value_error RNG_SYNTAX)
             | Some (first_rank, second_rank, suffix) \<Rightarrow>
                 if first_rank = second_rank \<and> suffix \<noteq> None then Inl (Range_value_error RNG_SYNTAX)
                 else if first_rank \<noteq> second_rank \<and> suffix = None
                 then Inl (Range_value_error RNG_SYNTAX)
                 else if first_rank \<noteq> second_rank \<and>
                   position_in first_rank RANKS < position_in second_rank RANKS
                 then Inl (Range_value_error RNG_CLASS_ORDER)
                 else bindE (mapE (\<lambda>(a, b). canonical_combo a b)
                          (class_cards first_rank second_rank suffix))
                   (\<lambda>combos. Inr (combos, weight))))))"

section \<open>Diagnostics\<close>

definition new_diagnostic ::
    "range_code \<Rightarrow> range_field \<Rightarrow> int option \<Rightarrow> range_crash + range_diagnostic" where
  "new_diagnostic code field index =
     (let d = \<lparr>rd_code = code, rd_field = field, rd_token_index = index\<rparr> in
      if range_diagnostic_ok d then Inr d else Inl Rejected_diagnostic)"

fun exn_code :: "range_exn \<Rightarrow> range_code" where
  "exn_code (Range_value_error c) = c"
| "exn_code (Range_arithmetic_error c) = c"

definition field_of_code :: "range_code \<Rightarrow> range_field" where
  "field_of_code c =
     (if c = RNG_WEIGHT_LEXEME \<or> c = RNG_WEIGHT_RANGE then Weight_field
      else if c = RNG_CARD then Card_field else Notation_field)"

definition diagnostic_from_exception :: "range_exn \<Rightarrow> int \<Rightarrow> range_crash + range_diagnostic" where
  "diagnostic_from_exception e index =
     new_diagnostic (exn_code e) (field_of_code (exn_code e)) (Some index)"

definition bounded_diagnostics :: "range_diagnostic list \<Rightarrow> range_diagnostic list" where
  "bounded_diagnostics ds =
     (if length ds \<le> MAX_RANGE_DIAGNOSTICS then ds
      else take (MAX_RANGE_DIAGNOSTICS - 1) ds
        @ [\<lparr>rd_code = RNG_DIAGNOSTIC_LIMIT, rd_field = Notation_field, rd_token_index = None\<rparr>])"

definition new_result :: "range_result \<Rightarrow> range_crash + range_result" where
  "new_result r = (if range_result_ok r then Inr r else Inl Rejected_result)"

definition range_failed ::
    "range_definition \<Rightarrow> string \<Rightarrow> range_diagnostic list \<Rightarrow> range_crash + range_result" where
  "range_failed d source_hash ds = new_result
     \<lparr>rr_schema_version = RANGE_SCHEMA_VERSION, rr_result_version = RANGE_RESULT_VERSION,
      rr_grammar_id = RANGE_GRAMMAR_ID, rr_grammar_version = RANGE_GRAMMAR_VERSION,
      rr_hash_algorithm = RANGE_HASH_ALGORITHM, rr_status = Range_failed,
      rr_range_id = rg_range_id d, rr_target_player_id = rg_target_player_id d,
      rr_source = rg_source d, rr_game_conditions = rg_game_conditions d,
      rr_source_notation_sha256 = source_hash, rr_condition_binding_sha256 = None,
      rr_blockers = [], rr_diagnostics = bounded_diagnostics ds, rr_canonical_notation = None,
      rr_canonical_combo_sha256 = None, rr_combos = [], rr_combo_count = 0,
      rr_total_weight_millionths = 0\<rparr>"

definition failed_with ::
    "range_definition \<Rightarrow> string \<Rightarrow> range_code \<Rightarrow> range_field \<Rightarrow> range_crash + range_result" where
  \<comment> \<open>\<open>_failed\<close> with one diagnostic that names no token\<close>
  "failed_with d source_hash code field =
     bindE (new_diagnostic code field None) (\<lambda>diag. range_failed d source_hash [diag])"

section \<open>The binding of a range to its hand\<close>

definition action_prefix_sha256 :: "ranged_hand \<Rightarrow> int \<Rightarrow> string option" where
  \<comment> \<open>\<open>None\<close> is the \<open>ValueError\<close> of an index that is out of range\<close>
  "action_prefix_sha256 h i =
     (if \<not> (0 \<le> i \<and> i \<le> min (int (length (h_actions h))) MAX_RANGE_ACTION_PREFIX) then None
      else Some (canonical_sha256 (JList (map json_of_action (take (nat i) (h_actions h))))))"

fun visible_board_count :: "street \<Rightarrow> nat" where
  "visible_board_count Preflop = 0" | "visible_board_count Flop = 3"
| "visible_board_count Turn = 4" | "visible_board_count River = 5"
| "visible_board_count Showdown = 0"

definition player_of :: "ranged_hand \<Rightarrow> string \<Rightarrow> player_stack option" where
  "player_of h p = map_of (rev (map (\<lambda>s. (ps_player_id s, s)) (h_players h))) p"

definition observed_street :: "ranged_hand \<Rightarrow> int \<Rightarrow> street" where
  "observed_street h i =
     (if i < int (length (h_actions h)) then ha_street (h_actions h ! nat i)
      else if h_actions h \<noteq> [] then ha_street (last (h_actions h)) else Preflop)"

definition stack_bb_milli :: "ranged_hand \<Rightarrow> player_stack \<Rightarrow> rat" where
  "stack_bb_milli h p = dec_div (dec_mul (ps_starting_stack p) 1000) (h_big_blind h)"

definition json_of_binding ::
    "ranged_hand \<Rightarrow> range_definition \<Rightarrow> player_stack \<Rightarrow> string \<Rightarrow> string list \<Rightarrow> json" where
  "json_of_binding h d p prefix_hash blockers =
     (let c = rg_game_conditions d in JObj
     [(''range_id'', JStr (rg_range_id d)), (''target_player_id'', JStr (rg_target_player_id d)),
      (''hero_player_id'', jstr (h_hero_player_id h)), (''game_conditions'', json_of_conditions c),
      (''game_type'', JStr (game_type_text (h_game_type h))),
      (''format'', JStr (format_text (h_format h))), (''table_size'', JInt (h_table_size h)),
      (''target_position'', JStr (ps_position p)), (''starting_stack'', JFloat (ps_starting_stack p)),
      (''big_blind'', JFloat (h_big_blind h)),
      (''street'', JStr (street_text (observed_street h (rc_as_of_action_index c)))),
      (''as_of_action_index'', JInt (rc_as_of_action_index c)),
      (''action_prefix_sha256'', JStr prefix_hash), (''blockers'', JList (map JStr blockers))])"

definition refused :: "range_code \<Rightarrow> range_field \<Rightarrow>
    string option \<times> string list \<times> range_diagnostic option" where
  "refused code field = (None, [], Some \<lparr>rd_code = code, rd_field = field, rd_token_index = None\<rparr>)"

definition condition_binding :: "ranged_hand \<Rightarrow> range_definition \<Rightarrow>
    string option \<times> string list \<times> range_diagnostic option" where
  "condition_binding h d =
     (let c = rg_game_conditions d; i = rc_as_of_action_index c in
      case player_of h (rg_target_player_id d) of
        None \<Rightarrow> refused RNG_TARGET Target_player_field
      | Some p \<Rightarrow>
        if h_hero_player_id h = None \<or> Some (rg_target_player_id d) = h_hero_player_id h
        then refused RNG_TARGET Target_player_field
        else if h_game_type h \<noteq> rc_game_type c \<or> h_format h \<noteq> rc_format c \<or>
          h_table_size h \<noteq> rc_table_size c \<or> ps_position p \<noteq> rc_target_position c \<or>
          int (length (h_actions h)) < i
        then refused RNG_GAME_CONDITION Game_conditions_field
        else if observed_street h i \<noteq> rc_street c
        then refused RNG_GAME_CONDITION Game_conditions_field
        else (let prefix_hash = (case action_prefix_sha256 h i of None \<Rightarrow> [] | Some x \<Rightarrow> x);
                  stack = stack_bb_milli h p in
          if prefix_hash \<noteq> rc_action_prefix_sha256 c \<or>
            stack < of_int (rc_starting_stack_min_bb_milli c) \<or>
            of_int (rc_starting_stack_max_bb_milli c) < stack
          then refused RNG_GAME_CONDITION Game_conditions_field
          else if length (h_board h) < visible_board_count (rc_street c)
          then refused RNG_GAME_CONDITION Game_conditions_field
          else (case normalize_cards
                  (h_hero_cards h @ take (visible_board_count (rc_street c)) (h_board h)) True of
              Inl e \<Rightarrow> refused RNG_BLOCKER Blockers_field
            | Inr blockers \<Rightarrow>
                (Some (canonical_sha256 (json_of_binding h d p prefix_hash blockers)), blockers, None))))"

section \<open>Expansion of the notation\<close>

type_synonym expansion = "(combo \<times> int) list \<times> range_diagnostic list"

definition add_combo :: "int \<Rightarrow> int \<Rightarrow> expansion \<Rightarrow> combo \<Rightarrow> range_crash + expansion" where
  "add_combo index weight st combo =
     (case st of (expanded, ds) \<Rightarrow>
        if combo \<in> fst ` set expanded
        then bindE (new_diagnostic RNG_OVERLAP Notation_field (Some index)) (\<lambda>d.
          Inr (expanded, ds @ [d]))
        else Inr (expanded @ [(combo, weight)], ds))"

definition token_step :: "expansion \<Rightarrow> nat \<times> string \<Rightarrow> range_crash + expansion" where
  "token_step st it =
     (case st of (expanded, ds) \<Rightarrow> case it of (n, raw_token) \<Rightarrow>
       (let index = int n; token = strip_set ('' '' @ [CHR 0x09]) raw_token in
        if token = [] \<or> token \<noteq> strip_set ('' '' @ [CHR 0x09, CHR 0x0D, CHR 0x0A]) raw_token
        then bindE (new_diagnostic RNG_SYNTAX Notation_field (Some index)) (\<lambda>d.
          Inr (expanded, ds @ [d]))
        else (case expanded_token token of
            Inl e \<Rightarrow> bindE (diagnostic_from_exception e index) (\<lambda>d. Inr (expanded, ds @ [d]))
          | Inr (combos, weight) \<Rightarrow> foldE (add_combo index weight) (expanded, ds) combos)))"

definition expand_tokens :: "string list \<Rightarrow> range_crash + expansion" where
  "expand_tokens tokens = foldE token_step ([], []) (enumerate 0 tokens)"

section \<open>Validation\<close>

definition new_weighted_combo :: "combo \<times> int \<Rightarrow> range_crash + weighted_combo" where
  "new_weighted_combo item =
     (case item of ((a, b), weight) \<Rightarrow>
       (let c = \<lparr>wc_cards = (a, b), wc_weight_millionths = weight,
                 wc_canonical_token = a @ b @ weight_text weight\<rparr> in
        if weighted_combo_ok c then Inr c else Inl Rejected_combo))"

definition range_succeeded :: "range_definition \<Rightarrow> string \<Rightarrow> string \<Rightarrow> string list \<Rightarrow>
    weighted_combo list \<Rightarrow> range_crash + range_result" where
  "range_succeeded d source_hash condition_hash blockers combos = new_result
     \<lparr>rr_schema_version = RANGE_SCHEMA_VERSION, rr_result_version = RANGE_RESULT_VERSION,
      rr_grammar_id = RANGE_GRAMMAR_ID, rr_grammar_version = RANGE_GRAMMAR_VERSION,
      rr_hash_algorithm = RANGE_HASH_ALGORITHM, rr_status = Range_success,
      rr_range_id = rg_range_id d, rr_target_player_id = rg_target_player_id d,
      rr_source = rg_source d, rr_game_conditions = rg_game_conditions d,
      rr_source_notation_sha256 = source_hash,
      rr_condition_binding_sha256 = Some condition_hash, rr_blockers = blockers,
      rr_diagnostics = [],
      rr_canonical_notation = Some (joined (map wc_canonical_token combos)),
      rr_canonical_combo_sha256 = Some (combos_sha256 combos), rr_combos = combos,
      rr_combo_count = int (length combos),
      rr_total_weight_millionths = (\<Sum>c\<leftarrow>combos. wc_weight_millionths c)\<rparr>"

definition surviving_combos :: "string list \<Rightarrow> (combo \<times> int) list \<Rightarrow> (combo \<times> int) list" where
  "surviving_combos blockers expanded =
     filter (\<lambda>(c, w). fst c \<notin> set blockers \<and> snd c \<notin> set blockers) expanded"

definition expand_and_block ::
    "range_definition \<Rightarrow> string \<Rightarrow> string \<Rightarrow> string list \<Rightarrow> range_crash + range_result" where
  \<comment> \<open>from \<open>raw_tokens = definition.notation.split(",")\<close> to the end\<close>
  "expand_and_block d source_hash condition_hash blockers =
     (let raw_tokens = split_char (CHR '','') (rg_notation d) in
      if raw_tokens = [] \<or> MAX_RANGE_TOKENS < length raw_tokens
      then failed_with d source_hash RNG_LIMIT Notation_field
      else bindE (expand_tokens raw_tokens) (\<lambda>(expanded, diagnostics).
        if diagnostics \<noteq> [] then range_failed d source_hash diagnostics
        else if MAX_EXPANDED_COMBOS < length expanded
        then failed_with d source_hash RNG_LIMIT Notation_field
        else (let surviving = surviving_combos blockers expanded in
          if surviving = [] then failed_with d source_hash RNG_EMPTY Blockers_field
          else bindE (mapE new_weighted_combo (sort_key (\<lambda>item. combo_sort_key (fst item)) surviving))
            (\<lambda>combos. range_succeeded d source_hash condition_hash blockers combos))))"

definition versioned_ranges :: "ranged_hand \<Rightarrow> range_definition list" where
  "versioned_ranges h =
     concat (map (\<lambda>k. case k of Versioned_range d \<Rightarrow> [d] | Legacy_range j \<Rightarrow> []) (h_known_ranges h))"

definition validate_versioned_range ::
    "ranged_hand \<Rightarrow> range_definition \<Rightarrow> range_crash + range_result" where
  "validate_versioned_range h d =
     (let source_bytes = utf8 (rg_notation d); source_hash = sha256_hex source_bytes in
      if rg_schema_version d \<noteq> ''1.0.0'' \<or> rg_grammar_id d \<noteq> RANGE_GRAMMAR_ID \<or>
        rg_grammar_version d \<noteq> RANGE_GRAMMAR_VERSION
      then failed_with d source_hash RNG_UNSUPPORTED_VERSION Envelope_field
      else if MAX_RANGE_NOTATION_BYTES < length source_bytes
      then failed_with d source_hash RNG_LIMIT Notation_field
      else if \<not> printable_ascii (rg_notation d)
      then failed_with d source_hash RNG_NON_ASCII Notation_field
      else if source_hash \<noteq> rs_content_sha256 (rg_source d)
      then failed_with d source_hash RNG_PROVENANCE Provenance_field
      else if versioned_ranges h \<noteq> [d]
      then failed_with d source_hash RNG_TARGET Target_player_field
      else (case condition_binding h d of
          (_, _, Some diag) \<Rightarrow> range_failed d source_hash [diag]
        | (None, _, None) \<Rightarrow> failed_with d source_hash RNG_GAME_CONDITION Game_conditions_field
        | (Some condition_hash, blockers, None) \<Rightarrow>
            expand_and_block d source_hash condition_hash blockers))"

end
