(* ===== verification/RangeTokens.thy ===== *)
theory RangeTokens
  imports RangeGrammar Identifiers Complex_Main
begin

text \<open>
  What one token of the range grammar means.  \<open>denotes\<close> says it without the code: which
  combos a token stands for and with which weight.  \<open>expanded_token_denotes\<close> shows that
  \<open>_expanded_token\<close> accepts exactly the tokens that stand for something and lists exactly
  the combos they stand for, and \<open>expanded_canonical_token\<close> that it reads back the tokens
  the canonical notation is made of.
\<close>

section \<open>Cards and their order\<close>

lemma position_nth: "c \<in> set s \<Longrightarrow> s ! nat (position_in c s) = c"
  using nth_length_takeWhile [of "\<lambda>x. x \<noteq> c" s] by (induction s) (auto simp: position_in_def)

lemma position_inj: "a \<in> set s \<Longrightarrow> b \<in> set s \<Longrightarrow> position_in a s = position_in b s \<Longrightarrow> a = b"
  using position_nth by metis

lemma canonical_card_cases:
  assumes "canonical_card s"
  obtains r x where "s = [r, x]" "r \<in> set RANKS" "x \<in> set SUITS"
  using assms by (auto simp: canonical_card_def split: list.splits)

lemma canonical_card_Cons2 [simp]: "canonical_card [r, x] \<longleftrightarrow> r \<in> set RANKS \<and> x \<in> set SUITS"
  by (simp add: canonical_card_def)

lemma set_DECK: "set DECK = {s. canonical_card s}"
proof -
  have "s \<in> set DECK \<longleftrightarrow> (\<exists>r\<in>set RANKS. \<exists>x\<in>set SUITS. s = [r, x])" for s
    unfolding DECK_def by (auto simp: image_iff)
  then show ?thesis by (auto elim!: canonical_card_cases)
qed

lemma length_DECK: "distinct DECK" "length DECK = 52"
  by (simp_all add: DECK_def RANKS_def SUITS_def)

lemma card_key_inj: "canonical_card a \<Longrightarrow> canonical_card b \<Longrightarrow> card_key a = card_key b \<Longrightarrow> a = b"
  by (auto simp: card_key_def elim!: canonical_card_cases dest: position_inj)

definition canonical_pair :: "combo \<Rightarrow> bool" where
  \<comment> \<open>two different cards, the higher first, clubs before spades\<close>
  "canonical_pair c \<longleftrightarrow>
     canonical_card (fst c) \<and> canonical_card (snd c) \<and> card_key (fst c) < card_key (snd c)"

lemma canonical_combo_pair:
  assumes "canonical_card a" "canonical_card b" "a \<noteq> b"
  shows "canonical_combo a b = Inr (if card_key a < card_key b then (a, b) else (b, a))"
    and "canonical_pair (if card_key a < card_key b then (a, b) else (b, a))"
proof -
  have "card_key b < card_key a" if "\<not> card_key a < card_key b"
    using that assms card_key_inj [of a b] by (metis linorder_neqE)
  then show "canonical_combo a b = Inr (if card_key a < card_key b then (a, b) else (b, a))"
    and "canonical_pair (if card_key a < card_key b then (a, b) else (b, a))"
    using assms by (auto simp: canonical_combo_def canonical_pair_def Let_def)
qed

lemma canonical_combo_ordered: "canonical_pair (a, b) \<Longrightarrow> canonical_combo a b = Inr (a, b)"
  by (auto simp: canonical_combo_def canonical_pair_def Let_def)

lemma suit_key: "card_key [r, x] < card_key [r, y] \<longleftrightarrow> position_in x SUITS < position_in y SUITS"
  by (simp add: card_key_def)

lemma rank_key:
  "position_in r2 RANKS < position_in r1 RANKS \<Longrightarrow> card_key [r1, x] < card_key [r2, y]"
  by (simp add: card_key_def)

text \<open>A combo is the set of its two cards, so there are as many as two-card sets.\<close>

lemma canonical_pairs_count:
  assumes "finite A" and "A \<subseteq> {s. canonical_card s}"
  shows "finite {c. canonical_pair c \<and> fst c \<in> A \<and> snd c \<in> A}"
    and "card {c. canonical_pair c \<and> fst c \<in> A \<and> snd c \<in> A} = card A choose 2"
proof -
  let ?P = "{c. canonical_pair c \<and> fst c \<in> A \<and> snd c \<in> A}"
  have "?P \<subseteq> A \<times> A" by auto
  then show "finite ?P" using assms(1) by (auto intro: finite_subset)
  have inj: "inj_on (\<lambda>c. {fst c, snd c}) ?P"
    by (auto simp: inj_on_def canonical_pair_def doubleton_eq_iff)
  have "(\<lambda>c. {fst c, snd c}) ` ?P = {B. B \<subseteq> A \<and> card B = 2}"
  proof (intro equalityI subsetI)
    fix B assume "B \<in> {B. B \<subseteq> A \<and> card B = 2}"
    then obtain a b where B: "B = {a, b}" "a \<noteq> b" "a \<in> A" "b \<in> A" by (auto simp: card_2_iff)
    let ?c = "if card_key a < card_key b then (a, b) else (b, a)"
    from B assms(2) have "canonical_card a" "canonical_card b" by auto
    then have "canonical_pair ?c" using B(2) by (rule canonical_combo_pair(2))
    with B show "B \<in> (\<lambda>c. {fst c, snd c}) ` ?P"
      by (intro image_eqI [where x = ?c]) auto
  qed (auto simp: canonical_pair_def card_insert_if)
  then show "card ?P = card A choose 2"
    using card_image [OF inj] n_subsets [OF assms(1), of 2] by simp
qed

section \<open>Weights\<close>

lemma upto_step_cls_set:
  "set (upto_re n (step_cls cs) [(pre, s)]) =
     {(rev (take k s) @ pre, drop k s) |k. k \<le> n \<and> k \<le> length s \<and> set (take k s) \<subseteq> set cs}"
proof (induction n arbitrary: pre s)
  case 0
  show ?case by auto
next
  case (Suc n)
  show ?case
  proof (cases s)
    case Nil
    then show ?thesis by (cases n) (auto simp: step_cls_simps)
  next
    case (Cons c t)
    show ?thesis
    proof (cases "c \<in> set cs")
      case True
      have "set (upto_re (Suc n) (step_cls cs) [(pre, s)]) =
          insert (pre, s) (set (upto_re n (step_cls cs) [(c # pre, t)]))"
        using Cons True by (simp add: step_cls_simps)
      also have "\<dots> = {(rev (take k s) @ pre, drop k s) |k. k \<le> Suc n \<and> k \<le> length s \<and> set (take k s) \<subseteq> set cs}"
        (is "_ = ?R")
      proof (intro equalityI subsetI)
        fix p assume "p \<in> insert (pre, s) (set (upto_re n (step_cls cs) [(c # pre, t)]))"
        then consider "p = (pre, s)" | k where "k \<le> n" "k \<le> length t" "set (take k t) \<subseteq> set cs"
            "p = (rev (take k t) @ c # pre, drop k t)" unfolding Suc.IH by auto
        then show "p \<in> ?R"
        proof cases
          case 1
          then show ?thesis by (intro CollectI exI [of _ 0]) simp
        next
          case 2
          then show ?thesis using Cons True by (intro CollectI exI [of _ "Suc k"]) simp
        qed
      next
        fix p assume "p \<in> ?R"
        then obtain k where k: "k \<le> Suc n" "k \<le> length s" "set (take k s) \<subseteq> set cs"
            "p = (rev (take k s) @ pre, drop k s)" by auto
        show "p \<in> insert (pre, s) (set (upto_re n (step_cls cs) [(c # pre, t)]))"
        proof (cases k)
          case (Suc j)
          with k Cons show ?thesis unfolding Suc.IH by auto
        qed (use k in simp)
      qed
      finally show ?thesis .
    next
      case False
      then have "k \<le> length s \<and> set (take k s) \<subseteq> set cs \<longleftrightarrow> k = 0" for k
        using Cons by (cases k) auto
      with Cons False show ?thesis by (cases n) (auto simp: step_cls_simps)
    qed
  qed
qed

lemma rep_once: "ends (Rep 0 (Some 1) r) p = p # ends r p"
  by simp

lemma rep_six: "ends (Rep 1 (Some 6) (Cls cs)) p = upto_re 5 (step_cls cs) (step_cls cs p)"
proof -
  have "ends (Cls cs) = step_cls cs" by (rule ext) simp
  then show ?thesis by (simp only: ends.simps(4)) simp
qed

lemma fraction_ends:
  "(\<exists>p\<in>set (ends (Rep 0 (Some 1) (Seq (Cls ''.'') (Rep 1 (Some 6) (Cls cs)))) (pre, s)). snd p = [])
   \<longleftrightarrow> s = [] \<or> (\<exists>ds. s = CHR ''.'' # ds \<and> 1 \<le> length ds \<and> length ds \<le> 6 \<and> set ds \<subseteq> set cs)"
proof -
  have e: "ends (Cls cs) = step_cls cs" by (rule ext) simp
  have tail: "(\<exists>p\<in>set (upto_re 5 (step_cls cs) (step_cls cs (q, t))). snd p = []) \<longleftrightarrow>
      1 \<le> length t \<and> length t \<le> 6 \<and> set t \<subseteq> set cs" for q t
  proof (cases t)
    case (Cons c u)
    have "(\<exists>p\<in>set (upto_re 5 (step_cls cs) [(c # q, u)]). snd p = []) \<longleftrightarrow>
        length u \<le> 5 \<and> set u \<subseteq> set cs"
      unfolding upto_step_cls_set by (auto intro!: exI [of _ "length u"])
    with Cons show ?thesis by (simp add: step_cls_simps times_re_Nil)
  qed (simp add: step_cls_simps times_re_Nil)
  show ?thesis
  proof (cases s)
    case (Cons c t)
    show ?thesis
      using tail [of "c # pre" t] unfolding Cons rep_once ends.simps(1,2) rep_six
      by (cases "c = CHR ''.''") (simp_all add: step_cls_simps e rep_six [unfolded One_nat_def] del: ends.simps(4))
  next
    case Nil
    show ?thesis unfolding Nil rep_once by simp
  qed
qed

lemma weight_lexeme_iff:
  "weight_lexeme s \<longleftrightarrow> s = ''0'' \<or> s = ''1'' \<or>
     (\<exists>ds. 1 \<le> length ds \<and> length ds \<le> 6 \<and>
       (s = ''0.'' @ ds \<and> set ds \<subseteq> set digit_chars \<or> s = ''1.'' @ ds \<and> set ds \<subseteq> {CHR ''0''}))"
proof (cases s)
  case Nil
  then show ?thesis by (simp add: weight_lexeme_def fullmatch_def step_cls_simps)
next
  case (Cons c t)
  note f = fraction_ends [of digit_chars "[c]" t] fraction_ends [of "''0''" "[c]" t]
  have "weight_lexeme s \<longleftrightarrow>
      c = CHR ''0'' \<and> (\<exists>p\<in>set (ends (Rep 0 (Some 1) (Seq (Cls ''.'') (Rep 1 (Some 6) (Cls digit_chars)))) ([c], t)). snd p = [])
    \<or> c = CHR ''1'' \<and> (\<exists>p\<in>set (ends (Rep 0 (Some 1) (Seq (Cls ''.'') (Rep 1 (Some 6) (Cls ''0'')))) ([c], t)). snd p = [])"
    unfolding weight_lexeme_def fullmatch_def list_ex_iff Cons
    by (simp only: ends.simps(1-3)) (auto simp: step_cls_simps simp del: ends.simps)
  then show ?thesis unfolding f by (auto simp: Cons)
qed

lemma digits_value_snoc: "digits_value (s @ [c]) = 10 * digits_value s + (of_char c - 48)"
  by (simp add: digits_value_def)

lemma digit_chars_digit: "c \<in> set digit_chars \<longleftrightarrow> is_digit c"
proof
  assume c: "is_digit c"
  define n where "n = of_char c - (48::nat)"
  have n: "n < 10" "of_char c = 48 + n" using c unfolding n_def is_digit_def by linarith+
  have "of_char (digit_char n) = 48 + n"
    using digit_char(1,2) [of n] n(1) unfolding is_digit_def mod_less [OF n(1)] by linarith
  then have "c = digit_char n" using n(2) by (metis of_char_eq_iff)
  moreover have "digit_char n \<in> set digit_chars"
    unfolding digit_char_def digit_chars_def by (rule nth_mem) simp
  ultimately show "c \<in> set digit_chars" by simp
qed (auto simp: digit_chars_def is_digit_def)

lemma digits_value_bound: "set s \<subseteq> set digit_chars \<Longrightarrow> digits_value s < 10 ^ length s"
proof (induction s rule: rev_induct)
  case (snoc c s)
  then have "of_char c - 48 \<le> (9::nat)" by (auto simp: digit_chars_digit is_digit_def)
  with snoc show ?case by (auto simp: digits_value_snoc)
qed (simp add: digits_value_def)

lemma digits_value_zeros: "digits_value (s @ replicate k (CHR ''0'')) = digits_value s * 10 ^ k"
proof (induction k)
  case (Suc k)
  have "s @ replicate (Suc k) (CHR ''0'') = (s @ replicate k (CHR ''0'')) @ [CHR ''0'']"
    by (simp add: replicate_append_same)
  then show ?case using Suc by (simp only: digits_value_snoc) simp
qed simp

lemma dec_mul_integral:
  "x * of_int WEIGHT_SCALE = of_int n \<Longrightarrow> 0 \<le> n \<Longrightarrow> n < 10 ^ 28 \<Longrightarrow> \<lfloor>dec_mul x (of_int WEIGHT_SCALE)\<rfloor> = n"
  by (simp add: dec_mul_def dec_round_of_int)

lemma decimal_of_fraction:
  "decimal_of_text (w # CHR ''.'' # ds) = of_nat (digits_value [w]) + of_nat (digits_value ds) / 10 ^ length ds"
  if "w \<noteq> CHR ''.''"
  using that by (simp add: decimal_of_text_def partition_at_def)

text \<open>The value of an accepted weight is a whole number of millionths.\<close>

lemma weight_lexeme_value:
  assumes "weight_lexeme s"
  obtains n where "0 \<le> n" "n \<le> WEIGHT_SCALE" "decimal_of_text s * of_int WEIGHT_SCALE = of_int n"
proof -
  have frac: "(of_nat (digits_value ds) / 10 ^ length ds :: rat) * of_int WEIGHT_SCALE
      = of_int (int (digits_value ds * 10 ^ (6 - length ds)))" if "length ds \<le> 6" for ds
  proof -
    have "(10::rat) ^ 6 = 10 ^ length ds * 10 ^ (6 - length ds)"
      using that by (simp flip: power_add)
    then have "of_int WEIGHT_SCALE = (10::rat) ^ length ds * 10 ^ (6 - length ds)"
      by (simp add: WEIGHT_SCALE_def)
    then show ?thesis by simp
  qed
  have small: "digits_value ds * 10 ^ (6 - length ds) \<le> 1000000"
    if "length ds \<le> 6" "set ds \<subseteq> set digit_chars" for ds
  proof -
    have "digits_value ds * 10 ^ (6 - length ds) \<le> 10 ^ length ds * 10 ^ (6 - length ds)"
      using digits_value_bound [OF that(2)] by simp
    also have "\<dots> = 10 ^ 6" using that(1) by (simp flip: power_add)
    finally show ?thesis by simp
  qed
  have zeros: "digits_value ds = 0" if "set ds \<subseteq> {CHR ''0''}" for ds
  proof -
    have "ds = replicate (length ds) (CHR ''0'')" using that by (intro replicate_eqI) auto
    then show ?thesis using digits_value_zeros [of "[]" "length ds"] by (simp add: digits_value_def)
  qed
  from assms consider "s = ''0''" | "s = ''1''"
    | ds where "s = ''0.'' @ ds" "length ds \<le> 6" "set ds \<subseteq> set digit_chars"
    | ds where "s = ''1.'' @ ds" "length ds \<le> 6" "set ds \<subseteq> {CHR ''0''}"
    unfolding weight_lexeme_iff by auto
  then show thesis
  proof cases
    case 1
    then show ?thesis by (intro that [of 0]) (simp_all add: decimal_of_text_def partition_at_def WEIGHT_SCALE_def digits_value_def)
  next
    case 2
    then show ?thesis
      by (intro that [of WEIGHT_SCALE]) (simp_all add: decimal_of_text_def partition_at_def WEIGHT_SCALE_def digits_value_def)
  next
    case (3 ds)
    have "decimal_of_text s = of_nat (digits_value ds) / 10 ^ length ds"
      unfolding 3(1) using decimal_of_fraction [of "CHR ''0''" ds] by (simp add: digits_value_def)
    then have "decimal_of_text s * of_int WEIGHT_SCALE = of_int (int (digits_value ds * 10 ^ (6 - length ds)))"
      using frac [OF 3(2)] by simp
    moreover have "int (digits_value ds * 10 ^ (6 - length ds)) \<le> WEIGHT_SCALE"
    proof -
      have "int (digits_value ds * 10 ^ (6 - length ds)) \<le> int 1000000"
        using small [OF 3(2,3)] by (simp only: of_nat_le_iff)
      then show ?thesis by (simp only: WEIGHT_SCALE_def of_nat_numeral)
    qed
    ultimately show ?thesis by (intro that) (rule of_nat_0_le_iff)
  next
    case (4 ds)
    have "decimal_of_text s = 1"
      unfolding 4(1) using decimal_of_fraction [of "CHR ''1''" ds] zeros [OF 4(3)] by (simp add: digits_value_def)
    then show ?thesis by (intro that [of WEIGHT_SCALE]) (simp_all add: WEIGHT_SCALE_def)
  qed
qed

lemma weight_millionths_Some:
  "weight_millionths (Some s) = Inr w \<longleftrightarrow>
     weight_lexeme s \<and> 0 < w \<and> w \<le> WEIGHT_SCALE \<and> decimal_of_text s * of_int WEIGHT_SCALE = of_int w"
proof (cases "weight_lexeme s")
  case True
  then obtain n where n: "0 \<le> n" "n \<le> WEIGHT_SCALE" "decimal_of_text s * of_int WEIGHT_SCALE = of_int n"
    by (rule weight_lexeme_value)
  then have v: "\<lfloor>dec_mul (decimal_of_text s) (of_int WEIGHT_SCALE)\<rfloor> = n"
    by (intro dec_mul_integral) (simp_all add: WEIGHT_SCALE_def)
  have "weight_millionths (Some s) =
      (if \<not> (0 < n \<and> n \<le> WEIGHT_SCALE) then Inl (Range_arithmetic_error RNG_WEIGHT_RANGE) else Inr n)"
    using True by (simp only: weight_millionths_def option.case v Let_def not_True_eq_False if_False)
  with True n(3) show ?thesis by auto
qed (simp add: weight_millionths_def)

text \<open>The text of a weight is read back as the weight.\<close>

lemma nat_str_length: "n < 10 ^ k \<Longrightarrow> 0 < k \<Longrightarrow> length (nat_str n) \<le> k"
proof (induction n arbitrary: k rule: nat_str.induct)
  case (1 n)
  show ?case
  proof (cases "n < 10")
    case True
    with "1.prems" show ?thesis by (simp add: nat_str.simps [of n])
  next
    case False
    from "1.prems" False obtain j where j: "k = Suc j" "0 < j"
      by (cases k; cases "k - 1") auto
    with "1.prems" have "n div 10 < 10 ^ j" by (simp add: less_mult_imp_div_less mult.commute)
    with "1.IH" [OF False this j(2)] False j show ?thesis by (simp add: nat_str.simps [of n])
  qed
qed

lemma strip_zeros_split: obtains k where "s = strip_zeros s @ replicate k (CHR ''0'')"
proof -
  define z where "z = takeWhile (\<lambda>c. c = CHR ''0'') (rev s)"
  have z: "z = replicate (length z) (CHR ''0'')"
    unfolding z_def by (intro replicate_eqI) (auto dest: set_takeWhileD)
  have "rev s = z @ rev (strip_zeros s)" by (simp add: z_def strip_zeros_def)
  then have "s = strip_zeros s @ rev z" by (metis rev_append rev_rev_ident)
  moreover have "rev z = replicate (length z) (CHR ''0'')" by (subst z) simp
  ultimately show thesis using that by metis
qed

lemma pad6_facts:
  assumes "0 \<le> w" "w < WEIGHT_SCALE"
  shows "length (pad6 w) = 6" "set (pad6 w) \<subseteq> set digit_chars" "digits_value (pad6 w) = nat w"
proof -
  have "nat w < 10 ^ 6" using assms by (simp add: WEIGHT_SCALE_def nat_less_iff)
  then have "length (nat_str (nat w)) \<le> 6" by (rule nat_str_length) simp
  then show "length (pad6 w) = 6" by (simp add: pad6_def zero_pad_def)
  show "set (pad6 w) \<subseteq> set digit_chars"
    using nat_str_digits [of "nat w"]
    by (auto simp: pad6_def zero_pad_def digit_chars_digit list_all_iff is_digit_def)
  have "digits_value (replicate k (CHR ''0'') @ s) = digits_value s" for k s
    by (induction k) (simp_all add: digits_value_def)
  then show "digits_value (pad6 w) = nat w" by (simp add: pad6_def zero_pad_def nat_str_value)
qed

lemma weight_text_digits:
  assumes "1 \<le> w" "w < WEIGHT_SCALE"
  defines "ds \<equiv> strip_zeros (pad6 w)"
  shows "1 \<le> length ds" "length ds \<le> 6" "set ds \<subseteq> set digit_chars"
    "int (digits_value ds * 10 ^ (6 - length ds)) = w"
proof -
  have p: "length (pad6 w) = 6" "set (pad6 w) \<subseteq> set digit_chars" "digits_value (pad6 w) = nat w"
    using pad6_facts [of w] assms by auto
  obtain k where k: "pad6 w = ds @ replicate k (CHR ''0'')" unfolding ds_def by (rule strip_zeros_split)
  have len: "length ds + k = 6" using p(1) unfolding k by simp
  show "length ds \<le> 6" using len by simp
  show "set ds \<subseteq> set digit_chars" using p(2) unfolding k by simp
  have "digits_value ds * 10 ^ k = nat w" using p(3) unfolding k digits_value_zeros .
  moreover have "k = 6 - length ds" using len by simp
  ultimately show v: "int (digits_value ds * 10 ^ (6 - length ds)) = w" using assms(1) by simp
  show "1 \<le> length ds"
  proof (rule ccontr)
    assume "\<not> 1 \<le> length ds"
    then have "ds = []" by (cases ds) auto
    with v assms(1) show False by (simp add: digits_value_def)
  qed
qed

lemma weight_text_read:
  assumes "1 \<le> w" "w < WEIGHT_SCALE"
  shows "weight_millionths (Some (''0.'' @ strip_zeros (pad6 w))) = Inr w"
proof -
  let ?ds = "strip_zeros (pad6 w)"
  note d = weight_text_digits [OF assms]
  have "(of_nat (digits_value ?ds) / 10 ^ length ?ds :: rat) * of_int WEIGHT_SCALE = of_int w"
  proof -
    have "(10::rat) ^ 6 = 10 ^ length ?ds * 10 ^ (6 - length ?ds)" using d(2) by (simp flip: power_add)
    then have "of_int WEIGHT_SCALE = (10::rat) ^ length ?ds * 10 ^ (6 - length ?ds)"
      by (simp add: WEIGHT_SCALE_def)
    then have "(of_nat (digits_value ?ds) / 10 ^ length ?ds :: rat) * of_int WEIGHT_SCALE
        = of_int (int (digits_value ?ds * 10 ^ (6 - length ?ds)))" by simp
    then show ?thesis unfolding d(4) .
  qed
  then show ?thesis
    using d assms decimal_of_fraction [of "CHR ''0''" ?ds]
    unfolding weight_millionths_Some weight_lexeme_iff by (auto simp: digits_value_def)
qed

section \<open>What a token denotes\<close>

inductive names :: "string \<Rightarrow> combo \<Rightarrow> bool" where
  Explicit_name: "canonical_card a \<Longrightarrow> canonical_card b \<Longrightarrow> canonical_pair c \<Longrightarrow>
    {fst c, snd c} = {a, b} \<Longrightarrow> names (a @ b) c"
| Pair_name: "canonical_pair ([r, x], [r, y]) \<Longrightarrow> names [r, r] ([r, x], [r, y])"
| Suited_name: "canonical_card [r1, x] \<Longrightarrow> canonical_card [r2, x] \<Longrightarrow>
    position_in r2 RANKS < position_in r1 RANKS \<Longrightarrow> names [r1, r2, CHR ''s''] ([r1, x], [r2, x])"
| Offsuit_name: "canonical_card [r1, x] \<Longrightarrow> canonical_card [r2, y] \<Longrightarrow> x \<noteq> y \<Longrightarrow>
    position_in r2 RANKS < position_in r1 RANKS \<Longrightarrow> names [r1, r2, CHR ''o''] ([r1, x], [r2, y])"

inductive_cases names_elim: "names n c"

definition weight_denotes :: "string option \<Rightarrow> int \<Rightarrow> bool" where
  "weight_denotes wt w \<longleftrightarrow>
     (case wt of
        None \<Rightarrow> w = WEIGHT_SCALE
      | Some s \<Rightarrow> weight_lexeme s \<and> 0 < w \<and> w \<le> WEIGHT_SCALE \<and>
          decimal_of_text s * of_int WEIGHT_SCALE = of_int w)"

definition denotes :: "string \<Rightarrow> combo \<Rightarrow> int \<Rightarrow> bool" where
  "denotes token c w \<longleftrightarrow>
     (\<exists>n wt. token = (case wt of None \<Rightarrow> n | Some s \<Rightarrow> n @ ''@'' @ s) \<and>
       names n c \<and> weight_denotes wt w)"

lemma weight_millionths_denotes: "weight_millionths wt = Inr w \<longleftrightarrow> weight_denotes wt w"
proof (cases wt)
  case (Some s)
  then show ?thesis by (simp only: weight_millionths_Some weight_denotes_def option.case)
qed (auto simp: weight_denotes_def weight_millionths_def)

lemma weight_denotes_range: "weight_denotes wt w \<Longrightarrow> 1 \<le> w \<and> w \<le> WEIGHT_SCALE"
  by (auto simp: weight_denotes_def WEIGHT_SCALE_def split: option.splits)

lemma names_pair: "names n c \<Longrightarrow> canonical_pair c"
  by (erule names_elim) (auto simp: canonical_pair_def rank_key)

lemma names_chars: "names n c \<Longrightarrow> set n \<subseteq> set RANKS \<union> set SUITS \<union> set ''so'' \<and> n \<noteq> []"
proof (induction rule: names.induct)
  case (Explicit_name a b c)
  from Explicit_name(1,2) show ?case by (auto elim!: canonical_card_cases)
qed (simp_all add: canonical_pair_def)

lemma weight_lexeme_chars: "weight_lexeme s \<Longrightarrow> set s \<subseteq> set ''0123456789.'' \<and> s \<noteq> []"
  unfolding weight_lexeme_iff digit_chars_def by auto

section \<open>The combos of a class\<close>

lemma suits_pairs: "set (pairs_of SUITS) = {(x, y). x \<in> set SUITS \<and> y \<in> set SUITS \<and> position_in x SUITS < position_in y SUITS}"
proof -
  have "pairs_of SUITS = filter (\<lambda>(x, y). position_in x SUITS < position_in y SUITS) (List.product SUITS SUITS)"
    by code_simp
  then show ?thesis by auto
qed

lemma class_cards_set:
  "set (class_cards r r sx) = {([r, x], [r, y]) |x y. x \<in> set SUITS \<and> y \<in> set SUITS \<and> position_in x SUITS < position_in y SUITS}"
  "r1 \<noteq> r2 \<Longrightarrow> set (class_cards r1 r2 (Some (CHR ''s''))) = {([r1, x], [r2, x]) |x. x \<in> set SUITS}"
  "r1 \<noteq> r2 \<Longrightarrow> set (class_cards r1 r2 (Some (CHR ''o''))) =
     {([r1, x], [r2, y]) |x y. x \<in> set SUITS \<and> y \<in> set SUITS \<and> x \<noteq> y}"
    apply (auto simp: class_cards_def suits_pairs image_iff) [1]
   apply (auto simp: class_cards_def) [1]
  apply (auto simp: class_cards_def split: if_splits)
  done

lemma class_cards_distinct: "distinct (class_cards r1 r2 sx)" "class_cards r1 r2 sx \<noteq> []"
  by (simp_all add: class_cards_def SUITS_def)

lemma ordered_combos:
  "(\<And>c. c \<in> set cs \<Longrightarrow> canonical_pair c) \<Longrightarrow> mapE (\<lambda>(a, b). canonical_combo a b) cs = Inr cs"
  by (induction cs) (auto simp: canonical_combo_ordered)

definition named_combos :: "string \<Rightarrow> range_exn + combo list" where
  "named_combos notation =
     (case explicit_combo notation of
        Some (a, b) \<Rightarrow> bindE (canonical_combo a b) (\<lambda>c. Inr [c])
      | None \<Rightarrow>
          (case hand_class notation of
             None \<Rightarrow> Inl (Range_value_error RNG_SYNTAX)
           | Some (first_rank, second_rank, suffix) \<Rightarrow>
               if first_rank = second_rank \<and> suffix \<noteq> None then Inl (Range_value_error RNG_SYNTAX)
               else if first_rank \<noteq> second_rank \<and> suffix = None
               then Inl (Range_value_error RNG_SYNTAX)
               else if first_rank \<noteq> second_rank \<and>
                 position_in first_rank RANKS < position_in second_rank RANKS
               then Inl (Range_value_error RNG_CLASS_ORDER)
               else mapE (\<lambda>(a, b). canonical_combo a b) (class_cards first_rank second_rank suffix)))"

lemma expanded_token_named:
  "expanded_token token =
     (if 1 < count_list token (CHR ''@'') then Inl (Range_value_error RNG_SYNTAX)
      else bindE (weight_millionths (snd (partition_at (CHR ''@'') token))) (\<lambda>weight.
        bindE (named_combos (fst (partition_at (CHR ''@'') token))) (\<lambda>combos. Inr (combos, weight))))"
proof -
  have "bindE (bindE m f) g = bindE m (\<lambda>x. bindE (f x) g)" for m :: "range_exn + combo" and f and g :: "combo list \<Rightarrow> range_exn + (combo list \<times> int)"
    by (rule bindE_assoc)
  then show ?thesis
    by (simp add: expanded_token_def named_combos_def Let_def split: prod.splits)
      (auto intro!: bindE_cong split: option.splits)
qed

lemma explicit_names:
  assumes "explicit_combo n = Some (a, b)"
  shows "names n c \<longleftrightarrow> canonical_pair c \<and> {fst c, snd c} = {a, b}" and "n = a @ b"
    and "canonical_card a" and "canonical_card b"
proof -
  from assms show n: "n = a @ b" and ab: "canonical_card a" "canonical_card b"
    by (auto simp: explicit_combo_def split: list.splits if_splits)
  obtain r1 s1 r2 s2 where cards: "a = [r1, s1]" "b = [r2, s2]"
    using ab by (auto elim!: canonical_card_cases)
  show "names n c \<longleftrightarrow> canonical_pair c \<and> {fst c, snd c} = {a, b}"
  proof
    assume "names n c"
    then show "canonical_pair c \<and> {fst c, snd c} = {a, b}"
    proof (cases rule: names.cases)
      case (Explicit_name a' b')
      from Explicit_name(2,3) have "length a' = length a" "length b' = length b"
        using cards by (auto elim!: canonical_card_cases)
      then have "a' = a" "b' = b" using n Explicit_name(1) by simp_all
      with Explicit_name show ?thesis by simp
    qed (use n cards in simp_all)
  next
    assume "canonical_pair c \<and> {fst c, snd c} = {a, b}"
    then show "names n c" unfolding n using ab by (intro Explicit_name) auto
  qed
qed

lemma same_two_cards:
  assumes "canonical_pair c" and "canonical_pair d"
  shows "{fst c, snd c} = {fst d, snd d} \<longleftrightarrow> c = d"
  using assms by (auto simp: canonical_pair_def doubleton_eq_iff prod_eq_iff)

lemma class_names:
  assumes "explicit_combo n = None"
  shows "names n c \<longleftrightarrow> (\<exists>r1 r2 sx. hand_class n = Some (r1, r2, sx) \<and>
     \<not> (r1 = r2 \<and> sx \<noteq> None) \<and> \<not> (r1 \<noteq> r2 \<and> sx = None) \<and>
     \<not> (r1 \<noteq> r2 \<and> position_in r1 RANKS < position_in r2 RANKS) \<and> c \<in> set (class_cards r1 r2 sx))"
    (is "_ \<longleftrightarrow> ?R")
proof
  assume "names n c"
  then show ?R
  proof (cases rule: names.cases)
    case (Explicit_name a b)
    from Explicit_name(2,3) have "explicit_combo n \<noteq> None"
      unfolding Explicit_name(1) by (auto simp: explicit_combo_def elim!: canonical_card_cases)
    with assms show ?thesis by simp
  next
    case (Pair_name r x y)
    then show ?thesis
      by (intro exI [of _ r] exI [of _ None])
        (simp add: hand_class_def class_cards_set canonical_pair_def suit_key)
  next
    case (Suited_name r1 x r2)
    then have "r1 \<noteq> r2" by auto
    with Suited_name show ?thesis
      by (intro exI [of _ r1] exI [of _ r2] exI [of _ "Some (CHR ''s'')"])
        (simp add: hand_class_def class_cards_set)
  next
    case (Offsuit_name r1 x r2 y)
    then have "r1 \<noteq> r2" by auto
    with Offsuit_name show ?thesis
      by (intro exI [of _ r1] exI [of _ r2] exI [of _ "Some (CHR ''o'')"])
        (simp add: hand_class_def class_cards_set)
  qed
next
  assume ?R
  then obtain r1 r2 sx where h: "hand_class n = Some (r1, r2, sx)" "r1 = r2 \<longrightarrow> sx = None"
    "r1 \<noteq> r2 \<longrightarrow> sx \<noteq> None" "r1 \<noteq> r2 \<longrightarrow> \<not> position_in r1 RANKS < position_in r2 RANKS"
    "c \<in> set (class_cards r1 r2 sx)" by (elim exE conjE) (rule that, auto)
  from h(1) have n: "n = [r1, r2] \<and> sx = None \<or> (\<exists>x\<in>set ''so''. n = [r1, r2, x] \<and> sx = Some x)"
    and r: "r1 \<in> set RANKS" "r2 \<in> set RANKS"
    by (auto simp: hand_class_def split: list.splits if_splits)
  show "names n c"
  proof (cases "r1 = r2")
    case True
    with h n r show ?thesis
      by (auto simp: class_cards_set canonical_pair_def suit_key intro!: Pair_name)
  next
    case False
    then have "position_in r2 RANKS < position_in r1 RANKS"
      using h(4) position_inj [OF r] by (metis linorder_neqE)
    note less = this
    from False h(3) n consider "n = [r1, r2, CHR ''s'']" "sx = Some (CHR ''s'')"
      | "n = [r1, r2, CHR ''o'']" "sx = Some (CHR ''o'')" by auto
    then show ?thesis
    proof cases
      case 1
      with h(5) r less show ?thesis by (auto simp: class_cards_set(2) [OF False] intro!: Suited_name)
    next
      case 2
      with h(5) r less show ?thesis by (auto simp: class_cards_set(3) [OF False] intro!: Offsuit_name)
    qed
  qed
qed

lemma class_cards_pairs:
  assumes "hand_class n = Some (r1, r2, sx)" "\<not> (r1 = r2 \<and> sx \<noteq> None)" "\<not> (r1 \<noteq> r2 \<and> sx = None)"
    "\<not> (r1 \<noteq> r2 \<and> position_in r1 RANKS < position_in r2 RANKS)" "explicit_combo n = None"
    "c \<in> set (class_cards r1 r2 sx)"
  shows "canonical_pair c"
  using class_names [OF assms(5), of c] assms names_pair by blast

lemma named_combos_names:
  "named_combos n = Inr cs \<Longrightarrow> distinct cs \<and> cs \<noteq> [] \<and> (\<forall>c. names n c \<longleftrightarrow> c \<in> set cs)"
  "named_combos n = Inl e \<Longrightarrow> \<not> names n c"
proof -
  have "case named_combos n of Inl e \<Rightarrow> (\<forall>c. \<not> names n c)
      | Inr cs \<Rightarrow> distinct cs \<and> cs \<noteq> [] \<and> (\<forall>c. names n c \<longleftrightarrow> c \<in> set cs)"
  proof (cases "explicit_combo n")
    case (Some ab)
    obtain a b where ab: "ab = (a, b)" by fastforce
    note e = explicit_names [OF Some [unfolded ab]]
    show ?thesis
    proof (cases "a = b")
      case True
      then have "\<not> names n c" for c unfolding e(1) by (auto simp: canonical_pair_def)
      with True show ?thesis by (simp add: named_combos_def Some ab canonical_combo_def)
    next
      case False
      define d where "d = (if card_key a < card_key b then (a, b) else (b, a))"
      have d: "canonical_combo a b = Inr d" "canonical_pair d"
        using canonical_combo_pair [OF e(3,4) False] unfolding d_def by blast+
      have "{a, b} = {fst d, snd d}" by (auto simp: d_def)
      then have "names n c \<longleftrightarrow> c = d" for c
        unfolding e(1) using same_two_cards [of c d] d(2) by auto
      then show ?thesis by (simp add: named_combos_def Some ab d(1))
    qed
  next
    case None
    note c = class_names [OF None]
    show ?thesis
    proof (cases "hand_class n")
      case N: None
      then show ?thesis by (simp add: named_combos_def None c)
    next
      case (Some k)
      obtain r1 r2 sx where k: "k = (r1, r2, sx)" by (cases k) auto
      show ?thesis
      proof (cases "\<not> (r1 = r2 \<and> sx \<noteq> None) \<and> \<not> (r1 \<noteq> r2 \<and> sx = None) \<and>
          \<not> (r1 \<noteq> r2 \<and> position_in r1 RANKS < position_in r2 RANKS)")
        case True
        then have "mapE (\<lambda>(a, b). canonical_combo a b) (class_cards r1 r2 sx) = Inr (class_cards r1 r2 sx)"
          using class_cards_pairs [OF Some [unfolded k] _ _ _ None] by (intro ordered_combos) blast
        then have "named_combos n = Inr (class_cards r1 r2 sx)"
          using True by (simp only: named_combos_def None Some k option.case prod.case if_False)
        moreover have "names n c \<longleftrightarrow> c \<in> set (class_cards r1 r2 sx)" for c
          unfolding c using True Some k by auto
        ultimately show ?thesis using class_cards_distinct by simp
      next
        case False
        then have "\<not> names n c" for c unfolding c using Some k by auto
        moreover have "\<exists>e. named_combos n = Inl e"
          using False by (simp only: named_combos_def None Some k option.case prod.case) auto
        ultimately show ?thesis by auto
      qed
    qed
  qed
  then show "named_combos n = Inr cs \<Longrightarrow> distinct cs \<and> cs \<noteq> [] \<and> (\<forall>c. names n c \<longleftrightarrow> c \<in> set cs)"
    and "named_combos n = Inl e \<Longrightarrow> \<not> names n c" by (simp_all del: split_paired_All)
qed

section \<open>A whole token\<close>

lemma until_simps:
  "x \<notin> set n \<Longrightarrow> takeWhile (\<lambda>c. c \<noteq> x) n = n" "x \<notin> set n \<Longrightarrow> dropWhile (\<lambda>c. c \<noteq> x) n = []"
  "x \<notin> set n \<Longrightarrow> takeWhile (\<lambda>c. c \<noteq> x) (n @ x # t) = n"
  "x \<notin> set n \<Longrightarrow> dropWhile (\<lambda>c. c \<noteq> x) (n @ x # t) = x # t"
  by (induction n) auto

lemma partition_at_None: "partition_at x s = (n, None) \<longleftrightarrow> s = n \<and> x \<notin> set s"
proof (cases "x \<in> set s")
  case True
  then obtain a b where "s = a @ x # b" "x \<notin> set a" by (meson split_list_first)
  then show ?thesis by (simp add: partition_at_def until_simps)
next
  case False
  then show ?thesis by (simp add: partition_at_def until_simps)
qed

lemma partition_at_Some: "partition_at x s = (n, Some t) \<longleftrightarrow> s = n @ x # t \<and> x \<notin> set n"
proof (cases "x \<in> set s")
  case True
  then obtain a b where ab: "s = a @ x # b" "x \<notin> set a" by (meson split_list_first)
  then have "partition_at x s = (a, Some b)" by (simp add: partition_at_def until_simps)
  moreover have "n = a \<and> t = b" if "s = n @ x # t" "x \<notin> set n"
  proof -
    have "takeWhile (\<lambda>c. c \<noteq> x) s = n" "dropWhile (\<lambda>c. c \<noteq> x) s = x # t"
      unfolding that(1) by (rule until_simps(3,4) [OF that(2)])+
    moreover have "takeWhile (\<lambda>c. c \<noteq> x) s = a" "dropWhile (\<lambda>c. c \<noteq> x) s = x # b"
      unfolding ab(1) by (rule until_simps(3,4) [OF ab(2)])+
    ultimately show ?thesis by simp
  qed
  ultimately show ?thesis using ab by (metis option.inject prod.inject)
next
  case False
  then show ?thesis by (auto simp: partition_at_def until_simps)
qed

lemma no_at_sign:
  "names n c \<Longrightarrow> CHR ''@'' \<notin> set n"
  "weight_lexeme s \<Longrightarrow> CHR ''@'' \<notin> set s"
proof -
  have "CHR ''@'' \<notin> set RANKS \<union> set SUITS \<union> set ''so''" by (simp add: RANKS_def SUITS_def)
  then show "names n c \<Longrightarrow> CHR ''@'' \<notin> set n" using names_chars [of n c] by (meson subsetD)
  have "CHR ''@'' \<notin> set ''0123456789.''" by simp
  then show "weight_lexeme s \<Longrightarrow> CHR ''@'' \<notin> set s" using weight_lexeme_chars [of s] by (meson subsetD)
qed

lemma denotes_iff:
  "denotes token c w \<longleftrightarrow> \<not> 1 < count_list token (CHR ''@'') \<and>
     names (fst (partition_at (CHR ''@'') token)) c \<and>
     weight_denotes (snd (partition_at (CHR ''@'') token)) w"
proof
  assume "denotes token c w"
  then obtain n wt where d: "token = (case wt of None \<Rightarrow> n | Some s \<Rightarrow> n @ ''@'' @ s)" "names n c"
    "weight_denotes wt w" unfolding denotes_def by blast
  note at = no_at_sign(1) [OF d(2)]
  show "\<not> 1 < count_list token (CHR ''@'') \<and> names (fst (partition_at (CHR ''@'') token)) c \<and>
     weight_denotes (snd (partition_at (CHR ''@'') token)) w"
  proof (cases wt)
    case None
    then have "partition_at (CHR ''@'') token = (n, None)" using d(1) at by (simp add: partition_at_None)
    moreover have "count_list token (CHR ''@'') = 0" using None d(1) at by (simp add: count_list_0_iff)
    ultimately show ?thesis using d None by simp
  next
    case (Some s)
    then have "CHR ''@'' \<notin> set s" using d(3) no_at_sign(2) [of s] by (simp add: weight_denotes_def)
    then have "count_list token (CHR ''@'') = 1" using d(1) Some at by (simp add: count_list_0_iff)
    moreover have "partition_at (CHR ''@'') token = (n, Some s)"
      using d(1) at Some by (simp add: partition_at_Some)
    ultimately show ?thesis using d Some by simp
  qed
next
  assume r: "\<not> 1 < count_list token (CHR ''@'') \<and> names (fst (partition_at (CHR ''@'') token)) c \<and>
     weight_denotes (snd (partition_at (CHR ''@'') token)) w"
  obtain n wt where p: "partition_at (CHR ''@'') token = (n, wt)" by fastforce
  have "token = (case wt of None \<Rightarrow> n | Some s \<Rightarrow> n @ ''@'' @ s)"
    using p by (cases wt) (simp_all add: partition_at_None partition_at_Some)
  with r p show "denotes token c w" unfolding denotes_def by auto
qed

lemma weight_denotes_unique: "weight_denotes wt v \<Longrightarrow> weight_denotes wt w \<Longrightarrow> v = w"
  by (auto simp: weight_denotes_def split: option.splits)

text \<open>The code accepts exactly the tokens that denote something, with what they denote.\<close>

lemma expanded_token_Inr:
  assumes "expanded_token token = Inr (cs, w)"
  shows "distinct cs" "cs \<noteq> []" "denotes token c v \<longleftrightarrow> c \<in> set cs \<and> v = w"
proof -
  obtain n wt where p: "partition_at (CHR ''@'') token = (n, wt)" by fastforce
  from assms have r: "\<not> 1 < count_list token (CHR ''@'')" "weight_denotes wt w" "named_combos n = Inr cs"
    by (auto simp: expanded_token_named p bindE_Inr weight_millionths_denotes split: if_splits)
  from named_combos_names(1) [OF r(3)] show "distinct cs" "cs \<noteq> []" by auto
  show "denotes token c v \<longleftrightarrow> c \<in> set cs \<and> v = w"
  proof -
    have "names n c \<longleftrightarrow> c \<in> set cs" using named_combos_names(1) [OF r(3)] by blast
    then show ?thesis
      unfolding denotes_iff p fst_conv snd_conv using r(1,2) weight_denotes_unique [of wt v w] by blast
  qed
qed

lemma expanded_token_Inl:
  assumes "expanded_token token = Inl e"
  shows "\<not> denotes token c w"
proof -
  obtain n wt where p: "partition_at (CHR ''@'') token = (n, wt)" by fastforce
  from assms consider "1 < count_list token (CHR ''@'')" | e where "weight_millionths wt = Inl e"
    | e where "named_combos n = Inl e"
    by (auto simp: expanded_token_named p bindE_Inl split: if_splits)
  then show ?thesis
  proof cases
    case (2 e)
    then have "\<not> weight_denotes wt w" using weight_millionths_denotes [of wt w] by simp
    then show ?thesis unfolding denotes_iff p by simp
  next
    case (3 e)
    then show ?thesis unfolding denotes_iff p using named_combos_names(2) by simp
  qed (simp add: denotes_iff)
qed

lemma denotes_facts: "denotes token c w \<Longrightarrow> canonical_pair c \<and> 1 \<le> w \<and> w \<le> WEIGHT_SCALE"
  unfolding denotes_iff using names_pair weight_denotes_range by blast

lemma denotes_chars:
  assumes "denotes token c w"
  shows "set token \<subseteq> set RANKS \<union> set SUITS \<union> set ''so0123456789.@''" and "token \<noteq> []"
proof -
  obtain n wt where d: "token = (case wt of None \<Rightarrow> n | Some s \<Rightarrow> n @ ''@'' @ s)" "names n c"
    "weight_denotes wt w" using assms unfolding denotes_def by blast
  note n = names_chars [OF d(2)]
  show "token \<noteq> []" using d(1) n [THEN conjunct2] by (cases wt) simp_all
  have so: "set ''so'' \<subseteq> set ''so0123456789.@''" "set ''0123456789.'' \<subseteq> set ''so0123456789.@''"
    "CHR ''@'' \<in> set ''so0123456789.@''" by simp_all
  then have n': "set n \<subseteq> set RANKS \<union> set SUITS \<union> set ''so0123456789.@''"
    using n [THEN conjunct1] by blast
  show "set token \<subseteq> set RANKS \<union> set SUITS \<union> set ''so0123456789.@''"
  proof (cases wt)
    case None
    then show ?thesis using d(1) n' by (simp only: option.case)
  next
    case (Some s)
    then have "weight_lexeme s" using d(3) by (simp add: weight_denotes_def)
    then have "set s \<subseteq> set ''so0123456789.@''" using weight_lexeme_chars so(2) by blast
    moreover have "set token = set n \<union> {CHR ''@''} \<union> set s" using d(1) Some by simp
    ultimately show ?thesis using n' so(3) by blast
  qed
qed

section \<open>Canonical tokens\<close>

definition canonical_token :: "combo \<Rightarrow> int \<Rightarrow> string" where
  "canonical_token c w = fst c @ snd c @ weight_text w"

lemma canonical_token_denotes:
  assumes "canonical_pair c" "1 \<le> w" "w \<le> WEIGHT_SCALE"
  shows "denotes (canonical_token c w) c w"
proof -
  have n: "names (fst c @ snd c) c"
    using assms(1) by (intro Explicit_name) (auto simp: canonical_pair_def)
  show ?thesis
  proof (cases "w = WEIGHT_SCALE")
    case True
    then show ?thesis using n unfolding denotes_def
      by (intro exI [of _ "fst c @ snd c"] exI [of _ None])
        (simp add: canonical_token_def weight_text_def weight_denotes_def)
  next
    case False
    then have "weight_denotes (Some (''0.'' @ strip_zeros (pad6 w))) w"
      using weight_text_read [of w] assms(2,3) unfolding weight_millionths_denotes by simp
    then show ?thesis using n False unfolding denotes_def
      by (intro exI [of _ "fst c @ snd c"] exI [of _ "Some (''0.'' @ strip_zeros (pad6 w))"])
        (simp add: canonical_token_def weight_text_def)
  qed
qed

lemma expanded_canonical_token:
  assumes "canonical_pair c" "1 \<le> w" "w \<le> WEIGHT_SCALE"
  shows "expanded_token (canonical_token c w) = Inr ([c], w)"
proof (cases "expanded_token (canonical_token c w)")
  case (Inl e)
  with expanded_token_Inl canonical_token_denotes [OF assms] show ?thesis by blast
next
  case (Inr r)
  obtain cs v where r: "r = (cs, v)" by fastforce
  note e = expanded_token_Inr [OF Inr [unfolded r]]
  have w: "v = w" "c \<in> set cs" using e(3) [of c w] canonical_token_denotes [OF assms] by auto
  have "d = c" if "d \<in> set cs" for d
  proof -
    have "denotes (canonical_token c w) d w" using e(3) [of d w] that w(1) by simp
    then obtain n wt where d: "canonical_token c w = (case wt of None \<Rightarrow> n | Some s \<Rightarrow> n @ ''@'' @ s)"
      "names n d" unfolding denotes_def by blast
    have at: "CHR ''@'' \<notin> set n" by (rule no_at_sign(1) [OF d(2)])
    have cards: "CHR ''@'' \<notin> set (fst c @ snd c)"
      using no_at_sign(1) [OF Explicit_name [of "fst c" "snd c" c]] assms(1) by (simp add: canonical_pair_def)
    have "n = takeWhile (\<lambda>x. x \<noteq> CHR ''@'') (canonical_token c w)"
      using d(1) at by (cases wt) (auto simp: until_simps)
    also have "\<dots> = fst c @ snd c"
      using until_simps(1) [OF cards] until_simps(3) [OF cards]
      by (cases "w = WEIGHT_SCALE") (simp_all add: canonical_token_def weight_text_def)
    finally have n: "n = fst c @ snd c" .
    obtain r1 s1 r2 s2 where q: "fst c = [r1, s1]" "snd c = [r2, s2]" "canonical_card [r1, s1]" "canonical_card [r2, s2]"
      using assms(1) unfolding canonical_pair_def by (metis canonical_card_cases)
    then have "explicit_combo n = Some (fst c, snd c)" by (simp add: n explicit_combo_def)
    from explicit_names(1) [OF this, of d] d(2) have "{fst d, snd d} = {fst c, snd c}" "canonical_pair d" by auto
    then show "d = c" using same_two_cards assms(1) by blast
  qed
  with e(1) w(2) have "cs = [c]"
    by (metis distinct.simps(2) insert_iff list.exhaust list.set(2) list.set_cases list.set_intros(1) neq_Nil_conv)
  with w Inr r show ?thesis by simp
qed

end
