(* ===== verification/RangeExpand.thy ===== *)
theory RangeExpand
  imports RangeTokens
begin

text \<open>
  The loop of \<open>validate_versioned_range\<close> over the tokens of a notation, and the models it
  builds: the loop never builds a rejected diagnostic, it ends without diagnostics exactly if
  every token denotes something and no combo is denoted twice, and then it has collected the
  denoted combos in order.
\<close>

section \<open>Splitting and stripping\<close>

definition token_of :: "string \<Rightarrow> string" where
  "token_of raw = strip_set ('' '' @ [CHR 0x09]) raw"

lemma strip_set_cong:
  assumes "\<And>c. c \<in> set s \<Longrightarrow> c \<in> set A \<longleftrightarrow> c \<in> set B"
  shows "strip_set A s = strip_set B s"
proof -
  have d: "dropWhile (\<lambda>c. c \<in> set A) t = dropWhile (\<lambda>c. c \<in> set B) t" if "set t \<subseteq> set s" for t
    using that assms by (intro dropWhile_cong) auto
  have "set (rev (dropWhile (\<lambda>c. c \<in> set B) s)) \<subseteq> set s" by (auto dest: set_dropWhileD)
  from d [OF this] d [of s] show ?thesis by (simp add: strip_set_def)
qed

lemma strip_set_none:
  assumes "\<And>c. c \<in> set s \<Longrightarrow> c \<notin> set A"
  shows "strip_set A s = s"
  using strip_set_cong [of s A "[]"] assms by (simp add: strip_set_def)

lemma set_split_char: "t \<in> set (split_char x s) \<Longrightarrow> set t \<subseteq> set s \<and> x \<notin> set t"
proof (induction s arbitrary: t)
  case step: (Cons c s)
  show ?case
  proof (cases "split_char x s")
    case (Cons a ts)
    then have "set a \<subseteq> set s \<and> x \<notin> set a" "\<forall>u\<in>set ts. set u \<subseteq> set s \<and> x \<notin> set u"
      using step.IH Cons by simp_all
    with Cons step.prems show ?thesis by (auto split: if_splits)
  qed (use step in \<open>auto split: if_splits\<close>)
qed simp

lemma split_char_not_Nil [simp]: "split_char x s \<noteq> []"
  by (induction s) (auto split: list.splits)

lemma split_char_append: "x \<notin> set t \<Longrightarrow> split_char x (t @ x # s) = t # split_char x s"
  by (induction t) auto

lemma split_char_plain: "x \<notin> set t \<Longrightarrow> split_char x t = [t]"
  by (induction t) auto

lemma split_joined:
  "ts \<noteq> [] \<Longrightarrow> (\<And>t. t \<in> set ts \<Longrightarrow> CHR '','' \<notin> set t) \<Longrightarrow> split_char (CHR '','') (joined ts) = ts"
proof (induction ts rule: joined.induct)
  case (3 s t ts)
  then show ?case using split_char_append [of "CHR '',''" s "joined (t # ts)"] by simp
qed (simp_all add: split_char_plain)

section \<open>One token\<close>

definition token_items :: "string \<Rightarrow> (combo \<times> int) list" where
  "token_items raw =
     (case expanded_token (token_of raw) of Inl e \<Rightarrow> [] | Inr (cs, w) \<Rightarrow> map (\<lambda>c. (c, w)) cs)"

definition good_token :: "string \<Rightarrow> bool" where
  "good_token raw \<longleftrightarrow> token_of raw \<noteq> [] \<and>
     token_of raw = strip_set ('' '' @ [CHR 0x09, CHR 0x0D, CHR 0x0A]) raw \<and>
     (\<exists>r. expanded_token (token_of raw) = Inr r)"

lemma token_items_denotes: "(c, w) \<in> set (token_items raw) \<longleftrightarrow> denotes (token_of raw) c w"
proof (cases "expanded_token (token_of raw)")
  case (Inl e)
  then show ?thesis using expanded_token_Inl by (simp add: token_items_def)
next
  case (Inr r)
  obtain cs v where r: "r = (cs, v)" by fastforce
  show ?thesis using expanded_token_Inr(3) [OF Inr [unfolded r], of c w] Inr r
    by (auto simp: token_items_def)
qed

lemma token_items_distinct: "distinct (map fst (token_items raw))"
proof (cases "expanded_token (token_of raw)")
  case (Inr r)
  obtain cs v where r: "r = (cs, v)" by fastforce
  show ?thesis using expanded_token_Inr(1) [OF Inr [unfolded r]] Inr r
    by (simp add: token_items_def comp_def)
qed (simp add: token_items_def)

lemma printable_blanks:
  assumes "printable_ascii s" and "t \<in> set (split_char x s)"
  shows "token_of t = strip_set ('' '' @ [CHR 0x09, CHR 0x0D, CHR 0x0A]) t"
  unfolding token_of_def
proof (rule strip_set_cong)
  fix c assume "c \<in> set t"
  then have "c \<in> set s" using set_split_char [OF assms(2)] by blast
  then have "32 \<le> (of_char c :: nat)" using assms(1) by (simp add: printable_ascii_def list_all_iff)
  then have "c \<noteq> CHR 0x0D \<and> c \<noteq> CHR 0x0A" by auto
  then show "c \<in> set ('' '' @ [CHR 0x09]) \<longleftrightarrow> c \<in> set ('' '' @ [CHR 0x09, CHR 0x0D, CHR 0x0A])" by simp
qed

lemma good_token_denotes:
  assumes "printable_ascii s" and "t \<in> set (split_char x s)"
  shows "good_token t \<longleftrightarrow> (\<exists>c w. denotes (token_of t) c w)"
proof
  assume "good_token t"
  then obtain cs w where e: "expanded_token (token_of t) = Inr (cs, w)" by (auto simp: good_token_def)
  then show "\<exists>c w. denotes (token_of t) c w"
    using expanded_token_Inr(2,3) [OF e] by (metis list.set_sel(1))
next
  assume "\<exists>c w. denotes (token_of t) c w"
  then obtain c w where d: "denotes (token_of t) c w" by blast
  then have "\<exists>r. expanded_token (token_of t) = Inr r"
    using expanded_token_Inl by (cases "expanded_token (token_of t)") blast+
  then show "good_token t"
    unfolding good_token_def using denotes_chars(2) [OF d] printable_blanks [OF assms] by simp
qed

section \<open>The loop\<close>

lemma new_diagnostic_index:
  "0 \<le> i \<Longrightarrow> i < int MAX_RANGE_TOKENS \<Longrightarrow> \<exists>d. new_diagnostic c f (Some i) = Inr d \<and> range_diagnostic_ok d"
  "\<exists>d. new_diagnostic c f None = Inr d \<and> range_diagnostic_ok d \<and> rd_code d = c \<and> rd_field d = f"
  by (simp_all add: new_diagnostic_def range_diagnostic_ok_def)

definition expands_to :: "range_crash + expansion \<Rightarrow> bool \<Rightarrow> (combo \<times> int) list \<Rightarrow> bool" where
  \<comment> \<open>a normal end with good diagnostics; no diagnostics exactly if \<open>clean\<close>, and then \<open>items\<close>\<close>
  "expands_to m clean items \<longleftrightarrow> (\<exists>ex ds. m = Inr (ex, ds) \<and> list_all range_diagnostic_ok ds \<and>
     (ds = [] \<longleftrightarrow> clean) \<and> (clean \<longrightarrow> ex = items))"

lemma add_combos:
  assumes "0 \<le> i" "i < int MAX_RANGE_TOKENS"
  shows "distinct cs \<Longrightarrow> list_all range_diagnostic_ok ds \<Longrightarrow>
    expands_to (foldE (add_combo i w) (ex, ds) cs) (ds = [] \<and> set cs \<inter> fst ` set ex = {})
      (ex @ map (\<lambda>c. (c, w)) cs)"
proof (induction cs arbitrary: ex ds)
  case Nil
  then show ?case by (simp add: expands_to_def)
next
  case (Cons c cs)
  show ?case
  proof (cases "c \<in> fst ` set ex")
    case True
    obtain d where d: "new_diagnostic RNG_OVERLAP Notation_field (Some i) = Inr d" "range_diagnostic_ok d"
      using new_diagnostic_index(1) [OF assms] by blast
    then have "foldE (add_combo i w) (ex, ds) (c # cs) = foldE (add_combo i w) (ex, ds @ [d]) cs"
      using True by (simp add: add_combo_def)
    moreover have "expands_to (foldE (add_combo i w) (ex, ds @ [d]) cs) False (ex @ map (\<lambda>c. (c, w)) cs)"
      using Cons.IH [of "ds @ [d]" ex] Cons.prems d(2) by simp
    ultimately show ?thesis using True by (auto simp: expands_to_def)
  next
    case False
    then have f: "foldE (add_combo i w) (ex, ds) (c # cs) = foldE (add_combo i w) (ex @ [(c, w)], ds) cs"
      by (simp add: add_combo_def)
    have "set cs \<inter> fst ` set (ex @ [(c, w)]) = {} \<longleftrightarrow> set (c # cs) \<inter> fst ` set ex = {}"
      using Cons.prems(1) False by auto
    with Cons.IH [of ds "ex @ [(c, w)]"] Cons.prems show ?thesis unfolding f by simp
  qed
qed

lemma token_step_eq:
  "token_step (ex, ds) (n, raw) =
     (if token_of raw = [] \<or> token_of raw \<noteq> strip_set ('' '' @ [CHR 0x09, CHR 0x0D, CHR 0x0A]) raw
      then bindE (new_diagnostic RNG_SYNTAX Notation_field (Some (int n))) (\<lambda>d. Inr (ex, ds @ [d]))
      else (case expanded_token (token_of raw) of
          Inl e \<Rightarrow> bindE (diagnostic_from_exception e (int n)) (\<lambda>d. Inr (ex, ds @ [d]))
        | Inr (combos, weight) \<Rightarrow> foldE (add_combo (int n) weight) (ex, ds) combos))"
  unfolding token_step_def token_of_def Let_def prod.case by (rule refl)

lemma token_step_expands:
  assumes "n < MAX_RANGE_TOKENS" "list_all range_diagnostic_ok ds"
  shows "expands_to (token_step (ex, ds) (n, raw))
    (ds = [] \<and> good_token raw \<and> fst ` set (token_items raw) \<inter> fst ` set ex = {})
    (ex @ token_items raw)"
proof -
  have i: "0 \<le> int n" "int n < int MAX_RANGE_TOKENS" using assms by simp_all
  let ?blank = "token_of raw = [] \<or> token_of raw \<noteq> strip_set ('' '' @ [CHR 0x09, CHR 0x0D, CHR 0x0A]) raw"
  show ?thesis
  proof (cases ?blank)
    case True
    obtain d where "new_diagnostic RNG_SYNTAX Notation_field (Some (int n)) = Inr d" "range_diagnostic_ok d"
      using new_diagnostic_index(1) [OF i] by blast
    with True assms(2) show ?thesis
      by (auto simp: token_step_eq expands_to_def good_token_def)
  next
    case False
    show ?thesis
    proof (cases "expanded_token (token_of raw)")
      case (Inl e)
      obtain d where "diagnostic_from_exception e (int n) = Inr d" "range_diagnostic_ok d"
        unfolding diagnostic_from_exception_def using new_diagnostic_index(1) [OF i] by blast
      with False Inl assms(2) show ?thesis
        by (auto simp: token_step_eq expands_to_def good_token_def)
    next
      case (Inr r)
      obtain cs w where r: "r = (cs, w)" by fastforce
      have "token_step (ex, ds) (n, raw) = foldE (add_combo (int n) w) (ex, ds) cs"
        using False unfolding token_step_eq Inr r by (simp only: if_False sum.case prod.case)
      moreover have "token_items raw = map (\<lambda>c. (c, w)) cs" using Inr r by (simp add: token_items_def)
      moreover have "good_token raw" using False Inr unfolding good_token_def by blast
      ultimately show ?thesis
        using add_combos [OF i expanded_token_Inr(1) [OF Inr [unfolded r]] assms(2), of w ex]
        by (simp add: image_image)
    qed
  qed
qed

lemma expand_tokens_expands:
  "length ts \<le> MAX_RANGE_TOKENS \<Longrightarrow>
   expands_to (expand_tokens ts) (list_all good_token ts \<and> distinct (map fst (concat (map token_items ts))))
     (concat (map token_items ts))"
proof (induction ts rule: rev_induct)
  case Nil
  then show ?case by (simp add: expand_tokens_def expands_to_def)
next
  case (snoc t ts)
  let ?items = "concat (map token_items ts)"
  let ?clean = "list_all good_token ts \<and> distinct (map fst ?items)"
  from snoc have "expands_to (expand_tokens ts) ?clean ?items" by simp
  then obtain ex ds where e: "expand_tokens ts = Inr (ex, ds)" "list_all range_diagnostic_ok ds"
    "ds = [] \<longleftrightarrow> ?clean" "?clean \<longrightarrow> ex = ?items" unfolding expands_to_def by blast
  have step: "expand_tokens (ts @ [t]) = token_step (ex, ds) (length ts, t)"
    using e(1) by (simp add: expand_tokens_def enumerate_append_eq foldE_append)
      (cases "token_step (ex, ds) (length ts, t)"; simp)
  have "expands_to (expand_tokens (ts @ [t]))
      (ds = [] \<and> good_token t \<and> fst ` set (token_items t) \<inter> fst ` set ex = {}) (ex @ token_items t)"
    unfolding step using snoc.prems by (intro token_step_expands e(2)) simp
  moreover have "ds = [] \<and> good_token t \<and> fst ` set (token_items t) \<inter> fst ` set ex = {} \<longleftrightarrow>
      list_all good_token (ts @ [t]) \<and> distinct (map fst (concat (map token_items (ts @ [t]))))"
  proof -
    have "distinct (map fst (concat (map token_items (ts @ [t])))) \<longleftrightarrow>
        distinct (map fst ?items) \<and> fst ` set (token_items t) \<inter> fst ` set ?items = {}"
      using token_items_distinct [of t]
      by (simp only: map_append concat_append list.map concat.simps append_Nil2 distinct_append set_map) blast
    moreover have "list_all good_token (ts @ [t]) \<longleftrightarrow> list_all good_token ts \<and> good_token t" by simp
    ultimately show ?thesis using e(3,4) by blast
  qed
  ultimately show ?case using e(3,4) by (auto simp: expands_to_def)
qed

lemma distinct_items:
  "distinct (map fst (concat (map token_items ts))) \<longleftrightarrow>
   sorted_wrt (\<lambda>s t. \<not> (\<exists>c v w. denotes (token_of s) c v \<and> denotes (token_of t) c w)) ts"
proof (induction ts)
  case (Cons t ts)
  have "fst ` set (token_items t) \<inter> fst ` set (concat (map token_items ts)) = {} \<longleftrightarrow>
      (\<forall>s\<in>set ts. \<not> (\<exists>c v w. denotes (token_of t) c v \<and> denotes (token_of s) c w))"
    unfolding token_items_denotes [symmetric] by force
  with Cons.IH token_items_distinct [of t] show ?case
    by (simp only: list.map concat.simps map_append distinct_append set_map sorted_wrt.simps) blast
qed simp

section \<open>How many combos there are\<close>

lemma canonical_pairs_bound:
  assumes "distinct cs" and "list_all canonical_pair cs"
    and "\<forall>c\<in>set cs. fst c \<notin> set bs \<and> snd c \<notin> set bs" and "distinct bs" "set bs \<subseteq> set DECK"
  shows "length cs \<le> (52 - length bs) choose 2"
proof -
  let ?A = "set DECK - set bs"
  have "set cs \<subseteq> {c. canonical_pair c \<and> fst c \<in> ?A \<and> snd c \<in> ?A}"
    using assms(2,3) by (auto simp: list_all_iff set_DECK canonical_pair_def)
  moreover note canonical_pairs_count [of ?A]
  ultimately have "card (set cs) \<le> card ?A choose 2"
    by (metis (no_types, lifting) Diff_subset List.finite_set card_mono finite_Diff set_DECK)
  moreover have "card ?A = 52 - length bs"
    using assms(4,5) length_DECK by (simp add: card_Diff_subset distinct_card)
  ultimately show ?thesis using assms(1) by (simp add: distinct_card)
qed

lemma items_pairs: "(c, w) \<in> set (concat (map token_items ts)) \<Longrightarrow>
    canonical_pair c \<and> 1 \<le> w \<and> w \<le> WEIGHT_SCALE"
  unfolding set_concat set_map using denotes_facts token_items_denotes by blast

lemma expanded_bound:
  assumes "distinct (map fst (concat (map token_items ts)))"
  shows "length (concat (map token_items ts)) \<le> MAX_EXPANDED_COMBOS"
proof -
  let ?cs = "map fst (concat (map token_items ts))"
  have p: "list_all canonical_pair ?cs" using items_pairs by (fastforce simp: list_all_iff)
  have "length ?cs \<le> (52 - length ([] :: string list)) choose 2"
    by (rule canonical_pairs_bound [OF assms p]) simp_all
  moreover have "(52::nat) choose 2 = 1326" by (simp add: choose_two)
  ultimately show ?thesis by (simp add: MAX_EXPANDED_COMBOS_def)
qed

end
