(* ===== verification/RangeProofs.thy ===== *)
theory RangeProofs
  imports RangeExpand
begin

text \<open>
  \<open>validate_versioned_range\<close> as a whole.  Every model it builds passes its own validation, so it
  always returns; \<open>validate_cases\<close> says when the result is a success and what it then holds.
\<close>

section \<open>The models that are built\<close>

lemma is_sha256_hex [simp]: "is_sha256 (sha256_hex bs)"
  using sha256_hex_format [of bs]
  by (simp add: is_sha256_def SHA256_PATTERN_def fullmatch_rep_cls hex_chars_def)

lemma bounded_diagnostics_ok:
  assumes "ds \<noteq> []" "list_all range_diagnostic_ok ds"
  shows "bounded_diagnostics ds \<noteq> []" "length (bounded_diagnostics ds) \<le> MAX_RANGE_DIAGNOSTICS"
    "list_all range_diagnostic_ok (bounded_diagnostics ds)"
  using assms
  by (auto simp: bounded_diagnostics_def MAX_RANGE_DIAGNOSTICS_def list_all_iff range_diagnostic_ok_def
      dest: in_set_takeD)

definition belongs_to :: "range_definition \<Rightarrow> string \<Rightarrow> range_result \<Rightarrow> bool" where
  \<comment> \<open>a valid result that carries the identity, the provenance and the hash of the definition\<close>
  "belongs_to d source_hash r \<longleftrightarrow> range_result_ok r \<and>
     rr_range_id r = rg_range_id d \<and> rr_target_player_id r = rg_target_player_id d \<and>
     rr_source r = rg_source d \<and> rr_game_conditions r = rg_game_conditions d \<and>
     rr_source_notation_sha256 r = source_hash"

lemma range_failed_returns:
  assumes "range_definition_ok d" "is_sha256 sh" "ds \<noteq> []" "list_all range_diagnostic_ok ds"
  shows "\<exists>r. range_failed d sh ds = Inr r \<and> belongs_to d sh r \<and> rr_status r = Range_failed \<and>
    rr_diagnostics r = bounded_diagnostics ds"
  using assms bounded_diagnostics_ok [OF assms(3,4)]
  by (simp add: range_failed_def new_result_def belongs_to_def range_result_ok_def closed_result_shape_def
      range_definition_ok_def WEIGHT_SCALE_def)

lemma failed_with_returns:
  assumes "range_definition_ok d" "is_sha256 sh"
  shows "\<exists>r. failed_with d sh c f = Inr r \<and> belongs_to d sh r \<and> rr_status r = Range_failed"
proof -
  obtain g where "new_diagnostic c f None = Inr g" "range_diagnostic_ok g"
    using new_diagnostic_index(2) by blast
  with range_failed_returns [OF assms, of "[g]"] show ?thesis by (auto simp: failed_with_def)
qed

lemma strip_zeros_append: "strip_zeros t \<noteq> [] \<Longrightarrow> strip_zeros (s @ t) = s @ strip_zeros t"
  by (auto simp: strip_zeros_def dropWhile_append split: if_splits)

definition combo_of_item :: "combo \<times> int \<Rightarrow> weighted_combo" where
  "combo_of_item it = \<lparr>wc_cards = fst it, wc_weight_millionths = snd it,
     wc_canonical_token = canonical_token (fst it) (snd it)\<rparr>"

definition good_item :: "combo \<times> int \<Rightarrow> bool" where
  "good_item it \<longleftrightarrow> canonical_pair (fst it) \<and> 1 \<le> snd it \<and> snd it \<le> WEIGHT_SCALE"

lemma combo_of_item_ok:
  assumes "good_item it"
  shows "weighted_combo_ok (combo_of_item it)"
proof -
  obtain a b w where it: "it = ((a, b), w)" by (cases it) auto
  have g: "canonical_card a" "canonical_card b" "card_key a < card_key b" "1 \<le> w" "w \<le> WEIGHT_SCALE"
    using assms by (simp_all add: good_item_def it canonical_pair_def)
  then have len: "length a = 2" "length b = 2" "a \<noteq> b" by (auto elim!: canonical_card_cases)
  show ?thesis
  proof (cases "w = WEIGHT_SCALE")
    case True
    with g len show ?thesis
      by (simp add: weighted_combo_ok_def combo_of_item_def it canonical_token_def weight_text_def)
  next
    case False
    then have d: "1 \<le> length (strip_zeros (pad6 w))" "length (strip_zeros (pad6 w)) \<le> 6"
      using weight_text_digits(1,2) [of w] g by auto
    then have "strip_zeros (pad6 w) \<noteq> []" by auto
    from strip_zeros_append [OF this, of "''@0.''"] False g len d show ?thesis
      by (simp add: weighted_combo_ok_def combo_of_item_def it canonical_token_def weight_text_def)
  qed
qed

lemma new_weighted_combos:
  "list_all good_item items \<Longrightarrow> mapE new_weighted_combo items = Inr (map combo_of_item items)"
proof (induction items)
  case (Cons it items)
  obtain a b w where it: "it = ((a, b), w)" by (cases it) auto
  have "new_weighted_combo it = Inr (combo_of_item it)"
    using combo_of_item_ok [of it] Cons.prems
    by (simp add: new_weighted_combo_def it combo_of_item_def canonical_token_def)
  with Cons show ?case by simp
qed simp

lemma weights_bound:
  "list_all weighted_combo_ok cs \<Longrightarrow>
   0 \<le> (\<Sum>c\<leftarrow>cs. wc_weight_millionths c) \<and> (\<Sum>c\<leftarrow>cs. wc_weight_millionths c) \<le> int (length cs) * WEIGHT_SCALE"
proof (induction cs)
  case (Cons c cs)
  then have "1 \<le> wc_weight_millionths c" "wc_weight_millionths c \<le> WEIGHT_SCALE"
    by (auto simp: weighted_combo_ok_def Let_def split: prod.splits)
  with Cons show ?case by (simp add: algebra_simps)
qed simp

definition succeeds_with :: "range_result \<Rightarrow> string \<Rightarrow> string list \<Rightarrow> weighted_combo list \<Rightarrow> bool" where
  "succeeds_with r ch bl cs \<longleftrightarrow> rr_status r = Range_success \<and> rr_diagnostics r = [] \<and>
     rr_condition_binding_sha256 r = Some ch \<and> rr_blockers r = bl \<and> rr_combos r = cs \<and>
     rr_canonical_notation r = Some (joined (map wc_canonical_token cs)) \<and>
     rr_canonical_combo_sha256 r = Some (combos_sha256 cs) \<and> rr_combo_count r = int (length cs) \<and>
     rr_total_weight_millionths r = (\<Sum>c\<leftarrow>cs. wc_weight_millionths c)"

lemma range_succeeded_returns:
  assumes "range_definition_ok d" "is_sha256 sh" "is_sha256 ch"
    and "distinct bl" "set bl \<subseteq> set DECK"
    and "cs \<noteq> []" "length cs \<le> MAX_EXPANDED_COMBOS" "list_all weighted_combo_ok cs"
  shows "\<exists>r. range_succeeded d sh ch bl cs = Inr r \<and> belongs_to d sh r \<and> succeeds_with r ch bl cs"
proof -
  have b: "length bl \<le> 52"
    using card_mono [OF _ assms(5)] assms(4) length_DECK by (simp add: distinct_card)
  have c: "list_all canonical_card bl" using assms(5) by (auto simp: set_DECK list_all_iff)
  have w: "0 \<le> (\<Sum>c\<leftarrow>cs. wc_weight_millionths c)"
    "(\<Sum>c\<leftarrow>cs. wc_weight_millionths c) \<le> int MAX_EXPANDED_COMBOS * WEIGHT_SCALE"
    using weights_bound [OF assms(8)] mult_right_mono [of "int (length cs)" "int MAX_EXPANDED_COMBOS" WEIGHT_SCALE]
      assms(7) by (simp_all add: WEIGHT_SCALE_def)
  show ?thesis
    using assms b c w
    by (simp add: range_succeeded_def new_result_def belongs_to_def range_result_ok_def
        closed_result_shape_def range_definition_ok_def succeeds_with_def combos_sha256_def)
qed

section \<open>Expansion and blocking\<close>

definition range_tokens :: "range_definition \<Rightarrow> string list" where
  "range_tokens d = split_char (CHR '','') (rg_notation d)"

definition range_items :: "range_definition \<Rightarrow> (combo \<times> int) list" where
  "range_items d = concat (map token_items (range_tokens d))"

definition canonical_items :: "range_definition \<Rightarrow> string list \<Rightarrow> (combo \<times> int) list" where
  "canonical_items d bl = sort_key (\<lambda>it. combo_sort_key (fst it)) (surviving_combos bl (range_items d))"

definition clean_notation :: "range_definition \<Rightarrow> bool" where
  "clean_notation d \<longleftrightarrow> length (range_tokens d) \<le> MAX_RANGE_TOKENS \<and>
     list_all good_token (range_tokens d) \<and> distinct (map fst (range_items d))"

lemma range_items_good: "list_all good_item (range_items d)"
  using items_pairs by (fastforce simp: list_all_iff range_items_def good_item_def)

lemma canonical_items_good: "list_all good_item (canonical_items d bl)"
  using range_items_good by (auto simp: list_all_iff canonical_items_def surviving_combos_def)

lemma expand_and_block_returns:
  assumes "range_definition_ok d" "is_sha256 sh" "is_sha256 ch" "distinct bl" "set bl \<subseteq> set DECK"
  shows "\<exists>r. expand_and_block d sh ch bl = Inr r \<and> belongs_to d sh r \<and>
    (if clean_notation d \<and> canonical_items d bl \<noteq> []
     then succeeds_with r ch bl (map combo_of_item (canonical_items d bl)) else rr_status r = Range_failed)"
proof (cases "length (range_tokens d) \<le> MAX_RANGE_TOKENS")
  case False
  then show ?thesis
    using failed_with_returns [OF assms(1,2), of RNG_LIMIT Notation_field]
    by (auto simp: expand_and_block_def range_tokens_def [symmetric] clean_notation_def)
next
  case True
  let ?clean = "list_all good_token (range_tokens d) \<and> distinct (map fst (range_items d))"
  obtain ex ds where e: "expand_tokens (range_tokens d) = Inr (ex, ds)" "list_all range_diagnostic_ok ds"
    "ds = [] \<longleftrightarrow> ?clean" "?clean \<longrightarrow> ex = range_items d"
    using expand_tokens_expands [OF True] unfolding expands_to_def range_items_def by blast
  have ne: "range_tokens d \<noteq> []" by (simp add: range_tokens_def)
  show ?thesis
  proof (cases ?clean)
    case False
    then have "ds \<noteq> []" using e(3) by simp
    with range_failed_returns [OF assms(1,2) this e(2)] False True e(1) ne show ?thesis
      by (auto simp: expand_and_block_def range_tokens_def [symmetric] clean_notation_def Let_def)
  next
    case clean: True
    have bound: "length (range_items d) \<le> MAX_EXPANDED_COMBOS"
      using expanded_bound clean unfolding range_items_def by blast
    have run: "expand_and_block d sh ch bl =
        (if canonical_items d bl = [] then failed_with d sh RNG_EMPTY Blockers_field
         else range_succeeded d sh ch bl (map combo_of_item (canonical_items d bl)))"
    proof -
      have empty: "surviving_combos bl (range_items d) = [] \<longleftrightarrow> canonical_items d bl = []"
        unfolding canonical_items_def by (metis length_0_conv length_sort)
      show ?thesis
        using True ne e clean bound new_weighted_combos [OF canonical_items_good [of d bl]]
        unfolding expand_and_block_def range_tokens_def [symmetric] Let_def empty [symmetric]
        by (simp add: canonical_items_def)
    qed
    show ?thesis
    proof (cases "canonical_items d bl = []")
      case True
      then show ?thesis using failed_with_returns [OF assms(1,2), of RNG_EMPTY Blockers_field]
        by (auto simp: run)
    next
      case False
      have "length (canonical_items d bl) \<le> length (range_items d)"
        by (simp add: canonical_items_def surviving_combos_def)
      then have "\<exists>r. range_succeeded d sh ch bl (map combo_of_item (canonical_items d bl)) = Inr r \<and>
          belongs_to d sh r \<and> succeeds_with r ch bl (map combo_of_item (canonical_items d bl))"
        using bound False canonical_items_good [of d bl] combo_of_item_ok
        by (intro range_succeeded_returns assms) (auto simp: list_all_iff)
      then show ?thesis using False True clean by (auto simp: run clean_notation_def)
    qed
  qed
qed

section \<open>The binding to the hand\<close>

lemma condition_binding_Some:
  assumes "condition_binding h d = (Some ch, bl, err)"
  shows "err = None" "is_sha256 ch" "distinct bl" "set bl \<subseteq> set DECK"
    "normalize_cards (h_hero_cards h @ take (visible_board_count (rc_street (rg_game_conditions d))) (h_board h)) True = Inr bl"
  using assms normalize_cards_distinct
  by (auto simp: condition_binding_def refused_def Let_def split: option.splits sum.splits if_splits)

lemma condition_binding_refuses:
  "condition_binding h d = (x, bl, Some g) \<Longrightarrow> range_diagnostic_ok g"
  by (auto simp: condition_binding_def refused_def Let_def range_diagnostic_ok_def
      split: option.splits sum.splits if_splits)

definition range_admitted :: "ranged_hand \<Rightarrow> range_definition \<Rightarrow> string \<Rightarrow> string list \<Rightarrow> bool" where
  "range_admitted h d ch bl \<longleftrightarrow>
     length (utf8 (rg_notation d)) \<le> MAX_RANGE_NOTATION_BYTES \<and> printable_ascii (rg_notation d) \<and>
     sha256_hex (utf8 (rg_notation d)) = rs_content_sha256 (rg_source d) \<and>
     versioned_ranges h = [d] \<and> condition_binding h d = (Some ch, bl, None)"

lemma admitted_unique: "range_admitted h d ch bl \<Longrightarrow> range_admitted h d ch' bl' \<Longrightarrow> ch' = ch \<and> bl' = bl"
  by (simp add: range_admitted_def)

lemma validate_admitted:
  assumes "range_definition_ok d" "range_admitted h d ch bl"
  shows "validate_versioned_range h d = expand_and_block d (sha256_hex (utf8 (rg_notation d))) ch bl"
  using assms
  by (simp add: validate_versioned_range_def Let_def range_admitted_def range_definition_ok_def
      RANGE_SCHEMA_VERSION_def)

definition range_fails :: "range_definition \<Rightarrow> string \<Rightarrow> range_crash + range_result \<Rightarrow> bool" where
  "range_fails d sh m \<longleftrightarrow> (\<exists>r. m = Inr r \<and> belongs_to d sh r \<and> rr_status r = Range_failed)"

lemma range_fails_if:
  "(c \<Longrightarrow> range_fails d sh m) \<Longrightarrow> (\<not> c \<Longrightarrow> range_fails d sh n) \<Longrightarrow> range_fails d sh (if c then m else n)"
  by simp

lemma validate_not_admitted:
  assumes "range_definition_ok d" "\<And>ch bl. \<not> range_admitted h d ch bl"
  shows "range_fails d (sha256_hex (utf8 (rg_notation d))) (validate_versioned_range h d)"
proof -
  define sh where "sh = sha256_hex (utf8 (rg_notation d))"
  have sh: "is_sha256 sh" by (simp add: sh_def)
  have F: "range_fails d sh (failed_with d sh c f)" for c f
    unfolding range_fails_def by (rule failed_with_returns [OF assms(1) sh])
  obtain x bl err where b: "condition_binding h d = (x, bl, err)" by (cases "condition_binding h d") auto
  have last: "range_fails d sh (case condition_binding h d of
          (_, _, Some diag) \<Rightarrow> range_failed d sh [diag]
        | (None, _, None) \<Rightarrow> failed_with d sh RNG_GAME_CONDITION Game_conditions_field
        | (Some condition_hash, blockers, None) \<Rightarrow> expand_and_block d sh condition_hash blockers)"
    if "\<And>ch bl. condition_binding h d \<noteq> (Some ch, bl, None)"
  proof (cases err)
    case None
    with b that F show ?thesis by (cases x) auto
  next
    case (Some g)
    have "range_diagnostic_ok g" using b condition_binding_refuses unfolding Some by blast
    then have "range_fails d sh (range_failed d sh [g])"
      unfolding range_fails_def using range_failed_returns [OF assms(1) sh, of "[g]"] by auto
    with b Some show ?thesis by (cases x) simp_all
  qed
  have "range_fails d sh (validate_versioned_range h d)"
    unfolding validate_versioned_range_def Let_def sh_def [symmetric]
    by (intro range_fails_if F last; use assms(2) in \<open>simp add: range_admitted_def sh_def [symmetric]\<close>)
  then show ?thesis by (simp add: sh_def)
qed

theorem validate_cases:
  assumes "range_definition_ok d"
  obtains r where "validate_versioned_range h d = Inr r"
      "belongs_to d (sha256_hex (utf8 (rg_notation d))) r"
      "rr_status r = Range_failed"
      "\<And>ch bl. range_admitted h d ch bl \<Longrightarrow> \<not> (clean_notation d \<and> canonical_items d bl \<noteq> [])"
  | r ch bl where "validate_versioned_range h d = Inr r"
      "belongs_to d (sha256_hex (utf8 (rg_notation d))) r"
      "range_admitted h d ch bl" "clean_notation d" "canonical_items d bl \<noteq> []"
      "succeeds_with r ch bl (map combo_of_item (canonical_items d bl))"
proof (cases "\<exists>ch bl. range_admitted h d ch bl")
  case False
  then show thesis using validate_not_admitted [OF assms, of h] that(1) unfolding range_fails_def by blast
next
  case True
  then obtain ch bl where a: "range_admitted h d ch bl" by blast
  then have "condition_binding h d = (Some ch, bl, None)" by (simp add: range_admitted_def)
  note b = condition_binding_Some [OF this]
  obtain r where r: "expand_and_block d (sha256_hex (utf8 (rg_notation d))) ch bl = Inr r"
    "belongs_to d (sha256_hex (utf8 (rg_notation d))) r"
    "if clean_notation d \<and> canonical_items d bl \<noteq> []
     then succeeds_with r ch bl (map combo_of_item (canonical_items d bl)) else rr_status r = Range_failed"
    using expand_and_block_returns [OF assms is_sha256_hex b(2-4)] by blast
  note v = validate_admitted [OF assms a]
  show thesis
  proof (cases "clean_notation d \<and> canonical_items d bl \<noteq> []")
    case True
    with r v a that(2) show thesis by simp
  next
    case False
    with r v a that(1) admitted_unique [OF a] show thesis by (metis (no_types))
  qed
qed

section \<open>What a success lists\<close>

lemma clean_iff:
  assumes "printable_ascii (rg_notation d)"
  shows "clean_notation d \<longleftrightarrow> length (range_tokens d) \<le> MAX_RANGE_TOKENS \<and>
     (\<forall>t\<in>set (range_tokens d). \<exists>c w. denotes (token_of t) c w) \<and>
     sorted_wrt (\<lambda>s t. \<not> (\<exists>c v w. denotes (token_of s) c v \<and> denotes (token_of t) c w)) (range_tokens d)"
  using good_token_denotes [OF assms] distinct_items [of "range_tokens d"]
  by (auto simp: clean_notation_def range_tokens_def range_items_def list_all_iff)

definition unblocked :: "string list \<Rightarrow> combo \<Rightarrow> bool" where
  "unblocked bl c \<longleftrightarrow> fst c \<notin> set bl \<and> snd c \<notin> set bl"

lemma canonical_items_denote:
  "(c, w) \<in> set (canonical_items d bl) \<longleftrightarrow>
     (\<exists>t\<in>set (range_tokens d). denotes (token_of t) c w) \<and> unblocked bl c"
  unfolding canonical_items_def surviving_combos_def range_items_def unblocked_def
  by (cases c) (simp add: token_items_denotes)

lemma combo_sort_key_inj:
  "canonical_pair c \<Longrightarrow> canonical_pair e \<Longrightarrow> combo_sort_key c = combo_sort_key e \<Longrightarrow> c = e"
  by (cases c; cases e) (auto simp: combo_sort_key_def canonical_pair_def dest: card_key_inj)

lemma canonical_items_sorted:
  assumes "distinct (map fst (range_items d))"
  shows "sorted_wrt (<) (map (\<lambda>it. combo_sort_key (fst it)) (canonical_items d bl))"
    and "distinct (map fst (canonical_items d bl))"
proof -
  let ?ok = "\<lambda>(c, w). fst c \<notin> set bl \<and> snd c \<notin> set bl"
  have "mset (map fst (canonical_items d bl)) = mset (map fst (filter ?ok (range_items d)))"
    unfolding mset_map canonical_items_def surviving_combos_def mset_sort by (rule refl)
  from mset_eq_imp_distinct_iff [OF this] distinct_map_filter [OF assms]
  show d: "distinct (map fst (canonical_items d bl))" by blast
  have "inj_on combo_sort_key (set (map fst (canonical_items d bl)))"
    using canonical_items_good [of d bl] combo_sort_key_inj
    by (auto simp: inj_on_def list_all_iff good_item_def)
  with d have "distinct (map combo_sort_key (map fst (canonical_items d bl)))"
    by (subst distinct_map) blast
  moreover have "sorted (map (\<lambda>it. combo_sort_key (fst it)) (canonical_items d bl))"
    by (simp add: canonical_items_def)
  ultimately show "sorted_wrt (<) (map (\<lambda>it. combo_sort_key (fst it)) (canonical_items d bl))"
    by (simp add: strict_sorted_iff comp_def)
qed

end
