(* ===== verification/RangeSample.thy ===== *)
theory RangeSample
  imports RangeProofs
begin

text \<open>
  A concrete hand and range for the properties: a heads-up cash hand before the first action,
  the villain's range being all kings and one ace-king at half weight, the hero holding a king.
\<close>

definition range_hand_of :: "range_definition \<Rightarrow> ranged_hand" where
  "range_hand_of d =
     \<lparr>h_game_type = NLHE, h_format = Cash, h_table_size = 2, h_small_blind = 1, h_big_blind = 2,
      h_ante = 0, h_rake = None,
      h_players = [\<lparr>ps_player_id = ''hero'', ps_position = ''BTN'', ps_starting_stack = 200\<rparr>,
        \<lparr>ps_player_id = ''villain'', ps_position = ''BB'', ps_starting_stack = 200\<rparr>],
      h_hero_player_id = Some ''hero'', h_hero_cards = [''Kc'', ''2d''], h_board = [],
      h_actions = [], h_tournament = None, h_known_ranges = [Versioned_range d]\<rparr>"

definition sample_notation :: string where "sample_notation = ''KK, AsKd@0.50''"

definition sample_range :: "range_definition" where
  "sample_range =
     \<lparr>rg_schema_version = ''1.0.0'', rg_grammar_id = ''poker-deliberation.nlhe-range'',
      rg_grammar_version = ''1.0.0'', rg_range_id = ''range1'', rg_target_player_id = ''villain'',
      rg_notation = sample_notation,
      rg_source = \<lparr>rs_source_id = ''source1'', rs_source_kind = User_supplied,
        rs_license_classification = User_supplied_private_analysis,
        rs_usage_classification = Local_analysis_only, rs_content_status = Assumption,
        rs_content_sha256 = sha256_hex (utf8 sample_notation)\<rparr>,
      rg_game_conditions = \<lparr>rc_game_type = NLHE, rc_format = Cash, rc_table_size = 2,
        rc_target_position = ''BB'', rc_street = Preflop, rc_starting_stack_min_bb_milli = 100000,
        rc_starting_stack_max_bb_milli = 100000, rc_as_of_action_index = 0,
        rc_action_prefix_sha256 = canonical_sha256 (JList [])\<rparr>\<rparr>"

definition sample_ranged_hand :: "ranged_hand" where "sample_ranged_hand = range_hand_of sample_range"

lemma alnum_set: "set alnum_chars = {c. is_digit c \<or> c \<in> set lower_chars \<or> c \<in> set upper_chars}"
  by (auto simp: alnum_chars_def digit_chars_digit)

lemma sample_range_ids:
  "range_portable_id ''range1''" "range_portable_id ''villain''" "range_portable_id ''source1''"
  "fullmatch POSITION_PATTERN ''BB''"
  unfolding range_portable_id_def RANGE_ID_PATTERN_def POSITION_PATTERN_def
  by (rule fullmatch_head_tail; simp add: alnum_chars_def lower_chars_def upper_chars_def digit_chars_def)+

lemma sample_range_ok: "range_definition_ok sample_range"
  using sample_range_ids
  by (simp add: range_definition_ok_def sample_range_def range_source_ok_def range_conditions_ok_def
      sample_notation_def RANGE_SCHEMA_VERSION_def RANGE_GRAMMAR_ID_def RANGE_GRAMMAR_VERSION_def
      MAX_RANGE_ACTION_PREFIX_def)

lemma sample_ranged_ok: "ranged_hand_ok sample_ranged_hand"
  by (simp add: ranged_hand_ok_def sample_ranged_hand_def range_hand_of_def sample_range_ok canonical_hand_ok_def
      canonical_hand.truncate_def player_stack_ok_def validate_game_context_def)

section \<open>What the notation denotes\<close>

lemma sample_tokens: "range_tokens sample_range = [''KK'', '' AsKd@0.50'']"
  by (simp add: range_tokens_def sample_range_def sample_notation_def)

lemma kings: "expanded_token ''KK'' = Inr ([(''Kc'', ''Kd''), (''Kc'', ''Kh''), (''Kc'', ''Ks''),
    (''Kd'', ''Kh''), (''Kd'', ''Ks''), (''Kh'', ''Ks'')], 1000000)"
  by (simp add: expanded_token_def partition_at_def weight_millionths_def explicit_combo_def hand_class_def
      class_cards_def canonical_combo_def card_key_def position_in_def RANKS_def SUITS_def WEIGHT_SCALE_def)

lemma half: "weight_millionths (Some ''0.50'') = Inr 500000"
proof -
  have "weight_lexeme ''0.50''"
    unfolding weight_lexeme_iff by (intro disjI2 exI [of _ "''50''"]) (simp add: digit_chars_def)
  moreover have "decimal_of_text ''0.50'' * 1000000 = 500000"
    by (simp add: decimal_of_text_def partition_at_def digits_value_def)
  ultimately show ?thesis unfolding weight_millionths_Some by (simp add: WEIGHT_SCALE_def)
qed

lemma ace_king: "expanded_token ''AsKd@0.50'' = Inr ([(''As'', ''Kd'')], 500000)"
  by (simp add: expanded_token_def partition_at_def half explicit_combo_def canonical_combo_def
      card_key_def position_in_def RANKS_def SUITS_def)

lemma sample_token_of: "token_of ''KK'' = ''KK''" "token_of '' AsKd@0.50'' = ''AsKd@0.50''"
  by (simp_all add: token_of_def strip_set_def)

lemma sample_items: "range_items sample_range =
    [((''Kc'', ''Kd''), 1000000), ((''Kc'', ''Kh''), 1000000), ((''Kc'', ''Ks''), 1000000),
     ((''Kd'', ''Kh''), 1000000), ((''Kd'', ''Ks''), 1000000), ((''Kh'', ''Ks''), 1000000),
     ((''As'', ''Kd''), 500000)]"
  by (simp add: range_items_def sample_tokens token_items_def sample_token_of kings ace_king)

lemma sample_clean: "clean_notation sample_range"
proof -
  have "good_token ''KK''" "good_token '' AsKd@0.50''"
    unfolding good_token_def sample_token_of by (simp_all add: kings ace_king) (simp_all add: strip_set_def)
  then show ?thesis
    unfolding clean_notation_def sample_items by (simp add: sample_tokens MAX_RANGE_TOKENS_def)
qed

lemma sample_blockers: "normalize_cards [''Kc'', ''2d''] True = Inr [''Kc'', ''2d'']"
  by (simp add: normalize_cards_def normalize_card_def py_strip_def py_space_def upper_char_def lower_char_def
      RANKS_def SUITS_def)

lemma sample_range_canonical: "canonical_items sample_range [''Kc'', ''2d''] =
    [((''As'', ''Kd''), 500000), ((''Kd'', ''Kh''), 1000000), ((''Kd'', ''Ks''), 1000000),
     ((''Kh'', ''Ks''), 1000000)]"
  by (simp add: canonical_items_def surviving_combos_def sample_items combo_sort_key_def card_key_def
      position_in_def RANKS_def SUITS_def)

lemma sample_stack: "stack_bb_milli sample_ranged_hand
    \<lparr>ps_player_id = ''villain'', ps_position = ''BB'', ps_starting_stack = 200\<rparr> = 100000"
proof -
  have "dec_round (of_int 200000) = of_int 200000" "dec_round (of_int 100000) = of_int 100000"
    by (rule dec_round_of_int; simp)+
  then show ?thesis
    by (simp add: stack_bb_milli_def dec_mul_def dec_div_def sample_ranged_hand_def range_hand_of_def)
qed

lemma sample_player: "player_of sample_ranged_hand ''villain'' =
    Some \<lparr>ps_player_id = ''villain'', ps_position = ''BB'', ps_starting_stack = 200\<rparr>"
  by (simp add: player_of_def sample_ranged_hand_def range_hand_of_def)

lemma sample_prefix: "action_prefix_sha256 sample_ranged_hand 0 = Some (canonical_sha256 (JList []))"
  by (simp add: action_prefix_sha256_def sample_ranged_hand_def range_hand_of_def MAX_RANGE_ACTION_PREFIX_def)

lemma sample_condition: "\<exists>ch. condition_binding sample_ranged_hand sample_range = (Some ch, [''Kc'', ''2d''], None)"
proof -
  have h: "h_hero_player_id sample_ranged_hand = Some ''hero''" "h_game_type sample_ranged_hand = NLHE"
    "h_format sample_ranged_hand = Cash" "h_table_size sample_ranged_hand = 2" "h_actions sample_ranged_hand = []"
    "h_board sample_ranged_hand = []" "h_hero_cards sample_ranged_hand = [''Kc'', ''2d'']"
    "observed_street sample_ranged_hand 0 = Preflop"
    by (simp_all add: sample_ranged_hand_def range_hand_of_def observed_street_def)
  have d: "rg_target_player_id sample_range = ''villain''"
    "rc_game_type (rg_game_conditions sample_range) = NLHE" "rc_format (rg_game_conditions sample_range) = Cash"
    "rc_table_size (rg_game_conditions sample_range) = 2"
    "rc_target_position (rg_game_conditions sample_range) = ''BB''"
    "rc_street (rg_game_conditions sample_range) = Preflop"
    "rc_starting_stack_min_bb_milli (rg_game_conditions sample_range) = 100000"
    "rc_starting_stack_max_bb_milli (rg_game_conditions sample_range) = 100000"
    "rc_as_of_action_index (rg_game_conditions sample_range) = 0"
    "rc_action_prefix_sha256 (rg_game_conditions sample_range) = canonical_sha256 (JList [])"
    by (simp_all add: sample_range_def)
  show ?thesis
    unfolding condition_binding_def Let_def d sample_player option.case h sample_prefix sample_stack
    by (simp add: sample_blockers)
qed

lemma sample_admitted: "\<exists>ch. range_admitted sample_ranged_hand sample_range ch [''Kc'', ''2d'']"
proof -
  obtain ch where "condition_binding sample_ranged_hand sample_range = (Some ch, [''Kc'', ''2d''], None)"
    using sample_condition by blast
  moreover have "versioned_ranges sample_ranged_hand = [sample_range]"
    by (simp add: versioned_ranges_def sample_ranged_hand_def range_hand_of_def)
  moreover have "rg_notation sample_range = sample_notation"
    "rs_content_sha256 (rg_source sample_range) = sha256_hex (utf8 sample_notation)"
    by (simp_all add: sample_range_def)
  moreover have "printable_ascii sample_notation" by (simp add: printable_ascii_def sample_notation_def)
  moreover have "length (utf8 sample_notation) \<le> MAX_RANGE_NOTATION_BYTES"
    by (simp add: utf8_def sample_notation_def MAX_RANGE_NOTATION_BYTES_def)
  ultimately have "range_admitted sample_ranged_hand sample_range ch [''Kc'', ''2d'']"
    unfolding range_admitted_def by simp
  then show ?thesis ..
qed

lemma sample_success:
  obtains r ch where "validate_versioned_range sample_ranged_hand sample_range = Inr r"
    "range_admitted sample_ranged_hand sample_range ch [''Kc'', ''2d'']"
    "succeeds_with r ch [''Kc'', ''2d''] (map combo_of_item
       [((''As'', ''Kd''), 500000), ((''Kd'', ''Kh''), 1000000), ((''Kd'', ''Ks''), 1000000),
        ((''Kh'', ''Ks''), 1000000)])"
proof -
  obtain ch where a: "range_admitted sample_ranged_hand sample_range ch [''Kc'', ''2d'']"
    using sample_admitted by blast
  show thesis
  proof (cases rule: validate_cases [OF sample_range_ok, of sample_ranged_hand])
    case (1 r)
    with a sample_clean sample_range_canonical show ?thesis by fastforce
  next
    case (2 r ch' bl')
    then have "ch' = ch" "bl' = [''Kc'', ''2d'']" using admitted_unique [OF a] by auto
    with 2 that [of r ch] a show ?thesis by (simp only: sample_range_canonical)
  qed
qed

end
