(* ===== verification/RangeProps.thy ===== *)
theory RangeProps
  imports RangeSample
begin

text \<open>
  The properties of the range grammar: validation always returns a valid result, it accepts
  exactly the bound and unambiguous notations, it lists exactly what they denote, and its
  canonical notation is a fixed point.
\<close>

section \<open>C34: validation is total\<close>

text \<open>
  C34: \<open>validate_versioned_range\<close> returns for every valid hand and every valid definition: no
  model it builds on the way is rejected.  What it returns satisfies \<open>RangeValidationResultV1\<close>
  (so a failure carries between 1 and 64 diagnostics and no partial artifact) and repeats the
  identity, the provenance and the conditions of the definition.
\<close>

theorem range_validation_is_total:
  assumes "ranged_hand_ok h" and "range_definition_ok d"
  shows "\<exists>r. validate_versioned_range h d = Inr r \<and> range_result_ok r \<and>
    rr_range_id r = rg_range_id d \<and> rr_target_player_id r = rg_target_player_id d \<and>
    rr_source r = rg_source d \<and> rr_game_conditions r = rg_game_conditions d \<and>
    rr_source_notation_sha256 r = sha256_hex (utf8 (rg_notation d))"
  by (rule validate_cases [OF assms(2), of h]) (auto simp: belongs_to_def)

theorem range_validation_is_total_witness:
  "\<exists>r. validate_versioned_range sample_ranged_hand sample_range = Inr r \<and> range_result_ok r \<and>
    rr_range_id r = ''range1''"
  using range_validation_is_total [OF sample_ranged_ok sample_range_ok] by (auto simp: sample_range_def)

section \<open>C35: what is accepted\<close>

text \<open>
  C35: for a well-formed range whose validation returned a result, that result is a success
  exactly if all of the following hold: the notation has at most 16384 UTF-8 bytes; it is
  printable ASCII (0x20 to 0x7e), so that a tab is refused, although docs/range-grammar.md
  allows a tab around a token; its SHA-256 is the one the provenance commits to; the range
  is the only versioned range of its hand; its conditions bind it to the hand; it has at most
  1326 tokens; every token denotes something; no combo is denoted by two tokens (blocked or
  not); and some denoted combo holds no blocker.
\<close>

theorem range_acceptance:
  assumes "range_definition_ok d" and "validate_versioned_range h d = Inr r"
  shows "rr_status r = Range_success \<longleftrightarrow>
    length (utf8 (rg_notation d)) \<le> 16384 \<and> printable_ascii (rg_notation d) \<and>
    sha256_hex (utf8 (rg_notation d)) = rs_content_sha256 (rg_source d) \<and>
    versioned_ranges h = [d] \<and>
    (\<exists>ch bl. condition_binding h d = (Some ch, bl, None) \<and>
      (let ts = split_char (CHR '','') (rg_notation d) in
        length ts \<le> 1326 \<and> (\<forall>t\<in>set ts. \<exists>c w. denotes (token_of t) c w) \<and>
        sorted_wrt (\<lambda>s t. \<not> (\<exists>c v w. denotes (token_of s) c v \<and> denotes (token_of t) c w)) ts \<and>
        (\<exists>t\<in>set ts. \<exists>c w. denotes (token_of t) c w \<and> fst c \<notin> set bl \<and> snd c \<notin> set bl)))"
    (is "_ \<longleftrightarrow> ?R")
proof -
  have R: "?R \<longleftrightarrow> (\<exists>ch bl. range_admitted h d ch bl \<and> clean_notation d \<and> canonical_items d bl \<noteq> [])"
  proof -
    have ne: "canonical_items d bl \<noteq> [] \<longleftrightarrow>
        (\<exists>t\<in>set (range_tokens d). \<exists>c w. denotes (token_of t) c w \<and> fst c \<notin> set bl \<and> snd c \<notin> set bl)" for bl
      using canonical_items_denote [of _ _ d bl] unfolding unblocked_def
      by (metis (no_types, opaque_lifting) empty_iff list.set(1) list.set_sel(1) prod.collapse)
    show ?thesis
      using clean_iff [of d]
      unfolding range_admitted_def ne Let_def range_tokens_def MAX_RANGE_NOTATION_BYTES_def MAX_RANGE_TOKENS_def
      by blast
  qed
  show ?thesis unfolding R
  proof (cases rule: validate_cases [OF assms(1), of h])
    case (1 r')
    with assms(2) show "rr_status r = Range_success \<longleftrightarrow>
        (\<exists>ch bl. range_admitted h d ch bl \<and> clean_notation d \<and> canonical_items d bl \<noteq> [])" by auto
  next
    case (2 r' ch bl)
    with assms(2) show "rr_status r = Range_success \<longleftrightarrow>
        (\<exists>ch bl. range_admitted h d ch bl \<and> clean_notation d \<and> canonical_items d bl \<noteq> [])"
      by (auto simp: succeeds_with_def)
  qed
qed

theorem range_acceptance_witness:
  "\<exists>r. validate_versioned_range sample_ranged_hand sample_range = Inr r \<and>
     rr_status r = Range_success \<and> versioned_ranges sample_ranged_hand = [sample_range]"
proof -
  obtain r ch where r: "validate_versioned_range sample_ranged_hand sample_range = Inr r"
    "succeeds_with r ch [''Kc'', ''2d''] (map combo_of_item
       [((''As'', ''Kd''), 500000), ((''Kd'', ''Kh''), 1000000), ((''Kd'', ''Ks''), 1000000),
        ((''Kh'', ''Ks''), 1000000)])" by (rule sample_success)
  then have s: "rr_status r = Range_success" by (simp add: succeeds_with_def)
  with range_acceptance [OF sample_range_ok r(1)] have "versioned_ranges sample_ranged_hand = [sample_range]" by blast
  with r(1) s show ?thesis by blast
qed

section \<open>C36: what a success lists\<close>

text \<open>
  C36: a successful result lists exactly the combos that some token denotes and that hold no
  blocker, each with the weight its token denotes, once and in canonical order (higher card
  first); the blockers are the hero's cards and the board cards visible on the bound street.
\<close>

theorem range_lists_what_it_denotes:
  assumes "range_definition_ok d" and "validate_versioned_range h d = Inr r"
    and "rr_status r = Range_success"
  shows "(\<forall>c w. (\<exists>k\<in>set (rr_combos r). wc_cards k = c \<and> wc_weight_millionths k = w) \<longleftrightarrow>
      (\<exists>t\<in>set (split_char (CHR '','') (rg_notation d)). denotes (token_of t) c w) \<and>
      fst c \<notin> set (rr_blockers r) \<and> snd c \<notin> set (rr_blockers r)) \<and>
    sorted_wrt (<) (map (\<lambda>k. combo_sort_key (wc_cards k)) (rr_combos r)) \<and>
    normalize_cards (h_hero_cards h @
      take (visible_board_count (rc_street (rg_game_conditions d))) (h_board h)) True = Inr (rr_blockers r)"
proof -
  obtain ch bl where s: "range_admitted h d ch bl" "clean_notation d"
    "succeeds_with r ch bl (map combo_of_item (canonical_items d bl))"
    by (rule validate_cases [OF assms(1), of h]) (use assms(2,3) in auto)
  from s(3) have r: "rr_combos r = map combo_of_item (canonical_items d bl)" "rr_blockers r = bl"
    by (simp_all add: succeeds_with_def)
  have "(\<exists>k\<in>set (rr_combos r). wc_cards k = c \<and> wc_weight_millionths k = w) \<longleftrightarrow>
      (\<exists>t\<in>set (split_char (CHR '','') (rg_notation d)). denotes (token_of t) c w) \<and>
      fst c \<notin> set (rr_blockers r) \<and> snd c \<notin> set (rr_blockers r)" for c w
  proof -
    have "(\<exists>k\<in>set (rr_combos r). wc_cards k = c \<and> wc_weight_millionths k = w) \<longleftrightarrow> (c, w) \<in> set (canonical_items d bl)"
      unfolding r(1) by (force simp: combo_of_item_def)
    then show ?thesis unfolding canonical_items_denote unblocked_def range_tokens_def r(2) .
  qed
  moreover have "distinct (map fst (range_items d))" using s(2) by (simp add: clean_notation_def)
  from canonical_items_sorted(1) [OF this, of bl]
  have "sorted_wrt (<) (map (\<lambda>k. combo_sort_key (wc_cards k)) (rr_combos r))"
    by (simp add: r(1) combo_of_item_def comp_def)
  moreover have "normalize_cards (h_hero_cards h @
      take (visible_board_count (rc_street (rg_game_conditions d))) (h_board h)) True = Inr (rr_blockers r)"
    using s(1) condition_binding_Some(5) unfolding r(2) range_admitted_def by blast
  ultimately show ?thesis by blast
qed

theorem range_lists_what_it_denotes_witness:
  "\<exists>r. validate_versioned_range sample_ranged_hand sample_range = Inr r \<and>
     (\<exists>t\<in>set [''KK'', '' AsKd@0.50'']. denotes (token_of t) (''As'', ''Kd'') 500000) \<and>
     normalize_cards [''Kc'', ''2d''] True = Inr (rr_blockers r)"
proof -
  obtain r ch where r: "validate_versioned_range sample_ranged_hand sample_range = Inr r"
    "succeeds_with r ch [''Kc'', ''2d''] (map combo_of_item
       [((''As'', ''Kd''), 500000), ((''Kd'', ''Kh''), 1000000), ((''Kd'', ''Ks''), 1000000),
        ((''Kh'', ''Ks''), 1000000)])" by (rule sample_success)
  then have s: "rr_status r = Range_success" "\<exists>k\<in>set (rr_combos r). wc_cards k = (''As'', ''Kd'') \<and> wc_weight_millionths k = 500000"
    by (simp_all add: succeeds_with_def combo_of_item_def)
  note l = range_lists_what_it_denotes [OF sample_range_ok r(1) s(1)]
  have "\<exists>t\<in>set [''KK'', '' AsKd@0.50'']. denotes (token_of t) (''As'', ''Kd'') 500000"
    using l [THEN conjunct1, rule_format, of "(''As'', ''Kd'')" 500000] s(2)
      sample_tokens [unfolded range_tokens_def] by simp
  moreover have "normalize_cards [''Kc'', ''2d''] True = Inr (rr_blockers r)"
    using l [THEN conjunct2, THEN conjunct2] by (simp add: sample_ranged_hand_def range_hand_of_def sample_range_def)
  ultimately show ?thesis using r(1) by blast
qed

section \<open>C37: the canonical notation is a fixed point\<close>

lemma canonical_token_plain:
  assumes "good_item it"
  shows "CHR '','' \<notin> set (canonical_token (fst it) (snd it))"
    and "token_of (canonical_token (fst it) (snd it)) = canonical_token (fst it) (snd it)"
    and "printable_ascii (canonical_token (fst it) (snd it))"
    and "expanded_token (canonical_token (fst it) (snd it)) = Inr ([fst it], snd it)"
proof -
  let ?t = "canonical_token (fst it) (snd it)"
  have g: "canonical_pair (fst it)" "1 \<le> snd it" "snd it \<le> WEIGHT_SCALE" using assms by (simp_all add: good_item_def)
  have "set ?t \<subseteq> set RANKS \<union> set SUITS \<union> set ''so0123456789.@''"
    by (rule denotes_chars(1) [OF canonical_token_denotes [OF g]])
  also have "\<dots> \<subseteq> {c. 46 \<le> (of_char c :: nat) \<and> of_char c \<le> (126::nat)}" (is "_ \<subseteq> ?P")
    by (simp add: RANKS_def SUITS_def)
  finally have p: "set ?t \<subseteq> ?P" .
  then show "CHR '','' \<notin> set ?t" by auto
  show "printable_ascii ?t" using p by (fastforce simp: printable_ascii_def list_all_iff)
  have "c \<notin> set ('' '' @ [CHR 0x09])" if "c \<in> set ?t" for c using p that by auto
  then show "token_of ?t = ?t" unfolding token_of_def by (rule strip_set_none)
  show "expanded_token ?t = Inr ([fst it], snd it)" by (rule expanded_canonical_token [OF g])
qed

lemma printable_joined: "list_all printable_ascii ts \<Longrightarrow> printable_ascii (joined ts)"
  by (induction ts rule: joined.induct) (simp_all add: printable_ascii_def)

lemma sort_key_sorted: "sorted (map f xs) \<Longrightarrow> sort_key f xs = xs"
  by (rule sort_key_id_if_sorted)

definition recanonicalized :: "range_definition \<Rightarrow> string \<Rightarrow> range_definition" where
  \<comment> \<open>the same range written in the given notation, its provenance committing to the new text\<close>
  "recanonicalized d n = d\<lparr>rg_notation := n,
     rg_source := (rg_source d)\<lparr>rs_content_sha256 := sha256_hex (utf8 n)\<rparr>\<rparr>"

lemma binding_ignores_notation:
  "condition_binding (h\<lparr>h_known_ranges := ks\<rparr>) (recanonicalized d n) = condition_binding h d"
  by (simp add: condition_binding_def recanonicalized_def player_of_def observed_street_def
      action_prefix_sha256_def stack_bb_milli_def json_of_binding_def Let_def
      cong: option.case_cong sum.case_cong if_cong)

lemma canonical_items_again:
  assumes "canonical_items d bl \<noteq> []" "distinct (map fst (range_items d))"
    and "rg_notation d' = joined (map wc_canonical_token (map combo_of_item (canonical_items d bl)))"
  shows "range_items d' = canonical_items d bl" "canonical_items d' bl = canonical_items d bl"
    "length (range_tokens d') = length (canonical_items d bl)" "list_all good_token (range_tokens d')"
proof -
  let ?ts = "map (\<lambda>it. canonical_token (fst it) (snd it)) (canonical_items d bl)"
  have good: "good_item it" if "it \<in> set (canonical_items d bl)" for it
    using canonical_items_good [of d bl] that by (simp add: list_all_iff)
  have j: "rg_notation d' = joined ?ts" using assms(3) by (simp add: combo_of_item_def comp_def)
  have ts: "range_tokens d' = ?ts"
    unfolding range_tokens_def j using assms(1) canonical_token_plain(1) [OF good]
    by (intro split_joined) auto
  then show "length (range_tokens d') = length (canonical_items d bl)" by simp
  have one: "token_items (canonical_token (fst it) (snd it)) = [it]"
    if "it \<in> set (canonical_items d bl)" for it
    using canonical_token_plain [OF good [OF that]] by (simp add: token_items_def)
  have "good_token (canonical_token (fst it) (snd it))" if "it \<in> set (canonical_items d bl)" for it
  proof -
    let ?t = "canonical_token (fst it) (snd it)"
    note p = canonical_token_plain [OF good [OF that]]
    have "denotes ?t (fst it) (snd it)"
      using good [OF that] by (intro canonical_token_denotes) (simp_all add: good_item_def)
    then have "\<exists>c w. denotes (token_of ?t) c w" unfolding p(2) by blast
    moreover have "?t \<in> set (split_char (CHR '','') ?t)" using p(1) by (simp add: split_char_plain)
    ultimately show ?thesis using good_token_denotes [OF p(3)] by blast
  qed
  then show "list_all good_token (range_tokens d')" by (simp add: ts list_all_iff)
  have "concat (map token_items ?ts) = concat (map (\<lambda>it. [it]) (canonical_items d bl))"
    unfolding map_map using one by (intro arg_cong [where f = concat] map_cong) auto
  then show items: "range_items d' = canonical_items d bl" by (simp add: range_items_def ts)
  have "surviving_combos bl (canonical_items d bl) = canonical_items d bl"
    by (auto simp: surviving_combos_def canonical_items_def filter_id_conv)
  then show "canonical_items d' bl = canonical_items d bl"
    unfolding canonical_items_def [of d'] items
    by (simp add: sort_key_sorted canonical_items_def)
qed

text \<open>
  C37: take a well-formed range that validates successfully and whose canonical notation has at
  most 16384 UTF-8 bytes (not every success has: a very large range with long weights exceeds
  them).  Validating that canonical notation, with the provenance hash of that text and as the
  only versioned range of the hand, gives the same result again: the same combos and weights,
  the same canonical notation, the same combo hash and condition binding; only the provenance
  and the notation hash differ.
\<close>

theorem canonical_notation_is_fixed_point:
  assumes "range_definition_ok d" and "validate_versioned_range h d = Inr r"
    and "rr_canonical_notation r = Some n" and "length (utf8 n) \<le> 16384"
  shows "validate_versioned_range (h\<lparr>h_known_ranges := [Versioned_range (recanonicalized d n)]\<rparr>)
      (recanonicalized d n) =
    Inr (r\<lparr>rr_source := rg_source (recanonicalized d n),
           rr_source_notation_sha256 := sha256_hex (utf8 n)\<rparr>)"
proof -
  let ?d = "recanonicalized d n" and ?h = "h\<lparr>h_known_ranges := [Versioned_range (recanonicalized d n)]\<rparr>"
  have "rr_status r \<noteq> Range_failed"
  proof -
    have "range_result_ok r" using validate_cases [OF assms(1), of h] assms(2) by (auto simp: belongs_to_def)
    then show ?thesis using assms(3) by (auto simp: range_result_ok_def closed_result_shape_def)
  qed
  then obtain ch bl where s: "range_admitted h d ch bl" "clean_notation d" "canonical_items d bl \<noteq> []"
    "succeeds_with r ch bl (map combo_of_item (canonical_items d bl))"
    "belongs_to d (sha256_hex (utf8 (rg_notation d))) r"
    by - (rule validate_cases [OF assms(1), of h], use assms(2) in auto)
  have n: "n = joined (map wc_canonical_token (map combo_of_item (canonical_items d bl)))"
    using s(4) assms(3) by (simp add: succeeds_with_def)
  have dist: "distinct (map fst (range_items d))" using s(2) by (simp add: clean_notation_def)
  have nd: "rg_notation ?d = n" by (simp add: recanonicalized_def)
  note again = canonical_items_again [OF s(3) dist nd [unfolded n], folded n]
  have good: "good_item it" if "it \<in> set (canonical_items d bl)" for it
    using canonical_items_good [of d bl] that by (simp add: list_all_iff)
  have printable: "printable_ascii n"
    unfolding n using canonical_token_plain(3) [OF good]
    by (intro printable_joined) (simp add: list_all_iff combo_of_item_def)
  have "n \<noteq> []"
  proof
    assume "n = []"
    then have "range_tokens ?d = [[]]" by (simp add: range_tokens_def recanonicalized_def)
    with again(4) show False by (simp add: good_token_def token_of_def strip_set_def)
  qed
  then have ok: "range_definition_ok ?d"
    using assms(1) by (simp add: range_definition_ok_def recanonicalized_def range_source_ok_def)
  have "condition_binding ?h ?d = (Some ch, bl, None)"
    using s(1) by (simp only: binding_ignores_notation range_admitted_def)
  then have adm: "range_admitted ?h ?d ch bl"
    using printable assms(4)
    by (simp add: range_admitted_def nd MAX_RANGE_NOTATION_BYTES_def versioned_ranges_def)
      (simp add: recanonicalized_def)
  have len: "length (canonical_items d bl) \<le> MAX_RANGE_TOKENS"
  proof -
    have "length (canonical_items d bl) \<le> length (range_items d)"
      by (simp add: canonical_items_def surviving_combos_def)
    also have "\<dots> \<le> MAX_EXPANDED_COMBOS" using expanded_bound dist unfolding range_items_def by blast
    finally show ?thesis by (simp add: MAX_EXPANDED_COMBOS_def MAX_RANGE_TOKENS_def)
  qed
  have clean: "clean_notation ?d"
    unfolding clean_notation_def again(1,3) using len again(4) canonical_items_sorted(2) [OF dist] by blast
  show ?thesis
  proof (cases rule: validate_cases [OF ok, of ?h])
    case (1 r')
    with adm clean again(2) s(3) show ?thesis by metis
  next
    case (2 r' ch' bl')
    then have eq: "ch' = ch" "bl' = bl" using admitted_unique [OF adm] by auto
    have "r' = r\<lparr>rr_source := rg_source ?d, rr_source_notation_sha256 := sha256_hex (utf8 n)\<rparr>"
      using 2(2,6) s(4,5) unfolding eq again(2) nd
      by (intro range_result.equality)
        (simp_all add: belongs_to_def succeeds_with_def range_result_ok_def closed_result_shape_def
          recanonicalized_def)
    with 2(1) show ?thesis by simp
  qed
qed

theorem canonical_notation_is_fixed_point_witness:
  "\<exists>r. validate_versioned_range
      (sample_ranged_hand\<lparr>h_known_ranges := [Versioned_range (recanonicalized sample_range ''AsKd@0.5,KdKh,KdKs,KhKs'')]\<rparr>)
      (recanonicalized sample_range ''AsKd@0.5,KdKh,KdKs,KhKs'') = Inr r \<and>
    rr_canonical_notation r = Some ''AsKd@0.5,KdKh,KdKs,KhKs''"
proof -
  obtain r ch where r: "validate_versioned_range sample_ranged_hand sample_range = Inr r"
    "succeeds_with r ch [''Kc'', ''2d''] (map combo_of_item
       [((''As'', ''Kd''), 500000), ((''Kd'', ''Kh''), 1000000), ((''Kd'', ''Ks''), 1000000),
        ((''Kh'', ''Ks''), 1000000)])" by (rule sample_success)
  have w: "weight_text 1000000 = []" "weight_text 500000 = ''@0.5''"
    by (simp_all add: weight_text_def WEIGHT_SCALE_def pad6_def zero_pad_def nat_str.simps digit_char_def
        strip_zeros_def)
  have c: "rr_canonical_notation r = Some ''AsKd@0.5,KdKh,KdKs,KhKs''"
    using r(2) by (simp add: succeeds_with_def combo_of_item_def canonical_token_def w)
  have "length (utf8 ''AsKd@0.5,KdKh,KdKs,KhKs'') \<le> 16384" by (simp add: utf8_def)
  from canonical_notation_is_fixed_point [OF sample_range_ok r(1) c this] c show ?thesis by simp
qed

section \<open>Boundary behaviour\<close>

text \<open>A tab is refused before the tokens are stripped of blanks.\<close>

lemma tab_is_refused:
  assumes "range_definition_ok d" and "CHR 0x09 \<in> set (rg_notation d)"
    and "length (utf8 (rg_notation d)) \<le> MAX_RANGE_NOTATION_BYTES"
  shows "validate_versioned_range h d =
    failed_with d (sha256_hex (utf8 (rg_notation d))) RNG_NON_ASCII Notation_field"
proof -
  have "\<not> printable_ascii (rg_notation d)" using assms(2) by (force simp: printable_ascii_def list_all_iff)
  with assms(1,3) show ?thesis
    by (simp add: validate_versioned_range_def Let_def range_definition_ok_def RANGE_SCHEMA_VERSION_def)
qed

end
