(* ===== verification/RangeEquityModels.thy ===== *)
theory RangeEquityModels
  imports RangeModels RevisionModels
begin

text \<open>
  The records of \<open>range_equity_models.py\<close>: the binding that an admitted case carries and the
  projection of the exact equity oracle, with the validators of both.  A field whose type is a
  \<open>Literal\<close> with one value is not part of a record, only of its JSON form.
\<close>

section \<open>Constants and hashing\<close>

definition RANGE_EQUITY_CONTRACT_ID :: string where
  "RANGE_EQUITY_CONTRACT_ID = ''poker-versioned-range-river-equity''"
definition RANGE_EQUITY_MARKER :: string where "RANGE_EQUITY_MARKER = ''versioned_range_river_equity''"
definition RANGE_EQUITY_MAX_EVALUATIONS :: int where "RANGE_EQUITY_MAX_EVALUATIONS = 990"
definition MAX_TOTAL_WEIGHT :: int where "MAX_TOTAL_WEIGHT = 1326000000"
definition RANGE_EQUITY_TOOL_PLAN :: "string list" where
  "RANGE_EQUITY_TOOL_PLAN = [''range_validate'', ''combos'', ''holdem_equity'']"

definition SOURCE_RANGE_HASH_DOMAIN :: string where
  "SOURCE_RANGE_HASH_DOMAIN = ''poker-versioned-range-river-equity-source-range-v1''"
definition ORACLE_HASH_DOMAIN :: string where
  "ORACLE_HASH_DOMAIN = ''poker-versioned-range-river-equity-oracle-v1''"
definition BINDING_HASH_DOMAIN :: string where
  "BINDING_HASH_DOMAIN = ''poker-versioned-range-river-equity-binding-v1''"
definition CANDIDATE_HASH_DOMAIN :: string where
  "CANDIDATE_HASH_DOMAIN = ''poker-versioned-range-river-equity-candidate-v1''"

definition equity_sha256 :: "string \<Rightarrow> json \<Rightarrow> string" where
  \<comment> \<open>\<open>canonical_domain_sha256\<close>\<close>
  "equity_sha256 domain value = sha256_hex (utf8 domain @ [0] @ utf8 (dumps value))"

datatype equity_code =
  REQ_SCHEMA | REQ_CASE | REQ_HAND | REQ_RANGE | REQ_TARGET | REQ_DECISION | REQ_CARD
| REQ_TOOL_PLAN | REQ_PROVENANCE | REQ_LIMIT | REQ_CHAIN | REQ_ORACLE | REQ_REPLAY

section \<open>The binding of an admitted case\<close>

record equity_binding =
  eb_range_id :: string
  eb_target_player_id :: string
  eb_hero_player_id :: string
  eb_as_of_action_index :: int
  eb_source_range_sha256 :: string
  eb_candidate_sha256 :: string
  eb_condition_binding_sha256 :: string
  eb_canonical_combo_sha256 :: string
  eb_oracle_sha256 :: string
  eb_combo_count :: int
  eb_total_weight_millionths :: int
  eb_binding_sha256 :: string

definition binding_constants :: "(string \<times> json) list" where
  "binding_constants =
     [(''schema_version'', JStr ''1.0.0''), (''contract_id'', JStr RANGE_EQUITY_CONTRACT_ID),
      (''contract_version'', JStr ''1.0.0''), (''hash_algorithm'', JStr ''sha256''),
      (''exact_evaluation_cap'', JInt RANGE_EQUITY_MAX_EVALUATIONS),
      (''tool_plan'', JList (map JStr RANGE_EQUITY_TOOL_PLAN))]"

definition binding_payload :: "equity_binding \<Rightarrow> (string \<times> json) list" where
  \<comment> \<open>the dump without \<open>binding_sha256\<close>\<close>
  "binding_payload b =
     [(''range_id'', JStr (eb_range_id b)), (''target_player_id'', JStr (eb_target_player_id b)),
      (''hero_player_id'', JStr (eb_hero_player_id b)),
      (''as_of_action_index'', JInt (eb_as_of_action_index b)),
      (''source_range_sha256'', JStr (eb_source_range_sha256 b)),
      (''candidate_sha256'', JStr (eb_candidate_sha256 b)),
      (''condition_binding_sha256'', JStr (eb_condition_binding_sha256 b)),
      (''canonical_combo_sha256'', JStr (eb_canonical_combo_sha256 b)),
      (''oracle_sha256'', JStr (eb_oracle_sha256 b)), (''combo_count'', JInt (eb_combo_count b)),
      (''total_weight_millionths'', JInt (eb_total_weight_millionths b))] @ binding_constants"

definition binding_hash :: "equity_binding \<Rightarrow> string" where
  "binding_hash b = equity_sha256 BINDING_HASH_DOMAIN (JObj (binding_payload b))"

definition json_of_equity_binding :: "equity_binding \<Rightarrow> json" where
  "json_of_equity_binding b =
     JObj (binding_payload b @ [(''binding_sha256'', JStr (eb_binding_sha256 b))])"

definition counts_weigh :: "int \<Rightarrow> int \<Rightarrow> bool" where
  \<comment> \<open>every combo weighs between one millionth and one\<close>
  "counts_weigh n weight \<longleftrightarrow> n \<le> weight \<and> weight \<le> n * 1000000"

definition binding_fields_ok :: "equity_binding \<Rightarrow> bool" where
  "binding_fields_ok b \<longleftrightarrow>
     range_portable_id (eb_range_id b) \<and> range_portable_id (eb_target_player_id b) \<and>
     range_portable_id (eb_hero_player_id b) \<and>
     1 \<le> eb_as_of_action_index b \<and> eb_as_of_action_index b \<le> 512 \<and>
     is_sha256 (eb_source_range_sha256 b) \<and> is_sha256 (eb_candidate_sha256 b) \<and>
     is_sha256 (eb_condition_binding_sha256 b) \<and> is_sha256 (eb_canonical_combo_sha256 b) \<and>
     is_sha256 (eb_oracle_sha256 b) \<and>
     1 \<le> eb_combo_count b \<and> eb_combo_count b \<le> RANGE_EQUITY_MAX_EVALUATIONS \<and>
     1 \<le> eb_total_weight_millionths b \<and> eb_total_weight_millionths b \<le> MAX_TOTAL_WEIGHT \<and>
     is_sha256 (eb_binding_sha256 b)"

definition equity_binding_ok :: "equity_binding \<Rightarrow> bool" where
  "equity_binding_ok b \<longleftrightarrow> binding_fields_ok b \<and>
     counts_weigh (eb_combo_count b) (eb_total_weight_millionths b) \<and> eb_binding_sha256 b = binding_hash b"

definition binding_field_types :: "(string \<times> (json \<Rightarrow> bool)) list" where
  "binding_field_types =
     [(''range_id'', is_string (\<lambda>s. True)), (''target_player_id'', is_string (\<lambda>s. True)),
      (''hero_player_id'', is_string (\<lambda>s. True)), (''as_of_action_index'', is_int (\<lambda>i. True)),
      (''source_range_sha256'', is_string (\<lambda>s. True)), (''candidate_sha256'', is_string (\<lambda>s. True)),
      (''condition_binding_sha256'', is_string (\<lambda>s. True)),
      (''canonical_combo_sha256'', is_string (\<lambda>s. True)), (''oracle_sha256'', is_string (\<lambda>s. True)),
      (''combo_count'', is_int (\<lambda>i. True)), (''total_weight_millionths'', is_int (\<lambda>i. True)),
      (''binding_sha256'', is_string (\<lambda>s. True))]"

definition equity_binding_of_json :: "json \<Rightarrow> equity_binding" where
  "equity_binding_of_json j =
     \<lparr>eb_range_id = str_of (field ''range_id'' j),
      eb_target_player_id = str_of (field ''target_player_id'' j),
      eb_hero_player_id = str_of (field ''hero_player_id'' j),
      eb_as_of_action_index = int_of (field ''as_of_action_index'' j),
      eb_source_range_sha256 = str_of (field ''source_range_sha256'' j),
      eb_candidate_sha256 = str_of (field ''candidate_sha256'' j),
      eb_condition_binding_sha256 = str_of (field ''condition_binding_sha256'' j),
      eb_canonical_combo_sha256 = str_of (field ''canonical_combo_sha256'' j),
      eb_oracle_sha256 = str_of (field ''oracle_sha256'' j),
      eb_combo_count = int_of (field ''combo_count'' j),
      eb_total_weight_millionths = int_of (field ''total_weight_millionths'' j),
      eb_binding_sha256 = str_of (field ''binding_sha256'' j)\<rparr>"

definition read_equity_binding :: "json \<Rightarrow> equity_code + equity_binding" where
  \<comment> \<open>strict validation of the JSON form, where the constant fields may be missing; the code is
     the one that \<open>_binding_from_case\<close> reports: a hash that does not match, as the only error,
     is told apart\<close>
  "read_equity_binding j =
     (case j of
        JObj fs \<Rightarrow>
          if \<not> (distinct (map fst fs) \<and>
            set (map fst binding_field_types) \<subseteq> set (map fst fs) \<and>
            set (map fst fs) \<subseteq> set (map fst binding_field_types) \<union> set (map fst binding_constants) \<and>
            list_all (\<lambda>c. snd c (field (fst c) j)) binding_field_types \<and>
            list_all (\<lambda>c. fst c \<in> set (map fst fs) \<longrightarrow> field (fst c) j = snd c) binding_constants)
          then Inl REQ_SCHEMA
          else (let b = equity_binding_of_json j in
            if \<not> (binding_fields_ok b \<and>
              counts_weigh (eb_combo_count b) (eb_total_weight_millionths b)) then Inl REQ_SCHEMA
            else if eb_binding_sha256 b \<noteq> binding_hash b then Inl REQ_PROVENANCE else Inr b)
      | _ \<Rightarrow> Inl REQ_SCHEMA)"

section \<open>The projection of the oracle\<close>

record oracle_projection =
  op_binding_sha256 :: string
  op_oracle_sha256 :: string
  op_range_id :: string
  op_target_player_id :: string
  op_hero_player_id :: string
  op_combo_count :: int
  op_total_weight_millionths :: int
  op_win_combo_count :: int
  op_tie_combo_count :: int
  op_loss_combo_count :: int
  op_win_weight_millionths :: int
  op_tie_weight_millionths :: int
  op_loss_weight_millionths :: int
  op_equity_numerator :: int
  op_equity_denominator :: int

definition between :: "int \<Rightarrow> int \<Rightarrow> int \<Rightarrow> bool" where "between lo hi x \<longleftrightarrow> lo \<le> x \<and> x \<le> hi"

definition oracle_projection_ok :: "oracle_projection \<Rightarrow> bool" where
  "oracle_projection_ok p \<longleftrightarrow>
     is_sha256 (op_binding_sha256 p) \<and> is_sha256 (op_oracle_sha256 p) \<and>
     range_portable_id (op_range_id p) \<and> range_portable_id (op_target_player_id p) \<and>
     range_portable_id (op_hero_player_id p) \<and>
     between 1 RANGE_EQUITY_MAX_EVALUATIONS (op_combo_count p) \<and>
     between 1 MAX_TOTAL_WEIGHT (op_total_weight_millionths p) \<and>
     list_all (between 0 RANGE_EQUITY_MAX_EVALUATIONS)
       [op_win_combo_count p, op_tie_combo_count p, op_loss_combo_count p] \<and>
     list_all (between 0 MAX_TOTAL_WEIGHT)
       [op_win_weight_millionths p, op_tie_weight_millionths p, op_loss_weight_millionths p] \<and>
     0 \<le> op_equity_numerator p \<and> 0 < op_equity_denominator p \<and>
     op_win_combo_count p + op_tie_combo_count p + op_loss_combo_count p = op_combo_count p \<and>
     op_win_weight_millionths p + op_tie_weight_millionths p + op_loss_weight_millionths p
       = op_total_weight_millionths p \<and>
     (op_equity_numerator p, op_equity_denominator p) = quotient_of
       (Fract (2 * op_win_weight_millionths p + op_tie_weight_millionths p)
              (2 * op_total_weight_millionths p))"

section \<open>JSON of a hand and its range\<close>

fun source_kind_text :: "source_kind \<Rightarrow> string" where
  "source_kind_text User_supplied = ''user_supplied''"
| "source_kind_text Repository_fixture = ''repository_fixture''"

fun license_text :: "license_classification \<Rightarrow> string" where
  "license_text User_supplied_private_analysis = ''user_supplied_private_analysis''"
| "license_text Repository_owned_mit = ''repository_owned_mit''"

fun usage_text :: "usage_classification \<Rightarrow> string" where
  "usage_text Local_analysis_only = ''local_analysis_only''"
| "usage_text Redistribution_allowed = ''redistribution_allowed''"

fun content_text :: "content_status \<Rightarrow> string" where
  "content_text User_claim = ''USER_CLAIM''" | "content_text Assumption = ''ASSUMPTION''"

definition json_of_source :: "range_source \<Rightarrow> json" where
  "json_of_source s = JObj
     [(''source_id'', JStr (rs_source_id s)),
      (''source_kind'', JStr (source_kind_text (rs_source_kind s))),
      (''license_classification'', JStr (license_text (rs_license_classification s))),
      (''usage_classification'', JStr (usage_text (rs_usage_classification s))),
      (''content_status'', JStr (content_text (rs_content_status s))),
      (''content_sha256'', JStr (rs_content_sha256 s))]"

definition json_of_range :: "range_definition \<Rightarrow> json" where
  "json_of_range d = JObj
     [(''schema_version'', JStr (rg_schema_version d)), (''grammar_id'', JStr (rg_grammar_id d)),
      (''grammar_version'', JStr (rg_grammar_version d)), (''range_id'', JStr (rg_range_id d)),
      (''target_player_id'', JStr (rg_target_player_id d)), (''notation'', JStr (rg_notation d)),
      (''source'', json_of_source (rg_source d)),
      (''game_conditions'', json_of_conditions (rg_game_conditions d))]"

fun json_of_known_range :: "known_range \<Rightarrow> json" where
  "json_of_known_range (Legacy_range j) = j"
| "json_of_known_range (Versioned_range d) = json_of_range d"

fun bounty_text :: "bounty_type \<Rightarrow> string" where
  "bounty_text NoBounty = ''none''" | "bounty_text FixedBounty = ''fixed''"
| "bounty_text ProgressiveBounty = ''progressive''" | "bounty_text MysteryBounty = ''mystery''"

record noted_hand = ranged_hand +
  h_tournament_notes :: "string list"
  h_opponent_observations :: "string list"
  h_analysis_objective :: string

definition json_of_player :: "player_stack \<Rightarrow> json" where
  "json_of_player p = JObj [(''player_id'', JStr (ps_player_id p)), (''position'', JStr (ps_position p)),
     (''starting_stack'', JFloat (ps_starting_stack p))]"

definition json_of_tournament :: "string list \<Rightarrow> tournament_context \<Rightarrow> json" where
  "json_of_tournament notes t = JObj
     [(''payouts'', JList (map JFloat (tc_payouts t))),
      (''remaining_players'', jopt JInt (tc_remaining_players t)),
      (''hero_stack'', jopt JFloat (tc_hero_stack t)),
      (''bounty_type'', JStr (bounty_text (tc_bounty_type t))),
      (''hero_bounty'', jopt JFloat (tc_hero_bounty t)), (''notes'', JList (map JStr notes))]"

definition json_of_hand :: "noted_hand \<Rightarrow> json" where
  "json_of_hand h = JObj
     [(''game_type'', JStr (game_type_text (h_game_type h))), (''format'', JStr (format_text (h_format h))),
      (''table_size'', JInt (h_table_size h)), (''small_blind'', JFloat (h_small_blind h)),
      (''big_blind'', JFloat (h_big_blind h)), (''ante'', JFloat (h_ante h)),
      (''rake'', jopt JFloat (h_rake h)), (''players'', JList (map json_of_player (h_players h))),
      (''hero_player_id'', jstr (h_hero_player_id h)), (''hero_cards'', JList (map JStr (h_hero_cards h))),
      (''board'', JList (map JStr (h_board h))), (''actions'', JList (map json_of_action (h_actions h))),
      (''tournament'', jopt (json_of_tournament (h_tournament_notes h)) (h_tournament h)),
      (''known_ranges'', JList (map json_of_known_range (h_known_ranges h))),
      (''opponent_observations'', JList (map JStr (h_opponent_observations h))),
      (''analysis_objective'', JStr (h_analysis_objective h))]"

end
