(* ===== verification/HandRanks.thy ===== *)
theory HandRanks
  imports Cards Complex_Main "HOL-Library.Multiset" "HOL-Library.Product_Lexorder"
begin

text \<open>
  The evaluator of \<open>tools/cards.py\<close>: \<open>_straight_high\<close>, \<open>evaluate_five\<close> and
  \<open>evaluate_holdem\<close>.  A rank tuple is a list of integers; Python compares tuples
  lexicographically, and so does the order on lists.  \<open>Counter(...).items()\<close> is the list of the
  distinct ranks with their counts, which the code only reads sorted.
\<close>

datatype eval_error = Card_problem card_error | Wrong_number_of_cards

definition lift_card_error :: "card_error + 'a \<Rightarrow> eval_error + 'a" where
  "lift_card_error m = (case m of Inl e \<Rightarrow> Inl (Card_problem e) | Inr x \<Rightarrow> Inr x)"

definition RANK_VALUE :: "char \<Rightarrow> int" where
  "RANK_VALUE r = int (length (takeWhile (\<lambda>x. x \<noteq> r) RANKS)) + 2"

definition card_rank :: "string \<Rightarrow> int" where "card_rank c = RANK_VALUE (c ! 0)"
definition card_suit :: "string \<Rightarrow> char" where "card_suit c = c ! 1"

fun straight_run :: "int \<Rightarrow> int \<Rightarrow> int option \<Rightarrow> int list \<Rightarrow> int option" where
  \<comment> \<open>the loop over \<open>pairwise(ordered)\<close>, with \<open>previous\<close>, \<open>run\<close> and \<open>best\<close>\<close>
  "straight_run previous run best [] = best"
| "straight_run previous run best (current # rest) =
     (if current = previous + 1
      then straight_run current (run + 1) (if 5 \<le> run + 1 then Some current else best) rest
      else straight_run current (if current \<noteq> previous then 1 else run) best rest)"

definition straight_high :: "int list \<Rightarrow> int option" where
  \<comment> \<open>of the set of the ranks in the list\<close>
  "straight_high ranks =
     (let ranks = (if 14 \<in> set ranks then 1 # ranks else ranks) in
      case sort (remdups ranks) of [] \<Rightarrow> None | x # xs \<Rightarrow> straight_run x 1 None xs)"

definition descending :: "'a :: linorder list \<Rightarrow> 'a list" where
  "descending xs = rev (sort xs)"

definition rank_groups :: "int list \<Rightarrow> (int \<times> int) list" where
  "rank_groups ranks = descending (map (\<lambda>r. (int (count_list ranks r), r)) (remdups ranks))"

definition five_value :: "string list \<Rightarrow> int list" where
  "five_value normalized =
     (let ranks = map card_rank normalized; suits = map card_suit normalized;
          groups = rank_groups ranks; is_flush = (length (remdups suits) = 1);
          straight = straight_high ranks in
      if is_flush \<and> straight \<noteq> None then [8, the straight]
      else if fst (groups ! 0) = 4
      then (let quad = snd (groups ! 0); kicker = Max (set (filter (\<lambda>r. r \<noteq> quad) ranks)) in
            [7, quad, kicker])
      else if fst (groups ! 0) = 3 \<and> fst (groups ! 1) = 2
      then [6, snd (groups ! 0), snd (groups ! 1)]
      else if is_flush then 5 # descending ranks
      else if straight \<noteq> None then [4, the straight]
      else if fst (groups ! 0) = 3
      then (let trip = snd (groups ! 0) in 3 # trip # descending (filter (\<lambda>r. r \<noteq> trip) ranks))
      else (let pairs = descending (filter (\<lambda>r. count_list ranks r = 2) (remdups ranks)) in
        if length pairs = 2
        then [2, pairs ! 0, pairs ! 1, Max (set (filter (\<lambda>r. r \<notin> set pairs) ranks))]
        else if length pairs = 1
        then 1 # pairs ! 0 # descending (filter (\<lambda>r. r \<noteq> pairs ! 0) ranks)
        else 0 # descending ranks))"

definition evaluate_five :: "string list \<Rightarrow> eval_error + int list" where
  "evaluate_five cards =
     bindE (lift_card_error (normalize_cards cards True)) (\<lambda>normalized.
       if length normalized \<noteq> 5 then Inl Wrong_number_of_cards else Inr (five_value normalized))"

fun choose_from :: "nat \<Rightarrow> 'a list \<Rightarrow> 'a list list" where
  \<comment> \<open>\<open>itertools.combinations(xs, k)\<close>\<close>
  "choose_from 0 xs = [[]]"
| "choose_from (Suc k) [] = []"
| "choose_from (Suc k) (x # xs) = map ((#) x) (choose_from k xs) @ choose_from (Suc k) xs"

definition evaluate_holdem :: "string list \<Rightarrow> string list \<Rightarrow> eval_error + int list" where
  "evaluate_holdem hole_cards board =
     bindE (lift_card_error (normalize_cards hole_cards True)) (\<lambda>hole.
     bindE (lift_card_error (normalize_cards board True)) (\<lambda>community.
     bindE (lift_card_error (normalize_cards (hole @ community) True)) (\<lambda>all_cards.
       if length hole \<noteq> 2 \<or> length community \<noteq> 5 then Inl Wrong_number_of_cards
       else bindE (mapE evaluate_five (choose_from 5 all_cards)) (\<lambda>values. Inr (Max (set values))))))"

section \<open>The rules of poker\<close>

text \<open>
  The value of five cards, from the set of the cards: the category is decided by the
  multiplicities of the ranks, by a common suit and by five ranks in sequence (the ace also
  below the deuce); hands of one category compare by the top of the sequence, or by their ranks,
  the more frequent first and the higher first among equally frequent ones.
\<close>

definition rank_count :: "string set \<Rightarrow> int \<Rightarrow> nat" where
  "rank_count F r = card {c \<in> F. card_rank c = r}"

definition flush :: "string set \<Rightarrow> bool" where
  "flush F \<longleftrightarrow> (\<exists>s. \<forall>c\<in>F. card_suit c = s)"

definition ranks_low :: "int set \<Rightarrow> int set" where
  "ranks_low R = R \<union> (if 14 \<in> R then {1} else {})"

definition straight_to :: "string set \<Rightarrow> int \<Rightarrow> bool" where
  "straight_to F h \<longleftrightarrow> {h - 4..h} \<subseteq> ranks_low (card_rank ` F)"

definition category :: "string set \<Rightarrow> int" where
  "category F =
     (if flush F \<and> (\<exists>h. straight_to F h) then 8
      else if \<exists>r. rank_count F r = 4 then 7
      else if \<exists>r s. rank_count F r = 3 \<and> rank_count F s = 2 then 6
      else if flush F then 5
      else if \<exists>h. straight_to F h then 4
      else if \<exists>r. rank_count F r = 3 then 3
      else if \<exists>r s. r \<noteq> s \<and> rank_count F r = 2 \<and> rank_count F s = 2 then 2
      else if \<exists>r. rank_count F r = 2 then 1 else 0)"

definition more_frequent :: "string set \<Rightarrow> int \<Rightarrow> int \<Rightarrow> bool" where
  "more_frequent F a b \<longleftrightarrow> rank_count F b < rank_count F a \<or> rank_count F b = rank_count F a \<and> b < a"

definition worth :: "string set \<Rightarrow> int list \<Rightarrow> bool" where
  "worth F v \<longleftrightarrow> (\<exists>tie. v = category F # tie \<and>
     (if category F \<in> {8, 4} then \<exists>h. straight_to F h \<and> tie = [h]
      else set tie = card_rank ` F \<and> sorted_wrt (more_frequent F) tie))"

section \<open>Sequences\<close>

definition tops :: "int set \<Rightarrow> int set" where "tops S = {h. {h - 4..h} \<subseteq> S}"

lemma tops_member: "h \<in> tops S \<Longrightarrow> h \<in> S \<and> h - 1 \<in> S"
proof -
  assume "h \<in> tops S"
  then have "{h - 4..h} \<subseteq> S" by (simp add: tops_def)
  moreover have "h \<in> {h - 4..h}" "h - 1 \<in> {h - 4..h}" by simp_all
  ultimately show ?thesis by blast
qed

definition scan_state :: "int set \<Rightarrow> int \<Rightarrow> int \<Rightarrow> int option \<Rightarrow> bool" where
  \<comment> \<open>after reading the set \<open>S\<close> in ascending order up to \<open>p\<close>\<close>
  "scan_state S p run best \<longleftrightarrow> p \<in> S \<and> (\<forall>x\<in>S. x \<le> p) \<and> 1 \<le> run \<and> {p - run + 1..p} \<subseteq> S \<and> p - run \<notin> S \<and>
     (case best of None \<Rightarrow> tops S = {} | Some b \<Rightarrow> b \<in> tops S \<and> (\<forall>h\<in>tops S. h \<le> b))"

lemma tops_insert:
  assumes "\<forall>x\<in>S. x < c"
  shows "tops (insert c S) = tops S \<union> (if {c - 4..c - 1} \<subseteq> S then {c} else {})"
proof -
  have "h \<in> tops (insert c S) \<longleftrightarrow> h \<in> tops S \<or> h = c \<and> {c - 4..c - 1} \<subseteq> S" for h
  proof (cases "h = c")
    case True
    have "{c - 4..c} = insert c {c - 4..c - 1}" by auto
    then show ?thesis using True assms by (auto simp: tops_def)
  next
    case False
    show ?thesis
    proof
      assume h: "h \<in> tops (insert c S)"
      then have "h \<in> insert c S" using tops_member by blast
      then have "h < c" using False assms by auto
      then have "c \<notin> {h - 4..h}" by simp
      then show "h \<in> tops S \<or> h = c \<and> {c - 4..c - 1} \<subseteq> S" using h by (auto simp: tops_def)
    qed (use False in \<open>auto simp: tops_def\<close>)
  qed
  then show ?thesis by auto
qed

lemma straight_scan_state:
  "scan_state S p run best \<Longrightarrow> sorted_wrt (<) (p # xs) \<Longrightarrow>
   case straight_run p run best xs of None \<Rightarrow> tops (S \<union> set xs) = {}
   | Some b \<Rightarrow> b \<in> tops (S \<union> set xs) \<and> (\<forall>h\<in>tops (S \<union> set xs). h \<le> b)"
proof (induction xs arbitrary: S p run best)
  case Nil
  then show ?case by (simp add: scan_state_def split: option.splits)
next
  case (Cons c xs)
  from Cons.prems have p: "p < c" "sorted_wrt (<) (c # xs)" and below: "\<forall>x\<in>S. x < c"
    by (auto simp: scan_state_def)
  note t = tops_insert [OF below]
  have U: "S \<union> set (c # xs) = insert c S \<union> set xs" by auto
  show ?case
  proof (cases "c = p + 1")
    case True
    have window: "{c - 4..c - 1} \<subseteq> S \<longleftrightarrow> 5 \<le> run + 1"
    proof
      assume w: "{c - 4..c - 1} \<subseteq> S"
      show "5 \<le> run + 1"
      proof (rule ccontr)
        assume "\<not> 5 \<le> run + 1"
        then have "p - run \<in> {c - 4..c - 1}" using True Cons.prems(1) by (auto simp: scan_state_def)
        with w Cons.prems(1) show False by (auto simp: scan_state_def)
      qed
    next
      assume "5 \<le> run + 1"
      then have "{c - 4..c - 1} \<subseteq> {p - run + 1..p}" using True by auto
      then show "{c - 4..c - 1} \<subseteq> S" using Cons.prems(1) by (auto simp: scan_state_def)
    qed
    have "{c - (run + 1) + 1..c} = insert c {p - run + 1..p}" using True Cons.prems(1)
      by (auto simp: scan_state_def)
    moreover have "\<forall>h\<in>tops S. h \<le> c" using tops_member below by fastforce
    ultimately have "scan_state (insert c S) c (run + 1) (if 5 \<le> run + 1 then Some c else best)"
      using Cons.prems(1) True below t window
      by (auto simp: scan_state_def split: option.splits)
    note ih = Cons.IH [OF this p(2)]
    have "straight_run p run best (c # xs) =
        straight_run c (run + 1) (if 5 \<le> run + 1 then Some c else best) xs"
      using True by simp
    then show ?thesis unfolding U using ih by (simp only:)
  next
    case False
    have "p + 1 \<notin> S" using Cons.prems(1) by (auto simp: scan_state_def)
    have "c - 1 \<notin> S" using Cons.prems(1) False p(1) by (force simp: scan_state_def)
    moreover have "c - 1 \<in> {c - 4..c - 1}" by simp
    ultimately have "\<not> {c - 4..c - 1} \<subseteq> S" by blast
    then have "scan_state (insert c S) c 1 best"
      using Cons.prems(1) below t \<open>c - 1 \<notin> S\<close> by (auto simp: scan_state_def split: option.splits)
    from Cons.IH [OF this p(2)] False p(1) show ?thesis unfolding U by simp
  qed
qed

lemma straight_high_tops:
  "straight_high rs = None \<Longrightarrow> tops (ranks_low (set rs)) = {}"
  "straight_high rs = Some b \<Longrightarrow> b \<in> tops (ranks_low (set rs))"
proof -
  define L where "L = sort (remdups (if 14 \<in> set rs then 1 # rs else rs))"
  have L: "set L = ranks_low (set rs)" by (auto simp: L_def ranks_low_def)
  have s: "sorted_wrt (<) L" by (simp add: L_def strict_sorted_iff)
  have "case straight_high rs of None \<Rightarrow> tops (set L) = {} | Some b \<Rightarrow> b \<in> tops (set L)"
  proof (cases L)
    case Nil
    then have "tops (set L) = {}" by (auto simp: tops_def)
    moreover have "straight_high rs = None" using Nil by (simp add: straight_high_def Let_def L_def)
    ultimately show ?thesis by simp
  next
    case (Cons x xs)
    have "tops {x} = {}" using tops_member [of _ "{x}"] by force
    then have "scan_state {x} x 1 None" by (simp add: scan_state_def)
    from straight_scan_state [OF this, of xs] s Cons
    have "case straight_run x 1 None xs of None \<Rightarrow> tops (set L) = {} | Some b \<Rightarrow> b \<in> tops (set L)"
      by (auto split: option.splits)
    moreover have "straight_high rs = straight_run x 1 None xs"
      using Cons by (simp add: straight_high_def Let_def L_def)
    ultimately show ?thesis by simp
  qed
  then show "straight_high rs = None \<Longrightarrow> tops (ranks_low (set rs)) = {}"
    and "straight_high rs = Some b \<Longrightarrow> b \<in> tops (ranks_low (set rs))"
    unfolding L by simp_all
qed

end
