(* ===== verification/RangeEquity.thy ===== *)
theory RangeEquity
  imports RangeEquityModels RangeGrammar HandRanks
begin

text \<open>
  The opt-in bridge from one versioned range to an exact river equity (\<open>range_equity.py\<close>): the
  admission of a case, its binding, the exact oracle and the checks that tie stored copies of a case
  together.  A case that is dumped to JSON and strictly validated again is the same case if it meets
  its constraints; \<open>eq_json_depth\<close> is the nesting that the interpreter's recursion limit lets
  \<open>json.dumps\<close> reach.  \<open>eq_nfc\<close> says whether a string is in Unicode normal form C, 
  \<open>eq_redact\<close> is \<open>redact_sensitive\<close> of \<open>security.py\<close>, and \<open>eq_parse_case\<close> the strict validation of
  the JSON form of a case.  Claims, evidence and assumptions are kept as
  JSON: the bridge only asks whether there are any.
\<close>

section \<open>Cases\<close>

datatype case_kind = Hand_case | Strategy_case | Claim_case | Calculation_case
datatype analysis_scope = Unspecified_scope | Retrospective | Real_time

record focal_decision =
  fd_street :: street
  fd_action_index :: int
  fd_actor :: string

record realized_result =
  rz_raw_text :: "string option"
  rz_winner_player_id :: "string option"
  rz_shown_cards :: "(string \<times> string list) list"

record case_input =
  ci_case_id :: string
  ci_kind :: case_kind
  ci_raw_text :: "string option"
  ci_hand :: "noted_hand option"
  ci_focal_decision :: "focal_decision option"
  ci_realized_result :: "realized_result option"
  ci_analysis_scope :: analysis_scope
  ci_claims :: "json list"
  ci_evidence :: "json list"
  ci_assumptions :: "json list"
  ci_objective :: string
  ci_requested_tools :: "string list"
  ci_metadata :: "(string \<times> json) list"

definition alnum_char :: "char \<Rightarrow> bool" where
  \<comment> \<open>\<open>isalnum()\<close> on code points below 256\<close>
  "alnum_char c \<longleftrightarrow> (let n = of_char c :: nat in
     (48 \<le> n \<and> n \<le> 57) \<or> (65 \<le> n \<and> n \<le> 90) \<or> (97 \<le> n \<and> n \<le> 122) \<or>
     n \<in> {170, 178, 179, 181, 185, 186, 188, 189, 190} \<or> (192 \<le> n \<and> n \<noteq> 215 \<and> n \<noteq> 247))"

definition safe_tool_names :: "string list \<Rightarrow> bool" where
  "safe_tool_names ts \<longleftrightarrow> length ts \<le> 32 \<and> distinct ts \<and>
     list_all (\<lambda>t. t \<noteq> [] \<and> length t \<le> 64 \<and> list_all (\<lambda>c. c = CHR ''_'' \<or> alnum_char c) t) ts"

definition focal_matches :: "noted_hand \<Rightarrow> focal_decision \<Rightarrow> bool" where
  "focal_matches h f \<longleftrightarrow> fd_action_index f < int (length (h_actions h)) \<and>
     (let a = h_actions h ! nat (fd_action_index f) in
      ha_street a = fd_street f \<and> ha_actor a = fd_actor f)"

definition require_input :: "case_input \<Rightarrow> bool" where
  "require_input c \<longleftrightarrow>
     (ci_raw_text c \<notin> {None, Some []} \<or> ci_hand c \<noteq> None \<or> ci_claims c \<noteq> [] \<or>
        ci_requested_tools c \<noteq> []) \<and>
     opt_all (\<lambda>f. \<exists>h\<in>set_option (ci_hand c). focal_matches h f) (ci_focal_decision c)"

definition case_ok :: "case_input \<Rightarrow> bool" where
  "case_ok c \<longleftrightarrow>
     opt_all (\<lambda>h. ranged_hand_ok (ranged_hand.truncate h)) (ci_hand c) \<and>
     opt_all (\<lambda>f. 0 \<le> fd_action_index f \<and> fd_actor f \<noteq> []) (ci_focal_decision c) \<and>
     safe_tool_names (ci_requested_tools c) \<and> distinct (map fst (ci_metadata c)) \<and> require_input c"

fun kind_text :: "case_kind \<Rightarrow> string" where
  "kind_text Hand_case = ''hand''" | "kind_text Strategy_case = ''strategy''"
| "kind_text Claim_case = ''claim''" | "kind_text Calculation_case = ''calculation''"

fun scope_text :: "analysis_scope \<Rightarrow> string" where
  "scope_text Unspecified_scope = ''unspecified''" | "scope_text Retrospective = ''retrospective''"
| "scope_text Real_time = ''real_time''"

definition json_of_focal :: "focal_decision \<Rightarrow> json" where
  "json_of_focal f = JObj [(''street'', JStr (street_text (fd_street f))),
     (''action_index'', JInt (fd_action_index f)), (''actor'', JStr (fd_actor f))]"

definition json_of_realized :: "realized_result \<Rightarrow> json" where
  "json_of_realized r = JObj [(''raw_text'', jstr (rz_raw_text r)),
     (''winner_player_id'', jstr (rz_winner_player_id r)),
     (''shown_cards'', JObj (map (\<lambda>(p, cs). (p, JList (map JStr cs))) (rz_shown_cards r)))]"

definition json_of_case :: "case_input \<Rightarrow> json" where
  \<comment> \<open>\<open>model_dump(mode="json")\<close>\<close>
  "json_of_case c = JObj
     [(''case_id'', JStr (ci_case_id c)), (''kind'', JStr (kind_text (ci_kind c))),
      (''raw_text'', jstr (ci_raw_text c)), (''hand'', jopt json_of_hand (ci_hand c)),
      (''focal_decision'', jopt json_of_focal (ci_focal_decision c)),
      (''realized_result'', jopt json_of_realized (ci_realized_result c)),
      (''analysis_scope'', JStr (scope_text (ci_analysis_scope c))),
      (''claims'', JList (ci_claims c)), (''evidence'', JList (ci_evidence c)),
      (''assumptions'', JList (ci_assumptions c)), (''objective'', JStr (ci_objective c)),
      (''requested_tools'', JList (map JStr (ci_requested_tools c))),
      (''metadata'', JObj (ci_metadata c))]"

definition same_case :: "case_input \<Rightarrow> case_input \<Rightarrow> bool" where
  \<comment> \<open>equality of models, where a dictionary has no order\<close>
  "same_case a b \<longleftrightarrow> a\<lparr>ci_metadata := []\<rparr> = b\<lparr>ci_metadata := []\<rparr> \<and>
     dumps (JObj (ci_metadata a)) = dumps (JObj (ci_metadata b))"

section \<open>Errors and surroundings\<close>

datatype equity_error =
  Bridge_error equity_code string
  \<comment> \<open>\<open>VersionedRangeRiverEquityError\<close> with its code and field\<close>
| Raw_validation_error
  \<comment> \<open>a pydantic \<open>ValidationError\<close> that no handler catches\<close>
| Raw_range_error range_crash
| Raw_card_error eval_error

definition bridge_fail :: "equity_code \<Rightarrow> string \<Rightarrow> equity_error + 'a" where
  "bridge_fail code place = Inl (Bridge_error code place)"

definition lift_err :: "('e \<Rightarrow> equity_error) \<Rightarrow> 'e + 'a \<Rightarrow> equity_error + 'a" where
  "lift_err f r = (case r of Inl e \<Rightarrow> Inl (f e) | Inr x \<Rightarrow> Inr x)"

record equity_env =
  eq_json_depth :: nat
  eq_nfc :: "string \<Rightarrow> bool"
  eq_redact :: "json \<Rightarrow> json"
  eq_parse_case :: "json \<Rightarrow> case_input option"

fun json_depth :: "json \<Rightarrow> nat" where
  "json_depth (JList js) = Suc (fold max (map json_depth js) 0)"
| "json_depth (JObj fs) = Suc (fold max (map (\<lambda>f. json_depth (snd f)) fs) 0)"
| "json_depth _ = 0"

fun json_strings :: "json \<Rightarrow> string list" where
  "json_strings (JStr s) = [s]"
| "json_strings (JList js) = concat (map json_strings js)"
| "json_strings (JObj fs) = concat (map (\<lambda>f. fst f # json_strings (snd f)) fs)"
| "json_strings _ = []"

definition serializes :: "equity_env \<Rightarrow> json \<Rightarrow> bool" where
  "serializes env j \<longleftrightarrow> json_depth j \<le> eq_json_depth env"

definition marker_field :: string where "marker_field = ''metadata.versioned_range_river_equity''"

definition binding_from_case :: "equity_env \<Rightarrow> case_input \<Rightarrow> equity_error + equity_binding option" where
  "binding_from_case env c =
     (case map_of (ci_metadata c) RANGE_EQUITY_MARKER of
        None \<Rightarrow> Inr None
      | Some raw \<Rightarrow>
          if \<not> serializes env raw then bridge_fail REQ_SCHEMA marker_field
          else (case read_equity_binding raw of
              Inl code \<Rightarrow> bridge_fail code marker_field
            | Inr b \<Rightarrow> Inr (Some b)))"

section \<open>The hand of a case\<close>

definition one_definition :: "case_input \<Rightarrow> equity_error + (noted_hand \<times> range_definition)" where
  "one_definition c =
     (case ci_hand c of
        None \<Rightarrow> bridge_fail REQ_HAND ''hand''
      | Some h \<Rightarrow>
          if h_game_type h \<noteq> NLHE \<or> h_format h \<noteq> Cash then bridge_fail REQ_HAND ''hand.game_type''
          else if h_hero_player_id h = None \<or> length (h_hero_cards h) \<noteq> 2 \<or> length (h_board h) \<noteq> 5
          then bridge_fail REQ_HAND ''hand.hero_cards''
          else (case h_known_ranges h of
              [Versioned_range d] \<Rightarrow> Inr (h, d)
            | _ \<Rightarrow> bridge_fail REQ_RANGE ''hand.known_ranges''))"

definition canonical_known_cards :: "noted_hand \<Rightarrow> equity_error + (string list \<times> string list)" where
  "canonical_known_cards h =
     (let cards = bindE (normalize_cards (h_hero_cards h) True) (\<lambda>hero.
        bindE (normalize_cards (h_board h) True) (\<lambda>board.
        bindE (normalize_cards (hero @ board) True) (\<lambda>_. Inr (hero, board)))) in
      case cards of
        Inl e \<Rightarrow> bridge_fail REQ_CARD ''hand.cards''
      | Inr (hero, board) \<Rightarrow>
          if hero \<noteq> h_hero_cards h \<or> board \<noteq> h_board h then bridge_fail REQ_CARD ''hand.cards''
          else Inr (hero, board))"

definition eligible_after :: "string set \<Rightarrow> hand_action list \<Rightarrow> string set" where
  "eligible_after players actions =
     fold (\<lambda>a eligible. if ha_action a = Fold then eligible - {ha_actor a} else eligible) actions players"

definition validate_decision_binding :: "noted_hand \<Rightarrow> range_definition \<Rightarrow> equity_error + unit" where
  "validate_decision_binding h d =
     (let c = rg_game_conditions d; i = rc_as_of_action_index c in
      if rc_street c \<noteq> River \<or> rc_format c \<noteq> Cash
      then bridge_fail REQ_DECISION ''range.game_conditions.street''
      else if i < 1 \<or> int (length (h_actions h)) < i
      then bridge_fail REQ_DECISION ''range.game_conditions.as_of_action_index''
      else (let facing = h_actions h ! nat (i - 1) in
        if ha_street facing \<noteq> River \<or> ha_actor facing \<noteq> rg_target_player_id d \<or>
          ha_action facing \<notin> {Bet, Raise}
        then bridge_fail REQ_DECISION ''hand.actions''
        else if Some ` eligible_after (set (map ps_player_id (h_players h))) (take (nat i) (h_actions h))
            \<noteq> {h_hero_player_id h, Some (rg_target_player_id d)}
        then bridge_fail REQ_TARGET ''hand.actions''
        else Inr ()))"

section \<open>The oracle\<close>

record oracle_totals =
  ot_win_combo_count :: int
  ot_tie_combo_count :: int
  ot_loss_combo_count :: int
  ot_win_weight_millionths :: int
  ot_tie_weight_millionths :: int
  ot_loss_weight_millionths :: int
  ot_equity :: rat

definition no_totals :: oracle_totals where
  "no_totals = \<lparr>ot_win_combo_count = 0, ot_tie_combo_count = 0, ot_loss_combo_count = 0,
     ot_win_weight_millionths = 0, ot_tie_weight_millionths = 0, ot_loss_weight_millionths = 0,
     ot_equity = 0\<rparr>"

definition count_combo :: "string list \<Rightarrow> int list \<Rightarrow> oracle_totals \<Rightarrow> weighted_combo \<Rightarrow>
    equity_error + oracle_totals" where
  \<comment> \<open>one turn of the loop over the combos\<close>
  "count_combo board hero_rank t combo =
     bindE (lift_err Raw_card_error (evaluate_holdem [fst (wc_cards combo), snd (wc_cards combo)] board))
       (\<lambda>villain_rank. let w = wc_weight_millionths combo in
        if villain_rank < hero_rank
        then Inr (t\<lparr>ot_win_combo_count := ot_win_combo_count t + 1,
                    ot_win_weight_millionths := ot_win_weight_millionths t + w\<rparr>)
        else if hero_rank = villain_rank
        then Inr (t\<lparr>ot_tie_combo_count := ot_tie_combo_count t + 1,
                    ot_tie_weight_millionths := ot_tie_weight_millionths t + w\<rparr>)
        else Inr (t\<lparr>ot_loss_combo_count := ot_loss_combo_count t + 1,
                    ot_loss_weight_millionths := ot_loss_weight_millionths t + w\<rparr>))"

definition equity_totals :: "string list \<Rightarrow> string list \<Rightarrow> range_result \<Rightarrow> equity_error + oracle_totals" where
  \<comment> \<open>\<open>_oracle_totals\<close>\<close>
  "equity_totals hero_cards board r =
     (if rr_status r \<noteq> Range_success \<or> rr_combos r = [] then bridge_fail REQ_RANGE ''range_validate''
      else if RANGE_EQUITY_MAX_EVALUATIONS < rr_combo_count r
      then bridge_fail REQ_LIMIT ''range_validate.combo_count''
      else bindE (lift_err Raw_card_error (evaluate_holdem hero_cards board)) (\<lambda>hero_rank.
        bindE (foldE (count_combo board hero_rank) no_totals (rr_combos r)) (\<lambda>t.
        Inr (t\<lparr>ot_equity := Fract (2 * ot_win_weight_millionths t + ot_tie_weight_millionths t)
               (2 * rr_total_weight_millionths r)\<rparr>))))"

definition oracle_payload :: "noted_hand \<Rightarrow> range_definition \<Rightarrow> range_result \<Rightarrow> string list \<Rightarrow>
    string list \<Rightarrow> oracle_totals \<Rightarrow> equity_error + json" where
  "oracle_payload h d r hero_cards board t =
     (case (rr_condition_binding_sha256 r, rr_canonical_combo_sha256 r) of
        (Some condition_hash, Some combo_hash) \<Rightarrow> Inr (JObj
          [(''range_id'', JStr (rg_range_id d)), (''target_player_id'', JStr (rg_target_player_id d)),
           (''hero_player_id'', jstr (h_hero_player_id h)),
           (''condition_binding_sha256'', JStr condition_hash),
           (''hero_cards'', JList (map JStr hero_cards)), (''board'', JList (map JStr board)),
           (''canonical_combo_sha256'', JStr combo_hash), (''combo_count'', JInt (rr_combo_count r)),
           (''total_weight_millionths'', JInt (rr_total_weight_millionths r)),
           (''win_combo_count'', JInt (ot_win_combo_count t)),
           (''tie_combo_count'', JInt (ot_tie_combo_count t)),
           (''loss_combo_count'', JInt (ot_loss_combo_count t)),
           (''win_weight_millionths'', JInt (ot_win_weight_millionths t)),
           (''tie_weight_millionths'', JInt (ot_tie_weight_millionths t)),
           (''loss_weight_millionths'', JInt (ot_loss_weight_millionths t)),
           (''equity_numerator'', JInt (fst (quotient_of (ot_equity t)))),
           (''equity_denominator'', JInt (snd (quotient_of (ot_equity t))))])
      | _ \<Rightarrow> bridge_fail REQ_PROVENANCE ''range_validate'')"

section \<open>Admission\<close>

record bridge_admission =
  ad_candidate :: case_input
  ad_binding :: equity_binding
  ad_case :: case_input

definition candidate_guards :: "equity_env \<Rightarrow> case_input \<Rightarrow> equity_error + unit" where
  \<comment> \<open>what is checked of a candidate before its hand\<close>
  "candidate_guards env c =
     (if \<not> (case_ok c \<and> serializes env (json_of_case c)) then bridge_fail REQ_SCHEMA ''case''
      else if \<not> list_all (eq_nfc env) (json_strings (json_of_case c)) then bridge_fail REQ_SCHEMA ''case''
      else if eq_redact env (json_of_case c) \<noteq> json_of_case c then bridge_fail REQ_PROVENANCE ''case''
      else if RANGE_EQUITY_MARKER \<in> set (map fst (ci_metadata c)) then bridge_fail REQ_PROVENANCE marker_field
      else if ci_kind c \<noteq> Calculation_case \<or> ci_analysis_scope c \<noteq> Retrospective
      then bridge_fail REQ_CASE ''case''
      else if ci_realized_result c \<noteq> None \<or> ci_raw_text c \<noteq> None \<or> ci_focal_decision c \<noteq> None
      then bridge_fail REQ_CASE ''case.realized_result''
      else if ci_claims c \<noteq> [] \<or> ci_evidence c \<noteq> [] \<or> ci_assumptions c \<noteq> []
      then bridge_fail REQ_CASE ''case.claims''
      else if ci_requested_tools c \<noteq> tl RANGE_EQUITY_TOOL_PLAN
      then bridge_fail REQ_TOOL_PLAN ''case.requested_tools''
      else if ci_metadata c \<noteq> [] \<and> ci_metadata c \<noteq> [(''tool_inputs'', JObj [])]
      then bridge_fail REQ_TOOL_PLAN ''case.metadata''
      else Inr ())"

definition new_equity_binding :: "case_input \<Rightarrow> noted_hand \<Rightarrow> range_definition \<Rightarrow> range_result \<Rightarrow> json \<Rightarrow>
    equity_error + equity_binding" where
  "new_equity_binding c h d r payload =
     (case (rr_condition_binding_sha256 r, rr_canonical_combo_sha256 r, h_hero_player_id h) of
        (Some condition_hash, Some combo_hash, Some hero) \<Rightarrow>
          (let b = \<lparr>eb_range_id = rg_range_id d, eb_target_player_id = rg_target_player_id d,
               eb_hero_player_id = hero,
               eb_as_of_action_index = rc_as_of_action_index (rg_game_conditions d),
               eb_source_range_sha256 = equity_sha256 SOURCE_RANGE_HASH_DOMAIN (json_of_range d),
               eb_candidate_sha256 = equity_sha256 CANDIDATE_HASH_DOMAIN (json_of_case c),
               eb_condition_binding_sha256 = condition_hash, eb_canonical_combo_sha256 = combo_hash,
               eb_oracle_sha256 = equity_sha256 ORACLE_HASH_DOMAIN payload,
               eb_combo_count = rr_combo_count r,
               eb_total_weight_millionths = rr_total_weight_millionths r, eb_binding_sha256 = []\<rparr>;
             binding = b\<lparr>eb_binding_sha256 := binding_hash b\<rparr> in
           if equity_binding_ok binding then Inr binding else Inl Raw_validation_error)
      | (Some condition_hash, Some combo_hash, None) \<Rightarrow> Inl Raw_validation_error
      | _ \<Rightarrow> bridge_fail REQ_PROVENANCE ''range_validate'')"

definition with_marker :: "case_input \<Rightarrow> equity_binding \<Rightarrow> case_input" where
  "with_marker c b = c\<lparr>ci_metadata := ci_metadata c @ [(RANGE_EQUITY_MARKER, json_of_equity_binding b)]\<rparr>"

definition admit_hand :: "case_input \<Rightarrow> noted_hand \<Rightarrow> range_definition \<Rightarrow> equity_error + equity_binding" where
  \<comment> \<open>from \<open>hero_cards, board = _canonical_known_cards(hand)\<close> to the binding\<close>
  "admit_hand c h d =
     bindE (canonical_known_cards h) (\<lambda>(hero_cards, board).
     bindE (validate_decision_binding h d) (\<lambda>_.
     bindE (lift_err Raw_range_error (validate_versioned_range (ranged_hand.truncate h) d)) (\<lambda>r.
       if rr_status r \<noteq> Range_success then bridge_fail REQ_RANGE ''hand.known_ranges''
       else bindE (equity_totals hero_cards board r) (\<lambda>t.
         bindE (oracle_payload h d r hero_cards board t) (\<lambda>payload.
           new_equity_binding c h d r payload)))))"

definition admit_case :: "equity_env \<Rightarrow> case_input \<Rightarrow> equity_error + bridge_admission" where
  \<comment> \<open>\<open>admit_versioned_range_river_equity\<close>\<close>
  "admit_case env c =
     bindE (candidate_guards env c) (\<lambda>_.
     bindE (one_definition c) (\<lambda>(h, d).
     bindE (admit_hand c h d) (\<lambda>binding.
       Inr \<lparr>ad_candidate = c, ad_binding = binding, ad_case = with_marker c binding\<rparr>)))"

section \<open>The exact oracle of an admitted case\<close>

definition candidate_without_marker :: "case_input \<Rightarrow> equity_error + case_input" where
  "candidate_without_marker c =
     (let candidate = c\<lparr>ci_metadata := filter (\<lambda>f. fst f \<noteq> RANGE_EQUITY_MARKER) (ci_metadata c)\<rparr> in
      if case_ok candidate then Inr candidate else Inl Raw_validation_error)"

definition readmit :: "equity_env \<Rightarrow> case_input \<Rightarrow> equity_binding \<Rightarrow> equity_error + unit" where
  "readmit env c binding =
     bindE (candidate_without_marker c) (\<lambda>candidate.
     bindE (admit_case env candidate) (\<lambda>admitted.
       if ad_binding admitted \<noteq> binding \<or> \<not> same_case (ad_case admitted) c
       then bridge_fail REQ_PROVENANCE ''case.metadata'' else Inr ()))"

definition project_oracle :: "equity_binding \<Rightarrow> noted_hand \<Rightarrow> range_definition \<Rightarrow> range_result \<Rightarrow>
    oracle_totals \<Rightarrow> string \<Rightarrow> equity_error + oracle_projection" where
  "project_oracle binding h d r t oracle_sha256 =
     (case h_hero_player_id h of
        None \<Rightarrow> bridge_fail REQ_ORACLE (marker_field @ ''.oracle_sha256'')
      | Some hero \<Rightarrow>
          if oracle_sha256 \<noteq> eb_oracle_sha256 binding
          then bridge_fail REQ_ORACLE (marker_field @ ''.oracle_sha256'')
          else (let p =
             \<lparr>op_binding_sha256 = eb_binding_sha256 binding, op_oracle_sha256 = oracle_sha256,
              op_range_id = rg_range_id d, op_target_player_id = rg_target_player_id d,
              op_hero_player_id = hero, op_combo_count = rr_combo_count r,
              op_total_weight_millionths = rr_total_weight_millionths r,
              op_win_combo_count = ot_win_combo_count t, op_tie_combo_count = ot_tie_combo_count t,
              op_loss_combo_count = ot_loss_combo_count t,
              op_win_weight_millionths = ot_win_weight_millionths t,
              op_tie_weight_millionths = ot_tie_weight_millionths t,
              op_loss_weight_millionths = ot_loss_weight_millionths t,
              op_equity_numerator = fst (quotient_of (ot_equity t)),
              op_equity_denominator = snd (quotient_of (ot_equity t))\<rparr> in
           if oracle_projection_ok p then Inr p else Inl Raw_validation_error))"

definition exact_oracle :: "equity_env \<Rightarrow> case_input \<Rightarrow> equity_error + oracle_projection" where
  \<comment> \<open>\<open>exact_versioned_range_river_equity_oracle\<close>\<close>
  "exact_oracle env c =
     bindE (binding_from_case env c) (\<lambda>found. case found of
        None \<Rightarrow> bridge_fail REQ_SCHEMA ''case.metadata''
      | Some binding \<Rightarrow>
          bindE (readmit env c binding) (\<lambda>_.
          bindE (one_definition c) (\<lambda>(h, d).
          bindE (canonical_known_cards h) (\<lambda>(hero_cards, board).
          bindE (lift_err Raw_range_error (validate_versioned_range (ranged_hand.truncate h) d)) (\<lambda>r.
          bindE (equity_totals hero_cards board r) (\<lambda>t.
          bindE (oracle_payload h d r hero_cards board t) (\<lambda>payload.
            project_oracle binding h d r t (equity_sha256 ORACLE_HASH_DOMAIN payload))))))))"

section \<open>Stored copies of a case\<close>

definition expected_equity_input :: "case_input \<Rightarrow> range_result \<Rightarrow> equity_error + json" where
  \<comment> \<open>\<open>expected_versioned_range_equity_input\<close>\<close>
  "expected_equity_input c r =
     (case (ci_hand c, rr_canonical_notation r) of
        (Some h, Some notation) \<Rightarrow>
          bindE (canonical_known_cards h) (\<lambda>(hero_cards, board). Inr (JObj
            [(''hero_range'', JStr (concat hero_cards)), (''villain_range'', JStr notation),
             (''board'', JList (map JStr board)), (''dead_cards'', JList []), (''game_type'', JStr ''NLHE''),
             (''mode'', JStr ''exact''), (''max_exact_evaluations'', JInt RANGE_EQUITY_MAX_EVALUATIONS)]))
      | _ \<Rightarrow> bridge_fail REQ_CHAIN ''holdem_equity'')"

definition marker_present :: "case_input \<Rightarrow> case_input \<Rightarrow> (string \<times> json) list \<Rightarrow> bool" where
  "marker_present input_case normalized_case reconstructed \<longleftrightarrow>
     RANGE_EQUITY_MARKER \<in> set (map fst (ci_metadata input_case)) \<or>
     RANGE_EQUITY_MARKER \<in> set (map fst (ci_metadata normalized_case)) \<or>
     (case map_of reconstructed ''metadata'' of
        Some (JObj fs) \<Rightarrow> RANGE_EQUITY_MARKER \<in> set (map fst fs)
      | _ \<Rightarrow> False)"

definition report_case :: "equity_env \<Rightarrow> (string \<times> json) list \<Rightarrow> equity_error + case_input" where
  "report_case env reconstructed =
     (if \<not> serializes env (JObj reconstructed)
      then bridge_fail REQ_SCHEMA ''final_report.reconstructed_input''
      else (case eq_parse_case env (JObj reconstructed) of
          None \<Rightarrow> bridge_fail REQ_SCHEMA ''final_report.reconstructed_input''
        | Some c \<Rightarrow> Inr c))"

definition verify_case_correlation :: "equity_env \<Rightarrow> case_input \<Rightarrow> case_input \<Rightarrow> (string \<times> json) list \<Rightarrow>
    equity_error + unit" where
  "verify_case_correlation env input_case normalized_case reconstructed =
     (if \<not> marker_present input_case normalized_case reconstructed then Inr ()
      else bindE (report_case env reconstructed) (\<lambda>report.
        bindE (mapE (binding_from_case env) [input_case, normalized_case, report]) (\<lambda>bindings.
          if None \<in> set bindings then bridge_fail REQ_PROVENANCE marker_field
          else if bindings ! 0 \<noteq> bindings ! 1 \<or> bindings ! 0 \<noteq> bindings ! 2
          then bridge_fail REQ_PROVENANCE marker_field
          else if \<not> same_case input_case normalized_case \<or> \<not> same_case input_case report
          then bridge_fail REQ_PROVENANCE ''final_report.reconstructed_input''
          else Inr ())))"

definition verify_binding_artifact :: "equity_env \<Rightarrow> case_input \<Rightarrow> case_input \<Rightarrow> (string \<times> json) list \<Rightarrow>
    equity_binding option \<Rightarrow> equity_error + unit" where
  "verify_binding_artifact env input_case normalized_case reconstructed artifact =
     (if marker_present input_case normalized_case reconstructed \<noteq> (artifact \<noteq> None)
      then bridge_fail REQ_PROVENANCE ''range_equity_binding.json''
      else if artifact = None then Inr ()
      else bindE (report_case env reconstructed) (\<lambda>report.
        bindE (mapE (binding_from_case env) [input_case, normalized_case, report]) (\<lambda>bindings.
          if list_ex (\<lambda>b. b \<noteq> artifact) bindings
          then bridge_fail REQ_PROVENANCE ''range_equity_binding.json'' else Inr ())))"

end
