(* ===== verification/HandRankProofs.thy ===== *)
theory HandRankProofs
  imports HandRanks
begin

text \<open>
  The evaluator against the rules: \<open>five_value_worth\<close> shows that \<open>evaluate_five\<close> gives five
  cards what they are worth, \<open>worth_unique\<close> that a set of cards is worth one value, and
  \<open>holdem_best\<close> that \<open>evaluate_holdem\<close> is the best value among all choices of five.
\<close>

section \<open>Counting ranks\<close>

lemma count_list_map: "distinct cs \<Longrightarrow> count_list (map f cs) r = card {c \<in> set cs. f c = r}"
proof (induction cs)
  case (Cons c cs)
  have "{x \<in> set (c # cs). f x = r} = (if f c = r then {c} else {}) \<union> {x \<in> set cs. f x = r}" by auto
  with Cons show ?case by simp
qed simp

lemma count_pos: "r \<in> set xs \<longleftrightarrow> 0 < count_list xs r"
  by (metis count_list_0_iff gr0I less_numeral_extra(3))

lemma distinct_filter_counts:
  "(\<And>x. x \<in> set xs \<Longrightarrow> P x \<Longrightarrow> count_list xs x = 1) \<Longrightarrow> distinct (filter P xs)"
proof (induction xs)
  case (Cons y ys)
  have "distinct (filter P ys)"
  proof (rule Cons.IH)
    fix x assume x: "x \<in> set ys" "P x"
    then have "count_list (y # ys) x = 1" "0 < count_list ys x"
      using Cons.prems [of x] count_pos [of x ys] by simp_all
    then show "count_list ys x = 1" by (simp split: if_splits)
  qed
  moreover have "P y \<Longrightarrow> y \<notin> set ys"
    using Cons.prems [of y] by (simp add: count_list_0_iff)
  ultimately show ?case by simp
qed simp

lemma sorted_desc_unique:
  assumes "sorted_wrt (>) xs" "sorted_wrt (>) ys" "set xs = set (ys :: 'a :: linorder list)"
  shows "xs = ys"
proof -
  have "sorted_wrt (<) (rev xs)" "sorted_wrt (<) (rev ys)"
    using assms(1,2) by (simp_all add: sorted_wrt_rev)
  then have "rev xs = rev ys"
    using assms(3) by (intro sorted_distinct_set_unique) (simp_all add: strict_sorted_iff)
  then show ?thesis by simp
qed

lemma descending_sorted: "distinct xs \<Longrightarrow> sorted_wrt (>) (descending xs)" "set (descending xs) = set xs"
proof -
  assume "distinct xs"
  then have "sorted_wrt (<) (sort xs)" by (simp add: strict_sorted_iff)
  then show "sorted_wrt (>) (descending xs)" by (simp add: descending_def sorted_wrt_rev)
qed (simp add: descending_def)

lemma descending_eq:
  "distinct xs \<Longrightarrow> sorted_wrt (>) ys \<Longrightarrow> set xs = set ys \<Longrightarrow> descending xs = ys"
  by (rule sorted_desc_unique) (simp_all add: descending_sorted)

lemma rank_groups_facts:
  "set (rank_groups rs) = {(int (count_list rs r), r) |r. r \<in> set rs}"
  "sorted_wrt (>) (rank_groups rs)"
  "(\<Sum>g\<leftarrow>rank_groups rs. fst g) = int (length rs)"
proof -
  let ?gs = "map (\<lambda>r. (int (count_list rs r), r)) (remdups rs)"
  have d: "distinct ?gs" by (simp add: distinct_map inj_on_def)
  show "set (rank_groups rs) = {(int (count_list rs r), r) |r. r \<in> set rs}"
    unfolding rank_groups_def descending_sorted(2) by auto
  show "sorted_wrt (>) (rank_groups rs)" unfolding rank_groups_def by (rule descending_sorted(1) [OF d])
  have "(\<Sum>g\<leftarrow>rank_groups rs. fst g) = (\<Sum>g\<in>set (rank_groups rs). fst g)"
    using sorted_wrt_rev d by (intro sum_list_distinct_conv_sum_set) (simp add: rank_groups_def descending_def)
  also have "\<dots> = (\<Sum>g\<in>set ?gs. fst g)" by (simp add: rank_groups_def descending_sorted(2))
  also have "\<dots> = (\<Sum>r\<in>set rs. int (count_list rs r))" by (simp add: sum.reindex inj_on_def)
  also have "\<dots> = int (\<Sum>r\<in>set rs. count_list rs r)" by simp
  also have "\<dots> = int (length rs)" using sum_count_set [of rs "set rs"] by simp
  finally show "(\<Sum>g\<leftarrow>rank_groups rs. fst g) = int (length rs)" .
qed

text \<open>The ways five cards can share ranks when no rank has more than four.\<close>

lemma partitions_of_five:
  assumes "sorted_wrt (\<ge>) ks" "\<forall>k\<in>set ks. 1 \<le> k \<and> k \<le> (4::int)" "sum_list ks = 5"
  shows "ks \<in> {[4, 1], [3, 2], [3, 1, 1], [2, 2, 1], [2, 1, 1, 1], [1, 1, 1, 1, 1]}"
proof -
  have pos: "\<forall>k\<in>set xs. 1 \<le> k \<Longrightarrow> int (length xs) \<le> sum_list xs" for xs :: "int list"
    by (induction xs) auto
  have "int (length ks) \<le> 5" using pos [of ks] assms by simp
  then consider "ks = []" | a where "ks = [a]" | a b where "ks = [a, b]" | a b c where "ks = [a, b, c]"
    | a b c d where "ks = [a, b, c, d]" | a b c d e where "ks = [a, b, c, d, e]"
    by (auto simp: le_Suc_eq length_Suc_conv numeral_eq_Suc)
  then show ?thesis
  proof cases
    case (3 a b)
    with assms have "a + b = 5" "b \<le> a" "1 \<le> b" "a \<le> 4" by simp_all
    then have "b = 1 \<or> b = 2" "a = 5 - b" by linarith+
    with 3 show ?thesis by auto
  next
    case (4 a b c)
    with assms have "a + (b + c) = 5" "b \<le> a" "c \<le> b" "1 \<le> c" by simp_all
    then have "c = 1" "b = 1 \<or> b = 2" "a = 5 - b - c" by linarith+
    with 4 show ?thesis by auto
  next
    case (5 a b c d)
    with assms have "a + (b + (c + d)) = 5" "b \<le> a" "c \<le> b" "d \<le> c" "1 \<le> d" by simp_all
    then have "d = 1" "c = 1" "b = 1" "a = 2" by linarith+
    with 5 show ?thesis by simp
  next
    case (6 a b c d e)
    with assms have "a + (b + (c + (d + e))) = 5" "1 \<le> a" "1 \<le> b" "1 \<le> c" "1 \<le> d" "1 \<le> e" by simp_all
    then have "a = 1" "b = 1" "c = 1" "d = 1" "e = 1" by linarith+
    with 6 show ?thesis by simp
  qed (use assms in simp_all)
qed

section \<open>Five cards of the deck\<close>

definition five_cards :: "string list \<Rightarrow> bool" where
  "five_cards cs \<longleftrightarrow> distinct cs \<and> length cs = 5 \<and> set cs \<subseteq> set DECK"

lemma deck_card: "c \<in> set DECK \<Longrightarrow> \<exists>r\<in>set RANKS. \<exists>x\<in>set SUITS. c = [r, x]"
  by (auto simp: DECK_def)

lemma rank_value_inj: "r \<in> set RANKS \<Longrightarrow> s \<in> set RANKS \<Longrightarrow> RANK_VALUE r = RANK_VALUE s \<Longrightarrow> r = s"
  by (auto simp: RANK_VALUE_def RANKS_def split: if_splits)

lemma rank_range: "r \<in> set RANKS \<Longrightarrow> 2 \<le> RANK_VALUE r \<and> RANK_VALUE r \<le> 14"
  by (auto simp: RANK_VALUE_def RANKS_def)

lemma card_of_rank_suit:
  "c \<in> set DECK \<Longrightarrow> d \<in> set DECK \<Longrightarrow> card_rank c = card_rank d \<Longrightarrow> card_suit c = card_suit d \<Longrightarrow> c = d"
  by (auto dest!: deck_card simp: card_rank_def card_suit_def dest: rank_value_inj)

lemma rank_count_le_4:
  assumes "F \<subseteq> set DECK"
  shows "rank_count F r \<le> 4"
proof -
  let ?A = "{c \<in> F. card_rank c = r}"
  have "card_suit ` ?A \<subseteq> set SUITS" using assms deck_card by (fastforce simp: card_suit_def)
  moreover have "inj_on card_suit ?A" using assms card_of_rank_suit unfolding inj_on_def by blast
  ultimately have "card ?A \<le> card (set SUITS)" by (metis List.finite_set card_image card_mono)
  also have "\<dots> = 4" by (simp add: SUITS_def)
  finally show ?thesis by (simp add: rank_count_def)
qed

lemma rank_count_list: "distinct cs \<Longrightarrow> rank_count (set cs) r = count_list (map card_rank cs) r"
  by (simp add: rank_count_def count_list_map)

lemma flush_iff: "five_cards cs \<Longrightarrow> flush (set cs) \<longleftrightarrow> length (remdups (map card_suit cs)) = 1"
proof -
  assume f: "five_cards cs"
  then obtain c ds where cs: "cs = c # ds" by (cases cs) (auto simp: five_cards_def)
  have "length (remdups (map card_suit cs)) = card (card_suit ` set cs)"
    by (simp add: length_remdups_card_conv)
  also have "\<dots> = 1 \<longleftrightarrow> (\<exists>s. card_suit ` set cs = {s})" by (auto simp: card_1_singleton_iff)
  also have "\<dots> \<longleftrightarrow> flush (set cs)" unfolding flush_def cs by auto
  finally show ?thesis by simp
qed

lemma straight_iff:
  "straight_high (map card_rank cs) = None \<Longrightarrow> \<not> straight_to (set cs) h"
  "straight_high (map card_rank cs) = Some b \<Longrightarrow> straight_to (set cs) b"
  using straight_high_tops [of "map card_rank cs"] by (auto simp: straight_to_def tops_def)

lemma flush_distinct_ranks:
  assumes "five_cards cs" "flush (set cs)"
  shows "distinct (map card_rank cs)"
  using assms card_of_rank_suit
  by (auto simp: five_cards_def flush_def distinct_map inj_on_def) (metis subsetD)

lemma worthI:
  "v = category F # tie \<Longrightarrow>
   (if category F \<in> {8, 4} then \<exists>h. straight_to F h \<and> tie = [h]
    else set tie = card_rank ` F \<and> sorted_wrt (more_frequent F) tie) \<Longrightarrow> worth F v"
  unfolding worth_def by blast

lemma group_member:
  assumes "five_cards cs" "0 < k"
  shows "(int k, r) \<in> set (rank_groups (map card_rank cs)) \<longleftrightarrow> rank_count (set cs) r = k"
proof -
  have "rank_count (set cs) r = count_list (map card_rank cs) r"
    using assms(1) by (intro rank_count_list) (simp add: five_cards_def)
  then show ?thesis
    unfolding rank_groups_facts(1) using assms(2) count_pos [of r "map card_rank cs"] by auto
qed

lemma groups_ties:
  assumes "five_cards cs"
  shows "set (map snd (rank_groups (map card_rank cs))) = card_rank ` set cs"
    and "sorted_wrt (more_frequent (set cs)) (map snd (rank_groups (map card_rank cs)))"
proof -
  let ?rs = "map card_rank cs"
  have "rank_count (set cs) r = count_list ?rs r" for r
    using assms by (intro rank_count_list) (simp add: five_cards_def)
  then have "sorted_wrt (\<lambda>g h. more_frequent (set cs) (snd g) (snd h)) (rank_groups ?rs)"
    using rank_groups_facts(2) [of ?rs]
    by (rule_tac sorted_wrt_mono_rel [where P = "(>)"])
      (auto simp: rank_groups_facts(1) more_frequent_def less_prod_def')
  then show "sorted_wrt (more_frequent (set cs)) (map snd (rank_groups ?rs))" by (simp add: sorted_wrt_map)
  show "set (map snd (rank_groups ?rs)) = card_rank ` set cs"
    unfolding set_map rank_groups_facts(1) by (auto simp: image_iff)
qed

lemma group_patterns:
  assumes "five_cards cs"
  shows "map fst (rank_groups (map card_rank cs)) \<in>
    {[4, 1], [3, 2], [3, 1, 1], [2, 2, 1], [2, 1, 1, 1], [1, 1, 1, 1, 1]}"
proof (rule partitions_of_five)
  let ?rs = "map card_rank cs"
  have "sorted_wrt (\<lambda>g h. fst h \<le> fst g) (rank_groups ?rs)"
    by (rule sorted_wrt_mono_rel [OF _ rank_groups_facts(2)]) (auto simp: less_prod_def')
  then show "sorted_wrt (\<ge>) (map fst (rank_groups ?rs))" by (simp add: sorted_wrt_map)
  show "\<forall>k\<in>set (map fst (rank_groups ?rs)). 1 \<le> k \<and> k \<le> 4"
  proof
    fix k assume "k \<in> set (map fst (rank_groups ?rs))"
    then have "k \<in> fst ` {(int (count_list ?rs r), r) |r. r \<in> set ?rs}"
      by (simp only: set_map rank_groups_facts(1))
    then obtain r where r: "r \<in> set ?rs" "k = int (count_list ?rs r)" by fastforce
    moreover have "count_list ?rs r = rank_count (set cs) r"
      using assms by (intro rank_count_list [symmetric]) (simp add: five_cards_def)
    moreover have "rank_count (set cs) r \<le> 4" using assms by (intro rank_count_le_4) (simp add: five_cards_def)
    ultimately show "1 \<le> k \<and> k \<le> 4" using count_pos [of r ?rs] by auto
  qed
  show "sum_list (map fst (rank_groups ?rs)) = 5"
    using rank_groups_facts(3) [of ?rs] assms by (simp add: five_cards_def)
qed

lemma sorted_wrt_distinct: "sorted_wrt P xs \<Longrightarrow> (\<And>x. \<not> P x x) \<Longrightarrow> distinct xs"
  by (induction xs) auto

lemma five_value_worth:
  assumes five: "five_cards cs"
  shows "worth (set cs) (five_value cs)"
proof -
  define rs F G where "rs = map card_rank cs" and "F = set cs" and "G = rank_groups rs"
  have fl: "length (remdups (map card_suit cs)) = 1 \<longleftrightarrow> flush F" using flush_iff [OF five] by (simp add: F_def)
  note straight = straight_iff [of cs, folded rs_def F_def]
  note member = group_member [OF five, folded rs_def F_def G_def]
  note ties = groups_ties [OF five, folded rs_def F_def G_def]
  have ex: "(\<exists>r. rank_count F r = 4) \<longleftrightarrow> (\<exists>r. (4, r) \<in> set G)"
    "(\<exists>r. rank_count F r = 3) \<longleftrightarrow> (\<exists>r. (3, r) \<in> set G)"
    "(\<exists>r. rank_count F r = 2) \<longleftrightarrow> (\<exists>r. (2, r) \<in> set G)"
    "(\<exists>r s. rank_count F r = 3 \<and> rank_count F s = 2) \<longleftrightarrow> (\<exists>r s. (3, r) \<in> set G \<and> (2, s) \<in> set G)"
    "(\<exists>r s. r \<noteq> s \<and> rank_count F r = 2 \<and> rank_count F s = 2) \<longleftrightarrow> (\<exists>r s. r \<noteq> s \<and> (2, r) \<in> set G \<and> (2, s) \<in> set G)"
    using member [of 4] member [of 3] member [of 2] by simp_all
  have ranks: "set rs = snd ` set G" using ties(1) by (simp add: rs_def F_def)
  have count: "int (count_list rs r) = m" if "(m, r) \<in> set G" for m r
    using that by (auto simp: G_def rank_groups_facts(1))
  have sorted: "sorted_wrt (>) G" unfolding G_def by (rule rank_groups_facts(2))
  have fv: "five_value cs =
      (if flush F \<and> straight_high rs \<noteq> None then [8, the (straight_high rs)]
       else if fst (G ! 0) = 4
       then [7, snd (G ! 0), Max (set (filter (\<lambda>r. r \<noteq> snd (G ! 0)) rs))]
       else if fst (G ! 0) = 3 \<and> fst (G ! 1) = 2 then [6, snd (G ! 0), snd (G ! 1)]
       else if flush F then 5 # descending rs
       else if straight_high rs \<noteq> None then [4, the (straight_high rs)]
       else if fst (G ! 0) = 3 then 3 # snd (G ! 0) # descending (filter (\<lambda>r. r \<noteq> snd (G ! 0)) rs)
       else (let pairs = descending (filter (\<lambda>r. count_list rs r = 2) (remdups rs)) in
         if length pairs = 2 then [2, pairs ! 0, pairs ! 1, Max (set (filter (\<lambda>r. r \<notin> set pairs) rs))]
         else if length pairs = 1 then 1 # pairs ! 0 # descending (filter (\<lambda>r. r \<noteq> pairs ! 0) rs)
         else 0 # descending rs))"
    unfolding five_value_def Let_def rs_def [symmetric] G_def [symmetric] fl by (rule refl)
  have st: "(\<exists>h. straight_to F h) \<longleftrightarrow> straight_high rs \<noteq> None" using straight by (cases "straight_high rs") auto
  show ?thesis
  proof (cases "flush F \<and> straight_high rs \<noteq> None")
    case True
    then have "category F = 8" by (simp add: category_def st)
    with True show ?thesis unfolding F_def [symmetric] fv
      using straight(2) by (intro worthI [where tie = "[the (straight_high rs)]"]) auto
  next
    case nsf: False
    have pairs: "descending (filter (\<lambda>r. count_list rs r = 2) (remdups rs)) = map snd (filter (\<lambda>g. fst g = 2) G)"
    proof (rule descending_eq)
      have "sorted_wrt (>) (filter (\<lambda>g. fst g = 2) G)" using sorted by (rule sorted_wrt_filter)
      then have "sorted_wrt (\<lambda>g h. snd h < snd g) (filter (\<lambda>g. fst g = 2) G)"
        by (rule sorted_wrt_mono_rel [rotated]) (auto simp: less_prod_def')
      then show "sorted_wrt (>) (map snd (filter (\<lambda>g. fst g = 2) G))" by (simp add: sorted_wrt_map)
      show "set (filter (\<lambda>r. count_list rs r = 2) (remdups rs)) = set (map snd (filter (\<lambda>g. fst g = 2) G))"
        by (force simp: G_def rank_groups_facts(1))
    qed simp
    have kickers: "descending (filter P rs) = ks"
      if "sorted_wrt (>) ks" "set ks = {r \<in> set rs. P r}" "\<And>r. r \<in> set ks \<Longrightarrow> (1, r) \<in> set G" for P ks
    proof (rule descending_eq)
      show "distinct (filter P rs)"
      proof (rule distinct_filter_counts)
        fix x assume "x \<in> set rs" "P x"
        then have "(1, x) \<in> set G" using that(2,3) by blast
        then show "count_list rs x = 1" using count [of 1 x] by simp
      qed
    qed (use that(1,2) in auto)
    have flushed: "5 # descending rs = category F # map snd G" if "flush F" "\<not> (\<exists>r. rank_count F r = 4)"
      "\<not> (\<exists>r s. rank_count F r = 3 \<and> rank_count F s = 2)"
    proof -
      have d: "distinct rs" using flush_distinct_ranks [OF five] that(1) by (simp add: rs_def F_def)
      have one: "fst g = 1" if "g \<in> set G" for g
      proof -
        have "snd g \<in> set rs" using that ranks by auto
        then show ?thesis
          using count [of "fst g" "snd g"] that count_list_map [OF d, of id "snd g"]
          by (simp add: conj_commute cong: conj_cong)
      qed
      have "snd h < snd g" if "g \<in> set G" "h \<in> set G" "h < g" for g h
        using one [OF that(1)] one [OF that(2)] that(3) by (auto simp: less_prod_def')
      then have "sorted_wrt (\<lambda>g h. snd h < snd g) G"
        by (rule_tac sorted_wrt_mono_rel [OF _ sorted]) blast
      then have "descending rs = map snd G"
        using d ranks by (intro descending_eq) (simp_all add: sorted_wrt_map)
      then show ?thesis using that nsf st by (auto simp: category_def)
    qed
    have irr: "distinct (map snd G)"
      using ties(2) by (rule sorted_wrt_distinct) (simp add: more_frequent_def)
    have by_rank: "worth F (five_value cs)"
      if "five_value cs = category F # map snd G" "category F \<noteq> 8" "category F \<noteq> 4"
      using that ties by (intro worthI [where tie = "map snd G"]) (auto simp: F_def)
    have low: "worth F (five_value cs)"
      if none: "\<not> (\<exists>r. rank_count F r = 4)" "\<not> (\<exists>r s. rank_count F r = 3 \<and> rank_count F s = 2)"
        "fst (G ! 0) \<noteq> 4" "\<not> (fst (G ! 0) = 3 \<and> fst (G ! 1) = 2)"
        and rest: "\<not> flush F \<Longrightarrow> straight_high rs = None \<Longrightarrow>
          five_value cs = category F # map snd G \<and> category F \<noteq> 8 \<and> category F \<noteq> 4"
    proof (cases "flush F")
      case True
      then have "category F = 5" using none nsf st by (auto simp: category_def)
      moreover have "five_value cs = 5 # descending rs" using True nsf none by (simp add: fv)
      ultimately show ?thesis using flushed [OF True none(1,2)] by (intro by_rank) simp_all
    next
      case nf: False
      show ?thesis
      proof (cases "straight_high rs")
        case None
        with rest nf show ?thesis by (intro by_rank) auto
      next
        case (Some h)
        then have "category F = 4" using none nf st by (auto simp: category_def)
        moreover have "five_value cs = [4, h]" using nf Some none by (simp add: fv)
        ultimately show ?thesis using straight(2) [OF Some] by (intro worthI [where tie = "[h]"]) auto
      qed
    qed
    have "worth F (five_value cs)"
    proof -
      have "map fst G \<in> {[4, 1], [3, 2], [3, 1, 1], [2, 2, 1], [2, 1, 1, 1], [1, 1, 1, 1, 1]}"
        using group_patterns [OF five] by (simp add: G_def rs_def)
      then consider a b where "G = [(4, a), (1, b)]" | a b where "G = [(3, a), (2, b)]"
        | a b c where "G = [(3, a), (1, b), (1, c)]" | a b c where "G = [(2, a), (2, b), (1, c)]"
        | a b c d where "G = [(2, a), (1, b), (1, c), (1, d)]"
        | a b c d e where "G = [(1, a), (1, b), (1, c), (1, d), (1, e)]"
        by (auto simp: map_eq_Cons_conv)
      then show ?thesis
      proof cases
        case (1 a b)
        have "{r. r \<in> set rs \<and> r \<noteq> a} = {b}" using 1 ranks irr by auto
        moreover have "category F = 7" using 1 nsf st ex(1) by (auto simp: category_def)
        ultimately show ?thesis using 1 nsf by (intro by_rank) (simp_all add: fv)
      next
        case (2 a b)
        then have "category F = 6" using nsf st ex by (auto simp: category_def)
        with 2 nsf show ?thesis by (intro by_rank) (simp_all add: fv)
      next
        case (3 a b c)
        have k: "descending (filter (\<lambda>r. r \<noteq> a) rs) = [b, c]"
          using 3 sorted irr ranks by (intro kickers) (auto simp: less_prod_def')
        show ?thesis
        proof (rule low)
          assume nf: "\<not> flush F" and ns: "straight_high rs = None"
          then have "category F = 3" using 3 st ex by (simp add: category_def)
          with 3 nf ns k show "five_value cs = category F # map snd G \<and> category F \<noteq> 8 \<and> category F \<noteq> 4"
            by (simp add: fv)
        qed (use 3 ex in simp_all)
      next
        case (4 a b c)
        have p: "descending (filter (\<lambda>r. count_list rs r = 2) (remdups rs)) = [a, b]"
          unfolding pairs by (simp add: 4)
        have m: "{r. r \<in> set rs \<and> r \<noteq> a \<and> r \<noteq> b} = {c}" using 4 ranks irr by auto
        show ?thesis
        proof (rule low)
          assume nf: "\<not> flush F" and ns: "straight_high rs = None"
          then have "category F = 2" using 4 st ex irr by (auto simp: category_def)
          with 4 nf ns p m show "five_value cs = category F # map snd G \<and> category F \<noteq> 8 \<and> category F \<noteq> 4"
            by (simp add: fv Let_def)
        qed (use 4 ex in simp_all)
      next
        case (5 a b c d)
        have p: "descending (filter (\<lambda>r. count_list rs r = 2) (remdups rs)) = [a]"
          unfolding pairs by (simp add: 5)
        have k: "descending (filter (\<lambda>r. r \<noteq> a) rs) = [b, c, d]"
          using 5 sorted irr ranks by (intro kickers) (auto simp: less_prod_def')
        show ?thesis
        proof (rule low)
          assume nf: "\<not> flush F" and ns: "straight_high rs = None"
          then have "category F = 1" using 5 st ex by (simp add: category_def)
          with 5 nf ns p k show "five_value cs = category F # map snd G \<and> category F \<noteq> 8 \<and> category F \<noteq> 4"
            by (simp add: fv Let_def)
        qed (use 5 ex in simp_all)
      next
        case (6 a b c d e)
        have p: "descending (filter (\<lambda>r. count_list rs r = 2) (remdups rs)) = []"
          unfolding pairs by (simp add: 6)
        have k: "descending (filter (\<lambda>r. True) rs) = [a, b, c, d, e]"
          using 6 sorted ranks by (intro kickers) (auto simp: less_prod_def')
        show ?thesis
        proof (rule low)
          assume nf: "\<not> flush F" and ns: "straight_high rs = None"
          then have "category F = 0" using 6 st ex by (simp add: category_def)
          with 6 nf ns p k show "five_value cs = category F # map snd G \<and> category F \<noteq> 8 \<and> category F \<noteq> 4"
            by (simp add: fv Let_def)
        qed (use 6 ex in simp_all)
      qed
    qed
    then show ?thesis by (simp add: F_def)
  qed
qed

section \<open>One value for five cards\<close>

lemma straight_unique:
  assumes "card F = 5" "straight_to F h" "straight_to F h'" "F \<subseteq> set DECK"
  shows "h = h'"
proof (rule ccontr)
  have claim: False if "straight_to F a" "straight_to F b" "a < b" for a b
  proof -
    let ?R = "ranks_low (card_rank ` F)"
    have fin: "finite F" using assms(1) card.infinite by fastforce
    have sub: "{a - 4..a} \<union> {b - 4..b} \<subseteq> ?R" using that by (auto simp: straight_to_def)
    have range: "card_rank ` F \<subseteq> {2..14}"
      using assms(4) deck_card rank_range by (fastforce simp: card_rank_def)
    have cR: "card (card_rank ` F) \<le> 5" using card_image_le [OF fin, of card_rank] assms(1) by simp
    have "6 \<le> card ({a - 4..a} \<union> {b - 4..b})"
    proof -
      have "insert b {a - 4..a} \<subseteq> {a - 4..a} \<union> {b - 4..b}" by auto
      then have "card (insert b {a - 4..a}) \<le> card ({a - 4..a} \<union> {b - 4..b})" by (intro card_mono) auto
      moreover have "card (insert b {a - 4..a}) = 6" using that(3) by simp
      ultimately show ?thesis by simp
    qed
    moreover have "card ({a - 4..a} \<union> {b - 4..b}) \<le> card ?R"
      using sub fin by (intro card_mono) (auto simp: ranks_low_def)
    ultimately have big: "6 \<le> card ?R" by simp
    have low: "14 \<in> card_rank ` F"
    proof (rule ccontr)
      assume "14 \<notin> card_rank ` F"
      then show False using big cR by (simp add: ranks_low_def)
    qed
    have "card ?R \<le> 6" using low cR fin card_insert_le_m1 [of 6 "card_rank ` F" 1]
      by (simp add: ranks_low_def insert_commute card_insert_if)
    have "?R = {a - 4..a} \<union> {b - 4..b}"
    proof (rule card_seteq [symmetric])
      show "finite ?R" using fin by (simp add: ranks_low_def)
      show "{a - 4..a} \<union> {b - 4..b} \<subseteq> ?R" by (rule sub)
      show "card ?R \<le> card ({a - 4..a} \<union> {b - 4..b})"
        using \<open>card ?R \<le> 6\<close> \<open>6 \<le> card ({a - 4..a} \<union> {b - 4..b})\<close> by simp
    qed
    moreover have "1 \<in> ?R" "14 \<in> ?R" using low by (auto simp: ranks_low_def)
    moreover have "?R \<subseteq> {1..14}" using range by (auto simp: ranks_low_def)
    ultimately have ab: "1 \<in> {a - 4..a} \<union> {b - 4..b}" "14 \<in> {a - 4..a} \<union> {b - 4..b}"
      "{a - 4..a} \<union> {b - 4..b} \<subseteq> {1..14}" by auto
    from ab(3) have "a - 4 \<in> {1..14}" "b \<in> {1..14}" by auto
    with ab(1,2) that(3) have "a = 5" "b = 14" by auto
    then have "{a - 4..a} \<union> {b - 4..b} = {1..5} \<union> {10..14::int}" by simp
    moreover have "card ({1..5} \<union> {10..14::int}) = 10" by (subst card_Un_disjoint) auto
    ultimately show False using \<open>card ?R \<le> 6\<close> \<open>?R = {a - 4..a} \<union> {b - 4..b}\<close> by simp
  qed
  assume "h \<noteq> h'"
  then show False using claim assms(2,3) by (metis linorder_neqE)
qed

lemma worth_unique:
  assumes "card F = 5" "F \<subseteq> set DECK" "worth F v" "worth F w"
  shows "v = w"
proof -
  from assms(3,4) obtain s t where st: "v = category F # s" "w = category F # t"
    "if category F \<in> {8, 4} then \<exists>h. straight_to F h \<and> s = [h]
     else set s = card_rank ` F \<and> sorted_wrt (more_frequent F) s"
    "if category F \<in> {8, 4} then \<exists>h. straight_to F h \<and> t = [h]
     else set t = card_rank ` F \<and> sorted_wrt (more_frequent F) t" unfolding worth_def by blast
  have "s = t"
  proof (cases "category F \<in> {8, 4}")
    case True
    with st(3,4) straight_unique [OF assms(1) _ _ assms(2)] show ?thesis by auto
  next
    case False
    let ?key = "\<lambda>r. (rank_count F r, r)"
    have "sorted_wrt (>) (map ?key s)" "sorted_wrt (>) (map ?key t)"
      using st(3,4) False by (simp_all add: sorted_wrt_map more_frequent_def [abs_def] less_prod_def')
    moreover have "set (map ?key s) = set (map ?key t)" using st(3,4) False by simp
    ultimately have "map ?key s = map ?key t" by (rule sorted_desc_unique)
    then show ?thesis by (rule map_injective) (simp add: inj_on_def)
  qed
  with st show ?thesis by simp
qed

section \<open>All choices of five\<close>

lemma choose_from_sound:
  "ys \<in> set (choose_from k xs) \<Longrightarrow> length ys = k \<and> set ys \<subseteq> set xs \<and> (distinct xs \<longrightarrow> distinct ys)"
  by (induction k xs arbitrary: ys rule: choose_from.induct) (auto, blast+)

lemma choose_from_complete:
  "distinct xs \<Longrightarrow> F \<subseteq> set xs \<Longrightarrow> card F = k \<Longrightarrow> \<exists>ys\<in>set (choose_from k xs). set ys = F"
proof (induction k xs arbitrary: F rule: choose_from.induct)
  case (1 xs)
  then have "F = {}" using finite_subset [of F "set xs"] by auto
  then show ?case by simp
next
  case (2 k)
  then show ?case by simp
next
  case (3 k x xs)
  have fin: "finite F" using "3.prems"(2) by (rule finite_subset) simp
  show ?case
  proof (cases "x \<in> F")
    case True
    have "F - {x} \<subseteq> set xs" "card (F - {x}) = k" using "3.prems" True fin by auto
    then obtain ys where "ys \<in> set (choose_from k xs)" "set ys = F - {x}"
      using "3.IH"(1) [of "F - {x}"] "3.prems"(1) by auto
    then show ?thesis using True by (intro bexI [of _ "x # ys"]) auto
  next
    case False
    then have "F \<subseteq> set xs" using "3.prems"(2) by auto
    then show ?thesis using "3.IH"(2) [of F] "3.prems" by auto
  qed
qed

lemma deck_normal: "c \<in> set DECK \<Longrightarrow> normalize_card c = Inr c"
proof -
  have "list_all (\<lambda>c. normalize_card c = Inr c) DECK" by code_simp
  then show "c \<in> set DECK \<Longrightarrow> normalize_card c = Inr c" by (simp add: list_all_iff)
qed

lemma deck_normal_list: "distinct cs \<Longrightarrow> set cs \<subseteq> set DECK \<Longrightarrow> normalize_cards cs True = Inr cs"
proof -
  have "set cs \<subseteq> set DECK \<Longrightarrow> mapE normalize_card cs = Inr cs"
    by (induction cs) (simp_all add: deck_normal)
  then show "distinct cs \<Longrightarrow> set cs \<subseteq> set DECK \<Longrightarrow> normalize_cards cs True = Inr cs"
    by (simp add: normalize_cards_def distinct_card)
qed

lemma evaluate_five_value: "five_cards cs \<Longrightarrow> evaluate_five cs = Inr (five_value cs)"
  by (simp add: evaluate_five_def five_cards_def deck_normal_list lift_card_error_def)

lemma mapE_total: "(\<And>x. x \<in> set xs \<Longrightarrow> f x = Inr (g x)) \<Longrightarrow> mapE f xs = Inr (map g xs)"
  by (induction xs) simp_all

lemma holdem_best:
  assumes "normalize_cards hole True = Inr hs" "normalize_cards board True = Inr bs"
    and "length hs = 2" "length bs = 5" "set hs \<inter> set bs = {}"
  shows "\<exists>v. evaluate_holdem hole board = Inr v \<and>
    (\<exists>F. F \<subseteq> set hs \<union> set bs \<and> card F = 5 \<and> worth F v) \<and>
    (\<forall>F w. F \<subseteq> set hs \<union> set bs \<longrightarrow> card F = 5 \<longrightarrow> worth F w \<longrightarrow> w \<le> v)"
proof -
  let ?all = "hs @ bs"
  from normalize_cards_distinct [OF assms(1)] normalize_cards_distinct [OF assms(2)] assms(5)
  have all: "distinct ?all" "set ?all \<subseteq> set DECK" by auto
  have five: "five_cards cs" if "cs \<in> set (choose_from 5 ?all)" for cs
    using choose_from_sound [OF that] all unfolding five_cards_def by blast
  let ?vs = "map five_value (choose_from 5 ?all)"
  have each: "mapE evaluate_five (choose_from 5 ?all) = Inr ?vs"
    by (rule mapE_total) (rule evaluate_five_value [OF five])
  have run: "evaluate_holdem hole board = Inr (Max (set ?vs))"
    using assms(1-4) deck_normal_list [OF all] each
    by (simp add: evaluate_holdem_def lift_card_error_def)
  have ne: "choose_from 5 ?all \<noteq> []"
  proof -
    have "card (set bs) = 5" using normalize_cards_distinct [OF assms(2)] assms(4) by (simp add: distinct_card)
    then have "\<exists>ys\<in>set (choose_from 5 ?all). set ys = set bs"
      using all by (intro choose_from_complete) auto
    then show ?thesis by auto
  qed
  have is_in: "Max (set ?vs) \<in> set ?vs" using ne by (intro Max_in) auto
  then obtain cs where cs: "cs \<in> set (choose_from 5 ?all)" "Max (set ?vs) = five_value cs" by auto
  have "set cs \<subseteq> set hs \<union> set bs \<and> card (set cs) = 5 \<and> worth (set cs) (Max (set ?vs))"
    using choose_from_sound [OF cs(1)] all five [OF cs(1)] five_value_worth cs(2)
    by (auto simp: distinct_card)
  moreover have "w \<le> Max (set ?vs)" if F: "F \<subseteq> set hs \<union> set bs" "card F = 5" "worth F w" for F w
  proof -
    obtain ys where ys: "ys \<in> set (choose_from 5 ?all)" "set ys = F"
      using choose_from_complete [OF all(1), of F 5] F by auto
    have "worth F (five_value ys)" using five_value_worth [OF five [OF ys(1)]] ys(2) by simp
    then have "w = five_value ys" using F all(2) by (intro worth_unique [OF F(2)]) auto
    then show ?thesis using ys(1) by (intro Max_ge) auto
  qed
  ultimately show ?thesis using run by blast
qed

end
