(* ===== verification/HandRankProps.thy ===== *)
theory HandRankProps
  imports HandRankProofs
begin

text \<open>
  The property of the hand evaluator: it accepts exactly two hole cards and five board cards that
  are seven different cards, and returns the best value of any five of them.
\<close>

definition seven_cards :: "string list \<Rightarrow> string list \<Rightarrow> string set \<Rightarrow> bool" where
  \<comment> \<open>two hole cards and a board of five that name the given cards, all different\<close>
  "seven_cards hole board C \<longleftrightarrow> (\<exists>hs bs.
     normalize_cards hole True = Inr hs \<and> normalize_cards board True = Inr bs \<and>
     length hs = 2 \<and> length bs = 5 \<and> set hs \<inter> set bs = {} \<and> C = set hs \<union> set bs)"

definition best_five :: "string set \<Rightarrow> int list \<Rightarrow> bool" where
  \<comment> \<open>some five of the cards are worth \<open>v\<close>, and no five are worth more\<close>
  "best_five C v \<longleftrightarrow> (\<exists>F. F \<subseteq> C \<and> card F = 5 \<and> worth F v) \<and>
     (\<forall>F w. F \<subseteq> C \<longrightarrow> card F = 5 \<longrightarrow> worth F w \<longrightarrow> w \<le> v)"

lemma best_five_unique: "best_five C v \<Longrightarrow> best_five C w \<Longrightarrow> v = w"
  unfolding best_five_def by (meson order_antisym)

lemma holdem_on_seven: "seven_cards hole board C \<Longrightarrow> \<exists>v. evaluate_holdem hole board = Inr v \<and> best_five C v"
  unfolding seven_cards_def best_five_def using holdem_best by blast

lemma lift_card_error_Inr [simp]: "lift_card_error r = Inr x \<longleftrightarrow> r = Inr x"
  by (simp add: lift_card_error_def split: sum.split)

lemma holdem_accepts:
  assumes "evaluate_holdem hole board = Inr v"
  shows "\<exists>C. seven_cards hole board C"
proof -
  obtain hs bs all where h: "normalize_cards hole True = Inr hs" "normalize_cards board True = Inr bs"
      "normalize_cards (hs @ bs) True = Inr all" "length hs = 2" "length bs = 5"
    using assms by (auto simp: evaluate_holdem_def bindE_Inr split: if_splits)
  have "set hs \<union> set bs \<subseteq> set DECK" using normalize_cards_distinct [OF h(1)] normalize_cards_distinct [OF h(2)] by auto
  then have "mapE normalize_card (hs @ bs) = Inr (hs @ bs)"
    using mapE_total [of "hs @ bs" normalize_card "\<lambda>c. c"] deck_normal by auto
  then have "all = hs @ bs" using h(3) by (auto simp: normalize_cards_def split: if_splits)
  then have "distinct (hs @ bs)" using normalize_cards_distinct [OF h(3)] by simp
  then show ?thesis using h unfolding seven_cards_def by auto
qed

text \<open>
  C38: \<open>evaluate_holdem\<close> returns a value exactly for two hole cards and five board cards that
  are seven different cards after normalisation, and this value is the best that the rules of
  poker give to five of the seven; every other input raises \<open>ValueError\<close>.
\<close>

theorem holdem_value_is_best:
  "evaluate_holdem hole board = Inr v \<longleftrightarrow> (\<exists>C. seven_cards hole board C \<and> best_five C v)"
proof
  assume e: "evaluate_holdem hole board = Inr v"
  from holdem_accepts [OF e] obtain C where C: "seven_cards hole board C" by blast
  from holdem_on_seven [OF this] e C show "\<exists>C. seven_cards hole board C \<and> best_five C v" by auto
next
  assume "\<exists>C. seven_cards hole board C \<and> best_five C v"
  then obtain C where C: "seven_cards hole board C" "best_five C v" by blast
  from holdem_on_seven [OF C(1)] best_five_unique C(2) show "evaluate_holdem hole board = Inr v" by blast
qed

theorem holdem_value_is_best_witness:
  "\<exists>C. seven_cards [''ah'', ''Ks''] [''2d'', ''3c'', ''4s'', ''5h'', ''Kd''] C \<and> best_five C [4, 5]"
proof -
  have "evaluate_holdem [''ah'', ''Ks''] [''2d'', ''3c'', ''4s'', ''5h'', ''Kd''] = Inr [4, 5]" by code_simp
  then show ?thesis by (simp only: holdem_value_is_best)
qed

end
