(* ===== verification/RangeEquityProofs.thy ===== *)
theory RangeEquityProofs
  imports RangeEquity RangeProofs HandRankProps
begin

text \<open>
  The binding survives its JSON form, the oracle counts showdowns by the rules of poker, and a
  candidate is admitted exactly if it meets a declarative description of an admissible case.
\<close>

section \<open>The binding and its JSON form\<close>

lemma equity_sha256_ok [simp]: "is_sha256 (equity_sha256 domain j)"
  by (simp add: equity_sha256_def)

lemma binding_read_back:
  assumes "equity_binding_ok b"
  shows "read_equity_binding (json_of_equity_binding b) = Inr b"
proof -
  have "equity_binding_of_json (json_of_equity_binding b) = b"
    by (simp add: equity_binding_of_json_def json_of_equity_binding_def binding_payload_def field_def
        binding_constants_def str_of_def int_of_def)
  moreover have "json_of_equity_binding b = JObj (binding_payload b @ [(''binding_sha256'', JStr (eb_binding_sha256 b))])"
    by (rule json_of_equity_binding_def)
  moreover have "list_all (\<lambda>c. snd c (field (fst c) (json_of_equity_binding b))) binding_field_types"
    by (simp add: binding_field_types_def json_of_equity_binding_def binding_payload_def field_def
        binding_constants_def is_string_def is_int_def)
  moreover have "list_all (\<lambda>c. field (fst c) (json_of_equity_binding b) = snd c) binding_constants"
    by (simp add: binding_constants_def json_of_equity_binding_def binding_payload_def field_def)
  moreover have "distinct (map fst (binding_payload b @ [(''binding_sha256'', JStr (eb_binding_sha256 b))]))"
    by (simp add: binding_payload_def binding_constants_def)
  moreover have "set (map fst (binding_payload b @ [(''binding_sha256'', JStr (eb_binding_sha256 b))])) =
      set (map fst binding_field_types) \<union> set (map fst binding_constants)"
    by (simp add: binding_payload_def binding_constants_def binding_field_types_def insert_commute)
  ultimately show ?thesis using assms
    by (simp add: read_equity_binding_def Let_def equity_binding_ok_def list_all_iff)
qed

section \<open>Showdowns\<close>

definition showdown :: "string list \<Rightarrow> string list \<Rightarrow> (int list \<Rightarrow> int list \<Rightarrow> bool) \<Rightarrow> weighted_combo \<Rightarrow> bool" where
  \<comment> \<open>how the best hands of the hero and of a combo compare on the board\<close>
  "showdown hero board R c \<longleftrightarrow> (\<exists>v w. best_five (set hero \<union> set board) v \<and>
     best_five ({fst (wc_cards c), snd (wc_cards c)} \<union> set board) w \<and> R v w)"

definition hero_wins :: "string list \<Rightarrow> string list \<Rightarrow> weighted_combo \<Rightarrow> bool" where
  "hero_wins hero board = showdown hero board (\<lambda>v w. w < v)"
definition hero_ties :: "string list \<Rightarrow> string list \<Rightarrow> weighted_combo \<Rightarrow> bool" where
  "hero_ties hero board = showdown hero board (\<lambda>v w. v = w)"
definition hero_loses :: "string list \<Rightarrow> string list \<Rightarrow> weighted_combo \<Rightarrow> bool" where
  "hero_loses hero board = showdown hero board (\<lambda>v w. v < w)"

definition combos_where :: "(weighted_combo \<Rightarrow> bool) \<Rightarrow> weighted_combo list \<Rightarrow> int" where
  "combos_where P cs = int (length (filter P cs))"
definition weight_where :: "(weighted_combo \<Rightarrow> bool) \<Rightarrow> weighted_combo list \<Rightarrow> int" where
  "weight_where P cs = (\<Sum>c\<leftarrow>filter P cs. wc_weight_millionths c)"

lemma where_append [simp]:
  "combos_where P (xs @ ys) = combos_where P xs + combos_where P ys"
  "weight_where P (xs @ ys) = weight_where P xs + weight_where P ys"
  by (simp_all add: combos_where_def weight_where_def)

lemma where_one [simp]:
  "combos_where P [] = 0" "weight_where P [] = 0"
  "combos_where P [c] = (if P c then 1 else 0)" "weight_where P [c] = (if P c then wc_weight_millionths c else 0)"
  by (simp_all add: combos_where_def weight_where_def)

lemma where_Cons:
  "combos_where P (c # cs) = (if P c then 1 else 0) + combos_where P cs"
  "weight_where P (c # cs) = (if P c then wc_weight_millionths c else 0) + weight_where P cs"
  by (simp_all add: combos_where_def weight_where_def)

definition faces :: "string list \<Rightarrow> weighted_combo \<Rightarrow> bool" where
  \<comment> \<open>a valid combo none of whose cards is on the board\<close>
  "faces board c \<longleftrightarrow> weighted_combo_ok c \<and> canonical_pair (wc_cards c) \<and> unblocked board (wc_cards c)"

lemma faces_seven:
  assumes "faces board c" "normalize_cards board True = Inr board" "length board = 5"
  shows "seven_cards [fst (wc_cards c), snd (wc_cards c)] board ({fst (wc_cards c), snd (wc_cards c)} \<union> set board)"
proof -
  have p: "canonical_pair (wc_cards c)" and u: "unblocked board (wc_cards c)"
    using assms(1) by (auto simp: faces_def)
  then have "fst (wc_cards c) \<noteq> snd (wc_cards c)" by (auto simp: canonical_pair_def)
  moreover have "set [fst (wc_cards c), snd (wc_cards c)] \<subseteq> set DECK"
    using p by (auto simp: canonical_pair_def set_DECK)
  ultimately have "normalize_cards [fst (wc_cards c), snd (wc_cards c)] True = Inr [fst (wc_cards c), snd (wc_cards c)]"
    by (intro deck_normal_list) auto
  then show ?thesis using assms u unfolding seven_cards_def
    by (intro exI [of _ "[fst (wc_cards c), snd (wc_cards c)]"] exI [of _ board]) (auto simp: unblocked_def)
qed

definition totals_of :: "string list \<Rightarrow> string list \<Rightarrow> weighted_combo list \<Rightarrow> rat \<Rightarrow> oracle_totals" where
  "totals_of hero board cs e =
     \<lparr>ot_win_combo_count = combos_where (hero_wins hero board) cs,
      ot_tie_combo_count = combos_where (hero_ties hero board) cs,
      ot_loss_combo_count = combos_where (hero_loses hero board) cs,
      ot_win_weight_millionths = weight_where (hero_wins hero board) cs,
      ot_tie_weight_millionths = weight_where (hero_ties hero board) cs,
      ot_loss_weight_millionths = weight_where (hero_loses hero board) cs, ot_equity = e\<rparr>"

lemma count_combo_totals:
  assumes "best_five (set hero \<union> set board) v" "faces board c"
    and "normalize_cards board True = Inr board" "length board = 5"
  shows "count_combo board v (totals_of hero board cs e) c = Inr (totals_of hero board (cs @ [c]) e)"
    and "hero_wins hero board c \<or> hero_ties hero board c \<or> hero_loses hero board c"
    and "\<not> (hero_wins hero board c \<and> hero_ties hero board c)"
    and "\<not> (hero_wins hero board c \<and> hero_loses hero board c)"
    and "\<not> (hero_ties hero board c \<and> hero_loses hero board c)"
proof -
  let ?C = "{fst (wc_cards c), snd (wc_cards c)} \<union> set board"
  obtain w where w: "evaluate_holdem [fst (wc_cards c), snd (wc_cards c)] board = Inr w" "best_five ?C w"
    using holdem_on_seven [OF faces_seven [OF assms(2-4)]] by blast
  have R: "showdown hero board R c \<longleftrightarrow> R v w" for R
    unfolding showdown_def using assms(1) w(2) best_five_unique by blast
  have W: "hero_wins hero board c = (w < v)" and T: "hero_ties hero board c = (v = w)"
    and L: "hero_loses hero board c = (v < w)"
    unfolding hero_wins_def hero_ties_def hero_loses_def by (rule R)+
  show "hero_wins hero board c \<or> hero_ties hero board c \<or> hero_loses hero board c"
    "\<not> (hero_wins hero board c \<and> hero_ties hero board c)"
    "\<not> (hero_wins hero board c \<and> hero_loses hero board c)"
    "\<not> (hero_ties hero board c \<and> hero_loses hero board c)"
    unfolding W T L using less_linear [of v w] less_asym [of v w] by auto
  have run: "count_combo board v t c = Inr (t\<lparr>ot_win_combo_count := ot_win_combo_count t + 1,
        ot_win_weight_millionths := ot_win_weight_millionths t + wc_weight_millionths c\<rparr>)" if "w < v" for t
    using w(1) that by (simp add: count_combo_def lift_err_def Let_def)
  have run2: "count_combo board v t c = Inr (t\<lparr>ot_tie_combo_count := ot_tie_combo_count t + 1,
        ot_tie_weight_millionths := ot_tie_weight_millionths t + wc_weight_millionths c\<rparr>)" if "v = w" for t
    using w(1) that by (simp add: count_combo_def lift_err_def Let_def)
  have run3: "count_combo board v t c = Inr (t\<lparr>ot_loss_combo_count := ot_loss_combo_count t + 1,
        ot_loss_weight_millionths := ot_loss_weight_millionths t + wc_weight_millionths c\<rparr>)" if "v < w" for t
    using w(1) that less_asym [OF that] by (simp add: count_combo_def lift_err_def Let_def)
  consider "w < v" | "v = w" | "v < w" using less_linear by blast
  then show "count_combo board v (totals_of hero board cs e) c = Inr (totals_of hero board (cs @ [c]) e)"
  proof cases
    case 1
    then have "\<not> v = w" "\<not> v < w" using less_asym by blast+
    with 1 show ?thesis by (simp add: run totals_of_def W T L)
  next
    case 2
    show ?thesis unfolding run2 [OF 2] using 2 by (simp add: totals_of_def W T L)
  next
    case 3
    then have "\<not> v = w" "\<not> w < v" using less_asym by blast+
    with 3 show ?thesis by (simp add: run3 totals_of_def W T L)
  qed
qed

lemma count_combos_totals:
  assumes "best_five (set hero \<union> set board) v" "list_all (faces board) cs"
    and "normalize_cards board True = Inr board" "length board = 5"
  shows "foldE (count_combo board v) (totals_of hero board pre e) cs = Inr (totals_of hero board (pre @ cs) e)"
  using assms(2)
proof (induction cs arbitrary: pre)
  case (Cons c cs)
  then have "faces board c" by simp
  from count_combo_totals(1) [OF assms(1) this assms(3,4)] Cons show ?case by simp
qed simp

lemma outcomes_partition:
  assumes "best_five (set hero \<union> set board) v" "list_all (faces board) cs"
    and "normalize_cards board True = Inr board" "length board = 5"
  shows "combos_where (hero_wins hero board) cs + combos_where (hero_ties hero board) cs
      + combos_where (hero_loses hero board) cs = int (length cs)"
    and "weight_where (hero_wins hero board) cs + weight_where (hero_ties hero board) cs
      + weight_where (hero_loses hero board) cs = (\<Sum>c\<leftarrow>cs. wc_weight_millionths c)"
proof -
  have one: "(if hero_wins hero board c then x else 0) + (if hero_ties hero board c then x else 0)
      + (if hero_loses hero board c then x else 0) = x" if "faces board c" for c and x :: int
    using count_combo_totals(2-5) [OF assms(1) that assms(3,4)] by auto
  show "combos_where (hero_wins hero board) cs + combos_where (hero_ties hero board) cs
      + combos_where (hero_loses hero board) cs = int (length cs)"
    using assms(2)
  proof (induction cs)
    case (Cons c cs)
    with one [of c 1] show ?case by (simp add: where_Cons)
  qed simp
  show "weight_where (hero_wins hero board) cs + weight_where (hero_ties hero board) cs
      + weight_where (hero_loses hero board) cs = (\<Sum>c\<leftarrow>cs. wc_weight_millionths c)"
    using assms(2)
  proof (induction cs)
    case (Cons c cs)
    with one [of c "wc_weight_millionths c"] show ?case
      by (simp add: where_Cons)
  qed simp
qed

lemma where_nonneg:
  assumes "list_all weighted_combo_ok cs"
  shows "0 \<le> combos_where P cs" "0 \<le> weight_where P cs"
proof -
  show "0 \<le> combos_where P cs" by (simp add: combos_where_def)
  have "list_all weighted_combo_ok (filter P cs)" using assms by (auto simp: list_all_iff)
  from weights_bound [OF this] show "0 \<le> weight_where P cs" by (simp add: weight_where_def)
qed

section \<open>The cards and the combos of a river case\<close>

lemma known_cards_cases:
  "canonical_known_cards h = (if distinct (h_hero_cards h @ h_board h) \<and> set (h_hero_cards h @ h_board h) \<subseteq> set DECK
     then Inr (h_hero_cards h, h_board h) else bridge_fail REQ_CARD ''hand.cards'')"
proof (cases "distinct (h_hero_cards h @ h_board h) \<and> set (h_hero_cards h @ h_board h) \<subseteq> set DECK")
  case True
  then show ?thesis
    using deck_normal_list [of "h_hero_cards h"] deck_normal_list [of "h_board h"]
      deck_normal_list [of "h_hero_cards h @ h_board h"]
    by (simp add: canonical_known_cards_def)
next
  case False
  define X where "X = bindE (normalize_cards (h_hero_cards h) True) (\<lambda>hero.
        bindE (normalize_cards (h_board h) True) (\<lambda>board.
        bindE (normalize_cards (hero @ board) True) (\<lambda>_. Inr (hero, board))))"
  have "X \<noteq> Inr (h_hero_cards h, h_board h)"
  proof
    assume "X = Inr (h_hero_cards h, h_board h)"
    then obtain cs where n: "normalize_cards (h_hero_cards h) True = Inr (h_hero_cards h)"
        "normalize_cards (h_board h) True = Inr (h_board h)"
        "normalize_cards (h_hero_cards h @ h_board h) True = Inr cs"
      by (auto simp: X_def bindE_Inr)
    then have D: "set (h_hero_cards h @ h_board h) \<subseteq> set DECK"
      using normalize_cards_distinct [OF n(1)] normalize_cards_distinct [OF n(2)] by auto
    then have "mapE normalize_card (h_hero_cards h @ h_board h) = Inr (h_hero_cards h @ h_board h)"
      using mapE_total [of "h_hero_cards h @ h_board h" normalize_card "\<lambda>c. c"] deck_normal by auto
    then have "cs = h_hero_cards h @ h_board h" using n(3) by (auto simp: normalize_cards_def split: if_splits)
    then show False using normalize_cards_distinct [OF n(3)] D False by simp
  qed
  then have "canonical_known_cards h = bridge_fail REQ_CARD ''hand.cards''"
    unfolding canonical_known_cards_def X_def [symmetric] Let_def by (auto split: sum.split)
  then show ?thesis by (simp only: False if_False)
qed

lemma known_cards_seven:
  assumes "canonical_known_cards h = Inr (hero, board)" "length (h_hero_cards h) = 2" "length (h_board h) = 5"
  shows "hero = h_hero_cards h" "board = h_board h" "distinct (hero @ board)" "set (hero @ board) \<subseteq> set DECK"
    "normalize_cards hero True = Inr hero" "normalize_cards board True = Inr board"
    "seven_cards hero board (set hero \<union> set board)"
proof -
  show h: "hero = h_hero_cards h" "board = h_board h" "distinct (hero @ board)" "set (hero @ board) \<subseteq> set DECK"
    using assms(1) unfolding known_cards_cases by (auto simp: bridge_fail_def split: if_splits)
  then show n: "normalize_cards hero True = Inr hero" "normalize_cards board True = Inr board"
    using deck_normal_list by auto
  show "seven_cards hero board (set hero \<union> set board)"
    using n h assms(2,3) unfolding seven_cards_def by auto
qed

definition river_result :: "string list \<Rightarrow> range_result \<Rightarrow> bool" where
  \<comment> \<open>what a successful validation on the river tells of its result\<close>
  "river_result board r \<longleftrightarrow> rr_status r = Range_success \<and> rr_combos r \<noteq> [] \<and>
     list_all (faces board) (rr_combos r) \<and> rr_combo_count r = int (length (rr_combos r)) \<and>
     rr_combo_count r \<le> RANGE_EQUITY_MAX_EVALUATIONS \<and>
     rr_total_weight_millionths r = (\<Sum>c\<leftarrow>rr_combos r. wc_weight_millionths c) \<and>
     rr_condition_binding_sha256 r \<noteq> None \<and> opt_sha256 (rr_condition_binding_sha256 r) \<and>
     rr_canonical_combo_sha256 r = Some (combos_sha256 (rr_combos r)) \<and>
     is_sha256 (combos_sha256 (rr_combos r))"

lemma river_result_of_validation:
  assumes d: "range_definition_ok d" and v: "validate_versioned_range H d = Inr r"
    and s: "rr_status r = Range_success" and river: "rc_street (rg_game_conditions d) = River"
    and seven: "distinct (h_hero_cards H @ h_board H)" "set (h_hero_cards H @ h_board H) \<subseteq> set DECK"
      "length (h_hero_cards H) = 2" "length (h_board H) = 5"
  shows "river_result (h_board H) r"
proof (cases rule: validate_cases [OF d, of H])
  case (1 r')
  with v s show ?thesis by simp
next
  case (2 r' ch bl)
  let ?items = "canonical_items d bl"
  from 2 v have S: "succeeds_with r ch bl (map combo_of_item ?items)" and B: "range_result_ok r"
    by (simp_all add: belongs_to_def)
  have "condition_binding H d = (Some ch, bl, None)" using 2 by (simp add: range_admitted_def)
  from condition_binding_Some(5) [OF this] have bl: "bl = h_hero_cards H @ h_board H"
    using seven deck_normal_list [OF seven(1,2)] by (simp add: river)
  have dist: "distinct (map fst ?items)" using 2 canonical_items_sorted(2) by (simp add: clean_notation_def)
  have good: "list_all good_item ?items" by (rule canonical_items_good)
  have un: "unblocked bl (fst it)" if "it \<in> set ?items" for it
    using that canonical_items_denote [of "fst it" "snd it" d bl] by simp
  have "length (map fst ?items) \<le> (52 - length bl) choose 2"
    using dist good un seven bl
    by (intro canonical_pairs_bound) (auto simp: list_all_iff good_item_def unblocked_def)
  also have "(52 - length bl) choose 2 = 990" using seven bl by (simp add: choose_two)
  finally have n: "int (length ?items) \<le> RANGE_EQUITY_MAX_EVALUATIONS"
    by (simp add: RANGE_EQUITY_MAX_EVALUATIONS_def)
  have f: "list_all (faces (h_board H)) (map combo_of_item ?items)"
    using good un combo_of_item_ok unfolding bl
    by (auto simp: list_all_iff faces_def combo_of_item_def good_item_def unblocked_def)
  have "rr_condition_binding_sha256 r \<noteq> None \<and> opt_sha256 (rr_condition_binding_sha256 r)"
    "is_sha256 (combos_sha256 (map combo_of_item ?items))"
    using B S by (auto simp: range_result_ok_def succeeds_with_def opt_sha256_def)
  with S n f 2(5) show ?thesis
    by (simp add: river_result_def succeeds_with_def)
qed

lemma river_totals:
  assumes "river_result board r" "best_five (set hero \<union> set board) v"
    "evaluate_holdem hero board = Inr v" "normalize_cards board True = Inr board" "length board = 5"
  shows "equity_totals hero board r = Inr (totals_of hero board (rr_combos r)
    (Fract (2 * weight_where (hero_wins hero board) (rr_combos r) + weight_where (hero_ties hero board) (rr_combos r))
      (2 * rr_total_weight_millionths r)))"
proof -
  have z: "no_totals = totals_of hero board [] 0" by (simp add: no_totals_def totals_of_def)
  have "foldE (count_combo board v) no_totals (rr_combos r) = Inr (totals_of hero board (rr_combos r) 0)"
    using count_combos_totals [OF assms(2) _ assms(4,5), of "rr_combos r" "[]" 0] assms(1)
    by (simp add: z river_result_def)
  then show ?thesis using assms(1,3)
    by (simp add: equity_totals_def river_result_def lift_err_def) (simp add: totals_of_def)
qed

section \<open>Admissible cases\<close>

lemma eligible_after_folds:
  "eligible_after P as = {p \<in> P. \<not> (\<exists>a\<in>set as. ha_action a = Fold \<and> ha_actor a = p)}"
  unfolding eligible_after_def by (induction as arbitrary: P) auto

definition decision_point :: "noted_hand \<Rightarrow> range_definition \<Rightarrow> bool" where
  \<comment> \<open>the target has just bet or raised on the river, and all but the hero and the target have folded\<close>
  "decision_point h d \<longleftrightarrow> rc_street (rg_game_conditions d) = River \<and> rc_format (rg_game_conditions d) = Cash \<and>
     (\<exists>before bet rest. h_actions h = before @ bet # rest \<and>
        int (length before) + 1 = rc_as_of_action_index (rg_game_conditions d) \<and>
        ha_street bet = River \<and> ha_actor bet = rg_target_player_id d \<and> ha_action bet \<in> {Bet, Raise} \<and>
        {Some (ps_player_id p) |p. p \<in> set (h_players h) \<and>
          \<not> (\<exists>a\<in>set (before @ [bet]). ha_action a = Fold \<and> ha_actor a = ps_player_id p)}
        = {h_hero_player_id h, Some (rg_target_player_id d)})"

lemma decision_cases:
  "if decision_point h d then validate_decision_binding h d = Inr ()
   else \<exists>code\<in>{REQ_DECISION, REQ_TARGET}. \<exists>place. validate_decision_binding h d = bridge_fail code place"
proof -
  let ?c = "rg_game_conditions d" let ?i = "rc_as_of_action_index ?c" let ?as = "h_actions h"
  let ?el = "Some ` eligible_after (set (map ps_player_id (h_players h))) (take (nat ?i) ?as)"
  have el: "?el = {Some (ps_player_id p) |p. p \<in> set (h_players h) \<and>
      \<not> (\<exists>a\<in>set (take (nat ?i) ?as). ha_action a = Fold \<and> ha_actor a = ps_player_id p)}"
    unfolding eligible_after_folds by auto
  let ?facing = "?as ! nat (?i - 1)"
  let ?good = "rc_street ?c = River \<and> rc_format ?c = Cash \<and> 1 \<le> ?i \<and> ?i \<le> int (length ?as) \<and>
    ha_street ?facing = River \<and> ha_actor ?facing = rg_target_player_id d \<and> ha_action ?facing \<in> {Bet, Raise} \<and>
    ?el = {h_hero_player_id h, Some (rg_target_player_id d)}"
  have "decision_point h d \<longleftrightarrow> ?good"
  proof
    assume "decision_point h d"
    then obtain before bet rest where a: "?as = before @ bet # rest" "int (length before) + 1 = ?i"
      and g: "rc_street ?c = River" "rc_format ?c = Cash" "ha_street bet = River"
        "ha_actor bet = rg_target_player_id d" "ha_action bet \<in> {Bet, Raise}"
        "{Some (ps_player_id p) |p. p \<in> set (h_players h) \<and>
          \<not> (\<exists>a\<in>set (before @ [bet]). ha_action a = Fold \<and> ha_actor a = ps_player_id p)}
        = {h_hero_player_id h, Some (rg_target_player_id d)}"
      unfolding decision_point_def by blast
    have n: "nat ?i = Suc (length before)" "nat (?i - 1) = length before" using a(2) by auto
    have t: "take (nat ?i) ?as = before @ [bet]" "?facing = bet" by (simp_all add: a(1) n)
    have "?el = {h_hero_player_id h, Some (rg_target_player_id d)}" unfolding el unfolding t(1) by (rule g(6))
    moreover have "1 \<le> ?i" "?i \<le> int (length ?as)" using a(2) by (simp_all add: a(1))
    ultimately show ?good unfolding t(2) using g(1-5) by blast
  next
    assume g: ?good
    let ?k = "nat (?i - 1)"
    have k: "?k < length ?as" "nat ?i = Suc ?k" using g by auto
    have split: "?as = take ?k ?as @ ?facing # drop (Suc ?k) ?as" by (rule id_take_nth_drop [OF k(1)])
    have t: "take (nat ?i) ?as = take ?k ?as @ [?facing]" unfolding k(2) by (rule take_Suc_conv_app_nth [OF k(1)])
    have len: "int (length (take ?k ?as)) + 1 = ?i" using g k(1) by simp
    have E: "{Some (ps_player_id p) |p. p \<in> set (h_players h) \<and>
          \<not> (\<exists>a\<in>set (take ?k ?as @ [?facing]). ha_action a = Fold \<and> ha_actor a = ps_player_id p)}
        = {h_hero_player_id h, Some (rg_target_player_id d)}"
      using conjunct2 [OF conjunct2 [OF conjunct2 [OF conjunct2 [OF conjunct2 [OF conjunct2 [OF conjunct2 [OF g]]]]]]]
      unfolding el unfolding t .
    have F: "ha_street ?facing = River" "ha_actor ?facing = rg_target_player_id d" "ha_action ?facing \<in> {Bet, Raise}"
      "rc_street ?c = River" "rc_format ?c = Cash" using g by blast+
    show "decision_point h d" unfolding decision_point_def
      by (rule conjI [OF F(4) conjI [OF F(5)]], rule exI [of _ "take ?k ?as"], rule exI [of _ ?facing],
          rule exI [of _ "drop (Suc ?k) ?as"], rule conjI [OF split conjI [OF len]],
          rule conjI [OF F(1) conjI [OF F(2) conjI [OF F(3) E]]])
  qed
  moreover define A where "A \<longleftrightarrow> rc_street ?c \<noteq> River \<or> rc_format ?c \<noteq> Cash"
  moreover define B where "B \<longleftrightarrow> ?i < 1 \<or> int (length ?as) < ?i"
  moreover define C where "C \<longleftrightarrow> ha_street ?facing \<noteq> River \<or> ha_actor ?facing \<noteq> rg_target_player_id d \<or>
    ha_action ?facing \<notin> {Bet, Raise}"
  moreover define D where "D \<longleftrightarrow> ?el \<noteq> {h_hero_player_id h, Some (rg_target_player_id d)}"
  ultimately have dp: "decision_point h d \<longleftrightarrow> \<not> A \<and> \<not> B \<and> \<not> C \<and> \<not> D"
    by (metis (no_types, lifting) not_less)
  have "validate_decision_binding h d =
     (if A then bridge_fail REQ_DECISION ''range.game_conditions.street''
      else if B then bridge_fail REQ_DECISION ''range.game_conditions.as_of_action_index''
      else if C then bridge_fail REQ_DECISION ''hand.actions''
      else if D then bridge_fail REQ_TARGET ''hand.actions'' else Inr ())"
    unfolding validate_decision_binding_def Let_def A_def B_def C_def D_def by (rule refl)
  with dp show ?thesis by auto
qed

definition plain_candidate :: "equity_env \<Rightarrow> case_input \<Rightarrow> bool" where
  \<comment> \<open>a retrospective calculation of exactly the two tools, with nothing but a hand\<close>
  "plain_candidate env c \<longleftrightarrow> case_ok c \<and> serializes env (json_of_case c) \<and>
     (\<forall>s\<in>set (json_strings (json_of_case c)). eq_nfc env s) \<and>
     eq_redact env (json_of_case c) = json_of_case c \<and>
     ci_kind c = Calculation_case \<and> ci_analysis_scope c = Retrospective \<and>
     ci_raw_text c = None \<and> ci_focal_decision c = None \<and> ci_realized_result c = None \<and>
     ci_claims c = [] \<and> ci_evidence c = [] \<and> ci_assumptions c = [] \<and>
     ci_requested_tools c = [''combos'', ''holdem_equity''] \<and>
     ci_metadata c \<in> {[], [(''tool_inputs'', JObj [])]}"

definition admissible_hand :: "noted_hand \<Rightarrow> range_definition \<Rightarrow> bool" where
  "admissible_hand h d \<longleftrightarrow> h_game_type h = NLHE \<and> h_format h = Cash \<and> h_hero_player_id h \<noteq> None \<and>
     length (h_hero_cards h) = 2 \<and> length (h_board h) = 5 \<and> h_known_ranges h = [Versioned_range d] \<and>
     distinct (h_hero_cards h @ h_board h) \<and> set (h_hero_cards h @ h_board h) \<subseteq> set DECK \<and>
     decision_point h d \<and>
     (\<exists>r. validate_versioned_range (ranged_hand.truncate h) d = Inr r \<and> rr_status r = Range_success)"

definition admissible :: "equity_env \<Rightarrow> case_input \<Rightarrow> bool" where
  "admissible env c \<longleftrightarrow> plain_candidate env c \<and> (\<exists>h d. ci_hand c = Some h \<and> admissible_hand h d)"

definition portable_hero :: "case_input \<Rightarrow> bool" where
  "portable_hero c \<longleftrightarrow> (\<exists>h p. ci_hand c = Some h \<and> h_hero_player_id h = Some p \<and> range_portable_id p)"

definition admission_codes :: "equity_code set" where
  "admission_codes = {REQ_SCHEMA, REQ_CASE, REQ_HAND, REQ_RANGE, REQ_TARGET, REQ_DECISION, REQ_CARD,
     REQ_TOOL_PLAN, REQ_PROVENANCE}"

definition refused_typed :: "equity_error + 'a \<Rightarrow> bool" where
  "refused_typed m \<longleftrightarrow> (\<exists>code\<in>admission_codes. \<exists>place. m = bridge_fail code place)"

lemma refused_typed_bind [simp]: "refused_typed m \<Longrightarrow> refused_typed (bindE m f)"
  by (auto simp: refused_typed_def bridge_fail_def)

lemma refused_typed_fail [simp]: "refused_typed (bridge_fail code place) \<longleftrightarrow> code \<in> admission_codes"
  by (auto simp: refused_typed_def bridge_fail_def)

lemma candidate_guards_cases:
  "if plain_candidate env c then candidate_guards env c = Inr () else refused_typed (candidate_guards env c)"
  by (auto simp: candidate_guards_def plain_candidate_def admission_codes_def list_all_iff
      RANGE_EQUITY_TOOL_PLAN_def RANGE_EQUITY_MARKER_def)

lemma one_definition_cases:
  "one_definition c = Inr (h, d) \<longleftrightarrow> ci_hand c = Some h \<and> h_game_type h = NLHE \<and> h_format h = Cash \<and>
     h_hero_player_id h \<noteq> None \<and> length (h_hero_cards h) = 2 \<and> length (h_board h) = 5 \<and>
     h_known_ranges h = [Versioned_range d]"
  "one_definition c = Inl e \<Longrightarrow> refused_typed (one_definition c)"
  by (auto simp: one_definition_def bridge_fail_def refused_typed_def admission_codes_def
      split: option.splits list.splits known_range.splits if_splits)

section \<open>Admission decided\<close>

lemma truncate_cards [simp]:
  "h_hero_cards (ranged_hand.truncate h) = h_hero_cards h" "h_board (ranged_hand.truncate h) = h_board h"
  "h_known_ranges (ranged_hand.truncate h) = h_known_ranges h"
  by (simp_all add: ranged_hand.truncate_def)

lemma weights_lower:
  "list_all weighted_combo_ok cs \<Longrightarrow> int (length cs) \<le> (\<Sum>c\<leftarrow>cs. wc_weight_millionths c)"
proof (induction cs)
  case (Cons c cs)
  then have "1 \<le> wc_weight_millionths c" by (auto simp: weighted_combo_ok_def Let_def split: prod.splits)
  with Cons show ?case by simp
qed simp

lemma river_weights:
  assumes "river_result board r"
  shows "counts_weigh (rr_combo_count r) (rr_total_weight_millionths r)" "1 \<le> rr_combo_count r"
    "1 \<le> rr_total_weight_millionths r" "rr_total_weight_millionths r \<le> MAX_TOTAL_WEIGHT"
proof -
  have ok: "list_all weighted_combo_ok (rr_combos r)" using assms
    by (auto simp: river_result_def list_all_iff faces_def)
  have n: "1 \<le> rr_combo_count r" "rr_combo_count r \<le> 990"
    using assms by (cases "rr_combos r"; simp add: river_result_def RANGE_EQUITY_MAX_EVALUATIONS_def)+
  show w: "counts_weigh (rr_combo_count r) (rr_total_weight_millionths r)"
    using weights_lower [OF ok] weights_bound [OF ok] assms
    by (simp add: counts_weigh_def river_result_def WEIGHT_SCALE_def)
  with n show "1 \<le> rr_combo_count r" "1 \<le> rr_total_weight_millionths r"
    "rr_total_weight_millionths r \<le> MAX_TOTAL_WEIGHT"
    by (simp_all add: counts_weigh_def MAX_TOTAL_WEIGHT_def)
qed

definition equity_computed :: "noted_hand \<Rightarrow> range_definition \<Rightarrow> range_result \<Rightarrow> oracle_totals \<Rightarrow> json \<Rightarrow> bool" where
  \<comment> \<open>the intermediate results for an admissible hand\<close>
  "equity_computed h d r t payload \<longleftrightarrow>
     validate_versioned_range (ranged_hand.truncate h) d = Inr r \<and> river_result (h_board h) r \<and>
     canonical_known_cards h = Inr (h_hero_cards h, h_board h) \<and>
     equity_totals (h_hero_cards h) (h_board h) r = Inr t \<and>
     oracle_payload h d r (h_hero_cards h) (h_board h) t = Inr payload \<and>
     t = totals_of (h_hero_cards h) (h_board h) (rr_combos r)
       (Fract (2 * weight_where (hero_wins (h_hero_cards h) (h_board h)) (rr_combos r)
           + weight_where (hero_ties (h_hero_cards h) (h_board h)) (rr_combos r))
         (2 * rr_total_weight_millionths r)) \<and>
     (\<exists>v. best_five (set (h_hero_cards h) \<union> set (h_board h)) v)"

lemma equity_computed_exists:
  assumes "admissible_hand h d" "range_definition_ok d"
  obtains r t payload where "equity_computed h d r t payload"
proof -
  obtain r where v: "validate_versioned_range (ranged_hand.truncate h) d = Inr r" "rr_status r = Range_success"
    using assms(1) unfolding admissible_hand_def by blast
  have a: "length (h_hero_cards h) = 2" "length (h_board h) = 5" "distinct (h_hero_cards h @ h_board h)"
    "set (h_hero_cards h @ h_board h) \<subseteq> set DECK" "rc_street (rg_game_conditions d) = River"
    using assms(1) unfolding admissible_hand_def decision_point_def by auto
  have k: "canonical_known_cards h = Inr (h_hero_cards h, h_board h)" using a by (simp add: known_cards_cases)
  note seven = known_cards_seven [OF k a(1,2)]
  have R: "river_result (h_board h) r"
    using river_result_of_validation [OF assms(2) v] a by simp
  obtain x where x: "evaluate_holdem (h_hero_cards h) (h_board h) = Inr x"
    "best_five (set (h_hero_cards h) \<union> set (h_board h)) x"
    using holdem_on_seven [OF seven(7)] by blast
  note t = river_totals [OF R x(2,1) seven(6) a(2)]
  obtain payload where "oracle_payload h d r (h_hero_cards h) (h_board h) (totals_of (h_hero_cards h) (h_board h) (rr_combos r)
       (Fract (2 * weight_where (hero_wins (h_hero_cards h) (h_board h)) (rr_combos r)
           + weight_where (hero_ties (h_hero_cards h) (h_board h)) (rr_combos r))
         (2 * rr_total_weight_millionths r))) = Inr payload"
    using R by (auto simp: oracle_payload_def river_result_def)
  then have "equity_computed h d r (totals_of (h_hero_cards h) (h_board h) (rr_combos r)
       (Fract (2 * weight_where (hero_wins (h_hero_cards h) (h_board h)) (rr_combos r)
           + weight_where (hero_ties (h_hero_cards h) (h_board h)) (rr_combos r))
         (2 * rr_total_weight_millionths r))) payload"
    using v R k t x(2) unfolding equity_computed_def by blast
  then show thesis by (rule that)
qed

lemma computed_status: "equity_computed h d r t payload \<Longrightarrow> rr_status r = Range_success"
  by (simp add: equity_computed_def river_result_def)

lemma admit_hand_computed:
  assumes "equity_computed h d r t payload" "decision_point h d"
  shows "admit_hand c h d = new_equity_binding c h d r payload"
proof -
  have e: "validate_versioned_range (ranged_hand.truncate h) d = Inr r" "rr_status r = Range_success"
    "canonical_known_cards h = Inr (h_hero_cards h, h_board h)"
    "equity_totals (h_hero_cards h) (h_board h) r = Inr t"
    "oracle_payload h d r (h_hero_cards h) (h_board h) t = Inr payload"
    using assms(1) unfolding equity_computed_def river_result_def by blast+
  have "validate_decision_binding h d = Inr ()" using decision_cases [of h d] assms(2) by simp
  then show ?thesis by (simp add: admit_hand_def e lift_err_def)
qed

lemma new_binding_decides:
  assumes "river_result board r" "h_hero_player_id h = Some hero" "range_definition_ok d"
    and "1 \<le> rc_as_of_action_index (rg_game_conditions d)"
  shows "if range_portable_id hero then \<exists>b. new_equity_binding c h d r payload = Inr b \<and> equity_binding_ok b \<and>
      eb_oracle_sha256 b = equity_sha256 ORACLE_HASH_DOMAIN payload
    else new_equity_binding c h d r payload = Inl Raw_validation_error"
proof -
  obtain ch where ch: "rr_condition_binding_sha256 r = Some ch" "is_sha256 ch"
    using assms(1) by (auto simp: river_result_def opt_sha256_def)
  have combo: "rr_canonical_combo_sha256 r = Some (combos_sha256 (rr_combos r))" "is_sha256 (combos_sha256 (rr_combos r))"
    using assms(1) by (simp_all add: river_result_def)
  have d: "range_portable_id (rg_range_id d)" "range_portable_id (rg_target_player_id d)"
    "rc_as_of_action_index (rg_game_conditions d) \<le> 512"
    using assms(3) by (simp_all add: range_definition_ok_def range_conditions_ok_def MAX_RANGE_ACTION_PREFIX_def)
  have hash: "binding_hash (b\<lparr>eb_binding_sha256 := x\<rparr>) = binding_hash b" for b x
    by (simp add: binding_hash_def binding_payload_def)
  have sha: "is_sha256 (binding_hash b)" for b by (simp add: binding_hash_def)
  have n: "rr_combo_count r \<le> RANGE_EQUITY_MAX_EVALUATIONS" using assms(1) by (simp add: river_result_def)
  define b where "b = \<lparr>eb_range_id = rg_range_id d, eb_target_player_id = rg_target_player_id d,
       eb_hero_player_id = hero, eb_as_of_action_index = rc_as_of_action_index (rg_game_conditions d),
       eb_source_range_sha256 = equity_sha256 SOURCE_RANGE_HASH_DOMAIN (json_of_range d),
       eb_candidate_sha256 = equity_sha256 CANDIDATE_HASH_DOMAIN (json_of_case c),
       eb_condition_binding_sha256 = ch, eb_canonical_combo_sha256 = combos_sha256 (rr_combos r),
       eb_oracle_sha256 = equity_sha256 ORACLE_HASH_DOMAIN payload, eb_combo_count = rr_combo_count r,
       eb_total_weight_millionths = rr_total_weight_millionths r, eb_binding_sha256 = []\<rparr>"
  define b' where "b' = b\<lparr>eb_binding_sha256 := binding_hash b\<rparr>"
  have new: "new_equity_binding c h d r payload = (if equity_binding_ok b' then Inr b' else Inl Raw_validation_error)"
    by (simp add: new_equity_binding_def ch(1) combo(1) assms(2) b'_def b_def Let_def)
  have "binding_fields_ok b' \<longleftrightarrow> range_portable_id hero"
    unfolding binding_fields_ok_def b'_def b_def
    using d assms(4) ch(2) combo(2) river_weights [OF assms(1)] n by (simp add: sha)
  moreover have "binding_hash b' = eb_binding_sha256 b'" by (simp add: b'_def hash)
  moreover have "counts_weigh (eb_combo_count b') (eb_total_weight_millionths b')"
    using river_weights(1) [OF assms(1)] by (simp add: b'_def b_def)
  moreover have "eb_oracle_sha256 b' = equity_sha256 ORACLE_HASH_DOMAIN payload" by (simp add: b'_def b_def)
  ultimately show ?thesis unfolding new by (simp add: equity_binding_ok_def)
qed

lemma admit_hand_refuses:
  assumes "one_definition c = Inr (h, d)" "range_definition_ok d" "\<not> admissible_hand h d"
  shows "refused_typed (admit_hand c h d)"
proof -
  let ?cards = "distinct (h_hero_cards h @ h_board h) \<and> set (h_hero_cards h @ h_board h) \<subseteq> set DECK"
  obtain r where r: "validate_versioned_range (ranged_hand.truncate h) d = Inr r"
    using validate_cases [OF assms(2), of "ranged_hand.truncate h"] by metis
  note one = iffD1 [OF one_definition_cases(1) assms(1)]
  consider (cards) "\<not> ?cards" | (decision) ?cards "\<not> decision_point h d"
    | (range) ?cards "decision_point h d" "rr_status r \<noteq> Range_success"
    using assms(3) one r unfolding admissible_hand_def by blast
  then show ?thesis
  proof cases
    case cards
    then have "canonical_known_cards h = bridge_fail REQ_CARD ''hand.cards''" by (simp only: known_cards_cases if_False)
    then show ?thesis by (simp add: admit_hand_def admission_codes_def)
  next
    case decision
    then have k: "canonical_known_cards h = Inr (h_hero_cards h, h_board h)" by (simp add: known_cards_cases)
    obtain code place where "validate_decision_binding h d = bridge_fail code place" "code \<in> {REQ_DECISION, REQ_TARGET}"
      using decision_cases [of h d] decision(2) by auto
    then show ?thesis by (auto simp: admit_hand_def k admission_codes_def)
  next
    case range
    then have k: "canonical_known_cards h = Inr (h_hero_cards h, h_board h)" by (simp add: known_cards_cases)
    have "validate_decision_binding h d = Inr ()" using decision_cases [of h d] range(2) by simp
    then show ?thesis using range(3) by (simp add: admit_hand_def k r lift_err_def admission_codes_def)
  qed
qed

lemma case_range_ok:
  assumes "case_ok c" "one_definition c = Inr (h, d)"
  shows "range_definition_ok d"
  using assms(1) iffD1 [OF one_definition_cases(1) assms(2)]
  by (simp add: case_ok_def ranged_hand_ok_def)

lemma admissible_one_definition:
  "ci_hand c = Some h \<Longrightarrow> admissible_hand h d \<Longrightarrow> one_definition c = Inr (h, d)"
  by (simp add: one_definition_cases admissible_hand_def)

lemma admit_case_refuses:
  assumes "\<not> admissible env c"
  shows "refused_typed (admit_case env c)"
proof (cases "plain_candidate env c")
  case False
  then show ?thesis using candidate_guards_cases [of env c] by (simp add: admit_case_def)
next
  case True
  then have g: "candidate_guards env c = Inr ()" and ok: "case_ok c"
    using candidate_guards_cases [of env c] by (simp_all add: plain_candidate_def)
  show ?thesis
  proof (cases "one_definition c")
    case (Inl e)
    from one_definition_cases(2) [OF this] show ?thesis by (simp add: admit_case_def g)
  next
    case (Inr p)
    then obtain h d where one: "one_definition c = Inr (h, d)" by (cases p) auto
    have "\<not> admissible_hand h d"
      using assms True iffD1 [OF one_definition_cases(1) one] unfolding admissible_def by blast
    from admit_hand_refuses [OF one case_range_ok [OF ok one] this] show ?thesis
      by (simp add: admit_case_def g one)
  qed
qed

lemma admit_case_computed:
  assumes "admissible env c"
  obtains h d hero r t payload where "ci_hand c = Some h" "admissible_hand h d" "h_hero_player_id h = Some hero"
    "plain_candidate env c" "one_definition c = Inr (h, d)" "equity_computed h d r t payload"
    "admit_case env c = bindE (new_equity_binding c h d r payload) (\<lambda>b.
       Inr \<lparr>ad_candidate = c, ad_binding = b, ad_case = with_marker c b\<rparr>)"
    "if range_portable_id hero then \<exists>b. new_equity_binding c h d r payload = Inr b \<and> equity_binding_ok b \<and>
        eb_oracle_sha256 b = equity_sha256 ORACLE_HASH_DOMAIN payload
     else new_equity_binding c h d r payload = Inl Raw_validation_error"
proof -
  obtain h d where p: "plain_candidate env c" and h: "ci_hand c = Some h" "admissible_hand h d"
    using assms unfolding admissible_def by blast
  have g: "candidate_guards env c = Inr ()" using candidate_guards_cases [of env c] p by simp
  have one: "one_definition c = Inr (h, d)" by (rule admissible_one_definition [OF h])
  have "case_ok c" using p by (simp add: plain_candidate_def)
  note ok = case_range_ok [OF this one]
  obtain r t payload where e: "equity_computed h d r t payload" by (rule equity_computed_exists [OF h(2) ok])
  have dp: "decision_point h d" using h(2) by (simp add: admissible_hand_def)
  obtain hero where hero: "h_hero_player_id h = Some hero" using h(2) by (auto simp: admissible_hand_def)
  have i: "1 \<le> rc_as_of_action_index (rg_game_conditions d)" using dp by (auto simp: decision_point_def)
  have R: "river_result (h_board h) r" using e by (simp add: equity_computed_def)
  show thesis
  proof (rule that [OF h hero p one e _ new_binding_decides [OF R hero ok i]])
    show "admit_case env c = bindE (new_equity_binding c h d r payload) (\<lambda>b.
       Inr \<lparr>ad_candidate = c, ad_binding = b, ad_case = with_marker c b\<rparr>)"
      by (simp add: admit_case_def g one admit_hand_computed [OF e dp])
  qed
qed

section \<open>Reading an admitted case back\<close>

lemma fold_max_start: "(a :: nat) \<le> fold max xs a"
proof (induction xs arbitrary: a)
  case (Cons x xs)
  have "a \<le> max x a" by simp
  also have "\<dots> \<le> fold max xs (max x a)" by (rule Cons.IH)
  finally show ?case by simp
qed simp

lemma fold_max_member: "(x :: nat) \<in> set xs \<Longrightarrow> x \<le> fold max xs a"
proof (induction xs arbitrary: a)
  case (Cons y ys)
  show ?case
  proof (cases "x = y")
    case True
    then have "x \<le> max y a" by simp
    also have "\<dots> \<le> fold max ys (max y a)" by (rule fold_max_start)
    finally show ?thesis by simp
  qed (use Cons in simp)
qed simp

lemma json_depth_member: "(k, j) \<in> set fs \<Longrightarrow> Suc (json_depth j) \<le> json_depth (JObj fs)"
proof -
  assume "(k, j) \<in> set fs"
  then have "json_depth j \<in> set (map (\<lambda>f. json_depth (snd f)) fs)" by force
  from fold_max_member [OF this] show ?thesis by simp
qed

lemma marker_serializes:
  assumes "plain_candidate env c"
  shows "serializes env (json_of_equity_binding b)"
proof -
  have "json_depth (JList (map JStr (ci_requested_tools c))) = 1"
    using assms by (simp add: plain_candidate_def)
  moreover have "Suc (json_depth (JList (map JStr (ci_requested_tools c)))) \<le> json_depth (json_of_case c)"
    unfolding json_of_case_def by (rule json_depth_member [where k = "''requested_tools''"]) (rule Set.insertI1 | rule insertI2 | simp only: list.set)+
  ultimately have "2 \<le> json_depth (json_of_case c)" by simp
  moreover have "json_depth (json_of_equity_binding b) = 2"
    by (simp add: json_of_equity_binding_def binding_payload_def binding_constants_def RANGE_EQUITY_TOOL_PLAN_def)
  ultimately show ?thesis using assms by (simp add: plain_candidate_def serializes_def)
qed

lemma marker_read_back:
  assumes "plain_candidate env c" "equity_binding_ok b"
  shows "binding_from_case env (with_marker c b) = Inr (Some b)"
    and "candidate_without_marker (with_marker c b) = Inr c"
    and "one_definition (with_marker c b) = one_definition c"
proof -
  have m: "RANGE_EQUITY_MARKER \<notin> set (map fst (ci_metadata c))"
    using assms(1) by (auto simp: plain_candidate_def RANGE_EQUITY_MARKER_def)
  then have "map_of (ci_metadata (with_marker c b)) RANGE_EQUITY_MARKER = Some (json_of_equity_binding b)"
    by (simp add: with_marker_def map_add_Some_iff map_of_eq_None_iff)
  then show "binding_from_case env (with_marker c b) = Inr (Some b)"
    using marker_serializes [OF assms(1)] binding_read_back [OF assms(2)] by (simp add: binding_from_case_def)
  have "filter (\<lambda>f. fst f \<noteq> RANGE_EQUITY_MARKER) (ci_metadata c) = ci_metadata c"
    using m by (intro filter_True) force
  then have "(with_marker c b)\<lparr>ci_metadata := filter (\<lambda>f. fst f \<noteq> RANGE_EQUITY_MARKER) (ci_metadata (with_marker c b))\<rparr> = c"
    by (simp add: with_marker_def)
  moreover have "case_ok c" using assms(1) by (simp add: plain_candidate_def)
  ultimately show "candidate_without_marker (with_marker c b) = Inr c"
    by (simp add: candidate_without_marker_def)
  show "one_definition (with_marker c b) = one_definition c" by (simp add: one_definition_def with_marker_def)
qed

end
