(* ===== verification/RangeEquitySample.thy ===== *)
theory RangeEquitySample
  imports RangeEquityProofs RangeSample
begin

text \<open>
  A concrete case for the equity bridge: heads-up on the river, the villain has just bet, the
  villain's range is the one of \<open>RangeSample\<close>.  The id of the hero is a parameter.
\<close>

definition river_bet :: hand_action where
  "river_bet = \<lparr>ha_street = River, ha_actor = ''villain'', ha_action = Bet, ha_amount = 10,
     ha_to_amount = Some 10, ha_pot_before = None, ha_pot_after = None\<rparr>"

definition river_range :: range_definition where
  "river_range = sample_range\<lparr>rg_game_conditions :=
     \<lparr>rc_game_type = NLHE, rc_format = Cash, rc_table_size = 2, rc_target_position = ''BB'', rc_street = River,
      rc_starting_stack_min_bb_milli = 100000, rc_starting_stack_max_bb_milli = 100000,
      rc_as_of_action_index = 1,
      rc_action_prefix_sha256 = canonical_sha256 (JList [json_of_action river_bet])\<rparr>\<rparr>"

definition river_hand :: "string \<Rightarrow> noted_hand" where
  "river_hand hero =
     \<lparr>h_game_type = NLHE, h_format = Cash, h_table_size = 2, h_small_blind = 1, h_big_blind = 2,
      h_ante = 0, h_rake = None,
      h_players = [\<lparr>ps_player_id = hero, ps_position = ''BTN'', ps_starting_stack = 200\<rparr>,
        \<lparr>ps_player_id = ''villain'', ps_position = ''BB'', ps_starting_stack = 200\<rparr>],
      h_hero_player_id = Some hero, h_hero_cards = [''Kc'', ''2d''],
      h_board = [''Qh'', ''Jh'', ''3c'', ''7d'', ''9s''],
      h_actions = [river_bet], h_tournament = None, h_known_ranges = [Versioned_range river_range],
      h_tournament_notes = [], h_opponent_observations = [], h_analysis_objective = ''strategy_review''\<rparr>"

definition river_case :: "string \<Rightarrow> case_input" where
  "river_case hero =
     \<lparr>ci_case_id = ''case1'', ci_kind = Calculation_case, ci_raw_text = None,
      ci_hand = Some (river_hand hero), ci_focal_decision = None, ci_realized_result = None,
      ci_analysis_scope = Retrospective, ci_claims = [], ci_evidence = [], ci_assumptions = [],
      ci_objective = ''correctness'', ci_requested_tools = [''combos'', ''holdem_equity''],
      ci_metadata = []\<rparr>"

definition plain_env :: equity_env where
  "plain_env = \<lparr>eq_json_depth = 128, eq_nfc = (\<lambda>s. True), eq_redact = (\<lambda>j. j), eq_parse_case = (\<lambda>j. None)\<rparr>"

lemma river_range_ok: "range_definition_ok river_range"
  using sample_range_ids
  by (simp add: range_definition_ok_def river_range_def sample_range_def range_source_ok_def
      range_conditions_ok_def sample_notation_def RANGE_SCHEMA_VERSION_def RANGE_GRAMMAR_ID_def
      RANGE_GRAMMAR_VERSION_def MAX_RANGE_ACTION_PREFIX_def)

lemma river_hand_ok:
  assumes "hero \<noteq> []" "hero \<noteq> ''villain''"
  shows "ranged_hand_ok (ranged_hand.truncate (river_hand hero))"
  using assms river_range_ok
  by (simp add: ranged_hand_ok_def river_hand_def canonical_hand_ok_def canonical_hand.truncate_def
      ranged_hand.truncate_def player_stack_ok_def validate_game_context_def hand_action_ok_def river_bet_def)

lemma river_plain:
  assumes "hero \<noteq> []" "hero \<noteq> ''villain''"
  shows "plain_candidate plain_env (river_case hero)"
proof -
  have "case_ok (river_case hero)"
    using river_hand_ok [OF assms]
    by (simp add: case_ok_def river_case_def safe_tool_names_def require_input_def alnum_char_def)
  moreover have "serializes plain_env (json_of_case (river_case hero))"
    by (simp add: serializes_def plain_env_def json_of_case_def river_case_def json_of_hand_def river_hand_def
        json_of_player_def json_of_action_def river_bet_def json_of_range_def river_range_def
        json_of_source_def json_of_conditions_def sample_range_def jopt_def jstr_def)
  ultimately show ?thesis by (simp add: plain_candidate_def plain_env_def river_case_def)
qed

lemma river_seven: "distinct (h_hero_cards (river_hand hero) @ h_board (river_hand hero))"
  "set (h_hero_cards (river_hand hero) @ h_board (river_hand hero)) \<subseteq> set DECK"
  by (simp_all add: river_hand_def DECK_def RANKS_def SUITS_def)

lemma river_decision: "decision_point (river_hand hero) river_range"
proof -
  let ?ps = "h_players (river_hand hero)"
  have "{Some (ps_player_id p) |p. p \<in> set ?ps \<and>
      \<not> (\<exists>a\<in>set ([] @ [river_bet]). ha_action a = Fold \<and> ha_actor a = ps_player_id p)} =
    (\<lambda>p. Some (ps_player_id p)) ` set ?ps"
    by (auto simp: river_bet_def)
  also have "\<dots> = {h_hero_player_id (river_hand hero), Some (rg_target_player_id river_range)}"
    by (simp add: river_hand_def river_range_def sample_range_def)
  finally have e: "{Some (ps_player_id p) |p. p \<in> set ?ps \<and>
      \<not> (\<exists>a\<in>set ([] @ [river_bet]). ha_action a = Fold \<and> ha_actor a = ps_player_id p)} =
    {h_hero_player_id (river_hand hero), Some (rg_target_player_id river_range)}" .
  have "h_actions (river_hand hero) = [] @ river_bet # []" by (simp add: river_hand_def)
  moreover have "rc_street (rg_game_conditions river_range) = River" "rc_format (rg_game_conditions river_range) = Cash"
    "int (length ([] :: hand_action list)) + 1 = rc_as_of_action_index (rg_game_conditions river_range)"
    "ha_street river_bet = River" "ha_actor river_bet = rg_target_player_id river_range" "ha_action river_bet \<in> {Bet, Raise}"
    by (simp_all add: river_range_def river_bet_def sample_range_def)
  ultimately show ?thesis unfolding decision_point_def using e by blast
qed

lemma river_tokens: "range_tokens river_range = range_tokens sample_range"
  by (simp add: range_tokens_def river_range_def)

lemma river_items: "range_items river_range = range_items sample_range"
  by (simp add: range_items_def river_tokens)

lemma river_clean: "clean_notation river_range"
  using sample_clean by (simp only: clean_notation_def river_items river_tokens)

lemma river_survivors: "canonical_items river_range
    [''Kc'', ''2d'', ''Qh'', ''Jh'', ''3c'', ''7d'', ''9s''] \<noteq> []"
proof -
  have "((''As'', ''Kd''), 500000) \<in> set (canonical_items river_range
    [''Kc'', ''2d'', ''Qh'', ''Jh'', ''3c'', ''7d'', ''9s''])"
    by (simp add: canonical_items_def surviving_combos_def river_items sample_items)
  then show ?thesis by (metis empty_iff empty_set)
qed

lemma river_admitted:
  assumes "hero \<noteq> ''villain''"
  shows "\<exists>ch. range_admitted (ranged_hand.truncate (river_hand hero)) river_range ch
    [''Kc'', ''2d'', ''Qh'', ''Jh'', ''3c'', ''7d'', ''9s'']"
proof -
  let ?h = "ranged_hand.truncate (river_hand hero)"
  let ?v = "\<lparr>ps_player_id = ''villain'', ps_position = ''BB'', ps_starting_stack = 200\<rparr>"
  have h: "h_hero_player_id ?h = Some hero" "h_game_type ?h = NLHE" "h_format ?h = Cash"
    "h_table_size ?h = 2" "h_actions ?h = [river_bet]" "h_board ?h = [''Qh'', ''Jh'', ''3c'', ''7d'', ''9s'']"
    "h_hero_cards ?h = [''Kc'', ''2d'']" "observed_street ?h 1 = River" "player_of ?h ''villain'' = Some ?v"
    "versioned_ranges ?h = [river_range]"
    by (simp_all add: ranged_hand.truncate_def river_hand_def observed_street_def river_bet_def player_of_def
        versioned_ranges_def)
  have prefix: "action_prefix_sha256 ?h 1 = Some (canonical_sha256 (JList [json_of_action river_bet]))"
    by (simp add: action_prefix_sha256_def h MAX_RANGE_ACTION_PREFIX_def)
  have "dec_round (of_int 200000) = of_int 200000" "dec_round (of_int 100000) = of_int 100000"
    by (rule dec_round_of_int; simp)+
  then have stack: "stack_bb_milli ?h ?v = 100000"
    by (simp add: stack_bb_milli_def dec_mul_def dec_div_def ranged_hand.truncate_def river_hand_def)
  have d: "rg_target_player_id river_range = ''villain''"
    "rc_game_type (rg_game_conditions river_range) = NLHE" "rc_format (rg_game_conditions river_range) = Cash"
    "rc_table_size (rg_game_conditions river_range) = 2"
    "rc_target_position (rg_game_conditions river_range) = ''BB''"
    "rc_street (rg_game_conditions river_range) = River"
    "rc_starting_stack_min_bb_milli (rg_game_conditions river_range) = 100000"
    "rc_starting_stack_max_bb_milli (rg_game_conditions river_range) = 100000"
    "rc_as_of_action_index (rg_game_conditions river_range) = 1"
    "rc_action_prefix_sha256 (rg_game_conditions river_range) = canonical_sha256 (JList [json_of_action river_bet])"
    by (simp_all add: river_range_def sample_range_def)
  have cards: "normalize_cards ([''Kc'', ''2d''] @ take 5 [''Qh'', ''Jh'', ''3c'', ''7d'', ''9s'']) True =
      Inr [''Kc'', ''2d'', ''Qh'', ''Jh'', ''3c'', ''7d'', ''9s'']"
    using deck_normal_list [OF river_seven [of hero]] by (simp add: river_hand_def)
  have "\<exists>ch. condition_binding ?h river_range = (Some ch, [''Kc'', ''2d'', ''Qh'', ''Jh'', ''3c'', ''7d'', ''9s''], None)"
    unfolding condition_binding_def Let_def d h option.case prefix stack visible_board_count.simps cards sum.case
    using assms by simp
  moreover have "rg_notation river_range = sample_notation"
    "rs_content_sha256 (rg_source river_range) = sha256_hex (utf8 sample_notation)"
    by (simp_all add: river_range_def sample_range_def)
  moreover have "printable_ascii sample_notation" "length (utf8 sample_notation) \<le> MAX_RANGE_NOTATION_BYTES"
    by (simp_all add: printable_ascii_def sample_notation_def utf8_def MAX_RANGE_NOTATION_BYTES_def)
  ultimately show ?thesis unfolding range_admitted_def using h(10) by simp
qed

lemma river_validates:
  assumes "hero \<noteq> ''villain''"
  shows "\<exists>r. validate_versioned_range (ranged_hand.truncate (river_hand hero)) river_range = Inr r \<and>
    rr_status r = Range_success"
proof -
  obtain ch where a: "range_admitted (ranged_hand.truncate (river_hand hero)) river_range ch
    [''Kc'', ''2d'', ''Qh'', ''Jh'', ''3c'', ''7d'', ''9s'']" using river_admitted [OF assms] by blast
  show ?thesis
  proof (cases rule: validate_cases [OF river_range_ok, of "ranged_hand.truncate (river_hand hero)"])
    case (1 r)
    with a river_clean river_survivors show ?thesis by blast
  qed (auto simp: succeeds_with_def)
qed

lemma river_admissible:
  assumes "hero \<noteq> []" "hero \<noteq> ''villain''"
  shows "admissible plain_env (river_case hero)"
proof -
  have "admissible_hand (river_hand hero) river_range"
    using river_seven [of hero] river_decision [of hero] river_validates [OF assms(2)]
    unfolding admissible_hand_def by (simp add: river_hand_def)
  then show ?thesis unfolding admissible_def using river_plain [OF assms] by (auto simp: river_case_def)
qed

lemma river_ids: "range_portable_id ''hero''" "\<not> range_portable_id ''hero 1''"
proof -
  show "range_portable_id ''hero''"
    unfolding range_portable_id_def RANGE_ID_PATTERN_def
    by (rule fullmatch_head_tail) (simp_all add: alnum_chars_def lower_chars_def upper_chars_def digit_chars_def)
  show "\<not> range_portable_id ''hero 1''" by code_simp
qed

end
