(* ===== verification/RangeEquityProps.thy ===== *)
theory RangeEquityProps
  imports RangeEquitySample
begin

text \<open>
  The properties of the equity bridge: what an admitted case computes, and when a case is admitted.
\<close>

lemma oracle_of_totals:
  assumes "equity_computed h d r t payload" "h_hero_player_id h = Some hero" "range_portable_id hero"
    and "equity_binding_ok b" "eb_oracle_sha256 b = equity_sha256 ORACLE_HASH_DOMAIN payload"
    and "range_definition_ok d" "length (h_hero_cards h) = 2" "length (h_board h) = 5"
  shows "\<exists>p. project_oracle b h d r t (equity_sha256 ORACLE_HASH_DOMAIN payload) = Inr p \<and>
    oracle_projection_ok p \<and> op_binding_sha256 p = eb_binding_sha256 b \<and>
    (op_win_combo_count p, op_tie_combo_count p, op_loss_combo_count p) =
      (ot_win_combo_count t, ot_tie_combo_count t, ot_loss_combo_count t) \<and>
    (op_win_weight_millionths p, op_tie_weight_millionths p, op_loss_weight_millionths p) =
      (ot_win_weight_millionths t, ot_tie_weight_millionths t, ot_loss_weight_millionths t) \<and>
    op_total_weight_millionths p = rr_total_weight_millionths r \<and>
    quotient_of (ot_equity t) = (op_equity_numerator p, op_equity_denominator p)"
proof -
  let ?hc = "h_hero_cards h" and ?bd = "h_board h"
  obtain v where v: "best_five (set ?hc \<union> set ?bd) v" using assms(1) unfolding equity_computed_def by blast
  have k: "canonical_known_cards h = Inr (?hc, ?bd)" and R: "river_result ?bd r"
    and t: "t = totals_of ?hc ?bd (rr_combos r)
       (Fract (2 * weight_where (hero_wins ?hc ?bd) (rr_combos r) + weight_where (hero_ties ?hc ?bd) (rr_combos r))
         (2 * rr_total_weight_millionths r))"
    using assms(1) unfolding equity_computed_def by blast+
  have faces: "list_all (faces ?bd) (rr_combos r)" using R by (simp add: river_result_def)
  then have ok: "list_all weighted_combo_ok (rr_combos r)" by (auto simp: list_all_iff faces_def)
  note part = outcomes_partition [OF v faces known_cards_seven(6) [OF k assms(7,8)] assms(8)]
  note pos = where_nonneg [OF ok]
  note w = river_weights [OF R]
  have sums: "combos_where (hero_wins ?hc ?bd) (rr_combos r) + combos_where (hero_ties ?hc ?bd) (rr_combos r)
      + combos_where (hero_loses ?hc ?bd) (rr_combos r) = rr_combo_count r"
    "weight_where (hero_wins ?hc ?bd) (rr_combos r) + weight_where (hero_ties ?hc ?bd) (rr_combos r)
      + weight_where (hero_loses ?hc ?bd) (rr_combos r) = rr_total_weight_millionths r"
    "rr_combo_count r \<le> RANGE_EQUITY_MAX_EVALUATIONS"
    using part R by (simp_all add: river_result_def)
  obtain num den where q: "quotient_of (ot_equity t) = (num, den)" by (cases "quotient_of (ot_equity t)") auto
  have den: "0 < den" using quotient_of_denom_pos [OF q] .
  have "0 \<le> ot_equity t" unfolding t totals_of_def using pos w(3) by (simp add: zero_le_Fract_iff)
  moreover have "ot_equity t = of_int num / of_int den" by (rule quotient_of_div [OF q])
  ultimately have num: "0 \<le> num" using den by (simp add: zero_le_divide_iff)
  define p where "p = \<lparr>op_binding_sha256 = eb_binding_sha256 b,
      op_oracle_sha256 = equity_sha256 ORACLE_HASH_DOMAIN payload, op_range_id = rg_range_id d,
      op_target_player_id = rg_target_player_id d, op_hero_player_id = hero,
      op_combo_count = rr_combo_count r, op_total_weight_millionths = rr_total_weight_millionths r,
      op_win_combo_count = ot_win_combo_count t, op_tie_combo_count = ot_tie_combo_count t,
      op_loss_combo_count = ot_loss_combo_count t, op_win_weight_millionths = ot_win_weight_millionths t,
      op_tie_weight_millionths = ot_tie_weight_millionths t,
      op_loss_weight_millionths = ot_loss_weight_millionths t,
      op_equity_numerator = num, op_equity_denominator = den\<rparr>"
  have "oracle_projection_ok p"
  proof -
    have "range_portable_id (rg_range_id d)" "range_portable_id (rg_target_player_id d)"
      using assms(6) by (simp_all add: range_definition_ok_def)
    moreover have "is_sha256 (eb_binding_sha256 b)"
      using assms(4) by (simp add: equity_binding_ok_def binding_hash_def)
    moreover have "combos_where P (rr_combos r) \<le> RANGE_EQUITY_MAX_EVALUATIONS"
      if "combos_where P (rr_combos r) \<le> rr_combo_count r" for P using that sums(3) by linarith
    moreover have "quotient_of (Fract (2 * ot_win_weight_millionths t + ot_tie_weight_millionths t)
        (2 * rr_total_weight_millionths r)) = (num, den)"
      using q unfolding t totals_of_def by simp
    ultimately show ?thesis
      unfolding oracle_projection_ok_def p_def using assms(3) den num w sums pos
      by (simp add: t totals_of_def between_def)
        (smt (verit) pos(1) pos(2) w(4))
  qed
  then have "project_oracle b h d r t (equity_sha256 ORACLE_HASH_DOMAIN payload) = Inr p"
    using assms(2,5) by (simp add: project_oracle_def p_def q)
  then show ?thesis using \<open>oracle_projection_ok p\<close> by (auto simp: p_def q)
qed

lemma fraction_le_1: "x \<le> y \<Longrightarrow> 0 < y \<Longrightarrow> (of_int x / of_int y :: rat) \<le> 1"
  by (simp add: divide_le_eq_1_pos)

lemma exact_numbers:
  assumes "equity_computed h d r t payload" "length (h_hero_cards h) = 2" "length (h_board h) = 5"
    and "quotient_of (ot_equity t) = (num, den)"
  defines "wins \<equiv> hero_wins (h_hero_cards h) (h_board h)" and "ties \<equiv> hero_ties (h_hero_cards h) (h_board h)"
    and "losses \<equiv> hero_loses (h_hero_cards h) (h_board h)"
  shows "combos_where wins (rr_combos r) + combos_where ties (rr_combos r) + combos_where losses (rr_combos r)
      = int (length (rr_combos r))"
    and "weight_where wins (rr_combos r) + weight_where ties (rr_combos r) + weight_where losses (rr_combos r)
      = rr_total_weight_millionths r"
    and "coprime num den"
    and "of_int num / of_int den = (of_int (2 * weight_where wins (rr_combos r) + weight_where ties (rr_combos r))
      / of_int (2 * rr_total_weight_millionths r) :: rat)"
    and "num \<le> den"
proof -
  obtain v where v: "best_five (set (h_hero_cards h) \<union> set (h_board h)) v"
    using assms(1) unfolding equity_computed_def by blast
  have k: "canonical_known_cards h = Inr (h_hero_cards h, h_board h)" and R: "river_result (h_board h) r"
    and t: "t = totals_of (h_hero_cards h) (h_board h) (rr_combos r)
       (Fract (2 * weight_where wins (rr_combos r) + weight_where ties (rr_combos r))
         (2 * rr_total_weight_millionths r))"
    using assms(1) unfolding equity_computed_def wins_def ties_def by blast+
  have faces: "list_all (faces (h_board h)) (rr_combos r)" using R by (simp add: river_result_def)
  then have ok: "list_all weighted_combo_ok (rr_combos r)" by (auto simp: list_all_iff faces_def)
  note part = outcomes_partition [OF v faces known_cards_seven(6) [OF k assms(2,3)] assms(3)]
  show "combos_where wins (rr_combos r) + combos_where ties (rr_combos r) + combos_where losses (rr_combos r)
      = int (length (rr_combos r))"
    using part(1) by (simp add: wins_def ties_def losses_def)
  show total: "weight_where wins (rr_combos r) + weight_where ties (rr_combos r) + weight_where losses (rr_combos r)
      = rr_total_weight_millionths r"
    using part(2) R by (simp add: wins_def ties_def losses_def river_result_def)
  show "coprime num den" by (rule quotient_of_coprime [OF assms(4)])
  have den: "0 < den" by (rule quotient_of_denom_pos [OF assms(4)])
  have eq: "of_int num / of_int den = (of_int (2 * weight_where wins (rr_combos r) + weight_where ties (rr_combos r))
      / of_int (2 * rr_total_weight_millionths r) :: rat)"
    using quotient_of_div [OF assms(4)] by (simp add: t totals_of_def Fract_of_int_quotient)
  then show "of_int num / of_int den = (of_int (2 * weight_where wins (rr_combos r) + weight_where ties (rr_combos r))
      / of_int (2 * rr_total_weight_millionths r) :: rat)" .
  have "2 * weight_where wins (rr_combos r) + weight_where ties (rr_combos r) \<le> 2 * rr_total_weight_millionths r"
    using total where_nonneg(2) [OF ok, of ties] where_nonneg(2) [OF ok, of losses] by linarith
  moreover have "0 < rr_total_weight_millionths r" using river_weights(3) [OF R] by linarith
  ultimately have "(of_int (2 * weight_where wins (rr_combos r) + weight_where ties (rr_combos r))
      / of_int (2 * rr_total_weight_millionths r) :: rat) \<le> 1"
    by (intro fraction_le_1) simp_all
  then have "(of_int num :: rat) \<le> of_int den" unfolding eq [symmetric] using den by (simp add: divide_le_eq_1_pos)
  then show "num \<le> den" by simp
qed

lemma admitted_oracle:
  assumes "admit_case env c = Inr a"
  obtains h d r t payload p where "ci_hand c = Some h" "admissible_hand h d" "equity_computed h d r t payload"
    "exact_oracle env (ad_case a) = Inr p" "oracle_projection_ok p"
    "op_binding_sha256 p = eb_binding_sha256 (ad_binding a)"
    "(op_win_combo_count p, op_tie_combo_count p, op_loss_combo_count p) =
      (ot_win_combo_count t, ot_tie_combo_count t, ot_loss_combo_count t)"
    "(op_win_weight_millionths p, op_tie_weight_millionths p, op_loss_weight_millionths p) =
      (ot_win_weight_millionths t, ot_tie_weight_millionths t, ot_loss_weight_millionths t)"
    "quotient_of (ot_equity t) = (op_equity_numerator p, op_equity_denominator p)"
proof -
  have adm: "admissible env c"
    using admit_case_refuses [of env c] assms by (auto simp: refused_typed_def bridge_fail_def)
  from admit_case_computed [OF this] obtain h d hero r t payload where
      h: "ci_hand c = Some h" "admissible_hand h d" "h_hero_player_id h = Some hero"
    and pc: "plain_candidate env c" and one: "one_definition c = Inr (h, d)"
    and e: "equity_computed h d r t payload"
    and run: "admit_case env c = bindE (new_equity_binding c h d r payload) (\<lambda>b.
       Inr \<lparr>ad_candidate = c, ad_binding = b, ad_case = with_marker c b\<rparr>)"
    and nb: "if range_portable_id hero then \<exists>b. new_equity_binding c h d r payload = Inr b \<and> equity_binding_ok b \<and>
        eb_oracle_sha256 b = equity_sha256 ORACLE_HASH_DOMAIN payload
     else new_equity_binding c h d r payload = Inl Raw_validation_error" .
  have portable: "range_portable_id hero"
    using nb run assms by (cases "range_portable_id hero") auto
  with nb obtain b where b: "new_equity_binding c h d r payload = Inr b" "equity_binding_ok b"
    "eb_oracle_sha256 b = equity_sha256 ORACLE_HASH_DOMAIN payload" by auto
  have a: "a = \<lparr>ad_candidate = c, ad_binding = b, ad_case = with_marker c b\<rparr>" using run b(1) assms by simp
  have len: "length (h_hero_cards h) = 2" "length (h_board h) = 5" using h(2) by (simp_all add: admissible_hand_def)
  have "case_ok c" using pc by (simp add: plain_candidate_def)
  note dok = case_range_ok [OF this one]
  obtain p where p: "project_oracle b h d r t (equity_sha256 ORACLE_HASH_DOMAIN payload) = Inr p"
    "oracle_projection_ok p" "op_binding_sha256 p = eb_binding_sha256 b"
    "(op_win_combo_count p, op_tie_combo_count p, op_loss_combo_count p) =
      (ot_win_combo_count t, ot_tie_combo_count t, ot_loss_combo_count t)"
    "(op_win_weight_millionths p, op_tie_weight_millionths p, op_loss_weight_millionths p) =
      (ot_win_weight_millionths t, ot_tie_weight_millionths t, ot_loss_weight_millionths t)"
    "op_total_weight_millionths p = rr_total_weight_millionths r"
    "quotient_of (ot_equity t) = (op_equity_numerator p, op_equity_denominator p)"
    using oracle_of_totals [OF e h(3) portable b(2,3) dok len] by blast
  have E: "validate_versioned_range (ranged_hand.truncate h) d = Inr r"
    "canonical_known_cards h = Inr (h_hero_cards h, h_board h)"
    "equity_totals (h_hero_cards h) (h_board h) r = Inr t"
    "oracle_payload h d r (h_hero_cards h) (h_board h) t = Inr payload"
    using e unfolding equity_computed_def by blast+
  have "readmit env (with_marker c b) b = Inr ()"
    using assms by (simp add: readmit_def marker_read_back(2) [OF pc b(2)] a same_case_def)
  then have orc: "exact_oracle env (ad_case a) = Inr p"
    by (simp add: a exact_oracle_def marker_read_back [OF pc b(2)] one E lift_err_def p(1))
  then show thesis using that [OF h(1,2) e orc p(2) _ p(4,5,7)] p(3) by (simp add: a)
qed

lemma admit_portable:
  assumes "admissible env c" "portable_hero c"
  shows "\<exists>a. admit_case env c = Inr a"
proof -
  obtain h d hero r t payload where h: "ci_hand c = Some h" "h_hero_player_id h = Some hero"
    and run: "admit_case env c = bindE (new_equity_binding c h d r payload) (\<lambda>b.
       Inr \<lparr>ad_candidate = c, ad_binding = b, ad_case = with_marker c b\<rparr>)"
    and nb: "if range_portable_id hero then \<exists>b. new_equity_binding c h d r payload = Inr b \<and> equity_binding_ok b \<and>
        eb_oracle_sha256 b = equity_sha256 ORACLE_HASH_DOMAIN payload
     else new_equity_binding c h d r payload = Inl Raw_validation_error"
    by (rule admit_case_computed [OF assms(1)]) blast
  have "range_portable_id hero" using assms(2) h by (simp add: portable_hero_def)
  with run nb show ?thesis by auto
qed

text \<open>
  C29: an admitted case yields its exact equity.  The oracle of the case returns a projection that
  satisfies its validator; it counts the combos of the validated range that the hero's hand beats,
  ties and loses to by the rules of poker on the full board, and adds up their weights; the three
  parts cover the range, and the reported fraction in lowest terms is
  (2 win weight + tie weight) / (2 total weight), between zero and one.
\<close>

theorem admitted_equity_is_exact:
  assumes "admit_case env c = Inr a"
  shows "\<exists>h d r p. ci_hand c = Some h \<and> h_known_ranges h = [Versioned_range d] \<and>
    validate_versioned_range (ranged_hand.truncate h) d = Inr r \<and> rr_status r = Range_success \<and>
    exact_oracle env (ad_case a) = Inr p \<and> oracle_projection_ok p \<and>
    op_binding_sha256 p = eb_binding_sha256 (ad_binding a) \<and>
    (let wins = hero_wins (h_hero_cards h) (h_board h); ties = hero_ties (h_hero_cards h) (h_board h);
         losses = hero_loses (h_hero_cards h) (h_board h); combos = rr_combos r;
         total = rr_total_weight_millionths r in
      op_win_combo_count p = combos_where wins combos \<and> op_tie_combo_count p = combos_where ties combos \<and>
      op_loss_combo_count p = combos_where losses combos \<and>
      op_win_weight_millionths p = weight_where wins combos \<and>
      op_tie_weight_millionths p = weight_where ties combos \<and>
      op_loss_weight_millionths p = weight_where losses combos \<and>
      combos_where wins combos + combos_where ties combos + combos_where losses combos = int (length combos) \<and>
      weight_where wins combos + weight_where ties combos + weight_where losses combos = total \<and>
      coprime (op_equity_numerator p) (op_equity_denominator p) \<and>
      of_int (op_equity_numerator p) / of_int (op_equity_denominator p) =
        (of_int (2 * weight_where wins combos + weight_where ties combos) / of_int (2 * total) :: rat) \<and>
      op_equity_numerator p \<le> op_equity_denominator p)"
proof -
  obtain h d r t payload p where h: "ci_hand c = Some h" "admissible_hand h d" "equity_computed h d r t payload"
    and p: "exact_oracle env (ad_case a) = Inr p" "oracle_projection_ok p"
      "op_binding_sha256 p = eb_binding_sha256 (ad_binding a)"
      "(op_win_combo_count p, op_tie_combo_count p, op_loss_combo_count p) =
        (ot_win_combo_count t, ot_tie_combo_count t, ot_loss_combo_count t)"
      "(op_win_weight_millionths p, op_tie_weight_millionths p, op_loss_weight_millionths p) =
        (ot_win_weight_millionths t, ot_tie_weight_millionths t, ot_loss_weight_millionths t)"
      "quotient_of (ot_equity t) = (op_equity_numerator p, op_equity_denominator p)"
    by (rule admitted_oracle [OF assms])
  have H: "h_known_ranges h = [Versioned_range d]" "length (h_hero_cards h) = 2" "length (h_board h) = 5"
    using h(2) by (simp_all add: admissible_hand_def)
  have V: "validate_versioned_range (ranged_hand.truncate h) d = Inr r" "rr_status r = Range_success"
    using h(3) by (simp_all add: equity_computed_def river_result_def)
  obtain e where t: "t = totals_of (h_hero_cards h) (h_board h) (rr_combos r) e"
    using h(3) unfolding equity_computed_def by blast
  show ?thesis unfolding Let_def
    using h(1) H(1) V p exact_numbers [OF h(3) H(2,3) p(6)] unfolding t totals_of_def
    by (intro exI [of _ h] exI [of _ d] exI [of _ r] exI [of _ p]) simp
qed

theorem admitted_equity_is_exact_witness:
  "\<exists>a p. admit_case plain_env (river_case ''hero'') = Inr a \<and> exact_oracle plain_env (ad_case a) = Inr p \<and>
     oracle_projection_ok p \<and> op_equity_numerator p \<le> op_equity_denominator p"
proof -
  have "portable_hero (river_case ''hero'')"
    using river_ids(1) by (simp add: portable_hero_def river_case_def river_hand_def)
  then obtain a where a: "admit_case plain_env (river_case ''hero'') = Inr a"
    using admit_portable [OF river_admissible] by fastforce
  from admitted_equity_is_exact [OF a] a show ?thesis unfolding Let_def by blast
qed

text \<open>
  C39: what admission decides.  A case is admitted, unchanged but for the marker that carries a
  valid binding, exactly if it is admissible and the hero has a portable id; if it is not admissible
  the answer is a \<open>VersionedRangeRiverEquityError\<close> with one of nine codes; and an admissible case
  whose hero id is not portable makes pydantic's own \<open>ValidationError\<close> escape.  The limit of 990
  evaluations is never what refuses a case, and no other exception is possible.
\<close>

theorem admission_decides:
  "case admit_case env c of
     Inr a \<Rightarrow> admissible env c \<and> portable_hero c \<and> ad_candidate a = c \<and>
       equity_binding_ok (ad_binding a) \<and> ad_case a = with_marker c (ad_binding a)
   | Inl (Bridge_error code place) \<Rightarrow> \<not> admissible env c \<and> code \<in> admission_codes
   | Inl Raw_validation_error \<Rightarrow> admissible env c \<and> \<not> portable_hero c
   | Inl (Raw_range_error crash) \<Rightarrow> False
   | Inl (Raw_card_error problem) \<Rightarrow> False"
proof (cases "admissible env c")
  case False
  then show ?thesis using admit_case_refuses [OF False] by (auto simp: refused_typed_def bridge_fail_def)
next
  case True
  from admit_case_computed [OF this] obtain h d hero r payload where
      h: "ci_hand c = Some h" "h_hero_player_id h = Some hero"
    and run: "admit_case env c = bindE (new_equity_binding c h d r payload) (\<lambda>b.
       Inr \<lparr>ad_candidate = c, ad_binding = b, ad_case = with_marker c b\<rparr>)"
    and nb: "if range_portable_id hero then \<exists>b. new_equity_binding c h d r payload = Inr b \<and> equity_binding_ok b \<and>
        eb_oracle_sha256 b = equity_sha256 ORACLE_HASH_DOMAIN payload
     else new_equity_binding c h d r payload = Inl Raw_validation_error" .
  have "portable_hero c \<longleftrightarrow> range_portable_id hero" using h by (simp add: portable_hero_def)
  with True run nb show ?thesis by (cases "range_portable_id hero") auto
qed

theorem admission_decides_witness:
  "admit_case plain_env (river_case ''hero 1'') = Inl Raw_validation_error"
proof -
  have a: "admissible plain_env (river_case ''hero 1'')" by (rule river_admissible) simp_all
  have "\<not> portable_hero (river_case ''hero 1'')"
    using river_ids(2) by (simp add: portable_hero_def river_case_def river_hand_def)
  with a admission_decides [of plain_env "river_case ''hero 1''"] show ?thesis
    by (cases "admit_case plain_env (river_case ''hero 1'')") (auto split: equity_error.splits)
qed

end
