(* ===== verification/ObjectTrees.thy ===== *)
theory ObjectTrees
  imports RangeEquity
begin

text \<open>
  The guards of \<open>range_equity.py\<close> that look at Python objects before anything recursive does:
  \<open>_json_tree_depth_is_supported\<close>, \<open>_nfc_tree\<close> and \<open>_require_supported_replay_trees\<close>.  Objects live on
  a heap, where containers may be shared and may contain themselves; both loops keep a worklist and
  the identities of the containers they have seen.  They are partial functions: that they return is
  a theorem.
\<close>

section \<open>Objects\<close>

datatype pyobj =
  Text_obj string
| Container nat
  \<comment> \<open>a dictionary, list or tuple by its identity\<close>
| Plain_obj
  \<comment> \<open>a number, a boolean or \<open>None\<close>\<close>

datatype container =
  Mapping_obj "(pyobj \<times> pyobj) list"
| Sequence_obj "pyobj list"

type_synonym object_heap = "container list"

definition children :: "object_heap \<Rightarrow> nat \<Rightarrow> pyobj list" where
  \<comment> \<open>what a container adds to the worklist: the keys and the values, or the items\<close>
  "children h a =
     (if a < length h
      then (case h ! a of Mapping_obj kvs \<Rightarrow> map fst kvs @ map snd kvs | Sequence_obj xs \<Rightarrow> xs) else [])"

section \<open>The two loops\<close>

partial_function (option) depth_loop ::
    "nat \<Rightarrow> object_heap \<Rightarrow> (pyobj \<times> nat) list \<Rightarrow> nat list \<Rightarrow> bool option" where
  "depth_loop m h pending seen =
     (if pending = [] then Some True
      else (let item = fst (last pending); depth = snd (last pending); rest = butlast pending in
        if m < depth then Some False
        else (case item of
            Container a \<Rightarrow>
              if a \<in> set seen then Some False
              else depth_loop m h (rest @ map (\<lambda>x. (x, Suc depth)) (children h a)) (a # seen)
          | _ \<Rightarrow> depth_loop m h rest seen)))"

definition json_tree_depth_is_supported :: "nat \<Rightarrow> object_heap \<Rightarrow> pyobj \<Rightarrow> bool option" where
  "json_tree_depth_is_supported maximum_depth h value = depth_loop maximum_depth h [(value, 0)] []"

partial_function (option) nfc_loop ::
    "(string \<Rightarrow> bool) \<Rightarrow> object_heap \<Rightarrow> pyobj list \<Rightarrow> nat list \<Rightarrow> bool option" where
  "nfc_loop nfc h pending seen =
     (if pending = [] then Some True
      else (let item = last pending; rest = butlast pending in
        case item of
            Text_obj s \<Rightarrow> if \<not> nfc s then Some False else nfc_loop nfc h rest seen
          | Container a \<Rightarrow>
              if a \<in> set seen then Some False
              else nfc_loop nfc h (rest @ children h a) (a # seen)
          | Plain_obj \<Rightarrow> nfc_loop nfc h rest seen))"

definition nfc_tree :: "(string \<Rightarrow> bool) \<Rightarrow> object_heap \<Rightarrow> pyobj \<Rightarrow> bool option" where
  "nfc_tree nfc h value = nfc_loop nfc h [value] []"

definition SUPPORTED_DEPTH :: nat where "SUPPORTED_DEPTH = 128"

definition unsupported :: "object_heap \<Rightarrow> pyobj \<Rightarrow> bool option" where
  "unsupported h value = map_option Not (json_tree_depth_is_supported SUPPORTED_DEPTH h value)"

fun unsupported_result :: "object_heap \<Rightarrow> (string \<times> pyobj \<times> pyobj) list \<Rightarrow> (equity_error + unit) option" where
  \<comment> \<open>the loop over the tool results, each its name, input and output\<close>
  "unsupported_result h [] = Some (Inr ())"
| "unsupported_result h ((name, inp, outp) # results) =
     Option.bind (unsupported h inp) (\<lambda>bad. if bad then Some (bridge_fail REQ_CHAIN (name @ ''.input''))
       else Option.bind (unsupported h outp) (\<lambda>bad. if bad then Some (bridge_fail REQ_CHAIN (name @ ''.output''))
         else unsupported_result h results))"

definition require_supported_replay_trees ::
    "object_heap \<Rightarrow> pyobj \<Rightarrow> (string \<times> pyobj \<times> pyobj) list \<Rightarrow> (equity_error + unit) option" where
  "require_supported_replay_trees h metadata results =
     Option.bind (unsupported h metadata) (\<lambda>bad.
       if bad then Some (bridge_fail REQ_SCHEMA ''case.metadata'') else unsupported_result h results)"

section \<open>What a value unfolds to\<close>

datatype tree = Leaf pyobj | Node nat "tree list"

fun unfolds_to :: "object_heap \<Rightarrow> pyobj \<Rightarrow> tree \<Rightarrow> bool" where
  "unfolds_to h v (Leaf x) \<longleftrightarrow> v = x \<and> (\<forall>a. x \<noteq> Container a)"
| "unfolds_to h v (Node a ts) \<longleftrightarrow> v = Container a \<and> list_all2 (unfolds_to h) (children h a) ts"

fun containers :: "tree \<Rightarrow> nat list" where
  "containers (Leaf x) = []"
| "containers (Node a ts) = a # concat (map containers ts)"

fun height :: "tree \<Rightarrow> nat" where
  \<comment> \<open>the depth of the deepest object\<close>
  "height (Leaf x) = 0"
| "height (Node a ts) = fold (\<lambda>t n. max (Suc (height t)) n) ts 0"

fun texts :: "tree \<Rightarrow> string list" where
  "texts (Leaf x) = (case x of Text_obj s \<Rightarrow> [s] | _ \<Rightarrow> [])"
| "texts (Node a ts) = concat (map texts ts)"

definition unshared_tree :: "object_heap \<Rightarrow> pyobj \<Rightarrow> tree \<Rightarrow> bool" where
  \<comment> \<open>the value is this finite tree, and no container occurs twice in it\<close>
  "unshared_tree h v t \<longleftrightarrow> unfolds_to h v t \<and> distinct (containers t)"

fun fits :: "(pyobj \<Rightarrow> nat \<Rightarrow> bool) \<Rightarrow> nat \<Rightarrow> tree \<Rightarrow> bool" where
  "fits ok d (Leaf x) \<longleftrightarrow> ok x d"
| "fits ok d (Node a ts) \<longleftrightarrow> ok (Container a) d \<and> list_all (fits ok (Suc d)) ts"

section \<open>A walk that terminates\<close>

function walk :: "(pyobj \<Rightarrow> nat \<Rightarrow> bool) \<Rightarrow> object_heap \<Rightarrow> (pyobj \<times> nat) list \<Rightarrow> nat list \<Rightarrow> bool" where
  "walk ok h pending seen =
     (if pending = [] then True
      else if \<not> ok (fst (last pending)) (snd (last pending)) then False
      else (case fst (last pending) of
          Container a \<Rightarrow>
            if a \<in> set seen then False
            else walk ok h (butlast pending @ map (\<lambda>x. (x, Suc (snd (last pending)))) (children h a)) (a # seen)
        | _ \<Rightarrow> walk ok h (butlast pending) seen))"
  by pat_completeness auto
termination
proof (relation "measures [\<lambda>(ok, h, pending, seen). card ({..<length h} - set seen), \<lambda>(ok, h, pending, seen). length pending]", goal_cases)
  case (3 ok h pending seen a)
  have new: "a \<notin> set seen" by (rule 3(4))
  show ?case
  proof (cases "a < length h")
    case True
    have "{..<length h} - set (a # seen) \<subset> {..<length h} - set seen" using True new by auto
    then have "card ({..<length h} - set (a # seen)) < card ({..<length h} - set seen)"
      by (rule psubset_card_mono [rotated]) simp
    then show ?thesis by simp
  next
    case False
    then have "{..<length h} - set (a # seen) = {..<length h} - set seen" by auto
    with False 3 show ?thesis by (simp add: children_def)
  qed
qed auto

declare walk.simps [simp del]

lemma walk_last:
  "walk ok h [] seen"
  "walk ok h (rest @ [(x, d)]) seen \<longleftrightarrow> ok x d \<and> (case x of
      Container a \<Rightarrow> a \<notin> set seen \<and> walk ok h (rest @ map (\<lambda>y. (y, Suc d)) (children h a)) (a # seen)
    | _ \<Rightarrow> walk ok h rest seen)"
proof -
  show "walk ok h [] seen" by (simp add: walk.simps [of ok h "[]"])
  show "walk ok h (rest @ [(x, d)]) seen \<longleftrightarrow> ok x d \<and> (case x of
      Container a \<Rightarrow> a \<notin> set seen \<and> walk ok h (rest @ map (\<lambda>y. (y, Suc d)) (children h a)) (a # seen)
    | _ \<Rightarrow> walk ok h rest seen)"
    using walk.simps [of ok h "rest @ [(x, d)]" seen] by (cases x) simp_all
qed

definition forest :: "(pyobj \<Rightarrow> nat \<Rightarrow> bool) \<Rightarrow> object_heap \<Rightarrow> (pyobj \<times> nat) list \<Rightarrow> tree list \<Rightarrow> bool" where
  "forest ok h pending ts \<longleftrightarrow> list_all2 (\<lambda>p t. unfolds_to h (fst p) t \<and> fits ok (snd p) t) pending ts"

definition spread :: "tree list \<Rightarrow> nat list" where "spread ts = concat (map containers ts)"

lemma spread_append: "spread (ts @ us) = spread ts @ spread us" by (simp add: spread_def)

lemma forest_append:
  "forest ok h (ps @ qs) ts \<longleftrightarrow> (\<exists>us vs. ts = us @ vs \<and> forest ok h ps us \<and> forest ok h qs vs)"
proof
  assume "forest ok h (ps @ qs) ts"
  then show "\<exists>us vs. ts = us @ vs \<and> forest ok h ps us \<and> forest ok h qs vs"
    unfolding forest_def list_all2_append1 by blast
qed (auto simp: forest_def intro: list_all2_appendI)

lemma forest_children:
  "forest ok h (map (\<lambda>x. (x, d)) xs) ts \<longleftrightarrow> list_all2 (unfolds_to h) xs ts \<and> list_all (fits ok d) ts"
proof (induction xs arbitrary: ts)
  case (Cons x xs)
  then show ?case by (cases ts) (auto simp: forest_def)
next
  case Nil
  show ?case by (cases ts) (auto simp: forest_def)
qed

lemma unfolds_to_cases:
  "unfolds_to h (Container a) t \<longleftrightarrow> (\<exists>us. t = Node a us \<and> list_all2 (unfolds_to h) (children h a) us)"
  "unfolds_to h (Text_obj s) t \<longleftrightarrow> t = Leaf (Text_obj s)"
  "unfolds_to h Plain_obj t \<longleftrightarrow> t = Leaf Plain_obj"
  by (cases t; auto)+

lemma forest_single:
  "forest ok h [(x, d)] ts \<longleftrightarrow> ok x d \<and> (case x of
      Container a \<Rightarrow> (\<exists>us. ts = [Node a us] \<and> forest ok h (map (\<lambda>y. (y, Suc d)) (children h a)) us)
    | _ \<Rightarrow> ts = [Leaf x])"
proof -
  have "forest ok h [(x, d)] ts \<longleftrightarrow> (\<exists>t. ts = [t] \<and> unfolds_to h x t \<and> fits ok d t)"
    by (cases ts) (auto simp: forest_def)
  then show ?thesis
    by (cases x) (auto simp: unfolds_to_cases forest_children)
qed

lemma forest_leaf:
  assumes "\<forall>a. x \<noteq> Container a" "ok x d"
  shows "(\<exists>ts. forest ok h (rest @ [(x, d)]) ts \<and> distinct (spread ts) \<and> set (spread ts) \<inter> S = {}) \<longleftrightarrow>
    (\<exists>ts. forest ok h rest ts \<and> distinct (spread ts) \<and> set (spread ts) \<inter> S = {})"
proof -
  have "forest ok h [(x, d)] ts \<longleftrightarrow> ts = [Leaf x]" for ts
    using assms by (cases x) (auto simp: forest_single)
  then have F: "forest ok h (rest @ [(x, d)]) ts \<longleftrightarrow> (\<exists>us. ts = us @ [Leaf x] \<and> forest ok h rest us)" for ts
    unfolding forest_append by simp
  have "(\<exists>ts. forest ok h (rest @ [(x, d)]) ts \<and> distinct (spread ts) \<and> set (spread ts) \<inter> S = {}) \<longleftrightarrow>
      (\<exists>us. forest ok h rest us \<and> distinct (spread (us @ [Leaf x])) \<and> set (spread (us @ [Leaf x])) \<inter> S = {})"
    unfolding F by blast
  moreover have "spread (us @ [Leaf x]) = spread us" for us by (simp add: spread_def)
  ultimately show ?thesis by (simp only:)
qed

lemma walk_forest:
  "walk ok h pending seen \<longleftrightarrow>
     (\<exists>ts. forest ok h pending ts \<and> distinct (spread ts) \<and> set (spread ts) \<inter> set seen = {})"
proof (induction ok h pending seen rule: walk.induct)
  case (1 ok h pending seen)
  show ?case
  proof (cases pending rule: rev_cases)
    case Nil
    then show ?thesis by (auto simp: walk_last forest_def spread_def)
  next
    case (snoc rest p)
    obtain x d where p: "p = (x, d)" by (cases p)
    show ?thesis
    proof (cases "ok x d")
      case False
      then show ?thesis by (auto simp: snoc p walk_last forest_append forest_single)
    next
      case True
      show ?thesis
      proof (cases x)
        case (Container a)
        have IH: "walk ok h (rest @ map (\<lambda>y. (y, Suc d)) (children h a)) (a # seen) \<longleftrightarrow>
            (\<exists>ts. forest ok h (rest @ map (\<lambda>y. (y, Suc d)) (children h a)) ts \<and> distinct (spread ts) \<and>
               set (spread ts) \<inter> set (a # seen) = {})" if "a \<notin> set seen"
          using 1(2) [of a] True that by (simp add: snoc p Container)
        have one: "distinct (spread (us @ [Node a ws])) \<and> set (spread (us @ [Node a ws])) \<inter> set seen = {} \<longleftrightarrow>
            a \<notin> set seen \<and> distinct (spread (us @ ws)) \<and> set (spread (us @ ws)) \<inter> set (a # seen) = {}" for us ws
          by (auto simp: spread_append) (auto simp: spread_def)
        have "walk ok h pending seen \<longleftrightarrow> a \<notin> set seen \<and>
            walk ok h (rest @ map (\<lambda>y. (y, Suc d)) (children h a)) (a # seen)"
          using True by (simp add: snoc p Container walk_last)
        also have "\<dots> \<longleftrightarrow> (\<exists>us ws. forest ok h rest us \<and> forest ok h (map (\<lambda>y. (y, Suc d)) (children h a)) ws \<and>
            a \<notin> set seen \<and> distinct (spread (us @ ws)) \<and> set (spread (us @ ws)) \<inter> set (a # seen) = {})"
          using IH unfolding forest_append by blast
        also have "\<dots> \<longleftrightarrow> (\<exists>us ws. forest ok h rest us \<and> forest ok h (map (\<lambda>y. (y, Suc d)) (children h a)) ws \<and>
            distinct (spread (us @ [Node a ws])) \<and> set (spread (us @ [Node a ws])) \<inter> set seen = {})"
          unfolding one ..
        also have "\<dots> \<longleftrightarrow> (\<exists>ts. forest ok h pending ts \<and> distinct (spread ts) \<and> set (spread ts) \<inter> set seen = {})"
          unfolding snoc p Container forest_append forest_single using True Container by auto
        finally show ?thesis .
      next
        case (Text_obj s)
        have "walk ok h rest seen \<longleftrightarrow> (\<exists>ts. forest ok h rest ts \<and> distinct (spread ts) \<and> set (spread ts) \<inter> set seen = {})"
          using 1(1) True by (simp add: snoc p Text_obj)
        moreover have "walk ok h pending seen \<longleftrightarrow> walk ok h rest seen" using True by (simp add: snoc p Text_obj walk_last)
        ultimately show ?thesis using forest_leaf [of x ok d h rest "set seen"] True by (simp only: snoc p Text_obj) simp
      next
        case Plain_obj
        have "walk ok h rest seen \<longleftrightarrow> (\<exists>ts. forest ok h rest ts \<and> distinct (spread ts) \<and> set (spread ts) \<inter> set seen = {})"
          using 1(3) True by (simp add: snoc p Plain_obj)
        moreover have "walk ok h pending seen \<longleftrightarrow> walk ok h rest seen" using True by (simp add: snoc p Plain_obj walk_last)
        ultimately show ?thesis using forest_leaf [of x ok d h rest "set seen"] True by (simp only: snoc p Plain_obj) simp
      qed
    qed
  qed
qed

section \<open>The loops are this walk\<close>

lemma depth_loop_walk: "depth_loop m h pending seen = Some (walk (\<lambda>x d. d \<le> m) h pending seen)"
proof (induction "\<lambda>(x :: pyobj) d. d \<le> m" h pending seen rule: walk.induct)
  case (1 h pending seen)
  show ?case
  proof (cases pending rule: rev_cases)
    case Nil
    then show ?thesis by (simp add: walk_last depth_loop.simps)
  next
    case (snoc rest p)
    obtain x d where p: "p = (x, d)" by (cases p)
    have "depth_loop m h (rest @ [(x, d)]) seen = (if m < d then Some False
        else (case x of
            Container a \<Rightarrow> if a \<in> set seen then Some False
              else depth_loop m h (rest @ map (\<lambda>x. (x, Suc d)) (children h a)) (a # seen)
          | _ \<Rightarrow> depth_loop m h rest seen))"
      by (subst depth_loop.simps) simp
    then show ?thesis using 1 by (cases x) (auto simp: snoc p walk_last)
  qed
qed

definition text_ok :: "(string \<Rightarrow> bool) \<Rightarrow> pyobj \<Rightarrow> nat \<Rightarrow> bool" where
  "text_ok nfc x d \<longleftrightarrow> (case x of Text_obj s \<Rightarrow> nfc s | _ \<Rightarrow> True)"

lemma nfc_loop_walk: "nfc_loop nfc h (map fst pending) seen = Some (walk (text_ok nfc) h pending seen)"
proof (induction "text_ok nfc" h pending seen rule: walk.induct)
  case (1 h pending seen)
  show ?case
  proof (cases pending rule: rev_cases)
    case Nil
    then show ?thesis by (simp add: walk_last nfc_loop.simps)
  next
    case (snoc rest p)
    obtain x d where p: "p = (x, d)" by (cases p)
    have "nfc_loop nfc h (map fst rest @ [x]) seen = (case x of
            Text_obj s \<Rightarrow> if \<not> nfc s then Some False else nfc_loop nfc h (map fst rest) seen
          | Container a \<Rightarrow> if a \<in> set seen then Some False
              else nfc_loop nfc h (map fst rest @ children h a) (a # seen)
          | Plain_obj \<Rightarrow> nfc_loop nfc h (map fst rest) seen)"
      by (subst nfc_loop.simps) (simp add: Let_def)
    then show ?thesis using 1 by (cases x) (auto simp: snoc p walk_last text_ok_def comp_def)
  qed
qed

lemma fits_depth: "fits (\<lambda>x d. d \<le> m) d t \<longleftrightarrow> d + height t \<le> m"
proof (induction t arbitrary: d)
  case (Node a ts)
  have f: "fold (\<lambda>t n. max (Suc (height t)) n) ts b \<le> k \<longleftrightarrow> b \<le> k \<and> (\<forall>t\<in>set ts. Suc (height t) \<le> k)" for b k
    by (induction ts arbitrary: b) auto
  show ?case
  proof (cases "d \<le> m")
    case True
    then have "d + height (Node a ts) \<le> m \<longleftrightarrow> height (Node a ts) \<le> m - d" by linarith
    also have "\<dots> \<longleftrightarrow> (\<forall>t\<in>set ts. Suc d + height t \<le> m)" using True by (auto simp: f)
    finally show ?thesis using True Node by (auto simp: list_all_iff)
  qed auto
qed simp

lemma fits_text: "fits (text_ok nfc) d t \<longleftrightarrow> list_all nfc (texts t)"
  by (induction t arbitrary: d) (auto simp: text_ok_def list_all_iff split: pyobj.splits)

lemma walk_tree:
  "walk ok h [(v, 0)] [] \<longleftrightarrow> (\<exists>t. unshared_tree h v t \<and> fits ok 0 t)"
proof -
  have "forest ok h [(v, 0)] ts \<longleftrightarrow> (\<exists>t. ts = [t] \<and> unfolds_to h v t \<and> fits ok 0 t)" for ts
    by (cases ts) (auto simp: forest_def)
  then show ?thesis by (auto simp: walk_forest unshared_tree_def spread_def)
qed

text \<open>
  C40: the guards return on every heap, however its containers share or contain each other, and
  what they return is whether the value is a finite tree in which no container occurs twice, and
  which is at most as deep as allowed, or whose strings and keys are all in normal form.
\<close>

theorem tree_guards_terminate:
  "\<exists>shallow normal. json_tree_depth_is_supported m h v = Some shallow \<and> nfc_tree nfc h v = Some normal \<and>
     (shallow \<longleftrightarrow> (\<exists>t. unshared_tree h v t \<and> height t \<le> m)) \<and>
     (normal \<longleftrightarrow> (\<exists>t. unshared_tree h v t \<and> list_all nfc (texts t)))"
  using nfc_loop_walk [of nfc h "[(v, 0)]" "[]"]
  by (simp add: json_tree_depth_is_supported_def nfc_tree_def depth_loop_walk walk_tree fits_depth fits_text)

theorem tree_guards_terminate_witness:
  "json_tree_depth_is_supported 128 [Sequence_obj [Plain_obj, Container 0]] (Container 0) = Some False"
proof -
  let ?h = "[Sequence_obj [Plain_obj, Container 0]]"
  have "\<not> unshared_tree ?h (Container 0) t" for t
  proof
    assume t: "unshared_tree ?h (Container 0) t"
    then obtain us where "t = Node 0 us" "list_all2 (unfolds_to ?h) [Plain_obj, Container 0] us"
      by (auto simp: unshared_tree_def unfolds_to_cases children_def)
    then obtain ws where "t = Node 0 [Leaf Plain_obj, Node 0 ws]"
      by (auto simp: list_all2_Cons1 unfolds_to_cases)
    with t show False by (simp add: unshared_tree_def)
  qed
  with tree_guards_terminate [of 128 ?h "Container 0" "\<lambda>s. True"]
  obtain shallow where "json_tree_depth_is_supported 128 ?h (Container 0) = Some shallow" "\<not> shallow" by blast
  then show ?thesis by simp
qed

end
