(* ===== verification/Spec2Isabelle.thy ===== *)
theory Spec2Isabelle
  imports HandPotProps WorkflowProofs DurableProps RevisionProps RangeProps RangeEquityProps ObjectTrees
begin

text \<open>
  A verification library for the Python package \<open>poker_deliberation\<close> (sources under
  \<open>src/poker_deliberation\<close>).  The package reviews poker hands: a hand history is normalised, exact
  calculators are run on it, and an orchestrator drives the review through a fixed workflow while
  every resource it spends is charged to a budget.  The library models the parts that carry
  the program's guarantees.

  \<^item> The versioned hand and pot ledger (\<open>schemas.py\<close>, \<open>tools/cards.py\<close>,
    \<open>tools/hand_pot_ledger.py\<close>).  \<open>HandSchema\<close> and \<open>Cards\<close> hold the input model,
    \<open>HandPotLedger\<close> the contract models, the unit conversions and the class
    \<open>_LedgerBuilder\<close> (its attributes are the record \<open>ledger_state\<close>, \<open>apply\<close> is
    \<open>ledger_apply\<close>, \<open>finish\<close> is \<open>ledger_finish\<close>), \<open>HandPotOracle\<close> the independent
    recomputation \<open>_oracle_expected\<close> and the tool \<open>calculate_hand_pot_ledger\<close>.
    \<open>HandPotProofs\<close> and \<open>HandPotMain\<close> prove the accounting invariant of every action and
    a simulation between the builder and the oracle; \<open>HandPotGuards\<close> follows a hand from its
    forced posts through the betting and shows why the guards on returns, on the pot and on its
    layers never fire, and that every recorded interval is a recorded action.  \<open>HandPotProps\<close>
    states the properties: the oracle always agrees, the builder's internal guards cannot fail,
    every chip is accounted for, the pot layers partition the pot, and each of them can be won
    and is evidenced.  \<open>HandPotSample\<close> is a concrete hand.
  \<^item> The budget contract and the serial usage ledger (\<open>budgets/contracts.py\<close>,
    \<open>budgets/retry.py\<close>, \<open>budgets/ledger.py\<close>): \<open>BudgetContracts\<close>, \<open>SerialLedger\<close> and
    \<open>SerialLedgerProofs\<close>.  A method is a function from the ledger to a result or a
    failure and the ledger it leaves; the properties speak of any sequence of calls, failing or
    not: the caps hold until a failure is latched, a latch is final for every call that looks
    at it, and runtime is the clock time of the active ledger.
  \<^item> The workflow state machine and the legacy configuration it accepts (\<open>state_machine.py\<close>,
    \<open>config.py\<close>): \<open>Workflow\<close> and \<open>WorkflowProofs\<close>.  The properties: the event log is a path of
    the transition table, a completed run was reviewed, terminal states are final up to a
    reported budget failure, the counters respect their caps, and no state is a trap.
  \<^item> The durable budget store (\<open>budgets/durable_models.py\<close>, \<open>budgets/durable_store.py\<close>):
    \<open>DurableModels\<close> holds the immutable values and \<open>validate_snapshot\<close>, \<open>DurableStore\<close>
    the successor check, the clock bookkeeping, loading, replaying and publishing,
    \<open>DurableOps\<close> the eight operations.  The proofs are layered: \<open>DurableProofs\<close> (a successor
    that passes its snapshot check may be appended to a loadable history), \<open>DurableSteps\<close> (each
    operation in elimination form, and the fact that what it publishes passes the successor
    check), \<open>DurableRuns\<close> (sequences of operations; a failing one changes nothing),
    \<open>DurableProgress\<close> and \<open>DurableAdmission\<close> (the dictionary scans of \<open>validate_snapshot\<close>
    against declarative rules; when \<open>reserve\<close> succeeds), \<open>DurableAccounts\<close> (the abstract account
    of usage and reservations that every operation steps), \<open>Identifiers\<close> (the secret patterns
    cannot match plain identifiers), \<open>DurableSample\<close> (a concrete run) and \<open>DurableProps\<close>, which
    states the properties: a run always reloads, the exception to that, budgets are never
    overspent, the books balance, \<open>reserve\<close> is total and typed, the durable state only grows.

  \<^item> The revision store (\<open>storage/revision_models.py\<close>, \<open>revision_canonical.py\<close>,
    \<open>revision_lock.py\<close>, \<open>revision_store.py\<close>), which publishes the state of a run as numbered
    immutable revisions under a compare-and-swap of \<open>current.json\<close>.  \<open>JsonParse\<close> is the strict
    reader of canonical JSON, \<open>RevisionModels\<close> the control records, \<open>RevisionCanonical\<close> names,
    the admission table, provenance and inventories, \<open>RevisionFiles\<close> the files of a run and
    the operating system under them, \<open>RevisionChain\<close> preparation, verification, the lineage and the
    readers, \<open>RevisionLock\<close> the lock, \<open>RevisionStore\<close> the method \<open>publish\<close>.  A method is a
    function on a world: the files and a list of decisions, one for each call of the operating
    system, which succeeds, raises before, within or after its effect, or ends the process there.
    The proofs: \<open>RevisionRules\<close> and \<open>RevisionErrors\<close> (rules for calls and for what they raise),
    \<open>RevisionLineage\<close> and \<open>RevisionHistory\<close> (a run as the log of its chain, and what a new
    revision or a new pointer does to it), \<open>RevisionSafety\<close>, \<open>RevisionStaging\<close> and
    \<open>RevisionPublish\<close> (every part of \<open>publish\<close> under every decision), \<open>RevisionLog\<close> (the
    simulation of an append-only log), \<open>RevisionReplay\<close>, \<open>RevisionLive\<close> and \<open>RevisionAvail\<close>
    (what is written verifies; publications succeed when nothing fails), \<open>RevisionReaders\<close>,
    \<open>RevisionSample\<close> (a concrete request) and \<open>RevisionProps\<close>, which states the properties.

  \<^item> The range grammar (\<open>range_models.py\<close>, \<open>range_grammar.py\<close>): \<open>RangeModels\<close> holds the records of
    a range, of its result and of the conditions it is bound to, \<open>RangeGrammar\<close> the tokens, the
    weights, the blockers and \<open>validate_versioned_range\<close>.  \<open>RangeTokens\<close> states what a token
    means without the code (\<open>names\<close> and \<open>denotes\<close>: a pair, a suited or an offsuit class, or two
    cards, with an optional weight) and proves the expansion right, \<open>RangeExpand\<close> and \<open>RangeProofs\<close> the loop over the
    tokens and the canonical notation, \<open>RangeSample\<close> is a concrete range, \<open>RangeProps\<close> states the
    properties: validation is total, succeeds exactly for a range without conflict, lists exactly
    the combos it denotes, and is idempotent on its own canonical notation.
  \<^item> The hand evaluator (\<open>tools/cards.py\<close>): \<open>HandRanks\<close> is the code, with its groups of rank
    counts and straights, \<open>HandRankProofs\<close> compares it with the rules of poker written as an order
    on hands (\<open>worth\<close>), and \<open>HandRankProps\<close> states that \<open>evaluate_holdem\<close> finds the best five of
    seven cards (\<open>best_five\<close>).
  \<^item> The bridge from a range to river equity (\<open>range_equity_models.py\<close>, \<open>range_equity.py\<close>):
    \<open>RangeEquityModels\<close> is the binding of an admitted case and the projection of the oracle,
    \<open>RangeEquity\<close> the admission and the exact oracle, \<open>RangeEquityProofs\<close> decides the admission by
    a list of conditions and relates the oracle's sums to the equity of the hero over the weighted
    combos, \<open>RangeEquitySample\<close> is a concrete case, \<open>RangeEquityProps\<close> states the properties.
    \<open>ObjectTrees\<close> holds the two guards that walk an untrusted object graph with a work list; the
    graph is a heap of containers, which may be cyclic, so the loops are partial functions and
    their termination is a property of its own.

  The interfaces are locales of \<open>Prelude\<close>: \<open>call_system\<close> and \<open>growing_system\<close> for components
  whose every call leaves a new state (interpreted on the serial ledger, on the workflow
  machine and on the account of the durable budgets), \<open>checked_system\<close> for components whose
  failing calls change nothing (interpreted on the hand ledger and on the durable runs); and
  \<open>append_log\<close> of \<open>RevisionLog\<close> for stores whose steps only extend a numbered log (interpreted on
  the publications of a run).

  Conventions.  Python integers are \<open>int\<close>, a finite float is the rational it denotes, a
  \<open>Decimal\<close> computation rounds to 28 digits half-even (\<open>PyNum\<close>), a \<open>Fraction\<close> is exact.
  A pydantic model is a record with a predicate \<open>..._ok\<close> for its constraints.  An exception is
  the left value of a sum; a method that fails after changing attributes returns the changed
  state beside the error.  Regular expressions are terms matched by \<open>PyRegex\<close>; canonical JSON and
  SHA-256 are computed (\<open>Json\<close>, \<open>Sha256\<close>), so hashes are values and not assumptions.  Strings
  are 8-bit code points.  The shortest decimal text of a float is searched up to
  \<open>max_places\<close> = 350 fractional digits, which covers every binary double of the policy's range.

  Of the revision store these are parameters (\<open>admission\<close>, \<open>store_config\<close>): the schema check of
  each payload and the graph of sources (\<open>_validated_payload\<close>, \<open>_validate_source_graph\<close> and the
  isolated-job cross checks), the replay of \<open>classify_artifact\<close>, and the path length limits;
  nothing is assumed of them.  The properties that need it assume that no two manifests of the run have
  the same SHA-256 (\<open>unambiguous\<close>), and the two that speak of a success exclude that its two
  control files do.  Calls take effect in the order they are made: a process may end anywhere, but a
  completed call is not undone or reordered by a loss of power.  Other processes are kept out by
  the lock; a reader that meets one sees it as a failing call.

  Not modelled.  The durable budgets see the revision store as a parameter (\<open>revision_api\<close>).  Of the
  revision store itself, the initialization and reconciliation of its root, the bindings of
  authorities, and the inspection and claiming of orphans are left out; the
  \<open>fault_injector\<close> of its tests is absent, its failures are decisions.  The orchestrator, the phases, the other stores, the bridges to
  external models, the command line and the reporting code are input and output or glue over
  these components; approvals, isolated jobs and the bounded review workflows are not modelled.
  Of the range grammar and the equity bridge the replay of a chain of recorded tool calls, the
  result and admission records of a finished run, its evaluation harness and its admission store
  are left out; what the bridge takes from code outside these files is the record \<open>equity_env\<close>
  (Unicode normal form, redaction, the strict parse of a case, the recursion limit), of which
  nothing is assumed but what a property names.  The amounts of a case are floats as given (a
  defaulted integer 0 is not told from 0.0), and the claims, evidence and assumptions of a case are
  kept as JSON.  Display texts (\<open>message\<close>, \<open>reason\<close>, \<open>limitations\<close>) are left out, and
  so is the projection of a state to a JSON snapshot with binary floats
  (\<open>WorkflowStateMachine.snapshot\<close>, \<open>from_snapshot\<close>).
\<close>

end
